(* ===== verification/Prelude.thy ===== *)
theory Prelude
  imports Main "HOL-Library.AList" "HOL-Library.Word" "HOL-Library.Char_ord"
    "HOL-Library.List_Lexorder"
begin

text \<open>
  Shared vocabulary of the development: the exceptions the Python code raises, text and byte
  strings, instants, insertion-ordered dictionaries, the error monad, and the small library
  functions of Python (\<^verbatim>\<open>str.strip\<close>, \<^verbatim>\<open>str(int)\<close>, \<^verbatim>\<open>int(bytes)\<close>) that several components
  call. The named collections at the top gather the rewriting rules the component proofs use.

  Text is a \<^typ>\<open>string\<close>, one \<^typ>\<open>char\<close> per code point, so it covers the code points up to
  \<^verbatim>\<open>U+00FF\<close>. An instant is the number of microseconds since 1970-01-01 UTC as an \<^typ>\<open>int\<close>:
  the code normalises every datetime to UTC before it stores or compares it.
\<close>

named_theorems dict_simps \<open>lookup, update and deletion in insertion-ordered dictionaries\<close>
named_theorems result_simps \<open>computing in the error monad\<close>
named_theorems op_defs \<open>definitions of state-changing operations\<close>

section \<open>Exceptions and the error monad\<close>

datatype py_error =
    ValueError
  | TypeError
  | RuntimeError
  | KeyError
  | StopIteration
  | ImproperlyConfigured
  | NotAuthorized
  | PermissionDenied
  | AttributeError
  | TransportError int
  | SessionUnavailable
  | SessionPersistenceUnavailable
  | ServiceUnavailable
  | Injected string

type_synonym 'a result = "py_error + 'a"

definition bind :: "'e + 'a \<Rightarrow> ('a \<Rightarrow> 'e + 'b) \<Rightarrow> 'e + 'b" where
  "bind r f = (case r of Inl e \<Rightarrow> Inl e | Inr a \<Rightarrow> f a)"

lemma bind_simps [simp, result_simps]:
  "bind (Inl e) f = Inl e"
  "bind (Inr a) f = f a"
  by (simp_all add: bind_def)

lemma bind_eq_Inr [result_simps]:
  "bind r f = Inr b \<longleftrightarrow> (\<exists>a. r = Inr a \<and> f a = Inr b)"
  by (cases r) auto

lemma bind_cong [fundef_cong]:
  "r = s \<Longrightarrow> (\<And>a. s = Inr a \<Longrightarrow> f a = g a) \<Longrightarrow> bind r f = bind s g"
  by (cases s) auto

text \<open>Evaluating a tuple of expressions left to right: the first exception wins.\<close>

fun collect :: "('e + 'a) list \<Rightarrow> 'e + 'a list" where
  "collect [] = Inr []"
| "collect (r # rs) = bind r (\<lambda>a. bind (collect rs) (\<lambda>as. Inr (a # as)))"

lemma collect_Inr_iff: "collect rs = Inr as \<longleftrightarrow> rs = map Inr as"
proof (induction rs arbitrary: as)
  case Nil
  then show ?case by auto
next
  case (Cons r rs)
  then show ?case
    by (cases r; cases as) (auto simp: result_simps)
qed

lemma collect_map_Inr [simp]: "collect (map (\<lambda>x. Inr (f x)) xs) = Inr (map f xs)"
  by (induction xs) auto

section \<open>Instants\<close>

type_synonym time = int

text \<open>
  What application code may hand over: a timezone-aware datetime, already converted to the UTC
  instant it denotes, or a naive one.
\<close>

datatype py_datetime = Aware time | Naive int

fun aware_utc_time :: "py_datetime \<Rightarrow> time result" where
  "aware_utc_time (Aware t) = Inr t"
| "aware_utc_time (Naive _) = Inl ValueError"

definition seconds :: "int \<Rightarrow> time" where
  "seconds n = n * 1000000"

section \<open>Text\<close>

definition is_space :: "char \<Rightarrow> bool" where
  "is_space c =
     (let n = (of_char c :: nat)
      in (9 \<le> n \<and> n \<le> 13) \<or> (28 \<le> n \<and> n \<le> 32) \<or> n = 133 \<or> n = 160)"

definition strip :: "string \<Rightarrow> string" where
  "strip s = rev (dropWhile is_space (rev (dropWhile is_space s)))"

definition trimmed :: "string \<Rightarrow> bool" where
  "trimmed s \<longleftrightarrow> s \<noteq> [] \<and> \<not> is_space (hd s) \<and> \<not> is_space (last s)"

lemma strip_trimmed: "trimmed s \<Longrightarrow> strip s = s"
proof -
  assume t: "trimmed s"
  then have "dropWhile is_space s = s"
    by (cases s) (auto simp: trimmed_def)
  moreover have "dropWhile is_space (rev s) = rev s"
  proof (cases "rev s")
    case (Cons c cs)
    then have "last s = c"
      by (metis hd_rev list.sel(1))
    with t Cons show ?thesis
      by (simp add: trimmed_def)
  qed simp
  ultimately show ?thesis
    by (simp add: strip_def)
qed

lemma trimmed_strip: "strip s \<noteq> [] \<Longrightarrow> trimmed (strip s)"
proof -
  assume ne: "strip s \<noteq> []"
  let ?l = "dropWhile is_space s"
  let ?r = "dropWhile is_space (rev ?l)"
  from ne have rne: "?r \<noteq> []"
    by (simp add: strip_def)
  have lne: "?l \<noteq> []"
    using rne by (cases "?l") (simp_all del: dropWhile_eq_Nil_conv)
  have "\<not> is_space (hd ?r)"
    using hd_dropWhile [OF rne] .
  then have last: "\<not> is_space (last (strip s))"
    by (simp add: strip_def last_rev)
  obtain p where "rev ?l = p @ ?r"
    by (metis takeWhile_dropWhile_id)
  then have "?l = rev ?r @ rev p"
    by (metis rev_append rev_rev_ident)
  then have "hd (rev ?r) = hd ?l"
    by (metis hd_append2 rne rev_is_Nil_conv)
  moreover have "\<not> is_space (hd ?l)"
    using hd_dropWhile [OF lne] .
  ultimately have "\<not> is_space (hd (strip s))"
    by (simp add: strip_def)
  with ne last show ?thesis
    by (simp add: trimmed_def)
qed

lemma strip_strip [simp]: "strip (strip s) = strip s"
proof (cases "strip s = []")
  case True
  moreover have "strip [] = []"
    by (simp add: strip_def)
  ultimately show ?thesis by simp
next
  case False
  then show ?thesis by (simp add: trimmed_strip strip_trimmed)
qed

lemma strip_eq_self: "s \<noteq> [] \<Longrightarrow> strip s = s \<longleftrightarrow> trimmed s"
  by (metis strip_trimmed trimmed_strip)

text \<open>\<^verbatim>\<open>len(value.encode("utf-8"))\<close> for the code points of the model.\<close>

definition utf8_length :: "string \<Rightarrow> nat" where
  "utf8_length s = sum_list (map (\<lambda>c. if (of_char c :: nat) < 128 then 1 else 2) s)"

definition is_ascii :: "string \<Rightarrow> bool" where
  "is_ascii s = list_all (\<lambda>c. (of_char c :: nat) < 128) s"

subsection \<open>Decimal numerals\<close>

definition digit_char :: "nat \<Rightarrow> char" where
  "digit_char n = char_of (48 + n)"

fun show_nat :: "nat \<Rightarrow> string" where
  "show_nat n = (if n < 10 then [digit_char n] else show_nat (n div 10) @ [digit_char (n mod 10)])"

declare show_nat.simps [simp del]

definition show_int :: "int \<Rightarrow> string" where
  "show_int i = (if i < 0 then CHR ''-'' # show_nat (nat (- i)) else show_nat (nat i))"

definition digit_value :: "char \<Rightarrow> nat option" where
  "digit_value c =
     (let n = (of_char c :: nat) in if 48 \<le> n \<and> n \<le> 57 then Some (n - 48) else None)"

text \<open>
  \<^verbatim>\<open>int(text)\<close>: surrounding whitespace, an optional sign, then decimal digits with single
  underscores between them. \<open>None\<close> is Python's ValueError.
\<close>

fun read_digits :: "nat \<Rightarrow> string \<Rightarrow> nat option" where
  "read_digits acc [] = Some acc"
| "read_digits acc [c] =
     (case digit_value c of None \<Rightarrow> None | Some d \<Rightarrow> Some (acc * 10 + d))"
| "read_digits acc (c # c' # cs) =
     (case digit_value c of
        None \<Rightarrow> None
      | Some d \<Rightarrow>
          if c' = CHR ''_'' then (if cs = [] then None else read_digits (acc * 10 + d) cs)
          else read_digits (acc * 10 + d) (c' # cs))"

definition read_nat :: "string \<Rightarrow> nat option" where
  "read_nat s = (if s = [] then None else read_digits 0 s)"

definition read_int :: "string \<Rightarrow> int option" where
  "read_int text =
     (case strip text of
        [] \<Rightarrow> None
      | c # cs \<Rightarrow>
          if c = CHR ''-'' then map_option (\<lambda>n. - int n) (read_nat cs)
          else if c = CHR ''+'' then map_option int (read_nat cs)
          else map_option int (read_nat (c # cs)))"

lemma digit_char_code: "n < 10 \<Longrightarrow> (of_char (digit_char n) :: nat) = 48 + n"
  by (simp add: digit_char_def)

lemma digit_value_char [simp]: "n < 10 \<Longrightarrow> digit_value (digit_char n) = Some n"
  by (simp add: digit_value_def digit_char_code)

lemma digit_char_not_space: "n < 10 \<Longrightarrow> \<not> is_space (digit_char n)"
  by (simp add: is_space_def digit_char_code)

lemma digit_char_neq:
  "n < 10 \<Longrightarrow> digit_char n \<noteq> CHR ''_''"
  "n < 10 \<Longrightarrow> digit_char n \<noteq> CHR ''-''"
  "n < 10 \<Longrightarrow> digit_char n \<noteq> CHR ''+''"
  using digit_char_code [of n] by auto

lemma read_digits_snoc:
  "read_digits acc ds = Some m \<Longrightarrow> ds \<noteq> [] \<Longrightarrow> d < 10 \<Longrightarrow>
     read_digits acc (ds @ [digit_char d]) = Some (m * 10 + d)"
proof (induction acc ds rule: read_digits.induct)
  case (2 acc c)
  then show ?case
    by (auto simp: digit_char_neq split: option.splits)
next
  case (3 acc c c' cs)
  then show ?case
    by (cases cs) (auto simp: digit_char_neq split: option.splits if_splits)
qed simp

lemma show_nat_nonempty [simp]: "show_nat n \<noteq> []"
  by (subst show_nat.simps) simp

lemma set_show_nat: "c \<in> set (show_nat n) \<Longrightarrow> \<exists>d<10. c = digit_char d"
proof (induction n rule: show_nat.induct)
  case (1 n)
  show ?case
  proof (cases "n < 10")
    case True
    with "1.prems" show ?thesis by (auto simp: show_nat.simps [of n])
  next
    case False
    with "1.prems" consider "c \<in> set (show_nat (n div 10))" | "c = digit_char (n mod 10)"
      by (auto simp: show_nat.simps [of n])
    then show ?thesis
    proof cases
      case 1
      with "1.IH" False show ?thesis by simp
    next
      case 2
      moreover have "n mod 10 < 10" by simp
      ultimately show ?thesis by blast
    qed
  qed
qed

lemma read_digits_show_nat: "read_digits 0 (show_nat n) = Some n"
proof (induction n rule: show_nat.induct)
  case (1 n)
  show ?case
  proof (cases "n < 10")
    case True
    then show ?thesis by (simp add: show_nat.simps [of n])
  next
    case False
    with "1.IH" show ?thesis
      by (simp add: show_nat.simps [of n] read_digits_snoc div_mult_mod_eq)
  qed
qed

lemma read_nat_show_nat [simp]: "read_nat (show_nat n) = Some n"
  by (simp add: read_nat_def read_digits_show_nat)

lemma trimmed_show_nat: "trimmed (show_nat n)"
  using set_show_nat [of "hd (show_nat n)" n] set_show_nat [of "last (show_nat n)" n]
  by (auto simp: trimmed_def digit_char_not_space)

lemma read_int_show_nat [simp]: "read_int (show_nat n) = Some (int n)"
proof -
  obtain c cs where cs: "show_nat n = c # cs"
    by (cases "show_nat n") auto
  then obtain d where "d < 10" "c = digit_char d"
    using set_show_nat [of c n] by auto
  moreover have "strip (show_nat n) = c # cs"
    using strip_trimmed [OF trimmed_show_nat] cs by metis
  moreover have "read_nat (c # cs) = Some n"
    using read_nat_show_nat cs by metis
  ultimately show ?thesis
    by (simp add: read_int_def digit_char_neq)
qed

lemma show_nat_inject [simp]: "show_nat m = show_nat n \<longleftrightarrow> m = n"
  by (metis option.inject read_nat_show_nat)

section \<open>Byte strings\<close>

type_synonym bytes = "8 word list"

definition zero_bytes :: "nat \<Rightarrow> bytes" where
  "zero_bytes n = replicate n 0"

section \<open>Insertion-ordered dictionaries\<close>

text \<open>
  A Python \<^verbatim>\<open>dict\<close> is an association list in insertion order: assignment to a present key keeps
  its position, assignment to a new key appends (\<open>AList.update\<close>), deletion drops the entry
  (\<open>AList.delete\<close>), \<^verbatim>\<open>get\<close> is \<open>map_of\<close>. Keys are distinct in every dictionary built so.
\<close>

type_synonym ('k, 'v) dict = "('k \<times> 'v) list"

abbreviation dget :: "('k, 'v) dict \<Rightarrow> 'k \<Rightarrow> 'v option" where
  "dget d k \<equiv> map_of d k"

abbreviation dset :: "'k \<Rightarrow> 'v \<Rightarrow> ('k, 'v) dict \<Rightarrow> ('k, 'v) dict" where
  "dset k v d \<equiv> AList.update k v d"

abbreviation ddel :: "'k \<Rightarrow> ('k, 'v) dict \<Rightarrow> ('k, 'v) dict" where
  "ddel k d \<equiv> AList.delete k d"

abbreviation dvalues :: "('k, 'v) dict \<Rightarrow> 'v list" where
  "dvalues d \<equiv> map snd d"

definition dict_ok :: "('k, 'v) dict \<Rightarrow> bool" where
  "dict_ok d = distinct (map fst d)"

lemma dict_ok_Nil [simp]: "dict_ok []"
  by (simp add: dict_ok_def)

lemma dict_ok_dset [simp, dict_simps]: "dict_ok d \<Longrightarrow> dict_ok (dset k v d)"
  by (simp add: dict_ok_def distinct_update)

lemma dict_ok_ddel [simp, dict_simps]: "dict_ok d \<Longrightarrow> dict_ok (ddel k d)"
  by (simp add: dict_ok_def distinct_delete)

lemma dict_ok_filter [simp, dict_simps]: "dict_ok d \<Longrightarrow> dict_ok (filter P d)"
  by (simp add: dict_ok_def distinct_map_filter)

lemma dget_dset [dict_simps]: "dget (dset k v d) x = (if x = k then Some v else dget d x)"
  by (simp add: update_conv')

lemma dget_ddel [dict_simps]: "dget (ddel k d) x = (if x = k then None else dget d x)"
  by (simp add: delete_conv')

lemma mem_dict_iff: "dict_ok d \<Longrightarrow> (k, v) \<in> set d \<longleftrightarrow> dget d k = Some v"
  by (simp add: dict_ok_def)

lemma mem_dvalues_iff: "dict_ok d \<Longrightarrow> v \<in> set (dvalues d) \<longleftrightarrow> (\<exists>k. dget d k = Some v)"
  by (force simp: mem_dict_iff [symmetric])

lemma dget_filter:
  "dict_ok d \<Longrightarrow>
     dget (filter (\<lambda>(k, v). P k v) d) x =
       (case dget d x of None \<Rightarrow> None | Some v \<Rightarrow> if P x v then Some v else None)"
  by (induction d) (force simp: dict_ok_def split: option.splits)+

lemma dget_map_values:
  "dget (map (\<lambda>(k, v). (k, f v)) d) x = map_option f (dget d x)"
  by (induction d) auto

lemma dict_ok_map_values [simp, dict_simps]:
  "dict_ok (map (\<lambda>(k, v). (k, f v)) d) \<longleftrightarrow> dict_ok d"
  by (simp add: dict_ok_def comp_def case_prod_unfold)

text \<open>\<^verbatim>\<open>next((v for v in d.values() if p(v)), None)\<close>.\<close>

definition find_value :: "('v \<Rightarrow> bool) \<Rightarrow> ('k, 'v) dict \<Rightarrow> 'v option" where
  "find_value p d = List.find p (dvalues d)"

lemma find_value_Some: "find_value p d = Some v \<Longrightarrow> v \<in> set (dvalues d) \<and> p v"
  by (auto simp: find_value_def find_Some_iff)

lemma find_value_None: "find_value p d = None \<longleftrightarrow> (\<forall>v \<in> set (dvalues d). \<not> p v)"
  by (simp add: find_value_def find_None_iff)

end
