(* ===== verification/Context.thy ===== *)
theory Context
  imports Prelude
begin

text \<open>
  The request context (\<^verbatim>\<open>context.py\<close>): the two session handles, the identity envelope, the
  authentication evidence, and the authorization snapshot with the credential restrictions that
  narrow it. Every value object's \<^verbatim>\<open>__post_init__\<close> is a function from the raw record to the
  normalised record or the exception it raises.
\<close>

section \<open>Session handles\<close>

datatype scope_type = Http | Websocket

record 'v scope =
  scope_session :: "(string, 'v) dict option"
  scope_kind :: scope_type

definition litestar_is_available :: "'v scope \<Rightarrow> bool" where
  "litestar_is_available s \<longleftrightarrow> scope_session s \<noteq> None"

definition litestar_can_persist :: "'v scope \<Rightarrow> bool" where
  "litestar_can_persist s \<longleftrightarrow> litestar_is_available s \<and> scope_kind s = Http"

definition session_mapping :: "'v scope \<Rightarrow> (string, 'v) dict result" where
  "session_mapping s =
     (case scope_session s of None \<Rightarrow> Inl SessionUnavailable | Some d \<Rightarrow> Inr d)"

definition writable_session :: "'v scope \<Rightarrow> (string, 'v) dict result" where
  "writable_session s =
     bind (session_mapping s)
       (\<lambda>d. if \<not> litestar_can_persist s then Inl SessionPersistenceUnavailable else Inr d)"

definition litestar_get :: "string \<Rightarrow> 'v \<Rightarrow> 'v scope \<Rightarrow> 'v result" where
  "litestar_get key fallback s =
     bind (session_mapping s)
       (\<lambda>d. Inr (case dget d key of None \<Rightarrow> fallback | Some v \<Rightarrow> v))"

definition litestar_set :: "string \<Rightarrow> 'v \<Rightarrow> 'v scope \<Rightarrow> unit result \<times> 'v scope" where
  "litestar_set key v s =
     (case writable_session s of
        Inl e \<Rightarrow> (Inl e, s)
      | Inr d \<Rightarrow> (Inr (), s\<lparr>scope_session := Some (dset key v d)\<rparr>))"

definition litestar_pop :: "string \<Rightarrow> 'v \<Rightarrow> 'v scope \<Rightarrow> 'v result \<times> 'v scope" where
  "litestar_pop key fallback s =
     (case writable_session s of
        Inl e \<Rightarrow> (Inl e, s)
      | Inr d \<Rightarrow>
          (Inr (case dget d key of None \<Rightarrow> fallback | Some v \<Rightarrow> v),
           s\<lparr>scope_session := Some (ddel key d)\<rparr>))"

definition litestar_clear :: "'v scope \<Rightarrow> unit result \<times> 'v scope" where
  "litestar_clear s =
     (case writable_session s of
        Inl e \<Rightarrow> (Inl e, s)
      | Inr d \<Rightarrow> (Inr (), s\<lparr>scope_session := Some []\<rparr>))"

definition null_get :: "string \<Rightarrow> 'v \<Rightarrow> unit \<Rightarrow> 'v result" where
  "null_get key fallback s = Inr fallback"

definition null_set :: "string \<Rightarrow> 'v \<Rightarrow> unit \<Rightarrow> unit result \<times> unit" where
  "null_set key v s = (Inl SessionUnavailable, s)"

definition null_pop :: "string \<Rightarrow> 'v \<Rightarrow> unit \<Rightarrow> 'v result \<times> unit" where
  "null_pop key fallback s = (Inr fallback, s)"

definition null_clear :: "unit \<Rightarrow> unit result \<times> unit" where
  "null_clear s = (Inl SessionUnavailable, s)"

lemmas litestar_defs =
  litestar_is_available_def litestar_can_persist_def session_mapping_def writable_session_def
  litestar_get_def litestar_set_def litestar_pop_def litestar_clear_def

lemmas null_defs = null_get_def null_set_def null_pop_def null_clear_def

subsection \<open>The session-handle protocol\<close>

text \<open>
  \<^verbatim>\<open>SessionHandle\<close> as an interface: what a caller may rely on whichever handle it was given. The
  commands a caller can issue are a datatype, so that a run is a list.
\<close>

datatype 'v session_command = SetKey string 'v | PopKey string 'v | ClearAll

fun run_commands ::
  "(string \<Rightarrow> 'v \<Rightarrow> 's \<Rightarrow> unit result \<times> 's) \<Rightarrow> (string \<Rightarrow> 'v \<Rightarrow> 's \<Rightarrow> 'v result \<times> 's) \<Rightarrow>
     ('s \<Rightarrow> unit result \<times> 's) \<Rightarrow> 'v session_command list \<Rightarrow> 's \<Rightarrow> 's" where
  "run_commands set_key pop clear [] s = s"
| "run_commands set_key pop clear (c # cs) s =
     run_commands set_key pop clear cs
       (case c of
          SetKey k v \<Rightarrow> snd (set_key k v s)
        | PopKey k d \<Rightarrow> snd (pop k d s)
        | ClearAll \<Rightarrow> snd (clear s))"

definition unavailable_errors :: "py_error set" where
  "unavailable_errors = {SessionUnavailable, SessionPersistenceUnavailable}"

locale session_handle =
  fixes can_persist :: "'s \<Rightarrow> bool"
    and get :: "string \<Rightarrow> 'v \<Rightarrow> 's \<Rightarrow> 'v result"
    and set_key :: "string \<Rightarrow> 'v \<Rightarrow> 's \<Rightarrow> unit result \<times> 's"
    and pop :: "string \<Rightarrow> 'v \<Rightarrow> 's \<Rightarrow> 'v result \<times> 's"
    and clear :: "'s \<Rightarrow> unit result \<times> 's"
  assumes set_persist: "can_persist s \<Longrightarrow> fst (set_key k v s) = Inr ()"
    and set_refused: "\<not> can_persist s \<Longrightarrow> fst (set_key k v s) \<in> Inl ` unavailable_errors"
    and set_read: "can_persist s \<Longrightarrow>
      get x d (snd (set_key k v s)) = (if x = k then Inr v else get x d s)"
    and pop_value: "can_persist s \<Longrightarrow> fst (pop k d s) = get k d s"
    and pop_read: "can_persist s \<Longrightarrow>
      get x d (snd (pop k d' s)) = (if x = k then Inr d else get x d s)"
    and clear_persist: "can_persist s \<Longrightarrow> fst (clear s) = Inr ()"
    and clear_refused: "\<not> can_persist s \<Longrightarrow> fst (clear s) \<in> Inl ` unavailable_errors"
    and clear_read: "can_persist s \<Longrightarrow> get x d (snd (clear s)) = Inr d"
    and kept_persist: "can_persist (snd (set_key k v s)) = can_persist s"
      "can_persist (snd (pop k d s)) = can_persist s"
      "can_persist (snd (clear s)) = can_persist s"
    and refused_unchanged: "\<not> can_persist s \<Longrightarrow> snd (set_key k v s) = s"
      "\<not> can_persist s \<Longrightarrow> snd (pop k d s) = s"
      "\<not> can_persist s \<Longrightarrow> snd (clear s) = s"
begin

abbreviation run :: "'v session_command list \<Rightarrow> 's \<Rightarrow> 's" where
  "run \<equiv> run_commands set_key pop clear"

lemma run_refused: "\<not> can_persist s \<Longrightarrow> run cs s = s"
  by (induction cs) (simp_all add: refused_unchanged split: session_command.splits)

lemma run_persist: "can_persist (run cs s) = can_persist s"
  by (induction cs arbitrary: s) (simp_all add: kept_persist split: session_command.splits)

lemma run_append: "run (cs @ ds) s = run ds (run cs s)"
  by (induction cs arbitrary: s) simp_all

lemma last_write_wins:
  assumes "can_persist s"
  shows "get k d (run (cs @ [SetKey k v]) s) = Inr v"
  using assms by (simp add: run_append run_persist set_read)

lemma cleared_reads_default:
  assumes "can_persist s"
  shows "get k d (run (cs @ [ClearAll]) s) = Inr d"
  using assms by (simp add: run_append run_persist clear_read)

end

interpretation native: session_handle litestar_can_persist litestar_get litestar_set litestar_pop
  litestar_clear
  by unfold_locales
    (auto simp: litestar_defs unavailable_errors_def dict_simps split: option.splits)

interpretation null: session_handle "\<lambda>_. False" null_get null_set null_pop null_clear
  by unfold_locales (auto simp: null_defs unavailable_errors_def)

section \<open>Normalisation\<close>

definition normalize_text :: "string \<Rightarrow> string result" where
  "normalize_text value = (let n = strip value in if n = [] then Inl ValueError else Inr n)"

text \<open>
  \<^verbatim>\<open>frozenset(f(v) for v in values)\<close> where every exception \<^verbatim>\<open>f\<close> can raise is a ValueError, so the
  outcome does not depend on the order the set is walked in.
\<close>

definition collect_set :: "('a \<Rightarrow> 'b result) \<Rightarrow> 'a set \<Rightarrow> 'b set result" where
  "collect_set f A = (if \<exists>a\<in>A. isl (f a) then Inl ValueError else Inr ((\<lambda>a. projr (f a)) ` A))"

definition normalize_values :: "string set \<Rightarrow> string set result" where
  "normalize_values values = collect_set normalize_text values"

definition normalize_optional_values :: "string set option \<Rightarrow> string set option result" where
  "normalize_optional_values values =
     (case values of None \<Rightarrow> Inr None | Some vs \<Rightarrow> bind (normalize_values vs) (\<lambda>n. Inr (Some n)))"

definition normalize_datetime :: "py_datetime \<Rightarrow> time result" where
  "normalize_datetime value = aware_utc_time value"

lemma normalize_text_trimmed [simp]: "trimmed v \<Longrightarrow> normalize_text v = Inr v"
  using strip_trimmed [of v] by (auto simp: normalize_text_def trimmed_def)

lemma normalize_text_Inr: "normalize_text v = Inr n \<Longrightarrow> trimmed n"
  by (auto simp: normalize_text_def Let_def trimmed_strip split: if_splits)

lemma collect_set_map:
  assumes "\<And>a. a \<in> A \<Longrightarrow> f a = Inr (g a)"
  shows "collect_set f A = Inr (g ` A)"
proof -
  have "(\<lambda>a. projr (f a)) ` A = g ` A"
    using assms by (intro image_cong) simp_all
  then show ?thesis
    using assms by (simp add: collect_set_def)
qed

lemma collect_set_id: "(\<And>a. a \<in> A \<Longrightarrow> f a = Inr a) \<Longrightarrow> collect_set f A = Inr A"
  using collect_set_map [of A f "\<lambda>a. a"] by simp

lemma normalize_values_trimmed [simp]: "\<forall>v\<in>S. trimmed v \<Longrightarrow> normalize_values S = Inr S"
  by (simp add: normalize_values_def collect_set_id)

lemma normalize_values_Inr: "normalize_values S = Inr N \<Longrightarrow> v \<in> N \<Longrightarrow> trimmed v"
  by (auto simp: normalize_values_def collect_set_def split: if_splits)
    (metis isl_def normalize_text_Inr sum.collapse(2))

section \<open>Principals\<close>

record 'u principal =
  principal_id :: "string option"
  display_name :: "string option"
  principal_user :: "'u option"

definition principal_post_init :: "'u principal \<Rightarrow> 'u principal result" where
  "principal_post_init p =
     bind
       (case principal_id p of
          None \<Rightarrow> if principal_user p \<noteq> None then Inl ValueError else Inr p
        | Some i \<Rightarrow> bind (normalize_text i) (\<lambda>n. Inr (p\<lparr>principal_id := Some n\<rparr>)))
       (\<lambda>q. case display_name q of
              None \<Rightarrow> Inr q
            | Some d \<Rightarrow> bind (normalize_text d) (\<lambda>n. Inr (q\<lparr>display_name := Some n\<rparr>)))"

definition anonymous :: "'u principal" where
  "anonymous = \<lparr>principal_id = None, display_name = None, principal_user = None\<rparr>"

definition is_authenticated :: "'u principal \<Rightarrow> bool" where
  "is_authenticated p \<longleftrightarrow> principal_id p \<noteq> None"

definition has_user :: "'u principal \<Rightarrow> bool" where
  "has_user p \<longleftrightarrow> principal_user p \<noteq> None"

definition require_user :: "'u principal \<Rightarrow> 'u result" where
  "require_user p = (case principal_user p of None \<Rightarrow> Inl NotAuthorized | Some u \<Rightarrow> Inr u)"

section \<open>Evidence\<close>

record evidence_input =
  in_mechanism :: string
  in_slot :: string
  in_authenticated_at :: py_datetime
  in_expires_at :: "py_datetime option"
  in_methods :: "string set"
  in_traits :: "string set"
  in_acr :: "string option"
  in_amr :: "string list"

record evidence =
  ev_mechanism :: string
  ev_slot :: string
  ev_authenticated_at :: time
  ev_expires_at :: "time option"
  ev_methods :: "string set"
  ev_traits :: "string set"
  ev_acr :: "string option"
  ev_amr :: "string list"

definition optional_result :: "('a \<Rightarrow> 'b result) \<Rightarrow> 'a option \<Rightarrow> 'b option result" where
  "optional_result f x = (case x of None \<Rightarrow> Inr None | Some a \<Rightarrow> bind (f a) (\<lambda>b. Inr (Some b)))"

definition evidence_post_init :: "evidence_input \<Rightarrow> evidence result" where
  "evidence_post_init e =
     bind (normalize_text (in_mechanism e)) (\<lambda>mechanism.
     bind (normalize_text (in_slot e)) (\<lambda>slot.
     bind (normalize_datetime (in_authenticated_at e)) (\<lambda>authenticated_at.
     bind (optional_result normalize_datetime (in_expires_at e)) (\<lambda>expires_at.
     bind (normalize_values (in_methods e)) (\<lambda>methods.
     bind (normalize_values (in_traits e)) (\<lambda>traits.
     bind (optional_result normalize_text (in_acr e)) (\<lambda>acr.
     bind (collect (map normalize_text (in_amr e))) (\<lambda>amr.
       Inr \<lparr>ev_mechanism = mechanism, ev_slot = slot, ev_authenticated_at = authenticated_at,
            ev_expires_at = expires_at, ev_methods = methods, ev_traits = traits, ev_acr = acr,
            ev_amr = amr\<rparr>))))))))"

section \<open>Properties\<close>

text \<open>A WebSocket connection never changes its session: whatever commands a handler issues
  through the native handle, the scope afterwards is the scope before, and every write is refused
  with SessionUnavailable or SessionPersistenceUnavailable.\<close>

theorem websocket_session_read_only:
  assumes "scope_kind s = Websocket"
  shows "run_commands litestar_set litestar_pop litestar_clear cs s = s \<and>
    fst (litestar_set k v s) \<in> Inl ` unavailable_errors"
  using assms native.run_refused [of s cs] native.set_refused [of s k v]
  by (simp_all add: litestar_can_persist_def)

theorem websocket_session_read_only_witness:
  "run_commands litestar_set litestar_pop litestar_clear
     [SetKey ''user'' (7::int), ClearAll, PopKey ''user'' 0]
     \<lparr>scope_session = Some [(''user'', 3)], scope_kind = Websocket\<rparr> =
     \<lparr>scope_session = Some [(''user'', 3)], scope_kind = Websocket\<rparr>"
  by (rule websocket_session_read_only [THEN conjunct1]) simp

end
