(* ===== verification/Authorization.thy ===== *)
theory Authorization
  imports Context
begin

text \<open>
  Authorization data and its narrowing by credentials (\<^verbatim>\<open>context.py\<close>): \<^verbatim>\<open>ResourcePermission\<close>,
  \<^verbatim>\<open>AuthorizationSnapshot\<close>, \<^verbatim>\<open>CredentialRestrictions\<close>, \<^verbatim>\<open>resolve_authorization\<close> and
  \<^verbatim>\<open>_intersect_resources\<close>. A frozenset is a set; where the code's result depends on the order a
  frozenset is iterated in (the dict built from a credential's resource bounds), that order is
  the parameter \<open>order\<close>, of which the code relies on \<open>set (order A) = A\<close> only.
\<close>

section \<open>Records and their normalisation\<close>

record resource_permission =
  rp_resource :: string
  rp_scopes :: "string set"

record 'v snapshot =
  sn_scopes :: "string set"
  sn_roles :: "string set"
  sn_capabilities :: "string set"
  sn_tenant_roles :: "(string, string set) dict"
  sn_tenant_ids :: "string set"
  sn_resources :: "resource_permission set"
  sn_attributes :: "(string, 'v) dict"

record restrictions =
  re_scopes :: "string set option"
  re_roles :: "string set option"
  re_capabilities :: "string set option"
  re_tenant_ids :: "string set option"
  re_resources :: "resource_permission set option"

type_synonym resource_order = "resource_permission set \<Rightarrow> resource_permission list"

definition resource_permission_post_init :: "resource_permission \<Rightarrow> resource_permission result" where
  "resource_permission_post_init p =
     bind (normalize_text (rp_resource p)) (\<lambda>r.
     bind (normalize_values (rp_scopes p)) (\<lambda>ss. Inr \<lparr>rp_resource = r, rp_scopes = ss\<rparr>))"

fun normalize_tenant_roles ::
  "(string, string set) dict \<Rightarrow> (string, string set) dict \<Rightarrow> (string, string set) dict result" where
  "normalize_tenant_roles acc [] = Inr acc"
| "normalize_tenant_roles acc ((t, rs) # items) =
     bind (normalize_text t) (\<lambda>t'.
     bind (normalize_values rs) (\<lambda>rs'. normalize_tenant_roles (dset t' rs' acc) items))"

definition snapshot_post_init :: "'v snapshot \<Rightarrow> 'v snapshot result" where
  "snapshot_post_init s =
     bind (normalize_values (sn_scopes s)) (\<lambda>scopes.
     bind (normalize_values (sn_roles s)) (\<lambda>roles.
     bind (normalize_values (sn_capabilities s)) (\<lambda>capabilities.
     bind (normalize_tenant_roles [] (sn_tenant_roles s)) (\<lambda>tenant_roles.
     bind (normalize_values (sn_tenant_ids s)) (\<lambda>tenant_ids.
       Inr (s\<lparr>sn_scopes := scopes, sn_roles := roles, sn_capabilities := capabilities,
              sn_tenant_roles := tenant_roles, sn_tenant_ids := tenant_ids\<rparr>))))))"

definition restrictions_post_init :: "restrictions \<Rightarrow> restrictions result" where
  "restrictions_post_init r =
     bind (normalize_optional_values (re_scopes r)) (\<lambda>scopes.
     bind (normalize_optional_values (re_roles r)) (\<lambda>roles.
     bind (normalize_optional_values (re_capabilities r)) (\<lambda>capabilities.
     bind (normalize_optional_values (re_tenant_ids r)) (\<lambda>tenant_ids.
       Inr (r\<lparr>re_scopes := scopes, re_roles := roles, re_capabilities := capabilities,
              re_tenant_ids := tenant_ids\<rparr>)))))"

section \<open>Narrowing\<close>

definition narrow :: "string set \<Rightarrow> string set option \<Rightarrow> string set" where
  "narrow current bound = (case bound of None \<Rightarrow> current | Some b \<Rightarrow> current \<inter> b)"

text \<open>\<^verbatim>\<open>{k: d[k] for k in sorted(d)}\<close>, the items in key order.\<close>

definition sorted_items :: "(string, 'v) dict \<Rightarrow> (string, 'v) dict" where
  "sorted_items d = map (\<lambda>k. (k, the (dget d k))) (sort (map fst d))"

definition narrow_tenants_by_id ::
  "(string, string set) dict \<Rightarrow> string set option \<Rightarrow> (string, string set) dict" where
  "narrow_tenants_by_id d bound =
     (case bound of None \<Rightarrow> d | Some ids \<Rightarrow> filter (\<lambda>(t, rs). t \<in> ids) (sorted_items d))"

definition narrow_tenants_by_role ::
  "(string, string set) dict \<Rightarrow> string set option \<Rightarrow> (string, string set) dict" where
  "narrow_tenants_by_role d bound =
     (case bound of
        None \<Rightarrow> d
      | Some roles \<Rightarrow>
          filter (\<lambda>(t, rs). rs \<noteq> {}) (map (\<lambda>(t, rs). (t, rs \<inter> roles)) (sorted_items d)))"

definition bound_by_resource ::
  "resource_order \<Rightarrow> resource_permission set \<Rightarrow> string \<Rightarrow> string set option" where
  "bound_by_resource order bounds =
     map_of (rev (map (\<lambda>p. (rp_resource p, rp_scopes p)) (order bounds)))"

definition intersect_resources ::
  "resource_order \<Rightarrow> resource_permission set \<Rightarrow> resource_permission set \<Rightarrow>
     resource_permission set result" where
  "intersect_resources order current bounds =
     (let bound = bound_by_resource order bounds
      in collect_set
           (\<lambda>p. resource_permission_post_init
                  \<lparr>rp_resource = rp_resource p,
                   rp_scopes = rp_scopes p \<inter> the (bound (rp_resource p))\<rparr>)
           {p \<in> current. bound (rp_resource p) \<noteq> None})"

definition apply_restriction ::
  "resource_order \<Rightarrow> restrictions \<Rightarrow> 'v snapshot \<Rightarrow> 'v snapshot result" where
  "apply_restriction order r s =
     (let tenant_roles =
            narrow_tenants_by_role (narrow_tenants_by_id (sn_tenant_roles s) (re_tenant_ids r))
              (re_roles r);
          s' = s\<lparr>sn_scopes := narrow (sn_scopes s) (re_scopes r),
                 sn_roles := narrow (sn_roles s) (re_roles r),
                 sn_capabilities := narrow (sn_capabilities s) (re_capabilities r),
                 sn_tenant_roles := tenant_roles,
                 sn_tenant_ids := narrow (sn_tenant_ids s) (re_tenant_ids r)\<rparr>
      in case re_resources r of
           None \<Rightarrow> Inr s'
         | Some bounds \<Rightarrow>
             bind (intersect_resources order (sn_resources s') bounds)
               (\<lambda>res. Inr (s'\<lparr>sn_resources := res\<rparr>)))"

fun apply_restrictions ::
  "resource_order \<Rightarrow> restrictions list \<Rightarrow> 'v snapshot \<Rightarrow> 'v snapshot result" where
  "apply_restrictions order [] s = Inr s"
| "apply_restrictions order (r # rs) s =
     bind (apply_restriction order r s) (apply_restrictions order rs)"

definition resolve_authorization ::
  "resource_order \<Rightarrow> 'v snapshot \<Rightarrow> restrictions list \<Rightarrow> 'v snapshot result" where
  "resolve_authorization order s rs = bind (apply_restrictions order rs s) snapshot_post_init"

section \<open>The security context\<close>

record security_context =
  sc_evidence :: "evidence list"
  sc_authorization :: "string snapshot"
  sc_restrictions :: "restrictions list"

definition expirations :: "security_context \<Rightarrow> time list" where
  "expirations c = List.map_filter ev_expires_at (sc_evidence c)"

definition context_expires_at :: "security_context \<Rightarrow> time option" where
  "context_expires_at c =
     (case expirations c of [] \<Rightarrow> None | t # ts \<Rightarrow> Some (fold min ts t))"

section \<open>The invariant of normalised values\<close>

definition normalized_permission :: "resource_permission \<Rightarrow> bool" where
  "normalized_permission p \<longleftrightarrow> trimmed (rp_resource p) \<and> (\<forall>x\<in>rp_scopes p. trimmed x)"

definition normalized_snapshot :: "'v snapshot \<Rightarrow> bool" where
  "normalized_snapshot s \<longleftrightarrow>
     (\<forall>x \<in> sn_scopes s \<union> sn_roles s \<union> sn_capabilities s \<union> sn_tenant_ids s. trimmed x) \<and>
     dict_ok (sn_tenant_roles s) \<and>
     (\<forall>(t, rs) \<in> set (sn_tenant_roles s). trimmed t \<and> (\<forall>x\<in>rs. trimmed x)) \<and>
     (\<forall>p \<in> sn_resources s. normalized_permission p)"

lemma dget_sorted_items [simp]: "dget (sorted_items d) k = dget d k"
proof (cases "k \<in> set (map fst d)")
  case True
  then show ?thesis
    by (cases "dget d k") (simp_all add: sorted_items_def map_of_map_restrict restrict_map_def
        map_of_eq_None_iff)
next
  case False
  then have "dget d k = None"
    by (simp add: map_of_eq_None_iff)
  moreover have "dget (sorted_items d) k = None"
    using False by (simp add: sorted_items_def map_of_map_restrict restrict_map_def)
  ultimately show ?thesis by simp
qed

lemma dict_ok_sorted_items [simp]: "dict_ok d \<Longrightarrow> dict_ok (sorted_items d)"
  by (simp add: dict_ok_def sorted_items_def comp_def)

lemma dget_narrow_by_id:
  "dict_ok d \<Longrightarrow> dget (narrow_tenants_by_id d bound) t =
     (case bound of None \<Rightarrow> dget d t | Some ids \<Rightarrow> if t \<in> ids then dget d t else None)"
  by (auto simp: narrow_tenants_by_id_def dget_filter split: option.splits)

lemma dget_narrow_by_role:
  "dict_ok d \<Longrightarrow> dget (narrow_tenants_by_role d bound) t =
     (case bound of
        None \<Rightarrow> dget d t
      | Some roles \<Rightarrow>
          (case dget d t of
             None \<Rightarrow> None
           | Some rs \<Rightarrow> if rs \<inter> roles \<noteq> {} then Some (rs \<inter> roles) else None))"
  by (auto simp: narrow_tenants_by_role_def dget_filter dget_map_values split: option.splits)

lemma dict_ok_narrow [simp]:
  "dict_ok d \<Longrightarrow> dict_ok (narrow_tenants_by_id d b)"
  "dict_ok d \<Longrightarrow> dict_ok (narrow_tenants_by_role d b)"
  by (auto simp: narrow_tenants_by_id_def narrow_tenants_by_role_def split: option.splits)

lemma normalize_tenant_roles_id:
  "dict_ok (acc @ d) \<Longrightarrow> \<forall>(t, rs) \<in> set d. trimmed t \<and> (\<forall>x\<in>rs. trimmed x) \<Longrightarrow>
     normalize_tenant_roles acc d = Inr (acc @ d)"
proof (induction d arbitrary: acc)
  case Nil
  then show ?case by simp
next
  case (Cons item d)
  obtain t rs where item: "item = (t, rs)" by (cases item)
  from Cons.prems item have "t \<notin> fst ` set acc"
    by (auto simp: dict_ok_def)
  then have "dset t rs acc = acc @ [(t, rs)]"
    by (induction acc) auto
  with Cons item show ?case
    by simp
qed

lemma resource_permission_normalized [simp]:
  "normalized_permission p \<Longrightarrow> resource_permission_post_init p = Inr p"
  by (simp add: resource_permission_post_init_def normalized_permission_def)

lemma snapshot_post_init_id: "normalized_snapshot s \<Longrightarrow> snapshot_post_init s = Inr s"
  by (simp add: snapshot_post_init_def normalized_snapshot_def normalize_tenant_roles_id
      ball_Un)

section \<open>What one restriction does, axis by axis\<close>

definition allows :: "'a set option \<Rightarrow> 'a \<Rightarrow> bool" where
  "allows bound x \<longleftrightarrow> (case bound of None \<Rightarrow> True | Some b \<Rightarrow> x \<in> b)"

lemma narrow_allows: "narrow S b = {x \<in> S. allows b x}"
  by (auto simp: narrow_def allows_def split: option.splits)

definition order_ok :: "resource_order \<Rightarrow> resource_permission set \<Rightarrow> bool" where
  "order_ok order A \<longleftrightarrow> set (order A) = A"

definition orders_ok :: "resource_order \<Rightarrow> restrictions list \<Rightarrow> bool" where
  "orders_ok order rs \<longleftrightarrow> (\<forall>r\<in>set rs. \<forall>A. re_resources r = Some A \<longrightarrow> order_ok order A)"

text \<open>A permission is within a set of permissions when one of them, for its resource, has its scopes.\<close>

definition within :: "resource_permission set \<Rightarrow> resource_permission \<Rightarrow> bool" where
  "within A p \<longleftrightarrow> (\<exists>q\<in>A. rp_resource q = rp_resource p \<and> rp_scopes p \<subseteq> rp_scopes q)"

lemma within_trans: "within A p \<Longrightarrow> (\<And>q. q \<in> A \<Longrightarrow> within B q) \<Longrightarrow> within B p"
  by (fastforce simp: within_def)

lemma within_member: "p \<in> A \<Longrightarrow> within A p"
  by (auto simp: within_def)

lemma bound_by_resource_SomeD:
  assumes "bound_by_resource order A r = Some ss" "order_ok order A"
  shows "\<exists>q\<in>A. rp_resource q = r \<and> rp_scopes q = ss"
proof -
  have "(r, ss) \<in> set (map (\<lambda>p. (rp_resource p, rp_scopes p)) (order A))"
    using map_of_SomeD [OF assms(1) [unfolded bound_by_resource_def]] by simp
  then show ?thesis
    using assms(2) by (auto simp: order_ok_def)
qed

lemma intersect_resources_normalized:
  assumes "\<forall>p\<in>current. normalized_permission p"
  shows "intersect_resources order current bounds =
    Inr ((\<lambda>p. \<lparr>rp_resource = rp_resource p,
                rp_scopes = rp_scopes p \<inter> the (bound_by_resource order bounds (rp_resource p))\<rparr>) `
          {p \<in> current. bound_by_resource order bounds (rp_resource p) \<noteq> None})"
  unfolding intersect_resources_def Let_def
  by (rule collect_set_map, rule resource_permission_normalized)
    (use assms in \<open>auto simp: normalized_permission_def\<close>)

lemma intersect_resources_within:
  assumes "\<forall>p\<in>current. normalized_permission p" "order_ok order bounds"
    and "intersect_resources order current bounds = Inr res" "p \<in> res"
  shows "within current p" "within bounds p" "normalized_permission p"
proof -
  obtain q ss where q: "q \<in> current" "bound_by_resource order bounds (rp_resource q) = Some ss"
      and p: "p = \<lparr>rp_resource = rp_resource q, rp_scopes = rp_scopes q \<inter> ss\<rparr>"
    using assms(3,4) intersect_resources_normalized [OF assms(1), of order bounds] by auto
  obtain b where "b \<in> bounds" "rp_resource b = rp_resource q" "rp_scopes b = ss"
    using bound_by_resource_SomeD [OF q(2) assms(2)] by auto
  with p show "within bounds p"
    by (auto simp: within_def)
  from p q(1) show "within current p"
    by (auto simp: within_def)
  from assms(1) q(1) p show "normalized_permission p"
    by (auto simp: normalized_permission_def)
qed

lemma normalized_tenants_narrow:
  assumes "dict_ok d" "\<forall>(t, rs) \<in> set d. trimmed t \<and> (\<forall>x\<in>rs. trimmed x)"
  shows "\<forall>(t, rs) \<in> set (narrow_tenants_by_role (narrow_tenants_by_id d ids) roles).
    trimmed t \<and> (\<forall>x\<in>rs. trimmed x)"
proof (intro ballI, clarify)
  fix t rs
  assume "(t, rs) \<in> set (narrow_tenants_by_role (narrow_tenants_by_id d ids) roles)"
  then have "dget (narrow_tenants_by_role (narrow_tenants_by_id d ids) roles) t = Some rs"
    by (simp add: mem_dict_iff assms(1))
  then obtain rs' where "dget d t = Some rs'" "rs \<subseteq> rs'"
    by (auto simp: dget_narrow_by_role dget_narrow_by_id assms(1) split: option.splits if_splits)
  then show "trimmed t \<and> (\<forall>x\<in>rs. trimmed x)"
    using assms mem_dict_iff [OF assms(1), of t rs'] by fastforce
qed

lemma apply_restriction_ok:
  assumes "normalized_snapshot s" "orders_ok order [r]"
  shows "\<exists>s'. apply_restriction order r s = Inr s' \<and> normalized_snapshot s' \<and>
    sn_scopes s' = narrow (sn_scopes s) (re_scopes r) \<and>
    sn_roles s' = narrow (sn_roles s) (re_roles r) \<and>
    sn_capabilities s' = narrow (sn_capabilities s) (re_capabilities r) \<and>
    sn_tenant_ids s' = narrow (sn_tenant_ids s) (re_tenant_ids r) \<and>
    sn_tenant_roles s' =
      narrow_tenants_by_role (narrow_tenants_by_id (sn_tenant_roles s) (re_tenant_ids r)) (re_roles r) \<and>
    sn_attributes s' = sn_attributes s \<and>
    (\<forall>p \<in> sn_resources s'. within (sn_resources s) p \<and>
       (\<forall>A. re_resources r = Some A \<longrightarrow> within A p))"
proof -
  let ?d = "sn_tenant_roles s"
  have d: "dict_ok ?d" "\<forall>(t, rs) \<in> set ?d. trimmed t \<and> (\<forall>x\<in>rs. trimmed x)"
    using assms(1) by (simp_all add: normalized_snapshot_def)
  note tenants = normalized_tenants_narrow [OF d, of "re_tenant_ids r" "re_roles r"]
  show ?thesis
  proof (cases "re_resources r")
    case None
    then show ?thesis
      using assms(1) tenants d
      by (auto simp: apply_restriction_def Let_def normalized_snapshot_def narrow_allows
          within_member)
  next
    case (Some A)
    have res: "\<forall>p\<in>sn_resources s. normalized_permission p"
      using assms(1) by (simp add: normalized_snapshot_def)
    obtain R where R: "intersect_resources order (sn_resources s) A = Inr R"
      using intersect_resources_normalized [OF res] by blast
    have "order_ok order A"
      using assms(2) Some by (simp add: orders_ok_def)
    note R' = intersect_resources_within [OF res this R]
    show ?thesis
      using assms(1) tenants d Some R R'
      by (auto simp: apply_restriction_def Let_def normalized_snapshot_def narrow_allows)
  qed
qed

section \<open>What a sequence of restrictions does\<close>

definition restricted_roles :: "restrictions list \<Rightarrow> string set \<Rightarrow> string set" where
  "restricted_roles rs R = {x \<in> R. \<forall>r\<in>set rs. allows (re_roles r) x}"

definition restricted_tenant ::
  "restrictions list \<Rightarrow> string \<Rightarrow> string set option \<Rightarrow> string set option" where
  "restricted_tenant rs t entry =
     (case entry of
        None \<Rightarrow> None
      | Some R \<Rightarrow>
          if (\<forall>r\<in>set rs. allows (re_tenant_ids r) t) \<and>
             (restricted_roles rs R \<noteq> {} \<or> (\<forall>r\<in>set rs. re_roles r = None))
          then Some (restricted_roles rs R) else None)"

definition narrowed_to :: "restrictions list \<Rightarrow> 'v snapshot \<Rightarrow> 'v snapshot \<Rightarrow> bool" where
  "narrowed_to rs s e \<longleftrightarrow>
     sn_scopes e = {x \<in> sn_scopes s. \<forall>r\<in>set rs. allows (re_scopes r) x} \<and>
     sn_roles e = {x \<in> sn_roles s. \<forall>r\<in>set rs. allows (re_roles r) x} \<and>
     sn_capabilities e = {x \<in> sn_capabilities s. \<forall>r\<in>set rs. allows (re_capabilities r) x} \<and>
     sn_tenant_ids e = {x \<in> sn_tenant_ids s. \<forall>r\<in>set rs. allows (re_tenant_ids r) x} \<and>
     (\<forall>t. dget (sn_tenant_roles e) t = restricted_tenant rs t (dget (sn_tenant_roles s) t)) \<and>
     sn_attributes e = sn_attributes s"

definition resources_within :: "restrictions list \<Rightarrow> 'v snapshot \<Rightarrow> 'v snapshot \<Rightarrow> bool" where
  "resources_within rs s e \<longleftrightarrow>
     (\<forall>p \<in> sn_resources e. within (sn_resources s) p \<and>
        (\<forall>r\<in>set rs. \<forall>A. re_resources r = Some A \<longrightarrow> within A p))"

lemma restricted_tenant_cong:
  assumes "set rs = set rs'"
  shows "restricted_tenant rs t entry = restricted_tenant rs' t entry"
  by (cases entry) (simp_all add: restricted_tenant_def restricted_roles_def assms)

lemma restricted_tenant_Cons:
  assumes "dict_ok d"
  shows "restricted_tenant rs t (dget (narrow_tenants_by_role (narrow_tenants_by_id d (re_tenant_ids r)) (re_roles r)) t)
    = restricted_tenant (r # rs) t (dget d t)"
proof (cases "dget d t")
  case None
  then show ?thesis
    using assms
    by (simp add: dget_narrow_by_role dget_narrow_by_id restricted_tenant_def split: option.splits)
next
  case (Some R)
  then show ?thesis
    using assms
    by (cases "re_tenant_ids r"; cases "re_roles r")
      (auto simp: dget_narrow_by_role dget_narrow_by_id restricted_tenant_def allows_def
        restricted_roles_def)
qed

lemma apply_restrictions_ok:
  assumes "normalized_snapshot s" "orders_ok order rs"
  shows "\<exists>e. apply_restrictions order rs s = Inr e \<and> normalized_snapshot e \<and>
    narrowed_to rs s e \<and> resources_within rs s e"
  using assms
proof (induction rs arbitrary: s)
  case Nil
  have "restricted_tenant [] t entry = entry" for t entry
    by (cases entry) (simp_all add: restricted_tenant_def restricted_roles_def)
  with Nil show ?case
    by (simp add: narrowed_to_def resources_within_def within_member)
next
  case (Cons r rs)
  have "orders_ok order [r]" "orders_ok order rs"
    using Cons.prems(2) by (auto simp: orders_ok_def)
  obtain s' where s': "apply_restriction order r s = Inr s'" "normalized_snapshot s'"
      "sn_scopes s' = narrow (sn_scopes s) (re_scopes r)"
      "sn_roles s' = narrow (sn_roles s) (re_roles r)"
      "sn_capabilities s' = narrow (sn_capabilities s) (re_capabilities r)"
      "sn_tenant_ids s' = narrow (sn_tenant_ids s) (re_tenant_ids r)"
      "sn_tenant_roles s' =
        narrow_tenants_by_role (narrow_tenants_by_id (sn_tenant_roles s) (re_tenant_ids r)) (re_roles r)"
      "sn_attributes s' = sn_attributes s"
      and res: "\<forall>p \<in> sn_resources s'. within (sn_resources s) p \<and>
        (\<forall>A. re_resources r = Some A \<longrightarrow> within A p)"
    using apply_restriction_ok [OF Cons.prems(1) \<open>orders_ok order [r]\<close>] by blast
  obtain e where e: "apply_restrictions order rs s' = Inr e" "normalized_snapshot e"
      "narrowed_to rs s' e" "resources_within rs s' e"
    using Cons.IH [OF s'(2) \<open>orders_ok order rs\<close>] by blast
  have "dict_ok (sn_tenant_roles s)"
    using Cons.prems(1) by (simp add: normalized_snapshot_def)
  note tenants = restricted_tenant_Cons [OF this]
  have "narrowed_to (r # rs) s e"
    using e(3) s' tenants by (auto simp: narrowed_to_def narrow_allows)
  moreover have "resources_within (r # rs) s e"
    using e(4) res by (fastforce simp: resources_within_def intro: within_trans)
  ultimately show ?case
    using s'(1) e(1,2) by simp
qed

lemma resolve_authorization_ok:
  assumes "normalized_snapshot s" "orders_ok order rs"
  shows "\<exists>e. resolve_authorization order s rs = Inr e \<and> normalized_snapshot e \<and>
    narrowed_to rs s e \<and> resources_within rs s e"
  using apply_restrictions_ok [OF assms]
  by (auto simp: resolve_authorization_def snapshot_post_init_id)

section \<open>Properties\<close>

text \<open>C27: Narrowing is exact on every axis but resources, and never raises on normalised input: the
  effective scopes, roles, capabilities and tenant ids are the application's values that every
  bound allows; a tenant keeps exactly its allowed roles, and is dropped when a tenant bound
  excludes it or a role bound leaves it none; attributes are untouched.\<close>

theorem resolve_authorization_exact:
  assumes "normalized_snapshot s" "orders_ok order rs"
  shows "\<exists>e. resolve_authorization order s rs = Inr e \<and> narrowed_to rs s e"
  using resolve_authorization_ok [OF assms] by blast

definition example_snapshot :: "string snapshot" where
  "example_snapshot =
     \<lparr>sn_scopes = {''read'', ''write''}, sn_roles = {''admin''}, sn_capabilities = {},
      sn_tenant_roles = [(''t2'', {''admin''}), (''t1'', {''admin'', ''owner''})],
      sn_tenant_ids = {''t1'', ''t2''},
      sn_resources = {\<lparr>rp_resource = ''doc'', rp_scopes = {''read'', ''write''}\<rparr>},
      sn_attributes = [(''plan'', ''pro'')]\<rparr>"

definition example_restrictions :: restrictions where
  "example_restrictions =
     \<lparr>re_scopes = Some {''read''}, re_roles = Some {''owner''}, re_capabilities = None,
      re_tenant_ids = Some {''t1'', ''t2''},
      re_resources = Some {\<lparr>rp_resource = ''doc'', rp_scopes = {''read''}\<rparr>}\<rparr>"

definition example_order :: resource_order where
  "example_order A =
     (if \<lparr>rp_resource = ''doc'', rp_scopes = {''read''}\<rparr> \<in> A
      then [\<lparr>rp_resource = ''doc'', rp_scopes = {''read''}\<rparr>] else [])"

lemma example_normalized: "normalized_snapshot example_snapshot"
  by (simp add: example_snapshot_def normalized_snapshot_def normalized_permission_def dict_ok_def
      trimmed_def is_space_def)

lemma example_orders: "orders_ok example_order [example_restrictions]"
  by (simp add: orders_ok_def order_ok_def example_order_def example_restrictions_def)

theorem resolve_authorization_exact_witness:
  "normalized_snapshot example_snapshot \<and> orders_ok example_order [example_restrictions] \<and>
   (\<exists>e. resolve_authorization example_order example_snapshot [example_restrictions] = Inr e \<and>
      sn_scopes e = {''read''} \<and> sn_roles e = {} \<and>
      dget (sn_tenant_roles e) ''t1'' = Some {''owner''} \<and> dget (sn_tenant_roles e) ''t2'' = None)"
proof -
  obtain e where e: "resolve_authorization example_order example_snapshot [example_restrictions] = Inr e"
      and n: "narrowed_to [example_restrictions] example_snapshot e"
    using resolve_authorization_exact [OF example_normalized example_orders] by blast
  have "sn_scopes e = {''read''} \<and> sn_roles e = {} \<and>
      dget (sn_tenant_roles e) ''t1'' = Some {''owner''} \<and> dget (sn_tenant_roles e) ''t2'' = None"
    using n by (auto simp: narrowed_to_def example_snapshot_def example_restrictions_def allows_def
        restricted_tenant_def restricted_roles_def)
  with e example_normalized example_orders show ?thesis by blast
qed

text \<open>Resource permissions never expand either: each effective permission is, for the same
  resource, within one the application granted and within one of every credential that bounds
  resources, whatever order the credential's frozenset is iterated in.\<close>

theorem resolve_authorization_resources_bounded:
  assumes "normalized_snapshot s" "orders_ok order rs"
    and "resolve_authorization order s rs = Inr e" "p \<in> sn_resources e"
  shows "within (sn_resources s) p \<and>
    (\<forall>r\<in>set rs. \<forall>A. re_resources r = Some A \<longrightarrow> within A p)"
  using resolve_authorization_ok [OF assms(1,2)] assms(3,4) by (auto simp: resources_within_def)

lemma example_resolved:
  "\<exists>e. resolve_authorization example_order example_snapshot [example_restrictions] = Inr e \<and>
     \<lparr>rp_resource = ''doc'', rp_scopes = {''read''}\<rparr> \<in> sn_resources e"
proof -
  let ?s = example_snapshot and ?p = "\<lparr>rp_resource = ''doc'', rp_scopes = {''read''}\<rparr>"
  have n: "\<forall>p\<in>sn_resources ?s. normalized_permission p"
    using example_normalized by (simp add: normalized_snapshot_def)
  let ?q = "\<lparr>rp_resource = ''doc'', rp_scopes = {''read'', ''write''}\<rparr>"
  have b: "bound_by_resource example_order {?p} ''doc'' = Some {''read''}"
    by (simp add: bound_by_resource_def example_order_def)
  have s: "sn_resources ?s = {?q}"
    by (simp add: example_snapshot_def)
  have keep: "{p \<in> {?q}. bound_by_resource example_order {?p} (rp_resource p) \<noteq> None} = {?q}"
    using b by auto
  have "intersect_resources example_order (sn_resources ?s) {?p} = Inr {?p}"
    unfolding intersect_resources_normalized [OF n] unfolding s keep by (simp add: b)
  then have "\<exists>s'. apply_restriction example_order example_restrictions ?s = Inr s' \<and>
      ?p \<in> sn_resources s'"
    by (simp add: apply_restriction_def Let_def example_restrictions_def)
  then obtain s' where s': "apply_restriction example_order example_restrictions ?s = Inr s'"
      "?p \<in> sn_resources s'" by blast
  then have "normalized_snapshot s'"
    using apply_restriction_ok [OF example_normalized example_orders] by auto
  with s' show ?thesis
    by (simp add: resolve_authorization_def snapshot_post_init_id)
qed

theorem resolve_authorization_resources_bounded_witness:
  "within {\<lparr>rp_resource = ''doc'', rp_scopes = {''read'', ''write''}\<rparr>}
     \<lparr>rp_resource = ''doc'', rp_scopes = {''read''}\<rparr>"
proof -
  obtain e where "resolve_authorization example_order example_snapshot [example_restrictions] = Inr e"
      "\<lparr>rp_resource = ''doc'', rp_scopes = {''read''}\<rparr> \<in> sn_resources e"
    using example_resolved by blast
  from resolve_authorization_resources_bounded [OF example_normalized example_orders this]
  show ?thesis by (simp add: example_snapshot_def)
qed

text \<open>On those axes the outcome depends only on which restrictions apply: reordering or
  repeating credentials changes no scope, role, capability, tenant id or tenant role.\<close>

theorem resolve_authorization_order_independent:
  assumes "normalized_snapshot s" "orders_ok order rs" "set rs = set rs'"
    and "resolve_authorization order s rs = Inr e" "resolve_authorization order s rs' = Inr e'"
  shows "sn_scopes e = sn_scopes e' \<and> sn_roles e = sn_roles e' \<and>
    sn_capabilities e = sn_capabilities e' \<and> sn_tenant_ids e = sn_tenant_ids e' \<and>
    (\<forall>t. dget (sn_tenant_roles e) t = dget (sn_tenant_roles e') t)"
proof -
  have "orders_ok order rs'"
    using assms(2,3) by (simp add: orders_ok_def)
  then have "narrowed_to rs s e" "narrowed_to rs' s e'"
    using assms resolve_authorization_ok [OF assms(1), of order] by fastforce+
  then show ?thesis
    using assms(3) restricted_tenant_cong [OF assms(3)] by (simp add: narrowed_to_def)
qed

theorem resolve_authorization_order_independent_witness:
  "\<exists>e e'. resolve_authorization example_order example_snapshot [example_restrictions] = Inr e \<and>
     resolve_authorization example_order example_snapshot
       [example_restrictions, example_restrictions] = Inr e' \<and> sn_scopes e = sn_scopes e'"
proof -
  have "orders_ok example_order [example_restrictions, example_restrictions]"
    using example_orders by (simp add: orders_ok_def)
  then obtain e e' where e: "resolve_authorization example_order example_snapshot [example_restrictions] = Inr e"
      "resolve_authorization example_order example_snapshot
         [example_restrictions, example_restrictions] = Inr e'"
    using resolve_authorization_ok [OF example_normalized] example_orders by blast
  have "set [example_restrictions] = set [example_restrictions, example_restrictions]" by simp
  from resolve_authorization_order_independent [OF example_normalized example_orders this e] e
  show ?thesis by blast
qed

text \<open>A context expires with its earliest bounded evidence: the reported instant is one of the
  evidence expiries and none is earlier; without bounded evidence it does not expire.\<close>

theorem context_expiry_is_earliest:
  "context_expires_at c =
     (let T = {t. Some t \<in> ev_expires_at ` set (sc_evidence c)}
      in if T = {} then None else Some (Min T))"
proof -
  have T: "{t. Some t \<in> ev_expires_at ` set (sc_evidence c)} = set (expirations c)"
    by (auto simp: expirations_def List.map_filter_def image_iff) (metis option.sel, metis)
  show ?thesis
    unfolding T Let_def
    by (cases "expirations c")
      (simp_all add: context_expires_at_def Min.set_eq_fold [symmetric])
qed

text \<open>Two bounds of one credential for the same resource: the one iterated last decides.\<close>

lemma duplicate_bounds_order_dependent:
  "bound_by_resource (\<lambda>_. [a, b]) A (rp_resource a) = Some (rp_scopes b)
   \<and> bound_by_resource (\<lambda>_. [b, a]) A (rp_resource a) = Some (rp_scopes a)"
  if "rp_resource a = rp_resource b"
  using that by (simp add: bound_by_resource_def)

end
