(* ===== verification/Guards.thy ===== *)
theory Guards
  imports Authorization
begin

text \<open>
  Authorization predicates (\<^verbatim>\<open>guards.py\<close>): the predicate tree, one branch of \<open>decide\<close> per
  predicate class, the constructors with their configuration errors, and the translation of a
  denial into an HTTP exception. An application's own subclass is the constructor \<open>Custom\<close>,
  which carries the function it overrides \<^verbatim>\<open>decide\<close> with. The clock of an assurance predicate is
  the datetime it returns when it is called.
\<close>

section \<open>Requirements, predicates and decisions\<close>

datatype assurance_trait = PhishingResistant | UserVerified | HardwareBacked

fun trait_value :: "assurance_trait \<Rightarrow> string" where
  "trait_value PhishingResistant = ''phishing-resistant''"
| "trait_value UserVerified = ''user-verified''"
| "trait_value HardwareBacked = ''hardware-backed''"

definition trait_of :: "string \<Rightarrow> assurance_trait result" where
  "trait_of s =
     (if s = ''phishing-resistant'' then Inr PhishingResistant
      else if s = ''user-verified'' then Inr UserVerified
      else if s = ''hardware-backed'' then Inr HardwareBacked
      else Inl ValueError)"

record requirement =
  rq_methods :: "string set"
  rq_traits :: "assurance_trait set"
  rq_max_age :: "int option"
  rq_purpose :: "string option"

record requirement_input =
  ri_methods :: "string set"
  ri_traits :: "string set"
  ri_max_age :: "int option"
  ri_purpose :: "string option"

record connection =
  cn_principal :: "string principal"
  cn_auth :: security_context
  cn_path_params :: "(string, string) dict"

record decision =
  granted :: bool
  code :: string
  path :: "string list"
  authentication_required :: bool

datatype grant_kind = Scope | Role | Capability

datatype composite_operator = AllOf | AnyOf | OneOf | AtLeast

datatype predicate =
    Authenticated
  | Assurance requirement py_datetime
  | Grant grant_kind string
  | TenantRole string "string set"
  | Tenant string
  | Composite composite_operator "predicate list" int
  | Custom "connection \<Rightarrow> decision result"

section \<open>Constructors\<close>

definition normalize_name :: "string \<Rightarrow> string result" where
  "normalize_name value = (let n = strip value in if n = [] then Inl ImproperlyConfigured else Inr n)"

definition requirement_post_init :: "requirement_input \<Rightarrow> requirement result" where
  "requirement_post_init r =
     (if (\<exists>m\<in>ri_methods r. isl (normalize_name m)) \<or> (\<exists>t\<in>ri_traits r. isl (trait_of t))
      then Inl ImproperlyConfigured
      else if (case ri_max_age r of None \<Rightarrow> False | Some a \<Rightarrow> a \<le> 0) then Inl ImproperlyConfigured
      else bind (optional_result normalize_name (ri_purpose r)) (\<lambda>purpose.
             Inr \<lparr>rq_methods = (\<lambda>m. projr (normalize_name m)) ` ri_methods r,
                  rq_traits = (\<lambda>t. projr (trait_of t)) ` ri_traits r,
                  rq_max_age = ri_max_age r, rq_purpose = purpose\<rparr>))"

definition requires_authenticated :: predicate where
  "requires_authenticated = Authenticated"

definition requires_assurance :: "requirement_input \<Rightarrow> py_datetime \<Rightarrow> predicate result" where
  "requires_assurance r clock = bind (requirement_post_init r) (\<lambda>q. Inr (Assurance q clock))"

definition requires_scope :: "string \<Rightarrow> predicate result" where
  "requires_scope s = bind (normalize_name s) (\<lambda>n. Inr (Grant Scope n))"

definition requires_role :: "string \<Rightarrow> predicate result" where
  "requires_role s = bind (normalize_name s) (\<lambda>n. Inr (Grant Role n))"

definition requires_capability :: "string \<Rightarrow> predicate result" where
  "requires_capability s = bind (normalize_name s) (\<lambda>n. Inr (Grant Capability n))"

definition requires_tenant_role :: "string \<Rightarrow> string set \<Rightarrow> predicate result" where
  "requires_tenant_role tenant_parameter roles =
     (if \<exists>r\<in>roles. isl (normalize_name r) then Inl ImproperlyConfigured
      else if roles = {} then Inl ImproperlyConfigured
      else bind (normalize_name tenant_parameter) (\<lambda>p.
             Inr (TenantRole p ((\<lambda>r. projr (normalize_name r)) ` roles))))"

definition requires_tenant :: "string \<Rightarrow> predicate result" where
  "requires_tenant tenant_parameter =
     bind (normalize_name tenant_parameter) (\<lambda>p. Inr (Tenant p))"

text \<open>Children come with the identity Python's \<^verbatim>\<open>id()\<close> reports for the object.\<close>

definition composite ::
  "composite_operator \<Rightarrow> (nat \<times> predicate) list \<Rightarrow> int \<Rightarrow> predicate result" where
  "composite operator children count =
     (if children = [] then Inl ImproperlyConfigured
      else if card (set (map fst children)) \<noteq> length children then Inl ImproperlyConfigured
      else Inr (Composite operator (map snd children) count))"

definition requires_all_of :: "(nat \<times> predicate) list \<Rightarrow> predicate result" where
  "requires_all_of children = composite AllOf children (int (length children))"

definition requires_any_of :: "(nat \<times> predicate) list \<Rightarrow> predicate result" where
  "requires_any_of children = composite AnyOf children 1"

definition requires_one_of :: "(nat \<times> predicate) list \<Rightarrow> predicate result" where
  "requires_one_of children = composite OneOf children 1"

definition requires_at_least :: "int \<Rightarrow> (nat \<times> predicate) list \<Rightarrow> predicate result" where
  "requires_at_least count children =
     (if \<not> (1 \<le> count \<and> count \<le> int (length children)) then Inl ImproperlyConfigured
      else composite AtLeast children count)"

section \<open>Decisions\<close>

definition allowed :: decision where
  "allowed = \<lparr>granted = True, code = ''allowed'', path = [], authentication_required = False\<rparr>"

definition denied :: "string \<Rightarrow> string list \<Rightarrow> decision" where
  "denied c p = \<lparr>granted = False, code = c, path = p, authentication_required = False\<rparr>"

definition unauthenticated :: "string \<Rightarrow> decision" where
  "unauthenticated p =
     \<lparr>granted = False, code = ''authentication_required'', path = [p], authentication_required = True\<rparr>"

definition prefixed :: "string list \<Rightarrow> decision \<Rightarrow> decision" where
  "prefixed parts d =
     \<lparr>granted = granted d, code = code d, path = parts @ path d,
      authentication_required = authentication_required d\<rparr>"

definition authenticated :: "connection \<Rightarrow> bool" where
  "authenticated c = is_authenticated (cn_principal c)"

definition authorization :: "connection \<Rightarrow> string snapshot" where
  "authorization c = sc_authorization (cn_auth c)"

definition grant_decision :: "connection \<Rightarrow> bool \<Rightarrow> string \<Rightarrow> string \<Rightarrow> decision" where
  "grant_decision c ok cd p =
     (if \<not> authenticated c then unauthenticated ''authenticated''
      else if ok then allowed
      else denied cd [p])"

definition starts_with :: "string \<Rightarrow> string \<Rightarrow> bool" where
  "starts_with prefix s \<longleftrightarrow> take (length prefix) s = prefix"

definition methods_of :: "evidence list \<Rightarrow> string set" where
  "methods_of es = \<Union> (set (map ev_methods es))"

definition traits_of :: "evidence list \<Rightarrow> string set" where
  "traits_of es = \<Union> (set (map ev_traits es))"

definition live :: "time \<Rightarrow> evidence \<Rightarrow> bool" where
  "live now e \<longleftrightarrow> (case ev_expires_at e of None \<Rightarrow> True | Some x \<Rightarrow> x > now)"

definition purpose_trait :: "requirement \<Rightarrow> string option" where
  "purpose_trait r = map_option (\<lambda>p. ''purpose:'' @ p) (rq_purpose r)"

definition has_trait :: "string option \<Rightarrow> string set \<Rightarrow> bool" where
  "has_trait t ts \<longleftrightarrow> (case t of None \<Rightarrow> True | Some x \<Rightarrow> x \<in> ts)"

definition relevant_evidence :: "requirement \<Rightarrow> evidence list \<Rightarrow> evidence list" where
  "relevant_evidence r es =
     (let required_traits = trait_value ` rq_traits r;
          relevant = filter (\<lambda>e. ev_methods e \<inter> rq_methods r \<noteq> {} \<or>
            ev_traits e \<inter> required_traits \<noteq> {} \<or>
            (case purpose_trait r of None \<Rightarrow> False | Some p \<Rightarrow> p \<in> ev_traits e)) es
      in if relevant = [] then es else relevant)"

definition current_evidence :: "time \<Rightarrow> int \<Rightarrow> evidence list \<Rightarrow> evidence list" where
  "current_evidence now max_age es =
     filter (\<lambda>e. ev_authenticated_at e \<le> now \<and> now - ev_authenticated_at e \<le> max_age \<and> live now e) es"

definition assurance_decide :: "requirement \<Rightarrow> py_datetime \<Rightarrow> connection \<Rightarrow> decision result" where
  "assurance_decide r clock c =
     (if \<not> authenticated c then Inr (unauthenticated ''assurance'')
      else case clock of
        Naive _ \<Rightarrow> Inl ImproperlyConfigured
      | Aware now \<Rightarrow>
          (let evs = filter (live now) (sc_evidence (cn_auth c));
               required_traits = trait_value ` rq_traits r
           in if \<not> has_trait (purpose_trait r) (traits_of evs) then
                Inr (denied
                  (if \<exists>t\<in>traits_of evs. starts_with ''purpose:'' t
                   then ''assurance_purpose_mismatch'' else ''missing_assurance'') [''assurance''])
              else if \<not> rq_methods r \<subseteq> methods_of evs \<or> \<not> required_traits \<subseteq> traits_of evs then
                Inr (denied ''missing_assurance'' [''assurance''])
              else case rq_max_age r of
                None \<Rightarrow> Inr allowed
              | Some max_age \<Rightarrow>
                  (let current = current_evidence now max_age (relevant_evidence r evs)
                   in if current = [] \<or> \<not> rq_methods r \<subseteq> methods_of current \<or>
                         \<not> required_traits \<subseteq> traits_of current \<or>
                         \<not> has_trait (purpose_trait r) (traits_of current)
                      then Inr (denied ''assurance_too_old'' [''assurance''])
                      else Inr allowed)))"

fun grants :: "string snapshot \<Rightarrow> grant_kind \<Rightarrow> string set" where
  "grants a Scope = sn_scopes a"
| "grants a Role = sn_roles a"
| "grants a Capability = sn_capabilities a"

fun kind_name :: "grant_kind \<Rightarrow> string" where
  "kind_name Scope = ''scope''"
| "kind_name Role = ''role''"
| "kind_name Capability = ''capability''"

fun operator_name :: "composite_operator \<Rightarrow> string" where
  "operator_name AllOf = ''all_of''"
| "operator_name AnyOf = ''any_of''"
| "operator_name OneOf = ''one_of''"
| "operator_name AtLeast = ''at_least''"

definition tenant_roles_for :: "connection \<Rightarrow> string \<Rightarrow> string set" where
  "tenant_roles_for c parameter =
     (case dget (cn_path_params c) parameter of
        None \<Rightarrow> {}
      | Some tenant_id \<Rightarrow>
          (case dget (sn_tenant_roles (authorization c)) tenant_id of None \<Rightarrow> {} | Some rs \<Rightarrow> rs))"

definition tenant_member :: "connection \<Rightarrow> string \<Rightarrow> bool" where
  "tenant_member c parameter =
     (case dget (cn_path_params c) parameter of
        None \<Rightarrow> False
      | Some tenant_id \<Rightarrow> tenant_id \<in> sn_tenant_ids (authorization c))"

fun first_failure :: "nat \<Rightarrow> decision list \<Rightarrow> (nat \<times> decision) option" where
  "first_failure i [] = None"
| "first_failure i (d # ds) = (if \<not> granted d then Some (i, d) else first_failure (Suc i) ds)"

definition combine ::
  "composite_operator \<Rightarrow> int \<Rightarrow> connection \<Rightarrow> decision list \<Rightarrow> decision result" where
  "combine operator count c decisions =
     (let granted_count = length (filter granted decisions);
          ok = (case operator of
                  AllOf \<Rightarrow> granted_count = length decisions
                | OneOf \<Rightarrow> granted_count = 1
                | _ \<Rightarrow> int granted_count \<ge> count)
      in if ok then Inr allowed
         else if \<not> authenticated c then Inr (unauthenticated (operator_name operator))
         else if operator = OneOf \<and> granted_count > 1 then
           Inr (denied ''one_of_mismatch'' [operator_name operator])
         else case first_failure 0 decisions of
           None \<Rightarrow> Inl StopIteration
         | Some (i, d) \<Rightarrow> Inr (prefixed [operator_name operator, show_nat i] d))"

fun decide :: "predicate \<Rightarrow> connection \<Rightarrow> decision result" where
  "decide Authenticated c =
     Inr (grant_decision c (authenticated c) ''authentication_required'' ''authenticated'')"
| "decide (Assurance r clock) c = assurance_decide r clock c"
| "decide (Grant k v) c =
     Inr (grant_decision c (v \<in> grants (authorization c) k) (''missing_'' @ kind_name k) (kind_name k))"
| "decide (TenantRole p roles) c =
     Inr (grant_decision c (roles \<inter> tenant_roles_for c p \<noteq> {}) ''missing_tenant_role'' ''tenant_role'')"
| "decide (Tenant p) c =
     Inr (grant_decision c (tenant_member c p) ''missing_tenant'' ''tenant'')"
| "decide (Composite operator children count) c =
     bind (collect (map (\<lambda>p. decide p c) children)) (combine operator count c)"
| "decide (Custom f) c = f c"

definition call_guard :: "predicate \<Rightarrow> connection \<Rightarrow> unit result" where
  "call_guard p c =
     bind (decide p c) (\<lambda>d.
       if granted d then Inr ()
       else if authentication_required d then Inl NotAuthorized
       else Inl PermissionDenied)"

section \<open>What the predicates mean\<close>

text \<open>
  The intended reading: who satisfies a predicate, without decisions, codes or evaluation order.
  Evidence is fresh when it is live and no older than the maximum age.
\<close>

definition fresh :: "time \<Rightarrow> requirement \<Rightarrow> evidence \<Rightarrow> bool" where
  "fresh now r e \<longleftrightarrow> live now e \<and>
     (case rq_max_age r of
        None \<Rightarrow> True
      | Some a \<Rightarrow> ev_authenticated_at e \<le> now \<and> now - ev_authenticated_at e \<le> a)"

definition assured :: "time \<Rightarrow> requirement \<Rightarrow> evidence list \<Rightarrow> bool" where
  "assured now r es \<longleftrightarrow>
     (\<forall>m\<in>rq_methods r. \<exists>e\<in>set es. fresh now r e \<and> m \<in> ev_methods e) \<and>
     (\<forall>t\<in>rq_traits r. \<exists>e\<in>set es. fresh now r e \<and> trait_value t \<in> ev_traits e) \<and>
     (\<forall>p. rq_purpose r = Some p \<longrightarrow>
        (\<exists>e\<in>set es. fresh now r e \<and> ''purpose:'' @ p \<in> ev_traits e)) \<and>
     (rq_max_age r \<noteq> None \<longrightarrow> (\<exists>e\<in>set es. fresh now r e))"

fun holds :: "connection \<Rightarrow> predicate \<Rightarrow> bool" where
  "holds c Authenticated = authenticated c"
| "holds c (Assurance r (Aware now)) = (authenticated c \<and> assured now r (sc_evidence (cn_auth c)))"
| "holds c (Assurance r (Naive _)) = False"
| "holds c (Grant k v) = (authenticated c \<and> v \<in> grants (authorization c) k)"
| "holds c (TenantRole p roles) = (authenticated c \<and> roles \<inter> tenant_roles_for c p \<noteq> {})"
| "holds c (Tenant p) = (authenticated c \<and> tenant_member c p)"
| "holds c (Composite AllOf ps k) = (\<forall>p\<in>set ps. holds c p)"
| "holds c (Composite AnyOf ps k) = (\<exists>p\<in>set ps. holds c p)"
| "holds c (Composite OneOf ps k) = (length (filter (holds c) ps) = 1)"
| "holds c (Composite AtLeast ps k) = (k \<le> int (length (filter (holds c) ps)))"
| "holds c (Custom f) = (\<exists>d. f c = Inr d \<and> granted d)"

text \<open>
  What the constructors guarantee of a predicate object, and the two conditions a connection's
  evaluation additionally depends on: the clocks given to \<^verbatim>\<open>has_assurance\<close>, which are not checked when the
  predicate is built, answer aware times, and custom predicates return.
\<close>

fun well_formed :: "predicate \<Rightarrow> bool" where
  "well_formed (Composite operator ps k) =
     (ps \<noteq> [] \<and> (\<forall>p\<in>set ps. well_formed p) \<and>
      (case operator of AtLeast \<Rightarrow> 1 \<le> k \<and> k \<le> int (length ps) | AllOf \<Rightarrow> True | _ \<Rightarrow> k = 1))"
| "well_formed _ = True"

fun clocks_aware :: "predicate \<Rightarrow> bool" where
  "clocks_aware (Composite operator ps k) = (\<forall>p\<in>set ps. clocks_aware p)"
| "clocks_aware (Assurance r clock) = (\<not> isl (aware_utc_time clock))"
| "clocks_aware _ = True"

fun built_in :: "predicate \<Rightarrow> bool" where
  "built_in (Composite operator ps k) = (\<forall>p\<in>set ps. built_in p)"
| "built_in (Custom f) = False"
| "built_in _ = True"

fun returns :: "connection \<Rightarrow> predicate \<Rightarrow> bool" where
  "returns c (Composite operator ps k) = (\<forall>p\<in>set ps. returns c p)"
| "returns c (Custom f) = (\<not> isl (f c))"
| "returns c _ = True"

lemma built_in_returns: "built_in p \<Longrightarrow> returns c p"
  by (induction p) auto

section \<open>Assurance\<close>

lemma mem_methods_of: "m \<in> methods_of es \<longleftrightarrow> (\<exists>e\<in>set es. m \<in> ev_methods e)"
  by (auto simp: methods_of_def)

lemma mem_traits_of: "t \<in> traits_of es \<longleftrightarrow> (\<exists>e\<in>set es. t \<in> ev_traits e)"
  by (auto simp: traits_of_def)

lemma has_purpose_trait:
  "has_trait (purpose_trait r) (traits_of es) \<longleftrightarrow>
     (\<forall>p. rq_purpose r = Some p \<longrightarrow> (\<exists>e\<in>set es. ''purpose:'' @ p \<in> ev_traits e))"
  by (cases "rq_purpose r") (auto simp: has_trait_def purpose_trait_def mem_traits_of)

definition covers :: "requirement \<Rightarrow> evidence list \<Rightarrow> bool" where
  "covers r es \<longleftrightarrow> rq_methods r \<subseteq> methods_of es \<and> trait_value ` rq_traits r \<subseteq> traits_of es \<and>
     has_trait (purpose_trait r) (traits_of es)"

lemma covers_iff:
  "covers r es \<longleftrightarrow>
     (\<forall>m\<in>rq_methods r. \<exists>e\<in>set es. m \<in> ev_methods e) \<and>
     (\<forall>t\<in>rq_traits r. \<exists>e\<in>set es. trait_value t \<in> ev_traits e) \<and>
     (\<forall>p. rq_purpose r = Some p \<longrightarrow> (\<exists>e\<in>set es. ''purpose:'' @ p \<in> ev_traits e))"
  unfolding covers_def has_purpose_trait by (auto simp: mem_methods_of mem_traits_of subset_iff)

lemma covers_mono: "covers r es \<Longrightarrow> set es \<subseteq> set es' \<Longrightarrow> covers r es'"
  unfolding covers_iff by blast

text \<open>Whatever covers the requirement is relevant to it, so the relevance filter loses nothing.\<close>

lemma relevant_covers:
  shows "covers r (filter P (relevant_evidence r es)) \<and> filter P (relevant_evidence r es) \<noteq> []
    \<longleftrightarrow> covers r (filter P es) \<and> filter P es \<noteq> []"
proof -
  let ?rel = "\<lambda>e. ev_methods e \<inter> rq_methods r \<noteq> {} \<or> ev_traits e \<inter> trait_value ` rq_traits r \<noteq> {} \<or>
    (case purpose_trait r of None \<Rightarrow> False | Some p \<Rightarrow> p \<in> ev_traits e)"
  show ?thesis
  proof (cases "filter ?rel es = []")
    case True
    then show ?thesis by (simp add: relevant_evidence_def Let_def)
  next
    case False
    then have rel: "relevant_evidence r es = filter ?rel es"
      by (simp add: relevant_evidence_def Let_def)
    have sub: "set (filter P (filter ?rel es)) \<subseteq> set (filter P es)" by auto
    have kept: "covers r (filter P (filter ?rel es))" if "covers r (filter P es)"
      using that unfolding covers_iff by (fastforce simp: purpose_trait_def)
    have nonempty: "filter P (filter ?rel es) \<noteq> []" if c: "covers r (filter P es)"
    proof -
      from False obtain e where e: "e \<in> set es" "?rel e"
        by (auto simp: filter_empty_conv)
      then consider m where "m \<in> rq_methods r" | t where "t \<in> rq_traits r" | p where "rq_purpose r = Some p"
        by (auto simp: purpose_trait_def split: option.splits)
      then have "set (filter P (filter ?rel es)) \<noteq> {}"
        using kept [OF c] unfolding covers_iff by cases fastforce+
      then show ?thesis by (metis empty_set)
    qed
    have fwd: "covers r (filter P es)" if "covers r (filter P (filter ?rel es))"
      using covers_mono [OF that sub] .
    have "filter P es \<noteq> []" if "filter P (filter ?rel es) \<noteq> []"
      using that sub by (auto simp: filter_empty_conv)
    with kept nonempty fwd show ?thesis
      unfolding rel by blast
  qed
qed

lemma fresh_filter:
  "rq_max_age r = Some a \<Longrightarrow>
     set (current_evidence now a (filter (live now) es)) = {e \<in> set es. fresh now r e}"
  by (auto simp: current_evidence_def fresh_def)

lemma assured_covers:
  "assured now r es \<longleftrightarrow> covers r (filter (fresh now r) es) \<and>
     (rq_max_age r \<noteq> None \<longrightarrow> filter (fresh now r) es \<noteq> [])"
  unfolding assured_def covers_iff by (auto simp: filter_empty_conv)

lemma assurance_decide_iff:
  "\<exists>d. assurance_decide r (Aware now) c = Inr d \<and>
     (granted d \<longleftrightarrow> authenticated c \<and> assured now r (sc_evidence (cn_auth c)))"
proof -
  let ?es = "sc_evidence (cn_auth c)"
  let ?evs = "filter (live now) ?es"
  show ?thesis
  proof (cases "rq_max_age r")
    case None
    then have "filter (fresh now r) ?es = ?evs"
      by (simp add: fresh_def [abs_def])
    with None have "assured now r ?es \<longleftrightarrow> covers r ?evs"
      by (simp add: assured_covers)
    with None show ?thesis
      by (auto simp: assurance_decide_def Let_def covers_def allowed_def denied_def unauthenticated_def)
  next
    case (Some a)
    let ?fresh = "\<lambda>e. ev_authenticated_at e \<le> now \<and> now - ev_authenticated_at e \<le> a \<and> live now e"
    have cur: "current_evidence now a es = filter ?fresh es" for es
      by (simp add: current_evidence_def)
    have "filter (fresh now r) ?es = filter ?fresh ?evs"
      using Some by (auto simp: fresh_def intro!: filter_cong)
    then have "assured now r ?es \<longleftrightarrow> covers r (filter ?fresh ?evs) \<and> filter ?fresh ?evs \<noteq> []"
      using Some by (simp add: assured_covers)
    also have "\<dots> \<longleftrightarrow> covers r ?evs \<and>
        covers r (filter ?fresh (relevant_evidence r ?evs)) \<and> filter ?fresh (relevant_evidence r ?evs) \<noteq> []"
      using relevant_covers [of r ?fresh ?evs] covers_mono [of r "filter ?fresh ?evs" ?evs] by auto
    finally have sat: "assured now r ?es \<longleftrightarrow> covers r ?evs \<and>
        covers r (current_evidence now a (relevant_evidence r ?evs)) \<and>
        current_evidence now a (relevant_evidence r ?evs) \<noteq> []"
      by (simp only: cur)
    show ?thesis
      unfolding sat
      using Some
      by (auto simp: assurance_decide_def Let_def covers_def allowed_def denied_def unauthenticated_def)
  qed
qed

section \<open>Composites\<close>

lemma first_failure_None: "first_failure i ds = None \<longleftrightarrow> (\<forall>d\<in>set ds. granted d)"
  by (induction ds arbitrary: i) auto

lemma first_failure_Some:
  "first_failure i ds = Some (j, d) \<Longrightarrow> i \<le> j \<and> j - i < length ds \<and> ds ! (j - i) = d \<and> \<not> granted d"
proof (induction ds arbitrary: i)
  case (Cons x ds)
  show ?case
  proof (cases "granted x")
    case True
    then have "Suc i \<le> j \<and> j - Suc i < length ds \<and> ds ! (j - Suc i) = d \<and> \<not> granted d"
      using Cons by simp
    moreover from this obtain n where "j = Suc i + n"
      using le_Suc_ex by blast
    ultimately show ?thesis by simp
  next
    case False
    with Cons.prems show ?thesis by auto
  qed
qed simp

lemma length_filter_all: "length (filter P xs) = length xs \<longleftrightarrow> (\<forall>x\<in>set xs. P x)"
  by (metis filter_True filter_id_conv length_filter_less less_irrefl)

lemma combine_returns:
  assumes "ds \<noteq> []"
    and "operator = AtLeast \<Longrightarrow> 1 \<le> count \<and> count \<le> int (length ds)"
    and "operator = AnyOf \<or> operator = OneOf \<Longrightarrow> count = 1"
  shows "\<exists>d. combine operator count c ds = Inr d \<and>
    (granted d \<longleftrightarrow>
       (case operator of
          AllOf \<Rightarrow> \<forall>x\<in>set ds. granted x
        | AnyOf \<Rightarrow> \<exists>x\<in>set ds. granted x
        | OneOf \<Rightarrow> length (filter granted ds) = 1
        | AtLeast \<Rightarrow> count \<le> int (length (filter granted ds)))) \<and>
    (\<not> granted d \<and> \<not> authenticated c \<longrightarrow> authentication_required d) \<and>
    (\<not> granted d \<and> authenticated c \<and> (\<forall>x\<in>set ds. \<not> authentication_required x) \<longrightarrow>
       \<not> authentication_required d)"
proof -
  let ?n = "length (filter granted ds)"
  let ?ok = "case operator of AllOf \<Rightarrow> ?n = length ds | OneOf \<Rightarrow> ?n = 1 | _ \<Rightarrow> int ?n \<ge> count"
  have any: "1 \<le> ?n \<longleftrightarrow> (\<exists>x\<in>set ds. granted x)"
    by (metis One_nat_def Suc_le_eq filter_empty_conv length_greater_0_conv)
  have ok: "?ok \<longleftrightarrow> (case operator of
          AllOf \<Rightarrow> \<forall>x\<in>set ds. granted x
        | AnyOf \<Rightarrow> \<exists>x\<in>set ds. granted x
        | OneOf \<Rightarrow> ?n = 1
        | AtLeast \<Rightarrow> count \<le> int ?n)"
    using assms(3) any by (cases operator) (simp_all add: length_filter_all)
  have failing: "\<exists>i d. first_failure 0 ds = Some (i, d) \<and> d \<in> set ds \<and> \<not> granted d"
    if "\<not> ?ok" "\<not> (operator = OneOf \<and> ?n > 1)"
  proof -
    have "\<exists>x\<in>set ds. \<not> granted x"
    proof (rule ccontr)
      assume "\<not> ?thesis"
      then have "?n = length ds" "?n \<ge> 1"
        using assms(1) by (auto simp: length_filter_all Suc_le_eq)
      with that assms(2,3) show False
        by (cases operator) auto
    qed
    then obtain i d where "first_failure 0 ds = Some (i, d)"
      by (metis first_failure_None not_None_eq surj_pair)
    with first_failure_Some [OF this] show ?thesis
      by (metis diff_zero nth_mem)
  qed
  show ?thesis
    unfolding ok [symmetric]
    using failing
    by (cases ?ok) (force simp: combine_def Let_def allowed_def unauthenticated_def denied_def prefixed_def)+
qed

lemma decide_Composite:
  assumes "\<forall>p\<in>set ps. decide p c = Inr (f p)"
  shows "decide (Composite operator ps k) c = combine operator k c (map f ps)"
proof -
  have "map (\<lambda>p. decide p c) ps = map (\<lambda>p. Inr (f p)) ps"
    using assms by simp
  then show ?thesis
    by (simp only: decide.simps collect_map_Inr bind_simps)
qed

lemma collect_one_error:
  assumes "\<forall>r\<in>set rs. isl r \<longrightarrow> r = Inl e" "\<exists>r\<in>set rs. isl r"
  shows "collect rs = Inl e"
  using assms
proof (induction rs)
  case (Cons r rs)
  then show ?case by (cases r; cases "\<exists>r\<in>set rs. isl r") auto
qed simp

lemma decide_naive:
  "well_formed p \<Longrightarrow> returns c p \<Longrightarrow> authenticated c \<Longrightarrow>
     if clocks_aware p then \<not> isl (decide p c) else decide p c = Inl ImproperlyConfigured"
proof (induction p)
  case (Assurance r clock)
  show ?case
  proof (cases clock)
    case (Aware now)
    then show ?thesis using assurance_decide_iff [of r now c] by auto
  next
    case (Naive n)
    then show ?thesis using Assurance.prems by (simp add: assurance_decide_def)
  qed
next
  case (Composite operator ps k)
  then have children: "if clocks_aware p then \<not> isl (decide p c) else decide p c = Inl ImproperlyConfigured"
    if "p \<in> set ps" for p
    using that by simp
  show ?case
  proof (cases "clocks_aware (Composite operator ps k)")
    case True
    then have "\<forall>p\<in>set ps. \<exists>d. decide p c = Inr d"
      using children by (metis clocks_aware.simps(1) sum.collapse(2))
    then obtain f where f: "\<forall>p\<in>set ps. decide p c = Inr (f p)" by metis
    have "\<exists>d. combine operator k c (map f ps) = Inr d"
      using combine_returns [of "map f ps" operator k c] Composite.prems by (cases operator) auto
    with True decide_Composite [OF f] show ?thesis by (auto simp: isl_def)
  next
    case False
    then have "\<exists>p\<in>set ps. \<not> clocks_aware p" by simp
    then have "collect (map (\<lambda>p. decide p c) ps) = Inl ImproperlyConfigured"
      using children by (intro collect_one_error) (force split: if_splits)+
    with False show ?thesis by simp
  qed
qed (auto simp: grant_decision_def isl_def)

lemma decide_holds:
  "well_formed p \<Longrightarrow> returns c p \<Longrightarrow> clocks_aware p \<or> \<not> authenticated c \<Longrightarrow>
     \<exists>d. decide p c = Inr d \<and> (granted d \<longleftrightarrow> holds c p)"
proof (induction p)
  case (Assurance r clock)
  show ?case
  proof (cases clock)
    case (Aware now)
    then show ?thesis using assurance_decide_iff [of r now c] by simp
  next
    case (Naive n)
    then show ?thesis using Assurance.prems by (simp add: assurance_decide_def unauthenticated_def)
  qed
next
  case (Composite operator ps k)
  then have "\<forall>p\<in>set ps. \<exists>d. decide p c = Inr d \<and> (granted d \<longleftrightarrow> holds c p)"
    by auto
  then obtain f where f: "\<forall>p\<in>set ps. decide p c = Inr (f p) \<and> (granted (f p) \<longleftrightarrow> holds c p)"
    by metis
  then have dec: "decide (Composite operator ps k) c = combine operator k c (map f ps)"
    by (intro decide_Composite) simp
  have flt: "length (filter granted (map f ps)) = length (filter (holds c) ps)"
    using f by (simp add: filter_map comp_def cong: filter_cong)
  obtain d where d: "combine operator k c (map f ps) = Inr d"
      "granted d \<longleftrightarrow> (case operator of
          AllOf \<Rightarrow> \<forall>x\<in>set (map f ps). granted x
        | AnyOf \<Rightarrow> \<exists>x\<in>set (map f ps). granted x
        | OneOf \<Rightarrow> length (filter granted (map f ps)) = 1
        | AtLeast \<Rightarrow> k \<le> int (length (filter granted (map f ps))))"
    using combine_returns [of "map f ps" operator k c] Composite.prems
    by (cases operator) auto
  then show ?case
    unfolding dec using f flt by (cases operator) simp_all
next
  case (Custom f)
  then show ?case by (cases "f c") auto
qed (auto simp: grant_decision_def allowed_def denied_def unauthenticated_def isl_def)

lemma decide_anonymous:
  "well_formed p \<Longrightarrow> built_in p \<Longrightarrow> \<not> authenticated c \<Longrightarrow>
     \<exists>d. decide p c = Inr d \<and> \<not> granted d \<and> authentication_required d"
proof (induction p)
  case (Composite operator ps k)
  then have "\<forall>p\<in>set ps. \<exists>d. decide p c = Inr d \<and> \<not> granted d"
    by simp blast
  then obtain f where f: "\<forall>p\<in>set ps. decide p c = Inr (f p) \<and> \<not> granted (f p)"
    by metis
  then have dec: "decide (Composite operator ps k) c = combine operator k c (map f ps)"
    by (intro decide_Composite) simp
  have none: "filter granted (map f ps) = []"
    using f by (auto simp: filter_empty_conv)
  show ?case
    unfolding dec
    using combine_returns [of "map f ps" operator k c] Composite.prems f none
    by (cases operator) auto
qed (auto simp: grant_decision_def assurance_decide_def unauthenticated_def)

lemma decide_authenticated:
  "well_formed p \<Longrightarrow> clocks_aware p \<Longrightarrow> built_in p \<Longrightarrow> authenticated c \<Longrightarrow>
     \<exists>d. decide p c = Inr d \<and> \<not> authentication_required d"
proof (induction p)
  case (Assurance r clock)
  then show ?case
    by (cases clock) (auto simp: assurance_decide_def Let_def allowed_def denied_def split: option.splits)
next
  case (Composite operator ps k)
  then have "\<forall>p\<in>set ps. \<exists>d. decide p c = Inr d \<and> \<not> authentication_required d"
    by simp
  then obtain f where f: "\<forall>p\<in>set ps. decide p c = Inr (f p) \<and> \<not> authentication_required (f p)"
    by metis
  then have dec: "decide (Composite operator ps k) c = combine operator k c (map f ps)"
    by (intro decide_Composite) simp
  have "authentication_required d = False" if "combine operator k c (map f ps) = Inr d" "granted d" for d
    using that by (auto simp: combine_def Let_def allowed_def denied_def unauthenticated_def prefixed_def
        dest: first_failure_Some split: if_splits option.splits)
  with combine_returns [of "map f ps" operator k c] Composite.prems f show ?case
    unfolding dec by (cases operator) force+
qed (auto simp: grant_decision_def allowed_def denied_def)

section \<open>Properties\<close>

text \<open>An assurance predicate with an aware clock grants exactly the authenticated connections
  whose evidence assures the requirement: every required method, trait and purpose is carried by
  some live evidence no older than the maximum age (and some such evidence exists when only an
  age is required). The code's relevance filter and its fallback never change the verdict.\<close>

theorem assurance_predicate_exact:
  "\<exists>d. decide (Assurance r (Aware now)) c = Inr d \<and>
     (granted d \<longleftrightarrow> authenticated c \<and> assured now r (sc_evidence (cn_auth c)))"
  using assurance_decide_iff by simp

text \<open>C26: For every predicate the constructors can build, over custom predicates that return: when the clocks
  of its \<^verbatim>\<open>has_assurance\<close> leaves answer aware times, or the connection is not authenticated, a decision is
  reached (no exception, in particular never the StopIteration of an empty failure search) and it grants
  exactly the connections for which the tree holds: all_of is conjunction, any_of disjunction, one_of
  exactly one child, at_least k at least k children. When some clock answers a naive time, evaluating the tree for
  an authenticated connection raises ImproperlyConfiguredException, wherever in the tree the clock is.\<close>

theorem decide_grants_exactly:
  assumes "well_formed p" "returns c p"
  shows "if clocks_aware p \<or> \<not> authenticated c
    then \<exists>d. decide p c = Inr d \<and> (granted d \<longleftrightarrow> holds c p)
    else decide p c = Inl ImproperlyConfigured"
  using decide_holds [OF assms] decide_naive [OF assms] by simp

definition example_connection :: connection where
  "example_connection =
     \<lparr>cn_principal = \<lparr>principal_id = Some ''u1'', display_name = None, principal_user = None\<rparr>,
      cn_auth =
        \<lparr>sc_evidence =
           [\<lparr>ev_mechanism = ''m'', ev_slot = ''s'', ev_authenticated_at = 10, ev_expires_at = Some 50,
             ev_methods = {''otp''}, ev_traits = {}, ev_acr = None, ev_amr = []\<rparr>],
         sc_authorization =
           \<lparr>sn_scopes = {''read''}, sn_roles = {}, sn_capabilities = {},
            sn_tenant_roles = [(''t1'', {''owner''})], sn_tenant_ids = {''t1''}, sn_resources = {},
            sn_attributes = []\<rparr>,
         sc_restrictions = []\<rparr>,
      cn_path_params = [(''tenant_id'', ''t1'')]\<rparr>"

definition example_guard :: predicate where
  "example_guard =
     Composite AllOf
       [Grant Scope ''read'',
        Composite AtLeast [TenantRole ''tenant_id'' {''owner''}, Tenant ''other'', Authenticated] 2] 2"

definition example_requirement :: requirement where
  "example_requirement = \<lparr>rq_methods = {''otp''}, rq_traits = {}, rq_max_age = None, rq_purpose = None\<rparr>"

theorem decide_grants_exactly_witness:
  "holds example_connection example_guard \<and>
   (\<exists>d. decide example_guard example_connection = Inr d \<and> granted d) \<and>
   decide (Composite AnyOf [example_guard, Assurance example_requirement (Naive 20)] 1) example_connection =
     Inl ImproperlyConfigured"
proof -
  let ?naive = "Composite AnyOf [example_guard, Assurance example_requirement (Naive 20)] 1"
  have p: "well_formed example_guard" "returns example_connection example_guard" "clocks_aware example_guard"
    "well_formed ?naive" "returns example_connection ?naive" "\<not> clocks_aware ?naive"
    by (simp_all add: example_guard_def)
  have h: "holds example_connection example_guard" "authenticated example_connection"
    by (simp_all add: example_guard_def example_connection_def authenticated_def is_authenticated_def
        authorization_def tenant_roles_for_def tenant_member_def)
  show ?thesis
    using decide_grants_exactly [OF p(1,2)] decide_grants_exactly [OF p(4,5)] p(3,6) h
    by (simp only: if_True if_False simp_thms)
qed

text \<open>Called as a guard, a well-formed tree of the library's own predicates lets a connection
  through exactly when the tree holds; a denial is 401 (NotAuthorized) exactly for an
  unauthenticated connection and 403 (PermissionDenied) for an authenticated one, however deep
  in the tree it was decided.\<close>

theorem call_guard_outcome:
  assumes "well_formed p" "clocks_aware p" "built_in p"
  shows "call_guard p c =
    (if authenticated c then (if holds c p then Inr () else Inl PermissionDenied)
     else Inl NotAuthorized)"
proof (cases "authenticated c")
  case True
  with decide_authenticated [OF assms True]
    decide_holds [OF assms(1) built_in_returns [OF assms(3), of c]] assms(2)
  show ?thesis by (auto simp: call_guard_def)
next
  case False
  with decide_anonymous [OF assms(1,3) False] show ?thesis
    by (auto simp: call_guard_def)
qed

theorem call_guard_outcome_witness:
  "well_formed example_guard \<and> clocks_aware example_guard \<and> built_in example_guard \<and>
   call_guard example_guard example_connection = Inr () \<and>
   call_guard example_guard (example_connection\<lparr>cn_path_params := []\<rparr>) = Inl PermissionDenied \<and>
   call_guard example_guard (example_connection\<lparr>cn_principal := anonymous\<rparr>) = Inl NotAuthorized"
proof -
  have w: "well_formed example_guard" "clocks_aware example_guard" "built_in example_guard"
    by (simp_all add: example_guard_def)
  show ?thesis
    unfolding call_guard_outcome [OF w]
    using w
    by (simp add: example_guard_def example_connection_def authenticated_def is_authenticated_def
        authorization_def tenant_roles_for_def tenant_member_def anonymous_def)
qed

end
