(* ===== verification/Internal.thy ===== *)
theory Internal
  imports Prelude
begin

text \<open>
  The primitives every local-account module shares (\<^verbatim>\<open>accounts/_internal.py\<close>): strict text,
  security epochs, and the canonical unpadded base64url segments of identifiers and secrets. The
  decoder underneath is CPython's non-strict \<^verbatim>\<open>binascii.a2b_base64\<close>: characters outside the
  alphabet are skipped, a completed pad sequence ends the input, and a dangling quad is an error.
  The code makes it strict by re-encoding what it decoded.
\<close>

section \<open>Strict text and epochs\<close>

definition strict_text :: "string \<Rightarrow> bool" where
  "strict_text value \<longleftrightarrow> strip value \<noteq> []"

definition strict_context_text :: "string \<Rightarrow> bool" where
  "strict_context_text value \<longleftrightarrow>
     strict_text value \<and> value = strip value \<and> utf8_length value \<le> 512 \<and>
     (\<forall>c\<in>set value. (of_char c :: nat) \<ge> 32)"

definition maximum_security_epoch :: int where
  "maximum_security_epoch = 9223372036854775807"

definition valid_security_epoch :: "int \<Rightarrow> bool" where
  "valid_security_epoch e \<longleftrightarrow> 0 \<le> e \<and> e \<le> maximum_security_epoch"

lemma strict_context_text_trimmed: "strict_context_text v \<Longrightarrow> trimmed v"
  by (metis strict_context_text_def strict_text_def trimmed_strip)

section \<open>Base64url\<close>

definition b64_char :: "nat \<Rightarrow> char" where
  "b64_char n =
     (if n < 26 then char_of (65 + n)
      else if n < 52 then char_of (71 + n)
      else if n < 62 then char_of (n - 4)
      else if n = 62 then CHR ''-'' else CHR ''_'')"

text \<open>\<^verbatim>\<open>urlsafe_b64decode\<close> translates \<^verbatim>\<open>-_\<close> to \<^verbatim>\<open>+/\<close> first, so both spellings decode.\<close>

definition b64_value :: "char \<Rightarrow> nat option" where
  "b64_value c =
     (let n = (of_char c :: nat)
      in if 65 \<le> n \<and> n \<le> 90 then Some (n - 65)
         else if 97 \<le> n \<and> n \<le> 122 then Some (n - 71)
         else if 48 \<le> n \<and> n \<le> 57 then Some (n + 4)
         else if c = CHR ''-'' \<or> c = CHR ''+'' then Some 62
         else if c = CHR ''_'' \<or> c = CHR ''/'' then Some 63
         else None)"

fun b64_encode :: "bytes \<Rightarrow> string" where
  "b64_encode [] = []"
| "b64_encode [a] =
     [b64_char (unat a div 4), b64_char (unat a mod 4 * 16), CHR ''='', CHR ''='']"
| "b64_encode [a, b] =
     [b64_char (unat a div 4), b64_char (unat a mod 4 * 16 + unat b div 16),
      b64_char (unat b mod 16 * 4), CHR ''='']"
| "b64_encode (a # b # c # rest) =
     [b64_char (unat a div 4), b64_char (unat a mod 4 * 16 + unat b div 16),
      b64_char (unat b mod 16 * 4 + unat c div 64), b64_char (unat c mod 64)] @ b64_encode rest"

definition encode_random :: "bytes \<Rightarrow> string" where
  "encode_random value = rev (dropWhile (\<lambda>c. c = CHR ''='') (rev (b64_encode value)))"

fun a2b :: "nat \<Rightarrow> nat \<Rightarrow> nat \<Rightarrow> string \<Rightarrow> bytes option" where
  "a2b quad left pads [] = (if quad = 0 then Some [] else None)"
| "a2b quad left pads (c # cs) =
     (if c = CHR ''='' then
        (if quad \<ge> 2 \<and> quad + (pads + 1) \<ge> 4 then Some []
         else a2b quad left (if quad \<ge> 2 then pads + 1 else pads) cs)
      else case b64_value c of
        None \<Rightarrow> a2b quad left pads cs
      | Some v \<Rightarrow>
          if quad = 0 then a2b 1 v 0 cs
          else if quad = 1 then
            map_option ((#) (word_of_nat (left * 4 + v div 16))) (a2b 2 (v mod 16) 0 cs)
          else if quad = 2 then
            map_option ((#) (word_of_nat (left * 16 + v div 4))) (a2b 3 (v mod 4) 0 cs)
          else map_option ((#) (word_of_nat (left * 64 + v))) (a2b 0 0 0 cs))"

definition pad :: "string \<Rightarrow> string" where
  "pad value = value @ replicate (nat (- int (length value) mod 4)) (CHR ''='')"

text \<open>\<^verbatim>\<open>urlsafe_b64decode(padded.encode("ascii"))\<close>; \<open>None\<close> is any of the exceptions it raises.\<close>

definition decode_padded :: "string \<Rightarrow> bytes option" where
  "decode_padded value = (if is_ascii value then a2b 0 0 0 (pad value) else None)"

definition decode_random :: "string \<Rightarrow> nat \<Rightarrow> bytes option" where
  "decode_random value expected_bytes =
     (case decode_padded value of
        None \<Rightarrow> None
      | Some decoded \<Rightarrow>
          if length decoded = expected_bytes \<and> encode_random decoded = value then Some decoded
          else None)"

definition decode_random_unbounded :: "string \<Rightarrow> bytes result" where
  "decode_random_unbounded value =
     (case decode_padded value of
        None \<Rightarrow> Inl ValueError
      | Some decoded \<Rightarrow> if encode_random decoded \<noteq> value then Inl ValueError else Inr decoded)"

definition lookup_bytes :: nat where "lookup_bytes = 16"
definition secret_bytes :: nat where "secret_bytes = 32"
definition secret_characters :: nat where "secret_characters = 43"
definition digest_bytes :: nat where "digest_bytes = 32"
definition session_id_bytes :: nat where "session_id_bytes = 32"
definition minimum_pepper_bytes :: nat where "minimum_pepper_bytes = 32"

lemmas width_defs = lookup_bytes_def secret_bytes_def secret_characters_def digest_bytes_def
  session_id_bytes_def minimum_pepper_bytes_def

definition starts_with_prefix :: "string \<Rightarrow> string \<Rightarrow> bool" where
  "starts_with_prefix prefix s \<longleftrightarrow> take (length prefix) s = prefix"

definition valid_identifier :: "string option \<Rightarrow> string \<Rightarrow> bool" where
  "valid_identifier prefix value =
     (if \<not> strict_text value then False
      else case prefix of
        None \<Rightarrow> decode_random value session_id_bytes \<noteq> None
      | Some p \<Rightarrow>
          if \<not> starts_with_prefix p value then False
          else decode_random (drop (length p) value) lookup_bytes \<noteq> None)"

section \<open>The codec is canonical\<close>

lemma b64_char_code:
  "n < 64 \<Longrightarrow> (of_char (b64_char n) :: nat) =
     (if n < 26 then 65 + n else if n < 52 then 71 + n else if n < 62 then n - 4
      else if n = 62 then 45 else 95)"
  by (auto simp: b64_char_def)

lemma char_eq_code: "c = d \<longleftrightarrow> (of_char c :: nat) = of_char d"
  by auto

lemma b64_value_char [simp]:
  assumes "n < 64"
  shows "b64_value (b64_char n) = Some n"
proof -
  have "n < 26 \<or> (26 \<le> n \<and> n < 52) \<or> (52 \<le> n \<and> n < 62) \<or> n = 62 \<or> n = 63"
    using assms by arith
  then show ?thesis
    unfolding b64_value_def char_eq_code Let_def b64_char_code [OF assms] by auto
qed

lemma b64_char_not_pad [simp]: "n < 64 \<Longrightarrow> b64_char n \<noteq> CHR ''=''"
  unfolding char_eq_code by (auto simp: b64_char_code)

lemma b64_char_not_dot [simp]: "n < 64 \<Longrightarrow> b64_char n \<noteq> CHR ''.''"
  unfolding char_eq_code by (auto simp: b64_char_code)

lemma b64_char_ascii: "n < 64 \<Longrightarrow> (of_char (b64_char n) :: nat) < 128"
  by (auto simp: b64_char_code)

lemma b64_char_not_space: "n < 64 \<Longrightarrow> \<not> is_space (b64_char n)"
  by (auto simp: is_space_def b64_char_code Let_def)

lemma unat_byte [simp]: "unat (a :: 8 word) < 256"
  using unsigned_less [of a, where 'a = nat] by simp

lemma sextets [simp]:
  "unat (a :: 8 word) div 4 < 64"
  "unat a mod 4 * 16 < 64"
  "unat a mod 4 * 16 + unat (b :: 8 word) div 16 < 64"
  "unat b mod 16 * 4 < 64"
  "unat b mod 16 * 4 + unat (c :: 8 word) div 64 < 64"
  "unat c mod 64 < 64"
  using unat_byte [of a] unat_byte [of b] unat_byte [of c] by (linarith | simp)+

fun b64_core :: "bytes \<Rightarrow> string" where
  "b64_core [] = []"
| "b64_core [a] = [b64_char (unat a div 4), b64_char (unat a mod 4 * 16)]"
| "b64_core [a, b] =
     [b64_char (unat a div 4), b64_char (unat a mod 4 * 16 + unat b div 16),
      b64_char (unat b mod 16 * 4)]"
| "b64_core (a # b # c # rest) =
     [b64_char (unat a div 4), b64_char (unat a mod 4 * 16 + unat b div 16),
      b64_char (unat b mod 16 * 4 + unat c div 64), b64_char (unat c mod 64)] @ b64_core rest"

lemma b64_core_chars: "c \<in> set (b64_core bs) \<Longrightarrow> \<exists>n<64. c = b64_char n"
  by (induction bs rule: b64_core.induct) (auto intro: sextets)

lemma negative_mod_four: "(- 4 - (x::int)) mod 4 = - x mod 4"
  by presburger

lemma b64_encode_core:
  "b64_encode bs = b64_core bs @ replicate (nat (- int (length (b64_core bs)) mod 4)) (CHR ''='')"
  by (induction bs rule: b64_core.induct) (auto simp: numeral_2_eq_2 negative_mod_four)

lemma encode_random_core: "encode_random bs = b64_core bs"
proof -
  have "dropWhile (\<lambda>c. c = CHR ''='') (rev (b64_core bs)) = rev (b64_core bs)"
  proof (cases "rev (b64_core bs)")
    case (Cons c cs)
    then have "c \<in> set (b64_core bs)"
      by (metis list.set_intros(1) set_rev)
    with b64_core_chars [of c bs] Cons show ?thesis by auto
  qed simp
  moreover have "dropWhile (\<lambda>c. c = CHR ''='') (replicate n (CHR ''='') @ ys) =
      dropWhile (\<lambda>c. c = CHR ''='') ys" for n ys
    by (induction n) auto
  ultimately show ?thesis
    by (simp add: encode_random_def b64_encode_core)
qed

lemma pad_core: "pad (b64_core bs) = b64_encode bs"
  by (simp add: pad_def b64_encode_core)

lemma join_split:
  fixes x y m :: nat
  assumes "y < m"
  shows "(x * m + y) div m = x" "(x * m + y) mod m = y"
  using assms by simp_all

lemma byte_joins:
  fixes a b c :: "8 word"
  shows "unat a div 4 * 4 + (unat a mod 4 * 16) div 16 = unat a"
    "unat a div 4 * 4 + (unat a mod 4 * 16 + unat b div 16) div 16 = unat a"
    "(unat a mod 4 * 16 + unat b div 16) mod 16 * 16 + (unat b mod 16 * 4) div 4 = unat b"
    "(unat a mod 4 * 16 + unat b div 16) mod 16 * 16 + (unat b mod 16 * 4 + unat c div 64) div 4 = unat b"
    "(unat b mod 16 * 4 + unat c div 64) mod 4 * 64 + unat c mod 64 = unat c"
proof -
  have hi: "unat b div 16 < 16" "unat c div 64 < 4"
    using unat_byte [of b] unat_byte [of c] by linarith+
  show "unat a div 4 * 4 + (unat a mod 4 * 16) div 16 = unat a"
    "unat a div 4 * 4 + (unat a mod 4 * 16 + unat b div 16) div 16 = unat a"
    "(unat a mod 4 * 16 + unat b div 16) mod 16 * 16 + (unat b mod 16 * 4) div 4 = unat b"
    "(unat a mod 4 * 16 + unat b div 16) mod 16 * 16 + (unat b mod 16 * 4 + unat c div 64) div 4 = unat b"
    "(unat b mod 16 * 4 + unat c div 64) mod 4 * 64 + unat c mod 64 = unat c"
    by (simp_all only: join_split [OF hi(1)] join_split [OF hi(2)] div_mult_mod_eq
        nonzero_mult_div_cancel_right zero_neq_numeral not_False_eq_True)
qed

lemma byte_of_unat: "word_of_nat (unat (a :: 8 word)) = a"
  by simp

text \<open>One pass of the decoder over a character of the alphabet, for each quad position.\<close>

lemma a2b_char:
  assumes "n < 64"
  shows "a2b 0 left pads (b64_char n # cs) = a2b 1 n 0 cs"
    "a2b 1 left pads (b64_char n # cs) =
       map_option ((#) (word_of_nat (left * 4 + n div 16))) (a2b 2 (n mod 16) 0 cs)"
    "a2b 2 left pads (b64_char n # cs) =
       map_option ((#) (word_of_nat (left * 16 + n div 4))) (a2b 3 (n mod 4) 0 cs)"
    "a2b 3 left pads (b64_char n # cs) =
       map_option ((#) (word_of_nat (left * 64 + n))) (a2b 0 0 0 cs)"
  using assms by simp_all

lemma a2b_padding:
  "a2b 2 left 0 [CHR ''='', CHR ''=''] = Some []"
  "a2b 3 left 0 [CHR ''=''] = Some []"
  by simp_all

lemma a2b_encode: "a2b 0 0 0 (b64_encode bs) = Some bs"
proof (induction bs rule: b64_core.induct)
  case 1
  show ?case by simp
next
  case (2 a)
  show ?case
    by (simp only: b64_encode.simps a2b_char sextets a2b_padding byte_joins option.map byte_of_unat)
next
  case (3 a b)
  show ?case
    by (simp only: b64_encode.simps a2b_char sextets a2b_padding byte_joins option.map byte_of_unat)
next
  case (4 a b c rest)
  show ?case
    by (simp only: b64_encode.simps a2b_char sextets byte_joins option.map byte_of_unat
        append.simps "4.IH")
qed

lemma is_ascii_core: "is_ascii (b64_core bs)"
  using b64_core_chars b64_char_ascii by (fastforce simp: is_ascii_def list_all_iff)

lemma decode_padded_encode: "decode_padded (encode_random bs) = Some bs"
  by (simp add: decode_padded_def encode_random_core is_ascii_core pad_core a2b_encode)

lemma length_b64_core: "length (b64_core bs) = (4 * length bs + 2) div 3"
  by (induction bs rule: b64_core.induct) auto

lemma length_encode_random: "length (encode_random bs) = (4 * length bs + 2) div 3"
  by (simp add: encode_random_core length_b64_core)

lemma encode_random_inject: "encode_random a = encode_random b \<longleftrightarrow> a = b"
  by (metis decode_padded_encode option.inject)

lemma encode_random_chars: "c \<in> set (encode_random bs) \<Longrightarrow> c \<noteq> CHR ''.'' \<and> \<not> is_space c"
  using b64_core_chars [of c bs] b64_char_not_space b64_char_not_dot
  by (auto simp: encode_random_core)

lemma decode_random_iff: "decode_random s n = Some b \<longleftrightarrow> length b = n \<and> s = encode_random b"
  by (auto simp: decode_random_def decode_padded_encode split: option.splits if_splits)

lemma decode_random_unbounded_iff: "decode_random_unbounded s = Inr b \<longleftrightarrow> s = encode_random b"
  by (auto simp: decode_random_unbounded_def decode_padded_encode split: option.splits if_splits)

section \<open>Identifiers\<close>

lemma strip_Nil_iff: "strip s = [] \<longleftrightarrow> (\<forall>c\<in>set s. is_space c)"
  by (auto simp: strip_def dest: set_dropWhileD)
    (metis (no_types, lifting) dropWhile_eq_Nil_conv in_set_conv_decomp set_rev
      list.set_intros(1) set_dropWhileD dropWhile_append3 Un_iff set_append self_append_conv2
      takeWhile_dropWhile_id set_takeWhileD)

lemma encode_random_nonempty: "bs \<noteq> [] \<Longrightarrow> encode_random bs \<noteq> []"
  using length_encode_random [of bs] by (cases bs) auto

lemma strict_text_append_encoded: "bs \<noteq> [] \<Longrightarrow> strict_text (p @ encode_random bs)"
  using encode_random_nonempty [of bs] encode_random_chars [of "hd (encode_random bs)" bs]
  by (auto simp: strict_text_def strip_Nil_iff)

lemma valid_identifier_prefix_iff:
  "valid_identifier (Some p) s \<longleftrightarrow> (\<exists>b. length b = lookup_bytes \<and> s = p @ encode_random b)"
proof
  assume v: "valid_identifier (Some p) s"
  then have "take (length p) s = p" "decode_random (drop (length p) s) lookup_bytes \<noteq> None"
    by (auto simp: valid_identifier_def starts_with_prefix_def split: if_splits)
  then show "\<exists>b. length b = lookup_bytes \<and> s = p @ encode_random b"
    by (metis append_take_drop_id decode_random_iff not_None_eq)
next
  assume "\<exists>b. length b = lookup_bytes \<and> s = p @ encode_random b"
  then obtain b where b: "length b = lookup_bytes" "s = p @ encode_random b" by blast
  then have "b \<noteq> []" by (auto simp: width_defs)
  then have "strict_text s"
    using b(2) strict_text_append_encoded by simp
  moreover have "decode_random (encode_random b) lookup_bytes = Some b"
    using b(1) by (simp add: decode_random_iff)
  ultimately show "valid_identifier (Some p) s"
    using b by (simp add: valid_identifier_def starts_with_prefix_def)
qed

lemma valid_identifier_no_dot:
  assumes "valid_identifier (Some p) s" "CHR ''.'' \<notin> set p"
  shows "CHR ''.'' \<notin> set s"
  using assms encode_random_chars [of "CHR ''.''"] by (auto simp: valid_identifier_prefix_iff)

section \<open>Properties\<close>

text \<open>Segment decoding is canonical: a segment decodes to given bytes of the expected length
  exactly when it is their unpadded base64url text, so every byte string has one accepted
  spelling although the decoder underneath skips foreign characters and accepts both alphabets.\<close>

theorem decode_random_canonical:
  "decode_random s n = Some b \<longleftrightarrow> length b = n \<and> s = encode_random b"
  by (rule decode_random_iff)

text \<open>A prefixed identifier (refresh token, family) is valid exactly when it is the prefix
  followed by the canonical encoding of 16 bytes; it then has 22 characters after the prefix.\<close>

theorem valid_identifier_shape:
  "(valid_identifier (Some p) s \<longleftrightarrow> (\<exists>b. length b = 16 \<and> s = p @ encode_random b)) \<and>
   (valid_identifier (Some p) s \<longrightarrow> length s = length p + 22)"
  by (auto simp: valid_identifier_prefix_iff lookup_bytes_def length_encode_random)

theorem valid_identifier_shape_witness:
  "valid_identifier (Some ''rt_'') (''rt_'' @ encode_random (replicate 16 7)) \<and>
   length (''rt_'' @ encode_random (replicate 16 7)) = 25"
proof -
  have "valid_identifier (Some ''rt_'') (''rt_'' @ encode_random (replicate 16 7))"
    using valid_identifier_shape [of "''rt_''" "''rt_'' @ encode_random (replicate 16 7)"]
    by (metis length_replicate)
  with valid_identifier_shape [of "''rt_''" "''rt_'' @ encode_random (replicate 16 7)"]
  show ?thesis by simp
qed

end
