(* ===== verification/Records.thy ===== *)
theory Records
  imports Internal
begin

text \<open>
  Local account records, status enumerations and lifecycle outcomes
  (\<^verbatim>\<open>accounts/_records.py\<close>), and the storage side of purpose tokens
  (\<^verbatim>\<open>PendingTokenIssue\<close>, \<^verbatim>\<open>TokenIssue\<close> of \<^verbatim>\<open>accounts/_purpose_tokens.py\<close>).

  Every frozen dataclass is a record together with its \<^verbatim>\<open>__post_init__\<close>, which returns the
  validated value or the ValueError the code raises; \<^verbatim>\<open>dataclasses.replace\<close> runs it again, so a
  later update of a record goes through it too. The \<^verbatim>\<open>__class__ is not\<close> checks of the source are
  the types here. A record that stores timezone-aware instants is polymorphic in their type: the
  constructor's argument carries \<^typ>\<open>py_datetime\<close>, the constructed value UTC instants.
\<close>

section \<open>Statuses\<close>

datatype token_purpose = Invitation | Verification | Recovery

datatype password_change_status = Changed | Change_Conflict | Not_Found | Epoch_Exhausted

datatype revoke_method_status = Method_Revoked | Method_Not_Found | Final_Method

datatype registration_status = Created | Duplicate | Invalid_Invitation

datatype verification_status = Consumed | Verification_Invalid | Verification_Expired | Verification_Used

datatype password_reset_status =
    Reset
  | Reset_Invalid
  | Reset_Expired
  | Reset_Used
  | Reset_Conflict
  | Reset_Epoch_Exhausted

fun purpose_value :: "token_purpose \<Rightarrow> string" where
  "purpose_value Invitation = ''invitation''"
| "purpose_value Verification = ''verification''"
| "purpose_value Recovery = ''recovery''"

section \<open>Accounts and credentials\<close>

record 'u account =
  acc_id :: string
  acc_identifier :: string
  acc_display_name :: "string option"
  acc_active :: bool
  acc_verified :: bool
  acc_epoch :: int
  acc_user :: "'u option"

definition account_post_init :: "'u account \<Rightarrow> 'u account result" where
  "account_post_init a =
     (if \<not> strict_text (acc_id a) \<or> \<not> strict_text (acc_identifier a) \<or>
         \<not> valid_security_epoch (acc_epoch a)
      then Inl ValueError else Inr a)"

record login_method =
  lm_method_id :: string
  lm_kind :: string
  lm_created_at :: py_datetime
  lm_display_name :: "string option"

record password_state =
  ps_password_hash :: string
  ps_security_epoch :: int
  ps_active :: bool
  ps_verified :: bool

definition password_state_post_init :: "password_state \<Rightarrow> password_state result" where
  "password_state_post_init p =
     (if \<not> strict_text (ps_password_hash p) \<or> \<not> valid_security_epoch (ps_security_epoch p)
      then Inl ValueError else Inr p)"

record 't reauthentication_proof =
  rp_account_id :: string
  rp_security_epoch :: int
  rp_authenticated_at :: 't
  rp_expires_at :: 't

definition reauthentication_ttl :: time where "reauthentication_ttl = seconds 300"

definition reauthentication_proof_post_init ::
  "py_datetime reauthentication_proof \<Rightarrow> time reauthentication_proof result" where
  "reauthentication_proof_post_init p =
     bind (aware_utc_time (rp_authenticated_at p)) (\<lambda>authenticated_at.
     bind (aware_utc_time (rp_expires_at p)) (\<lambda>expires_at.
       if \<not> strict_text (rp_account_id p) \<or> \<not> valid_security_epoch (rp_security_epoch p) \<or>
          expires_at \<le> authenticated_at \<or> expires_at - authenticated_at > reauthentication_ttl
       then Inl ValueError
       else Inr \<lparr>rp_account_id = rp_account_id p, rp_security_epoch = rp_security_epoch p,
                 rp_authenticated_at = authenticated_at, rp_expires_at = expires_at\<rparr>))"

section \<open>Outcomes\<close>

record password_change_outcome =
  pc_status :: password_change_status
  pc_security_epoch :: "int option"

definition password_change_outcome_post_init ::
  "password_change_outcome \<Rightarrow> password_change_outcome result" where
  "password_change_outcome_post_init r =
     (let changed = pc_status r = Changed
      in if changed \<noteq> (pc_security_epoch r \<noteq> None) \<or>
            (changed \<and> \<not> (case pc_security_epoch r of None \<Rightarrow> False | Some e \<Rightarrow> valid_security_epoch e))
         then Inl ValueError else Inr r)"

record 'u registration_outcome =
  ro_status :: registration_status
  ro_account :: "'u account option"

definition registration_outcome_post_init ::
  "'u registration_outcome \<Rightarrow> 'u registration_outcome result" where
  "registration_outcome_post_init r =
     (if (ro_status r = Created) \<noteq> (ro_account r \<noteq> None) then Inl ValueError else Inr r)"

record verification_outcome =
  vo_status :: verification_status
  vo_account_id :: "string option"
  vo_security_epoch :: "int option"

definition verification_outcome_post_init ::
  "verification_outcome \<Rightarrow> verification_outcome result" where
  "verification_outcome_post_init r =
     (let consumed = vo_status r = Consumed;
          has_payload = vo_account_id r \<noteq> None \<and> vo_security_epoch r \<noteq> None
      in if consumed \<noteq> has_payload \<or>
            (\<not> consumed \<and> (vo_account_id r \<noteq> None \<or> vo_security_epoch r \<noteq> None))
         then Inl ValueError else Inr r)"

record password_reset_outcome =
  pr_status :: password_reset_status
  pr_account_id :: "string option"
  pr_security_epoch :: "int option"

definition password_reset_outcome_post_init ::
  "password_reset_outcome \<Rightarrow> password_reset_outcome result" where
  "password_reset_outcome_post_init r =
     (let reset = pr_status r = Reset;
          has_payload = pr_account_id r \<noteq> None \<and> pr_security_epoch r \<noteq> None
      in if reset \<noteq> has_payload \<or>
            (\<not> reset \<and> (pr_account_id r \<noteq> None \<or> pr_security_epoch r \<noteq> None)) \<or>
            (reset \<and> (\<not> (case pr_account_id r of None \<Rightarrow> False | Some a \<Rightarrow> strict_text a) \<or>
                      \<not> (case pr_security_epoch r of None \<Rightarrow> False | Some e \<Rightarrow> valid_security_epoch e)))
         then Inl ValueError else Inr r)"

text \<open>The constructors the stores call, with the defaults of the dataclasses.\<close>

definition password_change ::
  "password_change_status \<Rightarrow> int option \<Rightarrow> password_change_outcome result" where
  "password_change status epoch =
     password_change_outcome_post_init \<lparr>pc_status = status, pc_security_epoch = epoch\<rparr>"

definition registration ::
  "registration_status \<Rightarrow> 'u account option \<Rightarrow> 'u registration_outcome result" where
  "registration status a = registration_outcome_post_init \<lparr>ro_status = status, ro_account = a\<rparr>"

definition verification ::
  "verification_status \<Rightarrow> string option \<Rightarrow> int option \<Rightarrow> verification_outcome result" where
  "verification status a epoch =
     verification_outcome_post_init
       \<lparr>vo_status = status, vo_account_id = a, vo_security_epoch = epoch\<rparr>"

definition password_reset ::
  "password_reset_status \<Rightarrow> string option \<Rightarrow> int option \<Rightarrow> password_reset_outcome result" where
  "password_reset status a epoch =
     password_reset_outcome_post_init
       \<lparr>pr_status = status, pr_account_id = a, pr_security_epoch = epoch\<rparr>"

section \<open>Security events\<close>

text \<open>The constructor only copies and freezes \<^verbatim>\<open>correlation\<close>.\<close>

record security_event =
  se_event_id :: string
  se_occurred_at :: py_datetime
  se_operation :: string
  se_outcome :: string
  se_account_id :: "string option"
  se_principal_id :: "string option"
  se_mechanism :: "string option"
  se_session_id :: "string option"
  se_family_id :: "string option"
  se_correlation :: "(string, string) dict"

section \<open>Purpose token material\<close>

text \<open>
  \<^verbatim>\<open>_decode_token_segment\<close> is a second decoder for the same wire format: it derives the expected
  number of characters from the expected number of bytes (22 for 16 bytes, 43 otherwise) and
  checks it before decoding, where \<^verbatim>\<open>decode_random\<close> leaves the length to the decoder.
\<close>

definition decode_token_segment :: "string \<Rightarrow> nat \<Rightarrow> bytes option" where
  "decode_token_segment value expected_bytes =
     (let expected_characters = if expected_bytes = 16 then 22 else 43
      in if length value \<noteq> expected_characters then None
         else if \<not> is_ascii value then None
         else case decode_padded value of
           None \<Rightarrow> None
         | Some decoded \<Rightarrow>
             if length decoded \<noteq> expected_bytes \<or> encode_random decoded \<noteq> value then None
             else Some decoded)"

definition purpose_prefix :: "token_purpose \<Rightarrow> string" where
  "purpose_prefix purpose = purpose_value purpose @ ''_''"

definition valid_token_id :: "string \<Rightarrow> token_purpose \<Rightarrow> bool" where
  "valid_token_id token_id purpose =
     (let prefix = purpose_prefix purpose
      in if \<not> starts_with_prefix prefix token_id then False
         else decode_token_segment (drop (length prefix) token_id) 16 \<noteq> None)"

record 't pending_issue =
  pi_token_id :: string
  pi_digest :: bytes
  pi_purpose :: token_purpose
  pi_expires_at :: 't
  pi_maximum_attempts :: int

record 't token_issue =
  ti_token_id :: string
  ti_digest :: bytes
  ti_purpose :: token_purpose
  ti_expires_at :: 't
  ti_maximum_attempts :: int
  ti_account_id :: string
  ti_issued_epoch :: "int option"

definition validate_pending_token_issue ::
  "string \<Rightarrow> bytes \<Rightarrow> token_purpose \<Rightarrow> py_datetime \<Rightarrow> int \<Rightarrow> time result" where
  "validate_pending_token_issue token_id digest purpose expires_at maximum_attempts =
     (if \<not> valid_token_id token_id purpose \<or> length digest \<noteq> digest_bytes \<or>
         \<not> (1 \<le> maximum_attempts \<and> maximum_attempts \<le> 100)
      then Inl ValueError else aware_utc_time expires_at)"

definition pending_issue_post_init ::
  "py_datetime pending_issue \<Rightarrow> time pending_issue result" where
  "pending_issue_post_init p =
     bind (validate_pending_token_issue (pi_token_id p) (pi_digest p) (pi_purpose p)
             (pi_expires_at p) (pi_maximum_attempts p)) (\<lambda>expires_at.
       Inr \<lparr>pi_token_id = pi_token_id p, pi_digest = pi_digest p, pi_purpose = pi_purpose p,
            pi_expires_at = expires_at, pi_maximum_attempts = pi_maximum_attempts p\<rparr>)"

definition token_issue_post_init :: "py_datetime token_issue \<Rightarrow> time token_issue result" where
  "token_issue_post_init t =
     bind (validate_pending_token_issue (ti_token_id t) (ti_digest t) (ti_purpose t)
             (ti_expires_at t) (ti_maximum_attempts t)) (\<lambda>expires_at.
       let recovery_epoch_valid =
             ti_purpose t \<noteq> Recovery \<or>
             (case ti_issued_epoch t of None \<Rightarrow> False | Some e \<Rightarrow> valid_security_epoch e);
           non_recovery_epoch_valid = ti_purpose t = Recovery \<or> ti_issued_epoch t = None
       in if \<not> strict_text (ti_account_id t) \<or> \<not> recovery_epoch_valid \<or> \<not> non_recovery_epoch_valid
          then Inl ValueError
          else Inr \<lparr>ti_token_id = ti_token_id t, ti_digest = ti_digest t,
                    ti_purpose = ti_purpose t, ti_expires_at = expires_at,
                    ti_maximum_attempts = ti_maximum_attempts t,
                    ti_account_id = ti_account_id t, ti_issued_epoch = ti_issued_epoch t\<rparr>)"

definition bind_issue ::
  "time pending_issue \<Rightarrow> string \<Rightarrow> int option \<Rightarrow> time token_issue result" where
  "bind_issue p account_id security_epoch =
     token_issue_post_init
       \<lparr>ti_token_id = pi_token_id p, ti_digest = pi_digest p, ti_purpose = pi_purpose p,
        ti_expires_at = Aware (pi_expires_at p), ti_maximum_attempts = pi_maximum_attempts p,
        ti_account_id = account_id, ti_issued_epoch = security_epoch\<rparr>"

section \<open>Lemmas\<close>

lemmas outcome_defs =
  password_change_def password_change_outcome_post_init_def
  registration_def registration_outcome_post_init_def
  verification_def verification_outcome_post_init_def
  password_reset_def password_reset_outcome_post_init_def

lemma password_change_simps [simp, result_simps]:
  "password_change Not_Found None = Inr \<lparr>pc_status = Not_Found, pc_security_epoch = None\<rparr>"
  "password_change Change_Conflict None =
     Inr \<lparr>pc_status = Change_Conflict, pc_security_epoch = None\<rparr>"
  "valid_security_epoch e \<Longrightarrow>
     password_change Changed (Some e) = Inr \<lparr>pc_status = Changed, pc_security_epoch = Some e\<rparr>"
  by (simp_all add: outcome_defs)

lemma registration_simps [simp, result_simps]:
  "registration Duplicate None = Inr \<lparr>ro_status = Duplicate, ro_account = None\<rparr>"
  "registration Invalid_Invitation None =
     Inr \<lparr>ro_status = Invalid_Invitation, ro_account = None\<rparr>"
  "registration Created (Some a) = Inr \<lparr>ro_status = Created, ro_account = Some a\<rparr>"
  by (simp_all add: outcome_defs)

lemma verification_simps [simp, result_simps]:
  "s \<noteq> Consumed \<Longrightarrow> verification s None None =
     Inr \<lparr>vo_status = s, vo_account_id = None, vo_security_epoch = None\<rparr>"
  "verification Consumed (Some a) (Some e) =
     Inr \<lparr>vo_status = Consumed, vo_account_id = Some a, vo_security_epoch = Some e\<rparr>"
  by (simp_all add: outcome_defs)

lemma password_reset_simps [simp, result_simps]:
  "s \<noteq> Reset \<Longrightarrow> password_reset s None None =
     Inr \<lparr>pr_status = s, pr_account_id = None, pr_security_epoch = None\<rparr>"
  "strict_text a \<Longrightarrow> valid_security_epoch e \<Longrightarrow> password_reset Reset (Some a) (Some e) =
     Inr \<lparr>pr_status = Reset, pr_account_id = Some a, pr_security_epoch = Some e\<rparr>"
  by (simp_all add: outcome_defs)

lemma account_post_init_Inr:
  "account_post_init a = Inr b \<longleftrightarrow>
     b = a \<and> strict_text (acc_id a) \<and> strict_text (acc_identifier a) \<and>
     valid_security_epoch (acc_epoch a)"
  by (auto simp: account_post_init_def)

text \<open>The two segment decoders agree on the two widths the code uses.\<close>

lemma decode_token_segment_decode_random:
  assumes "n = 16 \<or> n = 32"
  shows "decode_token_segment value n = decode_random value n"
proof -
  have len: "length value = (if n = 16 then 22 else 43)"
    if "decode_random value n = Some b" for b
    using that assms by (auto simp: decode_random_iff length_encode_random)
  show ?thesis
  proof (cases "length value = (if n = 16 then 22 else 43)")
    case True
    then show ?thesis
      by (auto simp: decode_token_segment_def decode_random_def decode_padded_def Let_def
          split: option.splits)
  next
    case False
    then have "decode_random value n = None"
      using len by (cases "decode_random value n") auto
    with False show ?thesis
      by (simp add: decode_token_segment_def Let_def)
  qed
qed

lemma valid_token_id_iff:
  "valid_token_id token_id purpose \<longleftrightarrow>
     (\<exists>b. length b = 16 \<and> token_id = purpose_prefix purpose @ encode_random b)"
  (is "?l \<longleftrightarrow> ?r")
proof
  assume l: ?l
  then obtain b where "decode_random (drop (length (purpose_prefix purpose)) token_id) 16 = Some b"
    by (auto simp: valid_token_id_def Let_def decode_token_segment_decode_random split: if_splits)
  moreover have "token_id = purpose_prefix purpose @ drop (length (purpose_prefix purpose)) token_id"
    using l unfolding valid_token_id_def starts_with_prefix_def Let_def
    by (metis append_take_drop_id)
  ultimately show ?r
    by (metis decode_random_iff)
next
  assume ?r
  then show ?l
    by (auto simp: valid_token_id_def Let_def decode_token_segment_decode_random
        starts_with_prefix_def decode_random_iff)
qed

end
