(* ===== verification/Session_Records.thy ===== *)
theory Session_Records
  imports Internal Context
begin

text \<open>
  The values of the native session mechanism (\<^verbatim>\<open>accounts/_sessions.py\<close>): the authentication
  payload kept in the browser session, binding proofs, registry records, creation commands,
  rebind plans and summaries, each with its \<^verbatim>\<open>__post_init__\<close>.
\<close>

definition session_binding_prefix :: string where "session_binding_prefix = ''sb_''"

definition maximum_display_metadata :: nat where "maximum_display_metadata = 32"
definition maximum_display_metadata_item_bytes :: nat where
  "maximum_display_metadata_item_bytes = 256"
definition maximum_display_metadata_bytes :: nat where "maximum_display_metadata_bytes = 4096"

section \<open>Display metadata\<close>

fun freeze_items :: "nat \<Rightarrow> (string, string) dict \<Rightarrow> bool" where
  "freeze_items used [] = True"
| "freeze_items used ((key, item) # rest) =
     (if \<not> strict_text key \<or> \<not> strict_text item then False
      else let item_bytes = utf8_length key + utf8_length item;
               total_bytes = used + item_bytes
           in if item_bytes > maximum_display_metadata_item_bytes \<or>
                 total_bytes > maximum_display_metadata_bytes
              then False
              else freeze_items total_bytes rest)"

definition freeze_display_metadata ::
  "(string, string) dict \<Rightarrow> (string, string) dict result" where
  "freeze_display_metadata value =
     (if length value > maximum_display_metadata then Inl ValueError
      else if freeze_items 0 value then Inr value else Inl ValueError)"

lemma freeze_items_iff:
  "freeze_items used d \<longleftrightarrow>
     (\<forall>(k, v)\<in>set d. strict_text k \<and> strict_text v \<and>
        utf8_length k + utf8_length v \<le> maximum_display_metadata_item_bytes) \<and>
     (d = [] \<or> used + sum_list (map (\<lambda>(k, v). utf8_length k + utf8_length v) d)
        \<le> maximum_display_metadata_bytes)"
  by (induction used d rule: freeze_items.induct) (auto simp: Let_def)

section \<open>The authentication payload\<close>

record 't session_authentication =
  sa_session_id :: string
  sa_binding_id :: string
  sa_account_id :: string
  sa_security_epoch :: int
  sa_authenticated_at :: 't
  sa_expires_at :: 't
  sa_assurance_expires_at :: "'t option"
  sa_methods :: "string set"
  sa_traits :: "string set"
  sa_amr :: "string list"

definition session_authentication_post_init ::
  "py_datetime session_authentication \<Rightarrow> time session_authentication result" where
  "session_authentication_post_init s =
     bind (aware_utc_time (sa_authenticated_at s)) (\<lambda>authenticated_at.
     bind (aware_utc_time (sa_expires_at s)) (\<lambda>expires_at.
     bind (optional_result aware_utc_time (sa_assurance_expires_at s)) (\<lambda>assurance_expires_at.
       if \<not> valid_security_epoch (sa_security_epoch s) then Inl ValueError
       else if \<not> valid_identifier None (sa_session_id s) \<or>
               \<not> valid_identifier (Some session_binding_prefix) (sa_binding_id s) \<or>
               \<not> strict_text (sa_account_id s) \<or>
               expires_at \<le> authenticated_at \<or>
               (case assurance_expires_at of None \<Rightarrow> False | Some a \<Rightarrow> a \<le> authenticated_at)
       then Inl ValueError
       else
         bind (evidence_post_init
                 \<lparr>in_mechanism = ''local'', in_slot = ''session'',
                  in_authenticated_at = Aware authenticated_at,
                  in_expires_at = Some (Aware (case assurance_expires_at of
                      None \<Rightarrow> expires_at | Some a \<Rightarrow> min a expires_at)),
                  in_methods = sa_methods s, in_traits = sa_traits s,
                  in_acr = None, in_amr = sa_amr s\<rparr>) (\<lambda>e.
         Inr \<lparr>sa_session_id = sa_session_id s, sa_binding_id = sa_binding_id s,
              sa_account_id = sa_account_id s, sa_security_epoch = sa_security_epoch s,
              sa_authenticated_at = authenticated_at, sa_expires_at = expires_at,
              sa_assurance_expires_at = assurance_expires_at,
              sa_methods = ev_methods e, sa_traits = ev_traits e, sa_amr = ev_amr e\<rparr>))))"

section \<open>Binding proofs\<close>

record binding_proof =
  bp_binding_id :: string
  bp_digest :: bytes

definition binding_proof_post_init :: "binding_proof \<Rightarrow> binding_proof result" where
  "binding_proof_post_init p =
     (if \<not> valid_identifier (Some session_binding_prefix) (bp_binding_id p) \<or>
         length (bp_digest p) \<noteq> digest_bytes
      then Inl ValueError else Inr p)"

section \<open>Registry records and commands\<close>

record 't user_session =
  us_session_id :: string
  us_binding_id :: string
  us_binding_digest :: bytes
  us_account_id :: string
  us_security_epoch :: int
  us_created_at :: 't
  us_authenticated_at :: 't
  us_last_seen_at :: 't
  us_expires_at :: 't
  us_display_metadata :: "(string, string) dict"

definition user_session_post_init ::
  "py_datetime user_session \<Rightarrow> time user_session result" where
  "user_session_post_init s =
     bind (aware_utc_time (us_created_at s)) (\<lambda>created_at.
     bind (aware_utc_time (us_authenticated_at s)) (\<lambda>authenticated_at.
     bind (aware_utc_time (us_last_seen_at s)) (\<lambda>last_seen_at.
     bind (aware_utc_time (us_expires_at s)) (\<lambda>expires_at.
       if \<not> valid_security_epoch (us_security_epoch s) then Inl ValueError
       else if \<not> valid_identifier None (us_session_id s) \<or>
               \<not> valid_identifier (Some session_binding_prefix) (us_binding_id s) \<or>
               length (us_binding_digest s) \<noteq> digest_bytes \<or>
               \<not> strict_text (us_account_id s) \<or>
               \<not> (created_at \<le> last_seen_at \<and> last_seen_at < expires_at) \<or>
               authenticated_at > expires_at
       then Inl ValueError
       else bind (freeze_display_metadata (us_display_metadata s)) (\<lambda>metadata.
         Inr \<lparr>us_session_id = us_session_id s, us_binding_id = us_binding_id s,
              us_binding_digest = us_binding_digest s, us_account_id = us_account_id s,
              us_security_epoch = us_security_epoch s, us_created_at = created_at,
              us_authenticated_at = authenticated_at, us_last_seen_at = last_seen_at,
              us_expires_at = expires_at, us_display_metadata = metadata\<rparr>)))))"

record 't session_command =
  sc_session_id :: string
  sc_binding_id :: string
  sc_binding_digest :: bytes
  sc_account_id :: string
  sc_security_epoch :: int
  sc_created_at :: 't
  sc_authenticated_at :: 't
  sc_expires_at :: 't
  sc_display_metadata :: "(string, string) dict"

definition session_command_post_init ::
  "py_datetime session_command \<Rightarrow> time session_command result" where
  "session_command_post_init c =
     bind (aware_utc_time (sc_created_at c)) (\<lambda>created_at.
     bind (aware_utc_time (sc_authenticated_at c)) (\<lambda>authenticated_at.
     bind (aware_utc_time (sc_expires_at c)) (\<lambda>expires_at.
       if \<not> valid_security_epoch (sc_security_epoch c) then Inl ValueError
       else if \<not> valid_identifier None (sc_session_id c) \<or>
               \<not> valid_identifier (Some session_binding_prefix) (sc_binding_id c) \<or>
               length (sc_binding_digest c) \<noteq> digest_bytes \<or>
               \<not> strict_text (sc_account_id c) \<or>
               expires_at \<le> created_at \<or>
               authenticated_at > expires_at
       then Inl ValueError
       else bind (freeze_display_metadata (sc_display_metadata c)) (\<lambda>metadata.
         Inr \<lparr>sc_session_id = sc_session_id c, sc_binding_id = sc_binding_id c,
              sc_binding_digest = sc_binding_digest c, sc_account_id = sc_account_id c,
              sc_security_epoch = sc_security_epoch c, sc_created_at = created_at,
              sc_authenticated_at = authenticated_at, sc_expires_at = expires_at,
              sc_display_metadata = metadata\<rparr>))))"

text \<open>
  A rebind plan: browser state prepared for one atomic rebind. The command is already a
  constructed value; \<^verbatim>\<open>binding_token.partition(".")[0]\<close> is the text before the first dot.
\<close>

record 't rebind_plan =
  bpl_prior_session_id :: string
  bpl_command :: "time session_command"
  bpl_binding_token :: string
  bpl_authenticated_at :: 't

definition rebind_plan_post_init :: "py_datetime rebind_plan \<Rightarrow> time rebind_plan result" where
  "rebind_plan_post_init p =
     bind (aware_utc_time (bpl_authenticated_at p)) (\<lambda>authenticated_at.
       if \<not> valid_identifier None (bpl_prior_session_id p) \<or>
          sc_session_id (bpl_command p) = bpl_prior_session_id p \<or>
          sc_binding_id (bpl_command p) \<noteq>
            takeWhile (\<lambda>c. c \<noteq> CHR ''.'') (bpl_binding_token p) \<or>
          sc_created_at (bpl_command p) \<noteq> authenticated_at \<or>
          sc_authenticated_at (bpl_command p) \<noteq> authenticated_at
       then Inl ValueError
       else Inr \<lparr>bpl_prior_session_id = bpl_prior_session_id p, bpl_command = bpl_command p,
                 bpl_binding_token = bpl_binding_token p,
                 bpl_authenticated_at = authenticated_at\<rparr>)"

record 't session_summary =
  ss_session_id :: string
  ss_current :: bool
  ss_created_at :: 't
  ss_last_seen_at :: 't
  ss_expires_at :: 't
  ss_display_metadata :: "(string, string) dict"

definition session_summary_post_init ::
  "py_datetime session_summary \<Rightarrow> time session_summary result" where
  "session_summary_post_init s =
     bind (aware_utc_time (ss_created_at s)) (\<lambda>created_at.
     bind (aware_utc_time (ss_last_seen_at s)) (\<lambda>last_seen_at.
     bind (aware_utc_time (ss_expires_at s)) (\<lambda>expires_at.
       if \<not> valid_identifier None (ss_session_id s) \<or>
          \<not> (created_at \<le> last_seen_at \<and> last_seen_at < expires_at)
       then Inl ValueError
       else bind (freeze_display_metadata (ss_display_metadata s)) (\<lambda>metadata.
         Inr \<lparr>ss_session_id = ss_session_id s, ss_current = ss_current s,
              ss_created_at = created_at, ss_last_seen_at = last_seen_at,
              ss_expires_at = expires_at, ss_display_metadata = metadata\<rparr>))))"

section \<open>From a command to a record\<close>

text \<open>\<^verbatim>\<open>UserAuthSession(... command ...)\<close>, as the registry builds it for create and rebind.\<close>

definition session_of_command :: "time session_command \<Rightarrow> py_datetime user_session" where
  "session_of_command c =
     \<lparr>us_session_id = sc_session_id c, us_binding_id = sc_binding_id c,
      us_binding_digest = sc_binding_digest c, us_account_id = sc_account_id c,
      us_security_epoch = sc_security_epoch c, us_created_at = Aware (sc_created_at c),
      us_authenticated_at = Aware (sc_authenticated_at c),
      us_last_seen_at = Aware (sc_created_at c), us_expires_at = Aware (sc_expires_at c),
      us_display_metadata = sc_display_metadata c\<rparr>"

definition new_session :: "time session_command \<Rightarrow> time user_session" where
  "new_session c =
     \<lparr>us_session_id = sc_session_id c, us_binding_id = sc_binding_id c,
      us_binding_digest = sc_binding_digest c, us_account_id = sc_account_id c,
      us_security_epoch = sc_security_epoch c, us_created_at = sc_created_at c,
      us_authenticated_at = sc_authenticated_at c, us_last_seen_at = sc_created_at c,
      us_expires_at = sc_expires_at c, us_display_metadata = sc_display_metadata c\<rparr>"

text \<open>\<^verbatim>\<open>replace(record, last_seen_at=now)\<close>: the constructor runs again on the changed fields.\<close>

definition replace_last_seen ::
  "time user_session \<Rightarrow> py_datetime \<Rightarrow> time user_session result" where
  "replace_last_seen s now =
     user_session_post_init
       \<lparr>us_session_id = us_session_id s, us_binding_id = us_binding_id s,
        us_binding_digest = us_binding_digest s, us_account_id = us_account_id s,
        us_security_epoch = us_security_epoch s, us_created_at = Aware (us_created_at s),
        us_authenticated_at = Aware (us_authenticated_at s), us_last_seen_at = now,
        us_expires_at = Aware (us_expires_at s),
        us_display_metadata = us_display_metadata s\<rparr>"

definition valid_command :: "time session_command \<Rightarrow> bool" where
  "valid_command c \<longleftrightarrow>
     valid_security_epoch (sc_security_epoch c) \<and>
     valid_identifier None (sc_session_id c) \<and>
     valid_identifier (Some session_binding_prefix) (sc_binding_id c) \<and>
     length (sc_binding_digest c) = digest_bytes \<and>
     strict_text (sc_account_id c) \<and>
     sc_created_at c < sc_expires_at c \<and> sc_authenticated_at c \<le> sc_expires_at c \<and>
     freeze_display_metadata (sc_display_metadata c) = Inr (sc_display_metadata c)"

definition valid_session :: "time user_session \<Rightarrow> bool" where
  "valid_session s \<longleftrightarrow>
     valid_security_epoch (us_security_epoch s) \<and>
     valid_identifier None (us_session_id s) \<and>
     valid_identifier (Some session_binding_prefix) (us_binding_id s) \<and>
     length (us_binding_digest s) = digest_bytes \<and>
     strict_text (us_account_id s) \<and>
     us_created_at s \<le> us_last_seen_at s \<and> us_last_seen_at s < us_expires_at s \<and>
     us_authenticated_at s \<le> us_expires_at s \<and>
     freeze_display_metadata (us_display_metadata s) = Inr (us_display_metadata s)"

lemma freeze_display_metadata_Inr:
  "freeze_display_metadata d = Inr d' \<Longrightarrow> d' = d \<and> freeze_display_metadata d = Inr d"
  by (auto simp: freeze_display_metadata_def split: if_splits)

lemma session_command_post_init_valid:
  "session_command_post_init r = Inr c \<Longrightarrow> valid_command c"
  by (auto simp: session_command_post_init_def result_simps valid_command_def
      dest: freeze_display_metadata_Inr split: if_splits)

lemma user_session_post_init_valid:
  "user_session_post_init r = Inr s \<Longrightarrow> valid_session s"
  by (auto simp: user_session_post_init_def result_simps valid_session_def
      dest: freeze_display_metadata_Inr split: if_splits)

lemma user_session_post_init_id:
  "user_session_post_init r = Inr s \<Longrightarrow> us_session_id s = us_session_id r"
  by (auto simp: user_session_post_init_def result_simps split: if_splits)

text \<open>A constructed command is always accepted as a record: creation never fails half-way.\<close>

lemma session_of_command_valid:
  "valid_command c \<Longrightarrow> user_session_post_init (session_of_command c) = Inr (new_session c)"
  by (simp add: valid_command_def user_session_post_init_def session_of_command_def
      new_session_def)

lemma new_session_valid: "valid_command c \<Longrightarrow> valid_session (new_session c)"
  by (simp add: valid_command_def valid_session_def new_session_def)

lemma new_session_simps [simp]:
  "us_session_id (new_session c) = sc_session_id c"
  "us_account_id (new_session c) = sc_account_id c"
  "us_expires_at (new_session c) = sc_expires_at c"
  "us_security_epoch (new_session c) = sc_security_epoch c"
  "us_binding_id (new_session c) = sc_binding_id c"
  "us_binding_digest (new_session c) = sc_binding_digest c"
  by (simp_all add: new_session_def)

lemma replace_last_seen_iff:
  assumes "valid_session s"
  shows "replace_last_seen s (Aware now) =
    (if us_created_at s \<le> now \<and> now < us_expires_at s
     then Inr (s\<lparr>us_last_seen_at := now\<rparr>) else Inl ValueError)"
  using assms by (auto simp: replace_last_seen_def user_session_post_init_def valid_session_def)

end
