(* ===== verification/Refresh_Tokens.thy ===== *)
theory Refresh_Tokens
  imports Internal Context
begin

text \<open>
  Opaque refresh tokens (\<^verbatim>\<open>accounts/_refresh_tokens.py\<close>): scopes, the token codec, the bearer
  response and the preflight context. HMAC-SHA-256 is the parameter \<open>hmac\<close> (key, message), the
  entropy source's draws are arguments, and a value of type \<^typ>\<open>'a option\<close> stands for a result that
  is \<^verbatim>\<open>InvalidCredentials\<close> when it is \<^const>\<open>None\<close>.
\<close>

type_synonym hmac_function = "bytes \<Rightarrow> bytes \<Rightarrow> bytes"

section \<open>Scopes and statuses\<close>

datatype rotation_status =
    Rotated
  | Idempotent_Replay
  | Replay_Detected
  | Expired
  | Revoked
  | Epoch_Mismatch
  | Invalid

definition valid_refresh_scope :: "string \<Rightarrow> bool" where
  "valid_refresh_scope value \<longleftrightarrow>
     value \<noteq> [] \<and>
     (\<forall>c\<in>set value. let n = (of_char c :: nat)
        in n = 33 \<or> (35 \<le> n \<and> n \<le> 91) \<or> (93 \<le> n \<and> n \<le> 126))"

definition normalize_refresh_scopes :: "string set \<Rightarrow> string set option" where
  "normalize_refresh_scopes scopes =
     (if \<forall>s\<in>scopes. valid_refresh_scope s then Some scopes else None)"

section \<open>Parsing\<close>

definition partition_at :: "char \<Rightarrow> string \<Rightarrow> string \<times> bool \<times> string" where
  "partition_at sep s =
     (takeWhile (\<lambda>c. c \<noteq> sep) s, sep \<in> set s, drop 1 (dropWhile (\<lambda>c. c \<noteq> sep) s))"

definition parse_refresh_token :: "string \<Rightarrow> (string \<times> bytes) option" where
  "parse_refresh_token value =
     (let (token_id, separator, encoded_secret) = partition_at (CHR ''.'') value
      in if \<not> separator \<or> CHR ''.'' \<in> set encoded_secret \<or>
            \<not> valid_identifier (Some ''rt_'') token_id \<or>
            length encoded_secret \<noteq> secret_characters
         then None
         else map_option (Pair token_id) (decode_random encoded_secret secret_bytes))"

fun split_on :: "char \<Rightarrow> string \<Rightarrow> string list" where
  "split_on sep [] = [[]]"
| "split_on sep (c # cs) =
     (if c = sep then [] # split_on sep cs
      else case split_on sep cs of
        [] \<Rightarrow> [[c]]
      | w # ws \<Rightarrow> (c # w) # ws)"

lemma split_on_none: "x \<notin> set s \<Longrightarrow> split_on x s = [s]"
  by (induction s) auto

lemma split_on_nonempty: "split_on x s \<noteq> []"
  by (induction s) (auto split: list.splits)

lemma split_on_append: "x \<notin> set s \<Longrightarrow> split_on x (s @ x # t) = s # split_on x t"
proof (induction s)
  case (Cons c s)
  then show ?case by (cases "split_on x t") (auto simp: split_on_nonempty)
qed simp

definition valid_compact_jwt :: "string \<Rightarrow> bool" where
  "valid_compact_jwt value =
     (if length value > 16384 then False
      else let segments = split_on (CHR ''.'') value
           in if length segments \<noteq> 3 \<or> (\<exists>s\<in>set segments. s = []) then False
              else list_all
                     (\<lambda>s. case decode_random_unbounded s of Inl _ \<Rightarrow> False | Inr b \<Rightarrow> b \<noteq> [])
                     segments)"

section \<open>Values\<close>

record token_proof =
  tp_token_id :: string
  tp_digest :: bytes

record token_grant =
  tg_refresh_token :: string
  tg_token_id :: string
  tg_digest :: bytes

record token_pair =
  pair_access_token :: string
  pair_refresh_token :: string
  pair_expires_in :: int

record 't family_context =
  fc_account_id :: string
  fc_family_id :: string
  fc_security_epoch :: int
  fc_token_expires_at :: 't
  fc_family_expires_at :: 't
  fc_scopes :: "string set"
  fc_evidence :: "evidence option"

definition token_proof_post_init :: "token_proof \<Rightarrow> token_proof result" where
  "token_proof_post_init p =
     (if \<not> valid_identifier (Some ''rt_'') (tp_token_id p) \<or> length (tp_digest p) \<noteq> digest_bytes
      then Inl ValueError else Inr p)"

definition token_grant_post_init :: "token_grant \<Rightarrow> token_grant result" where
  "token_grant_post_init g =
     (case parse_refresh_token (tg_refresh_token g) of
        None \<Rightarrow> Inl ValueError
      | Some (token_id, _) \<Rightarrow>
          if token_id \<noteq> tg_token_id g \<or> length (tg_digest g) \<noteq> digest_bytes
          then Inl ValueError else Inr g)"

definition token_pair_post_init :: "token_pair \<Rightarrow> token_pair result" where
  "token_pair_post_init p =
     (if \<not> valid_compact_jwt (pair_access_token p) \<or>
         parse_refresh_token (pair_refresh_token p) = None \<or>
         pair_expires_in p < 30 \<or> pair_expires_in p > 3600
      then Inl ValueError else Inr p)"

definition family_context_post_init ::
  "py_datetime family_context \<Rightarrow> time family_context result" where
  "family_context_post_init c =
     bind (aware_utc_time (fc_token_expires_at c)) (\<lambda>token_expires_at.
     bind (aware_utc_time (fc_family_expires_at c)) (\<lambda>family_expires_at.
       if \<not> strict_context_text (fc_account_id c) \<or>
          \<not> valid_identifier (Some ''rf_'') (fc_family_id c) \<or>
          \<not> valid_security_epoch (fc_security_epoch c) \<or>
          token_expires_at > family_expires_at \<or>
          (\<exists>s\<in>fc_scopes c. \<not> valid_refresh_scope s)
       then Inl ValueError
       else Inr \<lparr>fc_account_id = fc_account_id c, fc_family_id = fc_family_id c,
                 fc_security_epoch = fc_security_epoch c, fc_token_expires_at = token_expires_at,
                 fc_family_expires_at = family_expires_at, fc_scopes = fc_scopes c,
                 fc_evidence = fc_evidence c\<rparr>))"

section \<open>The codec\<close>

definition ascii_bytes :: "string \<Rightarrow> bytes" where
  "ascii_bytes s = map (\<lambda>c. word_of_nat (of_char c)) s"

definition refresh_token_domain :: bytes where
  "refresh_token_domain = ascii_bytes ''refresh-token'' @ [0]"

definition refresh_idempotency_domain :: bytes where
  "refresh_idempotency_domain = ascii_bytes ''refresh-idempotency'' @ [0]"

definition token_message :: "string \<Rightarrow> bytes \<Rightarrow> bytes" where
  "token_message token_id secret = refresh_token_domain @ ascii_bytes token_id @ [0] @ secret"

definition token_digest :: "hmac_function \<Rightarrow> bytes \<Rightarrow> string \<Rightarrow> bytes \<Rightarrow> bytes" where
  "token_digest hmac pepper token_id secret = hmac pepper (token_message token_id secret)"

definition codec_post_init :: "bytes \<Rightarrow> unit result" where
  "codec_post_init pepper =
     (if length pepper < minimum_pepper_bytes then Inl ImproperlyConfigured else Inr ())"

definition codec_issue :: "hmac_function \<Rightarrow> bytes \<Rightarrow> bytes \<Rightarrow> bytes \<Rightarrow> token_grant result" where
  "codec_issue hmac pepper lookup secret =
     (if length lookup \<noteq> lookup_bytes \<or> length secret \<noteq> secret_bytes then Inl RuntimeError
      else let token_id = ''rt_'' @ encode_random lookup;
               refresh_token = token_id @ ''.'' @ encode_random secret
           in token_grant_post_init
                \<lparr>tg_refresh_token = refresh_token, tg_token_id = token_id,
                 tg_digest = token_digest hmac pepper token_id secret\<rparr>)"

definition codec_verify :: "hmac_function \<Rightarrow> bytes \<Rightarrow> string \<Rightarrow> token_proof option result" where
  "codec_verify hmac pepper refresh_token =
     (case parse_refresh_token refresh_token of
        None \<Rightarrow> Inr None
      | Some (token_id, secret) \<Rightarrow>
          bind (token_proof_post_init
                  \<lparr>tp_token_id = token_id, tp_digest = token_digest hmac pepper token_id secret\<rparr>)
            (\<lambda>p. Inr (Some p)))"

definition idempotency_message :: "string \<Rightarrow> bytes \<Rightarrow> bytes" where
  "idempotency_message token_id decoded =
     refresh_idempotency_domain @ ascii_bytes token_id @ [0] @ decoded"

definition digest_idempotency_key ::
  "hmac_function \<Rightarrow> bytes \<Rightarrow> string \<Rightarrow> string \<Rightarrow> bytes option" where
  "digest_idempotency_key hmac pepper token_id value =
     (if \<not> valid_identifier (Some ''rt_'') token_id \<or> \<not> (22 \<le> length value \<and> length value \<le> 128)
      then None
      else case decode_random_unbounded value of
        Inl _ \<Rightarrow> None
      | Inr decoded \<Rightarrow> Some (hmac pepper (idempotency_message token_id decoded)))"

section \<open>Parsing inverts printing\<close>

lemma partition_at_append:
  "sep \<notin> set a \<Longrightarrow> partition_at sep (a @ sep # b) = (a, True, b)"
  by (induction a) (auto simp: partition_at_def)

lemma partition_at_True: "partition_at sep s = (a, True, b) \<Longrightarrow> s = a @ sep # b"
proof -
  assume p: "partition_at sep s = (a, True, b)"
  then have "sep \<in> set s" by (simp add: partition_at_def)
  then obtain x y where "s = x @ sep # y" "sep \<notin> set x"
    by (meson split_list_first)
  with p show ?thesis by (simp add: partition_at_append)
qed

lemma parse_refresh_token_iff:
  "parse_refresh_token s = Some (token_id, secret) \<longleftrightarrow>
     valid_identifier (Some ''rt_'') token_id \<and> length secret = secret_bytes \<and>
     s = token_id @ ''.'' @ encode_random secret"
proof
  assume p: "parse_refresh_token s = Some (token_id, secret)"
  obtain a sep b where part: "partition_at (CHR ''.'') s = (a, sep, b)"
    by (cases "partition_at (CHR ''.'') s") auto
  from p part have sep: "sep" and v: "valid_identifier (Some ''rt_'') token_id" and "a = token_id"
    and "decode_random b secret_bytes = Some secret"
    by (auto simp: parse_refresh_token_def split: if_splits)
  then show "valid_identifier (Some ''rt_'') token_id \<and> length secret = secret_bytes \<and>
     s = token_id @ ''.'' @ encode_random secret"
    using partition_at_True [of "CHR ''.''" s a b] part by (simp add: decode_random_iff)
next
  assume a: "valid_identifier (Some ''rt_'') token_id \<and> length secret = secret_bytes \<and>
     s = token_id @ ''.'' @ encode_random secret"
  then have "CHR ''.'' \<notin> set token_id"
    using valid_identifier_no_dot [of "''rt_''" token_id] by simp
  then have "partition_at (CHR ''.'') s = (token_id, True, encode_random secret)"
    using a partition_at_append by simp
  moreover have "CHR ''.'' \<notin> set (encode_random secret)"
    using encode_random_chars by blast
  moreover have "length (encode_random secret) = secret_characters"
    using a by (simp add: length_encode_random width_defs)
  moreover have "decode_random (encode_random secret) secret_bytes = Some secret"
    using a by (simp add: decode_random_iff)
  ultimately show "parse_refresh_token s = Some (token_id, secret)"
    using a by (simp add: parse_refresh_token_def)
qed

section \<open>Digest messages\<close>

lemma unat_ascii: "unat (word_of_nat (of_char c) :: 8 word) = of_char c"
proof -
  have "(of_char c :: nat) < 256"
    by (rule nat_of_char_less_256)
  then show ?thesis
    by (simp add: unsigned_of_nat take_bit_eq_mod)
qed

lemma ascii_bytes_inject [simp]: "ascii_bytes s = ascii_bytes t \<longleftrightarrow> s = t"
proof -
  have "inj (\<lambda>c. word_of_nat (of_char c) :: 8 word)"
  proof (rule injI)
    fix c d
    assume "word_of_nat (of_char c) = (word_of_nat (of_char d) :: 8 word)"
    then have "(of_char c :: nat) = of_char d"
      by (metis unat_ascii)
    then show "c = d" by simp
  qed
  then show ?thesis
    by (simp add: ascii_bytes_def inj_map_eq_map)
qed

lemma valid_identifier_length:
  "valid_identifier (Some p) s \<Longrightarrow> length s = length p + 22"
  by (auto simp: valid_identifier_prefix_iff length_encode_random lookup_bytes_def)

lemma token_message_inject:
  assumes "valid_identifier (Some ''rt_'') t" "valid_identifier (Some ''rt_'') t'"
    and "token_message t s = token_message t' s'"
  shows "t = t' \<and> s = s'"
proof -
  have "length (ascii_bytes t) = length (ascii_bytes t')"
    using assms(1,2) by (simp add: ascii_bytes_def valid_identifier_length)
  with assms(3) show ?thesis
    by (simp add: token_message_def)
qed

lemma domains_disjoint: "token_message t s \<noteq> idempotency_message t' d"
proof
  assume "token_message t s = idempotency_message t' d"
  then have "nth (token_message t s) 8 = nth (idempotency_message t' d) 8"
    by simp
  then show False
    by (simp add: token_message_def idempotency_message_def refresh_token_domain_def
        refresh_idempotency_domain_def ascii_bytes_def)
qed

section \<open>Properties\<close>

text \<open>A refresh token has exactly one textual form: parsing accepts a string, with a given
  identifier and secret, exactly when it is the identifier, a dot and the canonical encoding of
  the 32-byte secret; so no two accepted tokens share an identifier and a secret.\<close>

theorem refresh_token_parse_print:
  "parse_refresh_token s = Some (token_id, secret) \<longleftrightarrow>
     valid_identifier (Some ''rt_'') token_id \<and> length secret = 32 \<and>
     s = token_id @ ''.'' @ encode_random secret"
  by (simp add: parse_refresh_token_iff secret_bytes_def)

text \<open>With a 32-byte HMAC and an entropy source that returns what was asked for, issuing
  succeeds, and verifying the issued token reproduces exactly the stored identifier and digest.\<close>

theorem codec_issue_then_verify:
  assumes "\<And>k m. length (hmac k m) = 32" "length lookup = 16" "length secret = 32"
  shows "\<exists>g. codec_issue hmac pepper lookup secret = Inr g \<and>
    codec_verify hmac pepper (tg_refresh_token g) =
      Inr (Some \<lparr>tp_token_id = tg_token_id g, tp_digest = tg_digest g\<rparr>)"
proof -
  let ?t = "''rt_'' @ encode_random lookup"
  have v: "valid_identifier (Some ''rt_'') ?t"
    using assms(2) by (auto simp: valid_identifier_prefix_iff lookup_bytes_def)
  then have "parse_refresh_token (?t @ ''.'' @ encode_random secret) = Some (?t, secret)"
    unfolding parse_refresh_token_iff using assms(3) by (simp add: secret_bytes_def)
  with v assms show ?thesis
    by (simp add: codec_issue_def codec_verify_def Let_def token_grant_post_init_def
        token_proof_post_init_def token_digest_def width_defs)
qed

definition example_hmac :: hmac_function where
  "example_hmac k m = take 32 (rev m @ k @ replicate 32 0)"

lemma length_example_hmac: "length (example_hmac k m) = 32"
  by (simp add: example_hmac_def)

theorem codec_issue_then_verify_witness:
  "\<exists>g. codec_issue example_hmac (replicate 32 1) (replicate 16 2) (replicate 32 3) = Inr g \<and>
     codec_verify example_hmac (replicate 32 1) (tg_refresh_token g) =
       Inr (Some \<lparr>tp_token_id = tg_token_id g, tp_digest = tg_digest g\<rparr>)"
  by (rule codec_issue_then_verify) (simp_all add: length_example_hmac)

text \<open>Digests never mix purposes or tokens at the HMAC input: for valid token identifiers the
  authenticated message determines the identifier and the secret, and no refresh-token message is
  an idempotency-key message.\<close>

theorem digest_messages_separate:
  assumes "valid_identifier (Some ''rt_'') t" "valid_identifier (Some ''rt_'') t'"
  shows "(token_message t s = token_message t' s' \<longleftrightarrow> t = t' \<and> s = s') \<and>
    (idempotency_message t d = idempotency_message t' d' \<longleftrightarrow> t = t' \<and> d = d') \<and>
    token_message t s \<noteq> idempotency_message t' d"
proof -
  have "length (ascii_bytes t) = length (ascii_bytes t')"
    using assms by (simp add: ascii_bytes_def valid_identifier_length)
  then have "idempotency_message t d = idempotency_message t' d' \<longleftrightarrow> t = t' \<and> d = d'"
    by (auto simp: idempotency_message_def)
  then show ?thesis
    using token_message_inject [OF assms] domains_disjoint by blast
qed

theorem digest_messages_separate_witness:
  "token_message (''rt_'' @ encode_random (replicate 16 0)) [1] \<noteq>
   token_message (''rt_'' @ encode_random (replicate 16 1)) [1]"
proof -
  have v: "valid_identifier (Some ''rt_'') (''rt_'' @ encode_random (replicate 16 x))" for x
    by (auto simp: valid_identifier_prefix_iff lookup_bytes_def intro: length_replicate)
  have "(replicate 16 0 :: bytes) \<noteq> replicate 16 1"
    by (simp add: replicate_eq_replicate)
  then show ?thesis
    using digest_messages_separate [OF v [of 0] v [of 1]] by (simp add: encode_random_inject)
qed

end
