(* ===== verification/Refresh_Commands.thy ===== *)
theory Refresh_Commands
  imports Refresh_Tokens
begin

text \<open>
  The commands a refresh-family store receives and the outcomes it returns
  (\<^verbatim>\<open>accounts/_refresh.py\<close>), with \<^verbatim>\<open>RefreshReceiptReplay\<close> of \<^verbatim>\<open>accounts/_receipts.py\<close>. As in
  the other record theories a constructor takes \<^typ>\<open>py_datetime\<close> fields and yields UTC instants.
\<close>

definition maximum_receipt_bytes :: nat where "maximum_receipt_bytes = 32768"

record 't create_family_command =
  cf_token_id :: string
  cf_token_digest :: bytes
  cf_account_id :: string
  cf_family_id :: string
  cf_security_epoch :: int
  cf_created_at :: 't
  cf_token_expires_at :: 't
  cf_family_expires_at :: 't
  cf_scopes :: "string set"
  cf_evidence :: "evidence option"

definition create_family_command_post_init ::
  "py_datetime create_family_command \<Rightarrow> time create_family_command result" where
  "create_family_command_post_init c =
     bind (aware_utc_time (cf_created_at c)) (\<lambda>created_at.
     bind (aware_utc_time (cf_token_expires_at c)) (\<lambda>token_expires_at.
     bind (aware_utc_time (cf_family_expires_at c)) (\<lambda>family_expires_at.
       if \<not> valid_identifier (Some ''rt_'') (cf_token_id c) \<or>
          length (cf_token_digest c) \<noteq> digest_bytes \<or>
          \<not> strict_context_text (cf_account_id c) \<or>
          \<not> valid_identifier (Some ''rf_'') (cf_family_id c) \<or>
          \<not> valid_security_epoch (cf_security_epoch c) \<or>
          \<not> (created_at < token_expires_at \<and> token_expires_at \<le> family_expires_at) \<or>
          (\<exists>s\<in>cf_scopes c. \<not> valid_refresh_scope s)
       then Inl ValueError
       else Inr \<lparr>cf_token_id = cf_token_id c, cf_token_digest = cf_token_digest c,
                 cf_account_id = cf_account_id c, cf_family_id = cf_family_id c,
                 cf_security_epoch = cf_security_epoch c, cf_created_at = created_at,
                 cf_token_expires_at = token_expires_at,
                 cf_family_expires_at = family_expires_at, cf_scopes = cf_scopes c,
                 cf_evidence = cf_evidence c\<rparr>)))"

record 't rotate_command =
  rc_token_id :: string
  rc_token_digest :: bytes
  rc_account_id :: string
  rc_family_id :: string
  rc_security_epoch :: int
  rc_successor_id :: string
  rc_successor_digest :: bytes
  rc_successor_expires_at :: 't
  rc_family_expires_at :: 't
  rc_sealed_receipt :: bytes
  rc_receipt_expires_at :: 't
  rc_idempotency_digest :: "bytes option"
  rc_scopes :: "string set"
  rc_evidence :: "evidence option"

definition rotate_command_post_init ::
  "py_datetime rotate_command \<Rightarrow> time rotate_command result" where
  "rotate_command_post_init c =
     bind (aware_utc_time (rc_successor_expires_at c)) (\<lambda>successor_expires_at.
     bind (aware_utc_time (rc_family_expires_at c)) (\<lambda>family_expires_at.
     bind (aware_utc_time (rc_receipt_expires_at c)) (\<lambda>receipt_expires_at.
       if \<not> valid_identifier (Some ''rt_'') (rc_token_id c) \<or>
          length (rc_token_digest c) \<noteq> digest_bytes \<or>
          \<not> strict_context_text (rc_account_id c) \<or>
          \<not> valid_identifier (Some ''rf_'') (rc_family_id c) \<or>
          \<not> valid_security_epoch (rc_security_epoch c) \<or>
          \<not> valid_identifier (Some ''rt_'') (rc_successor_id c) \<or>
          rc_successor_id c = rc_token_id c \<or>
          length (rc_successor_digest c) \<noteq> digest_bytes \<or>
          \<not> successor_expires_at \<le> family_expires_at \<or>
          receipt_expires_at > family_expires_at \<or>
          rc_sealed_receipt c = [] \<or>
          length (rc_sealed_receipt c) > maximum_receipt_bytes \<or>
          (case rc_idempotency_digest c of None \<Rightarrow> False | Some d \<Rightarrow> length d \<noteq> digest_bytes) \<or>
          (\<exists>s\<in>rc_scopes c. \<not> valid_refresh_scope s)
       then Inl ValueError
       else Inr \<lparr>rc_token_id = rc_token_id c, rc_token_digest = rc_token_digest c,
                 rc_account_id = rc_account_id c, rc_family_id = rc_family_id c,
                 rc_security_epoch = rc_security_epoch c, rc_successor_id = rc_successor_id c,
                 rc_successor_digest = rc_successor_digest c,
                 rc_successor_expires_at = successor_expires_at,
                 rc_family_expires_at = family_expires_at,
                 rc_sealed_receipt = rc_sealed_receipt c,
                 rc_receipt_expires_at = receipt_expires_at,
                 rc_idempotency_digest = rc_idempotency_digest c, rc_scopes = rc_scopes c,
                 rc_evidence = rc_evidence c\<rparr>)))"

section \<open>Outcomes\<close>

record rotation_outcome =
  rr_status :: rotation_status
  rr_sealed_receipt :: "bytes option"
  rr_family_revoked :: bool

definition rotation_outcome_post_init :: "rotation_outcome \<Rightarrow> rotation_outcome result" where
  "rotation_outcome_post_init r =
     (let receipt_status = rr_status r \<in> {Rotated, Idempotent_Replay};
          revoked_status = rr_status r \<in> {Replay_Detected, Revoked}
      in if receipt_status \<noteq> (rr_sealed_receipt r \<noteq> None) \<or>
            (receipt_status \<and> rr_family_revoked r) \<or>
            (case rr_sealed_receipt r of
               None \<Rightarrow> False
             | Some b \<Rightarrow> b = [] \<or> length b > maximum_receipt_bytes)
         then Inl ValueError
         else if revoked_status \<noteq> rr_family_revoked r then Inl ValueError
         else Inr r)"

record preflight_outcome =
  pf_status :: rotation_status
  pf_family_revoked :: bool

definition preflight_outcome_post_init :: "preflight_outcome \<Rightarrow> preflight_outcome result" where
  "preflight_outcome_post_init r =
     (let allowed = {Replay_Detected, Expired, Revoked, Epoch_Mismatch, Invalid}
      in if pf_status r \<notin> allowed then Inl ValueError
         else if (pf_status r \<in> {Replay_Detected, Revoked}) \<noteq> pf_family_revoked r
         then Inl ValueError
         else Inr r)"

record receipt_replay =
  rx_context :: "time family_context"
  rx_sealed_receipt :: bytes

definition receipt_replay_post_init :: "receipt_replay \<Rightarrow> receipt_replay result" where
  "receipt_replay_post_init r =
     (if rx_sealed_receipt r = [] \<or> length (rx_sealed_receipt r) > maximum_receipt_bytes
      then Inl ValueError else Inr r)"

text \<open>The three kinds of answer \<^verbatim>\<open>prepare_rotation\<close> can give.\<close>

datatype prepared =
    Active "time family_context"
  | Replay receipt_replay
  | Refused preflight_outcome

definition preflight :: "rotation_status \<Rightarrow> bool \<Rightarrow> prepared result" where
  "preflight status family_revoked =
     bind (preflight_outcome_post_init
             \<lparr>pf_status = status, pf_family_revoked = family_revoked\<rparr>) (\<lambda>r. Inr (Refused r))"

definition rotation :: "rotation_status \<Rightarrow> bytes option \<Rightarrow> rotation_outcome result" where
  "rotation status receipt =
     rotation_outcome_post_init
       \<lparr>rr_status = status, rr_sealed_receipt = receipt, rr_family_revoked = False\<rparr>"

section \<open>Lemmas\<close>

definition valid_receipt :: "bytes \<Rightarrow> bool" where
  "valid_receipt b \<longleftrightarrow> b \<noteq> [] \<and> length b \<le> maximum_receipt_bytes"

definition valid_create_family :: "time create_family_command \<Rightarrow> bool" where
  "valid_create_family c \<longleftrightarrow>
     valid_identifier (Some ''rt_'') (cf_token_id c) \<and> length (cf_token_digest c) = digest_bytes \<and>
     strict_context_text (cf_account_id c) \<and> valid_identifier (Some ''rf_'') (cf_family_id c) \<and>
     valid_security_epoch (cf_security_epoch c) \<and>
     cf_created_at c < cf_token_expires_at c \<and>
     cf_token_expires_at c \<le> cf_family_expires_at c \<and>
     (\<forall>s\<in>cf_scopes c. valid_refresh_scope s)"

definition valid_rotate :: "time rotate_command \<Rightarrow> bool" where
  "valid_rotate c \<longleftrightarrow>
     valid_identifier (Some ''rt_'') (rc_token_id c) \<and> length (rc_token_digest c) = digest_bytes \<and>
     strict_context_text (rc_account_id c) \<and> valid_identifier (Some ''rf_'') (rc_family_id c) \<and>
     valid_security_epoch (rc_security_epoch c) \<and>
     valid_identifier (Some ''rt_'') (rc_successor_id c) \<and> rc_successor_id c \<noteq> rc_token_id c \<and>
     length (rc_successor_digest c) = digest_bytes \<and>
     rc_successor_expires_at c \<le> rc_family_expires_at c \<and>
     rc_receipt_expires_at c \<le> rc_family_expires_at c \<and> valid_receipt (rc_sealed_receipt c) \<and>
     (case rc_idempotency_digest c of None \<Rightarrow> True | Some d \<Rightarrow> length d = digest_bytes) \<and>
     (\<forall>s\<in>rc_scopes c. valid_refresh_scope s)"

lemma create_family_command_post_init_valid:
  "create_family_command_post_init r = Inr c \<Longrightarrow> valid_create_family c"
  by (auto simp: create_family_command_post_init_def result_simps valid_create_family_def
      split: if_splits)

lemma rotate_command_post_init_valid:
  "rotate_command_post_init r = Inr c \<Longrightarrow> valid_rotate c"
  by (auto simp: rotate_command_post_init_def result_simps valid_rotate_def valid_receipt_def
      split: if_splits option.splits)

lemma preflight_simps [simp, result_simps]:
  "preflight Invalid False = Inr (Refused \<lparr>pf_status = Invalid, pf_family_revoked = False\<rparr>)"
  "preflight Expired False = Inr (Refused \<lparr>pf_status = Expired, pf_family_revoked = False\<rparr>)"
  "preflight Epoch_Mismatch False =
     Inr (Refused \<lparr>pf_status = Epoch_Mismatch, pf_family_revoked = False\<rparr>)"
  "preflight Revoked True = Inr (Refused \<lparr>pf_status = Revoked, pf_family_revoked = True\<rparr>)"
  "preflight Replay_Detected True =
     Inr (Refused \<lparr>pf_status = Replay_Detected, pf_family_revoked = True\<rparr>)"
  by (simp_all add: preflight_def preflight_outcome_post_init_def)

lemma rotation_simps [simp, result_simps]:
  "rotation Invalid None =
     Inr \<lparr>rr_status = Invalid, rr_sealed_receipt = None, rr_family_revoked = False\<rparr>"
  "rotation Expired None =
     Inr \<lparr>rr_status = Expired, rr_sealed_receipt = None, rr_family_revoked = False\<rparr>"
  "valid_receipt b \<Longrightarrow> rotation Rotated (Some b) =
     Inr \<lparr>rr_status = Rotated, rr_sealed_receipt = Some b, rr_family_revoked = False\<rparr>"
  by (simp_all add: rotation_def rotation_outcome_post_init_def valid_receipt_def)

end
