(* ===== verification/Backend.thy ===== *)
theory Backend
  imports Prelude
begin

text \<open>
  The aggregate state the in-memory stores share (\<^verbatim>\<open>InMemorySecurityBackend\<close> of \<^verbatim>\<open>testing.py\<close>):
  the operation log with its failpoints and barriers, the identifier sequence and the default
  entropy counter.

  A store operation first runs \<^verbatim>\<open>_observe\<close> and then its body under the store's lock. \<open>observed\<close>
  composes the two. A barrier only delays the body (\<^verbatim>\<open>await barrier.release.wait()\<close>): the
  observation marks it reached and the body then runs on whatever state other operations left,
  which the histories of the store theories cover by interleaving whole bodies. The clock is a
  parameter: the reading it returns, possibly naive.
\<close>

record backend_event =
  be_sequence :: nat
  be_operation :: string
  be_details :: "(string, string) dict"

record backend =
  event_sequence :: nat
  call_counts :: "(string, nat) dict"
  events :: "backend_event list"
  barriers :: "(string, bool) dict"
  failpoints :: "(string, py_error) dict"
  identifier_sequence :: nat
  entropy_offset :: nat

definition empty_backend :: backend where
  "empty_backend = \<lparr>event_sequence = 0, call_counts = [], events = [], barriers = [],
     failpoints = [], identifier_sequence = 0, entropy_offset = 0\<rparr>"

definition backend_clock :: "py_datetime \<Rightarrow> time result" where
  "backend_clock value = aware_utc_time value"

definition next_identifier ::
  "(string \<Rightarrow> nat \<Rightarrow> string) \<Rightarrow> string \<Rightarrow> backend \<Rightarrow> string result \<times> backend" where
  "next_identifier identifiers namespace b =
     (let n = identifier_sequence b + 1;
          value = identifiers namespace n
      in (if strip value = [] then Inl ValueError else Inr value, b\<lparr>identifier_sequence := n\<rparr>))"

definition entropy ::
  "(nat \<Rightarrow> bytes) option \<Rightarrow> int \<Rightarrow> backend \<Rightarrow> bytes result \<times> backend" where
  "entropy source len b =
     (if len < 1 then (Inl ValueError, b)
      else case source of
        None \<Rightarrow>
          (Inr (map (\<lambda>i. word_of_nat ((entropy_offset b + i) mod 256)) [0..<nat len]),
           b\<lparr>entropy_offset := entropy_offset b + nat len\<rparr>)
      | Some f \<Rightarrow>
          (if length (f (nat len)) \<noteq> nat len then Inl ValueError else Inr (f (nat len)), b))"

definition install_barrier :: "string \<Rightarrow> backend \<Rightarrow> backend" where
  "install_barrier operation b = b\<lparr>barriers := dset operation False (barriers b)\<rparr>"

definition set_failpoint :: "string \<Rightarrow> py_error \<Rightarrow> backend \<Rightarrow> backend" where
  "set_failpoint operation e b = b\<lparr>failpoints := dset operation e (failpoints b)\<rparr>"

definition clear_controls :: "backend \<Rightarrow> backend" where
  "clear_controls b = b\<lparr>barriers := [], failpoints := []\<rparr>"

definition observe ::
  "string \<Rightarrow> (string, string) dict \<Rightarrow> backend \<Rightarrow> unit result \<times> backend" where
  "observe operation details b =
     (let n = event_sequence b + 1;
          count = (case dget (call_counts b) operation of None \<Rightarrow> 0 | Some c \<Rightarrow> c) + 1;
          event = \<lparr>be_sequence = n, be_operation = operation, be_details = details\<rparr>;
          reached = (case dget (barriers b) operation of
                       None \<Rightarrow> barriers b
                     | Some _ \<Rightarrow> dset operation True (barriers b))
      in (case dget (failpoints b) operation of None \<Rightarrow> Inr () | Some e \<Rightarrow> Inl e,
          b\<lparr>event_sequence := n, call_counts := dset operation count (call_counts b),
            events := events b @ [event], barriers := reached\<rparr>))"

definition observed ::
  "string \<Rightarrow> (string, string) dict \<Rightarrow> (backend \<times> 's \<Rightarrow> 'a result \<times> (backend \<times> 's)) \<Rightarrow>
     backend \<times> 's \<Rightarrow> 'a result \<times> (backend \<times> 's)" where
  "observed operation details body w =
     (case observe operation details (fst w) of
        (Inl e, b) \<Rightarrow> (Inl e, (b, snd w))
      | (Inr _, b) \<Rightarrow> body (b, snd w))"

text \<open>A body that touches the store only.\<close>

definition on_store ::
  "('s \<Rightarrow> 'a result \<times> 's) \<Rightarrow> backend \<times> 's \<Rightarrow> 'a result \<times> (backend \<times> 's)" where
  "on_store f w = (case f (snd w) of (r, s) \<Rightarrow> (r, (fst w, s)))"

text \<open>A body that reads the store and does not change it.\<close>

definition reading :: "('s \<Rightarrow> 'a result) \<Rightarrow> 's \<Rightarrow> 'a result \<times> 's" where
  "reading f s = (f s, s)"

section \<open>What the log records\<close>

text \<open>The log is well formed: events are numbered from one and each count is the number of events.\<close>

definition log_ok :: "backend \<Rightarrow> bool" where
  "log_ok b \<longleftrightarrow>
     dict_ok (call_counts b) \<and>
     event_sequence b = length (events b) \<and>
     map be_sequence (events b) = [1..<Suc (length (events b))] \<and>
     (\<forall>op. (case dget (call_counts b) op of None \<Rightarrow> 0 | Some c \<Rightarrow> c) =
           length (filter (\<lambda>e. be_operation e = op) (events b)))"

lemma log_ok_empty: "log_ok empty_backend"
  by (simp add: log_ok_def empty_backend_def)

lemma log_ok_observe:
  assumes "log_ok b"
  shows "log_ok (snd (observe operation details b))"
  using assms by (auto simp: log_ok_def observe_def Let_def dict_simps)

lemma observe_sequences [simp]:
  "identifier_sequence (snd (observe operation details b)) = identifier_sequence b"
  "entropy_offset (snd (observe operation details b)) = entropy_offset b"
  "failpoints (snd (observe operation details b)) = failpoints b"
  by (simp_all add: observe_def Let_def)

lemma next_identifier_log [simp]:
  "events (snd (next_identifier ids ns b)) = events b"
  "failpoints (snd (next_identifier ids ns b)) = failpoints b"
  "identifier_sequence (snd (next_identifier ids ns b)) = identifier_sequence b + 1"
  by (simp_all add: next_identifier_def Let_def)

text \<open>
  An operation that its failpoint stops leaves the store as it was; otherwise its body runs. The
  store theories lift every fact about a body through these rules.
\<close>

lemma observed_cases:
  obtains e b where "observed operation details body w = (Inl e, (b, snd w))"
    "dget (failpoints (fst w)) operation = Some e"
  | b where "observed operation details body w = body (b, snd w)"
    "dget (failpoints (fst w)) operation = None" "identifier_sequence b = identifier_sequence (fst w)"
proof (cases "dget (failpoints (fst w)) operation")
  case None
  then have "observed operation details body w =
      body (snd (observe operation details (fst w)), snd w)"
    by (simp add: observed_def observe_def Let_def)
  then show thesis
    using None that(2) by simp
next
  case (Some e)
  then have "observed operation details body w =
      (Inl e, (snd (observe operation details (fst w)), snd w))"
    by (simp add: observed_def observe_def Let_def)
  then show thesis
    using Some that(1) by simp
qed

lemma observed_invariant:
  assumes "I (snd w)" and "\<And>b. I (snd (snd (body (b, snd w))))"
  shows "I (snd (snd (observed operation details body w)))"
  by (rule observed_cases [of operation details body w]) (use assms in auto)

lemma snd_on_store [simp]: "snd (snd (on_store f w)) = snd (f (snd w))"
  by (simp add: on_store_def split: prod.splits)

lemma fst_on_store [simp]: "fst (on_store f w) = fst (f (snd w))"
  by (simp add: on_store_def split: prod.splits)

lemma reading_simps [simp]: "fst (reading f s) = f s" "snd (reading f s) = s"
  by (simp_all add: reading_def)

text \<open>Without a failpoint an operation returns what its body returns.\<close>

lemma observed_on_store:
  assumes "dget (failpoints (fst w)) operation = None"
  shows "fst (observed operation details (on_store f) w) = fst (f (snd w))"
    and "snd (snd (observed operation details (on_store f) w)) = snd (f (snd w))"
  using assms by (simp_all add: observed_def observe_def Let_def)

lemma observed_failpoint:
  assumes "dget (failpoints (fst w)) operation = Some e"
  shows "fst (observed operation details body w) = Inl e"
    and "snd (snd (observed operation details body w)) = snd w"
  using assms by (simp_all add: observed_def observe_def Let_def)

end
