(* ===== verification/Local_Store.thy ===== *)
theory Local_Store
  imports Records Session_Records Refresh_Commands Backend
begin

text \<open>
  The state of \<^verbatim>\<open>InMemoryLocalAccountStore\<close> (\<^verbatim>\<open>testing.py\<close>) and its account, password,
  login-method and purpose-token operations. Each operation has a body, the block that runs under
  \<^verbatim>\<open>async with self._lock\<close>, and the operation itself, the observation followed by the body. The
  \<^verbatim>\<open>event\<close> and \<^verbatim>\<open>notification\<close> arguments, which the store deletes unread, are left out.

  A body returns its result with the state it leaves, so a body that raises half-way shows what it
  had already written. \<^verbatim>\<open>del d[value.token_id]\<close> is deletion at the key the value is stored under,
  which \<open>tokens_ok\<close> shows to be the same key.
\<close>

section \<open>State\<close>

record refresh_state =
  rs_token_id :: string
  rs_token_digest :: bytes
  rs_account_id :: string
  rs_family_id :: string
  rs_security_epoch :: int
  rs_token_expires_at :: time
  rs_family_expires_at :: time
  rs_scopes :: "string set"
  rs_consumed :: bool
  rs_revoked :: bool
  rs_idempotency_digest :: "bytes option"
  rs_sealed_receipt :: "bytes option"

record 'u local_store =
  st_accounts :: "(string, 'u account) dict"
  st_passwords :: "(string, string) dict"
  st_methods :: "(string, (string, login_method) dict) dict"
  st_attempts :: "(string, int) dict"
  st_tokens :: "(string, time token_issue) dict"
  st_used :: "string set"
  st_sessions :: "(string, time user_session) dict"
  st_refresh :: "(string, refresh_state) dict"

definition empty_store :: "'u local_store" where
  "empty_store = \<lparr>st_accounts = [], st_passwords = [], st_methods = [], st_attempts = [],
     st_tokens = [], st_used = {}, st_sessions = [], st_refresh = []\<rparr>"

type_synonym 'u world = "backend \<times> 'u local_store"

record registration_command =
  rg_normalized_identifier :: string
  rg_display_name :: "string option"

section \<open>Lookups\<close>

definition find_for_login :: "string \<Rightarrow> 'u local_store \<Rightarrow> 'u account option" where
  "find_for_login normalized_identifier s =
     find_value (\<lambda>a. acc_identifier a = normalized_identifier) (st_accounts s)"

definition get_by_id :: "string \<Rightarrow> 'u local_store \<Rightarrow> 'u account option" where
  "get_by_id account_id s = dget (st_accounts s) account_id"

definition current_epoch :: "string \<Rightarrow> 'u local_store \<Rightarrow> int option" where
  "current_epoch account_id s = map_option acc_epoch (dget (st_accounts s) account_id)"

definition get_password_state :: "string \<Rightarrow> 'u local_store \<Rightarrow> password_state option result" where
  "get_password_state account_id s =
     (case (dget (st_accounts s) account_id, dget (st_passwords s) account_id) of
        (Some account, Some password_hash) \<Rightarrow>
          bind (password_state_post_init
                  \<lparr>ps_password_hash = password_hash, ps_security_epoch = acc_epoch account,
                   ps_active = acc_active account, ps_verified = acc_verified account\<rparr>)
            (\<lambda>p. Inr (Some p))
      | _ \<Rightarrow> Inr None)"

section \<open>Passwords\<close>

definition do_compare_and_replace ::
  "string \<Rightarrow> string \<Rightarrow> string \<Rightarrow> 'u local_store \<Rightarrow> bool result \<times> 'u local_store" where
  "do_compare_and_replace account_id expected_hash password_hash s =
     (if dget (st_accounts s) account_id = None \<or>
         dget (st_passwords s) account_id \<noteq> Some expected_hash
      then (Inr False, s)
      else (Inr True, s\<lparr>st_passwords := dset account_id password_hash (st_passwords s)\<rparr>))"

definition compare_and_replace_password ::
  "string \<Rightarrow> string \<Rightarrow> string \<Rightarrow> 'u world \<Rightarrow> bool result \<times> 'u world" where
  "compare_and_replace_password account_id expected_hash password_hash =
     observed ''accounts.compare_and_replace_password'' [(''account_id'', account_id)]
       (on_store (do_compare_and_replace account_id expected_hash password_hash))"

definition do_bump_epoch ::
  "string \<Rightarrow> string \<Rightarrow> int \<Rightarrow> 'u local_store \<Rightarrow>
     password_change_outcome result \<times> 'u local_store" where
  "do_bump_epoch account_id password_hash expected_epoch s =
     (case dget (st_accounts s) account_id of
        None \<Rightarrow> (password_change Not_Found None, s)
      | Some account \<Rightarrow>
          if acc_epoch account \<noteq> expected_epoch then (password_change Change_Conflict None, s)
          else
            let s1 = s\<lparr>st_passwords := dset account_id password_hash (st_passwords s)\<rparr>
            in case account_post_init (account\<lparr>acc_epoch := expected_epoch + 1\<rparr>) of
                 Inl e \<Rightarrow> (Inl e, s1)
               | Inr updated \<Rightarrow>
                   (password_change Changed (Some (expected_epoch + 1)),
                    s1\<lparr>st_accounts := dset account_id updated (st_accounts s1)\<rparr>))"

definition replace_password_and_bump_epoch ::
  "string \<Rightarrow> string \<Rightarrow> int \<Rightarrow> 'u world \<Rightarrow> password_change_outcome result \<times> 'u world" where
  "replace_password_and_bump_epoch account_id password_hash expected_epoch =
     observed ''accounts.replace_password_and_bump_epoch'' [(''account_id'', account_id)]
       (on_store (do_bump_epoch account_id password_hash expected_epoch))"

section \<open>Login methods\<close>

definition methods_for :: "string \<Rightarrow> 'u local_store \<Rightarrow> (string, login_method) dict" where
  "methods_for account_id s =
     (case dget (st_methods s) account_id of None \<Rightarrow> [] | Some m \<Rightarrow> m)"

definition list_methods :: "string \<Rightarrow> 'u world \<Rightarrow> login_method list result \<times> 'u world" where
  "list_methods account_id =
     observed ''accounts.list_methods'' [(''account_id'', account_id)]
       (on_store (reading (\<lambda>s. Inr (dvalues (methods_for account_id s)))))"

definition do_register_method ::
  "string \<Rightarrow> login_method \<Rightarrow> 'u local_store \<Rightarrow> unit result \<times> 'u local_store" where
  "do_register_method account_id m s =
     (Inr (), s\<lparr>st_methods := dset account_id
        (dset (lm_method_id m) m (methods_for account_id s)) (st_methods s)\<rparr>)"

definition register_login_method ::
  "string \<Rightarrow> login_method \<Rightarrow> 'u world \<Rightarrow> unit result \<times> 'u world" where
  "register_login_method account_id m =
     observed ''accounts.register_login_method''
       [(''account_id'', account_id), (''method_id'', lm_method_id m)]
       (on_store (do_register_method account_id m))"

definition do_revoke_method ::
  "string \<Rightarrow> string \<Rightarrow> bool \<Rightarrow> 'u local_store \<Rightarrow>
     revoke_method_status result \<times> 'u local_store" where
  "do_revoke_method account_id method_id require_remaining s =
     (case dget (st_methods s) account_id of
        None \<Rightarrow> (Inr Method_Not_Found, s)
      | Some methods \<Rightarrow>
          if dget methods method_id = None then (Inr Method_Not_Found, s)
          else if require_remaining \<and> length methods = 1 then (Inr Final_Method, s)
          else (Inr Method_Revoked,
                s\<lparr>st_methods := dset account_id (ddel method_id methods) (st_methods s)\<rparr>))"

definition revoke_login_method ::
  "string \<Rightarrow> string \<Rightarrow> bool \<Rightarrow> 'u world \<Rightarrow> revoke_method_status result \<times> 'u world" where
  "revoke_login_method account_id method_id require_remaining =
     observed ''accounts.revoke_login_method''
       [(''account_id'', account_id), (''method_id'', method_id)]
       (on_store (do_revoke_method account_id method_id require_remaining))"

section \<open>Purpose tokens\<close>

definition token_id_exists :: "'u local_store \<Rightarrow> string \<Rightarrow> bool" where
  "token_id_exists s token_id \<longleftrightarrow> dget (st_tokens s) token_id \<noteq> None \<or> token_id \<in> st_used s"

text \<open>The token leaves the live tokens, its attempt count is dropped and its id is never reused.\<close>

definition retire_token :: "string \<Rightarrow> 'u local_store \<Rightarrow> 'u local_store" where
  "retire_token token_id s =
     s\<lparr>st_tokens := ddel token_id (st_tokens s), st_attempts := ddel token_id (st_attempts s),
       st_used := insert token_id (st_used s)\<rparr>"

definition record_failed_proof :: "time token_issue \<Rightarrow> 'u local_store \<Rightarrow> 'u local_store" where
  "record_failed_proof issue s =
     (let token_id = ti_token_id issue;
          attempts = (case dget (st_attempts s) token_id of None \<Rightarrow> 0 | Some n \<Rightarrow> n) + 1
      in if attempts < ti_maximum_attempts issue
         then s\<lparr>st_attempts := dset token_id attempts (st_attempts s)\<rparr>
         else retire_token token_id s)"

definition do_issue :: "time token_issue \<Rightarrow> 'u local_store \<Rightarrow> unit result \<times> 'u local_store" where
  "do_issue issue s =
     (if token_id_exists s (ti_token_id issue) then (Inl ValueError, s)
      else (Inr (), s\<lparr>st_tokens := dset (ti_token_id issue) issue (st_tokens s)\<rparr>))"

definition issue_token :: "time token_issue \<Rightarrow> 'u world \<Rightarrow> unit result \<times> 'u world" where
  "issue_token issue =
     observed ''accounts.issue''
       [(''account_id'', ti_account_id issue), (''token_id'', ti_token_id issue)]
       (on_store (do_issue issue))"

definition issue_absent :: "'u world \<Rightarrow> unit result \<times> 'u world" where
  "issue_absent = observed ''accounts.issue_absent'' [] (on_store (reading (\<lambda>s. Inr ())))"

definition do_consume_and_verify ::
  "string \<Rightarrow> bytes \<Rightarrow> time \<Rightarrow> 'u local_store \<Rightarrow>
     verification_outcome result \<times> 'u local_store" where
  "do_consume_and_verify token_id digest now s =
     (case dget (st_tokens s) token_id of
        None \<Rightarrow>
          (verification
             (if token_id \<in> st_used s then Verification_Used else Verification_Invalid) None None, s)
      | Some issue \<Rightarrow>
          if ti_purpose issue \<noteq> Verification then
            (verification
               (if token_id \<in> st_used s then Verification_Used else Verification_Invalid)
               None None, s)
          else if ti_digest issue \<noteq> digest then
            (verification Verification_Invalid None None, record_failed_proof issue s)
          else if ti_expires_at issue \<le> now then (verification Verification_Expired None None, s)
          else case dget (st_accounts s) (ti_account_id issue) of
            None \<Rightarrow> (verification Verification_Invalid None None, s)
          | Some account \<Rightarrow>
              let s1 = retire_token token_id s
              in case account_post_init (account\<lparr>acc_verified := True\<rparr>) of
                   Inl e \<Rightarrow> (Inl e, s1)
                 | Inr updated \<Rightarrow>
                     (verification Consumed (Some (acc_id account)) (Some (acc_epoch account)),
                      s1\<lparr>st_accounts := dset (acc_id account) updated (st_accounts s1)\<rparr>))"

definition consume_and_verify ::
  "string \<Rightarrow> bytes \<Rightarrow> time \<Rightarrow> 'u world \<Rightarrow> verification_outcome result \<times> 'u world" where
  "consume_and_verify token_id digest now =
     observed ''accounts.consume_and_verify'' [(''token_id'', token_id)]
       (on_store (do_consume_and_verify token_id digest now))"

definition do_consume_and_reset ::
  "string \<Rightarrow> bytes \<Rightarrow> string \<Rightarrow> time \<Rightarrow> 'u local_store \<Rightarrow>
     password_reset_outcome result \<times> 'u local_store" where
  "do_consume_and_reset token_id digest new_password_hash now s =
     (case dget (st_tokens s) token_id of
        None \<Rightarrow>
          (password_reset (if token_id \<in> st_used s then Reset_Used else Reset_Invalid) None None, s)
      | Some issue \<Rightarrow>
          if ti_purpose issue \<noteq> Recovery then
            (password_reset (if token_id \<in> st_used s then Reset_Used else Reset_Invalid)
               None None, s)
          else if ti_digest issue \<noteq> digest then
            (password_reset Reset_Invalid None None, record_failed_proof issue s)
          else if ti_expires_at issue \<le> now then (password_reset Reset_Expired None None, s)
          else case dget (st_accounts s) (ti_account_id issue) of
            None \<Rightarrow> (password_reset Reset_Conflict None None, s)
          | Some account \<Rightarrow>
              if ti_issued_epoch issue \<noteq> Some (acc_epoch account)
              then (password_reset Reset_Conflict None None, s)
              else
                let next_epoch = acc_epoch account + 1;
                    s1 = retire_token token_id s;
                    s2 = s1\<lparr>st_passwords :=
                              dset (acc_id account) new_password_hash (st_passwords s1)\<rparr>
                in case account_post_init (account\<lparr>acc_epoch := next_epoch\<rparr>) of
                     Inl e \<Rightarrow> (Inl e, s2)
                   | Inr updated \<Rightarrow>
                       (password_reset Reset (Some (acc_id account)) (Some next_epoch),
                        s2\<lparr>st_accounts := dset (acc_id account) updated (st_accounts s2)\<rparr>))"

definition consume_and_reset ::
  "string \<Rightarrow> bytes \<Rightarrow> string \<Rightarrow> time \<Rightarrow> 'u world \<Rightarrow>
     password_reset_outcome result \<times> 'u world" where
  "consume_and_reset token_id digest new_password_hash now =
     observed ''accounts.consume_and_reset'' [(''token_id'', token_id)]
       (on_store (do_consume_and_reset token_id digest new_password_hash now))"

section \<open>Registration\<close>

definition find_invitation ::
  "bytes option \<Rightarrow> 'u local_store \<Rightarrow> time token_issue option" where
  "find_invitation invitation_digest s =
     (case invitation_digest of
        None \<Rightarrow> None
      | Some d \<Rightarrow>
          find_value (\<lambda>issue. ti_purpose issue = Invitation \<and> ti_digest issue = d) (st_tokens s))"

definition store_verification ::
  "time pending_issue option \<Rightarrow> string \<Rightarrow> 'u local_store \<Rightarrow> 'u local_store result" where
  "store_verification pending account_id s =
     (case pending of
        None \<Rightarrow> Inr s
      | Some p \<Rightarrow>
          bind (bind_issue p account_id None) (\<lambda>issue.
            Inr (s\<lparr>st_tokens := dset (ti_token_id issue) issue (st_tokens s)\<rparr>)))"

definition do_register ::
  "(string \<Rightarrow> nat \<Rightarrow> string) \<Rightarrow> 'u \<Rightarrow> registration_command \<Rightarrow> string \<Rightarrow> bytes option \<Rightarrow>
     time pending_issue option \<Rightarrow> time \<Rightarrow> 'u world \<Rightarrow>
     'u registration_outcome result \<times> 'u world" where
  "do_register identifiers user command password_hash invitation_digest pending now w =
     (let s = snd w;
          invitation = find_invitation invitation_digest s
      in if \<exists>a\<in>set (dvalues (st_accounts s)). acc_identifier a = rg_normalized_identifier command
         then (registration Duplicate None, w)
         else if invitation_digest \<noteq> None \<and>
                 (case invitation of None \<Rightarrow> True | Some i \<Rightarrow> ti_expires_at i \<le> now)
         then (registration Invalid_Invitation None, w)
         else if (case pending of None \<Rightarrow> False | Some p \<Rightarrow> token_id_exists s (pi_token_id p))
         then (Inl ValueError, w)
         else case next_identifier identifiers ''account'' (fst w) of
           (Inl e, b) \<Rightarrow> (Inl e, (b, s))
         | (Inr account_id, b) \<Rightarrow>
             if dget (st_accounts s) account_id \<noteq> None then (Inl ValueError, (b, s))
             else case account_post_init
                    \<lparr>acc_id = account_id, acc_identifier = rg_normalized_identifier command,
                     acc_display_name = rg_display_name command, acc_active = True,
                     acc_verified = (pending = None), acc_epoch = 1, acc_user = Some user\<rparr> of
               Inl e \<Rightarrow> (Inl e, (b, s))
             | Inr account \<Rightarrow>
                 (case store_verification pending account_id s of
                    Inl e \<Rightarrow> (Inl e, (b, s))
                  | Inr s1 \<Rightarrow>
                      let s2 = s1\<lparr>st_accounts := dset account_id account (st_accounts s1),
                                  st_passwords :=
                                    dset account_id password_hash (st_passwords s1)\<rparr>;
                          s3 = (case invitation of
                                  None \<Rightarrow> s2
                                | Some i \<Rightarrow>
                                    s2\<lparr>st_tokens := ddel (ti_token_id i) (st_tokens s2),
                                       st_used := insert (ti_token_id i) (st_used s2)\<rparr>)
                      in (registration Created (Some account), (b, s3))))"

definition register ::
  "(string \<Rightarrow> nat \<Rightarrow> string) \<Rightarrow> 'u \<Rightarrow> registration_command \<Rightarrow> string \<Rightarrow> bytes option \<Rightarrow>
     time pending_issue option \<Rightarrow> time \<Rightarrow> 'u world \<Rightarrow>
     'u registration_outcome result \<times> 'u world" where
  "register identifiers user command password_hash invitation_digest pending now =
     observed ''accounts.register''
       [(''normalized_identifier'', rg_normalized_identifier command)]
       (do_register identifiers user command password_hash invitation_digest pending now)"

end
