(* ===== verification/Account_Store.thy ===== *)
theory Account_Store
  imports Local_Store
begin

text \<open>
  Invariants of the account half of the in-memory store and what its operations guarantee:
  accounts are keyed by their id, have unique login identifiers and exactly one password hash;
  purpose tokens are keyed by their id, live or retired but never both, and a live token has fewer
  failed proofs than its maximum. The lemmas below prove each body preserves both; the sessions
  and refresh tokens are untouched by every one of them.
\<close>

section \<open>Invariants\<close>

definition valid_account :: "'u account \<Rightarrow> bool" where
  "valid_account a \<longleftrightarrow>
     strict_text (acc_id a) \<and> strict_text (acc_identifier a) \<and> valid_security_epoch (acc_epoch a)"

definition valid_issue :: "time token_issue \<Rightarrow> bool" where
  "valid_issue i \<longleftrightarrow>
     valid_token_id (ti_token_id i) (ti_purpose i) \<and> length (ti_digest i) = digest_bytes \<and>
     1 \<le> ti_maximum_attempts i \<and> ti_maximum_attempts i \<le> 100 \<and>
     strict_text (ti_account_id i) \<and>
     (case ti_issued_epoch i of
        None \<Rightarrow> ti_purpose i \<noteq> Recovery
      | Some e \<Rightarrow> ti_purpose i = Recovery \<and> valid_security_epoch e)"

definition accounts_ok :: "'u local_store \<Rightarrow> bool" where
  "accounts_ok s \<longleftrightarrow>
     dict_ok (st_accounts s) \<and> dict_ok (st_passwords s) \<and>
     (\<forall>k a. dget (st_accounts s) k = Some a \<longrightarrow> acc_id a = k \<and> valid_account a) \<and>
     (\<forall>k k' a a'. dget (st_accounts s) k = Some a \<longrightarrow> dget (st_accounts s) k' = Some a' \<longrightarrow>
        acc_identifier a = acc_identifier a' \<longrightarrow> k = k') \<and>
     (\<forall>k. dget (st_passwords s) k = None \<longleftrightarrow> dget (st_accounts s) k = None)"

definition tokens_ok :: "'u local_store \<Rightarrow> bool" where
  "tokens_ok s \<longleftrightarrow>
     dict_ok (st_tokens s) \<and> dict_ok (st_attempts s) \<and>
     (\<forall>k i. dget (st_tokens s) k = Some i \<longrightarrow> ti_token_id i = k \<and> k \<notin> st_used s \<and> valid_issue i) \<and>
     (\<forall>k n. dget (st_attempts s) k = Some n \<longrightarrow>
        (\<exists>i. dget (st_tokens s) k = Some i \<and> ti_purpose i \<noteq> Invitation \<and>
             1 \<le> n \<and> n < ti_maximum_attempts i))"

definition account_side :: "'u local_store \<Rightarrow> bool" where
  "account_side s \<longleftrightarrow> accounts_ok s \<and> tokens_ok s"

lemma account_post_init_valid: "valid_account a \<Longrightarrow> account_post_init a = Inr a"
  by (simp add: valid_account_def account_post_init_def)

lemma account_post_init_Inr_valid: "account_post_init a = Inr b \<longleftrightarrow> b = a \<and> valid_account a"
  by (auto simp: valid_account_def account_post_init_Inr)

lemma account_side_empty: "account_side empty_store"
  by (simp add: account_side_def accounts_ok_def tokens_ok_def empty_store_def)

lemma accounts_okD:
  assumes "accounts_ok s" and "dget (st_accounts s) k = Some a"
  shows "acc_id a = k" and "valid_account a" and "account_post_init a = Inr a"
  using assms account_post_init_valid [of a] by (auto simp: accounts_ok_def)

lemma tokens_okD:
  assumes "tokens_ok s" and "dget (st_tokens s) k = Some i"
  shows "ti_token_id i = k" and "k \<notin> st_used s" and "valid_issue i"
  using assms by (auto simp: tokens_ok_def)

lemma tokens_ok_attemptsD:
  assumes "tokens_ok s" and "dget (st_attempts s) k = Some n"
  obtains i where "dget (st_tokens s) k = Some i" "ti_purpose i \<noteq> Invitation" "1 \<le> n"
    "n < ti_maximum_attempts i"
  using assms unfolding tokens_ok_def by blast

lemma tokens_ok_no_attempts:
  assumes "tokens_ok s"
    and "\<And>i. dget (st_tokens s) k = Some i \<Longrightarrow> ti_purpose i = Invitation"
  shows "dget (st_attempts s) k = None"
  using assms tokens_ok_attemptsD [of s k] by (cases "dget (st_attempts s) k") blast+

lemma tokens_okI:
  assumes "dict_ok (st_tokens s)" "dict_ok (st_attempts s)"
    and "\<And>k i. dget (st_tokens s) k = Some i \<Longrightarrow> ti_token_id i = k \<and> k \<notin> st_used s \<and> valid_issue i"
    and "\<And>k n. dget (st_attempts s) k = Some n \<Longrightarrow>
        \<exists>i. dget (st_tokens s) k = Some i \<and> ti_purpose i \<noteq> Invitation \<and> 1 \<le> n \<and>
            n < ti_maximum_attempts i"
  shows "tokens_ok s"
  using assms unfolding tokens_ok_def by blast

lemma tokens_ok_dicts: "tokens_ok s \<Longrightarrow> dict_ok (st_tokens s)" "tokens_ok s \<Longrightarrow> dict_ok (st_attempts s)"
  by (simp_all add: tokens_ok_def)

text \<open>Both invariants read only their own fields.\<close>

lemma accounts_ok_cong:
  "st_accounts s = st_accounts t \<Longrightarrow> st_passwords s = st_passwords t \<Longrightarrow>
     accounts_ok s = accounts_ok t"
  by (simp add: accounts_ok_def)

lemma tokens_ok_cong:
  "st_tokens s = st_tokens t \<Longrightarrow> st_attempts s = st_attempts t \<Longrightarrow> st_used s = st_used t \<Longrightarrow>
     tokens_ok s = tokens_ok t"
  by (simp add: tokens_ok_def)

section \<open>Elementary updates\<close>

lemma accounts_ok_set_password:
  assumes "accounts_ok s" and "dget (st_accounts s) k \<noteq> None"
  shows "accounts_ok (s\<lparr>st_passwords := dset k h (st_passwords s)\<rparr>)"
  using assms by (simp add: accounts_ok_def dict_simps)

lemma accounts_ok_set_account:
  assumes ok: "accounts_ok s" and a: "dget (st_accounts s) k = Some a"
    and b: "acc_id b = acc_id a" "acc_identifier b = acc_identifier a" "valid_account b"
  shows "accounts_ok (s\<lparr>st_accounts := dset k b (st_accounts s)\<rparr>)"
proof -
  have "acc_id b = k"
    using ok a b(1) by (simp add: accounts_ok_def)
  moreover have "dget (st_passwords s) k \<noteq> None"
    using ok a by (simp add: accounts_ok_def)
  moreover have "\<forall>k' a'. dget (st_accounts s) k' = Some a' \<longrightarrow>
      acc_identifier a' = acc_identifier b \<longrightarrow> k' = k"
    using ok a b(2) by (metis accounts_ok_def)
  ultimately show ?thesis
    using ok b(3) unfolding accounts_ok_def
    by (simp add: dict_simps)
qed

lemma accounts_ok_insert:
  assumes ok: "accounts_ok s" and new: "dget (st_accounts s) k = None"
    and a: "acc_id a = k" "valid_account a"
    and fresh: "\<forall>b\<in>set (dvalues (st_accounts s)). acc_identifier b \<noteq> acc_identifier a"
  shows "accounts_ok (s\<lparr>st_accounts := dset k a (st_accounts s),
                       st_passwords := dset k h (st_passwords s)\<rparr>)"
proof -
  have "acc_identifier b \<noteq> acc_identifier a" if "dget (st_accounts s) k' = Some b" for k' b
    using fresh that by (metis image_eqI list.set_map map_of_SomeD snd_conv)
  then have "\<forall>k' b. dget (st_accounts s) k' = Some b \<longrightarrow> acc_identifier b \<noteq> acc_identifier a"
    by blast
  then show ?thesis
    using ok a unfolding accounts_ok_def by (simp add: dict_simps) metis
qed

lemma tokens_ok_retire:
  assumes ok: "tokens_ok s"
  shows "tokens_ok (retire_token k s)"
proof (rule tokens_okI)
  fix x i assume "dget (st_tokens (retire_token k s)) x = Some i"
  then show "ti_token_id i = x \<and> x \<notin> st_used (retire_token k s) \<and> valid_issue i"
    using tokens_okD [OF ok, of x i] by (simp add: retire_token_def dict_simps split: if_splits)
next
  fix x n assume n: "dget (st_attempts (retire_token k s)) x = Some n"
  then obtain i where "dget (st_tokens s) x = Some i" "ti_purpose i \<noteq> Invitation" "1 \<le> n"
    "n < ti_maximum_attempts i"
    using tokens_ok_attemptsD [OF ok, of x n]
    by (auto simp: retire_token_def dict_simps split: if_splits)
  with n show "\<exists>i. dget (st_tokens (retire_token k s)) x = Some i \<and> ti_purpose i \<noteq> Invitation \<and>
      1 \<le> n \<and> n < ti_maximum_attempts i"
    by (simp add: retire_token_def dict_simps split: if_splits)
qed (use ok in \<open>simp_all add: retire_token_def tokens_ok_dicts\<close>)

lemma tokens_ok_add:
  assumes ok: "tokens_ok s" and new: "\<not> token_id_exists s (ti_token_id i)" and i: "valid_issue i"
  shows "tokens_ok (s\<lparr>st_tokens := dset (ti_token_id i) i (st_tokens s)\<rparr>)" (is "tokens_ok ?t")
proof (rule tokens_okI)
  fix x j assume "dget (st_tokens ?t) x = Some j"
  then show "ti_token_id j = x \<and> x \<notin> st_used ?t \<and> valid_issue j"
    using tokens_okD [OF ok, of x j] new i
    by (simp add: token_id_exists_def dict_simps split: if_splits)
next
  fix x n assume "dget (st_attempts ?t) x = Some n"
  then have "dget (st_attempts s) x = Some n" by simp
  then obtain j where j: "dget (st_tokens s) x = Some j" "ti_purpose j \<noteq> Invitation" "1 \<le> n"
    "n < ti_maximum_attempts j"
    by (rule tokens_ok_attemptsD [OF ok])
  then have "x \<noteq> ti_token_id i"
    using new by (auto simp: token_id_exists_def)
  with j show "\<exists>j. dget (st_tokens ?t) x = Some j \<and> ti_purpose j \<noteq> Invitation \<and> 1 \<le> n \<and>
      n < ti_maximum_attempts j"
    by (simp add: dict_simps)
qed (use ok in \<open>simp_all add: tokens_ok_dicts\<close>)

lemma tokens_ok_retire_invitation:
  assumes ok: "tokens_ok s" and i: "dget (st_tokens s) k = Some i" "ti_purpose i = Invitation"
  shows "tokens_ok (s\<lparr>st_tokens := ddel k (st_tokens s), st_used := insert k (st_used s)\<rparr>)"
proof -
  have "dget (st_attempts s) k = None"
    using tokens_ok_no_attempts [OF ok, of k] i by simp
  then have "ddel k (st_attempts s) = st_attempts s"
    by (simp add: delete_id map_of_eq_None_iff)
  then show ?thesis
    using tokens_ok_retire [OF ok, of k] by (simp add: retire_token_def tokens_ok_def)
qed

lemma tokens_ok_failed_proof:
  assumes ok: "tokens_ok s" and i: "dget (st_tokens s) k = Some i" "ti_purpose i \<noteq> Invitation"
  shows "tokens_ok (record_failed_proof i s)"
proof -
  have key: "ti_token_id i = k"
    using tokens_okD(1) [OF ok i(1)] .
  have nonneg: "0 \<le> (case dget (st_attempts s) k of None \<Rightarrow> 0 | Some n \<Rightarrow> n)"
  proof (cases "dget (st_attempts s) k")
    case (Some n)
    then obtain j where "1 \<le> n" by (rule tokens_ok_attemptsD [OF ok])
    with Some show ?thesis by simp
  qed simp
  show ?thesis
  proof (cases "(case dget (st_attempts s) k of None \<Rightarrow> 0 | Some n \<Rightarrow> n) + 1
      < ti_maximum_attempts i")
    case True
    have "tokens_ok (s\<lparr>st_attempts := dset k n (st_attempts s)\<rparr>)"
      if n: "1 \<le> n" "n < ti_maximum_attempts i" for n
    proof (rule tokens_okI)
      fix x m assume m: "dget (st_attempts (s\<lparr>st_attempts := dset k n (st_attempts s)\<rparr>)) x = Some m"
      show "\<exists>j. dget (st_tokens (s\<lparr>st_attempts := dset k n (st_attempts s)\<rparr>)) x = Some j \<and>
          ti_purpose j \<noteq> Invitation \<and> 1 \<le> m \<and> m < ti_maximum_attempts j"
      proof (cases "x = k")
        case True
        with m n i show ?thesis by (simp add: dict_simps)
      next
        case False
        with m have "dget (st_attempts s) x = Some m" by (simp add: dict_simps)
        then obtain j where "dget (st_tokens s) x = Some j" "ti_purpose j \<noteq> Invitation" "1 \<le> m"
          "m < ti_maximum_attempts j"
          by (rule tokens_ok_attemptsD [OF ok])
        then show ?thesis by simp
      qed
    qed (use ok tokens_okD [OF ok] in \<open>simp_all add: tokens_ok_dicts\<close>)
    with True nonneg key show ?thesis
      by (simp add: record_failed_proof_def Let_def)
  next
    case False
    with key show ?thesis
      using tokens_ok_retire [OF ok, of k] by (simp add: record_failed_proof_def Let_def)
  qed
qed

lemma retire_token_frame [simp]:
  "st_accounts (retire_token k s) = st_accounts s"
  "st_passwords (retire_token k s) = st_passwords s"
  "st_methods (retire_token k s) = st_methods s"
  "st_sessions (retire_token k s) = st_sessions s"
  "st_refresh (retire_token k s) = st_refresh s"
  "st_used (retire_token k s) = insert k (st_used s)"
  "st_tokens (retire_token k s) = ddel k (st_tokens s)"
  by (simp_all add: retire_token_def)

lemma record_failed_proof_frame [simp]:
  "st_accounts (record_failed_proof i s) = st_accounts s"
  "st_passwords (record_failed_proof i s) = st_passwords s"
  "st_methods (record_failed_proof i s) = st_methods s"
  "st_sessions (record_failed_proof i s) = st_sessions s"
  "st_refresh (record_failed_proof i s) = st_refresh s"
  by (simp_all add: record_failed_proof_def Let_def)

section \<open>Every body preserves the invariants\<close>

lemma account_side_set_account:
  assumes "account_side s" "dget (st_accounts s) k = Some a"
    "acc_id b = acc_id a" "acc_identifier b = acc_identifier a" "valid_account b"
  shows "account_side (s\<lparr>st_accounts := dset k b (st_accounts s)\<rparr>)"
proof -
  have "tokens_ok (s\<lparr>st_accounts := dset k b (st_accounts s)\<rparr>) = tokens_ok s"
    by (rule tokens_ok_cong) simp_all
  then show ?thesis
    using accounts_ok_set_account [of s k a b] assms by (simp add: account_side_def)
qed

lemma account_side_set_password:
  assumes "account_side s" "dget (st_accounts s) k \<noteq> None"
  shows "account_side (s\<lparr>st_passwords := dset k h (st_passwords s)\<rparr>)"
proof -
  have "tokens_ok (s\<lparr>st_passwords := dset k h (st_passwords s)\<rparr>) = tokens_ok s"
    by (rule tokens_ok_cong) simp_all
  then show ?thesis
    using accounts_ok_set_password [of s k h] assms by (simp add: account_side_def)
qed

lemma account_side_tokens:
  assumes "account_side s" "tokens_ok (s\<lparr>st_tokens := t, st_used := u\<rparr>)"
  shows "account_side (s\<lparr>st_tokens := t, st_used := u\<rparr>)"
proof -
  have "accounts_ok (s\<lparr>st_tokens := t, st_used := u\<rparr>) = accounts_ok s"
    by (rule accounts_ok_cong) simp_all
  then show ?thesis
    using assms by (simp add: account_side_def)
qed

lemma do_compare_and_replace_ok:
  "account_side s \<Longrightarrow> account_side (snd (do_compare_and_replace k h h' s))"
  by (simp add: do_compare_and_replace_def account_side_set_password)

lemma do_bump_epoch_ok:
  assumes ok: "account_side s"
  shows "account_side (snd (do_bump_epoch k h e s))"
proof (cases "dget (st_accounts s) k")
  case None
  with ok show ?thesis by (simp add: do_bump_epoch_def)
next
  case (Some a)
  let ?s1 = "s\<lparr>st_passwords := dset k h (st_passwords s)\<rparr>" and ?b = "a\<lparr>acc_epoch := e + 1\<rparr>"
  have s1: "account_side ?s1"
    using account_side_set_password [OF ok] Some by simp
  have s2: "account_side (?s1\<lparr>st_accounts := dset k ?b (st_accounts ?s1)\<rparr>)"
    if "valid_account ?b"
    by (rule account_side_set_account [OF s1, of k a]) (use Some that in simp_all)
  show ?thesis
  proof (cases "account_post_init ?b")
    case (Inl err)
    with Some s1 ok show ?thesis by (simp add: do_bump_epoch_def Let_def)
  next
    case (Inr b)
    then have b: "b = ?b" "valid_account ?b"
      by (auto simp: account_post_init_Inr_valid)
    from Some s2 [OF b(2)] ok account_post_init_valid [OF b(2)] show ?thesis
      by (simp add: do_bump_epoch_def Let_def)
  qed
qed

lemma do_register_method_ok:
  "account_side s \<Longrightarrow> account_side (snd (do_register_method k m s))"
  by (simp add: account_side_def do_register_method_def accounts_ok_def tokens_ok_def)

lemma do_revoke_method_ok:
  "account_side s \<Longrightarrow> account_side (snd (do_revoke_method k m r s))"
  by (simp add: account_side_def do_revoke_method_def accounts_ok_def tokens_ok_def
      split: option.splits)

lemma do_issue_ok:
  assumes ok: "account_side s" and i: "valid_issue i"
  shows "account_side (snd (do_issue i s))"
proof (cases "token_id_exists s (ti_token_id i)")
  case True
  with ok show ?thesis by (simp add: do_issue_def)
next
  case False
  then have "tokens_ok (s\<lparr>st_tokens := dset (ti_token_id i) i (st_tokens s)\<rparr>)"
    using ok i by (simp add: account_side_def tokens_ok_add)
  then have "account_side (s\<lparr>st_tokens := dset (ti_token_id i) i (st_tokens s),
      st_used := st_used s\<rparr>)"
    by (intro account_side_tokens [OF ok]) simp
  with False show ?thesis by (simp add: do_issue_def)
qed

text \<open>Retiring a token and then writing its account, the two tails of consumption.\<close>

lemma account_side_failed_proof:
  assumes "account_side s" "dget (st_tokens s) k = Some i" "ti_purpose i \<noteq> Invitation"
  shows "account_side (record_failed_proof i s)"
proof -
  have "accounts_ok (record_failed_proof i s) = accounts_ok s"
    by (rule accounts_ok_cong) simp_all
  then show ?thesis
    using assms tokens_ok_failed_proof [of s k i] by (simp add: account_side_def)
qed

lemma account_side_retire:
  assumes "account_side s"
  shows "account_side (retire_token k s)"
proof -
  have "accounts_ok (retire_token k s) = accounts_ok s"
    by (rule accounts_ok_cong) simp_all
  then show ?thesis
    using assms tokens_ok_retire [of s k] by (simp add: account_side_def)
qed

lemma do_consume_and_verify_ok:
  assumes ok: "account_side s"
  shows "account_side (snd (do_consume_and_verify k d now s))"
proof (cases "dget (st_tokens s) k")
  case None
  with ok show ?thesis by (simp add: do_consume_and_verify_def)
next
  case (Some i)
  note fail = account_side_failed_proof [OF ok Some]
  note retired = account_side_retire [OF ok, of k]
  show ?thesis
  proof (cases "dget (st_accounts s) (ti_account_id i)")
    case None
    with Some ok fail show ?thesis by (simp add: do_consume_and_verify_def)
  next
    case (Some a)
    let ?b = "a\<lparr>acc_verified := True\<rparr>"
    have a: "acc_id a = ti_account_id i" "valid_account a"
      using ok accounts_okD [OF _ Some] by (auto simp: account_side_def)
    have v: "valid_account ?b" using a(2) by (simp add: valid_account_def)
    have "account_side ((retire_token k s)\<lparr>st_accounts :=
        dset (ti_account_id i) ?b (st_accounts (retire_token k s))\<rparr>)"
      by (rule account_side_set_account [OF retired, of _ a]) (use Some v in simp_all)
    then show ?thesis
      using \<open>dget (st_tokens s) k = Some i\<close> Some ok fail a(1)
      by (simp add: do_consume_and_verify_def Let_def account_post_init_valid [OF v])
  qed
qed

lemma do_consume_and_reset_ok:
  assumes ok: "account_side s"
  shows "account_side (snd (do_consume_and_reset k d h now s))"
proof (cases "dget (st_tokens s) k")
  case None
  with ok show ?thesis by (simp add: do_consume_and_reset_def)
next
  case (Some i)
  note fail = account_side_failed_proof [OF ok Some]
  note retired = account_side_retire [OF ok, of k]
  show ?thesis
  proof (cases "dget (st_accounts s) (ti_account_id i)")
    case None
    with Some ok fail show ?thesis by (simp add: do_consume_and_reset_def)
  next
    case (Some a)
    let ?s1 = "retire_token k s"
    let ?s2 = "?s1\<lparr>st_passwords := dset (acc_id a) h (st_passwords ?s1)\<rparr>"
    let ?b = "a\<lparr>acc_epoch := acc_epoch a + 1\<rparr>"
    have a: "acc_id a = ti_account_id i"
      using ok accounts_okD [OF _ Some] by (auto simp: account_side_def)
    have s2: "account_side ?s2"
      by (rule account_side_set_password [OF retired]) (use Some a in simp)
    have "account_side (?s2\<lparr>st_accounts := dset (acc_id a) ?b (st_accounts ?s2)\<rparr>)"
      if "valid_account ?b"
      by (rule account_side_set_account [OF s2, of _ a]) (use Some a that in simp_all)
    then show ?thesis
      using \<open>dget (st_tokens s) k = Some i\<close> Some ok fail s2
      by (auto simp: do_consume_and_reset_def Let_def account_post_init_Inr_valid split: sum.splits)
  qed
qed

lemma bind_issue_Inr:
  assumes "bind_issue p a e = Inr i"
  shows "valid_issue i" and "ti_token_id i = pi_token_id p" and "ti_purpose i = pi_purpose p"
    and "ti_digest i = pi_digest p" and "ti_account_id i = a" and "ti_issued_epoch i = e"
proof -
  have "valid_issue i \<and> ti_token_id i = pi_token_id p \<and> ti_purpose i = pi_purpose p \<and>
      ti_digest i = pi_digest p \<and> ti_account_id i = a \<and> ti_issued_epoch i = e"
    using assms
    by (auto simp: bind_issue_def token_issue_post_init_def validate_pending_token_issue_def
        valid_issue_def result_simps Let_def split: if_splits option.splits)
  then show "valid_issue i" "ti_token_id i = pi_token_id p" "ti_purpose i = pi_purpose p"
    "ti_digest i = pi_digest p" "ti_account_id i = a" "ti_issued_epoch i = e"
    by simp_all
qed

lemma token_issue_post_init_valid: "token_issue_post_init r = Inr i \<Longrightarrow> valid_issue i"
  by (auto simp: token_issue_post_init_def validate_pending_token_issue_def
      valid_issue_def result_simps Let_def split: if_splits option.splits)

section \<open>Registration\<close>

text \<open>The state registration leaves, from the store with the verification token already in it.\<close>

definition registered ::
  "string \<Rightarrow> 'u account \<Rightarrow> string \<Rightarrow> time token_issue option \<Rightarrow> 'u local_store \<Rightarrow> 'u local_store" where
  "registered k a h invitation s =
     (let s2 = s\<lparr>st_accounts := dset k a (st_accounts s), st_passwords := dset k h (st_passwords s)\<rparr>
      in case invitation of
           None \<Rightarrow> s2
         | Some i \<Rightarrow> s2\<lparr>st_tokens := ddel (ti_token_id i) (st_tokens s2),
                        st_used := insert (ti_token_id i) (st_used s2)\<rparr>)"

text \<open>Either registration created the account, or it left the store as it was.\<close>

lemma do_register_cases:
  obtains (same) r b where "do_register ids u cmd h ivd pending now w = (r, (b, snd w))"
      "\<And>oc. r = Inr oc \<Longrightarrow> ro_status oc \<noteq> Created"
  | (created) k a b s1 where
      "do_register ids u cmd h ivd pending now w =
         (Inr \<lparr>ro_status = Created, ro_account = Some a\<rparr>,
          (b, registered k a h (find_invitation ivd (snd w)) s1))"
      "store_verification pending k (snd w) = Inr s1"
      "dget (st_accounts (snd w)) k = None" "valid_account a"
      "a = \<lparr>acc_id = k, acc_identifier = rg_normalized_identifier cmd,
            acc_display_name = rg_display_name cmd, acc_active = True,
            acc_verified = (pending = None), acc_epoch = 1, acc_user = Some u\<rparr>"
      "\<forall>x\<in>set (dvalues (st_accounts (snd w))). acc_identifier x \<noteq> rg_normalized_identifier cmd"
      "ivd \<noteq> None \<Longrightarrow> \<exists>i. find_invitation ivd (snd w) = Some i \<and> now < ti_expires_at i"
      "\<And>p. pending = Some p \<Longrightarrow> \<not> token_id_exists (snd w) (pi_token_id p)"
proof -
  define s where "s = snd w"
  define dup where
    "dup \<longleftrightarrow> (\<exists>a\<in>set (dvalues (st_accounts s)). acc_identifier a = rg_normalized_identifier cmd)"
  define bad where "bad \<longleftrightarrow> ivd \<noteq> None \<and>
    (case find_invitation ivd s of None \<Rightarrow> True | Some i \<Rightarrow> ti_expires_at i \<le> now)"
  define clash where "clash \<longleftrightarrow>
    (case pending of None \<Rightarrow> False | Some p \<Rightarrow> token_id_exists s (pi_token_id p))"
  define made where "made = next_identifier ids ''account'' (fst w)"
  define acct where "acct k = \<lparr>acc_id = k, acc_identifier = rg_normalized_identifier cmd,
    acc_display_name = rg_display_name cmd, acc_active = True,
    acc_verified = (pending = None), acc_epoch = 1, acc_user = Some u\<rparr>" for k
  have unfold: "do_register ids u cmd h ivd pending now w =
      (if dup then (registration Duplicate None, w)
       else if bad then (registration Invalid_Invitation None, w)
       else if clash then (Inl ValueError, w)
       else case made of (Inl e, b) \<Rightarrow> (Inl e, (b, s))
         | (Inr k, b) \<Rightarrow>
             if dget (st_accounts s) k \<noteq> None then (Inl ValueError, (b, s))
             else case account_post_init (acct k) of
               Inl e \<Rightarrow> (Inl e, (b, s))
             | Inr a \<Rightarrow>
                 (case store_verification pending k s of
                    Inl e \<Rightarrow> (Inl e, (b, s))
                  | Inr s1 \<Rightarrow>
                      (registration Created (Some a),
                       (b, registered k a h (find_invitation ivd s) s1))))"
    unfolding do_register_def registered_def Let_def dup_def bad_def clash_def made_def acct_def
      s_def by (rule refl)
  show thesis
  proof (cases "dup \<or> bad \<or> clash")
    case True
    then have "\<exists>r. do_register ids u cmd h ivd pending now w = (r, w) \<and>
        (\<forall>oc. r = Inr oc \<longrightarrow> ro_status oc \<noteq> Created)"
      unfolding unfold by (cases dup; cases bad) simp_all
    then show thesis
      using same [of _ "fst w"] by auto
  next
    case ok: False
    show thesis
    proof (cases "fst made")
      case (Inl e)
      then have "do_register ids u cmd h ivd pending now w = (Inl e, (snd made, snd w))"
        using ok unfolding unfold s_def by (cases made) simp
      then show thesis by (rule same) simp
    next
      case (Inr k)
      then obtain mb where m: "made = (Inr k, mb)" by (cases made) simp
      show thesis
      proof (cases "dget (st_accounts s) k = None \<and> account_post_init (acct k) = Inr (acct k)
          \<and> \<not> isl (store_verification pending k s)")
        case True
        then obtain s1 where s1: "store_verification pending k s = Inr s1"
          by (cases "store_verification pending k s") auto
        show thesis
        proof (rule created)
          show "do_register ids u cmd h ivd pending now w =
              (Inr \<lparr>ro_status = Created, ro_account = Some (acct k)\<rparr>,
               (mb, registered k (acct k) h (find_invitation ivd (snd w)) s1))"
            using ok True s1 m unfolding unfold s_def [symmetric]
            by (simp add: m)
          show "store_verification pending k (snd w) = Inr s1" using s1 by (simp add: s_def)
          show "dget (st_accounts (snd w)) k = None" using True by (simp add: s_def)
          show "valid_account (acct k)" using True by (simp add: account_post_init_Inr_valid)
          show "\<forall>x\<in>set (dvalues (st_accounts (snd w))).
              acc_identifier x \<noteq> rg_normalized_identifier cmd"
            using ok by (auto simp: dup_def s_def)
          show "\<exists>i. find_invitation ivd (snd w) = Some i \<and> now < ti_expires_at i" if "ivd \<noteq> None"
            using ok that by (auto simp: bad_def s_def split: option.splits)
          show "\<not> token_id_exists (snd w) (pi_token_id p)" if "pending = Some p" for p
            using ok that by (simp add: clash_def s_def)
        qed (simp add: acct_def)
      next
        case False
        have "account_post_init (acct k) = Inr a \<Longrightarrow> a = acct k" for a
          by (simp add: account_post_init_Inr_valid)
        then have "\<exists>e. do_register ids u cmd h ivd pending now w = (Inl e, (mb, s))"
          using ok False unfolding unfold
          by (auto simp: m split: sum.splits)
        then show thesis using same [of _ mb] by (auto simp: s_def)
      qed
    qed
  qed
qed

lemma find_invitation_Some:
  assumes "tokens_ok s" "find_invitation ivd s = Some i"
  shows "dget (st_tokens s) (ti_token_id i) = Some i" and "ti_purpose i = Invitation"
    and "Some (ti_digest i) = ivd"
proof -
  obtain d where d: "ivd = Some d" and f: "find_value (\<lambda>i. ti_purpose i = Invitation \<and> ti_digest i = d)
      (st_tokens s) = Some i"
    using assms(2) by (auto simp: find_invitation_def split: option.splits)
  have "i \<in> set (dvalues (st_tokens s))" "ti_purpose i = Invitation" "ti_digest i = d"
    using find_value_Some [OF f] by auto
  then show "dget (st_tokens s) (ti_token_id i) = Some i" "ti_purpose i = Invitation"
    "Some (ti_digest i) = ivd"
    using mem_dvalues_iff [OF tokens_ok_dicts(1) [OF assms(1)], of i] tokens_okD(1) [OF assms(1)] d
    by auto
qed

lemma store_verification_Inr:
  assumes ok: "account_side s" and v: "store_verification pending k s = Inr s1"
    and new: "\<And>p. pending = Some p \<Longrightarrow> \<not> token_id_exists s (pi_token_id p)"
  shows "account_side s1" and "\<exists>t. s1 = s\<lparr>st_tokens := t\<rparr> \<and>
    (\<forall>x i. dget (st_tokens s) x = Some i \<longrightarrow> dget t x = Some i)"
proof -
  have "account_side s1 \<and> (\<exists>t. s1 = s\<lparr>st_tokens := t\<rparr> \<and>
      (\<forall>x i. dget (st_tokens s) x = Some i \<longrightarrow> dget t x = Some i))"
  proof (cases pending)
    case None
    with v ok show ?thesis
      by (auto simp: store_verification_def intro!: exI [of _ "st_tokens s"])
  next
    case (Some p)
    then obtain i where i: "bind_issue p k None = Inr i"
        "s1 = s\<lparr>st_tokens := dset (ti_token_id i) i (st_tokens s)\<rparr>"
      using v by (auto simp: store_verification_def result_simps)
    note made = bind_issue_Inr [OF i(1)]
    have fresh: "\<not> token_id_exists s (ti_token_id i)" using new [OF Some] made(2) by simp
    have "account_side s1"
      using do_issue_ok [OF ok made(1)] fresh i(2) by (simp add: do_issue_def)
    moreover have "\<forall>x j. dget (st_tokens s) x = Some j \<longrightarrow>
        dget (dset (ti_token_id i) i (st_tokens s)) x = Some j"
      using fresh by (auto simp: dict_simps token_id_exists_def)
    ultimately show ?thesis using i(2) by blast
  qed
  then show "account_side s1" "\<exists>t. s1 = s\<lparr>st_tokens := t\<rparr> \<and>
    (\<forall>x i. dget (st_tokens s) x = Some i \<longrightarrow> dget t x = Some i)" by simp_all
qed

lemma registered_ok:
  assumes ok: "account_side s" and new: "dget (st_accounts s) k = None"
    and a: "acc_id a = k" "valid_account a"
    and fresh: "\<forall>b\<in>set (dvalues (st_accounts s)). acc_identifier b \<noteq> acc_identifier a"
    and ivd: "\<And>i. invitation = Some i \<Longrightarrow>
      dget (st_tokens s) (ti_token_id i) = Some i \<and> ti_purpose i = Invitation"
  shows "account_side (registered k a h invitation s)"
proof -
  let ?s2 = "s\<lparr>st_accounts := dset k a (st_accounts s), st_passwords := dset k h (st_passwords s)\<rparr>"
  have "accounts_ok ?s2"
    using accounts_ok_insert [OF _ new a fresh] ok by (simp add: account_side_def)
  moreover have tok: "tokens_ok ?s2 = tokens_ok s" by (rule tokens_ok_cong) simp_all
  ultimately have s2: "account_side ?s2"
    using ok by (simp add: account_side_def)
  show ?thesis
  proof (cases invitation)
    case None
    with s2 show ?thesis by (simp add: registered_def Let_def)
  next
    case (Some i)
    have t2: "tokens_ok ?s2" using s2 by (simp add: account_side_def)
    have "account_side (?s2\<lparr>st_tokens := ddel (ti_token_id i) (st_tokens ?s2),
        st_used := insert (ti_token_id i) (st_used ?s2)\<rparr>)"
      by (rule account_side_tokens [OF s2])
        (rule tokens_ok_retire_invitation [OF t2, of _ i], use ivd [OF Some] in simp_all)
    with Some show ?thesis by (simp add: registered_def Let_def)
  qed
qed

lemma do_register_ok:
  assumes ok: "account_side (snd w)"
  shows "account_side (snd (snd (do_register ids u cmd h ivd pending now w)))"
proof (rule do_register_cases [of ids u cmd h ivd pending now w])
  fix r b assume "do_register ids u cmd h ivd pending now w = (r, (b, snd w))"
  with ok show ?thesis by simp
next
  fix k a b s1
  assume d: "do_register ids u cmd h ivd pending now w =
      (Inr \<lparr>ro_status = Created, ro_account = Some a\<rparr>,
       (b, registered k a h (find_invitation ivd (snd w)) s1))"
    and v: "store_verification pending k (snd w) = Inr s1"
    and n: "dget (st_accounts (snd w)) k = None" "valid_account a"
    and a: "a = \<lparr>acc_id = k, acc_identifier = rg_normalized_identifier cmd,
            acc_display_name = rg_display_name cmd, acc_active = True,
            acc_verified = (pending = None), acc_epoch = 1, acc_user = Some u\<rparr>"
    and f: "\<forall>x\<in>set (dvalues (st_accounts (snd w))). acc_identifier x \<noteq> rg_normalized_identifier cmd"
    and p: "\<And>p. pending = Some p \<Longrightarrow> \<not> token_id_exists (snd w) (pi_token_id p)"
  note s1 = store_verification_Inr [OF ok v p]
  then obtain t where t: "s1 = (snd w)\<lparr>st_tokens := t\<rparr>"
      "\<And>x i. dget (st_tokens (snd w)) x = Some i \<Longrightarrow> dget t x = Some i"
    by blast
  have "dget (st_tokens s1) (ti_token_id i) = Some i \<and> ti_purpose i = Invitation"
    if "find_invitation ivd (snd w) = Some i" for i
    using find_invitation_Some [OF _ that] ok t by (simp add: account_side_def)
  then have "account_side (registered k a h (find_invitation ivd (snd w)) s1)"
    by (intro registered_ok [OF s1(1)]) (use n f t a in simp_all)
  with d show ?thesis by simp
qed

end
