(* ===== verification/Session_Store.thy ===== *)
theory Session_Store
  imports Local_Store
begin

text \<open>
  The native-session registry of \<^verbatim>\<open>InMemoryLocalAccountStore\<close> (\<^verbatim>\<open>testing.py\<close>): creation, lookup,
  listing, touching, the three revocations and the atomic rebind, with the registry invariant and
  the exact effect of each operation. The clock argument is the reading \<^verbatim>\<open>self._clock()\<close> returns.
\<close>

section \<open>Operations\<close>

definition do_create_session ::
  "time session_command \<Rightarrow> 'u local_store \<Rightarrow> time user_session result \<times> 'u local_store" where
  "do_create_session command s =
     (if dget (st_sessions s) (sc_session_id command) \<noteq> None then (Inl ValueError, s)
      else case user_session_post_init (session_of_command command) of
        Inl e \<Rightarrow> (Inl e, s)
      | Inr r \<Rightarrow> (Inr r, s\<lparr>st_sessions := dset (us_session_id r) r (st_sessions s)\<rparr>))"

definition create_session ::
  "time session_command \<Rightarrow> 'u world \<Rightarrow> time user_session result \<times> 'u world" where
  "create_session command =
     observed ''accounts.create_session''
       [(''account_id'', sc_account_id command), (''session_id'', sc_session_id command)]
       (on_store (do_create_session command))"

definition get_session ::
  "py_datetime \<Rightarrow> string \<Rightarrow> 'u local_store \<Rightarrow> time user_session option result" where
  "get_session clock session_id s =
     (case dget (st_sessions s) session_id of
        None \<Rightarrow> Inr None
      | Some r \<Rightarrow> bind (backend_clock clock) (\<lambda>now. Inr (if us_expires_at r > now then Some r else None)))"

definition list_sessions ::
  "py_datetime \<Rightarrow> string \<Rightarrow> 'u local_store \<Rightarrow> time user_session list result" where
  "list_sessions clock account_id s =
     bind (backend_clock clock) (\<lambda>current.
       Inr (filter (\<lambda>r. us_account_id r = account_id \<and> us_expires_at r > current)
              (dvalues (st_sessions s))))"

definition do_touch ::
  "py_datetime \<Rightarrow> string \<Rightarrow> time \<Rightarrow> 'u local_store \<Rightarrow>
     time user_session option result \<times> 'u local_store" where
  "do_touch clock session_id now s =
     (case dget (st_sessions s) session_id of
        None \<Rightarrow> (Inr None, s)
      | Some r \<Rightarrow>
          if us_expires_at r \<le> now then (Inr None, s)
          else case backend_clock clock of
            Inl e \<Rightarrow> (Inl e, s)
          | Inr current \<Rightarrow>
              if us_expires_at r \<le> current then (Inr None, s)
              else case replace_last_seen r (Aware now) of
                Inl e \<Rightarrow> (Inl e, s)
              | Inr updated \<Rightarrow>
                  (Inr (Some updated),
                   s\<lparr>st_sessions := dset session_id updated (st_sessions s)\<rparr>))"

definition touch_session ::
  "py_datetime \<Rightarrow> string \<Rightarrow> time \<Rightarrow> 'u world \<Rightarrow> time user_session option result \<times> 'u world" where
  "touch_session clock session_id now =
     observed ''accounts.touch_session'' [(''session_id'', session_id)]
       (on_store (do_touch clock session_id now))"

definition do_revoke_session ::
  "string \<Rightarrow> string \<Rightarrow> 'u local_store \<Rightarrow> bool result \<times> 'u local_store" where
  "do_revoke_session account_id session_id s =
     (case dget (st_sessions s) session_id of
        None \<Rightarrow> (Inr False, s)
      | Some r \<Rightarrow>
          if us_account_id r \<noteq> account_id then (Inr False, s)
          else (Inr True, s\<lparr>st_sessions := ddel session_id (st_sessions s)\<rparr>))"

definition revoke_session_for_account ::
  "string \<Rightarrow> string \<Rightarrow> 'u world \<Rightarrow> bool result \<times> 'u world" where
  "revoke_session_for_account account_id session_id =
     observed ''accounts.revoke_session''
       [(''account_id'', account_id), (''session_id'', session_id)]
       (on_store (do_revoke_session account_id session_id))"

text \<open>\<^verbatim>\<open>for key in keys: del sessions[key]\<close>, over the keys selected beforehand.\<close>

definition delete_keys :: "'k list \<Rightarrow> ('k, 'v) dict \<Rightarrow> ('k, 'v) dict" where
  "delete_keys keys d = fold AList.delete keys d"

definition do_revoke_sessions ::
  "string \<Rightarrow> 'u local_store \<Rightarrow> nat result \<times> 'u local_store" where
  "do_revoke_sessions account_id s =
     (let session_ids = map fst (filter (\<lambda>(key, r). us_account_id r = account_id) (st_sessions s))
      in (Inr (length session_ids),
          s\<lparr>st_sessions := delete_keys session_ids (st_sessions s)\<rparr>))"

definition revoke_sessions_for_account :: "string \<Rightarrow> 'u world \<Rightarrow> nat result \<times> 'u world" where
  "revoke_sessions_for_account account_id =
     observed ''accounts.revoke_sessions'' [(''account_id'', account_id)]
       (on_store (do_revoke_sessions account_id))"

definition do_revoke_others ::
  "string \<Rightarrow> string \<Rightarrow> 'u local_store \<Rightarrow> nat result \<times> 'u local_store" where
  "do_revoke_others account_id session_id s =
     (let session_ids = map fst (filter (\<lambda>(key, r). us_account_id r = account_id \<and> key \<noteq> session_id)
                                  (st_sessions s))
      in (Inr (length session_ids),
          s\<lparr>st_sessions := delete_keys session_ids (st_sessions s)\<rparr>))"

definition revoke_other_sessions :: "string \<Rightarrow> string \<Rightarrow> 'u world \<Rightarrow> nat result \<times> 'u world" where
  "revoke_other_sessions account_id session_id =
     observed ''accounts.revoke_other_sessions''
       [(''account_id'', account_id), (''session_id'', session_id)]
       (on_store (do_revoke_others account_id session_id))"

definition do_rebind ::
  "string \<Rightarrow> time session_command \<Rightarrow> 'u local_store \<Rightarrow>
     time user_session option result \<times> 'u local_store" where
  "do_rebind prior_session_id command s =
     (if dget (st_sessions s) prior_session_id = None then (Inr None, s)
      else if dget (st_sessions s) (sc_session_id command) \<noteq> None then (Inl ValueError, s)
      else
        let s1 = s\<lparr>st_sessions := ddel prior_session_id (st_sessions s)\<rparr>
        in case user_session_post_init (session_of_command command) of
             Inl e \<Rightarrow> (Inl e, s1)
           | Inr r \<Rightarrow>
               (Inr (Some r), s1\<lparr>st_sessions := dset (us_session_id r) r (st_sessions s1)\<rparr>))"

definition rebind_session ::
  "string \<Rightarrow> time session_command \<Rightarrow> 'u world \<Rightarrow> time user_session option result \<times> 'u world" where
  "rebind_session prior_session_id command =
     observed ''accounts.rebind_session''
       [(''prior_session_id'', prior_session_id), (''session_id'', sc_session_id command)]
       (on_store (do_rebind prior_session_id command))"

section \<open>The registry as a map\<close>

text \<open>
  The abstract registry: session id to record. The invariant says that records are valid and
  stored under their own id; the equations give the effect of each body on the map.
\<close>

definition registry :: "'u local_store \<Rightarrow> string \<Rightarrow> time user_session option" where
  "registry s = dget (st_sessions s)"

definition sessions_ok :: "'u local_store \<Rightarrow> bool" where
  "sessions_ok s \<longleftrightarrow>
     dict_ok (st_sessions s) \<and>
     (\<forall>k r. registry s k = Some r \<longrightarrow> us_session_id r = k \<and> valid_session r)"

lemma sessions_ok_cong: "st_sessions s = st_sessions t \<Longrightarrow> sessions_ok s = sessions_ok t"
  by (simp add: sessions_ok_def registry_def)

lemma sessions_okD:
  assumes "sessions_ok s" and "registry s k = Some r"
  shows "us_session_id r = k" and "valid_session r"
  using assms by (auto simp: sessions_ok_def)

lemma dget_delete_keys: "dget (delete_keys ks d) x = (if x \<in> set ks then None else dget d x)"
  by (induction ks arbitrary: d) (auto simp: delete_keys_def dict_simps)

lemma dict_ok_delete_keys [simp]: "dict_ok d \<Longrightarrow> dict_ok (delete_keys ks d)"
  by (induction ks arbitrary: d) (simp_all add: delete_keys_def)

lemma selected_keys:
  assumes "dict_ok d"
  shows "x \<in> set (map fst (filter (\<lambda>(k, r). P k r) d)) \<longleftrightarrow> (\<exists>r. dget d x = Some r \<and> P x r)"
  using mem_dict_iff [OF assms] by force

lemma registry_create:
  assumes "valid_command c"
  shows "do_create_session c s =
    (if registry s (sc_session_id c) \<noteq> None then (Inl ValueError, s)
     else (Inr (new_session c),
           s\<lparr>st_sessions := dset (sc_session_id c) (new_session c) (st_sessions s)\<rparr>))"
  using session_of_command_valid [OF assms] by (simp add: do_create_session_def registry_def)

lemma registry_revoke_sessions:
  assumes "dict_ok (st_sessions s)"
  shows "registry (snd (do_revoke_sessions a s)) x =
    (case registry s x of None \<Rightarrow> None | Some r \<Rightarrow> if us_account_id r = a then None else Some r)"
  using selected_keys [OF assms, of x "\<lambda>_ r. us_account_id r = a"]
  by (auto simp: do_revoke_sessions_def registry_def Let_def dget_delete_keys split: option.splits)

lemma registry_revoke_others:
  assumes "dict_ok (st_sessions s)"
  shows "registry (snd (do_revoke_others a k s)) x =
    (case registry s x of
       None \<Rightarrow> None | Some r \<Rightarrow> if us_account_id r = a \<and> x \<noteq> k then None else Some r)"
  using selected_keys [OF assms, of x "\<lambda>key r. us_account_id r = a \<and> key \<noteq> k"]
  by (auto simp: do_revoke_others_def registry_def Let_def dget_delete_keys split: option.splits)

lemma registry_rebind:
  assumes "valid_command c"
  shows "do_rebind p c s =
    (if registry s p = None then (Inr None, s)
     else if registry s (sc_session_id c) \<noteq> None then (Inl ValueError, s)
     else (Inr (Some (new_session c)),
           s\<lparr>st_sessions := dset (sc_session_id c) (new_session c)
              (ddel p (st_sessions s))\<rparr>))"
  using session_of_command_valid [OF assms] by (simp add: do_rebind_def registry_def)

section \<open>The invariant\<close>

lemma sessions_ok_empty: "sessions_ok empty_store"
  by (simp add: sessions_ok_def registry_def empty_store_def)

lemma sessions_ok_set:
  "sessions_ok s \<Longrightarrow> us_session_id r = k \<Longrightarrow> valid_session r \<Longrightarrow>
     sessions_ok (s\<lparr>st_sessions := dset k r (st_sessions s)\<rparr>)"
  by (simp add: sessions_ok_def registry_def dict_simps)

lemma sessions_ok_del:
  "sessions_ok s \<Longrightarrow> sessions_ok (s\<lparr>st_sessions := ddel k (st_sessions s)\<rparr>)"
  by (simp add: sessions_ok_def registry_def dict_simps)

lemma sessions_ok_delete_keys:
  "sessions_ok s \<Longrightarrow> sessions_ok (s\<lparr>st_sessions := delete_keys ks (st_sessions s)\<rparr>)"
  by (simp add: sessions_ok_def registry_def dget_delete_keys)

lemma do_create_session_ok:
  assumes "sessions_ok s"
  shows "sessions_ok (snd (do_create_session c s))"
proof (cases "user_session_post_init (session_of_command c)")
  case (Inl e)
  with assms show ?thesis by (simp add: do_create_session_def)
next
  case (Inr r)
  with assms show ?thesis
    using user_session_post_init_valid [OF Inr]
    by (simp add: do_create_session_def sessions_ok_set)
qed

lemma replace_last_seen_Inr:
  "replace_last_seen r now = Inr r' \<Longrightarrow> us_session_id r' = us_session_id r \<and> valid_session r'"
  unfolding replace_last_seen_def
  by (frule user_session_post_init_valid, drule user_session_post_init_id) simp

lemma do_touch_ok:
  assumes ok: "sessions_ok s"
  shows "sessions_ok (snd (do_touch clock k now s))"
proof (cases "registry s k")
  case None
  with ok show ?thesis by (simp add: do_touch_def registry_def)
next
  case (Some r)
  then have "sessions_ok (s\<lparr>st_sessions := dset k r' (st_sessions s)\<rparr>)"
    if "replace_last_seen r (Aware now) = Inr r'" for r'
    using replace_last_seen_Inr [OF that] sessions_okD(1) [OF ok Some] ok
    by (simp add: sessions_ok_set)
  with ok Some show ?thesis
    by (simp add: do_touch_def registry_def split: sum.splits)
qed

lemma do_revoke_session_ok:
  "sessions_ok s \<Longrightarrow> sessions_ok (snd (do_revoke_session a k s))"
  by (simp add: do_revoke_session_def sessions_ok_del split: option.splits)

lemma do_revoke_sessions_ok:
  "sessions_ok s \<Longrightarrow> sessions_ok (snd (do_revoke_sessions a s))"
  by (simp add: do_revoke_sessions_def Let_def sessions_ok_delete_keys)

lemma do_revoke_others_ok:
  "sessions_ok s \<Longrightarrow> sessions_ok (snd (do_revoke_others a k s))"
  by (simp add: do_revoke_others_def Let_def sessions_ok_delete_keys)

lemma do_rebind_ok:
  assumes ok: "sessions_ok s"
  shows "sessions_ok (snd (do_rebind p c s))"
proof (cases "user_session_post_init (session_of_command c)")
  case (Inl e)
  with ok show ?thesis by (simp add: do_rebind_def Let_def sessions_ok_del)
next
  case (Inr r)
  have "sessions_ok (s\<lparr>st_sessions := dset (us_session_id r) r (ddel p (st_sessions s))\<rparr>)"
    using sessions_ok_set [OF sessions_ok_del [OF ok, of p] refl
        user_session_post_init_valid [OF Inr]]
    by simp
  with Inr ok show ?thesis by (simp add: do_rebind_def Let_def)
qed

section \<open>Properties\<close>

text \<open>The registry never hands out an expired record, whatever is asked of it: \<open>get\<close>, \<open>touch\<close>
  and \<open>list_for_account\<close> return only records that outlive the clock, under the id, respectively
  for the account, that was named, and \<open>touch\<close> refuses (with no state change) a record that a
  caller's later instant has already passed.\<close>

theorem registry_returns_live_sessions:
  assumes "sessions_ok s"
  shows "(\<forall>r. get_session (Aware now) k s = Inr (Some r) \<longrightarrow>
            us_session_id r = k \<and> now < us_expires_at r) \<and>
         (\<forall>rs. list_sessions (Aware now) a s = Inr rs \<longrightarrow>
            (\<forall>r\<in>set rs. us_account_id r = a \<and> now < us_expires_at r)) \<and>
         (\<forall>r at s'. do_touch (Aware now) k at s = (Inr (Some r), s') \<longrightarrow>
            us_session_id r = k \<and> max now at < us_expires_at r \<and> us_last_seen_at r = at) \<and>
         (\<forall>r. registry s k = Some r \<longrightarrow> us_expires_at r \<le> now \<longrightarrow>
            get_session (Aware now) k s = Inr None \<and>
            do_touch (Aware now) k now s = (Inr None, s))"
proof (intro conjI allI impI)
  fix r assume "get_session (Aware now) k s = Inr (Some r)"
  then show "us_session_id r = k" "now < us_expires_at r"
    using sessions_okD [OF assms, of k]
    by (auto simp: get_session_def backend_clock_def registry_def split: option.splits if_splits)
next
  fix rs assume "list_sessions (Aware now) a s = Inr rs"
  then show "\<forall>r\<in>set rs. us_account_id r = a \<and> now < us_expires_at r"
    by (auto simp: list_sessions_def backend_clock_def)
next
  fix r at s' assume t: "do_touch (Aware now) k at s = (Inr (Some r), s')"
  then obtain q where q: "registry s k = Some q"
    by (auto simp: do_touch_def registry_def split: option.splits)
  with t have r: "replace_last_seen q (Aware at) = Inr r" "at < us_expires_at q"
    "now < us_expires_at q"
    by (auto simp: do_touch_def registry_def backend_clock_def split: if_splits sum.splits)
  have v: "valid_session q" "us_session_id q = k"
    using sessions_okD [OF assms q] by simp_all
  have "r = q\<lparr>us_last_seen_at := at\<rparr>"
    using r(1) by (simp add: replace_last_seen_iff [OF v(1)] split: if_splits)
  with v r(2,3) show "us_session_id r = k" "max now at < us_expires_at r" "us_last_seen_at r = at"
    by simp_all
next
  fix r assume "registry s k = Some r" "us_expires_at r \<le> now"
  then show "get_session (Aware now) k s = Inr None" "do_touch (Aware now) k now s = (Inr None, s)"
    by (simp_all add: get_session_def do_touch_def backend_clock_def registry_def)
qed

text \<open>Rebinding is atomic and defeats session fixation: given a constructed command, either the
  prior session is already gone and nothing changes, or the successor id is taken, the call raises
  and nothing changes, or the prior session is gone, the successor is the command's and every other
  session is as it was. No outcome leaves both or neither.\<close>

theorem rebind_is_atomic:
  assumes "session_command_post_init raw = Inr c" and "sessions_ok s"
  shows "case do_rebind prior c s of
      (Inr None, s') \<Rightarrow> s' = s \<and> registry s prior = None
    | (Inl e, s') \<Rightarrow> s' = s \<and> e = ValueError \<and> registry s prior \<noteq> None \<and>
        registry s (sc_session_id c) \<noteq> None
    | (Inr (Some r), s') \<Rightarrow>
        r = new_session c \<and> registry s prior \<noteq> None \<and> registry s' prior = None \<and>
        registry s' (sc_session_id c) = Some r \<and> valid_session r \<and>
        (\<forall>k. k \<noteq> prior \<longrightarrow> k \<noteq> sc_session_id c \<longrightarrow> registry s' k = registry s k)"
proof -
  have c: "valid_command c"
    using assms(1) by (rule session_command_post_init_valid)
  show ?thesis
    by (auto simp: registry_rebind [OF c] new_session_valid [OF c])
      (auto simp: registry_def dict_simps)
qed

text \<open>Revoking an account's sessions leaves it none, touches nobody else's, and reports exactly
  how many went; keeping the current one spares exactly that session; and a session is revoked by
  id only for its owner.\<close>

theorem session_revocation_exact:
  assumes "sessions_ok s"
  shows "(let s' = snd (do_revoke_sessions a s)
          in (\<forall>k r. registry s' k = Some r \<longleftrightarrow> registry s k = Some r \<and> us_account_id r \<noteq> a) \<and>
             fst (do_revoke_sessions a s) =
               Inr (card {k. \<exists>r. registry s k = Some r \<and> us_account_id r = a})) \<and>
         (let s' = snd (do_revoke_others a keep s)
          in (\<forall>k r. registry s' k = Some r \<longleftrightarrow>
                registry s k = Some r \<and> (us_account_id r \<noteq> a \<or> k = keep)) \<and>
             fst (do_revoke_others a keep s) =
               Inr (card {k. k \<noteq> keep \<and> (\<exists>r. registry s k = Some r \<and> us_account_id r = a)})) \<and>
         (fst (do_revoke_session a keep s) = Inr True \<longleftrightarrow>
            (\<exists>r. registry s keep = Some r \<and> us_account_id r = a)) \<and>
         (fst (do_revoke_session a keep s) = Inr True \<longrightarrow>
            registry (snd (do_revoke_session a keep s)) = (registry s)(keep := None)) \<and>
         (fst (do_revoke_session a keep s) \<noteq> Inr True \<longrightarrow>
            do_revoke_session a keep s = (Inr False, s))"
proof -
  have d: "dict_ok (st_sessions s)"
    using assms by (simp add: sessions_ok_def)
  have card: "length (map fst (filter (\<lambda>(k, r). P k r) (st_sessions s))) =
      card {k. \<exists>r. registry s k = Some r \<and> P k r}" for P
  proof -
    have "distinct (map fst (filter (\<lambda>(k, r). P k r) (st_sessions s)))"
      using dict_ok_filter [OF d] by (simp add: dict_ok_def)
    moreover have "set (map fst (filter (\<lambda>(k, r). P k r) (st_sessions s))) =
        {k. \<exists>r. registry s k = Some r \<and> P k r}"
      using selected_keys [OF d, of _ P] by (auto simp: registry_def)
    ultimately show ?thesis
      by (metis distinct_card)
  qed
  have all: "\<forall>k r. registry (snd (do_revoke_sessions a s)) k = Some r \<longleftrightarrow>
      registry s k = Some r \<and> us_account_id r \<noteq> a"
    by (auto simp: registry_revoke_sessions [OF d] split: option.splits)
  have others: "\<forall>k r. registry (snd (do_revoke_others a keep s)) k = Some r \<longleftrightarrow>
      registry s k = Some r \<and> (us_account_id r \<noteq> a \<or> k = keep)"
    by (auto simp: registry_revoke_others [OF d] split: option.splits)
  have counts: "fst (do_revoke_sessions a s) =
      Inr (card {k. \<exists>r. registry s k = Some r \<and> us_account_id r = a})"
    "fst (do_revoke_others a keep s) =
      Inr (card {k. k \<noteq> keep \<and> (\<exists>r. registry s k = Some r \<and> us_account_id r = a)})"
    using card [of "\<lambda>_ r. us_account_id r = a"]
      card [of "\<lambda>k r. us_account_id r = a \<and> k \<noteq> keep"]
    by (simp_all add: do_revoke_sessions_def do_revoke_others_def Let_def conj_ac)
  show ?thesis
    using all others counts
    by (auto simp: Let_def do_revoke_session_def registry_def delete_conv' split: option.splits)
qed

section \<open>The properties on one registry\<close>

definition example_session_command :: "8 word \<Rightarrow> string \<Rightarrow> 't \<Rightarrow> 't \<Rightarrow> 't session_command" where
  "example_session_command n a created expires =
     \<lparr>sc_session_id = encode_random (replicate 32 n),
      sc_binding_id = ''sb_'' @ encode_random (replicate 16 n),
      sc_binding_digest = replicate 32 n, sc_account_id = a, sc_security_epoch = 1,
      sc_created_at = created, sc_authenticated_at = created, sc_expires_at = expires,
      sc_display_metadata = []\<rparr>"

definition example_registry :: "unit local_store" where
  "example_registry = empty_store\<lparr>st_sessions :=
     [(encode_random (replicate 32 1), new_session (example_session_command 1 ''u1'' 0 10)),
      (encode_random (replicate 32 2), new_session (example_session_command 2 ''u1'' 0 10))]\<rparr>"

lemma example_session_command_valid:
  "session_command_post_init (example_session_command n ''u1'' (Aware 0) (Aware 10)) =
     Inr (example_session_command n ''u1'' 0 10)"
proof -
  have "valid_identifier None (encode_random (replicate 32 n))"
    using strict_text_append_encoded [of "replicate 32 n" "[]"]
    by (auto simp: valid_identifier_def decode_random_iff session_id_bytes_def
        intro!: exI [of _ "replicate 32 n"])
  moreover have "valid_identifier (Some session_binding_prefix) (''sb_'' @ encode_random (replicate 16 n))"
    unfolding valid_identifier_prefix_iff session_binding_prefix_def
    by (rule exI [of _ "replicate 16 n"]) (simp add: lookup_bytes_def)
  moreover have "strict_text ''u1''" by code_simp
  ultimately show ?thesis
    by (simp add: session_command_post_init_def example_session_command_def digest_bytes_def
        freeze_display_metadata_def valid_security_epoch_def maximum_security_epoch_def)
qed

lemma example_registry_ok: "sessions_ok example_registry"
proof -
  have "valid_session (new_session (example_session_command n ''u1'' 0 10))" for n
    using new_session_valid session_command_post_init_valid [OF example_session_command_valid] .
  then show ?thesis
    by (simp add: sessions_ok_def registry_def example_registry_def dict_ok_def encode_random_inject)
      (simp add: example_session_command_def)
qed

theorem registry_returns_live_sessions_witness:
  "get_session (Aware 10) (encode_random (replicate 32 1)) example_registry = Inr None"
  using registry_returns_live_sessions [OF example_registry_ok, of 10 "encode_random (replicate 32 1)"]
  by (simp add: registry_def example_registry_def) (simp add: example_session_command_def)

theorem rebind_is_atomic_witness:
  "registry (snd (do_rebind (encode_random (replicate 32 1)) (example_session_command 3 ''u1'' 0 10)
     example_registry)) (encode_random (replicate 32 1)) = None"
proof -
  let ?r = "do_rebind (encode_random (replicate 32 1)) (example_session_command 3 ''u1'' 0 10)
    example_registry"
  have "registry example_registry (encode_random (replicate 32 1)) \<noteq> None"
    "registry example_registry (sc_session_id (example_session_command 3 ''u1'' (0::time) (10::time))) = None"
    by (simp_all add: registry_def example_registry_def encode_random_inject
        example_session_command_def)
  then show ?thesis
    using rebind_is_atomic [OF example_session_command_valid [of 3] example_registry_ok,
        of "encode_random (replicate 32 1)"]
    by (auto split: prod.splits sum.splits option.splits)
qed

theorem session_revocation_exact_witness:
  "registry (snd (do_revoke_others ''u1'' (encode_random (replicate 32 1)) example_registry))
     (encode_random (replicate 32 2)) = None"
proof -
  have "us_account_id r = ''u1''" if "registry example_registry k = Some r" for k r
    using that by (auto simp: registry_def example_registry_def example_session_command_def
        split: if_splits)
  then have "registry (snd (do_revoke_others ''u1'' (encode_random (replicate 32 1)) example_registry))
      (encode_random (replicate 32 2)) \<noteq> Some r" for r
    using session_revocation_exact [OF example_registry_ok, of "''u1''" "encode_random (replicate 32 1)"]
    by (auto simp: Let_def encode_random_inject)
  then show ?thesis by (metis not_None_eq)
qed

end
