(* ===== verification/Refresh_Store.thy ===== *)
theory Refresh_Store
  imports Local_Store
begin

text \<open>
  The refresh-token half of \<^verbatim>\<open>InMemoryLocalAccountStore\<close> (\<^verbatim>\<open>testing.py\<close>), the reference
  implementation of \<^verbatim>\<open>RefreshTokenFamilyStore\<close> (\<^verbatim>\<open>accounts/_refresh.py\<close>): family creation, the
  preflight, the atomic rotation and the four revocations.

  The invariant: tokens are keyed by id; the tokens of a family share account, epoch and revoked
  flag; a token carries a sealed receipt exactly when it is consumed; and a family has at most one
  live token, unconsumed and unrevoked.
\<close>

section \<open>Operations\<close>

definition do_create_family ::
  "time create_family_command \<Rightarrow> 'u local_store \<Rightarrow> bool result \<times> 'u local_store" where
  "do_create_family c s =
     (let account = dget (st_accounts s) (cf_account_id c)
      in if (case account of None \<Rightarrow> True | Some a \<Rightarrow> acc_epoch a \<noteq> cf_security_epoch c) \<or>
            dget (st_refresh s) (cf_token_id c) \<noteq> None \<or>
            (\<exists>t\<in>set (dvalues (st_refresh s)). rs_family_id t = cf_family_id c)
         then (Inr False, s)
         else (Inr True, s\<lparr>st_refresh := dset (cf_token_id c)
                 \<lparr>rs_token_id = cf_token_id c, rs_token_digest = cf_token_digest c,
                  rs_account_id = cf_account_id c, rs_family_id = cf_family_id c,
                  rs_security_epoch = cf_security_epoch c,
                  rs_token_expires_at = cf_token_expires_at c,
                  rs_family_expires_at = cf_family_expires_at c, rs_scopes = cf_scopes c,
                  rs_consumed = False, rs_revoked = False, rs_idempotency_digest = None,
                  rs_sealed_receipt = None\<rparr> (st_refresh s)\<rparr>))"

definition create_family ::
  "time create_family_command \<Rightarrow> 'u world \<Rightarrow> bool result \<times> 'u world" where
  "create_family c =
     observed ''accounts.create_refresh_family''
       [(''account_id'', cf_account_id c), (''family_id'', cf_family_id c),
        (''token_id'', cf_token_id c)]
       (on_store (do_create_family c))"

definition refresh_context :: "refresh_state \<Rightarrow> time family_context result" where
  "refresh_context t =
     family_context_post_init
       \<lparr>fc_account_id = rs_account_id t, fc_family_id = rs_family_id t,
        fc_security_epoch = rs_security_epoch t,
        fc_token_expires_at = Aware (rs_token_expires_at t),
        fc_family_expires_at = Aware (rs_family_expires_at t), fc_scopes = rs_scopes t,
        fc_evidence = None\<rparr>"

definition revoke_family_locked :: "string \<Rightarrow> 'u local_store \<Rightarrow> bool \<times> 'u local_store" where
  "revoke_family_locked family_id s =
     (let states = filter (\<lambda>t. rs_family_id t = family_id) (dvalues (st_refresh s))
      in if states = [] \<or> list_all rs_revoked states then (False, s)
         else (True, s\<lparr>st_refresh :=
                 map (\<lambda>(k, t). (k, if rs_family_id t = family_id then t\<lparr>rs_revoked := True\<rparr> else t))
                   (st_refresh s)\<rparr>))"

definition do_prepare_rotation ::
  "token_proof \<Rightarrow> bytes option \<Rightarrow> time \<Rightarrow> 'u local_store \<Rightarrow> prepared result \<times> 'u local_store" where
  "do_prepare_rotation presented idempotency_digest now s =
     (case dget (st_refresh s) (tp_token_id presented) of
        None \<Rightarrow> (preflight Invalid False, s)
      | Some t \<Rightarrow>
          if rs_token_digest t \<noteq> tp_digest presented then (preflight Invalid False, s)
          else if rs_revoked t then (preflight Revoked True, s)
          else if rs_consumed t then
            (case rs_sealed_receipt t of
               Some receipt \<Rightarrow>
                 if rs_idempotency_digest t = idempotency_digest then
                   (bind (refresh_context t) (\<lambda>c.
                    bind (receipt_replay_post_init
                            \<lparr>rx_context = c, rx_sealed_receipt = receipt\<rparr>) (\<lambda>r.
                    Inr (Replay r))), s)
                 else (preflight Replay_Detected True, snd (revoke_family_locked (rs_family_id t) s))
             | None \<Rightarrow>
                 (preflight Replay_Detected True, snd (revoke_family_locked (rs_family_id t) s)))
          else if rs_token_expires_at t \<le> now \<or> rs_family_expires_at t \<le> now
          then (preflight Expired False, s)
          else if (case dget (st_accounts s) (rs_account_id t) of
                     None \<Rightarrow> True
                   | Some a \<Rightarrow> acc_epoch a \<noteq> rs_security_epoch t)
          then (preflight Epoch_Mismatch False, s)
          else (bind (refresh_context t) (\<lambda>c. Inr (Active c)), s))"

definition prepare_rotation ::
  "token_proof \<Rightarrow> bytes option \<Rightarrow> time \<Rightarrow> 'u world \<Rightarrow> prepared result \<times> 'u world" where
  "prepare_rotation presented idempotency_digest now =
     observed ''accounts.prepare_refresh_rotation'' [(''token_id'', tp_token_id presented)]
       (on_store (do_prepare_rotation presented idempotency_digest now))"

text \<open>The guard of \<^verbatim>\<open>rotate\<close>: the presented command still matches the stored token and account.\<close>

definition rotation_stale :: "time rotate_command \<Rightarrow> 'u local_store \<Rightarrow> bool" where
  "rotation_stale c s =
     (case (dget (st_refresh s) (rc_token_id c), dget (st_accounts s) (rc_account_id c)) of
        (Some t, Some a) \<Rightarrow>
          rs_consumed t \<or> rs_revoked t \<or> rs_token_digest t \<noteq> rc_token_digest c \<or>
          rs_account_id t \<noteq> rc_account_id c \<or> rs_family_id t \<noteq> rc_family_id c \<or>
          rs_security_epoch t \<noteq> rc_security_epoch c \<or> acc_epoch a \<noteq> rc_security_epoch c \<or>
          dget (st_refresh s) (rc_successor_id c) \<noteq> None
      | _ \<Rightarrow> True)"

definition consumed_state :: "time rotate_command \<Rightarrow> refresh_state \<Rightarrow> refresh_state" where
  "consumed_state c t =
     t\<lparr>rs_consumed := True, rs_idempotency_digest := rc_idempotency_digest c,
       rs_sealed_receipt := Some (rc_sealed_receipt c)\<rparr>"

definition successor_state :: "time rotate_command \<Rightarrow> refresh_state" where
  "successor_state c =
     \<lparr>rs_token_id = rc_successor_id c, rs_token_digest = rc_successor_digest c,
      rs_account_id = rc_account_id c, rs_family_id = rc_family_id c,
      rs_security_epoch = rc_security_epoch c,
      rs_token_expires_at = rc_successor_expires_at c,
      rs_family_expires_at = rc_family_expires_at c, rs_scopes = rc_scopes c,
      rs_consumed = False, rs_revoked = False, rs_idempotency_digest = None,
      rs_sealed_receipt = None\<rparr>"

definition do_rotate ::
  "time rotate_command \<Rightarrow> time \<Rightarrow> 'u local_store \<Rightarrow> rotation_outcome result \<times> 'u local_store" where
  "do_rotate c now s =
     (if rotation_stale c s then (rotation Invalid None, s)
      else case dget (st_refresh s) (rc_token_id c) of
        None \<Rightarrow> (rotation Invalid None, s)
      | Some t \<Rightarrow>
          if rs_token_expires_at t \<le> now \<or> rs_family_expires_at t \<le> now
          then (rotation Expired None, s)
          else
            (rotation Rotated (Some (rc_sealed_receipt c)),
             s\<lparr>st_refresh := dset (rc_successor_id c) (successor_state c)
                 (dset (rc_token_id c) (consumed_state c t) (st_refresh s))\<rparr>))"

definition rotate_refresh ::
  "time rotate_command \<Rightarrow> time \<Rightarrow> 'u world \<Rightarrow> rotation_outcome result \<times> 'u world" where
  "rotate_refresh c now =
     observed ''accounts.rotate_refresh''
       [(''family_id'', rc_family_id c), (''token_id'', rc_token_id c)]
       (on_store (do_rotate c now))"

definition do_revoke_family :: "string \<Rightarrow> 'u local_store \<Rightarrow> bool result \<times> 'u local_store" where
  "do_revoke_family family_id s =
     (case revoke_family_locked family_id s of (r, s') \<Rightarrow> (Inr r, s'))"

definition revoke_family :: "string \<Rightarrow> 'u world \<Rightarrow> bool result \<times> 'u world" where
  "revoke_family family_id =
     observed ''accounts.revoke_refresh_family'' [(''family_id'', family_id)]
       (on_store (do_revoke_family family_id))"

definition do_revoke_token ::
  "string \<Rightarrow> bytes \<Rightarrow> 'u local_store \<Rightarrow> bool result \<times> 'u local_store" where
  "do_revoke_token token_id digest s =
     (case dget (st_refresh s) token_id of
        None \<Rightarrow> (Inr False, s)
      | Some t \<Rightarrow>
          if rs_token_digest t = digest then do_revoke_family (rs_family_id t) s
          else (Inr False, s))"

definition revoke_token :: "string \<Rightarrow> bytes \<Rightarrow> 'u world \<Rightarrow> bool result \<times> 'u world" where
  "revoke_token token_id digest =
     observed ''accounts.revoke_refresh_token'' [(''token_id'', token_id)]
       (on_store (do_revoke_token token_id digest))"

definition do_revoke_token_for_account ::
  "string \<Rightarrow> string \<Rightarrow> bytes \<Rightarrow> 'u local_store \<Rightarrow> bool result \<times> 'u local_store" where
  "do_revoke_token_for_account account_id token_id digest s =
     (case dget (st_refresh s) token_id of
        None \<Rightarrow> (Inr False, s)
      | Some t \<Rightarrow>
          if rs_account_id t = account_id \<and> rs_token_digest t = digest
          then do_revoke_family (rs_family_id t) s
          else (Inr False, s))"

definition revoke_token_for_account ::
  "string \<Rightarrow> string \<Rightarrow> bytes \<Rightarrow> 'u world \<Rightarrow> bool result \<times> 'u world" where
  "revoke_token_for_account account_id token_id digest =
     observed ''accounts.revoke_refresh_token''
       [(''account_id'', account_id), (''token_id'', token_id)]
       (on_store (do_revoke_token_for_account account_id token_id digest))"

text \<open>
  The families of an account, each revoked in turn; Python walks them in set order, and the
  families are disjoint, so the count and the state left do not depend on it.
\<close>

fun revoke_families :: "string list \<Rightarrow> 'u local_store \<Rightarrow> nat \<times> 'u local_store" where
  "revoke_families [] s = (0, s)"
| "revoke_families (f # fs) s =
     (case revoke_family_locked f s of
        (r, s1) \<Rightarrow> (case revoke_families fs s1 of (n, s2) \<Rightarrow> (if r then n + 1 else n, s2)))"

definition do_revoke_for_account :: "string \<Rightarrow> 'u local_store \<Rightarrow> nat result \<times> 'u local_store" where
  "do_revoke_for_account account_id s =
     (let family_ids = remdups (map rs_family_id
            (filter (\<lambda>t. rs_account_id t = account_id) (dvalues (st_refresh s))))
      in case revoke_families family_ids s of (n, s') \<Rightarrow> (Inr n, s'))"

definition revoke_for_account :: "string \<Rightarrow> 'u world \<Rightarrow> nat result \<times> 'u world" where
  "revoke_for_account account_id =
     observed ''accounts.revoke_refresh_for_account'' [(''account_id'', account_id)]
       (on_store (do_revoke_for_account account_id))"

section \<open>Tokens and families\<close>

definition token_state :: "'u local_store \<Rightarrow> string \<Rightarrow> refresh_state option" where
  "token_state s k = dget (st_refresh s) k"

definition live_token :: "refresh_state \<Rightarrow> bool" where
  "live_token t \<longleftrightarrow> \<not> rs_consumed t \<and> \<not> rs_revoked t"

definition valid_state :: "refresh_state \<Rightarrow> bool" where
  "valid_state t \<longleftrightarrow>
     strict_context_text (rs_account_id t) \<and> valid_identifier (Some ''rf_'') (rs_family_id t) \<and>
     valid_security_epoch (rs_security_epoch t) \<and>
     rs_token_expires_at t \<le> rs_family_expires_at t \<and>
     (\<forall>x\<in>rs_scopes t. valid_refresh_scope x) \<and>
     (case rs_sealed_receipt t of None \<Rightarrow> \<not> rs_consumed t
      | Some b \<Rightarrow> rs_consumed t \<and> valid_receipt b)"

definition family_uniform :: "refresh_state \<Rightarrow> refresh_state \<Rightarrow> bool" where
  "family_uniform t u \<longleftrightarrow>
     (rs_family_id t = rs_family_id u \<longrightarrow>
        rs_account_id t = rs_account_id u \<and> rs_security_epoch t = rs_security_epoch u \<and>
        rs_revoked t = rs_revoked u)"

definition refresh_ok :: "'u local_store \<Rightarrow> bool" where
  "refresh_ok s \<longleftrightarrow>
     dict_ok (st_refresh s) \<and>
     (\<forall>k t. token_state s k = Some t \<longrightarrow> rs_token_id t = k \<and> valid_state t) \<and>
     (\<forall>k l t u. token_state s k = Some t \<longrightarrow> token_state s l = Some u \<longrightarrow>
        family_uniform t u \<and>
        (rs_family_id t = rs_family_id u \<longrightarrow> live_token t \<longrightarrow> live_token u \<longrightarrow> k = l))"

lemma refresh_okD:
  assumes "refresh_ok s" and "token_state s k = Some t"
  shows "rs_token_id t = k" and "valid_state t" and "dict_ok (st_refresh s)"
  using assms by (auto simp: refresh_ok_def)

lemma refresh_ok_family:
  assumes "refresh_ok s" "token_state s k = Some t" "token_state s l = Some u"
    and "rs_family_id t = rs_family_id u"
  shows "rs_account_id t = rs_account_id u" "rs_security_epoch t = rs_security_epoch u"
    "rs_revoked t = rs_revoked u" "live_token t \<Longrightarrow> live_token u \<Longrightarrow> k = l"
  using assms unfolding refresh_ok_def family_uniform_def by blast+

lemma refresh_okI:
  assumes "dict_ok (st_refresh s)"
    and "\<And>k t. token_state s k = Some t \<Longrightarrow> rs_token_id t = k \<and> valid_state t"
    and "\<And>k l t u. token_state s k = Some t \<Longrightarrow> token_state s l = Some u \<Longrightarrow>
      rs_family_id t = rs_family_id u \<Longrightarrow>
        rs_account_id t = rs_account_id u \<and> rs_security_epoch t = rs_security_epoch u \<and>
        rs_revoked t = rs_revoked u \<and> (live_token t \<longrightarrow> live_token u \<longrightarrow> k = l)"
  shows "refresh_ok s"
  using assms unfolding refresh_ok_def family_uniform_def by blast

lemma refresh_ok_cong: "st_refresh s = st_refresh t \<Longrightarrow> refresh_ok s = refresh_ok t"
  by (simp add: refresh_ok_def token_state_def)

lemma refresh_ok_empty: "refresh_ok empty_store"
  by (simp add: refresh_ok_def token_state_def empty_store_def)

lemma valid_state_context:
  assumes "valid_state t"
  shows "refresh_context t = Inr
    \<lparr>fc_account_id = rs_account_id t, fc_family_id = rs_family_id t,
     fc_security_epoch = rs_security_epoch t, fc_token_expires_at = rs_token_expires_at t,
     fc_family_expires_at = rs_family_expires_at t, fc_scopes = rs_scopes t,
     fc_evidence = None\<rparr>"
  using assms by (auto simp: valid_state_def refresh_context_def family_context_post_init_def)

section \<open>Revoking a family\<close>

text \<open>Whether or not it reports a change, revocation leaves every token of the family revoked.\<close>

lemma token_state_revoke:
  assumes "refresh_ok s"
  shows "token_state (snd (revoke_family_locked f s)) k =
    map_option (\<lambda>t. if rs_family_id t = f then t\<lparr>rs_revoked := True\<rparr> else t) (token_state s k)"
proof (cases "fst (revoke_family_locked f s)")
  case True
  then show ?thesis
    by (auto simp: revoke_family_locked_def Let_def token_state_def dget_map_values split: if_splits)
next
  case False
  then have same: "snd (revoke_family_locked f s) = s"
    and all: "\<forall>t\<in>set (dvalues (st_refresh s)). rs_family_id t = f \<longrightarrow> rs_revoked t"
    by (auto simp: revoke_family_locked_def Let_def list_all_iff filter_empty_conv split: if_splits)
  have "t = t\<lparr>rs_revoked := True\<rparr>" if "token_state s k = Some t" "rs_family_id t = f" for t
  proof -
    have "t \<in> set (dvalues (st_refresh s))"
      using that(1) mem_dvalues_iff [of "st_refresh s" t] assms
      by (auto simp: token_state_def refresh_ok_def)
    with all that(2) have "rs_revoked t" by blast
    then show ?thesis by simp
  qed
  with same show ?thesis
    by (cases "token_state s k") auto
qed

lemma revoke_family_result:
  assumes "refresh_ok s"
  shows "fst (revoke_family_locked f s) \<longleftrightarrow>
    (\<exists>k t. token_state s k = Some t \<and> rs_family_id t = f \<and> \<not> rs_revoked t)"
proof -
  have d: "dict_ok (st_refresh s)" using assms by (simp add: refresh_ok_def)
  have "fst (revoke_family_locked f s) \<longleftrightarrow>
      (\<exists>t\<in>set (dvalues (st_refresh s)). rs_family_id t = f \<and> \<not> rs_revoked t)"
    by (auto simp: revoke_family_locked_def Let_def list_all_iff filter_empty_conv)
  then show ?thesis
    using mem_dvalues_iff [OF d] unfolding token_state_def by blast
qed

lemma revoke_family_frame [simp]:
  "st_accounts (snd (revoke_family_locked f s)) = st_accounts s"
  "st_passwords (snd (revoke_family_locked f s)) = st_passwords s"
  "st_methods (snd (revoke_family_locked f s)) = st_methods s"
  "st_attempts (snd (revoke_family_locked f s)) = st_attempts s"
  "st_tokens (snd (revoke_family_locked f s)) = st_tokens s"
  "st_used (snd (revoke_family_locked f s)) = st_used s"
  "st_sessions (snd (revoke_family_locked f s)) = st_sessions s"
  by (simp_all add: revoke_family_locked_def Let_def)

lemma revoke_family_ok:
  assumes ok: "refresh_ok s"
  shows "refresh_ok (snd (revoke_family_locked f s))"
proof (rule refresh_okI)
  show "dict_ok (st_refresh (snd (revoke_family_locked f s)))"
    using ok by (simp add: revoke_family_locked_def Let_def refresh_ok_def)
next
  fix k t assume "token_state (snd (revoke_family_locked f s)) k = Some t"
  then obtain t0 where t0: "token_state s k = Some t0"
    "t = (if rs_family_id t0 = f then t0\<lparr>rs_revoked := True\<rparr> else t0)"
    by (auto simp: token_state_revoke [OF ok])
  then show "rs_token_id t = k \<and> valid_state t"
    using refresh_okD [OF ok t0(1)] by (auto simp: valid_state_def split: option.splits)
next
  fix k l t u
  assume "token_state (snd (revoke_family_locked f s)) k = Some t"
    "token_state (snd (revoke_family_locked f s)) l = Some u"
    and fam: "rs_family_id t = rs_family_id u"
  then obtain t0 u0 where t0: "token_state s k = Some t0"
      "t = (if rs_family_id t0 = f then t0\<lparr>rs_revoked := True\<rparr> else t0)"
    and u0: "token_state s l = Some u0"
      "u = (if rs_family_id u0 = f then u0\<lparr>rs_revoked := True\<rparr> else u0)"
    by (auto simp: token_state_revoke [OF ok])
  have fam0: "rs_family_id t0 = rs_family_id u0"
    using fam t0(2) u0(2) by (simp split: if_splits)
  note same = refresh_ok_family [OF ok t0(1) u0(1) fam0]
  show "rs_account_id t = rs_account_id u \<and> rs_security_epoch t = rs_security_epoch u \<and>
      rs_revoked t = rs_revoked u \<and> (live_token t \<longrightarrow> live_token u \<longrightarrow> k = l)"
    using same t0(2) u0(2) fam0 by (simp add: live_token_def)
qed

end
