(* ===== verification/Refresh_Invariant.thy ===== *)
theory Refresh_Invariant
  imports Refresh_Store
begin

text \<open>
  Every refresh body preserves the refresh invariant, and what each body does to the abstract
  state, a map from token ids to token states (\<open>token_state\<close>).
\<close>

section \<open>Creation and rotation\<close>

definition first_state :: "time create_family_command \<Rightarrow> refresh_state" where
  "first_state c =
     \<lparr>rs_token_id = cf_token_id c, rs_token_digest = cf_token_digest c,
      rs_account_id = cf_account_id c, rs_family_id = cf_family_id c,
      rs_security_epoch = cf_security_epoch c, rs_token_expires_at = cf_token_expires_at c,
      rs_family_expires_at = cf_family_expires_at c, rs_scopes = cf_scopes c,
      rs_consumed = False, rs_revoked = False, rs_idempotency_digest = None,
      rs_sealed_receipt = None\<rparr>"

lemma family_exists_iff:
  assumes "refresh_ok s"
  shows "(\<exists>t\<in>set (dvalues (st_refresh s)). P t) \<longleftrightarrow> (\<exists>k t. token_state s k = Some t \<and> P t)"
proof -
  have "dict_ok (st_refresh s)" using assms by (simp add: refresh_ok_def)
  from mem_dvalues_iff [OF this] show ?thesis
    unfolding token_state_def by blast
qed

lemma do_create_family_True:
  assumes ok: "refresh_ok s" and t: "do_create_family c s = (Inr True, s')"
  shows "s' = s\<lparr>st_refresh := dset (cf_token_id c) (first_state c) (st_refresh s)\<rparr>"
    and "token_state s (cf_token_id c) = None"
    and "\<And>k t. token_state s k = Some t \<Longrightarrow> rs_family_id t \<noteq> cf_family_id c"
    and "\<exists>a. dget (st_accounts s) (cf_account_id c) = Some a \<and> acc_epoch a = cf_security_epoch c"
proof -
  have guard: "\<not> (\<exists>t\<in>set (dvalues (st_refresh s)). rs_family_id t = cf_family_id c)"
    and rest: "dget (st_refresh s) (cf_token_id c) = None"
      "\<not> (case dget (st_accounts s) (cf_account_id c) of None \<Rightarrow> True
          | Some a \<Rightarrow> acc_epoch a \<noteq> cf_security_epoch c)"
      "s' = s\<lparr>st_refresh := dset (cf_token_id c) (first_state c) (st_refresh s)\<rparr>"
    using t unfolding do_create_family_def Let_def first_state_def by (auto split: if_splits)
  show "s' = s\<lparr>st_refresh := dset (cf_token_id c) (first_state c) (st_refresh s)\<rparr>"
    by (rule rest(3))
  show "token_state s (cf_token_id c) = None"
    using rest(1) by (simp add: token_state_def)
  show "\<exists>a. dget (st_accounts s) (cf_account_id c) = Some a \<and> acc_epoch a = cf_security_epoch c"
    using rest(2) by (simp split: option.splits)
  fix k t assume "token_state s k = Some t"
  with guard show "rs_family_id t \<noteq> cf_family_id c"
    unfolding family_exists_iff [OF ok] by blast
qed

lemma do_create_family_False:
  "fst (do_create_family c s) \<noteq> Inr True \<Longrightarrow> do_create_family c s = (Inr False, s)"
  by (auto simp: do_create_family_def Let_def split: if_splits)

lemma first_state_valid: "valid_create_family c \<Longrightarrow> valid_state (first_state c)"
  by (simp add: valid_create_family_def valid_state_def first_state_def)

lemma do_create_family_ok:
  assumes ok: "refresh_ok s" and c: "valid_create_family c"
  shows "refresh_ok (snd (do_create_family c s))"
proof (cases "fst (do_create_family c s) = Inr True")
  case False
  with ok show ?thesis using do_create_family_False [of c s] by simp
next
  case True
  obtain s' where s': "do_create_family c s = (Inr True, s')"
    using True by (metis prod.collapse)
  note made = do_create_family_True [OF ok s']
  have at: "token_state s' x = (if x = cf_token_id c then Some (first_state c) else token_state s x)"
    for x
    by (simp add: made(1) token_state_def dict_simps)
  have new: "rs_family_id (first_state c) = cf_family_id c" "rs_token_id (first_state c) = cf_token_id c"
    by (simp_all add: first_state_def)
  have "refresh_ok s'"
  proof (rule refresh_okI)
    show "dict_ok (st_refresh s')"
      using ok by (simp add: made(1) refresh_ok_def)
  next
    fix k t assume "token_state s' k = Some t"
    then show "rs_token_id t = k \<and> valid_state t"
      using refresh_okD [OF ok, of k t] first_state_valid [OF c] new
      by (auto simp: at split: if_splits)
  next
    fix k l t u
    assume t: "token_state s' k = Some t" and u: "token_state s' l = Some u"
      and fam: "rs_family_id t = rs_family_id u"
    consider "k = l" | "k \<noteq> l" "k \<noteq> cf_token_id c" "l \<noteq> cf_token_id c"
      | "k \<noteq> l" "k = cf_token_id c" | "k \<noteq> l" "l = cf_token_id c" by blast
    then show "rs_account_id t = rs_account_id u \<and> rs_security_epoch t = rs_security_epoch u \<and>
        rs_revoked t = rs_revoked u \<and> (live_token t \<longrightarrow> live_token u \<longrightarrow> k = l)"
    proof cases
      case 1
      with t u show ?thesis by simp
    next
      case 2
      with t u have "token_state s k = Some t" "token_state s l = Some u" by (simp_all add: at)
      from refresh_ok_family [OF ok this fam] show ?thesis by simp
    next
      case 3
      with t u have "token_state s l = Some u" "t = first_state c" by (simp_all add: at)
      with made(3) [of l u] fam new show ?thesis by simp
    next
      case 4
      with t u have "token_state s k = Some t" "u = first_state c" by (simp_all add: at)
      with made(3) [of k t] fam new show ?thesis by simp
    qed
  qed
  with s' show ?thesis by simp
qed

text \<open>When rotation succeeds, and what it leaves.\<close>

definition rotatable :: "time rotate_command \<Rightarrow> time \<Rightarrow> 'u local_store \<Rightarrow> bool" where
  "rotatable c now s \<longleftrightarrow>
     (\<exists>t a. token_state s (rc_token_id c) = Some t \<and>
        dget (st_accounts s) (rc_account_id c) = Some a \<and> live_token t \<and>
        rs_token_digest t = rc_token_digest c \<and> rs_account_id t = rc_account_id c \<and>
        rs_family_id t = rc_family_id c \<and> rs_security_epoch t = rc_security_epoch c \<and>
        acc_epoch a = rc_security_epoch c \<and> token_state s (rc_successor_id c) = None \<and>
        now < rs_token_expires_at t \<and> now < rs_family_expires_at t)"

definition rotated :: "time rotate_command \<Rightarrow> 'u local_store \<Rightarrow> 'u local_store" where
  "rotated c s =
     (case token_state s (rc_token_id c) of
        None \<Rightarrow> s
      | Some t \<Rightarrow> s\<lparr>st_refresh := dset (rc_successor_id c) (successor_state c)
                     (dset (rc_token_id c) (consumed_state c t) (st_refresh s))\<rparr>)"

lemma rotation_stale_iff:
  "rotation_stale c s \<longleftrightarrow>
     \<not> (\<exists>t a. token_state s (rc_token_id c) = Some t \<and>
        dget (st_accounts s) (rc_account_id c) = Some a \<and> live_token t \<and>
        rs_token_digest t = rc_token_digest c \<and> rs_account_id t = rc_account_id c \<and>
        rs_family_id t = rc_family_id c \<and> rs_security_epoch t = rc_security_epoch c \<and>
        acc_epoch a = rc_security_epoch c \<and> token_state s (rc_successor_id c) = None)"
  by (cases "dget (st_refresh s) (rc_token_id c)"; cases "dget (st_accounts s) (rc_account_id c)")
    (auto simp: rotation_stale_def token_state_def live_token_def)

lemma do_rotate_cases:
  assumes "valid_rotate c"
  shows "do_rotate c now s =
    (if rotatable c now s
     then (Inr \<lparr>rr_status = Rotated, rr_sealed_receipt = Some (rc_sealed_receipt c),
               rr_family_revoked = False\<rparr>, rotated c s)
     else (if rotation_stale c s then rotation Invalid None else rotation Expired None, s))"
proof -
  have r: "valid_receipt (rc_sealed_receipt c)"
    using assms by (simp add: valid_rotate_def)
  show ?thesis
  proof (cases "rotation_stale c s")
    case True
    moreover have "\<not> rotatable c now s"
      using True unfolding rotation_stale_iff rotatable_def by blast
    ultimately show ?thesis by (simp add: do_rotate_def)
  next
    case False
    then obtain t where t: "token_state s (rc_token_id c) = Some t"
      unfolding rotation_stale_iff by blast
    have "rotatable c now s \<longleftrightarrow> now < rs_token_expires_at t \<and> now < rs_family_expires_at t"
      using False t unfolding rotation_stale_iff rotatable_def by auto
    with False t r show ?thesis
      by (auto simp: do_rotate_def rotated_def token_state_def)
  qed
qed

lemma successor_state_simps [simp]:
  "rs_family_id (successor_state c) = rc_family_id c"
  "rs_token_id (successor_state c) = rc_successor_id c"
  "rs_account_id (successor_state c) = rc_account_id c"
  "rs_security_epoch (successor_state c) = rc_security_epoch c"
  "live_token (successor_state c)" "\<not> rs_revoked (successor_state c)"
  by (simp_all add: successor_state_def live_token_def)

lemma consumed_state_simps [simp]:
  "rs_family_id (consumed_state c t) = rs_family_id t"
  "rs_token_id (consumed_state c t) = rs_token_id t"
  "rs_account_id (consumed_state c t) = rs_account_id t"
  "rs_security_epoch (consumed_state c t) = rs_security_epoch t"
  "rs_revoked (consumed_state c t) = rs_revoked t" "\<not> live_token (consumed_state c t)"
  by (simp_all add: consumed_state_def live_token_def)

lemma token_state_rotated:
  assumes "token_state s (rc_token_id c) = Some t" "rc_successor_id c \<noteq> rc_token_id c"
  shows "token_state (rotated c s) x =
    (if x = rc_successor_id c then Some (successor_state c)
     else if x = rc_token_id c then Some (consumed_state c t) else token_state s x)"
  using assms by (simp add: rotated_def) (simp add: token_state_def dict_simps)

lemma rotated_ok:
  assumes ok: "refresh_ok s" and c: "valid_rotate c" and r: "rotatable c now s"
  shows "refresh_ok (rotated c s)"
proof -
  let ?old = "rc_token_id c" and ?new = "rc_successor_id c"
  obtain t where t: "token_state s ?old = Some t" "live_token t" "rs_account_id t = rc_account_id c"
    "rs_family_id t = rc_family_id c" "rs_security_epoch t = rc_security_epoch c"
    "token_state s ?new = None"
    using r unfolding rotatable_def by blast
  have ne: "?new \<noteq> ?old" using c by (simp add: valid_rotate_def)
  note at = token_state_rotated [OF t(1) ne]
  have vt: "rs_token_id t = ?old" "valid_state t" using refresh_okD [OF ok t(1)] by simp_all
  have vnew: "valid_state (successor_state c)"
    using c by (simp add: valid_rotate_def valid_state_def successor_state_def)
  have vold: "valid_state (consumed_state c t)"
    using vt(2) c by (simp add: valid_rotate_def valid_state_def consumed_state_def)
  have kin: "rs_account_id u = rc_account_id c \<and> rs_security_epoch u = rc_security_epoch c \<and>
      \<not> rs_revoked u \<and> \<not> live_token u"
    if "token_state s x = Some u" "rs_family_id u = rc_family_id c" "x \<noteq> ?old" for x u
    using refresh_ok_family [OF ok that(1) t(1)] that t by (auto simp: live_token_def)
  show ?thesis
  proof (rule refresh_okI)
    show "dict_ok (st_refresh (rotated c s))"
      using ok t(1) by (simp add: rotated_def refresh_ok_def)
  next
    fix k u assume "token_state (rotated c s) k = Some u"
    then show "rs_token_id u = k \<and> valid_state u"
      using refresh_okD [OF ok, of k u] vt vnew vold by (auto simp: at split: if_splits)
  next
    fix k l u v
    assume u: "token_state (rotated c s) k = Some u" and v: "token_state (rotated c s) l = Some v"
      and fam: "rs_family_id u = rs_family_id v"
    have kinds: "(x = ?new \<and> w = successor_state c) \<or> (x = ?old \<and> w = consumed_state c t) \<or>
        (x \<noteq> ?old \<and> x \<noteq> ?new \<and> token_state s x = Some w)"
      if "token_state (rotated c s) x = Some w" for x w
      using that by (auto simp: at split: if_splits)
    show "rs_account_id u = rs_account_id v \<and> rs_security_epoch u = rs_security_epoch v \<and>
        rs_revoked u = rs_revoked v \<and> (live_token u \<longrightarrow> live_token v \<longrightarrow> k = l)"
    proof (cases "rs_family_id u = rc_family_id c")
      case True
      have eq: "rs_account_id w = rc_account_id c \<and> rs_security_epoch w = rc_security_epoch c \<and>
          \<not> rs_revoked w \<and> (live_token w \<longrightarrow> x = ?new)"
        if "token_state (rotated c s) x = Some w" "rs_family_id w = rc_family_id c" for x w
        using kinds [OF that(1)] kin [of x w] that(2) t
        by (auto simp: live_token_def consumed_state_def)
      show ?thesis
        using eq [OF u True] eq [OF v] fam True by simp
    next
      case False
      then have "token_state s k = Some u" "token_state s l = Some v"
        using kinds [OF u] kinds [OF v] fam t(4) by auto
      from refresh_ok_family [OF ok this fam] show ?thesis by simp
    qed
  qed
qed

lemma do_rotate_ok:
  assumes "refresh_ok s" "valid_rotate c"
  shows "refresh_ok (snd (do_rotate c now s))"
  using assms rotated_ok [of s c now] by (simp add: do_rotate_cases)

section \<open>Preflight and revocation\<close>

lemma snd_prepare:
  "snd (do_prepare_rotation p d now s) = s \<or>
   (\<exists>t. token_state s (tp_token_id p) = Some t \<and>
        snd (do_prepare_rotation p d now s) = snd (revoke_family_locked (rs_family_id t) s))"
  by (auto simp: do_prepare_rotation_def token_state_def split: option.splits)

lemma do_prepare_rotation_ok:
  "refresh_ok s \<Longrightarrow> refresh_ok (snd (do_prepare_rotation p d now s))"
  using snd_prepare [of p d now s] revoke_family_ok by metis

lemma snd_do_revoke_family [simp]:
  "snd (do_revoke_family f s) = snd (revoke_family_locked f s)"
  "fst (do_revoke_family f s) = Inr (fst (revoke_family_locked f s))"
  by (simp_all add: do_revoke_family_def split: prod.splits)

lemma do_revoke_family_ok: "refresh_ok s \<Longrightarrow> refresh_ok (snd (do_revoke_family f s))"
  by (simp add: revoke_family_ok)

lemma do_revoke_token_ok: "refresh_ok s \<Longrightarrow> refresh_ok (snd (do_revoke_token k d s))"
  by (simp add: do_revoke_token_def revoke_family_ok split: option.splits)

lemma do_revoke_token_for_account_ok:
  "refresh_ok s \<Longrightarrow> refresh_ok (snd (do_revoke_token_for_account a k d s))"
  by (simp add: do_revoke_token_for_account_def revoke_family_ok split: option.splits)

lemma revoke_families_simps:
  "snd (revoke_families (f # fs) s) = snd (revoke_families fs (snd (revoke_family_locked f s)))"
  "fst (revoke_families (f # fs) s) =
     fst (revoke_families fs (snd (revoke_family_locked f s))) +
     (if fst (revoke_family_locked f s) then 1 else 0)"
  by (simp_all split: prod.splits)

lemma revoke_families_ok: "refresh_ok s \<Longrightarrow> refresh_ok (snd (revoke_families fs s))"
  by (induction fs arbitrary: s)
    (simp_all add: revoke_families_simps revoke_family_ok del: revoke_families.simps(2))

lemma snd_do_revoke_for_account:
  "snd (do_revoke_for_account a s) = snd (revoke_families (remdups (map rs_family_id
     (filter (\<lambda>t. rs_account_id t = a) (dvalues (st_refresh s))))) s)"
  by (simp add: do_revoke_for_account_def Let_def split: prod.splits)

lemma do_revoke_for_account_ok:
  "refresh_ok s \<Longrightarrow> refresh_ok (snd (do_revoke_for_account a s))"
  by (simp add: snd_do_revoke_for_account revoke_families_ok)

lemma token_state_revoke_families:
  assumes "refresh_ok s"
  shows "token_state (snd (revoke_families fs s)) k =
    map_option (\<lambda>t. if rs_family_id t \<in> set fs then t\<lparr>rs_revoked := True\<rparr> else t) (token_state s k)"
  using assms
proof (induction fs arbitrary: s)
  case Nil
  show ?case by (cases "token_state s k") simp_all
next
  case (Cons f fs)
  show ?case
    unfolding revoke_families_simps
    using Cons.IH [OF revoke_family_ok [OF Cons.prems, of f]]
    by (cases "token_state s k") (simp_all add: token_state_revoke [OF Cons.prems])
qed

lemma revoke_families_frame [simp]:
  "st_accounts (snd (revoke_families fs s)) = st_accounts s"
  "st_passwords (snd (revoke_families fs s)) = st_passwords s"
  "st_methods (snd (revoke_families fs s)) = st_methods s"
  "st_attempts (snd (revoke_families fs s)) = st_attempts s"
  "st_tokens (snd (revoke_families fs s)) = st_tokens s"
  "st_used (snd (revoke_families fs s)) = st_used s"
  "st_sessions (snd (revoke_families fs s)) = st_sessions s"
  by (induction fs arbitrary: s) (simp_all add: revoke_families_simps del: revoke_families.simps(2))

end
