(* ===== verification/Store_Steps.thy ===== *)
theory Store_Steps
  imports Account_Store Session_Store Refresh_Invariant
begin

text \<open>
  Histories of the in-memory local account store. Every operation runs its body under one lock, so
  a concurrent execution is a sequence of whole operations (\<open>store_step\<close>), interleaved with test
  controls. Two facts are proved once for every operation and then carry all properties of
  histories: \<open>store_ok\<close> is preserved, and every step \<open>advances\<close> the store, which says what can
  never be undone: accounts, their login identifiers and verification, epochs, retired token ids,
  consumed and revoked refresh tokens.
\<close>

section \<open>Invariant\<close>

definition store_ok :: "'u local_store \<Rightarrow> bool" where
  "store_ok s \<longleftrightarrow> account_side s \<and> sessions_ok s \<and> refresh_ok s"

lemma store_okD:
  assumes "store_ok s"
  shows "account_side s" "accounts_ok s" "tokens_ok s" "sessions_ok s" "refresh_ok s"
  using assms by (simp_all add: store_ok_def account_side_def)

lemma store_ok_empty: "store_ok empty_store"
  by (simp add: store_ok_def account_side_empty sessions_ok_empty refresh_ok_empty)

section \<open>Advancing\<close>

definition accounts_advance :: "'u local_store \<Rightarrow> 'u local_store \<Rightarrow> bool" where
  "accounts_advance s s' \<longleftrightarrow>
     st_used s \<subseteq> st_used s' \<and>
     (\<forall>k a. dget (st_accounts s) k = Some a \<longrightarrow>
        (\<exists>a'. dget (st_accounts s') k = Some a' \<and> acc_identifier a' = acc_identifier a \<and>
              acc_epoch a \<le> acc_epoch a' \<and> (acc_verified a \<longrightarrow> acc_verified a')))"

definition grown :: "refresh_state \<Rightarrow> refresh_state \<Rightarrow> bool" where
  "grown t t' \<longleftrightarrow>
     rs_token_digest t' = rs_token_digest t \<and> rs_account_id t' = rs_account_id t \<and>
     rs_family_id t' = rs_family_id t \<and> rs_security_epoch t' = rs_security_epoch t \<and>
     rs_token_expires_at t' = rs_token_expires_at t \<and>
     rs_family_expires_at t' = rs_family_expires_at t \<and> rs_scopes t' = rs_scopes t \<and>
     (rs_revoked t \<longrightarrow> rs_revoked t') \<and>
     (rs_consumed t \<longrightarrow> rs_consumed t' \<and> rs_idempotency_digest t' = rs_idempotency_digest t \<and>
        rs_sealed_receipt t' = rs_sealed_receipt t)"

definition refresh_advance :: "'u local_store \<Rightarrow> 'u local_store \<Rightarrow> bool" where
  "refresh_advance s s' \<longleftrightarrow>
     (\<forall>k t. token_state s k = Some t \<longrightarrow> (\<exists>t'. token_state s' k = Some t' \<and> grown t t'))"

definition advances :: "'u local_store \<Rightarrow> 'u local_store \<Rightarrow> bool" where
  "advances s s' \<longleftrightarrow> accounts_advance s s' \<and> refresh_advance s s'"

lemma grown_refl [simp]: "grown t t"
  by (simp add: grown_def)

lemma grown_trans: "grown t u \<Longrightarrow> grown u v \<Longrightarrow> grown t v"
  by (simp add: grown_def)

lemma accounts_advance_same:
  "st_accounts s' = st_accounts s \<Longrightarrow> st_used s \<subseteq> st_used s' \<Longrightarrow> accounts_advance s s'"
  by (simp add: accounts_advance_def)

lemma accounts_advance_set:
  assumes "st_accounts s' = dset k a' (st_accounts s)" "st_used s \<subseteq> st_used s'"
    and "dget (st_accounts s) k = Some a" "acc_identifier a' = acc_identifier a"
    and "acc_epoch a \<le> acc_epoch a'" "acc_verified a \<longrightarrow> acc_verified a'"
  shows "accounts_advance s s'"
  using assms by (simp add: accounts_advance_def dict_simps)

lemma accounts_advance_insert:
  assumes "st_accounts s' = dset k a' (st_accounts s)" "st_used s \<subseteq> st_used s'"
    and "dget (st_accounts s) k = None"
  shows "accounts_advance s s'"
  using assms by (auto simp: accounts_advance_def dict_simps)

lemma refresh_advance_same: "st_refresh s' = st_refresh s \<Longrightarrow> refresh_advance s s'"
  by (auto simp: refresh_advance_def token_state_def)

lemma advances_refl [simp]: "advances s s"
  by (simp add: advances_def accounts_advance_same refresh_advance_same)

lemma accounts_advance_trans:
  assumes "accounts_advance s u" "accounts_advance u v"
  shows "accounts_advance s v"
  unfolding accounts_advance_def
proof (intro conjI allI impI)
  show "st_used s \<subseteq> st_used v"
    using assms by (auto simp: accounts_advance_def)
next
  fix k a assume "dget (st_accounts s) k = Some a"
  then obtain b where b: "dget (st_accounts u) k = Some b" "acc_identifier b = acc_identifier a"
    "acc_epoch a \<le> acc_epoch b" "acc_verified a \<longrightarrow> acc_verified b"
    using assms(1) unfolding accounts_advance_def by blast
  then obtain c where c: "dget (st_accounts v) k = Some c" "acc_identifier c = acc_identifier b"
    "acc_epoch b \<le> acc_epoch c" "acc_verified b \<longrightarrow> acc_verified c"
    using assms(2) unfolding accounts_advance_def by blast
  have "acc_identifier c = acc_identifier a" "acc_epoch a \<le> acc_epoch c"
    "acc_verified a \<longrightarrow> acc_verified c"
    using b(2-4) c(2-4) by simp_all
  with c(1) show "\<exists>a'. dget (st_accounts v) k = Some a' \<and> acc_identifier a' = acc_identifier a \<and>
      acc_epoch a \<le> acc_epoch a' \<and> (acc_verified a \<longrightarrow> acc_verified a')"
    by blast
qed

lemma refresh_advance_trans:
  assumes "refresh_advance s u" "refresh_advance u v"
  shows "refresh_advance s v"
  using assms grown_trans unfolding refresh_advance_def by meson

lemma advances_trans: "advances s u \<Longrightarrow> advances u v \<Longrightarrow> advances s v"
  using accounts_advance_trans refresh_advance_trans unfolding advances_def by blast

lemma advances_refreshD:
  assumes "advances s s'" "token_state s k = Some t"
  obtains t' where "token_state s' k = Some t'" "grown t t'"
  using assms unfolding advances_def refresh_advance_def by blast

lemma advances_accountD:
  assumes "advances s s'" "dget (st_accounts s) k = Some a"
  obtains a' where "dget (st_accounts s') k = Some a'" "acc_identifier a' = acc_identifier a"
    "acc_epoch a \<le> acc_epoch a'" "acc_verified a \<longrightarrow> acc_verified a'"
  using assms unfolding advances_def accounts_advance_def by blast

lemma advances_usedD: "advances s s' \<Longrightarrow> k \<in> st_used s \<Longrightarrow> k \<in> st_used s'"
  by (auto simp: advances_def accounts_advance_def)

section \<open>One step\<close>

text \<open>
  Good steps: the store is well formed afterwards and has advanced. Operations are built from
  bodies by \<open>observed\<close>, so it is enough to look at bodies.
\<close>

definition good_step :: "'u local_store \<Rightarrow> 'u local_store \<Rightarrow> bool" where
  "good_step s s' \<longleftrightarrow> (store_ok s \<longrightarrow> store_ok s' \<and> advances s s')"

lemma good_step_refl [simp]: "good_step s s"
  by (simp add: good_step_def)

lemma good_observed:
  assumes "\<And>b. good_step (snd w) (snd (snd (body (b, snd w))))"
  shows "good_step (snd w) (snd (snd (observed operation details body w)))"
  by (rule observed_invariant [where I = "good_step (snd w)"]) (use assms in simp_all)

lemma good_on_store:
  assumes "good_step (snd w) (snd (f (snd w)))"
  shows "good_step (snd w) (snd (snd (observed operation details (on_store f) w)))"
  by (rule good_observed) (use assms in simp)

text \<open>An account body leaves sessions and refresh tokens alone; a session body everything else.\<close>

lemma good_account_body:
  assumes "account_side s \<Longrightarrow> account_side s'" and "account_side s \<Longrightarrow> accounts_advance s s'"
    and "st_sessions s' = st_sessions s" "st_refresh s' = st_refresh s"
  shows "good_step s s'"
  using assms(1,2) sessions_ok_cong [OF assms(3)] refresh_ok_cong [OF assms(4)]
    refresh_advance_same [OF assms(4)]
  by (simp add: good_step_def store_ok_def advances_def)

lemma good_session_body:
  assumes "sessions_ok s \<Longrightarrow> sessions_ok s'" and "\<exists>d. s' = s\<lparr>st_sessions := d\<rparr>"
  shows "good_step s s'"
proof -
  obtain d where d: "s' = s\<lparr>st_sessions := d\<rparr>" using assms(2) by blast
  have "accounts_ok s' = accounts_ok s" "tokens_ok s' = tokens_ok s" "refresh_ok s' = refresh_ok s"
    by (rule accounts_ok_cong tokens_ok_cong refresh_ok_cong; simp add: d)+
  moreover have "accounts_advance s s'" "refresh_advance s s'"
    by (rule accounts_advance_same refresh_advance_same; simp add: d)+
  ultimately show ?thesis
    using assms(1) by (simp add: good_step_def store_ok_def account_side_def advances_def)
qed

lemma good_refresh_body:
  assumes "refresh_ok s \<Longrightarrow> refresh_ok s'" and "refresh_ok s \<Longrightarrow> refresh_advance s s'"
    and "\<exists>d. s' = s\<lparr>st_refresh := d\<rparr>"
  shows "good_step s s'"
proof -
  obtain d where d: "s' = s\<lparr>st_refresh := d\<rparr>" using assms(3) by blast
  have "accounts_ok s' = accounts_ok s" "tokens_ok s' = tokens_ok s" "sessions_ok s' = sessions_ok s"
    by (rule accounts_ok_cong tokens_ok_cong sessions_ok_cong; simp add: d)+
  moreover have "accounts_advance s s'"
    by (rule accounts_advance_same) (simp_all add: d)
  ultimately show ?thesis
    using assms(1,2) by (simp add: good_step_def store_ok_def account_side_def advances_def)
qed

lemma good_compare: "good_step s (snd (do_compare_and_replace k h h' s))"
  by (rule good_account_body [OF do_compare_and_replace_ok])
    (auto simp: do_compare_and_replace_def intro!: accounts_advance_same)

lemma good_bump: "good_step s (snd (do_bump_epoch k h e s))"
proof (rule good_account_body [OF do_bump_epoch_ok])
  show "accounts_advance s (snd (do_bump_epoch k h e s))" if "account_side s"
  proof (cases "dget (st_accounts s) k")
    case (Some a)
    then show ?thesis
      by (auto simp: do_bump_epoch_def Let_def account_post_init_Inr_valid split: sum.splits
          intro: accounts_advance_same accounts_advance_set [of _ k "a\<lparr>acc_epoch := e + 1\<rparr>" _ a])
  qed (simp add: do_bump_epoch_def accounts_advance_same)
qed (simp_all add: do_bump_epoch_def Let_def split: option.splits sum.splits)

lemma good_register_method: "good_step s (snd (do_register_method k m s))"
  by (rule good_account_body [OF do_register_method_ok])
    (simp_all add: do_register_method_def accounts_advance_same)

lemma good_revoke_method: "good_step s (snd (do_revoke_method k m r s))"
  by (rule good_account_body [OF do_revoke_method_ok])
    (auto simp: do_revoke_method_def intro!: accounts_advance_same split: option.splits)

lemma good_issue: "valid_issue i \<Longrightarrow> good_step s (snd (do_issue i s))"
  by (rule good_account_body [OF do_issue_ok])
    (auto simp: do_issue_def intro!: accounts_advance_same)

lemma failed_proof_used: "st_used s \<subseteq> st_used (record_failed_proof i s)"
  by (auto simp: record_failed_proof_def Let_def)

lemma verify_advance:
  assumes "account_side s"
  shows "accounts_advance s (snd (do_consume_and_verify k d now s))"
proof (cases "dget (st_tokens s) k")
  case (Some i)
  show ?thesis
  proof (cases "dget (st_accounts s) (ti_account_id i)")
    case None
    with Some failed_proof_used [of s i] show ?thesis
      by (auto simp: do_consume_and_verify_def intro!: accounts_advance_same)
  next
    case acc: (Some a)
    have a: "acc_id a = ti_account_id i"
      using assms acc accounts_okD by (auto simp: account_side_def)
    have "accounts_advance s ((retire_token k s)
        \<lparr>st_accounts := dset (ti_account_id i) (a\<lparr>acc_verified := True\<rparr>) (st_accounts s)\<rparr>)"
      by (rule accounts_advance_set [where a' = "a\<lparr>acc_verified := True\<rparr>", OF _ _ acc]) auto
    moreover have "accounts_advance s (retire_token k s)" "accounts_advance s (record_failed_proof i s)"
      using failed_proof_used [of s i] by (auto intro!: accounts_advance_same)
    ultimately show ?thesis
      using Some acc a
      by (simp add: do_consume_and_verify_def Let_def account_post_init_Inr_valid
          accounts_advance_same split: sum.splits)
  qed
qed (simp add: do_consume_and_verify_def accounts_advance_same)

lemma good_verify: "good_step s (snd (do_consume_and_verify k d now s))"
  by (rule good_account_body [OF do_consume_and_verify_ok verify_advance])
    (auto simp: do_consume_and_verify_def Let_def split: option.splits sum.splits)

lemma reset_advance:
  assumes "account_side s"
  shows "accounts_advance s (snd (do_consume_and_reset k d h now s))"
proof (cases "dget (st_tokens s) k")
  case (Some i)
  show ?thesis
  proof (cases "dget (st_accounts s) (ti_account_id i)")
    case None
    with Some failed_proof_used [of s i] show ?thesis
      by (auto simp: do_consume_and_reset_def intro!: accounts_advance_same)
  next
    case acc: (Some a)
    have a: "acc_id a = ti_account_id i"
      using assms acc accounts_okD by (auto simp: account_side_def)
    have "accounts_advance s ((retire_token k s)
        \<lparr>st_passwords := p,
         st_accounts := dset (ti_account_id i) (a\<lparr>acc_epoch := acc_epoch a + 1\<rparr>) (st_accounts s)\<rparr>)"
      for p
      by (rule accounts_advance_set [where a' = "a\<lparr>acc_epoch := acc_epoch a + 1\<rparr>", OF _ _ acc])
        auto
    moreover have "accounts_advance s ((retire_token k s)\<lparr>st_passwords := p\<rparr>)"
      "accounts_advance s (record_failed_proof i s)" for p
      using failed_proof_used [of s i] by (auto intro!: accounts_advance_same)
    ultimately show ?thesis
      using Some acc a
      by (simp add: do_consume_and_reset_def Let_def account_post_init_Inr_valid
          accounts_advance_same split: sum.splits)
  qed
qed (simp add: do_consume_and_reset_def accounts_advance_same)

lemma good_reset: "good_step s (snd (do_consume_and_reset k d h now s))"
  by (rule good_account_body [OF do_consume_and_reset_ok reset_advance])
    (auto simp: do_consume_and_reset_def Let_def split: option.splits sum.splits)

lemma registered_frame [simp]:
  "st_sessions (registered k a h ivd s) = st_sessions s"
  "st_refresh (registered k a h ivd s) = st_refresh s"
  "st_accounts (registered k a h ivd s) = dset k a (st_accounts s)"
  by (auto simp: registered_def Let_def split: option.splits)

lemma registered_used: "st_used s \<subseteq> st_used (registered k a h ivd s)"
  by (auto simp: registered_def Let_def split: option.splits)

lemma good_register:
  "good_step (snd w) (snd (snd (do_register ids u cmd h ivd pending now w)))"
proof (rule do_register_cases [of ids u cmd h ivd pending now w])
  fix r b assume "do_register ids u cmd h ivd pending now w = (r, (b, snd w))"
  then show ?thesis by simp
next
  fix k a b s1
  assume d: "do_register ids u cmd h ivd pending now w =
      (Inr \<lparr>ro_status = Created, ro_account = Some a\<rparr>,
       (b, registered k a h (find_invitation ivd (snd w)) s1))"
    and v: "store_verification pending k (snd w) = Inr s1"
    and n: "dget (st_accounts (snd w)) k = None"
  have s1: "\<exists>t. s1 = (snd w)\<lparr>st_tokens := t\<rparr>"
    using v
    by (auto simp: store_verification_def result_simps split: option.splits
        intro: exI [of _ "st_tokens (snd w)"])
  show ?thesis
  proof (rule good_account_body [OF do_register_ok])
    have "st_used (snd w) \<subseteq> st_used (registered k a h (find_invitation ivd (snd w)) s1)"
      using registered_used [of s1 k a h "find_invitation ivd (snd w)"] s1 by auto
    then show "accounts_advance (snd w) (snd (snd (do_register ids u cmd h ivd pending now w)))"
      unfolding d using s1 n by (intro accounts_advance_insert [of _ k a]) auto
  qed (use d s1 in auto)
qed

lemma good_create_session: "good_step s (snd (do_create_session c s))"
  by (rule good_session_body [OF do_create_session_ok])
    (auto simp: do_create_session_def intro: exI [of _ "st_sessions s"] split: sum.splits)

lemma good_touch: "good_step s (snd (do_touch clock k now s))"
  by (rule good_session_body [OF do_touch_ok])
    (auto simp: do_touch_def intro: exI [of _ "st_sessions s"] split: sum.splits option.splits)

lemma good_revoke_session: "good_step s (snd (do_revoke_session a k s))"
  by (rule good_session_body [OF do_revoke_session_ok])
    (auto simp: do_revoke_session_def intro: exI [of _ "st_sessions s"] split: option.splits)

lemma good_revoke_sessions: "good_step s (snd (do_revoke_sessions a s))"
  by (rule good_session_body [OF do_revoke_sessions_ok]) (auto simp: do_revoke_sessions_def Let_def)

lemma good_revoke_others: "good_step s (snd (do_revoke_others a k s))"
  by (rule good_session_body [OF do_revoke_others_ok]) (auto simp: do_revoke_others_def Let_def)

lemma good_rebind: "good_step s (snd (do_rebind p c s))"
  by (rule good_session_body [OF do_rebind_ok])
    (auto simp: do_rebind_def Let_def intro: exI [of _ "st_sessions s"] split: sum.splits)

lemma grown_revoked [simp]: "grown t (t\<lparr>rs_revoked := True\<rparr>)"
  by (simp add: grown_def)

lemma revoke_family_advance:
  "refresh_ok s \<Longrightarrow> refresh_advance s (snd (revoke_family_locked f s))"
  by (simp add: refresh_advance_def token_state_revoke)

lemma revoke_family_shape: "\<exists>d. snd (revoke_family_locked f s) = s\<lparr>st_refresh := d\<rparr>"
  by (auto simp: revoke_family_locked_def Let_def intro: exI [of _ "st_refresh s"])

lemma good_revoke_family_locked: "good_step s (snd (revoke_family_locked f s))"
  by (rule good_refresh_body [OF revoke_family_ok revoke_family_advance revoke_family_shape])

lemma good_revoke_family: "good_step s (snd (do_revoke_family f s))"
  using good_revoke_family_locked by simp

lemma good_revoke_token: "good_step s (snd (do_revoke_token k d s))"
  by (simp add: do_revoke_token_def good_revoke_family_locked split: option.splits)

lemma good_revoke_token_for_account: "good_step s (snd (do_revoke_token_for_account a k d s))"
  by (simp add: do_revoke_token_for_account_def good_revoke_family_locked split: option.splits)

lemma good_trans: "good_step s u \<Longrightarrow> good_step u v \<Longrightarrow> good_step s v"
  using advances_trans unfolding good_step_def by blast

lemma good_revoke_families: "good_step s (snd (revoke_families fs s))"
  by (induction fs arbitrary: s)
    (auto simp: revoke_families_simps intro: good_trans [OF good_revoke_family_locked]
      simp del: revoke_families.simps(2))

lemma good_revoke_for_account: "good_step s (snd (do_revoke_for_account a s))"
  by (simp add: snd_do_revoke_for_account good_revoke_families)

lemma good_prepare: "good_step s (snd (do_prepare_rotation p d now s))"
  using snd_prepare [of p d now s]
  by (elim disjE exE conjE) (simp_all add: good_revoke_family_locked)

lemma good_create_family:
  assumes c: "valid_create_family c"
  shows "good_step s (snd (do_create_family c s))"
proof (cases "fst (do_create_family c s) = Inr True")
  case False
  then show ?thesis using do_create_family_False [of c s] by simp
next
  case True
  then obtain s' where s': "do_create_family c s = (Inr True, s')" by (metis prod.collapse)
  have "s' = s\<lparr>st_refresh := dset (cf_token_id c) (first_state c) (st_refresh s)\<rparr>"
    "token_state s (cf_token_id c) = None"
    using s' by (auto simp: do_create_family_def Let_def first_state_def token_state_def split: if_splits)
  with s' show ?thesis
    by (intro good_refresh_body [OF do_create_family_ok [OF _ c]])
      (auto simp: refresh_advance_def token_state_def dict_simps)
qed

lemma grown_consumed: "\<not> rs_consumed t \<Longrightarrow> grown t (consumed_state c t)"
  by (simp add: grown_def consumed_state_def)

lemma good_rotate:
  assumes c: "valid_rotate c"
  shows "good_step s (snd (do_rotate c now s))"
proof (cases "rotatable c now s")
  case False
  then show ?thesis by (simp add: do_rotate_cases [OF c])
next
  case True
  then obtain t where t: "token_state s (rc_token_id c) = Some t" "live_token t"
      "token_state s (rc_successor_id c) = None"
    unfolding rotatable_def by blast
  have ne: "rc_successor_id c \<noteq> rc_token_id c" using c by (simp add: valid_rotate_def)
  have shape: "\<exists>d. rotated c s = s\<lparr>st_refresh := d\<rparr>" using t(1) by (auto simp: rotated_def)
  have "refresh_advance s (rotated c s)"
    using t grown_consumed [of t c]
    by (auto simp: refresh_advance_def token_state_rotated [OF t(1) ne] live_token_def)
  with True shape show ?thesis
    using rotated_ok [OF _ c True]
    by (simp add: do_rotate_cases [OF c] good_refresh_body)
qed

section \<open>Histories\<close>

inductive store_step :: "'u world \<Rightarrow> 'u world \<Rightarrow> bool" where
  Compare: "store_step w (snd (compare_and_replace_password k h h' w))"
| Bump: "store_step w (snd (replace_password_and_bump_epoch k h e w))"
| List_Methods: "store_step w (snd (list_methods k w))"
| Register_Method: "store_step w (snd (register_login_method k m w))"
| Revoke_Method: "store_step w (snd (revoke_login_method k mid r w))"
| Register: "store_step w (snd (register ids u cmd h ivd pending now w))"
| Issue: "token_issue_post_init raw = Inr i \<Longrightarrow> store_step w (snd (issue_token i w))"
| Issue_Absent: "store_step w (snd (issue_absent w))"
| Verify: "store_step w (snd (consume_and_verify k d now w))"
| Reset: "store_step w (snd (consume_and_reset k d h now w))"
| Create_Session: "store_step w (snd (create_session sc w))"
| Touch: "store_step w (snd (touch_session clock k now w))"
| Revoke_Session: "store_step w (snd (revoke_session_for_account a k w))"
| Revoke_Sessions: "store_step w (snd (revoke_sessions_for_account a w))"
| Revoke_Others: "store_step w (snd (revoke_other_sessions a k w))"
| Rebind: "store_step w (snd (rebind_session p sc w))"
| Create_Family:
    "create_family_command_post_init rawf = Inr cf \<Longrightarrow> store_step w (snd (create_family cf w))"
| Prepare: "store_step w (snd (prepare_rotation p d now w))"
| Rotate:
    "rotate_command_post_init rawr = Inr rc \<Longrightarrow> store_step w (snd (rotate_refresh rc now w))"
| Revoke_Family: "store_step w (snd (revoke_family f w))"
| Revoke_Token: "store_step w (snd (revoke_token k d w))"
| Revoke_Token_For: "store_step w (snd (revoke_token_for_account a k d w))"
| Revoke_For_Account: "store_step w (snd (revoke_for_account a w))"
| Barrier: "store_step (b, s) (install_barrier operation b, s)"
| Failpoint: "store_step (b, s) (set_failpoint operation e b, s)"
| Clear: "store_step (b, s) (clear_controls b, s)"

inductive_cases store_stepE: "store_step w w'"

lemmas operation_defs =
  compare_and_replace_password_def replace_password_and_bump_epoch_def list_methods_def
  register_login_method_def revoke_login_method_def issue_token_def issue_absent_def
  consume_and_verify_def consume_and_reset_def create_session_def touch_session_def
  revoke_session_for_account_def revoke_sessions_for_account_def revoke_other_sessions_def
  rebind_session_def create_family_def prepare_rotation_def rotate_refresh_def revoke_family_def
  revoke_token_def revoke_token_for_account_def revoke_for_account_def

lemma store_step_good: "store_step w w' \<Longrightarrow> good_step (snd w) (snd w')"
proof (induction rule: store_step.induct)
  case (Register w ids u cmd h ivd pending now)
  have "good_step (snd w) (snd (snd (do_register ids u cmd h ivd pending now (b, snd w))))" for b
    using good_register [of "(b, snd w)"] by simp
  then show ?case
    unfolding register_def by (rule good_observed)
next
  case (Issue raw i w)
  then show ?case
    unfolding operation_defs
    by (intro good_on_store good_issue) (rule token_issue_post_init_valid)
next
  case (Create_Family rawf cf w)
  then show ?case
    unfolding operation_defs
    by (intro good_on_store good_create_family) (rule create_family_command_post_init_valid)
next
  case (Rotate rawr rc w now)
  then show ?case
    unfolding operation_defs
    by (intro good_on_store good_rotate) (rule rotate_command_post_init_valid)
qed (unfold operation_defs, simp_all add: good_on_store good_compare good_bump good_register_method
    good_revoke_method good_verify good_reset good_create_session good_touch good_revoke_session
    good_revoke_sessions good_revoke_others good_rebind good_prepare good_revoke_family_locked
    good_revoke_token good_revoke_token_for_account good_revoke_for_account)

abbreviation history :: "'u world \<Rightarrow> 'u world \<Rightarrow> bool" where
  "history \<equiv> store_step\<^sup>*\<^sup>*"

lemma history_good: "history w w' \<Longrightarrow> good_step (snd w) (snd w')"
  by (induction rule: rtranclp_induct) (auto intro: good_trans dest: store_step_good)

lemma history_ok: "history w w' \<Longrightarrow> store_ok (snd w) \<Longrightarrow> store_ok (snd w') \<and> advances (snd w) (snd w')"
  using history_good [of w w'] by (simp add: good_step_def)

end
