(* ===== verification/Store_Properties.thy ===== *)
theory Store_Properties
  imports Store_Steps
begin

text \<open>
  What the in-memory local account store guarantees over whole histories: purpose tokens are
  consumed once and die after their maximum of failed proofs, epochs only grow, refresh tokens
  rotate once, and a revoked family or an outdated epoch is refused for good.

  The last section evaluates the model on one store; its account, token and commands also serve as
  the instances at which the conditional properties are applied.
\<close>

section \<open>Preflight and rotation, case by case\<close>

lemma prepare_Active:
  assumes "do_prepare_rotation p d now s = (Inr (Active c), s')"
  obtains t a where "token_state s (tp_token_id p) = Some t" "rs_token_digest t = tp_digest p"
    "live_token t" "now < rs_token_expires_at t" "now < rs_family_expires_at t"
    "dget (st_accounts s) (rs_account_id t) = Some a" "acc_epoch a = rs_security_epoch t" "s' = s"
    "refresh_context t = Inr c"
proof -
  obtain t where t: "token_state s (tp_token_id p) = Some t"
    using assms by (auto simp: do_prepare_rotation_def token_state_def split: option.splits)
  from assms t have more: "rs_token_digest t = tp_digest p" "live_token t" "now < rs_token_expires_at t"
    "now < rs_family_expires_at t" "s' = s"
    "\<not> (case dget (st_accounts s) (rs_account_id t) of None \<Rightarrow> True
      | Some a \<Rightarrow> acc_epoch a \<noteq> rs_security_epoch t)" "refresh_context t = Inr c"
    by (auto simp: do_prepare_rotation_def token_state_def live_token_def result_simps
        split: if_splits option.splits)
  then obtain a where "dget (st_accounts s) (rs_account_id t) = Some a"
    "acc_epoch a = rs_security_epoch t"
    by (auto split: option.splits)
  with t more that show thesis by blast
qed

lemma prepare_revoked:
  assumes "token_state s (tp_token_id p) = Some t" "rs_revoked t" "rs_token_digest t = tp_digest p"
  shows "do_prepare_rotation p d now s =
    (Inr (Refused \<lparr>pf_status = Revoked, pf_family_revoked = True\<rparr>), s)"
  using assms by (simp add: do_prepare_rotation_def token_state_def)

lemma rotate_Rotated:
  assumes "valid_rotate c" "do_rotate c now s = (Inr r, s')" "rr_status r = Rotated"
  shows "rotatable c now s" and "s' = rotated c s"
  using assms by (auto simp: do_rotate_cases split: if_splits)

lemma rotate_dead:
  assumes "valid_rotate c" "token_state s (rc_token_id c) = Some t" "\<not> live_token t"
  shows "do_rotate c now s =
    (Inr \<lparr>rr_status = Invalid, rr_sealed_receipt = None, rr_family_revoked = False\<rparr>, s)"
proof -
  have "rotation_stale c s"
    using assms(2,3) unfolding rotation_stale_iff by auto
  moreover have "\<not> rotatable c now s"
    using assms(2,3) unfolding rotatable_def by auto
  ultimately show ?thesis
    using assms(1) by (simp add: do_rotate_cases)
qed

text \<open>A token that is dead stays dead, and so does a whole family once it is revoked.\<close>

lemma dead_later:
  assumes "history w w'" "store_ok (snd w)" "token_state (snd w) k = Some t" "\<not> live_token t"
  obtains t' where "token_state (snd w') k = Some t'" "\<not> live_token t'"
    "rs_revoked t \<longrightarrow> rs_revoked t'" "rs_consumed t \<longrightarrow> rs_consumed t'" "grown t t'"
proof -
  obtain t' where "token_state (snd w') k = Some t'" "grown t t'"
    using history_ok [OF assms(1,2)] assms(3) advances_refreshD by blast
  moreover from this(2) have "\<not> live_token t'" "rs_revoked t \<longrightarrow> rs_revoked t'"
    "rs_consumed t \<longrightarrow> rs_consumed t'"
    using assms(4) by (auto simp: grown_def live_token_def)
  ultimately show thesis using that by blast
qed

section \<open>Properties\<close>

text \<open>C7: Every history from the empty store, whatever its operations, failpoints and interleaving,
  keeps the store well formed: accounts keyed by id with unique login identifiers and exactly one
  password hash each, purpose tokens live or retired but not both and below their attempt limit,
  session records valid under their own id, refresh families uniform with at most one live token.\<close>

theorem store_invariant:
  assumes "history (b, empty_store) w"
  shows "store_ok (snd w)"
  using history_ok [OF assms] by (simp add: store_ok_empty)

text \<open>C11: A purpose token is consumed at most once, for good: after a verification token is consumed,
  every later verification or reset attempt with its id reports it used and changes nothing, and no
  new token can be issued under its id.\<close>

theorem verification_token_single_use:
  assumes "store_ok s" and "do_consume_and_verify k d now s = (Inr r, s1)"
    and "vo_status r = Consumed" and "history (b1, s1) (b2, s2)"
  shows "do_consume_and_verify k d' now' s2 =
           (Inr \<lparr>vo_status = Verification_Used, vo_account_id = None, vo_security_epoch = None\<rparr>, s2) \<and>
         do_consume_and_reset k d' h now' s2 =
           (Inr \<lparr>pr_status = Reset_Used, pr_account_id = None, pr_security_epoch = None\<rparr>, s2) \<and>
         (\<forall>i. ti_token_id i = k \<longrightarrow> do_issue i s2 = (Inl ValueError, s2))"
proof -
  have ok1: "store_ok s1"
    using good_verify [of s k d now] assms(1,2) by (simp add: good_step_def)
  have "k \<in> st_used s1"
    using assms(2,3)
    by (auto simp: do_consume_and_verify_def Let_def split: option.splits if_splits sum.splits)
  then have used: "k \<in> st_used s2"
    using history_ok [OF assms(4)] ok1 advances_usedD [of s1 s2 k] by simp
  have "store_ok s2" using history_ok [OF assms(4)] ok1 by simp
  then have "dget (st_tokens s2) k = None"
    using tokens_okD(2) [of s2 k] used store_okD(3) by (cases "dget (st_tokens s2) k") auto
  with used show ?thesis
    by (auto simp: do_consume_and_verify_def do_consume_and_reset_def do_issue_def token_id_exists_def)
qed

text \<open>Presenting a sequence of proofs for one verification token, and what is left after it.\<close>

fun present_proofs :: "string \<Rightarrow> bytes list \<Rightarrow> time \<Rightarrow> 'u local_store \<Rightarrow> 'u local_store" where
  "present_proofs k [] now s = s"
| "present_proofs k (d # ds) now s = present_proofs k ds now (snd (do_consume_and_verify k d now s))"

definition failures :: "string \<Rightarrow> 'u local_store \<Rightarrow> int" where
  "failures k s = (case dget (st_attempts s) k of None \<Rightarrow> 0 | Some n \<Rightarrow> n)"

lemma failed_proof_effect:
  assumes "tokens_ok s" "dget (st_tokens s) k = Some i" "ti_purpose i = Verification" "ti_digest i \<noteq> d"
  shows "failures k s + 1 < ti_maximum_attempts i \<Longrightarrow>
      dget (st_tokens (snd (do_consume_and_verify k d now s))) k = Some i \<and>
      failures k (snd (do_consume_and_verify k d now s)) = failures k s + 1"
    and "ti_maximum_attempts i \<le> failures k s + 1 \<Longrightarrow>
      dget (st_tokens (snd (do_consume_and_verify k d now s))) k = None \<and>
      k \<in> st_used (snd (do_consume_and_verify k d now s))"
  using assms tokens_okD(1) [OF assms(1,2)]
  by (simp_all add: do_consume_and_verify_def record_failed_proof_def Let_def failures_def
      dict_simps retire_token_def)

lemma present_proofs_ok:
  assumes "store_ok s"
  shows "store_ok (present_proofs k ds now s)"
  using assms
proof (induction ds arbitrary: s)
  case (Cons d ds)
  then show ?case using good_verify [of s k d now] by (simp add: good_step_def)
qed simp

lemma present_wrong_proofs:
  assumes "store_ok s" "dget (st_tokens s) k = Some i" "ti_purpose i = Verification"
    and "\<forall>d\<in>set ds. d \<noteq> ti_digest i" "failures k s + int (length ds) < ti_maximum_attempts i"
  shows "dget (st_tokens (present_proofs k ds now s)) k = Some i \<and>
    failures k (present_proofs k ds now s) = failures k s + int (length ds)"
  using assms
proof (induction ds arbitrary: s)
  case Nil
  then show ?case by simp
next
  case (Cons d ds)
  let ?s' = "snd (do_consume_and_verify k d now s)"
  have "ti_digest i \<noteq> d" using Cons.prems(4) by auto
  then have step: "dget (st_tokens ?s') k = Some i \<and> failures k ?s' = failures k s + 1"
    using Cons.prems failed_proof_effect(1) [OF store_okD(3) [OF Cons.prems(1)] Cons.prems(2,3)] by simp
  have ok: "store_ok ?s'"
    using good_verify [of s k d now] Cons.prems(1) by (simp add: good_step_def)
  have "dget (st_tokens (present_proofs k ds now ?s')) k = Some i \<and>
      failures k (present_proofs k ds now ?s') = failures k ?s' + int (length ds)"
    by (rule Cons.IH [OF ok]) (use step Cons.prems in simp_all)
  then show ?case using step by simp
qed

text \<open>The attempt limit of a purpose token is exact: a fresh verification token survives every
  sequence of fewer wrong proofs than its maximum, and is retired by exactly the maximum-th one,
  after which even the right proof is refused as used.\<close>

theorem attempt_limit_exact:
  assumes "store_ok s" and "dget (st_tokens s) k = Some i" and "ti_purpose i = Verification"
    and "dget (st_attempts s) k = None" and "\<forall>d\<in>set ds. d \<noteq> ti_digest i" and "w \<noteq> ti_digest i"
    and "int (length ds) = ti_maximum_attempts i - 1"
  shows "dget (st_tokens (present_proofs k ds now s)) k = Some i \<and>
         fst (do_consume_and_verify k (ti_digest i) now (present_proofs k (ds @ [w]) now s)) =
           Inr \<lparr>vo_status = Verification_Used, vo_account_id = None, vo_security_epoch = None\<rparr>"
proof -
  have f0: "failures k s = 0" using assms(4) by (simp add: failures_def)
  let ?s1 = "present_proofs k ds now s"
  have p: "dget (st_tokens ?s1) k = Some i \<and> failures k ?s1 = int (length ds)"
    using present_wrong_proofs [OF assms(1-3,5), where now = now] assms(7) f0 by simp
  have app: "present_proofs k (xs @ [w]) now t =
      snd (do_consume_and_verify k w now (present_proofs k xs now t))" for xs and t :: "'a local_store"
    by (induction xs arbitrary: t) simp_all
  let ?s2 = "snd (do_consume_and_verify k w now ?s1)"
  have "tokens_ok ?s1" using present_proofs_ok [OF assms(1)] store_okD(3) by blast
  from failed_proof_effect(2) [OF this, of k i w now] p assms(3,6,7)
  have "dget (st_tokens ?s2) k = None" "k \<in> st_used ?s2" by simp_all
  then have "fst (do_consume_and_verify k (ti_digest i) now ?s2) =
      Inr \<lparr>vo_status = Verification_Used, vo_account_id = None, vo_security_epoch = None\<rparr>"
    by (simp add: do_consume_and_verify_def)
  with p show ?thesis by (simp add: app)
qed

text \<open>Epochs only grow and accounts never disappear: at the end of any history every account of
  its start is still there with the same login identifier, an epoch at least as large, and verified
  if it was; and a successful password change or reset moves the epoch up by exactly one.\<close>

theorem epochs_never_decrease:
  assumes "store_ok s" and "history (b, s) (b', s')" and "dget (st_accounts s) k = Some a"
  shows "(\<exists>a'. dget (st_accounts s') k = Some a' \<and> acc_identifier a' = acc_identifier a \<and>
            acc_epoch a \<le> acc_epoch a' \<and> (acc_verified a \<longrightarrow> acc_verified a')) \<and>
         (\<forall>h e s1 r. do_bump_epoch k h e s = (Inr r, s1) \<longrightarrow> pc_status r = Changed \<longrightarrow>
            e = acc_epoch a \<and> current_epoch k s1 = Some (acc_epoch a + 1) \<and>
            dget (st_passwords s1) k = Some h)"
proof (intro conjI allI impI)
  show "\<exists>a'. dget (st_accounts s') k = Some a' \<and> acc_identifier a' = acc_identifier a \<and>
      acc_epoch a \<le> acc_epoch a' \<and> (acc_verified a \<longrightarrow> acc_verified a')"
    using history_ok [OF assms(2)] assms(1,3) advances_accountD [of s s' k a] by (metis snd_conv)
next
  fix h e s1 r
  assume "do_bump_epoch k h e s = (Inr r, s1)" "pc_status r = Changed"
  then show "e = acc_epoch a" "current_epoch k s1 = Some (acc_epoch a + 1)"
    "dget (st_passwords s1) k = Some h"
    using assms(3)
    by (auto simp: do_bump_epoch_def Let_def account_post_init_Inr_valid current_epoch_def dict_simps
        outcome_defs split: if_splits sum.splits)
qed

text \<open>C9: A refresh token rotates at most once: once a rotation of it has committed, no later
  rotation command for it, however the histories interleave, ever rotates again, and its successor
  was then the only live token of the family.\<close>

theorem refresh_rotation_single_use:
  assumes "store_ok s" and "rotate_command_post_init raw = Inr c"
    and "do_rotate c now s = (Inr r, s1)" and "rr_status r = Rotated"
    and "history (b1, s1) (b2, s2)"
    and "rotate_command_post_init raw' = Inr c'" and "rc_token_id c' = rc_token_id c"
  shows "do_rotate c' now' s2 =
           (Inr \<lparr>rr_status = Invalid, rr_sealed_receipt = None, rr_family_revoked = False\<rparr>, s2) \<and>
         (\<forall>k t. token_state s1 k = Some t \<longrightarrow> rs_family_id t = rc_family_id c \<longrightarrow>
            (live_token t \<longleftrightarrow> k = rc_successor_id c))"
proof -
  have c: "valid_rotate c" "valid_rotate c'"
    using assms(2,6) rotate_command_post_init_valid by blast+
  note rot = rotate_Rotated [OF c(1) assms(3,4)]
  obtain t where t: "token_state s (rc_token_id c) = Some t"
    using rot(1) unfolding rotatable_def by blast
  have ne: "rc_successor_id c \<noteq> rc_token_id c" using c(1) by (simp add: valid_rotate_def)
  note at = token_state_rotated [OF t ne]
  have ok1: "store_ok s1"
    using good_rotate [OF c(1), of s now] assms(1,3) by (simp add: good_step_def)
  have old: "token_state s1 (rc_token_id c) = Some (consumed_state c t)"
    using rot(2) ne by (simp add: at)
  obtain t' where "token_state s2 (rc_token_id c) = Some t'" "\<not> live_token t'"
    using dead_later [OF assms(5) _ _ consumed_state_simps(6) [of c t]] ok1 old by auto
  then have "do_rotate c' now' s2 =
      (Inr \<lparr>rr_status = Invalid, rr_sealed_receipt = None, rr_family_revoked = False\<rparr>, s2)"
    using rotate_dead [OF c(2)] assms(7) by simp
  moreover have "live_token u \<longleftrightarrow> k = rc_successor_id c"
    if u: "token_state s1 k = Some u" "rs_family_id u = rc_family_id c" for k u
  proof -
    have new: "token_state s1 (rc_successor_id c) = Some (successor_state c)"
      using rot(2) by (simp add: at)
    have "k = rc_successor_id c" if "live_token u"
      using refresh_ok_family(4) [OF store_okD(5) [OF ok1] u(1) new] u(2) that by simp
    moreover have "live_token u" if "k = rc_successor_id c"
      using that new u(1) successor_state_simps(5) [of c] by auto
    ultimately show ?thesis by blast
  qed
  ultimately show ?thesis by blast
qed

text \<open>C8: Replay kills the family: presenting an already consumed token with a different
  idempotency key (or none) revokes its whole family in the same operation, and from then on, in
  every later state, preflight refuses each token of the family as revoked and none of them ever
  rotates.\<close>

theorem replay_revokes_family_for_good:
  assumes "store_ok s" and "token_state s (tp_token_id p) = Some t"
    and "rs_token_digest t = tp_digest p" and "rs_consumed t" and "\<not> rs_revoked t"
    and "rs_idempotency_digest t \<noteq> key"
    and "history (b1, snd (do_prepare_rotation p key now s)) (b2, s2)"
    and "token_state s k = Some u" and "rs_family_id u = rs_family_id t"
    and "rotate_command_post_init raw = Inr c" and "rc_token_id c = k"
  shows "fst (do_prepare_rotation p key now s) =
           Inr (Refused \<lparr>pf_status = Replay_Detected, pf_family_revoked = True\<rparr>) \<and>
         do_prepare_rotation \<lparr>tp_token_id = k, tp_digest = rs_token_digest u\<rparr> key' now' s2 =
           (Inr (Refused \<lparr>pf_status = Revoked, pf_family_revoked = True\<rparr>), s2) \<and>
         do_rotate c now' s2 =
           (Inr \<lparr>rr_status = Invalid, rr_sealed_receipt = None, rr_family_revoked = False\<rparr>, s2)"
proof -
  let ?s1 = "snd (do_prepare_rotation p key now s)"
  have d: "do_prepare_rotation p key now s =
      (Inr (Refused \<lparr>pf_status = Replay_Detected, pf_family_revoked = True\<rparr>),
       snd (revoke_family_locked (rs_family_id t) s))"
    using assms(2-6) by (auto simp: do_prepare_rotation_def token_state_def split: option.splits)
  have ok1: "store_ok ?s1"
    using good_prepare [of s p key now] assms(1) by (simp add: good_step_def)
  have u: "token_state ?s1 k = Some (u\<lparr>rs_revoked := True\<rparr>)"
    using token_state_revoke [OF store_okD(5) [OF assms(1)], of "rs_family_id t" k] assms(8,9)
    by (simp add: d)
  obtain v where v: "token_state s2 k = Some v" "\<not> live_token v" "rs_revoked v"
      "grown (u\<lparr>rs_revoked := True\<rparr>) v"
    using dead_later [OF assms(7), of k "u\<lparr>rs_revoked := True\<rparr>"] ok1 u
    by (auto simp: live_token_def)
  then have "rs_token_digest v = rs_token_digest u" by (simp add: grown_def)
  then show ?thesis
    using d v rotate_dead [OF rotate_command_post_init_valid [OF assms(10)], of s2 v now'] assms(11)
      prepare_revoked [of s2 "\<lparr>tp_token_id = k, tp_digest = rs_token_digest u\<rparr>" v]
    by simp
qed

text \<open>C10: Moving an account's epoch cuts off its outstanding refresh tokens: after a committed password
  change, no token issued under the old epoch is ever again active in preflight or rotated, in any
  later state.\<close>

theorem epoch_change_cuts_off_refresh:
  assumes "store_ok s" and "do_bump_epoch k h e s = (Inr r, s1)" and "pc_status r = Changed"
    and "token_state s x = Some t" and "rs_account_id t = k" and "rs_security_epoch t \<le> e"
    and "history (b1, s1) (b2, s2)" and "rotate_command_post_init raw = Inr c" and "rc_token_id c = x"
  shows "(\<forall>d key now ctx s3.
            do_prepare_rotation \<lparr>tp_token_id = x, tp_digest = d\<rparr> key now s2 \<noteq> (Inr (Active ctx), s3)) \<and>
         (\<forall>now o2 s3. do_rotate c now s2 = (Inr o2, s3) \<longrightarrow> rr_status o2 \<noteq> Rotated)"
proof -
  obtain a where a: "dget (st_accounts s) k = Some a" "acc_epoch a = e"
    using assms(2,3) by (auto simp: do_bump_epoch_def outcome_defs split: option.splits if_splits)
  then obtain a1 where a1: "dget (st_accounts s1) k = Some a1" "acc_epoch a1 = e + 1"
    using assms(2,3)
    by (auto simp: do_bump_epoch_def Let_def account_post_init_Inr_valid dict_simps outcome_defs
        split: if_splits sum.splits)
  have ok1: "store_ok s1"
    using good_bump [of s k h e] assms(1,2) by (simp add: good_step_def)
  have adv: "advances s s2"
    using history_ok [OF assms(7)] ok1 good_bump [of s k h e] assms(1,2) advances_trans [of s s1 s2]
    by (simp add: good_step_def)
  obtain a2 where a2: "dget (st_accounts s2) k = Some a2" "e + 1 \<le> acc_epoch a2"
    using history_ok [OF assms(7)] ok1 a1 advances_accountD [of s1 s2 k a1] by (metis snd_conv)
  obtain t2 where t2: "token_state s2 x = Some t2" "grown t t2"
    using adv assms(4) by (rule advances_refreshD)
  then have stale: "rs_account_id t2 = k" "rs_security_epoch t2 < acc_epoch a2"
    using assms(5,6) a2(2) by (simp_all add: grown_def)
  show ?thesis
  proof (intro conjI allI impI notI)
    fix d key now ctx s3
    assume act: "do_prepare_rotation \<lparr>tp_token_id = x, tp_digest = d\<rparr> key now s2 = (Inr (Active ctx), s3)"
    show False
      by (rule prepare_Active [OF act]) (use t2(1) stale a2(1) in simp)
  next
    fix now o2 s3
    assume rot: "do_rotate c now s2 = (Inr o2, s3)" "rr_status o2 = Rotated"
    have c: "valid_rotate c" using assms(8) by (rule rotate_command_post_init_valid)
    show False
      using rotate_Rotated(1) [OF c rot] t2(1) stale a2(1) assms(9)
      unfolding rotatable_def by auto
  qed
qed

text \<open>
  Everything a successful registration does to the store: \<open>a\<close> is the one new account, \<open>h\<close> its password hash,
  the verification token asked for is stored for it, the invitation presented is retired, and nothing else changes.
\<close>

definition verification_issue :: "time pending_issue \<Rightarrow> string \<Rightarrow> time token_issue" where
  "verification_issue p k =
     \<lparr>ti_token_id = pi_token_id p, ti_digest = pi_digest p, ti_purpose = pi_purpose p, ti_expires_at = pi_expires_at p,
      ti_maximum_attempts = pi_maximum_attempts p, ti_account_id = k, ti_issued_epoch = None\<rparr>"

definition invites :: "bytes option \<Rightarrow> time \<Rightarrow> 'u local_store \<Rightarrow> string option \<Rightarrow> bool" where
  "invites digest now s invitation \<longleftrightarrow>
     (case (digest, invitation) of
        (None, None) \<Rightarrow> True
      | (Some d, Some t) \<Rightarrow> (\<exists>i. dget (st_tokens s) t = Some i \<and> ti_purpose i = Invitation \<and> ti_digest i = d \<and>
          now < ti_expires_at i)
      | _ \<Rightarrow> False)"

definition registers_exactly ::
  "'u account \<Rightarrow> string \<Rightarrow> time pending_issue option \<Rightarrow> string option \<Rightarrow> 'u local_store \<Rightarrow> 'u local_store \<Rightarrow> bool" where
  "registers_exactly a h pending invitation s s' \<longleftrightarrow>
     get_by_id (acc_id a) s = None \<and>
     (\<forall>k. get_by_id k s' = (if k = acc_id a then Some a else get_by_id k s)) \<and>
     (\<forall>k. dget (st_passwords s') k = (if k = acc_id a then Some h else dget (st_passwords s) k)) \<and>
     (\<forall>p. pending = Some p \<longrightarrow> \<not> token_id_exists s (pi_token_id p)) \<and>
     (\<forall>t. dget (st_tokens s') t =
        (if invitation = Some t then None
         else if map_option pi_token_id pending = Some t then Some (verification_issue (the pending) (acc_id a))
         else dget (st_tokens s) t)) \<and>
     st_used s' = st_used s \<union> set_option invitation \<and> st_attempts s' = st_attempts s \<and> st_methods s' = st_methods s \<and>
     st_sessions s' = st_sessions s \<and> st_refresh s' = st_refresh s"

lemma bind_issue_verification: "bind_issue p k None = Inr i \<Longrightarrow> i = verification_issue p k"
  by (auto simp: bind_issue_def token_issue_post_init_def validate_pending_token_issue_def verification_issue_def
      result_simps Let_def split: if_splits)

lemma registered_exactly:
  assumes v: "store_verification pending k s = Inr s1" and k: "acc_id a = k" "get_by_id k s = None"
    and fresh: "\<And>p. pending = Some p \<Longrightarrow> \<not> token_id_exists s (pi_token_id p)"
  shows "registers_exactly a h pending (map_option ti_token_id invitation) s (registered k a h invitation s1)"
proof (cases pending)
  case None
  with v have "s1 = s" by (simp add: store_verification_def)
  with None k show ?thesis
    by (cases invitation) (auto simp: registers_exactly_def registered_def get_by_id_def dict_simps Let_def)
next
  case (Some p)
  with v have s1: "s1 = s\<lparr>st_tokens := dset (pi_token_id p) (verification_issue p k) (st_tokens s)\<rparr>"
    using bind_issue_verification [of p k] by (auto simp: store_verification_def result_simps verification_issue_def)
  show ?thesis
    unfolding s1 using Some k fresh [OF Some]
    by (cases invitation) (auto simp: registers_exactly_def registered_def get_by_id_def dict_simps Let_def)
qed

text \<open>C12: Registration is all or nothing. When it creates an account, no account had the identifier or the new
  account id before; the account is active, at epoch 1, carries the display name and user it was given and is
  verified exactly when no verification token was asked for; the store gains that account with the given password
  hash and, when one was asked for, its verification token, bound to the account under an id never used
  before; a presented invitation was live and unexpired, is removed and is marked used; and every
  other account, password, token, session and refresh token is as it was. When it creates none, the store is
  unchanged.\<close>

theorem registration_all_or_nothing:
  assumes "store_ok (snd w)" and "do_register ids u cmd h ivd pending now w = (r, (b, s'))"
  shows "(\<forall>oc. r = Inr oc \<longrightarrow> ro_status oc = Created \<longrightarrow>
            (\<exists>k invitation.
               let a = \<lparr>acc_id = k, acc_identifier = rg_normalized_identifier cmd, acc_display_name = rg_display_name cmd,
                  acc_active = True, acc_verified = (pending = None), acc_epoch = 1, acc_user = Some u\<rparr>
               in ro_account oc = Some a \<and> find_for_login (rg_normalized_identifier cmd) (snd w) = None \<and>
                  invites ivd now (snd w) invitation \<and> registers_exactly a h pending invitation (snd w) s')) \<and>
         ((\<nexists>oc. r = Inr oc \<and> ro_status oc = Created) \<longrightarrow> s' = snd w)"
proof (rule do_register_cases [of ids u cmd h ivd pending now w])
  fix r' b' assume "do_register ids u cmd h ivd pending now w = (r', (b', snd w))"
    "\<And>oc. r' = Inr oc \<Longrightarrow> ro_status oc \<noteq> Created"
  with assms(2) show ?thesis by auto
next
  fix k a b' s1
  assume d: "do_register ids u cmd h ivd pending now w =
      (Inr \<lparr>ro_status = Created, ro_account = Some a\<rparr>,
       (b', registered k a h (find_invitation ivd (snd w)) s1))"
    and v: "store_verification pending k (snd w) = Inr s1"
    and n: "dget (st_accounts (snd w)) k = None"
    and a: "a = \<lparr>acc_id = k, acc_identifier = rg_normalized_identifier cmd,
            acc_display_name = rg_display_name cmd, acc_active = True,
            acc_verified = (pending = None), acc_epoch = 1, acc_user = Some u\<rparr>"
    and f: "\<forall>x\<in>set (dvalues (st_accounts (snd w))). acc_identifier x \<noteq> rg_normalized_identifier cmd"
    and i: "ivd \<noteq> None \<Longrightarrow> \<exists>i. find_invitation ivd (snd w) = Some i \<and> now < ti_expires_at i"
    and p: "\<And>p. pending = Some p \<Longrightarrow> \<not> token_id_exists (snd w) (pi_token_id p)"
  let ?inv = "find_invitation ivd (snd w)"
  have "find_for_login (rg_normalized_identifier cmd) (snd w) = None"
    using f by (simp add: find_for_login_def find_value_None)
  moreover have "invites ivd now (snd w) (map_option ti_token_id ?inv)"
  proof (cases ivd)
    case None
    then show ?thesis by (simp add: invites_def find_invitation_def)
  next
    case (Some x)
    then obtain j where j: "?inv = Some j" "now < ti_expires_at j" using i by auto
    with find_invitation_Some [OF store_okD(3) [OF assms(1)] j(1)] Some show ?thesis
      by (auto simp: invites_def)
  qed
  moreover have "registers_exactly a h pending (map_option ti_token_id ?inv) (snd w) s'"
    using registered_exactly [OF v _ _ p, of a h ?inv] assms(2) d n a by (simp add: get_by_id_def)
  moreover have "r = Inr \<lparr>ro_status = Created, ro_account = Some a\<rparr>"
    using assms(2) d by simp
  ultimately show ?thesis
    unfolding Let_def a by (intro conjI impI allI exI [of _ k] exI [of _ "map_option ti_token_id ?inv"]) auto
qed

text \<open>What an unkeyed retry finds: a token rotated without an idempotency key and presented again
  without one is answered with the stored receipt, and the family stays alive. The conformance
  check of \<^verbatim>\<open>testing.py\<close> demands of a store that unkeyed reuse of a consumed token revokes the
  family; the reference store compares the two absent digests as equal.\<close>

theorem unkeyed_reuse_is_answered_from_the_receipt:
  assumes "store_ok s" and "token_state s (tp_token_id p) = Some t"
    and "rs_token_digest t = tp_digest p" and "rs_consumed t" and "\<not> rs_revoked t"
    and "rs_idempotency_digest t = None"
  shows "\<exists>rx. do_prepare_rotation p None now s = (Inr (Replay rx), s) \<and>
           rs_sealed_receipt t = Some (rx_sealed_receipt rx) \<and>
           fc_family_id (rx_context rx) = rs_family_id t"
proof -
  have v: "valid_state t" using refresh_okD(2) [OF store_okD(5) [OF assms(1)] assms(2)] .
  then obtain b where b: "rs_sealed_receipt t = Some b" "valid_receipt b"
    using assms(4) by (auto simp: valid_state_def split: option.splits)
  show ?thesis
    using assms(2-6) b
    by (auto simp: do_prepare_rotation_def token_state_def valid_state_context [OF v]
        receipt_replay_post_init_def valid_receipt_def)
qed

text \<open>A password change at the last epoch is not atomic: with the account at the largest epoch the
  change raises, yet the new password hash has already replaced the old one while the epoch, and
  with it every session and refresh token, stays valid.\<close>

theorem exhausted_epoch_change_is_partial:
  assumes "store_ok s" and "dget (st_accounts s) k = Some a" and "acc_epoch a = maximum_security_epoch"
  shows "\<exists>s1. do_bump_epoch k h maximum_security_epoch s = (Inl ValueError, s1) \<and>
           dget (st_passwords s1) k = Some h \<and> get_by_id k s1 = Some a"
  using assms
  by (simp add: do_bump_epoch_def account_post_init_def valid_security_epoch_def Let_def dict_simps
      get_by_id_def)

section \<open>The properties on one store\<close>

definition example_id :: "string \<Rightarrow> 8 word \<Rightarrow> string" where
  "example_id prefix n = prefix @ encode_random (replicate 16 n)"

definition example_account :: "unit account" where
  "example_account = \<lparr>acc_id = ''u1'', acc_identifier = ''ada'', acc_display_name = None,
     acc_active = True, acc_verified = False, acc_epoch = 1, acc_user = None\<rparr>"

definition example_issue :: "time token_issue" where
  "example_issue = \<lparr>ti_token_id = example_id ''verification_'' 1, ti_digest = replicate 32 7,
     ti_purpose = Verification, ti_expires_at = 1000, ti_maximum_attempts = 2,
     ti_account_id = ''u1'', ti_issued_epoch = None\<rparr>"

definition example_state :: "8 word \<Rightarrow> refresh_state" where
  "example_state n = \<lparr>rs_token_id = example_id ''rt_'' n, rs_token_digest = replicate 32 n,
     rs_account_id = ''u1'', rs_family_id = example_id ''rf_'' 1, rs_security_epoch = 1,
     rs_token_expires_at = 1000, rs_family_expires_at = 2000, rs_scopes = {},
     rs_consumed = False, rs_revoked = False, rs_idempotency_digest = None,
     rs_sealed_receipt = None\<rparr>"

definition spent_state :: refresh_state where
  "spent_state = (example_state 1)\<lparr>rs_consumed := True, rs_sealed_receipt := Some [1]\<rparr>"

definition example_store :: "unit local_store" where
  "example_store = \<lparr>st_accounts = [(''u1'', example_account)], st_passwords = [(''u1'', ''hash'')],
     st_methods = [], st_attempts = [], st_tokens = [(example_id ''verification_'' 1, example_issue)],
     st_used = {}, st_sessions = [],
     st_refresh = [(example_id ''rt_'' 1, spent_state), (example_id ''rt_'' 2, example_state 2)]\<rparr>"

definition example_rotation :: "'t \<Rightarrow> 't \<Rightarrow> 't rotate_command" where
  "example_rotation soon late = \<lparr>rc_token_id = example_id ''rt_'' 2, rc_token_digest = replicate 32 2,
     rc_account_id = ''u1'', rc_family_id = example_id ''rf_'' 1, rc_security_epoch = 1,
     rc_successor_id = example_id ''rt_'' 3, rc_successor_digest = replicate 32 3,
     rc_successor_expires_at = soon, rc_family_expires_at = late, rc_sealed_receipt = [1],
     rc_receipt_expires_at = soon, rc_idempotency_digest = None, rc_scopes = {},
     rc_evidence = None\<rparr>"

abbreviation example_command :: "time rotate_command" where
  "example_command \<equiv> example_rotation 1000 2000"

lemma example_id_valid [simp]: "valid_identifier (Some p) (example_id p n)"
  unfolding valid_identifier_prefix_iff example_id_def
  by (rule exI [of _ "replicate 16 n"]) (simp add: lookup_bytes_def)

lemma example_id_inject [simp]: "example_id p m = example_id p n \<longleftrightarrow> m = n"
  by (simp add: example_id_def encode_random_inject)

lemma example_text [simp]: "strict_text ''u1''" "strict_text ''ada''" "strict_context_text ''u1''"
  by code_simp+

lemma example_epochs [simp]: "valid_security_epoch 1" "valid_security_epoch 2"
  by (simp_all add: valid_security_epoch_def maximum_security_epoch_def)

lemma example_issue_valid: "valid_issue example_issue"
proof -
  have "valid_token_id (example_id ''verification_'' 1) Verification"
    unfolding valid_token_id_iff example_id_def purpose_prefix_def
    by (rule exI [of _ "replicate 16 1"]) simp
  then show ?thesis
    by (simp add: valid_issue_def example_issue_def digest_bytes_def)
qed

lemma example_states_valid: "valid_state (example_state n)" "valid_state spent_state"
  by (simp_all add: valid_state_def example_state_def spent_state_def valid_receipt_def
      maximum_receipt_bytes_def)

lemma example_tokens:
  "token_state example_store k =
     (if k = example_id ''rt_'' 1 then Some spent_state
      else if k = example_id ''rt_'' 2 then Some (example_state 2) else None)"
  by (simp add: token_state_def example_store_def)

lemma example_store_ok: "store_ok example_store"
proof -
  have "accounts_ok example_store"
    by (simp add: accounts_ok_def example_store_def dict_ok_def example_account_def valid_account_def)
  moreover have "tokens_ok example_store"
    using example_issue_valid
    by (simp add: tokens_ok_def example_store_def dict_ok_def) (simp add: example_issue_def)
  moreover have "sessions_ok example_store"
    by (simp add: sessions_ok_def registry_def example_store_def)
  moreover have "refresh_ok example_store"
  proof (rule refresh_okI)
    show "dict_ok (st_refresh example_store)"
      by (simp add: example_store_def dict_ok_def)
  next
    fix k t assume "token_state example_store k = Some t"
    then show "rs_token_id t = k \<and> valid_state t"
      using example_states_valid
      by (auto simp: example_tokens example_state_def spent_state_def split: if_splits)
  next
    fix k l t u
    assume "token_state example_store k = Some t" "token_state example_store l = Some u"
    then show "rs_account_id t = rs_account_id u \<and> rs_security_epoch t = rs_security_epoch u \<and>
        rs_revoked t = rs_revoked u \<and> (live_token t \<longrightarrow> live_token u \<longrightarrow> k = l)"
      by (auto simp: example_tokens example_state_def spent_state_def live_token_def split: if_splits)
  qed
  ultimately show ?thesis by (simp add: store_ok_def account_side_def)
qed

lemma example_command_valid:
  "rotate_command_post_init (example_rotation (Aware 1000) (Aware 2000)) = Inr example_command"
  by (simp add: rotate_command_post_init_def example_rotation_def digest_bytes_def
      maximum_receipt_bytes_def)

lemma example_rotates:
  "do_rotate example_command 0 example_store =
     (Inr \<lparr>rr_status = Rotated, rr_sealed_receipt = Some [1], rr_family_revoked = False\<rparr>,
      rotated example_command example_store)"
proof -
  have "rotatable example_command 0 example_store"
    unfolding rotatable_def
    by (simp add: example_tokens example_rotation_def example_state_def live_token_def)
      (simp add: example_store_def example_account_def)
  moreover have "rc_sealed_receipt example_command = [1]"
    by (simp add: example_rotation_def)
  ultimately show ?thesis
    using do_rotate_cases [OF rotate_command_post_init_valid [OF example_command_valid],
        of 0 example_store]
    by simp
qed

theorem store_invariant_witness:
  "store_ok (snd (snd (register (\<lambda>_ _. ''u1'') () \<lparr>rg_normalized_identifier = ''ada'',
     rg_display_name = None\<rparr> ''hash'' None None 0 (empty_backend, empty_store))))"
  by (rule store_invariant [OF r_into_rtranclp]) (rule store_step.Register)

theorem verification_token_single_use_witness:
  "fst (do_consume_and_verify (example_id ''verification_'' 1) [] 0
     (snd (do_consume_and_verify (example_id ''verification_'' 1) (replicate 32 7) 0 example_store))) =
   Inr \<lparr>vo_status = Verification_Used, vo_account_id = None, vo_security_epoch = None\<rparr>"
proof -
  let ?r = "do_consume_and_verify (example_id ''verification_'' 1) (replicate 32 7) 0 example_store"
  have "fst ?r = Inr \<lparr>vo_status = Consumed, vo_account_id = Some ''u1'', vo_security_epoch = Some 1\<rparr>"
    by (simp add: do_consume_and_verify_def example_store_def)
      (simp add: example_issue_def example_account_def account_post_init_def Let_def)
  then have "?r = (Inr \<lparr>vo_status = Consumed, vo_account_id = Some ''u1'',
      vo_security_epoch = Some 1\<rparr>, snd ?r)"
    by (metis prod.collapse)
  from verification_token_single_use [OF example_store_ok this _ rtranclp.rtrancl_refl] show ?thesis
    by simp
qed

theorem attempt_limit_exact_witness:
  "fst (do_consume_and_verify (example_id ''verification_'' 1) (replicate 32 7) 0
     (present_proofs (example_id ''verification_'' 1) [[], []] 0 example_store)) =
   Inr \<lparr>vo_status = Verification_Used, vo_account_id = None, vo_security_epoch = None\<rparr>"
  using attempt_limit_exact [OF example_store_ok, of "example_id ''verification_'' 1" example_issue
      "[[]]" "[]" 0]
  by (simp add: example_store_def example_issue_def)

theorem epochs_never_decrease_witness:
  "current_epoch ''u1'' (snd (do_bump_epoch ''u1'' ''new'' 1 example_store)) = Some 2"
proof -
  let ?r = "do_bump_epoch ''u1'' ''new'' 1 example_store"
  have a: "dget (st_accounts example_store) ''u1'' = Some example_account"
    by (simp add: example_store_def)
  have "?r = (Inr \<lparr>pc_status = Changed, pc_security_epoch = Some 2\<rparr>, snd ?r)"
    using a by (simp add: do_bump_epoch_def)
      (simp add: example_account_def account_post_init_def Let_def)
  then show ?thesis
    using epochs_never_decrease [OF example_store_ok rtranclp.rtrancl_refl a]
    by (metis (no_types, lifting) example_account_def account.select_convs(6) one_add_one
        password_change_outcome.select_convs(1))
qed

theorem refresh_rotation_single_use_witness:
  "fst (do_rotate example_command 0 (rotated example_command example_store)) =
   Inr \<lparr>rr_status = Invalid, rr_sealed_receipt = None, rr_family_revoked = False\<rparr>"
  using refresh_rotation_single_use [OF example_store_ok example_command_valid example_rotates _
      rtranclp.rtrancl_refl example_command_valid]
  by simp

theorem replay_revokes_family_for_good_witness:
  "fst (do_rotate example_command 0 (snd (do_prepare_rotation
     \<lparr>tp_token_id = example_id ''rt_'' 1, tp_digest = replicate 32 1\<rparr> (Some []) 0 example_store))) =
   Inr \<lparr>rr_status = Invalid, rr_sealed_receipt = None, rr_family_revoked = False\<rparr>"
  using replay_revokes_family_for_good [OF example_store_ok,
      of "\<lparr>tp_token_id = example_id ''rt_'' 1, tp_digest = replicate 32 1\<rparr>" spent_state "Some []",
      OF _ _ _ _ _ rtranclp.rtrancl_refl _ _ example_command_valid,
      of "example_id ''rt_'' 2" "example_state 2"]
  by (simp add: example_tokens spent_state_def example_state_def example_rotation_def)

theorem epoch_change_cuts_off_refresh_witness:
  "\<nexists>o2 s3. do_rotate example_command 0 (snd (do_bump_epoch ''u1'' ''new'' 1 example_store)) =
     (Inr o2, s3) \<and> rr_status o2 = Rotated"
proof -
  let ?r = "do_bump_epoch ''u1'' ''new'' 1 example_store"
  have "dget (st_accounts example_store) ''u1'' = Some example_account"
    by (simp add: example_store_def)
  then have r: "?r = (Inr \<lparr>pc_status = Changed, pc_security_epoch = Some 2\<rparr>, snd ?r)"
    by (simp add: do_bump_epoch_def) (simp add: example_account_def account_post_init_def Let_def)
  have p: "pc_status \<lparr>pc_status = Changed, pc_security_epoch = Some 2\<rparr> = Changed"
    by simp
  have t: "token_state example_store (example_id ''rt_'' 2) = Some (example_state 2)"
    by (simp add: example_tokens)
  have a: "rs_account_id (example_state 2) = ''u1''" "rs_security_epoch (example_state 2) \<le> 1"
    "rc_token_id example_command = example_id ''rt_'' 2"
    by (simp_all add: example_state_def example_rotation_def)
  show ?thesis
    using epoch_change_cuts_off_refresh [OF example_store_ok r p t a(1,2) rtranclp.rtrancl_refl
        example_command_valid a(3)]
    by blast
qed

definition example_invitation :: "time token_issue" where
  "example_invitation = \<lparr>ti_token_id = example_id ''invitation_'' 5, ti_digest = replicate 32 5,
     ti_purpose = Invitation, ti_expires_at = 1000, ti_maximum_attempts = 2,
     ti_account_id = ''u1'', ti_issued_epoch = None\<rparr>"

definition inviting_store :: "unit local_store" where
  "inviting_store = example_store\<lparr>st_tokens := [(example_id ''invitation_'' 5, example_invitation)]\<rparr>"

definition example_pending :: "time pending_issue" where
  "example_pending = \<lparr>pi_token_id = example_id ''verification_'' 6, pi_digest = replicate 32 6,
     pi_purpose = Verification, pi_expires_at = 2000, pi_maximum_attempts = 3\<rparr>"

lemma example_token_ids:
  "valid_token_id (example_id ''invitation_'' n) Invitation" "valid_token_id (example_id ''verification_'' n) Verification"
  unfolding valid_token_id_iff example_id_def purpose_prefix_def by (rule exI [of _ "replicate 16 n"], simp)+

lemma inviting_store_ok: "store_ok inviting_store"
proof -
  have "valid_issue example_invitation"
    using example_token_ids(1) [of 5] by (simp add: valid_issue_def example_invitation_def digest_bytes_def)
  then have "tokens_ok inviting_store"
    by (simp add: tokens_ok_def inviting_store_def example_store_def example_invitation_def dict_ok_def)
  then show ?thesis
    using example_store_ok
    by (simp add: store_ok_def account_side_def accounts_ok_def sessions_ok_def registry_def refresh_ok_def token_state_def
        inviting_store_def)
qed

lemma example_id_prefix [simp]: "example_id ''invitation_'' m \<noteq> example_id ''verification_'' n"
  by (simp add: example_id_def)

text \<open>An invited registration with a verification mail, and a second one under the same identifier.\<close>

theorem registration_all_or_nothing_witness:
  "(let (r, (b, s)) = do_register (\<lambda>_ _. ''u2'') () \<lparr>rg_normalized_identifier = ''bob'', rg_display_name = Some ''Bob''\<rparr>
        ''hash'' (Some (replicate 32 5)) (Some example_pending) 10 (empty_backend, inviting_store);
      a = \<lparr>acc_id = ''u2'', acc_identifier = ''bob'', acc_display_name = Some ''Bob'', acc_active = True,
        acc_verified = False, acc_epoch = 1, acc_user = Some ()\<rparr>
    in r = Inr \<lparr>ro_status = Created, ro_account = Some a\<rparr> \<and>
       registers_exactly a ''hash'' (Some example_pending) (Some (example_id ''invitation_'' 5)) inviting_store s) \<and>
   snd (snd (do_register (\<lambda>_ _. ''u2'') () \<lparr>rg_normalized_identifier = ''ada'',
     rg_display_name = None\<rparr> ''hash'' None None 0 (empty_backend, inviting_store))) = inviting_store"
proof -
  let ?w = "(empty_backend, inviting_store)"
  let ?cmd = "\<lparr>rg_normalized_identifier = ''bob'', rg_display_name = Some ''Bob''\<rparr>"
  let ?a = "\<lparr>acc_id = ''u2'', acc_identifier = ''bob'', acc_display_name = Some ''Bob'', acc_active = True,
        acc_verified = False, acc_epoch = 1, acc_user = Some ()\<rparr>"
  obtain r b s where run: "do_register (\<lambda>_ _. ''u2'') () ?cmd ''hash'' (Some (replicate 32 5)) (Some example_pending) 10 ?w =
      (r, (b, s))" by (metis prod.exhaust)
  have texts: "strict_text ''u2''" "strict_text ''bob''" "strict_text ''Bob''" "strip ''u2'' \<noteq> []" by code_simp+
  have "bind_issue example_pending ''u2'' None = Inr (verification_issue example_pending ''u2'')"
    using example_token_ids(2) [of 6] texts(1)
    by (simp add: bind_issue_def token_issue_post_init_def validate_pending_token_issue_def verification_issue_def
        example_pending_def digest_bytes_def Let_def)
  then obtain s1 where verification: "store_verification (Some example_pending) ''u2'' inviting_store = Inr s1"
    by (simp add: store_verification_def)
  have invitation: "find_invitation (Some (replicate 32 5)) inviting_store = Some example_invitation"
    by (simp add: find_invitation_def find_value_def inviting_store_def example_invitation_def)
  have store: "dget (st_accounts inviting_store) ''u2'' = None" "\<not> token_id_exists inviting_store (pi_token_id example_pending)"
    "\<not> (\<exists>a\<in>set (dvalues (st_accounts inviting_store)). acc_identifier a = ''bob'')"
    using example_id_prefix [of 5 6, symmetric]
    by (simp_all add: inviting_store_def example_store_def example_account_def token_id_exists_def example_pending_def)
  have "account_post_init ?a = Inr ?a"
    using texts by (simp add: account_post_init_def)
  then have r: "r = Inr \<lparr>ro_status = Created, ro_account = Some ?a\<rparr>"
    using run texts(4) invitation store verification
    by (auto simp: do_register_def next_identifier_def Let_def example_invitation_def outcome_defs)
  have "registers_exactly ?a ''hash'' (Some example_pending) (Some (example_id ''invitation_'' 5)) inviting_store s"
    using registration_all_or_nothing [OF _ run] inviting_store_ok r
    by (auto simp: invites_def inviting_store_def Let_def split: option.splits if_splits)
  moreover have "do_register (\<lambda>_ _. ''u2'') () \<lparr>rg_normalized_identifier = ''ada'',
     rg_display_name = None\<rparr> ''hash'' None None 0 ?w = (Inr \<lparr>ro_status = Duplicate, ro_account = None\<rparr>, ?w)"
    by (simp add: do_register_def inviting_store_def example_store_def example_account_def outcome_defs Let_def)
  ultimately show ?thesis
    using run r registration_all_or_nothing [of ?w] inviting_store_ok by simp
qed

theorem unkeyed_reuse_is_answered_from_the_receipt_witness:
  "snd (do_prepare_rotation \<lparr>tp_token_id = example_id ''rt_'' 1, tp_digest = replicate 32 1\<rparr>
     None 0 example_store) = example_store"
  using unkeyed_reuse_is_answered_from_the_receipt [OF example_store_ok,
      of "\<lparr>tp_token_id = example_id ''rt_'' 1, tp_digest = replicate 32 1\<rparr>" spent_state 0]
  by (auto simp: example_tokens spent_state_def example_state_def)

definition exhausted_store :: "unit local_store" where
  "exhausted_store = \<lparr>st_accounts =
       [(''u1'', example_account\<lparr>acc_epoch := maximum_security_epoch\<rparr>)],
     st_passwords = [(''u1'', ''hash'')], st_methods = [], st_attempts = [], st_tokens = [],
     st_used = {}, st_sessions = [], st_refresh = []\<rparr>"

theorem exhausted_epoch_change_is_partial_witness:
  "\<exists>s1. do_bump_epoch ''u1'' ''new'' maximum_security_epoch exhausted_store = (Inl ValueError, s1) \<and>
     dget (st_passwords s1) ''u1'' = Some ''new''"
proof -
  have "store_ok exhausted_store"
    by (simp add: store_ok_def account_side_def accounts_ok_def tokens_ok_def sessions_ok_def
        registry_def refresh_ok_def token_state_def exhausted_store_def dict_ok_def
        example_account_def valid_account_def valid_security_epoch_def maximum_security_epoch_def)
  then show ?thesis
    using exhausted_epoch_change_is_partial [of exhausted_store "''u1''" _ "''new''"]
    by (auto simp: exhausted_store_def)
qed

end
