(* ===== verification/One_Shot.thy ===== *)
theory One_Shot
  imports Prelude
begin

text \<open>
  The contract shared by the stores of one-time secrets: \<^verbatim>\<open>WebAuthnChallengeStore\<close>,
  \<^verbatim>\<open>MFALoginChallengeStore\<close> and \<^verbatim>\<open>StepUpStore\<close>. A record is put under a digest; a consumption
  removes whatever is stored under the digest it presents and returns it only when every binding
  of the request matches. From these laws follow, once for all three, that a record has a single
  winner and that a wrong request burns it.
\<close>

datatype ('r, 'q) one_shot_command = Put 'r | Consume 'q

locale one_shot =
  fixes put :: "'r \<Rightarrow> 's \<Rightarrow> 's"
    and consume :: "'q \<Rightarrow> 's \<Rightarrow> 'r option \<times> 's"
    and content :: "'s \<Rightarrow> 'k \<Rightarrow> 'r option"
    and record_key :: "'r \<Rightarrow> 'k"
    and request_key :: "'q \<Rightarrow> 'k"
    and matches :: "'q \<Rightarrow> 'r \<Rightarrow> bool"
  assumes put_content: "content (put r s) = (content s)(record_key r \<mapsto> r)"
    and consume_content: "content (snd (consume q s)) = (content s)(request_key q := None)"
    and consume_result: "fst (consume q s) =
      (case content s (request_key q) of
         None \<Rightarrow> None | Some r \<Rightarrow> if matches q r then Some r else None)"
begin

fun run :: "('r, 'q) one_shot_command list \<Rightarrow> 's \<Rightarrow> 'r option list \<times> 's" where
  "run [] s = ([], s)"
| "run (Put r # cmds) s = run cmds (put r s)"
| "run (Consume q # cmds) s =
     (case consume q s of (a, s1) \<Rightarrow> (case run cmds s1 of (rs, s2) \<Rightarrow> (a # rs, s2)))"

lemma run_Consume [simp]:
  "fst (run (Consume q # cmds) s) = fst (consume q s) # fst (run cmds (snd (consume q s)))"
  "snd (run (Consume q # cmds) s) = snd (run cmds (snd (consume q s)))"
  by (simp_all split: prod.splits)

lemma winner:
  "fst (consume q s) = Some r \<Longrightarrow> content s (request_key q) = Some r \<and> matches q r"
  by (auto simp: consume_result split: option.splits if_splits)

lemma winner_iff:
  "fst (consume q s) = Some r \<longleftrightarrow> content s (request_key q) = Some r \<and> matches q r"
  by (auto simp: consume_result split: option.splits if_splits)

lemma burnt: "fst (consume q' (snd (consume q s))) = None" if "request_key q' = request_key q"
  using that by (simp add: consume_result consume_content)

lemma absent_stays:
  assumes "content s k = None" and "\<forall>r. Put r \<in> set cmds \<longrightarrow> record_key r \<noteq> k"
  shows "content (snd (run cmds s)) k = None"
  using assms
proof (induction cmds arbitrary: s)
  case (Cons c cmds)
  then show ?case
  proof (cases c)
    case (Put r)
    with Cons.prems have "content (put r s) k = None" by (auto simp: put_content)
    with Cons Put show ?thesis by simp
  next
    case (Consume q)
    with Cons.prems have "content (snd (consume q s)) k = None" by (simp add: consume_content)
    with Cons Consume show ?thesis by (simp del: run.simps(3))
  qed
qed simp

text \<open>Whatever happens after a consumption, its digest yields nothing until it is put again.\<close>

lemma burnt_for_good:
  assumes "request_key q' = request_key q"
    and "\<forall>r. Put r \<in> set cmds \<longrightarrow> record_key r \<noteq> request_key q"
  shows "fst (consume q' (snd (run cmds (snd (consume q s))))) = None"
proof -
  have "content (snd (consume q s)) (request_key q) = None"
    by (simp add: consume_content)
  from absent_stays [OF this assms(2)] show ?thesis
    using assms(1) by (simp add: consume_result)
qed

text \<open>Counting: the winners for a digest never outnumber the records stored under it.\<close>

definition wins :: "'k \<Rightarrow> 'r option list \<Rightarrow> nat" where
  "wins k rs = length (filter (\<lambda>a. case a of None \<Rightarrow> False | Some r \<Rightarrow> record_key r = k) rs)"

fun puts :: "'k \<Rightarrow> ('r, 'q) one_shot_command list \<Rightarrow> nat" where
  "puts k [] = 0"
| "puts k (Put r # cmds) = (if record_key r = k then 1 else 0) + puts k cmds"
| "puts k (Consume q # cmds) = puts k cmds"

lemma wins_simps [simp]:
  "wins k [] = 0"
  "wins k (None # rs) = wins k rs"
  "wins k (Some r # rs) = (if record_key r = k then 1 else 0) + wins k rs"
  by (simp_all add: wins_def)

lemma wins_bounded:
  assumes "\<forall>x r. content s x = Some r \<longrightarrow> record_key r = x"
  shows "wins k (fst (run cmds s)) \<le> (if content s k = None then 0 else 1) + puts k cmds"
  using assms
proof (induction cmds arbitrary: s)
  case Nil
  then show ?case by simp
next
  case (Cons c cmds)
  show ?case
  proof (cases c)
    case (Put r)
    have "\<forall>x q. content (put r s) x = Some q \<longrightarrow> record_key q = x"
      using Cons.prems by (auto simp: put_content)
    from Cons.IH [OF this] show ?thesis
      by (auto simp: Put put_content split: if_splits)
  next
    case (Consume q)
    have "\<forall>x r. content (snd (consume q s)) x = Some r \<longrightarrow> record_key r = x"
      using Cons.prems by (auto simp: consume_content)
    note IH = Cons.IH [OF this]
    show ?thesis
    proof (cases "fst (consume q s)")
      case None
      with IH show ?thesis
        by (auto simp: Consume consume_content simp del: run.simps(3) split: if_splits)
    next
      case (Some r)
      then have "content s (request_key q) = Some r" by (simp add: winner)
      moreover from this have "record_key r = request_key q" using Cons.prems by blast
      ultimately show ?thesis
        using IH Some by (auto simp: Consume consume_content simp del: run.simps(3) split: if_splits)
    qed
  qed
qed

end

text \<open>
  The dictionary all three stores are: put is \<^verbatim>\<open>d[r.digest] = r\<close>, consume is \<^verbatim>\<open>d.pop(digest, None)\<close>
  followed by the binding checks.
\<close>

definition pop_if :: "'k \<Rightarrow> ('r \<Rightarrow> bool) \<Rightarrow> ('k, 'r) dict \<Rightarrow> 'r option \<times> ('k, 'r) dict" where
  "pop_if k ok d =
     (case dget d k of
        None \<Rightarrow> (None, d)
      | Some r \<Rightarrow> (if ok r then Some r else None, ddel k d))"

lemma pop_if_result:
  "fst (pop_if k ok d) =
     (case dget d k of None \<Rightarrow> None | Some r \<Rightarrow> if ok r then Some r else None)"
  by (simp add: pop_if_def split: option.splits)

lemma pop_if_content: "dget (snd (pop_if k ok d)) = (dget d)(k := None)"
  by (rule ext) (simp add: pop_if_def dict_simps split: option.splits)

lemma dget_dset_fun: "dget (dset k r d) = (dget d)(k \<mapsto> r)"
  by (rule ext) (simp add: dict_simps)

end
