(* ===== verification/Challenge_Stores.thy ===== *)
theory Challenge_Stores
  imports One_Shot Internal Context
begin

text \<open>
  The one-time records of the library and their in-memory stores: WebAuthn challenges
  (\<^verbatim>\<open>accounts/_passkeys.py\<close>), MFA login challenges (\<^verbatim>\<open>accounts/_mfa_login.py\<close>) and step-up
  grants (\<^verbatim>\<open>accounts/_mfa.py\<close>), with \<^verbatim>\<open>InMemoryWebAuthnChallengeStore\<close>,
  \<^verbatim>\<open>InMemoryMFALoginChallengeStore\<close> and \<^verbatim>\<open>InMemoryStepUpStore\<close> of \<^verbatim>\<open>testing.py\<close>. Each store
  interprets the \<open>one_shot\<close> contract.
\<close>

definition sha256_bytes :: nat where "sha256_bytes = 32"

section \<open>WebAuthn challenges\<close>

datatype user_verification = UV_Required | UV_Preferred | UV_Discouraged

record 't webauthn_challenge =
  wc_challenge_digest :: bytes
  wc_binding_digest :: bytes
  wc_purpose :: string
  wc_account_id :: string
  wc_rp_id :: string
  wc_origins :: "string list"
  wc_user_verification :: user_verification
  wc_algorithms :: "int list"
  wc_expires_at :: 't

definition webauthn_challenge_post_init ::
  "py_datetime webauthn_challenge \<Rightarrow> time webauthn_challenge result" where
  "webauthn_challenge_post_init c =
     bind (aware_utc_time (wc_expires_at c)) (\<lambda>expires_at.
       if length (wc_challenge_digest c) \<noteq> sha256_bytes \<or>
          length (wc_binding_digest c) \<noteq> sha256_bytes \<or>
          \<not> strict_context_text (wc_purpose c) \<or> \<not> strict_context_text (wc_account_id c) \<or>
          \<not> strict_context_text (wc_rp_id c) \<or> wc_origins c = [] \<or>
          \<not> list_all strict_context_text (wc_origins c)
       then Inl ValueError
       else Inr \<lparr>wc_challenge_digest = wc_challenge_digest c,
                 wc_binding_digest = wc_binding_digest c, wc_purpose = wc_purpose c,
                 wc_account_id = wc_account_id c, wc_rp_id = wc_rp_id c,
                 wc_origins = wc_origins c, wc_user_verification = wc_user_verification c,
                 wc_algorithms = wc_algorithms c, wc_expires_at = expires_at\<rparr>)"

type_synonym webauthn_store = "(bytes, time webauthn_challenge) dict"

record webauthn_request =
  wq_challenge_digest :: bytes
  wq_binding_digest :: bytes
  wq_purpose :: string
  wq_now :: time

definition webauthn_put :: "time webauthn_challenge \<Rightarrow> webauthn_store \<Rightarrow> webauthn_store" where
  "webauthn_put challenge s = dset (wc_challenge_digest challenge) challenge s"

definition webauthn_matches :: "webauthn_request \<Rightarrow> time webauthn_challenge \<Rightarrow> bool" where
  "webauthn_matches q challenge \<longleftrightarrow>
     wc_binding_digest challenge = wq_binding_digest q \<and> wc_purpose challenge = wq_purpose q \<and>
     \<not> wc_expires_at challenge \<le> wq_now q"

definition webauthn_consume ::
  "webauthn_request \<Rightarrow> webauthn_store \<Rightarrow> time webauthn_challenge option \<times> webauthn_store" where
  "webauthn_consume q s = pop_if (wq_challenge_digest q) (webauthn_matches q) s"

interpretation webauthn: one_shot webauthn_put webauthn_consume map_of wc_challenge_digest
  wq_challenge_digest webauthn_matches
  by unfold_locales
    (simp_all add: webauthn_put_def webauthn_consume_def dget_dset_fun pop_if_content pop_if_result)

section \<open>MFA login challenges\<close>

definition maximum_mfa_login_ttl :: time where "maximum_mfa_login_ttl = seconds 600"

record 't mfa_login_challenge =
  ml_challenge_digest :: bytes
  ml_account_id :: string
  ml_security_epoch :: int
  ml_client_key :: "string option"
  ml_issued_at :: 't
  ml_expires_at :: 't

definition mfa_login_challenge_post_init ::
  "py_datetime mfa_login_challenge \<Rightarrow> time mfa_login_challenge result" where
  "mfa_login_challenge_post_init c =
     bind (aware_utc_time (ml_issued_at c)) (\<lambda>issued_at.
     bind (aware_utc_time (ml_expires_at c)) (\<lambda>expires_at.
       if length (ml_challenge_digest c) \<noteq> sha256_bytes \<or>
          \<not> strict_context_text (ml_account_id c) \<or>
          \<not> valid_security_epoch (ml_security_epoch c) \<or>
          (case ml_client_key c of None \<Rightarrow> False | Some k \<Rightarrow> \<not> strict_context_text k) \<or>
          expires_at \<le> issued_at \<or> expires_at - issued_at > maximum_mfa_login_ttl
       then Inl ValueError
       else Inr \<lparr>ml_challenge_digest = ml_challenge_digest c, ml_account_id = ml_account_id c,
                 ml_security_epoch = ml_security_epoch c, ml_client_key = ml_client_key c,
                 ml_issued_at = issued_at, ml_expires_at = expires_at\<rparr>))"

type_synonym mfa_login_store = "(bytes, time mfa_login_challenge) dict"

record mfa_login_request =
  mq_challenge_digest :: bytes
  mq_account_id :: string
  mq_security_epoch :: int
  mq_now :: time

definition mfa_login_put :: "time mfa_login_challenge \<Rightarrow> mfa_login_store \<Rightarrow> mfa_login_store" where
  "mfa_login_put challenge s = dset (ml_challenge_digest challenge) challenge s"

definition mfa_login_matches :: "mfa_login_request \<Rightarrow> time mfa_login_challenge \<Rightarrow> bool" where
  "mfa_login_matches q challenge \<longleftrightarrow>
     ml_account_id challenge = mq_account_id q \<and>
     ml_security_epoch challenge = mq_security_epoch q \<and> \<not> ml_expires_at challenge \<le> mq_now q"

definition mfa_login_consume ::
  "mfa_login_request \<Rightarrow> mfa_login_store \<Rightarrow> time mfa_login_challenge option \<times> mfa_login_store" where
  "mfa_login_consume q s = pop_if (mq_challenge_digest q) (mfa_login_matches q) s"

interpretation mfa_login: one_shot mfa_login_put mfa_login_consume map_of ml_challenge_digest
  mq_challenge_digest mfa_login_matches
  by unfold_locales
    (simp_all add: mfa_login_put_def mfa_login_consume_def dget_dset_fun pop_if_content pop_if_result)

section \<open>Step-up grants\<close>

definition maximum_step_up_ttl :: time where "maximum_step_up_ttl = seconds 900"

record 't step_up_grant =
  sg_grant_digest :: bytes
  sg_transport_digest :: bytes
  sg_principal_id :: string
  sg_security_epoch :: int
  sg_purpose :: string
  sg_methods :: "string set"
  sg_traits :: "string set"
  sg_authenticated_at :: 't
  sg_expires_at :: 't

definition step_up_grant_post_init :: "py_datetime step_up_grant \<Rightarrow> time step_up_grant result" where
  "step_up_grant_post_init g =
     bind (aware_utc_time (sg_authenticated_at g)) (\<lambda>authenticated_at.
     bind (aware_utc_time (sg_expires_at g)) (\<lambda>expires_at.
       if \<not> strict_context_text (sg_principal_id g) \<or>
          \<not> valid_security_epoch (sg_security_epoch g) \<or>
          \<not> strict_context_text (sg_purpose g) \<or>
          length (sg_grant_digest g) \<noteq> sha256_bytes \<or>
          length (sg_transport_digest g) \<noteq> sha256_bytes \<or>
          expires_at \<le> authenticated_at \<or> expires_at - authenticated_at > maximum_step_up_ttl
       then Inl ValueError
       else Inr \<lparr>sg_grant_digest = sg_grant_digest g,
                 sg_transport_digest = sg_transport_digest g,
                 sg_principal_id = sg_principal_id g, sg_security_epoch = sg_security_epoch g,
                 sg_purpose = sg_purpose g, sg_methods = sg_methods g, sg_traits = sg_traits g,
                 sg_authenticated_at = authenticated_at, sg_expires_at = expires_at\<rparr>))"

type_synonym step_up_store = "(bytes, time step_up_grant) dict"

record step_up_request =
  sq_grant_digest :: bytes
  sq_principal_id :: string
  sq_security_epoch :: int
  sq_purpose :: string
  sq_transport_digest :: bytes
  sq_now :: time

definition step_up_put :: "time step_up_grant \<Rightarrow> step_up_store \<Rightarrow> step_up_store" where
  "step_up_put g s = dset (sg_grant_digest g) g s"

definition step_up_matches :: "step_up_request \<Rightarrow> time step_up_grant \<Rightarrow> bool" where
  "step_up_matches q g \<longleftrightarrow>
     sg_principal_id g = sq_principal_id q \<and> sg_security_epoch g = sq_security_epoch q \<and>
     sg_purpose g = sq_purpose q \<and> sg_transport_digest g = sq_transport_digest q \<and>
     \<not> sg_expires_at g \<le> sq_now q"

definition step_up_consume ::
  "step_up_request \<Rightarrow> step_up_store \<Rightarrow> time step_up_grant option \<times> step_up_store" where
  "step_up_consume q s = pop_if (sq_grant_digest q) (step_up_matches q) s"

interpretation step_up: one_shot step_up_put step_up_consume map_of sg_grant_digest
  sq_grant_digest step_up_matches
  by unfold_locales
    (simp_all add: step_up_put_def step_up_consume_def dget_dset_fun pop_if_content pop_if_result)

section \<open>Properties\<close>

text \<open>A run of each in-memory store from empty: the outcomes of its puts and consumptions in order.\<close>

definition webauthn_outcomes ::
  "(time webauthn_challenge, webauthn_request) one_shot_command list \<Rightarrow>
     time webauthn_challenge option list" where
  "webauthn_outcomes cmds = fst (webauthn.run cmds [])"

definition mfa_login_outcomes ::
  "(time mfa_login_challenge, mfa_login_request) one_shot_command list \<Rightarrow>
     time mfa_login_challenge option list" where
  "mfa_login_outcomes cmds = fst (mfa_login.run cmds [])"

definition step_up_outcomes ::
  "(time step_up_grant, step_up_request) one_shot_command list \<Rightarrow>
     time step_up_grant option list" where
  "step_up_outcomes cmds = fst (step_up.run cmds [])"

text \<open>C28: One-time records have one winner: from an empty store, over any sequence of puts and
  consumptions, each challenge or grant digest is redeemed at most as often as it was put, for
  WebAuthn challenges, MFA login challenges and step-up grants alike.\<close>

theorem one_time_records_single_winner:
  "webauthn.wins d (webauthn_outcomes cmds) \<le> webauthn.puts d cmds \<and>
   mfa_login.wins e (mfa_login_outcomes cmds') \<le> mfa_login.puts e cmds' \<and>
   step_up.wins f (step_up_outcomes cmds'') \<le> step_up.puts f cmds''"
  unfolding webauthn_outcomes_def mfa_login_outcomes_def step_up_outcomes_def
  using webauthn.wins_bounded [of "[]" d cmds] mfa_login.wins_bounded [of "[]" e cmds']
    step_up.wins_bounded [of "[]" f cmds'']
  by simp

text \<open>A failed reveal burns the record: whatever one consumption of a digest asked for, right or
  wrong account, purpose, binding or instant, no later consumption of it succeeds until the digest
  is put again, for all three stores.\<close>

theorem failed_reveal_burns:
  assumes "\<forall>r. Put r \<in> set cmds \<longrightarrow> wc_challenge_digest r \<noteq> wq_challenge_digest q"
    and "\<forall>r. Put r \<in> set cmds' \<longrightarrow> ml_challenge_digest r \<noteq> mq_challenge_digest p"
    and "\<forall>r. Put r \<in> set cmds'' \<longrightarrow> sg_grant_digest r \<noteq> sq_grant_digest o1"
  shows "fst (webauthn_consume (q\<lparr>wq_binding_digest := b, wq_purpose := u, wq_now := t\<rparr>)
           (snd (webauthn.run cmds (snd (webauthn_consume q s))))) = None \<and>
         fst (mfa_login_consume (p\<lparr>mq_account_id := a, mq_security_epoch := e, mq_now := t\<rparr>)
           (snd (mfa_login.run cmds' (snd (mfa_login_consume p s'))))) = None \<and>
         fst (step_up_consume (o1\<lparr>sq_principal_id := i, sq_purpose := u, sq_now := t\<rparr>)
           (snd (step_up.run cmds'' (snd (step_up_consume o1 s''))))) = None"
  using webauthn.burnt_for_good [OF _ assms(1)] mfa_login.burnt_for_good [OF _ assms(2)]
    step_up.burnt_for_good [OF _ assms(3)]
  by simp

definition example_challenge :: "time webauthn_challenge" where
  "example_challenge = \<lparr>wc_challenge_digest = [1], wc_binding_digest = [2], wc_purpose = ''p'',
     wc_account_id = ''a'', wc_rp_id = ''r'', wc_origins = [''o''],
     wc_user_verification = UV_Required, wc_algorithms = [], wc_expires_at = 9\<rparr>"

definition example_request :: "bytes \<Rightarrow> webauthn_request" where
  "example_request binding = \<lparr>wq_challenge_digest = [1], wq_binding_digest = binding,
     wq_purpose = ''p'', wq_now = 0\<rparr>"

theorem failed_reveal_burns_witness:
  "fst (webauthn_consume (example_request [2]) [([1], example_challenge)]) = Some example_challenge \<and>
   fst (webauthn_consume (example_request [2])
     (snd (webauthn_consume (example_request [3]) [([1], example_challenge)]))) = None"
proof -
  have "(example_request [3])\<lparr>wq_binding_digest := [2], wq_purpose := ''p'', wq_now := 0\<rparr> =
      example_request [2]"
    by (simp add: example_request_def)
  then show ?thesis
    using failed_reveal_burns [where cmds = "[]" and cmds' = "[]" and cmds'' = "[]" and
        q = "example_request [3]" and b = "[2]" and u = "''p''" and t = 0 and
        s = "[([1], example_challenge)]"]
    by (simp add: webauthn_consume_def pop_if_def)
      (simp add: example_request_def example_challenge_def webauthn_matches_def)
qed

end
