(* ===== verification/MFA_Store.thy ===== *)
theory MFA_Store
  imports Records "HOL-Library.Multiset"
begin

text \<open>
  TOTP and recovery-code state: the values of \<^verbatim>\<open>accounts/_mfa.py\<close> and the operations of
  \<^verbatim>\<open>InMemoryMFAStore\<close> (\<^verbatim>\<open>testing.py\<close>). A TOTP method carries the last counter it accepted, and the
  store only moves it up; a recovery code is removed when it is used.
\<close>

section \<open>Values\<close>

datatype totp_algorithm = SHA1 | SHA256 | SHA512

record totp_policy =
  tpol_digits :: int
  tpol_period_seconds :: int
  tpol_algorithm :: totp_algorithm
  tpol_drift_steps :: int
  tpol_enrollment_ttl :: time

definition default_totp_policy :: totp_policy where
  "default_totp_policy = \<lparr>tpol_digits = 6, tpol_period_seconds = 30, tpol_algorithm = SHA1,
     tpol_drift_steps = 1, tpol_enrollment_ttl = seconds 600\<rparr>"

definition maximum_enrollment_ttl :: time where "maximum_enrollment_ttl = seconds 3600"

definition totp_policy_post_init :: "totp_policy \<Rightarrow> totp_policy result" where
  "totp_policy_post_init p =
     (if tpol_digits p \<notin> {6, 8} then Inl ImproperlyConfigured
      else if \<not> (1 \<le> tpol_period_seconds p \<and> tpol_period_seconds p \<le> 300)
      then Inl ImproperlyConfigured
      else if \<not> (0 \<le> tpol_drift_steps p \<and> tpol_drift_steps p \<le> 10) then Inl ImproperlyConfigured
      else if \<not> (0 < tpol_enrollment_ttl p \<and> tpol_enrollment_ttl p \<le> maximum_enrollment_ttl)
      then Inl ImproperlyConfigured
      else Inr p)"

record protected_secret =
  sec_ciphertext :: bytes
  sec_key_version :: string

definition protected_secret_post_init :: "protected_secret \<Rightarrow> protected_secret result" where
  "protected_secret_post_init p =
     (if sec_ciphertext p = [] \<or> \<not> strict_context_text (sec_key_version p)
      then Inl ValueError else Inr p)"

record 't pending_enrollment =
  pe_enrollment_id :: string
  pe_method_id :: string
  pe_account_id :: string
  pe_protected_secret :: protected_secret
  pe_policy :: totp_policy
  pe_created_at :: 't
  pe_expires_at :: 't

definition pending_enrollment_post_init ::
  "py_datetime pending_enrollment \<Rightarrow> time pending_enrollment result" where
  "pending_enrollment_post_init p =
     bind (aware_utc_time (pe_created_at p)) (\<lambda>created_at.
     bind (aware_utc_time (pe_expires_at p)) (\<lambda>expires_at.
       if \<not> strict_context_text (pe_enrollment_id p) \<or> \<not> strict_context_text (pe_method_id p) \<or>
          \<not> strict_context_text (pe_account_id p) \<or> expires_at \<le> created_at \<or>
          expires_at - created_at > maximum_enrollment_ttl
       then Inl ValueError
       else Inr \<lparr>pe_enrollment_id = pe_enrollment_id p, pe_method_id = pe_method_id p,
                 pe_account_id = pe_account_id p, pe_protected_secret = pe_protected_secret p,
                 pe_policy = pe_policy p, pe_created_at = created_at,
                 pe_expires_at = expires_at\<rparr>))"

record 't totp_method =
  tm_method_id :: string
  tm_account_id :: string
  tm_protected_secret :: protected_secret
  tm_policy :: totp_policy
  tm_last_accepted_counter :: int
  tm_created_at :: 't
  tm_last_used_at :: "'t option"

definition optional_aware :: "py_datetime option \<Rightarrow> time option result" where
  "optional_aware t =
     (case t of None \<Rightarrow> Inr None | Some d \<Rightarrow> bind (aware_utc_time d) (\<lambda>u. Inr (Some u)))"

definition totp_method_post_init :: "py_datetime totp_method \<Rightarrow> time totp_method result" where
  "totp_method_post_init m =
     bind (aware_utc_time (tm_created_at m)) (\<lambda>created_at.
     bind (optional_aware (tm_last_used_at m)) (\<lambda>last_used_at.
       if \<not> strict_context_text (tm_method_id m) \<or> \<not> strict_context_text (tm_account_id m) \<or>
          tm_last_accepted_counter m < 0
       then Inl ValueError
       else Inr \<lparr>tm_method_id = tm_method_id m, tm_account_id = tm_account_id m,
                 tm_protected_secret = tm_protected_secret m, tm_policy = tm_policy m,
                 tm_last_accepted_counter = tm_last_accepted_counter m,
                 tm_created_at = created_at, tm_last_used_at = last_used_at\<rparr>))"

record recovery_digest =
  rd_account_id :: string
  rd_pepper_version :: string
  rd_digest :: bytes

definition recovery_digest_post_init :: "recovery_digest \<Rightarrow> recovery_digest result" where
  "recovery_digest_post_init r =
     (if \<not> strict_context_text (rd_account_id r) \<or> \<not> strict_context_text (rd_pepper_version r) \<or>
         length (rd_digest r) \<noteq> digest_bytes
      then Inl ValueError else Inr r)"

section \<open>The store\<close>

record mfa_state =
  mf_enrollments :: "(string, time pending_enrollment) dict"
  mf_events :: "security_event list"
  mf_login_methods :: "(string, login_method) dict"
  mf_methods :: "(string, time totp_method) dict"
  mf_recovery_codes :: "(string, recovery_digest list) dict"

definition empty_mfa :: mfa_state where
  "empty_mfa = \<lparr>mf_enrollments = [], mf_events = [], mf_login_methods = [], mf_methods = [],
     mf_recovery_codes = []\<rparr>"

definition create_totp_enrollment :: "time pending_enrollment \<Rightarrow> mfa_state \<Rightarrow> mfa_state" where
  "create_totp_enrollment e s =
     s\<lparr>mf_enrollments := dset (pe_enrollment_id e) e (mf_enrollments s)\<rparr>"

definition get_totp_enrollment :: "string \<Rightarrow> mfa_state \<Rightarrow> time pending_enrollment option" where
  "get_totp_enrollment enrollment_id s = dget (mf_enrollments s) enrollment_id"

definition method_of_enrollment ::
  "time pending_enrollment \<Rightarrow> string \<Rightarrow> int \<Rightarrow> py_datetime \<Rightarrow> time totp_method result" where
  "method_of_enrollment e account_id accepted_counter now =
     totp_method_post_init
       \<lparr>tm_method_id = pe_method_id e, tm_account_id = account_id,
        tm_protected_secret = pe_protected_secret e, tm_policy = pe_policy e,
        tm_last_accepted_counter = accepted_counter, tm_created_at = now, tm_last_used_at = None\<rparr>"

text \<open>This activation pops the enrollment first, so a refused call burns it.\<close>

definition store_activate_totp ::
  "string \<Rightarrow> string \<Rightarrow> int \<Rightarrow> login_method \<Rightarrow> security_event \<Rightarrow> time \<Rightarrow> mfa_state \<Rightarrow>
     time totp_method option result \<times> mfa_state" where
  "store_activate_totp account_id enrollment_id accepted_counter m event now s =
     (let s1 = s\<lparr>mf_enrollments := ddel enrollment_id (mf_enrollments s)\<rparr>
      in case dget (mf_enrollments s) enrollment_id of
           None \<Rightarrow> (Inr None, s1)
         | Some e \<Rightarrow>
             if pe_account_id e \<noteq> account_id \<or> pe_expires_at e \<le> now then (Inr None, s1)
             else case method_of_enrollment e account_id accepted_counter (Aware now) of
               Inl err \<Rightarrow> (Inl err, s1)
             | Inr method \<Rightarrow>
                 (Inr (Some method),
                  s1\<lparr>mf_methods := dset (tm_method_id method) method (mf_methods s1),
                     mf_login_methods := dset (lm_method_id m) m (mf_login_methods s1),
                     mf_events := mf_events s1 @ [event]\<rparr>))"

text \<open>This one looks it up and removes it only with the commit.\<close>

definition store_activate_with_codes ::
  "string \<Rightarrow> string \<Rightarrow> int \<Rightarrow> recovery_digest list \<Rightarrow> login_method \<Rightarrow> security_event \<Rightarrow> time \<Rightarrow>
     mfa_state \<Rightarrow> time totp_method option result \<times> mfa_state" where
  "store_activate_with_codes account_id enrollment_id accepted_counter codes m event now s =
     (case dget (mf_enrollments s) enrollment_id of
        None \<Rightarrow> (Inr None, s)
      | Some e \<Rightarrow>
          if pe_account_id e \<noteq> account_id \<or> pe_expires_at e \<le> now then (Inr None, s)
          else case method_of_enrollment e account_id accepted_counter (Aware now) of
            Inl err \<Rightarrow> (Inl err, s)
          | Inr method \<Rightarrow>
              (Inr (Some method),
               s\<lparr>mf_enrollments := ddel enrollment_id (mf_enrollments s),
                 mf_methods := dset (tm_method_id method) method (mf_methods s),
                 mf_recovery_codes := dset account_id codes (mf_recovery_codes s),
                 mf_login_methods := dset (lm_method_id m) m (mf_login_methods s),
                 mf_events := mf_events s @ [event]\<rparr>))"

definition get_totp_method :: "string \<Rightarrow> string \<Rightarrow> mfa_state \<Rightarrow> time totp_method option" where
  "get_totp_method account_id method_id s =
     (case dget (mf_methods s) method_id of
        None \<Rightarrow> None
      | Some m \<Rightarrow> if tm_account_id m = account_id then Some m else None)"

definition advance_totp_counter ::
  "string \<Rightarrow> int \<Rightarrow> time \<Rightarrow> mfa_state \<Rightarrow> bool result \<times> mfa_state" where
  "advance_totp_counter method_id accepted_counter now s =
     (case dget (mf_methods s) method_id of
        None \<Rightarrow> (Inr False, s)
      | Some m \<Rightarrow>
          if accepted_counter \<le> tm_last_accepted_counter m then (Inr False, s)
          else case totp_method_post_init
                 \<lparr>tm_method_id = tm_method_id m, tm_account_id = tm_account_id m,
                  tm_protected_secret = tm_protected_secret m, tm_policy = tm_policy m,
                  tm_last_accepted_counter = accepted_counter,
                  tm_created_at = Aware (tm_created_at m),
                  tm_last_used_at = Some (Aware now)\<rparr> of
            Inl e \<Rightarrow> (Inl e, s)
          | Inr updated \<Rightarrow>
              (Inr True, s\<lparr>mf_methods := dset method_id updated (mf_methods s)\<rparr>))"

definition store_replace_codes :: "string \<Rightarrow> recovery_digest list \<Rightarrow> mfa_state \<Rightarrow> mfa_state" where
  "store_replace_codes account_id codes s =
     s\<lparr>mf_recovery_codes :=
         dset account_id (filter (\<lambda>c. rd_account_id c = account_id) codes) (mf_recovery_codes s)\<rparr>"

text \<open>
  \<^verbatim>\<open>tuple(code for code in codes if code is not match)\<close>, with \<^verbatim>\<open>match\<close> the first code that
  compares equal: the codes of a set are distinct objects, so exactly that one goes.
\<close>

fun remove_first :: "('a \<Rightarrow> bool) \<Rightarrow> 'a list \<Rightarrow> 'a list" where
  "remove_first p [] = []"
| "remove_first p (x # xs) = (if p x then xs else x # remove_first p xs)"

definition store_consume_code :: "string \<Rightarrow> bytes \<Rightarrow> mfa_state \<Rightarrow> bool \<times> mfa_state" where
  "store_consume_code account_id digest s =
     (let codes = (case dget (mf_recovery_codes s) account_id of None \<Rightarrow> [] | Some cs \<Rightarrow> cs);
          hit = (\<lambda>c. rd_digest c = digest)
      in case List.find hit codes of
           None \<Rightarrow> (False, s)
         | Some _ \<Rightarrow>
             (True, s\<lparr>mf_recovery_codes :=
                      dset account_id (remove_first hit codes) (mf_recovery_codes s)\<rparr>))"

section \<open>Counters only move up\<close>

definition last_counter :: "mfa_state \<Rightarrow> string \<Rightarrow> int option" where
  "last_counter s method_id = map_option tm_last_accepted_counter (dget (mf_methods s) method_id)"

definition mfa_ok :: "mfa_state \<Rightarrow> bool" where
  "mfa_ok s \<longleftrightarrow>
     (\<forall>k m. dget (mf_methods s) k = Some m \<longrightarrow>
        strict_context_text (tm_method_id m) \<and> strict_context_text (tm_account_id m) \<and>
        0 \<le> tm_last_accepted_counter m)"

lemma mfa_ok_empty: "mfa_ok empty_mfa"
  by (simp add: mfa_ok_def empty_mfa_def)

lemma totp_method_post_init_valid:
  "totp_method_post_init r = Inr m \<Longrightarrow>
     strict_context_text (tm_method_id m) \<and> strict_context_text (tm_account_id m) \<and>
     0 \<le> tm_last_accepted_counter m \<and> tm_last_accepted_counter m = tm_last_accepted_counter r \<and>
     tm_account_id m = tm_account_id r"
  by (auto simp: totp_method_post_init_def result_simps split: if_splits)

lemma advance_ok: "mfa_ok s \<Longrightarrow> mfa_ok (snd (advance_totp_counter k c now s))"
  by (auto simp: advance_totp_counter_def mfa_ok_def dict_simps dest: totp_method_post_init_valid
      split: option.splits sum.splits if_splits)

lemma advance_result:
  assumes "mfa_ok s"
  shows "fst (advance_totp_counter k c now s) =
      Inr (case last_counter s k of None \<Rightarrow> False | Some l \<Rightarrow> l < c)"
    and "last_counter (snd (advance_totp_counter k c now s)) =
      (if fst (advance_totp_counter k c now s) = Inr True
       then (last_counter s)(k \<mapsto> c) else last_counter s)"
proof -
  show "fst (advance_totp_counter k c now s) =
      Inr (case last_counter s k of None \<Rightarrow> False | Some l \<Rightarrow> l < c)"
  proof (cases "dget (mf_methods s) k")
    case None
    then show ?thesis by (simp add: advance_totp_counter_def last_counter_def)
  next
    case (Some m)
    then have "strict_context_text (tm_method_id m)" "strict_context_text (tm_account_id m)"
      "0 \<le> tm_last_accepted_counter m"
      using assms by (simp_all add: mfa_ok_def)
    with Some show ?thesis
      by (simp add: advance_totp_counter_def last_counter_def totp_method_post_init_def
          optional_aware_def)
  qed
  show "last_counter (snd (advance_totp_counter k c now s)) =
      (if fst (advance_totp_counter k c now s) = Inr True
       then (last_counter s)(k \<mapsto> c) else last_counter s)"
    by (rule ext)
      (auto simp: advance_totp_counter_def last_counter_def dict_simps
        dest: totp_method_post_init_valid split: option.splits sum.splits)
qed

text \<open>Attempts to advance one method's counter, interleaved with attempts on any other.\<close>

fun advance_all :: "(string \<times> int \<times> time) list \<Rightarrow> mfa_state \<Rightarrow> (string \<times> int) list \<times> mfa_state" where
  "advance_all [] s = ([], s)"
| "advance_all ((k, c, now) # cmds) s =
     (case advance_totp_counter k c now s of
        (r, s1) \<Rightarrow> (case advance_all cmds s1 of
          (acc, s2) \<Rightarrow> (if r = Inr True then (k, c) # acc else acc, s2)))"

lemma advance_all_simps:
  "fst (advance_all ((k, c, now) # cmds) s) =
     (if fst (advance_totp_counter k c now s) = Inr True then [(k, c)] else []) @
     fst (advance_all cmds (snd (advance_totp_counter k c now s)))"
  by (simp split: prod.splits)

lemma advance_all_above:
  assumes "mfa_ok s" "(k, c) \<in> set (fst (advance_all cmds s))"
  shows "\<exists>l. last_counter s k = Some l \<and> l < c"
  using assms
proof (induction cmds arbitrary: s)
  case (Cons cmd cmds)
  obtain k' c' now where cmd: "cmd = (k', c', now)" by (cases cmd) auto
  let ?s1 = "snd (advance_totp_counter k' c' now s)"
  note res = advance_result [OF Cons.prems(1), of k' c' now]
  from Cons.prems(2) consider "fst (advance_totp_counter k' c' now s) = Inr True" "k = k'" "c = c'"
    | "(k, c) \<in> set (fst (advance_all cmds ?s1))"
    unfolding cmd advance_all_simps by (auto split: if_splits)
  then show ?case
  proof cases
    case 1
    then show ?thesis using res(1) by (auto split: option.splits)
  next
    case 2
    obtain l where l: "last_counter ?s1 k = Some l" "l < c"
      using Cons.IH [OF advance_ok [OF Cons.prems(1)] 2] by blast
    then show ?thesis
      using res by (auto split: if_splits option.splits)
  qed
qed simp

lemma find_remove_first:
  "List.find p xs = Some x \<Longrightarrow> mset (remove_first p xs) + {#x#} = mset xs" for p :: "'a \<Rightarrow> bool"
  by (induction xs) (auto split: if_splits)

section \<open>Properties\<close>

text \<open>C29: A TOTP counter is accepted at most once per method: over any sequence of advance attempts,
  on any methods, the counters accepted for one method are strictly increasing and all lie above
  the one stored at the start.\<close>

theorem totp_counters_strictly_increase:
  assumes "mfa_ok s"
  shows "(let accepted = map snd (filter (\<lambda>(k', c). k' = k) (fst (advance_all cmds s)))
          in sorted_wrt (<) accepted \<and> distinct accepted \<and>
             list_all (\<lambda>c. case last_counter s k of None \<Rightarrow> False | Some l \<Rightarrow> l < c) accepted)"
proof -
  define acc where "acc t xs = map snd (filter (\<lambda>(k', c). k' = k) (fst (advance_all xs t)))" for t xs
  have "sorted_wrt (<) (acc s cmds)"
    using assms
  proof (induction cmds arbitrary: s)
    case Nil
    then show ?case by (simp add: acc_def)
  next
    case (Cons cmd cmds)
    obtain k' c' now where cmd: "cmd = (k', c', now)" by (cases cmd) auto
    let ?s1 = "snd (advance_totp_counter k' c' now s)"
    note res = advance_result [OF Cons.prems(1), of k' c' now]
    have IH: "sorted_wrt (<) (acc ?s1 cmds)"
      by (rule Cons.IH) (rule advance_ok [OF Cons.prems(1)])
    have above: "c' < c"
      if "fst (advance_totp_counter k' c' now s) = Inr True" "k' = k" "c \<in> set (acc ?s1 cmds)" for c
    proof -
      have "(k, c) \<in> set (fst (advance_all cmds ?s1))" using that(3) by (auto simp: acc_def)
      then obtain l where "last_counter ?s1 k = Some l" "l < c"
        using advance_all_above [OF advance_ok [OF Cons.prems(1)]] by blast
      then show ?thesis using res(2) that(1,2) by simp
    qed
    have "acc s (cmd # cmds) =
        (if fst (advance_totp_counter k' c' now s) = Inr True \<and> k' = k then [c'] else []) @
        acc ?s1 cmds"
      unfolding acc_def cmd advance_all_simps by (cases "k' = k") simp_all
    then show ?case
      using IH above by auto
  qed
  moreover from this have "distinct (acc s cmds)"
    by (simp add: strict_sorted_iff)
  moreover have "list_all (\<lambda>c. case last_counter s k of None \<Rightarrow> False | Some l \<Rightarrow> l < c) (acc s cmds)"
    unfolding list_all_iff
  proof
    fix c assume "c \<in> set (acc s cmds)"
    then have "(k, c) \<in> set (fst (advance_all cmds s))" by (auto simp: acc_def)
    then obtain l where "last_counter s k = Some l" "l < c"
      using advance_all_above [OF assms] by blast
    then show "case last_counter s k of None \<Rightarrow> False | Some l \<Rightarrow> l < c" by simp
  qed
  ultimately show ?thesis by (simp add: Let_def acc_def)
qed

definition example_mfa_state :: mfa_state where
  "example_mfa_state = empty_mfa\<lparr>mf_methods := [(''m'', \<lparr>tm_method_id = ''m'', tm_account_id = ''a'',
     tm_protected_secret = \<lparr>sec_ciphertext = [1], sec_key_version = ''v1''\<rparr>, tm_policy = default_totp_policy,
     tm_last_accepted_counter = 4, tm_created_at = 0, tm_last_used_at = None\<rparr>)]\<rparr>"

lemma example_mfa_state_ok: "mfa_ok example_mfa_state"
  by (simp add: mfa_ok_def example_mfa_state_def empty_mfa_def) code_simp

text \<open>Of five attempts on a method that stands at 4, the replays of 4, 5 and 6 are refused.\<close>

theorem totp_counters_strictly_increase_witness:
  "(let accepted = map snd (filter (\<lambda>(k', c). k' = ''m'')
       (fst (advance_all [(''m'', 4, 0), (''m'', 5, 1), (''m'', 5, 2), (''m'', 7, 3), (''m'', 6, 4)] example_mfa_state)))
    in accepted = [5, 7] \<and> sorted_wrt (<) accepted \<and> distinct accepted \<and>
       list_all (\<lambda>c. case last_counter example_mfa_state ''m'' of None \<Rightarrow> False | Some l \<Rightarrow> l < c) accepted)"
proof -
  let ?cmds = "[(''m'', 4, 0), (''m'', 5, 1), (''m'', 5, 2), (''m'', 7, 3), (''m'', 6, 4)]"
  have "map snd (filter (\<lambda>(k', c). k' = ''m'') (fst (advance_all ?cmds example_mfa_state))) = [5, 7]"
    by code_simp
  then show ?thesis
    using totp_counters_strictly_increase [OF example_mfa_state_ok, of "''m''" ?cmds] by (simp only: Let_def simp_thms)
qed

text \<open>A recovery code is spent exactly once: a consumption succeeds exactly when the account's set
  holds a code with the presented digest, and then removes one such code and nothing else; other
  accounts' codes are never touched.\<close>

theorem recovery_code_spent_once:
  "(let codes = (\<lambda>a t. mset (case dget (mf_recovery_codes t) a of None \<Rightarrow> [] | Some cs \<Rightarrow> cs));
        s' = snd (store_consume_code a d s)
    in (fst (store_consume_code a d s) \<longleftrightarrow> (\<exists>c. c \<in># codes a s \<and> rd_digest c = d)) \<and>
       (if fst (store_consume_code a d s)
        then \<exists>c. rd_digest c = d \<and> codes a s = codes a s' + {#c#}
        else s' = s) \<and>
       (\<forall>b. b \<noteq> a \<longrightarrow> codes b s' = codes b s))"
proof -
  define cs where "cs = (case dget (mf_recovery_codes s) a of None \<Rightarrow> [] | Some xs \<Rightarrow> xs)"
  show ?thesis
  proof (cases "List.find (\<lambda>c. rd_digest c = d) cs")
    case None
    then have "store_consume_code a d s = (False, s)"
      by (simp add: store_consume_code_def Let_def cs_def [symmetric])
    moreover have "\<not> (\<exists>c. c \<in> set cs \<and> rd_digest c = d)"
      using None by (auto simp: find_None_iff)
    ultimately show ?thesis
      by (simp add: Let_def cs_def [symmetric])
  next
    case (Some c)
    then have e: "store_consume_code a d s =
        (True, s\<lparr>mf_recovery_codes :=
           dset a (remove_first (\<lambda>c. rd_digest c = d) cs) (mf_recovery_codes s)\<rparr>)"
      by (simp add: store_consume_code_def Let_def cs_def [symmetric])
    have "c \<in> set cs" "rd_digest c = d"
      using Some by (auto simp: find_Some_iff)
    then show ?thesis
      using find_remove_first [OF Some, symmetric]
      by (auto simp: Let_def e cs_def [symmetric] dict_simps)
  qed
qed

theorem recovery_code_spent_once_witness:
  "\<not> fst (store_consume_code ''a'' [1] empty_mfa)"
  using recovery_code_spent_once [of "''a''" "[1]" empty_mfa] by (simp add: Let_def empty_mfa_def)

end
