(* ===== verification/Ports.thy ===== *)
theory Ports
  imports Prelude
begin

text \<open>
  Calls through application ports. A port call takes the state of whatever implements it and
  returns a result, which may be an exception, with the state it leaves: \<open>('s, 'a) port\<close>. Services
  chain calls with \<open>call\<close> and turn every exception of the chain into one sanitized verdict with
  \<open>sanitized\<close> (\<^verbatim>\<open>except Exception: return VerificationUnavailable()\<close>).
\<close>

type_synonym ('s, 'a) port = "'s \<Rightarrow> 'a result \<times> 's"

definition pure :: "'a \<Rightarrow> ('s, 'a) port" where
  "pure a s = (Inr a, s)"

definition raise :: "py_error \<Rightarrow> ('s, 'a) port" where
  "raise e s = (Inl e, s)"

definition lift_result :: "'a result \<Rightarrow> ('s, 'a) port" where
  "lift_result r s = (r, s)"

definition call :: "('s, 'a) port \<Rightarrow> ('a \<Rightarrow> ('s, 'b) port) \<Rightarrow> ('s, 'b) port" where
  "call m f s = (case m s of (Inl e, s') \<Rightarrow> (Inl e, s') | (Inr a, s') \<Rightarrow> f a s')"

text \<open>The outcomes a verification service hands back (\<^verbatim>\<open>authentication.py\<close>).\<close>

datatype 'a verdict = Verified 'a | Invalid_Credentials | Verification_Unavailable

definition sanitized :: "('s, 'a verdict) port \<Rightarrow> 's \<Rightarrow> 'a verdict \<times> 's" where
  "sanitized m s = (case m s of (Inl e, s') \<Rightarrow> (Verification_Unavailable, s') | (Inr v, s') \<Rightarrow> (v, s'))"

named_theorems port_simps \<open>running chains of port calls\<close>

lemma port_basic [simp, port_simps]:
  "pure a s = (Inr a, s)"
  "raise e s = (Inl e, s)"
  "lift_result r s = (r, s)"
  by (simp_all add: pure_def raise_def lift_result_def)

lemma call_Inr [port_simps]: "m s = (Inr a, s') \<Longrightarrow> call m f s = f a s'"
  by (simp add: call_def)

lemma call_Inl [port_simps]: "m s = (Inl e, s') \<Longrightarrow> call m f s = (Inl e, s')"
  by (simp add: call_def)

lemma call_pure [simp, port_simps]: "call (pure a) f s = f a s"
  by (simp add: call_def)

lemma call_raise [simp, port_simps]: "call (raise e) f s = (Inl e, s)"
  by (simp add: call_def)

lemma call_lift [simp, port_simps]:
  "call (lift_result r) f s = (case r of Inl e \<Rightarrow> (Inl e, s) | Inr a \<Rightarrow> f a s)"
  by (simp add: call_def split: sum.splits)

lemma call_eq_Inr:
  "call m f s = (Inr b, s'') \<longleftrightarrow> (\<exists>a s'. m s = (Inr a, s') \<and> f a s' = (Inr b, s''))"
  by (auto simp: call_def split: prod.splits sum.splits)

lemma lift_result_eq_Inr: "lift_result r s = (Inr a, s') \<longleftrightarrow> r = Inr a \<and> s' = s"
  by auto

lemma pure_eq_Inr: "pure a s = (Inr b, s') \<longleftrightarrow> b = a \<and> s' = s"
  by auto

lemmas run_ok = call_eq_Inr lift_result_eq_Inr pure_eq_Inr

lemma sanitized_pure [simp, port_simps]: "sanitized (pure v) s = (v, s)"
  by (simp add: sanitized_def)

lemma sanitized_Verified:
  "sanitized m s = (Verified a, s') \<longleftrightarrow> m s = (Inr (Verified a), s')"
  by (auto simp: sanitized_def split: prod.splits sum.splits)

lemma sanitized_Inr [port_simps]: "m s = (Inr v, s') \<Longrightarrow> sanitized m s = (v, s')"
  by (simp add: sanitized_def)

lemma sanitized_Inl [port_simps]: "m s = (Inl e, s') \<Longrightarrow> sanitized m s = (Verification_Unavailable, s')"
  by (simp add: sanitized_def)

text \<open>A port of one component of the state, over the pair of it and everything else.\<close>

definition on_first :: "('m, 'a) port \<Rightarrow> ('m \<times> 'e, 'a) port" where
  "on_first p s = (case p (fst s) of (r, m) \<Rightarrow> (r, (m, snd s)))"

lemma on_first_eq: "on_first p s = (r, s') \<longleftrightarrow> p (fst s) = (r, fst s') \<and> snd s' = snd s"
  by (cases s') (auto simp: on_first_def split: prod.splits)

text \<open>Ports that leave one view of the state alone.\<close>

definition keeps :: "('s \<Rightarrow> 'v) \<Rightarrow> ('s, 'a) port \<Rightarrow> bool" where
  "keeps view p \<longleftrightarrow> (\<forall>s. view (snd (p s)) = view s)"

lemma keepsD: "keeps view p \<Longrightarrow> p s = (r, s') \<Longrightarrow> view s' = view s"
  by (metis keeps_def snd_conv)

lemma keeps_basic [simp, intro]:
  "keeps view (pure a)" "keeps view (raise e)" "keeps view (lift_result r)"
  by (simp_all add: keeps_def)

lemma keeps_call [intro]:
  assumes "keeps view m" "\<And>a. keeps view (f a)"
  shows "keeps view (call m f)"
  using assms by (auto simp: keeps_def call_def split: prod.splits sum.splits) (metis snd_conv)+

end
