(* ===== verification/Encodings.thy ===== *)
theory Encodings
  imports Internal
begin

text \<open>
  Encodings of text the account modules feed to cryptographic functions: \<^verbatim>\<open>str.encode("utf-8")\<close> for
  the code points of the model, \<^verbatim>\<open>bytes.hex()\<close>, and the \<^verbatim>\<open>json.dumps\<close> of strings, integers and
  flat objects with compact separators and sorted keys. What the lemmas show of each is that
  nothing is lost: the encoded text determines what was encoded.
\<close>

section \<open>UTF-8\<close>

definition utf8_char :: "char \<Rightarrow> bytes" where
  "utf8_char c =
     (let n = (of_char c :: nat)
      in if n < 128 then [word_of_nat n]
         else [word_of_nat (192 + n div 64), word_of_nat (128 + n mod 64)])"

definition utf8_bytes :: "string \<Rightarrow> bytes" where
  "utf8_bytes s = concat (map utf8_char s)"

fun utf8_read :: "bytes \<Rightarrow> string" where
  "utf8_read [] = []"
| "utf8_read [b] = [char_of (unat b)]"
| "utf8_read (b # c # bs) =
     (if unat b < 128 then char_of (unat b) # utf8_read (c # bs)
      else char_of ((unat b - 192) * 64 + (unat c - 128)) # utf8_read bs)"

lemma unat_small: "n < 256 \<Longrightarrow> unat (word_of_nat n :: 8 word) = n"
  by (simp add: unat_of_nat)

lemma char_code_less: "(of_char c :: nat) < 256"
  by simp

lemma utf8_char_cases:
  obtains (one) "(of_char c :: nat) < 128" "utf8_char c = [word_of_nat (of_char c)]"
    "unat (word_of_nat (of_char c) :: 8 word) = of_char c"
  | (two) a b where "utf8_char c = [a, b]" "unat a = 192 + of_char c div 64"
    "unat b = 128 + of_char c mod 64" "\<not> (of_char c :: nat) < 128"
proof (cases "(of_char c :: nat) < 128")
  case True
  moreover have "utf8_char c = [word_of_nat (of_char c)]"
    using True by (simp add: utf8_char_def Let_def)
  moreover have "unat (word_of_nat (of_char c) :: 8 word) = of_char c"
    by (rule unat_small) simp
  ultimately show thesis by (rule one)
next
  case False
  let ?n = "of_char c :: nat"
  have n: "?n < 256" by simp
  then have small: "192 + ?n div 64 < 256" "128 + ?n mod 64 < 256"
    using less_mult_imp_div_less [of ?n 4 64] by simp_all
  show thesis
    by (rule two [of "word_of_nat (192 + ?n div 64)" "word_of_nat (128 + ?n mod 64)"])
      (use False unat_small [OF small(1)] unat_small [OF small(2)] in
        \<open>simp_all add: utf8_char_def Let_def\<close>)
qed

lemma utf8_bytes_Cons: "utf8_bytes (c # s) = utf8_char c @ utf8_bytes s"
  by (simp add: utf8_bytes_def)

lemma utf8_read_bytes: "utf8_read (utf8_bytes s) = s"
proof (induction s)
  case (Cons c s)
  show ?case
  proof (cases rule: utf8_char_cases [of c])
    case one
    with Cons show ?thesis
      by (cases "utf8_bytes s") (simp_all add: utf8_bytes_Cons)
  next
    case (two a b)
    have "(of_char c div 64) * 64 + (of_char c mod 64) = (of_char c :: nat)" by simp
    with two Cons show ?thesis by (simp add: utf8_bytes_Cons)
  qed
qed (simp add: utf8_bytes_def)

lemma utf8_bytes_inject: "utf8_bytes s = utf8_bytes t \<longleftrightarrow> s = t"
  by (metis utf8_read_bytes)

lemma utf8_bytes_NUL: "0 \<in> set (utf8_bytes s) \<longleftrightarrow> CHR 0x00 \<in> set s"
proof (induction s)
  case (Cons c s)
  have "0 \<in> set (utf8_char c) \<longleftrightarrow> c = CHR 0x00"
  proof (cases rule: utf8_char_cases [of c])
    case one
    have "(0 = (word_of_nat (of_char c) :: 8 word)) \<longleftrightarrow> (of_char c :: nat) = 0"
      using one(3) by (metis unsigned_eq_0_iff)
    moreover have "(of_char c :: nat) = 0 \<longleftrightarrow> c = CHR 0x00"
      by (auto simp: char_eq_code)
    ultimately show ?thesis using one(2) by simp
  next
    case (two a b)
    have "a \<noteq> 0" "b \<noteq> 0" using two(2,3) by auto
    moreover have "c \<noteq> CHR 0x00" using two(4) by auto
    ultimately show ?thesis using two(1) by simp
  qed
  with Cons show ?case by (simp add: utf8_bytes_Cons eq_commute)
qed (simp add: utf8_bytes_def)

text \<open>Joining with a separator that occurs in no part is injective.\<close>

lemma append_sep_inject:
  assumes "x \<notin> set a" "x \<notin> set b"
  shows "a @ [x] @ s = b @ [x] @ t \<longleftrightarrow> a = b \<and> s = t"
proof
  assume eq: "a @ [x] @ s = b @ [x] @ t"
  have "takeWhile (\<lambda>y. y \<noteq> x) (a @ [x] @ s) = a" "takeWhile (\<lambda>y. y \<noteq> x) (b @ [x] @ t) = b"
    using assms by (auto simp: takeWhile_append takeWhile_eq_all_conv)
  with eq have "a = b" by simp
  with eq show "a = b \<and> s = t" by simp
qed simp

section \<open>Decimal numerals\<close>

lemma show_nat_code: "c \<in> set (show_nat n) \<Longrightarrow> 48 \<le> (of_char c :: nat) \<and> (of_char c :: nat) < 58"
  using set_show_nat [of c n] by (auto simp: digit_char_code)

lemma show_nat_lacks:
  "CHR '':'' \<notin> set (show_nat k)" "CHR ''-'' \<notin> set (show_nat k)" "CHR '','' \<notin> set (show_nat k)"
  "CHR ''.'' \<notin> set (show_nat k)"
  using show_nat_code [of _ k] by (auto dest!: show_nat_code)

lemma show_int_lacks:
  "CHR '':'' \<notin> set (show_int n)" "CHR '','' \<notin> set (show_int n)" "CHR ''.'' \<notin> set (show_int n)"
  by (simp_all add: show_int_def show_nat_lacks)

lemma show_int_inject: "show_int m = show_int n \<Longrightarrow> m = n"
proof -
  have "show_nat k \<noteq> CHR ''-'' # t" for k t
    using show_nat_lacks(2) [of k] by auto
  then show "show_int m = show_int n \<Longrightarrow> m = n"
    by (auto simp: show_int_def split: if_splits) (metis | simp)+
qed

lemma split_at_char:
  "xs @ c # ys = xs' @ c # ys' \<Longrightarrow> c \<notin> set xs \<Longrightarrow> c \<notin> set xs' \<Longrightarrow> xs = xs' \<and> ys = ys'"
proof (induction xs arbitrary: xs')
  case Nil
  then show ?case by (cases xs') auto
next
  case (Cons x xs)
  then show ?case by (cases xs') auto
qed

lemma length_show_nat: "n < 10 ^ Suc d \<Longrightarrow> length (show_nat n) \<le> Suc d"
proof (induction d arbitrary: n)
  case 0
  then show ?case by (simp add: show_nat.simps [of n])
next
  case (Suc d)
  have "n div 10 < 10 ^ Suc d"
    using Suc.prems by (simp add: less_mult_imp_div_less mult.commute)
  from Suc.IH [OF this] show ?case
    by (simp add: show_nat.simps [of n])
qed

section \<open>Hexadecimal\<close>

definition hex_digit :: "nat \<Rightarrow> char" where
  "hex_digit n = (if n < 10 then char_of (48 + n) else char_of (87 + n))"

definition hex_value :: "char \<Rightarrow> nat" where
  "hex_value c = (let n = of_char c in if n < 58 then n - 48 else n - 87)"

definition hex_text :: "bytes \<Rightarrow> string" where
  "hex_text bs = concat (map (\<lambda>b. [hex_digit (unat b div 16), hex_digit (unat b mod 16)]) bs)"

lemma hex_value_digit [simp]: "n < 16 \<Longrightarrow> hex_value (hex_digit n) = n"
  by (simp add: hex_value_def hex_digit_def Let_def)

lemma hex_pair: "n < 256 \<Longrightarrow> hex_value (hex_digit (n div 16)) * 16 + hex_value (hex_digit (n mod 16)) = n"
  by (simp add: less_mult_imp_div_less)

lemma hex_text_inject: "hex_text a = hex_text b \<Longrightarrow> a = b"
proof (induction a arbitrary: b)
  case Nil
  then show ?case by (cases b) (simp_all add: hex_text_def)
next
  case (Cons x a)
  then obtain y b' where b: "b = y # b'"
    by (cases b) (simp_all add: hex_text_def)
  then have eq: "hex_digit (unat x div 16) = hex_digit (unat y div 16)"
      "hex_digit (unat x mod 16) = hex_digit (unat y mod 16)" "hex_text a = hex_text b'"
    using Cons.prems by (simp_all add: hex_text_def)
  have "unat x = unat y"
    using hex_pair [OF unat_byte [of x]] hex_pair [OF unat_byte [of y]] eq by simp
  then have "x = y"
    by (simp add: word_unat_eq_iff)
  then show ?case
    using Cons.IH [OF eq(3)] b by simp
qed

section \<open>JSON\<close>

text \<open>
  \<^verbatim>\<open>json.dumps\<close> escapes the quote, the backslash and everything outside the printable ASCII
  range. A string ends at its first unescaped quote, so it is determined by any text it begins.
\<close>

definition json_char :: "char \<Rightarrow> string" where
  "json_char c =
     (let n = of_char c
      in if n = 34 \<or> n = 92 then [CHR 0x5C, c]
         else if n = 8 then [CHR 0x5C, CHR ''b'']
         else if n = 9 then [CHR 0x5C, CHR ''t'']
         else if n = 10 then [CHR 0x5C, CHR ''n'']
         else if n = 12 then [CHR 0x5C, CHR ''f'']
         else if n = 13 then [CHR 0x5C, CHR ''r'']
         else if 32 \<le> n \<and> n \<le> 126 then [c]
         else [CHR 0x5C, CHR ''u'', CHR ''0'', CHR ''0'', hex_digit (n div 16), hex_digit (n mod 16)])"

definition json_string :: "string \<Rightarrow> string" where
  "json_string s = CHR 0x22 # concat (map json_char s) @ [CHR 0x22]"

definition json_object :: "(string \<times> string) list \<Rightarrow> string" where
  "json_object fields =
     CHR ''{'' # tl (concat (map (\<lambda>(k, v). CHR '','' # json_string k @ CHR '':'' # v) fields)) @ ''}''"

definition unescape :: "char \<Rightarrow> char" where
  "unescape e =
     (if e = CHR ''b'' then CHR 0x08 else if e = CHR ''t'' then CHR 0x09
      else if e = CHR ''n'' then CHR 0x0A else if e = CHR ''f'' then CHR 0x0C
      else if e = CHR ''r'' then CHR 0x0D else e)"

fun read_json_string :: "string \<Rightarrow> string \<times> string" where
  "read_json_string [] = ([], [])"
| "read_json_string (c # cs) =
     (if c = CHR 0x22 then ([], cs)
      else if c = CHR 0x5C then
        (case cs of
           e # ds \<Rightarrow>
             (if e = CHR ''u'' then
                (case ds of
                   _ # _ # a # b # rs \<Rightarrow>
                     (case read_json_string rs of (s, r) \<Rightarrow>
                        (char_of (hex_value a * 16 + hex_value b) # s, r))
                 | _ \<Rightarrow> ([], []))
              else (case read_json_string ds of (s, r) \<Rightarrow> (unescape e # s, r)))
         | [] \<Rightarrow> ([], []))
      else (case read_json_string cs of (s, r) \<Rightarrow> (c # s, r)))"

lemma read_json_char:
  "read_json_string (json_char c @ xs) = (c # fst (read_json_string xs), snd (read_json_string xs))"
proof -
  define n where "n = (of_char c :: nat)"
  have c: "c = char_of n" "n < 256"
    by (simp_all add: n_def)
  have named: "n = 34 \<Longrightarrow> c = CHR 0x22" "n = 92 \<Longrightarrow> c = CHR 0x5C" "n = 8 \<Longrightarrow> c = CHR 0x08"
    "n = 9 \<Longrightarrow> c = CHR 0x09" "n = 10 \<Longrightarrow> c = CHR 0x0A" "n = 12 \<Longrightarrow> c = CHR 0x0C" "n = 13 \<Longrightarrow> c = CHR 0x0D"
    by (simp_all add: n_def char_eq_code)
  consider "n = 34" | "n = 92" | "n = 8" | "n = 9" | "n = 10" | "n = 12" | "n = 13"
    | "32 \<le> n \<and> n \<le> 126 \<and> n \<noteq> 34 \<and> n \<noteq> 92"
    | "\<not> (32 \<le> n \<and> n \<le> 126) \<and> n \<notin> {8, 9, 10, 12, 13}"
    by fastforce
  then show ?thesis
  proof cases
    case 8
    then have "json_char c = [c]" "c \<noteq> CHR 0x22" "c \<noteq> CHR 0x5C"
      by (auto simp: json_char_def Let_def n_def)
    then show ?thesis by (simp split: prod.splits)
  next
    case 9
    then have "json_char c = [CHR 0x5C, CHR ''u'', CHR ''0'', CHR ''0'', hex_digit (n div 16), hex_digit (n mod 16)]"
      by (auto simp: json_char_def Let_def n_def)
    moreover have "char_of (hex_value (hex_digit (n div 16)) * 16 + hex_value (hex_digit (n mod 16))) = c"
      using hex_pair [OF c(2)] by (simp add: c(1))
    ultimately show ?thesis by (simp split: prod.splits)
  qed (insert named, auto simp: json_char_def unescape_def split: prod.splits)
qed

lemma read_json_string_inverts: "read_json_string (tl (json_string s) @ xs) = (s, xs)"
proof (induction s)
  case (Cons c s)
  have "tl (json_string (c # s)) @ xs = json_char c @ tl (json_string s) @ xs"
    by (simp add: json_string_def)
  with Cons show ?case
    by (simp only: read_json_char fst_conv snd_conv)
qed (simp add: json_string_def)

lemma json_string_inject:
  assumes "json_string s @ x = json_string t @ y"
  shows "s = t" and "x = y"
proof -
  have "tl (json_string s) @ x = tl (json_string t) @ y"
    using assms by (simp add: json_string_def)
  then have "(s, x) = (t, y)"
    by (metis read_json_string_inverts)
  then show "s = t" "x = y" by simp_all
qed

lemma json_string_eq [simp]:
  "json_string s @ x = json_string t @ y \<longleftrightarrow> s = t \<and> x = y"
  "json_string s = json_string t \<longleftrightarrow> s = t"
  using json_string_inject [of s x t y] json_string_inject(1) [of s "[]" t "[]"] by auto

lemma show_int_comma [simp]:
  "show_int m @ CHR '','' # x = show_int n @ CHR '','' # y \<longleftrightarrow> m = n \<and> x = y"
  using split_at_char [of "show_int m" "CHR '',''" x "show_int n" y] show_int_inject [of m n]
  by (auto simp: show_int_lacks)

end
