(* ===== verification/MFA.thy ===== *)
theory MFA
  imports MFA_Store Ports Context Refresh_Tokens Encodings
begin

text \<open>
  The MFA service (\<^verbatim>\<open>accounts/_mfa.py\<close>): verifying TOTP codes and consuming recovery codes.

  The store is reached through ports that carry its state. The clock reading, the secret
  protector, the one-time-password generator (\<^verbatim>\<open>pyotp\<close>, \<^verbatim>\<open>generate_otp\<close>) and HMAC-SHA-256 are
  parameters. The security-event sink is observational: \<^verbatim>\<open>_emit_event\<close> swallows every failure and
  the sink keeps no state the service reads, so emissions are left out.
\<close>

section \<open>TOTP codes\<close>

text \<open>\<^verbatim>\<open>int(now.timestamp())\<close>: seconds since the epoch, truncated towards zero.\<close>

definition unix_seconds :: "time \<Rightarrow> int" where
  "unix_seconds t = (if 0 \<le> t then t div 1000000 else - ((- t) div 1000000))"

definition is_digit :: "char \<Rightarrow> bool" where
  "is_digit c \<longleftrightarrow> (let n = (of_char c :: nat) in 48 \<le> n \<and> n \<le> 57)"

type_synonym otp_function = "string \<Rightarrow> totp_policy \<Rightarrow> int \<Rightarrow> string"

definition accepted_counter ::
  "otp_function \<Rightarrow> string \<Rightarrow> string \<Rightarrow> time \<Rightarrow> totp_policy \<Rightarrow> int option" where
  "accepted_counter otp secret code now policy =
     (if int (length code) \<noteq> tpol_digits policy \<or> \<not> is_ascii code \<or> \<not> list_all is_digit code \<or>
         code = []
      then None
      else let current = unix_seconds now div tpol_period_seconds policy
           in foldl (\<lambda>accepted offset.
                let counter = current + offset
                in if counter \<ge> 0 \<and> otp secret policy counter = code then Some counter else accepted)
                None [- tpol_drift_steps policy..tpol_drift_steps policy])"

lemma foldl_last_hit:
  "foldl (\<lambda>a x. if p x then Some (f x) else a) z xs =
     (case filter p xs of [] \<Rightarrow> z | _ \<Rightarrow> Some (f (last (filter p xs))))"
  by (induction xs rule: rev_induct) (auto split: list.splits)

lemma accepted_counter_Some:
  assumes "accepted_counter otp secret code now policy = Some c"
  shows "0 \<le> c" and "otp secret policy c = code" and "int (length code) = tpol_digits policy"
    and "\<bar>c - unix_seconds now div tpol_period_seconds policy\<bar> \<le> tpol_drift_steps policy"
proof -
  define current where "current = unix_seconds now div tpol_period_seconds policy"
  define p where "p off \<longleftrightarrow> current + off \<ge> 0 \<and> otp secret policy (current + off) = code" for off
  define hits where "hits = filter p [- tpol_drift_steps policy..tpol_drift_steps policy]"
  have len: "int (length code) = tpol_digits policy"
    using assms by (auto simp: accepted_counter_def split: if_splits)
  have "foldl (\<lambda>a x. if p x then Some (current + x) else a) None
      [- tpol_drift_steps policy..tpol_drift_steps policy] = Some c"
    using assms
    by (simp add: accepted_counter_def Let_def current_def p_def cong: if_cong split: if_splits)
  then have "hits \<noteq> [] \<and> c = current + last hits"
    unfolding foldl_last_hit hits_def [symmetric] by (auto split: list.splits)
  moreover from this have "last hits \<in> set hits" by simp
  then have "p (last hits)" "last hits \<in> {- tpol_drift_steps policy..tpol_drift_steps policy}"
    by (auto simp: hits_def)
  ultimately show "0 \<le> c" "otp secret policy c = code" "int (length code) = tpol_digits policy"
    "\<bar>c - unix_seconds now div tpol_period_seconds policy\<bar> \<le> tpol_drift_steps policy"
    using len by (auto simp: p_def current_def)
qed

section \<open>Secrets\<close>

text \<open>\<^verbatim>\<open>b32decode(secret, casefold=False)\<close>, as far as the code looks: whether it succeeds and how
  many bytes it yields.\<close>

definition is_base32 :: "char \<Rightarrow> bool" where
  "is_base32 c \<longleftrightarrow> (let n = (of_char c :: nat) in (65 \<le> n \<and> n \<le> 90) \<or> (50 \<le> n \<and> n \<le> 55))"

definition b32_length :: "string \<Rightarrow> nat option" where
  "b32_length s =
     (let body = rev (dropWhile (\<lambda>c. c = CHR ''='') (rev s));
          padchars = length s - length body;
          quanta = (length body + 7) div 8
      in if length s mod 8 \<noteq> 0 \<or> \<not> list_all is_base32 body \<or> padchars \<notin> {0, 1, 3, 4, 6} then None
         else if padchars = 0 \<or> body = [] then Some (5 * quanta)
         else Some (5 * quanta - 5 + (43 - 5 * padchars) div 8))"

definition valid_secret :: "string \<Rightarrow> bool" where
  "valid_secret secret =
     (case b32_length secret of None \<Rightarrow> False | Some n \<Rightarrow> n * 8 \<ge> 160)"

definition totp_associated_data :: "string \<Rightarrow> string \<Rightarrow> string \<Rightarrow> bytes result" where
  "totp_associated_data account_id method_id key_version =
     (let values = [account_id, method_id, ''totp'', key_version]
      in if \<not> list_all (\<lambda>v. strict_context_text v \<and> CHR 0x00 \<notin> set v) values then Inl ValueError
         else Inr (utf8_bytes account_id @ [0] @ utf8_bytes method_id @ [0] @
                   utf8_bytes ''totp'' @ [0] @ utf8_bytes key_version))"

type_synonym unprotect_function = "protected_secret \<Rightarrow> bytes \<Rightarrow> bytes result"

definition recover_secret ::
  "unprotect_function \<Rightarrow> string \<Rightarrow> string \<Rightarrow> protected_secret \<Rightarrow> string result" where
  "recover_secret unprotect account_id method_id protected =
     bind (totp_associated_data account_id method_id (sec_key_version protected)) (\<lambda>aad.
     bind (unprotect protected aad) (\<lambda>plaintext.
       if \<exists>b\<in>set plaintext. unat b \<ge> 128 then Inl ValueError
       else let secret = map (\<lambda>b. char_of (unat b)) plaintext
            in if valid_secret secret then Inr secret else Inl ValueError))"

section \<open>Verifying a TOTP\<close>

text \<open>Evidence of one fresh second factor; the constructor accepts it unchanged.\<close>

definition factor_evidence :: "string \<Rightarrow> time \<Rightarrow> evidence" where
  "factor_evidence mechanism now =
     \<lparr>ev_mechanism = mechanism, ev_slot = ''mfa'', ev_authenticated_at = now,
      ev_expires_at = None, ev_methods = {mechanism}, ev_traits = {}, ev_acr = None, ev_amr = []\<rparr>"

lemma factor_evidence_accepted:
  assumes "trimmed mechanism"
  shows "evidence_post_init
    \<lparr>in_mechanism = mechanism, in_slot = ''mfa'', in_authenticated_at = Aware now,
     in_expires_at = None, in_methods = {mechanism}, in_traits = {}, in_acr = None, in_amr = []\<rparr> =
    Inr (factor_evidence mechanism now)"
proof -
  have "trimmed ''mfa''" by code_simp
  with assms show ?thesis
    by (simp add: evidence_post_init_def factor_evidence_def optional_result_def normalize_datetime_def)
qed

definition accept_totp ::
  "otp_function \<Rightarrow> unprotect_function \<Rightarrow> (string \<Rightarrow> int \<Rightarrow> time \<Rightarrow> ('s, bool) port) \<Rightarrow>
     string \<Rightarrow> string \<Rightarrow> string \<Rightarrow> time \<Rightarrow> time totp_method \<Rightarrow> ('s, evidence verdict) port" where
  "accept_totp otp unprotect advance account_id method_id code now m =
     call (lift_result (recover_secret unprotect account_id method_id (tm_protected_secret m)))
       (\<lambda>secret.
          case accepted_counter otp secret code now (tm_policy m) of
            None \<Rightarrow> pure Invalid_Credentials
          | Some counter \<Rightarrow>
              if counter \<le> tm_last_accepted_counter m then pure Invalid_Credentials
              else call (advance method_id counter now) (\<lambda>won.
                if won then pure (Verified (factor_evidence ''totp'' now))
                else pure Invalid_Credentials))"

definition verify_totp ::
  "otp_function \<Rightarrow> unprotect_function \<Rightarrow> py_datetime result \<Rightarrow>
     (string \<Rightarrow> string \<Rightarrow> ('s, time totp_method option) port) \<Rightarrow>
     (string \<Rightarrow> int \<Rightarrow> time \<Rightarrow> ('s, bool) port) \<Rightarrow>
     string \<Rightarrow> string \<Rightarrow> string \<Rightarrow> 's \<Rightarrow> evidence verdict \<times> 's" where
  "verify_totp otp unprotect clock get_method advance account_id method_id code =
     sanitized
       (call (lift_result (bind clock aware_utc_time)) (\<lambda>now.
        call (get_method account_id method_id) (\<lambda>found.
          case found of
            None \<Rightarrow> pure Invalid_Credentials
          | Some m \<Rightarrow> accept_totp otp unprotect advance account_id method_id code now m)))"

lemma accept_totp_Verified:
  "accept_totp otp unprotect advance a k code now m s = (Inr (Verified e), s') \<longleftrightarrow>
     (\<exists>secret c. recover_secret unprotect a k (tm_protected_secret m) = Inr secret \<and>
        accepted_counter otp secret code now (tm_policy m) = Some c \<and>
        tm_last_accepted_counter m < c \<and> advance k c now s = (Inr True, s') \<and>
        e = factor_evidence ''totp'' now)"
proof (cases "recover_secret unprotect a k (tm_protected_secret m)")
  case (Inr secret)
  show ?thesis
  proof (cases "accepted_counter otp secret code now (tm_policy m)")
    case (Some c)
    with Inr show ?thesis
      by (cases "advance k c now s"; cases "fst (advance k c now s)")
        (auto simp: accept_totp_def call_def)
  qed (simp add: accept_totp_def Inr)
qed (simp add: accept_totp_def)

lemma verify_totp_Verified:
  "verify_totp otp unprotect clock get_method advance a k code s = (Verified e, s') \<longleftrightarrow>
     (\<exists>now m s1. bind clock aware_utc_time = Inr now \<and> get_method a k s = (Inr (Some m), s1) \<and>
        accept_totp otp unprotect advance a k code now m s1 = (Inr (Verified e), s'))"
proof (cases "bind clock aware_utc_time")
  case (Inr now)
  show ?thesis
    unfolding verify_totp_def sanitized_Verified
    by (cases "get_method a k s"; cases "fst (get_method a k s)")
      (auto simp: Inr call_def split: option.splits)
qed (simp add: verify_totp_def sanitized_Verified)

text \<open>
  The store contract verification relies on (\<^verbatim>\<open>MFAStore\<close>): loading is owner-checked and changes
  nothing, and advancing succeeds only to a strictly greater counter.
\<close>

locale totp_store =
  fixes get_method :: "string \<Rightarrow> string \<Rightarrow> ('s, time totp_method option) port"
    and advance :: "string \<Rightarrow> int \<Rightarrow> time \<Rightarrow> ('s, bool) port"
    and counter :: "'s \<Rightarrow> string \<Rightarrow> int option"
    and ok :: "'s \<Rightarrow> bool"
  assumes get_state: "snd (get_method a k s) = s"
    and get_owner: "ok s \<Longrightarrow> get_method a k s = (Inr (Some m), s') \<Longrightarrow>
      tm_account_id m = a \<and> counter s k = Some (tm_last_accepted_counter m)"
    and advance_ok: "ok s \<Longrightarrow> ok (snd (advance k c now s))"
    and advance_won: "ok s \<Longrightarrow> advance k c now s = (Inr True, s') \<Longrightarrow>
      (\<exists>l. counter s k = Some l \<and> l < c) \<and> counter s' = (counter s)(k \<mapsto> c)"
    and advance_lost: "ok s \<Longrightarrow> fst (advance k c now s) \<noteq> Inr True \<Longrightarrow>
      counter (snd (advance k c now s)) = counter s"
begin

lemma verified:
  assumes "ok s"
    and "verify_totp otp unprotect clock get_method advance a k code s = (Verified e, s')"
  obtains now m secret c l where "bind clock aware_utc_time = Inr now"
    "get_method a k s = (Inr (Some m), s)" "tm_account_id m = a"
    "recover_secret unprotect a k (tm_protected_secret m) = Inr secret"
    "accepted_counter otp secret code now (tm_policy m) = Some c"
    "counter s k = Some l" "l < c" "counter s' = (counter s)(k \<mapsto> c)" "ok s'"
    "e = factor_evidence ''totp'' now"
proof -
  obtain now m s1 secret c where steps: "bind clock aware_utc_time = Inr now"
      "get_method a k s = (Inr (Some m), s1)"
      "recover_secret unprotect a k (tm_protected_secret m) = Inr secret"
      "accepted_counter otp secret code now (tm_policy m) = Some c"
      "advance k c now s1 = (Inr True, s')" "e = factor_evidence ''totp'' now"
    using assms(2) unfolding verify_totp_Verified accept_totp_Verified by blast
  have s1: "s1 = s" using get_state [of a k s] steps(2) by simp
  have "tm_account_id m = a"
    using get_owner [OF assms(1), of a k m s] steps(2) s1 by simp
  moreover obtain l where "counter s k = Some l" "l < c" "counter s' = (counter s)(k \<mapsto> c)"
    using advance_won [OF assms(1), of k c now s'] steps(5) s1 by auto
  moreover have "ok s'"
    using advance_ok [OF assms(1), of k c now] steps(5) s1 by simp
  ultimately show thesis using that steps s1 by blast
qed

end

definition store_get_method ::
  "string \<Rightarrow> string \<Rightarrow> (mfa_state, time totp_method option) port" where
  "store_get_method account_id method_id s = (Inr (get_totp_method account_id method_id s), s)"

interpretation memory_totp: totp_store store_get_method advance_totp_counter last_counter mfa_ok
proof
  show "mfa_ok s \<Longrightarrow> store_get_method a k s = (Inr (Some m), s') \<Longrightarrow>
      tm_account_id m = a \<and> last_counter s k = Some (tm_last_accepted_counter m)" for s a k m s'
    by (auto simp: store_get_method_def get_totp_method_def last_counter_def split: option.splits if_splits)
  show "mfa_ok s \<Longrightarrow> advance_totp_counter k c now s = (Inr True, s') \<Longrightarrow>
      (\<exists>l. last_counter s k = Some l \<and> l < c) \<and> last_counter s' = (last_counter s)(k \<mapsto> c)"
    for s k c now s'
    using advance_result [of s k c now] by (auto split: option.splits)
  show "mfa_ok s \<Longrightarrow> fst (advance_totp_counter k c now s) \<noteq> Inr True \<Longrightarrow>
      last_counter (snd (advance_totp_counter k c now s)) = last_counter s" for s k c now
    using advance_result(2) [of s k c now] by simp
qed (simp_all add: store_get_method_def advance_ok)

section \<open>Recovery codes\<close>

record recovery_pepper =
  rpp_key_version :: string
  rpp_key :: bytes

definition recovery_pepper_post_init :: "recovery_pepper \<Rightarrow> recovery_pepper result" where
  "recovery_pepper_post_init p =
     (if \<not> strict_context_text (rpp_key_version p) \<or> CHR ''_'' \<in> set (rpp_key_version p) \<or>
         length (rpp_key_version p) > 16 \<or> length (rpp_key p) < 32
      then Inl ImproperlyConfigured else Inr p)"

definition validate_recovery_configuration ::
  "recovery_pepper list \<Rightarrow> int \<Rightarrow> recovery_pepper list result" where
  "validate_recovery_configuration peppers wanted =
     (if peppers = [] \<or> \<not> distinct (map rpp_key_version peppers) \<or> \<not> (1 \<le> wanted \<and> wanted \<le> 100)
      then Inl ValueError else Inr peppers)"

definition hex_char :: "nat \<Rightarrow> char" where
  "hex_char n = char_of (if n < 10 then 48 + n else 55 + n)"

definition hex_upper :: "bytes \<Rightarrow> string" where
  "hex_upper bs = concat (map (\<lambda>b. [hex_char (unat b div 16), hex_char (unat b mod 16)]) bs)"

definition recovery_code :: "string \<Rightarrow> bytes \<Rightarrow> string" where
  "recovery_code key_version value = ''rc_'' @ key_version @ ''_'' @ hex_upper value"

text \<open>The loop of \<^verbatim>\<open>_generate_recovery_codes\<close>: at most four draws per code asked for.\<close>

fun draw_codes ::
  "(nat \<Rightarrow> ('e, bytes) port) \<Rightarrow> string \<Rightarrow> nat \<Rightarrow> nat \<Rightarrow> string list \<Rightarrow> ('e, string list) port" where
  "draw_codes entropy key_version wanted 0 codes = pure codes"
| "draw_codes entropy key_version wanted (Suc left) codes =
     (if length codes < wanted then
        call (entropy 16) (\<lambda>value.
          if length value \<noteq> 16 then raise ValueError
          else let code = recovery_code key_version value
               in draw_codes entropy key_version wanted left
                    (if code \<in> set codes then codes else codes @ [code]))
      else pure codes)"

definition generate_codes ::
  "(nat \<Rightarrow> ('e, bytes) port) \<Rightarrow> string \<Rightarrow> nat \<Rightarrow> ('e, string list) port" where
  "generate_codes entropy key_version wanted =
     call (draw_codes entropy key_version wanted (wanted * 4) []) (\<lambda>codes.
       if length codes \<noteq> wanted then raise ValueError else pure codes)"

definition is_upper_hex :: "char \<Rightarrow> bool" where
  "is_upper_hex c \<longleftrightarrow> (let n = (of_char c :: nat) in (48 \<le> n \<and> n \<le> 57) \<or> (65 \<le> n \<and> n \<le> 70))"

definition recovery_code_version :: "string \<Rightarrow> string result" where
  "recovery_code_version code =
     (case split_on (CHR ''_'') code of
        [rc, version, digits] \<Rightarrow>
          if rc \<noteq> ''rc'' \<or> \<not> strict_context_text version \<or> length digits \<noteq> 32 \<or>
             \<not> list_all is_upper_hex digits
          then Inl ValueError else Inr version
      | _ \<Rightarrow> Inl ValueError)"

definition recovery_domain :: bytes where
  "recovery_domain = ascii_bytes ''litestar-security:recovery-code:v2'' @ [0]"

definition recovery_payload :: "string \<Rightarrow> string \<Rightarrow> bytes" where
  "recovery_payload account_id code =
     recovery_domain @ utf8_bytes account_id @ [0] @ ascii_bytes code"

definition recovery_digest_of ::
  "hmac_function \<Rightarrow> recovery_pepper \<Rightarrow> string \<Rightarrow> string \<Rightarrow> bytes result" where
  "recovery_digest_of hmac pepper account_id code =
     bind (recovery_code_version code) (\<lambda>_.
       if \<not> strict_context_text account_id \<or> CHR 0x00 \<in> set account_id then Inl ValueError
       else if \<not> is_ascii code then Inl ValueError
       else Inr (hmac (rpp_key pepper) (recovery_payload account_id code)))"

text \<open>A malformed code is rejected as invalid, a failing clock or store as unavailable.\<close>

definition consume_recovery_code ::
  "hmac_function \<Rightarrow> recovery_pepper list \<Rightarrow> py_datetime result \<Rightarrow>
     (string \<Rightarrow> bytes \<Rightarrow> time \<Rightarrow> ('s, bool) port) \<Rightarrow> string \<Rightarrow> string \<Rightarrow> 's \<Rightarrow> evidence verdict \<times> 's" where
  "consume_recovery_code hmac peppers clock consume account_id code s =
     (case call (lift_result (bind clock aware_utc_time)) (\<lambda>now.
           call (lift_result (recovery_code_version code)) (\<lambda>version.
             case List.find (\<lambda>p. rpp_key_version p = version) peppers of
               None \<Rightarrow> pure Invalid_Credentials
             | Some pepper \<Rightarrow>
                 call (lift_result (recovery_digest_of hmac pepper account_id code)) (\<lambda>digest.
                 call (consume account_id digest now) (\<lambda>won.
                   if won then pure (Verified (factor_evidence ''recovery-code'' now))
                   else pure Invalid_Credentials)))) s of
        (Inl e, s') \<Rightarrow>
          (if e = TypeError \<or> e = ValueError then Invalid_Credentials else Verification_Unavailable, s')
      | (Inr v, s') \<Rightarrow> (v, s'))"

section \<open>Recovery codes parse back\<close>

lemma hex_char_upper: "n < 16 \<Longrightarrow> is_upper_hex (hex_char n) \<and> hex_char n \<noteq> CHR ''_''"
  by (auto simp: hex_char_def is_upper_hex_def char_eq_code)

lemma hex_upper_chars: "list_all is_upper_hex (hex_upper bs) \<and> CHR ''_'' \<notin> set (hex_upper bs)"
proof (induction bs)
  case (Cons b bs)
  have "unat b div 16 < 16" "unat b mod 16 < 16"
    using unat_byte [of b] less_mult_imp_div_less [of "unat b" 16 16] by simp_all
  then have "is_upper_hex (hex_char (unat b div 16))" "is_upper_hex (hex_char (unat b mod 16))"
    "hex_char (unat b div 16) \<noteq> CHR ''_''" "hex_char (unat b mod 16) \<noteq> CHR ''_''"
    using hex_char_upper by blast+
  then show ?case
    using Cons not_sym by (simp add: hex_upper_def)
qed (simp add: hex_upper_def)

lemma length_hex_upper: "length (hex_upper bs) = 2 * length bs"
  by (induction bs) (simp_all add: hex_upper_def)

lemma recovery_code_parses:
  assumes "strict_context_text v" "CHR ''_'' \<notin> set v" "length b = 16"
  shows "recovery_code_version (recovery_code v b) = Inr v"
proof -
  have "split_on (CHR ''_'') (recovery_code v b) = [''rc'', v, hex_upper b]"
    using split_on_append [of "CHR ''_''" "''rc''" "v @ CHR ''_'' # hex_upper b"]
      split_on_append [of "CHR ''_''" v "hex_upper b"] split_on_none [of "CHR ''_''" "hex_upper b"]
      hex_upper_chars [of b] assms(2)
    by (simp add: recovery_code_def)
  then show ?thesis
    using assms hex_upper_chars [of b] by (simp add: recovery_code_version_def length_hex_upper)
qed

lemma draw_codes_spec:
  assumes "draw_codes entropy v wanted left codes s = (Inr out, s')" and "distinct codes"
    and "\<forall>c\<in>set codes. \<exists>b. length b = 16 \<and> c = recovery_code v b"
  shows "distinct out \<and> (\<forall>c\<in>set out. \<exists>b. length b = 16 \<and> c = recovery_code v b)"
  using assms
proof (induction left arbitrary: codes s)
  case (Suc left)
  show ?case
  proof (cases "length codes < wanted")
    case True
    with Suc.prems(1) obtain bs s1 where "length bs = 16" and rest:
        "draw_codes entropy v wanted left (if recovery_code v bs \<in> set codes then codes
           else codes @ [recovery_code v bs]) s1 = (Inr out, s')"
      by (auto simp: call_eq_Inr Let_def split: if_splits)
    then show ?thesis
      by (intro Suc.IH [OF rest]) (use Suc.prems in auto)
  next
    case False
    with Suc.prems show ?thesis by simp
  qed
qed simp

section \<open>Properties\<close>

text \<open>C30: A TOTP login proves possession of the method's secret and cannot be replayed: with the
  in-memory store, verification succeeds only for the method's owner and a code that is the
  method's one-time password at a counter within the allowed drift and above every counter accepted
  before; that counter is then recorded, so any later success is at a strictly larger counter.\<close>

theorem totp_verification_sound:
  assumes "mfa_ok s"
    and "verify_totp otp unprotect clock store_get_method advance_totp_counter a k code s = (Verified e, s')"
  shows "\<exists>now m secret c.
      bind clock aware_utc_time = Inr now \<and> get_totp_method a k s = Some m \<and> tm_account_id m = a \<and>
      recover_secret unprotect a k (tm_protected_secret m) = Inr secret \<and>
      otp secret (tm_policy m) c = code \<and>
      \<bar>c - unix_seconds now div tpol_period_seconds (tm_policy m)\<bar> \<le> tpol_drift_steps (tm_policy m) \<and>
      tm_last_accepted_counter m < c \<and> last_counter s' k = Some c \<and>
      (\<forall>clock' code' e' s''.
         verify_totp otp unprotect clock' store_get_method advance_totp_counter a k code' s' = (Verified e', s'') \<longrightarrow>
         (\<exists>c'. c < c' \<and> last_counter s'' k = Some c'))"
proof -
  obtain now m secret c l where v: "bind clock aware_utc_time = Inr now"
    "store_get_method a k s = (Inr (Some m), s)" "tm_account_id m = a"
    "recover_secret unprotect a k (tm_protected_secret m) = Inr secret"
    "accepted_counter otp secret code now (tm_policy m) = Some c"
    "last_counter s k = Some l" "l < c" "last_counter s' = (last_counter s)(k \<mapsto> c)" "mfa_ok s'"
    by (rule memory_totp.verified [OF assms])
  have m: "get_totp_method a k s = Some m" "l = tm_last_accepted_counter m"
    using v(2,6) by (auto simp: store_get_method_def get_totp_method_def last_counter_def
        split: option.splits if_splits)
  have later: "\<exists>c'. c < c' \<and> last_counter s'' k = Some c'"
    if again: "verify_totp otp unprotect clock' store_get_method advance_totp_counter a k code' s' =
        (Verified e', s'')" for clock' code' e' s''
    by (rule memory_totp.verified [OF v(9) again]) (use v(8) in auto)
  show ?thesis
    using v m later accepted_counter_Some(2,4) [OF v(5)] by auto
qed

text \<open>Associated data separates secrets: the bytes a TOTP secret is encrypted under determine the
  account, the method and the key version, so a ciphertext moved to another account, method or key
  version is opened under different associated data.\<close>

theorem totp_associated_data_injective:
  assumes "totp_associated_data a m v = Inr b" and "totp_associated_data a' m' v' = Inr b"
  shows "a = a' \<and> m = m' \<and> v = v'"
proof -
  have clean: "0 \<notin> set (utf8_bytes x)" if "CHR 0x00 \<notin> set x" for x
    using that by (simp add: utf8_bytes_NUL)
  have "CHR 0x00 \<notin> set a" "CHR 0x00 \<notin> set m" "CHR 0x00 \<notin> set a'" "CHR 0x00 \<notin> set m'"
    and eq: "utf8_bytes a @ [0] @ utf8_bytes m @ [0] @ utf8_bytes ''totp'' @ [0] @ utf8_bytes v =
      utf8_bytes a' @ [0] @ utf8_bytes m' @ [0] @ utf8_bytes ''totp'' @ [0] @ utf8_bytes v'"
    using assms by (auto simp: totp_associated_data_def Let_def split: if_splits)
  then show ?thesis
    using clean append_sep_inject by (metis utf8_bytes_inject append_same_eq same_append_eq)
qed

lemma generate_codes_shape:
  assumes "generate_codes entropy v wanted s = (Inr codes, s')"
  shows "length codes = wanted" and "distinct codes"
    and "\<And>c. c \<in> set codes \<Longrightarrow> \<exists>b. length b = 16 \<and> c = recovery_code v b"
proof -
  have d: "draw_codes entropy v wanted (wanted * 4) [] s = (Inr codes, s')"
    and n: "length codes = wanted"
    using assms by (auto simp: generate_codes_def call_eq_Inr split: if_splits)
  have "distinct codes \<and> (\<forall>c\<in>set codes. \<exists>b. length b = 16 \<and> c = recovery_code v b)"
    by (rule draw_codes_spec [OF d]) simp_all
  with n show "length codes = wanted" "distinct codes"
    "\<And>c. c \<in> set codes \<Longrightarrow> \<exists>b. length b = 16 \<and> c = recovery_code v b"
    by auto
qed

text \<open>Generated recovery codes are distinct, exactly as many as asked for, and each parses back to
  the pepper version it was made under, whatever the entropy source returns.\<close>

theorem generated_codes_distinct_and_parse:
  assumes "generate_codes entropy v wanted s = (Inr codes, s')"
    and "recovery_pepper_post_init p = Inr p" and "rpp_key_version p = v"
  shows "length codes = wanted \<and> distinct codes \<and>
         set (map recovery_code_version codes) \<subseteq> {Inr v}"
proof -
  have v: "strict_context_text v" "CHR ''_'' \<notin> set v"
    using assms(2,3) by (auto simp: recovery_pepper_post_init_def split: if_splits)
  show ?thesis
    using generate_codes_shape [OF assms(1)] recovery_code_parses [OF v] by fastforce
qed

section \<open>The properties on one store\<close>

definition example_otp :: otp_function where
  "example_otp secret policy c = (if c = 1 then ''000001'' else ''000000'')"

definition example_secret :: string where
  "example_secret = replicate 32 (CHR ''A'')"

definition example_unprotect :: unprotect_function where
  "example_unprotect protected aad = Inr (replicate 32 65)"

definition example_method :: "time totp_method" where
  "example_method = \<lparr>tm_method_id = ''m'', tm_account_id = ''u'',
     tm_protected_secret = \<lparr>sec_ciphertext = [1], sec_key_version = ''v''\<rparr>,
     tm_policy = default_totp_policy, tm_last_accepted_counter = 0, tm_created_at = 0,
     tm_last_used_at = None\<rparr>"

definition example_mfa :: mfa_state where
  "example_mfa = empty_mfa\<lparr>mf_methods := [(''m'', example_method)]\<rparr>"

lemma example_mfa_facts:
  "strict_context_text ''m''" "strict_context_text ''u''"
  "recover_secret example_unprotect ''u'' ''m'' (tm_protected_secret example_method) = Inr example_secret"
  "accepted_counter example_otp example_secret ''000001'' 30000000 default_totp_policy = Some 1"
  by code_simp+

lemma example_mfa_ok: "mfa_ok example_mfa"
  using example_mfa_facts(1,2) by (simp add: mfa_ok_def example_mfa_def example_method_def)

lemma example_verifies:
  "\<exists>s'. verify_totp example_otp example_unprotect (Inr (Aware 30000000)) store_get_method
     advance_totp_counter ''u'' ''m'' ''000001'' example_mfa = (Verified (factor_evidence ''totp'' 30000000), s')"
proof -
  have get: "store_get_method ''u'' ''m'' example_mfa = (Inr (Some example_method), example_mfa)"
    by (simp add: store_get_method_def get_totp_method_def example_mfa_def)
      (simp add: example_method_def)
  have "fst (advance_totp_counter ''m'' 1 30000000 example_mfa) = Inr True"
    using advance_result(1) [OF example_mfa_ok]
    by (simp add: last_counter_def example_mfa_def example_method_def)
  then obtain s' where "advance_totp_counter ''m'' 1 30000000 example_mfa = (Inr True, s')"
    by (metis prod.collapse)
  then have "accept_totp example_otp example_unprotect advance_totp_counter ''u'' ''m'' ''000001''
      30000000 example_method example_mfa = (Inr (Verified (factor_evidence ''totp'' 30000000)), s')"
    using example_mfa_facts(3,4) unfolding accept_totp_Verified
    by (simp add: example_method_def)
  then show ?thesis
    using get unfolding verify_totp_Verified by auto
qed

theorem totp_verification_sound_witness:
  "\<exists>e s' c. verify_totp example_otp example_unprotect (Inr (Aware 30000000)) store_get_method
     advance_totp_counter ''u'' ''m'' ''000001'' example_mfa = (Verified e, s') \<and>
     0 < c \<and> last_counter s' ''m'' = Some c"
proof -
  obtain s' where v: "verify_totp example_otp example_unprotect (Inr (Aware 30000000)) store_get_method
      advance_totp_counter ''u'' ''m'' ''000001'' example_mfa =
      (Verified (factor_evidence ''totp'' 30000000), s')"
    using example_verifies by blast
  have "get_totp_method ''u'' ''m'' example_mfa = Some m \<Longrightarrow> tm_last_accepted_counter m = 0" for m
    by (auto simp: get_totp_method_def example_mfa_def example_method_def)
  then have "\<exists>c. 0 < c \<and> last_counter s' ''m'' = Some c"
    using totp_verification_sound [OF example_mfa_ok v] by metis
  with v show ?thesis by blast
qed

theorem totp_associated_data_injective_witness:
  "\<exists>b. totp_associated_data ''u'' ''m'' ''v'' = Inr b \<and> totp_associated_data ''u'' ''n'' ''v'' \<noteq> Inr b"
proof -
  have "\<not> isl (totp_associated_data ''u'' ''m'' ''v'')" by code_simp
  then obtain b where b: "totp_associated_data ''u'' ''m'' ''v'' = Inr b"
    by (metis sum.collapse(2))
  moreover have "totp_associated_data ''u'' ''n'' ''v'' \<noteq> Inr b"
    using totp_associated_data_injective [OF b, of "''u''" "''n''" "''v''"] by auto
  ultimately show ?thesis by blast
qed

theorem generated_codes_distinct_and_parse_witness:
  "fst (generate_codes (\<lambda>n e. (Inr (replicate n 0), e)) ''v'' 1 ()) =
     Inr [recovery_code ''v'' (replicate 16 0)] \<and>
   recovery_code_version (recovery_code ''v'' (replicate 16 0)) = Inr ''v''"
proof -
  have g: "generate_codes (\<lambda>n e. (Inr (replicate n 0), e)) ''v'' 1 () =
      (Inr [recovery_code ''v'' (replicate 16 0)], ())"
    by (simp add: generate_codes_def eval_nat_numeral call_def)
  have "strict_context_text ''v''" by code_simp
  then have "recovery_pepper_post_init \<lparr>rpp_key_version = ''v'', rpp_key = replicate 32 0\<rparr> =
      Inr \<lparr>rpp_key_version = ''v'', rpp_key = replicate 32 0\<rparr>"
    by (simp add: recovery_pepper_post_init_def)
  from generated_codes_distinct_and_parse [OF g this] g show ?thesis by auto
qed

end
