(* ===== verification/Second_Factor.thy ===== *)
theory Second_Factor
  imports Challenge_Stores MFA
begin

text \<open>
  The two services that spend one-time records: \<^verbatim>\<open>StepUpService\<close> (\<^verbatim>\<open>accounts/_mfa.py\<close>) and
  \<^verbatim>\<open>MFALoginService\<close> (\<^verbatim>\<open>accounts/_mfa_login.py\<close>). Stores are ports; the properties are about
  the in-memory stores. SHA-256, HMAC-SHA-256, the clock reading and the entropy reading are
  parameters.
\<close>

type_synonym sha_function = "bytes \<Rightarrow> bytes"
type_synonym entropy_function = "nat \<Rightarrow> bytes result"

section \<open>Step-up grants\<close>

record step_up_credential =
  suc_token :: string
  suc_purpose :: string
  suc_expires_at :: time

definition step_up_ttl_ok :: "time \<Rightarrow> bool" where
  "step_up_ttl_ok ttl \<longleftrightarrow> 0 < ttl \<and> ttl \<le> maximum_step_up_ttl"

definition step_up_service_post_init :: "time \<Rightarrow> unit result" where
  "step_up_service_post_init ttl = (if step_up_ttl_ok ttl then Inr () else Inl ImproperlyConfigured)"

definition step_up_issue ::
  "sha_function \<Rightarrow> time \<Rightarrow> py_datetime result \<Rightarrow> entropy_function \<Rightarrow>
     (time step_up_grant \<Rightarrow> ('s, unit) port) \<Rightarrow>
     string \<Rightarrow> int \<Rightarrow> string \<Rightarrow> bytes \<Rightarrow> evidence \<Rightarrow> 's \<Rightarrow> step_up_credential verdict \<times> 's" where
  "step_up_issue sha ttl clock random put subject_id security_epoch purpose binding evidence =
     sanitized
       (call (lift_result (bind clock aware_utc_time)) (\<lambda>now.
          if \<not> strict_context_text subject_id \<or> \<not> valid_security_epoch security_epoch \<or>
             \<not> strict_context_text purpose \<or> binding = [] \<or>
             ev_authenticated_at evidence > now \<or> now - ev_authenticated_at evidence > ttl
          then pure Invalid_Credentials
          else call (lift_result (random 32)) (\<lambda>raw.
            if length raw \<noteq> 32 then pure Verification_Unavailable
            else
              let token = encode_random raw; expires_at = now + ttl
              in call (lift_result (step_up_grant_post_init
                    \<lparr>sg_grant_digest = sha (ascii_bytes token), sg_transport_digest = sha binding,
                     sg_principal_id = subject_id, sg_security_epoch = security_epoch,
                     sg_purpose = purpose, sg_methods = ev_methods evidence,
                     sg_traits = ev_traits evidence, sg_authenticated_at = Aware now,
                     sg_expires_at = Aware expires_at\<rparr>)) (\<lambda>grant.
                 call (put grant) (\<lambda>_.
                 pure (Verified \<lparr>suc_token = token, suc_purpose = purpose,
                                suc_expires_at = expires_at\<rparr>))))))"

definition step_up_evidence :: "string \<Rightarrow> time step_up_grant \<Rightarrow> evidence result" where
  "step_up_evidence purpose g =
     evidence_post_init
       \<lparr>in_mechanism = ''step-up'', in_slot = ''mfa'',
        in_authenticated_at = Aware (sg_authenticated_at g),
        in_expires_at = Some (Aware (sg_expires_at g)), in_methods = sg_methods g,
        in_traits = sg_traits g \<union> {''purpose:'' @ purpose}, in_acr = None, in_amr = []\<rparr>"

definition step_up_redeem ::
  "sha_function \<Rightarrow> py_datetime result \<Rightarrow> (step_up_request \<Rightarrow> ('s, time step_up_grant option) port) \<Rightarrow>
     string \<Rightarrow> string \<Rightarrow> int \<Rightarrow> string \<Rightarrow> bytes \<Rightarrow> 's \<Rightarrow> evidence verdict result \<times> 's" where
  "step_up_redeem sha clock consume token subject_id security_epoch purpose binding s =
     (case sanitized
        (call (lift_result (bind clock aware_utc_time)) (\<lambda>now.
           if \<not> strict_context_text token \<or> \<not> strict_context_text subject_id \<or>
              \<not> valid_security_epoch security_epoch \<or> \<not> strict_context_text purpose \<or> binding = []
           then pure Invalid_Credentials
           else if \<not> is_ascii token then raise ValueError
           else call (consume
                  \<lparr>sq_grant_digest = sha (ascii_bytes token), sq_principal_id = subject_id,
                   sq_security_epoch = security_epoch, sq_purpose = purpose,
                   sq_transport_digest = sha binding, sq_now = now\<rparr>) (\<lambda>found.
             case found of None \<Rightarrow> pure Invalid_Credentials | Some g \<Rightarrow> pure (Verified g)))) s of
        (Verified g, s') \<Rightarrow> (bind (step_up_evidence purpose g) (\<lambda>e. Inr (Verified e)), s')
      | (Invalid_Credentials, s') \<Rightarrow> (Inr Invalid_Credentials, s')
      | (Verification_Unavailable, s') \<Rightarrow> (Inr Verification_Unavailable, s'))"

text \<open>The in-memory store behind the two ports.\<close>

definition memory_step_up_put :: "time step_up_grant \<Rightarrow> (step_up_store, unit) port" where
  "memory_step_up_put g s = (Inr (), step_up_put g s)"

definition memory_step_up_consume ::
  "step_up_request \<Rightarrow> (step_up_store, time step_up_grant option) port" where
  "memory_step_up_consume q s = (case step_up_consume q s of (r, s') \<Rightarrow> (Inr r, s'))"

lemma memory_step_up_consume_eq:
  "memory_step_up_consume q s = (Inr (fst (step_up_consume q s)), snd (step_up_consume q s))"
  by (simp add: memory_step_up_consume_def split: prod.splits)

section \<open>MFA login challenges\<close>

record mfa_required =
  mr_challenge :: string
  mr_account_id :: string
  mr_expires_at :: time
  mr_methods :: "string set"

definition mfa_login_methods :: "string set" where
  "mfa_login_methods = {''totp'', ''recovery-code''}"

definition valid_mfa_methods :: "string set \<Rightarrow> bool" where
  "valid_mfa_methods methods \<longleftrightarrow> methods \<noteq> {} \<and> methods \<subseteq> mfa_login_methods"

definition mfa_login_service_post_init :: "bytes \<Rightarrow> string set \<Rightarrow> time \<Rightarrow> unit result" where
  "mfa_login_service_post_init pepper methods ttl =
     (if length pepper < minimum_pepper_bytes then Inl ImproperlyConfigured
      else if \<not> valid_mfa_methods methods then Inl ImproperlyConfigured
      else if \<not> (0 < ttl \<and> ttl \<le> maximum_mfa_login_ttl) then Inl ImproperlyConfigured
      else Inr ())"

definition valid_client_key :: "string option \<Rightarrow> bool" where
  "valid_client_key k = (case k of None \<Rightarrow> True | Some x \<Rightarrow> strict_context_text x)"

definition client_keys_match :: "string option \<Rightarrow> string option \<Rightarrow> bool" where
  "client_keys_match expected actual =
     (case (expected, actual) of
        (Some e, Some a) \<Rightarrow> utf8_bytes e = utf8_bytes a
      | (None, None) \<Rightarrow> True
      | _ \<Rightarrow> False)"

definition mfa_login_issue ::
  "hmac_function \<Rightarrow> bytes \<Rightarrow> string set \<Rightarrow> time \<Rightarrow> py_datetime result \<Rightarrow> entropy_function \<Rightarrow>
     (time mfa_login_challenge \<Rightarrow> ('s, unit) port) \<Rightarrow> 'u account \<Rightarrow> string option \<Rightarrow> 's \<Rightarrow>
     mfa_required verdict \<times> 's" where
  "mfa_login_issue hmac pepper methods ttl clock random put account client_key =
     sanitized
       (call (lift_result (bind clock aware_utc_time)) (\<lambda>now.
          if \<not> strict_context_text (acc_id account) \<or> \<not> valid_security_epoch (acc_epoch account) \<or>
             \<not> valid_client_key client_key
          then pure Verification_Unavailable
          else call (lift_result (random 32)) (\<lambda>raw.
            if length raw \<noteq> 32 then pure Verification_Unavailable
            else
              let token = encode_random raw; expires_at = now + ttl
              in call (lift_result (mfa_login_challenge_post_init
                    \<lparr>ml_challenge_digest = hmac pepper (ascii_bytes token),
                     ml_account_id = acc_id account, ml_security_epoch = acc_epoch account,
                     ml_client_key = client_key, ml_issued_at = Aware now,
                     ml_expires_at = Aware expires_at\<rparr>)) (\<lambda>challenge.
                 call (put challenge) (\<lambda>_.
                 pure (Verified \<lparr>mr_challenge = token, mr_account_id = acc_id account,
                                mr_expires_at = expires_at, mr_methods = methods\<rparr>))))))"

definition mfa_login_redeem ::
  "hmac_function \<Rightarrow> bytes \<Rightarrow> py_datetime result \<Rightarrow>
     (mfa_login_request \<Rightarrow> ('s, time mfa_login_challenge option) port) \<Rightarrow>
     string \<Rightarrow> string \<Rightarrow> int \<Rightarrow> string option \<Rightarrow> 's \<Rightarrow> time mfa_login_challenge verdict \<times> 's" where
  "mfa_login_redeem hmac pepper clock consume challenge account_id security_epoch client_key s =
     (if \<not> (strict_context_text challenge \<and> is_ascii challenge) \<or>
         \<not> strict_context_text account_id \<or> \<not> valid_security_epoch security_epoch
      then (Invalid_Credentials, s)
      else case call (lift_result (bind clock aware_utc_time)) (\<lambda>now.
             consume
               \<lparr>mq_challenge_digest = hmac pepper (ascii_bytes challenge),
                mq_account_id = account_id, mq_security_epoch = security_epoch, mq_now = now\<rparr>) s of
        (Inl e, s') \<Rightarrow> (Verification_Unavailable, s')
      | (Inr None, s') \<Rightarrow> (Invalid_Credentials, s')
      | (Inr (Some r), s') \<Rightarrow>
          (if \<not> valid_client_key client_key \<or> \<not> client_keys_match (ml_client_key r) client_key
           then Invalid_Credentials else Verified r, s'))"

text \<open>Verifying the factor for a consumed challenge: the MFA service's two operations as ports.\<close>

definition mfa_login_verify ::
  "string set \<Rightarrow> (string \<Rightarrow> string \<Rightarrow> string \<Rightarrow> ('s, evidence verdict) port) \<Rightarrow>
     (string \<Rightarrow> string \<Rightarrow> ('s, evidence verdict) port) \<Rightarrow>
     time mfa_login_challenge \<Rightarrow> string \<Rightarrow> string option \<Rightarrow> string \<Rightarrow> 's \<Rightarrow> evidence verdict \<times> 's" where
  "mfa_login_verify methods verify_totp_port consume_code_port challenge method method_id code s =
     (if method \<notin> methods then (Invalid_Credentials, s)
      else sanitized
        (if method = ''totp'' then
           (case method_id of
              None \<Rightarrow> pure Invalid_Credentials
            | Some k \<Rightarrow> verify_totp_port (ml_account_id challenge) k code)
         else if method = ''recovery-code'' then consume_code_port (ml_account_id challenge) code
         else pure Invalid_Credentials) s)"

definition memory_mfa_login_put :: "time mfa_login_challenge \<Rightarrow> (mfa_login_store, unit) port" where
  "memory_mfa_login_put c s = (Inr (), mfa_login_put c s)"

definition memory_mfa_login_consume ::
  "mfa_login_request \<Rightarrow> (mfa_login_store, time mfa_login_challenge option) port" where
  "memory_mfa_login_consume q s = (case mfa_login_consume q s of (r, s') \<Rightarrow> (Inr r, s'))"

section \<open>Redeeming what was issued\<close>

lemma step_up_issue_Verified:
  assumes "step_up_issue sha ttl clock random memory_step_up_put p e u b ev s = (Verified cred, s')"
  obtains now raw g where "bind clock aware_utc_time = Inr now" "random 32 = Inr raw"
    "length raw = 32" "strict_context_text p" "valid_security_epoch e" "strict_context_text u"
    "b \<noteq> []" "cred = \<lparr>suc_token = encode_random raw, suc_purpose = u, suc_expires_at = now + ttl\<rparr>"
    "g = \<lparr>sg_grant_digest = sha (ascii_bytes (encode_random raw)), sg_transport_digest = sha b,
       sg_principal_id = p, sg_security_epoch = e, sg_purpose = u, sg_methods = ev_methods ev,
       sg_traits = ev_traits ev, sg_authenticated_at = now, sg_expires_at = now + ttl\<rparr>"
    "s' = step_up_put g s" "ev_authenticated_at ev \<le> now"
proof -
  have "\<exists>now raw g. bind clock aware_utc_time = Inr now \<and> random 32 = Inr raw \<and>
    length raw = 32 \<and> strict_context_text p \<and> valid_security_epoch e \<and> strict_context_text u \<and>
    b \<noteq> [] \<and> cred = \<lparr>suc_token = encode_random raw, suc_purpose = u, suc_expires_at = now + ttl\<rparr> \<and>
    g = \<lparr>sg_grant_digest = sha (ascii_bytes (encode_random raw)), sg_transport_digest = sha b,
       sg_principal_id = p, sg_security_epoch = e, sg_purpose = u, sg_methods = ev_methods ev,
       sg_traits = ev_traits ev, sg_authenticated_at = now, sg_expires_at = now + ttl\<rparr> \<and>
    s' = step_up_put g s \<and> ev_authenticated_at ev \<le> now"
    using assms unfolding step_up_issue_def sanitized_Verified
    by (auto simp: call_eq_Inr Let_def step_up_grant_post_init_def memory_step_up_put_def
        call_def result_simps split: if_splits sum.splits)
  then show thesis using that by blast
qed

lemma encode_random_text:
  assumes "length raw = 32"
  shows "strict_context_text (encode_random raw)" and "is_ascii (encode_random raw)"
proof -
  have ne: "encode_random raw \<noteq> []"
    using length_encode_random [of raw] assms by auto
  have sp: "\<forall>c\<in>set (encode_random raw). \<not> is_space c"
    using encode_random_chars by blast
  then have "trimmed (encode_random raw)"
    using ne by (simp add: trimmed_def)
  then have "strip (encode_random raw) = encode_random raw" by (rule strip_trimmed)
  moreover have asc: "\<forall>c\<in>set (encode_random raw). 32 \<le> (of_char c :: nat) \<and> (of_char c :: nat) < 128"
  proof
    fix c assume "c \<in> set (encode_random raw)"
    then obtain n where n: "n < 64" "c = b64_char n"
      using b64_core_chars by (auto simp: encode_random_core)
    then show "32 \<le> (of_char c :: nat) \<and> (of_char c :: nat) < 128"
      by (auto simp: b64_char_code)
  qed
  moreover have "utf8_length (encode_random raw) = length (encode_random raw)"
  proof -
    have "map (\<lambda>c. if (of_char c :: nat) < 128 then 1 else 2) (encode_random raw) =
        map (\<lambda>_. 1 :: nat) (encode_random raw)"
      using asc by (intro map_cong) auto
    then show ?thesis by (simp only: utf8_length_def sum_list_triv) simp
  qed
  moreover have "length (encode_random raw) = 43"
    using assms by (simp add: length_encode_random)
  ultimately show "strict_context_text (encode_random raw)"
    using ne by (simp add: strict_context_text_def strict_text_def)
  show "is_ascii (encode_random raw)"
    using asc by (simp add: is_ascii_def list_all_iff)
qed

lemma step_up_evidence_ok:
  assumes "\<forall>m\<in>sg_methods g. trimmed m" "\<forall>t\<in>sg_traits g. trimmed t" "strict_context_text u"
  shows "step_up_evidence u g = Inr \<lparr>ev_mechanism = ''step-up'', ev_slot = ''mfa'',
    ev_authenticated_at = sg_authenticated_at g, ev_expires_at = Some (sg_expires_at g),
    ev_methods = sg_methods g, ev_traits = sg_traits g \<union> {''purpose:'' @ u},
    ev_acr = None, ev_amr = []\<rparr>"
proof -
  have u: "trimmed u" using assms(3) by (rule strict_context_text_trimmed)
  then have "trimmed (''purpose:'' @ u)"
    by (auto simp: trimmed_def is_space_def)
  moreover have "trimmed ''step-up''" "trimmed ''mfa''" by code_simp+
  ultimately show ?thesis
    using assms(1,2)
    by (simp add: step_up_evidence_def evidence_post_init_def optional_result_def
        normalize_datetime_def)
qed

section \<open>Properties\<close>

text \<open>C32: A step-up grant is redeemed exactly under the bindings it was issued for: with the in-memory
  store and evidence of normalised names, redeeming the issued token yields evidence precisely when
  the principal, the epoch, the purpose and the transport digest are those of the issue and the
  grant has not expired, and that evidence carries the issue instant, the expiry, the methods and
  the traits plus the purpose trait; any redemption, right or wrong, uses the grant up.\<close>

theorem step_up_grant_redeemed_exactly:
  assumes issued: "step_up_issue sha ttl clock random memory_step_up_put p e u b ev s = (Verified cred, s1)"
    and ev: "\<forall>m\<in>ev_methods ev. trimmed m" "\<forall>t\<in>ev_traits ev. trimmed t"
    and redeem: "step_up_redeem sha (Inr (Aware now')) memory_step_up_consume (suc_token cred) p' e' u' b' s1
      = (r, s2)"
    and ok: "strict_context_text p'" "valid_security_epoch e'" "strict_context_text u'" "b' \<noteq> []"
  shows "((\<exists>e2. r = Inr (Verified e2)) \<longleftrightarrow>
            p' = p \<and> e' = e \<and> u' = u \<and> sha b' = sha b \<and> now' < suc_expires_at cred) \<and>
         (\<forall>e2. r = Inr (Verified e2) \<longrightarrow>
            ev_expires_at e2 = Some (suc_expires_at cred) \<and>
            ev_authenticated_at e2 = suc_expires_at cred - ttl \<and> ev_methods e2 = ev_methods ev \<and>
            ev_traits e2 = ev_traits ev \<union> {''purpose:'' @ u}) \<and>
         dget s2 (sha (ascii_bytes (suc_token cred))) = None"
proof -
  obtain now raw g where i: "length raw = 32" "strict_context_text u"
    "cred = \<lparr>suc_token = encode_random raw, suc_purpose = u, suc_expires_at = now + ttl\<rparr>"
    "g = \<lparr>sg_grant_digest = sha (ascii_bytes (encode_random raw)), sg_transport_digest = sha b,
       sg_principal_id = p, sg_security_epoch = e, sg_purpose = u, sg_methods = ev_methods ev,
       sg_traits = ev_traits ev, sg_authenticated_at = now, sg_expires_at = now + ttl\<rparr>"
    "s1 = step_up_put g s"
    by (rule step_up_issue_Verified [OF issued])
  define q where "q = \<lparr>sq_grant_digest = sha (ascii_bytes (encode_random raw)), sq_principal_id = p',
    sq_security_epoch = e', sq_purpose = u', sq_transport_digest = sha b', sq_now = now'\<rparr>"
  have stored: "dget s1 (sq_grant_digest q) = Some g"
    by (simp add: i(5) step_up_put_def q_def i(4) dict_simps)
  have result: "fst (step_up_consume q s1) = (if step_up_matches q g then Some g else None)"
    using step_up.consume_result [of q s1] stored by simp
  have matches: "step_up_matches q g \<longleftrightarrow>
      p' = p \<and> e' = e \<and> u' = u \<and> sha b' = sha b \<and> now' < now + ttl"
    by (auto simp: step_up_matches_def q_def i(4))
  have gone: "dget (snd (step_up_consume q s1)) (sq_grant_digest q) = None"
    by (simp add: step_up.consume_content)
  have ev2: "step_up_evidence u g = Inr \<lparr>ev_mechanism = ''step-up'', ev_slot = ''mfa'',
      ev_authenticated_at = now, ev_expires_at = Some (now + ttl), ev_methods = ev_methods ev,
      ev_traits = ev_traits ev \<union> {''purpose:'' @ u}, ev_acr = None, ev_amr = []\<rparr>"
    using step_up_evidence_ok [of g u] ev i(2) by (simp add: i(4))
  have red: "(r, s2) = (case (if step_up_matches q g then Verified g else Invalid_Credentials) of
      Verified g \<Rightarrow> (bind (step_up_evidence u' g) (\<lambda>e. Inr (Verified e)), snd (step_up_consume q s1))
    | Invalid_Credentials \<Rightarrow> (Inr Invalid_Credentials, snd (step_up_consume q s1))
    | Verification_Unavailable \<Rightarrow> (Inr Verification_Unavailable, snd (step_up_consume q s1)))"
    using redeem ok encode_random_text [OF i(1)] result unfolding i(3)
    by (cases "step_up_matches q g")
      (simp_all add: step_up_redeem_def memory_step_up_consume_eq sanitized_def call_def
        q_def [symmetric])
  have s2: "s2 = snd (step_up_consume q s1)"
    using red by (simp split: if_splits)
  show ?thesis
  proof (cases "step_up_matches q g")
    case True
    with red matches have "r = bind (step_up_evidence u g) (\<lambda>e. Inr (Verified e))" by simp
    with True matches gone s2 ev2 i(3) show ?thesis by (simp add: q_def)
  next
    case False
    with red have "r = Inr Invalid_Credentials" by simp
    with False matches gone s2 i(3) show ?thesis by (simp add: q_def)
  qed
qed

text \<open>An MFA login challenge is burnt before its client binding is looked at: redeeming the issued
  challenge for its account and epoch in time succeeds exactly when the presented client key is the
  one bound at issue, and whatever the outcome the challenge is gone.\<close>

theorem mfa_login_challenge_redeemed_exactly:
  assumes issued: "mfa_login_issue hmac pepper methods ttl clock random memory_mfa_login_put acct key s
      = (Verified required, s1)"
    and redeem: "mfa_login_redeem hmac pepper (Inr (Aware now')) memory_mfa_login_consume
      (mr_challenge required) a e key' s1 = (r, s2)"
    and ok: "strict_context_text a" "valid_security_epoch e"
  shows "((\<exists>c. r = Verified c) \<longleftrightarrow>
            a = acc_id acct \<and> e = acc_epoch acct \<and> key' = key \<and> now' < mr_expires_at required) \<and>
         (r = Invalid_Credentials \<or> (\<exists>c. r = Verified c \<and> ml_account_id c = acc_id acct)) \<and>
         dget s2 (hmac pepper (ascii_bytes (mr_challenge required))) = None"
proof -
  have "\<exists>now raw. length raw = 32 \<and> valid_client_key key \<and>
      required = \<lparr>mr_challenge = encode_random raw, mr_account_id = acc_id acct,
        mr_expires_at = now + ttl, mr_methods = methods\<rparr> \<and>
      s1 = mfa_login_put \<lparr>ml_challenge_digest = hmac pepper (ascii_bytes (encode_random raw)),
        ml_account_id = acc_id acct, ml_security_epoch = acc_epoch acct, ml_client_key = key,
        ml_issued_at = now, ml_expires_at = now + ttl\<rparr> s"
    using issued unfolding mfa_login_issue_def sanitized_Verified
    by (auto simp: call_eq_Inr Let_def mfa_login_challenge_post_init_def memory_mfa_login_put_def
        call_def result_simps split: if_splits sum.splits)
  then obtain now raw c where i: "length raw = 32" "valid_client_key key"
    "required = \<lparr>mr_challenge = encode_random raw, mr_account_id = acc_id acct,
        mr_expires_at = now + ttl, mr_methods = methods\<rparr>"
    "c = \<lparr>ml_challenge_digest = hmac pepper (ascii_bytes (encode_random raw)),
        ml_account_id = acc_id acct, ml_security_epoch = acc_epoch acct, ml_client_key = key,
        ml_issued_at = now, ml_expires_at = now + ttl\<rparr>"
    "s1 = mfa_login_put c s"
    by blast
  define q where "q = \<lparr>mq_challenge_digest = hmac pepper (ascii_bytes (encode_random raw)),
    mq_account_id = a, mq_security_epoch = e, mq_now = now'\<rparr>"
  have stored: "dget s1 (mq_challenge_digest q) = Some c"
    by (simp add: i(5) mfa_login_put_def q_def i(4) dict_simps)
  have result: "fst (mfa_login_consume q s1) = (if mfa_login_matches q c then Some c else None)"
    using mfa_login.consume_result [of q s1] stored by simp
  have matches: "mfa_login_matches q c \<longleftrightarrow> a = acc_id acct \<and> e = acc_epoch acct \<and> now' < now + ttl"
    by (auto simp: mfa_login_matches_def q_def i(4))
  have gone: "dget (snd (mfa_login_consume q s1)) (mq_challenge_digest q) = None"
    by (simp add: mfa_login.consume_content)
  have keys: "valid_client_key key' \<and> client_keys_match (ml_client_key c) key' \<longleftrightarrow> key' = key"
    using i(2) by (cases key; cases key')
      (auto simp: client_keys_match_def valid_client_key_def i(4) utf8_bytes_inject)
  have red: "(r, s2) = (case fst (mfa_login_consume q s1) of
      None \<Rightarrow> (Invalid_Credentials, snd (mfa_login_consume q s1))
    | Some c \<Rightarrow> (if \<not> valid_client_key key' \<or> \<not> client_keys_match (ml_client_key c) key'
                then Invalid_Credentials else Verified c, snd (mfa_login_consume q s1)))"
    using redeem ok encode_random_text [OF i(1)] unfolding i(3)
    by (cases "mfa_login_consume q s1"; cases "fst (mfa_login_consume q s1)")
      (simp_all add: mfa_login_redeem_def memory_mfa_login_consume_def call_def q_def [symmetric])
  have s2: "s2 = snd (mfa_login_consume q s1)"
    using red by (auto split: option.splits if_splits)
  have r: "r = (if mfa_login_matches q c \<and> key' = key then Verified c else Invalid_Credentials)"
    using red result keys by (cases "mfa_login_matches q c") auto
  show ?thesis
    using r matches gone s2 by (auto simp: i(3) q_def i(4))
qed

section \<open>Concrete runs\<close>

definition example_sha :: "bytes \<Rightarrow> bytes" where
  "example_sha b = take 32 (b @ replicate 32 0)"

definition example_entropy :: "nat \<Rightarrow> bytes result" where
  "example_entropy n = Inr (replicate n 7)"

definition example_login_account :: "unit account" where
  "example_login_account = \<lparr>acc_id = ''u'', acc_identifier = ''ada'', acc_display_name = None,
     acc_active = True, acc_verified = True, acc_epoch = 1, acc_user = None\<rparr>"

definition example_evidence :: evidence where
  "example_evidence = \<lparr>ev_mechanism = ''mfa'', ev_slot = ''mfa'', ev_authenticated_at = 0,
     ev_expires_at = None, ev_methods = {''totp''}, ev_traits = {}, ev_acr = None, ev_amr = []\<rparr>"

lemma step_up_issue_ok:
  assumes "strict_context_text p" "valid_security_epoch e" "strict_context_text u" "b \<noteq> []"
    and "ev_authenticated_at ev \<le> now" "now - ev_authenticated_at ev \<le> ttl" "step_up_ttl_ok ttl"
    and "\<And>x. length (sha x) = sha256_bytes"
  shows "\<exists>s1. step_up_issue sha ttl (Inr (Aware now)) example_entropy memory_step_up_put p e u b ev s =
    (Verified \<lparr>suc_token = encode_random (replicate 32 7), suc_purpose = u,
       suc_expires_at = now + ttl\<rparr>, s1)"
  using assms
  by (auto simp: step_up_issue_def sanitized_def call_def example_entropy_def step_up_ttl_ok_def
      step_up_grant_post_init_def memory_step_up_put_def Let_def)

lemma mfa_login_issue_ok:
  assumes "strict_context_text (acc_id acct)" "valid_security_epoch (acc_epoch acct)"
    and "valid_client_key key" "0 < ttl" "ttl \<le> maximum_mfa_login_ttl"
    and "\<And>k x. length (hmac k x) = sha256_bytes"
  shows "\<exists>s1. mfa_login_issue hmac pepper methods ttl (Inr (Aware now)) example_entropy
      memory_mfa_login_put acct key s =
    (Verified \<lparr>mr_challenge = encode_random (replicate 32 7), mr_account_id = acc_id acct,
       mr_expires_at = now + ttl, mr_methods = methods\<rparr>, s1)"
  using assms
  by (auto simp: mfa_login_issue_def sanitized_def call_def example_entropy_def valid_client_key_def
      mfa_login_challenge_post_init_def memory_mfa_login_put_def Let_def split: option.splits)

lemma example_sha_length: "length (example_sha b) = sha256_bytes"
  by (simp add: example_sha_def sha256_bytes_def)

lemma example_step_up_issued:
  "\<exists>cred s1. step_up_issue example_sha (seconds 60) (Inr (Aware 5)) example_entropy
     memory_step_up_put ''u'' 1 ''pay'' [1] example_evidence [] = (Verified cred, s1) \<and>
   suc_expires_at cred = 5 + seconds 60"
proof -
  have texts: "strict_context_text ''u''" "valid_security_epoch 1" "strict_context_text ''pay''"
    by code_simp+
  show ?thesis
    using step_up_issue_ok [OF texts, of "[1]" example_evidence 5 "seconds 60" example_sha "[]"]
    by (auto simp: example_evidence_def seconds_def step_up_ttl_ok_def maximum_step_up_ttl_def
        example_sha_length)
qed

theorem step_up_grant_redeemed_exactly_witness:
  "\<exists>cred s1 e2 s2. step_up_issue example_sha (seconds 60) (Inr (Aware 5)) example_entropy
     memory_step_up_put ''u'' 1 ''pay'' [1] example_evidence [] = (Verified cred, s1) \<and>
   step_up_redeem example_sha (Inr (Aware 6)) memory_step_up_consume (suc_token cred)
     ''u'' 1 ''pay'' [1] s1 = (Inr (Verified e2), s2) \<and>
   ev_traits e2 = {''purpose:pay''} \<and>
   (\<nexists>e3 s3. step_up_redeem example_sha (Inr (Aware 6)) memory_step_up_consume (suc_token cred)
     ''u'' 1 ''sell'' [1] s1 = (Inr (Verified e3), s3))"
proof -
  obtain cred s1 where i: "step_up_issue example_sha (seconds 60) (Inr (Aware 5)) example_entropy
     memory_step_up_put ''u'' 1 ''pay'' [1] example_evidence [] = (Verified cred, s1)"
    and x: "suc_expires_at cred = 5 + seconds 60"
    using example_step_up_issued by blast
  have texts: "strict_context_text ''u''" "strict_context_text ''pay''" "strict_context_text ''sell''"
    "trimmed ''totp''" "valid_security_epoch 1" by code_simp+
  have ev: "\<forall>m\<in>ev_methods example_evidence. trimmed m" "\<forall>t\<in>ev_traits example_evidence. trimmed t"
    using texts by (simp_all add: example_evidence_def)
  note exact = step_up_grant_redeemed_exactly [OF i ev]
  obtain r s2 where r: "step_up_redeem example_sha (Inr (Aware 6)) memory_step_up_consume
      (suc_token cred) ''u'' 1 ''pay'' [1] s1 = (r, s2)" by fastforce
  from exact [OF r texts(1,5,2)] x obtain e2 where "r = Inr (Verified e2)" "ev_traits e2 = {''purpose:pay''}"
    by (auto simp: seconds_def example_evidence_def)
  moreover have "\<nexists>e3 s3. step_up_redeem example_sha (Inr (Aware 6)) memory_step_up_consume
      (suc_token cred) ''u'' 1 ''sell'' [1] s1 = (Inr (Verified e3), s3)"
    using exact [OF _ texts(1,5,3)] by fastforce
  ultimately show ?thesis using i r by blast
qed

theorem mfa_login_challenge_redeemed_exactly_witness:
  "\<exists>required s1 c s2. mfa_login_issue (\<lambda>k b. example_sha b) (replicate 32 0) mfa_login_methods
     (seconds 60) (Inr (Aware 5)) example_entropy memory_mfa_login_put example_login_account
     (Some ''client'') [] = (Verified required, s1) \<and>
   mfa_login_redeem (\<lambda>k b. example_sha b) (replicate 32 0) (Inr (Aware 6)) memory_mfa_login_consume
     (mr_challenge required) ''u'' 1 (Some ''client'') s1 = (Verified c, s2) \<and>
   fst (mfa_login_redeem (\<lambda>k b. example_sha b) (replicate 32 0) (Inr (Aware 6))
     memory_mfa_login_consume (mr_challenge required) ''u'' 1 (Some ''other'') s1) = Invalid_Credentials"
proof -
  have texts: "strict_context_text ''u''" "strict_context_text ''client''" "valid_security_epoch 1"
    by code_simp+
  obtain required s1 where i: "mfa_login_issue (\<lambda>k b. example_sha b) (replicate 32 0)
      mfa_login_methods (seconds 60) (Inr (Aware 5)) example_entropy memory_mfa_login_put
      example_login_account (Some ''client'') [] = (Verified required, s1)"
    and x: "mr_expires_at required = 5 + seconds 60"
    using mfa_login_issue_ok [of example_login_account "Some ''client''" "seconds 60"
        "\<lambda>k b. example_sha b" "replicate 32 0" mfa_login_methods 5 "[]"] texts
    by (auto simp: example_login_account_def valid_client_key_def seconds_def
        maximum_mfa_login_ttl_def example_sha_length)
  note exact = mfa_login_challenge_redeemed_exactly [OF i]
  obtain r s2 where r: "mfa_login_redeem (\<lambda>k b. example_sha b) (replicate 32 0) (Inr (Aware 6))
      memory_mfa_login_consume (mr_challenge required) ''u'' 1 (Some ''client'') s1 = (r, s2)"
    by fastforce
  obtain r' s2' where r': "mfa_login_redeem (\<lambda>k b. example_sha b) (replicate 32 0) (Inr (Aware 6))
      memory_mfa_login_consume (mr_challenge required) ''u'' 1 (Some ''other'') s1 = (r', s2')"
    by fastforce
  from exact [OF r texts(1,3)] x obtain c where "r = Verified c"
    by (auto simp: seconds_def example_login_account_def)
  moreover from exact [OF r' texts(1,3)] have "r' = Invalid_Credentials" by auto
  ultimately show ?thesis using i r r' by auto
qed

end
