(* ===== verification/MFA_Enrollment.thy ===== *)
theory MFA_Enrollment
  imports MFA
begin

text \<open>
  The rest of \<^verbatim>\<open>MFAService\<close> (\<^verbatim>\<open>accounts/_mfa.py\<close>): starting and activating a TOTP enrollment,
  issuing recovery codes and removing a method.

  \<open>mfa_service\<close> holds the service's fields that are code the application supplies, as ports over
  one state \<open>'s\<close>: clock, secret generator, identifiers, entropy, secret protector, and the
  \<^verbatim>\<open>pyotp\<close> functions and HMAC-SHA-256 as functions. The stores are separate ports; the properties
  are about the in-memory store, whose state is paired with the state \<open>'e\<close> of everything else.
\<close>

section \<open>The service\<close>

record 's mfa_service =
  mfs_clock :: "('s, py_datetime) port"
  mfs_secret_generator :: "('s, string) port"
  mfs_identifiers :: "('s, string) port"
  mfs_event_ids :: "('s, string) port"
  mfs_protect :: "bytes \<Rightarrow> bytes \<Rightarrow> ('s, protected_secret) port"
  mfs_unprotect :: unprotect_function
  mfs_key_version :: string
  mfs_policy :: totp_policy
  mfs_issuer :: string
  mfs_peppers :: "recovery_pepper list"
  mfs_code_count :: int
  mfs_entropy :: "nat \<Rightarrow> ('s, bytes) port"
  mfs_otp :: otp_function
  mfs_uri :: "string \<Rightarrow> totp_policy \<Rightarrow> string \<Rightarrow> string \<Rightarrow> string result"
  mfs_hmac :: hmac_function

definition mfa_service_post_init :: "'s mfa_service \<Rightarrow> 's mfa_service result" where
  "mfa_service_post_init srv =
     (if \<not> strict_context_text (mfs_issuer srv) then Inl ImproperlyConfigured else Inr srv)"

definition service_now :: "'s mfa_service \<Rightarrow> ('s, time) port" where
  "service_now srv = call (mfs_clock srv) (\<lambda>reading. lift_result (aware_utc_time reading))"

record totp_provisioning_grant =
  tg_enrollment_id :: string
  tg_method_id :: string
  tg_provisioning_uri :: string
  tg_expires_at :: time

definition begin_totp_enrollment ::
  "'s mfa_service \<Rightarrow> (time pending_enrollment \<Rightarrow> ('s, unit) port) \<Rightarrow> string \<Rightarrow> string \<Rightarrow> 's \<Rightarrow>
     totp_provisioning_grant verdict \<times> 's" where
  "begin_totp_enrollment srv create account_id label =
     sanitized
       (call (service_now srv) (\<lambda>now.
        call (mfs_identifiers srv) (\<lambda>enrollment_id.
        call (mfs_identifiers srv) (\<lambda>method_id.
        call (mfs_secret_generator srv) (\<lambda>secret.
        if \<not> valid_secret secret then raise ValueError
        else
          call (lift_result (totp_associated_data account_id method_id (mfs_key_version srv))) (\<lambda>aad.
          call (mfs_protect srv (ascii_bytes secret) aad) (\<lambda>protected.
          if sec_key_version protected \<noteq> mfs_key_version srv then pure Verification_Unavailable
          else
            call (lift_result (pending_enrollment_post_init
              \<lparr>pe_enrollment_id = enrollment_id, pe_method_id = method_id,
               pe_account_id = account_id, pe_protected_secret = protected,
               pe_policy = mfs_policy srv, pe_created_at = Aware now,
               pe_expires_at = Aware (now + tpol_enrollment_ttl (mfs_policy srv))\<rparr>)) (\<lambda>pending.
            call (lift_result (mfs_uri srv secret (mfs_policy srv) label (mfs_issuer srv))) (\<lambda>uri.
            call (create pending) (\<lambda>_.
            pure (Verified
              \<lparr>tg_enrollment_id = enrollment_id, tg_method_id = method_id,
               tg_provisioning_uri = uri, tg_expires_at = pe_expires_at pending\<rparr>)))))))))))"

text \<open>
  The steps \<^verbatim>\<open>activate_totp\<close> and \<^verbatim>\<open>activate_totp_with_recovery_codes\<close> share: load the enrollment,
  check owner and expiry, recover the secret and find the counter of the presented code.
\<close>

definition check_enrollment ::
  "'s mfa_service \<Rightarrow> (string \<Rightarrow> ('s, time pending_enrollment option) port) \<Rightarrow> string \<Rightarrow> string \<Rightarrow>
     string \<Rightarrow> ('s, (time \<times> time pending_enrollment \<times> int) option) port" where
  "check_enrollment srv get account_id enrollment_id code =
     call (service_now srv) (\<lambda>now.
     call (get enrollment_id) (\<lambda>found.
       case found of
         None \<Rightarrow> pure None
       | Some e \<Rightarrow>
           if pe_account_id e \<noteq> account_id \<or> pe_expires_at e \<le> now then pure None
           else call (lift_result (recover_secret (mfs_unprotect srv) account_id (pe_method_id e)
                        (pe_protected_secret e))) (\<lambda>secret.
                pure (map_option (\<lambda>counter. (now, e, counter))
                        (accepted_counter (mfs_otp srv) secret code now (pe_policy e))))))"

definition totp_login_method :: "string \<Rightarrow> time \<Rightarrow> login_method" where
  "totp_login_method method_id now =
     \<lparr>lm_method_id = method_id, lm_kind = ''totp'', lm_created_at = Aware now, lm_display_name = None\<rparr>"

definition mfa_event :: "string \<Rightarrow> time \<Rightarrow> string \<Rightarrow> string \<Rightarrow> string \<Rightarrow> security_event" where
  "mfa_event event_id now operation outcome account_id =
     \<lparr>se_event_id = event_id, se_occurred_at = Aware now, se_operation = operation,
      se_outcome = outcome, se_account_id = Some account_id, se_principal_id = None,
      se_mechanism = None, se_session_id = None, se_family_id = None, se_correlation = []\<rparr>"

type_synonym 's activation_port =
  "string \<Rightarrow> string \<Rightarrow> int \<Rightarrow> login_method \<Rightarrow> security_event \<Rightarrow> time \<Rightarrow> ('s, time totp_method option) port"

definition commit_activation ::
  "'s mfa_service \<Rightarrow> 's activation_port \<Rightarrow> string \<Rightarrow> string \<Rightarrow> time \<times> time pending_enrollment \<times> int \<Rightarrow>
     ('s, time totp_method option) port" where
  "commit_activation srv activate account_id enrollment_id checked =
     (case checked of (now, e, counter) \<Rightarrow>
        call (mfs_event_ids srv) (\<lambda>event_id.
          activate account_id enrollment_id counter (totp_login_method (pe_method_id e) now)
            (mfa_event event_id now ''local.mfa.totp.verify'' ''verified'' account_id) now))"

definition activate_totp ::
  "'s mfa_service \<Rightarrow> (string \<Rightarrow> ('s, time pending_enrollment option) port) \<Rightarrow> 's activation_port \<Rightarrow>
     string \<Rightarrow> string \<Rightarrow> string \<Rightarrow> 's \<Rightarrow> time totp_method verdict \<times> 's" where
  "activate_totp srv get activate account_id enrollment_id code =
     sanitized
       (call (check_enrollment srv get account_id enrollment_id code) (\<lambda>checked.
          case checked of
            None \<Rightarrow> pure Invalid_Credentials
          | Some c \<Rightarrow>
              call (commit_activation srv activate account_id enrollment_id c) (\<lambda>found.
                case found of None \<Rightarrow> pure Invalid_Credentials | Some m \<Rightarrow> pure (Verified m))))"

text \<open>The digests of a fresh set of recovery codes, under the first configured pepper.\<close>

definition fresh_recovery_codes ::
  "'s mfa_service \<Rightarrow> string \<Rightarrow> ('s, string list \<times> recovery_digest list) port" where
  "fresh_recovery_codes srv account_id =
     call (lift_result (validate_recovery_configuration (mfs_peppers srv) (mfs_code_count srv))) (\<lambda>peppers.
       let active = hd peppers
       in call (generate_codes (mfs_entropy srv) (rpp_key_version active) (nat (mfs_code_count srv)))
            (\<lambda>codes.
              call (lift_result (collect (map (\<lambda>c.
                      bind (recovery_digest_of (mfs_hmac srv) active account_id c) (\<lambda>d.
                      recovery_digest_post_init
                        \<lparr>rd_account_id = account_id, rd_pepper_version = rpp_key_version active,
                         rd_digest = d\<rparr>)) codes)))
                (\<lambda>digests. pure (codes, digests))))"

definition activate_totp_with_recovery_codes ::
  "'s mfa_service \<Rightarrow> (string \<Rightarrow> ('s, time pending_enrollment option) port) \<Rightarrow>
     (recovery_digest list \<Rightarrow> 's activation_port) \<Rightarrow>
     string \<Rightarrow> string \<Rightarrow> string \<Rightarrow> 's \<Rightarrow> string list verdict \<times> 's" where
  "activate_totp_with_recovery_codes srv get activate account_id enrollment_id code =
     sanitized
       (call (check_enrollment srv get account_id enrollment_id code) (\<lambda>checked.
          case checked of
            None \<Rightarrow> pure Invalid_Credentials
          | Some c \<Rightarrow>
              call (fresh_recovery_codes srv account_id) (\<lambda>(codes, digests).
              call (commit_activation srv (activate digests) account_id enrollment_id c) (\<lambda>found.
                case found of None \<Rightarrow> pure Invalid_Credentials | Some m \<Rightarrow> pure (Verified codes)))))"

definition generate_recovery_codes ::
  "'s mfa_service \<Rightarrow> (string \<Rightarrow> recovery_digest list \<Rightarrow> time \<Rightarrow> ('s, unit) port) \<Rightarrow> string \<Rightarrow> 's \<Rightarrow>
     string list verdict \<times> 's" where
  "generate_recovery_codes srv replace_codes account_id =
     sanitized
       (call (service_now srv) (\<lambda>now.
        call (fresh_recovery_codes srv account_id) (\<lambda>(codes, digests).
        call (replace_codes account_id digests now) (\<lambda>_. pure (Verified codes)))))"

definition remove_totp_method ::
  "'s mfa_service \<Rightarrow> (string \<Rightarrow> string \<Rightarrow> bool \<Rightarrow> security_event \<Rightarrow> ('s, 'o) port) option \<Rightarrow>
     string \<Rightarrow> string \<Rightarrow> 's \<Rightarrow> 'o verdict \<times> 's" where
  "remove_totp_method srv login_methods account_id method_id s =
     (case login_methods of
        None \<Rightarrow> (Verification_Unavailable, s)
      | Some revoke_login_method \<Rightarrow>
          sanitized
            (call (service_now srv) (\<lambda>now.
             call (mfs_event_ids srv) (\<lambda>event_id.
             call (revoke_login_method account_id method_id True
                     (mfa_event event_id now ''local.mfa.totp.remove'' ''revoked'' account_id))
               (\<lambda>result. pure (Verified result))))) s)"

section \<open>The in-memory store as ports\<close>

definition memory_create_enrollment :: "time pending_enrollment \<Rightarrow> (mfa_state \<times> 'e, unit) port" where
  "memory_create_enrollment e = on_first (\<lambda>m. (Inr (), create_totp_enrollment e m))"

definition memory_get_enrollment ::
  "string \<Rightarrow> (mfa_state \<times> 'e, time pending_enrollment option) port" where
  "memory_get_enrollment k = on_first (\<lambda>m. (Inr (get_totp_enrollment k m), m))"

definition memory_activate :: "(mfa_state \<times> 'e) activation_port" where
  "memory_activate a k c m ev now = on_first (store_activate_totp a k c m ev now)"

definition memory_activate_with_codes ::
  "recovery_digest list \<Rightarrow> (mfa_state \<times> 'e) activation_port" where
  "memory_activate_with_codes codes a k c m ev now =
     on_first (store_activate_with_codes a k c codes m ev now)"

definition memory_replace_codes ::
  "string \<Rightarrow> recovery_digest list \<Rightarrow> time \<Rightarrow> (mfa_state \<times> 'e, unit) port" where
  "memory_replace_codes a codes now = on_first (\<lambda>m. (Inr (), store_replace_codes a codes m))"

definition memory_consume_code :: "string \<Rightarrow> bytes \<Rightarrow> time \<Rightarrow> (mfa_state, bool) port" where
  "memory_consume_code a d now m =
     (case store_consume_code a d m of (won, m') \<Rightarrow> (Inr won, m'))"

section \<open>What activation relies on\<close>

lemma service_now_keeps: "keeps view (mfs_clock srv) \<Longrightarrow> keeps view (service_now srv)"
  unfolding service_now_def by blast

lemma draw_codes_keeps:
  assumes "\<And>n. keeps view (entropy n)"
  shows "keeps view (draw_codes entropy v wanted left codes)"
proof (induction left arbitrary: codes)
  case (Suc left)
  have "keeps view (call (entropy 16) (\<lambda>value.
      if length value \<noteq> 16 then raise ValueError
      else let code = recovery_code v value
           in draw_codes entropy v wanted left (if code \<in> set codes then codes else codes @ [code])))"
    using assms Suc by (intro keeps_call) (simp_all add: Let_def)
  then show ?case by simp
qed simp

lemma fresh_recovery_codes_keeps:
  assumes "\<And>n. keeps view (mfs_entropy srv n)"
  shows "keeps view (fresh_recovery_codes srv a)"
  unfolding fresh_recovery_codes_def generate_codes_def Let_def
  by (intro keeps_call draw_codes_keeps assms keeps_basic) simp_all

text \<open>
  The contract of the two activation operations (\<^verbatim>\<open>MFAStore\<close>), over what accompanies the commit
  (nothing, or the recovery digests): a committed activation takes a pending, owned, unexpired
  enrollment away and stores its method.
\<close>

locale enrollment_store =
  fixes get :: "string \<Rightarrow> ('s, time pending_enrollment option) port"
    and activate :: "'x \<Rightarrow> 's activation_port"
    and pending :: "'s \<Rightarrow> string \<Rightarrow> time pending_enrollment option"
    and active :: "'s \<Rightarrow> string \<Rightarrow> time totp_method option"
  assumes get_pending: "get k s = (Inr (pending s k), s)"
    and activate_won: "activate x a k c lm ev now s = (Inr (Some m), s') \<Longrightarrow>
      \<exists>e. pending s k = Some e \<and> pe_account_id e = a \<and> now < pe_expires_at e \<and>
        method_of_enrollment e a c (Aware now) = Inr m \<and> pending s' = (pending s)(k := None) \<and>
        active s' = (active s)(tm_method_id m \<mapsto> m)"
begin

lemma checked:
  assumes "keeps pending (mfs_clock srv)"
    and "check_enrollment srv get a k code s = (Inr (Some (now, e, c)), s1)"
  shows "pending s1 = pending s" and "pending s k = Some e" and "pe_account_id e = a"
    and "now < pe_expires_at e" and "\<exists>s0. service_now srv s = (Inr now, s0)"
    and "\<exists>secret. recover_secret (mfs_unprotect srv) a (pe_method_id e) (pe_protected_secret e) =
           Inr secret \<and> accepted_counter (mfs_otp srv) secret code now (pe_policy e) = Some c"
proof -
  obtain s0 where n: "service_now srv s = (Inr now, s0)"
    and c: "pending s0 k = Some e" "pe_account_id e = a" "now < pe_expires_at e" "s1 = s0"
    "\<exists>secret. recover_secret (mfs_unprotect srv) a (pe_method_id e) (pe_protected_secret e) =
       Inr secret \<and> accepted_counter (mfs_otp srv) secret code now (pe_policy e) = Some c"
  proof -
    obtain n s0 where n: "service_now srv s = (Inr n, s0)"
      and rest: "(case pending s0 k of None \<Rightarrow> pure None
        | Some e \<Rightarrow>
           if pe_account_id e \<noteq> a \<or> pe_expires_at e \<le> n then pure None
           else call (lift_result (recover_secret (mfs_unprotect srv) a (pe_method_id e)
                        (pe_protected_secret e))) (\<lambda>secret.
                pure (map_option (\<lambda>counter. (n, e, counter))
                        (accepted_counter (mfs_otp srv) secret code n (pe_policy e))))) s0 =
        (Inr (Some (now, e, c)), s1)"
      using assms(2) unfolding check_enrollment_def call_eq_Inr get_pending prod.inject sum.inject
      by blast
    show thesis
    proof (rule that)
      show "service_now srv s = (Inr now, s0)" "pending s0 k = Some e" "pe_account_id e = a"
        "now < pe_expires_at e" "s1 = s0"
        using n rest by (simp_all split: option.splits if_splits sum.splits)
      show "\<exists>secret. recover_secret (mfs_unprotect srv) a (pe_method_id e) (pe_protected_secret e) =
          Inr secret \<and> accepted_counter (mfs_otp srv) secret code now (pe_policy e) = Some c"
        using rest by (auto split: option.splits if_splits sum.splits)
    qed
  qed
  moreover have "pending s0 = pending s"
    using keepsD [OF service_now_keeps [OF assms(1)] n] .
  ultimately show "pending s1 = pending s" "pending s k = Some e" "pe_account_id e = a"
    "now < pe_expires_at e" "\<exists>s0. service_now srv s = (Inr now, s0)"
    "\<exists>secret. recover_secret (mfs_unprotect srv) a (pe_method_id e) (pe_protected_secret e) =
       Inr secret \<and> accepted_counter (mfs_otp srv) secret code now (pe_policy e) = Some c"
    by simp_all
qed

lemma committed:
  assumes "keeps pending (mfs_event_ids srv)"
    and "commit_activation srv (activate x) a k (now, e, c) s1 = (Inr (Some m), s')"
    and "pending s1 k = Some e"
  shows "method_of_enrollment e a c (Aware now) = Inr m" and "pending s' = (pending s1)(k := None)"
    and "active s' (tm_method_id m) = Some m"
proof -
  obtain ev s2 where ev: "mfs_event_ids srv s1 = (Inr ev, s2)"
    and won: "activate x a k c (totp_login_method (pe_method_id e) now)
      (mfa_event ev now ''local.mfa.totp.verify'' ''verified'' a) now s2 = (Inr (Some m), s')"
    using assms(2) by (auto simp: commit_activation_def call_eq_Inr)
  have "pending s2 = pending s1" using keepsD [OF assms(1) ev] .
  then show "method_of_enrollment e a c (Aware now) = Inr m" "pending s' = (pending s1)(k := None)"
    "active s' (tm_method_id m) = Some m"
    using activate_won [OF won] assms(3) by auto
qed

lemma not_pending:
  assumes "keeps pending (mfs_clock srv)" "pending s k = None"
  shows "check_enrollment srv get a k code s \<noteq> (Inr (Some chk), s1)"
  using checked(2) [OF assms(1)] assms(2) by (metis option.distinct(1) prod_cases3)

end

definition memory_pending :: "mfa_state \<times> 'e \<Rightarrow> string \<Rightarrow> time pending_enrollment option" where
  "memory_pending s k = get_totp_enrollment k (fst s)"

definition memory_active :: "mfa_state \<times> 'e \<Rightarrow> string \<Rightarrow> time totp_method option" where
  "memory_active s k = dget (mf_methods (fst s)) k"

lemma memory_get_pending: "memory_get_enrollment k s = (Inr (memory_pending s k), s)"
  by (simp add: memory_get_enrollment_def on_first_def memory_pending_def)

interpretation plain: enrollment_store memory_get_enrollment "\<lambda>_ :: unit. memory_activate"
  memory_pending memory_active
proof
  show "memory_activate a k c lm ev now s = (Inr (Some m), s') \<Longrightarrow>
      \<exists>e. memory_pending s k = Some e \<and> pe_account_id e = a \<and> now < pe_expires_at e \<and>
        method_of_enrollment e a c (Aware now) = Inr m \<and>
        memory_pending s' = (memory_pending s)(k := None) \<and>
        memory_active s' = (memory_active s)(tm_method_id m \<mapsto> m)" for a k c lm ev now s m s'
    by (auto simp: memory_activate_def on_first_def store_activate_totp_def memory_pending_def
        memory_active_def get_totp_enrollment_def Let_def fun_eq_iff dict_simps
        split: option.splits if_splits sum.splits prod.splits)
qed (rule memory_get_pending)

interpretation coded: enrollment_store memory_get_enrollment memory_activate_with_codes
  memory_pending memory_active
proof
  show "memory_activate_with_codes x a k c lm ev now s = (Inr (Some m), s') \<Longrightarrow>
      \<exists>e. memory_pending s k = Some e \<and> pe_account_id e = a \<and> now < pe_expires_at e \<and>
        method_of_enrollment e a c (Aware now) = Inr m \<and>
        memory_pending s' = (memory_pending s)(k := None) \<and>
        memory_active s' = (memory_active s)(tm_method_id m \<mapsto> m)" for x a k c lm ev now s m s'
    by (auto simp: memory_activate_with_codes_def on_first_def store_activate_with_codes_def
        memory_pending_def memory_active_def get_totp_enrollment_def fun_eq_iff dict_simps
        split: option.splits if_splits sum.splits prod.splits)
qed (rule memory_get_pending)

section \<open>Redeeming recovery codes\<close>

text \<open>The application's callables do not write to the library's store.\<close>

definition leaves_store :: "(mfa_state \<times> 'e) mfa_service \<Rightarrow> bool" where
  "leaves_store srv \<longleftrightarrow> keeps fst (mfs_clock srv) \<and> keeps fst (mfs_event_ids srv) \<and>
     (\<forall>n. keeps fst (mfs_entropy srv n))"

lemma leaves_store_pending:
  assumes "leaves_store srv"
  shows "keeps memory_pending (mfs_clock srv)" "keeps memory_pending (mfs_event_ids srv)"
    "keeps memory_pending (mfs_entropy srv n)"
  using assms by (auto simp: leaves_store_def keeps_def memory_pending_def)

lemma map_remove_first: "map f (remove_first (\<lambda>x. f x = d) xs) = remove1 d (map f xs)"
  by (induction xs) auto

lemma find_digest_None: "List.find (\<lambda>x. f x = d) xs = None \<longleftrightarrow> d \<notin> set (map f xs)"
  by (auto simp: find_None_iff)

definition stored_digests :: "string \<Rightarrow> mfa_state \<Rightarrow> bytes list" where
  "stored_digests a s =
     map rd_digest (case dget (mf_recovery_codes s) a of None \<Rightarrow> [] | Some cs \<Rightarrow> cs)"

lemma store_consume_code_digests:
  "fst (store_consume_code a d s) \<longleftrightarrow> d \<in> set (stored_digests a s)"
  "stored_digests a (snd (store_consume_code a d s)) = remove1 d (stored_digests a s)"
proof -
  define codes where "codes = (case dget (mf_recovery_codes s) a of None \<Rightarrow> [] | Some cs \<Rightarrow> cs)"
  have d: "stored_digests a s = map rd_digest codes"
    by (simp add: stored_digests_def codes_def)
  have st: "store_consume_code a d s = (case List.find (\<lambda>c. rd_digest c = d) codes of
      None \<Rightarrow> (False, s)
    | Some _ \<Rightarrow> (True, s\<lparr>mf_recovery_codes :=
        dset a (remove_first (\<lambda>c. rd_digest c = d) codes) (mf_recovery_codes s)\<rparr>))"
    unfolding store_consume_code_def codes_def Let_def by (rule refl)
  note found = find_digest_None [of rd_digest d codes]
  show "fst (store_consume_code a d s) \<longleftrightarrow> d \<in> set (stored_digests a s)"
    unfolding st d by (cases "List.find (\<lambda>c. rd_digest c = d) codes") (use found in simp_all)
  show "stored_digests a (snd (store_consume_code a d s)) = remove1 d (stored_digests a s)"
  proof (cases "List.find (\<lambda>c. rd_digest c = d) codes")
    case None
    then have "remove1 d (map rd_digest codes) = map rd_digest codes"
      using found by (metis remove1_idem)
    with None show ?thesis by (simp add: st d)
  next
    case (Some c)
    then have "stored_digests a (snd (store_consume_code a d s)) =
        map rd_digest (remove_first (\<lambda>c. rd_digest c = d) codes)"
      by (simp add: st stored_digests_def dict_simps)
    then show ?thesis by (simp only: map_remove_first d)
  qed
qed

lemma consume_recovery_code_eq:
  assumes "recovery_code_version c = Inr v" "List.find (\<lambda>p. rpp_key_version p = v) peppers = Some p"
    and "recovery_digest_of hmac p a c = Inr d"
  shows "consume_recovery_code hmac peppers (Inr (Aware now)) memory_consume_code a c s =
    (if d \<in> set (stored_digests a s) then Verified (factor_evidence ''recovery-code'' now)
     else Invalid_Credentials, snd (store_consume_code a d s))"
  using assms store_consume_code_digests(1) [of a d s]
  by (cases "store_consume_code a d s")
    (simp add: consume_recovery_code_def memory_consume_code_def call_def)

lemma fresh_recovery_codes_Inr:
  assumes "fresh_recovery_codes srv a s = (Inr (codes, digests), s')"
  shows "mfs_peppers srv \<noteq> []"
    and "generate_codes (mfs_entropy srv) (rpp_key_version (hd (mfs_peppers srv)))
       (nat (mfs_code_count srv)) s = (Inr codes, s')"
    and "\<And>c. c \<in> set codes \<Longrightarrow> recovery_digest_of (mfs_hmac srv) (hd (mfs_peppers srv)) a c =
       Inr (mfs_hmac srv (rpp_key (hd (mfs_peppers srv))) (recovery_payload a c))"
    and "map rd_digest digests =
       map (\<lambda>c. mfs_hmac srv (rpp_key (hd (mfs_peppers srv))) (recovery_payload a c)) codes"
    and "\<forall>r\<in>set digests. rd_account_id r = a"
proof -
  define p where "p = hd (mfs_peppers srv)"
  define mk where "mk c = bind (recovery_digest_of (mfs_hmac srv) p a c) (\<lambda>d.
    recovery_digest_post_init
      \<lparr>rd_account_id = a, rd_pepper_version = rpp_key_version p, rd_digest = d\<rparr>)" for c
  have ne: "mfs_peppers srv \<noteq> []"
    and g: "generate_codes (mfs_entropy srv) (rpp_key_version p) (nat (mfs_code_count srv)) s =
      (Inr codes, s')"
    and ds: "collect (map mk codes) = Inr digests"
    using assms
    unfolding fresh_recovery_codes_def validate_recovery_configuration_def Let_def run_ok
      mk_def [abs_def] p_def
    by (auto simp del: call_lift split: if_splits)
  have mkI: "mk c = Inr r \<Longrightarrow> recovery_digest_of (mfs_hmac srv) p a c =
      Inr (mfs_hmac srv (rpp_key p) (recovery_payload a c)) \<and>
      rd_digest r = mfs_hmac srv (rpp_key p) (recovery_payload a c) \<and> rd_account_id r = a" for c r
    by (auto simp: mk_def recovery_digest_of_def recovery_digest_post_init_def bind_eq_Inr
        split: if_splits)
  have maps: "map mk codes = map Inr digests"
    using ds by (simp add: collect_Inr_iff)
  then have len: "length codes = length digests" by (metis length_map)
  have nth: "mk (codes ! i) = Inr (digests ! i)" if "i < length codes" for i
    using maps that len by (metis nth_map)
  show "mfs_peppers srv \<noteq> []" by (rule ne)
  show "generate_codes (mfs_entropy srv) (rpp_key_version (hd (mfs_peppers srv)))
      (nat (mfs_code_count srv)) s = (Inr codes, s')"
    using g by (simp add: p_def)
  show "recovery_digest_of (mfs_hmac srv) (hd (mfs_peppers srv)) a c =
      Inr (mfs_hmac srv (rpp_key (hd (mfs_peppers srv))) (recovery_payload a c))"
    if "c \<in> set codes" for c
    using that nth mkI by (metis in_set_conv_nth p_def)
  show "map rd_digest digests =
      map (\<lambda>c. mfs_hmac srv (rpp_key (hd (mfs_peppers srv))) (recovery_payload a c)) codes"
  proof (rule nth_equalityI)
    fix i assume "i < length (map rd_digest digests)"
    then have "i < length codes" by (simp add: len)
    then show "map rd_digest digests ! i =
        map (\<lambda>c. mfs_hmac srv (rpp_key (hd (mfs_peppers srv))) (recovery_payload a c)) codes ! i"
      using mkI [OF nth] len by (simp add: p_def)
  qed (simp add: len)
  show "\<forall>r\<in>set digests. rd_account_id r = a"
    using nth mkI len by (metis in_set_conv_nth)
qed

section \<open>Properties\<close>

lemma activate_totp_Verified:
  assumes "activate_totp srv get (activate x) a k code s = (Verified m, s')"
  obtains now e c s1 where "check_enrollment srv get a k code s = (Inr (Some (now, e, c)), s1)"
    "commit_activation srv (activate x) a k (now, e, c) s1 = (Inr (Some m), s')"
proof -
  obtain r s1 where c: "check_enrollment srv get a k code s = (Inr r, s1)"
    and rest: "(case r of None \<Rightarrow> pure Invalid_Credentials
      | Some c \<Rightarrow> call (commit_activation srv (activate x) a k c) (\<lambda>found.
          case found of None \<Rightarrow> pure Invalid_Credentials | Some m \<Rightarrow> pure (Verified m))) s1 =
      (Inr (Verified m), s')"
    using assms unfolding activate_totp_def sanitized_Verified call_eq_Inr by blast
  from rest obtain chk where r: "r = Some chk" by (cases r) auto
  with rest have "commit_activation srv (activate x) a k chk s1 = (Inr (Some m), s')"
    by (auto simp: call_eq_Inr split: option.splits)
  then show thesis using that c r by (metis prod_cases3)
qed

lemma activate_with_codes_Verified:
  assumes "activate_totp_with_recovery_codes srv get activate a k code s = (Verified codes, s')"
  obtains now e c s1 digests s2 m where
    "check_enrollment srv get a k code s = (Inr (Some (now, e, c)), s1)"
    "fresh_recovery_codes srv a s1 = (Inr (codes, digests), s2)"
    "commit_activation srv (activate digests) a k (now, e, c) s2 = (Inr (Some m), s')"
proof -
  obtain r s1 where c: "check_enrollment srv get a k code s = (Inr r, s1)"
    and rest: "(case r of None \<Rightarrow> pure Invalid_Credentials
      | Some c \<Rightarrow> call (fresh_recovery_codes srv a) (\<lambda>(codes, digests).
          call (commit_activation srv (activate digests) a k c) (\<lambda>found.
            case found of None \<Rightarrow> pure Invalid_Credentials | Some m \<Rightarrow> pure (Verified codes)))) s1 =
      (Inr (Verified codes), s')"
    using assms unfolding activate_totp_with_recovery_codes_def sanitized_Verified call_eq_Inr by blast
  from rest obtain chk where r: "r = Some chk" by (cases r) auto
  with rest obtain digests s2 m where "fresh_recovery_codes srv a s1 = (Inr (codes, digests), s2)"
    "commit_activation srv (activate digests) a k chk s2 = (Inr (Some m), s')"
    by (auto simp: call_eq_Inr split: option.splits)
  then show thesis using that c r by (metis prod_cases3)
qed

lemma activation_takes_enrollment:
  assumes "leaves_store srv"
    and "(\<exists>m. activate_totp srv memory_get_enrollment memory_activate a k code s = (Verified m, s')) \<or>
      (\<exists>codes. activate_totp_with_recovery_codes srv memory_get_enrollment memory_activate_with_codes
         a k code s = (Verified codes, s'))"
  shows "memory_pending s' k = None"
proof -
  note env = leaves_store_pending [OF assms(1)]
  from assms(2) show ?thesis
  proof (elim disjE exE)
    fix m assume "activate_totp srv memory_get_enrollment memory_activate a k code s = (Verified m, s')"
    from activate_totp_Verified [where activate = "\<lambda>_ :: unit. memory_activate", OF this]
    obtain now e c s1 where
      c: "check_enrollment srv memory_get_enrollment a k code s = (Inr (Some (now, e, c)), s1)"
      and w: "commit_activation srv memory_activate a k (now, e, c) s1 = (Inr (Some m), s')" .
    show ?thesis
      using plain.checked(1,2) [OF env(1) c] plain.committed(2) [OF env(2) w] by simp
  next
    fix codes assume "activate_totp_with_recovery_codes srv memory_get_enrollment
      memory_activate_with_codes a k code s = (Verified codes, s')"
    then obtain now e c s1 digests s2 m where
      c: "check_enrollment srv memory_get_enrollment a k code s = (Inr (Some (now, e, c)), s1)"
      and f: "fresh_recovery_codes srv a s1 = (Inr (codes, digests), s2)"
      and w: "commit_activation srv (memory_activate_with_codes digests) a k (now, e, c) s2 =
        (Inr (Some m), s')"
      by (rule activate_with_codes_Verified)
    have "memory_pending s2 = memory_pending s1"
      using keepsD [OF fresh_recovery_codes_keeps [OF env(3)] f] .
    then show ?thesis
      using coded.checked(1,2) [OF env(1) c] coded.committed(2) [OF env(2) w] by simp
  qed
qed

text \<open>An enrollment activates once: after a successful activation, with or without recovery codes,
  no activation of that enrollment succeeds, by either operation, for any account and code.\<close>

theorem enrollment_activates_once:
  assumes "leaves_store srv"
    and "(\<exists>m. activate_totp srv memory_get_enrollment memory_activate a k code s = (Verified m, s')) \<or>
      (\<exists>codes. activate_totp_with_recovery_codes srv memory_get_enrollment memory_activate_with_codes
         a k code s = (Verified codes, s'))"
  shows "(\<nexists>m t. activate_totp srv memory_get_enrollment memory_activate a' k code' s' = (Verified m, t)) \<and>
         (\<nexists>codes t. activate_totp_with_recovery_codes srv memory_get_enrollment
            memory_activate_with_codes a' k code' s' = (Verified codes, t))"
proof -
  note gone = activation_takes_enrollment [OF assms]
  note stuck = plain.not_pending [OF leaves_store_pending(1) [OF assms(1)] gone]
  show ?thesis
    using stuck
    by (metis activate_totp_Verified [where activate = "\<lambda>_ :: unit. memory_activate"]
        activate_with_codes_Verified)
qed

text \<open>A TOTP method is activated only by its owner, before the enrollment expires, with a code of
  the enrolled secret within the drift of the clock; the method is stored with that code's counter,
  so the very code that activated it is refused by a verification at the same instant.\<close>

theorem totp_activation_sound:
  assumes "leaves_store srv"
    and "activate_totp srv memory_get_enrollment memory_activate a k code s = (Verified m, s')"
  shows "\<exists>now e secret.
      memory_pending s k = Some e \<and> pe_account_id e = a \<and> now < pe_expires_at e \<and>
      recover_secret (mfs_unprotect srv) a (pe_method_id e) (pe_protected_secret e) = Inr secret \<and>
      mfs_otp srv secret (pe_policy e) (tm_last_accepted_counter m) = code \<and>
      \<bar>tm_last_accepted_counter m - unix_seconds now div tpol_period_seconds (pe_policy e)\<bar>
        \<le> tpol_drift_steps (pe_policy e) \<and>
      tm_method_id m = pe_method_id e \<and> memory_active s' (tm_method_id m) = Some m \<and>
      verify_totp (mfs_otp srv) (mfs_unprotect srv) (Inr (Aware now)) store_get_method
        advance_totp_counter a (tm_method_id m) code (fst s') = (Invalid_Credentials, fst s')"
proof -
  note env = leaves_store_pending [OF assms(1)]
  from activate_totp_Verified [where activate = "\<lambda>_ :: unit. memory_activate", OF assms(2)]
  obtain now e c s1 where
    chk: "check_enrollment srv memory_get_enrollment a k code s = (Inr (Some (now, e, c)), s1)"
    and w: "commit_activation srv memory_activate a k (now, e, c) s1 = (Inr (Some m), s')" .
  note before = plain.checked [OF env(1) chk]
  then obtain secret where secret:
    "recover_secret (mfs_unprotect srv) a (pe_method_id e) (pe_protected_secret e) = Inr secret"
    "accepted_counter (mfs_otp srv) secret code now (pe_policy e) = Some c" by blast
  note after = plain.committed [OF env(2) w]
  have pend: "memory_pending s1 k = Some e" using before(1,2) by simp
  have m: "tm_method_id m = pe_method_id e" "tm_account_id m = a" "tm_last_accepted_counter m = c"
    "tm_protected_secret m = pe_protected_secret e" "tm_policy m = pe_policy e"
    using after(1) [OF pend]
    by (auto simp: method_of_enrollment_def totp_method_post_init_def result_simps split: if_splits)
  have "store_get_method a (tm_method_id m) (fst s') = (Inr (Some m), fst s')"
    using after(3) [OF pend] m(2)
    by (simp add: store_get_method_def get_totp_method_def memory_active_def)
  then have "verify_totp (mfs_otp srv) (mfs_unprotect srv) (Inr (Aware now)) store_get_method
      advance_totp_counter a (tm_method_id m) code (fst s') = (Invalid_Credentials, fst s')"
    using secret m by (simp add: verify_totp_def accept_totp_def sanitized_def call_def)
  with before after(3) [OF pend] secret accepted_counter_Some [OF secret(2)] m show ?thesis
    by (metis (no_types, lifting))
qed

text \<open>C31: Each code of a freshly generated set redeems exactly once: using one yields evidence, using
  it again is refused, and every other code of the set still works. The HMAC must not collide on
  the codes of the set.\<close>

theorem recovery_codes_redeem_once_each:
  assumes "leaves_store srv"
    and "generate_recovery_codes srv memory_replace_codes a s = (Verified codes, s')"
    and "recovery_pepper_post_init (hd (mfs_peppers srv)) = Inr (hd (mfs_peppers srv))"
    and "inj_on (\<lambda>c. mfs_hmac srv (rpp_key (hd (mfs_peppers srv))) (recovery_payload a c)) (set codes)"
    and "c \<in> set codes"
  shows "\<exists>t. consume_recovery_code (mfs_hmac srv) (mfs_peppers srv) (Inr (Aware now))
           memory_consume_code a c (fst s') = (Verified (factor_evidence ''recovery-code'' now), t) \<and>
         fst (consume_recovery_code (mfs_hmac srv) (mfs_peppers srv) (Inr (Aware now'))
           memory_consume_code a c t) = Invalid_Credentials \<and>
         (\<forall>d\<in>set codes - {c}. fst (consume_recovery_code (mfs_hmac srv) (mfs_peppers srv)
           (Inr (Aware now')) memory_consume_code a d t) =
             Verified (factor_evidence ''recovery-code'' now'))"
proof -
  define p where "p = hd (mfs_peppers srv)"
  define h where "h c = mfs_hmac srv (rpp_key p) (recovery_payload a c)" for c
  from assms(2) obtain digests now0 s1 s2 where
    f: "fresh_recovery_codes srv a s1 = (Inr (codes, digests), s2)"
    and put: "memory_replace_codes a digests now0 s2 = (Inr (), s')"
    unfolding generate_recovery_codes_def sanitized_Verified run_ok by (auto simp: call_eq_Inr)
  note fresh = fresh_recovery_codes_Inr [OF f]
  have ne: "mfs_peppers srv \<noteq> []"
    and g: "generate_codes (mfs_entropy srv) (rpp_key_version p) (nat (mfs_code_count srv)) s1 =
      (Inr codes, s2)"
    and rd: "\<And>c. c \<in> set codes \<Longrightarrow> recovery_digest_of (mfs_hmac srv) p a c = Inr (h c)"
    and ds: "map rd_digest digests = map h codes" "\<forall>r\<in>set digests. rd_account_id r = a"
    using fresh by (simp_all add: p_def h_def)
  have stored: "stored_digests a (fst s') = map h codes"
    using put ds by (auto simp: memory_replace_codes_def on_first_def store_replace_codes_def
        stored_digests_def dict_simps)
  have vt: "strict_context_text (rpp_key_version p)" "CHR ''_'' \<notin> set (rpp_key_version p)"
    using assms(3) by (auto simp: recovery_pepper_post_init_def p_def split: if_splits)
  have shape: "distinct codes"
    "\<And>c. c \<in> set codes \<Longrightarrow> recovery_code_version c = Inr (rpp_key_version p)"
    using generate_codes_shape [OF g] recovery_code_parses [OF vt] by blast+
  have hit: "List.find (\<lambda>q. rpp_key_version q = rpp_key_version p) (mfs_peppers srv) = Some p"
    using ne by (cases "mfs_peppers srv") (simp_all add: p_def)
  have used: "consume_recovery_code (mfs_hmac srv) (mfs_peppers srv) (Inr (Aware t)) memory_consume_code
      a d st = (if h d \<in> set (stored_digests a st) then Verified (factor_evidence ''recovery-code'' t)
        else Invalid_Credentials, snd (store_consume_code a (h d) st))" if "d \<in> set codes" for d t st
    by (rule consume_recovery_code_eq [OF shape(2) [OF that] hit rd [OF that]])
  define t where "t = snd (store_consume_code a (h c) (fst s'))"
  have "distinct (map h codes)"
    using shape(1) assms(4) by (simp add: distinct_map h_def [abs_def] p_def)
  then have t: "set (stored_digests a t) = h ` set codes - {h c}"
    by (simp add: t_def store_consume_code_digests stored set_remove1_eq)
  have "h d \<noteq> h c" if "d \<in> set codes" "d \<noteq> c" for d
    using that assms(4,5) by (auto simp: inj_on_def h_def p_def)
  then show ?thesis
    using used [OF assms(5)] used t stored assms(5) by (auto simp: t_def [symmetric])
qed

section \<open>A concrete service\<close>

text \<open>The second component of the state counts the bytes drawn, so that draws differ.\<close>

definition example_draw :: "nat \<Rightarrow> (mfa_state \<times> nat, bytes) port" where
  "example_draw n s = (Inr (replicate n (word_of_nat (snd s))), (fst s, Suc (snd s)))"

definition example_service :: "(mfa_state \<times> nat) mfa_service" where
  "example_service = \<lparr>mfs_clock = pure (Aware 30000000), mfs_secret_generator = pure example_secret,
     mfs_identifiers = pure ''i'', mfs_event_ids = pure ''ev'',
     mfs_protect = (\<lambda>secret aad. pure \<lparr>sec_ciphertext = secret, sec_key_version = ''v''\<rparr>),
     mfs_unprotect = example_unprotect, mfs_key_version = ''v'', mfs_policy = default_totp_policy,
     mfs_issuer = ''Example'',
     mfs_peppers = [\<lparr>rpp_key_version = ''v'', rpp_key = replicate 32 0\<rparr>], mfs_code_count = 2,
     mfs_entropy = example_draw, mfs_otp = example_otp, mfs_uri = (\<lambda>_ _ _ _. Inr ''uri''),
     mfs_hmac = (\<lambda>key message. take 32 (rev message))\<rparr>"

definition example_enrollment :: "time pending_enrollment" where
  "example_enrollment = \<lparr>pe_enrollment_id = ''k'', pe_method_id = ''m'', pe_account_id = ''u'',
     pe_protected_secret = \<lparr>sec_ciphertext = [1], sec_key_version = ''v''\<rparr>,
     pe_policy = default_totp_policy, pe_created_at = 0, pe_expires_at = 60000000\<rparr>"

definition example_pending :: "mfa_state \<times> nat" where
  "example_pending = (create_totp_enrollment example_enrollment empty_mfa, 0)"

lemma example_leaves_store: "leaves_store example_service"
  by (simp add: leaves_store_def example_service_def) (simp add: keeps_def example_draw_def)

lemma example_activates:
  "\<exists>m s'. activate_totp example_service memory_get_enrollment memory_activate ''u'' ''k'' ''000001''
     example_pending = (Verified m, s') \<and> tm_last_accepted_counter m = 1 \<and> tm_method_id m = ''m''"
proof -
  have get: "memory_get_enrollment ''k'' example_pending = (Inr (Some example_enrollment), example_pending)"
    by (simp add: memory_get_pending memory_pending_def get_totp_enrollment_def example_pending_def
        create_totp_enrollment_def example_enrollment_def dict_simps)
  have now: "service_now example_service s = (Inr 30000000, s)" for s
    by (simp add: service_now_def example_service_def)
  have secret: "recover_secret example_unprotect ''u'' ''m''
      \<lparr>sec_ciphertext = [1], sec_key_version = ''v''\<rparr> = Inr example_secret"
    using example_mfa_facts(3) by (simp add: example_method_def)
  have chk: "check_enrollment example_service memory_get_enrollment ''u'' ''k'' ''000001'' example_pending =
      (Inr (Some (30000000, example_enrollment, 1)), example_pending)"
    using secret example_mfa_facts(4) get
    by (simp add: check_enrollment_def call_def now)
      (simp add: example_enrollment_def example_service_def)
  define m where "m = \<lparr>tm_method_id = ''m'', tm_account_id = ''u'',
     tm_protected_secret = \<lparr>sec_ciphertext = [1], sec_key_version = ''v''\<rparr>,
     tm_policy = default_totp_policy, tm_last_accepted_counter = 1, tm_created_at = 30000000 :: time,
     tm_last_used_at = None\<rparr>"
  have "method_of_enrollment example_enrollment ''u'' 1 (Aware 30000000) = Inr m"
    using example_mfa_facts(1,2)
    by (simp add: method_of_enrollment_def totp_method_post_init_def example_enrollment_def
        optional_aware_def m_def)
  then have "fst (memory_activate ''u'' ''k'' 1 lm ev 30000000 example_pending) = Inr (Some m)" for lm ev
    by (simp add: memory_activate_def on_first_def store_activate_totp_def example_pending_def
        create_totp_enrollment_def dict_simps Let_def)
      (simp add: example_enrollment_def dict_simps)
  then obtain s' where "commit_activation example_service memory_activate ''u'' ''k''
      (30000000, example_enrollment, 1) example_pending = (Inr (Some m), s')"
    by (simp add: commit_activation_def example_service_def) (metis prod.collapse)
  then have "activate_totp example_service memory_get_enrollment memory_activate ''u'' ''k'' ''000001''
      example_pending = (Verified m, s')"
    by (simp add: activate_totp_def sanitized_def call_def chk)
  then show ?thesis by (auto simp: m_def)
qed

theorem enrollment_activates_once_witness:
  "\<exists>m s'. activate_totp example_service memory_get_enrollment memory_activate ''u'' ''k'' ''000001''
     example_pending = (Verified m, s') \<and>
     (\<nexists>m' t. activate_totp example_service memory_get_enrollment memory_activate ''u'' ''k'' ''000001''
       s' = (Verified m', t))"
proof -
  obtain m s' where a: "activate_totp example_service memory_get_enrollment memory_activate ''u'' ''k''
      ''000001'' example_pending = (Verified m, s')"
    using example_activates by blast
  then have "(\<exists>m. activate_totp example_service memory_get_enrollment memory_activate ''u'' ''k''
      ''000001'' example_pending = (Verified m, s')) \<or>
      (\<exists>codes. activate_totp_with_recovery_codes example_service memory_get_enrollment
        memory_activate_with_codes ''u'' ''k'' ''000001'' example_pending = (Verified codes, s'))"
    by blast
  from enrollment_activates_once [OF example_leaves_store this] a show ?thesis by blast
qed

theorem totp_activation_sound_witness:
  "\<exists>m s'. activate_totp example_service memory_get_enrollment memory_activate ''u'' ''k'' ''000001''
     example_pending = (Verified m, s') \<and> memory_active s' ''m'' = Some m"
proof -
  obtain m s' where a: "activate_totp example_service memory_get_enrollment memory_activate ''u'' ''k''
      ''000001'' example_pending = (Verified m, s')" and m: "tm_method_id m = ''m''"
    using example_activates by blast
  from totp_activation_sound [OF example_leaves_store a] a m show ?thesis by auto
qed

lemma example_codes_drawn:
  "generate_codes example_draw ''v'' 2 (empty_mfa, 0) =
     (Inr [recovery_code ''v'' (replicate 16 0), recovery_code ''v'' (replicate 16 1)], (empty_mfa, 2))"
proof -
  have n: "recovery_code ''v'' (replicate 16 1) \<noteq> recovery_code ''v'' (replicate 16 0)" by code_simp
  have d: "draw_codes example_draw ''v'' 2 (Suc (Suc k)) [] (empty_mfa, 0) =
     (Inr [recovery_code ''v'' (replicate 16 0), recovery_code ''v'' (replicate 16 1)],
      (empty_mfa, 2))" for k
    using n by (cases k) (simp_all add: call_def example_draw_def Let_def)
  show ?thesis
    using d [of 6] by (simp add: generate_codes_def call_def eval_nat_numeral)
qed

lemma example_digest:
  assumes "length b = 16" "is_ascii (recovery_code ''v'' b)"
  shows "recovery_digest_of h p ''u'' (recovery_code ''v'' b) =
    Inr (h (rpp_key p) (recovery_payload ''u'' (recovery_code ''v'' b)))"
proof -
  have "strict_context_text ''v''" by code_simp
  then show ?thesis
    using recovery_code_parses [of "''v''" b] assms example_mfa_facts(2)
    by (simp add: recovery_digest_of_def)
qed

theorem recovery_codes_redeem_once_each_witness:
  "\<exists>codes s' c t. generate_recovery_codes example_service memory_replace_codes ''u'' (empty_mfa, 0) =
       (Verified codes, s') \<and> c \<in> set codes \<and>
     consume_recovery_code (mfs_hmac example_service) (mfs_peppers example_service) (Inr (Aware 5))
       memory_consume_code ''u'' c (fst s') = (Verified (factor_evidence ''recovery-code'' 5), t)"
proof -
  define c0 c1 where "c0 = recovery_code ''v'' (replicate 16 0)"
    and "c1 = recovery_code ''v'' (replicate 16 1)"
  have asc: "is_ascii c0" "is_ascii c1" unfolding c0_def c1_def by code_simp+
  have v: "strict_context_text ''u''" "strict_context_text ''v''" by code_simp+
  have d: "recovery_digest_of h p ''u'' c0 = Inr (h (rpp_key p) (recovery_payload ''u'' c0))"
    "recovery_digest_of h p ''u'' c1 = Inr (h (rpp_key p) (recovery_payload ''u'' c1))" for h p
    using example_digest [of "replicate 16 0"] example_digest [of "replicate 16 1"] asc
    by (simp_all add: c0_def c1_def)
  have long: "32 \<le> length (recovery_payload ''u'' c)" for c
    by (simp add: recovery_payload_def recovery_domain_def ascii_bytes_def)
  have codes: "generate_codes example_draw ''v'' 2 (empty_mfa, 0) = (Inr [c0, c1], (empty_mfa, 2))"
    using example_codes_drawn by (simp add: c0_def c1_def)
  have "\<exists>digests. fresh_recovery_codes example_service ''u'' (empty_mfa, 0) =
      (Inr ([c0, c1], digests), (empty_mfa, 2))"
    using codes d v long [of c0] long [of c1]
    by (simp add: fresh_recovery_codes_def validate_recovery_configuration_def example_service_def
        recovery_digest_post_init_def digest_bytes_def call_def Let_def)
  moreover have "service_now example_service s = (Inr 30000000, s)" for s
    by (simp add: service_now_def example_service_def)
  ultimately have "\<exists>s'. generate_recovery_codes example_service memory_replace_codes ''u'' (empty_mfa, 0) =
      (Verified [c0, c1], s')"
    by (auto simp: generate_recovery_codes_def sanitized_def call_def memory_replace_codes_def
        on_first_def)
  then obtain s' where g: "generate_recovery_codes example_service memory_replace_codes ''u''
      (empty_mfa, 0) = (Verified [c0, c1], s')" by blast
  have p: "recovery_pepper_post_init (hd (mfs_peppers example_service)) =
      Inr (hd (mfs_peppers example_service))"
    using v by (simp add: recovery_pepper_post_init_def example_service_def)
  have "distinct (map (\<lambda>c. mfs_hmac example_service (rpp_key (hd (mfs_peppers example_service)))
      (recovery_payload ''u'' c)) [c0, c1])"
    unfolding c0_def c1_def by code_simp
  then have inj: "inj_on (\<lambda>c. mfs_hmac example_service (rpp_key (hd (mfs_peppers example_service)))
      (recovery_payload ''u'' c)) (set [c0, c1])"
    by (simp only: distinct_map)
  have c: "c0 \<in> set [c0, c1]" by simp
  from recovery_codes_redeem_once_each [OF example_leaves_store g p inj c, of 5] g c
  show ?thesis by blast
qed

end
