(* ===== verification/Policies.thy ===== *)
theory Policies
  imports Prelude "HOL-Library.Sublist"
begin

text \<open>
  Authentication policies (\<^verbatim>\<open>authentication.py\<close>) and their compilation to runtime plans
  (\<^verbatim>\<open>PolicyCompiler\<close> of \<^verbatim>\<open>_openapi.py\<close>): the policy factories with the checks they make, and the
  alternatives a plan accepts. The plan cache is left out: it returns the plan it would compile.
\<close>

section \<open>Requirements\<close>

definition normalized_name :: "string \<Rightarrow> string result" where
  "normalized_name value = (let n = strip value in if n = [] then Inl ImproperlyConfigured else Inr n)"

record mechanism_requirement =
  rq_name :: string
  rq_scopes :: "string list"

definition mechanism_requirement_post_init :: "mechanism_requirement \<Rightarrow> mechanism_requirement result" where
  "mechanism_requirement_post_init r =
     bind (normalized_name (rq_name r)) (\<lambda>name.
     bind (collect (map normalized_name (rq_scopes r))) (\<lambda>scopes.
       if \<not> distinct scopes then Inl ImproperlyConfigured
       else Inr \<lparr>rq_name = name, rq_scopes = scopes\<rparr>))"

definition mechanism :: "string \<Rightarrow> string list \<Rightarrow> mechanism_requirement result" where
  "mechanism name scopes = mechanism_requirement_post_init \<lparr>rq_name = name, rq_scopes = scopes\<rparr>"

text \<open>An argument of a factory: a mechanism name, or a requirement already built.\<close>

datatype requirement_argument = By_Name string | Requirement mechanism_requirement

fun argument_requirement :: "requirement_argument \<Rightarrow> mechanism_requirement result" where
  "argument_requirement (By_Name n) = mechanism n []"
| "argument_requirement (Requirement r) = Inr r"

fun collect_requirements ::
  "string list \<Rightarrow> requirement_argument list \<Rightarrow> mechanism_requirement list result" where
  "collect_requirements names [] = Inr []"
| "collect_requirements names (a # as) =
     bind (argument_requirement a) (\<lambda>item.
       if rq_name item \<in> set names then Inl ImproperlyConfigured
       else bind (collect_requirements (rq_name item # names) as) (\<lambda>items. Inr (item # items)))"

definition normalize_requirements ::
  "requirement_argument list \<Rightarrow> mechanism_requirement list result" where
  "normalize_requirements arguments =
     (if arguments = [] then Inl ImproperlyConfigured else collect_requirements [] arguments)"

section \<open>Policies\<close>

datatype policy_operator = Any_Of | All_Of | At_Least

datatype policy =
    PublicPolicy
  | ExcludePolicy
  | OptionalPolicy policy
  | MechanismPolicy policy_operator "mechanism_requirement list" "int option" bool

definition any_of :: "requirement_argument list \<Rightarrow> policy result" where
  "any_of arguments =
     bind (normalize_requirements arguments) (\<lambda>rs. Inr (MechanismPolicy Any_Of rs None False))"

definition all_of :: "requirement_argument list \<Rightarrow> policy result" where
  "all_of arguments =
     bind (normalize_requirements arguments) (\<lambda>rs. Inr (MechanismPolicy All_Of rs None False))"

definition at_least :: "int \<Rightarrow> requirement_argument list \<Rightarrow> policy result" where
  "at_least n arguments =
     bind (normalize_requirements arguments) (\<lambda>rs.
       if \<not> (1 \<le> n \<and> n \<le> int (length rs)) then Inl ImproperlyConfigured
       else Inr (MechanismPolicy At_Least rs (Some n) False))"

definition required :: "requirement_argument list \<Rightarrow> policy result" where
  "required arguments =
     (if arguments \<noteq> [] then any_of arguments else Inr (MechanismPolicy Any_Of [] None True))"

fun optional_policy :: "policy \<Rightarrow> policy result" where
  "optional_policy (OptionalPolicy p) = Inl ImproperlyConfigured"
| "optional_policy PublicPolicy = Inl ImproperlyConfigured"
| "optional_policy p = Inr (OptionalPolicy p)"

section \<open>Runtime plans\<close>

record runtime_plan =
  plan_authenticate :: bool
  plan_bypass :: bool
  plan_required :: bool
  plan_participants :: "string set option"
  plan_alternatives :: "mechanism_requirement list list"
  plan_allow_anonymous :: bool
  plan_csrf_required :: "bool option"

definition normalized_names :: "string set \<Rightarrow> string set result" where
  "normalized_names names =
     (if \<exists>n\<in>names. isl (normalized_name n) then Inl ImproperlyConfigured
      else Inr ((\<lambda>n. projr (normalized_name n)) ` names))"

definition runtime_plan_post_init :: "runtime_plan \<Rightarrow> runtime_plan result" where
  "runtime_plan_post_init p =
     (let named = (if plan_alternatives p \<noteq> [] \<and> plan_participants p = None
                   then Some (rq_name ` set (concat (plan_alternatives p)))
                   else plan_participants p)
      in case named of
           None \<Rightarrow> Inr p
         | Some names \<Rightarrow>
             bind (normalized_names names) (\<lambda>ns. Inr (p\<lparr>plan_participants := Some ns\<rparr>)))"

definition bare_plan :: "bool option \<Rightarrow> runtime_plan" where
  "bare_plan csrf_required =
     \<lparr>plan_authenticate = False, plan_bypass = False, plan_required = False,
      plan_participants = None, plan_alternatives = [], plan_allow_anonymous = False,
      plan_csrf_required = csrf_required\<rparr>"

text \<open>\<^verbatim>\<open>itertools.combinations\<close>: the sublists of a length, in order.\<close>

fun combinations :: "nat \<Rightarrow> 'a list \<Rightarrow> 'a list list" where
  "combinations 0 xs = [[]]"
| "combinations (Suc k) [] = []"
| "combinations (Suc k) (x # xs) = map ((#) x) (combinations k xs) @ combinations (Suc k) xs"

text \<open>
  What compilation reads of the registry: its mechanism names in configuration order, and those
  that participate by default.
\<close>

definition policy_requirements ::
  "string list \<Rightarrow> string list \<Rightarrow> mechanism_requirement list \<Rightarrow> bool \<Rightarrow>
     mechanism_requirement list result" where
  "policy_requirements names default_names requirements implicit =
     (if implicit then
        (if default_names = [] then Inl ImproperlyConfigured
         else collect (map (\<lambda>n. mechanism n []) default_names))
      else
        let by_name = foldl (\<lambda>d r. dset (rq_name r) r d) [] requirements
        in if filter (\<lambda>n. n \<notin> set names) (map fst by_name) \<noteq> [] then Inl ImproperlyConfigured
           else Inr (List.map_filter (dget by_name) names))"

definition compile_mechanisms ::
  "string list \<Rightarrow> string list \<Rightarrow> nat \<Rightarrow> bool \<Rightarrow> bool option \<Rightarrow> policy_operator \<Rightarrow>
     mechanism_requirement list \<Rightarrow> int option \<Rightarrow> bool \<Rightarrow> runtime_plan result" where
  "compile_mechanisms names default_names cap allow_anonymous csrf_required operator requirements wanted
     implicit =
     bind (policy_requirements names default_names requirements implicit) (\<lambda>rs.
     bind (case operator of
             Any_Of \<Rightarrow> Inr (map (\<lambda>r. [r]) rs)
           | All_Of \<Rightarrow> Inr [rs]
           | At_Least \<Rightarrow>
               (case wanted of
                  None \<Rightarrow> Inl TypeError
                | Some n \<Rightarrow>
                    if length rs choose nat n > cap then Inl ImproperlyConfigured
                    else Inr (combinations (nat n) rs))) (\<lambda>alternatives.
       runtime_plan_post_init
         \<lparr>plan_authenticate = True, plan_bypass = False, plan_required = \<not> allow_anonymous,
          plan_participants = None, plan_alternatives = alternatives,
          plan_allow_anonymous = allow_anonymous, plan_csrf_required = csrf_required\<rparr>))"

fun compile_policy ::
  "string list \<Rightarrow> string list \<Rightarrow> nat \<Rightarrow> bool option \<Rightarrow> policy \<Rightarrow> runtime_plan result" where
  "compile_policy names default_names cap csrf_required PublicPolicy =
     runtime_plan_post_init (bare_plan csrf_required)"
| "compile_policy names default_names cap csrf_required ExcludePolicy =
     runtime_plan_post_init ((bare_plan csrf_required)\<lparr>plan_bypass := True\<rparr>)"
| "compile_policy names default_names cap csrf_required (OptionalPolicy (MechanismPolicy q rs n i)) =
     compile_mechanisms names default_names cap True csrf_required q rs n i"
| "compile_policy names default_names cap csrf_required (OptionalPolicy p) = Inl ImproperlyConfigured"
| "compile_policy names default_names cap csrf_required (MechanismPolicy q rs n i) =
     compile_mechanisms names default_names cap False csrf_required q rs n i"

text \<open>The test the evaluator makes of a plan's alternatives.\<close>

definition satisfied :: "mechanism_requirement list list \<Rightarrow> string set \<Rightarrow> bool" where
  "satisfied alternatives successful \<longleftrightarrow>
     (\<exists>alternative\<in>set alternatives. \<forall>r\<in>set alternative. rq_name r \<in> successful)"

section \<open>What the helpers can build\<close>

text \<open>
  A policy can only come from the public factories; this is the set of policies they return.
\<close>

inductive helper_policy :: "policy \<Rightarrow> bool" where
  Public: "helper_policy PublicPolicy"
| Exclude: "helper_policy ExcludePolicy"
| Required: "required arguments = Inr p \<Longrightarrow> helper_policy p"
| Any: "any_of arguments = Inr p \<Longrightarrow> helper_policy p"
| All: "all_of arguments = Inr p \<Longrightarrow> helper_policy p"
| Least: "at_least n arguments = Inr p \<Longrightarrow> helper_policy p"
| Optional: "helper_policy q \<Longrightarrow> optional_policy q = Inr p \<Longrightarrow> helper_policy p"

text \<open>The meaning of a positive policy for the set of mechanisms that succeeded.\<close>

fun policy_holds :: "string list \<Rightarrow> policy \<Rightarrow> string set \<Rightarrow> bool" where
  "policy_holds default_names (MechanismPolicy q rs n True) S \<longleftrightarrow> set default_names \<inter> S \<noteq> {}"
| "policy_holds default_names (MechanismPolicy Any_Of rs n False) S \<longleftrightarrow> (\<exists>r\<in>set rs. rq_name r \<in> S)"
| "policy_holds default_names (MechanismPolicy All_Of rs n False) S \<longleftrightarrow> (\<forall>r\<in>set rs. rq_name r \<in> S)"
| "policy_holds default_names (MechanismPolicy At_Least rs n False) S \<longleftrightarrow>
     the n \<le> int (card (rq_name ` set rs \<inter> S))"
| "policy_holds default_names (OptionalPolicy p) S \<longleftrightarrow> policy_holds default_names p S"
| "policy_holds default_names p S \<longleftrightarrow> True"

lemma collect_requirements_Inr:
  "collect_requirements ns as = Inr rs \<Longrightarrow>
     distinct (map rq_name rs) \<and> rq_name ` set rs \<inter> set ns = {} \<and> length rs = length as"
  by (induction as arbitrary: ns rs) (auto simp: bind_eq_Inr split: if_splits, (fastforce)+)

lemma normalize_requirements_Inr:
  "normalize_requirements as = Inr rs \<Longrightarrow> distinct (map rq_name rs) \<and> rs \<noteq> []"
  using collect_requirements_Inr [of "[]" as rs]
  by (auto simp: normalize_requirements_def split: if_splits)

fun policy_ok :: "policy \<Rightarrow> bool" where
  "policy_ok (MechanismPolicy q rs n True) \<longleftrightarrow> q = Any_Of"
| "policy_ok (MechanismPolicy At_Least rs n False) \<longleftrightarrow>
     distinct (map rq_name rs) \<and> rs \<noteq> [] \<and> (\<exists>k. n = Some k \<and> 1 \<le> k \<and> k \<le> int (length rs))"
| "policy_ok (MechanismPolicy q rs n False) \<longleftrightarrow> distinct (map rq_name rs) \<and> rs \<noteq> []"
| "policy_ok (OptionalPolicy p) \<longleftrightarrow> policy_ok p"
| "policy_ok p \<longleftrightarrow> True"

fun_cases optional_policyE: "optional_policy q = Inr p"

lemma any_of_ok: "any_of as = Inr p \<Longrightarrow> policy_ok p"
  by (auto simp: any_of_def bind_eq_Inr dest: normalize_requirements_Inr)

lemma helper_policy_ok: "helper_policy p \<Longrightarrow> policy_ok p"
proof (induction rule: helper_policy.induct)
  case (Required arguments p)
  then show ?case by (auto simp: required_def any_of_ok split: if_splits)
next
  case (Any arguments p)
  then show ?case by (rule any_of_ok)
next
  case (All arguments p)
  then show ?case by (auto simp: all_of_def bind_eq_Inr dest: normalize_requirements_Inr)
next
  case (Least n arguments p)
  then show ?case
    by (auto simp: at_least_def bind_eq_Inr dest: normalize_requirements_Inr split: if_splits)
next
  case (Optional q p)
  then show ?case by (auto elim!: optional_policyE)
qed simp_all

section \<open>Compilation\<close>

lemma mem_combinations: "ys \<in> set (combinations k xs) \<longleftrightarrow> subseq ys xs \<and> length ys = k"
proof (induction k xs arbitrary: ys rule: combinations.induct)
  case (1 xs)
  then show ?case by auto
next
  case (2 k)
  then show ?case by auto
next
  case (3 k x xs)
  show ?case
  proof (cases ys)
    case (Cons y zs)
    show ?thesis
    proof (cases "y = x")
      case True
      have "subseq (x # zs) xs \<Longrightarrow> subseq zs xs" by (rule subseq_Cons')
      with True Cons 3 show ?thesis by auto
    next
      case False
      with Cons 3 show ?thesis by auto
    qed
  qed (use 3 in auto)
qed

lemma satisfied_combinations:
  "satisfied (combinations k rs) S \<longleftrightarrow> k \<le> length (filter (\<lambda>r. rq_name r \<in> S) rs)"
proof
  assume "satisfied (combinations k rs) S"
  then obtain ys where ys: "subseq ys rs" "length ys = k" "\<forall>r\<in>set ys. rq_name r \<in> S"
    by (auto simp: satisfied_def mem_combinations)
  then have "subseq ys (filter (\<lambda>r. rq_name r \<in> S) rs)"
    using subseq_filter [OF ys(1), of "\<lambda>r. rq_name r \<in> S"] by simp
  then show "k \<le> length (filter (\<lambda>r. rq_name r \<in> S) rs)"
    using ys(2) list_emb_length by auto
next
  assume k: "k \<le> length (filter (\<lambda>r. rq_name r \<in> S) rs)"
  define ys where "ys = take k (filter (\<lambda>r. rq_name r \<in> S) rs)"
  have "subseq ys rs"
    unfolding ys_def
    by (rule subseq_order.trans [OF prefix_imp_subseq [OF take_is_prefix] subseq_filter_left])
  moreover have "length ys = k" "\<forall>r\<in>set ys. rq_name r \<in> S"
    using k by (auto simp: ys_def dest: in_set_takeD)
  ultimately show "satisfied (combinations k rs) S"
    by (auto simp: satisfied_def mem_combinations)
qed

lemma dset_fresh: "k \<notin> set (map fst d) \<Longrightarrow> dset k v d = d @ [(k, v)]"
  by (induction d) auto

lemma foldl_requirements:
  assumes "distinct (map rq_name rs)" "rq_name ` set rs \<inter> set (map fst d) = {}"
  shows "foldl (\<lambda>d r. dset (rq_name r) r d) d rs = d @ map (\<lambda>r. (rq_name r, r)) rs"
  using assms
proof (induction rs arbitrary: d)
  case (Cons r rs)
  then have "dset (rq_name r) r d = d @ [(rq_name r, r)]"
    by (simp add: dset_fresh)
  with Cons show ?case by fastforce
qed simp

lemma length_combinations: "length (combinations k xs) = length xs choose k"
  by (induction k xs rule: combinations.induct) simp_all

lemma dget_requirements:
  assumes "distinct (map rq_name rs)"
  shows "dget (map (\<lambda>r. (rq_name r, r)) rs) n = Some r \<longleftrightarrow> r \<in> set rs \<and> rq_name r = n"
proof -
  have "distinct (map fst (map (\<lambda>r. (rq_name r, r)) rs))"
    using assms by (simp add: comp_def)
  then show ?thesis by auto
qed

lemma set_map_filter: "y \<in> set (List.map_filter f xs) \<longleftrightarrow> (\<exists>x\<in>set xs. f x = Some y)"
  by (induction xs) (auto simp: List.map_filter_def)

text \<open>The registry puts the requirements in its own order; it adds and drops none.\<close>

lemma policy_requirements_explicit:
  assumes "policy_requirements names default_names rs False = Inr rs'"
    and "distinct (map rq_name rs)" "distinct names"
  shows "set rs' = set rs" and "distinct rs'"
proof -
  define d where "d = map (\<lambda>r. (rq_name r, r)) rs"
  have fold: "foldl (\<lambda>d r. dset (rq_name r) r d) [] rs = d"
    using foldl_requirements [OF assms(2), of "[]"] by (simp add: d_def)
  have d: "dget d n = Some r \<longleftrightarrow> r \<in> set rs \<and> rq_name r = n" for n r
    using dget_requirements [OF assms(2)] by (simp add: d_def)
  have known: "rq_name r \<in> set names" if "r \<in> set rs" for r
    using assms(1) that
    by (auto simp: policy_requirements_def fold filter_empty_conv d_def split: if_splits)
  have rs': "rs' = List.map_filter (dget d) names"
    using assms(1) by (simp add: policy_requirements_def fold split: if_splits)
  show "set rs' = set rs"
    using known by (auto simp: rs' set_map_filter d)
  have "distinct (map rq_name (List.map_filter (dget d) ns))"
    and "set (map rq_name (List.map_filter (dget d) ns)) \<subseteq> set ns" if "distinct ns" for ns
    using that
    by (induction ns) (auto simp: map_filter_simps split: option.splits dest: d [THEN iffD1])
  then show "distinct rs'"
    using assms(3) by (metis rs' distinct_map)
qed

lemma policy_requirements_implicit:
  assumes "policy_requirements names default_names rs True = Inr rs'"
    and "\<forall>n\<in>set default_names. trimmed n"
  shows "rq_name ` set rs' = set default_names"
proof -
  have "normalized_name n = Inr n" if "n \<in> set default_names" for n
    using assms(2) that by (auto simp: normalized_name_def strip_trimmed trimmed_def)
  then have "map (\<lambda>n. mechanism n []) default_names =
      map Inr (map (\<lambda>n. \<lparr>rq_name = n, rq_scopes = []\<rparr>) default_names)"
    by (simp add: mechanism_def mechanism_requirement_post_init_def)
  moreover have "map (\<lambda>n. mechanism n []) default_names = map Inr rs'"
    using assms(1) by (simp add: policy_requirements_def collect_Inr_iff split: if_splits)
  ultimately have "(map Inr rs' :: mechanism_requirement result list) =
      map Inr (map (\<lambda>n. \<lparr>rq_name = n, rq_scopes = []\<rparr>) default_names)"
    by (simp only:)
  then have "rs' = map (\<lambda>n. \<lparr>rq_name = n, rq_scopes = []\<rparr>) default_names"
    by (rule map_injective) simp
  then show ?thesis by (simp add: image_comp comp_def)
qed

lemma runtime_plan_post_init_Inr:
  assumes "runtime_plan_post_init p = Inr plan"
  shows "plan_alternatives plan = plan_alternatives p" "plan_authenticate plan = plan_authenticate p"
    "plan_required plan = plan_required p" "plan_allow_anonymous plan = plan_allow_anonymous p"
    "plan_bypass plan = plan_bypass p"
  using assms
  by (auto simp: runtime_plan_post_init_def Let_def bind_eq_Inr split: option.splits if_splits)

lemma compile_mechanisms_exact:
  assumes "compile_mechanisms names default_names cap anon csrf q rs n i = Inr plan"
    and "policy_ok (MechanismPolicy q rs n i)"
    and "distinct names" "\<forall>n\<in>set default_names. trimmed n"
  shows "satisfied (plan_alternatives plan) S \<longleftrightarrow>
      policy_holds default_names (MechanismPolicy q rs n i) S"
    and "plan_authenticate plan" and "plan_allow_anonymous plan = anon"
    and "plan_required plan = (\<not> anon)"
proof -
  obtain rs' alternatives where rs': "policy_requirements names default_names rs i = Inr rs'"
    and alts: "(case q of
             Any_Of \<Rightarrow> Inr (map (\<lambda>r. [r]) rs')
           | All_Of \<Rightarrow> Inr [rs']
           | At_Least \<Rightarrow>
               (case n of
                  None \<Rightarrow> Inl TypeError
                | Some n \<Rightarrow>
                    if length rs' choose nat n > cap then Inl ImproperlyConfigured
                    else Inr (combinations (nat n) rs'))) = Inr alternatives"
    and plan: "runtime_plan_post_init
         \<lparr>plan_authenticate = True, plan_bypass = False, plan_required = \<not> anon,
          plan_participants = None, plan_alternatives = alternatives,
          plan_allow_anonymous = anon, plan_csrf_required = csrf\<rparr> = Inr plan"
    using assms(1) by (auto simp: compile_mechanisms_def bind_eq_Inr)
  note p = runtime_plan_post_init_Inr [OF plan, simplified]
  show "plan_authenticate plan" "plan_allow_anonymous plan = anon" "plan_required plan = (\<not> anon)"
    using p by simp_all
  show "satisfied (plan_alternatives plan) S \<longleftrightarrow>
      policy_holds default_names (MechanismPolicy q rs n i) S"
  proof (cases i)
    case True
    then have "q = Any_Of" using assms(2) by simp
    then have "plan_alternatives plan = map (\<lambda>r. [r]) rs'"
      using alts p(1) by simp
    then have "satisfied (plan_alternatives plan) S \<longleftrightarrow> rq_name ` set rs' \<inter> S \<noteq> {}"
      by (auto simp: satisfied_def disjoint_iff)
    then show ?thesis
      using True rs' policy_requirements_implicit [of names default_names rs rs'] assms(4) by simp
  next
    case False
    have ok: "distinct (map rq_name rs)"
      using assms(2) False by (cases q) simp_all
    from rs' False have "policy_requirements names default_names rs False = Inr rs'" by simp
    note same = policy_requirements_explicit [OF this ok assms(3)]
    show ?thesis
    proof (cases q)
      case At_Least
      then obtain k where k: "n = Some k" "1 \<le> k" using assms(2) False by auto
      have "inj_on rq_name {r \<in> set rs. rq_name r \<in> S}"
        using ok by (auto simp: distinct_map inj_on_def)
      then have "card (rq_name ` {r \<in> set rs. rq_name r \<in> S}) = card {r \<in> set rs. rq_name r \<in> S}"
        by (rule card_image)
      moreover have "rq_name ` set rs \<inter> S = rq_name ` {r \<in> set rs. rq_name r \<in> S}" by auto
      ultimately have "card (rq_name ` set rs \<inter> S) = card {r \<in> set rs. rq_name r \<in> S}" by simp
      also have "\<dots> = length (filter (\<lambda>r. rq_name r \<in> S) rs')"
        using same by (simp add: distinct_card [symmetric])
      finally show ?thesis
        using alts p(1) At_Least False k
          satisfied_combinations [of "nat k" rs' S]
        by (simp add: nat_le_iff split: if_splits)
    qed (use alts p(1) same False in \<open>(auto simp: satisfied_def; blast)+\<close>)
  qed
qed

lemma compile_policy_exact:
  assumes "helper_policy p" "compile_policy names default_names cap csrf p = Inr plan"
    and "distinct names" "\<forall>n\<in>set default_names. trimmed n"
  shows "(plan_authenticate plan \<longleftrightarrow> p \<noteq> PublicPolicy \<and> p \<noteq> ExcludePolicy) \<and>
         (plan_authenticate plan \<longrightarrow>
            (satisfied (plan_alternatives plan) S \<longleftrightarrow> policy_holds default_names p S)) \<and>
         (plan_allow_anonymous plan \<longleftrightarrow> (\<exists>q. p = OptionalPolicy q)) \<and>
         (plan_required plan \<longleftrightarrow> plan_authenticate plan \<and> \<not> plan_allow_anonymous plan)"
proof -
  note ok = helper_policy_ok [OF assms(1)]
  show ?thesis
  proof (cases p)
    case (OptionalPolicy q)
    with assms(2) obtain op rs n i where q: "q = MechanismPolicy op rs n i"
      by (cases q) auto
    with OptionalPolicy assms(2) have
      c: "compile_mechanisms names default_names cap True csrf op rs n i = Inr plan" by simp
    show ?thesis
      using compile_mechanisms_exact [OF c _ assms(3,4)] ok OptionalPolicy q by simp
  next
    case (MechanismPolicy op rs n i)
    with assms(2) have
      c: "compile_mechanisms names default_names cap False csrf op rs n i = Inr plan" by simp
    show ?thesis
      using compile_mechanisms_exact [OF c _ assms(3,4)] ok MechanismPolicy by simp
  qed (use assms(2) runtime_plan_post_init_Inr [of _ plan] in \<open>auto simp: bare_plan_def\<close>)
qed

lemma compile_policy_plan:
  assumes "compile_policy names default_names cap csrf p = Inr plan"
  shows "\<exists>q. runtime_plan_post_init q = Inr plan"
proof (cases p)
  case (OptionalPolicy q)
  with assms obtain op rs n i where "q = MechanismPolicy op rs n i" by (cases q) auto
  with assms OptionalPolicy show ?thesis by (auto simp: compile_mechanisms_def bind_eq_Inr)
qed (use assms in \<open>auto simp: compile_mechanisms_def bind_eq_Inr\<close>)

text \<open>A policy asks for something its mechanisms can provide, so a plan that authenticates has an
  alternative.\<close>

lemma policy_holds_everywhere:
  assumes "helper_policy p" "compile_policy names default_names cap csrf p = Inr plan"
  shows "policy_holds default_names p UNIV"
proof -
  have ok: "policy_ok (MechanismPolicy q rs n i) \<Longrightarrow>
      compile_mechanisms names default_names cap anon csrf q rs n i = Inr plan \<Longrightarrow>
      policy_holds default_names (MechanismPolicy q rs n i) UNIV" for q rs n i anon
  proof (cases i)
    case True
    then show "compile_mechanisms names default_names cap anon csrf q rs n i = Inr plan \<Longrightarrow> ?thesis"
      by (auto simp: compile_mechanisms_def policy_requirements_def bind_eq_Inr split: if_splits)
  next
    case False
    assume "policy_ok (MechanismPolicy q rs n i)"
    moreover have "distinct (map rq_name rs) \<Longrightarrow> card (rq_name ` set rs) = length rs"
      by (metis distinct_card length_map list.set_map)
    ultimately show ?thesis using False by (cases q) (auto simp: ex_in_conv)
  qed
  show ?thesis
  proof (cases p)
    case (OptionalPolicy q)
    with assms(2) obtain op rs n i where q: "q = MechanismPolicy op rs n i" by (cases q) auto
    with OptionalPolicy assms(2) ok [of op rs n i True] helper_policy_ok [OF assms(1)] show ?thesis
      by simp
  next
    case (MechanismPolicy op rs n i)
    with assms(2) ok [of op rs n i False] helper_policy_ok [OF assms(1)] show ?thesis by simp
  qed simp_all
qed

text \<open>C3: Compilation is faithful: for every policy the public factories can build, the compiled plan
  authenticates exactly for positive policies, its alternatives are satisfied by exactly the sets
  of successful mechanisms the policy's operator asks for (any, all, or at least n of them), and
  anonymous access is let through exactly for an optional policy.\<close>

theorem policy_compilation_exact:
  assumes "helper_policy p" "compile_policy names default_names cap csrf p = Inr plan"
    and "distinct names" "\<forall>n\<in>set default_names. trimmed n"
  shows "(plan_authenticate plan \<longleftrightarrow> p \<noteq> PublicPolicy \<and> p \<noteq> ExcludePolicy) \<and>
         (plan_authenticate plan \<longrightarrow>
            (satisfied (plan_alternatives plan) S \<longleftrightarrow> policy_holds default_names p S)) \<and>
         (plan_allow_anonymous plan \<longleftrightarrow> (\<exists>q. p = OptionalPolicy q)) \<and>
         (plan_required plan \<longleftrightarrow> plan_authenticate plan \<and> \<not> plan_allow_anonymous plan)"
  by (rule compile_policy_exact [OF assms])

theorem policy_compilation_exact_witness:
  "\<exists>p plan. at_least 2 [By_Name ''jwt'', By_Name ''key'', By_Name ''session''] = Inr p \<and>
     compile_policy [''session'', ''jwt'', ''key''] [''session''] 32 None p = Inr plan \<and>
     satisfied (plan_alternatives plan) {''jwt'', ''session''} \<and>
     \<not> satisfied (plan_alternatives plan) {''jwt''}"
proof -
  define rs where "rs = [\<lparr>rq_name = ''jwt'', rq_scopes = []\<rparr>, \<lparr>rq_name = ''key'', rq_scopes = []\<rparr>,
    \<lparr>rq_name = ''session'', rq_scopes = []\<rparr>]"
  define p where "p = MechanismPolicy At_Least rs (Some 2) False"
  have p: "at_least 2 [By_Name ''jwt'', By_Name ''key'', By_Name ''session''] = Inr p"
    unfolding p_def rs_def by code_simp
  have "\<not> isl (compile_policy [''session'', ''jwt'', ''key''] [''session''] 32 None p)"
    unfolding p_def rs_def by code_simp
  then obtain plan where c: "compile_policy [''session'', ''jwt'', ''key''] [''session''] 32 None p =
      Inr plan"
    by (metis sum.collapse(2))
  have t: "\<forall>n\<in>set [''session'']. trimmed n" by code_simp
  note exact = policy_compilation_exact [OF helper_policy.Least [OF p] c _ t, simplified]
  have "satisfied (plan_alternatives plan) {''jwt'', ''session''}"
    using exact [of "{''jwt'', ''session''}"] by (simp add: p_def rs_def)
  moreover have "\<not> satisfied (plan_alternatives plan) {''jwt''}"
    using exact [of "{''jwt''}"] by (simp add: p_def rs_def)
  ultimately show ?thesis using p c by blast
qed

end
