(* ===== verification/Authentication.thy ===== *)
theory Authentication
  imports Policies Authorization Ports Refresh_Tokens
begin

text \<open>
  The registry of credential slots and mechanisms, and the evaluator that turns one request into a
  principal and a security context (\<^verbatim>\<open>authentication.py\<close>).

  The application's callables (slot extraction, credential verification, identity and
  authorization resolution) are functions to results: within one request each is called at most
  once per credential, so its answer for that request is all the evaluator can observe. An
  exception of any of them is an \<open>Inl\<close>. The connection \<open>'conn\<close> is opaque but for its headers.
\<close>

section \<open>Slots\<close>

datatype 'cred extraction = No_Credential | Presented 'cred | Malformed

text \<open>
  \<open>slot_bearer_prefix\<close> is the prefix of a slot that accepts \<^verbatim>\<open>Authorization: Bearer\<close> keys;
  \<open>slot_excluded\<close> is the \<^verbatim>\<open>excluded_prefixes\<close> field of a dataclass slot that has one. Extraction may
  depend on both configured fields, which the registry can replace.
\<close>

record ('conn, 'cred) slot =
  slot_name :: string
  slot_bearer_prefix :: "string option"
  slot_excluded :: "string list option"
  slot_coexists :: bool
  slot_extract :: "string list \<Rightarrow> bool \<Rightarrow> 'conn \<Rightarrow> 'cred extraction result"

definition extract_slot :: "('conn, 'cred) slot \<Rightarrow> 'conn \<Rightarrow> 'cred extraction result" where
  "extract_slot s conn =
     slot_extract s (case slot_excluded s of None \<Rightarrow> [] | Some ps \<Rightarrow> ps) (slot_coexists s) conn"

definition ascii_lower :: "string \<Rightarrow> string" where
  "ascii_lower s = map (\<lambda>c. let n = (of_char c :: nat)
     in if 65 \<le> n \<and> n \<le> 90 then char_of (n + 32) else c) s"

definition is_printable :: "string \<Rightarrow> bool" where
  "is_printable s = list_all (\<lambda>c. let n = (of_char c :: nat) in 32 \<le> n \<and> n < 127) s"

text \<open>
  The test of \<^verbatim>\<open>_PrefixExcludingBearerSlot\<close>: exactly one authorization header, an ASCII value
  \<^verbatim>\<open>Bearer <token>\<close> with one space, and a token with an excluded prefix.
\<close>

definition excluded_bearer :: "string list \<Rightarrow> (string \<times> string) list \<Rightarrow> bool" where
  "excluded_bearer excluded headers =
     (case map snd (filter (\<lambda>(h, v). ascii_lower h = ''authorization'') headers) of
        [v] \<Rightarrow>
          is_ascii v \<and>
          (case partition_at (CHR '' '') v of
             (scheme, sep, token) \<Rightarrow>
               sep \<and> ascii_lower scheme = ''bearer'' \<and> is_printable v \<and>
               CHR '' '' \<notin> set token \<and> (\<exists>p\<in>set excluded. take (length p) token = p))
      | _ \<Rightarrow> False)"

definition excluding_extract ::
  "('conn \<Rightarrow> (string \<times> string) list) \<Rightarrow> string list \<Rightarrow> ('conn, 'cred) slot \<Rightarrow> 'conn \<Rightarrow>
     'cred extraction result" where
  "excluding_extract headers excluded inner conn =
     (if excluded_bearer excluded (headers conn) then Inr No_Credential else extract_slot inner conn)"

definition wrap_bearer_slot ::
  "('conn \<Rightarrow> (string \<times> string) list) \<Rightarrow> string list \<Rightarrow> ('conn, 'cred) slot \<Rightarrow> ('conn, 'cred) slot" where
  "wrap_bearer_slot headers excluded s =
     (case slot_excluded s of
        Some _ \<Rightarrow> s\<lparr>slot_excluded := Some excluded\<rparr>
      | None \<Rightarrow>
          \<lparr>slot_name = ''authorization.bearer'', slot_bearer_prefix = None, slot_excluded = None,
           slot_coexists = False, slot_extract = (\<lambda>_ _. excluding_extract headers excluded s)\<rparr>)"

definition bearer_slot_name :: string where
  "bearer_slot_name = ''authorization.bearer''"

definition coordinate_bearer_slots ::
  "('conn \<Rightarrow> (string \<times> string) list) \<Rightarrow> (string, ('conn, 'cred) slot) dict \<Rightarrow>
     (string, ('conn, 'cred) slot) dict" where
  "coordinate_bearer_slots headers slots =
     (case dget slots bearer_slot_name of
        None \<Rightarrow> slots
      | Some bearer \<Rightarrow>
          let excluded = sort (remdups (List.map_filter slot_bearer_prefix (dvalues slots)))
          in if excluded = [] then slots
             else
               let existing = (case slot_excluded bearer of None \<Rightarrow> [] | Some ps \<Rightarrow> ps);
                   combined = sort (remdups (existing @ excluded))
               in map (\<lambda>(k, s). (k, if slot_bearer_prefix s \<noteq> None then s\<lparr>slot_coexists := True\<rparr> else s))
                    (dset bearer_slot_name (wrap_bearer_slot headers combined bearer) slots))"

section \<open>Mechanisms and the registry\<close>

record authentication_grant =
  au_evidence :: evidence
  au_grants :: "string snapshot"
  au_restrictions :: restrictions

record 'claims verified_login = authentication_grant +
  au_claims :: 'claims

datatype 'claims auth_outcome = Auth_None | Auth_Ok "'claims verified_login" | Auth_Invalid | Auth_Unavailable

record ('conn, 'cred, 'claims, 'u) auth_mechanism =
  mech_name :: string
  mech_slot :: string
  mech_default :: bool
  mech_session_capable :: bool
  mech_authenticate :: "'cred \<Rightarrow> 'conn \<Rightarrow> 'claims auth_outcome result"
  mech_resolve :: "'claims \<Rightarrow> 'u principal verdict result"

record ('conn, 'cred, 'claims, 'u) registry =
  rg_slots :: "(string, ('conn, 'cred) slot) dict"
  rg_mechanisms :: "(string, ('conn, 'cred, 'claims, 'u) auth_mechanism) dict"
  rg_by_slot :: "(string, ('conn, 'cred, 'claims, 'u) auth_mechanism) dict"
  rg_default_names :: "string list"
  rg_authorize :: "('u principal \<Rightarrow> string snapshot verdict result) option"

fun register_slots ::
  "(string, ('conn, 'cred) slot) dict \<Rightarrow> ('conn, 'cred) slot list \<Rightarrow>
     (string, ('conn, 'cred) slot) dict result" where
  "register_slots acc [] = Inr acc"
| "register_slots acc (s # ss) =
     bind (normalized_name (slot_name s)) (\<lambda>name.
       if dget acc name \<noteq> None then Inl ImproperlyConfigured
       else register_slots (dset name s acc) ss)"

fun register_mechanisms ::
  "(string, ('conn, 'cred) slot) dict \<Rightarrow> ('conn, 'cred, 'claims, 'u) registry \<Rightarrow>
     ('conn, 'cred, 'claims, 'u) auth_mechanism list \<Rightarrow> ('conn, 'cred, 'claims, 'u) registry result" where
  "register_mechanisms slots r [] = Inr r"
| "register_mechanisms slots r (m # ms) =
     bind (normalized_name (mech_name m)) (\<lambda>name.
     bind (normalized_name (mech_slot m)) (\<lambda>slot.
       if dget (rg_mechanisms r) name \<noteq> None \<or> dget slots slot = None \<or> dget (rg_by_slot r) slot \<noteq> None
       then Inl ImproperlyConfigured
       else register_mechanisms slots
              (r\<lparr>rg_mechanisms := dset name m (rg_mechanisms r),
                 rg_by_slot := dset slot m (rg_by_slot r),
                 rg_default_names := rg_default_names r @ (if mech_default m then [name] else [])\<rparr>) ms))"

definition registry_post_init ::
  "('conn \<Rightarrow> (string \<times> string) list) \<Rightarrow> ('conn, 'cred) slot list \<Rightarrow>
     ('conn, 'cred, 'claims, 'u) auth_mechanism list \<Rightarrow>
     ('u principal \<Rightarrow> string snapshot verdict result) option \<Rightarrow> bool \<Rightarrow>
     ('conn, 'cred, 'claims, 'u) registry result" where
  "registry_post_init headers slots mechanisms authorize require_default =
     bind (register_slots [] slots) (\<lambda>named.
     let coordinated = coordinate_bearer_slots headers named
     in bind (register_mechanisms coordinated
               \<lparr>rg_slots = coordinated, rg_mechanisms = [], rg_by_slot = [], rg_default_names = [],
                rg_authorize = authorize\<rparr> mechanisms) (\<lambda>r.
          if require_default \<and> rg_default_names r = [] then Inl ImproperlyConfigured else Inr r))"

definition get_mechanism ::
  "('conn, 'cred, 'claims, 'u) registry \<Rightarrow> string \<Rightarrow>
     ('conn, 'cred, 'claims, 'u) auth_mechanism result" where
  "get_mechanism r name =
     bind (normalized_name name) (\<lambda>n.
       case dget (rg_mechanisms r) n of None \<Rightarrow> Inl KeyError | Some m \<Rightarrow> Inr m)"

definition get_mechanism_for_slot ::
  "('conn, 'cred, 'claims, 'u) registry \<Rightarrow> string \<Rightarrow>
     ('conn, 'cred, 'claims, 'u) auth_mechanism option result" where
  "get_mechanism_for_slot r name = bind (normalized_name name) (\<lambda>n. Inr (dget (rg_by_slot r) n))"

section \<open>Evaluation\<close>

definition unavailable_unless :: "'a result \<Rightarrow> 'a result" where
  "unavailable_unless r = (case r of Inl _ \<Rightarrow> Inl ServiceUnavailable | Inr a \<Rightarrow> Inr a)"

definition extract_all ::
  "('conn, 'cred, 'claims, 'u) registry \<Rightarrow> 'conn \<Rightarrow> (string \<times> 'cred extraction) list result" where
  "extract_all r conn =
     collect (map (\<lambda>(name, s). bind (unavailable_unless (extract_slot s conn)) (\<lambda>x. Inr (name, x)))
       (rg_slots r))"

fun authenticate_each ::
  "('conn, 'cred, 'claims, 'u) registry \<Rightarrow> 'conn \<Rightarrow> (string \<times> 'cred extraction) list \<Rightarrow>
     ((string \<times> 'claims auth_outcome) list \<times> bool) result" where
  "authenticate_each r conn [] = Inr ([], False)"
| "authenticate_each r conn ((slot, Presented c) # es) =
     bind (get_mechanism_for_slot r slot) (\<lambda>found.
       case found of
         None \<Rightarrow> bind (authenticate_each r conn es) (\<lambda>(os, invalid). Inr (os, True))
       | Some m \<Rightarrow>
           bind (unavailable_unless (mech_authenticate m c conn)) (\<lambda>outcome.
           bind (normalized_name (mech_name m)) (\<lambda>name.
           bind (authenticate_each r conn es) (\<lambda>(os, invalid).
             case outcome of
               Auth_None \<Rightarrow> Inr (os, True)
             | _ \<Rightarrow> Inr ((name, outcome) # os, invalid)))))"
| "authenticate_each r conn ((slot, x) # es) = authenticate_each r conn es"

definition authenticate_all ::
  "('conn, 'cred, 'claims, 'u) registry \<Rightarrow> 'conn \<Rightarrow> (string \<times> 'cred extraction) list \<Rightarrow>
     ((string \<times> 'claims auth_outcome) list \<times> bool) result" where
  "authenticate_all r conn extracted =
     bind (authenticate_each r conn extracted) (\<lambda>(os, invalid).
       Inr (os, invalid \<or> Malformed \<in> snd ` set extracted))"

definition raise_terminal :: "(string \<times> 'claims auth_outcome) list \<Rightarrow> bool \<Rightarrow> unit result" where
  "raise_terminal outcomes invalid =
     (if Auth_Unavailable \<in> snd ` set outcomes then Inl ServiceUnavailable
      else if invalid \<or> Auth_Invalid \<in> snd ` set outcomes then Inl NotAuthorized
      else Inr ())"

record ('claims, 'u) login =
  lg_name :: string
  lg_outcome :: "'claims verified_login"
  lg_principal :: "'u principal"

fun resolve_each ::
  "('conn, 'cred, 'claims, 'u) registry \<Rightarrow> (string \<times> 'claims auth_outcome) list \<Rightarrow>
     (string \<times> 'claims verified_login \<times> 'u principal verdict) list result" where
  "resolve_each r [] = Inr []"
| "resolve_each r ((name, Auth_Ok a) # os) =
     bind (get_mechanism r name) (\<lambda>m.
     bind (unavailable_unless (mech_resolve m (au_claims a))) (\<lambda>resolution.
     bind (resolve_each r os) (\<lambda>rest. Inr ((name, a, resolution) # rest))))"
| "resolve_each r ((name, x) # os) = Inl RuntimeError"

text \<open>The last clause is not reached: the evaluator raises on every other outcome first.\<close>

fun accept_each ::
  "(string \<times> 'claims verified_login \<times> 'u principal verdict) list \<Rightarrow> ('claims, 'u) login list result" where
  "accept_each [] = Inr []"
| "accept_each ((name, a, Verified p) # rs) =
     (if \<not> is_authenticated p then Inl NotAuthorized
      else bind (accept_each rs) (\<lambda>ls.
        Inr (\<lparr>lg_name = name, lg_outcome = a, lg_principal = p\<rparr> # ls)))"
| "accept_each ((name, a, v) # rs) = Inl NotAuthorized"

definition resolve_all ::
  "('conn, 'cred, 'claims, 'u) registry \<Rightarrow> (string \<times> 'claims auth_outcome) list \<Rightarrow>
     ('claims, 'u) login list result" where
  "resolve_all r outcomes =
     bind (resolve_each r outcomes) (\<lambda>resolutions.
       if Verification_Unavailable \<in> (snd \<circ> snd) ` set resolutions then Inl ServiceUnavailable
       else if Invalid_Credentials \<in> (snd \<circ> snd) ` set resolutions then Inl NotAuthorized
       else accept_each resolutions)"

definition merge_tenants ::
  "(string, string set) dict \<Rightarrow> (string, string set) dict \<Rightarrow> (string, string set) dict" where
  "merge_tenants acc granted =
     foldl (\<lambda>d (t, rs). dset t ((case dget d t of None \<Rightarrow> {} | Some old \<Rightarrow> old) \<union> rs) d) acc granted"

definition merge_authorization :: "string snapshot list \<Rightarrow> string snapshot result" where
  "merge_authorization gs =
     snapshot_post_init
       \<lparr>sn_scopes = \<Union> (set (map sn_scopes gs)), sn_roles = \<Union> (set (map sn_roles gs)),
        sn_capabilities = \<Union> (set (map sn_capabilities gs)),
        sn_tenant_roles = foldl merge_tenants [] (map sn_tenant_roles gs),
        sn_tenant_ids = \<Union> (set (map sn_tenant_ids gs)),
        sn_resources = \<Union> (set (map sn_resources gs)),
        sn_attributes = foldl (foldl (\<lambda>d (k, v). dset k v d)) [] (map sn_attributes gs)\<rparr>"

definition resolve_snapshot ::
  "('conn, 'cred, 'claims, 'u) registry \<Rightarrow> 'u principal \<Rightarrow> string snapshot list \<Rightarrow>
     string snapshot result" where
  "resolve_snapshot r p granted =
     (case rg_authorize r of
        None \<Rightarrow> merge_authorization granted
      | Some resolve \<Rightarrow>
          bind (unavailable_unless (resolve p)) (\<lambda>resolution.
            case resolution of
              Verified s \<Rightarrow> Inr s
            | Invalid_Credentials \<Rightarrow> Inl NotAuthorized
            | Verification_Unavailable \<Rightarrow> Inl ServiceUnavailable))"

definition resolve_request_authorization ::
  "resource_order \<Rightarrow> ('conn, 'cred, 'claims, 'u) registry \<Rightarrow> 'u principal \<Rightarrow>
     'claims verified_login list \<Rightarrow> string snapshot result" where
  "resolve_request_authorization order r p outcomes =
     bind (resolve_snapshot r p (map au_grants outcomes)) (\<lambda>s.
       resolve_authorization order s (map au_restrictions outcomes))"

definition empty_snapshot :: "string snapshot" where
  "empty_snapshot = \<lparr>sn_scopes = {}, sn_roles = {}, sn_capabilities = {}, sn_tenant_roles = [],
     sn_tenant_ids = {}, sn_resources = {}, sn_attributes = []\<rparr>"

definition empty_context :: security_context where
  "empty_context =
     \<lparr>sc_evidence = [], sc_authorization = empty_snapshot, sc_restrictions = []\<rparr>"

definition participant_names ::
  "('conn, 'cred, 'claims, 'u) registry \<Rightarrow> string set option \<Rightarrow> string set result" where
  "participant_names r names =
     (case names of None \<Rightarrow> Inr (set (rg_default_names r)) | Some ns \<Rightarrow> normalized_names ns)"

definition evaluate ::
  "resource_order \<Rightarrow> ('conn, 'cred, 'claims, 'u) registry \<Rightarrow> runtime_plan \<Rightarrow> 'conn \<Rightarrow>
     (string \<times> 'cred extraction) list \<Rightarrow> ('u principal \<times> security_context) result" where
  "evaluate order r plan conn extracted =
     (if \<not> plan_authenticate plan then Inr (anonymous, empty_context)
      else
        bind (participant_names r (plan_participants plan)) (\<lambda>participants.
        bind (authenticate_all r conn extracted) (\<lambda>(outcomes, invalid).
        bind (raise_terminal outcomes invalid) (\<lambda>_.
        bind (resolve_all r outcomes) (\<lambda>resolved.
          let p = (if resolved = [] then anonymous else lg_principal (hd resolved));
              successful = set (map lg_name resolved)
          in if \<exists>l\<in>set (tl resolved). principal_id (lg_principal l) \<noteq> principal_id p
             then Inl NotAuthorized
             else if plan_alternatives plan \<noteq> [] \<and> \<not> satisfied (plan_alternatives plan) successful
             then (if plan_allow_anonymous plan \<and> resolved = [] then Inr (p, empty_context)
                   else Inl NotAuthorized)
             else if plan_alternatives plan = [] \<and> plan_required plan \<and> successful \<inter> participants = {}
             then Inl NotAuthorized
             else if resolved = [] then Inr (p, empty_context)
             else
               bind (resolve_request_authorization order r p (map lg_outcome resolved)) (\<lambda>authorization.
               Inr (p, \<lparr>sc_evidence = map (au_evidence \<circ> lg_outcome) resolved,
                        sc_authorization = authorization,
                        sc_restrictions = map (au_restrictions \<circ> lg_outcome) resolved\<rparr>)))))))"

section \<open>The compiled registry\<close>

definition registry_ok :: "('conn, 'cred, 'claims, 'u) registry \<Rightarrow> bool" where
  "registry_ok r \<longleftrightarrow>
     dict_ok (rg_slots r) \<and> (\<forall>n\<in>set (map fst (rg_slots r)). trimmed n) \<and>
     (\<forall>slot m. dget (rg_by_slot r) slot = Some m \<longrightarrow>
        trimmed slot \<and> dget (rg_slots r) slot \<noteq> None \<and>
        (\<exists>n. normalized_name (mech_name m) = Inr n \<and> dget (rg_mechanisms r) n = Some m)) \<and>
     (\<forall>n\<in>set (map fst (rg_mechanisms r)). trimmed n) \<and> dict_ok (rg_mechanisms r) \<and>
     set (rg_default_names r) \<subseteq> set (map fst (rg_mechanisms r))"

lemma normalized_name_Inr: "normalized_name v = Inr n \<Longrightarrow> trimmed n"
  by (auto simp: normalized_name_def Let_def trimmed_strip split: if_splits)

lemma normalized_name_trimmed: "trimmed n \<Longrightarrow> normalized_name n = Inr n"
  by (auto simp: normalized_name_def strip_trimmed trimmed_def)

lemma normalized_names_trimmed: "\<forall>n\<in>N. trimmed n \<Longrightarrow> normalized_names N = Inr N"
proof -
  assume "\<forall>n\<in>N. trimmed n"
  then have n: "\<forall>n\<in>N. normalized_name n = Inr n" by (simp add: normalized_name_trimmed)
  then have "(\<lambda>n. projr (normalized_name n)) ` N = N" by force
  with n show ?thesis by (auto simp: normalized_names_def)
qed

lemma set_keys_dset: "set (map fst (dset k v d)) = insert k (set (map fst d))"
  by (induction d) auto

lemma register_slots_ok:
  "register_slots acc ss = Inr d \<Longrightarrow> dict_ok acc \<Longrightarrow> \<forall>n\<in>set (map fst acc). trimmed n \<Longrightarrow>
     dict_ok d \<and> (\<forall>n\<in>set (map fst d). trimmed n)"
proof (induction ss arbitrary: acc)
  case (Cons s ss)
  then obtain n where "normalized_name (slot_name s) = Inr n" "register_slots (dset n s acc) ss = Inr d"
    by (auto simp: bind_eq_Inr split: if_splits)
  moreover have "\<forall>x\<in>set (map fst (dset n s acc)). trimmed x"
    using Cons.prems(3) normalized_name_Inr [OF calculation(1)] unfolding set_keys_dset by blast
  ultimately show ?case
    using Cons.IH Cons.prems(2) by (metis dict_ok_dset)
qed simp

lemma coordinate_keys:
  "map fst (coordinate_bearer_slots headers d) =
     (if dget d bearer_slot_name = None then map fst d
      else map fst (coordinate_bearer_slots headers d))"
  by (simp add: coordinate_bearer_slots_def)

lemma keys_dset_known: "dget d k \<noteq> None \<Longrightarrow> map fst (dset k v d) = map fst d"
  by (induction d) auto

lemma map_fst_coordinate [simp]: "map fst (coordinate_bearer_slots headers d) = map fst d"
proof (cases "dget d bearer_slot_name")
  case (Some b)
  then have "map fst (dset bearer_slot_name x d) = map fst d" for x
    by (simp add: keys_dset_known)
  with Some show ?thesis
    by (simp add: coordinate_bearer_slots_def Let_def comp_def case_prod_unfold)
qed (simp add: coordinate_bearer_slots_def)

definition mechanisms_ok ::
  "(string, ('conn, 'cred) slot) dict \<Rightarrow> ('conn, 'cred, 'claims, 'u) registry \<Rightarrow> bool" where
  "mechanisms_ok slots r \<longleftrightarrow>
     (\<forall>slot m. dget (rg_by_slot r) slot = Some m \<longrightarrow>
        trimmed slot \<and> dget slots slot \<noteq> None \<and>
        (\<exists>n. normalized_name (mech_name m) = Inr n \<and> dget (rg_mechanisms r) n = Some m)) \<and>
     (\<forall>n\<in>set (map fst (rg_mechanisms r)). trimmed n) \<and> dict_ok (rg_mechanisms r) \<and>
     set (rg_default_names r) \<subseteq> set (map fst (rg_mechanisms r))"

lemma register_mechanisms_ok:
  "register_mechanisms slots r ms = Inr r' \<Longrightarrow> mechanisms_ok slots r \<Longrightarrow>
     mechanisms_ok slots r' \<and> rg_slots r' = rg_slots r \<and> rg_authorize r' = rg_authorize r"
proof (induction ms arbitrary: r)
  case (Cons m ms)
  from Cons.prems(1) obtain name slot where
    n: "normalized_name (mech_name m) = Inr name" "normalized_name (mech_slot m) = Inr slot"
    and free: "dget (rg_mechanisms r) name = None" "dget slots slot \<noteq> None" "dget (rg_by_slot r) slot = None"
    and rest: "register_mechanisms slots
              (r\<lparr>rg_mechanisms := dset name m (rg_mechanisms r),
                 rg_by_slot := dset slot m (rg_by_slot r),
                 rg_default_names := rg_default_names r @ (if mech_default m then [name] else [])\<rparr>) ms = Inr r'"
    by (auto simp: bind_eq_Inr split: if_splits)
  note old = Cons.prems(2) [unfolded mechanisms_ok_def]
  note tr = normalized_name_Inr [OF n(1)] normalized_name_Inr [OF n(2)]
  define r2 where "r2 = r\<lparr>rg_mechanisms := dset name m (rg_mechanisms r),
         rg_by_slot := dset slot m (rg_by_slot r),
         rg_default_names := rg_default_names r @ (if mech_default m then [name] else [])\<rparr>"
  have r2: "rg_mechanisms r2 = dset name m (rg_mechanisms r)" "rg_by_slot r2 = dset slot m (rg_by_slot r)"
    "rg_default_names r2 = rg_default_names r @ (if mech_default m then [name] else [])"
    "rg_slots r2 = rg_slots r" "rg_authorize r2 = rg_authorize r"
    by (simp_all add: r2_def)
  have "mechanisms_ok slots r2"
    unfolding mechanisms_ok_def r2 set_keys_dset
  proof (intro conjI allI impI)
    fix k x assume "dget (dset slot m (rg_by_slot r)) k = Some x"
    then have x: "(if k = slot then Some m else dget (rg_by_slot r) k) = Some x"
      by (simp only: dget_dset)
    have "trimmed k \<and> dget slots k \<noteq> None \<and> (\<exists>n. normalized_name (mech_name x) = Inr n \<and>
        dget (dset name m (rg_mechanisms r)) n = Some x)"
    proof (cases "k = slot")
      case True
      with x have "x = m" by simp
      with True tr(2) free(2) n(1) show ?thesis by (simp add: dget_dset)
    next
      case False
      with x have "dget (rg_by_slot r) k = Some x" by simp
      with old obtain nm where nm: "trimmed k" "dget slots k \<noteq> None"
        "normalized_name (mech_name x) = Inr nm" "dget (rg_mechanisms r) nm = Some x" by blast
      moreover from nm(4) free(1) have "nm \<noteq> name" by auto
      ultimately show ?thesis by (simp add: dget_dset)
    qed
    then show "trimmed k" "dget slots k \<noteq> None"
      "\<exists>n. normalized_name (mech_name x) = Inr n \<and> dget (dset name m (rg_mechanisms r)) n = Some x"
      by blast+
  next
    show "\<forall>n\<in>insert name (set (map fst (rg_mechanisms r))). trimmed n" using old tr by blast
    show "dict_ok (dset name m (rg_mechanisms r))" using old by simp
    show "set (rg_default_names r @ (if mech_default m then [name] else [])) \<subseteq>
        insert name (set (map fst (rg_mechanisms r)))"
      using old by (auto simp del: set_map)
  qed
  from Cons.IH [OF rest [folded r2_def] this] show ?case by (simp add: r2)
qed simp

lemma registry_post_init_ok:
  assumes "registry_post_init headers slots ms authorize rd = Inr r"
  shows "registry_ok r"
proof -
  obtain named where named: "register_slots [] slots = Inr named"
    and r: "register_mechanisms (coordinate_bearer_slots headers named)
      \<lparr>rg_slots = coordinate_bearer_slots headers named, rg_mechanisms = [], rg_by_slot = [],
       rg_default_names = [], rg_authorize = authorize\<rparr> ms = Inr r"
    using assms by (auto simp: registry_post_init_def bind_eq_Inr Let_def split: if_splits)
  have slots: "dict_ok named" "\<forall>n\<in>set (map fst named). trimmed n"
    using register_slots_ok [OF named] by simp_all
  have "mechanisms_ok (coordinate_bearer_slots headers named) r \<and>
      rg_slots r = coordinate_bearer_slots headers named"
    using register_mechanisms_ok [OF r] by (simp add: mechanisms_ok_def)
  then show ?thesis
    using slots by (auto simp: registry_ok_def mechanisms_ok_def dict_ok_def simp del: set_map)
qed

lemma registry_ok_owner:
  assumes "registry_ok r" "dget (rg_by_slot r) slot = Some m"
  obtains n where "normalized_name (mech_name m) = Inr n" "dget (rg_mechanisms r) n = Some m"
    "trimmed n"
proof -
  from assms obtain n where n: "normalized_name (mech_name m) = Inr n" "dget (rg_mechanisms r) n = Some m"
    unfolding registry_ok_def by blast
  with that normalized_name_Inr [OF n(1)] show thesis by blast
qed

lemma unavailable_unless_value [simp]: "unavailable_unless (Inr a) = Inr a"
  by (simp add: unavailable_unless_def)

lemma unavailable_unless_Inr [simp]: "unavailable_unless r = Inr a \<longleftrightarrow> r = Inr a"
  by (auto simp: unavailable_unless_def split: sum.splits)

lemma unavailable_unless_Inl:
  "unavailable_unless r = Inl e \<longleftrightarrow> isl r \<and> e = ServiceUnavailable"
  by (auto simp: unavailable_unless_def split: sum.splits)

section \<open>What a successful evaluation means\<close>

fun presented :: "(string \<times> 'cred extraction) list \<Rightarrow> (string \<times> 'cred) list" where
  "presented [] = []"
| "presented ((slot, Presented c) # es) = (slot, c) # presented es"
| "presented ((slot, x) # es) = presented es"

text \<open>What the owner of a slot answers for one presented credential; \<open>None\<close> is a refusal.\<close>

definition answer ::
  "('conn, 'cred, 'claims, 'u) registry \<Rightarrow> 'conn \<Rightarrow> string \<times> 'cred \<Rightarrow>
     (string \<times> 'claims auth_outcome) option result" where
  "answer r conn p =
     (case dget (rg_by_slot r) (fst p) of
        None \<Rightarrow> Inr None
      | Some m \<Rightarrow>
          bind (unavailable_unless (mech_authenticate m (snd p) conn)) (\<lambda>outcome.
          bind (normalized_name (mech_name m)) (\<lambda>name.
            Inr (case outcome of Auth_None \<Rightarrow> None | _ \<Rightarrow> Some (name, outcome)))))"

lemma answer_result:
  assumes "registry_ok r"
  shows "answer r conn p = Inl e \<Longrightarrow> e = ServiceUnavailable"
  using registry_ok_owner [OF assms]
  by (fastforce simp: answer_def unavailable_unless_def bind_def split: option.splits sum.splits)

lemma authenticate_each_answers:
  assumes "registry_ok r" "\<forall>p\<in>set es. trimmed (fst p)"
  shows "authenticate_each r conn es =
    bind (collect (map (answer r conn) (presented es))) (\<lambda>as.
      Inr (List.map_filter id as, None \<in> set as))"
  using assms(2)
proof (induction es rule: presented.induct)
  case (2 slot c es)
  have slot: "get_mechanism_for_slot r slot = Inr (dget (rg_by_slot r) slot)"
    using 2(2) by (simp add: get_mechanism_for_slot_def normalized_name_trimmed)
  show ?case
  proof (cases "dget (rg_by_slot r) slot")
    case None
    then have "answer r conn (slot, c) = Inr None" by (simp add: answer_def)
    with slot None 2 show ?thesis
      by (cases "collect (map (answer r conn) (presented es))") (simp_all add: map_filter_simps)
  next
    case (Some m)
    with assms(1) obtain n where n: "normalized_name (mech_name m) = Inr n"
      by (rule registry_ok_owner)
    show ?thesis
    proof (cases "unavailable_unless (mech_authenticate m c conn)")
      case (Inl e)
      with Some have "answer r conn (slot, c) = Inl e" by (simp add: answer_def)
      with Inl slot Some show ?thesis by simp
    next
      case (Inr outcome)
      with Some n have "answer r conn (slot, c) =
          Inr (case outcome of Auth_None \<Rightarrow> None | _ \<Rightarrow> Some (n, outcome))"
        by (simp add: answer_def)
      with slot 2 Some Inr n show ?thesis
        by (cases "collect (map (answer r conn) (presented es))"; cases outcome)
          (simp_all add: map_filter_simps)
    qed
  qed
qed (simp_all add: map_filter_simps)

lemma authenticate_each_error:
  assumes "registry_ok r" "\<forall>p\<in>set es. trimmed (fst p)"
  shows "authenticate_each r conn es = Inl e \<Longrightarrow> e = ServiceUnavailable"
proof -
  have "collect as = Inl e \<Longrightarrow> Inl e \<in> set as" for as :: "(string \<times> 'c auth_outcome) option result list"
    by (induction as) (auto simp: bind_def split: sum.splits)
  then show "authenticate_each r conn es = Inl e \<Longrightarrow> e = ServiceUnavailable"
    unfolding authenticate_each_answers [OF assms]
    using answer_result [OF assms(1)] by (fastforce simp: bind_def split: sum.splits)
qed

text \<open>A presented credential that logs a principal in.\<close>

definition logs_in ::
  "('conn, 'cred, 'claims, 'u) registry \<Rightarrow> 'conn \<Rightarrow> string \<times> 'cred \<Rightarrow> ('claims, 'u) login \<Rightarrow> bool" where
  "logs_in r conn p l \<longleftrightarrow>
     (\<exists>m. dget (rg_by_slot r) (fst p) = Some m \<and> normalized_name (mech_name m) = Inr (lg_name l) \<and>
        mech_authenticate m (snd p) conn = Inr (Auth_Ok (lg_outcome l)) \<and>
        mech_resolve m (au_claims (lg_outcome l)) = Inr (Verified (lg_principal l)) \<and>
        is_authenticated (lg_principal l))"

lemma resolve_each_Inr:
  assumes "resolve_each r os = Inr rs"
  shows "list_all2 (\<lambda>(n, x) (n', a, v). n' = n \<and> x = Auth_Ok a \<and>
    (\<exists>m. get_mechanism r n = Inr m \<and> mech_resolve m (au_claims a) = Inr v)) os rs"
  using assms
proof (induction r os arbitrary: rs rule: resolve_each.induct)
  case (2 r name a os)
  from 2(2) obtain m v rest where s: "get_mechanism r name = Inr m" "mech_resolve m (au_claims a) = Inr v"
    "resolve_each r os = Inr rest" "rs = (name, a, v) # rest"
    by (auto simp: bind_eq_Inr)
  with 2(1) [OF s(1) _ s(3)] show ?case by auto
qed simp_all

lemma accept_each_Inr:
  assumes "accept_each rs = Inr ls"
  shows "list_all2 (\<lambda>(n, a, v) l. v = Verified (lg_principal l) \<and> lg_name l = n \<and>
    lg_outcome l = a \<and> is_authenticated (lg_principal l)) rs ls"
  using assms
  by (induction rs arbitrary: ls rule: accept_each.induct) (auto simp: bind_eq_Inr split: if_splits)

lemma resolve_all_Inr:
  assumes "resolve_all r os = Inr ls"
  shows "list_all2 (\<lambda>(n, x) l. x = Auth_Ok (lg_outcome l) \<and> lg_name l = n \<and>
    (\<exists>m. get_mechanism r n = Inr m \<and>
       mech_resolve m (au_claims (lg_outcome l)) = Inr (Verified (lg_principal l))) \<and>
    is_authenticated (lg_principal l)) os ls"
proof -
  obtain rs where "resolve_each r os = Inr rs" "accept_each rs = Inr ls"
    using assms by (auto simp: resolve_all_def bind_eq_Inr split: if_splits)
  from resolve_each_Inr [OF this(1)] accept_each_Inr [OF this(2)] show ?thesis
    by (rule list_all2_trans [rotated]) auto
qed

lemma get_mechanism_owner:
  assumes "registry_ok r" "dget (rg_by_slot r) slot = Some m" "normalized_name (mech_name m) = Inr n"
  shows "get_mechanism r n = Inr m"
proof -
  obtain n' where "normalized_name (mech_name m) = Inr n'" "dget (rg_mechanisms r) n' = Some m"
    "trimmed n'" using registry_ok_owner [OF assms(1,2)] by blast
  with assms(3) show ?thesis by (simp add: get_mechanism_def normalized_name_trimmed)
qed

text \<open>The three phases before the plan is looked at.\<close>

definition logins ::
  "('conn, 'cred, 'claims, 'u) registry \<Rightarrow> 'conn \<Rightarrow> (string \<times> 'cred extraction) list \<Rightarrow>
     ('claims, 'u) login list result" where
  "logins r conn es =
     bind (authenticate_all r conn es) (\<lambda>(outcomes, invalid).
     bind (raise_terminal outcomes invalid) (\<lambda>_. resolve_all r outcomes))"

lemma map_filter_id_Some [simp]: "List.map_filter id (map Some xs) = xs"
  by (induction xs) (simp_all add: map_filter_simps)

lemma map_filter_id_inverse: "None \<notin> set as \<Longrightarrow> as = map Some (List.map_filter id as)"
proof (induction as)
  case (Cons a as)
  then show ?case by (cases a) (simp_all add: map_filter_simps)
qed (simp add: map_filter_simps)

lemma answer_Some:
  "answer r conn p = Inr (Some (n, Auth_Ok a)) \<longleftrightarrow>
     (\<exists>m. dget (rg_by_slot r) (fst p) = Some m \<and> mech_authenticate m (snd p) conn = Inr (Auth_Ok a) \<and>
        normalized_name (mech_name m) = Inr n)"
proof (cases "dget (rg_by_slot r) (fst p)")
  case (Some m)
  show ?thesis
  proof (cases "mech_authenticate m (snd p) conn")
    case (Inr x)
    with Some show ?thesis by (cases x) (auto simp: answer_def bind_eq_Inr)
  qed (simp add: answer_def Some bind_eq_Inr)
qed (simp add: answer_def)

lemma logs_in_answer:
  assumes "registry_ok r"
  shows "logs_in r conn p l \<longleftrightarrow>
    answer r conn p = Inr (Some (lg_name l, Auth_Ok (lg_outcome l))) \<and>
    (\<exists>m. get_mechanism r (lg_name l) = Inr m \<and>
       mech_resolve m (au_claims (lg_outcome l)) = Inr (Verified (lg_principal l))) \<and>
    is_authenticated (lg_principal l)"
  unfolding logs_in_def answer_Some using get_mechanism_owner [OF assms] by fastforce

lemma resolve_all_logins:
  assumes "\<forall>l\<in>set ls. (\<exists>m. get_mechanism r (lg_name l) = Inr m \<and>
       mech_resolve m (au_claims (lg_outcome l)) = Inr (Verified (lg_principal l))) \<and>
    is_authenticated (lg_principal l)"
  shows "resolve_all r (map (\<lambda>l. (lg_name l, Auth_Ok (lg_outcome l))) ls) = Inr ls"
proof -
  have "resolve_each r (map (\<lambda>l. (lg_name l, Auth_Ok (lg_outcome l))) ls) =
      Inr (map (\<lambda>l. (lg_name l, lg_outcome l, Verified (lg_principal l))) ls)"
    using assms by (induction ls) auto
  moreover have "accept_each (map (\<lambda>l. (lg_name l, lg_outcome l, Verified (lg_principal l))) ls) = Inr ls"
    using assms by (induction ls) auto
  ultimately show ?thesis by (auto simp: resolve_all_def)
qed

lemma logins_iff:
  assumes "registry_ok r" "\<forall>p\<in>set es. trimmed (fst p)"
  shows "logins r conn es = Inr ls \<longleftrightarrow>
    Malformed \<notin> snd ` set es \<and> list_all2 (logs_in r conn) (presented es) ls"
proof
  assume "logins r conn es = Inr ls"
  then obtain as where as: "collect (map (answer r conn) (presented es)) = Inr as"
    and ok: "raise_terminal (List.map_filter id as) (None \<in> set as \<or> Malformed \<in> snd ` set es) = Inr ()"
    and res: "resolve_all r (List.map_filter id as) = Inr ls"
    unfolding logins_def authenticate_all_def authenticate_each_answers [OF assms]
    by (auto simp: bind_eq_Inr)
  define os where "os = List.map_filter id as"
  from ok have valid: "None \<notin> set as" "Malformed \<notin> snd ` set es"
    by (auto simp: raise_terminal_def split: if_splits)
  then have "as = map Some os" by (simp add: os_def map_filter_id_inverse [symmetric])
  then have answers: "map (answer r conn) (presented es) = map (\<lambda>x. Inr (Some x)) os"
    using as by (simp add: collect_Inr_iff comp_def)
  have "list_all2 (\<lambda>p x. answer r conn p = Inr (Some x)) (presented es) os"
    using answers by (simp add: list_all2_conv_all_nth) (metis length_map nth_map)
  from list_all2_trans [OF _ this resolve_all_Inr [OF res [folded os_def]]]
  have "list_all2 (logs_in r conn) (presented es) ls"
    by (rule meta_mp) (auto simp: logs_in_answer [OF assms(1)])
  with valid show "Malformed \<notin> snd ` set es \<and> list_all2 (logs_in r conn) (presented es) ls" by simp
next
  assume a: "Malformed \<notin> snd ` set es \<and> list_all2 (logs_in r conn) (presented es) ls"
  define os where "os = map (\<lambda>l. (lg_name l, Auth_Ok (lg_outcome l))) ls"
  have "map (answer r conn) (presented es) = map (\<lambda>l. Inr (Some (lg_name l, Auth_Ok (lg_outcome l)))) ls"
    using a by (auto simp: list_all2_conv_all_nth logs_in_answer [OF assms(1)] intro: nth_equalityI)
  then have "collect (map (answer r conn) (presented es)) = Inr (map Some os)"
    by (simp add: collect_Inr_iff os_def comp_def)
  moreover have "resolve_all r os = Inr ls"
    unfolding os_def
  proof (rule resolve_all_logins)
    show "\<forall>l\<in>set ls. (\<exists>m. get_mechanism r (lg_name l) = Inr m \<and>
       mech_resolve m (au_claims (lg_outcome l)) = Inr (Verified (lg_principal l))) \<and>
       is_authenticated (lg_principal l)"
      using a by (auto simp: list_all2_conv_all_nth logs_in_answer [OF assms(1)] in_set_conv_nth)
  qed
  moreover have "raise_terminal os False = Inr ()"
    by (auto simp: raise_terminal_def os_def)
  ultimately show "logins r conn es = Inr ls"
    using a
    unfolding logins_def authenticate_all_def authenticate_each_answers [OF assms]
    by auto
qed

lemma extract_all_names:
  assumes "registry_ok r" "extract_all r conn = Inr es"
  shows "\<forall>p\<in>set es. trimmed (fst p)"
proof -
  have "map (\<lambda>(name, s). bind (unavailable_unless (extract_slot s conn)) (\<lambda>x. Inr (name, x)))
      (rg_slots r) = map Inr es"
    using assms(2) by (simp add: extract_all_def collect_Inr_iff)
  then have members: "Inr ` set es = (\<lambda>(name, s). bind (unavailable_unless (extract_slot s conn))
      (\<lambda>x. Inr (name, x))) ` set (rg_slots r)"
    by (metis list.set_map)
  have "fst p \<in> set (map fst (rg_slots r))" if "p \<in> set es" for p
  proof -
    from that members have "Inr p \<in> (\<lambda>(name, s). bind (unavailable_unless (extract_slot s conn))
        (\<lambda>x. Inr (name, x))) ` set (rg_slots r)" by blast
    then obtain name s where "(name, s) \<in> set (rg_slots r)"
      "bind (unavailable_unless (extract_slot s conn)) (\<lambda>x. Inr (name, x)) = Inr p" by auto
    then show ?thesis by (force simp: bind_eq_Inr)
  qed
  with assms(1) show ?thesis unfolding registry_ok_def by blast
qed

section \<open>Properties\<close>

text \<open>What a plan demands of the mechanisms that logged in.\<close>

definition plan_admits ::
  "('conn, 'cred, 'claims, 'u) registry \<Rightarrow> runtime_plan \<Rightarrow> string set \<Rightarrow> bool" where
  "plan_admits r plan successful \<longleftrightarrow>
     (if plan_alternatives plan \<noteq> []
      then satisfied (plan_alternatives plan) successful \<or> plan_allow_anonymous plan \<and> successful = {}
      else plan_required plan \<longrightarrow>
        successful \<inter> (case plan_participants plan of None \<Rightarrow> set (rg_default_names r) | Some ns \<Rightarrow> ns) \<noteq> {})"

definition request_context :: "('claims, 'u) login list \<Rightarrow> string snapshot \<Rightarrow> security_context" where
  "request_context ls authorization =
     \<lparr>sc_evidence = map (au_evidence \<circ> lg_outcome) ls, sc_authorization = authorization,
      sc_restrictions = map (au_restrictions \<circ> lg_outcome) ls\<rparr>"

lemma bind_assoc: "bind (bind m f) g = bind m (\<lambda>a. bind (f a) g)"
  by (cases m) simp_all

lemma evaluate_logins:
  assumes "plan_authenticate plan" "participant_names r (plan_participants plan) = Inr participants"
  shows "evaluate order r plan conn es =
    bind (logins r conn es) (\<lambda>resolved.
      let p = (if resolved = [] then anonymous else lg_principal (hd resolved));
          successful = set (map lg_name resolved)
      in if \<exists>l\<in>set (tl resolved). principal_id (lg_principal l) \<noteq> principal_id p
         then Inl NotAuthorized
         else if plan_alternatives plan \<noteq> [] \<and> \<not> satisfied (plan_alternatives plan) successful
         then (if plan_allow_anonymous plan \<and> resolved = [] then Inr (p, empty_context)
               else Inl NotAuthorized)
         else if plan_alternatives plan = [] \<and> plan_required plan \<and> successful \<inter> participants = {}
         then Inl NotAuthorized
         else if resolved = [] then Inr (p, empty_context)
         else
           bind (resolve_request_authorization order r p (map lg_outcome resolved)) (\<lambda>authorization.
           Inr (p, request_context resolved authorization)))"
  unfolding evaluate_def logins_def request_context_def bind_assoc
  by (simp add: assms case_prod_unfold bind_assoc del: set_map)

lemma participants_of_plan:
  assumes "runtime_plan_post_init q = Inr plan"
  shows "participant_names r (plan_participants plan) =
    Inr (case plan_participants plan of None \<Rightarrow> set (rg_default_names r) | Some ns \<Rightarrow> ns)"
proof (cases "plan_participants plan")
  case (Some ns)
  with assms obtain ms where "normalized_names ms = Inr ns"
    by (auto simp: runtime_plan_post_init_def Let_def bind_eq_Inr split: option.splits if_splits)
  then have "\<forall>n\<in>ns. trimmed n"
    by (auto simp: normalized_names_def split: if_splits)
      (metis isl_def normalized_name_Inr sum.collapse(2))
  then show ?thesis by (simp add: participant_names_def Some normalized_names_trimmed)
qed (simp add: participant_names_def)

lemma evaluate_iff:
  assumes "registry_post_init headers slots ms authorize rd = Inr r"
    and "extract_all r conn = Inr es" "runtime_plan_post_init q = Inr plan" "plan_authenticate plan"
  shows "evaluate order r plan conn es = Inr (p, ctx) \<longleftrightarrow>
    (\<exists>ls. Malformed \<notin> snd ` set es \<and> list_all2 (logs_in r conn) (presented es) ls \<and>
       (\<forall>l\<in>set ls. principal_id (lg_principal l) = principal_id p) \<and>
       plan_admits r plan (set (map lg_name ls)) \<and>
       (if ls = [] then p = anonymous \<and> ctx = empty_context
        else p = lg_principal (hd ls) \<and>
          (\<exists>a. resolve_request_authorization order r p (map lg_outcome ls) = Inr a \<and>
             ctx = request_context ls a)))"
proof -
  note r = registry_post_init_ok [OF assms(1)]
  note iff = logins_iff [OF r extract_all_names [OF r assms(2)]]
  note eval = evaluate_logins [OF assms(4) participants_of_plan [OF assms(3)]]
  define rest where "rest ls =
     (let p = (if ls = [] then anonymous else lg_principal (hd ls));
          successful = set (map lg_name ls)
      in if \<exists>l\<in>set (tl ls). principal_id (lg_principal l) \<noteq> principal_id p
         then Inl NotAuthorized
         else if plan_alternatives plan \<noteq> [] \<and> \<not> satisfied (plan_alternatives plan) successful
         then (if plan_allow_anonymous plan \<and> ls = [] then Inr (p, empty_context)
               else Inl NotAuthorized)
         else if plan_alternatives plan = [] \<and> plan_required plan \<and>
           successful \<inter> (case plan_participants plan of None \<Rightarrow> set (rg_default_names r) | Some ns \<Rightarrow> ns) = {}
         then Inl NotAuthorized
         else if ls = [] then Inr (p, empty_context)
         else
           bind (resolve_request_authorization order r p (map lg_outcome ls)) (\<lambda>authorization.
           Inr (p, request_context ls authorization)))" for ls :: "('c, 'd) login list"
  have rest: "rest ls = Inr (p, ctx) \<longleftrightarrow>
      (\<forall>l\<in>set ls. principal_id (lg_principal l) = principal_id p) \<and>
      plan_admits r plan (set (map lg_name ls)) \<and>
      (if ls = [] then p = anonymous \<and> ctx = empty_context
       else p = lg_principal (hd ls) \<and>
         (\<exists>a. resolve_request_authorization order r p (map lg_outcome ls) = Inr a \<and>
            ctx = request_context ls a))" for ls
  proof (cases ls)
    case Nil
    then show ?thesis by (auto simp: rest_def plan_admits_def)
  next
    case (Cons l ls')
    then show ?thesis by (auto simp: rest_def plan_admits_def bind_eq_Inr Let_def)
  qed
  have e: "evaluate order r plan conn es = bind (logins r conn es) rest"
    using eval by (simp add: rest_def [abs_def])
  show ?thesis
    unfolding e bind_eq_Inr rest iff by (simp only: conj_assoc)
qed

text \<open>C1: A request is let through exactly when every credential it presents logs in, all of them the
  same principal, no slot is malformed, and the plan is satisfied by the mechanisms that logged in;
  it is anonymous exactly when it presents no credential. The context carries the evidence and the
  restrictions of every credential, and the authorization narrowed by all of them.\<close>

theorem evaluation_grants_exactly:
  assumes "registry_post_init headers slots ms authorize rd = Inr r"
    and "extract_all r conn = Inr es" "runtime_plan_post_init q = Inr plan" "plan_authenticate plan"
  shows "evaluate order r plan conn es = Inr (p, ctx) \<longleftrightarrow>
    (\<exists>ls. Malformed \<notin> snd ` set es \<and> list_all2 (logs_in r conn) (presented es) ls \<and>
       (\<forall>l\<in>set ls. principal_id (lg_principal l) = principal_id p) \<and>
       plan_admits r plan (set (map lg_name ls)) \<and>
       (if ls = [] then p = anonymous \<and> ctx = empty_context
        else p = lg_principal (hd ls) \<and>
          (\<exists>a. resolve_request_authorization order r p (map lg_outcome ls) = Inr a \<and>
             ctx = request_context ls a)))"
  by (rule evaluate_iff [OF assms])

text \<open>An outage and a refusal among the credentials a request presents.\<close>

definition outage ::
  "('conn, 'cred, 'claims, 'u) registry \<Rightarrow> 'conn \<Rightarrow> (string \<times> 'cred extraction) list \<Rightarrow> bool" where
  "outage r conn es \<longleftrightarrow>
     (\<exists>p\<in>set (presented es). isl (answer r conn p) \<or>
        (\<exists>n. answer r conn p = Inr (Some (n, Auth_Unavailable))))"

definition refused ::
  "('conn, 'cred, 'claims, 'u) registry \<Rightarrow> 'conn \<Rightarrow> (string \<times> 'cred extraction) list \<Rightarrow> bool" where
  "refused r conn es \<longleftrightarrow> Malformed \<in> snd ` set es \<or>
     (\<exists>p\<in>set (presented es). answer r conn p = Inr None \<or>
        (\<exists>n. answer r conn p = Inr (Some (n, Auth_Invalid))))"

lemma collect_error:
  "\<forall>r\<in>set rs. \<forall>e. r = Inl e \<longrightarrow> e = ServiceUnavailable \<Longrightarrow>
     collect rs = (if \<exists>r\<in>set rs. isl r then Inl ServiceUnavailable else Inr (map projr rs))"
  by (induction rs) (auto simp: bind_def split: sum.splits)

lemma map_filter_id_set: "x \<in> set (List.map_filter id as) \<longleftrightarrow> Some x \<in> set as"
  by (induction as) (auto simp: map_filter_simps split: option.splits)

lemma mem_snd: "x \<in> snd ` A \<longleftrightarrow> (\<exists>n. (n, x) \<in> A)"
  by force

lemma logins_refused:
  assumes "registry_ok r" "\<forall>p\<in>set es. trimmed (fst p)"
  shows "logins r conn es =
    (if outage r conn es then Inl ServiceUnavailable
     else if refused r conn es then Inl NotAuthorized
     else resolve_all r (map (\<lambda>p. the (projr (answer r conn p))) (presented es)))"
proof -
  define rs where "rs = map (answer r conn) (presented es)"
  have c: "collect rs = (if \<exists>x\<in>set rs. isl x then Inl ServiceUnavailable else Inr (map projr rs))"
    using answer_result [OF assms(1)] by (intro collect_error) (auto simp: rs_def)
  show ?thesis
  proof (cases "\<exists>x\<in>set rs. isl x")
    case True
    then obtain p e where "p \<in> set (presented es)" "answer r conn p = Inl e"
      by (auto simp: rs_def isl_def)
    then have "outage r conn es"
      unfolding outage_def by (intro bexI [of _ p]) simp_all
    with True c show ?thesis
      by (simp add: logins_def authenticate_all_def authenticate_each_answers [OF assms]
          rs_def [symmetric])
  next
    case False
    define as where "as = map projr rs"
    have as: "rs = map Inr as"
      using False by (auto simp: as_def intro!: nth_equalityI)
    have ans: "x \<in> set as \<longleftrightarrow> (\<exists>p\<in>set (presented es). answer r conn p = Inr x)" for x
    proof -
      have "x \<in> set as \<longleftrightarrow> Inr x \<in> set rs" unfolding as by auto
      also have "\<dots> \<longleftrightarrow> (\<exists>p\<in>set (presented es). answer r conn p = Inr x)"
        unfolding rs_def set_map image_iff by (metis (no_types))
      finally show ?thesis .
    qed
    have inr: "\<exists>y. answer r conn p = Inr y" if "p \<in> set (presented es)" for p
      using False that by (cases "answer r conn p") (force simp: rs_def)+
    have out: "outage r conn es \<longleftrightarrow> (\<exists>n. Some (n, Auth_Unavailable) \<in> set as)"
      unfolding outage_def ans using inr by fastforce
    have ref: "refused r conn es \<longleftrightarrow> Malformed \<in> snd ` set es \<or> None \<in> set as \<or>
        (\<exists>n. Some (n, Auth_Invalid) \<in> set as)"
      unfolding refused_def ans by blast
    have l: "logins r conn es = bind (raise_terminal (List.map_filter id as)
        (None \<in> set as \<or> Malformed \<in> snd ` set es)) (\<lambda>_. resolve_all r (List.map_filter id as))"
      using False c
      by (simp add: logins_def authenticate_all_def authenticate_each_answers [OF assms]
          rs_def [symmetric] as_def)
    show ?thesis
    proof (cases "outage r conn es \<or> refused r conn es")
      case True
      then show ?thesis
        unfolding l by (auto simp: raise_terminal_def mem_snd map_filter_id_set out ref)
    next
      case False
      then have "None \<notin> set as" using ref by blast
      then have "as = map Some (List.map_filter id as)" by (rule map_filter_id_inverse)
      then have "List.map_filter id as = map the as"
        by (metis (no_types, lifting) list.map_comp list.map_ident map_cong o_def option.sel)
      also have "\<dots> = map (\<lambda>p. the (projr (answer r conn p))) (presented es)"
        by (simp add: as_def rs_def comp_def)
      finally have m: "List.map_filter id as =
          map (\<lambda>p. the (projr (answer r conn p))) (presented es)" .
      have "raise_terminal (List.map_filter id as) (None \<in> set as \<or> Malformed \<in> snd ` set es) = Inr ()"
        using False by (auto simp: raise_terminal_def mem_snd map_filter_id_set out ref)
      then show ?thesis
        using False unfolding l by (simp add: m)
    qed
  qed
qed

text \<open>C2: Evaluation fails closed and deterministically: when any presented credential's verifier
  raises or is unavailable the request is answered with service-unavailable, whatever the other
  credentials are; otherwise, when any slot is malformed or any credential is refused or ownerless,
  it is answered with not-authorized, even if another credential is valid.\<close>

theorem evaluation_fails_closed:
  assumes "registry_post_init headers slots ms authorize rd = Inr r"
    and "extract_all r conn = Inr es" "runtime_plan_post_init q = Inr plan" "plan_authenticate plan"
  shows "(outage r conn es \<longrightarrow> evaluate order r plan conn es = Inl ServiceUnavailable) \<and>
         (\<not> outage r conn es \<and> refused r conn es \<longrightarrow> evaluate order r plan conn es = Inl NotAuthorized)"
proof -
  note r = registry_post_init_ok [OF assms(1)]
  note eval = evaluate_logins [OF assms(4) participants_of_plan [OF assms(3)]]
  show ?thesis
    unfolding eval logins_refused [OF r extract_all_names [OF r assms(2)]] by simp
qed

text \<open>C4: A compiled policy is enforced end to end: when a request passes the plan compiled from a
  policy of the public factories, the mechanisms that verified its credentials satisfy the policy,
  or the policy is optional and the request presented nothing.\<close>

theorem policy_enforced:
  assumes "registry_post_init headers slots ms authorize rd = Inr r"
    and "extract_all r conn = Inr es" "helper_policy pol"
    and "compile_policy (map fst (rg_mechanisms r)) (rg_default_names r) cap csrf pol = Inr plan"
    and "plan_authenticate plan" "evaluate order r plan conn es = Inr (p, ctx)"
  shows "\<exists>ls. list_all2 (logs_in r conn) (presented es) ls \<and>
    (policy_holds (rg_default_names r) pol (set (map lg_name ls)) \<or>
     ls = [] \<and> p = anonymous \<and> (\<exists>q. pol = OptionalPolicy q))"
proof -
  note r = registry_post_init_ok [OF assms(1)]
  have reg: "distinct (map fst (rg_mechanisms r))" "\<forall>n\<in>set (rg_default_names r). trimmed n"
    using r unfolding registry_ok_def dict_ok_def by blast+
  note exact = compile_policy_exact [OF assms(3,4) reg]
  have ne: "plan_alternatives plan \<noteq> []"
    using exact [of UNIV] policy_holds_everywhere [OF assms(3,4)] assms(5)
    by (auto simp: satisfied_def)
  obtain q where q: "runtime_plan_post_init q = Inr plan"
    using compile_policy_plan [OF assms(4)] by blast
  obtain ls where ls: "logins r conn es = Inr ls"
    "satisfied (plan_alternatives plan) (set (map lg_name ls)) \<or> plan_allow_anonymous plan \<and> ls = []"
    "ls = [] \<longrightarrow> p = anonymous"
    using assms(6) ne
    unfolding evaluate_logins [OF assms(5) participants_of_plan [OF q]]
    by (auto simp: bind_eq_Inr Let_def split: if_splits)
  have "list_all2 (logs_in r conn) (presented es) ls"
    using ls(1) logins_iff [OF r extract_all_names [OF r assms(2)]] by blast
  with ls exact assms(5) show ?thesis by blast
qed

section \<open>A concrete registry\<close>

text \<open>Two slots read a header each; a session and a key mechanism accept the credential ''ok'', find
  their verifier down for ''down'', and name the principal ''u''.\<close>

definition example_slot :: "string \<Rightarrow> ((string \<times> string) list, string) slot" where
  "example_slot name = \<lparr>slot_name = name, slot_bearer_prefix = None, slot_excluded = None,
     slot_coexists = False,
     slot_extract = (\<lambda>_ _ headers.
       Inr (case dget headers name of None \<Rightarrow> No_Credential | Some v \<Rightarrow> Presented v))\<rparr>"

definition unrestricted :: restrictions where
  "unrestricted = \<lparr>re_scopes = None, re_roles = None, re_capabilities = None, re_tenant_ids = None,
     re_resources = None\<rparr>"

definition example_auth_evidence :: "string \<Rightarrow> evidence" where
  "example_auth_evidence name = \<lparr>ev_mechanism = name, ev_slot = name, ev_authenticated_at = 0,
     ev_expires_at = None, ev_methods = {name}, ev_traits = {}, ev_acr = None, ev_amr = []\<rparr>"

definition example_mechanism ::
  "string \<Rightarrow> ((string \<times> string) list, string, string, unit) auth_mechanism" where
  "example_mechanism name = \<lparr>mech_name = name, mech_slot = name, mech_default = True,
     mech_session_capable = False,
     mech_authenticate = (\<lambda>c conn. if c = ''down'' then Inl RuntimeError
       else if c = ''ok'' then Inr (Auth_Ok
         \<lparr>au_evidence = example_auth_evidence name, au_grants = empty_snapshot,
          au_restrictions = unrestricted, au_claims = ''u''\<rparr>)
       else Inr Auth_Invalid),
     mech_resolve = (\<lambda>claims. Inr (Verified
       \<lparr>principal_id = Some claims, display_name = None, principal_user = None\<rparr>))\<rparr>"

definition example_auth_registry :: "((string \<times> string) list, string, string, unit) registry" where
  "example_auth_registry =
     \<lparr>rg_slots = [(''key'', example_slot ''key''), (''session'', example_slot ''session'')],
      rg_mechanisms = [(''key'', example_mechanism ''key''), (''session'', example_mechanism ''session'')],
      rg_by_slot = [(''key'', example_mechanism ''key''), (''session'', example_mechanism ''session'')],
      rg_default_names = [''key'', ''session''], rg_authorize = None\<rparr>"

lemma example_names: "normalized_name ''key'' = Inr ''key''" "normalized_name ''session'' = Inr ''session''"
  by code_simp+

lemma example_registered:
  "registry_post_init id [example_slot ''key'', example_slot ''session'']
     [example_mechanism ''key'', example_mechanism ''session''] None True = Inr example_auth_registry"
  by (simp add: registry_post_init_def example_slot_def example_mechanism_def example_names
      coordinate_bearer_slots_def bearer_slot_name_def example_auth_registry_def Let_def)

definition example_policy :: policy where
  "example_policy = MechanismPolicy All_Of
     [\<lparr>rq_name = ''key'', rq_scopes = []\<rparr>, \<lparr>rq_name = ''session'', rq_scopes = []\<rparr>] None False"

lemma example_helper: "helper_policy example_policy"
  by (rule helper_policy.All [where arguments = "[By_Name ''key'', By_Name ''session'']"])
    (simp add: all_of_def normalize_requirements_def mechanism_def mechanism_requirement_post_init_def
      example_names example_policy_def)

definition example_plan :: runtime_plan where
  "example_plan = \<lparr>plan_authenticate = True, plan_bypass = False, plan_required = True,
     plan_participants = Some {''key'', ''session''},
     plan_alternatives = [[\<lparr>rq_name = ''key'', rq_scopes = []\<rparr>, \<lparr>rq_name = ''session'', rq_scopes = []\<rparr>]],
     plan_allow_anonymous = False, plan_csrf_required = None\<rparr>"

lemma example_trimmed: "\<forall>n\<in>{''key'', ''session''}. trimmed n"
  by code_simp

lemma example_plan_kept: "runtime_plan_post_init example_plan = Inr example_plan"
  using normalized_names_trimmed [OF example_trimmed]
  by (simp add: runtime_plan_post_init_def example_plan_def)

lemma example_compiled:
  "compile_policy [''key'', ''session''] [''key'', ''session''] 32 None example_policy = Inr example_plan"
  using normalized_names_trimmed [OF example_trimmed]
  by (simp add: example_policy_def compile_mechanisms_def policy_requirements_def map_filter_simps
      runtime_plan_post_init_def example_plan_def)

lemma example_extracted:
  "extract_all example_auth_registry [(''session'', a), (''key'', b)] =
     Inr [(''key'', Presented b), (''session'', Presented a)]"
  by (simp add: extract_all_def example_auth_registry_def extract_slot_def example_slot_def)

lemma example_answers:
  "answer example_auth_registry conn (''key'', c) =
     (if c = ''down'' then Inl ServiceUnavailable
      else Inr (Some (''key'', projr (mech_authenticate (example_mechanism ''key'') c conn))))"
  "answer example_auth_registry conn (''session'', c) =
     (if c = ''down'' then Inl ServiceUnavailable
      else Inr (Some (''session'', projr (mech_authenticate (example_mechanism ''session'') c conn))))"
  by (simp_all add: answer_def example_auth_registry_def)
    (simp_all add: example_mechanism_def example_names unavailable_unless_def)

theorem evaluation_fails_closed_witness:
  "evaluate (\<lambda>_. []) example_auth_registry example_plan [(''session'', ''down''), (''key'', ''bad'')]
     [(''key'', Presented ''bad''), (''session'', Presented ''down'')] = Inl ServiceUnavailable \<and>
   evaluate (\<lambda>_. []) example_auth_registry example_plan [(''session'', ''ok''), (''key'', ''bad'')]
     [(''key'', Presented ''bad''), (''session'', Presented ''ok'')] = Inl NotAuthorized"
proof -
  note closed = evaluation_fails_closed [OF example_registered example_extracted example_plan_kept]
  have p: "plan_authenticate example_plan" by (simp add: example_plan_def)
  have "outage example_auth_registry [(''session'', ''down''), (''key'', ''bad'')]
      [(''key'', Presented ''bad''), (''session'', Presented ''down'')]"
    by (simp add: outage_def example_answers)
  moreover have "\<not> outage example_auth_registry [(''session'', ''ok''), (''key'', ''bad'')]
      [(''key'', Presented ''bad''), (''session'', Presented ''ok'')]"
    by (simp add: outage_def example_answers) (simp add: example_mechanism_def)
  moreover have "refused example_auth_registry [(''session'', ''ok''), (''key'', ''bad'')]
      [(''key'', Presented ''bad''), (''session'', Presented ''ok'')]"
    by (simp add: refused_def example_answers) (simp add: example_mechanism_def)
  ultimately show ?thesis using closed [OF p] by blast
qed

definition example_login :: "string \<Rightarrow> (string, unit) login" where
  "example_login name = \<lparr>lg_name = name,
     lg_outcome = \<lparr>au_evidence = example_auth_evidence name, au_grants = empty_snapshot,
       au_restrictions = unrestricted, au_claims = ''u''\<rparr>,
     lg_principal = \<lparr>principal_id = Some ''u'', display_name = None, principal_user = None\<rparr>\<rparr>"

lemma example_logs_in:
  "logs_in example_auth_registry conn (''key'', ''ok'') (example_login ''key'')"
  "logs_in example_auth_registry conn (''session'', ''ok'') (example_login ''session'')"
  by (simp_all add: logs_in_def example_auth_registry_def)
    (simp_all add: example_mechanism_def example_login_def example_names is_authenticated_def)

lemma unrestricted_resolution:
  "resolve_authorization order empty_snapshot [unrestricted, unrestricted] = Inr empty_snapshot"
  by (simp add: resolve_authorization_def apply_restriction_def unrestricted_def narrow_def
      narrow_tenants_by_id_def narrow_tenants_by_role_def snapshot_post_init_def empty_snapshot_def
      normalize_values_def collect_set_def)

lemma example_merged: "merge_authorization [empty_snapshot, empty_snapshot] = Inr empty_snapshot"
  by (simp add: merge_authorization_def empty_snapshot_def merge_tenants_def snapshot_post_init_def
      normalize_values_def collect_set_def)

lemma example_evaluates:
  "evaluate (\<lambda>_. []) example_auth_registry example_plan [(''session'', ''ok''), (''key'', ''ok'')]
     [(''key'', Presented ''ok''), (''session'', Presented ''ok'')] =
   Inr (lg_principal (example_login ''key''),
     request_context [example_login ''key'', example_login ''session''] empty_snapshot)"
proof -
  let ?ls = "[example_login ''key'', example_login ''session'']"
  have p: "plan_authenticate example_plan" by (simp add: example_plan_def)
  have a: "resolve_request_authorization (\<lambda>_. []) example_auth_registry (lg_principal (example_login ''key''))
      (map lg_outcome ?ls) = Inr empty_snapshot"
    using unrestricted_resolution example_merged
    by (simp add: resolve_request_authorization_def resolve_snapshot_def example_auth_registry_def
        example_login_def)
  have "plan_admits example_auth_registry example_plan (set (map lg_name ?ls))"
    by (simp add: plan_admits_def satisfied_def example_plan_def example_login_def)
  moreover have "\<forall>l\<in>set ?ls. principal_id (lg_principal l) = principal_id (lg_principal (example_login ''key''))"
    by (simp add: example_login_def)
  ultimately show ?thesis
    unfolding evaluate_iff [OF example_registered example_extracted example_plan_kept p]
    using a example_logs_in by (intro exI [of _ ?ls]) simp
qed

theorem evaluation_grants_exactly_witness:
  "\<exists>ls :: (string, unit) login list. evaluate (\<lambda>_. []) example_auth_registry example_plan [(''session'', ''ok''), (''key'', ''ok'')]
     [(''key'', Presented ''ok''), (''session'', Presented ''ok'')] =
     Inr (lg_principal (example_login ''key''), request_context ls empty_snapshot) \<and>
   plan_admits example_auth_registry example_plan (set (map lg_name ls)) \<and> length ls = 2"
proof -
  have p: "plan_authenticate example_plan" by (simp add: example_plan_def)
  from evaluation_grants_exactly [OF example_registered example_extracted example_plan_kept p,
      THEN iffD1, OF example_evaluates]
  obtain ls where ls: "list_all2 (logs_in example_auth_registry [(''session'', ''ok''), (''key'', ''ok'')])
      (presented [(''key'', Presented ''ok''), (''session'', Presented ''ok'')]) ls"
    "plan_admits example_auth_registry example_plan (set (map lg_name ls))"
    and found: "if ls = [] then lg_principal (example_login ''key'') = anonymous \<and>
        request_context [example_login ''key'', example_login ''session''] empty_snapshot = empty_context
      else lg_principal (example_login ''key'') = lg_principal (hd ls) \<and>
        (\<exists>a. resolve_request_authorization (\<lambda>_. []) example_auth_registry (lg_principal (example_login ''key''))
           (map lg_outcome ls) = Inr a \<and>
         request_context [example_login ''key'', example_login ''session''] empty_snapshot =
           request_context ls a)"
    by blast
  have len: "length ls = 2" using list_all2_lengthD [OF ls(1)] by simp
  then have "ls \<noteq> []" by auto
  with found obtain a where "request_context [example_login ''key'', example_login ''session''] empty_snapshot =
      request_context ls a" by (simp del: if_split) blast
  then have "request_context ls empty_snapshot =
      request_context [example_login ''key'', example_login ''session''] empty_snapshot"
    by (simp add: request_context_def)
  then show ?thesis
    using ls(2) len example_evaluates by (intro exI [of _ ls]) simp
qed

theorem policy_enforced_witness:
  "\<exists>ls. list_all2 (logs_in example_auth_registry [(''session'', ''ok''), (''key'', ''ok'')])
      [(''key'', ''ok''), (''session'', ''ok'')] ls \<and>
    policy_holds [''key'', ''session''] example_policy (set (map lg_name ls))"
proof -
  have p: "plan_authenticate example_plan" by (simp add: example_plan_def)
  have names: "map fst (rg_mechanisms example_auth_registry) = [''key'', ''session'']"
    "rg_default_names example_auth_registry = [''key'', ''session'']"
    by (simp_all add: example_auth_registry_def)
  from policy_enforced [OF example_registered example_extracted example_helper _ p example_evaluates,
      unfolded names, OF example_compiled]
  show ?thesis by (auto simp: example_policy_def)
qed

end
