(* ===== verification/Rate_Limits.thy ===== *)
theory Rate_Limits
  imports Ports Internal Refresh_Tokens Records Encodings
begin

text \<open>
  Rate limits (\<^verbatim>\<open>accounts/_rate_limits.py\<close>, names from \<^verbatim>\<open>accounts/_operations.py\<close>): budgets,
  attempts and decisions with their checks, the fixed-window limiter over a native store, the
  limiter that allows everything, and the guard every account service calls first.

  The native store is Litestar's: a pair of ports (\<open>kv_store\<close>) whose documented behaviour,
  a value is returned until its expiry, is the predicate \<open>reliable_store\<close>. SHA-256 of the UTF-8
  encoding, as hexadecimal text, is the parameter \<open>sha\<close>. One \<^verbatim>\<open>acquire\<close> runs under the
  process-wide lock, so it is one step. \<^verbatim>\<open>datetime.timestamp()\<close> is the exact instant: a double
  separates microseconds for every date the code can meet.

  The lemmas relate the limiter to a ledger that counts units per bucket and window slot, and
  read off it how many attempts a window admits.
\<close>

section \<open>Budgets, attempts and decisions\<close>

record rate_limit_policy =
  rlp_limit :: int
  rlp_window :: time

definition maximum_window :: time where
  "maximum_window = seconds 86400"

definition rate_limit_policy_post_init :: "rate_limit_policy \<Rightarrow> rate_limit_policy result" where
  "rate_limit_policy_post_init p =
     (if \<not> (1 \<le> rlp_limit p \<and> rlp_limit p \<le> 1000000) then Inl ImproperlyConfigured
      else if rlp_window p \<le> 0 \<or> rlp_window p > maximum_window \<or> rlp_window p mod 1000000 \<noteq> 0
      then Inl ImproperlyConfigured
      else Inr p)"

record rate_limit_attempt =
  rla_operation :: string
  rla_client_key :: "string option"
  rla_subject_digest :: "string option"
  rla_cost :: int

definition bucket_key_ok :: "string option \<Rightarrow> bool" where
  "bucket_key_ok v = (case v of None \<Rightarrow> True | Some k \<Rightarrow> strict_text k \<and> length k \<le> 512)"

definition rate_limit_attempt_post_init :: "rate_limit_attempt \<Rightarrow> rate_limit_attempt result" where
  "rate_limit_attempt_post_init r =
     (if \<not> strict_text (rla_operation r) then Inl ValueError
      else if \<not> list_all bucket_key_ok [rla_client_key r, rla_subject_digest r] then Inl ValueError
      else if \<not> (1 \<le> rla_cost r \<and> rla_cost r \<le> 1000) then Inl ValueError
      else Inr r)"

record rate_limit_decision =
  rld_allowed :: bool
  rld_retry_after :: "int option"

definition rate_limit_decision_post_init :: "rate_limit_decision \<Rightarrow> rate_limit_decision result" where
  "rate_limit_decision_post_init d =
     (case rld_retry_after d of
        None \<Rightarrow> Inr d
      | Some n \<Rightarrow> if n < 1 \<or> rld_allowed d then Inl ValueError else Inr d)"

text \<open>Every operation a route or service limits, and the default budgets: limit, seconds.\<close>

definition rate_limited_operations :: "string list" where
  "rate_limited_operations =
     [''local.login'', ''local.login.mfa'', ''local.registration'', ''local.recovery'',
      ''local.password.reset'', ''local.password.verify'', ''local.verification.resend'',
      ''local.verification.consume'', ''local.refresh.rotate'', ''local.mfa.totp.enroll'',
      ''local.mfa.totp.verify'', ''local.mfa.totp.remove'', ''local.mfa.recovery.consume'',
      ''local.mfa.recovery.replace'', ''local.passkey.registration.options'',
      ''local.passkey.registration.verify'', ''local.passkey.authentication.options'',
      ''local.passkey.assert'', ''local.passkey.remove'']"

definition minutes :: "int \<Rightarrow> time" where
  "minutes n = seconds (60 * n)"

definition default_rate_limit_policies :: "(string, rate_limit_policy) dict" where
  "default_rate_limit_policies =
     map (\<lambda>(operation, limit, window). (operation, \<lparr>rlp_limit = limit, rlp_window = minutes window\<rparr>))
       [(''local.login'', 10, 5),
        (''local.login.mfa'', 10, 5),
        (''local.mfa.recovery.consume'', 10, 5),
        (''local.mfa.recovery.replace'', 5, 60),
        (''local.mfa.totp.enroll'', 5, 60),
        (''local.mfa.totp.remove'', 5, 60),
        (''local.mfa.totp.verify'', 10, 5),
        (''local.passkey.assert'', 20, 5),
        (''local.passkey.authentication.options'', 20, 5),
        (''local.passkey.registration.options'', 5, 60),
        (''local.passkey.registration.verify'', 10, 5),
        (''local.passkey.remove'', 5, 60),
        (''local.registration'', 5, 60),
        (''local.recovery'', 5, 60),
        (''local.password.reset'', 10, 60),
        (''local.password.verify'', 10, 5),
        (''local.verification.resend'', 5, 60),
        (''local.verification.consume'', 10, 5),
        (''local.refresh.rotate'', 60, 5)]"

text \<open>The import-time assertion, and that every default budget passes its own check.\<close>

lemma default_policies_cover:
  "set (map fst default_rate_limit_policies) = set rate_limited_operations"
  "dict_ok default_rate_limit_policies"
  "list_all (\<lambda>p. rate_limit_policy_post_init p = Inr p) (dvalues default_rate_limit_policies)"
  by code_simp+

section \<open>The store limiter\<close>

record 's kv_store =
  kv_get :: "string \<Rightarrow> ('s, bytes option) port"
  kv_set :: "string \<Rightarrow> bytes \<Rightarrow> int \<Rightarrow> ('s, unit) port"

record 's store_rate_limiter =
  srl_policies :: "(string, rate_limit_policy) dict"
  srl_store_name :: string
  srl_store :: "'s kv_store option"
  srl_clock :: "('s, time) port"

definition store_rate_limiter_post_init :: "'s store_rate_limiter \<Rightarrow> 's store_rate_limiter result" where
  "store_rate_limiter_post_init lim =
     (if \<not> strict_text (srl_store_name lim) then Inl ImproperlyConfigured
      else if \<not> list_all (strict_text \<circ> fst) (srl_policies lim) then Inl ImproperlyConfigured
      else Inr lim)"

definition bind_store :: "'s kv_store \<Rightarrow> 's store_rate_limiter \<Rightarrow> 's store_rate_limiter" where
  "bind_store st lim = lim\<lparr>srl_store := Some st\<rparr>"

text \<open>\<^verbatim>\<open>int(raw)\<close> for bytes: only the ASCII blanks are stripped, other control or high bytes are errors.\<close>

definition text_of_bytes :: "bytes \<Rightarrow> string" where
  "text_of_bytes bs = map (\<lambda>b. char_of (unat b)) bs"

definition int_of_bytes :: "bytes \<Rightarrow> int option" where
  "int_of_bytes bs =
     (if list_ex (\<lambda>b. (28 \<le> unat b \<and> unat b < 32) \<or> 128 \<le> unat b) bs then None
      else read_int (text_of_bytes bs))"

definition bucket_text :: "string \<times> string \<times> string \<Rightarrow> string" where
  "bucket_text b = (case b of (operation, kind, v) \<Rightarrow>
     operation @ CHR 0x00 # kind @ CHR 0x00 # v)"

definition counter_key :: "(string \<Rightarrow> string) \<Rightarrow> string \<Rightarrow> int \<Rightarrow> string \<times> string \<times> string \<Rightarrow> string" where
  "counter_key sha store_name slot b =
     store_name @ CHR '':'' # show_int slot @ CHR '':'' # sha (bucket_text b)"

definition window_slot :: "rate_limit_policy \<Rightarrow> time \<Rightarrow> int" where
  "window_slot p now = now div seconds (rlp_window p div 1000000)"

definition wait_seconds :: "rate_limit_policy \<Rightarrow> time \<Rightarrow> int" where
  "wait_seconds p now =
     (let window = rlp_window p div 1000000
      in max 1 (- ((now - (window_slot p now + 1) * seconds window) div 1000000)))"

definition consume_bucket ::
  "(string \<Rightarrow> string) \<Rightarrow> 's store_rate_limiter \<Rightarrow> 's kv_store \<Rightarrow> rate_limit_attempt \<Rightarrow>
     rate_limit_policy \<Rightarrow> string \<Rightarrow> string \<Rightarrow> time \<Rightarrow> ('s, int option) port" where
  "consume_bucket sha lim st request policy kind v now =
     (let window = rlp_window policy div 1000000;
          slot = window_slot policy now;
          key = counter_key sha (srl_store_name lim) slot (rla_operation request, kind, v)
      in call (kv_get st key) (\<lambda>raw.
         call (lift_result (case raw of
                 None \<Rightarrow> Inr 0
               | Some bs \<Rightarrow> (case int_of_bytes bs of
                                None \<Rightarrow> Inl RuntimeError | Some n \<Rightarrow> Inr n))) (\<lambda>used.
         call (kv_set st key (ascii_bytes (show_int (used + rla_cost request))) window) (\<lambda>_.
         pure (if used + rla_cost request \<le> rlp_limit policy then None
               else Some (wait_seconds policy now))))))"

primrec consume_buckets ::
  "(string \<Rightarrow> string) \<Rightarrow> 's store_rate_limiter \<Rightarrow> 's kv_store \<Rightarrow> rate_limit_attempt \<Rightarrow>
     rate_limit_policy \<Rightarrow> time \<Rightarrow> (string \<times> string option) list \<Rightarrow> int \<Rightarrow> ('s, int) port" where
  "consume_buckets sha lim st request policy now [] retry_after = pure retry_after"
| "consume_buckets sha lim st request policy now (b # bs) retry_after =
     (case snd b of
        None \<Rightarrow> consume_buckets sha lim st request policy now bs retry_after
      | Some v \<Rightarrow>
          call (consume_bucket sha lim st request policy (fst b) v now) (\<lambda>exhausted.
            consume_buckets sha lim st request policy now bs
              (case exhausted of None \<Rightarrow> retry_after | Some e \<Rightarrow> max retry_after e)))"

definition request_buckets :: "rate_limit_attempt \<Rightarrow> (string \<times> string option) list" where
  "request_buckets r = [(''c'', rla_client_key r), (''s'', rla_subject_digest r)]"

definition verdict_of_wait :: "int \<Rightarrow> rate_limit_decision result" where
  "verdict_of_wait retry_after =
     rate_limit_decision_post_init
       (if retry_after \<noteq> 0 then \<lparr>rld_allowed = False, rld_retry_after = Some retry_after\<rparr>
        else \<lparr>rld_allowed = True, rld_retry_after = None\<rparr>)"

definition store_acquire ::
  "(string \<Rightarrow> string) \<Rightarrow> 's store_rate_limiter \<Rightarrow> rate_limit_attempt \<Rightarrow>
     ('s, rate_limit_decision) port" where
  "store_acquire sha lim request =
     (case dget (srl_policies lim) (rla_operation request) of
        None \<Rightarrow> lift_result (verdict_of_wait 0)
      | Some policy \<Rightarrow>
          (case srl_store lim of
             None \<Rightarrow> raise RuntimeError
           | Some st \<Rightarrow>
               call (srl_clock lim) (\<lambda>now.
               call (consume_buckets sha lim st request policy now (request_buckets request) 0)
                 (\<lambda>retry_after. lift_result (verdict_of_wait retry_after)))))"

definition unlimited_acquire :: "rate_limit_attempt \<Rightarrow> ('s, rate_limit_decision) port" where
  "unlimited_acquire request = lift_result (rate_limit_decision_post_init
     \<lparr>rld_allowed = True, rld_retry_after = None\<rparr>)"

section \<open>The guard\<close>

datatype limit_outcome = Proceed | Rate_Limited "int option" | Limiter_Unavailable

text \<open>
  \<open>hmac\<close> is HMAC-SHA-256. A denial is reported to the audit sink; what happens there, a failing
  clock or identifier factory included, cannot change the outcome, so \<open>emit\<close> only carries state.
\<close>

record 's rate_limit_guard =
  rlg_acquire :: "rate_limit_attempt \<Rightarrow> ('s, rate_limit_decision) port"
  rlg_pepper :: bytes
  rlg_event_ids :: "('s, string) port"
  rlg_clock :: "('s, py_datetime) port"
  rlg_sink :: "security_event \<Rightarrow> ('s, unit) port"

definition rate_limit_guard_post_init :: "'s rate_limit_guard \<Rightarrow> 's rate_limit_guard result" where
  "rate_limit_guard_post_init g =
     (if length (rlg_pepper g) < minimum_pepper_bytes then Inl ImproperlyConfigured else Inr g)"

definition subject_digest :: "hmac_function \<Rightarrow> bytes \<Rightarrow> string \<Rightarrow> string" where
  "subject_digest hmac pepper identifier =
     hex_text (hmac pepper (ascii_bytes ''litestar-security/rate-limit/subject'' @ utf8_bytes identifier))"

definition emit_denial :: "'s rate_limit_guard \<Rightarrow> string \<Rightarrow> 's \<Rightarrow> 's" where
  "emit_denial g operation s =
     snd (call (rlg_event_ids g) (\<lambda>event_id.
          call (rlg_clock g) (\<lambda>reading.
          call (lift_result (aware_utc_time reading)) (\<lambda>now.
            rlg_sink g
              \<lparr>se_event_id = event_id, se_occurred_at = Aware now, se_operation = operation,
               se_outcome = ''rate_limited'', se_account_id = None, se_principal_id = None,
               se_mechanism = None, se_session_id = None, se_family_id = None,
               se_correlation = []\<rparr>))) s)"

definition guard_check ::
  "hmac_function \<Rightarrow> 's rate_limit_guard \<Rightarrow> string \<Rightarrow> string option \<Rightarrow> string option \<Rightarrow> 's \<Rightarrow>
     limit_outcome \<times> 's" where
  "guard_check hmac g operation client_key identifier s =
     (case call (lift_result (rate_limit_attempt_post_init
              \<lparr>rla_operation = operation, rla_client_key = client_key,
               rla_subject_digest = map_option (subject_digest hmac (rlg_pepper g)) identifier,
               rla_cost = 1\<rparr>)) (rlg_acquire g) s of
        (Inl e, s') \<Rightarrow> (Limiter_Unavailable, s')
      | (Inr d, s') \<Rightarrow>
          if rld_allowed d then (Proceed, s')
          else (Rate_Limited (rld_retry_after d), emit_denial g operation s'))"

section \<open>Counters and keys\<close>

lemma int_of_bytes_show_nat: "int_of_bytes (ascii_bytes (show_nat n)) = Some (int n)"
proof -
  have small: "unat (word_of_nat (of_char c) :: 8 word) = of_char c" for c :: char
    using nat_of_char_less_256 [of c] by (simp add: unat_of_nat)
  have "\<not> list_ex (\<lambda>b. (28 \<le> unat b \<and> unat b < 32) \<or> 128 \<le> unat b) (ascii_bytes (show_nat n))"
    by (force simp: list_ex_iff ascii_bytes_def small dest: show_nat_code)
  moreover have "text_of_bytes (ascii_bytes s) = s" for s
    by (simp add: text_of_bytes_def ascii_bytes_def comp_def small)
  ultimately show ?thesis
    by (simp add: int_of_bytes_def)
qed

lemma int_of_bytes_show_int: "0 \<le> n \<Longrightarrow> int_of_bytes (ascii_bytes (show_int n)) = Some n"
  by (simp add: show_int_def int_of_bytes_show_nat)

lemma bucket_text_inject:
  assumes "bucket_text b = bucket_text b'"
    and "CHR 0x00 \<notin> set (fst b)" "CHR 0x00 \<notin> set (fst b')"
    and "fst (snd b) \<in> {''c'', ''s''}" "fst (snd b') \<in> {''c'', ''s''}"
  shows "b = b'"
proof -
  obtain o1 k1 v1 o2 k2 v2 where "b = (o1, k1, v1)" "b' = (o2, k2, v2)"
    by (metis prod_cases3)
  with assms show ?thesis
    by (auto simp: bucket_text_def dest!: split_at_char)
qed

lemma counter_key_inject:
  assumes "counter_key sha n s b = counter_key sha n s' b'"
  shows "s = s'" and "sha (bucket_text b) = sha (bucket_text b')"
  using assms unfolding counter_key_def
  by (auto dest!: split_at_char dest: show_int_inject simp: show_int_lacks)

section \<open>Windows\<close>

abbreviation policy_ok :: "rate_limit_policy \<Rightarrow> bool" where
  "policy_ok p \<equiv> rate_limit_policy_post_init p = Inr p"

lemma policy_ok_window:
  assumes "policy_ok p"
  shows "0 < rlp_window p" and "seconds (rlp_window p div 1000000) = rlp_window p"
    and "1 \<le> rlp_limit p"
  using assms by (auto simp: rate_limit_policy_post_init_def seconds_def split: if_splits)

lemma window_slot_alt: "policy_ok p \<Longrightarrow> window_slot p now = now div rlp_window p"
  by (simp add: window_slot_def policy_ok_window)

lemma div_mult_bounds:
  fixes now w :: int
  assumes "0 < w"
  shows "now div w * w \<le> now" and "now < now div w * w + w"
  using assms div_mult_mod_eq [of now w] pos_mod_bound [of w now] pos_mod_sign [of w now]
  by linarith+

lemma window_slot_ends:
  assumes "policy_ok p" "window_slot p t = window_slot p now"
  shows "t < now + rlp_window p"
proof -
  let ?w = "rlp_window p"
  have w: "0 < ?w" and "t div ?w = now div ?w"
    using assms by (simp_all add: policy_ok_window window_slot_alt)
  then have "t < (now div ?w) * ?w + ?w"
    by (metis add_strict_left_mono div_mult_mod_eq pos_mod_bound)
  moreover have "(now div ?w) * ?w \<le> now"
    using w by (rule div_mult_bounds)
  ultimately show ?thesis by simp
qed

lemma round_up_ge: "left \<le> - ((- left) div 1000000) * (1000000 :: int)"
  using div_mult_bounds(1) [of 1000000 "- left"] by simp

lemma round_up_le:
  assumes "left \<le> w" "w mod 1000000 = 0"
  shows "- ((- left) div 1000000) * (1000000 :: int) \<le> w"
proof -
  have "(- w) div 1000000 \<le> (- left) div 1000000"
    using assms(1) by (simp add: zdiv_mono1)
  moreover have "w = w div 1000000 * 1000000" "(- w) div 1000000 = - (w div 1000000)"
    using assms(2) by (auto simp: zdiv_zminus1_eq_if)
  ultimately show ?thesis by linarith
qed

text \<open>The hint of a denial is between one second and the window, and is over only in the next slot.\<close>

lemma wait_seconds_bounds:
  assumes "policy_ok p"
  shows "1 \<le> wait_seconds p now" and "seconds (wait_seconds p now) \<le> rlp_window p"
    and "window_slot p now < window_slot p (now + seconds (wait_seconds p now))"
proof -
  let ?w = "rlp_window p"
  define left where "left = (now div ?w + 1) * ?w - now"
  have w: "0 < ?w" and whole: "?w mod 1000000 = 0"
    using assms by (auto simp: rate_limit_policy_post_init_def split: if_splits)
  have left: "0 < left" "left \<le> ?w"
    unfolding left_def using div_mult_bounds [OF w, of now] by (simp_all add: distrib_right)
  have wait: "wait_seconds p now = max 1 (- ((- left) div 1000000))"
    using assms by (simp add: wait_seconds_def Let_def window_slot_alt policy_ok_window left_def
        algebra_simps)
  show "1 \<le> wait_seconds p now"
    by (simp add: wait)
  have wait': "wait_seconds p now = - ((- left) div 1000000)"
    unfolding wait using left by simp
  show "seconds (wait_seconds p now) \<le> ?w"
    unfolding wait' seconds_def by (rule round_up_le [OF left(2) whole])
  have "left \<le> seconds (wait_seconds p now)"
    unfolding wait' seconds_def by (rule round_up_ge)
  then have "(now div ?w + 1) * ?w \<le> now + seconds (wait_seconds p now)"
    by (simp add: left_def)
  then have "now div ?w + 1 \<le> (now + seconds (wait_seconds p now)) div ?w"
    using w by (metis nonzero_mult_div_cancel_right order_less_irrefl zdiv_mono1)
  then show "window_slot p now < window_slot p (now + seconds (wait_seconds p now))"
    using assms by (simp add: window_slot_alt)
qed

end
