(* ===== verification/Rate_Limit_Ledger.thy ===== *)
theory Rate_Limit_Ledger
  imports Rate_Limits
begin

text \<open>
  What the store limiter promises: it implements a ledger that counts, per bucket and window
  slot, the units charged, and admits an attempt iff no bucket of it exceeds the limit. The
  refinement is over every sequence of attempts and passing time; reading the ledger gives the
  number of attempts one window admits. The guard fails closed for every limiter.
\<close>

section \<open>The ledger\<close>

type_synonym bucket = "string \<times> string \<times> string"
type_synonym ledger = "bucket \<Rightarrow> int \<Rightarrow> int"

definition attempt_buckets :: "rate_limit_attempt \<Rightarrow> bucket list" where
  "attempt_buckets r =
     (case rla_client_key r of None \<Rightarrow> [] | Some v \<Rightarrow> [(rla_operation r, ''c'', v)]) @
     (case rla_subject_digest r of None \<Rightarrow> [] | Some v \<Rightarrow> [(rla_operation r, ''s'', v)])"

definition ledger_charge :: "int \<Rightarrow> int \<Rightarrow> bucket list \<Rightarrow> ledger \<Rightarrow> ledger" where
  "ledger_charge slot cost bs c = (\<lambda>b n. if n = slot \<and> b \<in> set bs then c b n + cost else c b n)"

definition admit :: rate_limit_decision where
  "admit = \<lparr>rld_allowed = True, rld_retry_after = None\<rparr>"

definition deny :: "int \<Rightarrow> rate_limit_decision" where
  "deny wait = \<lparr>rld_allowed = False, rld_retry_after = Some wait\<rparr>"

definition ledger_acquire ::
  "(string, rate_limit_policy) dict \<Rightarrow> time \<Rightarrow> rate_limit_attempt \<Rightarrow> ledger \<Rightarrow>
     rate_limit_decision \<times> ledger" where
  "ledger_acquire policies now r c =
     (case dget policies (rla_operation r) of
        None \<Rightarrow> (admit, c)
      | Some p \<Rightarrow>
          let slot = window_slot p now; c' = ledger_charge slot (rla_cost r) (attempt_buckets r) c
          in (if list_all (\<lambda>b. c' b slot \<le> rlp_limit p) (attempt_buckets r) then admit
              else deny (wait_seconds p now), c'))"

datatype traffic = Pass time | Attempt rate_limit_attempt

primrec run_limiter ::
  "(time \<Rightarrow> 's \<Rightarrow> 's) \<Rightarrow> (rate_limit_attempt \<Rightarrow> ('s, rate_limit_decision) port) \<Rightarrow> traffic list \<Rightarrow>
     's \<Rightarrow> rate_limit_decision result list" where
  "run_limiter pass acquire [] s = []"
| "run_limiter pass acquire (e # es) s =
     (case e of
        Pass d \<Rightarrow> run_limiter pass acquire es (pass d s)
      | Attempt r \<Rightarrow> (case acquire r s of (d, s') \<Rightarrow> d # run_limiter pass acquire es s'))"

primrec run_ledger ::
  "(string, rate_limit_policy) dict \<Rightarrow> traffic list \<Rightarrow> time \<Rightarrow> ledger \<Rightarrow> rate_limit_decision list" where
  "run_ledger policies [] now c = []"
| "run_ledger policies (e # es) now c =
     (case e of
        Pass d \<Rightarrow> run_ledger policies es (now + d) c
      | Attempt r \<Rightarrow>
          (case ledger_acquire policies now r c of (d, c') \<Rightarrow> d # run_ledger policies es now c'))"

section \<open>What the limiter relies on\<close>

text \<open>
  The documented behaviour of the native store, over what it would return at each later time
  (\<open>live\<close>): reading returns it and changes nothing, writing replaces it until the expiry.
\<close>

definition reliable_store ::
  "'s kv_store \<Rightarrow> ('s \<Rightarrow> time) \<Rightarrow> ('s \<Rightarrow> time \<Rightarrow> string \<Rightarrow> bytes option) \<Rightarrow> (time \<Rightarrow> 's \<Rightarrow> 's) \<Rightarrow> bool" where
  "reliable_store st now live pass \<longleftrightarrow>
     (\<forall>k s. \<exists>s'. kv_get st k s = (Inr (live s (now s) k), s') \<and> now s' = now s \<and>
        (\<forall>t\<ge>now s. live s' t = live s t)) \<and>
     (\<forall>k v w s. \<exists>s'. kv_set st k v w s = (Inr (), s') \<and> now s' = now s \<and>
        (\<forall>t\<ge>now s. live s' t = (live s t)(k := if t < now s + seconds w then Some v else None))) \<and>
     (\<forall>d s. 0 \<le> d \<longrightarrow> now (pass d s) = now s + d \<and>
        (\<forall>t\<ge>now s + d. live (pass d s) t = live s t))"

text \<open>
  A limiter with a resolved reliable store, a clock that reads the time, valid budgets, and no
  hash collision among the buckets \<open>B\<close> in use, whose operation names hold no NUL.
\<close>

definition limiter_setting ::
  "(string \<Rightarrow> string) \<Rightarrow> 's store_rate_limiter \<Rightarrow> 's kv_store \<Rightarrow> ('s \<Rightarrow> time) \<Rightarrow>
     ('s \<Rightarrow> time \<Rightarrow> string \<Rightarrow> bytes option) \<Rightarrow> (time \<Rightarrow> 's \<Rightarrow> 's) \<Rightarrow> bucket set \<Rightarrow> bool" where
  "limiter_setting sha lim st now live pass B \<longleftrightarrow>
     srl_store lim = Some st \<and> (\<forall>s. srl_clock lim s = (Inr (now s), s)) \<and>
     reliable_store st now live pass \<and>
     list_all policy_ok (dvalues (srl_policies lim)) \<and> inj_on sha (bucket_text ` B) \<and>
     (\<forall>b\<in>B. CHR 0x00 \<notin> set (fst b))"

definition counted ::
  "(string \<Rightarrow> string) \<Rightarrow> 's store_rate_limiter \<Rightarrow> ('s \<Rightarrow> time) \<Rightarrow>
     ('s \<Rightarrow> time \<Rightarrow> string \<Rightarrow> bytes option) \<Rightarrow> bucket set \<Rightarrow> 's \<Rightarrow> ledger \<Rightarrow> bool" where
  "counted sha lim now live B s c \<longleftrightarrow>
     (\<forall>b\<in>B. fst (snd b) \<in> {''c'', ''s''} \<longrightarrow> (\<forall>slot. 0 \<le> c b slot) \<and>
        (\<forall>p t. dget (srl_policies lim) (fst b) = Some p \<longrightarrow> now s \<le> t \<longrightarrow>
           live s t (counter_key sha (srl_store_name lim) (window_slot p t) b) =
             (if c b (window_slot p t) = 0 then None
              else Some (ascii_bytes (show_int (c b (window_slot p t)))))))"

definition attempt_ok :: "bucket set \<Rightarrow> traffic \<Rightarrow> bool" where
  "attempt_ok B e = (case e of Pass d \<Rightarrow> 0 \<le> d | Attempt r \<Rightarrow> 1 \<le> rla_cost r \<and> set (attempt_buckets r) \<subseteq> B)"

section \<open>Refinement\<close>

lemma setting_policy:
  "limiter_setting sha lim st now live pass B \<Longrightarrow> dget (srl_policies lim) op = Some p \<Longrightarrow> policy_ok p"
  by (auto simp: limiter_setting_def list_all_iff dest!: map_of_SomeD)

lemma setting_key_inject:
  assumes "limiter_setting sha lim st now live pass B" "b \<in> B" "b' \<in> B"
    and "fst (snd b) \<in> {''c'', ''s''}" "fst (snd b') \<in> {''c'', ''s''}"
    and "counter_key sha n slot b = counter_key sha n slot' b'"
  shows "slot = slot' \<and> b = b'"
proof -
  have "slot = slot'" "sha (bucket_text b) = sha (bucket_text b')"
    using counter_key_inject [OF assms(6)] by blast+
  moreover have "bucket_text b = bucket_text b'"
    using assms(1-3) calculation(2) by (auto simp: limiter_setting_def dest: inj_onD)
  then have "b = b'"
    using assms by (intro bucket_text_inject) (auto simp: limiter_setting_def)
  ultimately show ?thesis by blast
qed

lemma consume_bucket_counts:
  assumes set: "limiter_setting sha lim st now live pass B" and c: "counted sha lim now live B s c"
    and p: "dget (srl_policies lim) (rla_operation r) = Some p"
    and b: "b = (rla_operation r, kind, v)" "b \<in> B" "kind \<in> {''c'', ''s''}" and cost: "1 \<le> rla_cost r"
    and slot: "slot = window_slot p (now s)"
  shows "\<exists>s'. consume_bucket sha lim st r p kind v (now s) s =
      (Inr (if c b slot + rla_cost r \<le> rlp_limit p then None else Some (wait_seconds p (now s))), s') \<and>
      now s' = now s \<and> counted sha lim now live B s' (ledger_charge slot (rla_cost r) [b] c)"
proof -
  let ?key = "counter_key sha (srl_store_name lim)" and ?w = "rlp_window p div 1000000"
  have pol: "policy_ok p"
    using setting_policy [OF set p] .
  obtain s1 where s1: "kv_get st (?key slot b) s = (Inr (live s (now s) (?key slot b)), s1)"
      "now s1 = now s" "\<forall>t\<ge>now s. live s1 t = live s t"
    using set unfolding limiter_setting_def reliable_store_def by meson
  define used where "used = c b slot + rla_cost r"
  obtain s2 where s2: "kv_set st (?key slot b) (ascii_bytes (show_int used)) ?w s1 = (Inr (), s2)"
      "now s2 = now s1" "\<forall>t\<ge>now s1. live s2 t =
         (live s1 t)(?key slot b := if t < now s1 + seconds ?w then Some (ascii_bytes (show_int used)) else None)"
    using set unfolding limiter_setting_def reliable_store_def by meson
  have stored: "live s (now s) (?key slot b) =
      (if c b slot = 0 then None else Some (ascii_bytes (show_int (c b slot))))" and nonneg: "0 \<le> c b slot"
    using c b p slot by (auto simp: counted_def)
  have run: "consume_bucket sha lim st r p kind v (now s) s =
      (Inr (if used \<le> rlp_limit p then None else Some (wait_seconds p (now s))), s2)"
    using s1(1) s2(1) stored nonneg unfolding consume_bucket_def Let_def slot [symmetric] b(1) [symmetric]
    by (cases "c b slot = 0") (simp_all add: call_def used_def int_of_bytes_show_int)
  have "counted sha lim now live B s2 (ledger_charge slot (rla_cost r) [b] c)"
    unfolding counted_def
  proof (intro ballI impI conjI allI)
    fix b' n
    assume "b' \<in> B" "fst (snd b') \<in> {''c'', ''s''}"
    then show "0 \<le> ledger_charge slot (rla_cost r) [b] c b' n"
      using c cost by (auto simp: ledger_charge_def counted_def add_nonneg_nonneg)
  next
    fix b' p' t
    let ?n = "window_slot p' t"
    assume b': "b' \<in> B" "fst (snd b') \<in> {''c'', ''s''}" and p': "dget (srl_policies lim) (fst b') = Some p'"
      and t: "now s2 \<le> t"
    have old: "live s t (?key ?n b') =
        (if c b' ?n = 0 then None else Some (ascii_bytes (show_int (c b' ?n))))"
      using c b' p' t s1 s2 by (auto simp: counted_def)
    show "live s2 t (?key ?n b') =
        (if ledger_charge slot (rla_cost r) [b] c b' ?n = 0 then None
         else Some (ascii_bytes (show_int (ledger_charge slot (rla_cost r) [b] c b' ?n))))"
    proof (cases "?key ?n b' = ?key slot b")
      case True
      then have eq: "?n = slot" "b' = b"
        using setting_key_inject [OF set b'(1) b(2) b'(2)] b by auto
      then have "t < now s + seconds ?w"
        using p p' b slot window_slot_ends [OF pol, of t "now s"] policy_ok_window(2) [OF pol] by simp
      then show ?thesis
        using eq s1 s2 t nonneg cost by (simp add: ledger_charge_def used_def)
    next
      case False
      then have "ledger_charge slot (rla_cost r) [b] c b' ?n = c b' ?n"
        by (auto simp: ledger_charge_def)
      moreover have "live s2 t (?key ?n b') = live s t (?key ?n b')"
        using False s1 s2 t by simp
      ultimately show ?thesis
        using old by simp
    qed
  qed
  with run s1 s2 show ?thesis
    unfolding used_def by auto
qed

text \<open>One attempt: the limiter decides as the ledger does, and the relation is kept.\<close>

lemma wait_verdict:
  assumes "policy_ok p"
  shows "verdict_of_wait 0 = Inr admit"
    and "verdict_of_wait (wait_seconds p now) = Inr (deny (wait_seconds p now))"
    and "max 0 (wait_seconds p now) = wait_seconds p now"
  using wait_seconds_bounds(1) [OF assms, of now]
  by (simp_all add: verdict_of_wait_def rate_limit_decision_post_init_def admit_def deny_def)

lemma ledger_charge_two:
  "fst (snd a) \<noteq> fst (snd b) \<Longrightarrow>
     ledger_charge n k [b] (ledger_charge n k [a] c) = ledger_charge n k [a, b] c"
  by (rule ext)+ (auto simp: ledger_charge_def)

lemma store_acquire_refines:
  assumes set: "limiter_setting sha lim st now live pass B" and c: "counted sha lim now live B s c"
    and cost: "1 \<le> rla_cost r" and B: "set (attempt_buckets r) \<subseteq> B"
  shows "\<exists>s'. store_acquire sha lim r s =
      (Inr (fst (ledger_acquire (srl_policies lim) (now s) r c)), s') \<and> now s' = now s \<and>
      counted sha lim now live B s' (snd (ledger_acquire (srl_policies lim) (now s) r c))"
proof (cases "dget (srl_policies lim) (rla_operation r)")
  case None
  then show ?thesis
    using c by (simp add: store_acquire_def ledger_acquire_def wait_verdict verdict_of_wait_def
        rate_limit_decision_post_init_def admit_def)
next
  case (Some p)
  note pol = setting_policy [OF set Some]
  have acq: "store_acquire sha lim r s =
      call (consume_buckets sha lim st r p (now s) (request_buckets r) 0)
        (\<lambda>retry_after. lift_result (verdict_of_wait retry_after)) s"
    using set Some by (simp add: store_acquire_def limiter_setting_def call_def)
  note step = consume_bucket_counts [OF set _ Some refl _ _ cost refl]
  note simps = acq request_buckets_def call_def wait_verdict [OF pol] ledger_acquire_def Let_def Some
    attempt_buckets_def ledger_charge_def
  show ?thesis
  proof (cases "rla_client_key r")
    case client: None
    show ?thesis
    proof (cases "rla_subject_digest r")
      case None
      with client c show ?thesis by (simp add: simps)
    next
      case subject: (Some v)
      let ?b = "(rla_operation r, ''s'', v)"
      have "?b \<in> B"
        using B subject by (simp add: attempt_buckets_def client)
      from step [OF c this] obtain s1 where "consume_bucket sha lim st r p ''s'' v (now s) s =
          (Inr (if c ?b (window_slot p (now s)) + rla_cost r \<le> rlp_limit p then None
                else Some (wait_seconds p (now s))), s1)" "now s1 = now s"
          "counted sha lim now live B s1 (ledger_charge (window_slot p (now s)) (rla_cost r) [?b] c)"
        by auto
      with client subject show ?thesis by (simp add: simps)
    qed
  next
    case client: (Some w)
    let ?a = "(rla_operation r, ''c'', w)"
    have "?a \<in> B"
      using B client by (simp add: attempt_buckets_def)
    from step [OF c this] obtain s1 where s1: "consume_bucket sha lim st r p ''c'' w (now s) s =
        (Inr (if c ?a (window_slot p (now s)) + rla_cost r \<le> rlp_limit p then None
              else Some (wait_seconds p (now s))), s1)" "now s1 = now s"
        "counted sha lim now live B s1 (ledger_charge (window_slot p (now s)) (rla_cost r) [?a] c)"
      by auto
    show ?thesis
    proof (cases "rla_subject_digest r")
      case None
      with client s1 show ?thesis by (simp add: simps)
    next
      case subject: (Some v)
      let ?b = "(rla_operation r, ''s'', v)"
      have "?b \<in> B"
        using B subject by (simp add: attempt_buckets_def client)
      from step [OF s1(3) this] s1(2) obtain s2 where s2:
          "consume_bucket sha lim st r p ''s'' v (now s) s1 =
            (Inr (if c ?b (window_slot p (now s)) + rla_cost r \<le> rlp_limit p then None
                  else Some (wait_seconds p (now s))), s2)" "now s2 = now s"
          "counted sha lim now live B s2 (ledger_charge (window_slot p (now s)) (rla_cost r) [?b]
             (ledger_charge (window_slot p (now s)) (rla_cost r) [?a] c))"
        by (auto simp: ledger_charge_def)
      have "counted sha lim now live B s2
          (ledger_charge (window_slot p (now s)) (rla_cost r) (attempt_buckets r) c)"
        using s2(3) by (simp add: ledger_charge_two attempt_buckets_def client subject)
      with client subject s1 s2(1,2) show ?thesis
        by (simp add: acq request_buckets_def call_def wait_verdict [OF pol] ledger_acquire_def Let_def
            Some attempt_buckets_def) (auto simp: ledger_charge_def)
    qed
  qed
qed

text \<open>Every sequence of attempts and waits.\<close>

lemma counted_pass:
  assumes "limiter_setting sha lim st now live pass B" "counted sha lim now live B s c" "0 \<le> d"
  shows "now (pass d s) = now s + d" and "counted sha lim now live B (pass d s) c"
  using assms unfolding limiter_setting_def reliable_store_def counted_def by auto

lemma run_limiter_refines:
  assumes "limiter_setting sha lim st now live pass B" "counted sha lim now live B s c"
    and "list_all (attempt_ok B) es"
  shows "run_limiter pass (store_acquire sha lim) es s = map Inr (run_ledger (srl_policies lim) es (now s) c)"
  using assms(2,3)
proof (induction es arbitrary: s c)
  case (Cons e es)
  show ?case
  proof (cases e)
    case (Pass d)
    with Cons.prems have d: "0 \<le> d"
      by (simp add: attempt_ok_def)
    have es: "list_all (attempt_ok B) es"
      using Cons.prems by simp
    note passed = counted_pass [OF assms(1) Cons.prems(1) d]
    show ?thesis
      using Cons.IH [OF passed(2) es] Pass by (simp add: passed(1))
  next
    case (Attempt r)
    obtain d c' where dc: "ledger_acquire (srl_policies lim) (now s) r c = (d, c')"
      by fastforce
    have "1 \<le> rla_cost r" "set (attempt_buckets r) \<subseteq> B"
      using Cons.prems Attempt by (simp_all add: attempt_ok_def)
    from store_acquire_refines [OF assms(1) Cons.prems(1) this] dc
    obtain s' where "store_acquire sha lim r s = (Inr d, s')" "now s' = now s"
        "counted sha lim now live B s' c'"
      by auto
    with Cons Attempt dc show ?thesis
      by simp
  qed
qed simp

section \<open>How many attempts one window admits\<close>

text \<open>The same attempt again and again, after each of the waits \<open>ds\<close>.\<close>

definition spaced :: "time list \<Rightarrow> rate_limit_attempt \<Rightarrow> traffic list" where
  "spaced ds r = concat (map (\<lambda>d. [Pass d, Attempt r]) ds)"

lemma window_slot_between:
  assumes "policy_ok p" "window_slot p (now + (d + rest)) = window_slot p now" "0 \<le> d" "0 \<le> rest"
  shows "window_slot p (now + d) = window_slot p now"
proof -
  have "window_slot p now \<le> window_slot p (now + d)" "window_slot p (now + d) \<le> window_slot p (now + (d + rest))"
    unfolding window_slot_alt [OF assms(1)]
    using assms(3,4) policy_ok_window(1) [OF assms(1)] by (auto intro!: zdiv_mono1)
  with assms(2) show ?thesis by simp
qed

lemma run_ledger_spaced:
  assumes p: "dget policies (rla_operation r) = Some p" "policy_ok p"
    and r: "attempt_buckets r \<noteq> []" "1 \<le> rla_cost r"
  shows "list_all (\<lambda>d. 0 \<le> d) ds \<Longrightarrow> window_slot p (now + sum_list ds) = window_slot p now \<Longrightarrow>
    (\<forall>b\<in>set (attempt_buckets r). c b (window_slot p now) = u) \<Longrightarrow>
    map (\<lambda>d. d = admit) (run_ledger policies (spaced ds r) now c) =
      map (\<lambda>i. u + (int i + 1) * rla_cost r \<le> rlp_limit p) [0..<length ds]"
proof (induction ds arbitrary: now c u)
  case (Cons d ds)
  let ?slot = "window_slot p now"
  have rest: "0 \<le> sum_list ds"
    using Cons.prems(1) by (simp add: list_all_iff sum_list_nonneg)
  have here: "window_slot p (now + d) = ?slot"
    using Cons.prems rest p by (intro window_slot_between [of p now d "sum_list ds"]) auto
  define c' where "c' = ledger_charge ?slot (rla_cost r) (attempt_buckets r) c"
  have c': "\<forall>b\<in>set (attempt_buckets r). c' b ?slot = u + rla_cost r"
    using Cons.prems(3) by (simp add: c'_def ledger_charge_def)
  then have first: "ledger_acquire policies (now + d) r c =
      (if u + rla_cost r \<le> rlp_limit p then admit else deny (wait_seconds p (now + d)), c')"
    using p r by (cases "attempt_buckets r") (auto simp: ledger_acquire_def Let_def here c'_def list_all_iff)
  have IH: "map (\<lambda>d. d = admit) (run_ledger policies (spaced ds r) (now + d) c') =
      map (\<lambda>i. (u + rla_cost r) + (int i + 1) * rla_cost r \<le> rlp_limit p) [0..<length ds]"
    using Cons.prems c' here by (intro Cons.IH) (simp_all add: add.assoc)
  have run: "run_ledger policies (spaced (d # ds) r) now c =
      (if u + rla_cost r \<le> rlp_limit p then admit else deny (wait_seconds p (now + d))) #
      run_ledger policies (spaced ds r) (now + d) c'"
    by (simp add: spaced_def first)
  have "[0..<length (d # ds)] = 0 # map Suc [0..<length ds]"
    by (simp only: list.size upt_conv_Cons map_Suc_upt) simp
  moreover have "deny w \<noteq> admit" for w
    by (simp add: deny_def admit_def)
  ultimately show ?case
    unfolding run list.map IH by (simp add: comp_def algebra_simps del: upt_Suc)
qed (simp add: spaced_def)

text \<open>The first \<open>limit div cost\<close> attempts are admitted, and only those.\<close>

lemma first_ones:
  assumes "1 \<le> k" "0 \<le> limit"
  shows "map (\<lambda>i. (int i + 1) * k \<le> limit) [0..<n] =
    replicate (min n (nat (limit div k))) True @ replicate (n - nat (limit div k)) False"
proof (rule nth_equalityI)
  fix i
  assume i: "i < length (map (\<lambda>i. (int i + 1) * k \<le> limit) [0..<n])"
  have "limit div k * k \<le> limit" "limit < limit div k * k + k"
    using assms(1) by (simp_all add: div_mult_bounds)
  then have "(int i + 1) * k \<le> limit \<longleftrightarrow> int i + 1 \<le> limit div k"
    by (smt (verit) assms(1) mult_less_cancel_right mult_right_mono distrib_right mult_cancel_right1)
  also have "\<dots> \<longleftrightarrow> i < nat (limit div k)"
    using assms by linarith
  finally show "map (\<lambda>i. (int i + 1) * k \<le> limit) [0..<n] ! i =
      (replicate (min n (nat (limit div k))) True @ replicate (n - nat (limit div k)) False) ! i"
    using i by (simp add: nth_append)
qed simp

lemma window_admits:
  assumes set: "limiter_setting sha lim st now live pass B" and fresh: "counted sha lim now live B s (\<lambda>_ _. 0)"
    and p: "dget (srl_policies lim) (rla_operation r) = Some p"
    and r: "attempt_buckets r \<noteq> []" "set (attempt_buckets r) \<subseteq> B" "1 \<le> rla_cost r"
    and ds: "list_all (\<lambda>d. 0 \<le> d) ds" "window_slot p (now s + sum_list ds) = window_slot p (now s)"
  shows "map (\<lambda>d. d = Inr admit) (run_limiter pass (store_acquire sha lim) (spaced ds r) s) =
    replicate (min (length ds) (nat (rlp_limit p div rla_cost r))) True @
    replicate (length ds - nat (rlp_limit p div rla_cost r)) False"
proof -
  note pol = setting_policy [OF set p]
  have "list_all (attempt_ok B) (spaced ds r)"
    using ds(1) r by (auto simp: list_all_iff spaced_def attempt_ok_def)
  from run_limiter_refines [OF set fresh this]
  have "map (\<lambda>d. d = Inr admit) (run_limiter pass (store_acquire sha lim) (spaced ds r) s) =
      map (\<lambda>d. d = admit) (run_ledger (srl_policies lim) (spaced ds r) (now s) (\<lambda>_ _. 0))"
    by (simp add: comp_def)
  also have "\<dots> = map (\<lambda>i. (int i + 1) * rla_cost r \<le> rlp_limit p) [0..<length ds]"
    using run_ledger_spaced [OF p pol r(1,3) ds, of "\<lambda>_ _. 0" 0] by simp
  also have "\<dots> = replicate (min (length ds) (nat (rlp_limit p div rla_cost r))) True @
      replicate (length ds - nat (rlp_limit p div rla_cost r)) False"
    using policy_ok_window(3) [OF pol] by (intro first_ones r(3)) simp
  finally show ?thesis .
qed

section \<open>Every limiter, and the guard in front of it\<close>

text \<open>The part of the \<^verbatim>\<open>RateLimiter\<close> contract the guard needs: a decision is a well-formed one.\<close>

locale rate_limiter =
  fixes acquire :: "rate_limit_attempt \<Rightarrow> ('s, rate_limit_decision) port"
  assumes well_formed: "acquire r s = (Inr d, s') \<Longrightarrow> rate_limit_decision_post_init d = Inr d"
begin

lemma guard_hint:
  assumes "rlg_acquire g = acquire" "guard_check hmac g operation client identifier s = (Rate_Limited (Some n), s')"
  shows "1 \<le> n"
proof -
  obtain r d s1 where d: "acquire r s = (Inr d, s1)" "\<not> rld_allowed d" "rld_retry_after d = Some n"
    using assms by (auto simp: guard_check_def split: prod.splits sum.splits if_splits)
  with well_formed [OF d(1)] show ?thesis
    by (simp add: rate_limit_decision_post_init_def split: if_splits)
qed

end

lemma verdict_of_wait_ok: "verdict_of_wait w = Inr d \<Longrightarrow> rate_limit_decision_post_init d = Inr d"
  by (auto simp: verdict_of_wait_def rate_limit_decision_post_init_def split: option.splits if_splits)

interpretation store_limiter: rate_limiter "store_acquire sha lim"
  by unfold_locales
    (auto simp: store_acquire_def run_ok simp del: call_lift split: option.splits dest: verdict_of_wait_ok)

interpretation unlimited: rate_limiter unlimited_acquire
  by unfold_locales (auto simp: unlimited_acquire_def rate_limit_decision_post_init_def)

lemma guard_proceeds_iff:
  "guard_check hmac g operation client identifier s = (Proceed, s') \<longleftrightarrow>
     (\<exists>r d. rate_limit_attempt_post_init
         \<lparr>rla_operation = operation, rla_client_key = client,
          rla_subject_digest = map_option (subject_digest hmac (rlg_pepper g)) identifier,
          rla_cost = 1\<rparr> = Inr r \<and>
       rlg_acquire g r s = (Inr d, s') \<and> rld_allowed d)"
  unfolding guard_check_def call_lift
  by (auto split: prod.splits sum.splits if_splits)

section \<open>A store to run on\<close>

text \<open>An in-memory store with expiries, to instantiate the native store in examples.\<close>

record timed_state =
  ts_now :: time
  ts_entries :: "(string, bytes \<times> time) dict"

definition timed_live :: "timed_state \<Rightarrow> time \<Rightarrow> string \<Rightarrow> bytes option" where
  "timed_live s t k = (case dget (ts_entries s) k of
     None \<Rightarrow> None | Some (v, expires) \<Rightarrow> if t < expires then Some v else None)"

definition timed_store :: "timed_state kv_store" where
  "timed_store =
     \<lparr>kv_get = (\<lambda>k s. (Inr (timed_live s (ts_now s) k), s)),
      kv_set = (\<lambda>k v w s. (Inr (), s\<lparr>ts_entries := dset k (v, ts_now s + seconds w) (ts_entries s)\<rparr>))\<rparr>"

definition timed_pass :: "time \<Rightarrow> timed_state \<Rightarrow> timed_state" where
  "timed_pass d s = s\<lparr>ts_now := ts_now s + d\<rparr>"

lemma timed_store_reliable: "reliable_store timed_store ts_now timed_live timed_pass"
  by (auto simp: reliable_store_def timed_store_def timed_live_def timed_pass_def dget_dset fun_eq_iff)

definition example_limiter :: "timed_state store_rate_limiter" where
  "example_limiter =
     \<lparr>srl_policies = default_rate_limit_policies, srl_store_name = ''limits'',
      srl_store = Some timed_store, srl_clock = (\<lambda>s. (Inr (ts_now s), s))\<rparr>"

definition example_attempt :: rate_limit_attempt where
  "example_attempt =
     \<lparr>rla_operation = ''local.login'', rla_client_key = Some ''10.0.0.1'',
      rla_subject_digest = Some ''5e8a'', rla_cost = 4\<rparr>"

definition example_start :: timed_state where
  "example_start = \<lparr>ts_now = seconds 600, ts_entries = []\<rparr>"

lemma example_setting:
  "limiter_setting id example_limiter timed_store ts_now timed_live timed_pass
     (set (attempt_buckets example_attempt))"
  "counted id example_limiter ts_now timed_live B example_start (\<lambda>_ _. 0)"
  "dget (srl_policies example_limiter) (rla_operation example_attempt) =
     Some \<lparr>rlp_limit = 10, rlp_window = minutes 5\<rparr>"
  using timed_store_reliable default_policies_cover(3)
  by (auto simp: limiter_setting_def example_limiter_def attempt_buckets_def example_attempt_def
      counted_def timed_live_def example_start_def default_rate_limit_policies_def)

section \<open>Properties\<close>

text \<open>C33: The store limiter refines the ledger: over every sequence of attempts and passing time, with
  a native store that keeps a value until its expiry, it answers each attempt exactly as a ledger
  that counts units per operation, bucket and fixed window, and never fails.
\<close>

theorem limiter_refines_ledger:
  assumes "limiter_setting sha lim st now live pass B" "counted sha lim now live B s c"
    and "list_all (attempt_ok B) es"
  shows "run_limiter pass (store_acquire sha lim) es s = map Inr (run_ledger (srl_policies lim) es (now s) c)"
  by (rule run_limiter_refines [OF assms])

lemma limiter_refines_ledger_witness:
  "run_limiter timed_pass (store_acquire id example_limiter)
       [Attempt example_attempt, Pass (seconds 60), Attempt example_attempt, Attempt example_attempt,
        Pass (minutes 5), Attempt example_attempt] example_start =
     map Inr [admit, admit, deny 240, admit]"
proof -
  let ?es = "[Attempt example_attempt, Pass (seconds 60), Attempt example_attempt, Attempt example_attempt,
    Pass (minutes 5), Attempt example_attempt]"
  have "list_all (attempt_ok (set (attempt_buckets example_attempt))) ?es"
    by (simp add: attempt_ok_def example_attempt_def seconds_def minutes_def)
  note limiter_refines_ledger [OF example_setting(1,2) this]
  moreover have "run_ledger (srl_policies example_limiter) ?es (ts_now example_start) (\<lambda>_ _. 0) =
      [admit, admit, deny 240, admit]"
    by code_simp
  ultimately show ?thesis by simp
qed

text \<open>C34: Within one window, a repeated attempt of cost \<open>k\<close> under a limit \<open>n\<close> on fresh buckets is
  admitted the first \<open>n div k\<close> times, whatever the waits in between, and never again.
\<close>

theorem window_admits_limit:
  assumes "limiter_setting sha lim st now live pass B" "counted sha lim now live B s (\<lambda>_ _. 0)"
    and "dget (srl_policies lim) (rla_operation r) = Some p"
    and "attempt_buckets r \<noteq> []" "set (attempt_buckets r) \<subseteq> B" "1 \<le> rla_cost r"
    and "list_all (\<lambda>d. 0 \<le> d) ds" "window_slot p (now s + sum_list ds) = window_slot p (now s)"
  shows "map (\<lambda>d. d = Inr admit) (run_limiter pass (store_acquire sha lim) (spaced ds r) s) =
    replicate (min (length ds) (nat (rlp_limit p div rla_cost r))) True @
    replicate (length ds - nat (rlp_limit p div rla_cost r)) False"
  by (rule window_admits [OF assms])

lemma window_admits_limit_witness:
  "map (\<lambda>d. d = Inr admit)
     (run_limiter timed_pass (store_acquire id example_limiter)
        (spaced [0, seconds 7, 0, seconds 30] example_attempt) example_start) =
   [True, True, False, False]"
proof -
  have "attempt_buckets example_attempt \<noteq> []" "1 \<le> rla_cost example_attempt"
    by (simp_all add: attempt_buckets_def example_attempt_def)
  moreover have "list_all (\<lambda>d. 0 \<le> d) [0, seconds 7, 0, seconds 30]"
    "window_slot \<lparr>rlp_limit = 10, rlp_window = minutes 5\<rparr>
       (ts_now example_start + sum_list [0, seconds 7, 0, seconds 30]) =
     window_slot \<lparr>rlp_limit = 10, rlp_window = minutes 5\<rparr> (ts_now example_start)"
    by (simp_all add: seconds_def minutes_def window_slot_def example_start_def)
  ultimately show ?thesis
    using window_admits_limit [OF example_setting, of "[0, seconds 7, 0, seconds 30]"]
    by (simp add: example_attempt_def numeral_2_eq_2)
qed

end
