(* ===== verification/Receipts.thy ===== *)
theory Receipts
  imports Ports Encodings Refresh_Commands
begin

text \<open>
  Sealed refresh receipts (\<^verbatim>\<open>accounts/_receipts.py\<close>): an AEAD-sealed copy of a rotation response,
  bound through its associated data to token, family, account, epoch, idempotency key, expiry and
  key. AES-256-GCM is a pair of functions (\<open>aead\<close>, a failed decryption is \<^const>\<open>None\<close>) and
  \<^verbatim>\<open>json.loads\<close> a function to \<open>json_value\<close>; what is used of them is stated where it is used.
\<close>

section \<open>Values\<close>

record receipt_context =
  rcx_token_id :: string
  rcx_family_id :: string
  rcx_account_id :: string
  rcx_security_epoch :: int
  rcx_idempotency_digest :: "bytes option"

definition receipt_context_post_init :: "receipt_context \<Rightarrow> receipt_context result" where
  "receipt_context_post_init c =
     (if \<not> valid_identifier (Some ''rt_'') (rcx_token_id c) \<or>
         \<not> valid_identifier (Some ''rf_'') (rcx_family_id c) \<or>
         \<not> strict_context_text (rcx_account_id c) \<or>
         \<not> valid_security_epoch (rcx_security_epoch c) \<or>
         (case rcx_idempotency_digest c of None \<Rightarrow> False | Some d \<Rightarrow> length d \<noteq> digest_bytes)
      then Inl ValueError else Inr c)"

record receipt_key =
  rk_key_id :: string
  rk_key :: bytes

definition key_id_char :: "char \<Rightarrow> bool" where
  "key_id_char c \<longleftrightarrow>
     (let n = (of_char c :: nat)
      in (48 \<le> n \<and> n \<le> 57) \<or> (65 \<le> n \<and> n \<le> 90) \<or> (97 \<le> n \<and> n \<le> 122) \<or> n = 95 \<or> n = 45)"

definition receipt_key_post_init :: "receipt_key \<Rightarrow> receipt_key result" where
  "receipt_key_post_init k =
     (if \<not> strict_context_text (rk_key_id k) \<or> \<not> list_all key_id_char (rk_key_id k) \<or>
         length (rk_key k) \<noteq> 32
      then Inl ImproperlyConfigured else Inr k)"

record aead =
  aead_encrypt :: "bytes \<Rightarrow> bytes \<Rightarrow> bytes \<Rightarrow> bytes \<Rightarrow> bytes"
  aead_decrypt :: "bytes \<Rightarrow> bytes \<Rightarrow> bytes \<Rightarrow> bytes \<Rightarrow> bytes option"

record 's receipt_sealer =
  rsl_active_key :: receipt_key
  rsl_retained_keys :: "receipt_key list"
  rsl_entropy :: "nat \<Rightarrow> ('s, bytes) port"

definition sealer_keys :: "'s receipt_sealer \<Rightarrow> (string, receipt_key) dict" where
  "sealer_keys sl = map (\<lambda>k. (rk_key_id k, k)) (rsl_active_key sl # rsl_retained_keys sl)"

definition receipt_sealer_post_init :: "'s receipt_sealer \<Rightarrow> 's receipt_sealer result" where
  "receipt_sealer_post_init sl =
     (if \<not> dict_ok (sealer_keys sl) then Inl ImproperlyConfigured else Inr sl)"

section \<open>Sealing\<close>

definition receipt_expiry :: "py_datetime \<Rightarrow> int result" where
  "receipt_expiry v = bind (aware_utc_time v) (\<lambda>t. if t < 1 then Inl ValueError else Inr t)"

definition receipt_aad_text :: "receipt_context \<Rightarrow> int \<Rightarrow> string \<Rightarrow> string" where
  "receipt_aad_text c expiry key_id = json_object
     [(''account_id'', json_string (rcx_account_id c)),
      (''expiry'', show_int expiry),
      (''family_id'', json_string (rcx_family_id c)),
      (''idempotency'', case rcx_idempotency_digest c of
          None \<Rightarrow> ''null'' | Some d \<Rightarrow> json_string (hex_text d)),
      (''key_id'', json_string key_id),
      (''security_epoch'', show_int (rcx_security_epoch c)),
      (''token_id'', json_string (rcx_token_id c)),
      (''version'', json_string ''rr1'')]"

definition receipt_aad :: "receipt_context \<Rightarrow> int \<Rightarrow> string \<Rightarrow> bytes" where
  "receipt_aad c expiry key_id = ascii_bytes (receipt_aad_text c expiry key_id)"

definition receipt_payload :: "token_pair \<Rightarrow> string" where
  "receipt_payload p = json_object
     [(''access_token'', json_string (pair_access_token p)),
      (''expires_in'', show_int (pair_expires_in p)),
      (''refresh_token'', json_string (pair_refresh_token p)),
      (''token_type'', json_string ''Bearer'')]"

definition envelope :: "string \<Rightarrow> int \<Rightarrow> bytes \<Rightarrow> bytes \<Rightarrow> string" where
  "envelope key_id expiry nonce ciphertext =
     ''rr1'' @ CHR ''.'' # key_id @ CHR ''.'' # show_int expiry @ CHR ''.'' #
     encode_random nonce @ CHR ''.'' # encode_random ciphertext"

definition seal ::
  "aead \<Rightarrow> 's receipt_sealer \<Rightarrow> token_pair \<Rightarrow> receipt_context \<Rightarrow> py_datetime \<Rightarrow> ('s, bytes) port" where
  "seal gcm sl response bound expires_at =
     call (lift_result (receipt_expiry expires_at)) (\<lambda>expiry.
     call (rsl_entropy sl 12) (\<lambda>nonce.
       if length nonce \<noteq> 12 then raise RuntimeError
       else
         let key = rsl_active_key sl;
             ciphertext = aead_encrypt gcm (rk_key key) nonce (ascii_bytes (receipt_payload response))
               (receipt_aad bound expiry (rk_key_id key))
         in pure (ascii_bytes (envelope (rk_key_id key) expiry nonce ciphertext))))"

section \<open>Unsealing\<close>

definition ascii_text :: "bytes \<Rightarrow> string option" where
  "ascii_text bs =
     (if list_all (\<lambda>b. unat b < 128) bs then Some (map (\<lambda>b. char_of (unat b)) bs) else None)"

text \<open>\<^verbatim>\<open>isdecimal\<close>, \<^verbatim>\<open>int\<close> and back; CPython refuses to read more than 4300 digits.\<close>

definition canonical_decimal :: "string \<Rightarrow> int option" where
  "canonical_decimal t =
     (if t = [] \<or> length t > 4300 \<or> \<not> list_all (\<lambda>c. digit_value c \<noteq> None) t then None
      else case read_nat t of
        None \<Rightarrow> None
      | Some n \<Rightarrow> if show_nat n \<noteq> t then None else Some (int n))"

definition parse_receipt_envelope :: "bytes \<Rightarrow> (string \<times> int \<times> bytes \<times> bytes) option" where
  "parse_receipt_envelope receipt =
     (if receipt = [] \<or> length receipt > maximum_receipt_bytes then None
      else case ascii_text receipt of
        None \<Rightarrow> None
      | Some t \<Rightarrow>
          (case split_on (CHR ''.'') t of
             [version, key_id, expiry_text, nonce_text, ciphertext_text] \<Rightarrow>
               if version \<noteq> ''rr1'' \<or> \<not> strict_context_text key_id \<or> \<not> list_all key_id_char key_id
               then None
               else (case canonical_decimal expiry_text of
                   None \<Rightarrow> None
                 | Some expiry \<Rightarrow>
                     (case (decode_random nonce_text 12, decode_random_unbounded ciphertext_text) of
                        (Some nonce, Inr ciphertext) \<Rightarrow>
                          if ciphertext = [] then None else Some (key_id, expiry, nonce, ciphertext)
                      | _ \<Rightarrow> None))
           | _ \<Rightarrow> None))"

datatype json_value =
    JNull
  | JBool bool
  | JInt int
  | JFloat string
  | JString string
  | JArray "json_value list"
  | JObject "(string, json_value) dict"

type_synonym json_loads = "bytes \<Rightarrow> json_value result"

definition payload_pair :: "json_value \<Rightarrow> token_pair option" where
  "payload_pair v =
     (case v of
        JObject entries \<Rightarrow>
          if set (map fst entries) \<noteq> {''access_token'', ''expires_in'', ''refresh_token'', ''token_type''}
          then None
          else (case (dget entries ''token_type'', dget entries ''access_token'',
                      dget entries ''refresh_token'', dget entries ''expires_in'') of
              (Some (JString token_type), Some (JString access), Some (JString refresh), Some (JInt n)) \<Rightarrow>
                if token_type \<noteq> ''Bearer'' then None
                else (case token_pair_post_init
                    \<lparr>pair_access_token = access, pair_refresh_token = refresh, pair_expires_in = n\<rparr> of
                    Inl _ \<Rightarrow> None | Inr p \<Rightarrow> Some p)
            | _ \<Rightarrow> None)
      | _ \<Rightarrow> None)"

definition unseal ::
  "aead \<Rightarrow> json_loads \<Rightarrow> 's receipt_sealer \<Rightarrow> bytes \<Rightarrow> receipt_context \<Rightarrow> py_datetime \<Rightarrow>
     token_pair option" where
  "unseal gcm loads sl sealed bound now =
     (case aware_utc_time now of
        Inl _ \<Rightarrow> None
      | Inr current \<Rightarrow>
          (case parse_receipt_envelope sealed of
             None \<Rightarrow> None
           | Some (key_id, expiry, nonce, ciphertext) \<Rightarrow>
               (case dget (sealer_keys sl) key_id of
                  None \<Rightarrow> None
                | Some key \<Rightarrow>
                    if current \<ge> expiry then None
                    else (case aead_decrypt gcm (rk_key key) nonce ciphertext
                             (receipt_aad bound expiry key_id) of
                        None \<Rightarrow> None
                      | Some plaintext \<Rightarrow>
                          (case loads plaintext of Inl _ \<Rightarrow> None | Inr v \<Rightarrow> payload_pair v)))))"

section \<open>The associated data says what it binds\<close>

definition idempotency_text :: "bytes option \<Rightarrow> string" where
  "idempotency_text d = (case d of None \<Rightarrow> ''null'' | Some b \<Rightarrow> json_string (hex_text b))"

lemma idempotency_text_eq [simp]:
  "idempotency_text d @ x = idempotency_text e @ y \<longleftrightarrow> d = e \<and> x = y"
  by (auto simp: idempotency_text_def json_string_def split: option.splits
      dest: hex_text_inject json_string_inject [unfolded json_string_def, simplified])

lemma receipt_aad_text_alt:
  "receipt_aad_text c expiry key_id =
     ''{'' @ json_string ''account_id'' @ '':'' @ json_string (rcx_account_id c) @ CHR '','' #
     json_string ''expiry'' @ '':'' @ show_int expiry @ CHR '','' #
     json_string ''family_id'' @ '':'' @ json_string (rcx_family_id c) @ CHR '','' #
     json_string ''idempotency'' @ '':'' @ idempotency_text (rcx_idempotency_digest c) @ CHR '','' #
     json_string ''key_id'' @ '':'' @ json_string key_id @ CHR '','' #
     json_string ''security_epoch'' @ '':'' @ show_int (rcx_security_epoch c) @ CHR '','' #
     json_string ''token_id'' @ '':'' @ json_string (rcx_token_id c) @ CHR '','' #
     json_string ''version'' @ '':'' @ json_string ''rr1'' @ ''}''"
  by (simp add: receipt_aad_text_def json_object_def idempotency_text_def)

lemma receipt_aad_inject:
  assumes "receipt_aad c e k = receipt_aad c' e' k'"
  shows "c = c' \<and> e = e' \<and> k = k'"
proof -
  have eq: "receipt_aad_text c e k = receipt_aad_text c' e' k'"
    using assms by (simp add: receipt_aad_def)
  show ?thesis
    using eq unfolding receipt_aad_text_alt by simp
qed

section \<open>Envelopes parse back\<close>

lemma ascii_text_bytes: "is_ascii t \<Longrightarrow> ascii_text (ascii_bytes t) = Some t"
proof (induction t)
  case (Cons c t)
  have "unat (word_of_nat (of_char c) :: 8 word) = of_char c"
    by (rule unat_ascii)
  with Cons show ?case
    by (simp add: ascii_text_def ascii_bytes_def is_ascii_def split: if_splits)
qed (simp add: ascii_text_def ascii_bytes_def)

lemma canonical_decimal_show:
  assumes "length (show_nat n) \<le> 4300"
  shows "canonical_decimal (show_nat n) = Some (int n)"
proof -
  have "list_all (\<lambda>c. digit_value c \<noteq> None) (show_nat n)"
    using show_nat_code [of _ n] by (force simp: list_all_iff digit_value_def Let_def)
  then show ?thesis
    using assms by (simp add: canonical_decimal_def)
qed

lemma is_ascii_encode_random: "is_ascii (encode_random bs)"
  by (simp add: encode_random_core is_ascii_core)

lemma is_ascii_append [simp]: "is_ascii (s @ t) \<longleftrightarrow> is_ascii s \<and> is_ascii t"
  by (simp add: is_ascii_def)

lemma is_ascii_Cons [simp]: "is_ascii (c # t) \<longleftrightarrow> (of_char c :: nat) < 128 \<and> is_ascii t"
  by (simp add: is_ascii_def)

lemma is_ascii_show_nat: "is_ascii (show_nat n)"
  using show_nat_code [of _ n] by (force simp: is_ascii_def list_all_iff)

lemma key_id_chars:
  assumes "list_all key_id_char k"
  shows "is_ascii k" and "CHR ''.'' \<notin> set k"
proof -
  have "key_id_char c \<Longrightarrow> (of_char c :: nat) < 128 \<and> c \<noteq> CHR ''.''" for c
    by (auto simp: key_id_char_def Let_def)
  then show "is_ascii k" "CHR ''.'' \<notin> set k"
    using assms by (auto simp: is_ascii_def list_all_iff)
qed

lemma encode_random_no_dot: "CHR ''.'' \<notin> set (encode_random bs)"
  using encode_random_chars by blast

lemma parse_envelope:
  assumes k: "strict_context_text k" "list_all key_id_char k" and e: "0 \<le> e" "length (show_int e) \<le> 4300"
    and n: "length nonce = 12" and c: "c \<noteq> []" and len: "length (envelope k e nonce c) \<le> maximum_receipt_bytes"
  shows "parse_receipt_envelope (ascii_bytes (envelope k e nonce c)) = Some (k, e, nonce, c)"
proof -
  have int: "show_int e = show_nat (nat e)" "length (show_nat (nat e)) \<le> 4300"
    using e by (simp_all add: show_int_def)
  have "is_ascii (envelope k e nonce c)"
    using key_id_chars [OF k(2)] is_ascii_show_nat by (simp add: envelope_def is_ascii_encode_random int)
  moreover have "split_on (CHR ''.'') (envelope k e nonce c) =
      [''rr1'', k, show_int e, encode_random nonce, encode_random c]"
    unfolding envelope_def using key_id_chars [OF k(2)]
    by (simp add: split_on_append [of _ "''rr1''", simplified] split_on_append split_on_none
        show_int_lacks encode_random_no_dot)
  moreover have "decode_random (encode_random nonce) 12 = Some nonce"
    "decode_random_unbounded (encode_random c) = Inr c" "canonical_decimal (show_int e) = Some e"
    using n e canonical_decimal_show [OF int(2)]
    by (simp_all add: decode_random_iff decode_random_unbounded_iff int(1))
  moreover have "ascii_bytes (envelope k e nonce c) \<noteq> []"
    "length (ascii_bytes (envelope k e nonce c)) = length (envelope k e nonce c)"
    by (simp_all add: ascii_bytes_def envelope_def)
  ultimately show ?thesis
    using k c len by (simp add: parse_receipt_envelope_def ascii_text_bytes)
qed

section \<open>A sealed receipt fits\<close>

lemma json_char_plain: "32 \<le> (of_char c :: nat) \<Longrightarrow> (of_char c :: nat) \<le> 126 \<Longrightarrow>
    (of_char c :: nat) \<noteq> 34 \<Longrightarrow> (of_char c :: nat) \<noteq> 92 \<Longrightarrow> json_char c = [c]"
  by (simp add: json_char_def Let_def)

lemma json_char_b64: "c \<in> set (encode_random bs) \<Longrightarrow> json_char c = [c]"
proof -
  assume "c \<in> set (encode_random bs)"
  then obtain n where n: "n < 64" "c = b64_char n"
    using b64_core_chars [of c bs] by (auto simp: encode_random_core)
  note code = b64_char_code [OF n(1)]
  have "32 \<le> (of_char c :: nat)" "(of_char c :: nat) \<le> 126" "(of_char c :: nat) \<noteq> 34" "(of_char c :: nat) \<noteq> 92"
    using n(1) unfolding n(2) code by presburger+
  then show "json_char c = [c]"
    by (rule json_char_plain)
qed

lemma json_string_plain:
  assumes "\<And>c. c \<in> set s \<Longrightarrow> json_char c = [c]"
  shows "json_string s = CHR 0x22 # s @ [CHR 0x22]"
proof -
  have "concat (map json_char s) = s"
    using assms by (induction s) simp_all
  then show ?thesis by (simp add: json_string_def)
qed

lemma split_on_chars: "c \<in> set s \<Longrightarrow> c \<noteq> sep \<Longrightarrow> \<exists>w\<in>set (split_on sep s). c \<in> set w"
proof (induction s)
  case (Cons d s)
  then show ?case
    by (cases "split_on sep s") (auto simp: split_on_nonempty)
qed simp

lemma compact_jwt_plain:
  assumes "valid_compact_jwt v"
  shows "json_string v = CHR 0x22 # v @ [CHR 0x22]" and "length v \<le> 16384"
proof -
  have plain: "json_char c = [c]" if cv: "c \<in> set v" for c
  proof (cases "c = CHR ''.''")
    case True
    then show ?thesis by (simp add: json_char_def)
  next
    case False
    then obtain w where w: "w \<in> set (split_on (CHR ''.'') v)" "c \<in> set w"
      using split_on_chars [OF cv False] by blast
    have "\<exists>b. decode_random_unbounded w = Inr b"
      using assms w(1) by (cases "decode_random_unbounded w")
        (auto simp: valid_compact_jwt_def Let_def list_all_iff split: if_splits)
    then obtain b where "w = encode_random b"
      by (auto simp: decode_random_unbounded_iff)
    then show ?thesis
      using w(2) json_char_b64 by blast
  qed
  then show "json_string v = CHR 0x22 # v @ [CHR 0x22]"
    by (rule json_string_plain)
  show "length v \<le> 16384"
    using assms by (auto simp: valid_compact_jwt_def split: if_splits)
qed

lemma refresh_token_plain:
  assumes "parse_refresh_token v \<noteq> None"
  shows "json_string v = CHR 0x22 # v @ [CHR 0x22]" and "length v = 69"
proof -
  obtain t sec where p: "parse_refresh_token v = Some (t, sec)"
    using assms by auto
  then have t: "valid_identifier (Some ''rt_'') t" and v: "v = t @ ''.'' @ encode_random sec"
      "length sec = secret_bytes"
    by (simp_all add: parse_refresh_token_iff)
  obtain b where b: "t = ''rt_'' @ encode_random b" "length b = lookup_bytes"
    using t by (auto simp: valid_identifier_prefix_iff)
  have "json_char c = [c]" if "c \<in> set v" for c
    using that json_char_b64 [of c b] json_char_b64 [of c sec]
    unfolding v b by (auto simp: json_char_plain)
  then show "json_string v = CHR 0x22 # v @ [CHR 0x22]"
    by (rule json_string_plain)
  show "length v = 69"
    using v b by (simp add: length_encode_random width_defs)
qed

lemma payload_length:
  assumes "token_pair_post_init p = Inr p"
  shows "length (receipt_payload p) \<le> 16531"
proof -
  have p: "valid_compact_jwt (pair_access_token p)" "parse_refresh_token (pair_refresh_token p) \<noteq> None"
    "30 \<le> pair_expires_in p" "pair_expires_in p \<le> 3600"
    using assms by (auto simp: token_pair_post_init_def split: if_splits)
  have "length (show_int (pair_expires_in p)) \<le> 4"
    using p(3,4) length_show_nat [of "nat (pair_expires_in p)" 3] by (simp add: show_int_def nat_less_iff)
  moreover have keys: "json_string ''access_token'' = CHR 0x22 # ''access_token'' @ [CHR 0x22]"
    "json_string ''expires_in'' = CHR 0x22 # ''expires_in'' @ [CHR 0x22]"
    "json_string ''refresh_token'' = CHR 0x22 # ''refresh_token'' @ [CHR 0x22]"
    "json_string ''token_type'' = CHR 0x22 # ''token_type'' @ [CHR 0x22]"
    "json_string ''Bearer'' = CHR 0x22 # ''Bearer'' @ [CHR 0x22]"
    by (code_simp)+
  ultimately show ?thesis
    using compact_jwt_plain [OF p(1)] refresh_token_plain [OF p(2)]
    by (simp add: receipt_payload_def json_object_def)
qed

lemma envelope_fits:
  assumes "length k \<le> 512" "0 \<le> e" "e < 10 ^ 18" "length nonce = 12" "length c \<le> 16547"
  shows "length (envelope k e nonce c) \<le> maximum_receipt_bytes" and "length (show_int e) \<le> 18"
proof -
  show e: "length (show_int e) \<le> 18"
    using assms(2,3) length_show_nat [of "nat e" 17] by (simp add: show_int_def nat_less_iff)
  have "length (encode_random c) \<le> 22063"
    using assms(5) by (simp add: length_encode_random)
  then show "length (envelope k e nonce c) \<le> maximum_receipt_bytes"
    using e assms(1,4) by (simp add: envelope_def length_encode_random maximum_receipt_bytes_def)
qed

section \<open>Sealing and unsealing\<close>

text \<open>What the code relies on: decryption undoes encryption, which adds a 16-byte tag.\<close>

definition aead_inverts :: "aead \<Rightarrow> bool" where
  "aead_inverts gcm \<longleftrightarrow>
     (\<forall>k n p a. aead_decrypt gcm k n (aead_encrypt gcm k n p a) a = Some p \<and>
        length (aead_encrypt gcm k n p a) = length p + 16)"

text \<open>The idealised authenticity of AES-GCM: only what was encrypted with these data opens.\<close>

definition aead_authentic :: "aead \<Rightarrow> bool" where
  "aead_authentic gcm \<longleftrightarrow>
     (\<forall>k n c a p. aead_decrypt gcm k n c a = Some p \<longrightarrow> c = aead_encrypt gcm k n p a) \<and>
     (\<forall>k n p a p' a'. aead_encrypt gcm k n p a = aead_encrypt gcm k n p' a' \<longrightarrow> p = p' \<and> a = a')"

text \<open>\<^verbatim>\<open>json.loads\<close> reads back what \<^verbatim>\<open>json.dumps\<close> wrote.\<close>

definition loads_payload :: "json_loads \<Rightarrow> bool" where
  "loads_payload loads \<longleftrightarrow>
     (\<forall>p. token_pair_post_init p = Inr p \<longrightarrow> loads (ascii_bytes (receipt_payload p)) = Inr (JObject
        [(''access_token'', JString (pair_access_token p)), (''expires_in'', JInt (pair_expires_in p)),
         (''refresh_token'', JString (pair_refresh_token p)), (''token_type'', JString ''Bearer'')]))"

definition sealer_ok :: "'s receipt_sealer \<Rightarrow> bool" where
  "sealer_ok sl \<longleftrightarrow> receipt_sealer_post_init sl = Inr sl \<and>
     receipt_key_post_init (rsl_active_key sl) = Inr (rsl_active_key sl)"

lemma sealer_okD:
  assumes "sealer_ok sl"
  shows "strict_context_text (rk_key_id (rsl_active_key sl))"
    and "list_all key_id_char (rk_key_id (rsl_active_key sl))"
    and "length (rk_key_id (rsl_active_key sl)) \<le> 512"
    and "dget (sealer_keys sl) (rk_key_id (rsl_active_key sl)) = Some (rsl_active_key sl)"
proof -
  let ?k = "rk_key_id (rsl_active_key sl)"
  show k: "strict_context_text ?k" "list_all key_id_char ?k"
    using assms by (auto simp: sealer_ok_def receipt_key_post_init_def split: if_splits)
  have "length s \<le> utf8_length s" for s
    by (induction s) (auto simp: utf8_length_def)
  then show "length ?k \<le> 512"
    using k(1) by (metis strict_context_text_def le_trans)
  show "dget (sealer_keys sl) ?k = Some (rsl_active_key sl)"
    by (simp add: sealer_keys_def)
qed

lemma seal_Inr:
  "seal gcm sl p c t s = (Inr b, s') \<longleftrightarrow>
     (\<exists>expiry nonce. receipt_expiry t = Inr expiry \<and> rsl_entropy sl 12 s = (Inr nonce, s') \<and> length nonce = 12 \<and>
        b = ascii_bytes (envelope (rk_key_id (rsl_active_key sl)) expiry nonce
          (aead_encrypt gcm (rk_key (rsl_active_key sl)) nonce (ascii_bytes (receipt_payload p))
             (receipt_aad c expiry (rk_key_id (rsl_active_key sl))))))"
  unfolding seal_def by (auto simp: run_ok Let_def simp del: call_lift split: if_splits)

lemma sealed_parses:
  assumes seal: "seal gcm sl p c t s = (Inr b, s')" and ok: "sealer_ok sl"
    and pair: "token_pair_post_init p = Inr p" and small: "receipt_expiry t = Inr e" "e < 10 ^ 18"
    and len: "\<And>k n p a. length (aead_encrypt gcm k n p a) = length p + 16"
  shows "\<exists>nonce. parse_receipt_envelope b = Some (rk_key_id (rsl_active_key sl), e, nonce,
      aead_encrypt gcm (rk_key (rsl_active_key sl)) nonce (ascii_bytes (receipt_payload p))
        (receipt_aad c e (rk_key_id (rsl_active_key sl))))"
    and "b \<noteq> []" and "length b \<le> maximum_receipt_bytes"
proof -
  let ?k = "rsl_active_key sl"
  obtain nonce where n: "length nonce = 12" and b: "b = ascii_bytes (envelope (rk_key_id ?k) e nonce
      (aead_encrypt gcm (rk_key ?k) nonce (ascii_bytes (receipt_payload p)) (receipt_aad c e (rk_key_id ?k))))"
    using seal small(1) by (auto simp: seal_Inr)
  let ?c = "aead_encrypt gcm (rk_key ?k) nonce (ascii_bytes (receipt_payload p)) (receipt_aad c e (rk_key_id ?k))"
  have e: "0 \<le> e"
    using small(1) by (auto simp: receipt_expiry_def result_simps split: if_splits)
  have c: "length ?c \<le> 16547" "?c \<noteq> []"
    using len [of "rk_key ?k" nonce "ascii_bytes (receipt_payload p)"] payload_length [OF pair]
    by (auto simp: ascii_bytes_def simp flip: length_greater_0_conv)
  note fits = envelope_fits [OF sealer_okD(3) [OF ok] e small(2) n c(1)]
  show "\<exists>nonce. parse_receipt_envelope b = Some (rk_key_id (rsl_active_key sl), e, nonce,
      aead_encrypt gcm (rk_key (rsl_active_key sl)) nonce (ascii_bytes (receipt_payload p))
        (receipt_aad c e (rk_key_id (rsl_active_key sl))))"
    unfolding b using parse_envelope [OF sealer_okD(1,2) [OF ok] e _ n c(2) fits(1)] fits(2) by auto
  show "b \<noteq> []" "length b \<le> maximum_receipt_bytes"
    using fits(1) unfolding b by (simp_all add: ascii_bytes_def envelope_def)
qed

lemma payload_pair_payload:
  assumes "token_pair_post_init p = Inr p"
  shows "payload_pair (JObject
    [(''access_token'', JString (pair_access_token p)), (''expires_in'', JInt (pair_expires_in p)),
     (''refresh_token'', JString (pair_refresh_token p)), (''token_type'', JString ''Bearer'')]) = Some p"
  using assms by (cases p) (auto simp: payload_pair_def)

lemma unseal_sealed:
  assumes seal: "seal gcm sl p c t s = (Inr b, s')" and ok: "sealer_ok sl"
    and pair: "token_pair_post_init p = Inr p" and small: "receipt_expiry t = Inr e" "e < 10 ^ 18"
    and gcm: "aead_inverts gcm" and loads: "loads_payload loads"
  shows "unseal gcm loads sl b c (Aware now) = (if now < e then Some p else None)"
proof -
  have len: "length (aead_encrypt gcm k n p a) = length p + 16" for k n p a
    using gcm by (simp add: aead_inverts_def)
  obtain nonce where "parse_receipt_envelope b = Some (rk_key_id (rsl_active_key sl), e, nonce,
      aead_encrypt gcm (rk_key (rsl_active_key sl)) nonce (ascii_bytes (receipt_payload p))
        (receipt_aad c e (rk_key_id (rsl_active_key sl))))"
    using sealed_parses(1) [OF seal ok pair small len] by blast
  then show ?thesis
    using gcm loads pair sealer_okD(4) [OF ok] payload_pair_payload [OF pair]
    by (simp add: unseal_def aead_inverts_def loads_payload_def)
qed

section \<open>A receipt opens only where it was sealed\<close>

lemma split_on_join: "concat (map ((#) sep) (split_on sep t)) = sep # t"
proof (induction t)
  case (Cons c t)
  then show ?case
    by (cases "split_on sep t") (auto simp: split_on_nonempty)
qed simp

lemma canonical_decimal_show_int: "canonical_decimal t = Some e \<Longrightarrow> t = show_int e"
  by (auto simp: canonical_decimal_def show_int_def split: if_splits option.splits)

lemma ascii_text_Some: "ascii_text b = Some t \<Longrightarrow> b = ascii_bytes t"
  by (auto simp: ascii_text_def ascii_bytes_def comp_def split: if_splits)

lemma parse_receipt_envelope_Some:
  assumes "parse_receipt_envelope b = Some (k, e, nonce, c)"
  shows "b = ascii_bytes (envelope k e nonce c)" and "CHR ''.'' \<notin> set k"
proof -
  obtain t v et nt ct where t: "ascii_text b = Some t" and split: "split_on (CHR ''.'') t = [v, k, et, nt, ct]"
    and "v = ''rr1''" "list_all key_id_char k" "canonical_decimal et = Some e"
    "decode_random nt 12 = Some nonce" "decode_random_unbounded ct = Inr c"
    using assms unfolding parse_receipt_envelope_def
    by (auto split: if_splits option.splits list.splits sum.splits)
  moreover have "CHR ''.'' # t = concat (map ((#) (CHR ''.'')) [v, k, et, nt, ct])"
    using split_on_join [of "CHR ''.''" t] split by simp
  ultimately show "b = ascii_bytes (envelope k e nonce c)" "CHR ''.'' \<notin> set k"
    using ascii_text_Some [OF t] key_id_chars(2) [of k]
    by (simp_all add: envelope_def canonical_decimal_show_int decode_random_iff decode_random_unbounded_iff)
qed

lemma envelope_inject:
  assumes "envelope k e n c = envelope k' e' n' c'" "CHR ''.'' \<notin> set k" "CHR ''.'' \<notin> set k'"
  shows "k = k' \<and> e = e' \<and> n = n' \<and> c = c'"
proof -
  have "split_on (CHR ''.'') (envelope k e n c) = [''rr1'', k, show_int e, encode_random n, encode_random c]"
    if "CHR ''.'' \<notin> set k" for k e n c
    using that unfolding envelope_def
    by (simp add: split_on_append [of _ "''rr1''", simplified] split_on_append split_on_none
        show_int_lacks encode_random_no_dot)
  from this [OF assms(2), of e n c] this [OF assms(3), of e' n' c'] show ?thesis
    using assms(1) by (simp add: encode_random_inject) (blast dest: show_int_inject)
qed

lemma unseal_Some:
  "unseal gcm loads sl b c (Aware now) = Some p \<longleftrightarrow>
     (\<exists>k e nonce ct key pt v. parse_receipt_envelope b = Some (k, e, nonce, ct) \<and>
        dget (sealer_keys sl) k = Some key \<and> now < e \<and>
        aead_decrypt gcm (rk_key key) nonce ct (receipt_aad c e k) = Some pt \<and> loads pt = Inr v \<and>
        payload_pair v = Some p)"
  unfolding unseal_def by (auto split: option.splits prod.splits sum.splits if_splits)

lemma payload_pair_given:
  assumes "payload_pair (JObject
    [(''access_token'', JString (pair_access_token p)), (''expires_in'', JInt (pair_expires_in p)),
     (''refresh_token'', JString (pair_refresh_token p)), (''token_type'', JString ''Bearer'')]) = Some q"
  shows "q = p"
  using assms by (cases p) (auto simp: payload_pair_def token_pair_post_init_def split: sum.splits if_splits)

lemma unseal_bound:
  assumes seal: "seal gcm sl p c t s = (Inr b, s')" and ok: "sealer_ok sl"
    and pair: "token_pair_post_init p = Inr p" and gcm: "aead_authentic gcm" and loads: "loads_payload loads"
    and opened: "unseal gcm loads sl b c' (Aware now) = Some q"
  shows "c' = c \<and> q = p \<and> (\<exists>e. receipt_expiry t = Inr e \<and> now < e)"
proof -
  let ?k = "rsl_active_key sl"
  obtain e nonce where e: "receipt_expiry t = Inr e" and b: "b = ascii_bytes (envelope (rk_key_id ?k) e nonce
      (aead_encrypt gcm (rk_key ?k) nonce (ascii_bytes (receipt_payload p)) (receipt_aad c e (rk_key_id ?k))))"
    using seal by (auto simp: seal_Inr)
  obtain k e' nonce' ct key pt v where parse: "parse_receipt_envelope b = Some (k, e', nonce', ct)"
    and key: "dget (sealer_keys sl) k = Some key" and now: "now < e'"
    and dec: "aead_decrypt gcm (rk_key key) nonce' ct (receipt_aad c' e' k) = Some pt"
    and v: "loads pt = Inr v" "payload_pair v = Some q"
    using opened unfolding unseal_Some by blast
  note b' = parse_receipt_envelope_Some [OF parse]
  have same: "k = rk_key_id ?k" "e' = e" "nonce' = nonce" and ct: "ct =
      aead_encrypt gcm (rk_key ?k) nonce (ascii_bytes (receipt_payload p)) (receipt_aad c e (rk_key_id ?k))"
    using envelope_inject [of k e' nonce' ct] b b' key_id_chars(2) [OF sealer_okD(2) [OF ok]] by simp_all
  have "key = ?k"
    using key sealer_okD(4) [OF ok] same(1) by simp
  moreover have "ct = aead_encrypt gcm (rk_key key) nonce' pt (receipt_aad c' e' k)"
    using gcm dec by (auto simp: aead_authentic_def)
  ultimately have "ascii_bytes (receipt_payload p) = pt" "receipt_aad c e (rk_key_id ?k) = receipt_aad c' e' k"
    using gcm same ct unfolding aead_authentic_def by metis+
  moreover from this have "c' = c"
    using receipt_aad_inject by metis
  moreover have "q = p"
    using v loads pair calculation(1) payload_pair_given by (auto simp: loads_payload_def)
  ultimately show ?thesis
    using e now same(2) by auto
qed

section \<open>Instances\<close>

text \<open>
  Stand-ins for AES-GCM: one that appends a fixed tag, which inverts, and one whose ciphertext
  spells out plaintext and data, which is authentic. No cipher is both for messages of all lengths.
\<close>

definition tagging_aead :: aead where
  "tagging_aead = \<lparr>aead_encrypt = (\<lambda>k n p a. p @ replicate 16 0),
     aead_decrypt = (\<lambda>k n c a. Some (take (length c - 16) c))\<rparr>"

definition spelling_encrypt :: "bytes \<Rightarrow> bytes \<Rightarrow> bytes" where
  "spelling_encrypt p a = concat (map (\<lambda>b. [1, b]) p) @ 0 # a"

fun spelling_read :: "bytes \<Rightarrow> (bytes \<times> bytes) option" where
  "spelling_read (x # xs) =
     (if x = 0 then Some ([], xs)
      else if x = 1 then
        (case xs of [] \<Rightarrow> None
         | y # ys \<Rightarrow> map_option (\<lambda>(p, a). (y # p, a)) (spelling_read ys))
      else None)"
| "spelling_read [] = None"

definition spelling_aead :: aead where
  "spelling_aead = \<lparr>aead_encrypt = (\<lambda>k n p a. spelling_encrypt p a),
     aead_decrypt = (\<lambda>k n c a. case spelling_read c of None \<Rightarrow> None
        | Some (p, b) \<Rightarrow> if a = b then Some p else None)\<rparr>"

lemma tagging_inverts: "aead_inverts tagging_aead"
  by (simp add: aead_inverts_def tagging_aead_def)

lemma spelling_read_encrypt: "spelling_read (spelling_encrypt p a) = Some (p, a)"
  by (induction p) (simp_all add: spelling_encrypt_def)

lemma spelling_read_Some: "spelling_read c = Some (p, a) \<Longrightarrow> c = spelling_encrypt p a"
  by (induction c arbitrary: p rule: spelling_read.induct)
    (force simp: spelling_encrypt_def split: if_splits list.splits)+

lemma spelling_authentic: "aead_authentic spelling_aead"
  unfolding aead_authentic_def
proof (intro conjI allI impI)
  fix k n c a p
  assume "aead_decrypt spelling_aead k n c a = Some p"
  then show "c = aead_encrypt spelling_aead k n p a"
    by (auto simp: spelling_aead_def dest!: spelling_read_Some split: option.splits if_splits)
next
  fix k :: bytes and n p a p' a'
  assume "aead_encrypt spelling_aead k n p a = aead_encrypt spelling_aead k n p' a'"
  then have "spelling_encrypt p a = spelling_encrypt p' a'"
    by (simp add: spelling_aead_def)
  then have "Some (p, a) = Some (p', a')"
    by (metis spelling_read_encrypt)
  then show "p = p'" "a = a'" by simp_all
qed

text \<open>A reader for exactly the objects \<open>receipt_payload\<close> writes.\<close>

definition example_loads :: json_loads where
  "example_loads b =
     (case read_json_string (drop 17 (map (\<lambda>b. char_of (unat b)) b)) of
        (access, rest) \<Rightarrow>
          (let number = takeWhile (\<lambda>c. c \<noteq> CHR '','') (drop 14 rest);
               tail = dropWhile (\<lambda>c. c \<noteq> CHR '','') (drop 14 rest)
           in case canonical_decimal number of
                None \<Rightarrow> Inl ValueError
              | Some n \<Rightarrow> Inr (JObject
                  [(''access_token'', JString access), (''expires_in'', JInt n),
                   (''refresh_token'', JString (fst (read_json_string (drop 18 tail)))),
                   (''token_type'', JString ''Bearer'')])))"

lemma text_of_ascii_bytes: "map (\<lambda>b. char_of (unat b)) (ascii_bytes s) = s"
proof -
  have "char_of (unat (word_of_nat (of_char c) :: 8 word)) = c" for c
    unfolding unat_ascii by simp
  then show ?thesis
    by (simp add: ascii_bytes_def comp_def)
qed

lemma takeWhile_until: "c \<notin> set xs \<Longrightarrow> takeWhile (\<lambda>d. d \<noteq> c) (xs @ c # ys) = xs \<and>
    dropWhile (\<lambda>d. d \<noteq> c) (xs @ c # ys) = c # ys"
  by (induction xs) auto

lemma receipt_payload_alt:
  "receipt_payload p =
     ''{'' @ json_string ''access_token'' @ '':'' @ json_string (pair_access_token p) @
     '','' @ json_string ''expires_in'' @ '':'' @ show_int (pair_expires_in p) @ CHR '','' #
     json_string ''refresh_token'' @ '':'' @ json_string (pair_refresh_token p) @
     '','' @ json_string ''token_type'' @ '':'' @ json_string ''Bearer'' @ ''}''"
  by (simp add: receipt_payload_def json_object_def)

lemma example_loads_payload: "loads_payload example_loads"
  unfolding loads_payload_def
proof (intro allI impI)
  fix p
  assume "token_pair_post_init p = Inr p"
  then have e: "30 \<le> pair_expires_in p" "pair_expires_in p \<le> 3600"
    by (auto simp: token_pair_post_init_def split: if_splits)
  then have "length (show_nat (nat (pair_expires_in p))) \<le> 4"
    using length_show_nat [of "nat (pair_expires_in p)" 3] by (simp add: nat_less_iff)
  then have int: "canonical_decimal (show_int (pair_expires_in p)) = Some (pair_expires_in p)"
    using e canonical_decimal_show [of "nat (pair_expires_in p)"] by (simp add: show_int_def)
  have keys: "json_string ''access_token'' = CHR 0x22 # ''access_token'' @ [CHR 0x22]"
    "json_string ''expires_in'' = CHR 0x22 # ''expires_in'' @ [CHR 0x22]"
    "json_string ''refresh_token'' = CHR 0x22 # ''refresh_token'' @ [CHR 0x22]"
    by code_simp+
  have split: "json_string s = CHR 0x22 # tl (json_string s)" for s
    by (simp add: json_string_def)
  let ?rest = "\<lambda>x. '','' @ json_string ''token_type'' @ '':'' @ json_string ''Bearer'' @ x"
  have "drop 17 (receipt_payload p) = tl (json_string (pair_access_token p)) @
      '','' @ json_string ''expires_in'' @ '':'' @ show_int (pair_expires_in p) @ CHR '','' #
      json_string ''refresh_token'' @ '':'' @ json_string (pair_refresh_token p) @ ?rest ''}''"
    unfolding receipt_payload_alt keys(1) by (subst split) (simp add: eval_nat_numeral)
  moreover have "drop 14 ('','' @ json_string ''expires_in'' @ '':'' @ xs) = xs" for xs
    unfolding keys by (simp add: eval_nat_numeral)
  moreover have "drop 18 (CHR '','' # json_string ''refresh_token'' @ '':'' @ json_string s @ xs) =
      tl (json_string s) @ xs" for s xs
    unfolding keys by (subst split) (simp add: eval_nat_numeral)
  ultimately show "example_loads (ascii_bytes (receipt_payload p)) = Inr (JObject
        [(''access_token'', JString (pair_access_token p)), (''expires_in'', JInt (pair_expires_in p)),
         (''refresh_token'', JString (pair_refresh_token p)), (''token_type'', JString ''Bearer'')])"
    unfolding example_loads_def text_of_ascii_bytes
    by (simp only: read_json_string_inverts prod.case Let_def takeWhile_until [OF show_int_lacks(2)] int
        option.case fst_conv)
qed

definition example_sealer :: "unit receipt_sealer" where
  "example_sealer =
     \<lparr>rsl_active_key = \<lparr>rk_key_id = ''k1'', rk_key = replicate 32 1\<rparr>, rsl_retained_keys = [],
      rsl_entropy = (\<lambda>n s. (Inr (replicate n 5), s))\<rparr>"

definition example_pair :: token_pair where
  "example_pair = \<lparr>pair_access_token = ''AA.AA.AA'',
     pair_refresh_token = (''rt_'' @ encode_random (replicate 16 2)) @ ''.'' @ encode_random (replicate 32 3),
     pair_expires_in = 600\<rparr>"

definition example_receipt_context :: receipt_context where
  "example_receipt_context = \<lparr>rcx_token_id = ''rt_'' @ encode_random (replicate 16 1),
     rcx_family_id = ''rf_'' @ encode_random (replicate 16 1), rcx_account_id = ''u1'',
     rcx_security_epoch = 1, rcx_idempotency_digest = None\<rparr>"

lemma example_access_valid: "valid_compact_jwt ''AA.AA.AA''"
  by code_simp

lemma example_pair_valid: "token_pair_post_init example_pair = Inr example_pair"
proof -
  have "valid_identifier (Some ''rt_'') (''rt_'' @ encode_random (replicate 16 2))"
    unfolding valid_identifier_prefix_iff by (rule exI [of _ "replicate 16 2"]) (simp add: lookup_bytes_def)
  then have "parse_refresh_token (pair_refresh_token example_pair) =
      Some (''rt_'' @ encode_random (replicate 16 2), replicate 32 3)"
    unfolding example_pair_def token_pair.simps parse_refresh_token_iff by (simp add: secret_bytes_def)
  moreover have "pair_access_token example_pair = ''AA.AA.AA''" "pair_expires_in example_pair = 600"
    by (simp_all add: example_pair_def)
  ultimately show ?thesis
    using example_access_valid by (simp add: token_pair_post_init_def)
qed

lemma example_sealer_ok: "sealer_ok example_sealer"
  by (simp add: sealer_ok_def receipt_sealer_post_init_def sealer_keys_def example_sealer_def dict_ok_def
      receipt_key_post_init_def) code_simp

lemma example_expiry: "receipt_expiry (Aware 30) = Inr 30"
  by (simp add: receipt_expiry_def)

section \<open>Properties\<close>

text \<open>A receipt of a valid pair opens again in its own context until, and not from, its expiry:
  unsealing what was sealed returns exactly the sealed pair, whatever the access token's length.
\<close>

theorem receipt_roundtrip:
  assumes "seal gcm sl p c t s = (Inr b, s')" "sealer_ok sl" "token_pair_post_init p = Inr p"
    and "receipt_expiry t = Inr e" "e < 10 ^ 18" "aead_inverts gcm" "loads_payload loads"
  shows "unseal gcm loads sl b c (Aware now) = (if now < e then Some p else None)"
  by (rule unseal_sealed [OF assms])

theorem receipt_roundtrip_witness:
  "\<exists>b. seal tagging_aead example_sealer example_pair example_receipt_context (Aware 30) () = (Inr b, ()) \<and>
     unseal tagging_aead example_loads example_sealer b example_receipt_context (Aware 29) = Some example_pair \<and>
     unseal tagging_aead example_loads example_sealer b example_receipt_context (Aware 30) = None"
proof -
  obtain b where b: "seal tagging_aead example_sealer example_pair example_receipt_context (Aware 30) () = (Inr b, ())"
    unfolding seal_Inr example_expiry by (auto simp: example_sealer_def)
  then show ?thesis
    using receipt_roundtrip [OF b example_sealer_ok example_pair_valid example_expiry _ tagging_inverts
        example_loads_payload, of 29]
      receipt_roundtrip [OF b example_sealer_ok example_pair_valid example_expiry _ tagging_inverts
        example_loads_payload, of 30] by auto
qed

text \<open>C35: A receipt opens only where it was sealed: with an authentic cipher, whatever context a sealed
  receipt is presented in, if it opens then token, family, account, epoch and idempotency digest are
  the sealed ones, the pair is the sealed pair, and the receipt has not expired.
\<close>

theorem receipt_bound_to_context:
  assumes "seal gcm sl p c t s = (Inr b, s')" "sealer_ok sl" "token_pair_post_init p = Inr p"
    and "aead_authentic gcm" "loads_payload loads" "unseal gcm loads sl b c' (Aware now) = Some q"
  shows "c' = c \<and> q = p \<and> (\<exists>e. receipt_expiry t = Inr e \<and> now < e)"
  by (rule unseal_bound [OF assms])

theorem receipt_bound_to_context_witness:
  "\<exists>b q. seal spelling_aead example_sealer example_pair example_receipt_context (Aware 30) () = (Inr b, ()) \<and>
     unseal spelling_aead example_loads example_sealer b example_receipt_context (Aware 29) = Some q \<and>
     q = example_pair"
proof -
  let ?p = "ascii_bytes (receipt_payload example_pair)" and ?a = "receipt_aad example_receipt_context 30 ''k1''"
  let ?b = "ascii_bytes (envelope ''k1'' 30 (replicate 12 5) (spelling_encrypt ?p ?a))"
  have seal: "seal spelling_aead example_sealer example_pair example_receipt_context (Aware 30) () = (Inr ?b, ())"
    unfolding seal_Inr example_expiry by (auto simp: example_sealer_def spelling_aead_def)
  have "length (receipt_payload example_pair) \<le> 200" "length (receipt_aad_text example_receipt_context 30 ''k1'') \<le> 400"
    by code_simp+
  then have "length (spelling_encrypt ?p ?a) \<le> 16547" "spelling_encrypt ?p ?a \<noteq> []"
    by (simp_all add: spelling_encrypt_def ascii_bytes_def receipt_aad_def length_concat comp_def sum_list_triv)
  moreover have "strict_context_text ''k1''" "list_all key_id_char ''k1''"
    by code_simp+
  ultimately have "parse_receipt_envelope ?b = Some (''k1'', 30, replicate 12 5, spelling_encrypt ?p ?a)"
    using envelope_fits [of "''k1''" 30 "replicate 12 5" "spelling_encrypt ?p ?a"]
    by (intro parse_envelope) simp_all
  then have opens: "unseal spelling_aead example_loads example_sealer ?b example_receipt_context (Aware 29) = Some example_pair"
    using example_loads_payload example_pair_valid payload_pair_payload [OF example_pair_valid]
    by (simp add: unseal_def sealer_keys_def example_sealer_def spelling_aead_def spelling_read_encrypt loads_payload_def)
  show ?thesis
    using seal opens receipt_bound_to_context [OF seal example_sealer_ok example_pair_valid spelling_authentic
        example_loads_payload opens] by blast
qed

end
