(* ===== verification/Refresh_Service.thy ===== *)
theory Refresh_Service
  imports Receipts Rate_Limits Store_Properties
begin

text \<open>
  \<^verbatim>\<open>RefreshTokenService\<close> (\<^verbatim>\<open>accounts/_refresh.py\<close>): issuing a family, rotating and revoking, over
  the store, account, access-token, entropy, clock and identifier ports. A service method returns
  an \<open>answer\<close>; what the code evaluates outside its \<^verbatim>\<open>try\<close> blocks may still raise, so a method is a
  port of answers, and \<open>guarded\<close> is one such block.
\<close>

section \<open>The service\<close>

datatype 'a answer = Answered 'a | Answer_Limited "int option" | Answer_Invalid | Answer_Unavailable

definition guarded :: "('s, 'a) port \<Rightarrow> ('a \<Rightarrow> ('s, 'b answer) port) \<Rightarrow> ('s, 'b answer) port" where
  "guarded m f s = (case m s of (Inl e, s') \<Rightarrow> (Inr Answer_Unavailable, s') | (Inr a, s') \<Rightarrow> f a s')"

record local_access_token =
  lat_access_token :: string
  lat_expires_in :: int

record 's family_store =
  fst_create :: "time create_family_command \<Rightarrow> security_event \<Rightarrow> ('s, bool) port"
  fst_prepare :: "token_proof \<Rightarrow> bytes option \<Rightarrow> time \<Rightarrow> security_event \<Rightarrow> ('s, prepared) port"
  fst_rotate :: "time rotate_command \<Rightarrow> time \<Rightarrow> security_event \<Rightarrow> ('s, rotation_outcome) port"
  fst_revoke_family :: "string \<Rightarrow> security_event \<Rightarrow> ('s, bool) port"
  fst_revoke_token :: "string \<Rightarrow> bytes \<Rightarrow> security_event \<Rightarrow> ('s, bool) port"
  fst_revoke_token_for_account :: "string \<Rightarrow> string \<Rightarrow> bytes \<Rightarrow> security_event \<Rightarrow> ('s, bool) port"

record ('s, 'u) refresh_service =
  rfs_get_by_id :: "string \<Rightarrow> ('s, 'u account option) port"
  rfs_current_epoch :: "string \<Rightarrow> ('s, int option) port"
  rfs_store :: "'s family_store"
  rfs_hmac :: hmac_function
  rfs_pepper :: bytes
  rfs_entropy :: "nat \<Rightarrow> ('s, bytes) port"
  rfs_aead :: aead
  rfs_loads :: json_loads
  rfs_sealer :: "'s receipt_sealer"
  rfs_access :: "'u account \<Rightarrow> string set \<Rightarrow> evidence option \<Rightarrow> time \<Rightarrow> ('s, local_access_token verdict) port"
  rfs_idle_lifetime :: time
  rfs_absolute_lifetime :: time
  rfs_receipt_window :: time
  rfs_clock :: "('s, py_datetime) port"
  rfs_family_ids :: "('s, string) port"
  rfs_event_ids :: "('s, string) port"
  rfs_limits :: "'s rate_limit_guard option"

definition refresh_service_post_init :: "('s, 'u) refresh_service \<Rightarrow> ('s, 'u) refresh_service result" where
  "refresh_service_post_init srv =
     (if rfs_idle_lifetime srv \<le> 0 \<or> rfs_absolute_lifetime srv < rfs_idle_lifetime srv \<or>
         \<not> (0 < rfs_receipt_window srv \<and> rfs_receipt_window srv \<le> seconds 30)
      then Inl ImproperlyConfigured else Inr srv)"

definition refresh_event ::
  "('s, 'u) refresh_service \<Rightarrow> time \<Rightarrow> string \<Rightarrow> string \<Rightarrow> string option \<Rightarrow> string option \<Rightarrow>
     ('s, security_event) port" where
  "refresh_event srv occurred_at operation outcome account_id family_id =
     call (rfs_event_ids srv) (\<lambda>event_id.
       if \<not> strict_context_text event_id then raise ValueError
       else pure \<lparr>se_event_id = event_id, se_occurred_at = Aware occurred_at, se_operation = operation,
                 se_outcome = outcome, se_account_id = account_id, se_principal_id = None,
                 se_mechanism = Some ''refresh'', se_session_id = None, se_family_id = family_id,
                 se_correlation = []\<rparr>)"

definition service_time :: "('s, 'u) refresh_service \<Rightarrow> py_datetime option \<Rightarrow> ('s, time) port" where
  "service_time srv now =
     (case now of
        None \<Rightarrow> call (rfs_clock srv) (\<lambda>reading. lift_result (aware_utc_time reading))
      | Some t \<Rightarrow> lift_result (aware_utc_time t))"

definition issue_refresh_token :: "('s, 'u) refresh_service \<Rightarrow> ('s, token_grant) port" where
  "issue_refresh_token srv =
     call (rfs_entropy srv lookup_bytes) (\<lambda>lookup.
     call (rfs_entropy srv secret_bytes) (\<lambda>secret.
       lift_result (codec_issue (rfs_hmac srv) (rfs_pepper srv) lookup secret)))"

definition issued_access ::
  "local_access_token verdict \<Rightarrow> (local_access_token \<Rightarrow> ('s, 'a answer) port) \<Rightarrow> ('s, 'a answer) port" where
  "issued_access access f =
     (case access of
        Verified a \<Rightarrow> f a
      | Invalid_Credentials \<Rightarrow> pure Answer_Invalid
      | Verification_Unavailable \<Rightarrow> pure Answer_Unavailable)"

definition successor_pair :: "local_access_token \<Rightarrow> token_grant \<Rightarrow> token_pair result" where
  "successor_pair access refresh =
     token_pair_post_init
       \<lparr>pair_access_token = lat_access_token access, pair_refresh_token = tg_refresh_token refresh,
        pair_expires_in = lat_expires_in access\<rparr>"

section \<open>Issuing a family\<close>

definition new_family_command ::
  "('s, 'u) refresh_service \<Rightarrow> 'u account \<Rightarrow> string set \<Rightarrow> evidence option \<Rightarrow> time \<Rightarrow> token_grant \<Rightarrow>
     string \<Rightarrow> time create_family_command result" where
  "new_family_command srv account scopes ev issued_at refresh family_id =
     (let family_expires_at = issued_at + rfs_absolute_lifetime srv
      in create_family_command_post_init
           \<lparr>cf_token_id = tg_token_id refresh, cf_token_digest = tg_digest refresh,
            cf_account_id = acc_id account, cf_family_id = family_id,
            cf_security_epoch = acc_epoch account, cf_created_at = Aware issued_at,
            cf_token_expires_at = Aware (min (issued_at + rfs_idle_lifetime srv) family_expires_at),
            cf_family_expires_at = Aware family_expires_at, cf_scopes = scopes, cf_evidence = ev\<rparr>)"

definition issue_family ::
  "('s, 'u) refresh_service \<Rightarrow> 'u account \<Rightarrow> string set \<Rightarrow> evidence option \<Rightarrow> py_datetime option \<Rightarrow>
     ('s, token_pair answer) port" where
  "issue_family srv account scopes ev now =
     (if \<not> acc_active account \<or> \<not> acc_verified account then pure Answer_Invalid
      else guarded (call (service_time srv now) (\<lambda>t.
             call (rfs_current_epoch srv (acc_id account)) (\<lambda>epoch. pure (t, epoch)))) (\<lambda>(issued_at, epoch).
        if \<not> (case epoch of None \<Rightarrow> False | Some e \<Rightarrow> valid_security_epoch e \<and> e = acc_epoch account)
        then pure Answer_Invalid
        else case normalize_refresh_scopes scopes of
            None \<Rightarrow> pure Answer_Invalid
          | Some normalized_scopes \<Rightarrow>
              guarded (rfs_access srv account normalized_scopes ev issued_at) (\<lambda>outcome.
              issued_access outcome (\<lambda>access.
              guarded
                (call (issue_refresh_token srv) (\<lambda>refresh.
                 call (rfs_family_ids srv) (\<lambda>family_id.
                 if \<not> valid_identifier (Some ''rf_'') family_id then raise ValueError
                 else call (lift_result (new_family_command srv account normalized_scopes ev issued_at
                              refresh family_id)) (\<lambda>command.
                   call (refresh_event srv issued_at ''local.refresh.create'' ''created''
                           (Some (acc_id account)) (Some family_id)) (\<lambda>event.
                   call (fst_create (rfs_store srv) command event) (\<lambda>created. pure (refresh, created)))))))
                (\<lambda>(refresh, created).
                   if \<not> created then pure Answer_Unavailable
                   else call (lift_result (successor_pair access refresh)) (\<lambda>p. pure (Answered p)))))))"

section \<open>Rotation\<close>

definition resolve_account ::
  "('s, 'u) refresh_service \<Rightarrow> time family_context \<Rightarrow> ('s, 'u account answer) port" where
  "resolve_account srv c =
     guarded (call (rfs_get_by_id srv (fc_account_id c)) (\<lambda>account.
              call (rfs_current_epoch srv (fc_account_id c)) (\<lambda>epoch. pure (account, epoch))))
       (\<lambda>(account, epoch).
          case account of
            None \<Rightarrow> pure Answer_Invalid
          | Some a \<Rightarrow>
              if acc_id a \<noteq> fc_account_id c \<or> \<not> acc_active a \<or> \<not> acc_verified a \<or>
                 acc_epoch a \<noteq> fc_security_epoch c \<or>
                 (case epoch of None \<Rightarrow> True
                  | Some e \<Rightarrow> \<not> valid_security_epoch e \<or> e \<noteq> fc_security_epoch c)
              then pure Answer_Invalid
              else pure (Answered a))"

definition fail_closed_receipt ::
  "('s, 'u) refresh_service \<Rightarrow> time family_context \<Rightarrow> time \<Rightarrow> ('s, token_pair answer) port" where
  "fail_closed_receipt srv c occurred_at =
     guarded (call (refresh_event srv occurred_at ''local.refresh.receipt'' ''revoked''
                      (Some (fc_account_id c)) (Some (fc_family_id c))) (\<lambda>event.
              fst_revoke_family (rfs_store srv) (fc_family_id c) event))
       (\<lambda>revoked. pure (if revoked then Answer_Invalid else Answer_Unavailable))"

definition receipt_context_of ::
  "time family_context \<Rightarrow> string \<Rightarrow> bytes option \<Rightarrow> receipt_context result" where
  "receipt_context_of c token_id idempotency_digest =
     receipt_context_post_init
       \<lparr>rcx_token_id = token_id, rcx_family_id = fc_family_id c, rcx_account_id = fc_account_id c,
        rcx_security_epoch = fc_security_epoch c, rcx_idempotency_digest = idempotency_digest\<rparr>"

definition recover_receipt ::
  "('s, 'u) refresh_service \<Rightarrow> time family_context \<Rightarrow> bytes option \<Rightarrow> string \<Rightarrow> bytes option \<Rightarrow>
     time \<Rightarrow> ('s, token_pair answer) port" where
  "recover_receipt srv c sealed token_id idempotency_digest occurred_at =
     call (lift_result (receipt_context_of c token_id idempotency_digest)) (\<lambda>rc.
       case Option.bind sealed (\<lambda>b.
           unseal (rfs_aead srv) (rfs_loads srv) (rfs_sealer srv) b rc (Aware occurred_at)) of
         Some p \<Rightarrow> pure (Answered p)
       | None \<Rightarrow> fail_closed_receipt srv c occurred_at)"

definition rotation_command ::
  "('s, 'u) refresh_service \<Rightarrow> token_proof \<Rightarrow> time family_context \<Rightarrow> bytes option \<Rightarrow> token_grant \<Rightarrow>
     bytes \<Rightarrow> time \<Rightarrow> time rotate_command result" where
  "rotation_command srv proof c idempotency_digest successor sealed rotated_at =
     rotate_command_post_init
       \<lparr>rc_token_id = tp_token_id proof, rc_token_digest = tp_digest proof,
        rc_account_id = fc_account_id c, rc_family_id = fc_family_id c,
        rc_security_epoch = fc_security_epoch c, rc_successor_id = tg_token_id successor,
        rc_successor_digest = tg_digest successor,
        rc_successor_expires_at =
          Aware (min (rotated_at + rfs_idle_lifetime srv) (fc_family_expires_at c)),
        rc_family_expires_at = Aware (fc_family_expires_at c), rc_sealed_receipt = sealed,
        rc_receipt_expires_at =
          Aware (min (rotated_at + rfs_receipt_window srv) (fc_family_expires_at c)),
        rc_idempotency_digest = idempotency_digest, rc_scopes = fc_scopes c,
        rc_evidence = fc_evidence c\<rparr>"

text \<open>From an active family: issue the successor and the access token, seal, commit, recover.\<close>

definition rotation_materials ::
  "('s, 'u) refresh_service \<Rightarrow> time family_context \<Rightarrow> time \<Rightarrow> 'u account \<Rightarrow>
     ('s, token_grant \<times> local_access_token verdict) port" where
  "rotation_materials srv c rotated_at account =
     call (issue_refresh_token srv) (\<lambda>successor.
     call (rfs_access srv account (fc_scopes c) (fc_evidence c) rotated_at) (\<lambda>outcome.
     pure (successor, outcome)))"

definition commit_rotation ::
  "('s, 'u) refresh_service \<Rightarrow> token_proof \<Rightarrow> time family_context \<Rightarrow> bytes option \<Rightarrow> time \<Rightarrow>
     token_grant \<Rightarrow> token_pair \<Rightarrow> receipt_context \<Rightarrow> ('s, rotation_outcome) port" where
  "commit_rotation srv proof c idempotency_digest rotated_at successor response rc =
     call (seal (rfs_aead srv) (rfs_sealer srv) response rc
             (Aware (min (rotated_at + rfs_receipt_window srv) (fc_family_expires_at c)))) (\<lambda>sealed.
     call (lift_result (rotation_command srv proof c idempotency_digest successor sealed rotated_at)) (\<lambda>command.
     call (refresh_event srv rotated_at ''local.refresh.rotate'' ''attempted''
             (Some (fc_account_id c)) (Some (fc_family_id c))) (\<lambda>event.
     fst_rotate (rfs_store srv) command rotated_at event)))"

definition rotate_active ::
  "('s, 'u) refresh_service \<Rightarrow> token_proof \<Rightarrow> time family_context \<Rightarrow> bytes option \<Rightarrow> time \<Rightarrow>
     'u account \<Rightarrow> ('s, token_pair answer) port" where
  "rotate_active srv proof c idempotency_digest rotated_at account =
     guarded (rotation_materials srv c rotated_at account) (\<lambda>materials.
     issued_access (snd materials) (\<lambda>access.
     call (lift_result (successor_pair access (fst materials))) (\<lambda>response.
     call (lift_result (receipt_context_of c (tp_token_id proof) idempotency_digest)) (\<lambda>rc.
     guarded (commit_rotation srv proof c idempotency_digest rotated_at (fst materials) response rc) (\<lambda>result.
       if rr_status result \<notin> {Rotated, Idempotent_Replay} then pure Answer_Invalid
       else recover_receipt srv c (rr_sealed_receipt result) (tp_token_id proof) idempotency_digest
              rotated_at)))))"

definition rotate_prepared ::
  "('s, 'u) refresh_service \<Rightarrow> token_proof \<Rightarrow> bytes option \<Rightarrow> bool \<Rightarrow> time \<Rightarrow> prepared \<Rightarrow>
     ('s, token_pair answer) port" where
  "rotate_prepared srv proof idempotency_digest invalid_idempotency rotated_at prepared =
     (case prepared of
        Replay r \<Rightarrow>
          call (resolve_account srv (rx_context r)) (\<lambda>account.
            case account of
              Answered a \<Rightarrow>
                recover_receipt srv (rx_context r) (Some (rx_sealed_receipt r)) (tp_token_id proof)
                  idempotency_digest rotated_at
            | Answer_Invalid \<Rightarrow> pure Answer_Invalid
            | _ \<Rightarrow> pure Answer_Unavailable)
      | Refused outcome \<Rightarrow> pure Answer_Invalid
      | Active c \<Rightarrow>
          if invalid_idempotency then pure Answer_Invalid
          else if fc_token_expires_at c \<le> rotated_at \<or> fc_family_expires_at c \<le> rotated_at
          then pure Answer_Invalid
          else call (resolve_account srv c) (\<lambda>account.
            case account of
              Answered a \<Rightarrow> rotate_active srv proof c idempotency_digest rotated_at a
            | Answer_Invalid \<Rightarrow> pure Answer_Invalid
            | _ \<Rightarrow> pure Answer_Unavailable))"

text \<open>The digest of the presented idempotency key, and whether the key was malformed.\<close>

definition presented_idempotency ::
  "('s, 'u) refresh_service \<Rightarrow> token_proof \<Rightarrow> string option \<Rightarrow> bytes option \<times> bool" where
  "presented_idempotency srv proof key =
     (case key of
        None \<Rightarrow> (None, False)
      | Some v \<Rightarrow>
          (case digest_idempotency_key (rfs_hmac srv) (rfs_pepper srv) (tp_token_id proof) v of
             None \<Rightarrow> (None, True)
           | Some d \<Rightarrow> (Some d, False)))"

definition preflight_presented ::
  "('s, 'u) refresh_service \<Rightarrow> token_proof \<Rightarrow> bytes option \<Rightarrow> py_datetime option \<Rightarrow>
     ('s, time \<times> prepared) port" where
  "preflight_presented srv proof idempotency_digest now =
     call (service_time srv now) (\<lambda>rotated_at.
     call (refresh_event srv rotated_at ''local.refresh.prepare'' ''attempted'' None None) (\<lambda>event.
     call (fst_prepare (rfs_store srv) proof idempotency_digest rotated_at event) (\<lambda>prepared.
     pure (rotated_at, prepared))))"

definition rotate_verified ::
  "('s, 'u) refresh_service \<Rightarrow> string \<Rightarrow> string option \<Rightarrow> py_datetime option \<Rightarrow>
     ('s, token_pair answer) port" where
  "rotate_verified srv refresh_token idempotency_key now =
     call (lift_result (codec_verify (rfs_hmac srv) (rfs_pepper srv) refresh_token)) (\<lambda>verified.
       case verified of
         None \<Rightarrow> pure Answer_Invalid
       | Some proof \<Rightarrow>
           let key = presented_idempotency srv proof idempotency_key
           in guarded (preflight_presented srv proof (fst key) now) (\<lambda>preflight.
                rotate_prepared srv proof (fst key) (snd key) (fst preflight) (snd preflight)))"

definition rotate_token ::
  "('s, 'u) refresh_service \<Rightarrow> string \<Rightarrow> string option \<Rightarrow> py_datetime option \<Rightarrow> string option \<Rightarrow>
     ('s, token_pair answer) port" where
  "rotate_token srv refresh_token idempotency_key now client_key s =
     (case rfs_limits srv of
        None \<Rightarrow> rotate_verified srv refresh_token idempotency_key now s
      | Some guard \<Rightarrow>
          (case guard_check (rfs_hmac srv) guard ''local.refresh.rotate'' client_key None s of
             (Proceed, s') \<Rightarrow> rotate_verified srv refresh_token idempotency_key now s'
           | (Rate_Limited wait, s') \<Rightarrow> (Inr (Answer_Limited wait), s')
           | (Limiter_Unavailable, s') \<Rightarrow> (Inr Answer_Unavailable, s')))"

section \<open>Revocation\<close>

definition revoke_presented ::
  "('s, 'u) refresh_service \<Rightarrow> string \<Rightarrow> py_datetime option \<Rightarrow> ('s, bool answer) port" where
  "revoke_presented srv refresh_token now =
     call (lift_result (codec_verify (rfs_hmac srv) (rfs_pepper srv) refresh_token)) (\<lambda>verified.
       case verified of
         None \<Rightarrow> pure Answer_Invalid
       | Some proof \<Rightarrow>
           guarded
             (call (service_time srv now) (\<lambda>occurred_at.
              call (refresh_event srv occurred_at ''local.refresh.revoke'' ''revoked'' None None) (\<lambda>event.
              fst_revoke_token (rfs_store srv) (tp_token_id proof) (tp_digest proof) event)))
             (\<lambda>revoked. pure (Answered revoked)))"

definition revoke_presented_for_account ::
  "('s, 'u) refresh_service \<Rightarrow> string \<Rightarrow> string \<Rightarrow> py_datetime option \<Rightarrow> ('s, bool answer) port" where
  "revoke_presented_for_account srv account_id refresh_token now =
     call (lift_result (codec_verify (rfs_hmac srv) (rfs_pepper srv) refresh_token)) (\<lambda>verified.
       case verified of
         None \<Rightarrow> pure Answer_Invalid
       | Some proof \<Rightarrow>
           if \<not> strict_context_text account_id then pure Answer_Invalid
           else guarded
             (call (service_time srv now) (\<lambda>occurred_at.
              call (refresh_event srv occurred_at ''local.refresh.revoke'' ''revoked''
                      (Some account_id) None) (\<lambda>event.
              fst_revoke_token_for_account (rfs_store srv) account_id (tp_token_id proof)
                (tp_digest proof) event)))
             (\<lambda>revoked. pure (Answered revoked)))"

end
