(* ===== verification/Refresh_Rotation.thy ===== *)
theory Refresh_Rotation
  imports Refresh_Service
begin

text \<open>
  What rotation guarantees. The locale \<open>refresh_family_store\<close> states the part of the store contract
  (\<^verbatim>\<open>RefreshTokenFamilyStore\<close>) the service relies on, over the tokens and accounts a store holds; the
  in-memory store is an interpretation. A pair that \<^verbatim>\<open>rotate\<close> hands out is either the committed
  successor of the live token that was presented, or the receipt of the spent one.
\<close>

section \<open>Running guarded blocks\<close>

lemma guarded_Answered:
  "guarded m f s = (Inr (Answered a), s') \<longleftrightarrow>
     (\<exists>b s1. m s = (Inr b, s1) \<and> f b s1 = (Inr (Answered a), s'))"
  by (auto simp: guarded_def split: prod.splits sum.splits)

lemma issued_access_Answered:
  "issued_access outcome f s = (Inr (Answered a), s') \<longleftrightarrow>
     (\<exists>access. outcome = Verified access \<and> f access s = (Inr (Answered a), s'))"
  by (auto simp: issued_access_def split: verdict.splits)

lemma answered_case:
  "(case x of Answered a \<Rightarrow> f a | Answer_Invalid \<Rightarrow> pure Answer_Invalid | _ \<Rightarrow> pure Answer_Unavailable) s =
     (Inr (Answered b), s') \<longleftrightarrow> (\<exists>a. x = Answered a \<and> f a s = (Inr (Answered b), s'))"
  by (cases x) auto

lemmas answered = guarded_Answered issued_access_Answered run_ok

section \<open>The steps of a rotation\<close>

definition fresh_grant :: "('s, 'u) refresh_service \<Rightarrow> token_grant \<Rightarrow> bool" where
  "fresh_grant srv g \<longleftrightarrow>
     (\<exists>secret. length secret = secret_bytes \<and> valid_identifier (Some ''rt_'') (tg_token_id g) \<and>
        tg_refresh_token g = tg_token_id g @ ''.'' @ encode_random secret \<and>
        tg_digest g = token_digest (rfs_hmac srv) (rfs_pepper srv) (tg_token_id g) secret)"

lemma issue_refresh_token_Inr:
  assumes "issue_refresh_token srv s = (Inr g, s')"
  shows "fresh_grant srv g" and "length (tg_digest g) = digest_bytes"
proof -
  obtain lookup secret where "codec_issue (rfs_hmac srv) (rfs_pepper srv) lookup secret = Inr g"
    using assms by (auto simp: issue_refresh_token_def run_ok simp del: call_lift)
  then have l: "length lookup = lookup_bytes" "length secret = secret_bytes"
    and g: "token_grant_post_init \<lparr>tg_refresh_token = (''rt_'' @ encode_random lookup) @ ''.'' @ encode_random secret,
      tg_token_id = ''rt_'' @ encode_random lookup,
      tg_digest = token_digest (rfs_hmac srv) (rfs_pepper srv) (''rt_'' @ encode_random lookup) secret\<rparr> = Inr g"
    by (auto simp: codec_issue_def Let_def split: if_splits)
  have "valid_identifier (Some ''rt_'') (''rt_'' @ encode_random lookup)"
    using l(1) by (auto simp: valid_identifier_prefix_iff)
  moreover have "g = \<lparr>tg_refresh_token = (''rt_'' @ encode_random lookup) @ ''.'' @ encode_random secret,
      tg_token_id = ''rt_'' @ encode_random lookup,
      tg_digest = token_digest (rfs_hmac srv) (rfs_pepper srv) (''rt_'' @ encode_random lookup) secret\<rparr>"
    and len: "length (tg_digest g) = digest_bytes"
    using g by (auto simp: token_grant_post_init_def split: option.splits if_splits)
  ultimately show "fresh_grant srv g"
    unfolding fresh_grant_def using l(2) by (intro exI [of _ secret]) simp
  show "length (tg_digest g) = digest_bytes"
    by (rule len)
qed

lemma rotation_command_Inr:
  assumes "rotation_command srv proof c d g sealed now = Inr cmd"
  shows "rc_token_id cmd = tp_token_id proof" "rc_token_digest cmd = tp_digest proof"
    "rc_account_id cmd = fc_account_id c" "rc_family_id cmd = fc_family_id c"
    "rc_security_epoch cmd = fc_security_epoch c" "rc_successor_id cmd = tg_token_id g"
    "rc_successor_digest cmd = tg_digest g" "rc_sealed_receipt cmd = sealed"
    "rc_idempotency_digest cmd = d" "rc_successor_id cmd \<noteq> rc_token_id cmd"
    "rc_successor_expires_at cmd = min (now + rfs_idle_lifetime srv) (fc_family_expires_at c)"
    "rc_family_expires_at cmd = fc_family_expires_at c" "rc_scopes cmd = fc_scopes c"
  using assms by (auto simp: rotation_command_def rotate_command_post_init_def split: if_splits)

lemma fail_closed_never_answers: "fail_closed_receipt srv c now s \<noteq> (Inr (Answered p), s')"
  by (auto simp: fail_closed_receipt_def answered split: if_splits)

lemma recover_receipt_Answered:
  "recover_receipt srv c sealed k d now s = (Inr (Answered p), s') \<longleftrightarrow>
     (\<exists>b rc. sealed = Some b \<and> receipt_context_of c k d = Inr rc \<and> s' = s \<and>
        unseal (rfs_aead srv) (rfs_loads srv) (rfs_sealer srv) b rc (Aware now) = Some p)"
  unfolding recover_receipt_def call_eq_Inr lift_result_eq_Inr
  by (cases sealed) (auto simp: fail_closed_never_answers split: option.splits)

text \<open>What the library relies on: intact keys, AES-GCM and JSON, and ports that leave the tokens alone.\<close>

definition receipts_work :: "('s, 'u) refresh_service \<Rightarrow> bool" where
  "receipts_work srv \<longleftrightarrow>
     sealer_ok (rfs_sealer srv) \<and> aead_inverts (rfs_aead srv) \<and> loads_payload (rfs_loads srv) \<and>
     refresh_service_post_init srv = Inr srv"

definition ports_keep :: "('s \<Rightarrow> 'v) \<Rightarrow> ('s, 'u) refresh_service \<Rightarrow> bool" where
  "ports_keep view srv \<longleftrightarrow>
     (\<forall>n. keeps view (rfs_entropy srv n)) \<and> (\<forall>n. keeps view (rsl_entropy (rfs_sealer srv) n)) \<and>
     (\<forall>a sc ev t. keeps view (rfs_access srv a sc ev t)) \<and> keeps view (rfs_event_ids srv) \<and>
     keeps view (rfs_clock srv) \<and> (\<forall>k. keeps view (rfs_get_by_id srv k)) \<and>
     (\<forall>k. keeps view (rfs_current_epoch srv k)) \<and>
     (case rfs_limits srv of None \<Rightarrow> True
      | Some g \<Rightarrow> (\<forall>r. keeps view (rlg_acquire g r)) \<and> keeps view (rlg_event_ids g) \<and>
          keeps view (rlg_clock g) \<and> (\<forall>e. keeps view (rlg_sink g e)))"

lemma seal_keeps: "(\<And>n. keeps view (rsl_entropy sl n)) \<Longrightarrow> keeps view (seal gcm sl p rc t)"
  unfolding seal_def Let_def by (intro keeps_call keeps_basic) simp_all

lemma refresh_event_keeps: "keeps view (rfs_event_ids srv) \<Longrightarrow> keeps view (refresh_event srv t op oc a f)"
  unfolding refresh_event_def by (intro keeps_call keeps_basic) simp_all

lemma issue_refresh_token_keeps:
  "(\<And>n. keeps view (rfs_entropy srv n)) \<Longrightarrow> keeps view (issue_refresh_token srv)"
  unfolding issue_refresh_token_def by (intro keeps_call keeps_basic)

lemma service_time_keeps: "keeps view (rfs_clock srv) \<Longrightarrow> keeps view (service_time srv now)"
  unfolding service_time_def by (cases now) (auto intro!: keeps_call)

lemma resolve_account_Answered:
  assumes "resolve_account srv c s = (Inr (Answered a), s')"
  shows "acc_id a = fc_account_id c" "acc_active a" "acc_verified a" "acc_epoch a = fc_security_epoch c"
    and "\<exists>s1. rfs_get_by_id srv (fc_account_id c) s = (Inr (Some a), s1) \<and>
      rfs_current_epoch srv (fc_account_id c) s1 = (Inr (Some (acc_epoch a)), s')"
proof -
  obtain found epoch s1 s2 where look: "rfs_get_by_id srv (fc_account_id c) s = (Inr found, s1)"
      "rfs_current_epoch srv (fc_account_id c) s1 = (Inr epoch, s2)"
    and rest: "(case found of None \<Rightarrow> pure Answer_Invalid
          | Some a \<Rightarrow>
              if acc_id a \<noteq> fc_account_id c \<or> \<not> acc_active a \<or> \<not> acc_verified a \<or>
                 acc_epoch a \<noteq> fc_security_epoch c \<or>
                 (case epoch of None \<Rightarrow> True
                  | Some e \<Rightarrow> \<not> valid_security_epoch e \<or> e \<noteq> fc_security_epoch c)
              then pure Answer_Invalid
              else pure (Answered a)) s2 = (Inr (Answered a), s')"
    using assms unfolding resolve_account_def guarded_Answered run_ok by auto
  then show "acc_id a = fc_account_id c" "acc_active a" "acc_verified a" "acc_epoch a = fc_security_epoch c"
    "\<exists>s1. rfs_get_by_id srv (fc_account_id c) s = (Inr (Some a), s1) \<and>
      rfs_current_epoch srv (fc_account_id c) s1 = (Inr (Some (acc_epoch a)), s')"
    by (auto split: option.splits if_splits)
qed

lemma guarded_keeps: "keeps view m \<Longrightarrow> (\<And>a. keeps view (f a)) \<Longrightarrow> keeps view (guarded m f)"
  by (auto simp: keeps_def guarded_def split: prod.splits sum.splits) (metis snd_conv)+

lemma resolve_account_keeps: "ports_keep view srv \<Longrightarrow> keeps view (resolve_account srv c)"
  unfolding resolve_account_def
  by (intro guarded_keeps keeps_call) (auto simp: ports_keep_def split: option.splits)

lemma guard_check_keeps:
  assumes "\<And>r. keeps view (rlg_acquire g r)" "keeps view (rlg_event_ids g)" "keeps view (rlg_clock g)"
    "\<And>e. keeps view (rlg_sink g e)"
  shows "view (snd (guard_check hmac g op ck ident s)) = view s"
proof -
  have "keeps view (call (rlg_event_ids g) (\<lambda>event_id. call (rlg_clock g) (\<lambda>reading.
      call (lift_result (aware_utc_time reading)) (\<lambda>now. rlg_sink g (f event_id now)))))" for f
    using assms by (intro keeps_call keeps_basic)
  then have denial: "view (emit_denial g op s) = view s" for s
    by (simp add: emit_denial_def keeps_def)
  define m where "m = call (lift_result (rate_limit_attempt_post_init
      \<lparr>rla_operation = op, rla_client_key = ck,
       rla_subject_digest = map_option (subject_digest hmac (rlg_pepper g)) ident, rla_cost = 1\<rparr>))
      (rlg_acquire g)"
  have "keeps view m"
    unfolding m_def using assms(1) by (intro keeps_call keeps_basic)
  then have "view (snd (m s)) = view s"
    by (simp add: keeps_def)
  then show ?thesis
    unfolding guard_check_def m_def [symmetric]
    by (cases "m s"; cases "fst (m s)") (simp_all add: denial)
qed

lemma refresh_context_Inr:
  assumes "refresh_context t = Inr c"
  shows "fc_family_expires_at c = rs_family_expires_at t" "fc_token_expires_at c = rs_token_expires_at t"
    "fc_account_id c = rs_account_id t" "fc_family_id c = rs_family_id t"
    "fc_security_epoch c = rs_security_epoch t" "fc_scopes c = rs_scopes t" "fc_evidence c = None"
  using assms by (auto simp: refresh_context_def family_context_post_init_def split: if_splits)

text \<open>
  What a pair handed out for a presented token means, at the time \<open>now\<close> the service clock answered
  and in terms of the accounts and of the tokens before and after. The token is stored with the
  digest of its secret, its family is not revoked and the stored account of the token is active,
  verified and at the token's epoch. If the token was live, neither it nor its family has expired,
  the idempotency key is absent or well formed, the token is now spent under that key's digest, its
  family has exactly one new token, which the pair carries beside an access token issued for that
  account and those scopes, and the receipt stored with the spent token opens to this very pair. If
  it was spent already, the same key is presented again, nothing changed and the pair is what the
  stored receipt opens to. A receipt opens only under the token's own identifiers, account, epoch
  and key digest, before it expires.
\<close>

definition receipt_scope :: "refresh_state \<Rightarrow> string \<Rightarrow> bytes option \<Rightarrow> receipt_context" where
  "receipt_scope t k d =
     \<lparr>rcx_token_id = k, rcx_family_id = rs_family_id t, rcx_account_id = rs_account_id t,
      rcx_security_epoch = rs_security_epoch t, rcx_idempotency_digest = d\<rparr>"

definition presented_digest :: "('s, 'u) refresh_service \<Rightarrow> string \<Rightarrow> string option \<Rightarrow> bytes option" where
  "presented_digest srv k key =
     Option.bind key (digest_idempotency_key (rfs_hmac srv) (rfs_pepper srv) k)"

definition next_member :: "('s, 'u) refresh_service \<Rightarrow> refresh_state \<Rightarrow> token_grant \<Rightarrow> time \<Rightarrow> refresh_state" where
  "next_member srv t g now =
     \<lparr>rs_token_id = tg_token_id g, rs_token_digest = tg_digest g, rs_account_id = rs_account_id t,
      rs_family_id = rs_family_id t, rs_security_epoch = rs_security_epoch t,
      rs_token_expires_at = min (now + rfs_idle_lifetime srv) (rs_family_expires_at t),
      rs_family_expires_at = rs_family_expires_at t, rs_scopes = rs_scopes t,
      rs_consumed = False, rs_revoked = False, rs_idempotency_digest = None, rs_sealed_receipt = None\<rparr>"

definition pair_issued_for ::
  "('s, 'u) refresh_service \<Rightarrow> 'u account \<Rightarrow> string set \<Rightarrow> time \<Rightarrow> token_grant \<Rightarrow> token_pair \<Rightarrow> bool" where
  "pair_issued_for srv account scopes now g p \<longleftrightarrow>
     pair_refresh_token p = tg_refresh_token g \<and>
     (\<exists>x s s'. rfs_access srv account scopes None now s = (Inr (Verified x), s') \<and>
        pair_access_token p = lat_access_token x \<and> pair_expires_in p = lat_expires_in x)"

definition receipt_opens ::
  "('s, 'u) refresh_service \<Rightarrow> refresh_state \<Rightarrow> string \<Rightarrow> bytes option \<Rightarrow> time \<Rightarrow> bytes \<Rightarrow> token_pair \<Rightarrow> bool" where
  "receipt_opens srv t k d now b p \<longleftrightarrow>
     unseal (rfs_aead srv) (rfs_loads srv) (rfs_sealer srv) b (receipt_scope t k d) (Aware now) = Some p"

definition entitled_account :: "(string \<Rightarrow> 'u account option) \<Rightarrow> refresh_state \<Rightarrow> 'u account \<Rightarrow> bool" where
  "entitled_account accounts t a \<longleftrightarrow>
     accounts (rs_account_id t) = Some a \<and> acc_id a = rs_account_id t \<and> acc_active a \<and> acc_verified a \<and>
     acc_epoch a = rs_security_epoch t"

definition rotation_answer ::
  "('s, 'u) refresh_service \<Rightarrow> string \<Rightarrow> string option \<Rightarrow> time \<Rightarrow> (string \<Rightarrow> 'u account option) \<Rightarrow>
     (string \<Rightarrow> refresh_state option) \<Rightarrow> (string \<Rightarrow> refresh_state option) \<Rightarrow> token_pair \<Rightarrow> bool" where
  "rotation_answer srv tok key now accounts before after p \<longleftrightarrow>
     (\<exists>k secret t a. parse_refresh_token tok = Some (k, secret) \<and> before k = Some t \<and>
        rs_token_digest t = token_digest (rfs_hmac srv) (rfs_pepper srv) k secret \<and> \<not> rs_revoked t \<and>
        entitled_account accounts t a \<and>
        (if rs_consumed t then
           after = before \<and> rs_idempotency_digest t = presented_digest srv k key \<and>
           (\<exists>b. rs_sealed_receipt t = Some b \<and> receipt_opens srv t k (presented_digest srv k key) now b p)
         else
           now < rs_token_expires_at t \<and> now < rs_family_expires_at t \<and>
           (key = None \<or> presented_digest srv k key \<noteq> None) \<and>
           (\<exists>g b. fresh_grant srv g \<and> before (tg_token_id g) = None \<and>
              after = before(k \<mapsto> t\<lparr>rs_consumed := True,
                  rs_idempotency_digest := presented_digest srv k key, rs_sealed_receipt := Some b\<rparr>,
                tg_token_id g \<mapsto> next_member srv t g now) \<and>
              pair_issued_for srv a (rs_scopes t) now g p \<and>
              receipt_opens srv t k (presented_digest srv k key) now b p)))"

text \<open>The state in which the service reads its clock: after the limiter, when there is one.\<close>

definition rotation_start :: "('s, 'u) refresh_service \<Rightarrow> string option \<Rightarrow> 's \<Rightarrow> 's" where
  "rotation_start srv client s =
     (case rfs_limits srv of None \<Rightarrow> s
      | Some g \<Rightarrow> snd (guard_check (rfs_hmac srv) g ''local.refresh.rotate'' client None s))"

lemma presented_idempotency_digest:
  assumes "tp_token_id proof = k"
  shows "fst (presented_idempotency srv proof key) = presented_digest srv k key"
    and "snd (presented_idempotency srv proof key) \<longleftrightarrow> key \<noteq> None \<and> presented_digest srv k key = None"
  using assms by (auto simp: presented_idempotency_def presented_digest_def split: option.splits)

lemma receipt_context_of_Inr:
  assumes "receipt_context_of c k d = Inr rc" "refresh_context t = Inr c"
  shows "rc = receipt_scope t k d"
  using assms refresh_context_Inr [OF assms(2)]
  by (auto simp: receipt_context_of_def receipt_context_post_init_def receipt_scope_def split: if_splits)

section \<open>The store contract\<close>

locale refresh_family_store =
  fixes st :: "'s family_store" and tokens :: "'s \<Rightarrow> string \<Rightarrow> refresh_state option"
    and accounts :: "'s \<Rightarrow> string \<Rightarrow> 'u account option"
  assumes prepare_active: "fst_prepare st p d now ev s = (Inr (Active c), s') \<Longrightarrow>
      \<exists>t. tokens s (tp_token_id p) = Some t \<and> rs_token_digest t = tp_digest p \<and> live_token t \<and>
        now < rs_token_expires_at t \<and> now < rs_family_expires_at t \<and> refresh_context t = Inr c \<and>
        tokens s' = tokens s \<and> accounts s' = accounts s"
    and prepare_replay: "fst_prepare st p d now ev s = (Inr (Replay r), s') \<Longrightarrow>
      \<exists>t. tokens s (tp_token_id p) = Some t \<and> rs_token_digest t = tp_digest p \<and> rs_consumed t \<and>
        \<not> rs_revoked t \<and> rs_sealed_receipt t = Some (rx_sealed_receipt r) \<and>
        rs_idempotency_digest t = d \<and> refresh_context t = Inr (rx_context r) \<and> tokens s' = tokens s \<and>
        accounts s' = accounts s"
    and rotate_won: "fst_rotate st cmd now ev s = (Inr w, s') \<Longrightarrow>
        rr_status w \<in> {Rotated, Idempotent_Replay} \<Longrightarrow>
      \<exists>t. tokens s (rc_token_id cmd) = Some t \<and> live_token t \<and>
        tokens s (rc_successor_id cmd) = None \<and> rr_sealed_receipt w = Some (rc_sealed_receipt cmd) \<and>
        tokens s' = (tokens s)(rc_token_id cmd \<mapsto> consumed_state cmd t, rc_successor_id cmd \<mapsto> successor_state cmd)"
begin

abbreviation holdings :: "'s \<Rightarrow> (string \<Rightarrow> refresh_state option) \<times> (string \<Rightarrow> 'u account option)" where
  "holdings s \<equiv> (tokens s, accounts s)"

lemma rotate_active_sound:
  assumes won: "rotate_active srv proof c d now a s = (Inr (Answered p), s')"
    and st: "rfs_store srv = st" and works: "receipts_work srv" and keeps: "ports_keep holdings srv"
    and time: "0 < now" "now < fc_family_expires_at c" "fc_family_expires_at c < 10 ^ 18"
    and tok: "tokens s (tp_token_id proof) = Some t" and ctx: "refresh_context t = Inr c"
  shows "\<exists>g b. fresh_grant srv g \<and> tokens s (tg_token_id g) = None \<and>
      tokens s' = (tokens s)(tp_token_id proof \<mapsto> t\<lparr>rs_consumed := True,
          rs_idempotency_digest := d, rs_sealed_receipt := Some b\<rparr>,
        tg_token_id g \<mapsto> next_member srv t g now) \<and>
      pair_issued_for srv a (rs_scopes t) now g p \<and>
      receipt_opens srv t (tp_token_id proof) d now b p"
proof -
  obtain g outcome s2 access response rc result s5 where
      materials: "rotation_materials srv c now a s = (Inr (g, outcome), s2)"
    and outcome: "outcome = Verified access" and response: "successor_pair access g = Inr response"
    and rc: "receipt_context_of c (tp_token_id proof) d = Inr rc"
    and commit: "commit_rotation srv proof c d now g response rc s2 = (Inr result, s5)"
    and status: "rr_status result \<in> {Rotated, Idempotent_Replay}"
    and rec: "recover_receipt srv c (rr_sealed_receipt result) (tp_token_id proof) d now s5 =
        (Inr (Answered p), s')"
    using won unfolding rotate_active_def
    by (auto simp: answered simp del: call_lift split: if_splits)
  define e where "e = min (now + rfs_receipt_window srv) (fc_family_expires_at c)"
  obtain sealed s3 cmd event s4 where
      sealed: "seal (rfs_aead srv) (rfs_sealer srv) response rc (Aware e) s2 = (Inr sealed, s3)"
    and cmd: "rotation_command srv proof c d g sealed now = Inr cmd"
    and event: "refresh_event srv now ''local.refresh.rotate'' ''attempted''
        (Some (fc_account_id c)) (Some (fc_family_id c)) s3 = (Inr event, s4)"
    and rot: "fst_rotate st cmd now event s4 = (Inr result, s5)"
    using commit unfolding commit_rotation_def run_ok st e_def by blast
  obtain s1 where g: "issue_refresh_token srv s = (Inr g, s1)"
    and access: "rfs_access srv a (fc_scopes c) (fc_evidence c) now s1 = (Inr outcome, s2)"
    using materials unfolding rotation_materials_def run_ok by auto
  have k: "keeps holdings (issue_refresh_token srv)" "\<And>a sc ev t. keeps holdings (rfs_access srv a sc ev t)"
    "\<And>e p rc t. keeps holdings (seal e (rfs_sealer srv) p rc t)"
    "\<And>t op oc a f. keeps holdings (refresh_event srv t op oc a f)"
    using keeps by (auto simp: ports_keep_def intro!: issue_refresh_token_keeps seal_keeps refresh_event_keeps)
  then have same: "tokens s4 = tokens s"
    using keepsD [OF k(1) g] keepsD [OF k(2) access] keepsD [OF k(3) sealed] keepsD [OF k(4) event] by simp
  note cmd' = rotation_command_Inr [OF cmd] and ctx' = refresh_context_Inr [OF ctx]
  have spent: "rr_sealed_receipt result = Some sealed" "tokens s (tg_token_id g) = None"
      "tokens s5 = (tokens s)(tp_token_id proof \<mapsto> consumed_state cmd t, tg_token_id g \<mapsto> successor_state cmd)"
    using rotate_won [OF rot status] same cmd' tok by auto
  have states: "consumed_state cmd t =
      t\<lparr>rs_consumed := True, rs_idempotency_digest := d, rs_sealed_receipt := Some sealed\<rparr>"
    "successor_state cmd = next_member srv t g now"
    using cmd' ctx' by (simp_all add: consumed_state_def successor_state_def next_member_def)
  have pair: "response = \<lparr>pair_access_token = lat_access_token access,
      pair_refresh_token = tg_refresh_token g, pair_expires_in = lat_expires_in access\<rparr>"
    "token_pair_post_init response = Inr response"
    using response by (auto simp: successor_pair_def token_pair_post_init_def split: if_splits)
  have window: "0 < rfs_receipt_window srv" and crypto: "sealer_ok (rfs_sealer srv)"
      "aead_inverts (rfs_aead srv)" "loads_payload (rfs_loads srv)"
    using works by (auto simp: receipts_work_def refresh_service_post_init_def split: if_splits)
  have e: "now < e" "e < 10 ^ 18" "receipt_expiry (Aware e) = Inr e"
    using time window by (auto simp: e_def receipt_expiry_def)
  have opens: "unseal (rfs_aead srv) (rfs_loads srv) (rfs_sealer srv) sealed rc (Aware now) = Some response"
    using unseal_sealed [OF sealed crypto(1) pair(2) e(3,2) crypto(2,3)] e(1) by simp
  then have "p = response" "s' = s5"
    using rec spent(1) rc by (auto simp: recover_receipt_Answered)
  moreover have "pair_issued_for srv a (rs_scopes t) now g response"
    using access outcome pair(1) ctx' unfolding pair_issued_for_def by auto
  ultimately show ?thesis
    using spent states opens issue_refresh_token_Inr(1) [OF g] receipt_context_of_Inr [OF rc ctx]
    unfolding receipt_opens_def by (intro exI [of _ g] exI [of _ sealed]) simp
qed

lemma resolve_account_entitled:
  assumes a: "resolve_account srv c s = (Inr (Answered a), s')" and ctx: "refresh_context t = Inr c"
    and reads: "\<And>k s f s'. rfs_get_by_id srv k s = (Inr f, s') \<Longrightarrow> f = accounts s k"
  shows "entitled_account (accounts s) t a"
  using resolve_account_Answered [OF a] refresh_context_Inr [OF ctx] reads
  unfolding entitled_account_def by fastforce

lemma rotate_verified_sound:
  assumes won: "rotate_verified srv tok key clock s = (Inr (Answered p), s')"
    and st: "rfs_store srv = st" and works: "receipts_work srv" and keeps: "ports_keep holdings srv"
    and reads: "\<And>k s f s'. rfs_get_by_id srv k s = (Inr f, s') \<Longrightarrow> f = accounts s k"
    and late: "\<And>s t s'. service_time srv clock s = (Inr t, s') \<Longrightarrow> 0 < t"
    and bounded: "\<And>k t. tokens s k = Some t \<Longrightarrow> rs_family_expires_at t < 10 ^ 18"
  shows "\<exists>now s1. service_time srv clock s = (Inr now, s1) \<and>
    rotation_answer srv tok key now (accounts s) (tokens s) (tokens s') p"
proof -
  obtain pres where ver: "codec_verify (rfs_hmac srv) (rfs_pepper srv) tok = Inr (Some pres)"
    and run: "guarded (preflight_presented srv pres (fst (presented_idempotency srv pres key)) clock)
       (\<lambda>preflight. rotate_prepared srv pres (fst (presented_idempotency srv pres key))
          (snd (presented_idempotency srv pres key)) (fst preflight) (snd preflight)) s = (Inr (Answered p), s')"
    using won unfolding rotate_verified_def run_ok Let_def by (auto split: option.splits)
  obtain k secret where k: "parse_refresh_token tok = Some (k, secret)" "tp_token_id pres = k"
      "tp_digest pres = token_digest (rfs_hmac srv) (rfs_pepper srv) k secret"
    using ver by (auto simp: codec_verify_def token_proof_post_init_def result_simps split: option.splits if_splits)
  define d where "d = presented_digest srv k key"
  define bad where "bad \<longleftrightarrow> key \<noteq> None \<and> presented_digest srv k key = None"
  obtain now prep s3 where pre: "preflight_presented srv pres d clock s = (Inr (now, prep), s3)"
    and rest: "rotate_prepared srv pres d bad now prep s3 = (Inr (Answered p), s')"
    using run unfolding guarded_Answered d_def bad_def presented_idempotency_digest [OF k(2)] by auto
  obtain event s1 s2 where time: "service_time srv clock s = (Inr now, s1)"
    and event: "refresh_event srv now ''local.refresh.prepare'' ''attempted'' None None s1 = (Inr event, s2)"
    and prep: "fst_prepare st pres d now event s2 = (Inr prep, s3)"
    using pre unfolding preflight_presented_def st run_ok by auto
  have ports: "keeps holdings (service_time srv clock)" "\<And>t op oc a f. keeps holdings (refresh_event srv t op oc a f)"
    using keeps by (auto simp: ports_keep_def intro!: service_time_keeps refresh_event_keeps)
  then have s2: "tokens s2 = tokens s" "accounts s2 = accounts s"
    using keepsD [OF ports(1) time] keepsD [OF ports(2) event] by simp_all
  note account = resolve_account_keeps [OF keeps]
  have "rotation_answer srv tok key now (accounts s) (tokens s) (tokens s') p"
  proof (cases prep)
    case (Refused r)
    with rest show ?thesis by (simp add: rotate_prepared_def)
  next
    case (Replay r)
    from prepare_replay [OF prep [unfolded Replay]] obtain t where t: "tokens s k = Some t"
        "rs_token_digest t = tp_digest pres" "rs_consumed t" "\<not> rs_revoked t"
        "rs_sealed_receipt t = Some (rx_sealed_receipt r)" "refresh_context t = Inr (rx_context r)"
        "tokens s3 = tokens s" "accounts s3 = accounts s" "rs_idempotency_digest t = d"
      using s2 k(2) by auto
    obtain a s4 where a: "resolve_account srv (rx_context r) s3 = (Inr (Answered a), s4)"
      and rec: "recover_receipt srv (rx_context r) (Some (rx_sealed_receipt r)) k d now s4 = (Inr (Answered p), s')"
      using rest unfolding Replay rotate_prepared_def prepared.case call_eq_Inr answered_case k(2) by blast
    have "tokens s4 = tokens s"
      using keepsD [OF account a] t(7) by simp
    moreover have "receipt_opens srv t k d now (rx_sealed_receipt r) p" "s' = s4"
      using rec receipt_context_of_Inr [OF _ t(6)] by (auto simp: recover_receipt_Answered receipt_opens_def)
    ultimately show ?thesis
      using t k resolve_account_entitled [OF a t(6) reads] unfolding rotation_answer_def d_def
      by (intro exI [of _ k] exI [of _ secret] exI [of _ t] exI [of _ a]) auto
  next
    case (Active c)
    from prepare_active [OF prep [unfolded Active]] obtain t where t: "tokens s k = Some t"
        "rs_token_digest t = tp_digest pres" "live_token t" "now < rs_token_expires_at t"
        "now < rs_family_expires_at t" "refresh_context t = Inr c" "tokens s3 = tokens s"
        "accounts s3 = accounts s"
      using s2 k(2) by auto
    obtain a s4 where a: "resolve_account srv c s3 = (Inr (Answered a), s4)"
      and rot: "rotate_active srv pres c d now a s4 = (Inr (Answered p), s')" and good: "\<not> bad"
      using rest unfolding Active rotate_prepared_def prepared.case
      by (auto simp: call_eq_Inr answered_case split: if_splits)
    have s4: "tokens s4 = tokens s"
      using keepsD [OF account a] t(7) by simp
    obtain g b where "fresh_grant srv g" "tokens s (tg_token_id g) = None"
        "tokens s' = (tokens s)(k \<mapsto> t\<lparr>rs_consumed := True, rs_idempotency_digest := d,
           rs_sealed_receipt := Some b\<rparr>, tg_token_id g \<mapsto> next_member srv t g now)"
        "pair_issued_for srv a (rs_scopes t) now g p" "receipt_opens srv t k d now b p"
      using rotate_active_sound [OF rot st works keeps late [OF time] _ _ _ t(6)]
        refresh_context_Inr(1) [OF t(6)] t(1,5) bounded s4 k(2) by auto
    then show ?thesis
      using t k good resolve_account_entitled [OF a t(6) reads]
      unfolding rotation_answer_def d_def bad_def live_token_def
      by (intro exI [of _ k] exI [of _ secret] exI [of _ t] exI [of _ a]) auto
  qed
  with time show ?thesis by blast
qed

lemma rotate_token_sound:
  assumes won: "rotate_token srv tok key clock client s = (Inr (Answered p), s')"
    and st: "rfs_store srv = st" and works: "receipts_work srv" and keeps: "ports_keep holdings srv"
    and reads: "\<And>k s f s'. rfs_get_by_id srv k s = (Inr f, s') \<Longrightarrow> f = accounts s k"
    and late: "\<And>s t s'. service_time srv clock s = (Inr t, s') \<Longrightarrow> 0 < t"
    and bounded: "\<And>k t. tokens s k = Some t \<Longrightarrow> rs_family_expires_at t < 10 ^ 18"
  shows "\<exists>now s1. service_time srv clock (rotation_start srv client s) = (Inr now, s1) \<and>
    rotation_answer srv tok key now (accounts s) (tokens s) (tokens s') p"
proof -
  define s0 where "s0 = rotation_start srv client s"
  have run: "rotate_verified srv tok key clock s0 = (Inr (Answered p), s')"
    using won by (auto simp: s0_def rotation_start_def rotate_token_def
        split: option.splits prod.splits limit_outcome.splits)
  have "holdings (snd (guard_check (rfs_hmac srv) g ''local.refresh.rotate'' client None s)) = holdings s"
    if "rfs_limits srv = Some g" for g
    using keeps that by (intro guard_check_keeps) (auto simp: ports_keep_def)
  then have "holdings s0 = holdings s"
    by (simp add: s0_def rotation_start_def split: option.splits)
  then have same: "tokens s0 = tokens s" "accounts s0 = accounts s"
    by simp_all
  have "\<exists>now s1. service_time srv clock s0 = (Inr now, s1) \<and>
      rotation_answer srv tok key now (accounts s0) (tokens s0) (tokens s') p"
    by (rule rotate_verified_sound [OF run st works keeps], erule reads, erule late, rule bounded, simp only: same)
  then show ?thesis
    by (simp only: same flip: s0_def)
qed

end

section \<open>The in-memory store\<close>

text \<open>The store and its backend, paired with the state of everything else.\<close>

definition memory_families :: "('u world \<times> 'e) family_store" where
  "memory_families =
     \<lparr>fst_create = (\<lambda>cmd ev. on_first (create_family cmd)),
      fst_prepare = (\<lambda>p d now ev. on_first (prepare_rotation p d now)),
      fst_rotate = (\<lambda>cmd now ev. on_first (rotate_refresh cmd now)),
      fst_revoke_family = (\<lambda>f ev. on_first (revoke_family f)),
      fst_revoke_token = (\<lambda>k d ev. on_first (revoke_token k d)),
      fst_revoke_token_for_account = (\<lambda>a k d ev. on_first (revoke_token_for_account a k d))\<rparr>"

definition memory_tokens :: "'u world \<times> 'e \<Rightarrow> string \<Rightarrow> refresh_state option" where
  "memory_tokens s = token_state (snd (fst s))"

definition memory_accounts :: "'u world \<times> 'e \<Rightarrow> string \<Rightarrow> 'u account option" where
  "memory_accounts s k = get_by_id k (snd (fst s))"

lemma observed_Inr:
  assumes "observed op details (on_store f) w = (Inr a, w')"
  shows "f (snd w) = (Inr a, snd w')"
  using assms by (auto simp: observed_def on_store_def split: prod.splits sum.splits)

lemma do_prepare_Replay:
  assumes "do_prepare_rotation p d now s = (Inr (Replay r), s')"
  shows "s' = s" and "\<exists>t. token_state s (tp_token_id p) = Some t \<and> rs_token_digest t = tp_digest p \<and>
    rs_consumed t \<and> \<not> rs_revoked t \<and> rs_sealed_receipt t = Some (rx_sealed_receipt r) \<and>
    rs_idempotency_digest t = d \<and> refresh_context t = Inr (rx_context r)"
  using assms
  by (auto simp: do_prepare_rotation_def token_state_def receipt_replay_post_init_def result_simps
      split: option.splits if_splits)

lemma do_rotate_won:
  assumes "do_rotate c now s = (Inr r, s')" "rr_status r \<in> {Rotated, Idempotent_Replay}"
  shows "\<exists>t. token_state s (rc_token_id c) = Some t \<and> live_token t \<and>
    token_state s (rc_successor_id c) = None \<and> rr_sealed_receipt r = Some (rc_sealed_receipt c) \<and>
    token_state s' = (token_state s)(rc_token_id c \<mapsto> consumed_state c t, rc_successor_id c \<mapsto> successor_state c)"
  using assms
  by (auto simp: do_rotate_def rotation_stale_def token_state_def live_token_def rotation_def
      rotation_outcome_post_init_def dget_dset fun_eq_iff split: option.splits if_splits)

interpretation memory: refresh_family_store memory_families memory_tokens memory_accounts
proof
  fix p d now ev c and s s' :: "'u world \<times> 'e"
  assume "fst_prepare memory_families p d now ev s = (Inr (Active c), s')"
  then have "do_prepare_rotation p d now (snd (fst s)) = (Inr (Active c), snd (fst s'))"
    by (auto simp: memory_families_def on_first_eq prepare_rotation_def dest: observed_Inr)
  then show "\<exists>t. memory_tokens s (tp_token_id p) = Some t \<and> rs_token_digest t = tp_digest p \<and> live_token t \<and>
      now < rs_token_expires_at t \<and> now < rs_family_expires_at t \<and> refresh_context t = Inr c \<and>
      memory_tokens s' = memory_tokens s \<and> memory_accounts s' = memory_accounts s"
    by (rule prepare_Active) (auto simp: memory_tokens_def memory_accounts_def fun_eq_iff)
next
  fix p d now ev r and s s' :: "'u world \<times> 'e"
  assume "fst_prepare memory_families p d now ev s = (Inr (Replay r), s')"
  then have "do_prepare_rotation p d now (snd (fst s)) = (Inr (Replay r), snd (fst s'))"
    by (auto simp: memory_families_def on_first_eq prepare_rotation_def dest: observed_Inr)
  from do_prepare_Replay [OF this] show "\<exists>t. memory_tokens s (tp_token_id p) = Some t \<and>
      rs_token_digest t = tp_digest p \<and> rs_consumed t \<and> \<not> rs_revoked t \<and>
      rs_sealed_receipt t = Some (rx_sealed_receipt r) \<and> rs_idempotency_digest t = d \<and>
      refresh_context t = Inr (rx_context r) \<and> memory_tokens s' = memory_tokens s \<and>
      memory_accounts s' = memory_accounts s"
    by (auto simp: memory_tokens_def memory_accounts_def fun_eq_iff)
next
  fix cmd now ev w and s s' :: "'u world \<times> 'e"
  assume "fst_rotate memory_families cmd now ev s = (Inr w, s')" "rr_status w \<in> {Rotated, Idempotent_Replay}"
  then have "do_rotate cmd now (snd (fst s)) = (Inr w, snd (fst s'))"
    by (auto simp: memory_families_def on_first_eq rotate_refresh_def dest: observed_Inr)
  from do_rotate_won [OF this] show "\<exists>t. memory_tokens s (rc_token_id cmd) = Some t \<and> live_token t \<and>
      memory_tokens s (rc_successor_id cmd) = None \<and> rr_sealed_receipt w = Some (rc_sealed_receipt cmd) \<and>
      memory_tokens s' = (memory_tokens s)(rc_token_id cmd \<mapsto> consumed_state cmd t,
        rc_successor_id cmd \<mapsto> successor_state cmd)"
    using \<open>rr_status w \<in> {Rotated, Idempotent_Replay}\<close> by (simp add: memory_tokens_def)
qed

end
