(* ===== verification/Refresh_Liveness.thy ===== *)
theory Refresh_Liveness
  imports Refresh_Rotation
begin

text \<open>
  Rotation makes progress on the in-memory store: a live, unexpired token of an active account is
  exchanged for a pair whenever the dependencies answer. \<open>answers\<close> says of a port that it returns,
  whatever the state, a value of a kind and leaves one view of the state alone; the view of the
  store is its content and its failpoints, since every operation adds to the event log.
\<close>

section \<open>Ports that answer\<close>

definition answers :: "('s \<Rightarrow> 'v) \<Rightarrow> ('a \<Rightarrow> bool) \<Rightarrow> ('s, 'a) port \<Rightarrow> bool" where
  "answers view P port \<longleftrightarrow> (\<forall>s. \<exists>a s'. port s = (Inr a, s') \<and> P a \<and> view s' = view s)"

lemma answersE:
  assumes "answers view P m"
  obtains a s' where "m s = (Inr a, s')" "P a" "view s' = view s"
  using assms unfolding answers_def by meson

lemma answers_pure: "P a \<Longrightarrow> answers view P (pure a)"
  by (simp add: answers_def)

lemma answers_lift: "r = Inr a \<Longrightarrow> P a \<Longrightarrow> answers view P (lift_result r)"
  by (simp add: answers_def)

lemma answers_call:
  assumes "answers view P m" "\<And>a. P a \<Longrightarrow> answers view Q (f a)"
  shows "answers view Q (call m f)"
  unfolding answers_def
proof
  fix s
  obtain a s1 where "m s = (Inr a, s1)" "P a" "view s1 = view s"
    using assms(1) by (rule answersE)
  moreover from assms(2) [OF this(2)] obtain b s2 where "f a s1 = (Inr b, s2)" "Q b" "view s2 = view s1"
    by (rule answersE)
  ultimately show "\<exists>a s'. call m f s = (Inr a, s') \<and> Q a \<and> view s' = view s"
    by (simp add: call_def)
qed

section \<open>The view of the store\<close>

definition memory_view :: "'u world \<times> 'e \<Rightarrow> (string, py_error) dict \<times> 'u local_store" where
  "memory_view s = (failpoints (fst (fst s)), snd (fst s))"

definition memory_get_by_id :: "string \<Rightarrow> ('u world \<times> 'e, 'u account option) port" where
  "memory_get_by_id k = on_first (\<lambda>w. (Inr (get_by_id k (snd w)), w))"

definition memory_current_epoch :: "string \<Rightarrow> ('u world \<times> 'e, int option) port" where
  "memory_current_epoch k = on_first (\<lambda>w. (Inr (current_epoch k (snd w)), w))"

lemma observed_on_store_run:
  assumes "dget (failpoints (fst w)) op = None" "f (snd w) = (r, st')"
  shows "\<exists>b. observed op details (on_store f) w = (r, (b, st')) \<and> failpoints b = failpoints (fst w)"
  using assms by (simp add: observed_def observe_def Let_def on_store_def)

lemma on_first_observed:
  assumes "memory_view s = (fp, st)" "dget fp op = None" "f st = (r, st')"
  shows "\<exists>s'. on_first (observed op details (on_store f)) s = (r, s') \<and> memory_view s' = (fp, st')"
proof -
  have w: "failpoints (fst (fst s)) = fp" "snd (fst s) = st"
    using assms(1) by (simp_all add: memory_view_def)
  then obtain b where "observed op details (on_store f) (fst s) = (r, (b, st'))" "failpoints b = fp"
    using observed_on_store_run [of "fst s" op f r st' details] assms(2,3) by auto
  then show ?thesis
    by (auto simp: on_first_def memory_view_def)
qed


section \<open>Dependencies\<close>

text \<open>
  Everything but the store answers: the clock says \<open>now\<close>, identifiers are well formed, entropy has
  the length asked for and the lookup part is not an identifier in use, the access-token issuer
  returns a valid token, the limiter, if any, lets the attempt pass.
\<close>

definition dependencies_answer ::
  "('u world \<times> 'e, 'u) refresh_service \<Rightarrow> py_datetime option \<Rightarrow> string option \<Rightarrow> 'u local_store \<Rightarrow>
     time \<Rightarrow> bool" where
  "dependencies_answer srv clock client st now \<longleftrightarrow>
     rfs_store srv = memory_families \<and> rfs_get_by_id srv = memory_get_by_id \<and>
     rfs_current_epoch srv = memory_current_epoch \<and>
     answers memory_view (\<lambda>t. t = now) (service_time srv clock) \<and>
     answers memory_view strict_context_text (rfs_event_ids srv) \<and>
     answers memory_view (\<lambda>b. length b = lookup_bytes \<and> token_state st (''rt_'' @ encode_random b) = None)
       (rfs_entropy srv lookup_bytes) \<and>
     answers memory_view (\<lambda>b. length b = secret_bytes) (rfs_entropy srv secret_bytes) \<and>
     answers memory_view (\<lambda>b. length b = 12) (rsl_entropy (rfs_sealer srv) 12) \<and>
     (\<forall>a sc ev. answers memory_view (\<lambda>v. \<exists>x. v = Verified x \<and> valid_compact_jwt (lat_access_token x) \<and>
        30 \<le> lat_expires_in x \<and> lat_expires_in x \<le> 3600) (rfs_access srv a sc ev now)) \<and>
     (\<forall>k m. length (rfs_hmac srv k m) = digest_bytes) \<and>
     (case rfs_limits srv of None \<Rightarrow> True
      | Some g \<Rightarrow> \<forall>s. \<exists>s'. guard_check (rfs_hmac srv) g ''local.refresh.rotate'' client None s = (Proceed, s') \<and>
          memory_view s' = memory_view s)"

lemma refresh_event_answers:
  "answers view strict_context_text (rfs_event_ids srv) \<Longrightarrow> answers view (\<lambda>_. True) (refresh_event srv t op oc a f)"
  unfolding refresh_event_def by (erule answers_call) (auto intro: answers_pure)

lemma codec_issue_ok:
  assumes "length lookup = lookup_bytes" "length secret = secret_bytes" "\<And>k m. length (hmac k m) = digest_bytes"
  shows "\<exists>g. codec_issue hmac pepper lookup secret = Inr g \<and> tg_token_id g = ''rt_'' @ encode_random lookup \<and>
    parse_refresh_token (tg_refresh_token g) \<noteq> None \<and> length (tg_digest g) = digest_bytes \<and>
    valid_identifier (Some ''rt_'') (tg_token_id g)"
proof -
  let ?t = "''rt_'' @ encode_random lookup"
  have v: "valid_identifier (Some ''rt_'') ?t"
    using assms(1) by (auto simp: valid_identifier_prefix_iff)
  then have "parse_refresh_token (?t @ ''.'' @ encode_random secret) = Some (?t, secret)"
    unfolding parse_refresh_token_iff using assms(2) by simp
  with v assms show ?thesis
    by (simp add: codec_issue_def Let_def token_grant_post_init_def token_digest_def)
qed

text \<open>The materials of a rotation: a fresh successor and an access token that fit together.\<close>

definition good_materials :: "'u local_store \<Rightarrow> token_grant \<times> local_access_token verdict \<Rightarrow> bool" where
  "good_materials st m \<longleftrightarrow>
     (\<exists>x p. snd m = Verified x \<and> successor_pair x (fst m) = Inr p \<and> token_pair_post_init p = Inr p) \<and>
     length (tg_digest (fst m)) = digest_bytes \<and> token_state st (tg_token_id (fst m)) = None \<and>
     valid_identifier (Some ''rt_'') (tg_token_id (fst m))"

lemma rotation_materials_answers:
  assumes d: "dependencies_answer srv clock client st now"
  shows "answers memory_view (good_materials st) (rotation_materials srv c now a)"
proof -
  let ?grant = "\<lambda>g. parse_refresh_token (tg_refresh_token g) \<noteq> None \<and> length (tg_digest g) = digest_bytes \<and>
    token_state st (tg_token_id g) = None \<and> valid_identifier (Some ''rt_'') (tg_token_id g)"
  have hmac: "\<And>k m. length (rfs_hmac srv k m) = digest_bytes"
    and entropy: "answers memory_view
        (\<lambda>b. length b = lookup_bytes \<and> token_state st (''rt_'' @ encode_random b) = None)
        (rfs_entropy srv lookup_bytes)"
      "answers memory_view (\<lambda>b. length b = secret_bytes) (rfs_entropy srv secret_bytes)"
    and access: "\<And>a sc ev. answers memory_view (\<lambda>v. \<exists>x. v = Verified x \<and>
        valid_compact_jwt (lat_access_token x) \<and> 30 \<le> lat_expires_in x \<and> lat_expires_in x \<le> 3600)
        (rfs_access srv a sc ev now)"
    using d by (simp_all add: dependencies_answer_def)
  have "answers memory_view ?grant (issue_refresh_token srv)"
    unfolding issue_refresh_token_def
  proof (rule answers_call [OF entropy(1)], rule answers_call [OF entropy(2)])
    fix lookup secret :: bytes
    assume "length lookup = lookup_bytes \<and> token_state st (''rt_'' @ encode_random lookup) = None"
      "length secret = secret_bytes"
    then show "answers memory_view ?grant (lift_result (codec_issue (rfs_hmac srv) (rfs_pepper srv) lookup secret))"
      using codec_issue_ok [of lookup secret "rfs_hmac srv" "rfs_pepper srv"] hmac
      by (auto intro!: answers_lift)
  qed
  then show ?thesis
    unfolding rotation_materials_def
  proof (rule answers_call)
    fix g :: token_grant
    assume "?grant g"
    then show "answers memory_view (good_materials st)
        (call (rfs_access srv a (fc_scopes c) (fc_evidence c) now) (\<lambda>outcome. pure (g, outcome)))"
      by (intro answers_call [OF access] answers_pure)
        (auto simp: good_materials_def successor_pair_def token_pair_post_init_def)
  qed
qed

section \<open>The steps run\<close>

text \<open>A live token that a rotation may spend: unexpired, its account active, verified, same epoch.\<close>

definition spendable :: "'u local_store \<Rightarrow> string \<Rightarrow> refresh_state \<Rightarrow> time \<Rightarrow> bool" where
  "spendable st k t now \<longleftrightarrow>
     token_state st k = Some t \<and> live_token t \<and> valid_state t \<and>
     now < rs_token_expires_at t \<and> rs_family_expires_at t < 10 ^ 18 \<and> 0 < now \<and>
     (\<exists>a. dget (st_accounts st) (rs_account_id t) = Some a \<and> acc_id a = rs_account_id t \<and>
        acc_active a \<and> acc_verified a \<and> acc_epoch a = rs_security_epoch t)"

lemma spendable_context:
  assumes "spendable st k t now" "valid_identifier (Some ''rt_'') k"
    and "case d of None \<Rightarrow> True | Some b \<Rightarrow> length b = digest_bytes"
  shows "refresh_context t = Inr \<lparr>fc_account_id = rs_account_id t, fc_family_id = rs_family_id t,
     fc_security_epoch = rs_security_epoch t, fc_token_expires_at = rs_token_expires_at t,
     fc_family_expires_at = rs_family_expires_at t, fc_scopes = rs_scopes t, fc_evidence = None\<rparr>"
    and "refresh_context t = Inr c \<Longrightarrow> \<exists>rc. receipt_context_of c k d = Inr rc"
proof -
  have "valid_state t"
    using assms(1) by (simp add: spendable_def)
  then show ctx: "refresh_context t = Inr \<lparr>fc_account_id = rs_account_id t, fc_family_id = rs_family_id t,
     fc_security_epoch = rs_security_epoch t, fc_token_expires_at = rs_token_expires_at t,
     fc_family_expires_at = rs_family_expires_at t, fc_scopes = rs_scopes t, fc_evidence = None\<rparr>"
    by (rule valid_state_context)
  show "\<exists>rc. receipt_context_of c k d = Inr rc" if "refresh_context t = Inr c"
    using that \<open>valid_state t\<close> assms(2,3) unfolding ctx
    by (auto simp: receipt_context_of_def receipt_context_post_init_def valid_state_def split: option.splits)
qed

lemma prepare_spendable:
  assumes s: "spendable st k t now" and p: "tp_token_id p = k" "rs_token_digest t = tp_digest p"
    and view: "memory_view s = (fp, st)" "dget fp ''accounts.prepare_refresh_rotation'' = None"
    and c: "refresh_context t = Inr c"
  shows "\<exists>s'. fst_prepare memory_families p d now ev s = (Inr (Active c), s') \<and> memory_view s' = (fp, st)"
proof -
  have "now < rs_family_expires_at t"
    using s by (auto simp: spendable_def valid_state_def)
  then have "do_prepare_rotation p d now st = (Inr (Active c), st)"
    using s p c by (auto simp: do_prepare_rotation_def spendable_def live_token_def token_state_def)
  from on_first_observed [where f = "do_prepare_rotation p d now", OF view this] show ?thesis
    by (simp add: memory_families_def prepare_rotation_def)
qed

lemma resolve_spendable:
  assumes s: "spendable st k t now" and c: "refresh_context t = Inr c" and view: "memory_view s = (fp, st)"
    and srv: "rfs_get_by_id srv = memory_get_by_id" "rfs_current_epoch srv = memory_current_epoch"
  shows "\<exists>a. resolve_account srv c s = (Inr (Answered a), s)"
proof -
  obtain a where a: "dget (st_accounts st) (rs_account_id t) = Some a" "acc_id a = rs_account_id t"
      "acc_active a" "acc_verified a" "acc_epoch a = rs_security_epoch t" and v: "valid_state t"
    using s by (auto simp: spendable_def)
  note ctx = refresh_context_Inr [OF c]
  have "rfs_get_by_id srv (fc_account_id c) s = (Inr (Some a), s)"
    "rfs_current_epoch srv (fc_account_id c) s = (Inr (Some (acc_epoch a)), s)"
    using a view ctx by (simp_all add: srv memory_get_by_id_def memory_current_epoch_def on_first_def
        get_by_id_def current_epoch_def memory_view_def)
  then show ?thesis
    using a v ctx by (simp add: resolve_account_def guarded_def call_def valid_state_def)
qed

lemma commit_spendable:
  assumes s: "spendable st k t now" and p: "tp_token_id p = k" "rs_token_digest t = tp_digest p"
      "valid_identifier (Some ''rt_'') k" "length (tp_digest p) = digest_bytes"
    and view: "memory_view s = (fp, st)" "dget fp ''accounts.rotate_refresh'' = None"
    and c: "refresh_context t = Inr c" and idem: "case d of None \<Rightarrow> True | Some b \<Rightarrow> length b = digest_bytes"
    and g: "length (tg_digest g) = digest_bytes" "token_state st (tg_token_id g) = None"
      "valid_identifier (Some ''rt_'') (tg_token_id g)" and resp: "token_pair_post_init resp = Inr resp"
    and deps: "dependencies_answer srv clock client st now" and works: "receipts_work srv"
  shows "\<exists>s' b. commit_rotation srv p c d now g resp rc s =
      (Inr \<lparr>rr_status = Rotated, rr_sealed_receipt = Some b, rr_family_revoked = False\<rparr>, s') \<and>
      unseal (rfs_aead srv) (rfs_loads srv) (rfs_sealer srv) b rc (Aware now) = Some resp"
proof -
  define e where "e = min (now + rfs_receipt_window srv) (fc_family_expires_at c)"
  note ctx = refresh_context_Inr [OF c]
  have ok: "sealer_ok (rfs_sealer srv)" "aead_inverts (rfs_aead srv)" "loads_payload (rfs_loads srv)"
      "0 < rfs_receipt_window srv"
    using works by (auto simp: receipts_work_def refresh_service_post_init_def split: if_splits)
  have len: "length (aead_encrypt (rfs_aead srv) k n q a) = length q + 16" for k n q a
    using ok(2) by (simp add: aead_inverts_def)
  have st: "live_token t" "valid_state t" "now < rs_token_expires_at t" "now < rs_family_expires_at t"
    using s by (auto simp: spendable_def valid_state_def)
  have e: "now < e" "e < 10 ^ 18" "receipt_expiry (Aware e) = Inr e" "e \<le> rs_family_expires_at t"
    using s st ok(4) ctx(1) by (auto simp: e_def receipt_expiry_def spendable_def)
  obtain nonce s1 where n: "rsl_entropy (rfs_sealer srv) 12 s = (Inr nonce, s1)" "length nonce = 12"
      "memory_view s1 = memory_view s"
    using deps unfolding dependencies_answer_def by (blast elim: answersE)
  define b where "b = ascii_bytes (envelope (rk_key_id (rsl_active_key (rfs_sealer srv))) e nonce
      (aead_encrypt (rfs_aead srv) (rk_key (rsl_active_key (rfs_sealer srv))) nonce
         (ascii_bytes (receipt_payload resp)) (receipt_aad rc e (rk_key_id (rsl_active_key (rfs_sealer srv))))))"
  have sealed: "seal (rfs_aead srv) (rfs_sealer srv) resp rc (Aware e) s = (Inr b, s1)"
    unfolding seal_Inr using n e(3) b_def by auto
  note fits = sealed_parses(2,3) [OF sealed ok(1) resp e(3,2) len]
  have fresh: "tg_token_id g \<noteq> k"
    using s g(2) by (auto simp: spendable_def)
  have scopes: "fc_scopes c = rs_scopes t" "fc_evidence c = None"
    using c st(2) by (auto simp: valid_state_context)
  have "\<exists>cmd. rotation_command srv p c d g b now = Inr cmd"
    using p g fits idem st(2) ctx scopes e(4) fresh
    by (auto simp: rotation_command_def rotate_command_post_init_def valid_state_def e_def split: option.splits)
  then obtain cmd where cmd: "rotation_command srv p c d g b now = Inr cmd"
    by blast
  note cmd' = rotation_command_Inr [OF cmd]
  have "answers memory_view strict_context_text (rfs_event_ids srv)"
    using deps by (simp add: dependencies_answer_def)
  from answersE [OF refresh_event_answers [OF this]]
  obtain ev s2 where ev: "refresh_event srv now ''local.refresh.rotate'' ''attempted''
      (Some (fc_account_id c)) (Some (fc_family_id c)) s1 = (Inr ev, s2)" "memory_view s2 = memory_view s1"
    by metis
  have "rotatable cmd now st"
    using s st cmd' p ctx g unfolding rotatable_def by (auto simp: spendable_def)
  moreover have "valid_rotate cmd"
    using cmd unfolding rotation_command_def by (rule rotate_command_post_init_valid)
  ultimately have rotated: "do_rotate cmd now st =
      (Inr \<lparr>rr_status = Rotated, rr_sealed_receipt = Some b, rr_family_revoked = False\<rparr>, rotated cmd st)"
    using cmd'(8) by (simp add: do_rotate_cases)
  have v2: "memory_view s2 = (fp, st)"
    using n(3) ev(2) view(1) by simp
  have "\<exists>s3. fst_rotate memory_families cmd now ev s2 =
      (Inr \<lparr>rr_status = Rotated, rr_sealed_receipt = Some b, rr_family_revoked = False\<rparr>, s3)"
    unfolding memory_families_def rotate_refresh_def family_store.simps
    using on_first_observed [where f = "do_rotate cmd now", OF v2 view(2) rotated] by blast
  then obtain s3 where "fst_rotate memory_families cmd now ev s2 =
      (Inr \<lparr>rr_status = Rotated, rr_sealed_receipt = Some b, rr_family_revoked = False\<rparr>, s3)" ..
  moreover have "rfs_store srv = memory_families"
    using deps by (simp add: dependencies_answer_def)
  ultimately have "commit_rotation srv p c d now g resp rc s =
      (Inr \<lparr>rr_status = Rotated, rr_sealed_receipt = Some b, rr_family_revoked = False\<rparr>, s3)"
    using sealed cmd ev(1) unfolding e_def by (simp add: commit_rotation_def call_def)
  moreover have "unseal (rfs_aead srv) (rfs_loads srv) (rfs_sealer srv) b rc (Aware now) = Some resp"
    using unseal_sealed [OF sealed ok(1) resp e(3,2) ok(2,3)] e(1) by simp
  ultimately show ?thesis by blast
qed

section \<open>Rotation makes progress\<close>

lemma codec_verify_parsed:
  assumes "parse_refresh_token tok = Some (k, secret)" "\<And>k m. length (hmac k m) = digest_bytes"
  shows "codec_verify hmac pepper tok =
    Inr (Some \<lparr>tp_token_id = k, tp_digest = token_digest hmac pepper k secret\<rparr>)"
proof -
  have "valid_identifier (Some ''rt_'') k"
    using assms(1) by (simp add: parse_refresh_token_iff)
  then show ?thesis
    using assms by (simp add: codec_verify_def token_proof_post_init_def token_digest_def)
qed

lemma presented_idempotency_ok:
  assumes "\<And>k m. length (rfs_hmac srv k m) = digest_bytes"
  shows "case fst (presented_idempotency srv pres key) of None \<Rightarrow> True | Some b \<Rightarrow> length b = digest_bytes"
  using assms by (auto simp: presented_idempotency_def digest_idempotency_key_def split: option.splits sum.splits)

text \<open>The store refuses none of it, and the key, when there is one, is well formed.\<close>

definition rotation_possible ::
  "('u world \<times> 'e, 'u) refresh_service \<Rightarrow> string \<Rightarrow> string option \<Rightarrow> 'u world \<times> 'e \<Rightarrow> time \<Rightarrow> bool" where
  "rotation_possible srv tok key s now \<longleftrightarrow>
     (\<exists>k secret t. parse_refresh_token tok = Some (k, secret) \<and> spendable (snd (fst s)) k t now \<and>
        rs_token_digest t = token_digest (rfs_hmac srv) (rfs_pepper srv) k secret \<and>
        (key = None \<or>
         (\<exists>v d. key = Some v \<and> digest_idempotency_key (rfs_hmac srv) (rfs_pepper srv) k v = Some d))) \<and>
     dget (failpoints (fst (fst s))) ''accounts.prepare_refresh_rotation'' = None \<and>
     dget (failpoints (fst (fst s))) ''accounts.rotate_refresh'' = None"

lemma rotate_verified_progress:
  assumes possible: "rotation_possible srv tok key s now"
    and deps: "dependencies_answer srv clock client (snd (fst s)) now" and works: "receipts_work srv"
  shows "\<exists>p s'. rotate_verified srv tok key clock s = (Inr (Answered p), s')"
proof -
  define fp st where "fp = failpoints (fst (fst s))" and "st = snd (fst s)"
  then have view: "memory_view s = (fp, st)"
    by (simp add: memory_view_def)
  obtain k secret t where k: "parse_refresh_token tok = Some (k, secret)"
    and t: "spendable st k t now" "rs_token_digest t = token_digest (rfs_hmac srv) (rfs_pepper srv) k secret"
    and key: "key = None \<or> (\<exists>v d. key = Some v \<and> digest_idempotency_key (rfs_hmac srv) (rfs_pepper srv) k v = Some d)"
    and fps: "dget fp ''accounts.prepare_refresh_rotation'' = None" "dget fp ''accounts.rotate_refresh'' = None"
    using possible unfolding rotation_possible_def fp_def st_def by auto
  note deps = deps [folded st_def]
  have hmac: "\<And>k m. length (rfs_hmac srv k m) = digest_bytes"
    and srv: "rfs_store srv = memory_families" "rfs_get_by_id srv = memory_get_by_id"
      "rfs_current_epoch srv = memory_current_epoch"
    and ports: "answers memory_view (\<lambda>t. t = now) (service_time srv clock)"
      "answers memory_view strict_context_text (rfs_event_ids srv)"
    using deps by (simp_all add: dependencies_answer_def)
  define pres where "pres = \<lparr>tp_token_id = k, tp_digest = token_digest (rfs_hmac srv) (rfs_pepper srv) k secret\<rparr>"
  have pres: "tp_token_id pres = k" "rs_token_digest t = tp_digest pres" "length (tp_digest pres) = digest_bytes"
      "valid_identifier (Some ''rt_'') k"
    using t(2) hmac k by (simp_all add: pres_def token_digest_def parse_refresh_token_iff)
  define d where "d = fst (presented_idempotency srv pres key)"
  have d: "case d of None \<Rightarrow> True | Some b \<Rightarrow> length b = digest_bytes" "\<not> snd (presented_idempotency srv pres key)"
    using presented_idempotency_ok [OF hmac] key pres(1)
    by (auto simp: d_def presented_idempotency_def split: option.splits)
  obtain c where c: "refresh_context t = Inr c"
    using spendable_context(1) [OF t(1) pres(4) d(1)] by blast
  note ctx = refresh_context_Inr [OF c]
  obtain rc where rc: "receipt_context_of c k d = Inr rc"
    using spendable_context(2) [OF t(1) pres(4) d(1) c] by blast
  obtain s1 where s1: "service_time srv clock s = (Inr now, s1)" "memory_view s1 = (fp, st)"
    using answersE [OF ports(1), of s] view by metis
  obtain ev s2 where s2: "refresh_event srv now ''local.refresh.prepare'' ''attempted'' None None s1 = (Inr ev, s2)"
      "memory_view s2 = (fp, st)"
    using answersE [OF refresh_event_answers [OF ports(2)]] s1(2) by metis
  obtain s3 where s3: "fst_prepare memory_families pres d now ev s2 = (Inr (Active c), s3)" "memory_view s3 = (fp, st)"
    using prepare_spendable [OF t(1) pres(1,2) s2(2) fps(1) c] by blast
  obtain a where a: "resolve_account srv c s3 = (Inr (Answered a), s3)"
    using resolve_spendable [OF t(1) c s3(2) srv(2,3)] by blast
  obtain m s4 where m: "rotation_materials srv c now a s3 = (Inr m, s4)" "good_materials st m"
      "memory_view s4 = (fp, st)"
    using answersE [OF rotation_materials_answers [OF deps]] s3(2) by metis
  then obtain x resp where resp: "snd m = Verified x" "successor_pair x (fst m) = Inr resp"
      "token_pair_post_init resp = Inr resp" and g: "length (tg_digest (fst m)) = digest_bytes"
      "token_state st (tg_token_id (fst m)) = None" "valid_identifier (Some ''rt_'') (tg_token_id (fst m))"
    by (auto simp: good_materials_def)
  obtain s5 b where "commit_rotation srv pres c d now (fst m) resp rc s4 =
      (Inr \<lparr>rr_status = Rotated, rr_sealed_receipt = Some b, rr_family_revoked = False\<rparr>, s5)"
    and "unseal (rfs_aead srv) (rfs_loads srv) (rfs_sealer srv) b rc (Aware now) = Some resp"
    using commit_spendable [OF t(1) pres(1,2,4,3) m(3) fps(2) c d(1) g resp(3) deps works] by blast
  then have active: "rotate_active srv pres c d now a s3 = (Inr (Answered resp), s5)"
    using m(1) resp(1,2) rc pres(1)
    by (simp add: rotate_active_def guarded_def issued_access_def recover_receipt_def)
  have "preflight_presented srv pres d clock s = (Inr (now, Active c), s3)"
    using s1(1) s2(1) s3(1) by (simp add: preflight_presented_def call_def srv(1))
  moreover have "rotate_prepared srv pres d False now (Active c) s3 = (Inr (Answered resp), s5)"
    using t(1) ctx a active by (auto simp: rotate_prepared_def call_def spendable_def valid_state_def)
  ultimately have "rotate_verified srv tok key clock s = (Inr (Answered resp), s5)"
    using codec_verify_parsed [OF k hmac] d(2)
    by (simp add: rotate_verified_def Let_def guarded_def flip: pres_def d_def)
  then show ?thesis by blast
qed

lemma rotate_token_progress:
  assumes possible: "rotation_possible srv tok key s now"
    and deps: "dependencies_answer srv clock client (snd (fst s)) now" and works: "receipts_work srv"
  shows "\<exists>p s'. rotate_token srv tok key clock client s = (Inr (Answered p), s')"
proof (cases "rfs_limits srv")
  case None
  then show ?thesis
    using rotate_verified_progress [OF assms] by (simp add: rotate_token_def)
next
  case (Some g)
  then obtain s1 where g: "guard_check (rfs_hmac srv) g ''local.refresh.rotate'' client None s = (Proceed, s1)"
      "memory_view s1 = memory_view s"
    using deps unfolding dependencies_answer_def by (simp del: split_paired_All split_paired_Ex) blast
  then have "rotation_possible srv tok key s1 now" "dependencies_answer srv clock client (snd (fst s1)) now"
    using possible deps by (auto simp: rotation_possible_def memory_view_def)
  from rotate_verified_progress [OF this works] show ?thesis
    using Some g by (simp add: rotate_token_def)
qed

section \<open>An example service\<close>

definition example_pepper :: bytes where
  "example_pepper = replicate 32 1"

definition example_refresh_token :: string where
  "example_refresh_token = example_id ''rt_'' 2 @ ''.'' @ encode_random (replicate 32 8)"

definition example_live_state :: refresh_state where
  "example_live_state = (example_state 2)
     \<lparr>rs_token_digest := token_digest example_hmac example_pepper (example_id ''rt_'' 2) (replicate 32 8)\<rparr>"

definition example_families :: "unit local_store" where
  "example_families = example_store
     \<lparr>st_accounts := [(''u1'', example_account\<lparr>acc_verified := True\<rparr>)],
      st_refresh := [(example_id ''rt_'' 2, example_live_state)]\<rparr>"

definition example_world :: "unit world \<times> unit" where
  "example_world = ((empty_backend, example_families), ())"

definition example_service :: "(unit world \<times> unit, unit) refresh_service" where
  "example_service =
     \<lparr>rfs_get_by_id = memory_get_by_id, rfs_current_epoch = memory_current_epoch,
      rfs_store = memory_families, rfs_hmac = example_hmac, rfs_pepper = example_pepper,
      rfs_entropy = (\<lambda>n s. (Inr (replicate n 9), s)), rfs_aead = tagging_aead,
      rfs_loads = example_loads,
      rfs_sealer = \<lparr>rsl_active_key = rsl_active_key example_sealer, rsl_retained_keys = [],
        rsl_entropy = (\<lambda>n s. (Inr (replicate n 5), s))\<rparr>,
      rfs_access = (\<lambda>a sc ev t s. (Inr (Verified \<lparr>lat_access_token = ''AA.AA.AA'', lat_expires_in = 600\<rparr>), s)),
      rfs_idle_lifetime = seconds 10, rfs_absolute_lifetime = seconds 100,
      rfs_receipt_window = seconds 30, rfs_clock = (\<lambda>s. (Inr (Aware 1), s)),
      rfs_family_ids = (\<lambda>s. (Inr (example_id ''rf_'' 4), s)),
      rfs_event_ids = (\<lambda>s. (Inr ''event'', s)), rfs_limits = None\<rparr>"

lemma example_parses:
  "parse_refresh_token example_refresh_token = Some (example_id ''rt_'' 2, replicate 32 8)"
  by (simp add: parse_refresh_token_iff example_refresh_token_def secret_bytes_def)

lemma example_live: "spendable example_families (example_id ''rt_'' 2) example_live_state 1"
  using example_states_valid(1) [of 2]
  by (auto simp: spendable_def example_families_def example_live_state_def token_state_def
      live_token_def example_state_def example_account_def valid_state_def)

lemma example_possible: "rotation_possible example_service example_refresh_token None example_world 1"
  unfolding rotation_possible_def
  using example_parses example_live
  by (auto simp: example_world_def example_service_def empty_backend_def example_live_state_def)

lemma example_dependencies:
  "dependencies_answer example_service None None (snd (fst example_world)) 1"
proof -
  have "token_state example_families (''rt_'' @ encode_random (replicate 16 9)) = None"
    using example_id_inject [of "''rt_''" 9 2] by (simp add: token_state_def example_families_def example_id_def)
  moreover have "strict_context_text ''event''"
    by code_simp
  ultimately show ?thesis
    using example_access_valid
    by (simp add: dependencies_answer_def example_service_def example_world_def answers_def
        service_time_def length_example_hmac lookup_bytes_def secret_bytes_def digest_bytes_def call_def)
qed

lemma example_receipts_work: "receipts_work example_service"
  using example_sealer_ok tagging_inverts example_loads_payload
  by (simp add: receipts_work_def example_service_def sealer_ok_def receipt_sealer_post_init_def
      sealer_keys_def example_sealer_def dict_ok_def refresh_service_post_init_def seconds_def)


section \<open>Properties\<close>

text \<open>C6: A live token always rotates: on the in-memory store, for a stored, unspent and unexpired token
  of an active, verified account at the current epoch, presented with a well-formed idempotency key
  or none, \<^verbatim>\<open>rotate\<close> returns a token pair whenever the clock, the entropy and identifier
  sources, the access-token issuer and the limiter answer.
\<close>

theorem live_token_rotates:
  assumes "rotation_possible srv tok key s now"
    and "dependencies_answer srv clock client (snd (fst s)) now" and "receipts_work srv"
  shows "\<exists>p s'. rotate_token srv tok key clock client s = (Inr (Answered p), s')"
  by (rule rotate_token_progress [OF assms])

theorem live_token_rotates_witness:
  "\<exists>p s'. rotate_token example_service example_refresh_token None None None example_world =
     (Inr (Answered p), s')"
  by (rule live_token_rotates [OF example_possible example_dependencies example_receipts_work])



end
