(* ===== verification/API_Keys.thy ===== *)
theory API_Keys
  imports Authentication Backend
begin

text \<open>
  API keys (\<^verbatim>\<open>providers/api_key\<close>): the digest-only record and its validity, the codec, the service
  that issues, rotates and revokes, the authenticator with its credential slot, the usage buffer,
  and \<^verbatim>\<open>InMemoryAPIKeyStore\<close> of \<^verbatim>\<open>testing.py\<close>.

  HMAC-SHA-256, the clock, the entropy source, the store and the usage sink are parameters. The
  metrics calls, which swallow every failure, are left out.
\<close>

section \<open>Records\<close>

definition key_text :: "string \<Rightarrow> bool" where
  "key_text v \<longleftrightarrow> v = strip v \<and> v \<noteq> [] \<and> list_all (\<lambda>c. 32 \<le> (of_char c :: nat)) v"

definition b64url_char :: "char \<Rightarrow> bool" where
  "b64url_char c \<longleftrightarrow>
     (let n = (of_char c :: nat)
      in (48 \<le> n \<and> n \<le> 57) \<or> (65 \<le> n \<and> n \<le> 90) \<or> (97 \<le> n \<and> n \<le> 122) \<or> n = 45 \<or> n = 95)"

definition prefix_char :: "char \<Rightarrow> bool" where
  "prefix_char c \<longleftrightarrow>
     (let n = (of_char c :: nat)
      in (48 \<le> n \<and> n \<le> 57) \<or> (65 \<le> n \<and> n \<le> 90) \<or> (97 \<le> n \<and> n \<le> 122))"

definition valid_prefix :: "string \<Rightarrow> bool" where
  "valid_prefix v \<longleftrightarrow> 1 \<le> length v \<and> length v \<le> 32 \<and> list_all prefix_char v"

definition valid_header_name :: "string \<Rightarrow> bool" where
  "valid_header_name v \<longleftrightarrow> v \<noteq> [] \<and> list_all (\<lambda>c. prefix_char c \<or> c = CHR ''-'') v"

definition decode_segment :: "string \<Rightarrow> nat \<Rightarrow> nat \<Rightarrow> bytes option" where
  "decode_segment v expected_bytes expected_characters =
     (if length v \<noteq> expected_characters \<or> \<not> list_all b64url_char v then None
      else decode_random v expected_bytes)"

abbreviation key_id_ok :: "string \<Rightarrow> bool" where
  "key_id_ok v \<equiv> decode_segment v 12 16 \<noteq> None"

record 't key_state =
  ks_key_id :: string
  ks_subject_id :: string
  ks_digest :: bytes
  ks_restrictions :: restrictions
  ks_expires_at :: "'t option"
  ks_revoked_at :: "'t option"
  ks_overlap_until :: "'t option"

definition key_state_post_init :: "py_datetime key_state \<Rightarrow> time key_state result" where
  "key_state_post_init k =
     bind (optional_result aware_utc_time (ks_expires_at k)) (\<lambda>expires_at.
     bind (optional_result aware_utc_time (ks_revoked_at k)) (\<lambda>revoked_at.
     bind (optional_result aware_utc_time (ks_overlap_until k)) (\<lambda>overlap_until.
       let valid_overlap = (case overlap_until of
             None \<Rightarrow> True
           | Some u \<Rightarrow> (case revoked_at of None \<Rightarrow> False | Some r \<Rightarrow> r \<le> u) \<and>
               (case expires_at of None \<Rightarrow> True | Some e \<Rightarrow> u \<le> e))
       in if \<not> key_id_ok (ks_key_id k) \<or> \<not> key_text (ks_subject_id k) \<or> length (ks_digest k) \<noteq> 32 \<or>
             \<not> valid_overlap
          then Inl ValueError
          else Inr \<lparr>ks_key_id = ks_key_id k, ks_subject_id = ks_subject_id k, ks_digest = ks_digest k,
                    ks_restrictions = ks_restrictions k, ks_expires_at = expires_at,
                    ks_revoked_at = revoked_at, ks_overlap_until = overlap_until\<rparr>)))"

definition is_valid_at :: "time key_state \<Rightarrow> time \<Rightarrow> bool" where
  "is_valid_at k now =
     (if (case ks_expires_at k of None \<Rightarrow> False | Some e \<Rightarrow> now \<ge> e) then False
      else if (case ks_revoked_at k of None \<Rightarrow> True | Some r \<Rightarrow> now < r) then True
      else (case ks_overlap_until k of None \<Rightarrow> False | Some u \<Rightarrow> now \<le> u))"

text \<open>\<^verbatim>\<open>dataclasses.replace\<close> builds a new record, so its check runs again.\<close>

definition as_input :: "time key_state \<Rightarrow> py_datetime key_state" where
  "as_input k =
     \<lparr>ks_key_id = ks_key_id k, ks_subject_id = ks_subject_id k, ks_digest = ks_digest k,
      ks_restrictions = ks_restrictions k, ks_expires_at = map_option Aware (ks_expires_at k),
      ks_revoked_at = map_option Aware (ks_revoked_at k),
      ks_overlap_until = map_option Aware (ks_overlap_until k)\<rparr>"

definition replace_key_state ::
  "time key_state \<Rightarrow> time option \<Rightarrow> time option \<Rightarrow> time key_state result" where
  "replace_key_state k revoked_at overlap_until =
     key_state_post_init (as_input (k\<lparr>ks_revoked_at := revoked_at, ks_overlap_until := overlap_until\<rparr>))"

record issued_key =
  ik_key_id :: string
  ik_value :: string

definition parse_key_value :: "string \<Rightarrow> (string \<times> string \<times> string) option" where
  "parse_key_value v =
     (case partition_at (CHR ''_'') v of
        (namespace, sep, encoded) \<Rightarrow>
          if \<not> sep \<or> length encoded \<noteq> 60 \<or> encoded ! 16 \<noteq> CHR ''_'' then None
          else Some (namespace, take 16 encoded, drop 17 encoded))"

definition issued_key_post_init :: "issued_key \<Rightarrow> issued_key result" where
  "issued_key_post_init k =
     (case parse_key_value (ik_value k) of
        None \<Rightarrow> Inl ValueError
      | Some (namespace, key_id, secret) \<Rightarrow>
          if \<not> valid_prefix namespace \<or> key_id \<noteq> ik_key_id k \<or> \<not> key_id_ok key_id \<or>
             decode_segment secret 32 43 = None
          then Inl ValueError else Inr k)"

record key_proof =
  kp_key_id :: string
  kp_digest :: bytes

definition key_proof_post_init :: "key_proof \<Rightarrow> key_proof result" where
  "key_proof_post_init p =
     (if \<not> key_id_ok (kp_key_id p) \<or> length (kp_digest p) \<noteq> 32 then Inl ValueError else Inr p)"

section \<open>The codec\<close>

record 's key_codec =
  kc_hmac :: hmac_function
  kc_pepper :: bytes
  kc_prefix :: string
  kc_entropy :: "nat \<Rightarrow> ('s, bytes) port"
  kc_comparator :: "bytes \<Rightarrow> bytes \<Rightarrow> bool"

definition key_codec_post_init :: "'s key_codec \<Rightarrow> 's key_codec result" where
  "key_codec_post_init c =
     (if length (kc_pepper c) < 32 \<or> \<not> valid_prefix (kc_prefix c) then Inl ImproperlyConfigured
      else Inr c)"

definition key_message :: "string \<Rightarrow> string \<Rightarrow> bytes" where
  "key_message key_id secret =
     ascii_bytes ''litestar-security:api-key:v1'' @ [0] @ ascii_bytes key_id @ [0] @ ascii_bytes secret"

definition key_digest :: "hmac_function \<Rightarrow> bytes \<Rightarrow> string \<Rightarrow> string \<Rightarrow> bytes" where
  "key_digest hmac pepper key_id secret = hmac pepper (key_message key_id secret)"

text \<open>\<^verbatim>\<open>_entropy\<close>: an exception or a wrong length is APIKeyGenerationError, a RuntimeError.\<close>

definition codec_entropy :: "'s key_codec \<Rightarrow> nat \<Rightarrow> ('s, bytes) port" where
  "codec_entropy c n s =
     (case kc_entropy c n s of
        (Inl e, s') \<Rightarrow> (Inl RuntimeError, s')
      | (Inr v, s') \<Rightarrow> (if length v \<noteq> n then Inl RuntimeError else Inr v, s'))"

definition key_value :: "string \<Rightarrow> string \<Rightarrow> string \<Rightarrow> string" where
  "key_value namespace key_id secret = namespace @ CHR ''_'' # key_id @ CHR ''_'' # secret"

definition unrestricted_key :: restrictions where
  "unrestricted_key = \<lparr>re_scopes = None, re_roles = None, re_capabilities = None,
     re_tenant_ids = None, re_resources = None\<rparr>"

definition issue_key ::
  "'s key_codec \<Rightarrow> string \<Rightarrow> restrictions option \<Rightarrow> py_datetime option \<Rightarrow>
     ('s, issued_key \<times> time key_state) port" where
  "issue_key c subject_id bounds expires_at =
     call (codec_entropy c 12) (\<lambda>lookup.
     call (codec_entropy c 32) (\<lambda>random.
       let key_id = encode_random lookup; secret = encode_random random
       in call (lift_result (issued_key_post_init
                 \<lparr>ik_key_id = key_id, ik_value = key_value (kc_prefix c) key_id secret\<rparr>)) (\<lambda>issued.
          call (lift_result (key_state_post_init
                 \<lparr>ks_key_id = key_id, ks_subject_id = subject_id,
                  ks_digest = key_digest (kc_hmac c) (kc_pepper c) key_id secret,
                  ks_restrictions = (case bounds of None \<Rightarrow> unrestricted_key | Some r \<Rightarrow> r),
                  ks_expires_at = expires_at, ks_revoked_at = None, ks_overlap_until = None\<rparr>))
            (\<lambda>record. pure (issued, record)))))"

definition key_proof_of :: "'s key_codec \<Rightarrow> string \<Rightarrow> key_proof option result" where
  "key_proof_of c v =
     (case parse_key_value v of
        None \<Rightarrow> Inr None
      | Some (namespace, key_id, secret) \<Rightarrow>
          if namespace \<noteq> kc_prefix c \<or> \<not> key_id_ok key_id \<or> decode_segment secret 32 43 = None
          then Inr None
          else bind (key_proof_post_init
                 \<lparr>kp_key_id = key_id, kp_digest = key_digest (kc_hmac c) (kc_pepper c) key_id secret\<rparr>)
               (\<lambda>p. Inr (Some p)))"

definition key_matches :: "'s key_codec \<Rightarrow> key_proof \<Rightarrow> time key_state \<Rightarrow> bool" where
  "key_matches c p k \<longleftrightarrow> kp_key_id p = ks_key_id k \<and> kc_comparator c (kp_digest p) (ks_digest k)"

section \<open>The usage buffer\<close>

record usage_buffer =
  ub_interval :: time
  ub_capacity :: int
  ub_pending :: "(string, time) dict"
  ub_last_written :: "(string, time) dict"

definition usage_buffer_post_init :: "usage_buffer \<Rightarrow> usage_buffer result" where
  "usage_buffer_post_init u =
     (if ub_interval u \<le> 0 then Inl ValueError
      else if \<not> (1 \<le> ub_capacity u \<and> ub_capacity u \<le> 1000000) then Inl ValueError
      else Inr (u\<lparr>ub_pending := [], ub_last_written := []\<rparr>))"

definition observe_usage :: "string \<Rightarrow> py_datetime \<Rightarrow> usage_buffer \<Rightarrow> unit result \<times> usage_buffer" where
  "observe_usage key_id used_at u =
     (case aware_utc_time used_at of
        Inl e \<Rightarrow> (Inl e, u)
      | Inr t \<Rightarrow>
          (Inr (),
           (case dget (ub_pending u) key_id of
              Some p \<Rightarrow> u\<lparr>ub_pending := dset key_id (max p t) (ub_pending u)\<rparr>
            | None \<Rightarrow>
                if int (length (ub_pending u)) \<ge> ub_capacity u then u
                else u\<lparr>ub_pending := dset key_id t (ub_pending u)\<rparr>)))"

text \<open>
  \<^verbatim>\<open>flush\<close> walks a snapshot of the pending observations. The sink is awaited for each of them, so
  the sink port runs on the state; its failure drops the observation.
\<close>

primrec flush_each ::
  "(string \<Rightarrow> time \<Rightarrow> ('s, unit) port) \<Rightarrow> bool \<Rightarrow> (string \<times> time) list \<Rightarrow> usage_buffer \<Rightarrow> 's \<Rightarrow>
     usage_buffer \<times> 's" where
  "flush_each sink force [] u s = (u, s)"
| "flush_each sink force (e # es) u s =
     (case e of (key_id, used_at) \<Rightarrow>
       if \<not> force \<and> (case dget (ub_last_written u) key_id of
            None \<Rightarrow> False | Some written \<Rightarrow> used_at - written < ub_interval u)
       then flush_each sink force es u s
       else (case sink key_id used_at s of
           (r, s') \<Rightarrow>
             flush_each sink force es
               ((case r of Inl _ \<Rightarrow> u
                 | Inr _ \<Rightarrow> u\<lparr>ub_last_written := dset key_id used_at (ub_last_written u)\<rparr>)
                  \<lparr>ub_pending := ddel key_id (ub_pending u)\<rparr>) s'))"

definition flush_usage ::
  "(string \<Rightarrow> time \<Rightarrow> ('s, unit) port) \<Rightarrow> bool \<Rightarrow> usage_buffer \<Rightarrow> 's \<Rightarrow> usage_buffer \<times> 's" where
  "flush_usage sink force u s = flush_each sink force (ub_pending u) u s"

section \<open>The service\<close>

record 's key_store =
  kst_get :: "string \<Rightarrow> ('s, time key_state option) port"
  kst_create :: "time key_state \<Rightarrow> ('s, unit) port"
  kst_rotate :: "string \<Rightarrow> time key_state \<Rightarrow> time option \<Rightarrow> time \<Rightarrow> ('s, unit) port"
  kst_revoke :: "string \<Rightarrow> time \<Rightarrow> ('s, unit) port"

record 's key_service =
  ksv_store :: "'s key_store"
  ksv_codec :: "'s key_codec"
  ksv_clock :: "('s, py_datetime) port"
  ksv_observe :: "(string \<Rightarrow> time \<Rightarrow> ('s, unit) port) option"

definition key_now :: "'s key_service \<Rightarrow> ('s, time) port" where
  "key_now srv = call (ksv_clock srv) (\<lambda>reading. lift_result (aware_utc_time reading))"

definition service_issue_key ::
  "'s key_service \<Rightarrow> string \<Rightarrow> restrictions option \<Rightarrow> py_datetime option \<Rightarrow> ('s, issued_key) port" where
  "service_issue_key srv subject_id bounds expires_at =
     call (issue_key (ksv_codec srv) subject_id bounds expires_at) (\<lambda>(issued, record).
     call (kst_create (ksv_store srv) record) (\<lambda>_. pure issued))"

definition service_rotate_key ::
  "'s key_service \<Rightarrow> string \<Rightarrow> string \<Rightarrow> restrictions option \<Rightarrow> py_datetime option \<Rightarrow> time \<Rightarrow>
     ('s, issued_key) port" where
  "service_rotate_key srv current_key_id subject_id bounds expires_at overlap =
     (if overlap < 0 then raise ValueError
      else call (key_now srv) (\<lambda>now.
        call (issue_key (ksv_codec srv) subject_id bounds expires_at) (\<lambda>(issued, replacement).
        call (kst_rotate (ksv_store srv) current_key_id replacement
                (if overlap \<noteq> 0 then Some (now + overlap) else None) now) (\<lambda>_. pure issued))))"

definition service_revoke_key :: "'s key_service \<Rightarrow> string \<Rightarrow> ('s, unit) port" where
  "service_revoke_key srv key_id =
     call (key_now srv) (\<lambda>now. kst_revoke (ksv_store srv) key_id now)"

section \<open>Authentication\<close>

record key_claims =
  kcl_key_id :: string
  kcl_subject_id :: string

definition key_evidence :: "time \<Rightarrow> time option \<Rightarrow> evidence result" where
  "key_evidence now expires_at =
     evidence_post_init
       \<lparr>in_mechanism = ''api-key'', in_slot = ''api-key'', in_authenticated_at = Aware now,
        in_expires_at = map_option Aware expires_at, in_methods = {''api-key''}, in_traits = {},
        in_acr = None, in_amr = []\<rparr>"

definition no_grants :: "string snapshot" where
  "no_grants = \<lparr>sn_scopes = {}, sn_roles = {}, sn_capabilities = {}, sn_tenant_roles = [],
     sn_tenant_ids = {}, sn_resources = {}, sn_attributes = []\<rparr>"

definition accept_record :: "'s key_service \<Rightarrow> time key_state \<Rightarrow> time \<Rightarrow> ('s, key_claims auth_outcome) port" where
  "accept_record srv k now =
     call (case ksv_observe srv of None \<Rightarrow> pure () | Some usage \<Rightarrow> usage (ks_key_id k) now) (\<lambda>_.
     call (lift_result (key_evidence now (ks_expires_at k))) (\<lambda>proof.
       pure (Auth_Ok \<lparr>au_evidence = proof, au_grants = no_grants, au_restrictions = ks_restrictions k,
         au_claims = \<lparr>kcl_key_id = ks_key_id k, kcl_subject_id = ks_subject_id k\<rparr>\<rparr>)))"

definition authenticate_record ::
  "'s key_service \<Rightarrow> key_proof \<Rightarrow> time key_state option \<Rightarrow> ('s, key_claims auth_outcome) port" where
  "authenticate_record srv p found =
     (case found of
        None \<Rightarrow> pure Auth_Invalid
      | Some k \<Rightarrow>
          if \<not> key_matches (ksv_codec srv) p k then pure Auth_Invalid
          else call (key_now srv) (\<lambda>now.
            if \<not> is_valid_at k now then pure Auth_Invalid else accept_record srv k now))"

text \<open>Only the store's exceptions are caught; those of the clock and of the buffer reach the evaluator.\<close>

definition authenticate_key :: "'s key_service \<Rightarrow> string \<Rightarrow> ('s, key_claims auth_outcome) port" where
  "authenticate_key srv credential =
     call (lift_result (key_proof_of (ksv_codec srv) credential)) (\<lambda>found.
       case found of
         None \<Rightarrow> pure Auth_Invalid
       | Some p \<Rightarrow> (\<lambda>s.
           (case kst_get (ksv_store srv) (kp_key_id p) s of
              (Inl e, s') \<Rightarrow> (Inr Auth_Unavailable, s')
            | (Inr r, s') \<Rightarrow> authenticate_record srv p r s')))"

section \<open>The credential slot\<close>

text \<open>A header is a name and a value of raw bytes, read here as characters below 256.\<close>

record key_slot =
  ksl_header_name :: string
  ksl_maximum :: nat
  ksl_bearer :: bool
  ksl_prefix :: string
  ksl_coexists :: bool

definition control_char :: "char \<Rightarrow> bool" where
  "control_char c \<longleftrightarrow> (of_char c :: nat) < 32 \<or> (of_char c :: nat) = 127"

definition header_values :: "string \<Rightarrow> (string \<times> string) list \<Rightarrow> string list" where
  "header_values name headers = map snd (filter (\<lambda>(n, v). ascii_lower n = name) headers)"

definition extract_key_header :: "key_slot \<Rightarrow> (string \<times> string) list \<Rightarrow> string extraction" where
  "extract_key_header slot headers =
     (case header_values (ascii_lower (ksl_header_name slot)) headers of
        [] \<Rightarrow> No_Credential
      | [v] \<Rightarrow>
          if v = [] \<or> length v > ksl_maximum slot \<or> \<not> is_ascii v \<or>
             list_ex (\<lambda>c. control_char c \<or> is_space c) v
          then Malformed else Presented v
      | _ \<Rightarrow> Malformed)"

definition held :: "string option \<Rightarrow> string extraction" where
  "held header = (case header of None \<Rightarrow> No_Credential | Some v \<Rightarrow> Presented v)"

definition extract_bearer_token :: "key_slot \<Rightarrow> string option \<Rightarrow> string \<Rightarrow> string extraction" where
  "extract_bearer_token slot header token =
     (if starts_with_prefix (ksl_prefix slot) token
      then if length token > ksl_maximum slot then Malformed
        else if header \<noteq> None \<and> header \<noteq> Some token then Malformed
        else Presented token
      else held header)"

definition extract_key_bearer ::
  "key_slot \<Rightarrow> string option \<Rightarrow> (string \<times> string) list \<Rightarrow> string extraction" where
  "extract_key_bearer slot header headers =
     (case header_values ''authorization'' headers of
        [] \<Rightarrow> held header
      | [v] \<Rightarrow>
          if \<not> is_ascii v \<or> v = [] \<or> list_ex control_char v then Malformed
          else (case partition_at (CHR '' '') v of
            (scheme, sep, token) \<Rightarrow>
              if \<not> sep \<or> ascii_lower scheme \<noteq> ''bearer'' \<or> token = [] \<or> list_ex is_space token
              then (if header \<noteq> None then Malformed
                    else if ksl_coexists slot then No_Credential else Malformed)
              else extract_bearer_token slot header token)
      | _ \<Rightarrow> Malformed)"

definition extract_key :: "key_slot \<Rightarrow> (string \<times> string) list \<Rightarrow> string extraction" where
  "extract_key slot headers =
     (case extract_key_header slot headers of
        Malformed \<Rightarrow> Malformed
      | No_Credential \<Rightarrow> if ksl_bearer slot then extract_key_bearer slot None headers else No_Credential
      | Presented v \<Rightarrow> if ksl_bearer slot then extract_key_bearer slot (Some v) headers else Presented v)"

section \<open>Configuration\<close>

record key_config =
  kcf_pepper :: bytes
  kcf_usage_interval :: time
  kcf_usage_capacity :: int
  kcf_prefix :: string
  kcf_header_name :: string
  kcf_bearer :: bool

definition key_config_post_init :: "key_config \<Rightarrow> key_config result" where
  "key_config_post_init c =
     (if length (kcf_pepper c) < 32 \<or> kcf_usage_interval c \<le> 0 \<or>
         \<not> (1 \<le> kcf_usage_capacity c \<and> kcf_usage_capacity c \<le> 1000000) \<or>
         \<not> valid_prefix (kcf_prefix c) \<or> \<not> valid_header_name (kcf_header_name c) \<or>
         ascii_lower (kcf_header_name c) = ''authorization''
      then Inl ImproperlyConfigured else Inr c)"

definition build_key_slot :: "key_config \<Rightarrow> key_slot" where
  "build_key_slot c = \<lparr>ksl_header_name = kcf_header_name c, ksl_maximum = length (kcf_prefix c) + 61,
     ksl_bearer = kcf_bearer c, ksl_prefix = kcf_prefix c @ ''_'', ksl_coexists = False\<rparr>"

section \<open>The in-memory key store\<close>

type_synonym key_records = "(string, time key_state) dict"

definition do_create_key :: "time key_state \<Rightarrow> key_records \<Rightarrow> unit result \<times> key_records" where
  "do_create_key k d =
     (if dget d (ks_key_id k) \<noteq> None then (Inl ValueError, d) else (Inr (), dset (ks_key_id k) k d))"

definition bounded_overlap :: "time option \<Rightarrow> time option \<Rightarrow> time option" where
  "bounded_overlap overlap_until expires_at =
     (case (overlap_until, expires_at) of (Some u, Some e) \<Rightarrow> Some (min u e) | _ \<Rightarrow> overlap_until)"

definition do_rotate_key ::
  "string \<Rightarrow> time key_state \<Rightarrow> time option \<Rightarrow> time \<Rightarrow> key_records \<Rightarrow> unit result \<times> key_records" where
  "do_rotate_key current_key_id replacement overlap_until now d =
     (case dget d current_key_id of
        None \<Rightarrow> (Inl ValueError, d)
      | Some current \<Rightarrow>
          if ks_revoked_at current \<noteq> None \<or> dget d (ks_key_id replacement) \<noteq> None then (Inl ValueError, d)
          else (case replace_key_state current (Some now)
                       (bounded_overlap overlap_until (ks_expires_at current)) of
              Inl e \<Rightarrow> (Inl e, d)
            | Inr retired \<Rightarrow>
                (Inr (), dset (ks_key_id replacement) replacement (dset current_key_id retired d))))"

definition do_revoke_key :: "string \<Rightarrow> time \<Rightarrow> key_records \<Rightarrow> unit result \<times> key_records" where
  "do_revoke_key key_id now d =
     (case dget d key_id of
        None \<Rightarrow> (Inl ValueError, d)
      | Some k \<Rightarrow>
          (case replace_key_state k (Some now) None of
             Inl e \<Rightarrow> (Inl e, d)
           | Inr revoked \<Rightarrow> (Inr (), dset key_id revoked d)))"

definition memory_key_get :: "string \<Rightarrow> (backend \<times> key_records, time key_state option) port" where
  "memory_key_get key_id =
     observed ''api_key.get'' [(''key_id'', key_id)] (on_store (reading (\<lambda>d. Inr (dget d key_id))))"

definition memory_key_create :: "time key_state \<Rightarrow> (backend \<times> key_records, unit) port" where
  "memory_key_create k =
     observed ''api_key.create'' [(''key_id'', ks_key_id k)] (on_store (do_create_key k))"

definition memory_key_rotate ::
  "string \<Rightarrow> time key_state \<Rightarrow> time option \<Rightarrow> time \<Rightarrow> (backend \<times> key_records, unit) port" where
  "memory_key_rotate current_key_id replacement overlap_until now =
     observed ''api_key.rotate''
       [(''current_key_id'', current_key_id), (''replacement_key_id'', ks_key_id replacement)]
       (on_store (do_rotate_key current_key_id replacement overlap_until now))"

definition memory_key_revoke :: "string \<Rightarrow> time \<Rightarrow> (backend \<times> key_records, unit) port" where
  "memory_key_revoke key_id now =
     observed ''api_key.revoke'' [(''key_id'', key_id)] (on_store (do_revoke_key key_id now))"

definition memory_keys :: "(backend \<times> key_records) key_store" where
  "memory_keys = \<lparr>kst_get = memory_key_get, kst_create = memory_key_create,
     kst_rotate = memory_key_rotate, kst_revoke = memory_key_revoke\<rparr>"

end
