(* ===== verification/Key_Lifecycle.thy ===== *)
theory Key_Lifecycle
  imports API_Keys
begin

text \<open>
  What the API key lifecycle guarantees: the textual form of a key is canonical, an issued key logs
  its subject in and nothing else does under its lookup, a rotated key lives exactly as long as its
  overlap, and a dead key stays dead under every later store operation.
\<close>

section \<open>Canonical keys\<close>

lemma b64url_char_b64: "n < 64 \<Longrightarrow> b64url_char (b64_char n)"
  by (auto simp: b64url_char_def b64_char_code Let_def)

lemma b64url_char_encode: "list_all b64url_char (encode_random bs)"
  unfolding encode_random_core by (induction bs rule: b64_core.induct) (auto simp: b64url_char_b64)

lemma decode_segment_iff:
  "decode_segment s n m = Some b \<longleftrightarrow> length b = n \<and> length s = m \<and> s = encode_random b"
  using b64url_char_encode [of b] by (auto simp: decode_segment_def decode_random_iff)

lemma key_id_iff: "key_id_ok s \<longleftrightarrow> (\<exists>b. length b = 12 \<and> s = encode_random b)"
  by (force simp: decode_segment_iff length_encode_random)

lemma key_secret_iff: "decode_segment s 32 43 \<noteq> None \<longleftrightarrow> (\<exists>b. length b = 32 \<and> s = encode_random b)"
  by (force simp: decode_segment_iff length_encode_random)

lemma underscore_not_in_prefix: "valid_prefix v \<Longrightarrow> CHR ''_'' \<notin> set v"
  by (auto simp: valid_prefix_def list_all_iff prefix_char_def Let_def)

lemma parse_key_value_value:
  assumes "CHR ''_'' \<notin> set v" "length key_id = 16" "length secret = 43"
  shows "parse_key_value (key_value v key_id secret) = Some (v, key_id, secret)"
  using assms
  by (simp add: parse_key_value_def key_value_def partition_at_append nth_append)

lemma parse_key_value_Some:
  assumes "parse_key_value v = Some (n, key_id, secret)"
  shows "v = key_value n key_id secret"
proof -
  obtain encoded where p: "partition_at (CHR ''_'') v = (n, True, encoded)"
    and len: "length encoded = 60" and sep: "encoded ! 16 = CHR ''_''"
    and parts: "key_id = take 16 encoded" "secret = drop 17 encoded"
    using assms by (auto simp: parse_key_value_def split: prod.splits if_splits)
  have "encoded = take 16 encoded @ encoded ! 16 # drop 17 encoded"
    using len id_take_nth_drop [of 16 encoded] by simp
  then show ?thesis
    using partition_at_True [OF p] sep parts by (metis key_value_def)
qed

lemma key_proof_of_iff:
  assumes "valid_prefix (kc_prefix c)" "\<And>m. length (kc_hmac c (kc_pepper c) m) = 32"
  shows "key_proof_of c v = Inr (Some p) \<longleftrightarrow>
    (\<exists>lookup random. length lookup = 12 \<and> length random = 32 \<and>
       v = key_value (kc_prefix c) (encode_random lookup) (encode_random random) \<and>
       p = \<lparr>kp_key_id = encode_random lookup,
            kp_digest = key_digest (kc_hmac c) (kc_pepper c) (encode_random lookup) (encode_random random)\<rparr>)"
    (is "?l \<longleftrightarrow> ?r")
proof
  assume l: ?l
  then obtain n key_id secret where parsed: "parse_key_value v = Some (n, key_id, secret)"
    by (auto simp: key_proof_of_def split: option.splits)
  with l assms(2) have n: "n = kc_prefix c" and ids: "key_id_ok key_id"
    and secret: "decode_segment secret 32 43 \<noteq> None"
    and p: "p = \<lparr>kp_key_id = key_id, kp_digest = key_digest (kc_hmac c) (kc_pepper c) key_id secret\<rparr>"
    by (auto simp: key_proof_of_def key_proof_post_init_def key_digest_def bind_def
        split: if_splits)
  obtain lookup where "length lookup = 12" "key_id = encode_random lookup"
    using ids unfolding key_id_iff by blast
  moreover obtain random where "length random = 32" "secret = encode_random random"
    using secret unfolding key_secret_iff by blast
  ultimately show ?r
    using n p parse_key_value_Some [OF parsed] by blast
next
  assume ?r
  then obtain lookup random where l: "length lookup = 12" "length random = 32"
    and v: "v = key_value (kc_prefix c) (encode_random lookup) (encode_random random)"
    and p: "p = \<lparr>kp_key_id = encode_random lookup,
      kp_digest = key_digest (kc_hmac c) (kc_pepper c) (encode_random lookup) (encode_random random)\<rparr>"
    by blast
  have "parse_key_value v = Some (kc_prefix c, encode_random lookup, encode_random random)"
    unfolding v by (rule parse_key_value_value [OF underscore_not_in_prefix [OF assms(1)]])
      (simp_all add: l length_encode_random)
  moreover have "key_id_ok (encode_random lookup)" "decode_segment (encode_random random) 32 43 \<noteq> None"
    using l by (auto simp only: key_id_iff key_secret_iff)
  ultimately show ?l
    using assms(2)
    by (simp add: key_proof_of_def key_proof_post_init_def key_digest_def p bind_def)
qed

section \<open>Validity over time\<close>

text \<open>A record is dead from its expiry on, and from its revocation on once its overlap has passed.\<close>

lemma is_valid_at_iff:
  "is_valid_at k t \<longleftrightarrow>
     (\<forall>e. ks_expires_at k = Some e \<longrightarrow> t < e) \<and>
     (\<forall>r. ks_revoked_at k = Some r \<longrightarrow> t < r \<or> (\<exists>u. ks_overlap_until k = Some u \<and> t \<le> u))"
  by (auto simp: is_valid_at_def split: option.splits)

lemma dead_key_later: "\<not> is_valid_at k t \<Longrightarrow> t \<le> t' \<Longrightarrow> \<not> is_valid_at k t'"
  by (fastforce simp: is_valid_at_iff)

lemma replace_key_state_Inr:
  assumes "replace_key_state k revoked_at overlap_until = Inr k'"
  shows "k' = k\<lparr>ks_revoked_at := revoked_at, ks_overlap_until := overlap_until\<rparr>"
  using assms
  by (auto simp: replace_key_state_def key_state_post_init_def as_input_def optional_result_def
      bind_def Let_def split: option.splits sum.splits if_splits)

lemma replaced_dead:
  assumes "\<not> is_valid_at k t" "t \<le> now"
    "replace_key_state k (Some now) (bounded_overlap u (ks_expires_at k)) = Inr k'"
    "ks_revoked_at k = None"
  shows "\<not> is_valid_at k' now"
  using assms by (auto simp: is_valid_at_iff dest: replace_key_state_Inr)


section \<open>The store\<close>

text \<open>The operations of the store as the service issues them, each with the clock reading it carries.\<close>

datatype key_op =
    Key_Get string
  | Key_Create "time key_state"
  | Key_Rotate string "time key_state" "time option" time
  | Key_Revoke string time

primrec key_step :: "key_op \<Rightarrow> backend \<times> key_records \<Rightarrow> backend \<times> key_records" where
  "key_step (Key_Get i) w = snd (kst_get memory_keys i w)"
| "key_step (Key_Create k) w = snd (kst_create memory_keys k w)"
| "key_step (Key_Rotate i k u now) w = snd (kst_rotate memory_keys i k u now w)"
| "key_step (Key_Revoke i now) w = snd (kst_revoke memory_keys i now w)"

primrec op_time :: "key_op \<Rightarrow> time option" where
  "op_time (Key_Get i) = None"
| "op_time (Key_Create k) = None"
| "op_time (Key_Rotate i k u now) = Some now"
| "op_time (Key_Revoke i now) = Some now"

lemmas memory_key_defs = memory_keys_def memory_key_get_def memory_key_create_def memory_key_rotate_def
  memory_key_revoke_def

text \<open>Under a lookup there is, from an instant on, a dead record.\<close>

definition dead_from :: "string \<Rightarrow> time \<Rightarrow> key_records \<Rightarrow> bool" where
  "dead_from i t d \<longleftrightarrow> (\<exists>k. dget d i = Some k \<and> \<not> is_valid_at k t)"

lemma dead_from_later: "dead_from i t d \<Longrightarrow> t \<le> t' \<Longrightarrow> dead_from i t' d"
  unfolding dead_from_def by (blast dest: dead_key_later)

lemma dead_from_create: "dead_from i t d \<Longrightarrow> dead_from i t (snd (do_create_key k d))"
  by (auto simp: dead_from_def do_create_key_def dict_simps)

lemma dead_from_revoke:
  assumes "dead_from i t d" "t \<le> now"
  shows "dead_from i now (snd (do_revoke_key j now d))"
  using assms dead_from_later [OF assms]
  by (fastforce simp: dead_from_def do_revoke_key_def dict_simps is_valid_at_iff
      dest!: replace_key_state_Inr split: option.splits sum.splits)

lemma dead_from_rotate:
  assumes dead: "dead_from i t d" and "t \<le> now"
  shows "dead_from i now (snd (do_rotate_key j k u now d))"
proof -
  have "dead_from i now d"
    by (rule dead_from_later) fact+
  then show ?thesis
    using dead replaced_dead [OF _ \<open>t \<le> now\<close>]
    by (auto simp: dead_from_def do_rotate_key_def dict_simps split: option.splits sum.splits)
qed

lemma dead_from_step:
  assumes "dead_from i t (snd w)" "\<And>now. op_time op = Some now \<Longrightarrow> t \<le> now"
  shows "dead_from i (case op_time op of None \<Rightarrow> t | Some now \<Rightarrow> now) (snd (key_step op w))"
proof (cases op)
  case (Key_Get j)
  with assms show ?thesis
    by (simp add: memory_key_defs observed_invariant [where I = "dead_from i t"])
next
  case (Key_Create k)
  with assms show ?thesis
    by (simp add: memory_key_defs observed_invariant [where I = "dead_from i t"] dead_from_create)
next
  case (Key_Rotate j k u now)
  with assms show ?thesis
    by (simp add: memory_key_defs observed_invariant [where I = "dead_from i now"] dead_from_later
        dead_from_rotate)
next
  case (Key_Revoke j now)
  with assms show ?thesis
    by (simp add: memory_key_defs observed_invariant [where I = "dead_from i now"] dead_from_later
        dead_from_revoke)
qed

lemma dead_from_fold:
  assumes "dead_from i t (snd w)" "sorted (t # List.map_filter op_time ops @ [t'])"
  shows "dead_from i t' (snd (fold key_step ops w))"
  using assms
proof (induction ops arbitrary: t w)
  case Nil
  then show ?case
    by (simp add: dead_from_later)
next
  case (Cons op ops)
  then have step: "dead_from i (case op_time op of None \<Rightarrow> t | Some now \<Rightarrow> now) (snd (key_step op w))"
    by (intro dead_from_step) (simp_all add: map_filter_simps)
  show ?case
    using Cons.IH [OF step] Cons.prems(2)
    by (simp add: map_filter_simps split: option.splits)
qed

section \<open>Authentication\<close>

lemma authenticate_key_Ok:
  assumes "authenticate_key srv v s = (Inr (Auth_Ok login), s')"
  obtains p k now s1 s2 where "key_proof_of (ksv_codec srv) v = Inr (Some p)"
    "kst_get (ksv_store srv) (kp_key_id p) s = (Inr (Some k), s1)"
    "key_matches (ksv_codec srv) p k" "key_now srv s1 = (Inr now, s2)" "is_valid_at k now"
    "accept_record srv k now s2 = (Inr (Auth_Ok login), s')"
  using assms
  by (auto simp: authenticate_key_def authenticate_record_def call_def split: sum.splits option.splits
      prod.splits if_splits)

lemma accept_record_Ok:
  assumes "accept_record srv k now s = (Inr (Auth_Ok login), s')"
  shows "au_claims login = \<lparr>kcl_key_id = ks_key_id k, kcl_subject_id = ks_subject_id k\<rparr>"
    and "au_restrictions login = ks_restrictions k"
proof -
  obtain e s1 where "call (lift_result e) (\<lambda>proof. pure (Auth_Ok \<lparr>au_evidence = proof,
      au_grants = no_grants, au_restrictions = ks_restrictions k,
      au_claims = \<lparr>kcl_key_id = ks_key_id k, kcl_subject_id = ks_subject_id k\<rparr>\<rparr>)) s1 =
      (Inr (Auth_Ok login), s')"
    using assms unfolding accept_record_def call_eq_Inr [of _ "\<lambda>_. call _ _"] by blast
  then obtain proof' where "login = \<lparr>au_evidence = proof', au_grants = no_grants,
      au_restrictions = ks_restrictions k,
      au_claims = \<lparr>kcl_key_id = ks_key_id k, kcl_subject_id = ks_subject_id k\<rparr>\<rparr>"
    by (auto split: sum.splits)
  then show "au_claims login = \<lparr>kcl_key_id = ks_key_id k, kcl_subject_id = ks_subject_id k\<rparr>"
    "au_restrictions login = ks_restrictions k"
    by simp_all
qed

lemma memory_get:
  assumes "memory_key_get i w = (Inr found, w')"
  shows "found = dget (snd w) i" "snd w' = snd w"
  using assms
  by (auto simp: memory_key_get_def observed_def on_store_def reading_def split: prod.splits sum.splits)

definition clocked :: "time \<Rightarrow> 's key_service \<Rightarrow> 's key_service" where
  "clocked t srv = srv\<lparr>ksv_clock := pure (Aware t)\<rparr>"

lemma clocked_simps [simp]:
  "ksv_store (clocked t srv) = ksv_store srv" "ksv_codec (clocked t srv) = ksv_codec srv"
  "ksv_observe (clocked t srv) = ksv_observe srv" "key_now (clocked t srv) s = (Inr t, s)"
  by (simp_all add: clocked_def key_now_def)

text \<open>What a login through the in-memory store shows of the record it found.\<close>

lemma memory_login:
  assumes "authenticate_key (clocked t srv) v w = (Inr (Auth_Ok login), w')" "ksv_store srv = memory_keys"
  obtains p k where "key_proof_of (ksv_codec srv) v = Inr (Some p)"
    "dget (snd w) (kp_key_id p) = Some k" "key_matches (ksv_codec srv) p k" "is_valid_at k t"
    "au_claims login = \<lparr>kcl_key_id = kp_key_id p, kcl_subject_id = ks_subject_id k\<rparr>"
    "au_restrictions login = ks_restrictions k"
proof -
  obtain p k now s1 s2 where p: "key_proof_of (ksv_codec (clocked t srv)) v = Inr (Some p)"
    and get: "kst_get (ksv_store (clocked t srv)) (kp_key_id p) w = (Inr (Some k), s1)"
    and match: "key_matches (ksv_codec (clocked t srv)) p k"
    and now: "key_now (clocked t srv) s1 = (Inr now, s2)" and valid: "is_valid_at k now"
    and accept: "accept_record (clocked t srv) k now s2 = (Inr (Auth_Ok login), w')"
    using assms(1) by (rule authenticate_key_Ok)
  have "dget (snd w) (kp_key_id p) = Some k"
    using memory_get(1) [of "kp_key_id p" w "Some k" s1] get assms(2) by (simp add: memory_keys_def)
  moreover have "now = t"
    using now by simp
  ultimately show thesis
    using that [of p k] p match valid accept_record_Ok [OF accept] by (simp add: key_matches_def)
qed

lemma dead_key_rejected:
  assumes "dead_from i t (snd w)" "ksv_store srv = memory_keys"
    "authenticate_key (clocked t srv) v w = (Inr (Auth_Ok login), w')"
  shows "kcl_key_id (au_claims login) \<noteq> i"
  using assms by (auto simp: dead_from_def elim!: memory_login)


lemma key_evidence_total: "\<exists>e. key_evidence now expires_at = Inr e"
proof -
  have "normalize_text ''api-key'' = Inr ''api-key''"
    by code_simp
  then show ?thesis
    by (cases expires_at) (auto simp: key_evidence_def evidence_post_init_def normalize_values_def
        collect_set_def optional_result_def normalize_datetime_def)
qed

lemma memory_get_answers:
  assumes "dget (failpoints (fst w)) ''api_key.get'' = None"
  shows "\<exists>w'. memory_key_get i w = (Inr (dget (snd w) i), w')"
  using assms
  by (auto simp: memory_key_get_def observed_def observe_def Let_def on_store_def reading_def)

lemma memory_login_possible:
  assumes "key_proof_of (ksv_codec srv) v = Inr (Some p)" "ksv_store srv = memory_keys"
    "dget (snd w) (kp_key_id p) = Some k" "key_matches (ksv_codec srv) p k" "is_valid_at k t"
    "ksv_observe srv = None" "dget (failpoints (fst w)) ''api_key.get'' = None"
  shows "\<exists>login w'. authenticate_key (clocked t srv) v w = (Inr (Auth_Ok login), w')"
proof -
  obtain w' where "memory_key_get (kp_key_id p) w = (Inr (Some k), w')"
    using memory_get_answers [OF assms(7), of "kp_key_id p"] assms(3) by auto
  moreover obtain e where "key_evidence t (ks_expires_at k) = Inr e"
    using key_evidence_total by blast
  ultimately show ?thesis
    using assms
    by (simp add: authenticate_key_def authenticate_record_def accept_record_def memory_keys_def
        port_simps)
qed

section \<open>Issuing\<close>

lemma issued_key_post_init_same: "issued_key_post_init k = Inr k' \<Longrightarrow> k' = k"
  by (auto simp: issued_key_post_init_def split: option.splits prod.splits if_splits)

lemma key_state_post_init_Inr:
  assumes "key_state_post_init k = Inr k'"
  shows "ks_key_id k' = ks_key_id k" "ks_subject_id k' = ks_subject_id k" "ks_digest k' = ks_digest k"
    "ks_restrictions k' = ks_restrictions k" "optional_result aware_utc_time (ks_expires_at k) = Inr (ks_expires_at k')"
    "optional_result aware_utc_time (ks_revoked_at k) = Inr (ks_revoked_at k')"
  using assms by (auto simp: key_state_post_init_def Let_def bind_def split: sum.splits if_splits)

lemma codec_entropy_length:
  assumes "codec_entropy c n s = (Inr v, s')"
  shows "length v = n"
  using assms by (auto simp: codec_entropy_def split: prod.splits sum.splits if_splits)

lemma issue_key_Inr:
  assumes "issue_key c subject bounds expires s = (Inr (issued, k), s')"
  obtains lookup random where "length lookup = 12" "length random = 32"
    "ik_key_id issued = encode_random lookup"
    "ik_value issued = key_value (kc_prefix c) (encode_random lookup) (encode_random random)"
    "ks_key_id k = encode_random lookup" "ks_subject_id k = subject"
    "ks_digest k = key_digest (kc_hmac c) (kc_pepper c) (encode_random lookup) (encode_random random)"
    "ks_restrictions k = (case bounds of None \<Rightarrow> unrestricted_key | Some r \<Rightarrow> r)"
    "optional_result aware_utc_time expires = Inr (ks_expires_at k)" "ks_revoked_at k = None"
proof -
  obtain lookup s1 where l: "codec_entropy c 12 s = (Inr lookup, s1)"
    and rest: "call (codec_entropy c 32) (\<lambda>random.
       let key_id = encode_random lookup; secret = encode_random random
       in call (lift_result (issued_key_post_init
                 \<lparr>ik_key_id = key_id, ik_value = key_value (kc_prefix c) key_id secret\<rparr>)) (\<lambda>issued.
          call (lift_result (key_state_post_init
                 \<lparr>ks_key_id = key_id, ks_subject_id = subject,
                  ks_digest = key_digest (kc_hmac c) (kc_pepper c) key_id secret,
                  ks_restrictions = (case bounds of None \<Rightarrow> unrestricted_key | Some r \<Rightarrow> r),
                  ks_expires_at = expires, ks_revoked_at = None, ks_overlap_until = None\<rparr>))
            (\<lambda>record. pure (issued, record)))) s1 = (Inr (issued, k), s')"
    using assms unfolding issue_key_def call_eq_Inr [of "codec_entropy c 12"] by blast
  obtain random s2 where r: "codec_entropy c 32 s1 = (Inr random, s2)"
    and built: "issued_key_post_init \<lparr>ik_key_id = encode_random lookup,
        ik_value = key_value (kc_prefix c) (encode_random lookup) (encode_random random)\<rparr> = Inr issued"
      "key_state_post_init
         \<lparr>ks_key_id = encode_random lookup, ks_subject_id = subject,
          ks_digest = key_digest (kc_hmac c) (kc_pepper c) (encode_random lookup) (encode_random random),
          ks_restrictions = (case bounds of None \<Rightarrow> unrestricted_key | Some r \<Rightarrow> r),
          ks_expires_at = expires, ks_revoked_at = None, ks_overlap_until = None\<rparr> = Inr k"
    using rest unfolding Let_def run_ok prod.inject by blast
  show thesis
    using that [OF codec_entropy_length [OF l] codec_entropy_length [OF r]]
      issued_key_post_init_same [OF built(1)] key_state_post_init_Inr [OF built(2)]
    by (simp add: optional_result_def)
qed


text \<open>Two secrets under one lookup have different digests.\<close>

definition digests_differ :: "'s key_codec \<Rightarrow> bool" where
  "digests_differ c \<longleftrightarrow>
     (\<forall>key_id. length key_id = 16 \<longrightarrow> inj_on (\<lambda>random. key_digest (kc_hmac c) (kc_pepper c) key_id (encode_random random))
        {random. length random = 32})"

definition key_codec_ok :: "'s key_codec \<Rightarrow> bool" where
  "key_codec_ok c \<longleftrightarrow> valid_prefix (kc_prefix c) \<and> (\<forall>m. length (kc_hmac c (kc_pepper c) m) = 32) \<and>
     kc_comparator c = (=) \<and> digests_differ c"

lemma service_issue_key_memory:
  assumes "service_issue_key srv subject bounds expires w = (Inr issued, w')" "ksv_store srv = memory_keys"
  obtains k w0 w1 where "issue_key (ksv_codec srv) subject bounds expires w0 = (Inr (issued, k), w1)"
    "dget (snd w') (ks_key_id k) = Some k"
proof -
  obtain k w1 where i: "issue_key (ksv_codec srv) subject bounds expires w = (Inr (issued, k), w1)"
    and c: "memory_key_create k w1 = (Inr (), w')"
    using assms by (auto simp: service_issue_key_def run_ok memory_keys_def)
  have "dget (snd w') (ks_key_id k) = Some k"
    using c by (auto simp: memory_key_create_def observed_def on_store_def do_create_key_def dict_simps
        split: prod.splits sum.splits if_splits)
  then show thesis
    using that i by blast
qed

lemma issued_key_login:
  assumes codec: "key_codec_ok (ksv_codec srv)" and store: "ksv_store srv = memory_keys"
    and usage: "ksv_observe srv = None" and up: "dget (failpoints (fst w')) ''api_key.get'' = None"
    and issue: "service_issue_key srv subject bounds expires w = (Inr issued, w')"
  shows "(\<exists>login w''. authenticate_key (clocked t srv) v w' = (Inr (Auth_Ok login), w'') \<and>
        kcl_key_id (au_claims login) = ik_key_id issued) \<longleftrightarrow>
      v = ik_value issued \<and> (\<forall>e. expires = Some (Aware e) \<longrightarrow> t < e)" (is "?l \<longleftrightarrow> ?r")
    and "authenticate_key (clocked t srv) (ik_value issued) w' = (Inr (Auth_Ok login), w'') \<Longrightarrow>
      kcl_subject_id (au_claims login) = subject \<and>
      au_restrictions login = (case bounds of None \<Rightarrow> unrestricted_key | Some r \<Rightarrow> r)"
proof -
  let ?c = "ksv_codec srv"
  obtain k w0 w1 where k: "issue_key ?c subject bounds expires w0 = (Inr (issued, k), w1)"
    and stored: "dget (snd w') (ks_key_id k) = Some k"
    using service_issue_key_memory [OF issue store] .
  obtain lookup random where l: "length lookup = 12" "length random = 32"
    and issued: "ik_key_id issued = encode_random lookup"
      "ik_value issued = key_value (kc_prefix ?c) (encode_random lookup) (encode_random random)"
    and kf: "ks_key_id k = encode_random lookup" "ks_subject_id k = subject"
      "ks_digest k = key_digest (kc_hmac ?c) (kc_pepper ?c) (encode_random lookup) (encode_random random)"
      "ks_restrictions k = (case bounds of None \<Rightarrow> unrestricted_key | Some r \<Rightarrow> r)"
      "optional_result aware_utc_time expires = Inr (ks_expires_at k)" "ks_revoked_at k = None"
    using issue_key_Inr [OF k] .
  have proof_iff: "key_proof_of ?c v = Inr (Some p) \<longleftrightarrow>
    (\<exists>lookup random. length lookup = 12 \<and> length random = 32 \<and>
       v = key_value (kc_prefix ?c) (encode_random lookup) (encode_random random) \<and>
       p = \<lparr>kp_key_id = encode_random lookup,
            kp_digest = key_digest (kc_hmac ?c) (kc_pepper ?c) (encode_random lookup) (encode_random random)\<rparr>)" for v p
    using codec by (intro key_proof_of_iff) (auto simp: key_codec_ok_def)
  have valid: "is_valid_at k t \<longleftrightarrow> (\<forall>e. expires = Some (Aware e) \<longrightarrow> t < e)"
    using kf(5,6) by (cases expires)
      (auto simp: is_valid_at_iff optional_result_def bind_def elim!: aware_utc_time.elims split: sum.splits)
  let ?p = "\<lparr>kp_key_id = encode_random lookup, kp_digest = ks_digest k\<rparr>"
  have p: "key_proof_of ?c (ik_value issued) = Inr (Some ?p)"
    unfolding proof_iff issued(2) kf(3) using l by blast
  have only: "v = ik_value issued \<and> is_valid_at k t \<and> au_restrictions login = ks_restrictions k \<and>
      kcl_subject_id (au_claims login) = subject"
    if ok: "authenticate_key (clocked t srv) v w' = (Inr (Auth_Ok login), w'')"
      and id: "kcl_key_id (au_claims login) = ik_key_id issued" for v login w''
  proof -
    obtain p' k' where p': "key_proof_of ?c v = Inr (Some p')" "dget (snd w') (kp_key_id p') = Some k'"
      and m: "key_matches ?c p' k'" "is_valid_at k' t" "au_restrictions login = ks_restrictions k'"
      and claims: "au_claims login = \<lparr>kcl_key_id = kp_key_id p', kcl_subject_id = ks_subject_id k'\<rparr>"
      using memory_login [OF ok store] .
    have id': "kp_key_id p' = encode_random lookup"
      using id claims issued(1) by simp
    with p'(2) stored kf(1) have k': "k' = k"
      by simp
    obtain a b where ab: "length a = 12" "length b = 32"
      "v = key_value (kc_prefix ?c) (encode_random a) (encode_random b)"
      "p' = \<lparr>kp_key_id = encode_random a,
         kp_digest = key_digest (kc_hmac ?c) (kc_pepper ?c) (encode_random a) (encode_random b)\<rparr>"
      using p'(1) unfolding proof_iff by blast
    have "a = lookup"
      using id' ab(4) by (simp add: encode_random_inject)
    moreover have "b = random"
    proof (rule inj_onD)
      have "length (encode_random lookup) = 16"
        using l(1) by (simp add: length_encode_random)
      then show "inj_on (\<lambda>random. key_digest (kc_hmac ?c) (kc_pepper ?c) (encode_random lookup)
          (encode_random random)) {random. length random = 32}"
        using codec by (simp add: key_codec_ok_def digests_differ_def)
    qed (use m(1) codec ab(2,4) l(2) kf(3) k' \<open>a = lookup\<close> in
          \<open>auto simp: key_matches_def key_codec_ok_def\<close>)
    ultimately show ?thesis
      using ab(3) issued(2) m(2,3) claims k' kf(2) by simp
  qed
  have possible: "\<exists>login w''. authenticate_key (clocked t srv) (ik_value issued) w' =
      (Inr (Auth_Ok login), w'')" if "is_valid_at k t"
    by (rule memory_login_possible [OF p store _ _ that usage up])
      (use stored kf(1) codec in \<open>simp_all add: key_matches_def key_codec_ok_def\<close>)
  have same_id: "kcl_key_id (au_claims login) = ik_key_id issued"
    if "authenticate_key (clocked t srv) (ik_value issued) w' = (Inr (Auth_Ok login), w'')" for login w''
    using memory_login [OF that store] p issued(1) by force
  show "?l \<longleftrightarrow> ?r"
    using only possible same_id valid by blast
  show "kcl_subject_id (au_claims login) = subject \<and>
      au_restrictions login = (case bounds of None \<Rightarrow> unrestricted_key | Some r \<Rightarrow> r)"
    if "authenticate_key (clocked t srv) (ik_value issued) w' = (Inr (Auth_Ok login), w'')"
    using only [OF that same_id [OF that]] kf(4) by simp
qed


section \<open>Properties\<close>

text \<open>An HMAC whose digest is the secret of the message it authenticates, and a service around it.\<close>

definition example_key_hmac :: hmac_function where
  "example_key_hmac pepper m =
     (case decode_random (map (\<lambda>b. char_of (unat b)) (drop 46 m)) 32 of
        Some b \<Rightarrow> b | None \<Rightarrow> zero_bytes 32)"

definition example_key_service :: "(backend \<times> key_records) key_service" where
  "example_key_service =
     \<lparr>ksv_store = memory_keys,
      ksv_codec = \<lparr>kc_hmac = example_key_hmac, kc_pepper = zero_bytes 32, kc_prefix = ''lsk'',
        kc_entropy = (\<lambda>n. pure (zero_bytes n)), kc_comparator = (=)\<rparr>,
      ksv_clock = pure (Aware 0), ksv_observe = None\<rparr>"

lemma ascii_bytes_inverse: "map (\<lambda>b. char_of (unat b)) (ascii_bytes s) = s"
  by (induction s) (simp_all add: ascii_bytes_def unat_of_nat)

lemma example_key_digest:
  "length random = 32 \<Longrightarrow> length key_id = 16 \<Longrightarrow>
     key_digest example_key_hmac pepper key_id (encode_random random) = random"
proof -
  assume l: "length random = 32" "length key_id = 16"
  have "drop 46 (key_message key_id (encode_random random)) = ascii_bytes (encode_random random)"
    using l by (simp add: key_message_def ascii_bytes_def)
  moreover have "decode_random (encode_random random) 32 = Some random"
    using l by (simp add: decode_random_iff)
  ultimately show ?thesis
    by (simp add: key_digest_def example_key_hmac_def ascii_bytes_inverse)
qed

lemma example_key_codec_ok: "key_codec_ok (ksv_codec example_key_service)"
proof -
  have "length (example_key_hmac k m) = 32" for k m
    by (auto simp: example_key_hmac_def zero_bytes_def decode_random_iff split: option.splits)
  moreover have "valid_prefix ''lsk''"
    by code_simp
  ultimately show ?thesis
    by (auto simp: key_codec_ok_def example_key_service_def digests_differ_def inj_on_def
        example_key_digest)
qed

lemma example_issued:
  "\<exists>issued w'. service_issue_key example_key_service ''alice'' None (Some (Aware 10)) (empty_backend, []) =
     (Inr issued, w') \<and> failpoints (fst w') = []"
proof -
  have len: "length (zero_bytes n) = n" for n
    by (simp add: zero_bytes_def)
  have pre: "valid_prefix ''lsk''" "key_text ''alice''"
    by code_simp+
  let ?v = "key_value ''lsk'' (encode_random (zero_bytes 12)) (encode_random (zero_bytes 32))"
  have "parse_key_value ?v = Some (''lsk'', encode_random (zero_bytes 12), encode_random (zero_bytes 32))"
    by (rule parse_key_value_value [OF underscore_not_in_prefix [OF pre(1)]])
      (simp_all add: length_encode_random len)
  moreover have "key_id_ok (encode_random (zero_bytes 12))"
    "decode_segment (encode_random (zero_bytes 32)) 32 43 \<noteq> None"
    unfolding key_id_iff key_secret_iff using len by blast+
  moreover have "length (key_digest example_key_hmac p i s) = 32" for p i s
    using example_key_codec_ok
    by (simp add: key_codec_ok_def example_key_service_def key_digest_def example_key_hmac_def
        zero_bytes_def decode_random_iff split: option.splits)
  ultimately have issued: "issued_key_post_init \<lparr>ik_key_id = encode_random (zero_bytes 12), ik_value = ?v\<rparr> =
      Inr \<lparr>ik_key_id = encode_random (zero_bytes 12), ik_value = ?v\<rparr>"
    and made: "\<exists>k. key_state_post_init \<lparr>ks_key_id = encode_random (zero_bytes 12), ks_subject_id = ''alice'',
      ks_digest = key_digest example_key_hmac (zero_bytes 32) (encode_random (zero_bytes 12))
        (encode_random (zero_bytes 32)), ks_restrictions = unrestricted_key, ks_expires_at = Some (Aware 10),
      ks_revoked_at = None, ks_overlap_until = None\<rparr> = Inr k"
    using pre by (simp_all add: issued_key_post_init_def key_state_post_init_def optional_result_def)
  from made obtain k where k: "key_state_post_init \<lparr>ks_key_id = encode_random (zero_bytes 12),
      ks_subject_id = ''alice'', ks_digest = key_digest example_key_hmac (zero_bytes 32)
        (encode_random (zero_bytes 12)) (encode_random (zero_bytes 32)),
      ks_restrictions = unrestricted_key, ks_expires_at = Some (Aware 10),
      ks_revoked_at = None, ks_overlap_until = None\<rparr> = Inr k"
    by blast
  let ?c = "ksv_codec example_key_service"
  have drawn: "codec_entropy ?c n s = (Inr (zero_bytes n), s)" for n s
    by (simp add: codec_entropy_def example_key_service_def len)
  have "issue_key ?c ''alice'' None (Some (Aware 10)) s =
      (Inr (\<lparr>ik_key_id = encode_random (zero_bytes 12), ik_value = ?v\<rparr>, k), s)" for s
    unfolding issue_key_def call_Inr [OF drawn] Let_def
    by (simp add: example_key_service_def issued k)
  moreover have "\<exists>w'. memory_key_create k (empty_backend, []) = (Inr (), w') \<and> failpoints (fst w') = []"
    by (simp add: memory_key_create_def observed_def observe_def on_store_def do_create_key_def
        empty_backend_def Let_def)
  ultimately show ?thesis
    unfolding service_issue_key_def
    by (auto simp: port_simps example_key_service_def memory_keys_def)
qed

text \<open>C36: A freshly issued key logs in exactly its own text, until its expiry: over the in-memory
  store a presented value authenticates under the lookup of the issued key if and only if it is the
  revealed value and the key has not expired, and then as the subject and with the restrictions the
  key was issued with. The digests of two secrets are assumed to differ.\<close>

theorem issued_key_logs_in_exactly:
  assumes "key_codec_ok (ksv_codec srv)" "ksv_store srv = memory_keys" "ksv_observe srv = None"
    and "service_issue_key srv subject bounds expires w = (Inr issued, w')"
    and "dget (failpoints (fst w')) ''api_key.get'' = None"
  shows "((\<exists>login w''. authenticate_key (clocked t srv) v w' = (Inr (Auth_Ok login), w'') \<and>
        kcl_key_id (au_claims login) = ik_key_id issued) \<longleftrightarrow>
      v = ik_value issued \<and> (\<forall>e. expires = Some (Aware e) \<longrightarrow> t < e)) \<and>
    (\<forall>login w''. authenticate_key (clocked t srv) (ik_value issued) w' = (Inr (Auth_Ok login), w'') \<longrightarrow>
      kcl_subject_id (au_claims login) = subject \<and>
      au_restrictions login = (case bounds of None \<Rightarrow> unrestricted_key | Some r \<Rightarrow> r))"
  by (rule conjI [OF issued_key_login(1) [OF assms(1-3,5,4)]])
    (intro allI impI, rule issued_key_login(2) [OF assms(1-3,5,4)])

theorem issued_key_logs_in_exactly_witness:
  "\<exists>issued w' login w''.
     service_issue_key example_key_service ''alice'' None (Some (Aware 10)) (empty_backend, []) =
       (Inr issued, w') \<and>
     authenticate_key (clocked 9 example_key_service) (ik_value issued) w' = (Inr (Auth_Ok login), w'') \<and>
     kcl_subject_id (au_claims login) = ''alice''"
proof -
  obtain issued w' where i: "service_issue_key example_key_service ''alice'' None (Some (Aware 10))
      (empty_backend, []) = (Inr issued, w')" "failpoints (fst w') = []"
    using example_issued by blast
  have "ksv_store example_key_service = memory_keys" "ksv_observe example_key_service = None"
    by (simp_all add: example_key_service_def)
  note exact = issued_key_logs_in_exactly [OF example_key_codec_ok this i(1), of 9 "ik_value issued"]
  show ?thesis
    using exact i by auto
qed

text \<open>A rotated key lives exactly through its overlap: a rotation the in-memory store accepts
  stores the replacement under a new lookup, leaves every other key alone, and leaves the old key
  valid at a later instant if and only if it had not expired then and the requested overlap has not
  passed.\<close>

theorem rotated_key_lives_through_overlap:
  assumes "memory_key_rotate i replacement u now w = (Inr (), w')"
  shows "\<exists>current retired. dget (snd w) i = Some current \<and> ks_revoked_at current = None \<and>
    dget (snd w) (ks_key_id replacement) = None \<and>
    dget (snd w') = (dget (snd w)) (i \<mapsto> retired, ks_key_id replacement \<mapsto> replacement) \<and>
    (\<forall>t\<ge>now. is_valid_at retired t \<longleftrightarrow> is_valid_at current t \<and> (\<exists>e. u = Some e \<and> t \<le> e))"
proof -
  obtain b where "do_rotate_key i replacement u now (snd w) = (Inr (), snd w')"
    using assms by (auto simp: memory_key_rotate_def observed_def on_store_def split: prod.splits sum.splits)
  then obtain current retired where c: "dget (snd w) i = Some current" "ks_revoked_at current = None"
    "dget (snd w) (ks_key_id replacement) = None"
    and r: "replace_key_state current (Some now) (bounded_overlap u (ks_expires_at current)) = Inr retired"
    and w': "snd w' = dset (ks_key_id replacement) replacement (dset i retired (snd w))"
    by (auto simp: do_rotate_key_def split: option.splits sum.splits if_splits)
  have "\<forall>t\<ge>now. is_valid_at retired t \<longleftrightarrow> is_valid_at current t \<and> (\<exists>e. u = Some e \<and> t \<le> e)"
    using replace_key_state_Inr [OF r] c(2)
    by (cases u; cases "ks_expires_at current") (auto simp: is_valid_at_iff bounded_overlap_def)
  moreover have "dget (snd w') = (dget (snd w)) (i \<mapsto> retired, ks_key_id replacement \<mapsto> replacement)"
    by (rule ext) (simp add: w' dict_simps)
  ultimately show ?thesis
    using c by blast
qed

text \<open>C37: A dead key stays dead: once the record under a lookup has expired or been revoked past its
  overlap, no sequence of store operations carrying readings of a clock that does not run backwards
  ever lets a value log in under that lookup again.\<close>

theorem dead_key_stays_dead:
  assumes "dget (snd w) i = Some k" "\<not> is_valid_at k t"
    and "sorted (t # List.map_filter op_time ops @ [t'])" "ksv_store srv = memory_keys"
  shows "\<not> (\<exists>login w'. authenticate_key (clocked t' srv) v (fold key_step ops w) =
      (Inr (Auth_Ok login), w') \<and> kcl_key_id (au_claims login) = i)"
proof -
  have "dead_from i t' (snd (fold key_step ops w))"
    by (rule dead_from_fold [OF _ assms(3)]) (use assms(1,2) in \<open>auto simp: dead_from_def\<close>)
  then show ?thesis
    using dead_key_rejected [OF _ assms(4)] by blast
qed


definition example_key_record :: "string \<Rightarrow> time option \<Rightarrow> time key_state" where
  "example_key_record i revoked_at =
     \<lparr>ks_key_id = i, ks_subject_id = ''alice'', ks_digest = zero_bytes 32,
      ks_restrictions = unrestricted_key, ks_expires_at = Some 30, ks_revoked_at = revoked_at,
      ks_overlap_until = None\<rparr>"

theorem rotated_key_lives_through_overlap_witness:
  "\<exists>retired w'. memory_key_rotate ''AAAAAAAAAAAAAAAA'' (example_key_record ''AAAAAAAAAAAAAAAB'' None)
       (Some 20) 5 (empty_backend, [(''AAAAAAAAAAAAAAAA'', example_key_record ''AAAAAAAAAAAAAAAA'' None)]) =
       (Inr (), w') \<and>
     dget (snd w') ''AAAAAAAAAAAAAAAA'' = Some retired \<and> is_valid_at retired 20 \<and> \<not> is_valid_at retired 21"
proof -
  let ?w = "(empty_backend, [(''AAAAAAAAAAAAAAAA'', example_key_record ''AAAAAAAAAAAAAAAA'' None)])"
  have ok: "key_id_ok ''AAAAAAAAAAAAAAAA''" "key_text ''alice''"
    by code_simp+
  have "\<exists>k. replace_key_state (example_key_record ''AAAAAAAAAAAAAAAA'' None) (Some 5) (Some 20) = Inr k"
    using ok by (simp add: replace_key_state_def as_input_def example_key_record_def key_state_post_init_def
        optional_result_def zero_bytes_def)
  then obtain w' where r: "memory_key_rotate ''AAAAAAAAAAAAAAAA''
      (example_key_record ''AAAAAAAAAAAAAAAB'' None) (Some 20) 5 ?w = (Inr (), w')"
    by (auto simp: memory_key_rotate_def observed_def observe_def empty_backend_def Let_def on_store_def
        do_rotate_key_def bounded_overlap_def example_key_record_def)
  obtain current retired where c: "dget (snd ?w) ''AAAAAAAAAAAAAAAA'' = Some current"
    and w': "dget (snd w') = (dget (snd ?w)) (''AAAAAAAAAAAAAAAA'' \<mapsto> retired,
      ks_key_id (example_key_record ''AAAAAAAAAAAAAAAB'' None) \<mapsto> example_key_record ''AAAAAAAAAAAAAAAB'' None)"
    and valid: "\<forall>t\<ge>5. is_valid_at retired t \<longleftrightarrow> is_valid_at current t \<and> (\<exists>e. Some 20 = Some e \<and> t \<le> e)"
    using rotated_key_lives_through_overlap [OF r] by blast
  have "current = example_key_record ''AAAAAAAAAAAAAAAA'' None"
    using c by simp
  then have "is_valid_at retired 20" "\<not> is_valid_at retired 21"
    using valid by (simp_all add: is_valid_at_iff example_key_record_def)
  moreover have "dget (snd w') ''AAAAAAAAAAAAAAAA'' = Some retired"
    by (simp add: w' example_key_record_def)
  ultimately show ?thesis
    using r by blast
qed

theorem dead_key_stays_dead_witness:
  "\<not> (\<exists>login w'. authenticate_key (clocked 9 example_key_service)
      (key_value ''lsk'' ''AAAAAAAAAAAAAAAA'' (encode_random (zero_bytes 32)))
      (fold key_step [Key_Get ''AAAAAAAAAAAAAAAA'', Key_Revoke ''AAAAAAAAAAAAAAAA'' 7]
        (empty_backend, [(''AAAAAAAAAAAAAAAA'', example_key_record ''AAAAAAAAAAAAAAAA'' (Some 5))])) =
      (Inr (Auth_Ok login), w') \<and> kcl_key_id (au_claims login) = ''AAAAAAAAAAAAAAAA'')"
  by (rule dead_key_stays_dead [where t = 6 and k = "example_key_record ''AAAAAAAAAAAAAAAA'' (Some 5)"])
    (simp_all add: example_key_record_def is_valid_at_def example_key_service_def)

end
