(* ===== verification/WebSocket_Tokens.thy ===== *)
theory WebSocket_Tokens
  imports Key_Lifecycle Receipts
begin

text \<open>
  One-time WebSocket connect tokens (\<^verbatim>\<open>websocket/_connect_tokens.py\<close>) and the canonical origins they
  are bound to (\<^verbatim>\<open>websocket/_internal.py\<close>).

  \<^verbatim>\<open>urllib.parse.urlsplit\<close>, \<^verbatim>\<open>ipaddress\<close> and SHA-256 are parameters, as are the clock, the entropy
  source, the store and the epoch lookup.
\<close>

section \<open>Origins\<close>

record url_parts =
  up_scheme :: string
  up_hostname :: "string option"
  up_port :: "int option"
  up_username :: "string option"
  up_password :: "string option"
  up_path :: string
  up_query :: string
  up_fragment :: string

text \<open>
  \<open>ul_split\<close> is \<^verbatim>\<open>urlsplit(value)\<close> with the \<^verbatim>\<open>port\<close> property read, \<open>None\<close> where either raises
  ValueError; \<open>ul_ipv6\<close> is \<^verbatim>\<open>IPv6Address(value).compressed\<close>, which raises AddressValueError, a
  ValueError; \<open>ul_ipv4\<close> is \<^verbatim>\<open>str(IPv4Address(value))\<close>.
\<close>

record url_library =
  ul_split :: "string \<Rightarrow> url_parts option"
  ul_ipv6 :: "string \<Rightarrow> string option"
  ul_ipv4 :: "string \<Rightarrow> string option"

definition is_alnum :: "char \<Rightarrow> bool" where
  "is_alnum c \<longleftrightarrow>
     (let n = (of_char c :: nat)
      in (48 \<le> n \<and> n \<le> 57) \<or> (65 \<le> n \<and> n \<le> 90) \<or> (97 \<le> n \<and> n \<le> 122))"

definition is_decimal :: "char \<Rightarrow> bool" where
  "is_decimal c \<longleftrightarrow> (let n = (of_char c :: nat) in 48 \<le> n \<and> n \<le> 57)"

text \<open>The caller has checked that the text is ASCII, where \<^verbatim>\<open>isalnum\<close> and \<^verbatim>\<open>isdigit\<close> are these tests.\<close>

definition host_label_ok :: "string \<Rightarrow> bool" where
  "host_label_ok label \<longleftrightarrow>
     label \<noteq> [] \<and> length label \<le> 63 \<and> is_alnum (hd label) \<and> is_alnum (last label) \<and>
     list_all (\<lambda>c. is_alnum c \<or> c = CHR ''-'') label"

definition canonical_hostname :: "url_library \<Rightarrow> string \<Rightarrow> string option result" where
  "canonical_hostname lib v =
     (if CHR '':'' \<in> set v
      then (case ul_ipv6 lib v of None \<Rightarrow> Inl ValueError | Some h \<Rightarrow> Inr (Some h))
      else case ul_ipv4 lib v of
        Some h \<Rightarrow> Inr (Some h)
      | None \<Rightarrow>
          let labels = split_on (CHR ''.'') v
          in if length v > 253 \<or> list_all (\<lambda>l. l \<noteq> [] \<and> list_all is_decimal l) labels \<or>
                \<not> list_all host_label_ok labels
             then Inr None else Inr (Some v))"

definition invalid_origin :: "bool \<Rightarrow> int \<Rightarrow> 'a result" where
  "invalid_origin configuration close_code =
     Inl (if configuration then ImproperlyConfigured else TransportError close_code)"

definition default_port :: "string \<Rightarrow> int option" where
  "default_port scheme =
     (if scheme = ''http'' then Some 80 else if scheme = ''https'' then Some 443 else None)"

definition serialized_origin :: "url_parts \<Rightarrow> string \<Rightarrow> string" where
  "serialized_origin parsed hostname =
     up_scheme parsed @ ''://'' @
     (if CHR '':'' \<in> set hostname then ''['' @ hostname @ '']'' else hostname) @
     (case up_port parsed of
        None \<Rightarrow> []
      | Some port \<Rightarrow> if default_port (up_scheme parsed) = Some port then [] else '':'' @ show_int port)"

definition canonical_origin :: "url_library \<Rightarrow> bool \<Rightarrow> int \<Rightarrow> string \<Rightarrow> string result" where
  "canonical_origin lib configuration close_code v =
     (case ul_split lib v of
        None \<Rightarrow> invalid_origin configuration close_code
      | Some parsed \<Rightarrow>
          (case up_hostname parsed of
             None \<Rightarrow> invalid_origin configuration close_code
           | Some host \<Rightarrow>
               if \<not> is_ascii v \<or> default_port (up_scheme parsed) = None \<or> host = [] \<or>
                  up_username parsed \<noteq> None \<or> up_password parsed \<noteq> None \<or> up_path parsed \<noteq> [] \<or>
                  up_query parsed \<noteq> [] \<or> up_fragment parsed \<noteq> [] \<or> last host = CHR ''.'' \<or>
                  CHR ''*'' \<in> set host \<or> CHR ''%'' \<in> set host
               then invalid_origin configuration close_code
               else bind (canonical_hostname lib host) (\<lambda>canonical.
                 case canonical of
                   None \<Rightarrow> invalid_origin configuration close_code
                 | Some hostname \<Rightarrow>
                     if serialized_origin parsed hostname \<noteq> v
                     then invalid_origin configuration close_code else Inr v)))"

definition normalize_allowed_origins :: "url_library \<Rightarrow> string list \<Rightarrow> string set result" where
  "normalize_allowed_origins lib origins =
     bind (collect (map (canonical_origin lib True 4403) origins)) (\<lambda>canonical.
       if distinct canonical then Inr (set canonical) else Inl ImproperlyConfigured)"

text \<open>
  An address in brackets that \<^verbatim>\<open>urlsplit\<close> accepts and \<^verbatim>\<open>IPv6Address\<close> does not (an IPvFuture literal)
  is not reported as an invalid origin: AddressValueError leaves the function.
\<close>

lemma unparsable_address_escapes:
  assumes "ul_split lib v = Some parsed" "up_hostname parsed = Some host" "ul_ipv6 lib host = None"
    and "CHR '':'' \<in> set host" "last host \<noteq> CHR ''.''" "CHR ''*'' \<notin> set host" "CHR ''%'' \<notin> set host"
    and "is_ascii v" "default_port (up_scheme parsed) \<noteq> None" "up_username parsed = None"
    "up_password parsed = None" "up_path parsed = []" "up_query parsed = []" "up_fragment parsed = []"
  shows "canonical_origin lib configuration close_code v = Inl ValueError"
  using assms by (auto simp: canonical_origin_def canonical_hostname_def)

section \<open>Records\<close>

definition connect_text :: "string \<Rightarrow> bool" where
  "connect_text v \<longleftrightarrow> v \<noteq> [] \<and> v = strip v \<and> list_all (\<lambda>c. 32 \<le> (of_char c :: nat)) v"

definition maximum_connect_token_ttl :: time where "maximum_connect_token_ttl = seconds 120"

definition decode_connect_segment :: "string \<Rightarrow> nat \<Rightarrow> nat \<Rightarrow> bytes option" where
  "decode_connect_segment v expected_bytes expected_characters =
     (if length v \<noteq> expected_characters \<or> \<not> list_all b64url_char v then None
      else decode_random v expected_bytes)"

record 't connect_authorization =
  ca_connect_token_id :: string
  ca_digest :: bytes
  ca_subject_id :: string
  ca_security_epoch :: int
  ca_route_name :: string
  ca_origin :: string
  ca_restrictions :: restrictions
  ca_policy_fingerprint :: string
  ca_issued_at :: 't
  ca_expires_at :: 't

text \<open>The checks run in the order of the code: the origin's exception comes before the later ones.\<close>

definition connect_authorization_post_init ::
  "url_library \<Rightarrow> py_datetime connect_authorization \<Rightarrow> time connect_authorization result" where
  "connect_authorization_post_init lib c =
     bind (aware_utc_time (ca_issued_at c)) (\<lambda>issued_at.
     bind (aware_utc_time (ca_expires_at c)) (\<lambda>expires_at.
       if decode_connect_segment (ca_connect_token_id c) 16 22 = None \<or> length (ca_digest c) \<noteq> 32 \<or>
          \<not> connect_text (ca_subject_id c) \<or> ca_security_epoch c < 0 \<or> \<not> connect_text (ca_route_name c)
       then Inl ValueError
       else bind (canonical_origin lib True 4403 (ca_origin c)) (\<lambda>origin.
         if origin \<noteq> ca_origin c \<or> \<not> connect_text (ca_policy_fingerprint c) \<or> expires_at \<le> issued_at \<or>
            expires_at - issued_at > maximum_connect_token_ttl
         then Inl ValueError
         else Inr \<lparr>ca_connect_token_id = ca_connect_token_id c, ca_digest = ca_digest c,
           ca_subject_id = ca_subject_id c, ca_security_epoch = ca_security_epoch c,
           ca_route_name = ca_route_name c, ca_origin = ca_origin c, ca_restrictions = ca_restrictions c,
           ca_policy_fingerprint = ca_policy_fingerprint c, ca_issued_at = issued_at,
           ca_expires_at = expires_at\<rparr>)))"

definition connect_token_digest :: "(bytes \<Rightarrow> bytes) \<Rightarrow> string \<Rightarrow> string \<Rightarrow> bytes" where
  "connect_token_digest sha connect_token_id secret =
     sha (ascii_bytes ''litestar-security/websocket-connect-token/v1'' @ [0] @
          ascii_bytes connect_token_id @ [0] @ ascii_bytes secret)"

definition connect_token_proof :: "(bytes \<Rightarrow> bytes) \<Rightarrow> string \<Rightarrow> (string \<times> bytes) option" where
  "connect_token_proof sha v =
     (case split_on (CHR ''.'') v of
        [namespace, connect_token_id, secret] \<Rightarrow>
          if namespace \<noteq> ''wsct'' \<or> decode_connect_segment connect_token_id 16 22 = None \<or>
             decode_connect_segment secret 32 43 = None
          then None
          else Some (connect_token_id, connect_token_digest sha connect_token_id secret)
      | _ \<Rightarrow> None)"

definition connect_token_value :: "string \<Rightarrow> string \<Rightarrow> string" where
  "connect_token_value connect_token_id secret =
     ''wsct'' @ CHR ''.'' # connect_token_id @ CHR ''.'' # secret"

record issued_connect_token =
  ict_value :: string
  ict_expires_at :: time

definition issued_connect_token_post_init ::
  "(bytes \<Rightarrow> bytes) \<Rightarrow> string \<Rightarrow> py_datetime \<Rightarrow> issued_connect_token result" where
  "issued_connect_token_post_init sha v expires_at =
     (if connect_token_proof sha v = None then Inl ValueError
      else bind (aware_utc_time expires_at) (\<lambda>t. Inr \<lparr>ict_value = v, ict_expires_at = t\<rparr>))"

section \<open>The in-memory store\<close>

type_synonym connect_records = "(string, time connect_authorization) dict"

definition connect_create :: "time connect_authorization \<Rightarrow> (connect_records, unit) port" where
  "connect_create record d =
     (if dget d (ca_connect_token_id record) \<noteq> None then (Inl ValueError, d)
      else (Inr (), dset (ca_connect_token_id record) record d))"

definition connect_consume ::
  "string \<Rightarrow> bytes \<Rightarrow> py_datetime \<Rightarrow> (connect_records, time connect_authorization option) port" where
  "connect_consume connect_token_id digest now d =
     (case aware_utc_time now of
        Inl e \<Rightarrow> (Inl e, d)
      | Inr current \<Rightarrow>
          (case dget d connect_token_id of
             None \<Rightarrow> (Inr None, d)
           | Some r \<Rightarrow>
               if ca_expires_at r \<le> current then (Inr None, ddel connect_token_id d)
               else if digest \<noteq> ca_digest r then (Inr None, d)
               else (Inr (Some r), ddel connect_token_id d)))"

section \<open>The service\<close>

record 's connect_service =
  cs_urls :: url_library
  cs_sha :: "bytes \<Rightarrow> bytes"
  cs_create :: "time connect_authorization \<Rightarrow> ('s, unit) port"
  cs_consume :: "string \<Rightarrow> bytes \<Rightarrow> py_datetime \<Rightarrow> ('s, time connect_authorization option) port"
  cs_ttl :: time
  cs_clock :: "('s, py_datetime) port"
  cs_entropy :: "nat \<Rightarrow> ('s, bytes) port"

definition connect_service_post_init :: "'s connect_service \<Rightarrow> 's connect_service result" where
  "connect_service_post_init srv =
     (if \<not> (0 < cs_ttl srv \<and> cs_ttl srv \<le> maximum_connect_token_ttl) then Inl ImproperlyConfigured
      else Inr srv)"

definition connect_entropy :: "'s connect_service \<Rightarrow> nat \<Rightarrow> ('s, bytes) port" where
  "connect_entropy srv n s =
     (case cs_entropy srv n s of
        (Inl e, s') \<Rightarrow> (Inl ValueError, s')
      | (Inr v, s') \<Rightarrow> (if length v \<noteq> n then Inl ValueError else Inr v, s'))"

definition connect_now :: "'s connect_service \<Rightarrow> ('s, time) port" where
  "connect_now srv = call (cs_clock srv) (\<lambda>reading. lift_result (aware_utc_time reading))"

record connect_request =
  cq_route_name :: string
  cq_origin :: string
  cq_policy_fingerprint :: string

definition connect_record ::
  "'s connect_service \<Rightarrow> string \<Rightarrow> connect_request \<Rightarrow> int \<Rightarrow> restrictions option \<Rightarrow> time \<Rightarrow> bytes \<Rightarrow>
     bytes \<Rightarrow> time connect_authorization result" where
  "connect_record srv subject_id q security_epoch bounds now lookup random =
     (let connect_token_id = encode_random lookup; secret = encode_random random
      in connect_authorization_post_init (cs_urls srv)
           \<lparr>ca_connect_token_id = connect_token_id,
            ca_digest = connect_token_digest (cs_sha srv) connect_token_id secret,
            ca_subject_id = subject_id, ca_security_epoch = security_epoch,
            ca_route_name = cq_route_name q, ca_origin = cq_origin q,
            ca_restrictions = (case bounds of None \<Rightarrow> unrestricted_key | Some r \<Rightarrow> r),
            ca_policy_fingerprint = cq_policy_fingerprint q, ca_issued_at = Aware now,
            ca_expires_at = Aware (now + cs_ttl srv)\<rparr>)"

definition issue_connect_token ::
  "'s connect_service \<Rightarrow> 'u principal \<Rightarrow> connect_request \<Rightarrow> int \<Rightarrow> restrictions option \<Rightarrow>
     ('s, issued_connect_token) port" where
  "issue_connect_token srv p q security_epoch bounds =
     (case principal_id p of
        None \<Rightarrow> raise ValueError
      | Some subject_id \<Rightarrow>
          call (connect_now srv) (\<lambda>now.
          call (connect_entropy srv 16) (\<lambda>lookup.
          call (connect_entropy srv 32) (\<lambda>random.
          call (lift_result (connect_record srv subject_id q security_epoch bounds now lookup random))
            (\<lambda>record.
          call (cs_create srv record) (\<lambda>_.
          lift_result (issued_connect_token_post_init (cs_sha srv)
            (connect_token_value (encode_random lookup) (encode_random random))
            (Aware (ca_expires_at record)))))))))"

text \<open>The route-name front ends resolve the handler's compiled plan and delegate to \<open>issue\<close>.\<close>

definition record_admits :: "time connect_authorization \<Rightarrow> connect_request \<Rightarrow> bool" where
  "record_admits r q \<longleftrightarrow> ca_route_name r = cq_route_name q \<and> ca_origin r = cq_origin q \<and>
     ca_policy_fingerprint r = cq_policy_fingerprint q"

definition check_connect_epoch ::
  "(string \<Rightarrow> ('s, int option) port) \<Rightarrow> connect_request \<Rightarrow> time connect_authorization \<Rightarrow>
     ('s, time connect_authorization option) port" where
  "check_connect_epoch current_epoch q r s =
     (case current_epoch (ca_subject_id r) s of
        (Inl e, s') \<Rightarrow> (Inl RuntimeError, s')
      | (Inr None, s') \<Rightarrow> (Inl RuntimeError, s')
      | (Inr (Some epoch), s') \<Rightarrow>
          if epoch < 0 then (Inl RuntimeError, s')
          else if epoch \<noteq> ca_security_epoch r then (Inr None, s')
          else if \<not> record_admits r q then (Inr None, s')
          else (Inr (Some r), s'))"

definition consume_connect_token ::
  "'s connect_service \<Rightarrow> string \<Rightarrow> connect_request \<Rightarrow> (string \<Rightarrow> ('s, int option) port) \<Rightarrow>
     ('s, time connect_authorization option) port" where
  "consume_connect_token srv v q current_epoch s =
     (case connect_token_proof (cs_sha srv) v of
        None \<Rightarrow> (Inr None, s)
      | Some (connect_token_id, digest) \<Rightarrow>
          (case call (connect_now srv) (\<lambda>now. cs_consume srv connect_token_id digest (Aware now)) s of
             (Inl e, s') \<Rightarrow> (Inl RuntimeError, s')
           | (Inr None, s') \<Rightarrow> (Inr None, s')
           | (Inr (Some r), s') \<Rightarrow> check_connect_epoch current_epoch q r s'))"


section \<open>The textual form\<close>

lemma decode_connect_segment_eq: "decode_connect_segment v n m = decode_segment v n m"
  by (simp add: decode_connect_segment_def decode_segment_def)

lemma connect_segment_iff:
  "decode_connect_segment v 16 22 \<noteq> None \<longleftrightarrow> (\<exists>b. length b = 16 \<and> v = encode_random b)"
  "decode_connect_segment v 32 43 \<noteq> None \<longleftrightarrow> (\<exists>b. length b = 32 \<and> v = encode_random b)"
  by (force simp: decode_connect_segment_eq decode_segment_iff length_encode_random)+

lemma split_on_three: "split_on sep v = [a, b, c] \<Longrightarrow> v = a @ sep # b @ sep # c"
  using split_on_join [of sep v] by simp

lemma connect_token_proof_iff:
  "connect_token_proof sha v = Some p \<longleftrightarrow>
     (\<exists>lookup random. length lookup = 16 \<and> length random = 32 \<and>
        v = connect_token_value (encode_random lookup) (encode_random random) \<and>
        p = (encode_random lookup, connect_token_digest sha (encode_random lookup) (encode_random random)))"
    (is "?l \<longleftrightarrow> ?r")
proof
  assume l: ?l
  then obtain connect_token_id secret where s: "split_on (CHR ''.'') v = [''wsct'', connect_token_id, secret]"
    and d: "decode_connect_segment connect_token_id 16 22 \<noteq> None" "decode_connect_segment secret 32 43 \<noteq> None"
    and p: "p = (connect_token_id, connect_token_digest sha connect_token_id secret)"
    by (auto simp: connect_token_proof_def split: list.splits if_splits)
  obtain lookup where "length lookup = 16" "connect_token_id = encode_random lookup"
    using d(1) unfolding connect_segment_iff by blast
  moreover obtain random where "length random = 32" "secret = encode_random random"
    using d(2) unfolding connect_segment_iff by blast
  moreover have "v = connect_token_value connect_token_id secret"
    using split_on_three [OF s] by (simp add: connect_token_value_def)
  ultimately show ?r
    using p by blast
next
  assume ?r
  then obtain lookup random where l: "length lookup = 16" "length random = 32"
    and v: "v = connect_token_value (encode_random lookup) (encode_random random)"
    and p: "p = (encode_random lookup,
      connect_token_digest sha (encode_random lookup) (encode_random random))"
    by blast
  have "split_on (CHR ''.'') v = [''wsct'', encode_random lookup, encode_random random]"
    using split_on_append [of "CHR ''.''" "''wsct''"] split_on_append [OF encode_random_no_dot [of lookup]]
    by (simp add: v connect_token_value_def split_on_none encode_random_no_dot)
  moreover have "decode_connect_segment (encode_random lookup) 16 22 \<noteq> None"
    "decode_connect_segment (encode_random random) 32 43 \<noteq> None"
    unfolding connect_segment_iff using l by blast+
  ultimately show ?l
    by (simp add: connect_token_proof_def p)
qed

section \<open>Issue and redemption\<close>

text \<open>A service over the in-memory store, and its clock set to an instant.\<close>

definition over_memory :: "(connect_records \<times> 'e) connect_service \<Rightarrow> bool" where
  "over_memory srv \<longleftrightarrow> cs_create srv = (\<lambda>r. on_first (connect_create r)) \<and>
     cs_consume srv = (\<lambda>i d now. on_first (connect_consume i d now))"

definition connect_at :: "time \<Rightarrow> 's connect_service \<Rightarrow> 's connect_service" where
  "connect_at t srv = srv\<lparr>cs_clock := pure (Aware t)\<rparr>"

lemma connect_at_simps [simp]:
  "cs_sha (connect_at t srv) = cs_sha srv" "cs_urls (connect_at t srv) = cs_urls srv"
  "cs_create (connect_at t srv) = cs_create srv" "cs_consume (connect_at t srv) = cs_consume srv"
  "cs_ttl (connect_at t srv) = cs_ttl srv" "connect_now (connect_at t srv) s = (Inr t, s)"
  "connect_entropy (connect_at t srv) = connect_entropy srv"
  "over_memory (connect_at t srv) = over_memory srv"
  by (simp_all add: connect_at_def connect_now_def fun_eq_iff connect_entropy_def over_memory_def)

lemma connect_authorization_post_init_Inr:
  assumes "connect_authorization_post_init lib c = Inr r"
  shows "ca_connect_token_id r = ca_connect_token_id c \<and> ca_digest r = ca_digest c \<and>
    ca_subject_id r = ca_subject_id c \<and> ca_security_epoch r = ca_security_epoch c \<and>
    ca_route_name r = ca_route_name c \<and> ca_origin r = ca_origin c \<and>
    ca_restrictions r = ca_restrictions c \<and> ca_policy_fingerprint r = ca_policy_fingerprint c \<and>
    aware_utc_time (ca_issued_at c) = Inr (ca_issued_at r) \<and>
    aware_utc_time (ca_expires_at c) = Inr (ca_expires_at r) \<and> 0 \<le> ca_security_epoch r \<and>
    ca_issued_at r < ca_expires_at r \<and> ca_expires_at r \<le> ca_issued_at r + maximum_connect_token_ttl"
  using assms
  by (auto simp: connect_authorization_post_init_def bind_def split: sum.splits if_splits)

lemma connect_entropy_length:
  assumes "connect_entropy srv n s = (Inr v, s')"
  shows "length v = n"
  using assms by (auto simp: connect_entropy_def split: prod.splits sum.splits if_splits)

lemma issue_connect_token_memory:
  assumes "issue_connect_token (connect_at t srv) p q epoch bounds w = (Inr issued, w')" "over_memory srv"
  obtains r lookup random where "length lookup = 16" "length random = 32"
    "ict_value issued = connect_token_value (encode_random lookup) (encode_random random)"
    "dget (fst w') (encode_random lookup) = Some r" "ca_connect_token_id r = encode_random lookup"
    "ca_digest r = connect_token_digest (cs_sha srv) (encode_random lookup) (encode_random random)"
    "ca_security_epoch r = epoch" "0 \<le> epoch" "record_admits r q" "ca_expires_at r = t + cs_ttl srv"
    "Some (ca_subject_id r) = principal_id p"
proof -
  obtain subject where s: "principal_id p = Some subject"
    using assms(1) by (auto simp: issue_connect_token_def split: option.splits)
  obtain lookup random r s1 s2 s3 where l: "connect_entropy srv 16 w = (Inr lookup, s1)"
    and rnd: "connect_entropy srv 32 s1 = (Inr random, s2)"
    and rec: "connect_record (connect_at t srv) subject q epoch bounds t lookup random = Inr r"
    and create: "cs_create srv r s2 = (Inr (), s3)"
    and out: "issued_connect_token_post_init (cs_sha srv)
      (connect_token_value (encode_random lookup) (encode_random random)) (Aware (ca_expires_at r)) = Inr issued"
      "s3 = w'"
    using assms(1) unfolding issue_connect_token_def s option.case run_ok connect_at_simps prod.inject
    by auto
  have r: "ca_connect_token_id r = encode_random lookup"
      "ca_digest r = connect_token_digest (cs_sha srv) (encode_random lookup) (encode_random random)"
      "ca_security_epoch r = epoch" "0 \<le> epoch" "record_admits r q" "ca_expires_at r = t + cs_ttl srv"
      "ca_subject_id r = subject"
    using connect_authorization_post_init_Inr [OF rec [unfolded connect_record_def Let_def]]
    by (simp_all add: record_admits_def)
  have "fst w' = dset (encode_random lookup) r (fst s2)"
    using create assms(2) out(2) r(1)
    by (auto simp: over_memory_def on_first_eq connect_create_def split: if_splits)
  then have stored: "dget (fst w') (encode_random lookup) = Some r"
    by (simp add: dict_simps)
  have "ict_value issued = connect_token_value (encode_random lookup) (encode_random random)"
    using out(1) by (auto simp: issued_connect_token_post_init_def split: if_splits)
  then show thesis
    using that [OF connect_entropy_length [OF l] connect_entropy_length [OF rnd] _ stored] r s by simp
qed

text \<open>Redeeming a token of the in-memory store when the epoch lookup answers.\<close>

lemma consume_connect_token_memory:
  assumes "over_memory srv" "0 \<le> e"
  shows "fst (consume_connect_token (connect_at t srv) v q (\<lambda>_. pure (Some e)) w) =
    (case connect_token_proof (cs_sha srv) v of
       None \<Rightarrow> Inr None
     | Some (i, digest) \<Rightarrow> Inr (case dget (fst w) i of
         None \<Rightarrow> None
       | Some r \<Rightarrow> if t < ca_expires_at r \<and> digest = ca_digest r \<and> e = ca_security_epoch r \<and> record_admits r q
                   then Some r else None))"
  using assms
  by (auto simp: consume_connect_token_def over_memory_def call_def on_first_def connect_consume_def
      check_connect_epoch_def split: option.splits prod.splits)

text \<open>Two secrets under one lookup have different digests.\<close>

definition connect_digests_differ :: "(bytes \<Rightarrow> bytes) \<Rightarrow> bool" where
  "connect_digests_differ sha \<longleftrightarrow>
     (\<forall>lookup. length lookup = 16 \<longrightarrow>
        inj_on (\<lambda>random. connect_token_digest sha (encode_random lookup) (encode_random random))
          {random. length random = 32})"

lemma issued_connect_token_redeems:
  assumes "over_memory srv" "connect_digests_differ (cs_sha srv)"
    "issue_connect_token (connect_at t srv) p q epoch bounds w = (Inr issued, w')"
  obtains i d where "connect_token_proof (cs_sha srv) (ict_value issued) = Some (i, d)"
    "\<And>v q' t' e. 0 \<le> e \<Longrightarrow>
      (\<exists>r d'. connect_token_proof (cs_sha srv) v = Some (i, d') \<and>
        fst (consume_connect_token (connect_at t' srv) v q' (\<lambda>_. pure (Some e)) w') = Inr (Some r)) \<longleftrightarrow>
      v = ict_value issued \<and> t' < t + cs_ttl srv \<and> e = epoch \<and> q' = q"
proof -
  obtain r lookup random where l: "length lookup = 16" "length random = 32"
    and v: "ict_value issued = connect_token_value (encode_random lookup) (encode_random random)"
    and stored: "dget (fst w') (encode_random lookup) = Some r" "ca_connect_token_id r = encode_random lookup"
    and r: "ca_digest r = connect_token_digest (cs_sha srv) (encode_random lookup) (encode_random random)"
      "ca_security_epoch r = epoch" "record_admits r q" "ca_expires_at r = t + cs_ttl srv"
    using issue_connect_token_memory [OF assms(3,1)] by metis
  have proof_value: "connect_token_proof (cs_sha srv) (ict_value issued) = Some (encode_random lookup, ca_digest r)"
    unfolding connect_token_proof_iff v r(1) using l by blast
  have inj: "random' = random" if "length random' = 32"
    "connect_token_digest (cs_sha srv) (encode_random lookup) (encode_random random') = ca_digest r" for random'
    using assms(2) l that r(1) by (auto simp: connect_digests_differ_def inj_on_def)
  show thesis
  proof (rule that [OF proof_value])
    fix v' q' t' e
    assume e: "(0::int) \<le> e"
    note answer = consume_connect_token_memory [OF assms(1) e, of t' _ q' w']
    show "(\<exists>r d'. connect_token_proof (cs_sha srv) v' = Some (encode_random lookup, d') \<and>
        fst (consume_connect_token (connect_at t' srv) v' q' (\<lambda>_. pure (Some e)) w') = Inr (Some r)) \<longleftrightarrow>
      v' = ict_value issued \<and> t' < t + cs_ttl srv \<and> e = epoch \<and> q' = q" (is "?l \<longleftrightarrow> ?r")
    proof
      assume ?r
      then show ?l
        using answer [of v'] proof_value r stored by simp
    next
      assume ?l
      then obtain d r' where p: "connect_token_proof (cs_sha srv) v' = Some (encode_random lookup, d)"
        and r': "fst (consume_connect_token (connect_at t' srv) v' q' (\<lambda>_. pure (Some e)) w') = Inr (Some r')"
        by blast
      then have ok: "t' < ca_expires_at r" "d = ca_digest r" "e = ca_security_epoch r" "record_admits r q'"
        using answer [of v'] stored by (simp_all split: if_splits)
      obtain a b where ab: "length b = 32" "v' = connect_token_value (encode_random a) (encode_random b)"
        "encode_random a = encode_random lookup" "d = connect_token_digest (cs_sha srv) (encode_random a) (encode_random b)"
        using p unfolding connect_token_proof_iff prod.inject by metis
      then have "b = random"
        using inj [of b] ok(2) by simp
      moreover have "q' = q"
        using ok(4) r(3) by (cases q; cases q') (simp add: record_admits_def)
      ultimately show ?r
        using ab v ok r by simp
    qed
  qed
qed

section \<open>A spent token stays spent\<close>

datatype connect_op = Connect_Create "time connect_authorization" | Connect_Consume string bytes time

primrec connect_step :: "connect_op \<Rightarrow> connect_records \<Rightarrow> connect_records" where
  "connect_step (Connect_Create r) d = snd (connect_create r d)"
| "connect_step (Connect_Consume i digest t) d = snd (connect_consume i digest (Aware t) d)"

lemma connect_step_absent:
  assumes "dget d i = None" "\<And>r. op = Connect_Create r \<Longrightarrow> ca_connect_token_id r \<noteq> i"
  shows "dget (connect_step op d) i = None"
  using assms by (cases op) (auto simp: connect_create_def connect_consume_def dict_simps split: option.splits)

lemma connect_steps_absent:
  assumes "dget d i = None" "\<forall>r. Connect_Create r \<in> set ops \<longrightarrow> ca_connect_token_id r \<noteq> i"
  shows "dget (fold connect_step ops d) i = None"
  using assms by (induction ops arbitrary: d) (auto simp: connect_step_absent)

lemma consume_burns:
  assumes "over_memory srv" "connect_token_proof (cs_sha srv) v = Some (i, d)"
    "dget (fst w) i = Some r" "d = ca_digest r \<or> ca_expires_at r \<le> t"
    "\<And>subject. keeps fst (current_epoch subject)"
  shows "dget (fst (snd (consume_connect_token (connect_at t srv) v q current_epoch w))) i = None"
proof -
  let ?w = "(ddel i (fst w), snd w)"
  have "keeps fst (check_connect_epoch current_epoch q r)"
  proof -
    have "fst (snd (check_connect_epoch current_epoch q r s)) = fst s" for s
    proof -
      obtain answer s' where a: "current_epoch (ca_subject_id r) s = (answer, s')"
        by (cases "current_epoch (ca_subject_id r) s") blast
      then have "fst s' = fst s"
        using assms(5) keepsD by metis
      then show ?thesis
        by (simp add: check_connect_epoch_def a split: sum.split option.split)
    qed
    then show ?thesis
      by (simp add: keeps_def)
  qed
  then have "fst (snd (check_connect_epoch current_epoch q r ?w)) = ddel i (fst w)"
    by (simp add: keeps_def)
  then show ?thesis
    using assms(1-4)
    by (auto simp: consume_connect_token_def over_memory_def call_def on_first_def connect_consume_def
        dict_simps)
qed


section \<open>Properties\<close>

text \<open>A WebSocket connect token redeems exactly: over the in-memory store the values that redeem
  under the lookup of an issued token are the issued value alone, before its expiry, for the very
  route, origin and policy it was issued for, and at the epoch it was issued at. The digests of two
  secrets are assumed to differ.\<close>

theorem connect_token_redeems_exactly:
  assumes "over_memory srv" "connect_digests_differ (cs_sha srv)"
    and "issue_connect_token (connect_at t srv) p q epoch bounds w = (Inr issued, w')"
  shows "\<exists>i d. connect_token_proof (cs_sha srv) (ict_value issued) = Some (i, d) \<and>
    (\<forall>v q' t' e. 0 \<le> e \<longrightarrow>
      (\<exists>r d'. connect_token_proof (cs_sha srv) v = Some (i, d') \<and>
        fst (consume_connect_token (connect_at t' srv) v q' (\<lambda>_. pure (Some e)) w') = Inr (Some r)) \<longleftrightarrow>
      v = ict_value issued \<and> t' < t + cs_ttl srv \<and> e = epoch \<and> q' = q)"
  using issued_connect_token_redeems [OF assms] by metis

text \<open>A connect token is spent by its first presentation: once the right value has been presented,
  whatever came of the route, origin, policy and epoch checks, or once any value was presented after
  the expiry, every later presentation of the lookup is refused, whatever other tokens are issued
  and redeemed in between.\<close>

theorem connect_token_spent_once:
  assumes "over_memory srv" "connect_token_proof (cs_sha srv) v = Some (i, d)"
    and "dget (fst w) i = Some r" "d = ca_digest r \<or> ca_expires_at r \<le> t"
    and "\<forall>subject. keeps fst (current_epoch subject)"
    and "\<forall>r. Connect_Create r \<in> set ops \<longrightarrow> ca_connect_token_id r \<noteq> i"
    and "connect_token_proof (cs_sha srv) v' = Some (i, d')"
  shows "fst (consume_connect_token (connect_at t' srv) v' q' later_epoch
    (fold connect_step ops (fst (snd (consume_connect_token (connect_at t srv) v q current_epoch w))), rest)) =
    Inr None"
proof -
  have "dget (fst (snd (consume_connect_token (connect_at t srv) v q current_epoch w))) i = None"
    by (rule consume_burns [OF assms(1-4)]) (use assms(5) in blast)
  from connect_steps_absent [OF this assms(6)] show ?thesis
    using assms(1,7)
    by (simp add: consume_connect_token_def over_memory_def call_def on_first_def connect_consume_def)
qed

text \<open>A hash whose digest is the secret it hashes, a URL library that knows one origin, and a service.\<close>

definition example_connect_sha :: "bytes \<Rightarrow> bytes" where
  "example_connect_sha m =
     (case decode_random (map (\<lambda>b. char_of (unat b)) (drop 68 m)) 32 of Some b \<Rightarrow> b | None \<Rightarrow> zero_bytes 32)"

definition example_urls :: url_library where
  "example_urls = \<lparr>ul_split = (\<lambda>v. if v = ''https://a'' then Some \<lparr>up_scheme = ''https'',
     up_hostname = Some ''a'', up_port = None, up_username = None, up_password = None, up_path = [],
     up_query = [], up_fragment = []\<rparr> else None), ul_ipv6 = (\<lambda>_. None), ul_ipv4 = (\<lambda>_. None)\<rparr>"

definition example_connect_service :: "(connect_records \<times> unit) connect_service" where
  "example_connect_service =
     \<lparr>cs_urls = example_urls, cs_sha = example_connect_sha, cs_create = (\<lambda>r. on_first (connect_create r)),
      cs_consume = (\<lambda>i d now. on_first (connect_consume i d now)), cs_ttl = seconds 30,
      cs_clock = pure (Aware 0), cs_entropy = (\<lambda>n. pure (zero_bytes n))\<rparr>"

definition example_connect_request :: connect_request where
  "example_connect_request = \<lparr>cq_route_name = ''chat'', cq_origin = ''https://a'', cq_policy_fingerprint = ''f''\<rparr>"

lemma example_connect_digest:
  assumes "length random = 32" "length connect_token_id = 22"
  shows "connect_token_digest example_connect_sha connect_token_id (encode_random random) = random"
proof -
  have "drop 68 (ascii_bytes ''litestar-security/websocket-connect-token/v1'' @ [0] @
      ascii_bytes connect_token_id @ [0] @ ascii_bytes (encode_random random)) =
      ascii_bytes (encode_random random)"
    using assms by (simp add: ascii_bytes_def)
  moreover have "decode_random (encode_random random) 32 = Some random"
    using assms by (simp add: decode_random_iff)
  ultimately show ?thesis
    by (simp add: connect_token_digest_def example_connect_sha_def ascii_bytes_inverse)
qed

lemma example_connect_digests_differ: "connect_digests_differ example_connect_sha"
  by (simp add: connect_digests_differ_def inj_on_def example_connect_digest length_encode_random)

lemma example_over_memory: "over_memory example_connect_service"
  by (simp add: over_memory_def example_connect_service_def)

definition example_connect_issue :: "issued_connect_token result \<times> connect_records \<times> unit" where
  "example_connect_issue = issue_connect_token (connect_at 0 example_connect_service)
     \<lparr>principal_id = Some ''alice'', display_name = None, principal_user = Some ()\<rparr> example_connect_request 3
     None ([], ())"

lemma example_connect_issued:
  "example_connect_issue =
    (Inr \<lparr>ict_value = connect_token_value (encode_random (zero_bytes 16)) (encode_random (zero_bytes 32)),
       ict_expires_at = 30000000\<rparr>, snd example_connect_issue)"
proof -
  have len: "length (zero_bytes n) = n" for n
    by (simp add: zero_bytes_def)
  have texts: "connect_text ''alice''" "connect_text ''chat''" "connect_text ''f''"
    by code_simp+
  have origin: "canonical_origin example_urls True 4403 ''https://a'' = Inr ''https://a''"
    by code_simp
  have segment: "decode_connect_segment (encode_random (zero_bytes 16)) 16 22 \<noteq> None"
    unfolding connect_segment_iff using len by blast
  have "connect_token_proof example_connect_sha
      (connect_token_value (encode_random (zero_bytes 16)) (encode_random (zero_bytes 32))) \<noteq> None"
    using len by (fastforce simp: connect_token_proof_iff)
  moreover have "connect_token_digest example_connect_sha (encode_random (zero_bytes 16))
      (encode_random (zero_bytes 32)) = zero_bytes 32"
    by (simp add: example_connect_digest len length_encode_random)
  ultimately show ?thesis
    using texts origin segment
    by (simp add: example_connect_issue_def issue_connect_token_def call_def connect_entropy_def
        example_connect_service_def len connect_record_def connect_authorization_post_init_def
        example_connect_request_def on_first_def connect_create_def issued_connect_token_post_init_def
        maximum_connect_token_ttl_def seconds_def Let_def connect_at_def connect_now_def)
qed

theorem connect_token_redeems_exactly_witness:
  "\<exists>issued w' r. example_connect_issue = (Inr issued, w') \<and>
     fst (consume_connect_token (connect_at 29999999 example_connect_service) (ict_value issued)
       example_connect_request (\<lambda>_. pure (Some 3)) w') = Inr (Some r)"
proof -
  obtain issued w' where i: "example_connect_issue = (Inr issued, w')"
    using example_connect_issued by blast
  have "connect_digests_differ (cs_sha example_connect_service)"
    using example_connect_digests_differ by (simp add: example_connect_service_def)
  note exact = connect_token_redeems_exactly [OF example_over_memory this i [unfolded example_connect_issue_def]]
  have "(29999999 :: time) < 0 + cs_ttl example_connect_service"
    by (simp add: example_connect_service_def seconds_def)
  then show ?thesis
    using exact i by (metis order_refl zero_le_numeral)
qed

theorem connect_token_spent_once_witness:
  "\<exists>issued w'. example_connect_issue = (Inr issued, w') \<and>
     fst (consume_connect_token (connect_at 5 example_connect_service) (ict_value issued)
       example_connect_request (\<lambda>_. pure (Some 3))
       (fold connect_step [] (fst (snd (consume_connect_token (connect_at 5 example_connect_service)
          (ict_value issued) (example_connect_request\<lparr>cq_route_name := ''other''\<rparr>) (\<lambda>_. pure (Some 3)) w'))), ())) =
     Inr None"
proof -
  obtain issued w' where i: "example_connect_issue = (Inr issued, w')"
    using example_connect_issued by blast
  obtain r lookup random where l: "length lookup = 16" "length random = 32"
    and v: "ict_value issued = connect_token_value (encode_random lookup) (encode_random random)"
    and r: "dget (fst w') (encode_random lookup) = Some r"
      "ca_digest r = connect_token_digest (cs_sha example_connect_service) (encode_random lookup) (encode_random random)"
    using issue_connect_token_memory [OF i [unfolded example_connect_issue_def] example_over_memory] by metis
  have p: "connect_token_proof (cs_sha example_connect_service) (ict_value issued) = Some (encode_random lookup, ca_digest r)"
    unfolding connect_token_proof_iff v r(2) using l by blast
  have "fst (consume_connect_token (connect_at 5 example_connect_service) (ict_value issued)
       example_connect_request (\<lambda>_. pure (Some 3))
       (fold connect_step [] (fst (snd (consume_connect_token (connect_at 5 example_connect_service)
          (ict_value issued) (example_connect_request\<lparr>cq_route_name := ''other''\<rparr>) (\<lambda>_. pure (Some 3)) w'))), ())) =
     Inr None"
    by (rule connect_token_spent_once [OF example_over_memory p r(1) _ _ _ p]) simp_all
  then show ?thesis
    using i by blast
qed

end
