(* ===== verification/WebSocket_Lifecycle.thy ===== *)
theory WebSocket_Lifecycle
  imports WebSocket_Tokens
begin

text \<open>
  The life of one WebSocket (\<^verbatim>\<open>websocket/_lifecycle.py\<close>, \<^verbatim>\<open>websocket/_config.py\<close>): the close coordinator, the
  supervision of a running handler, the policy fingerprint, and the validated configuration.

  The coordinator's lock makes each of its calls one step. The ASGI \<^verbatim>\<open>send\<close> callable is a port that
  may raise. The anyio task group is a list of the events its tasks deliver, in the order they
  happen: every interleaving of the tasks is such a list.
\<close>

section \<open>The close coordinator\<close>

datatype ws_phase = Ws_Pending | Ws_Accepted | Ws_Closing | Ws_Closed

datatype ws_message = Ws_Accept | Ws_Close int string | Ws_Other string

type_synonym 's ws_transport = "ws_message \<Rightarrow> ('s, unit) port"

definition on_phase :: "('s, 'a) port \<Rightarrow> ws_phase \<Rightarrow> ws_phase \<Rightarrow> ('a \<Rightarrow> 'b) \<Rightarrow> 's \<Rightarrow> 'b result \<times> (ws_phase \<times> 's)" where
  "on_phase m failed done_phase f s =
     (case m s of (Inl e, s') \<Rightarrow> (Inl e, (failed, s')) | (Inr a, s') \<Rightarrow> (Inr (f a), (done_phase, s')))"

definition coordinator_send :: "'s ws_transport \<Rightarrow> ws_message \<Rightarrow> (ws_phase \<times> 's, unit) port" where
  "coordinator_send deliver m w =
     (case w of (phase, s) \<Rightarrow>
       if phase = Ws_Closed then (Inr (), w)
       else case m of
         Ws_Accept \<Rightarrow>
           if phase \<noteq> Ws_Pending then (Inr (), w)
           else on_phase (deliver m) Ws_Accepted Ws_Accepted id s
       | Ws_Close _ _ \<Rightarrow> on_phase (deliver m) Ws_Closing Ws_Closed id s
       | Ws_Other _ \<Rightarrow> on_phase (deliver m) phase phase id s)"

definition coordinator_close :: "'s ws_transport \<Rightarrow> int \<Rightarrow> string \<Rightarrow> (ws_phase \<times> 's, bool) port" where
  "coordinator_close deliver code reason w =
     (case w of (phase, s) \<Rightarrow>
       if phase = Ws_Closing \<or> phase = Ws_Closed then (Inr False, w)
       else on_phase (deliver (Ws_Close code reason)) Ws_Closing Ws_Closed (\<lambda>_. True) s)"

section \<open>Close codes and configuration\<close>

record close_codes =
  cc_unauthenticated :: int
  cc_unauthorized :: int
  cc_unavailable :: int

definition default_close_codes :: close_codes where
  "default_close_codes = \<lparr>cc_unauthenticated = 4401, cc_unauthorized = 4403, cc_unavailable = 1013\<rparr>"

definition validate_close_codes :: "close_codes \<Rightarrow> unit result" where
  "validate_close_codes c =
     (if \<not> (4000 \<le> cc_unauthenticated c \<and> cc_unauthenticated c \<le> 4999) \<or>
         \<not> (4000 \<le> cc_unauthorized c \<and> cc_unauthorized c \<le> 4999) \<or>
         (cc_unavailable c \<noteq> 1013 \<and> \<not> (4000 \<le> cc_unavailable c \<and> cc_unavailable c \<le> 4999)) \<or>
         \<not> distinct [cc_unauthenticated c, cc_unauthorized c, cc_unavailable c] \<or>
         cc_unauthenticated c = 4403 \<or> cc_unauthorized c = 4401 \<or>
         cc_unavailable c = 4401 \<or> cc_unavailable c = 4403
      then Inl ImproperlyConfigured else Inr ())"

text \<open>
  \<^verbatim>\<open>str.casefold\<close> on the code points of the model: the capitals of ASCII and Latin-1 lose their case
  and the sharp s unfolds.
\<close>

definition casefold :: "string \<Rightarrow> string" where
  "casefold s = concat (map (\<lambda>c. let n = (of_char c :: nat)
     in if (65 \<le> n \<and> n \<le> 90) \<or> (192 \<le> n \<and> n \<le> 222 \<and> n \<noteq> 215) then [char_of (n + 32)]
        else if n = 223 then ''ss'' else [c]) s)"

definition reserved_query_parameters :: "string list" where
  "reserved_query_parameters = [''access_token'', ''authorization'', ''bearer'', ''jwt'', ''token'']"

text \<open>The application's hooks are ports of the middleware; here only their presence matters.\<close>

record ws_config =
  wc_allowed_origins :: "string list"
  wc_connect_token_ttl :: time
  wc_maximum_connect_token_ttl :: time
  wc_query_parameter :: string
  wc_refresh_interval :: "time option"
  wc_has_refresher :: bool
  wc_close_codes :: close_codes

definition positive_duration :: "time \<Rightarrow> time result" where
  "positive_duration d = (if d \<le> 0 then Inl ImproperlyConfigured else Inr d)"

definition validate_connect_token_settings :: "ws_config \<Rightarrow> unit result" where
  "validate_connect_token_settings c =
     bind (positive_duration (wc_maximum_connect_token_ttl c)) (\<lambda>maximum.
       if maximum > maximum_connect_token_ttl then Inl ImproperlyConfigured
       else bind (positive_duration (wc_connect_token_ttl c)) (\<lambda>ttl.
         if ttl > maximum then Inl ImproperlyConfigured
         else let name = wc_query_parameter c
           in if name = [] \<or> name \<noteq> strip name \<or> \<not> is_ascii name \<or>
                 list_ex (\<lambda>c. c \<in> {CHR ''&'', CHR ''#'', CHR ''='', CHR '';''}) name
              then Inl ImproperlyConfigured
              else if casefold name \<in> set reserved_query_parameters then Inl ImproperlyConfigured
              else Inr ()))"

definition validate_refresh_settings :: "ws_config \<Rightarrow> unit result" where
  "validate_refresh_settings c =
     (case wc_refresh_interval c of
        None \<Rightarrow> Inr ()
      | Some d \<Rightarrow>
          bind (positive_duration d) (\<lambda>_.
            if wc_has_refresher c then Inr () else Inl ImproperlyConfigured))"

definition ws_config_post_init :: "url_library \<Rightarrow> ws_config \<Rightarrow> (ws_config \<times> string set) result" where
  "ws_config_post_init lib c =
     bind (normalize_allowed_origins lib (wc_allowed_origins c)) (\<lambda>origins.
     bind (validate_connect_token_settings c) (\<lambda>_.
     bind (validate_refresh_settings c) (\<lambda>_.
     bind (validate_close_codes (wc_close_codes c)) (\<lambda>_. Inr (c, origins)))))"

section \<open>The policy fingerprint\<close>

definition json_bool :: "bool \<Rightarrow> string" where
  "json_bool b = (if b then ''true'' else ''false'')"

definition json_list :: "string list \<Rightarrow> string" where
  "json_list items = CHR ''['' # tl (concat (map ((#) (CHR '','')) items)) @ '']''"

definition requirement_json :: "mechanism_requirement \<Rightarrow> string" where
  "requirement_json q =
     json_object [(''name'', json_string (rq_name q)), (''scopes'', json_list (map json_string (rq_scopes q)))]"

definition participant_list :: "runtime_plan \<Rightarrow> string list" where
  "participant_list plan =
     (case plan_participants plan of None \<Rightarrow> [] | Some names \<Rightarrow> sorted_list_of_set names)"

definition fingerprint_payload :: "runtime_plan \<Rightarrow> string" where
  "fingerprint_payload plan =
     json_object
       [(''allow_anonymous'', json_bool (plan_allow_anonymous plan)),
        (''alternatives'', json_list (map (\<lambda>a. json_list (map requirement_json a)) (plan_alternatives plan))),
        (''authenticate'', json_bool (plan_authenticate plan)),
        (''participant_names'', json_list (map json_string (participant_list plan))),
        (''required'', json_bool (plan_required plan)),
        (''v'', ''1'')]"

definition websocket_policy_fingerprint :: "(bytes \<Rightarrow> bytes) \<Rightarrow> runtime_plan \<Rightarrow> string result" where
  "websocket_policy_fingerprint sha plan =
     (if [] \<in> set (participant_list plan) \<or>
         (\<exists>a\<in>set (plan_alternatives plan). \<exists>q\<in>set a. rq_name q = [] \<or> [] \<in> set (rq_scopes q))
      then Inl ValueError
      else Inr (hex_text (sha (ascii_bytes ''litestar-security/websocket-policy/v1'' @ [0] @
                               ascii_bytes (fingerprint_payload plan)))))"

section \<open>Supervision\<close>

text \<open>
  What the tasks of the group can do: the expiry timer fires, the revocation hook returns or fails,
  one round of the refresh hook ends, the handler calls the coordinator, returns or raises.
\<close>

datatype ws_event =
    Lifetime_Expired
  | Revocation_Signalled
  | Revocation_Failed
  | Refresh_Done
  | Refresh_Raised py_error
  | Handler_Sends ws_message
  | Handler_Returned
  | Handler_Raised py_error

definition refresh_close :: "close_codes \<Rightarrow> py_error \<Rightarrow> int \<times> string" where
  "refresh_close codes e =
     (if e = NotAuthorized \<or> e = PermissionDenied then (cc_unauthorized codes, ''authorization_denied'')
      else (cc_unavailable codes, ''verification_unavailable''))"

text \<open>The close a task asks for before it cancels the group.\<close>

primrec event_close :: "close_codes \<Rightarrow> ws_event \<Rightarrow> (int \<times> string) option" where
  "event_close codes Lifetime_Expired = Some (cc_unauthenticated codes, ''credential_expired'')"
| "event_close codes Revocation_Signalled = Some (cc_unauthenticated codes, ''credential_revoked'')"
| "event_close codes Revocation_Failed = Some (cc_unavailable codes, ''verification_unavailable'')"
| "event_close codes Refresh_Done = None"
| "event_close codes (Refresh_Raised e) = Some (refresh_close codes e)"
| "event_close codes (Handler_Sends m) = None"
| "event_close codes Handler_Returned = None"
| "event_close codes (Handler_Raised e) = None"

text \<open>
  \<open>grouped\<close> is what the task group makes of an exception that leaves it: anyio wraps it in an
  ExceptionGroup. A failed send is raised in the handler, whose further events the list holds.
\<close>

definition close_and_cancel ::
  "(py_error \<Rightarrow> py_error) \<Rightarrow> 's ws_transport \<Rightarrow> int \<Rightarrow> string \<Rightarrow> (ws_phase \<times> 's, unit) port" where
  "close_and_cancel grouped deliver code reason w =
     (case coordinator_close deliver code reason w of
        (Inl x, w') \<Rightarrow> (Inl (grouped x), w') | (Inr _, w') \<Rightarrow> (Inr (), w'))"

lemma snd_close_and_cancel [simp]:
  "snd (close_and_cancel grouped deliver code reason w) = snd (coordinator_close deliver code reason w)"
  by (simp add: close_and_cancel_def split: prod.split sum.split)

fun supervise_events ::
  "close_codes \<Rightarrow> (py_error \<Rightarrow> py_error) \<Rightarrow> 's ws_transport \<Rightarrow> ws_event list \<Rightarrow> (ws_phase \<times> 's, unit) port" where
  "supervise_events codes grouped deliver [] w = (Inr (), w)"
| "supervise_events codes grouped deliver (e # es) w =
     (case event_close codes e of
        Some (code, reason) \<Rightarrow>
          close_and_cancel grouped deliver code reason w
      | None \<Rightarrow>
          (case e of
             Handler_Sends m \<Rightarrow> supervise_events codes grouped deliver es (snd (coordinator_send deliver m w))
           | Handler_Returned \<Rightarrow> (Inr (), w)
           | Handler_Raised x \<Rightarrow> (Inl (grouped x), w)
           | _ \<Rightarrow> supervise_events codes grouped deliver es w))"

primrec handler_event :: "ws_event \<Rightarrow> bool" where
  "handler_event Lifetime_Expired = False"
| "handler_event Revocation_Signalled = False"
| "handler_event Revocation_Failed = False"
| "handler_event Refresh_Done = False"
| "handler_event (Refresh_Raised e) = False"
| "handler_event (Handler_Sends m) = True"
| "handler_event Handler_Returned = True"
| "handler_event (Handler_Raised e) = True"

text \<open>
  Without an expiry and without hooks the handler runs alone. A connection whose expiry has passed
  is closed before its handler runs.
\<close>

definition supervise_websocket_lifetime ::
  "bool \<Rightarrow> close_codes \<Rightarrow> (py_error \<Rightarrow> py_error) \<Rightarrow> 's ws_transport \<Rightarrow> time option \<Rightarrow> py_datetime \<Rightarrow>
     ws_event list \<Rightarrow> (ws_phase \<times> 's, unit) port" where
  "supervise_websocket_lifetime hooks codes grouped deliver expires_at clock es w =
     (case expires_at of
        None \<Rightarrow>
          if hooks then supervise_events codes grouped deliver (filter (\<lambda>e. e \<noteq> Lifetime_Expired) es) w
          else supervise_events codes id deliver (filter handler_event es) w
      | Some e \<Rightarrow>
          (case aware_utc_time clock of
             Inl x \<Rightarrow> (Inl x, w)
           | Inr now \<Rightarrow>
               if e - now \<le> 0
               then close_and_cancel id deliver (cc_unauthenticated codes) ''credential_expired'' w
               else supervise_events codes grouped deliver es w))"

section \<open>One close at most\<close>

text \<open>A transport whose failed sends deliver nothing; \<open>sent\<close> is what the client has received.\<close>

definition delivers :: "'s ws_transport \<Rightarrow> ('s \<Rightarrow> ws_message list) \<Rightarrow> bool" where
  "delivers deliver sent \<longleftrightarrow>
     (\<forall>m s r s'. deliver m s = (r, s') \<longrightarrow> sent s' = (case r of Inl _ \<Rightarrow> sent s | Inr _ \<Rightarrow> sent s @ [m]))"

definition quiet :: "ws_message list \<Rightarrow> bool" where
  "quiet ms \<longleftrightarrow> (\<forall>code reason. Ws_Close code reason \<notin> set ms)"

definition phase_ok :: "ws_phase \<Rightarrow> ws_message list \<Rightarrow> bool" where
  "phase_ok phase ms \<longleftrightarrow>
     count_list ms Ws_Accept \<le> (if phase = Ws_Pending then 0 else 1) \<and>
     (if phase = Ws_Closed then \<exists>ns code reason. ms = ns @ [Ws_Close code reason] \<and> quiet ns else quiet ms)"

lemma quiet_simps [simp]:
  "quiet []" "quiet (ms @ ns) \<longleftrightarrow> quiet ms \<and> quiet ns" "quiet [Ws_Accept]" "quiet [Ws_Other x]"
  by (auto simp: quiet_def)

lemma phase_ok_send:
  assumes "delivers deliver sent" "phase_ok (fst w) (sent (snd w))"
  shows "phase_ok (fst (snd (coordinator_send deliver m w))) (sent (snd (snd (coordinator_send deliver m w))))"
proof -
  obtain phase s where w: "w = (phase, s)"
    by fastforce
  obtain r s' where d: "deliver m s = (r, s')"
    by fastforce
  then have sent: "sent s' = (case r of Inl _ \<Rightarrow> sent s | Inr _ \<Rightarrow> sent s @ [m])"
    using assms(1) by (simp add: delivers_def)
  show ?thesis
    using assms(2) sent d
    by (cases m; cases phase; cases r) (auto simp: w coordinator_send_def on_phase_def phase_ok_def)
qed

lemma phase_ok_close:
  assumes "delivers deliver sent" "phase_ok (fst w) (sent (snd w))"
  shows "phase_ok (fst (snd (coordinator_close deliver code reason w)))
    (sent (snd (snd (coordinator_close deliver code reason w))))"
proof -
  obtain phase s where w: "w = (phase, s)"
    by fastforce
  obtain r s' where d: "deliver (Ws_Close code reason) s = (r, s')"
    by fastforce
  then have sent: "sent s' = (case r of Inl _ \<Rightarrow> sent s | Inr _ \<Rightarrow> sent s @ [Ws_Close code reason])"
    using assms(1) by (simp add: delivers_def)
  show ?thesis
    using assms(2) sent
    by (cases phase; cases r) (auto simp: w coordinator_close_def on_phase_def d phase_ok_def)
qed

lemma phase_ok_supervise:
  assumes "delivers deliver sent" "phase_ok (fst w) (sent (snd w))"
  shows "phase_ok (fst (snd (supervise_events codes grouped deliver es w)))
    (sent (snd (snd (supervise_events codes grouped deliver es w))))"
  using assms(2)
proof (induction es arbitrary: w)
  case (Cons e es)
  note close = phase_ok_close [OF assms(1) Cons.prems] and send = phase_ok_send [OF assms(1) Cons.prems]
  show ?case
    using Cons close send by (cases e) (auto simp: refresh_close_def split: prod.split)
qed simp

lemma phase_ok_lifetime:
  assumes "delivers deliver sent" "phase_ok (fst w) (sent (snd w))"
  shows "phase_ok (fst (snd (supervise_websocket_lifetime hooks codes grouped deliver expires_at clock es w)))
    (sent (snd (snd (supervise_websocket_lifetime hooks codes grouped deliver expires_at clock es w))))"
  using phase_ok_supervise [OF assms] phase_ok_close [OF assms] assms(2)
  by (auto simp: supervise_websocket_lifetime_def split: option.split sum.split prod.split)

lemma phase_ok_shape:
  assumes "phase_ok phase ms"
  shows "count_list ms Ws_Accept \<le> 1" "\<not> (\<exists>before code reason m after. ms = before @ Ws_Close code reason # m # after)"
proof -
  show "count_list ms Ws_Accept \<le> 1"
    using assms by (auto simp: phase_ok_def split: if_splits)
  show "\<not> (\<exists>before code reason m after. ms = before @ Ws_Close code reason # m # after)"
  proof
    assume "\<exists>before code reason m after. ms = before @ Ws_Close code reason # m # after"
    then obtain before code reason m after where ms: "ms = before @ Ws_Close code reason # m # after"
      by blast
    then have not_quiet: "Ws_Close code reason \<in> set (butlast ms)"
      by (simp add: butlast_append)
    then show False
      using assms by (auto simp: phase_ok_def quiet_def ms split: if_splits)
  qed
qed


section \<open>The fingerprint determines the policy\<close>

text \<open>A self-delimiting encoding can be read back from any text it begins.\<close>

definition self_delimiting :: "('a \<Rightarrow> string) \<Rightarrow> bool" where
  "self_delimiting e \<longleftrightarrow>
     (\<forall>x y a b. e x @ a = e y @ b \<longrightarrow> x = y \<and> a = b) \<and> (\<forall>x. e x \<noteq> [] \<and> hd (e x) \<notin> {CHR '','', CHR '']''})"

lemma self_delimitingD: "self_delimiting e \<Longrightarrow> e x @ a = e y @ b \<Longrightarrow> x = y \<and> a = b"
  by (simp add: self_delimiting_def)

lemma self_delimiting_string: "self_delimiting json_string"
  by (auto simp: self_delimiting_def) (simp_all add: json_string_def)

lemma json_items_inject:
  assumes "self_delimiting e"
    "concat (map ((#) (CHR '','')) (map e xs)) @ CHR '']'' # a = concat (map ((#) (CHR '','')) (map e ys)) @ CHR '']'' # b"
  shows "xs = ys \<and> a = b"
  using assms(2)
proof (induction xs arbitrary: ys)
  case Nil
  then show ?case
    by (cases ys) auto
next
  case (Cons x xs)
  then obtain y ys' where ys: "ys = y # ys'"
    by (cases ys) auto
  with Cons.prems have "e x @ concat (map ((#) (CHR '','')) (map e xs)) @ CHR '']'' # a =
      e y @ concat (map ((#) (CHR '','')) (map e ys')) @ CHR '']'' # b"
    by simp
  from self_delimitingD [OF assms(1) this] show ?case
    using Cons.IH [of ys'] ys by simp
qed

lemma json_list_parts:
  "json_list items @ a = CHR ''['' # (case items of [] \<Rightarrow> [] | i # is \<Rightarrow> i @ concat (map ((#) (CHR '','')) is)) @ CHR '']'' # a"
  by (cases items) (simp_all add: json_list_def)

lemma self_delimiting_list:
  assumes "self_delimiting e"
  shows "self_delimiting (\<lambda>xs. json_list (map e xs))"
  unfolding self_delimiting_def
proof (intro conjI allI impI)
  fix xs ys a b
  assume eq: "json_list (map e xs) @ a = json_list (map e ys) @ b"
  have first: "e x \<noteq> []" "hd (e x) \<noteq> CHR '']''" for x
    using assms by (simp_all add: self_delimiting_def)
  have "xs = ys \<and> a = b"
  proof (cases xs)
    case Nil
    then show ?thesis
      using eq first by (cases ys) (auto simp: json_list_parts Cons_eq_append_conv, metis list.sel(1))
  next
    case (Cons x xs')
    show ?thesis
    proof (cases ys)
      case Nil
      then show ?thesis
        using eq first Cons by (auto simp: json_list_parts append_eq_Cons_conv, metis list.sel(1))
    next
      case (Cons y ys')
      then have "CHR '','' # e x @ concat (map ((#) (CHR '','')) (map e xs')) @ CHR '']'' # a =
          CHR '','' # e y @ concat (map ((#) (CHR '','')) (map e ys')) @ CHR '']'' # b"
        using eq \<open>xs = x # xs'\<close> by (simp add: json_list_parts)
      then show ?thesis
        using json_items_inject [OF assms, of "x # xs'" a "y # ys'" b] Cons \<open>xs = x # xs'\<close> by simp
    qed
  qed
  then show "xs = ys" "a = b"
    by simp_all
qed (simp_all add: json_list_def)

lemma requirement_json_parts:
  "requirement_json q @ a = CHR ''{'' # json_string ''name'' @ CHR '':'' # json_string (rq_name q) @
     CHR '','' # json_string ''scopes'' @ CHR '':'' # json_list (map json_string (rq_scopes q)) @ CHR ''}'' # a"
  by (simp add: requirement_json_def json_object_def)

lemma self_delimiting_requirement: "self_delimiting requirement_json"
  unfolding self_delimiting_def
proof (intro conjI allI impI)
  fix q r a b
  assume "requirement_json q @ a = requirement_json r @ b"
  then have "rq_name q = rq_name r" and
    l: "json_list (map json_string (rq_scopes q)) @ CHR ''}'' # a = json_list (map json_string (rq_scopes r)) @ CHR ''}'' # b"
    by (simp_all add: requirement_json_parts)
  moreover from self_delimitingD [OF self_delimiting_list [OF self_delimiting_string] l]
  have "rq_scopes q = rq_scopes r" "a = b"
    by simp_all
  ultimately show "q = r" "a = b"
    by simp_all
qed (simp_all add: requirement_json_def json_object_def)

lemma self_delimiting_bool: "json_bool x @ a = json_bool y @ b \<Longrightarrow> x = y \<and> a = b"
  by (auto simp: json_bool_def split: if_splits)

lemma json_bool_eq [simp]: "json_bool x = json_bool y \<longleftrightarrow> x = y"
  using self_delimiting_bool [of x "[]" y "[]"] by auto

lemma fingerprint_payload_parts:
  "fingerprint_payload plan = CHR ''{'' # json_string ''allow_anonymous'' @ CHR '':'' # json_bool (plan_allow_anonymous plan) @
     CHR '','' # json_string ''alternatives'' @ CHR '':'' #
       json_list (map (\<lambda>a. json_list (map requirement_json a)) (plan_alternatives plan)) @
     CHR '','' # json_string ''authenticate'' @ CHR '':'' # json_bool (plan_authenticate plan) @
     CHR '','' # json_string ''participant_names'' @ CHR '':'' # json_list (map json_string (participant_list plan)) @
     CHR '','' # json_string ''required'' @ CHR '':'' # json_bool (plan_required plan) @
     CHR '','' # json_string ''v'' @ CHR '':'' # ''1}''"
  by (simp add: fingerprint_payload_def json_object_def)

lemma fingerprint_payload_inject:
  assumes "fingerprint_payload p = fingerprint_payload q"
  shows "plan_allow_anonymous p = plan_allow_anonymous q" "plan_alternatives p = plan_alternatives q"
    "plan_authenticate p = plan_authenticate q" "participant_list p = participant_list q"
    "plan_required p = plan_required q"
proof -
  note lists = self_delimitingD [OF self_delimiting_list [OF self_delimiting_list [OF self_delimiting_requirement]]]
    self_delimitingD [OF self_delimiting_list [OF self_delimiting_string]]
  have 1: "plan_allow_anonymous p = plan_allow_anonymous q \<and>
      json_list (map (\<lambda>a. json_list (map requirement_json a)) (plan_alternatives p)) @
        CHR '','' # json_string ''authenticate'' @ CHR '':'' # json_bool (plan_authenticate p) @
        CHR '','' # json_string ''participant_names'' @ CHR '':'' # json_list (map json_string (participant_list p)) @
        CHR '','' # json_string ''required'' @ CHR '':'' # json_bool (plan_required p) @
        CHR '','' # json_string ''v'' @ CHR '':'' # ''1}'' =
      json_list (map (\<lambda>a. json_list (map requirement_json a)) (plan_alternatives q)) @
        CHR '','' # json_string ''authenticate'' @ CHR '':'' # json_bool (plan_authenticate q) @
        CHR '','' # json_string ''participant_names'' @ CHR '':'' # json_list (map json_string (participant_list q)) @
        CHR '','' # json_string ''required'' @ CHR '':'' # json_bool (plan_required q) @
        CHR '','' # json_string ''v'' @ CHR '':'' # ''1}''"
    using assms unfolding fingerprint_payload_parts by (auto dest!: self_delimiting_bool)
  note 2 = lists(1) [OF conjunct2 [OF 1]]
  have 3: "plan_authenticate p = plan_authenticate q \<and>
      json_list (map json_string (participant_list p)) @
        CHR '','' # json_string ''required'' @ CHR '':'' # json_bool (plan_required p) @
        CHR '','' # json_string ''v'' @ CHR '':'' # ''1}'' =
      json_list (map json_string (participant_list q)) @
        CHR '','' # json_string ''required'' @ CHR '':'' # json_bool (plan_required q) @
        CHR '','' # json_string ''v'' @ CHR '':'' # ''1}''"
    using conjunct2 [OF 2] by (auto dest!: self_delimiting_bool)
  note 4 = lists(2) [OF conjunct2 [OF 3]]
  have 5: "plan_required p = plan_required q"
    using conjunct2 [OF 4] by (auto dest!: self_delimiting_bool)
  show "plan_allow_anonymous p = plan_allow_anonymous q" "plan_alternatives p = plan_alternatives q"
    "plan_authenticate p = plan_authenticate q" "participant_list p = participant_list q"
    "plan_required p = plan_required q"
    using 1 2 3 4 5 by simp_all
qed


section \<open>Properties\<close>

text \<open>A WebSocket is closed once at most: whatever the handler sends, however the expiry timer, the
  revocation hook and the refresh hook interleave with it, and even if sends fail, the client
  receives at most one accept and nothing after the first close.\<close>

theorem websocket_closed_once:
  assumes "delivers deliver sent" "sent s = []"
  shows "count_list (sent (snd (snd (supervise_websocket_lifetime hooks codes grouped deliver expires_at clock es
        (Ws_Pending, s))))) Ws_Accept \<le> 1 \<and>
    \<not> (\<exists>before code reason m after.
        sent (snd (snd (supervise_websocket_lifetime hooks codes grouped deliver expires_at clock es (Ws_Pending, s)))) =
          before @ Ws_Close code reason # m # after)"
proof -
  have "phase_ok (fst (Ws_Pending, s)) (sent (snd (Ws_Pending, s)))"
    using assms(2) by (simp add: phase_ok_def)
  then have "phase_ok (fst (snd (supervise_websocket_lifetime hooks codes grouped deliver expires_at clock es (Ws_Pending, s))))
    (sent (snd (snd (supervise_websocket_lifetime hooks codes grouped deliver expires_at clock es (Ws_Pending, s)))))"
    by (rule phase_ok_lifetime [OF assms(1)])
  then show ?thesis
    using phase_ok_shape by blast
qed

text \<open>A transport that logs what it delivers and fails on one message.\<close>

definition example_transport :: "ws_message list ws_transport" where
  "example_transport m s = (if m = Ws_Other ''lost'' then (Inl RuntimeError, s) else (Inr (), s @ [m]))"

lemma example_delivers: "delivers example_transport (\<lambda>s. s)"
  by (simp add: delivers_def example_transport_def)

theorem websocket_closed_once_witness:
  "\<not> (\<exists>before code reason m after.
     snd (snd (supervise_websocket_lifetime True default_close_codes id example_transport (Some 10) (Aware 0)
       [Handler_Sends Ws_Accept, Handler_Sends (Ws_Other ''lost''), Revocation_Signalled, Handler_Sends (Ws_Other ''late'')]
       (Ws_Pending, []))) = before @ Ws_Close code reason # m # after)"
  using websocket_closed_once [OF example_delivers, of "[]" True default_close_codes id "Some 10" "Aware 0"
      "[Handler_Sends Ws_Accept, Handler_Sends (Ws_Other ''lost''), Revocation_Signalled,
        Handler_Sends (Ws_Other ''late'')]"]
  by blast

text \<open>The fingerprint a connect token is bound to determines the policy: if the hash does not
  collide, two plans with one fingerprint agree on whether they authenticate, require and allow
  anonymous access, on their alternatives with mechanisms and scopes in order, and on the names
  of their participants.\<close>

theorem fingerprint_determines_policy:
  assumes "inj sha" "websocket_policy_fingerprint sha p = Inr f" "websocket_policy_fingerprint sha q = Inr f"
  shows "plan_authenticate p = plan_authenticate q \<and> plan_required p = plan_required q \<and>
    plan_allow_anonymous p = plan_allow_anonymous q \<and> plan_alternatives p = plan_alternatives q \<and>
    participant_list p = participant_list q"
proof -
  have ascii: "x = y" if "ascii_bytes x = ascii_bytes y" for x y
    using that ascii_bytes_inverse by metis
  have "hex_text (sha (ascii_bytes ''litestar-security/websocket-policy/v1'' @ [0] @
        ascii_bytes (fingerprint_payload p))) =
      hex_text (sha (ascii_bytes ''litestar-security/websocket-policy/v1'' @ [0] @
        ascii_bytes (fingerprint_payload q)))"
    using assms(2,3) by (auto simp: websocket_policy_fingerprint_def split: if_splits)
  then have "fingerprint_payload p = fingerprint_payload q"
    by (auto dest!: hex_text_inject injD [OF assms(1)] ascii)
  from fingerprint_payload_inject [OF this] show ?thesis
    by simp
qed

theorem fingerprint_determines_policy_witness:
  "\<exists>f. websocket_policy_fingerprint id example_plan = Inr f \<and>
     (\<forall>q. websocket_policy_fingerprint id q = Inr f \<longrightarrow> plan_required q = plan_required example_plan)"
proof -
  obtain f where f: "websocket_policy_fingerprint id example_plan = Inr f"
    by (auto simp: websocket_policy_fingerprint_def example_plan_def participant_list_def)
  then have "plan_required q = plan_required example_plan" if "websocket_policy_fingerprint id q = Inr f" for q
    using fingerprint_determines_policy [OF _ that f] by simp
  then show ?thesis
    using f by blast
qed

end
