(* ===== verification/WebSocket_Admission.thy ===== *)
theory WebSocket_Admission
  imports WebSocket_Lifecycle
begin

text \<open>
  The security middleware at a WebSocket handshake: \<^verbatim>\<open>extract_websocket_handshake\<close> of
  \<^verbatim>\<open>websocket/_handshake.py\<close> and \<^verbatim>\<open>_handle_websocket\<close>, \<^verbatim>\<open>_authenticate_connect_token\<close> and
  \<^verbatim>\<open>_merge_connect_token\<close> of \<^verbatim>\<open>authentication.py\<close>, which join the evaluator, the connect tokens and
  the authorization narrowing.

  \<^verbatim>\<open>urllib.parse.parse_qsl\<close> is a parameter, \<open>None\<close> where it raises. Headers are names and raw values.
\<close>

section \<open>The handshake\<close>

definition is_hex :: "char \<Rightarrow> bool" where
  "is_hex c \<longleftrightarrow>
     (let n = (of_char c :: nat)
      in (48 \<le> n \<and> n \<le> 57) \<or> (65 \<le> n \<and> n \<le> 70) \<or> (97 \<le> n \<and> n \<le> 102))"

text \<open>\<^verbatim>\<open>value.find("%", index)\<close>, the first position from an index on.\<close>

definition find_from :: "char \<Rightarrow> string \<Rightarrow> nat \<Rightarrow> nat option" where
  "find_from c v i =
     (let skipped = length (takeWhile (\<lambda>d. d \<noteq> c) (drop i v))
      in if i + skipped < length v then Some (i + skipped) else None)"

lemma find_from_bounds: "find_from c v i = Some j \<Longrightarrow> i \<le> j \<and> j < length v"
  by (auto simp: find_from_def Let_def split: if_splits)

function percent_loop :: "string \<Rightarrow> nat \<Rightarrow> bool" where
  "percent_loop v i =
     (case find_from (CHR ''%'') v i of
        None \<Rightarrow> True
      | Some j \<Rightarrow>
          if j + 2 \<ge> length v \<or> \<not> is_hex (v ! (j + 1)) \<or> \<not> is_hex (v ! (j + 2)) then False
          else percent_loop v (j + 3))"
  by pat_completeness auto

termination
  by (relation "measure (\<lambda>(v, i). length v - i)") (auto dest!: find_from_bounds)

definition valid_percent_encoding :: "string \<Rightarrow> bool" where
  "valid_percent_encoding v = percent_loop v 0"

record ws_handshake =
  wh_origin :: "string option"
  wh_uses_cookie :: bool
  wh_uses_authorization :: bool
  wh_connect_token :: "string option"

record 's ws_runtime =
  wr_urls :: url_library
  wr_parse_query :: "string \<Rightarrow> (string \<times> string) list option"
  wr_config :: ws_config
  wr_origins :: "string set"
  wr_tokens :: "'s connect_service option"
  wr_epoch :: "string \<Rightarrow> ('s, int option) port"
  wr_order :: resource_order

abbreviation wr_codes :: "'s ws_runtime \<Rightarrow> close_codes" where
  "wr_codes rt \<equiv> wc_close_codes (wr_config rt)"

definition validated_request_origin :: "'s ws_runtime \<Rightarrow> bool \<Rightarrow> string list \<Rightarrow> string option result" where
  "validated_request_origin rt needed values =
     (let denied = Inl (TransportError (cc_unauthorized (wr_codes rt)))
      in case values of
           [] \<Rightarrow> if needed then denied else Inr None
         | [v] \<Rightarrow>
             if \<not> is_ascii v then denied
             else bind (canonical_origin (wr_urls rt) False (cc_unauthorized (wr_codes rt)) v) (\<lambda>origin.
               if origin \<notin> wr_origins rt then denied else Inr (Some origin))
         | _ \<Rightarrow> denied)"

fun scan_query :: "int \<Rightarrow> string \<Rightarrow> string list \<Rightarrow> (string \<times> string) list \<Rightarrow> string list result" where
  "scan_query code parameter found [] = Inr found"
| "scan_query code parameter found ((name, v) # rest) =
     (if casefold name \<in> set reserved_query_parameters then Inl (TransportError code)
      else scan_query code parameter (if name = parameter then found @ [v] else found) rest)"

definition extract_connect_token :: "'s ws_runtime \<Rightarrow> string \<Rightarrow> string option result" where
  "extract_connect_token rt query =
     (let code = cc_unauthenticated (wr_codes rt); denied = Inl (TransportError code)
      in if query = [] then Inr None
         else if \<not> is_ascii query then denied
         else case wr_parse_query rt query of
           None \<Rightarrow> denied
         | Some parameters \<Rightarrow>
             if \<not> valid_percent_encoding query then denied
             else bind (scan_query code (wc_query_parameter (wr_config rt)) [] parameters) (\<lambda>found.
               case found of
                 [] \<Rightarrow> Inr None
               | [v] \<Rightarrow> if v = [] then denied else Inr (Some v)
               | _ \<Rightarrow> denied))"

definition extract_websocket_handshake ::
  "'s ws_runtime \<Rightarrow> (string \<times> string) list \<Rightarrow> string \<Rightarrow> bool \<Rightarrow> ws_handshake result" where
  "extract_websocket_handshake rt headers query uses_cookie =
     bind (validated_request_origin rt uses_cookie (header_values ''origin'' headers)) (\<lambda>origin.
     bind (extract_connect_token rt query) (\<lambda>token.
       Inr \<lparr>wh_origin = origin, wh_uses_cookie = uses_cookie,
            wh_uses_authorization = (header_values ''authorization'' headers \<noteq> []),
            wh_connect_token = token\<rparr>))"

section \<open>Admission\<close>

fun uses_cookie_credentials ::
  "('conn, 'cred, 'claims, 'u) registry \<Rightarrow> (string \<times> 'cred extraction) list \<Rightarrow> bool result" where
  "uses_cookie_credentials r [] = Inr False"
| "uses_cookie_credentials r ((slot, Presented c) # es) =
     bind (get_mechanism_for_slot r slot) (\<lambda>found.
       if (case found of None \<Rightarrow> False | Some m \<Rightarrow> mech_session_capable m) then Inr True
       else uses_cookie_credentials r es)"
| "uses_cookie_credentials r ((slot, x) # es) = uses_cookie_credentials r es"

definition connect_evidence :: "ws_config \<Rightarrow> time connect_authorization \<Rightarrow> evidence result" where
  "connect_evidence c token =
     evidence_post_init
       \<lparr>in_mechanism = ''websocket-connect-token'', in_slot = wc_query_parameter c,
        in_authenticated_at = Aware (ca_issued_at token), in_expires_at = Some (Aware (ca_expires_at token)),
        in_methods = {''websocket-connect-token''}, in_traits = {}, in_acr = None, in_amr = []\<rparr>"

text \<open>The snapshot the token's subject starts from when no other credential logged in.\<close>

definition token_snapshot ::
  "('conn, 'cred, 'claims, 'u) registry \<Rightarrow> 'u principal \<Rightarrow> string snapshot result" where
  "token_snapshot r p =
     (case rg_authorize r of
        None \<Rightarrow> Inr empty_snapshot
      | Some resolve \<Rightarrow>
          bind (unavailable_unless (resolve p)) (\<lambda>resolution.
            case resolution of
              Verified s \<Rightarrow> Inr s
            | Invalid_Credentials \<Rightarrow> Inl NotAuthorized
            | Verification_Unavailable \<Rightarrow> Inl ServiceUnavailable))"

definition token_principal ::
  "('conn, 'cred, 'claims, 'u) registry \<Rightarrow> resource_order \<Rightarrow> time connect_authorization \<Rightarrow> 'u principal \<Rightarrow>
     security_context \<Rightarrow> ('u principal \<times> string snapshot) result" where
  "token_principal r order token p c =
     (if is_authenticated p
      then if principal_id p \<noteq> Some (ca_subject_id token) then Inl NotAuthorized
        else bind (resolve_authorization order (sc_authorization c) [ca_restrictions token]) (\<lambda>a. Inr (p, a))
      else
        bind (principal_post_init
            \<lparr>principal_id = Some (ca_subject_id token), display_name = None, principal_user = None\<rparr>) (\<lambda>q.
        bind (token_snapshot r q) (\<lambda>s.
        bind (resolve_authorization order s [ca_restrictions token]) (\<lambda>a. Inr (q, a)))))"

definition merge_connect_token ::
  "('conn, 'cred, 'claims, 'u) registry \<Rightarrow> 's ws_runtime \<Rightarrow> time connect_authorization \<Rightarrow> 'u principal \<Rightarrow>
     security_context \<Rightarrow> ('u principal \<times> security_context) result" where
  "merge_connect_token r rt token p c =
     bind (token_principal r (wr_order rt) token p c) (\<lambda>(q, a).
     bind (connect_evidence (wr_config rt) token) (\<lambda>e.
       Inr (q, \<lparr>sc_evidence = sc_evidence c @ [e], sc_authorization = a,
                sc_restrictions = sc_restrictions c @ [ca_restrictions token]\<rparr>)))"

definition without_alternatives :: "runtime_plan \<Rightarrow> runtime_plan result" where
  "without_alternatives plan =
     runtime_plan_post_init
       (plan\<lparr>plan_required := False, plan_alternatives := [], plan_allow_anonymous := True\<rparr>)"

definition authenticate_connect_token ::
  "(bytes \<Rightarrow> bytes) \<Rightarrow> ('conn, 'cred, 'claims, 'u) registry \<Rightarrow> 's ws_runtime \<Rightarrow> string \<Rightarrow> ws_handshake \<Rightarrow>
     runtime_plan \<Rightarrow> 'conn \<Rightarrow> (string \<times> 'cred extraction) list \<Rightarrow> ('s, 'u principal \<times> security_context) port" where
  "authenticate_connect_token sha r rt route_name h plan conn extracted =
     (case (wr_tokens rt, wh_origin h, wh_connect_token h) of
        (Some tokens, Some origin, Some v) \<Rightarrow>
          if route_name = [] then raise NotAuthorized
          else
            call (lift_result (websocket_policy_fingerprint sha plan)) (\<lambda>fingerprint.
            call (consume_connect_token tokens v
                    \<lparr>cq_route_name = route_name, cq_origin = origin, cq_policy_fingerprint = fingerprint\<rparr>
                    (wr_epoch rt)) (\<lambda>found.
              case found of
                None \<Rightarrow> raise NotAuthorized
              | Some token \<Rightarrow>
                  call (lift_result (without_alternatives plan)) (\<lambda>relaxed.
                  call (lift_result (evaluate (wr_order rt) r relaxed conn extracted)) (\<lambda>(p, c).
                  lift_result (merge_connect_token r rt token p c)))))
      | _ \<Rightarrow> raise NotAuthorized)"

datatype 'u admission =
    Ws_Bypassed
  | Ws_Admitted "'u principal" security_context
  | Ws_Refused int string

text \<open>
  The exception handlers around authentication. RuntimeError stands for
  \<^verbatim>\<open>WebSocketConnectTokenUnavailableError\<close>, the one RuntimeError the guarded code raises; every other
  exception leaves the middleware.
\<close>

definition refusal :: "close_codes \<Rightarrow> py_error \<Rightarrow> 'u admission result" where
  "refusal codes e =
     (case e of
        TransportError code \<Rightarrow>
          Inr (Ws_Refused code (if code = cc_unauthorized codes then ''origin_denied'' else ''authentication_required''))
      | NotAuthorized \<Rightarrow> Inr (Ws_Refused (cc_unauthenticated codes) ''authentication_required'')
      | ServiceUnavailable \<Rightarrow> Inr (Ws_Refused (cc_unavailable codes) ''verification_unavailable'')
      | RuntimeError \<Rightarrow> Inr (Ws_Refused (cc_unavailable codes) ''verification_unavailable'')
      | _ \<Rightarrow> Inl e)"

definition authenticate_handshake ::
  "(bytes \<Rightarrow> bytes) \<Rightarrow> ('conn, 'cred, 'claims, 'u) registry \<Rightarrow> 's ws_runtime \<Rightarrow> string \<Rightarrow> runtime_plan \<Rightarrow>
     'conn \<Rightarrow> (string \<times> string) list \<Rightarrow> string \<Rightarrow> (string \<times> 'cred extraction) list \<Rightarrow> bool \<Rightarrow>
     ('s, 'u principal \<times> security_context) port" where
  "authenticate_handshake sha r rt route_name plan conn headers query extracted uses_cookie =
     call (lift_result (extract_websocket_handshake rt headers query uses_cookie)) (\<lambda>h.
       if wh_connect_token h \<noteq> None
       then authenticate_connect_token sha r rt route_name h plan conn extracted
       else if plan_authenticate plan then lift_result (evaluate (wr_order rt) r plan conn extracted)
       else pure (anonymous, empty_context))"

definition admit_websocket ::
  "(bytes \<Rightarrow> bytes) \<Rightarrow> ('conn, 'cred, 'claims, 'u) registry \<Rightarrow> 's ws_runtime \<Rightarrow> string \<Rightarrow> runtime_plan \<Rightarrow>
     'conn \<Rightarrow> (string \<times> string) list \<Rightarrow> string \<Rightarrow> ('s, 'u admission) port" where
  "admit_websocket sha r rt route_name plan conn headers query =
     (if plan_bypass plan then pure Ws_Bypassed
      else
        call (lift_result (extract_all r conn)) (\<lambda>extracted.
        call (lift_result (uses_cookie_credentials r extracted)) (\<lambda>uses_cookie. \<lambda>s.
          (case authenticate_handshake sha r rt route_name plan conn headers query extracted uses_cookie s of
             (Inr (p, c), s') \<Rightarrow> (Inr (Ws_Admitted p c), s')
           | (Inl e, s') \<Rightarrow> (refusal (wr_codes rt) e, s')))))"

text \<open>\<^verbatim>\<open>send_with_guard_mapping\<close>: a guard's denial before the accept becomes the unauthorized close.\<close>

definition map_guard_close :: "close_codes \<Rightarrow> ws_phase \<Rightarrow> ws_message \<Rightarrow> ws_message" where
  "map_guard_close codes phase m =
     (case m of
        Ws_Close code reason \<Rightarrow>
          if phase = Ws_Pending \<and> code = 4500 \<and> reason \<in> {''Authentication required'', ''Permission denied''}
          then Ws_Close (cc_unauthorized codes) ''authorization_denied'' else m
      | _ \<Rightarrow> m)"

text \<open>
  \<^verbatim>\<open>refresh_authorization\<close>: the refreshed snapshot is narrowed by the restrictions the connection
  carries before the route's guards, a port, run again.
\<close>

definition refresh_authorization ::
  "resource_order \<Rightarrow> ('s, string snapshot) port \<Rightarrow> (security_context \<Rightarrow> ('s, unit) port) \<Rightarrow> security_context \<Rightarrow>
     ('s, security_context) port" where
  "refresh_authorization order refresh guards current =
     call refresh (\<lambda>snapshot.
     call (lift_result (resolve_authorization order snapshot (sc_restrictions current))) (\<lambda>a.
       let updated = current\<lparr>sc_authorization := a\<rparr>
       in call (guards updated) (\<lambda>_. pure updated)))"

section \<open>The percent scan\<close>

fun percent_ok :: "string \<Rightarrow> bool" where
  "percent_ok [] = True"
| "percent_ok (c # cs) =
     (if c = CHR ''%''
      then (case cs of a # b # rest \<Rightarrow> is_hex a \<and> is_hex b \<and> percent_ok rest | _ \<Rightarrow> False)
      else percent_ok cs)"

lemma percent_ok_plain: "CHR ''%'' \<notin> set u \<Longrightarrow> percent_ok (u @ v) = percent_ok v"
  by (induction u) auto

lemma find_from_drop:
  "find_from c v i = Some j \<Longrightarrow> drop i v = takeWhile (\<lambda>d. d \<noteq> c) (drop i v) @ c # drop (Suc j) v"
  "find_from c v i = None \<Longrightarrow> c \<notin> set (drop i v)"
proof -
  let ?skip = "takeWhile (\<lambda>d. d \<noteq> c) (drop i v)" and ?rest = "dropWhile (\<lambda>d. d \<noteq> c) (drop i v)"
  have split: "drop i v = ?skip @ ?rest"
    by simp
  have rest: "?rest = drop (i + length ?skip) v"
    by (simp add: dropWhile_eq_drop ac_simps)
  {
    assume "find_from c v i = Some j"
    then have j: "j = i + length ?skip" "j < length v"
      by (auto simp: find_from_def Let_def split: if_splits)
    then have "?rest = v ! j # drop (Suc j) v"
      using rest by (simp add: Cons_nth_drop_Suc)
    moreover from this have "v ! j = c"
      using hd_dropWhile [of "\<lambda>d. d \<noteq> c" "drop i v"] by simp
    ultimately show "drop i v = ?skip @ c # drop (Suc j) v"
      using split by simp
  next
    assume "find_from c v i = None"
    then have "length v \<le> i + length ?skip"
      by (auto simp: find_from_def Let_def split: if_splits)
    then have "?rest = []"
      using rest by simp
    then show "c \<notin> set (drop i v)"
      by (auto simp: dropWhile_eq_Nil_conv)
  }
qed

lemma percent_loop_exact: "percent_loop v i = percent_ok (drop i v)"
proof (induction v i rule: percent_loop.induct)
  case (1 v i)
  show ?case
  proof (cases "find_from (CHR ''%'') v i")
    case None
    then show ?thesis
      using percent_ok_plain [of "drop i v" "[]"] find_from_drop(2) by (simp add: percent_loop.simps)
  next
    case (Some j)
    have ok: "percent_ok (drop i v) = percent_ok (CHR ''%'' # drop (Suc j) v)"
      by (subst find_from_drop(1) [OF Some], rule percent_ok_plain) (auto dest: set_takeWhileD)
    show ?thesis
    proof (cases "j + 2 < length v")
      case True
      then have "drop (Suc j) v = v ! Suc j # v ! Suc (Suc j) # drop (j + 3) v"
        using Cons_nth_drop_Suc [of "Suc j" v] Cons_nth_drop_Suc [of "Suc (Suc j)" v]
        by (simp add: numeral_3_eq_3)
      then show ?thesis
        using True ok 1 [OF Some] Some by (auto simp: percent_loop.simps [of v i])
    next
      case False
      then have "length (drop (Suc j) v) < 2"
        by simp
      then have "\<not> percent_ok (CHR ''%'' # drop (Suc j) v)"
        by (cases "drop (Suc j) v"; cases "tl (drop (Suc j) v)") (simp_all del: length_drop)
      then show ?thesis
        using False ok Some by (simp add: percent_loop.simps [of v i])
    qed
  qed
qed

section \<open>What admission shows\<close>

lemma uses_cookie_credentials_True:
  assumes "uses_cookie_credentials r es = Inr b" "(slot, Presented k) \<in> set es"
    "get_mechanism_for_slot r slot = Inr (Some m)" "mech_session_capable m"
  shows b
  using assms by (induction r es rule: uses_cookie_credentials.induct) (auto simp: bind_eq_Inr split: if_splits)

lemma admitted:
  assumes "admit_websocket sha r rt route_name plan conn headers query w = (Inr (Ws_Admitted p c), w')"
  obtains extracted uses_cookie h where "extract_all r conn = Inr extracted"
    "uses_cookie_credentials r extracted = Inr uses_cookie"
    "extract_websocket_handshake rt headers query uses_cookie = Inr h"
    "authenticate_handshake sha r rt route_name plan conn headers query extracted uses_cookie w = (Inr (p, c), w')"
proof -
  obtain extracted uses_cookie where e: "extract_all r conn = Inr extracted"
    and u: "uses_cookie_credentials r extracted = Inr uses_cookie"
    and a: "(case authenticate_handshake sha r rt route_name plan conn headers query extracted uses_cookie w of
             (Inr (p, c), s') \<Rightarrow> (Inr (Ws_Admitted p c), s')
           | (Inl e, s') \<Rightarrow> (refusal (wr_codes rt) e, s')) = (Inr (Ws_Admitted p c), w')"
    using assms by (auto simp: admit_websocket_def split: if_splits sum.splits)
  have ok: "authenticate_handshake sha r rt route_name plan conn headers query extracted uses_cookie w = (Inr (p, c), w')"
    using a by (auto simp: refusal_def split: prod.splits sum.splits py_error.splits)
  then obtain h where "extract_websocket_handshake rt headers query uses_cookie = Inr h"
    by (auto simp: authenticate_handshake_def split: sum.splits)
  then show thesis
    using that e u ok by blast
qed

lemma trusted_origin:
  assumes "validated_request_origin rt needed values = Inr found"
  shows "found = None \<and> values = [] \<and> \<not> needed \<or>
    (\<exists>v. values = [v] \<and> found = Some v \<and> v \<in> wr_origins rt)"
proof -
  have same: "canonical_origin lib b code v = Inr x \<Longrightarrow> x = v" for lib b code v x
    by (auto simp: canonical_origin_def invalid_origin_def bind_def split: option.splits if_splits sum.splits)
  show ?thesis
    using assms
    by (auto simp: validated_request_origin_def Let_def bind_eq_Inr dest!: same split: list.splits if_splits)
qed


lemma context_expires_before:
  assumes "e \<in> set (sc_evidence c)" "ev_expires_at e = Some t"
  shows "\<exists>x. context_expires_at c = Some x \<and> x \<le> t"
proof -
  let ?T = "{t. Some t \<in> ev_expires_at ` set (sc_evidence c)}"
  have "?T \<subseteq> the ` ev_expires_at ` set (sc_evidence c)"
    by (auto simp: image_iff) (metis option.sel)
  then have "finite ?T"
    by (rule finite_subset) simp
  moreover have "t \<in> ?T"
    using assms by (metis (mono_tags) image_eqI mem_Collect_eq)
  ultimately show ?thesis
    using context_expiry_is_earliest [of c] by auto
qed

lemma connect_evidence_expiry:
  assumes "connect_evidence c token = Inr e"
  shows "ev_expires_at e = Some (ca_expires_at token)"
  using assms
  by (auto simp: connect_evidence_def evidence_post_init_def bind_eq_Inr optional_result_def normalize_datetime_def)

lemma token_principal_Inr:
  assumes "token_principal r order token p c = Inr (q, a)"
  shows "trimmed (ca_subject_id token) \<longrightarrow> principal_id q = Some (ca_subject_id token)"
    and "\<exists>s. resolve_authorization order s [ca_restrictions token] = Inr a"
  using assms
  by (auto simp: token_principal_def bind_eq_Inr principal_post_init_def normalize_text_trimmed
      split: if_splits)

lemma merge_connect_token_Inr:
  assumes "merge_connect_token r rt token p c = Inr (q, d)"
  shows "trimmed (ca_subject_id token) \<longrightarrow> principal_id q = Some (ca_subject_id token)"
    and "\<exists>s. resolve_authorization (wr_order rt) s [ca_restrictions token] = Inr (sc_authorization d)"
    and "ca_restrictions token \<in> set (sc_restrictions d)"
    and "\<exists>x. context_expires_at d = Some x \<and> x \<le> ca_expires_at token"
proof -
  obtain a e where t: "token_principal r (wr_order rt) token p c = Inr (q, a)"
    and e: "connect_evidence (wr_config rt) token = Inr e"
    and d: "d = \<lparr>sc_evidence = sc_evidence c @ [e], sc_authorization = a,
      sc_restrictions = sc_restrictions c @ [ca_restrictions token]\<rparr>"
    using assms by (auto simp: merge_connect_token_def bind_eq_Inr)
  show "trimmed (ca_subject_id token) \<longrightarrow> principal_id q = Some (ca_subject_id token)"
    "\<exists>s. resolve_authorization (wr_order rt) s [ca_restrictions token] = Inr (sc_authorization d)"
    "ca_restrictions token \<in> set (sc_restrictions d)"
    using token_principal_Inr [OF t] d by simp_all
  show "\<exists>x. context_expires_at d = Some x \<and> x \<le> ca_expires_at token"
    by (rule context_expires_before [OF _ connect_evidence_expiry [OF e]]) (simp add: d)
qed

lemma authenticate_connect_token_Inr:
  assumes "authenticate_connect_token sha r rt route_name h plan conn extracted w = (Inr (p, c), w')"
  obtains tokens origin v f token p0 c0 s where "wr_tokens rt = Some tokens" "wh_origin h = Some origin"
    "wh_connect_token h = Some v" "websocket_policy_fingerprint sha plan = Inr f"
    "consume_connect_token tokens v \<lparr>cq_route_name = route_name, cq_origin = origin, cq_policy_fingerprint = f\<rparr>
      (wr_epoch rt) w = (Inr (Some token), s)"
    "merge_connect_token r rt token p0 c0 = Inr (p, c)"
proof -
  obtain tokens origin v where parts: "wr_tokens rt = Some tokens" "wh_origin h = Some origin" "wh_connect_token h = Some v"
    "route_name \<noteq> []"
    using assms by (auto simp: authenticate_connect_token_def split: option.splits if_splits)
  note unfold = assms [unfolded authenticate_connect_token_def parts prod.case option.case if_not_P [OF parts(4)] run_ok]
  obtain f found s where f: "websocket_policy_fingerprint sha plan = Inr f"
    and consume: "consume_connect_token tokens v
      \<lparr>cq_route_name = route_name, cq_origin = origin, cq_policy_fingerprint = f\<rparr> (wr_epoch rt) w = (Inr found, s)"
    and rest: "(case found of None \<Rightarrow> raise NotAuthorized | Some token \<Rightarrow>
        call (lift_result (without_alternatives plan)) (\<lambda>relaxed.
        call (lift_result (evaluate (wr_order rt) r relaxed conn extracted)) (\<lambda>(p, c).
        lift_result (merge_connect_token r rt token p c)))) s = (Inr (p, c), w')"
    using unfold by blast
  obtain token where token: "found = Some token"
    using rest by (cases found) auto
  obtain p0 c0 where "merge_connect_token r rt token p0 c0 = Inr (p, c)"
    using rest [unfolded token option.case run_ok] by (auto simp: call_eq_Inr split: sum.splits)
  then show thesis
    using that parts f consume token by blast
qed


lemma handshake_parts:
  assumes "extract_websocket_handshake rt headers query uses_cookie = Inr h"
  shows "validated_request_origin rt uses_cookie (header_values ''origin'' headers) = Inr (wh_origin h)"
    and "extract_connect_token rt query = Inr (wh_connect_token h)"
  using assms by (auto simp: extract_websocket_handshake_def bind_eq_Inr)

section \<open>Properties\<close>

text \<open>The query scan of the handshake ends and is exact: the index loop accepts a query if and only
  if every percent sign in it, read left to right, is followed by two hexadecimal digits.\<close>

theorem percent_scan_exact: "valid_percent_encoding v \<longleftrightarrow> percent_ok v"
  by (simp add: valid_percent_encoding_def percent_loop_exact del: percent_loop.simps)

text \<open>C39: No cross-site WebSocket on a cookie: when a session-capable mechanism finds its credential in
  the handshake, the connection is admitted only if it carries exactly one Origin header and that
  origin is one of the configured origins.\<close>

theorem websocket_cookie_needs_trusted_origin:
  assumes "admit_websocket sha r rt route_name plan conn headers query w = (Inr (Ws_Admitted p c), w')"
    and "extract_all r conn = Inr extracted" "(slot, Presented k) \<in> set extracted"
    and "get_mechanism_for_slot r slot = Inr (Some m)" "mech_session_capable m"
  shows "\<exists>origin\<in>wr_origins rt. header_values ''origin'' headers = [origin]"
proof -
  obtain uses_cookie h where u: "uses_cookie_credentials r extracted = Inr uses_cookie"
    and h: "extract_websocket_handshake rt headers query uses_cookie = Inr h"
    using admitted [OF assms(1)] assms(2) by (metis sum.inject(2))
  have uses_cookie
    using uses_cookie_credentials_True [OF u assms(3-5)] .
  with trusted_origin [OF handshake_parts(1) [OF h]] show ?thesis
    by auto
qed

text \<open>C38: A connect token admits its own subject, on its own terms: a WebSocket that presents a token in
  its query is admitted only when the store redeems that token for this route, for the trusted
  origin the handshake carries and for the fingerprint of this route's policy; the principal is the
  token's subject, the authorization is narrowed by the token's restrictions, which the connection
  keeps, and the connection expires no later than the token.\<close>

theorem connect_token_admits_its_subject:
  assumes "admit_websocket sha r rt route_name plan conn headers query w = (Inr (Ws_Admitted p c), w')"
    and "extract_connect_token rt query = Inr (Some v)"
  shows "\<exists>tokens origin f token s. wr_tokens rt = Some tokens \<and>
    header_values ''origin'' headers = [origin] \<and> origin \<in> wr_origins rt \<and>
    websocket_policy_fingerprint sha plan = Inr f \<and>
    consume_connect_token tokens v \<lparr>cq_route_name = route_name, cq_origin = origin, cq_policy_fingerprint = f\<rparr>
      (wr_epoch rt) w = (Inr (Some token), s) \<and>
    (trimmed (ca_subject_id token) \<longrightarrow> principal_id p = Some (ca_subject_id token)) \<and>
    (\<exists>snapshot. resolve_authorization (wr_order rt) snapshot [ca_restrictions token] = Inr (sc_authorization c)) \<and>
    ca_restrictions token \<in> set (sc_restrictions c) \<and>
    (\<exists>x. context_expires_at c = Some x \<and> x \<le> ca_expires_at token)"
proof -
  obtain extracted uses_cookie h where h: "extract_websocket_handshake rt headers query uses_cookie = Inr h"
    and a: "authenticate_handshake sha r rt route_name plan conn headers query extracted uses_cookie w = (Inr (p, c), w')"
    using admitted [OF assms(1)] .
  have "wh_connect_token h = Some v"
    using handshake_parts(2) [OF h] assms(2) by simp
  then have "authenticate_connect_token sha r rt route_name h plan conn extracted w = (Inr (p, c), w')"
    using a h by (simp add: authenticate_handshake_def)
  then obtain tokens origin v' f token p0 c0 s where t: "wr_tokens rt = Some tokens" "wh_origin h = Some origin"
    "wh_connect_token h = Some v'" "websocket_policy_fingerprint sha plan = Inr f"
    "consume_connect_token tokens v' \<lparr>cq_route_name = route_name, cq_origin = origin, cq_policy_fingerprint = f\<rparr>
      (wr_epoch rt) w = (Inr (Some token), s)"
    and m: "merge_connect_token r rt token p0 c0 = Inr (p, c)"
    by (rule authenticate_connect_token_Inr)
  have "header_values ''origin'' headers = [origin]" "origin \<in> wr_origins rt"
    using trusted_origin [OF handshake_parts(1) [OF h]] t(2) by auto
  moreover have "v' = v"
    using t(3) \<open>wh_connect_token h = Some v\<close> by simp
  ultimately show ?thesis
    using t merge_connect_token_Inr [OF m] by blast
qed


text \<open>A registry of one session mechanism, a runtime that trusts one origin, and a route without a policy.\<close>

definition example_cookie_registry :: "((string \<times> string) list, string, string, unit) registry" where
  "example_cookie_registry =
     (let m = example_mechanism ''session''\<lparr>mech_session_capable := True\<rparr>
      in \<lparr>rg_slots = [(''session'', example_slot ''session'')], rg_mechanisms = [(''session'', m)],
          rg_by_slot = [(''session'', m)], rg_default_names = [''session''], rg_authorize = None\<rparr>)"

definition example_runtime :: "(connect_records \<times> unit) ws_runtime" where
  "example_runtime =
     \<lparr>wr_urls = example_urls, wr_parse_query = (\<lambda>q. Some [(''connect_token'', drop 14 q)]),
      wr_config = \<lparr>wc_allowed_origins = [''https://a''], wc_connect_token_ttl = seconds 30,
        wc_maximum_connect_token_ttl = seconds 120, wc_query_parameter = ''connect_token'',
        wc_refresh_interval = None, wc_has_refresher = False, wc_close_codes = default_close_codes\<rparr>,
      wr_origins = {''https://a''}, wr_tokens = Some (connect_at 5 example_connect_service),
      wr_epoch = (\<lambda>_. pure (Some 3)), wr_order = (\<lambda>_. [])\<rparr>"

definition example_headers :: "(string \<times> string) list" where
  "example_headers = [(''session'', ''ok''), (''Origin'', ''https://a'')]"

lemma example_origin_header: "header_values ''origin'' example_headers = [''https://a'']"
  by code_simp

lemma example_origin_checked: "validated_request_origin example_runtime b [''https://a''] = Inr (Some ''https://a'')"
proof -
  have "canonical_origin example_urls False 4403 ''https://a'' = Inr ''https://a''" "is_ascii ''https://a''"
    by code_simp+
  then show ?thesis
    by (simp add: validated_request_origin_def example_runtime_def default_close_codes_def)
qed

lemma example_cookie:
  "extract_all example_cookie_registry example_headers = Inr [(''session'', Presented ''ok'')]"
  "get_mechanism_for_slot example_cookie_registry ''session'' =
     Inr (Some (example_mechanism ''session''\<lparr>mech_session_capable := True\<rparr>))"
  "uses_cookie_credentials example_cookie_registry [(''session'', Presented ''ok'')] = Inr True"
  using example_names(2)
  by (simp_all add: extract_all_def example_cookie_registry_def example_slot_def extract_slot_def
      example_headers_def unavailable_unless_def get_mechanism_for_slot_def Let_def)

theorem websocket_cookie_needs_trusted_origin_witness:
  "fst (admit_websocket (\<lambda>_. [0]) example_cookie_registry example_runtime ''chat'' (bare_plan None) example_headers
     example_headers [] ([], ())) = Inr (Ws_Admitted anonymous empty_context) \<and>
   (\<exists>origin\<in>wr_origins example_runtime. header_values ''origin'' example_headers = [origin])"
proof -
  have "extract_websocket_handshake example_runtime example_headers [] True =
      Inr \<lparr>wh_origin = Some ''https://a'', wh_uses_cookie = True,
        wh_uses_authorization = (header_values ''authorization'' example_headers \<noteq> []), wh_connect_token = None\<rparr>"
    by (simp add: extract_websocket_handshake_def example_origin_header example_origin_checked
        extract_connect_token_def)
  then have ok: "admit_websocket (\<lambda>_. [0]) example_cookie_registry example_runtime ''chat'' (bare_plan None) example_headers
      example_headers [] ([], ()) = (Inr (Ws_Admitted anonymous empty_context), ([], ()))"
    by (simp add: admit_websocket_def bare_plan_def example_cookie authenticate_handshake_def)
  show ?thesis
    using websocket_cookie_needs_trusted_origin [OF ok example_cookie(1) _ example_cookie(2)] ok by simp
qed

definition example_connect_value :: string where
  "example_connect_value = connect_token_value (encode_random (zero_bytes 16)) (encode_random (zero_bytes 32))"

definition example_connect_record :: "time connect_authorization" where
  "example_connect_record =
     \<lparr>ca_connect_token_id = encode_random (zero_bytes 16), ca_digest = zero_bytes 32,
      ca_subject_id = ''alice'', ca_security_epoch = 3, ca_route_name = ''chat'', ca_origin = ''https://a'',
      ca_restrictions = unrestricted_key, ca_policy_fingerprint = ''00'', ca_issued_at = 0,
      ca_expires_at = seconds 30\<rparr>"

definition example_query :: string where
  "example_query = ''connect_token='' @ example_connect_value"

lemma example_connect_query:
  "extract_connect_token example_runtime example_query = Inr (Some example_connect_value)"
proof -
  have chars: "c \<in> set example_connect_value \<Longrightarrow> (of_char c :: nat) < 128 \<and> c \<noteq> CHR ''%''" for c
  proof -
    assume "c \<in> set example_connect_value"
    then consider "c \<in> set ''wsct.''" | "\<exists>b. c \<in> set (encode_random b)"
      by (auto simp: example_connect_value_def connect_token_value_def)
    then show ?thesis
    proof cases
      case 2
      then have "b64url_char c"
        using b64url_char_encode by (auto simp: list_all_iff)
      then show ?thesis
        by (auto simp: b64url_char_def Let_def)
    qed auto
  qed
  have "is_ascii example_query"
    using chars by (auto simp: is_ascii_def list_all_iff example_query_def)
  moreover have "percent_ok example_query"
    using percent_ok_plain [of example_query "[]"] chars by (auto simp: example_query_def)
  moreover have "example_query \<noteq> []" "drop 14 example_query = example_connect_value"
    by (simp_all add: example_query_def)
  moreover have "example_connect_value \<noteq> []"
    by (simp add: example_connect_value_def connect_token_value_def)
  moreover have "casefold ''connect_token'' \<notin> set reserved_query_parameters"
    by code_simp
  ultimately show ?thesis
    by (simp add: extract_connect_token_def example_runtime_def valid_percent_encoding_def percent_loop_exact
        del: percent_loop.simps)
qed


lemma example_connect_consumed:
  "fst (consume_connect_token (connect_at 5 example_connect_service) example_connect_value
     \<lparr>cq_route_name = ''chat'', cq_origin = ''https://a'', cq_policy_fingerprint = ''00''\<rparr> (\<lambda>_. pure (Some 3))
     ([(encode_random (zero_bytes 16), example_connect_record)], ())) = Inr (Some example_connect_record)"
proof -
  have len: "length (zero_bytes n) = n" for n
    by (simp add: zero_bytes_def)
  have p: "connect_token_proof example_connect_sha example_connect_value =
      Some (encode_random (zero_bytes 16), zero_bytes 32)"
    unfolding connect_token_proof_iff example_connect_value_def
    by (intro exI [of _ "zero_bytes 16"] exI [of _ "zero_bytes 32"])
      (simp add: len example_connect_digest length_encode_random)
  have "(0::int) \<le> 3"
    by simp
  from consume_connect_token_memory [OF example_over_memory this] p show ?thesis
    by (simp add: example_connect_service_def example_connect_record_def record_admits_def seconds_def)
qed

theorem connect_token_admits_its_subject_witness:
  "\<exists>p c w'. admit_websocket (\<lambda>_. [0]) example_cookie_registry example_runtime ''chat'' (bare_plan None)
     example_headers example_headers example_query
     ([(encode_random (zero_bytes 16), example_connect_record)], ()) = (Inr (Ws_Admitted p c), w') \<and>
     (\<exists>x. context_expires_at c = Some x)"
proof -
  let ?w = "([(encode_random (zero_bytes 16), example_connect_record)], ())"
  let ?h = "\<lparr>wh_origin = Some ''https://a'', wh_uses_cookie = True,
    wh_uses_authorization = (header_values ''authorization'' example_headers \<noteq> []),
    wh_connect_token = Some example_connect_value\<rparr>"
  have h: "extract_websocket_handshake example_runtime example_headers example_query True = Inr ?h"
    by (simp add: extract_websocket_handshake_def example_origin_header example_origin_checked
        example_connect_query)
  have f: "websocket_policy_fingerprint (\<lambda>_. [0]) (bare_plan None) = Inr ''00''"
    by code_simp
  have texts: "normalize_text ''alice'' = Inr ''alice''" "normalize_text ''connect_token'' = Inr ''connect_token''"
      "normalize_text ''websocket-connect-token'' = Inr ''websocket-connect-token''"
    by code_simp+
  obtain s where consumed: "consume_connect_token (connect_at 5 example_connect_service) example_connect_value
     \<lparr>cq_route_name = ''chat'', cq_origin = ''https://a'', cq_policy_fingerprint = ''00''\<rparr> (\<lambda>_. pure (Some 3)) ?w =
     (Inr (Some example_connect_record), s)"
    using example_connect_consumed by (metis prod.collapse)
  have "\<exists>p c. merge_connect_token example_cookie_registry example_runtime example_connect_record
      (anonymous :: unit principal) empty_context = Inr (p, c)"
    by (simp add: merge_connect_token_def token_principal_def anonymous_def is_authenticated_def
        principal_post_init_def example_connect_record_def texts token_snapshot_def example_cookie_registry_def
        Let_def empty_snapshot_def resolve_authorization_def apply_restrictions.simps unrestricted_key_def
        apply_restriction_def narrow_def narrow_tenants_by_role_def narrow_tenants_by_id_def sorted_items_def snapshot_post_init_def normalize_values_def collect_set_def
        connect_evidence_def evidence_post_init_def example_runtime_def optional_result_def normalize_datetime_def)
  then obtain p c where m: "merge_connect_token example_cookie_registry example_runtime example_connect_record
      (anonymous :: unit principal) empty_context = Inr (p, c)"
    by blast
  have "authenticate_connect_token (\<lambda>_. [0]) example_cookie_registry example_runtime ''chat'' ?h (bare_plan None)
      example_headers [(''session'', Presented ''ok'')] ?w = (Inr (p, c), s)"
  proof -
    have parts: "wr_tokens example_runtime = Some (connect_at 5 example_connect_service)"
        "wr_epoch example_runtime = (\<lambda>_. pure (Some 3))"
      by (simp_all add: example_runtime_def)
    obtain relaxed where relaxed: "without_alternatives (bare_plan None) = Inr relaxed" "\<not> plan_authenticate relaxed"
      by (simp add: without_alternatives_def bare_plan_def runtime_plan_post_init_def)
    show ?thesis
      unfolding authenticate_connect_token_def parts
      using consumed by (simp add: f call_def relaxed evaluate_def m)
  qed
  then have ok: "admit_websocket (\<lambda>_. [0]) example_cookie_registry example_runtime ''chat'' (bare_plan None)
     example_headers example_headers example_query ?w = (Inr (Ws_Admitted p c), s)"
    using h by (simp add: admit_websocket_def bare_plan_def example_cookie authenticate_handshake_def)
  show ?thesis
    using connect_token_admits_its_subject [OF ok example_connect_query] ok by blast
qed

end
