(* ===== verification/Python_Values.thy ===== *)
theory Python_Values
  imports Ports
begin

text \<open>
  The values that reach the code from outside its types: session payloads and JSON documents.
  \<open>texts_of\<close> is what iterating one of them as a collection of text yields.
\<close>

datatype py_value =
    Py_None
  | Py_Bool bool
  | Py_Int int
  | Py_Text string
  | Py_List "py_value list"
  | Py_Dict "(string \<times> py_value) list"

definition text_of :: "py_value \<Rightarrow> string option" where
  "text_of v = (case v of Py_Text s \<Rightarrow> Some s | _ \<Rightarrow> None)"

definition int_of_value :: "py_value \<Rightarrow> int option" where
  "int_of_value v = (case v of Py_Int n \<Rightarrow> Some n | _ \<Rightarrow> None)"

text \<open>\<^verbatim>\<open>all(isinstance(item, str) ...)\<close> with the items.\<close>

fun all_texts :: "py_value list \<Rightarrow> string list option" where
  "all_texts [] = Some []"
| "all_texts (v # vs) =
     (case (text_of v, all_texts vs) of (Some s, Some ss) \<Rightarrow> Some (s # ss) | _ \<Rightarrow> None)"

text \<open>\<^verbatim>\<open>tuple(value)\<close> of text items: a text iterates over its characters, a mapping over its keys.\<close>

definition texts_of :: "py_value \<Rightarrow> string list option" where
  "texts_of v =
     (case v of
        Py_List vs \<Rightarrow> all_texts vs
      | Py_Text s \<Rightarrow> Some (map (\<lambda>c. [c]) s)
      | Py_Dict d \<Rightarrow> Some (map fst d)
      | _ \<Rightarrow> None)"

lemma all_texts_map [simp]: "all_texts (map Py_Text ss) = Some ss"
  by (induction ss) (simp_all add: text_of_def)

lemma text_of_Some [simp]: "text_of v = Some s \<longleftrightarrow> v = Py_Text s"
  by (cases v) (auto simp: text_of_def)

lemma all_texts_Some: "all_texts vs = Some ss \<longleftrightarrow> vs = map Py_Text ss"
proof
  show "all_texts vs = Some ss \<Longrightarrow> vs = map Py_Text ss"
    by (induction vs arbitrary: ss) (auto split: option.splits)
qed simp

lemma int_of_value_Some [simp]: "int_of_value v = Some n \<longleftrightarrow> v = Py_Int n"
  by (cases v) (auto simp: int_of_value_def)

lemma texts_of_list [simp]: "texts_of (Py_List (map Py_Text ss)) = Some ss"
  by (simp add: texts_of_def)

end
