(* ===== verification/Native_Sessions.thy ===== *)
theory Native_Sessions
  imports Python_Values Session_Store Authentication API_Keys
begin

text \<open>
  The native session mechanism (\<^verbatim>\<open>NativeSessionAuth\<close> of \<^verbatim>\<open>accounts/_sessions.py\<close>): extraction of the
  browser payload and the binding cookie, the per-request check against the registry, the account
  and its epoch, and the lifecycle: establish, logout, revoke, list, and the two-phase rebind that
  accompanies a password change.

  A call runs over the state of the application's ports and of one connection: its session mapping,
  its cookies and the cookies queued on its response. \<^verbatim>\<open>datetime.isoformat\<close> and \<^verbatim>\<open>fromisoformat\<close>
  are the parameter \<open>iso_text\<close>; HMAC, clock, entropy, event identifiers and the store are parameters.
\<close>

section \<open>Configuration\<close>

record session_binding_config =
  sb_pepper :: bytes
  sb_cookie_name :: string
  sb_secure :: bool
  sb_same_site :: string
  sb_path :: string
  sb_domain :: "string option"
  sb_max_age :: int
  sb_touch_interval :: time
  sb_preserve :: "string list"
  sb_allow_insecure :: bool

definition session_authentication_key :: string where
  "session_authentication_key = ''_litestar_security''"

definition plain_text :: "string \<Rightarrow> bool" where
  "plain_text v \<longleftrightarrow> list_all (\<lambda>c. \<not> is_space c \<and> 32 \<le> (of_char c :: nat)) v"

definition cookie_separators :: string where
  "cookie_separators = ''()<>@,;:'' @ [CHR 0x5C, CHR 0x22] @ ''/[]?={} '' @ [CHR 0x09]"

definition validate_binding_cookie_scope :: "session_binding_config \<Rightarrow> unit result" where
  "validate_binding_cookie_scope c =
     (if starts_with_prefix ''__Host-'' (sb_cookie_name c) \<and>
         (sb_secure c, sb_path c, sb_domain c) \<noteq> (True, ''/'', None)
      then Inl ImproperlyConfigured
      else if \<not> strict_text (sb_path c) \<or> \<not> starts_with_prefix ''/'' (sb_path c) \<or> \<not> plain_text (sb_path c)
      then Inl ImproperlyConfigured
      else case sb_domain c of
        None \<Rightarrow> Inr ()
      | Some d \<Rightarrow>
          if \<not> strict_text d \<or> d \<noteq> strip d \<or> \<not> plain_text d then Inl ImproperlyConfigured else Inr ())"

definition validate_binding_cookie_config :: "session_binding_config \<Rightarrow> unit result" where
  "validate_binding_cookie_config c =
     (if \<not> strict_text (sb_cookie_name c) \<or> sb_cookie_name c \<noteq> strip (sb_cookie_name c) \<or>
         list_ex (\<lambda>x. x \<in> set cookie_separators) (sb_cookie_name c)
      then Inl ImproperlyConfigured
      else if sb_same_site c \<notin> {''lax'', ''strict'', ''none''} then Inl ImproperlyConfigured
      else if sb_secure c \<and> sb_allow_insecure c then Inl ImproperlyConfigured
      else if \<not> sb_secure c \<and> \<not> sb_allow_insecure c then Inl ImproperlyConfigured
      else if sb_same_site c = ''none'' \<and> \<not> sb_secure c then Inl ImproperlyConfigured
      else validate_binding_cookie_scope c)"

definition validate_binding_lifetime_config :: "session_binding_config \<Rightarrow> unit result" where
  "validate_binding_lifetime_config c =
     (if sb_max_age c < 1 then Inl ImproperlyConfigured
      else if sb_touch_interval c \<le> 0 \<or> sb_touch_interval c > seconds (sb_max_age c)
      then Inl ImproperlyConfigured else Inr ())"

definition validate_preserved_session_keys :: "string list \<Rightarrow> unit result" where
  "validate_preserved_session_keys keys =
     (if \<not> distinct keys \<or> session_authentication_key \<in> set keys \<or> \<not> list_all strict_text keys
      then Inl ImproperlyConfigured else Inr ())"

definition session_binding_config_post_init :: "session_binding_config \<Rightarrow> session_binding_config result" where
  "session_binding_config_post_init c =
     (if length (sb_pepper c) < minimum_pepper_bytes then Inl ImproperlyConfigured
      else bind (validate_binding_cookie_config c) (\<lambda>_.
        bind (validate_binding_lifetime_config c) (\<lambda>_.
        bind (validate_preserved_session_keys (sb_preserve c)) (\<lambda>_. Inr c))))"

section \<open>The connection\<close>

record binding_cookie =
  bc_name :: string
  bc_value :: string
  bc_max_age :: int
  bc_domain :: "string option"
  bc_path :: string
  bc_secure :: bool
  bc_same_site :: string

record browser =
  br_http :: bool
  br_session :: "(string, py_value) dict option"
  br_cookies :: "(string, string) dict"
  br_queued :: "binding_cookie list"

definition queue_cookie :: "binding_cookie \<Rightarrow> browser \<Rightarrow> browser" where
  "queue_cookie c b = (if br_http b then b\<lparr>br_queued := br_queued b @ [c]\<rparr> else b)"

definition make_cookie :: "session_binding_config \<Rightarrow> string \<Rightarrow> int \<Rightarrow> binding_cookie" where
  "make_cookie c value max_age =
     \<lparr>bc_name = sb_cookie_name c, bc_value = value, bc_max_age = max_age, bc_domain = sb_domain c,
      bc_path = sb_path c, bc_secure = sb_secure c, bc_same_site = sb_same_site c\<rparr>"

definition clear_local_state :: "session_binding_config \<Rightarrow> browser \<Rightarrow> browser" where
  "clear_local_state c b =
     (if \<not> br_http b then b
      else queue_cookie (make_cookie c [] 0)
        (b\<lparr>br_session := map_option (AList.delete session_authentication_key) (br_session b)\<rparr>))"

definition queue_binding_cookie :: "session_binding_config \<Rightarrow> string \<Rightarrow> browser \<Rightarrow> browser" where
  "queue_binding_cookie c token b = queue_cookie (make_cookie c token (sb_max_age c)) b"

definition writable_http_session :: "browser \<Rightarrow> (string, py_value) dict option" where
  "writable_http_session b = (if br_http b then br_session b else None)"

section \<open>The browser payload\<close>

record iso_text =
  iso_write :: "time \<Rightarrow> string"
  iso_read :: "string \<Rightarrow> py_datetime option"

definition encode_authentication :: "iso_text \<Rightarrow> time session_authentication \<Rightarrow> py_value" where
  "encode_authentication dates a = Py_Dict
     [(''version'', Py_Int 3), (''session_id'', Py_Text (sa_session_id a)),
      (''binding_id'', Py_Text (sa_binding_id a)), (''account_id'', Py_Text (sa_account_id a)),
      (''security_epoch'', Py_Int (sa_security_epoch a)),
      (''authenticated_at'', Py_Text (iso_write dates (sa_authenticated_at a))),
      (''expires_at'', Py_Text (iso_write dates (sa_expires_at a))),
      (''assurance_expires_at'',
        case sa_assurance_expires_at a of None \<Rightarrow> Py_None | Some t \<Rightarrow> Py_Text (iso_write dates t)),
      (''methods'', Py_List (map Py_Text (sorted_list_of_set (sa_methods a)))),
      (''traits'', Py_List (map Py_Text (sorted_list_of_set (sa_traits a)))),
      (''amr'', Py_List (map Py_Text (sa_amr a)))]"

definition legacy_keys :: "string set" where
  "legacy_keys = {''version'', ''session_id'', ''binding_id'', ''account_id'', ''security_epoch'',
     ''authenticated_at'', ''expires_at''}"

definition payload_keys :: "int \<Rightarrow> string set option" where
  "payload_keys version =
     (if version = 1 then Some legacy_keys
      else if version = 2 then Some (legacy_keys \<union> {''methods'', ''traits'', ''amr''})
      else if version = 3 then Some (legacy_keys \<union> {''methods'', ''traits'', ''amr'', ''assurance_expires_at''})
      else None)"

definition field_text :: "(string, py_value) dict \<Rightarrow> string \<Rightarrow> string option" where
  "field_text d key = Option.bind (dget d key) text_of"

definition field_time :: "iso_text \<Rightarrow> (string, py_value) dict \<Rightarrow> string \<Rightarrow> py_datetime option" where
  "field_time dates d key = Option.bind (field_text d key) (iso_read dates)"

definition field_texts :: "(string, py_value) dict \<Rightarrow> string \<Rightarrow> string list option" where
  "field_texts d key = Option.bind (dget d key) texts_of"

text \<open>
  Every exception of the conversion is caught; a field of the wrong class fails the constructor's
  own checks, so the typed fields are read first.
\<close>

definition assurance_field :: "iso_text \<Rightarrow> int \<Rightarrow> (string, py_value) dict \<Rightarrow> py_datetime option option" where
  "assurance_field dates version d =
     (if version \<noteq> 3 \<or> dget d ''assurance_expires_at'' = Some Py_None then Some None
      else map_option Some (field_time dates d ''assurance_expires_at''))"

definition assurance_fields :: "int \<Rightarrow> (string, py_value) dict \<Rightarrow> (string list \<times> string list \<times> string list) option" where
  "assurance_fields version d =
     (if version = 1 then Some ([], [''session''], [])
      else case (field_texts d ''methods'', field_texts d ''traits'', field_texts d ''amr'') of
        (Some methods, Some traits, Some amr) \<Rightarrow> Some (methods, traits, amr)
      | _ \<Rightarrow> None)"

definition decode_fields :: "iso_text \<Rightarrow> int \<Rightarrow> (string, py_value) dict \<Rightarrow> py_datetime session_authentication option" where
  "decode_fields dates version d =
     (case (field_text d ''session_id'', field_text d ''binding_id'', field_text d ''account_id'',
            Option.bind (dget d ''security_epoch'') int_of_value, field_time dates d ''authenticated_at'',
            field_time dates d ''expires_at'', assurance_field dates version d, assurance_fields version d) of
        (Some session_id, Some binding_id, Some account_id, Some epoch, Some authenticated_at,
         Some expires_at, Some assurance, Some (methods, traits, amr)) \<Rightarrow>
          Some \<lparr>sa_session_id = session_id, sa_binding_id = binding_id, sa_account_id = account_id,
            sa_security_epoch = epoch, sa_authenticated_at = authenticated_at, sa_expires_at = expires_at,
            sa_assurance_expires_at = assurance, sa_methods = set methods, sa_traits = set traits,
            sa_amr = amr\<rparr>
      | _ \<Rightarrow> None)"

definition decode_authentication :: "iso_text \<Rightarrow> py_value option \<Rightarrow> time session_authentication option" where
  "decode_authentication dates value =
     (case value of
        Some (Py_Dict d) \<Rightarrow>
          (case dget d ''version'' of
             Some (Py_Int version) \<Rightarrow>
               if payload_keys version \<noteq> Some (set (map fst d)) then None
               else (case decode_fields dates version d of
                 None \<Rightarrow> None
               | Some fields' \<Rightarrow>
                   (case session_authentication_post_init fields' of Inl _ \<Rightarrow> None | Inr a \<Rightarrow> Some a))
           | _ \<Rightarrow> None)
      | _ \<Rightarrow> None)"

section \<open>Binding proofs\<close>

record ('s, 'u) native_sessions =
  ns_create :: "time session_command \<Rightarrow> security_event \<Rightarrow> ('s, time user_session option) port"
  ns_rebind :: "string \<Rightarrow> time session_command \<Rightarrow> security_event \<Rightarrow> ('s, time user_session option) port"
  ns_get :: "string \<Rightarrow> ('s, time user_session option) port"
  ns_list :: "string \<Rightarrow> ('s, time user_session list) port"
  ns_touch :: "string \<Rightarrow> time \<Rightarrow> ('s, unit) port"
  ns_revoke :: "string \<Rightarrow> string \<Rightarrow> security_event \<Rightarrow> ('s, bool) port"
  ns_get_by_id :: "string \<Rightarrow> ('s, 'u account option) port"
  ns_current_epoch :: "string \<Rightarrow> ('s, int option) port"
  ns_resolver :: "(string \<Rightarrow> string \<Rightarrow> time \<Rightarrow> ('s, (time user_session \<times> 'u account) option) port) option"
  ns_binding :: session_binding_config
  ns_iso :: iso_text
  ns_hmac :: hmac_function
  ns_clock :: "('s, py_datetime) port"
  ns_entropy :: "nat \<Rightarrow> ('s, bytes) port"
  ns_event_ids :: "('s, string) port"

definition binding_digest :: "('s, 'u) native_sessions \<Rightarrow> string \<Rightarrow> bytes \<Rightarrow> bytes" where
  "binding_digest srv binding_id secret =
     ns_hmac srv (sb_pepper (ns_binding srv)) (ascii_bytes ''session-binding'' @ [0] @ ascii_bytes binding_id @ secret)"

definition issue_binding :: "('s, 'u) native_sessions \<Rightarrow> ('s, string \<times> binding_proof) port" where
  "issue_binding srv =
     call (ns_entropy srv lookup_bytes) (\<lambda>lookup.
     call (ns_entropy srv secret_bytes) (\<lambda>secret.
       if length lookup \<noteq> lookup_bytes then raise ValueError
       else if length secret \<noteq> secret_bytes then raise ValueError
       else let binding_id = session_binding_prefix @ encode_random lookup
         in call (lift_result (binding_proof_post_init
              \<lparr>bp_binding_id = binding_id, bp_digest = binding_digest srv binding_id secret\<rparr>)) (\<lambda>proof.
            pure (binding_id @ CHR ''.'' # encode_random secret, proof))))"

definition read_binding :: "('s, 'u) native_sessions \<Rightarrow> string option \<Rightarrow> binding_proof option result" where
  "read_binding srv token =
     (case token of
        None \<Rightarrow> Inr None
      | Some t \<Rightarrow>
          if length t \<noteq> length session_binding_prefix + 22 + 1 + secret_characters then Inr None
          else (case partition_at (CHR ''.'') t of
            (binding_id, separator, encoded) \<Rightarrow>
              (case decode_random encoded secret_bytes of
                 None \<Rightarrow> Inr None
               | Some secret \<Rightarrow>
                   if \<not> separator \<or> \<not> valid_identifier (Some session_binding_prefix) binding_id then Inr None
                   else bind (binding_proof_post_init
                     \<lparr>bp_binding_id = binding_id, bp_digest = binding_digest srv binding_id secret\<rparr>)
                     (\<lambda>p. Inr (Some p)))))"

section \<open>Per-request authentication\<close>

type_synonym session_credential = "time session_authentication \<times> binding_proof"

definition stored_payload :: "browser \<Rightarrow> py_value option" where
  "stored_payload b =
     (case Option.bind (br_session b) (\<lambda>d. dget d session_authentication_key) of
        Some Py_None \<Rightarrow> None | found \<Rightarrow> found)"

definition extract_session :: "('s, 'u) native_sessions \<Rightarrow> browser \<Rightarrow> session_credential extraction result \<times> browser" where
  "extract_session srv b =
     (let payload = stored_payload b; raw_binding = dget (br_cookies b) (sb_cookie_name (ns_binding srv))
      in if payload = None \<and> raw_binding = None then (Inr No_Credential, b)
         else case read_binding srv raw_binding of
           Inl e \<Rightarrow> (Inl e, b)
         | Inr proof \<Rightarrow>
             (case (decode_authentication (ns_iso srv) payload, proof) of
                (Some a, Some p) \<Rightarrow> (Inr (Presented (a, p)), b)
              | _ \<Rightarrow> (Inr Malformed, clear_local_state (ns_binding srv) b)))"

definition valid_login_account :: "'u account \<Rightarrow> bool" where
  "valid_login_account a \<longleftrightarrow>
     strict_text (acc_id a) \<and> acc_active a \<and> acc_verified a \<and> valid_security_epoch (acc_epoch a)"

definition valid_current_state ::
  "time session_authentication \<Rightarrow> binding_proof \<Rightarrow> time user_session \<Rightarrow> 'u account \<Rightarrow> int option \<Rightarrow> time \<Rightarrow> bool" where
  "valid_current_state a p r account epoch now \<longleftrightarrow>
     valid_login_account account \<and>
     bp_binding_id p = us_binding_id r \<and> bp_digest p = us_binding_digest r \<and>
     us_session_id r = sa_session_id a \<and>
     us_account_id r = sa_account_id a \<and> sa_account_id a = acc_id account \<and>
     us_security_epoch r = sa_security_epoch a \<and> Some (sa_security_epoch a) = epoch \<and>
     epoch = Some (acc_epoch account) \<and>
     us_binding_id r = sa_binding_id a \<and> us_authenticated_at r = sa_authenticated_at a \<and>
     us_expires_at r = sa_expires_at a \<and> now < sa_expires_at a"

record ('s, 'u) session_state =
  sst_now :: time
  sst_record :: "time user_session option"
  sst_account :: "'u account option"
  sst_epoch :: "int option"

definition session_now :: "('s, 'u) native_sessions \<Rightarrow> py_datetime option \<Rightarrow> ('s, time) port" where
  "session_now srv now =
     call (case now of None \<Rightarrow> ns_clock srv | Some t \<Rightarrow> pure t) (\<lambda>reading. lift_result (aware_utc_time reading))"

definition load_session_state ::
  "('s, 'u) native_sessions \<Rightarrow> time session_authentication \<Rightarrow> ('s, ('s, 'u) session_state) port" where
  "load_session_state srv a =
     call (session_now srv None) (\<lambda>now.
       case ns_resolver srv of
         None \<Rightarrow>
           call (ns_get srv (sa_session_id a)) (\<lambda>record.
           call (ns_get_by_id srv (sa_account_id a)) (\<lambda>account.
           call (ns_current_epoch srv (sa_account_id a)) (\<lambda>epoch.
             pure \<lparr>sst_now = now, sst_record = record, sst_account = account, sst_epoch = epoch\<rparr>)))
       | Some resolve \<Rightarrow>
           call (resolve (sa_session_id a) (sa_account_id a) now) (\<lambda>resolved.
             pure \<lparr>sst_now = now, sst_record = map_option fst resolved, sst_account = map_option snd resolved,
               sst_epoch = map_option (acc_epoch \<circ> snd) resolved\<rparr>))"

definition session_evidence :: "time session_authentication \<Rightarrow> evidence result" where
  "session_evidence a =
     evidence_post_init
       \<lparr>in_mechanism = ''session'', in_slot = ''session'', in_authenticated_at = Aware (sa_authenticated_at a),
        in_expires_at = Some (Aware (case sa_assurance_expires_at a of
          None \<Rightarrow> sa_expires_at a | Some t \<Rightarrow> min t (sa_expires_at a))),
        in_methods = sa_methods a, in_traits = sa_traits a, in_acr = None, in_amr = sa_amr a\<rparr>"

definition touch_record :: "('s, 'u) native_sessions \<Rightarrow> time \<Rightarrow> time user_session \<Rightarrow> 's \<Rightarrow> 's" where
  "touch_record srv now r s =
     (if now - us_last_seen_at r \<ge> sb_touch_interval (ns_binding srv)
      then snd (ns_touch srv (us_session_id r) now s) else s)"

definition authenticate_session ::
  "('s, 'u) native_sessions \<Rightarrow> session_credential \<Rightarrow> ('s \<times> browser, 'u account auth_outcome) port" where
  "authenticate_session srv credential w =
     (case credential of (a, p) \<Rightarrow>
       case load_session_state srv a (fst w) of
         (Inl e, s) \<Rightarrow> (Inr Auth_Unavailable, (s, snd w))
       | (Inr st, s) \<Rightarrow>
           (case (sst_record st, sst_account st) of
              (Some r, Some account) \<Rightarrow>
                if valid_current_state a p r account (sst_epoch st) (sst_now st)
                then (bind (session_evidence a) (\<lambda>e. Inr (Auth_Ok \<lparr>au_evidence = e, au_grants = no_grants,
                        au_restrictions = unrestricted_key, au_claims = account\<rparr>)),
                      (touch_record srv (sst_now st) r s, snd w))
                else (Inr Auth_Invalid, (s, clear_local_state (ns_binding srv) (snd w)))
            | _ \<Rightarrow> (Inr Auth_Invalid, (s, clear_local_state (ns_binding srv) (snd w)))))"

definition resolve_session :: "'u account \<Rightarrow> 'u principal result" where
  "resolve_session account =
     principal_post_init
       \<lparr>principal_id = Some (acc_id account), display_name = acc_display_name account,
        principal_user = acc_user account\<rparr>"

section \<open>Establishing a session\<close>

definition native_event ::
  "('s, 'u) native_sessions \<Rightarrow> time \<Rightarrow> string \<Rightarrow> string \<Rightarrow> string \<Rightarrow> ('s, security_event) port" where
  "native_event srv occurred_at operation outcome account_id =
     call (ns_event_ids srv) (\<lambda>event_id.
       if \<not> strict_text event_id then raise ValueError
       else pure \<lparr>se_event_id = strip event_id, se_occurred_at = Aware occurred_at,
         se_operation = operation, se_outcome = outcome, se_account_id = Some account_id,
         se_principal_id = None, se_mechanism = Some ''session'', se_session_id = None,
         se_family_id = None, se_correlation = []\<rparr>)"

definition record_matches_command :: "time user_session \<Rightarrow> time session_command \<Rightarrow> bool" where
  "record_matches_command r c \<longleftrightarrow>
     us_session_id r = sc_session_id c \<and> us_binding_id r = sc_binding_id c \<and>
     us_binding_digest r = sc_binding_digest c \<and> us_account_id r = sc_account_id c \<and>
     us_security_epoch r = sc_security_epoch c \<and> us_created_at r = sc_created_at c \<and>
     us_authenticated_at r = sc_authenticated_at c \<and> us_expires_at r = sc_expires_at c"

text \<open>The material and the command, before the registry is asked: \<open>establish\<close> and the password rebind share it.\<close>

definition issue_command ::
  "('s, 'u) native_sessions \<Rightarrow> 'u account \<Rightarrow> time \<Rightarrow> time \<Rightarrow> (string, string) dict \<Rightarrow>
     ('s, string \<times> time session_command) port" where
  "issue_command srv account occurred_at authenticated_at metadata =
     call (issue_binding srv) (\<lambda>(token, proof).
     call (ns_entropy srv session_id_bytes) (\<lambda>random.
     call (lift_result (session_command_post_init
       \<lparr>sc_session_id = encode_random random, sc_binding_id = bp_binding_id proof,
        sc_binding_digest = bp_digest proof, sc_account_id = acc_id account,
        sc_security_epoch = acc_epoch account, sc_created_at = Aware occurred_at,
        sc_authenticated_at = Aware authenticated_at,
        sc_expires_at = Aware (occurred_at + seconds (sb_max_age (ns_binding srv))),
        sc_display_metadata = metadata\<rparr>)) (\<lambda>command.
       pure (token, command))))"

definition store_command ::
  "('s, 'u) native_sessions \<Rightarrow> time session_authentication option \<Rightarrow> time session_command \<Rightarrow> time \<Rightarrow> string \<Rightarrow>
     ('s, time user_session option) port" where
  "store_command srv prior command occurred_at account_id =
     call (native_event srv occurred_at
       (if prior \<noteq> None then ''local.session.rebind'' else ''local.session.create'') ''created'' account_id) (\<lambda>event.
     call (case prior of Some p \<Rightarrow> ns_rebind srv (sa_session_id p) command event | None \<Rightarrow> ns_create srv command event) (\<lambda>record.
       if record = None \<and> prior \<noteq> None
       then call (native_event srv occurred_at ''local.session.create'' ''created'' account_id) (ns_create srv command)
       else pure record))"

definition established_authentication ::
  "time session_command \<Rightarrow> evidence option \<Rightarrow> time \<Rightarrow> time session_authentication result" where
  "established_authentication command evidence occurred_at =
     session_authentication_post_init
       \<lparr>sa_session_id = sc_session_id command, sa_binding_id = sc_binding_id command,
        sa_account_id = sc_account_id command, sa_security_epoch = sc_security_epoch command,
        sa_authenticated_at = Aware (case evidence of Some e \<Rightarrow> ev_authenticated_at e | None \<Rightarrow> occurred_at),
        sa_expires_at = Aware (sc_expires_at command),
        sa_assurance_expires_at = (case evidence of Some e \<Rightarrow> map_option Aware (ev_expires_at e) | None \<Rightarrow> None),
        sa_methods = (case evidence of Some e \<Rightarrow> ev_methods e | None \<Rightarrow> {''password''}),
        sa_traits = (case evidence of Some e \<Rightarrow> ev_traits e \<union> {''session''} | None \<Rightarrow> {''session''}),
        sa_amr = (case evidence of
            Some e \<Rightarrow> if ev_amr e \<noteq> [] then ev_amr e else sorted_list_of_set (ev_methods e)
          | None \<Rightarrow> [''pwd''])\<rparr>"

text \<open>\<^verbatim>\<open>{key: session[key] for key in keys if key in session}\<close>.\<close>

definition preserved_items :: "string list \<Rightarrow> (string, 'v) dict \<Rightarrow> (string, 'v) dict" where
  "preserved_items keys d = concat (map (\<lambda>key. case dget d key of None \<Rightarrow> [] | Some v \<Rightarrow> [(key, v)]) keys)"

definition reveal_session ::
  "('s, 'u) native_sessions \<Rightarrow> (string, py_value) dict \<Rightarrow> time session_authentication \<Rightarrow> string \<Rightarrow> browser \<Rightarrow> browser" where
  "reveal_session srv session authentication token b =
     queue_binding_cookie (ns_binding srv) token
       (b\<lparr>br_session := Some (dset session_authentication_key
            (encode_authentication (ns_iso srv) authentication) session)\<rparr>)"

definition establish ::
  "('s, 'u) native_sessions \<Rightarrow> 'u account \<Rightarrow> evidence option \<Rightarrow> (string, string) dict \<Rightarrow> py_datetime option \<Rightarrow>
     ('s \<times> browser, time session_authentication verdict) port" where
  "establish srv account evidence metadata now w =
     (case writable_http_session (snd w) of
        None \<Rightarrow> (Inr Verification_Unavailable, w)
      | Some session \<Rightarrow>
          if \<not> valid_login_account account then (Inr Verification_Unavailable, w)
          else
            let prior = decode_authentication (ns_iso srv) (dget session session_authentication_key)
            in case
              call (session_now srv now) (\<lambda>occurred_at.
              call (issue_command srv account occurred_at
                     (case evidence of Some e \<Rightarrow> ev_authenticated_at e | None \<Rightarrow> occurred_at) metadata) (\<lambda>(token, command).
              call (store_command srv prior command occurred_at (acc_id account)) (\<lambda>record.
                pure (occurred_at, token, command, record)))) (fst w) of
              (Inl e, s) \<Rightarrow> (Inr Verification_Unavailable, (s, snd w))
            | (Inr (occurred_at, token, command, record), s) \<Rightarrow>
                if (case record of None \<Rightarrow> True | Some r \<Rightarrow> \<not> record_matches_command r command)
                then (Inr Verification_Unavailable, (s, snd w))
                else (case established_authentication command evidence occurred_at of
                  Inl e \<Rightarrow> (Inl e, (s, snd w))
                | Inr authentication \<Rightarrow>
                    (Inr (Verified authentication),
                     (s, reveal_session srv (preserved_items (sb_preserve (ns_binding srv)) session)
                           authentication token (snd w)))))"

section \<open>Ending sessions\<close>

definition logout ::
  "('s, 'u) native_sessions \<Rightarrow> py_datetime option \<Rightarrow> 's \<times> browser \<Rightarrow> bool verdict \<times> ('s \<times> browser)" where
  "logout srv now w =
     (case writable_http_session (snd w) of
        None \<Rightarrow> (Verification_Unavailable, w)
      | Some session \<Rightarrow>
          let cleared = clear_local_state (ns_binding srv) (snd w)
          in (case decode_authentication (ns_iso srv) (dget session session_authentication_key) of
                None \<Rightarrow> (Verified False, (fst w, cleared))
              | Some a \<Rightarrow>
                  (case sanitized
                     (call (session_now srv now) (\<lambda>occurred_at.
                      call (native_event srv occurred_at ''local.session.logout'' ''revoked'' (sa_account_id a)) (\<lambda>event.
                      call (ns_revoke srv (sa_account_id a) (sa_session_id a) event) (\<lambda>revoked.
                        pure (Verified revoked))))) (fst w) of
                     (v, s) \<Rightarrow> (v, (s, cleared)))))"

definition revoke_native_session ::
  "('s, 'u) native_sessions \<Rightarrow> string \<Rightarrow> string \<Rightarrow> py_datetime option \<Rightarrow> 's \<times> browser \<Rightarrow> bool verdict \<times> ('s \<times> browser)" where
  "revoke_native_session srv account_id session_id now w =
     (case writable_http_session (snd w) of
        None \<Rightarrow> (Verification_Unavailable, w)
      | Some session \<Rightarrow>
          if \<not> strict_text account_id \<or> \<not> valid_identifier None session_id then (Verified False, w)
          else (case
            call (session_now srv now) (\<lambda>occurred_at.
            call (native_event srv occurred_at ''local.session.revoke'' ''revoked'' account_id)
              (ns_revoke srv account_id session_id)) (fst w) of
            (Inl e, s) \<Rightarrow> (Verification_Unavailable, (s, snd w))
          | (Inr revoked, s) \<Rightarrow>
              (case decode_authentication (ns_iso srv) (dget session session_authentication_key) of
                 Some a \<Rightarrow>
                   if (sa_account_id a, sa_session_id a) = (account_id, session_id)
                   then (Verified revoked, (s, clear_local_state (ns_binding srv) (snd w)))
                   else (Verified revoked, (s, snd w))
               | None \<Rightarrow> (Verified revoked, (s, snd w)))))"

section \<open>Inventory\<close>

definition session_summary_of :: "string option \<Rightarrow> time user_session \<Rightarrow> time session_summary result" where
  "session_summary_of current r =
     session_summary_post_init
       \<lparr>ss_session_id = us_session_id r, ss_current = (Some (us_session_id r) = current),
        ss_created_at = Aware (us_created_at r), ss_last_seen_at = Aware (us_last_seen_at r),
        ss_expires_at = Aware (us_expires_at r), ss_display_metadata = us_display_metadata r\<rparr>"

definition list_native_sessions ::
  "('s, 'u) native_sessions \<Rightarrow> string \<Rightarrow> string option \<Rightarrow> ('s, time session_summary list) port" where
  "list_native_sessions srv account_id current =
     (if \<not> strict_text account_id then pure []
      else call (ns_list srv account_id) (\<lambda>records.
        lift_result (collect (map (session_summary_of current)
          (filter (\<lambda>r. us_account_id r = account_id) records)))))"

definition current_authentication :: "('s, 'u) native_sessions \<Rightarrow> browser \<Rightarrow> time session_authentication option" where
  "current_authentication srv b =
     (case br_session b of
        None \<Rightarrow> None
      | Some session \<Rightarrow> decode_authentication (ns_iso srv) (dget session session_authentication_key))"

section \<open>The rebind of a password change\<close>

definition prepare_password_rebind ::
  "('s, 'u) native_sessions \<Rightarrow> browser \<Rightarrow> 'u account \<Rightarrow> py_datetime option \<Rightarrow> 's \<Rightarrow> time rebind_plan verdict \<times> 's" where
  "prepare_password_rebind srv b account now s =
     (case (writable_http_session b, current_authentication srv b) of
        (Some session, Some current) \<Rightarrow>
          if \<not> valid_login_account account \<or> sa_account_id current \<noteq> acc_id account
          then (Verification_Unavailable, s)
          else sanitized
            (call (session_now srv now) (\<lambda>occurred_at.
             call (issue_command srv account occurred_at occurred_at []) (\<lambda>(token, command).
             call (lift_result (rebind_plan_post_init
               \<lparr>bpl_prior_session_id = sa_session_id current, bpl_command = command,
                bpl_binding_token = token, bpl_authenticated_at = Aware occurred_at\<rparr>)) (\<lambda>plan.
               pure (Verified plan))))) s
      | _ \<Rightarrow> (Verification_Unavailable, s))"

definition replace_command_epoch :: "time session_command \<Rightarrow> int \<Rightarrow> time session_command result" where
  "replace_command_epoch c epoch =
     session_command_post_init
       \<lparr>sc_session_id = sc_session_id c, sc_binding_id = sc_binding_id c,
        sc_binding_digest = sc_binding_digest c, sc_account_id = sc_account_id c,
        sc_security_epoch = epoch, sc_created_at = Aware (sc_created_at c),
        sc_authenticated_at = Aware (sc_authenticated_at c), sc_expires_at = Aware (sc_expires_at c),
        sc_display_metadata = sc_display_metadata c\<rparr>"

definition rebound_authentication :: "time session_command \<Rightarrow> time session_authentication result" where
  "rebound_authentication c =
     session_authentication_post_init
       \<lparr>sa_session_id = sc_session_id c, sa_binding_id = sc_binding_id c, sa_account_id = sc_account_id c,
        sa_security_epoch = sc_security_epoch c, sa_authenticated_at = Aware (sc_authenticated_at c),
        sa_expires_at = Aware (sc_expires_at c), sa_assurance_expires_at = None,
        sa_methods = {''password''}, sa_traits = {''session''}, sa_amr = [''pwd'']\<rparr>"

definition activate_password_rebind ::
  "('s, 'u) native_sessions \<Rightarrow> time rebind_plan \<Rightarrow> int \<Rightarrow> ('s \<times> browser, bool) port" where
  "activate_password_rebind srv plan epoch w =
     (case writable_http_session (snd w) of
        None \<Rightarrow> (Inr False, (fst w, clear_local_state (ns_binding srv) (snd w)))
      | Some session \<Rightarrow>
          if \<not> valid_security_epoch epoch
          then (Inr False, (fst w, clear_local_state (ns_binding srv) (snd w)))
          else (case replace_command_epoch (bpl_command plan) epoch of
            Inl e \<Rightarrow> (Inl e, w)
          | Inr command \<Rightarrow>
              (case ns_get srv (sc_session_id command) (fst w) of
                 (Inr (Some r), s) \<Rightarrow>
                   if \<not> record_matches_command r command
                   then (Inr False, (s, clear_local_state (ns_binding srv) (snd w)))
                   else (case rebound_authentication command of
                     Inl e \<Rightarrow> (Inl e, (s, snd w))
                   | Inr a \<Rightarrow> (Inr True, (s, reveal_session srv session a (bpl_binding_token plan) (snd w))))
               | (_, s) \<Rightarrow> (Inr False, (s, clear_local_state (ns_binding srv) (snd w))))))"

end
