(* ===== verification/Session_Lifecycle.thy ===== *)
theory Session_Lifecycle
  imports Native_Sessions Account_Store
begin

text \<open>
  The life of a native session: what the browser keeps decodes to what was established, and the
  registry decides every later request. The mechanism is proved once over an abstract session and
  account map (\<open>session_ports\<close>) and rests on the in-memory store through its interpretation.
\<close>

section \<open>The browser payload\<close>

definition constructed :: "time session_authentication \<Rightarrow> bool" where
  "constructed a \<longleftrightarrow> (\<exists>i. session_authentication_post_init i = Inr a)"

definition dates_ok :: "iso_text \<Rightarrow> bool" where
  "dates_ok dates \<longleftrightarrow> (\<forall>t. iso_read dates (iso_write dates t) = Some (Aware t))"

lemma evidence_post_init_Inr:
  assumes "evidence_post_init i = Inr e"
  shows "normalize_text (in_mechanism i) = Inr (ev_mechanism e)" "normalize_text (in_slot i) = Inr (ev_slot e)"
    "normalize_datetime (in_authenticated_at i) = Inr (ev_authenticated_at e)"
    "optional_result normalize_datetime (in_expires_at i) = Inr (ev_expires_at e)"
    "normalize_values (in_methods i) = Inr (ev_methods e)" "normalize_values (in_traits i) = Inr (ev_traits e)"
    "optional_result normalize_text (in_acr i) = Inr (ev_acr e)"
    "collect (map normalize_text (in_amr i)) = Inr (ev_amr e)"
  using assms by (auto simp: evidence_post_init_def bind_eq_Inr)

lemma map_eq_member: "map f xs = map g ys \<Longrightarrow> y \<in> set ys \<Longrightarrow> \<exists>x\<in>set xs. f x = g y"
  by (metis image_iff image_set)

lemma collect_normalized: "collect (map normalize_text vs) = Inr ns \<Longrightarrow> n \<in> set ns \<Longrightarrow> trimmed n"
  by (auto simp: collect_Inr_iff dest: map_eq_member normalize_text_Inr)

lemma collect_trimmed: "\<forall>v\<in>set vs. trimmed v \<Longrightarrow> collect (map normalize_text vs) = Inr vs"
  by (induction vs) simp_all

definition aware_authentication :: "time session_authentication \<Rightarrow> py_datetime session_authentication" where
  "aware_authentication a =
     \<lparr>sa_session_id = sa_session_id a, sa_binding_id = sa_binding_id a, sa_account_id = sa_account_id a,
      sa_security_epoch = sa_security_epoch a, sa_authenticated_at = Aware (sa_authenticated_at a),
      sa_expires_at = Aware (sa_expires_at a),
      sa_assurance_expires_at = map_option Aware (sa_assurance_expires_at a),
      sa_methods = sa_methods a, sa_traits = sa_traits a, sa_amr = sa_amr a\<rparr>"

lemma constructed_facts:
  assumes "constructed a"
  shows "valid_security_epoch (sa_security_epoch a)" "valid_identifier None (sa_session_id a)"
    "valid_identifier (Some session_binding_prefix) (sa_binding_id a)" "strict_text (sa_account_id a)"
    "sa_authenticated_at a < sa_expires_at a"
    "\<forall>t. sa_assurance_expires_at a = Some t \<longrightarrow> sa_authenticated_at a < t"
    "\<forall>m\<in>sa_methods a. trimmed m" "\<forall>m\<in>sa_traits a. trimmed m" "\<forall>m\<in>set (sa_amr a). trimmed m"
proof -
  obtain i where i: "session_authentication_post_init i = Inr a"
    using assms unfolding constructed_def by blast
  then show "valid_security_epoch (sa_security_epoch a)" "valid_identifier None (sa_session_id a)"
    "valid_identifier (Some session_binding_prefix) (sa_binding_id a)" "strict_text (sa_account_id a)"
    "sa_authenticated_at a < sa_expires_at a"
    "\<forall>t. sa_assurance_expires_at a = Some t \<longrightarrow> sa_authenticated_at a < t"
    by (auto simp: session_authentication_post_init_def bind_eq_Inr split: if_splits)
  obtain j e where e: "evidence_post_init j = Inr e" and
    a: "sa_methods a = ev_methods e" "sa_traits a = ev_traits e" "sa_amr a = ev_amr e"
    using i by (auto simp: session_authentication_post_init_def bind_eq_Inr split: if_splits)
  show "\<forall>m\<in>sa_methods a. trimmed m" "\<forall>m\<in>sa_traits a. trimmed m" "\<forall>m\<in>set (sa_amr a). trimmed m"
    using evidence_post_init_Inr [OF e] normalize_values_Inr collect_normalized a by metis+
qed

lemma evidence_accepted:
  assumes "trimmed mech" "trimmed sl" "\<forall>m\<in>methods. trimmed m" "\<forall>m\<in>traits. trimmed m"
    "\<forall>m\<in>set amr. trimmed m"
  shows "evidence_post_init
      \<lparr>in_mechanism = mech, in_slot = sl, in_authenticated_at = Aware t,
       in_expires_at = Some (Aware u), in_methods = methods, in_traits = traits, in_acr = None, in_amr = amr\<rparr> =
    Inr \<lparr>ev_mechanism = mech, ev_slot = sl, ev_authenticated_at = t, ev_expires_at = Some u,
       ev_methods = methods, ev_traits = traits, ev_acr = None, ev_amr = amr\<rparr>"
  using assms by (simp add: evidence_post_init_def optional_result_def normalize_datetime_def collect_trimmed)

lemma trimmed_names: "trimmed ''local''" "trimmed ''session''"
  by code_simp+

lemma constructed_again:
  assumes "constructed a"
  shows "session_authentication_post_init (aware_authentication a) = Inr a"
  using constructed_facts [OF assms] trimmed_names
  by (cases "sa_assurance_expires_at a")
    (auto simp: session_authentication_post_init_def aware_authentication_def optional_result_def
      evidence_accepted)

lemma decode_encode_authentication:
  assumes "constructed a" "finite (sa_methods a)" "finite (sa_traits a)" "dates_ok dates"
  shows "decode_authentication dates (Some (encode_authentication dates a)) = Some a"
proof -
  define d where "d =
     [(''version'', Py_Int 3), (''session_id'', Py_Text (sa_session_id a)),
      (''binding_id'', Py_Text (sa_binding_id a)), (''account_id'', Py_Text (sa_account_id a)),
      (''security_epoch'', Py_Int (sa_security_epoch a)),
      (''authenticated_at'', Py_Text (iso_write dates (sa_authenticated_at a))),
      (''expires_at'', Py_Text (iso_write dates (sa_expires_at a))),
      (''assurance_expires_at'',
        case sa_assurance_expires_at a of None \<Rightarrow> Py_None | Some t \<Rightarrow> Py_Text (iso_write dates t)),
      (''methods'', Py_List (map Py_Text (sorted_list_of_set (sa_methods a)))),
      (''traits'', Py_List (map Py_Text (sorted_list_of_set (sa_traits a)))),
      (''amr'', Py_List (map Py_Text (sa_amr a)))]"
  have texts: "field_text d ''session_id'' = Some (sa_session_id a)"
    "field_text d ''binding_id'' = Some (sa_binding_id a)" "field_text d ''account_id'' = Some (sa_account_id a)"
    by (simp_all add: field_text_def d_def text_of_def)
  have stamps: "field_time dates d ''authenticated_at'' = Some (Aware (sa_authenticated_at a))"
    "field_time dates d ''expires_at'' = Some (Aware (sa_expires_at a))"
    using assms(4) by (simp_all add: field_time_def field_text_def d_def text_of_def dates_ok_def)
  have assurance: "assurance_field dates 3 d = Some (map_option Aware (sa_assurance_expires_at a))"
    using assms(4)
    by (cases "sa_assurance_expires_at a")
      (simp_all add: assurance_field_def field_time_def field_text_def d_def text_of_def dates_ok_def)
  have lists: "assurance_fields 3 d =
      Some (sorted_list_of_set (sa_methods a), sorted_list_of_set (sa_traits a), sa_amr a)"
    by (simp add: assurance_fields_def field_texts_def d_def)
  have epoch: "dget d ''security_epoch'' = Some (Py_Int (sa_security_epoch a))"
    by (simp add: d_def)
  have "decode_fields dates 3 d = Some (aware_authentication a)"
    using assms(2,3) by (simp add: decode_fields_def texts stamps assurance lists epoch int_of_value_def
        aware_authentication_def)
  moreover have "payload_keys 3 = Some (set (map fst d))"
    by (simp add: payload_keys_def legacy_keys_def d_def insert_commute)
  moreover have "encode_authentication dates a = Py_Dict d"
    by (simp add: encode_authentication_def d_def)
  moreover have "dget d ''version'' = Some (Py_Int 3)"
    by (simp add: d_def)
  ultimately show ?thesis
    using constructed_again [OF assms(1)] by (simp add: decode_authentication_def)
qed

section \<open>The mechanism over a session map and an account map\<close>

text \<open>
  What the mechanism needs of its ports: reads answer the maps and leave them alone, creation adds
  the record it returns, a rebind replaces the prior record or reports that there was none, and a
  revocation removes exactly the named record of the named account.
\<close>

locale session_ports =
  fixes srv :: "('s, 'u) native_sessions"
    and sessions :: "'s \<Rightarrow> string \<Rightarrow> time user_session option"
    and accounts :: "'s \<Rightarrow> string \<Rightarrow> 'u account option"
  assumes get_found: "ns_get srv i s = (Inr (Some r), s') \<Longrightarrow> sessions s i = Some r"
    and get_keeps: "sessions (snd (ns_get srv i s)) = sessions s"
    and create_adds: "ns_create srv c e s = (Inr (Some r), s') \<Longrightarrow>
      sessions s' = (sessions s)(sc_session_id c \<mapsto> r)"
    and rebind_replaces: "ns_rebind srv i c e s = (Inr (Some r), s') \<Longrightarrow>
      sc_session_id c \<noteq> i \<and> sessions s' = (sessions s)(i := None, sc_session_id c \<mapsto> r)"
    and rebind_absent: "ns_rebind srv i c e s = (Inr None, s') \<Longrightarrow> sessions s i = None \<and> sessions s' = sessions s"
    and revoke_removes: "ns_revoke srv a i e s = (Inr done, s') \<Longrightarrow>
      (done \<longleftrightarrow> (\<exists>r. sessions s i = Some r \<and> us_account_id r = a)) \<and>
      sessions s' = (if done then (sessions s)(i := None) else sessions s)"
    and account_found: "ns_get_by_id srv k s = (Inr found, s') \<Longrightarrow> found = accounts s k"
    and account_keeps: "sessions (snd (ns_get_by_id srv k s)) = sessions s" "accounts (snd (ns_get_by_id srv k s)) = accounts s"
    and epoch_found: "ns_current_epoch srv k s = (Inr epoch, s') \<Longrightarrow> epoch = map_option acc_epoch (accounts s k)"
    and get_keeps_accounts: "accounts (snd (ns_get srv i s)) = accounts s"
    and environment_keeps: "sessions (snd (ns_clock srv s)) = sessions s" "accounts (snd (ns_clock srv s)) = accounts s"
      "sessions (snd (ns_entropy srv n s)) = sessions s" "sessions (snd (ns_event_ids srv s)) = sessions s"
    and no_resolver: "ns_resolver srv = None"
begin

lemma session_now_keeps:
  "session_now srv now s = (r, s') \<Longrightarrow> sessions s' = sessions s"
  "session_now srv None s = (r, s') \<Longrightarrow> accounts s' = accounts s"
  using environment_keeps(1,2) [of s]
  by (auto simp: session_now_def call_def split: prod.splits sum.splits option.splits)

lemma event_keeps: "native_event srv t operation outcome k s = (r, s') \<Longrightarrow> sessions s' = sessions s"
  using environment_keeps(4) [of s]
  by (auto simp: native_event_def call_def split: prod.splits sum.splits if_splits)

lemma entropy_keeps: "ns_entropy srv n s = (r, s') \<Longrightarrow> sessions s' = sessions s"
  using environment_keeps(3) [of n s] by simp

lemma issue_binding_keeps: "issue_binding srv s = (r, s') \<Longrightarrow> sessions s' = sessions s"
  by (auto simp: issue_binding_def call_def Let_def dest!: entropy_keeps split: prod.splits sum.splits if_splits)

lemma issue_command_keeps: "issue_command srv account t u metadata s = (r, s') \<Longrightarrow> sessions s' = sessions s"
  by (auto simp: issue_command_def call_def dest!: entropy_keeps issue_binding_keeps split: prod.splits sum.splits)

text \<open>What a request that logs in proves about the registry and the account it was read from.\<close>

lemma load_state_reads:
  assumes "load_session_state srv a s = (Inr st, s')"
  shows "sst_record st \<noteq> None \<Longrightarrow> sst_record st = sessions s (sa_session_id a)"
    and "sst_account st = accounts s (sa_account_id a)"
    and "sst_epoch st = map_option acc_epoch (accounts s (sa_account_id a))"
proof -
  obtain now s1 s2 s3 where now: "session_now srv None s = (Inr now, s1)"
    and got: "ns_get srv (sa_session_id a) s1 = (Inr (sst_record st), s2)"
    and account: "ns_get_by_id srv (sa_account_id a) s2 = (Inr (sst_account st), s3)"
    and epoch: "ns_current_epoch srv (sa_account_id a) s3 = (Inr (sst_epoch st), s')"
    using assms unfolding load_session_state_def no_resolver
    by (auto simp: run_ok)
  have keep: "accounts s1 = accounts s" "sessions s1 = sessions s" "accounts s2 = accounts s1" "accounts s3 = accounts s2"
    using session_now_keeps now get_keeps_accounts [of "sa_session_id a" s1] account_keeps(2) [of "sa_account_id a" s2]
      got account by (metis snd_conv)+
  then show "sst_record st = sessions s (sa_session_id a)" if "sst_record st \<noteq> None"
    using that got get_found [of "sa_session_id a" s1] by auto
  show "sst_account st = accounts s (sa_account_id a)"
    using account_found [OF account] keep by simp
  show "sst_epoch st = map_option acc_epoch (accounts s (sa_account_id a))"
    using epoch_found [OF epoch] keep by simp
qed

lemma authenticate_Ok:
  assumes "authenticate_session srv (a, p) (s, b) = (Inr (Auth_Ok login), w')"
  obtains r account now where "sessions s (sa_session_id a) = Some r" "accounts s (sa_account_id a) = Some account"
    "valid_current_state a p r account (Some (acc_epoch account)) now" "au_claims login = account"
    "session_evidence a = Inr (au_evidence login)" "snd w' = b"
proof -
  obtain st s' where load: "load_session_state srv a s = (Inr st, s')"
    using assms by (auto simp: authenticate_session_def split: prod.splits sum.splits)
  moreover obtain r account where found: "sst_record st = Some r" "sst_account st = Some account"
    "valid_current_state a p r account (sst_epoch st) (sst_now st)" "au_claims login = account"
    "session_evidence a = Inr (au_evidence login)" "snd w' = b"
    using assms load
    by (auto simp: authenticate_session_def bind_eq_Inr split: option.splits if_splits)
  ultimately show thesis
    using that [of r account "sst_now st"] load_state_reads [OF load] by auto
qed

lemma store_command_stores:
  assumes "store_command srv prior c t k s = (Inr (Some r), s')"
  shows "sessions s' (sc_session_id c) = Some r"
    and "prior = Some a \<Longrightarrow> sessions s' (sa_session_id a) \<noteq> None \<Longrightarrow> sa_session_id a = sc_session_id c"
proof -
  obtain event s1 found s2 where e1: "native_event srv t (if prior \<noteq> None then ''local.session.rebind'' else ''local.session.create'') ''created'' k s = (Inr event, s1)"
    and s2: "(case prior of Some p \<Rightarrow> ns_rebind srv (sa_session_id p) c event | None \<Rightarrow> ns_create srv c event) s1 = (Inr found, s2)"
    and rest: "(if found = None \<and> prior \<noteq> None
       then call (native_event srv t ''local.session.create'' ''created'' k) (ns_create srv c)
       else pure found) s2 = (Inr (Some r), s')"
    using assms unfolding store_command_def run_ok by blast
  show "sessions s' (sc_session_id c) = Some r"
  proof (cases "found = None \<and> prior \<noteq> None")
    case True
    then show ?thesis
      using rest by (auto simp: call_eq_Inr dest!: create_adds)
  next
    case False
    then show ?thesis
      using rest s2 create_adds [of c event s1 r s2] rebind_replaces [of _ c event s1 r s2]
      by (cases prior) auto
  qed
  show "sa_session_id a = sc_session_id c" if "prior = Some a" "sessions s' (sa_session_id a) \<noteq> None"
  proof (cases "found = None")
    case True
    then obtain e2 s3 where "native_event srv t ''local.session.create'' ''created'' k s2 = (Inr e2, s3)"
      "ns_create srv c e2 s3 = (Inr (Some r), s')"
      using rest \<open>prior = Some a\<close> by (auto simp: call_eq_Inr)
    moreover have "sessions s2 (sa_session_id a) = None"
      using rebind_absent [of "sa_session_id a" c event s1 s2] s2 \<open>prior = Some a\<close> True by simp
    ultimately show ?thesis
      using that(2) event_keeps [of t _ _ k s2] create_adds [of c e2 s3 r s'] by (auto split: if_splits)
  next
    case False
    then show ?thesis
      using rest s2 \<open>prior = Some a\<close> that(2) rebind_replaces [of "sa_session_id a" c event s1 r s2]
      by (auto split: if_splits)
  qed
qed

lemma logout_revokes:
  assumes "logout srv now (s, b) = (Verified revoked, (s', b'))" "current_authentication srv b = Some a"
  shows "sessions s' (sa_session_id a) = Some r \<Longrightarrow> us_account_id r \<noteq> sa_account_id a"
    and "b' = clear_local_state (ns_binding srv) b" "br_http b"
proof -
  obtain session where session: "writable_http_session b = Some session"
    using assms(1) by (auto simp: logout_def split: option.splits)
  then have "decode_authentication (ns_iso srv) (dget session session_authentication_key) = Some a"
    using assms(2) by (auto simp: current_authentication_def writable_http_session_def split: if_splits)
  then have run: "sanitized (call (session_now srv now) (\<lambda>occurred_at.
       call (native_event srv occurred_at ''local.session.logout'' ''revoked'' (sa_account_id a)) (\<lambda>event.
       call (ns_revoke srv (sa_account_id a) (sa_session_id a) event) (\<lambda>revoked. pure (Verified revoked))))) s =
      (Verified revoked, s')"
    and "b' = clear_local_state (ns_binding srv) b"
    using assms(1) session by (auto simp: logout_def Let_def split: prod.splits)
  then show "b' = clear_local_state (ns_binding srv) b"
    by simp
  obtain e s1 where "ns_revoke srv (sa_account_id a) (sa_session_id a) e s1 = (Inr revoked, s')"
    using run by (auto simp: sanitized_Verified run_ok)
  from revoke_removes [OF this] show "us_account_id r \<noteq> sa_account_id a" if "sessions s' (sa_session_id a) = Some r"
    using that by (auto split: if_splits)
  show "br_http b"
    using session by (simp add: writable_http_session_def split: if_splits)
qed

end

section \<open>The cookie and the payload come back\<close>

lemma issue_binding_read:
  assumes "issue_binding srv s = (Inr (token, prf1), s')"
  shows "read_binding srv (Some token) = Inr (Some prf1)"
proof -
  obtain lookup secret where len: "length lookup = lookup_bytes" "length secret = secret_bytes"
    and made: "binding_proof_post_init
      \<lparr>bp_binding_id = session_binding_prefix @ encode_random lookup,
       bp_digest = binding_digest srv (session_binding_prefix @ encode_random lookup) secret\<rparr> = Inr prf1"
    and token: "token = (session_binding_prefix @ encode_random lookup) @ CHR ''.'' # encode_random secret"
    using assms by (auto simp: issue_binding_def run_ok Let_def simp del: call_lift split: if_splits)
  have "CHR ''.'' \<notin> set (session_binding_prefix @ encode_random lookup)"
    using encode_random_chars by (auto simp: session_binding_prefix_def)
  then have "partition_at (CHR ''.'') token = (session_binding_prefix @ encode_random lookup, True, encode_random secret)"
    unfolding token by (rule partition_at_append)
  moreover have "decode_random (encode_random secret) secret_bytes = Some secret"
    using len by (simp add: decode_random_iff)
  moreover have "valid_identifier (Some session_binding_prefix) (session_binding_prefix @ encode_random lookup)"
    using made by (simp add: binding_proof_post_init_def split: if_splits)
  moreover have "length token = length session_binding_prefix + 22 + 1 + secret_characters"
    using len by (simp add: token length_encode_random width_defs)
  ultimately show ?thesis
    using made by (simp add: read_binding_def)
qed

text \<open>What a browser sends next: its session, and its cookies after the queued ones are applied.\<close>

definition apply_cookie :: "binding_cookie \<Rightarrow> (string, string) dict \<Rightarrow> (string, string) dict" where
  "apply_cookie c jar = (if bc_max_age c \<le> 0 then ddel (bc_name c) jar else dset (bc_name c) (bc_value c) jar)"

definition returning :: "browser \<Rightarrow> browser" where
  "returning b = b\<lparr>br_cookies := fold apply_cookie (br_queued b) (br_cookies b), br_queued := []\<rparr>"

lemma issue_command_parts:
  assumes "issue_command srv account t u metadata s = (Inr (token, c), s')"
  obtains prf1 s1 where "issue_binding srv s = (Inr (token, prf1), s1)"
    "sc_binding_id c = bp_binding_id prf1" "sc_binding_digest c = bp_digest prf1"
    "sc_account_id c = acc_id account" "sc_security_epoch c = acc_epoch account" "sc_authenticated_at c = u"
    "sc_expires_at c = t + seconds (sb_max_age (ns_binding srv))"
  using assms
  by (auto simp: issue_command_def run_ok session_command_post_init_def bind_eq_Inr simp del: call_lift split: if_splits)

lemma establish_Verified:
  assumes "establish srv account ev metadata now (s, b) = (Inr (Verified a), (s', b'))"
  obtains session t s1 token c s2 r where "br_http b" "br_session b = Some session" "valid_login_account account"
    "session_now srv now s = (Inr t, s1)"
    "issue_command srv account t (case ev of Some e \<Rightarrow> ev_authenticated_at e | None \<Rightarrow> t) metadata s1 =
      (Inr (token, c), s2)"
    "store_command srv (decode_authentication (ns_iso srv) (dget session session_authentication_key)) c t
      (acc_id account) s2 = (Inr (Some r), s')"
    "record_matches_command r c" "established_authentication c ev t = Inr a"
    "b' = reveal_session srv (preserved_items (sb_preserve (ns_binding srv)) session) a token b"
proof -
  obtain session where session: "writable_http_session b = Some session" and valid: "valid_login_account account"
    using assms by (auto simp: establish_def split: option.splits if_splits)
  let ?prior = "decode_authentication (ns_iso srv) (dget session session_authentication_key)"
  let ?m = "call (session_now srv now) (\<lambda>occurred_at.
      call (issue_command srv account occurred_at
        (case ev of Some e \<Rightarrow> ev_authenticated_at e | None \<Rightarrow> occurred_at) metadata) (\<lambda>(token, command).
      call (store_command srv ?prior command occurred_at (acc_id account)) (\<lambda>record.
        pure (occurred_at, token, command, record))))"
  obtain t token c found s3 where run: "?m s = (Inr (t, token, c, found), s3)"
    using assms session valid by (auto simp: establish_def split: prod.splits sum.splits)
  have rest: "\<exists>r. found = Some r \<and> record_matches_command r c" "established_authentication c ev t = Inr a"
    "s3 = s'" "b' = reveal_session srv (preserved_items (sb_preserve (ns_binding srv)) session) a token b"
    using assms session valid run by (auto simp: establish_def split: option.splits sum.splits if_splits)
  obtain s1 s2 where "session_now srv now s = (Inr t, s1)"
    "issue_command srv account t (case ev of Some e \<Rightarrow> ev_authenticated_at e | None \<Rightarrow> t) metadata s1 =
      (Inr (token, c), s2)"
    "store_command srv ?prior c t (acc_id account) s2 = (Inr found, s3)"
    using run by (auto simp: run_ok)
  then show thesis
    using that rest session valid by (auto simp: writable_http_session_def split: if_splits)
qed

lemma collect_set_finite: "collect_set f A = Inr B \<Longrightarrow> finite A \<Longrightarrow> finite B"
  by (auto simp: collect_set_def split: if_splits)

lemma session_authentication_post_init_Inr:
  assumes "session_authentication_post_init i = Inr a"
  shows "constructed a" "sa_session_id a = sa_session_id i" "sa_binding_id a = sa_binding_id i"
    "sa_account_id a = sa_account_id i" "sa_security_epoch a = sa_security_epoch i"
    "sa_authenticated_at i = Aware (sa_authenticated_at a)" "sa_expires_at i = Aware (sa_expires_at a)"
    "finite (sa_methods i) \<Longrightarrow> finite (sa_methods a)" "finite (sa_traits i) \<Longrightarrow> finite (sa_traits a)"
proof -
  show "constructed a"
    using assms unfolding constructed_def by blast
  obtain t u where "aware_utc_time (sa_authenticated_at i) = Inr t" "aware_utc_time (sa_expires_at i) = Inr u"
    "sa_authenticated_at a = t" "sa_expires_at a = u"
    and same: "sa_session_id a = sa_session_id i" "sa_binding_id a = sa_binding_id i"
    "sa_account_id a = sa_account_id i" "sa_security_epoch a = sa_security_epoch i"
    using assms by (auto simp: session_authentication_post_init_def bind_eq_Inr split: if_splits)
  then show "sa_authenticated_at i = Aware (sa_authenticated_at a)" "sa_expires_at i = Aware (sa_expires_at a)"
    by (cases "sa_authenticated_at i"; cases "sa_expires_at i"; simp)+
  show "sa_session_id a = sa_session_id i" "sa_binding_id a = sa_binding_id i"
    "sa_account_id a = sa_account_id i" "sa_security_epoch a = sa_security_epoch i"
    by (fact same)+
  obtain j e where e: "evidence_post_init j = Inr e"
    and parts: "sa_methods a = ev_methods e" "sa_traits a = ev_traits e"
      "in_methods j = sa_methods i" "in_traits j = sa_traits i"
    using assms by (auto simp: session_authentication_post_init_def bind_eq_Inr split: if_splits)
  show "finite (sa_methods a)" if "finite (sa_methods i)"
    using that evidence_post_init_Inr(5) [OF e] collect_set_finite unfolding normalize_values_def parts by blast
  show "finite (sa_traits a)" if "finite (sa_traits i)"
    using that evidence_post_init_Inr(6) [OF e] collect_set_finite unfolding normalize_values_def parts by blast
qed

lemma established_fields:
  assumes "established_authentication c ev t = Inr a"
  shows "constructed a" "sa_session_id a = sc_session_id c" "sa_binding_id a = sc_binding_id c"
    "sa_account_id a = sc_account_id c" "sa_security_epoch a = sc_security_epoch c"
    "sa_authenticated_at a = (case ev of Some e \<Rightarrow> ev_authenticated_at e | None \<Rightarrow> t)"
    "sa_expires_at a = sc_expires_at c"
  using session_authentication_post_init_Inr [OF assms [unfolded established_authentication_def]] by simp_all

lemma established_finite:
  assumes "established_authentication c ev t = Inr a"
    "\<And>e. ev = Some e \<Longrightarrow> finite (ev_methods e) \<and> finite (ev_traits e)"
  shows "finite (sa_methods a)" "finite (sa_traits a)"
  using session_authentication_post_init_Inr(8,9) [OF assms(1) [unfolded established_authentication_def]] assms(2)
  by (auto split: option.splits)

lemma reveal_returns:
  assumes "br_http b" "0 < sb_max_age (ns_binding srv)"
  shows "br_session (returning (reveal_session srv session a token b)) =
      Some (dset session_authentication_key (encode_authentication (ns_iso srv) a) session)"
    and "dget (br_cookies (returning (reveal_session srv session a token b))) (sb_cookie_name (ns_binding srv)) = Some token"
    and "br_http (returning (reveal_session srv session a token b))"
  using assms
  by (simp_all add: returning_def reveal_session_def queue_binding_cookie_def queue_cookie_def make_cookie_def
      apply_cookie_def dict_simps)

lemma extract_established:
  assumes "establish srv account ev metadata now (s, b) = (Inr (Verified a), (s', b'))"
    "dates_ok (ns_iso srv)" "0 < sb_max_age (ns_binding srv)"
    "\<And>e. ev = Some e \<Longrightarrow> finite (ev_methods e) \<and> finite (ev_traits e)"
  obtains p t s1 s2 token c r where
    "extract_session srv (returning b') = (Inr (Presented (a, p)), returning b')"
    "session_now srv now s = (Inr t, s1)"
    "issue_command srv account t (case ev of Some e \<Rightarrow> ev_authenticated_at e | None \<Rightarrow> t) metadata s1 =
      (Inr (token, c), s2)"
    "store_command srv (current_authentication srv b) c t (acc_id account) s2 = (Inr (Some r), s')"
    "record_matches_command r c" "established_authentication c ev t = Inr a"
    "sc_binding_id c = bp_binding_id p" "sc_binding_digest c = bp_digest p" "valid_login_account account"
    "sc_account_id c = acc_id account" "sc_security_epoch c = acc_epoch account"
    "sc_authenticated_at c = sa_authenticated_at a"
proof -
  obtain session t s1 token c s2 r where e: "br_http b" "br_session b = Some session" "valid_login_account account"
    "session_now srv now s = (Inr t, s1)"
    "issue_command srv account t (case ev of Some e \<Rightarrow> ev_authenticated_at e | None \<Rightarrow> t) metadata s1 =
      (Inr (token, c), s2)"
    "store_command srv (decode_authentication (ns_iso srv) (dget session session_authentication_key)) c t
      (acc_id account) s2 = (Inr (Some r), s')"
    "record_matches_command r c" "established_authentication c ev t = Inr a"
    and b': "b' = reveal_session srv (preserved_items (sb_preserve (ns_binding srv)) session) a token b"
    using assms(1) by (rule establish_Verified)
  obtain p s3 where p: "issue_binding srv s1 = (Inr (token, p), s3)"
    "sc_binding_id c = bp_binding_id p" "sc_binding_digest c = bp_digest p"
    "sc_account_id c = acc_id account" "sc_security_epoch c = acc_epoch account"
    "sc_authenticated_at c = (case ev of Some e \<Rightarrow> ev_authenticated_at e | None \<Rightarrow> t)"
    using e(5) by (rule issue_command_parts)
  have "decode_authentication (ns_iso srv) (Some (encode_authentication (ns_iso srv) a)) = Some a"
    using established_fields(1) [OF e(8)] established_finite [OF e(8) assms(4)] assms(2)
    by (intro decode_encode_authentication)
  moreover have "encode_authentication (ns_iso srv) a \<noteq> Py_None"
    by (simp add: encode_authentication_def)
  then have "stored_payload (returning b') = Some (encode_authentication (ns_iso srv) a)"
    unfolding b' stored_payload_def reveal_returns(1) [OF e(1) assms(3)]
    by (simp add: dict_simps split: py_value.splits)
  ultimately have "extract_session srv (returning b') = (Inr (Presented (a, p)), returning b')"
    using reveal_returns(2) [OF e(1) assms(3)] issue_binding_read [OF p(1)]
    by (simp add: extract_session_def b' Let_def)
  then show thesis
    using that e p established_fields(6) [OF e(8)] by (simp add: current_authentication_def)
qed

section \<open>The mechanism on the in-memory store\<close>

text \<open>
  \<^verbatim>\<open>NativeSessionAuth\<close> with \<^verbatim>\<open>InMemoryLocalAccountStore\<close> as its port: entropy and event identifiers
  come from the shared backend, every clock reading of a call is the given one.
\<close>

definition backend_port :: "(backend \<Rightarrow> 'a result \<times> backend) \<Rightarrow> ('u world, 'a) port" where
  "backend_port f w = (case f (fst w) of (r, b) \<Rightarrow> (r, (b, snd w)))"

definition memory_native ::
  "session_binding_config \<Rightarrow> iso_text \<Rightarrow> hmac_function \<Rightarrow> (nat \<Rightarrow> bytes) option \<Rightarrow> (string \<Rightarrow> nat \<Rightarrow> string) \<Rightarrow>
     py_datetime \<Rightarrow> ('u world, 'u) native_sessions" where
  "memory_native binding dates hmac source ids clock =
     \<lparr>ns_create = \<lambda>c event. call (create_session c) (\<lambda>r. pure (Some r)),
      ns_rebind = \<lambda>i c event. rebind_session i c,
      ns_get = \<lambda>i. on_store (reading (get_session clock i)),
      ns_list = \<lambda>k. on_store (reading (list_sessions clock k)),
      ns_touch = \<lambda>i t. call (touch_session clock i t) (\<lambda>_. pure ()),
      ns_revoke = \<lambda>k i event. revoke_session_for_account k i,
      ns_get_by_id = \<lambda>k. on_store (reading (\<lambda>s. Inr (get_by_id k s))),
      ns_current_epoch = \<lambda>k. on_store (reading (\<lambda>s. Inr (current_epoch k s))),
      ns_resolver = None, ns_binding = binding, ns_iso = dates, ns_hmac = hmac, ns_clock = pure clock,
      ns_entropy = \<lambda>n. backend_port (entropy source (int n)),
      ns_event_ids = backend_port (next_identifier ids ''event'')\<rparr>"

lemma memory_native_simps [simp]:
  "ns_binding (memory_native binding dates hmac source ids clock) = binding"
  "ns_iso (memory_native binding dates hmac source ids clock) = dates"
  "ns_resolver (memory_native binding dates hmac source ids clock) = None"
  "ns_clock (memory_native binding dates hmac source ids clock) = pure clock"
  by (simp_all add: memory_native_def)

lemma observed_store_Inr:
  assumes "observed operation details (on_store f) w = (Inr r, w')"
  shows "f (snd w) = (Inr r, snd w')"
  using assms by (auto simp: observed_def on_store_def split: prod.splits sum.splits)

lemma do_create_session_Inr:
  assumes "do_create_session c s = (Inr r, s')"
  shows "registry s' = (registry s)(sc_session_id c \<mapsto> r)" "st_accounts s' = st_accounts s"
  using assms user_session_post_init_id [of "session_of_command c" r]
  by (auto simp: do_create_session_def registry_def session_of_command_def fun_eq_iff dict_simps
      split: sum.splits if_splits)

lemma do_rebind_Inr:
  assumes "do_rebind i c s = (Inr found, s')"
  shows "found = Some r \<Longrightarrow> sc_session_id c \<noteq> i \<and> registry s' = (registry s)(i := None, sc_session_id c \<mapsto> r)"
    and "found = None \<Longrightarrow> registry s i = None \<and> registry s' = registry s"
    and "st_accounts s' = st_accounts s"
  using assms user_session_post_init_id [of "session_of_command c" r]
  by (auto simp: do_rebind_def registry_def session_of_command_def fun_eq_iff dict_simps Let_def
      split: sum.splits if_splits)

lemma do_revoke_session_Inr:
  assumes "do_revoke_session k i s = (Inr revoked, s')"
  shows "revoked \<longleftrightarrow> (\<exists>r. registry s i = Some r \<and> us_account_id r = k)"
    and "registry s' = (if revoked then (registry s)(i := None) else registry s)"
  using assms
  by (auto simp: do_revoke_session_def registry_def fun_eq_iff dict_simps split: option.splits if_splits)

lemma get_session_found: "get_session clock i s = Inr (Some r) \<Longrightarrow> registry s i = Some r"
  by (auto simp: get_session_def registry_def bind_eq_Inr split: option.splits if_splits)

lemma memory_ports:
  "ns_create (memory_native binding dates hmac source ids clock) c e w = (Inr (Some r), w') \<Longrightarrow>
     do_create_session c (snd w) = (Inr r, snd w')"
  "ns_rebind (memory_native binding dates hmac source ids clock) i c e w = (Inr found, w') \<Longrightarrow>
     do_rebind i c (snd w) = (Inr found, snd w')"
  "ns_revoke (memory_native binding dates hmac source ids clock) k i e w = (Inr revoked, w') \<Longrightarrow>
     do_revoke_session k i (snd w) = (Inr revoked, snd w')"
  unfolding memory_native_def create_session_def rebind_session_def revoke_session_for_account_def
  by (auto simp: run_ok dest: observed_store_Inr)

lemma memory_reads [simp]:
  "ns_get (memory_native binding dates hmac source ids clock) i w = (get_session clock i (snd w), w)"
  "ns_list (memory_native binding dates hmac source ids clock) k w = (list_sessions clock k (snd w), w)"
  "ns_get_by_id (memory_native binding dates hmac source ids clock) k w = (Inr (get_by_id k (snd w)), w)"
  "ns_current_epoch (memory_native binding dates hmac source ids clock) k w = (Inr (current_epoch k (snd w)), w)"
  by (simp_all add: memory_native_def on_store_def reading_def)

lemma memory_environment [simp]:
  "snd (snd (ns_entropy (memory_native binding dates hmac source ids clock) n w)) = snd w"
  "snd (snd (ns_event_ids (memory_native binding dates hmac source ids clock) w)) = snd w"
  by (simp_all add: memory_native_def backend_port_def split: prod.splits)

lemmas memory_create = memory_ports(1) [THEN do_create_session_Inr(1)]

lemma memory_rebind:
  assumes "ns_rebind (memory_native binding dates hmac source ids clock) i c e w = (Inr found, w')"
  shows "found = Some r \<Longrightarrow> sc_session_id c \<noteq> i \<and>
      registry (snd w') = (registry (snd w))(i := None, sc_session_id c \<mapsto> r)"
    and "found = None \<Longrightarrow> registry (snd w) i = None \<and> registry (snd w') = registry (snd w)"
  using do_rebind_Inr(1,2) [OF memory_ports(2) [OF assms]] by blast+

lemma memory_revoke:
  assumes "ns_revoke (memory_native binding dates hmac source ids clock) k i e w = (Inr revoked, w')"
  shows "(revoked \<longleftrightarrow> (\<exists>r. registry (snd w) i = Some r \<and> us_account_id r = k)) \<and>
      registry (snd w') = (if revoked then (registry (snd w))(i := None) else registry (snd w))"
  using do_revoke_session_Inr [OF memory_ports(3) [OF assms]] by blast

interpretation memory_sessions: session_ports "memory_native binding dates hmac source ids clock"
  "\<lambda>w. registry (snd w)" "\<lambda>w k. get_by_id k (snd w)"
  by unfold_locales
    ((erule memory_create memory_revoke memory_rebind(1) [OF _ refl] memory_rebind(2) [OF _ refl]) |
     (auto simp: get_session_found current_epoch_def get_by_id_def)[1])+

section \<open>Every request is checked\<close>

lemma extract_session_cong:
  assumes "ns_binding s1 = ns_binding s2" "ns_iso s1 = ns_iso s2" "ns_hmac s1 = ns_hmac s2"
  shows "extract_session s1 = extract_session s2"
proof -
  have digest: "binding_digest s1 = binding_digest s2"
    using assms by (intro ext) (simp add: binding_digest_def)
  show ?thesis
    unfolding extract_session_def [abs_def] read_binding_def [abs_def] digest assms ..
qed

lemma session_evidence_total:
  assumes "constructed a"
  shows "\<exists>e. session_evidence a = Inr e"
  using constructed_facts(7-9) [OF assms] trimmed_names(2)
  by (auto simp: session_evidence_def evidence_accepted split: option.splits)

lemma decode_constructed: "decode_authentication dates x = Some a \<Longrightarrow> constructed a"
  by (auto simp: decode_authentication_def constructed_def split: option.splits py_value.splits sum.splits if_splits)

lemma memory_state:
  "load_session_state (memory_native binding dates hmac source ids (Aware t)) a w =
     (Inr \<lparr>sst_now = t,
        sst_record = (case registry (snd w) (sa_session_id a) of
          Some r \<Rightarrow> if t < us_expires_at r then Some r else None | None \<Rightarrow> None),
        sst_account = get_by_id (sa_account_id a) (snd w),
        sst_epoch = map_option acc_epoch (get_by_id (sa_account_id a) (snd w))\<rparr>, w)"
  by (simp add: load_session_state_def session_now_def call_def get_session_def registry_def current_epoch_def
      get_by_id_def backend_clock_def split: option.splits)

lemma memory_authenticates_iff:
  assumes "constructed a"
  shows "(\<exists>login w'. authenticate_session (memory_native binding dates hmac source ids (Aware t)) (a, p) (w, b) =
        (Inr (Auth_Ok login), w')) \<longleftrightarrow>
    (\<exists>r account. registry (snd w) (sa_session_id a) = Some r \<and> get_by_id (sa_account_id a) (snd w) = Some account \<and>
       valid_current_state a p r account (Some (acc_epoch account)) t)"
    (is "?l \<longleftrightarrow> ?r")
proof
  assume ?l
  then obtain login w' where ok: "authenticate_session (memory_native binding dates hmac source ids (Aware t)) (a, p) (w, b) =
        (Inr (Auth_Ok login), w')"
    by blast
  then show ?r
    by (auto simp: authenticate_session_def memory_state split: option.splits if_splits)
next
  assume ?r
  then show ?l
    using session_evidence_total [OF assms]
    by (auto simp: authenticate_session_def memory_state valid_current_state_def)
qed

lemma memory_authenticated:
  assumes "authenticate_session (memory_native binding dates hmac source ids (Aware t)) (a, p) (w, b) =
        (Inr (Auth_Ok login), w')"
  shows "get_by_id (sa_account_id a) (snd w) = Some (au_claims login)" "session_evidence a = Inr (au_evidence login)"
  using assms
  by (auto simp: authenticate_session_def memory_state bind_eq_Inr split: option.splits if_splits)

section \<open>Properties\<close>

lemma valid_current_state_spelled:
  "valid_current_state a p r account (Some (acc_epoch account)) t \<longleftrightarrow>
     us_expires_at r > t \<and> us_expires_at r = sa_expires_at a \<and> us_session_id r = sa_session_id a \<and>
       bp_binding_id p = us_binding_id r \<and> bp_digest p = us_binding_digest r \<and> sa_binding_id a = us_binding_id r \<and>
       us_authenticated_at r = sa_authenticated_at a \<and>
       acc_id account = us_account_id r \<and> us_account_id r = sa_account_id a \<and> strict_text (acc_id account) \<and>
       acc_epoch account = us_security_epoch r \<and> us_security_epoch r = sa_security_epoch a \<and>
       valid_security_epoch (acc_epoch account) \<and> acc_active account \<and> acc_verified account"
  by (auto simp: valid_current_state_def valid_login_account_def)

text \<open>C13: A native session is checked on every request against the registry and the account: over the
  in-memory store a credential logs in exactly when its session is registered and unexpired; the presented
  cookie's binding id and its digest are the record's; session id, account, binding id, epoch, authentication
  time and expiry in the payload are the record's; and the account is stored, active and verified and still
  at that epoch. The login is then the account as stored, whatever the payload says.\<close>

theorem native_session_checked_every_request:
  fixes w :: "'u world"
  assumes "decode_authentication dates payload = Some a"
  shows "((\<exists>login w'. authenticate_session (memory_native binding dates hmac source ids (Aware t)) (a, p) (w, b) =
        (Inr (Auth_Ok login), w')) \<longleftrightarrow>
    (\<exists>r account. registry (snd w) (sa_session_id a) = Some r \<and> get_by_id (sa_account_id a) (snd w) = Some account \<and>
       us_expires_at r > t \<and> us_expires_at r = sa_expires_at a \<and> us_session_id r = sa_session_id a \<and>
       bp_binding_id p = us_binding_id r \<and> bp_digest p = us_binding_digest r \<and> sa_binding_id a = us_binding_id r \<and>
       us_authenticated_at r = sa_authenticated_at a \<and>
       acc_id account = us_account_id r \<and> us_account_id r = sa_account_id a \<and> strict_text (acc_id account) \<and>
       acc_epoch account = us_security_epoch r \<and> us_security_epoch r = sa_security_epoch a \<and>
       valid_security_epoch (acc_epoch account) \<and> acc_active account \<and> acc_verified account)) \<and>
    (\<forall>login w'. authenticate_session (memory_native binding dates hmac source ids (Aware t)) (a, p) (w, b) =
        (Inr (Auth_Ok login), w') \<longrightarrow> get_by_id (sa_account_id a) (snd w) = Some (au_claims login))"
  by (rule conjI [OF memory_authenticates_iff [OF decode_constructed [OF assms], unfolded valid_current_state_spelled]])
    (blast dest: memory_authenticated(1))

text \<open>C14: What \<^verbatim>\<open>establish\<close> returns is what the next requests prove: the browser that keeps the
  rewritten session and the new binding cookie presents the established authentication, and logs in
  as its account for as long as the record stays registered, the account unchanged and the session
  unexpired.\<close>

theorem established_session_logs_in:
  fixes w :: "'u world"
  assumes "establish (memory_native binding dates hmac source ids clock) account ev metadata now (w, b) =
      (Inr (Verified a), (w', b'))"
    "dates_ok dates" "0 < sb_max_age binding" "\<And>e. ev = Some e \<Longrightarrow> finite (ev_methods e) \<and> finite (ev_traits e)"
    "registry (snd later) (sa_session_id a) = registry (snd w') (sa_session_id a)"
    "get_by_id (acc_id account) (snd later) = Some account" "t < sa_expires_at a"
  shows "\<exists>p login w''. extract_session (memory_native binding dates hmac source ids (Aware t) :: ('u world, 'u) native_sessions) (returning b') =
        (Inr (Presented (a, p)), returning b') \<and>
      authenticate_session (memory_native binding dates hmac source ids (Aware t)) (a, p) (later, returning b') =
        (Inr (Auth_Ok login), w'') \<and>
      au_claims login = account"
proof -
  let ?srv = "\<lambda>clock. memory_native binding dates hmac source ids clock :: ('u world, 'u) native_sessions"
  have same: "extract_session (?srv (Aware t)) = extract_session (?srv clock)"
    by (rule extract_session_cong) (simp_all add: memory_native_def)
  obtain p t0 s1 s2 token c r where e:
    "extract_session (?srv clock) (returning b') = (Inr (Presented (a, p)), returning b')"
    "session_now (?srv clock) now w = (Inr t0, s1)"
    "issue_command (?srv clock) account t0 (case ev of Some e \<Rightarrow> ev_authenticated_at e | None \<Rightarrow> t0) metadata s1 =
      (Inr (token, c), s2)"
    "store_command (?srv clock) (current_authentication (?srv clock) b) c t0 (acc_id account) s2 = (Inr (Some r), w')"
    "record_matches_command r c" "established_authentication c ev t0 = Inr a"
    "sc_binding_id c = bp_binding_id p" "sc_binding_digest c = bp_digest p" "valid_login_account account"
    "sc_account_id c = acc_id account" "sc_security_epoch c = acc_epoch account"
    "sc_authenticated_at c = sa_authenticated_at a"
    by (rule extract_established [OF assms(1) _ _ assms(4)]) (use assms(2,3) in simp_all)
  note a = established_fields [OF e(6)]
  have "registry (snd w') (sa_session_id a) = Some r"
    using memory_sessions.store_command_stores(1) [OF e(4)] a by simp
  moreover have "valid_current_state a p r account (Some (acc_epoch account)) t"
    using e a assms(7) by (simp add: valid_current_state_def record_matches_command_def)
  ultimately obtain login w'' where "authenticate_session (?srv (Aware t)) (a, p) (later, returning b') = (Inr (Auth_Ok login), w'')"
    using memory_authenticates_iff [OF a(1), of binding dates hmac source ids t p later "returning b'"]
      assms(5,6) a(4) e(10) by auto
  moreover from memory_authenticated(1) [OF this] have "au_claims login = account"
    using assms(6) a(4) e(10) by simp
  ultimately show ?thesis
    using e(1) unfolding same by blast
qed

text \<open>C15: Logging out ends the session on both sides: the browser is left with neither payload nor
  binding cookie, so its next request presents no credential, and a copy of the credential kept
  elsewhere no longer authenticates, whatever proof accompanies it and whatever the time.\<close>

theorem logout_ends_session:
  fixes w :: "'u world"
  assumes "logout (memory_native binding dates hmac source ids clock) now (w, b) = (Verified revoked, (w', b'))"
    "current_authentication (memory_native binding dates hmac source ids clock :: ('u world, 'u) native_sessions) b = Some a"
  shows "extract_session (memory_native binding dates hmac source ids (Aware t) :: ('u world, 'u) native_sessions) (returning b') =
      (Inr No_Credential, returning b') \<and>
    authenticate_session (memory_native binding dates hmac source ids (Aware t)) (a, p) (w', copy) \<noteq>
      (Inr (Auth_Ok login), w'')"
proof -
  note out = memory_sessions.logout_revokes [OF assms]
  have "stored_payload (returning b') = None \<and>
      dget (br_cookies (returning b')) (sb_cookie_name binding) = None"
    using out(3)
    by (cases "br_session b") (simp_all add: out(2) clear_local_state_def returning_def queue_cookie_def
        stored_payload_def make_cookie_def apply_cookie_def dict_simps)
  then have "extract_session (memory_native binding dates hmac source ids (Aware t) :: ('u world, 'u) native_sessions) (returning b') =
      (Inr No_Credential, returning b')"
    by (simp add: extract_session_def read_binding_def)
  moreover have "authenticate_session (memory_native binding dates hmac source ids (Aware t)) (a, p) (w', copy) \<noteq>
      (Inr (Auth_Ok login), w'')"
    using memory_sessions.authenticate_Ok [of binding dates hmac source ids "Aware t" a p w' copy login w''] out(1)
    by (auto simp: valid_current_state_def)
  ultimately show ?thesis
    by blast
qed

section \<open>The properties on one browser\<close>

definition example_dates :: iso_text where
  "example_dates = \<lparr>iso_write = show_int, iso_read = \<lambda>s. map_option Aware (read_int s)\<rparr>"

definition example_binding :: session_binding_config where
  "example_binding = \<lparr>sb_pepper = replicate 32 1, sb_cookie_name = ''binding'', sb_secure = True, sb_same_site = ''lax'',
     sb_path = ''/'', sb_domain = None, sb_max_age = 60, sb_touch_interval = seconds 10, sb_preserve = [''theme''],
     sb_allow_insecure = False\<rparr>"

definition example_browser :: browser where
  "example_browser = \<lparr>br_http = True, br_session = Some [(''theme'', Py_Text ''dark''), (''cart'', Py_Int 3)],
     br_cookies = [], br_queued = []\<rparr>"

definition example_member :: "unit account" where
  "example_member = \<lparr>acc_id = ''u1'', acc_identifier = ''u1@example.org'', acc_display_name = None, acc_active = True,
     acc_verified = True, acc_epoch = 1, acc_user = None\<rparr>"

definition example_native :: "py_datetime \<Rightarrow> (unit world, unit) native_sessions" where
  "example_native = memory_native example_binding example_dates (\<lambda>_ _. replicate 32 7) (Some (\<lambda>n. replicate n 1))
     (\<lambda>n i. ''event'')"

definition example_members :: "unit world" where
  "example_members = (empty_backend, empty_store\<lparr>st_accounts := [(''u1'', example_member)]\<rparr>)"

definition example_create_command :: "time session_command" where
  "example_create_command =
     \<lparr>sc_session_id = encode_random (replicate 32 1), sc_binding_id = session_binding_prefix @ encode_random (replicate 16 1),
      sc_binding_digest = replicate 32 7, sc_account_id = ''u1'', sc_security_epoch = 1, sc_created_at = 5,
      sc_authenticated_at = 5, sc_expires_at = 5 + seconds 60, sc_display_metadata = []\<rparr>"

definition example_token :: string where
  "example_token = (session_binding_prefix @ encode_random (replicate 16 1)) @ CHR ''.'' # encode_random (replicate 32 1)"

lemma example_strip: "strict_text ''event''" "strip ''event'' = ''event''" "strict_text ''u1''"
  by code_simp+

lemma example_native_simps [simp]:
  "ns_entropy (example_native clock) n w = (if n = 0 then Inl ValueError else Inr (replicate n 1), w)"
  "ns_event_ids (example_native clock) w =
     (Inr ''event'', (fst w)\<lparr>identifier_sequence := identifier_sequence (fst w) + 1\<rparr>, snd w)"
  "binding_digest (example_native clock) i secret = replicate 32 7"
  "ns_binding (example_native clock) = example_binding" "ns_iso (example_native clock) = example_dates"
  "session_now (example_native (Aware t)) None w = (Inr t, w)"
  using example_strip
  by (simp_all add: example_native_def memory_native_def backend_port_def entropy_def next_identifier_def
      binding_digest_def session_now_def Let_def)

lemma example_identifiers:
  "valid_identifier None (encode_random (replicate 32 n))"
  "valid_identifier (Some session_binding_prefix) (session_binding_prefix @ encode_random (replicate 16 n))"
proof -
  show "valid_identifier None (encode_random (replicate 32 n))"
    using strict_text_append_encoded [of "replicate 32 n" "[]"]
    by (auto simp: valid_identifier_def decode_random_iff session_id_bytes_def intro!: exI [of _ "replicate 32 n"])
  show "valid_identifier (Some session_binding_prefix) (session_binding_prefix @ encode_random (replicate 16 n))"
    unfolding valid_identifier_prefix_iff
    by (rule exI [of _ "replicate 16 n"]) (simp add: lookup_bytes_def)
qed

lemma example_issue:
  "issue_command (example_native (Aware 5)) example_member 5 5 [] w = (Inr (example_token, example_create_command), w)"
  using example_identifiers [of 1] example_strip
  by (simp add: issue_command_def issue_binding_def call_def width_defs session_id_bytes_def Let_def
      binding_proof_post_init_def session_command_post_init_def example_member_def example_create_command_def
      example_token_def example_binding_def freeze_display_metadata_def valid_security_epoch_def
      maximum_security_epoch_def seconds_def)

lemma example_create_command_valid: "valid_command example_create_command"
  using example_identifiers [of 1] example_strip
  by (simp add: valid_command_def example_create_command_def digest_bytes_def freeze_display_metadata_def
      valid_security_epoch_def maximum_security_epoch_def seconds_def)

lemma example_store:
  "\<exists>w'. store_command (example_native (Aware 5)) None example_create_command 5 ''u1'' example_members =
     (Inr (Some (new_session example_create_command)), w') \<and> st_accounts (snd w') = [(''u1'', example_member)]"
  using example_strip registry_create [OF example_create_command_valid, of "snd example_members"]
  by (simp add: store_command_def native_event_def call_def example_native_def memory_native_def create_session_def
      observed_def observe_def Let_def on_store_def example_members_def registry_def empty_store_def empty_backend_def
      backend_port_def next_identifier_def)

definition example_authentication :: "time session_authentication" where
  "example_authentication =
     \<lparr>sa_session_id = encode_random (replicate 32 1), sa_binding_id = session_binding_prefix @ encode_random (replicate 16 1),
      sa_account_id = ''u1'', sa_security_epoch = 1, sa_authenticated_at = 5, sa_expires_at = 5 + seconds 60,
      sa_assurance_expires_at = None, sa_methods = {''password''}, sa_traits = {''session''}, sa_amr = [''pwd'']\<rparr>"

lemma example_established: "established_authentication example_create_command None 5 = Inr example_authentication"
proof -
  have names: "trimmed ''password''" "trimmed ''pwd''"
    by code_simp+
  show ?thesis
    using example_identifiers [of 1] example_strip names trimmed_names
    by (simp add: established_authentication_def session_authentication_post_init_def example_create_command_def
        example_authentication_def valid_security_epoch_def maximum_security_epoch_def seconds_def evidence_accepted
        optional_result_def)
qed

definition example_signed_in :: browser where
  "example_signed_in = reveal_session (example_native (Aware 5)) [(''theme'', Py_Text ''dark'')] example_authentication
     example_token example_browser"

lemma example_establish:
  "\<exists>w'. establish (example_native (Aware 5)) example_member None [] None (example_members, example_browser) =
     (Inr (Verified example_authentication), (w', example_signed_in)) \<and>
     st_accounts (snd w') = [(''u1'', example_member)]"
proof -
  obtain w' where "store_command (example_native (Aware 5)) None example_create_command 5 ''u1'' example_members =
      (Inr (Some (new_session example_create_command)), w')" "st_accounts (snd w') = [(''u1'', example_member)]"
    using example_store by blast
  moreover have "valid_login_account example_member"
    using example_strip
    by (simp add: valid_login_account_def example_member_def valid_security_epoch_def maximum_security_epoch_def)
  moreover have "record_matches_command (new_session example_create_command) example_create_command"
    by (simp add: record_matches_command_def new_session_def)
  moreover have "writable_http_session example_browser = Some [(''theme'', Py_Text ''dark''), (''cart'', Py_Int 3)]"
    by (simp add: writable_http_session_def example_browser_def)
  moreover have "preserved_items (sb_preserve example_binding) [(''theme'', Py_Text ''dark''), (''cart'', Py_Int 3)] =
      [(''theme'', Py_Text ''dark'')]"
    by (simp add: preserved_items_def example_binding_def)
  moreover have "acc_id example_member = ''u1''"
    by (simp add: example_member_def)
  ultimately show ?thesis
    by (simp add: establish_def example_issue example_established call_def decode_authentication_def
        session_authentication_key_def example_signed_in_def)
qed

lemma read_int_negative: "read_int (CHR ''-'' # show_nat n) = Some (- int n)"
proof -
  have "trimmed (CHR ''-'' # show_nat n)"
    using trimmed_show_nat [of n] by (simp add: trimmed_def is_space_def)
  then show ?thesis
    by (simp add: read_int_def strip_trimmed)
qed

lemma read_int_show_int: "read_int (show_int i) = Some i"
  by (simp add: show_int_def read_int_negative)

lemma example_dates_ok: "dates_ok example_dates"
  by (simp add: dates_ok_def example_dates_def read_int_show_int)

theorem established_session_logs_in_witness:
  "\<exists>w' p login w''. establish (example_native (Aware 5)) example_member None [] None (example_members, example_browser) =
       (Inr (Verified example_authentication), (w', example_signed_in)) \<and>
     authenticate_session (example_native (Aware 6)) (example_authentication, p) (w', returning example_signed_in) =
       (Inr (Auth_Ok login), w'') \<and> au_claims login = example_member"
proof -
  obtain w' where e: "establish (example_native (Aware 5)) example_member None [] None (example_members, example_browser) =
      (Inr (Verified example_authentication), (w', example_signed_in))"
    and accounts: "st_accounts (snd w') = [(''u1'', example_member)]"
    using example_establish by blast
  have "get_by_id (acc_id example_member) (snd w') = Some example_member" "6 < sa_expires_at example_authentication"
    by (simp_all add: get_by_id_def accounts example_member_def example_authentication_def seconds_def)
  then show ?thesis
    using established_session_logs_in [OF e [unfolded example_native_def] example_dates_ok, of w' 6] e
    by (fastforce simp: example_native_def example_binding_def)
qed

lemma example_authentication_constructed: "constructed example_authentication"
  by (rule established_fields(1) [OF example_established])

lemma example_decodes:
  "decode_authentication example_dates (Some (encode_authentication example_dates example_authentication)) =
     Some example_authentication"
  by (rule decode_encode_authentication [OF example_authentication_constructed _ _ example_dates_ok])
    (simp_all add: example_authentication_def)

definition example_proof :: binding_proof where
  "example_proof = \<lparr>bp_binding_id = session_binding_prefix @ encode_random (replicate 16 1), bp_digest = replicate 32 7\<rparr>"

definition example_session_world :: "unit world" where
  "example_session_world = (empty_backend, empty_store\<lparr>st_accounts := [(''u1'', example_member)],
     st_sessions := [(encode_random (replicate 32 1), new_session example_create_command)]\<rparr>)"

theorem native_session_checked_every_request_witness:
  "(\<exists>login w'. authenticate_session (example_native (Aware 6)) (example_authentication, example_proof)
       (example_session_world, example_browser) = (Inr (Auth_Ok login), w')) \<and>
   \<not> (\<exists>login w'. authenticate_session (example_native (Aware 6)) (example_authentication, example_proof\<lparr>bp_digest := []\<rparr>)
       (example_session_world, example_browser) = (Inr (Auth_Ok login), w')) \<and>
   \<not> (\<exists>login w'. authenticate_session (example_native (Aware 6)) (example_authentication, example_proof)
       (example_members, example_browser) = (Inr (Auth_Ok login), w'))"
proof -
  note exact = native_session_checked_every_request [OF example_decodes, of example_binding "\<lambda>_ _. replicate 32 7"
      "Some (\<lambda>n. replicate n 1)" "\<lambda>n i. ''event''", THEN conjunct1]
  let ?r = "new_session example_create_command"
  have "us_expires_at ?r > 6" "us_expires_at ?r = sa_expires_at example_authentication"
    "us_session_id ?r = sa_session_id example_authentication" "bp_binding_id example_proof = us_binding_id ?r"
    "bp_digest example_proof = us_binding_digest ?r" "us_binding_digest ?r \<noteq> []"
    "sa_binding_id example_authentication = us_binding_id ?r"
    "us_authenticated_at ?r = sa_authenticated_at example_authentication" "acc_id example_member = us_account_id ?r"
    "us_account_id ?r = sa_account_id example_authentication" "strict_text (acc_id example_member)"
    "acc_epoch example_member = us_security_epoch ?r" "us_security_epoch ?r = sa_security_epoch example_authentication"
    "valid_security_epoch (acc_epoch example_member)" "acc_active example_member" "acc_verified example_member"
    using example_strip
    by (simp_all add: example_authentication_def example_proof_def new_session_def example_create_command_def
        example_member_def valid_security_epoch_def maximum_security_epoch_def seconds_def)
  moreover have "registry (snd example_session_world) (sa_session_id example_authentication) = Some ?r"
    "get_by_id (sa_account_id example_authentication) (snd example_session_world) = Some example_member"
    "registry (snd example_members) (sa_session_id example_authentication) = None"
    by (simp_all add: registry_def example_session_world_def example_authentication_def get_by_id_def example_member_def
        example_members_def empty_store_def)
  ultimately show ?thesis
    unfolding example_native_def exact by auto
qed

theorem logout_ends_session_witness:
  "\<exists>w' b'. logout (example_native (Aware 6)) None (example_session_world, returning example_signed_in) = (Verified True, (w', b')) \<and>
     extract_session (example_native (Aware 7)) (returning b') = (Inr No_Credential, returning b')"
proof -
  let ?b = "returning example_signed_in"
  obtain session where b: "br_http ?b" "br_session ?b = Some session"
      "dget session session_authentication_key = Some (encode_authentication example_dates example_authentication)"
    using reveal_returns [of example_browser "example_native (Aware 5)"]
    by (fastforce simp: example_signed_in_def example_browser_def example_binding_def dict_simps)
  then have current: "current_authentication (example_native (Aware 6)) ?b = Some example_authentication"
    by (simp add: current_authentication_def example_decodes)
  have "registry (snd example_session_world) (sa_session_id example_authentication) = Some (new_session example_create_command)"
    "us_account_id (new_session example_create_command) = sa_account_id example_authentication"
    by (simp_all add: registry_def example_session_world_def example_authentication_def example_create_command_def)
  then obtain w' where "logout (example_native (Aware 6)) None (example_session_world, ?b) =
      (Verified True, (w', clear_local_state example_binding ?b))"
    using b example_strip
    by (simp add: logout_def writable_http_session_def example_decodes native_event_def call_def sanitized_def)
      (simp add: example_native_def memory_native_def revoke_session_for_account_def observed_def observe_def Let_def
        on_store_def do_revoke_session_def registry_def example_session_world_def empty_backend_def)
  then show ?thesis
    using logout_ends_session [of example_binding example_dates "\<lambda>_ _. replicate 32 7" "Some (\<lambda>n. replicate n 1)"
        "\<lambda>n i. ''event''" "Aware 6" None example_session_world ?b True w' _ example_authentication 7, folded example_native_def]
      current by blast
qed

end
