(* ===== verification/JSON_Documents.thy ===== *)
theory JSON_Documents
  imports Complex_Main Refresh_Tokens
begin

text \<open>
  JSON as the providers read it (\<^verbatim>\<open>providers/_internal.py\<close>, \<^verbatim>\<open>providers/jwt/_internal.py\<close>): the hooks run
  on every parsed object and constant, the bounded depth scan, freezing, base64url segments and the
  identifier alphabets. The text-to-document step of \<^verbatim>\<open>json.loads\<close> is the parameter \<open>json_reader\<close>.

  Every character of the model is below U+0100; such text is already in normal form C, and its
  characters of a category C are the two control ranges and the soft hyphen.
\<close>

section \<open>Documents\<close>

text \<open>
  Members are kept in textual order and may repeat until the hook has looked at them. \<open>J_Constant\<close> is
  one of the literals NaN, Infinity and -Infinity, \<open>J_Float None\<close> a float that overflowed to infinity.
  Frozen lists are tuples; a frozen mapping reads like the object it was.
\<close>

datatype json =
    J_Null
  | J_Bool bool
  | J_Int int
  | J_Float "rat option"
  | J_Constant string
  | J_Text string
  | J_List "json list"
  | J_Tuple "json list"
  | J_Object "(string \<times> json) list"

type_synonym json_object = "(string, json) dict"

text \<open>UTF-8 decoding and parsing; \<open>None\<close> is a UnicodeDecodeError, JSONDecodeError or RecursionError.\<close>

type_synonym json_reader = "bytes \<Rightarrow> json option"

definition unique_object :: "(string \<times> json) list \<Rightarrow> json result" where
  "unique_object pairs = (if distinct (map fst pairs) then Inr (J_Object pairs) else Inl ValueError)"

text \<open>The decoder with \<^verbatim>\<open>object_pairs_hook=unique_object, parse_constant=reject_non_finite\<close>.\<close>

fun hooked :: "json \<Rightarrow> json result"
  and hooked_items :: "json list \<Rightarrow> json list result"
  and hooked_members :: "(string \<times> json) list \<Rightarrow> (string \<times> json) list result" where
  "hooked (J_Constant c) = Inl ValueError"
| "hooked (J_List vs) = bind (hooked_items vs) (\<lambda>ws. Inr (J_List ws))"
| "hooked (J_Object ms) = bind (hooked_members ms) unique_object"
| "hooked v = Inr v"
| "hooked_items [] = Inr []"
| "hooked_items (v # vs) = bind (hooked v) (\<lambda>w. bind (hooked_items vs) (\<lambda>ws. Inr (w # ws)))"
| "hooked_members [] = Inr []"
| "hooked_members ((k, v) # ms) = bind (hooked v) (\<lambda>w. bind (hooked_members ms) (\<lambda>ws. Inr ((k, w) # ws)))"

fun children :: "json \<Rightarrow> json list" where
  "children (J_List vs) = vs"
| "children (J_Tuple vs) = vs"
| "children (J_Object ms) = map snd ms"
| "children v = []"

text \<open>\<^verbatim>\<open>validate_depth\<close>: the stack's top is the head here, and \<^verbatim>\<open>extend\<close> leaves the last child on top.\<close>

lemma children_smaller: "sum_list (map (\<lambda>c. Suc (size c)) (children v)) < Suc (size v)"
proof -
  have list: "sum_list (map (\<lambda>c. Suc (size c)) vs) = size_list size vs" for vs :: "json list"
    by (induction vs) simp_all
  have pairs: "sum_list (map ((\<lambda>c. Suc (size c)) \<circ> snd) ms) \<le> size_list (size_prod (\<lambda>_. 0) size) ms"
    for ms :: "(string \<times> json) list"
    by (induction ms) auto
  show ?thesis
  proof (cases v)
    case (J_Object ms)
    then show ?thesis
      using pairs [of ms] by simp
  qed (simp_all add: list)
qed

lemma scan_smaller:
  "sum_list (map (\<lambda>(v, d). Suc (size v)) (rev (map (\<lambda>c. (c, d)) (children v)))) < Suc (size v)"
proof -
  have "sum_list (map (\<lambda>(v, d). Suc (size v)) (rev (map (\<lambda>c. (c, d)) (children v)))) =
      sum_list (map (\<lambda>c. Suc (size c)) (children v))"
    by (simp add: rev_map [symmetric] comp_def)
  then show ?thesis
    using children_smaller [of v] by simp
qed

function depth_scan :: "nat \<Rightarrow> (json \<times> nat) list \<Rightarrow> bool" where
  "depth_scan maximum [] = True"
| "depth_scan maximum ((v, depth) # stack) =
     (if depth > maximum then False
      else depth_scan maximum (rev (map (\<lambda>c. (c, depth + 1)) (children v)) @ stack))"
  by pat_completeness auto

termination
  by (relation "measure (\<lambda>(m, stack). sum_list (map (\<lambda>(v, d). Suc (size v)) stack))") (simp_all add: scan_smaller)

text \<open>Every round replaces a value by its children, which together are smaller.\<close>

lemma depth_scan_halts: "All depth_scan_dom"
proof -
  let ?weight = "\<lambda>(m :: nat, stack). sum_list (map (\<lambda>(v :: json, d :: nat). Suc (size v)) stack)"
  have "?weight x < ?weight y" if "depth_scan_rel x y" for x y
    using that
  proof (cases rule: depth_scan_rel.cases)
    case (1 depth maximum v stack)
    show ?thesis
      unfolding 1(1,2) by (simp add: scan_smaller)
  qed
  then have "wfp depth_scan_rel"
    by (rule wfp_if_convertible_to_nat)
  then show ?thesis
    by (simp add: accp_wfpD)
qed

definition validate_depth :: "nat \<Rightarrow> json \<Rightarrow> bool" where
  "validate_depth maximum v = depth_scan maximum [(v, 1)]"

fun freeze_json :: "json \<Rightarrow> json" where
  "freeze_json (J_List vs) = J_Tuple (map freeze_json vs)"
| "freeze_json (J_Object ms) = J_Object (map (\<lambda>(k, v). (k, freeze_json v)) ms)"
| "freeze_json v = v"

section \<open>Segments\<close>

definition is_base64url :: "char \<Rightarrow> bool" where
  "is_base64url c = (let n = (of_char c :: nat)
     in (65 \<le> n \<and> n \<le> 90) \<or> (97 \<le> n \<and> n \<le> 122) \<or> (48 \<le> n \<and> n \<le> 57) \<or> n = 95 \<or> n = 45)"

definition decode_base64url :: "string \<Rightarrow> bytes result" where
  "decode_base64url segment =
     (if segment = [] \<or> \<not> list_all is_base64url segment then Inl ValueError
      else decode_random_unbounded segment)"

definition decode_json_segment :: "json_reader \<Rightarrow> nat \<Rightarrow> string \<Rightarrow> json_object result" where
  "decode_json_segment reader maximum segment =
     bind (decode_base64url segment) (\<lambda>raw.
       case reader raw of
         None \<Rightarrow> Inl ValueError
       | Some document \<Rightarrow>
           bind (hooked document) (\<lambda>v. case v of
             J_Object d \<Rightarrow> if validate_depth maximum v then Inr d else Inl ValueError
           | _ \<Rightarrow> Inl TypeError))"

section \<open>Identifiers\<close>

definition is_control :: "char \<Rightarrow> bool" where
  "is_control c = (let n = (of_char c :: nat) in n < 32 \<or> (127 \<le> n \<and> n < 160) \<or> n = 173)"

definition is_strict_identifier :: "string \<Rightarrow> bool" where
  "is_strict_identifier v \<longleftrightarrow> v \<noteq> [] \<and> v = strip v \<and> list_all (\<lambda>c. \<not> is_control c) v"

definition strict_identifier :: "string \<Rightarrow> string result" where
  "strict_identifier v = (if is_strict_identifier v then Inr v else Inl ImproperlyConfigured)"

definition strict_identifiers :: "string set \<Rightarrow> string set result" where
  "strict_identifiers vs = (if \<forall>v\<in>vs. is_strict_identifier v then Inr vs else Inl ImproperlyConfigured)"

definition strict_identifier_value :: "string \<Rightarrow> string result" where
  "strict_identifier_value v = (if is_strict_identifier v then Inr v else Inl ValueError)"

definition is_scope_token :: "string \<Rightarrow> bool" where
  "is_scope_token v \<longleftrightarrow> v \<noteq> [] \<and>
     list_all (\<lambda>c. let n = (of_char c :: nat) in n = 33 \<or> (35 \<le> n \<and> n \<le> 91) \<or> (93 \<le> n \<and> n \<le> 126)) v"

definition strict_scope_value :: "string \<Rightarrow> string result" where
  "strict_scope_value v = (if is_scope_token v then Inr v else Inl ValueError)"

text \<open>\<^verbatim>\<open>str.lower\<close> below U+0100.\<close>

definition text_lower :: "string \<Rightarrow> string" where
  "text_lower s = map (\<lambda>c. let n = (of_char c :: nat)
     in if (65 \<le> n \<and> n \<le> 90) \<or> (192 \<le> n \<and> n \<le> 222 \<and> n \<noteq> 215) then char_of (n + 32) else c) s"

section \<open>Reading members\<close>

text \<open>\<^verbatim>\<open>mapping.get(name)\<close>: a missing member and a null one read the same.\<close>

definition member :: "json_object \<Rightarrow> string \<Rightarrow> json" where
  "member d k = (case dget d k of None \<Rightarrow> J_Null | Some v \<Rightarrow> v)"

definition has :: "json_object \<Rightarrow> string \<Rightarrow> bool" where
  "has d k \<longleftrightarrow> dget d k \<noteq> None"

text \<open>\<^verbatim>\<open>isinstance(value, (list, tuple))\<close>.\<close>

definition sequence_of :: "json \<Rightarrow> json list option" where
  "sequence_of v = (case v of J_List vs \<Rightarrow> Some vs | J_Tuple vs \<Rightarrow> Some vs | _ \<Rightarrow> None)"

fun texts :: "json list \<Rightarrow> string list option" where
  "texts [] = Some []"
| "texts (v # vs) = (case (v, texts vs) of (J_Text s, Some ss) \<Rightarrow> Some (s # ss) | _ \<Rightarrow> None)"

text \<open>\<^verbatim>\<open>datetime.fromtimestamp(n, tz=utc)\<close> for an integer: the years 1 to 9999.\<close>

definition from_timestamp :: "int \<Rightarrow> time option" where
  "from_timestamp n = (if -62135596800 \<le> n \<and> n \<le> 253402300799 then Some (seconds n) else None)"

definition numeric_date :: "json \<Rightarrow> time option" where
  "numeric_date v = (case v of J_Int n \<Rightarrow> from_timestamp n | _ \<Rightarrow> None)"

text \<open>\<^verbatim>\<open>int(t.timestamp())\<close>: truncation toward zero (the float is exact to the microsecond before 2514).\<close>

definition whole_seconds :: "time \<Rightarrow> int" where
  "whole_seconds t = (if t < 0 then - (- t div 1000000) else t div 1000000)"

section \<open>The scan decides the depth\<close>

fun json_depth :: "json \<Rightarrow> nat" where
  "json_depth (J_List vs) = Suc (Max (insert 0 (set (map json_depth vs))))"
| "json_depth (J_Tuple vs) = Suc (Max (insert 0 (set (map json_depth vs))))"
| "json_depth (J_Object ms) = Suc (Max (insert 0 (set (map (\<lambda>m. json_depth (snd m)) ms))))"
| "json_depth v = 1"

lemma json_depth_children: "json_depth v = Suc (Max (insert 0 (json_depth ` set (children v))))"
  by (cases v) (simp_all add: image_image)

lemma json_depth_le: "d + json_depth v \<le> Suc m \<longleftrightarrow> d \<le> m \<and> (\<forall>c\<in>set (children v). Suc d + json_depth c \<le> Suc m)"
proof -
  let ?M = "Max (insert 0 (json_depth ` set (children v)))"
  have le: "?M \<le> k \<longleftrightarrow> (\<forall>c\<in>set (children v). json_depth c \<le> k)" for k
    by (simp add: Max_le_iff)
  have "d + json_depth v \<le> Suc m \<longleftrightarrow> d \<le> m \<and> ?M \<le> m - d"
    using json_depth_children [of v] by linarith
  also have "\<dots> \<longleftrightarrow> d \<le> m \<and> (\<forall>c\<in>set (children v). json_depth c \<le> m - d)"
    unfolding le ..
  also have "\<dots> \<longleftrightarrow> d \<le> m \<and> (\<forall>c\<in>set (children v). Suc d + json_depth c \<le> Suc m)"
    by auto
  finally show ?thesis .
qed

lemma depth_scan_iff: "depth_scan maximum stack \<longleftrightarrow> (\<forall>(v, d)\<in>set stack. d + json_depth v \<le> Suc maximum)"
proof (induction maximum stack rule: depth_scan.induct)
  case (2 maximum v d stack)
  show ?case
  proof (cases "d > maximum")
    case True
    then show ?thesis
      using json_depth_le [of d v maximum] by simp
  next
    case False
    then show ?thesis
      using 2 [OF False] json_depth_le [of d v maximum] by (simp add: ball_Un)
  qed
qed simp

text \<open>C40: The depth scan of JSON documents, an explicit stack without recursion, terminates on every
  document and accepts exactly those no deeper than the limit.\<close>

theorem depth_scan_terminates_exactly:
  "depth_scan_dom (maximum, [(v, 1)]) \<and> (validate_depth maximum v \<longleftrightarrow> json_depth v \<le> maximum)"
  using depth_scan_halts by (simp add: validate_depth_def depth_scan_iff)

end
