(* ===== verification/JWT_Claims.thy ===== *)
theory JWT_Claims
  imports JSON_Documents Session_Records Context
begin

text \<open>
  Claim sets of \<^verbatim>\<open>providers/jwt/_claims.py\<close>: the validation profile, header and claim normalization,
  building the claims of a local access token and the signer's check of them.
\<close>

section \<open>The validation profile\<close>

record validation_config =
  vc_issuer :: string
  vc_audiences :: "string set"
  vc_algorithms :: "string set"
  vc_required :: "string set"
  vc_access_profile :: bool
  vc_subject_required :: bool
  vc_skew :: time
  vc_maximum_lifetime :: "time option"
  vc_token_types :: "string set"

definition supported_algorithms :: "string set" where
  "supported_algorithms = {''EdDSA'', ''ES256'', ''RS256'', ''HS256''}"

definition validation_config_post_init :: "validation_config \<Rightarrow> validation_config result" where
  "validation_config_post_init c =
     bind (strict_identifier (vc_issuer c)) (\<lambda>issuer.
     bind (strict_identifiers (vc_audiences c)) (\<lambda>audiences.
       if audiences = {} then Inl ImproperlyConfigured
       else if vc_algorithms c = {} then Inl ImproperlyConfigured
       else if \<not> vc_algorithms c \<subseteq> supported_algorithms then Inl ImproperlyConfigured
       else if vc_skew c < 0 then Inl ImproperlyConfigured
       else if (case vc_maximum_lifetime c of None \<Rightarrow> False | Some l \<Rightarrow> l \<le> 0) then Inl ImproperlyConfigured
       else if vc_access_profile c \<and> \<not> vc_subject_required c then Inl ImproperlyConfigured
       else
         bind (strict_identifiers (vc_required c)) (\<lambda>named.
         bind (strict_identifiers (vc_token_types c)) (\<lambda>types.
           let base = named \<union> {''iss'', ''aud'', ''exp'', ''iat''};
               subject = (if vc_subject_required c then insert ''sub'' base else base - {''sub''});
               required = (if vc_access_profile c then subject \<union> {''client_id'', ''jti''} else subject)
           in if types = {} then Inl ImproperlyConfigured
              else Inr (c\<lparr>vc_issuer := issuer, vc_audiences := audiences, vc_required := required,
                vc_token_types := text_lower ` types\<rparr>)))))"

section \<open>Verified claims\<close>

record jwt_claims =
  jc_issuer :: string
  jc_subject :: "string option"
  jc_audiences :: "string set"
  jc_expires_at :: time
  jc_issued_at :: time
  jc_not_before :: "time option"
  jc_token_id :: "string option"
  jc_client_id :: "string option"
  jc_scopes :: "string set"
  jc_raw :: json_object
  jc_bearer_slot :: "string option"

definition freeze_members :: "json_object \<Rightarrow> json_object" where
  "freeze_members d = map (\<lambda>(k, v). (k, freeze_json v)) d"

definition forbidden_headers :: "string set" where
  "forbidden_headers = {''b64'', ''crit'', ''jku'', ''jwk'', ''x5c'', ''x5t'', ''x5t#S256'', ''x5u''}"

text \<open>\<open>None\<close> is \<^verbatim>\<open>InvalidCredentials()\<close>.\<close>

definition validate_header :: "json_object \<Rightarrow> validation_config \<Rightarrow> bool \<Rightarrow> string option" where
  "validate_header header config require_key_id =
     (case member header ''alg'' of
        J_Text algorithm \<Rightarrow>
          if algorithm \<notin> vc_algorithms config \<or> algorithm = ''none'' then None
          else (case member header ''typ'' of
            J_Text token_type \<Rightarrow>
              if text_lower token_type \<notin> vc_token_types config then None
              else if \<exists>n\<in>forbidden_headers. has header n then None
              else (case member header ''kid'' of
                  J_Null \<Rightarrow> if require_key_id then None else Some algorithm
                | J_Text key_id \<Rightarrow> if is_strict_identifier key_id then Some algorithm else None
                | _ \<Rightarrow> None)
          | _ \<Rightarrow> None)
      | _ \<Rightarrow> None)"

definition strict_texts :: "json list \<Rightarrow> (string \<Rightarrow> bool) \<Rightarrow> string set option" where
  "strict_texts vs good =
     (case texts vs of
        None \<Rightarrow> None
      | Some ss \<Rightarrow> if list_all good ss \<and> distinct ss then Some (set ss) else None)"

definition normalize_audiences :: "json \<Rightarrow> string set option" where
  "normalize_audiences v =
     (case v of
        J_Text a \<Rightarrow> if is_strict_identifier a then Some {a} else None
      | _ \<Rightarrow>
          (case sequence_of v of
             None \<Rightarrow> None
           | Some vs \<Rightarrow> if vs = [] then None else strict_texts vs is_strict_identifier))"

definition normalize_scopes :: "json_object \<Rightarrow> string set option" where
  "normalize_scopes payload =
     (let scope = member payload ''scope''; scp = member payload ''scp''
      in if scope \<noteq> J_Null \<and> scp \<noteq> J_Null then None
         else if scope = J_Null \<and> scp = J_Null then Some {}
         else case scope of
           J_Text s \<Rightarrow> strict_texts (map J_Text (split_on (CHR '' '') s)) is_scope_token
         | _ \<Rightarrow> (case sequence_of scp of None \<Rightarrow> None | Some vs \<Rightarrow> strict_texts vs is_scope_token))"

definition optional_identifier :: "json \<Rightarrow> string option" where
  "optional_identifier v = (case v of J_Text s \<Rightarrow> if is_strict_identifier s then Some s else None | _ \<Rightarrow> None)"

definition issuer_and_subject :: "json_object \<Rightarrow> validation_config \<Rightarrow> (string \<times> string option) option" where
  "issuer_and_subject payload config =
     (case member payload ''iss'' of
        J_Text issuer \<Rightarrow>
          if issuer \<noteq> vc_issuer config \<or> \<not> is_strict_identifier issuer then None
          else (case member payload ''sub'' of
              J_Null \<Rightarrow> if vc_subject_required config then None else Some (issuer, None)
            | J_Text s \<Rightarrow> if is_strict_identifier s then Some (issuer, Some s) else None
            | _ \<Rightarrow> None)
      | _ \<Rightarrow> None)"

text \<open>\<open>Some None\<close> is an absent not-before.\<close>

definition claim_times :: "json_object \<Rightarrow> (time \<times> time \<times> time option) option" where
  "claim_times payload =
     (case (numeric_date (member payload ''iat''), numeric_date (member payload ''exp'')) of
        (Some issued_at, Some expires_at) \<Rightarrow>
          if member payload ''nbf'' = J_Null then Some (issued_at, expires_at, None)
          else map_option (\<lambda>t. (issued_at, expires_at, Some t)) (numeric_date (member payload ''nbf''))
      | _ \<Rightarrow> None)"

definition in_window :: "time \<Rightarrow> time option \<Rightarrow> time \<Rightarrow> time \<times> time \<times> time option \<Rightarrow> bool" where
  "in_window skew maximum now = (\<lambda>(issued_at, expires_at, not_before).
     \<not> (issued_at > now + skew \<or> expires_at \<le> now - skew \<or>
        (case not_before of None \<Rightarrow> False | Some t \<Rightarrow> t > now + skew)) \<and>
     \<not> (expires_at - issued_at \<le> 0 \<or> (case not_before of None \<Rightarrow> False | Some t \<Rightarrow> t \<ge> expires_at) \<or>
        (case maximum of None \<Rightarrow> False | Some l \<Rightarrow> expires_at - issued_at > l)))"

definition claim_identifiers :: "json_object \<Rightarrow> validation_config \<Rightarrow> (string option \<times> string option) option" where
  "claim_identifiers payload config =
     (let token_id = optional_identifier (member payload ''jti'');
          client_id = optional_identifier (member payload ''client_id'')
      in if (has payload ''jti'' \<and> token_id = None) \<or> (has payload ''client_id'' \<and> client_id = None) \<or>
            (vc_access_profile config \<and> (token_id = None \<or> client_id = None))
         then None else Some (token_id, client_id))"

definition normalize_claims :: "json_object \<Rightarrow> validation_config \<Rightarrow> time \<Rightarrow> jwt_claims option" where
  "normalize_claims payload config now =
     (if \<not> (\<forall>n\<in>vc_required config. has payload n) then None
      else case issuer_and_subject payload config of
        None \<Rightarrow> None
      | Some (issuer, subject) \<Rightarrow>
          (case normalize_audiences (member payload ''aud'') of
             None \<Rightarrow> None
           | Some audiences \<Rightarrow>
               if audiences \<inter> vc_audiences config = {} then None
               else (case claim_times payload of
                 None \<Rightarrow> None
               | Some (issued_at, expires_at, not_before) \<Rightarrow>
                   if \<not> in_window (vc_skew config) (vc_maximum_lifetime config) now (issued_at, expires_at, not_before)
                   then None
                   else (case claim_identifiers payload config of
                     None \<Rightarrow> None
                   | Some (token_id, client_id) \<Rightarrow>
                       map_option (\<lambda>scopes.
                         \<lparr>jc_issuer = issuer, jc_subject = subject, jc_audiences = audiences,
                          jc_expires_at = expires_at, jc_issued_at = issued_at, jc_not_before = not_before,
                          jc_token_id = token_id, jc_client_id = client_id, jc_scopes = scopes,
                          jc_raw = freeze_members payload, jc_bearer_slot = None\<rparr>)
                         (normalize_scopes payload)))))"

section \<open>Local access tokens\<close>

record access_request =
  aq_issuer :: string
  aq_audience :: string
  aq_subject :: string
  aq_client_id :: string
  aq_security_epoch :: int
  aq_lifetime :: time
  aq_scopes :: "string set"
  aq_methods :: "string set"
  aq_traits :: "string set"
  aq_amr :: "string list"
  aq_authenticated_at :: "py_datetime option"
  aq_jti :: "string option"
  aq_not_before :: "py_datetime option"

fun join_spaces :: "string list \<Rightarrow> string" where
  "join_spaces [] = []"
| "join_spaces [s] = s"
| "join_spaces (s # ss) = s @ CHR '' '' # join_spaces ss"

text \<open>The optional claims, in the order they are added.\<close>

definition optional_claims ::
  "string set \<Rightarrow> string set \<Rightarrow> string set \<Rightarrow> string list \<Rightarrow> time option \<Rightarrow> time option \<Rightarrow> json_object" where
  "optional_claims scopes methods traits amr authenticated_at not_before =
     (if scopes \<noteq> {} then [(''scope'', J_Text (join_spaces (sorted_list_of_set scopes)))] else []) @
     (if methods \<noteq> {} \<or> amr \<noteq> []
      then [(''amr'', J_List (map J_Text (if amr \<noteq> [] then amr else sorted_list_of_set methods)))] else []) @
     (if traits \<noteq> {} then [(''security_traits'', J_List (map J_Text (sorted_list_of_set traits)))] else []) @
     (case authenticated_at of None \<Rightarrow> [] | Some t \<Rightarrow> [(''auth_time'', J_Int (whole_seconds t))]) @
     (case not_before of None \<Rightarrow> [] | Some t \<Rightarrow> [(''nbf'', J_Int (whole_seconds t))])"

text \<open>\<open>generated\<close> is the answer of \<^verbatim>\<open>token_urlsafe(32)\<close>.\<close>

definition build_access_token_claims :: "string \<Rightarrow> access_request \<Rightarrow> py_datetime \<Rightarrow> json_object result" where
  "build_access_token_claims generated q clock_reading =
     bind (strict_identifier_value (aq_issuer q)) (\<lambda>issuer.
     bind (strict_identifier_value (aq_audience q)) (\<lambda>audience.
     bind (strict_identifier_value (aq_subject q)) (\<lambda>subject.
     bind (strict_identifier_value (aq_client_id q)) (\<lambda>client_id.
       if aq_security_epoch q < 0 then Inl ValueError
       else bind (aware_utc_time clock_reading) (\<lambda>now.
         if aq_lifetime q \<le> 0 then Inl ValueError
         else
           let expires_at = now + aq_lifetime q
           in if whole_seconds expires_at \<le> whole_seconds now then Inl ValueError
              else bind (optional_result aware_utc_time (aq_not_before q)) (\<lambda>not_before.
                if (case not_before of None \<Rightarrow> False | Some t \<Rightarrow> t \<ge> expires_at) then Inl ValueError
                else
                  bind (strict_identifier_value (case aq_jti q of None \<Rightarrow> generated | Some j \<Rightarrow> j)) (\<lambda>token_id.
                  bind (collect_set strict_scope_value (aq_scopes q)) (\<lambda>scopes.
                  bind (collect_set strict_identifier_value (aq_methods q)) (\<lambda>methods.
                  bind (collect_set strict_identifier_value (aq_traits q)) (\<lambda>traits.
                  bind (collect (map strict_identifier_value (aq_amr q))) (\<lambda>amr.
                  bind (optional_result aware_utc_time (aq_authenticated_at q)) (\<lambda>authenticated_at.
                    if (case authenticated_at of None \<Rightarrow> False | Some t \<Rightarrow> t > now) then Inl ValueError
                    else Inr ([(''iss'', J_Text issuer), (''sub'', J_Text subject), (''aud'', J_Text audience),
                      (''exp'', J_Int (whole_seconds expires_at)), (''iat'', J_Int (whole_seconds now)),
                      (''client_id'', J_Text client_id), (''jti'', J_Text token_id),
                      (''se'', J_Int (aq_security_epoch q))] @
                      optional_claims scopes methods traits amr authenticated_at not_before)))))))))))))"

definition local_required_claims :: "string set" where
  "local_required_claims = {''iss'', ''sub'', ''aud'', ''exp'', ''iat'', ''client_id'', ''jti'', ''se''}"

definition local_allowed_claims :: "string set" where
  "local_allowed_claims = local_required_claims \<union> {''amr'', ''auth_time'', ''nbf'', ''scope'', ''security_traits''}"

fun hashable :: "json \<Rightarrow> bool" where
  "hashable (J_List vs) = False"
| "hashable (J_Object ms) = False"
| "hashable (J_Tuple vs) = list_all hashable vs"
| "hashable v = True"

text \<open>One of the two list claims; \<^verbatim>\<open>frozenset(values)\<close> raises a TypeError on an unhashable item.\<close>

definition list_claim_ok :: "json \<Rightarrow> unit result" where
  "list_claim_ok v =
     (case v of
        J_Null \<Rightarrow> Inr ()
      | J_List vs \<Rightarrow>
          if vs = [] then Inl ValueError
          else if \<not> list_all hashable vs then Inl TypeError
          else if strict_texts vs is_strict_identifier = None then Inl ValueError else Inr ()
      | _ \<Rightarrow> Inl ValueError)"

definition identifier_claim :: "json \<Rightarrow> bool" where
  "identifier_claim v = (case v of J_Text s \<Rightarrow> is_strict_identifier s | _ \<Rightarrow> False)"

text \<open>The integer claims; \<open>None\<close> when one of them is malformed.\<close>

definition local_times_ok :: "json_object \<Rightarrow> time \<Rightarrow> bool" where
  "local_times_ok d now =
     (case (member d ''iat'', member d ''exp'', member d ''se'') of
        (J_Int issued_at, J_Int expires_at, J_Int epoch) \<Rightarrow>
          issued_at = whole_seconds now \<and> \<not> expires_at \<le> issued_at \<and> \<not> epoch < 0 \<and>
          (case member d ''nbf'' of J_Null \<Rightarrow> True | J_Int n \<Rightarrow> \<not> n \<ge> expires_at | _ \<Rightarrow> False) \<and>
          (case member d ''auth_time'' of J_Null \<Rightarrow> True | J_Int n \<Rightarrow> \<not> n > issued_at | _ \<Rightarrow> False)
      | _ \<Rightarrow> False)"

definition validate_local_access_claims :: "json_object \<Rightarrow> string \<Rightarrow> time \<Rightarrow> json_object result" where
  "validate_local_access_claims d issuer now =
     (if \<not> local_required_claims \<subseteq> set (map fst d) \<or> \<not> set (map fst d) \<subseteq> local_allowed_claims then Inl ValueError
      else if \<not> (\<forall>n\<in>{''iss'', ''sub'', ''aud'', ''client_id'', ''jti''}. identifier_claim (member d n)) \<or>
              member d ''iss'' \<noteq> J_Text issuer
      then Inl ValueError
      else if \<not> local_times_ok d now then Inl ValueError
      else if \<not> (case member d ''scope'' of
                J_Null \<Rightarrow> True | J_Text s \<Rightarrow> list_all is_scope_token (split_on (CHR '' '') s) | _ \<Rightarrow> False)
      then Inl ValueError
      else bind (list_claim_ok (member d ''amr'')) (\<lambda>_.
           bind (list_claim_ok (member d ''security_traits'')) (\<lambda>_. Inr d)))"

end
