(* ===== verification/JWT_Verification.thy ===== *)
theory JWT_Verification
  imports JWT_Claims API_Keys Authentication
begin

text \<open>
  Verifying compact tokens: the unverified route and the fixed-key verifier
  (\<^verbatim>\<open>providers/jwt/_verification.py\<close>), key sets and the local key ring (\<^verbatim>\<open>_keyring.py\<close>), bearer slots and
  the composite authenticator (\<^verbatim>\<open>_bearer.py\<close>). PyJWT, with the key material it prepares, is a parameter:
  a signature check answers yes, no (\<^verbatim>\<open>PyJWTError\<close>, \<^verbatim>\<open>TypeError\<close>, \<^verbatim>\<open>ValueError\<close>) or fails (any other
  exception, the worker's time limit included). Worker metrics are not observable here.
\<close>

section \<open>The unverified route\<close>

record jwt_route =
  jr_header :: json_object
  jr_payload :: json_object

definition parse_unverified_jwt_route :: "json_reader \<Rightarrow> string \<Rightarrow> int \<Rightarrow> int \<Rightarrow> jwt_route option" where
  "parse_unverified_jwt_route reader token maximum_bytes maximum_depth =
     (if maximum_bytes < 1 \<or> maximum_depth < 1 then None
      else if \<not> is_ascii token then None
      else if int (length token) > maximum_bytes then None
      else
        (case split_on (CHR ''.'') token of
           [header_segment, payload_segment, signature_segment] \<Rightarrow>
             if header_segment = [] \<or> payload_segment = [] \<or> signature_segment = [] then None
             else
               (case bind (decode_json_segment reader (nat maximum_depth) header_segment) (\<lambda>header.
                     bind (decode_json_segment reader (nat maximum_depth) payload_segment) (\<lambda>payload.
                     bind (decode_base64url signature_segment) (\<lambda>_. Inr (header, payload)))) of
                  Inl e \<Rightarrow> None
                | Inr (header, payload) \<Rightarrow>
                    Some \<lparr>jr_header = freeze_members header, jr_payload = freeze_members payload\<rparr>)
         | _ \<Rightarrow> None))"

definition default_token_bytes :: int where "default_token_bytes = 16384"
definition default_json_depth :: int where "default_json_depth = 32"

definition route_of :: "json_reader \<Rightarrow> string \<Rightarrow> jwt_route option" where
  "route_of reader token = parse_unverified_jwt_route reader token default_token_bytes default_json_depth"

section \<open>The fixed-key verifier\<close>

datatype signature_answer = Signature_Good | Signature_Bad | Signature_Failed

type_synonym ('s, 'k) signature_check = "'k \<Rightarrow> string \<Rightarrow> string \<Rightarrow> 's \<Rightarrow> signature_answer \<times> 's"

text \<open>\<open>jv_prepare\<close> prepares the key for one algorithm; the constructor has seen it succeed for all of them.\<close>

record ('m, 'k) jwt_verifier =
  jv_config :: validation_config
  jv_key :: 'm
  jv_prepare :: "'m \<Rightarrow> string \<Rightarrow> 'k result"
  jv_require_key_id :: bool
  jv_mechanism :: string
  jv_slot :: string
  jv_maximum_bytes :: int

definition jwt_verifier_post_init :: "('m, 'k) jwt_verifier \<Rightarrow> ('m, 'k) jwt_verifier result" where
  "jwt_verifier_post_init v =
     (if jv_maximum_bytes v < 1 then Inl ImproperlyConfigured
      else bind (strict_identifier (jv_mechanism v)) (\<lambda>_.
           bind (strict_identifier (jv_slot v)) (\<lambda>_.
             if \<forall>a\<in>vc_algorithms (jv_config v). \<not> isl (jv_prepare v (jv_key v) a) then Inr v
             else Inl ImproperlyConfigured)))"

definition token_evidence :: "('m, 'k) jwt_verifier \<Rightarrow> time \<Rightarrow> jwt_claims \<Rightarrow> evidence result" where
  "token_evidence v now claims =
     evidence_post_init
       \<lparr>in_mechanism = jv_mechanism v, in_slot = jv_slot v, in_authenticated_at = Aware now,
        in_expires_at = Some (Aware (jc_expires_at claims)), in_methods = {}, in_traits = {}, in_acr = None,
        in_amr = []\<rparr>"

definition granted :: "evidence \<Rightarrow> string snapshot \<Rightarrow> 'c \<Rightarrow> 'c auth_outcome" where
  "granted proof grants claims =
     Auth_Ok \<lparr>au_evidence = proof, au_grants = grants, au_restrictions = unrestricted, au_claims = claims\<rparr>"

definition checked_claims ::
  "json_reader \<Rightarrow> ('m, 'k) jwt_verifier \<Rightarrow> string \<Rightarrow> time \<Rightarrow> (string \<times> jwt_claims) option" where
  "checked_claims reader v token now =
     (case parse_unverified_jwt_route reader token (jv_maximum_bytes v) default_json_depth of
        None \<Rightarrow> None
      | Some route \<Rightarrow>
          (case validate_header (jr_header route) (jv_config v) (jv_require_key_id v) of
             None \<Rightarrow> None
           | Some algorithm \<Rightarrow>
               map_option (Pair algorithm) (normalize_claims (jr_payload route) (jv_config v) now)))"

definition verify_token ::
  "json_reader \<Rightarrow> ('s, 'k) signature_check \<Rightarrow> ('m, 'k) jwt_verifier \<Rightarrow> string \<Rightarrow> py_datetime \<Rightarrow>
     ('s, jwt_claims auth_outcome) port" where
  "verify_token reader check v token now =
     (case now of
        Naive _ \<Rightarrow> pure Auth_Invalid
      | Aware t \<Rightarrow>
          (case checked_claims reader v token t of
             None \<Rightarrow> pure Auth_Invalid
           | Some (algorithm, claims) \<Rightarrow>
               call (lift_result (jv_prepare v (jv_key v) algorithm)) (\<lambda>key s.
                 case check key algorithm token s of
                   (Signature_Bad, s') \<Rightarrow> (Inr Auth_Invalid, s')
                 | (Signature_Failed, s') \<Rightarrow> (Inr Auth_Unavailable, s')
                 | (Signature_Good, s') \<Rightarrow>
                     call (lift_result (token_evidence v t claims)) (\<lambda>proof.
                       pure (granted proof no_grants claims)) s')))"

section \<open>Key sets\<close>

record ('m, 'j) verification_key =
  vk_key_id :: string
  vk_algorithm :: string
  vk_material :: 'm
  vk_public_jwk :: "'j option"

record ('m, 'j) key_set =
  kr_issuer :: string
  kr_keys :: "('m, 'j) verification_key list"

definition key_set_post_init :: "('m, 'j) key_set \<Rightarrow> ('m, 'j) key_set result" where
  "key_set_post_init ks =
     bind (strict_identifier (kr_issuer ks)) (\<lambda>_.
       if kr_keys ks = [] then Inl ImproperlyConfigured
       else if \<not> distinct (map vk_key_id (kr_keys ks)) then Inl ImproperlyConfigured
       else Inr ks)"

record ('m, 'k) ring_verifier =
  rv_config :: validation_config
  rv_verifiers :: "(string \<times> string, ('m, 'k) jwt_verifier) dict"

definition key_verifier ::
  "('m \<Rightarrow> string \<Rightarrow> 'k result) \<Rightarrow> validation_config \<Rightarrow> string \<Rightarrow> string \<Rightarrow> ('m, 'j) verification_key \<Rightarrow>
     ('m, 'k) jwt_verifier result" where
  "key_verifier prepare config mech slot k =
     bind (validation_config_post_init (config\<lparr>vc_algorithms := {vk_algorithm k}\<rparr>)) (\<lambda>key_config.
       jwt_verifier_post_init
         \<lparr>jv_config = key_config, jv_key = vk_material k, jv_prepare = prepare, jv_require_key_id = True,
          jv_mechanism = mech, jv_slot = slot, jv_maximum_bytes = default_token_bytes\<rparr>)"

fun key_verifiers ::
  "('m \<Rightarrow> string \<Rightarrow> 'k result) \<Rightarrow> validation_config \<Rightarrow> string \<Rightarrow> string \<Rightarrow> ('m, 'j) verification_key list \<Rightarrow>
     (string \<times> string, ('m, 'k) jwt_verifier) dict \<Rightarrow> (string \<times> string, ('m, 'k) jwt_verifier) dict result" where
  "key_verifiers prepare config mech slot [] acc = Inr acc"
| "key_verifiers prepare config mech slot (k # ks) acc =
     (if vk_algorithm k \<notin> vc_algorithms config then key_verifiers prepare config mech slot ks acc
      else bind (key_verifier prepare config mech slot k) (\<lambda>v.
        key_verifiers prepare config mech slot ks (dset (vk_key_id k, vk_algorithm k) v acc)))"

definition build_verifier ::
  "('m \<Rightarrow> string \<Rightarrow> 'k result) \<Rightarrow> ('m, 'j) key_set \<Rightarrow> validation_config \<Rightarrow> string \<Rightarrow> string \<Rightarrow>
     ('m, 'k) ring_verifier result" where
  "build_verifier prepare ks config mech slot =
     (if vc_issuer config \<noteq> kr_issuer ks then Inl ImproperlyConfigured
      else bind (strict_identifier mech) (\<lambda>_.
           bind (strict_identifier slot) (\<lambda>_.
           bind (key_verifiers prepare config mech slot (kr_keys ks) []) (\<lambda>verifiers.
             if verifiers = [] then Inl ImproperlyConfigured
             else Inr \<lparr>rv_config = config, rv_verifiers = verifiers\<rparr>))))"

definition ring_verify ::
  "json_reader \<Rightarrow> ('s, 'k) signature_check \<Rightarrow> ('m, 'k) ring_verifier \<Rightarrow> string \<Rightarrow> py_datetime \<Rightarrow>
     ('s, jwt_claims auth_outcome) port" where
  "ring_verify reader check rv token now =
     (case route_of reader token of
        None \<Rightarrow> pure Auth_Invalid
      | Some route \<Rightarrow>
          (case (member (jr_header route) ''kid'', member (jr_header route) ''alg'') of
             (J_Text key_id, J_Text algorithm) \<Rightarrow>
               (case dget (rv_verifiers rv) (key_id, algorithm) of
                  None \<Rightarrow> pure Auth_Invalid
                | Some v \<Rightarrow> verify_token reader check v token now)
           | _ \<Rightarrow> pure Auth_Invalid))"

section \<open>The local key ring and its signer\<close>

record ('sk, 'm, 'j) signing_key =
  sk_key_id :: string
  sk_algorithm :: string
  sk_private :: 'sk
  sk_verification :: 'm
  sk_public_jwk :: "'j option"

definition as_verification_key :: "('sk, 'm, 'j) signing_key \<Rightarrow> ('m, 'j) verification_key" where
  "as_verification_key k =
     \<lparr>vk_key_id = sk_key_id k, vk_algorithm = sk_algorithm k, vk_material = sk_verification k,
      vk_public_jwk = sk_public_jwk k\<rparr>"

record ('sk, 'm, 'j) key_ring =
  lr_issuer :: string
  lr_active :: "('sk, 'm, 'j) signing_key"
  lr_retained :: "('m, 'j) verification_key list"

definition verification_key_set :: "('sk, 'm, 'j) key_ring \<Rightarrow> ('m, 'j) key_set" where
  "verification_key_set r = \<lparr>kr_issuer = lr_issuer r, kr_keys = as_verification_key (lr_active r) # lr_retained r\<rparr>"

definition key_ring_post_init :: "('sk, 'm, 'j) key_ring \<Rightarrow> ('sk, 'm, 'j) key_ring result" where
  "key_ring_post_init r = bind (key_set_post_init (verification_key_set r)) (\<lambda>_. Inr r)"

definition ring_build_verifier ::
  "('m \<Rightarrow> string \<Rightarrow> 'k result) \<Rightarrow> ('sk, 'm, 'j) key_ring \<Rightarrow> validation_config \<Rightarrow> string \<Rightarrow> string \<Rightarrow>
     ('m, 'k) ring_verifier result" where
  "ring_build_verifier prepare r config mech slot =
     (if sk_algorithm (lr_active r) \<notin> vc_algorithms config then Inl ImproperlyConfigured
      else build_verifier prepare (verification_key_set r) config mech slot)"

text \<open>\<^verbatim>\<open>jwt.encode\<close> in the worker: \<open>None\<close> is any exception.\<close>

type_synonym ('s, 'sk) token_encoder = "json_object \<Rightarrow> 'sk \<Rightarrow> string \<Rightarrow> json_object \<Rightarrow> 's \<Rightarrow> string option \<times> 's"

definition signing_headers :: "('sk, 'm, 'j) signing_key \<Rightarrow> string \<Rightarrow> json_object" where
  "signing_headers k token_type = [(''kid'', J_Text (sk_key_id k)), (''typ'', J_Text token_type)]"

definition sign_local ::
  "('s, 'sk) token_encoder \<Rightarrow> ('sk, 'm, 'j) key_ring \<Rightarrow> json_object \<Rightarrow> py_datetime \<Rightarrow> ('s, string) port" where
  "sign_local encode r claims now =
     call (lift_result (aware_utc_time now)) (\<lambda>t.
     call (lift_result (validate_local_access_claims claims (lr_issuer r) t)) (\<lambda>payload s.
       case encode payload (sk_private (lr_active r)) (sk_algorithm (lr_active r))
              (signing_headers (lr_active r) ''at+jwt'') s of
         (None, s') \<Rightarrow> (Inl RuntimeError, s')
       | (Some token, s') \<Rightarrow> (Inr token, s')))"

section \<open>Bearer slots\<close>

record bearer_selector =
  bs_issuers :: "string set"
  bs_audiences :: "string set"
  bs_token_types :: "string set"

definition bearer_selector_post_init :: "bearer_selector \<Rightarrow> bearer_selector result" where
  "bearer_selector_post_init b =
     bind (strict_identifiers (bs_issuers b)) (\<lambda>issuers.
     bind (strict_identifiers (bs_audiences b)) (\<lambda>audiences.
     bind (strict_identifiers (bs_token_types b)) (\<lambda>types.
       if issuers = {} then Inl ImproperlyConfigured
       else if types = {} then Inl ImproperlyConfigured
       else Inr \<lparr>bs_issuers = issuers, bs_audiences = audiences, bs_token_types = text_lower ` types\<rparr>)))"

record 's bearer_token_slot =
  bt_name :: string
  bt_selector :: bearer_selector
  bt_config :: validation_config
  bt_verify :: "string \<Rightarrow> py_datetime \<Rightarrow> ('s, jwt_claims auth_outcome) port"

definition bearer_token_slot_post_init :: "'s bearer_token_slot \<Rightarrow> 's bearer_token_slot result" where
  "bearer_token_slot_post_init b =
     bind (strict_identifier (bt_name b)) (\<lambda>_.
       let sel = bt_selector b; config = bt_config b
       in if bs_issuers sel \<noteq> {vc_issuer config} \<or>
             (bs_audiences sel \<noteq> {} \<and> \<not> bs_audiences sel \<subseteq> vc_audiences config) \<or>
             \<not> bs_token_types sel \<subseteq> vc_token_types config
          then Inl ImproperlyConfigured else Inr b)"

record 's composite_bearer =
  cb_mechanism :: string
  cb_slots :: "'s bearer_token_slot list"
  cb_maximum_bytes :: int

definition composite_bearer_post_init :: "'s composite_bearer \<Rightarrow> 's composite_bearer result" where
  "composite_bearer_post_init c =
     bind (strict_identifier (cb_mechanism c)) (\<lambda>_.
       if cb_slots c = [] then Inl ImproperlyConfigured
       else if cb_maximum_bytes c < 1 then Inl ImproperlyConfigured
       else if \<not> distinct (map bt_name (cb_slots c)) then Inl ImproperlyConfigured
       else if \<not> distinct (map bt_selector (cb_slots c)) then Inl ImproperlyConfigured
       else Inr c)"

definition selector_matches :: "bearer_selector \<Rightarrow> jwt_route \<Rightarrow> bool" where
  "selector_matches sel route \<longleftrightarrow>
     (case (member (jr_payload route) ''iss'', member (jr_header route) ''typ'',
            normalize_audiences (member (jr_payload route) ''aud'')) of
        (J_Text issuer, J_Text token_type, Some audiences) \<Rightarrow>
          is_strict_identifier issuer \<and> issuer \<in> bs_issuers sel \<and> is_strict_identifier token_type \<and>
          text_lower token_type \<in> bs_token_types sel \<and>
          (bs_audiences sel = {} \<or> audiences \<inter> bs_audiences sel \<noteq> {})
      | _ \<Rightarrow> False)"

text \<open>Header values are bytes below U+0100; the length limits are checked before and after decoding.\<close>

definition extract_bearer :: "int \<Rightarrow> string list \<Rightarrow> (string \<times> string) list \<Rightarrow> string extraction" where
  "extract_bearer maximum_bytes excluded headers =
     (case map snd (filter (\<lambda>(h, v). ascii_lower h = ''authorization'') headers) of
        [] \<Rightarrow> No_Credential
      | [v] \<Rightarrow>
          if int (length v) > 7 + maximum_bytes then Malformed
          else if \<not> is_ascii v then Malformed
          else if \<exists>c\<in>set v. (of_char c :: nat) < 32 \<or> (of_char c :: nat) = 127 then Malformed
          else
            (case partition_at (CHR '' '') v of
               (scheme, separator, token) \<Rightarrow>
                 if \<not> separator \<or> ascii_lower scheme \<noteq> ''bearer'' \<or> token = [] \<or> CHR '' '' \<in> set token \<or>
                    int (length token) > maximum_bytes
                 then Malformed
                 else if \<exists>p\<in>set excluded. take (length p) token = p then No_Credential
                 else Presented token)
      | _ \<Rightarrow> Malformed)"

text \<open>\<^verbatim>\<open>dataclasses.replace\<close> of normalized evidence.\<close>

definition replace_evidence :: "evidence \<Rightarrow> string \<Rightarrow> string \<Rightarrow> evidence result" where
  "replace_evidence e mech slot =
     evidence_post_init
       \<lparr>in_mechanism = mech, in_slot = slot, in_authenticated_at = Aware (ev_authenticated_at e),
        in_expires_at = map_option Aware (ev_expires_at e), in_methods = ev_methods e, in_traits = ev_traits e,
        in_acr = ev_acr e, in_amr = ev_amr e\<rparr>"

definition authenticate_bearer ::
  "json_reader \<Rightarrow> 's composite_bearer \<Rightarrow> ('s, py_datetime) port \<Rightarrow> string \<Rightarrow> ('s, jwt_claims auth_outcome) port" where
  "authenticate_bearer reader c clock credential =
     (case parse_unverified_jwt_route reader credential (cb_maximum_bytes c) default_json_depth of
        None \<Rightarrow> pure Auth_Invalid
      | Some route \<Rightarrow>
          (case filter (\<lambda>b. selector_matches (bt_selector b) route) (cb_slots c) of
             [selected] \<Rightarrow>
               call clock (\<lambda>now.
               call (bt_verify selected credential now) (\<lambda>outcome.
                 case outcome of
                   Auth_None \<Rightarrow> pure Auth_Invalid
                 | Auth_Ok login \<Rightarrow>
                     call (lift_result (replace_evidence (au_evidence login) (cb_mechanism c) (bt_name selected)))
                       (\<lambda>proof. pure (Auth_Ok (login\<lparr>au_evidence := proof,
                          au_claims := (au_claims login)\<lparr>jc_bearer_slot := Some (bt_name selected)\<rparr>\<rparr>)))
                 | Auth_Invalid \<Rightarrow> pure Auth_Invalid
                 | Auth_Unavailable \<Rightarrow> pure Auth_Unavailable))
           | _ \<Rightarrow> pure Auth_Invalid))"

text \<open>\<^verbatim>\<open>extend_composite_bearer\<close>: one more slot, and its claims go to its own resolver.\<close>

definition extend_composite :: "'s composite_bearer \<Rightarrow> 's bearer_token_slot \<Rightarrow> 's composite_bearer result" where
  "extend_composite c b = composite_bearer_post_init (c\<lparr>cb_slots := cb_slots c @ [b]\<rparr>)"

definition selected_resolver ::
  "string \<Rightarrow> (jwt_claims \<Rightarrow> 'r) \<Rightarrow> (jwt_claims \<Rightarrow> 'r) \<Rightarrow> jwt_claims \<Rightarrow> 'r" where
  "selected_resolver slot selected fallback claims =
     (if jc_bearer_slot claims = Some slot then selected claims else fallback claims)"

end
