(* ===== verification/Access_Tokens.thy ===== *)
theory Access_Tokens
  imports JWT_Verification Refresh_Service Local_Store
begin

text \<open>
  Local access tokens (\<^verbatim>\<open>accounts/_access_tokens.py\<close>): the issuer, the verifier that promotes their scopes
  and assurance, and the resolver that checks account and epoch (with \<^verbatim>\<open>SecurityEpochValidator\<close> of
  \<^verbatim>\<open>accounts/_stores.py\<close>).
\<close>

section \<open>Text checks\<close>

definition strict_claim_text :: "string \<Rightarrow> bool" where
  "strict_claim_text v \<longleftrightarrow> v \<noteq> [] \<and> v = strip v \<and> list_all (\<lambda>c. \<not> is_space c \<and> (of_char c :: nat) \<ge> 32) v"

definition valid_compact_access_token :: "string \<Rightarrow> bool" where
  "valid_compact_access_token v \<longleftrightarrow>
     strict_text v \<and> is_ascii v \<and> length v \<le> 16384 \<and>
     length (split_on (CHR ''.'') v) = 3 \<and> [] \<notin> set (split_on (CHR ''.'') v) \<and>
     (\<forall>s\<in>set (split_on (CHR ''.'') v). \<not> isl (decode_random_unbounded s))"

definition local_access_token_post_init :: "local_access_token \<Rightarrow> local_access_token result" where
  "local_access_token_post_init t =
     (if \<not> valid_compact_access_token (lat_access_token t) \<or> \<not> (30 \<le> lat_expires_in t \<and> lat_expires_in t \<le> 3600)
      then Inl ValueError else Inr t)"

definition validate_access_token_lifetime :: "time \<Rightarrow> unit result" where
  "validate_access_token_lifetime v =
     (if v < seconds 30 then Inl ImproperlyConfigured
      else if v > seconds 3600 then Inl ImproperlyConfigured
      else if v mod 1000000 \<noteq> 0 then Inl ImproperlyConfigured
      else Inr ())"

section \<open>The issuer\<close>

record 's access_token_issuer =
  ai_sign :: "json_object \<Rightarrow> py_datetime \<Rightarrow> ('s, string) port"
  ai_issuer :: string
  ai_audience :: string
  ai_client_id :: string
  ai_lifetime :: time
  ai_clock :: "('s, py_datetime) port"
  ai_token_ids :: "('s, string) port"

definition access_token_issuer_post_init :: "'s access_token_issuer \<Rightarrow> 's access_token_issuer result" where
  "access_token_issuer_post_init i =
     (if \<not> (strict_claim_text (ai_issuer i) \<and> strict_claim_text (ai_audience i) \<and> strict_claim_text (ai_client_id i))
      then Inl ImproperlyConfigured
      else bind (validate_access_token_lifetime (ai_lifetime i)) (\<lambda>_. Inr i))"

definition access_request_of ::
  "'s access_token_issuer \<Rightarrow> 'u account \<Rightarrow> string set \<Rightarrow> evidence option \<Rightarrow> string \<Rightarrow> access_request" where
  "access_request_of i account scopes ev token_id =
     \<lparr>aq_issuer = ai_issuer i, aq_audience = ai_audience i, aq_subject = acc_id account, aq_client_id = ai_client_id i,
      aq_security_epoch = acc_epoch account, aq_lifetime = ai_lifetime i, aq_scopes = scopes,
      aq_methods = (case ev of None \<Rightarrow> {} | Some e \<Rightarrow> ev_methods e),
      aq_traits = (case ev of None \<Rightarrow> {} | Some e \<Rightarrow> ev_traits e),
      aq_amr = (case ev of None \<Rightarrow> [] | Some e \<Rightarrow> ev_amr e),
      aq_authenticated_at = map_option (\<lambda>e. Aware (ev_authenticated_at e)) ev,
      aq_jti = Some token_id, aq_not_before = None\<rparr>"

definition issue_access_token ::
  "'s access_token_issuer \<Rightarrow> 'u account \<Rightarrow> string set \<Rightarrow> evidence option \<Rightarrow> py_datetime option \<Rightarrow> 's \<Rightarrow>
     local_access_token verdict \<times> 's" where
  "issue_access_token i account scopes ev now s =
     (if \<not> acc_active account \<or> \<not> acc_verified account then (Invalid_Credentials, s)
      else
        (case call (case now of None \<Rightarrow> ai_clock i | Some t \<Rightarrow> pure t) (\<lambda>reading.
                call (lift_result (aware_utc_time reading)) (\<lambda>t.
                call (ai_token_ids i) (\<lambda>token_id. pure (t, token_id)))) s of
           (Inl e, s1) \<Rightarrow> (Verification_Unavailable, s1)
         | (Inr (issued_at, token_id), s1) \<Rightarrow>
             (case build_access_token_claims [] (access_request_of i account scopes ev token_id) (Aware issued_at) of
                Inl e \<Rightarrow> (Invalid_Credentials, s1)
              | Inr claims \<Rightarrow>
                  sanitized (call (ai_sign i claims (Aware issued_at)) (\<lambda>token.
                    call (lift_result (local_access_token_post_init
                      \<lparr>lat_access_token = token, lat_expires_in = ai_lifetime i div 1000000\<rparr>)) (\<lambda>t.
                      pure (Verified t)))) s1)))"

section \<open>The local verifier\<close>

definition claim_set :: "json \<Rightarrow> string set option" where
  "claim_set v =
     (case v of
        J_Null \<Rightarrow> Some {}
      | _ \<Rightarrow> (case sequence_of v of None \<Rightarrow> None | Some vs \<Rightarrow> strict_texts vs strict_claim_text))"

definition claim_authentication_time :: "json \<Rightarrow> time \<Rightarrow> time option" where
  "claim_authentication_time v fallback =
     (case v of J_Null \<Rightarrow> Some fallback | J_Int n \<Rightarrow> from_timestamp n | _ \<Rightarrow> None)"

definition scope_grants :: "string set \<Rightarrow> string snapshot" where
  "scope_grants scopes = no_grants\<lparr>sn_scopes := scopes\<rparr>"

definition promote ::
  "jwt_claims verified_login \<Rightarrow> ('s, jwt_claims auth_outcome) port" where
  "promote login =
     (let claims = au_claims login; e = au_evidence login
      in case (claim_set (member (jc_raw claims) ''amr''), claim_set (member (jc_raw claims) ''security_traits''),
               claim_authentication_time (member (jc_raw claims) ''auth_time'') (jc_issued_at claims)) of
           (Some methods, Some traits, Some authenticated_at) \<Rightarrow>
             call (lift_result (evidence_post_init
               \<lparr>in_mechanism = ev_mechanism e, in_slot = ev_slot e, in_authenticated_at = Aware authenticated_at,
                in_expires_at = map_option Aware (ev_expires_at e), in_methods = methods, in_traits = traits,
                in_acr = ev_acr e, in_amr = sorted_list_of_set methods\<rparr>)) (\<lambda>proof.
               pure (Auth_Ok (login\<lparr>au_evidence := proof, au_grants := scope_grants (jc_scopes claims)\<rparr>)))
         | _ \<Rightarrow> pure Auth_Invalid)"

definition local_access_verify ::
  "(string \<Rightarrow> py_datetime \<Rightarrow> ('s, jwt_claims auth_outcome) port) \<Rightarrow> string \<Rightarrow> py_datetime \<Rightarrow>
     ('s, jwt_claims auth_outcome) port" where
  "local_access_verify verifier token now =
     call (verifier token now) (\<lambda>outcome.
       case outcome of
         Auth_Ok login \<Rightarrow> promote login
       | Auth_None \<Rightarrow> pure Auth_None
       | Auth_Invalid \<Rightarrow> pure Auth_Invalid
       | Auth_Unavailable \<Rightarrow> pure Auth_Unavailable)"

section \<open>The resolver\<close>

text \<open>\<open>None\<close>: the claimed epoch is current.\<close>

definition validate_epoch ::
  "(string \<Rightarrow> ('s, int option) port) \<Rightarrow> string \<Rightarrow> int \<Rightarrow> 's \<Rightarrow> 'p verdict option \<times> 's" where
  "validate_epoch epochs account_id claimed s =
     (if \<not> strict_text account_id \<or> \<not> valid_security_epoch claimed then (Some Invalid_Credentials, s)
      else case epochs account_id s of
        (Inl e, s') \<Rightarrow> (Some Verification_Unavailable, s')
      | (Inr epoch, s') \<Rightarrow>
          (if (case epoch of None \<Rightarrow> True | Some n \<Rightarrow> \<not> valid_security_epoch n \<or> n \<noteq> claimed)
           then Some Invalid_Credentials else None, s'))"

definition account_principal :: "'u account \<Rightarrow> 'u principal result" where
  "account_principal account =
     principal_post_init
       \<lparr>principal_id = Some (acc_id account), display_name = acc_display_name account,
        principal_user = acc_user account\<rparr>"

definition resolve_bearer ::
  "(string \<Rightarrow> ('s, 'u account option) port) \<Rightarrow> (string \<Rightarrow> ('s, int option) port) \<Rightarrow> jwt_claims \<Rightarrow>
     ('s, 'u principal verdict) port" where
  "resolve_bearer get epochs claims s =
     (case (member (jc_raw claims) ''se'', jc_subject claims) of
        (J_Int epoch, Some subject) \<Rightarrow>
          if \<not> valid_security_epoch epoch then (Inr Invalid_Credentials, s)
          else
            (case get subject s of
               (Inl e, s1) \<Rightarrow> (Inr Verification_Unavailable, s1)
             | (Inr None, s1) \<Rightarrow> (Inr Invalid_Credentials, s1)
             | (Inr (Some account), s1) \<Rightarrow>
                 if acc_id account \<noteq> subject \<or> \<not> acc_active account \<or> \<not> acc_verified account \<or>
                    acc_epoch account \<noteq> epoch
                 then (Inr Invalid_Credentials, s1)
                 else
                   (case validate_epoch epochs subject epoch s1 of
                      (Some refusal, s2) \<Rightarrow> (Inr refusal, s2)
                    | (None, s2) \<Rightarrow>
                        call (lift_result (account_principal account)) (\<lambda>p. pure (Verified p)) s2))
      | _ \<Rightarrow> (Inr Invalid_Credentials, s))"

end
