(* ===== verification/Signing_Library.thy ===== *)
theory Signing_Library
  imports JWT_Verification
begin

text \<open>
  The law PyJWT is held to: what it signs reads back. \<open>library_signs\<close> states it for one key and token
  type, over the segments of the compact form; the unverified route of such a token is the frozen
  header and payload, provided the payload respects the parser's limits.
\<close>

section \<open>Plain documents\<close>

text \<open>Values \<^verbatim>\<open>json.dumps\<close> and \<^verbatim>\<open>json.loads\<close> round-trip: no tuple, no non-finite float, no repeated member.\<close>

fun plain_json :: "json \<Rightarrow> bool" where
  "plain_json (J_Tuple vs) = False"
| "plain_json (J_Constant c) = False"
| "plain_json (J_Float x) = (x \<noteq> None)"
| "plain_json (J_List vs) = list_all plain_json vs"
| "plain_json (J_Object ms) = (distinct (map fst ms) \<and> list_all (\<lambda>m. plain_json (snd m)) ms)"
| "plain_json v = True"

lemma hooked_plain:
  "plain_json v \<Longrightarrow> hooked v = Inr v"
  "list_all plain_json vs \<Longrightarrow> hooked_items vs = Inr vs"
  "list_all (\<lambda>m. plain_json (snd m)) ms \<Longrightarrow> hooked_members ms = Inr ms"
proof (induction v and vs and ms rule: hooked_hooked_items_hooked_members.induct)
  case (3 ms)
  then show ?case
    by (simp add: unique_object_def)
qed simp_all

section \<open>Compact tokens\<close>

definition read_segment :: "json_reader \<Rightarrow> string \<Rightarrow> json option" where
  "read_segment reader segment = (case decode_base64url segment of Inl e \<Rightarrow> None | Inr raw \<Rightarrow> reader raw)"

definition compact_token :: "json_reader \<Rightarrow> string \<Rightarrow> json_object \<Rightarrow> json_object \<Rightarrow> bool" where
  "compact_token reader token header payload \<longleftrightarrow>
     is_ascii token \<and>
     (case split_on (CHR ''.'') token of
        [h, p, s] \<Rightarrow>
          read_segment reader h = Some (J_Object header) \<and> read_segment reader p = Some (J_Object payload) \<and>
          \<not> isl (decode_base64url s)
      | _ \<Rightarrow> False)"

lemma decode_plain_segment:
  assumes "read_segment reader segment = Some (J_Object d)" "plain_json (J_Object d)" "json_depth (J_Object d) \<le> maximum"
  shows "decode_json_segment reader maximum segment = Inr d"
proof -
  obtain raw where raw: "decode_base64url segment = Inr raw" "reader raw = Some (J_Object d)"
    using assms(1) by (auto simp: read_segment_def split: sum.splits)
  have "hooked (J_Object d) = Inr (J_Object d)"
    by (rule hooked_plain(1) [OF assms(2)])
  moreover have "validate_depth maximum (J_Object d)"
    using assms(3) by (simp add: validate_depth_def depth_scan_iff)
  ultimately show ?thesis
    unfolding decode_json_segment_def raw(1) bind_simps option.simps raw(2) by simp
qed

lemma decoded_not_empty: "decode_base64url [] = Inl ValueError"
  by (simp add: decode_base64url_def)

lemma route_of_compact:
  assumes "compact_token reader token header payload" "int (length token) \<le> default_token_bytes"
    "plain_json (J_Object header)" "json_depth (J_Object header) \<le> 32"
    "plain_json (J_Object payload)" "json_depth (J_Object payload) \<le> 32"
  shows "route_of reader token = Some \<lparr>jr_header = freeze_members header, jr_payload = freeze_members payload\<rparr>"
proof -
  obtain h p s where segments: "split_on (CHR ''.'') token = [h, p, s]" "is_ascii token"
    "read_segment reader h = Some (J_Object header)" "read_segment reader p = Some (J_Object payload)"
    "\<not> isl (decode_base64url s)"
    using assms(1) by (auto simp: compact_token_def split: list.splits)
  have "h \<noteq> []" "p \<noteq> []" "s \<noteq> []"
    using segments(3-5) decoded_not_empty by (auto simp: read_segment_def)
  moreover obtain b where "decode_base64url s = Inr b"
    using segments(5) by (cases "decode_base64url s") auto
  moreover have "decode_json_segment reader 32 h = Inr header" "decode_json_segment reader 32 p = Inr payload"
    using decode_plain_segment segments(3,4) assms(3-6) by blast+
  ultimately show ?thesis
    using segments(1,2) assms(2)
    by (simp add: route_of_def parse_unverified_jwt_route_def default_token_bytes_def default_json_depth_def)
qed

section \<open>The signing library\<close>

text \<open>PyJWT fills \<^verbatim>\<open>typ\<close> and \<^verbatim>\<open>alg\<close> first; the given headers overwrite the type and append the key id.\<close>

definition protected_header :: "('sk, 'm, 'j) signing_key \<Rightarrow> string \<Rightarrow> json_object" where
  "protected_header k token_type =
     [(''typ'', J_Text token_type), (''alg'', J_Text (sk_algorithm k)), (''kid'', J_Text (sk_key_id k))]"

text \<open>
  A token encoded with the private key of \<open>k\<close> consists of the base64url texts of that header and of the
  payload, and its signature verifies under whatever \<open>prepared\<close> the public half was prepared to.
\<close>

definition library_signs ::
  "json_reader \<Rightarrow> ('s, 'k) signature_check \<Rightarrow> 'k result \<Rightarrow> ('s, 'sk) token_encoder \<Rightarrow> ('sk, 'm, 'j) signing_key \<Rightarrow>
     string \<Rightarrow> bool" where
  "library_signs reader check prepared encode k token_type \<longleftrightarrow>
     (\<forall>payload s token s'.
        plain_json (J_Object payload) \<longrightarrow>
        encode payload (sk_private k) (sk_algorithm k) (signing_headers k token_type) s = (Some token, s') \<longrightarrow>
        compact_token reader token (protected_header k token_type) payload \<and>
        (\<forall>key u. prepared = Inr key \<longrightarrow> fst (check key (sk_algorithm k) token u) = Signature_Good))"

definition usable_key :: "('sk, 'm, 'j) signing_key \<Rightarrow> bool" where
  "usable_key k \<longleftrightarrow> is_strict_identifier (sk_key_id k) \<and> sk_algorithm k \<in> supported_algorithms"

lemma protected_plain: "plain_json (J_Object (protected_header k t))" "json_depth (J_Object (protected_header k t)) = 2"
  by (simp_all add: protected_header_def)

lemma library_signs_route:
  assumes "library_signs reader check prepared encode k token_type" "plain_json (J_Object payload)"
    "json_depth (J_Object payload) \<le> 32"
    "encode payload (sk_private k) (sk_algorithm k) (signing_headers k token_type) s = (Some token, s')"
    "int (length token) \<le> default_token_bytes"
  shows "route_of reader token =
      Some \<lparr>jr_header = freeze_members (protected_header k token_type), jr_payload = freeze_members payload\<rparr>"
    and "prepared = Inr key \<Longrightarrow> fst (check key (sk_algorithm k) token u) = Signature_Good"
proof -
  have signed: "compact_token reader token (protected_header k token_type) payload"
    "prepared = Inr key \<Longrightarrow> fst (check key (sk_algorithm k) token u) = Signature_Good"
    using assms(1,2,4) unfolding library_signs_def by blast+
  have "json_depth (J_Object (protected_header k token_type)) \<le> 32"
    unfolding protected_plain by simp
  with signed(1) assms(5) show "route_of reader token =
      Some \<lparr>jr_header = freeze_members (protected_header k token_type), jr_payload = freeze_members payload\<rparr>"
    by (intro route_of_compact assms(2,3) protected_plain(1))
  show "prepared = Inr key \<Longrightarrow> fst (check key (sk_algorithm k) token u) = Signature_Good"
    by (rule signed(2))
qed

lemma protected_members:
  "member (protected_header k t) ''typ'' = J_Text t" "member (protected_header k t) ''alg'' = J_Text (sk_algorithm k)"
  "member (protected_header k t) ''kid'' = J_Text (sk_key_id k)"
  by (simp_all add: member_def protected_header_def)

lemma protected_not_forbidden: "n \<in> forbidden_headers \<Longrightarrow> \<not> has (protected_header k t) n"
  unfolding forbidden_headers_def has_def protected_header_def by (elim insertE emptyE) simp_all

end
