(* ===== verification/Purpose_Tokens.thy ===== *)
theory Purpose_Tokens
  imports Account_Store Refresh_Tokens Ports API_Keys
begin

text \<open>
  The purpose-token codec of \<^verbatim>\<open>accounts/_purpose_tokens.py\<close>: issuing a token with its storage digest
  and its notification, and reading a presented token back into a storage proof. \<^verbatim>\<open>urlsplit\<close>, HMAC and
  entropy are parameters.
\<close>

section \<open>Notifications\<close>

record return_url_parts =
  rup_scheme :: string
  rup_netloc :: string
  rup_username :: "string option"
  rup_password :: "string option"
  rup_fragment :: string

text \<open>\<^verbatim>\<open>urlsplit\<close>: \<open>None\<close> is its ValueError.\<close>

type_synonym url_splitter = "string \<Rightarrow> return_url_parts option"

definition approved_return_url :: "url_splitter \<Rightarrow> string \<Rightarrow> bool result" where
  "approved_return_url split v =
     (if strip v = [] \<or> list_ex (\<lambda>c. (of_char c :: nat) < 32) v then Inr False
      else case split v of
        None \<Rightarrow> Inl ValueError
      | Some u \<Rightarrow> Inr (rup_scheme u \<in> {''http'', ''https''} \<and> rup_netloc u \<noteq> [] \<and> rup_username u = None \<and>
          rup_password u = None \<and> rup_fragment u = []))"

record 't notification =
  no_template :: string
  no_destination :: string
  no_token :: string
  no_expires_at :: 't
  no_return_url :: "string option"

definition notification_post_init ::
  "url_splitter \<Rightarrow> py_datetime notification \<Rightarrow> time notification result" where
  "notification_post_init split n =
     (if \<not> strict_text (no_template n) \<or> \<not> strict_text (no_token n) then Inl ValueError
      else if \<not> strict_context_text (no_destination n) then Inl ValueError
      else bind (aware_utc_time (no_expires_at n)) (\<lambda>expires_at.
        bind (case no_return_url n of None \<Rightarrow> Inr True | Some url \<Rightarrow> approved_return_url split url) (\<lambda>approved.
          if \<not> approved then Inl ValueError
          else Inr \<lparr>no_template = no_template n, no_destination = no_destination n, no_token = no_token n,
            no_expires_at = expires_at, no_return_url = no_return_url n\<rparr>)))"

record token_delivery =
  td_issue :: "time pending_issue"
  td_notification :: "time notification"

definition bind_delivery ::
  "token_delivery \<Rightarrow> string \<Rightarrow> int option \<Rightarrow> (time token_issue \<times> time notification) result" where
  "bind_delivery d account_id epoch =
     bind (bind_issue (td_issue d) account_id epoch) (\<lambda>issue. Inr (issue, td_notification d))"

section \<open>The codec\<close>

record 's purpose_codec =
  pt_pepper :: bytes
  pt_hmac :: hmac_function
  pt_split :: url_splitter
  pt_entropy :: "nat \<Rightarrow> ('s, bytes) port"

definition purpose_codec_post_init :: "'s purpose_codec \<Rightarrow> 's purpose_codec result" where
  "purpose_codec_post_init c =
     (if length (pt_pepper c) < minimum_pepper_bytes then Inl ImproperlyConfigured else Inr c)"

definition purpose_token_digest :: "'s purpose_codec \<Rightarrow> token_purpose \<Rightarrow> bytes \<Rightarrow> bytes \<Rightarrow> bytes" where
  "purpose_token_digest c purpose lookup secret =
     pt_hmac c (pt_pepper c) (ascii_bytes (purpose_value purpose) @ lookup @ secret)"

text \<open>\<^verbatim>\<open>PurposeTokenGenerationError\<close> is a RuntimeError.\<close>

definition purpose_entropy :: "'s purpose_codec \<Rightarrow> nat \<Rightarrow> ('s, bytes) port" where
  "purpose_entropy c n s =
     (case pt_entropy c n s of
        (Inl e, s') \<Rightarrow> (Inl RuntimeError, s')
      | (Inr v, s') \<Rightarrow> (if length v \<noteq> n then Inl RuntimeError else Inr v, s'))"

definition purpose_token :: "token_purpose \<Rightarrow> bytes \<Rightarrow> bytes \<Rightarrow> string" where
  "purpose_token purpose lookup secret =
     (purpose_prefix purpose @ encode_random lookup) @ CHR ''.'' # encode_random secret"

definition issue_purpose_token ::
  "'s purpose_codec \<Rightarrow> token_purpose \<Rightarrow> py_datetime \<Rightarrow> time \<Rightarrow> string \<Rightarrow> string \<Rightarrow> string option \<Rightarrow> int \<Rightarrow>
     ('s, token_delivery) port" where
  "issue_purpose_token c purpose now lifetime template destination return_url maximum_attempts =
     call (lift_result (aware_utc_time now)) (\<lambda>issued_at.
       if lifetime \<le> 0 then raise ValueError
       else if \<not> (1 \<le> maximum_attempts \<and> maximum_attempts \<le> 100) then raise ValueError
       else
         call (purpose_entropy c 16) (\<lambda>lookup.
         call (purpose_entropy c 32) (\<lambda>secret.
         call (lift_result (pending_issue_post_init
           \<lparr>pi_token_id = purpose_prefix purpose @ encode_random lookup,
            pi_digest = purpose_token_digest c purpose lookup secret, pi_purpose = purpose,
            pi_expires_at = Aware (issued_at + lifetime), pi_maximum_attempts = maximum_attempts\<rparr>)) (\<lambda>issue.
         call (lift_result (notification_post_init (pt_split c)
           \<lparr>no_template = template, no_destination = destination, no_token = purpose_token purpose lookup secret,
            no_expires_at = Aware (pi_expires_at issue), no_return_url = return_url\<rparr>)) (\<lambda>notification.
           pure \<lparr>td_issue = issue, td_notification = notification\<rparr>)))))"

record purpose_proof =
  pp_token_id :: string
  pp_digest :: bytes
  pp_purpose :: token_purpose

definition purpose_proof_post_init :: "purpose_proof \<Rightarrow> purpose_proof result" where
  "purpose_proof_post_init p =
     (if \<not> valid_token_id (pp_token_id p) (pp_purpose p) \<or> length (pp_digest p) \<noteq> digest_bytes
      then Inl ValueError else Inr p)"

text \<open>
  \<^verbatim>\<open>compare_digest\<close> of two texts refuses non-ASCII text with TypeError; the conjunction reaches it once
  both separators are present. The token is read before the expected digest is computed, and every
  rejection computes that digest over a stand-in.
\<close>

definition purpose_proof_of :: "'s purpose_codec \<Rightarrow> token_purpose \<Rightarrow> string option \<Rightarrow> purpose_proof option result" where
  "purpose_proof_of c expected token =
     (case token of
        None \<Rightarrow> Inr None
      | Some t \<Rightarrow>
          (case partition_at (CHR ''.'') t of
             (left, separator, secret_segment) \<Rightarrow>
               (case partition_at (CHR ''_'') left of
                  (namespace, purpose_separator, lookup_segment) \<Rightarrow>
                    let decoded_lookup = decode_token_segment lookup_segment 16;
                        decoded_secret = decode_token_segment secret_segment 32
                    in if \<not> separator \<or> CHR ''.'' \<in> set secret_segment \<or> \<not> purpose_separator then Inr None
                       else if \<not> is_ascii namespace then Inl TypeError
                       else if namespace \<noteq> purpose_value expected \<or>
                               \<not> starts_with_prefix (purpose_prefix expected) left
                       then Inr None
                       else (case (decoded_lookup, decoded_secret) of
                         (Some lookup, Some secret) \<Rightarrow>
                           bind (purpose_proof_post_init
                             \<lparr>pp_token_id = left, pp_digest = purpose_token_digest c expected lookup secret,
                              pp_purpose = expected\<rparr>) (\<lambda>p. Inr (Some p))
                       | _ \<Rightarrow> Inr None))))"

section \<open>A proof is the token it was made from\<close>

lemma decode_token_segment_iff:
  assumes "n = 16 \<or> n = 32"
  shows "decode_token_segment s n = Some b \<longleftrightarrow> length b = n \<and> s = encode_random b"
proof
  assume d: "decode_token_segment s n = Some b"
  then show "length b = n \<and> s = encode_random b"
    by (auto simp: decode_token_segment_def Let_def split: if_splits option.splits)
next
  assume b: "length b = n \<and> s = encode_random b"
  moreover have "is_ascii (encode_random b)"
    by (simp add: encode_random_core is_ascii_core)
  ultimately show "decode_token_segment s n = Some b"
    using assms by (auto simp: decode_token_segment_def length_encode_random decode_padded_encode)
qed

lemma purpose_value_plain:
  "CHR ''_'' \<notin> set (purpose_value p)" "CHR ''.'' \<notin> set (purpose_value p)" "is_ascii (purpose_value p)"
  by (cases p; simp add: is_ascii_def)+

lemma starts_with_prefix_append [simp]: "starts_with_prefix p (p @ s)"
  by (simp add: starts_with_prefix_def)

lemma purpose_proof_of_token:
  assumes "length lookup = 16" "length secret = 32" "\<And>m. length (pt_hmac c (pt_pepper c) m) = digest_bytes"
  shows "purpose_proof_of c p (Some (purpose_token p lookup secret)) = Inr (Some
    \<lparr>pp_token_id = purpose_prefix p @ encode_random lookup, pp_digest = purpose_token_digest c p lookup secret,
     pp_purpose = p\<rparr>)"
proof -
  have "CHR ''.'' \<notin> set (purpose_prefix p @ encode_random lookup)"
    using encode_random_chars purpose_value_plain(2) by (auto simp: purpose_prefix_def)
  then have "partition_at (CHR ''.'') (purpose_token p lookup secret) =
      (purpose_prefix p @ encode_random lookup, True, encode_random secret)"
    unfolding purpose_token_def by (rule partition_at_append)
  moreover have "partition_at (CHR ''_'') (purpose_prefix p @ encode_random lookup) =
      (purpose_value p, True, encode_random lookup)"
    using partition_at_append [OF purpose_value_plain(1)] by (simp add: purpose_prefix_def)
  moreover have "CHR ''.'' \<notin> set (encode_random secret)"
    using encode_random_chars by blast
  moreover have "decode_token_segment (encode_random lookup) 16 = Some lookup"
    "decode_token_segment (encode_random secret) 32 = Some secret"
    using assms(1,2) by (simp_all add: decode_token_segment_iff)
  moreover have "valid_token_id (purpose_prefix p @ encode_random lookup) p"
    using assms(1) valid_token_id_iff by blast
  ultimately show ?thesis
    using assms(3) purpose_value_plain(3) [of p]
    by (simp add: purpose_proof_of_def purpose_proof_post_init_def purpose_token_digest_def)
qed

lemma purpose_proof_of_iff:
  assumes "\<And>m. length (pt_hmac c (pt_pepper c) m) = digest_bytes"
  shows "purpose_proof_of c p (Some t) = Inr (Some proof') \<longleftrightarrow>
    (\<exists>lookup secret. length lookup = 16 \<and> length secret = 32 \<and> t = purpose_token p lookup secret \<and>
       proof' = \<lparr>pp_token_id = purpose_prefix p @ encode_random lookup,
         pp_digest = purpose_token_digest c p lookup secret, pp_purpose = p\<rparr>)"
    (is "?l \<longleftrightarrow> ?r")
proof
  assume l: ?l
  obtain left sep secret_segment where dot: "partition_at (CHR ''.'') t = (left, sep, secret_segment)"
    by (cases "partition_at (CHR ''.'') t") auto
  obtain ns sep' lookup_segment where under: "partition_at (CHR ''_'') left = (ns, sep', lookup_segment)"
    by (cases "partition_at (CHR ''_'') left") auto
  have s: "sep" "sep'" "ns = purpose_value p"
    using l dot under by (auto simp: purpose_proof_of_def Let_def split: if_splits)
  obtain lookup secret where d: "decode_token_segment lookup_segment 16 = Some lookup"
      "decode_token_segment secret_segment 32 = Some secret"
    and p: "proof' = \<lparr>pp_token_id = left, pp_digest = purpose_token_digest c p lookup secret, pp_purpose = p\<rparr>"
    using l dot under
    by (auto simp: purpose_proof_of_def purpose_proof_post_init_def Let_def bind_def
        split: if_splits option.splits sum.splits)
  have "left = purpose_prefix p @ encode_random lookup" "length lookup = 16"
    using partition_at_True [of "CHR ''_''" left ns lookup_segment] under s d(1)
    by (simp_all add: decode_token_segment_iff purpose_prefix_def)
  moreover have "t = left @ CHR ''.'' # encode_random secret" "length secret = 32"
    using partition_at_True [of "CHR ''.''" t left secret_segment] dot s d(2)
    by (simp_all add: decode_token_segment_iff)
  ultimately show ?r
    using p unfolding purpose_token_def by blast
next
  assume ?r
  then show ?l
    using purpose_proof_of_token [OF _ _ assms] by blast
qed

text \<open>A token whose namespace is not ASCII is not rejected: the comparison raises.\<close>

lemma non_ascii_namespace_raises:
  assumes "\<not> is_ascii ns" "CHR ''_'' \<notin> set ns" "CHR ''.'' \<notin> set (ns @ rest)" "CHR ''.'' \<notin> set secret"
  shows "purpose_proof_of c p (Some ((ns @ CHR ''_'' # rest) @ CHR ''.'' # secret)) = Inl TypeError"
proof -
  have "partition_at (CHR ''.'') ((ns @ CHR ''_'' # rest) @ CHR ''.'' # secret) = (ns @ CHR ''_'' # rest, True, secret)"
    by (rule partition_at_append) (use assms(3) in auto)
  moreover have "partition_at (CHR ''_'') (ns @ CHR ''_'' # rest) = (ns, True, rest)"
    by (rule partition_at_append [OF assms(2)])
  ultimately show ?thesis
    using assms(1,4) by (simp add: purpose_proof_of_def Let_def)
qed

lemma issue_purpose_token_Inr:
  assumes "issue_purpose_token c p now lifetime template destination return_url n s = (Inr d, s')"
  obtains t lookup secret s1 where "aware_utc_time now = Inr t" "length lookup = 16" "length secret = 32"
    "purpose_entropy c 16 s = (Inr lookup, s1)" "purpose_entropy c 32 s1 = (Inr secret, s')"
    "td_issue d = \<lparr>pi_token_id = purpose_prefix p @ encode_random lookup,
       pi_digest = purpose_token_digest c p lookup secret, pi_purpose = p, pi_expires_at = t + lifetime,
       pi_maximum_attempts = n\<rparr>"
    "no_token (td_notification d) = purpose_token p lookup secret" "no_destination (td_notification d) = destination"
    "0 < lifetime" "1 \<le> n" "n \<le> 100"
proof -
  obtain t lookup s1 secret s2 issue notif where
    t: "aware_utc_time now = Inr t" "0 < lifetime" "1 \<le> n" "n \<le> 100"
    and e: "purpose_entropy c 16 s = (Inr lookup, s1)" "purpose_entropy c 32 s1 = (Inr secret, s2)"
    and i: "pending_issue_post_init \<lparr>pi_token_id = purpose_prefix p @ encode_random lookup,
       pi_digest = purpose_token_digest c p lookup secret, pi_purpose = p, pi_expires_at = Aware (t + lifetime),
       pi_maximum_attempts = n\<rparr> = Inr issue"
    and m: "notification_post_init (pt_split c)
      \<lparr>no_template = template, no_destination = destination, no_token = purpose_token p lookup secret,
       no_expires_at = Aware (pi_expires_at issue), no_return_url = return_url\<rparr> = Inr notif"
    and d: "d = \<lparr>td_issue = issue, td_notification = notif\<rparr>" "s' = s2"
    using assms by (auto simp: issue_purpose_token_def run_ok simp del: call_lift split: if_splits)
  have "length lookup = 16" "length secret = 32"
    using e by (auto simp: purpose_entropy_def split: prod.splits sum.splits if_splits)
  moreover have "issue = \<lparr>pi_token_id = purpose_prefix p @ encode_random lookup,
       pi_digest = purpose_token_digest c p lookup secret, pi_purpose = p, pi_expires_at = t + lifetime,
       pi_maximum_attempts = n\<rparr>"
    using i by (auto simp: pending_issue_post_init_def validate_pending_token_issue_def bind_eq_Inr split: if_splits)
  moreover have "no_token notif = purpose_token p lookup secret" "no_destination notif = destination"
    using m by (auto simp: notification_post_init_def bind_eq_Inr split: if_splits)
  ultimately show thesis
    using that t e d by simp
qed

end
