(* ===== verification/Passwords.thy ===== *)
theory Passwords
  imports Account_Store Ports Encodings
begin

text \<open>
  Password policy and Argon2id hashing (\<^verbatim>\<open>accounts/_passwords.py\<close>, \<^verbatim>\<open>workers.py\<close>). The Argon2 library
  is a parameter: hashing, verification with its exceptions, and the parameters it reads out of an
  encoded hash. Text is encoded to UTF-8 without error here, because every character of the model is
  encodable; a worker that overruns its time limit is one of the engine's failures.
\<close>

section \<open>Policy\<close>

datatype password_violation =
  Too_Short | Too_Long | Too_Many_Bytes | Invalid_Text | Matches_Identifier | Compromised

record password_policy =
  pw_minimum_length :: int
  pw_maximum_length :: int
  pw_maximum_bytes :: int
  pw_normalizer :: "string \<Rightarrow> string result"
  pw_compromised :: "(string \<Rightarrow> bool option result) option"

definition maximum_password_bytes :: int where "maximum_password_bytes = 1024"

definition password_policy_post_init :: "password_policy \<Rightarrow> password_policy result" where
  "password_policy_post_init p =
     (if pw_minimum_length p < 1 \<or> pw_maximum_length p < pw_minimum_length p \<or>
         \<not> (1 \<le> pw_maximum_bytes p \<and> pw_maximum_bytes p \<le> maximum_password_bytes)
      then Inl ImproperlyConfigured else Inr p)"

definition password_shape_violations :: "password_policy \<Rightarrow> string \<Rightarrow> password_violation set" where
  "password_shape_violations p password =
     (if int (length password) < pw_minimum_length p then {Too_Short} else {}) \<union>
     (if int (length password) > pw_maximum_length p then {Too_Long} else {}) \<union>
     (if int (utf8_length password) > pw_maximum_bytes p then {Too_Many_Bytes} else {})"

definition password_matches_identifier :: "password_policy \<Rightarrow> string \<Rightarrow> string \<Rightarrow> bool result" where
  "password_matches_identifier p password identifier =
     bind (pw_normalizer p password) (\<lambda>candidate.
     bind (pw_normalizer p identifier) (\<lambda>expected. Inr (candidate = expected)))"

definition identifier_violations ::
  "password_policy \<Rightarrow> string \<Rightarrow> string option \<Rightarrow> password_violation set result" where
  "identifier_violations p password identifier =
     (case identifier of
        None \<Rightarrow> Inr {}
      | Some i \<Rightarrow>
          (case password_matches_identifier p password i of
             Inr matches \<Rightarrow> Inr (if matches then {Matches_Identifier} else {})
           | Inl e \<Rightarrow> if e = TypeError \<or> e = ValueError then Inr {Invalid_Text} else Inl e))"

text \<open>A predicate that does not return a boolean is a configuration error (\<open>Some None\<close>).\<close>

definition check_password ::
  "password_policy \<Rightarrow> string \<Rightarrow> string option \<Rightarrow> password_violation set result" where
  "check_password p password identifier =
     bind (identifier_violations p password identifier) (\<lambda>found.
       let violations = password_shape_violations p password \<union> found
       in if violations \<noteq> {} then Inr violations
          else case pw_compromised p of
            None \<Rightarrow> Inr {}
          | Some compromised \<Rightarrow>
              bind (compromised password) (\<lambda>answer.
                case answer of
                  None \<Rightarrow> Inl ImproperlyConfigured
                | Some bad \<Rightarrow> Inr (if bad then {Compromised} else {})))"

section \<open>Hashing\<close>

datatype verification_result = Password_Verified | Password_Invalid | Password_Malformed | Password_Too_Long

record verification_decision =
  vd_status :: verification_result
  vd_replacement :: "string option"

definition decision_post_init :: "verification_decision \<Rightarrow> verification_decision result" where
  "decision_post_init d =
     (if vd_replacement d \<noteq> None \<and> vd_status d \<noteq> Password_Verified then Inl ValueError else Inr d)"

definition rejected :: "verification_result \<Rightarrow> verification_decision result" where
  "rejected status = decision_post_init \<lparr>vd_status = status, vd_replacement = None\<rparr>"

text \<open>The hashing port of the services (\<^verbatim>\<open>PasswordHasher\<close>).\<close>

record 's password_hasher =
  ph_hash :: "string \<Rightarrow> ('s, string) port"
  ph_verify :: "string option \<Rightarrow> string \<Rightarrow> ('s, verification_decision) port"

datatype argon2_type = Argon2_D | Argon2_I | Argon2_ID

record argon2_parameters =
  ap_type :: argon2_type
  ap_version :: int
  ap_memory :: int
  ap_time :: int
  ap_parallelism :: int
  ap_salt :: int
  ap_hash :: int

datatype engine_answer = Argon_Match | Argon_No_Match | Argon_Mismatch | Argon_Rejected | Argon_Failed

record 's argon2_engine =
  ae_hash :: "bytes \<Rightarrow> ('s, string) port"
  ae_verify :: "string \<Rightarrow> bytes \<Rightarrow> 's \<Rightarrow> engine_answer \<times> 's"
  ae_parameters :: "string \<Rightarrow> argon2_parameters option"

record 's argon2_hasher =
  ah_memory :: int
  ah_time :: int
  ah_parallelism :: int
  ah_salt :: int
  ah_hash :: int
  ah_crypto_tokens :: int
  ah_dummy :: string
  ah_engine :: "'s argon2_engine"

definition maximum_worker_tokens :: int where "maximum_worker_tokens = 1024"
definition maximum_worker_memory :: int where "maximum_worker_memory = 1048576"

definition worker_tokens_ok :: "int \<Rightarrow> bool" where
  "worker_tokens_ok n \<longleftrightarrow> 1 \<le> n \<and> n \<le> maximum_worker_tokens"

definition argon2_configuration_ok :: "'s argon2_hasher \<Rightarrow> bool" where
  "argon2_configuration_ok h \<longleftrightarrow>
     19456 \<le> ah_memory h \<and> ah_memory h \<le> 262144 \<and> 2 \<le> ah_time h \<and> ah_time h \<le> 10 \<and>
     1 \<le> ah_parallelism h \<and> ah_parallelism h \<le> 8 \<and> 16 \<le> ah_salt h \<and> ah_salt h \<le> 64 \<and>
     32 \<le> ah_hash h \<and> ah_hash h \<le> 64 \<and> ah_memory h * ah_crypto_tokens h \<le> maximum_worker_memory"

definition safe_argon2_parameters :: "'s argon2_hasher \<Rightarrow> string \<Rightarrow> argon2_parameters option" where
  "safe_argon2_parameters h encoded =
     (if \<not> is_ascii encoded \<or> length encoded > 1024 then None
      else case ae_parameters (ah_engine h) encoded of
        None \<Rightarrow> None
      | Some p \<Rightarrow>
          if ap_type p \<noteq> Argon2_ID \<or> ap_version p \<noteq> 19 \<or>
             \<not> (1 \<le> ap_memory p \<and> ap_memory p \<le> 262144) \<or> \<not> (1 \<le> ap_time p \<and> ap_time p \<le> 10) \<or>
             \<not> (1 \<le> ap_parallelism p \<and> ap_parallelism p \<le> 8) \<or> \<not> (1 \<le> ap_salt p \<and> ap_salt p \<le> 64) \<or>
             \<not> (1 \<le> ap_hash p \<and> ap_hash p \<le> 64) \<or> ap_memory p * ah_crypto_tokens h > maximum_worker_memory
          then None else Some p)"

definition parameters_match_hasher :: "argon2_parameters \<Rightarrow> 's argon2_hasher \<Rightarrow> bool" where
  "parameters_match_hasher p h \<longleftrightarrow>
     (ap_memory p, ap_time p, ap_parallelism p, ap_salt p, ap_hash p) =
     (ah_memory h, ah_time h, ah_parallelism h, ah_salt h, ah_hash h)"

definition argon2_hasher_post_init :: "'s argon2_hasher \<Rightarrow> 's argon2_hasher result" where
  "argon2_hasher_post_init h =
     (if \<not> argon2_configuration_ok h then Inl ImproperlyConfigured
      else if (case safe_argon2_parameters h (ah_dummy h) of
          None \<Rightarrow> True | Some p \<Rightarrow> \<not> parameters_match_hasher p h)
      then Inl ImproperlyConfigured else Inr h)"

definition password_bytes :: "string \<Rightarrow> bytes option" where
  "password_bytes password =
     (let encoded = utf8_bytes password
      in if int (length encoded) > maximum_password_bytes then None else Some encoded)"

text \<open>\<^verbatim>\<open>PasswordHashingUnavailableError\<close> is a RuntimeError.\<close>

definition hash_bytes :: "'s argon2_hasher \<Rightarrow> bytes \<Rightarrow> ('s, string) port" where
  "hash_bytes h password s =
     (case ae_hash (ah_engine h) password s of (Inl e, s') \<Rightarrow> (Inl RuntimeError, s') | (Inr v, s') \<Rightarrow> (Inr v, s'))"

definition argon2_hash :: "'s argon2_hasher \<Rightarrow> string \<Rightarrow> ('s, string) port" where
  "argon2_hash h password =
     (case password_bytes password of None \<Rightarrow> raise ValueError | Some encoded \<Rightarrow> hash_bytes h encoded)"

definition verify_dummy :: "'s argon2_hasher \<Rightarrow> bytes \<Rightarrow> ('s, unit) port" where
  "verify_dummy h password s =
     (case ae_verify (ah_engine h) (ah_dummy h) password s of
        (answer, s') \<Rightarrow>
          (if answer = Argon_Rejected \<or> answer = Argon_Failed then Inl RuntimeError else Inr (), s'))"

text \<open>\<open>Some matched\<close>, or the candidate hash turned out malformed.\<close>

definition match_candidate :: "'s argon2_hasher \<Rightarrow> string \<Rightarrow> bytes \<Rightarrow> ('s, bool option) port" where
  "match_candidate h candidate password s =
     (case ae_verify (ah_engine h) candidate password s of
        (answer, s') \<Rightarrow>
          (case answer of
             Argon_Match \<Rightarrow> (Inr (Some True), s')
           | Argon_No_Match \<Rightarrow> (Inr (Some False), s')
           | Argon_Mismatch \<Rightarrow> (Inr (Some False), s')
           | Argon_Rejected \<Rightarrow>
               if candidate = ah_dummy h then (Inl RuntimeError, s')
               else call (verify_dummy h password) (\<lambda>_. pure None) s'
           | Argon_Failed \<Rightarrow> (Inl RuntimeError, s')))"

definition argon2_verify ::
  "'s argon2_hasher \<Rightarrow> string option \<Rightarrow> string \<Rightarrow> ('s, verification_decision) port" where
  "argon2_verify h encoded_hash password =
     (case password_bytes password of
        None \<Rightarrow> lift_result (rejected Password_Too_Long)
      | Some encoded \<Rightarrow>
          let candidate = (case encoded_hash of None \<Rightarrow> ah_dummy h | Some stored \<Rightarrow> stored)
          in (case safe_argon2_parameters h candidate of
                None \<Rightarrow> call (verify_dummy h encoded) (\<lambda>_. lift_result (rejected Password_Malformed))
              | Some parameters \<Rightarrow>
                  call (match_candidate h candidate encoded) (\<lambda>matched.
                    case matched of
                      None \<Rightarrow> lift_result (rejected Password_Malformed)
                    | Some ok \<Rightarrow>
                        if encoded_hash = None \<or> \<not> ok then lift_result (rejected Password_Invalid)
                        else if \<not> parameters_match_hasher parameters h
                        then call (hash_bytes h encoded) (\<lambda>replacement.
                          lift_result (decision_post_init
                            \<lparr>vd_status = Password_Verified, vd_replacement = Some replacement\<rparr>))
                        else lift_result (decision_post_init
                          \<lparr>vd_status = Password_Verified, vd_replacement = None\<rparr>))))"

definition argon2_password_hasher :: "'s argon2_hasher \<Rightarrow> 's password_hasher" where
  "argon2_password_hasher h = \<lparr>ph_hash = argon2_hash h, ph_verify = argon2_verify h\<rparr>"

end
