(* ===== verification/Password_Login.thy ===== *)
theory Password_Login
  imports Passwords Rate_Limits
begin

text \<open>
  Password reauthentication and login (\<^verbatim>\<open>accounts/_login.py\<close>) over the account, password, limiter,
  clock, identifier and audit ports.
\<close>

section \<open>Reauthentication\<close>

record 's reauth_service =
  ra_get_state :: "string \<Rightarrow> ('s, password_state option) port"
  ra_replace :: "string \<Rightarrow> string \<Rightarrow> string \<Rightarrow> security_event \<Rightarrow> ('s, bool) port"
  ra_hasher :: "'s password_hasher"
  ra_ttl :: time
  ra_clock :: "('s, py_datetime) port"
  ra_sink :: "security_event \<Rightarrow> ('s, unit) port"
  ra_event_ids :: "('s, string) port"

definition reauth_service_post_init :: "'s reauth_service \<Rightarrow> 's reauth_service result" where
  "reauth_service_post_init srv =
     (if ra_ttl srv \<le> 0 \<or> ra_ttl srv > reauthentication_ttl then Inl ImproperlyConfigured else Inr srv)"

definition plain_event :: "string \<Rightarrow> time \<Rightarrow> string \<Rightarrow> string \<Rightarrow> string option \<Rightarrow> security_event" where
  "plain_event event_id occurred_at operation outcome account_id =
     \<lparr>se_event_id = event_id, se_occurred_at = Aware occurred_at, se_operation = operation, se_outcome = outcome,
      se_account_id = account_id, se_principal_id = None, se_mechanism = Some ''password'', se_session_id = None,
      se_family_id = None, se_correlation = []\<rparr>"

definition reauth_event ::
  "'s reauth_service \<Rightarrow> string \<Rightarrow> time \<Rightarrow> string \<Rightarrow> string \<Rightarrow> ('s, security_event) port" where
  "reauth_event srv account_id occurred_at operation outcome =
     call (ra_event_ids srv) (\<lambda>raw.
       let event_id = strip raw
       in if event_id = [] then raise ValueError
          else pure (plain_event event_id occurred_at operation outcome (Some account_id)))"

text \<open>\<^verbatim>\<open>emit_security_event\<close>: the sink's failure is dropped.\<close>

definition emit_security_event :: "(security_event \<Rightarrow> ('s, unit) port) \<Rightarrow> security_event \<Rightarrow> 's \<Rightarrow> 's" where
  "emit_security_event sink event s = snd (sink event s)"

definition rehash_password ::
  "'s reauth_service \<Rightarrow> string \<Rightarrow> string \<Rightarrow> string \<Rightarrow> time \<Rightarrow> 's \<Rightarrow> bool \<times> 's" where
  "rehash_password srv account_id expected replacement occurred_at s =
     (case call (reauth_event srv account_id occurred_at ''local.password.rehash'' ''updated'')
             (ra_replace srv account_id expected replacement) s of
        (Inl e, s') \<Rightarrow> (False, s')
      | (Inr replaced, s') \<Rightarrow> (replaced, s'))"

text \<open>Only a ValueError of the event is dropped here; another exception of the identifier factory escapes.\<close>

definition emit_malformed :: "'s reauth_service \<Rightarrow> string \<Rightarrow> time \<Rightarrow> ('s, unit) port" where
  "emit_malformed srv account_id occurred_at s =
     (case reauth_event srv account_id occurred_at ''local.password.verify'' ''malformed_hash'' s of
        (Inl e, s') \<Rightarrow> (if e = ValueError then Inr () else Inl e, s')
      | (Inr event, s') \<Rightarrow> (Inr (), emit_security_event (ra_sink srv) event s'))"

definition reauth_now :: "'s reauth_service \<Rightarrow> py_datetime option \<Rightarrow> ('s, time) port" where
  "reauth_now srv now =
     call (case now of None \<Rightarrow> ra_clock srv | Some t \<Rightarrow> pure t) (\<lambda>reading. lift_result (aware_utc_time reading))"

text \<open>After the hash was checked: the decision, the rehash and the proof.\<close>

definition settle_reauthentication ::
  "'s reauth_service \<Rightarrow> string \<Rightarrow> time \<Rightarrow> password_state option \<Rightarrow> verification_decision \<Rightarrow>
     ('s, time reauthentication_proof verdict) port" where
  "settle_reauthentication srv account_id authenticated_at state d =
     (case (state, vd_status d) of
        (Some p, Password_Verified) \<Rightarrow>
          if \<not> ps_active p \<or> \<not> ps_verified p then pure Invalid_Credentials
          else (\<lambda>s.
            case (case vd_replacement d of
                    None \<Rightarrow> (True, s)
                  | Some replacement \<Rightarrow>
                      rehash_password srv account_id (ps_password_hash p) replacement authenticated_at s) of
              (False, s') \<Rightarrow> (Inr Verification_Unavailable, s')
            | (True, s') \<Rightarrow>
                (bind (reauthentication_proof_post_init
                   \<lparr>rp_account_id = account_id, rp_security_epoch = ps_security_epoch p,
                    rp_authenticated_at = Aware authenticated_at,
                    rp_expires_at = Aware (authenticated_at + ra_ttl srv)\<rparr>) (\<lambda>proof'. Inr (Verified proof')), s'))
      | (_, status) \<Rightarrow>
          call (if status = Password_Malformed then emit_malformed srv account_id authenticated_at else pure ())
            (\<lambda>_. pure Invalid_Credentials))"

definition verify_password ::
  "'s reauth_service \<Rightarrow> string \<Rightarrow> string \<Rightarrow> py_datetime option \<Rightarrow> ('s, time reauthentication_proof verdict) port" where
  "verify_password srv raw_account password now s =
     (let account_id = strip raw_account
      in if account_id = [] then (Inr Invalid_Credentials, s)
         else case reauth_now srv now s of
           (Inl e, s1) \<Rightarrow> (Inr Verification_Unavailable, s1)
         | (Inr authenticated_at, s1) \<Rightarrow>
             (case ra_get_state srv account_id s1 of
                (read, s2) \<Rightarrow>
                  let state = (case read of Inl e \<Rightarrow> None | Inr found \<Rightarrow> found)
                  in (case ph_verify (ra_hasher srv) (map_option ps_password_hash state) password s2 of
                        (Inl e, s3) \<Rightarrow> (Inr Verification_Unavailable, s3)
                      | (Inr d, s3) \<Rightarrow>
                          if isl read then (Inr Verification_Unavailable, s3)
                          else settle_reauthentication srv account_id authenticated_at state d s3)))"

section \<open>Login\<close>

datatype 'u login_outcome = Login_Account "'u account" | Login_Limited "int option" | Login_Invalid | Login_Unavailable

record ('s, 'u) password_login =
  pl_find :: "string \<Rightarrow> ('s, 'u account option) port"
  pl_reauth :: "'s reauth_service"
  pl_normalizer :: "string \<Rightarrow> string result"
  pl_limit :: "(string \<Rightarrow> string option \<Rightarrow> string option \<Rightarrow> 's \<Rightarrow> limit_outcome \<times> 's) option"

text \<open>Whatever the identifier factory or the clock raises, the decision stands.\<close>

definition emit_decision :: "('s, 'u) password_login \<Rightarrow> string option \<Rightarrow> string \<Rightarrow> 's \<Rightarrow> 's" where
  "emit_decision srv account_id outcome s =
     snd (call (ra_event_ids (pl_reauth srv)) (\<lambda>event_id.
          call (ra_clock (pl_reauth srv)) (\<lambda>reading.
          call (lift_result (aware_utc_time reading)) (\<lambda>occurred_at.
            ra_sink (pl_reauth srv) (plain_event event_id occurred_at ''local.login'' outcome account_id)))) s)"

definition check_login_limit ::
  "('s, 'u) password_login \<Rightarrow> string option \<Rightarrow> string \<Rightarrow> 's \<Rightarrow> limit_outcome \<times> 's" where
  "check_login_limit srv client_key normalized s =
     (case pl_limit srv of
        None \<Rightarrow> (Proceed, s)
      | Some check \<Rightarrow> check ''local.login'' client_key (if normalized = [] then None else Some normalized) s)"

definition find_login_account ::
  "('s, 'u) password_login \<Rightarrow> string \<Rightarrow> bool \<Rightarrow> 's \<Rightarrow> ('u account option \<times> bool) \<times> 's" where
  "find_login_account srv normalized unavailable s =
     (if unavailable \<or> normalized = [] then ((None, unavailable), s)
      else case pl_find srv normalized s of
        (Inl e, s') \<Rightarrow> ((None, True), s')
      | (Inr found, s') \<Rightarrow> ((found, False), s'))"

definition absent_account_outcome ::
  "('s, 'u) password_login \<Rightarrow> string \<Rightarrow> bool \<Rightarrow> 's \<Rightarrow> 'u login_outcome \<times> 's" where
  "absent_account_outcome srv password unavailable s =
     (case ph_verify (ra_hasher (pl_reauth srv)) None password s of
        (Inl e, s') \<Rightarrow> (Login_Unavailable, s')
      | (Inr d, s') \<Rightarrow>
          if unavailable then (Login_Unavailable, s') else (Login_Invalid, emit_decision srv None ''attempted'' s'))"

definition present_account_outcome ::
  "('s, 'u) password_login \<Rightarrow> 'u account \<Rightarrow> string \<Rightarrow> py_datetime option \<Rightarrow> ('s, 'u login_outcome) port" where
  "present_account_outcome srv account password now s =
     (case verify_password (pl_reauth srv) (acc_id account) password now s of
        (Inl e, s') \<Rightarrow> (Inl e, s')
      | (Inr Verification_Unavailable, s') \<Rightarrow> (Inr Login_Unavailable, s')
      | (Inr Invalid_Credentials, s') \<Rightarrow>
          (Inr Login_Invalid, emit_decision srv (Some (acc_id account)) ''attempted'' s')
      | (Inr (Verified p), s') \<Rightarrow>
          if \<not> acc_active account \<or> \<not> acc_verified account \<or> rp_account_id p \<noteq> acc_id account \<or>
             rp_security_epoch p \<noteq> acc_epoch account
          then (Inr Login_Invalid, emit_decision srv (Some (acc_id account)) ''attempted'' s')
          else (Inr (Login_Account account), emit_decision srv (Some (acc_id account)) ''verified'' s'))"

text \<open>A normaliser that fails leaves the empty identifier and an unavailable lookup.\<close>

definition login_identifier :: "('s, 'u) password_login \<Rightarrow> string \<Rightarrow> string" where
  "login_identifier srv identifier = (case pl_normalizer srv identifier of Inl e \<Rightarrow> [] | Inr n \<Rightarrow> n)"

definition admitted_login ::
  "('s, 'u) password_login \<Rightarrow> string \<Rightarrow> bool \<Rightarrow> string \<Rightarrow> py_datetime option \<Rightarrow> ('s, 'u login_outcome) port" where
  "admitted_login srv normalized failed password now s =
     (case find_login_account srv normalized failed s of
        ((None, unavailable), s') \<Rightarrow>
          (case absent_account_outcome srv password unavailable s' of (v, s'') \<Rightarrow> (Inr v, s''))
      | ((Some account, _), s') \<Rightarrow> present_account_outcome srv account password now s')"

definition authenticate_password ::
  "('s, 'u) password_login \<Rightarrow> string \<Rightarrow> string \<Rightarrow> py_datetime option \<Rightarrow> string option \<Rightarrow> ('s, 'u login_outcome) port" where
  "authenticate_password srv identifier password now client_key s =
     (let normalized = login_identifier srv identifier
      in (case check_login_limit srv client_key normalized s of
            (Rate_Limited n, s1) \<Rightarrow> (Inr (Login_Limited n), s1)
          | (Limiter_Unavailable, s1) \<Rightarrow> (Inr Login_Unavailable, s1)
          | (Proceed, s1) \<Rightarrow> admitted_login srv normalized (isl (pl_normalizer srv identifier)) password now s1))"

section \<open>One hash per attempt\<close>

text \<open>
  \<open>work\<close> counts the password hashes the hasher was asked for: the hasher adds one per verification,
  every other port leaves it alone.
\<close>

definition counts_work :: "('s \<Rightarrow> nat) \<Rightarrow> ('s, 'u) password_login \<Rightarrow> bool" where
  "counts_work work srv \<longleftrightarrow>
     (\<forall>h p s. work (snd (ph_verify (ra_hasher (pl_reauth srv)) h p s)) = work s + 1) \<and>
     (\<forall>k. keeps work (pl_find srv k)) \<and> (\<forall>k. keeps work (ra_get_state (pl_reauth srv) k)) \<and>
     (\<forall>a h r e. keeps work (ra_replace (pl_reauth srv) a h r e)) \<and> keeps work (ra_clock (pl_reauth srv)) \<and>
     (\<forall>e. keeps work (ra_sink (pl_reauth srv) e)) \<and> keeps work (ra_event_ids (pl_reauth srv)) \<and>
     (\<forall>check op c i s. pl_limit srv = Some check \<longrightarrow> work (snd (check op c i s)) = work s)"

lemma keeps_snd: "keeps view p \<Longrightarrow> view (snd (p s)) = view s"
  by (simp add: keeps_def)

lemma emit_decision_work: "counts_work work srv \<Longrightarrow> work (emit_decision srv a oc s) = work s"
  unfolding emit_decision_def counts_work_def
  by (rule keeps_snd) (intro keeps_call keeps_basic; blast)

lemma check_login_limit_work:
  "counts_work work srv \<Longrightarrow> check_login_limit srv c n s = (v, s') \<Longrightarrow> work s' = work s"
  by (auto simp: check_login_limit_def counts_work_def split: option.splits) (metis snd_conv)+

lemma find_login_account_work:
  "counts_work work srv \<Longrightarrow> find_login_account srv n b s = (v, s') \<Longrightarrow> work s' = work s"
  by (auto simp: find_login_account_def counts_work_def dest: keepsD split: if_splits prod.splits sum.splits)

lemma absent_account_work:
  assumes "counts_work work srv" "absent_account_outcome srv p b s = (v, s')"
  shows "work s' = work s + 1"
proof -
  obtain r s1 where "ph_verify (ra_hasher (pl_reauth srv)) None p s = (r, s1)" "work s1 = work s + 1"
    using assms(1) unfolding counts_work_def by (metis prod.collapse)
  then show ?thesis
    using assms emit_decision_work [OF assms(1)]
    by (auto simp: absent_account_outcome_def split: sum.splits if_splits)
qed

lemma reauth_event_keeps: "keeps work (ra_event_ids srv) \<Longrightarrow> keeps work (reauth_event srv a t op oc)"
  unfolding reauth_event_def by (intro keeps_call) (auto simp: Let_def)

lemma settle_work:
  assumes "counts_work work srv" "settle_reauthentication (pl_reauth srv) k t state d s = (r, s')"
  shows "work s' = work s"
proof -
  have ids: "keeps work (reauth_event (pl_reauth srv) a u op oc)" for a u op oc
    using assms(1) by (simp add: counts_work_def reauth_event_keeps)
  have "keeps work (call (reauth_event (pl_reauth srv) k t ''local.password.rehash'' ''updated'')
      (ra_replace (pl_reauth srv) k h n))" for h n
    by (rule keeps_call [OF ids]) (use assms(1) in \<open>simp add: counts_work_def\<close>)
  then have "work (snd (rehash_password (pl_reauth srv) k h n t s)) = work s" for h n
    using keeps_snd [of work "call (reauth_event (pl_reauth srv) k t ''local.password.rehash'' ''updated'')
        (ra_replace (pl_reauth srv) k h n)" s]
    by (auto simp: rehash_password_def split: prod.splits sum.splits)
  then have rehash: "rehash_password (pl_reauth srv) k h n t s = (b, s1) \<Longrightarrow> work s1 = work s" for h n b s1
    by (metis snd_conv)
  have sink: "work (emit_security_event (ra_sink (pl_reauth srv)) e s1) = work s1" for e s1
    using assms(1) by (simp add: counts_work_def emit_security_event_def keeps_def)
  have malformed: "emit_malformed (pl_reauth srv) k t s = (r1, s1) \<Longrightarrow> work s1 = work s" for r1 s1
    using keepsD [OF ids, of k t "''local.password.verify''" "''malformed_hash''" s] sink
    by (auto simp: emit_malformed_def split: prod.splits sum.splits)
  show ?thesis
    using assms(2) rehash malformed
    by (auto simp: settle_reauthentication_def call_def
        split: option.splits verification_result.splits if_splits prod.splits bool.splits sum.splits)
qed

lemma verify_password_work:
  assumes "counts_work work srv" "verify_password (pl_reauth srv) a p now s = (r, s')"
    "strip a \<noteq> []" "\<exists>t s1. reauth_now (pl_reauth srv) now s = (Inr t, s1)"
  shows "work s' = work s + 1"
proof -
  obtain t s1 where now: "reauth_now (pl_reauth srv) now s = (Inr t, s1)"
    using assms(4) by blast
  have "keeps work (reauth_now (pl_reauth srv) now)"
    using assms(1) unfolding reauth_now_def counts_work_def by (intro keeps_call) (auto split: option.splits)
  then have "work s1 = work s"
    using now keepsD by fastforce
  moreover obtain found s2 where state: "ra_get_state (pl_reauth srv) (strip a) s1 = (found, s2)" "work s2 = work s1"
    using assms(1) unfolding counts_work_def by (metis keepsD prod.collapse)
  moreover obtain d s3 where "ph_verify (ra_hasher (pl_reauth srv))
      (map_option ps_password_hash (case found of Inl e \<Rightarrow> None | Inr x \<Rightarrow> x)) p s2 = (d, s3)" "work s3 = work s2 + 1"
    using assms(1) unfolding counts_work_def by (metis prod.collapse)
  ultimately show ?thesis
    using assms(2,3) now settle_work [OF assms(1)]
    by (auto simp: verify_password_def Let_def split: sum.splits if_splits)
qed

lemma present_account_work:
  assumes "counts_work work srv" "present_account_outcome srv account p now s = (r, s')"
    "strip (acc_id account) \<noteq> []" "\<exists>t s1. reauth_now (pl_reauth srv) now s = (Inr t, s1)"
  shows "work s' = work s + 1"
proof -
  obtain v s1 where v: "verify_password (pl_reauth srv) (acc_id account) p now s = (v, s1)"
    by (cases "verify_password (pl_reauth srv) (acc_id account) p now s") auto
  from verify_password_work [OF assms(1) v assms(3,4)] show ?thesis
    using assms(2) v emit_decision_work [OF assms(1)]
    by (auto simp: present_account_outcome_def split: sum.splits verdict.splits if_splits)
qed

lemma admitted_login_work:
  assumes "counts_work work srv" "admitted_login srv n failed p now s = (r, s')"
    "\<And>s1. \<exists>t s2. reauth_now (pl_reauth srv) now s1 = (Inr t, s2)"
    "\<And>account s1. pl_find srv n s = (Inr (Some account), s1) \<Longrightarrow> strip (acc_id account) \<noteq> []"
  shows "work s' = work s + 1"
proof -
  obtain found b s1 where find: "find_login_account srv n failed s = ((found, b), s1)"
    by (metis prod.collapse)
  have same: "work s1 = work s"
    by (rule find_login_account_work [OF assms(1) find])
  show ?thesis
  proof (cases found)
    case None
    then show ?thesis
      using assms(2) find same absent_account_work [OF assms(1)] by (auto simp: admitted_login_def split: prod.splits)
  next
    case (Some account)
    then have "strip (acc_id account) \<noteq> []"
      using find assms(4) by (auto simp: find_login_account_def split: if_splits prod.splits sum.splits)
    then show ?thesis
      using assms(2) find Some same present_account_work [OF assms(1) _ _ assms(3)] by (simp add: admitted_login_def)
  qed
qed

lemma attempt_work:
  assumes "counts_work work srv" "authenticate_password srv identifier p now client s = (r, s')"
    "\<And>s1. \<exists>t s2. reauth_now (pl_reauth srv) now s1 = (Inr t, s2)"
    "\<And>s1 account s2. check_login_limit srv client (login_identifier srv identifier) s = (Proceed, s1) \<Longrightarrow>
      pl_find srv (login_identifier srv identifier) s1 = (Inr (Some account), s2) \<Longrightarrow> strip (acc_id account) \<noteq> []"
  shows "work s' = work s +
    (if fst (check_login_limit srv client (login_identifier srv identifier) s) = Proceed then 1 else 0)"
proof -
  obtain v s1 where limit: "check_login_limit srv client (login_identifier srv identifier) s = (v, s1)"
    by (cases "check_login_limit srv client (login_identifier srv identifier) s") auto
  then have "work s1 = work s"
    by (rule check_login_limit_work [OF assms(1)])
  then show ?thesis
    using assms(2) limit admitted_login_work [OF assms(1) _ assms(3,4)]
    by (cases v) (fastforce simp: authenticate_password_def Let_def)+
qed

text \<open>C22: A login attempt the limiter lets through costs exactly one password verification, and one it
  stops costs none, whether the identifier is unknown, cannot be normalised, belongs to an account
  or cannot be looked up, and whatever the outcome: the hashing an attempt costs says nothing about
  the account.\<close>

theorem login_work_constant:
  assumes "counts_work work srv" "authenticate_password srv identifier p now client s = (r, s')"
    "\<And>s1. \<exists>t s2. reauth_now (pl_reauth srv) now s1 = (Inr t, s2)"
    "\<And>s1 account s2. check_login_limit srv client (login_identifier srv identifier) s = (Proceed, s1) \<Longrightarrow>
      pl_find srv (login_identifier srv identifier) s1 = (Inr (Some account), s2) \<Longrightarrow> strip (acc_id account) \<noteq> []"
  shows "work s' = work s +
    (if fst (check_login_limit srv client (login_identifier srv identifier) s) = Proceed then 1 else 0)"
  by (rule attempt_work [OF assms(1,2)]) (fact assms)+

section \<open>Soundness\<close>

lemma verify_password_Verified:
  assumes "verify_password srv a p now s = (Inr (Verified proof'), s')"
  obtains t s1 state s2 d s3 where "reauth_now srv now s = (Inr t, s1)"
    "ra_get_state srv (strip a) s1 = (Inr (Some state), s2)"
    "ph_verify (ra_hasher srv) (Some (ps_password_hash state)) p s2 = (Inr d, s3)"
    "vd_status d = Password_Verified" "ps_active state" "ps_verified state"
    "rp_account_id proof' = strip a" "rp_security_epoch proof' = ps_security_epoch state"
    "rp_authenticated_at proof' = t" "rp_expires_at proof' = t + ra_ttl srv"
proof -
  obtain t s1 where now: "reauth_now srv now s = (Inr t, s1)"
    using assms by (auto simp: verify_password_def Let_def split: if_splits sum.splits prod.splits)
  obtain found s2 where state: "ra_get_state srv (strip a) s1 = (Inr found, s2)"
    using assms now by (auto simp: verify_password_def Let_def split: if_splits sum.splits prod.splits)
  obtain d s3 where d: "ph_verify (ra_hasher srv) (map_option ps_password_hash found) p s2 = (Inr d, s3)"
    "settle_reauthentication srv (strip a) t found d s3 = (Inr (Verified proof'), s')"
    using assms now state by (auto simp: verify_password_def Let_def split: if_splits sum.splits prod.splits)
  then obtain st where st: "found = Some st" "vd_status d = Password_Verified" "ps_active st" "ps_verified st"
    by (auto simp: settle_reauthentication_def call_def emit_malformed_def
        split: option.splits verification_result.splits if_splits prod.splits sum.splits)
  have "\<exists>r. reauthentication_proof_post_init
                   \<lparr>rp_account_id = strip a, rp_security_epoch = ps_security_epoch st,
                    rp_authenticated_at = Aware t, rp_expires_at = Aware (t + ra_ttl srv)\<rparr> = Inr proof'"
    using d(2) st by (auto simp: settle_reauthentication_def bind_eq_Inr split: option.splits prod.splits bool.splits)
  then show thesis
    using that [OF now] state d(1) st
    by (auto simp: reauthentication_proof_post_init_def bind_eq_Inr split: if_splits)
qed

lemma authenticate_password_account:
  assumes "authenticate_password srv identifier p now client s = (Inr (Login_Account account), s')"
  obtains n s1 s2 t s3 state s4 d s5 where "pl_normalizer srv identifier = Inr n" "n \<noteq> []"
    "check_login_limit srv client n s = (Proceed, s1)" "pl_find srv n s1 = (Inr (Some account), s2)"
    "reauth_now (pl_reauth srv) now s2 = (Inr t, s3)"
    "ra_get_state (pl_reauth srv) (acc_id account) s3 = (Inr (Some state), s4)"
    "ph_verify (ra_hasher (pl_reauth srv)) (Some (ps_password_hash state)) p s4 = (Inr d, s5)"
    "vd_status d = Password_Verified" "acc_active account" "acc_verified account"
    "ps_active state" "ps_verified state" "ps_security_epoch state = acc_epoch account"
proof -
  let ?n = "login_identifier srv identifier"
  obtain s1 where limit: "check_login_limit srv client ?n s = (Proceed, s1)"
    and admitted: "admitted_login srv ?n (isl (pl_normalizer srv identifier)) p now s1 = (Inr (Login_Account account), s')"
    using assms by (auto simp: authenticate_password_def Let_def split: prod.splits limit_outcome.splits)
  have "absent_account_outcome srv p b s2 \<noteq> (Login_Account account, s3)" for b s2 s3
    by (auto simp: absent_account_outcome_def split: prod.splits sum.splits)
  then obtain a b s2 where find: "find_login_account srv ?n (isl (pl_normalizer srv identifier)) s1 = ((Some a, b), s2)"
    and present: "present_account_outcome srv a p now s2 = (Inr (Login_Account account), s')"
    using admitted by (auto simp: admitted_login_def split: prod.splits option.splits)
  then have n: "pl_normalizer srv identifier = Inr ?n" "?n \<noteq> []" "pl_find srv ?n s1 = (Inr (Some a), s2)"
    by (auto simp: find_login_account_def login_identifier_def split: if_splits prod.splits sum.splits)
  obtain proof' s3 where verify: "verify_password (pl_reauth srv) (acc_id a) p now s2 = (Inr (Verified proof'), s3)"
    and a: "a = account" "acc_active account" "acc_verified account" "rp_account_id proof' = acc_id account"
      "rp_security_epoch proof' = acc_epoch account"
    using present by (auto simp: present_account_outcome_def split: prod.splits sum.splits verdict.splits if_splits)
  from verify show thesis
  proof (rule verify_password_Verified)
    fix t s4 state s5 d s6
    assume "reauth_now (pl_reauth srv) now s2 = (Inr t, s4)"
      "ra_get_state (pl_reauth srv) (strip (acc_id a)) s4 = (Inr (Some state), s5)"
      "ph_verify (ra_hasher (pl_reauth srv)) (Some (ps_password_hash state)) p s5 = (Inr d, s6)"
      "vd_status d = Password_Verified" "ps_active state" "ps_verified state"
      "rp_account_id proof' = strip (acc_id a)" "rp_security_epoch proof' = ps_security_epoch state"
    then show thesis
      using that [OF n(1,2) limit, of s2] n(3) a by simp
  qed
qed

section \<open>Login on the in-memory store\<close>

definition memory_find :: "string \<Rightarrow> ('u world \<times> 'e, 'u account option) port" where
  "memory_find k = on_first (\<lambda>w. (Inr (find_for_login k (snd w)), w))"

definition memory_password_state :: "string \<Rightarrow> ('u world \<times> 'e, password_state option) port" where
  "memory_password_state k = on_first (\<lambda>w. (get_password_state k (snd w), w))"

definition memory_store :: "'u world \<times> 'e \<Rightarrow> 'u local_store" where
  "memory_store s = snd (fst s)"

text \<open>The login reads the in-memory store, and its clock and limiter leave the store alone.\<close>

definition reads_memory :: "('u world \<times> 'e, 'u) password_login \<Rightarrow> bool" where
  "reads_memory srv \<longleftrightarrow>
     pl_find srv = memory_find \<and> ra_get_state (pl_reauth srv) = memory_password_state \<and>
     keeps memory_store (ra_clock (pl_reauth srv)) \<and>
     (\<forall>check op c i s. pl_limit srv = Some check \<longrightarrow> memory_store (snd (check op c i s)) = memory_store s)"

lemma reads_memory_limit:
  "reads_memory srv \<Longrightarrow> pl_limit srv = Some check \<Longrightarrow> memory_store (snd (check op c i s)) = memory_store s"
  unfolding reads_memory_def by blast

lemma password_state_Some:
  assumes "get_password_state k s = Inr (Some state)"
  obtains account where "dget (st_accounts s) k = Some account" "dget (st_passwords s) k = Some (ps_password_hash state)"
    "ps_security_epoch state = acc_epoch account" "ps_active state = acc_active account"
    "ps_verified state = acc_verified account"
  using assms
  by (auto simp: get_password_state_def password_state_post_init_def bind_eq_Inr split: option.splits if_splits)

lemma memory_login_account:
  assumes "reads_memory srv" "authenticate_password srv identifier p now client s = (Inr (Login_Account account), s')"
  shows "\<exists>n hash s1 d s2. pl_normalizer srv identifier = Inr n \<and> find_for_login n (memory_store s) = Some account \<and>
    acc_active account \<and> acc_verified account \<and>
    dget (st_passwords (memory_store s)) (acc_id account) = Some hash \<and>
    current_epoch (acc_id account) (memory_store s) = Some (acc_epoch account) \<and>
    ph_verify (ra_hasher (pl_reauth srv)) (Some hash) p s1 = (Inr d, s2) \<and> vd_status d = Password_Verified"
  using assms(2)
proof (rule authenticate_password_account)
  fix n s1 s2 t s3 state s4 d s5
  assume n: "pl_normalizer srv identifier = Inr n" and limit: "check_login_limit srv client n s = (Proceed, s1)"
    and find: "pl_find srv n s1 = (Inr (Some account), s2)" and now: "reauth_now (pl_reauth srv) now s2 = (Inr t, s3)"
    and state: "ra_get_state (pl_reauth srv) (acc_id account) s3 = (Inr (Some state), s4)"
    and hash: "ph_verify (ra_hasher (pl_reauth srv)) (Some (ps_password_hash state)) p s4 = (Inr d, s5)"
      "vd_status d = Password_Verified"
    and account: "acc_active account" "acc_verified account" "ps_security_epoch state = acc_epoch account"
  have "memory_store (snd (check_login_limit srv client n s)) = memory_store s"
    using reads_memory_limit [OF assms(1)] by (simp add: check_login_limit_def split: option.splits)
  then have s1: "memory_store s1 = memory_store s"
    using limit by simp
  have s2: "find_for_login n (memory_store s1) = Some account" "memory_store s2 = memory_store s1"
    using find assms(1) by (auto simp: reads_memory_def memory_find_def on_first_def memory_store_def)
  have "keeps memory_store (reauth_now (pl_reauth srv) now)"
    using assms(1) unfolding reauth_now_def reads_memory_def by (intro keeps_call) (auto split: option.splits)
  then have s3: "memory_store s3 = memory_store s2"
    using now keepsD by fastforce
  then have "get_password_state (acc_id account) (memory_store s) = Inr (Some state)"
    using state assms(1) s1 s2 by (auto simp: reads_memory_def memory_password_state_def on_first_def memory_store_def
        split: prod.splits)
  then obtain stored where "dget (st_accounts (memory_store s)) (acc_id account) = Some stored"
    "dget (st_passwords (memory_store s)) (acc_id account) = Some (ps_password_hash state)"
    "ps_security_epoch state = acc_epoch stored"
    by (rule password_state_Some)
  moreover from this account(3) have "current_epoch (acc_id account) (memory_store s) = Some (acc_epoch account)"
    by (simp add: current_epoch_def)
  moreover have "find_for_login n (memory_store s) = Some account"
    using s1 s2 by simp
  ultimately show ?thesis
    using n hash account(1,2) by blast
qed

text \<open>C21: A password login returns an account only on proof: over the in-memory store, the account is the
  one stored under the normalised identifier, active and verified, at its current epoch, and the
  hasher accepted the submitted password for the hash stored under its id.\<close>

theorem password_login_sound:
  assumes "reads_memory srv" "authenticate_password srv identifier p now client s = (Inr (Login_Account account), s')"
  shows "\<exists>n hash s1 d s2. pl_normalizer srv identifier = Inr n \<and> find_for_login n (memory_store s) = Some account \<and>
    acc_active account \<and> acc_verified account \<and>
    dget (st_passwords (memory_store s)) (acc_id account) = Some hash \<and>
    current_epoch (acc_id account) (memory_store s) = Some (acc_epoch account) \<and>
    ph_verify (ra_hasher (pl_reauth srv)) (Some hash) p s1 = (Inr d, s2) \<and> vd_status d = Password_Verified"
  by (rule memory_login_account [OF assms])

section \<open>The properties on one account\<close>

definition example_hasher :: "(unit world \<times> nat) password_hasher" where
  "example_hasher = \<lparr>ph_hash = \<lambda>p. pure p,
     ph_verify = \<lambda>h p s. (Inr \<lparr>vd_status = (if h = Some p then Password_Verified else Password_Invalid),
       vd_replacement = None\<rparr>, (fst s, snd s + 1))\<rparr>"

definition example_login_service :: "(unit world \<times> nat, unit) password_login" where
  "example_login_service =
     \<lparr>pl_find = memory_find,
      pl_reauth = \<lparr>ra_get_state = memory_password_state, ra_replace = \<lambda>a h r e. pure True, ra_hasher = example_hasher,
        ra_ttl = seconds 60, ra_clock = pure (Aware 7), ra_sink = \<lambda>e. pure (), ra_event_ids = pure ''event''\<rparr>,
      pl_normalizer = Inr, pl_limit = None\<rparr>"

definition example_login_state :: "unit world \<times> nat" where
  "example_login_state =
     ((empty_backend, empty_store\<lparr>
        st_accounts := [(''u1'', \<lparr>acc_id = ''u1'', acc_identifier = ''ann'', acc_display_name = None, acc_active = True,
          acc_verified = True, acc_epoch = 1, acc_user = None\<rparr>)],
        st_passwords := [(''u1'', ''secret'')]\<rparr>), 0)"

lemma example_login_reads: "reads_memory example_login_service"
  by (simp add: reads_memory_def example_login_service_def)

lemma example_login_counts: "counts_work snd example_login_service"
  by (auto simp: counts_work_def example_login_service_def example_hasher_def keeps_def memory_find_def
      memory_password_state_def on_first_def split: prod.splits)

lemma example_login_found:
  assumes "pl_find example_login_service k example_login_state = (Inr (Some account), s)"
  shows "strip (acc_id account) \<noteq> []"
proof -
  have "strip ''u1'' \<noteq> []"
    by code_simp
  then show ?thesis
    using assms
    by (auto simp: example_login_service_def memory_find_def on_first_def find_for_login_def find_value_def
        example_login_state_def split: if_splits)
qed

theorem login_work_constant_witness:
  "\<exists>r s r' s'. authenticate_password example_login_service ''ann'' ''guess'' None None example_login_state = (r, s) \<and> snd s = 1 \<and>
     authenticate_password example_login_service ''bob'' ''guess'' None None example_login_state = (r', s') \<and> snd s' = 1"
proof -
  have limit: "check_login_limit example_login_service None n s = (Proceed, s)" for n s
    by (simp add: check_login_limit_def example_login_service_def)
  have clock: "\<exists>t s2. reauth_now (pl_reauth example_login_service) None s1 = (Inr t, s2)" for s1
    by (simp add: reauth_now_def example_login_service_def)
  have "\<exists>r s. authenticate_password example_login_service i ''guess'' None None example_login_state = (r, s) \<and> snd s = 1" for i
  proof -
    obtain r s where run: "authenticate_password example_login_service i ''guess'' None None example_login_state = (r, s)"
      by (cases "authenticate_password example_login_service i ''guess'' None None example_login_state") auto
    then show ?thesis
      using login_work_constant [OF example_login_counts run clock] example_login_found limit
      by (auto simp: example_login_state_def)
  qed
  then show ?thesis
    by blast
qed

definition example_found_account :: "unit account" where
  "example_found_account = \<lparr>acc_id = ''u1'', acc_identifier = ''ann'', acc_display_name = None, acc_active = True,
     acc_verified = True, acc_epoch = 1, acc_user = None\<rparr>"

lemma example_reauthentication:
  "\<exists>s p. verify_password (pl_reauth example_login_service) ''u1'' ''secret'' None example_login_state =
     (Inr (Verified p), s) \<and> rp_account_id p = ''u1'' \<and> rp_security_epoch p = 1"
proof -
  have "strip ''u1'' = ''u1''" "strict_text ''u1''" "strict_text ''secret''"
    by code_simp+
  then show ?thesis
    by (simp add: verify_password_def reauth_now_def settle_reauthentication_def example_login_service_def
        example_hasher_def memory_password_state_def on_first_def get_password_state_def password_state_post_init_def
        example_login_state_def reauthentication_proof_post_init_def valid_security_epoch_def
        maximum_security_epoch_def seconds_def reauthentication_ttl_def Let_def)
qed

lemma example_authenticated:
  "\<exists>s. authenticate_password example_login_service ''ann'' ''secret'' None None example_login_state =
     (Inr (Login_Account example_found_account), s)"
proof -
  have "find_login_account example_login_service ''ann'' False example_login_state =
      ((Some example_found_account, False), example_login_state)"
    by (simp add: find_login_account_def example_login_service_def memory_find_def on_first_def find_for_login_def
        find_value_def example_login_state_def example_found_account_def)
  moreover have "acc_id example_found_account = ''u1''" "acc_active example_found_account"
    "acc_verified example_found_account" "acc_epoch example_found_account = 1"
    by (simp_all add: example_found_account_def)
  ultimately show ?thesis
    using example_reauthentication
    by (auto simp: authenticate_password_def login_identifier_def check_login_limit_def admitted_login_def
        present_account_outcome_def example_login_service_def simp del: split_paired_Ex)
qed

theorem password_login_sound_witness:
  "\<exists>s'. authenticate_password example_login_service ''ann'' ''secret'' None None example_login_state =
       (Inr (Login_Account example_found_account), s') \<and>
     find_for_login ''ann'' (memory_store example_login_state) = Some example_found_account"
  using example_authenticated password_login_sound [OF example_login_reads]
  by (fastforce simp: example_login_service_def)

end
