(* ===== verification/Account_Lifecycle.thy ===== *)
theory Account_Lifecycle
  imports Purpose_Tokens Password_Login Session_Store
begin

text \<open>
  Registration, verification tokens (\<^verbatim>\<open>accounts/_registration.py\<close>), recovery tokens and password changes
  (\<^verbatim>\<open>accounts/_recovery.py\<close>) over the account, token, session, refresh-family, limiter, clock and
  identifier ports. The shielded cancel scopes only delay cancellation and leave no trace here.
\<close>

section \<open>Shared parts\<close>

type_synonym 's limit_check = "string \<Rightarrow> string option \<Rightarrow> string option \<Rightarrow> 's \<Rightarrow> limit_outcome \<times> 's"

definition lifecycle_event ::
  "('s, string) port \<Rightarrow> time \<Rightarrow> string \<Rightarrow> string \<Rightarrow> string option \<Rightarrow> ('s, security_event) port" where
  "lifecycle_event event_ids occurred_at operation outcome account_id =
     call event_ids (\<lambda>event_id.
       if \<not> strict_text event_id then raise ValueError
       else pure (plain_event (strip event_id) occurred_at operation outcome account_id))"

definition validate_lifecycle_configuration ::
  "url_splitter \<Rightarrow> time \<Rightarrow> int \<Rightarrow> string option \<Rightarrow> unit result" where
  "validate_lifecycle_configuration split lifetime attempts return_url =
     (if lifetime \<le> 0 then Inl ImproperlyConfigured
      else if \<not> (1 \<le> attempts \<and> attempts \<le> 100) then Inl ImproperlyConfigured
      else case return_url of
        None \<Rightarrow> Inr ()
      | Some url \<Rightarrow> bind (approved_return_url split url) (\<lambda>approved.
          if approved then Inr () else Inl ImproperlyConfigured))"

definition port_time :: "('s, py_datetime) port \<Rightarrow> py_datetime option \<Rightarrow> ('s, time) port" where
  "port_time clock now =
     call (case now of None \<Rightarrow> clock | Some t \<Rightarrow> pure t) (\<lambda>reading. lift_result (aware_utc_time reading))"

datatype 'a lifecycle =
    Answered 'a
  | Policy_Violated "password_violation set"
  | Lifecycle_Rejected
  | Lifecycle_Limited "int option"
  | Lifecycle_Unavailable

definition limited :: "'s limit_check option \<Rightarrow> string \<Rightarrow> string option \<Rightarrow> string option \<Rightarrow> 's \<Rightarrow> limit_outcome \<times> 's" where
  "limited check operation client_key identifier s =
     (case check of None \<Rightarrow> (Proceed, s) | Some f \<Rightarrow> f operation client_key identifier s)"

text \<open>The limiter's verdict first, then the body.\<close>

definition when_admitted ::
  "limit_outcome \<times> 's \<Rightarrow> ('s, 'a lifecycle) port \<Rightarrow> 'a lifecycle result \<times> 's" where
  "when_admitted verdict body =
     (case verdict of
        (Proceed, s) \<Rightarrow> body s
      | (Rate_Limited n, s) \<Rightarrow> (Inr (Lifecycle_Limited n), s)
      | (Limiter_Unavailable, s) \<Rightarrow> (Inr Lifecycle_Unavailable, s))"

text \<open>\<^verbatim>\<open>except Exception: return VerificationUnavailable()\<close> around a block.\<close>

definition sanitize_block :: "('s, 'a) port \<Rightarrow> ('a \<Rightarrow> ('s, 'b lifecycle) port) \<Rightarrow> ('s, 'b lifecycle) port" where
  "sanitize_block m k s = (case m s of (Inl e, s') \<Rightarrow> (Inr Lifecycle_Unavailable, s') | (Inr a, s') \<Rightarrow> k a s')"

section \<open>Registration\<close>

datatype registration_mode = Registration_Disabled | Registration_Public | Registration_Invite_Only

datatype registration_answer = Registration_Accepted | Registration_Invalid_Invitation

record ('s, 'u) registration_service =
  rgs_register :: "registration_command \<Rightarrow> string \<Rightarrow> bytes option \<Rightarrow> token_delivery option \<Rightarrow> time \<Rightarrow> security_event \<Rightarrow>
    ('s, 'u registration_outcome) port"
  rgs_hasher :: "'s password_hasher"
  rgs_tokens :: "'s purpose_codec"
  rgs_mode :: registration_mode
  rgs_require_verification :: bool
  rgs_policy :: password_policy
  rgs_lifetime :: time
  rgs_attempts :: int
  rgs_return_url :: "string option"
  rgs_clock :: "('s, py_datetime) port"
  rgs_normalizer :: "string \<Rightarrow> string result"
  rgs_event_ids :: "('s, string) port"
  rgs_limit :: "'s limit_check option"

definition registration_service_post_init ::
  "('s, 'u) registration_service \<Rightarrow> ('s, 'u) registration_service result" where
  "registration_service_post_init srv =
     (if rgs_mode srv = Registration_Disabled then Inl ImproperlyConfigured
      else bind (validate_lifecycle_configuration (pt_split (rgs_tokens srv)) (rgs_lifetime srv) (rgs_attempts srv)
        (rgs_return_url srv)) (\<lambda>_. Inr srv))"

definition verification_plan ::
  "('s, 'u) registration_service \<Rightarrow> string \<Rightarrow> time \<Rightarrow> ('s, token_delivery option) port" where
  "verification_plan srv destination occurred_at =
     (if \<not> rgs_require_verification srv then pure None
      else call (issue_purpose_token (rgs_tokens srv) Verification (Aware occurred_at) (rgs_lifetime srv)
        ''local.verify'' destination (rgs_return_url srv) (rgs_attempts srv)) (\<lambda>d. pure (Some d)))"

text \<open>\<open>None\<close>: no invitation is needed; \<open>Some None\<close>: the presented invitation is malformed.\<close>

definition presented_invitation ::
  "('s, 'u) registration_service \<Rightarrow> string option \<Rightarrow> bytes option option result" where
  "presented_invitation srv token =
     (if rgs_mode srv \<noteq> Registration_Invite_Only then Inr None
      else bind (purpose_proof_of (rgs_tokens srv) Invitation token) (\<lambda>p. Inr (Some (map_option pp_digest p))))"

definition commit_registration ::
  "('s, 'u) registration_service \<Rightarrow> string \<Rightarrow> string option \<Rightarrow> string \<Rightarrow> bytes option \<Rightarrow> time \<Rightarrow>
     ('s, 'u registration_outcome) port" where
  "commit_registration srv identifier shown password invitation occurred_at =
     call (ph_hash (rgs_hasher srv) password) (\<lambda>hash.
     call (verification_plan srv identifier occurred_at) (\<lambda>plan.
     call (lifecycle_event (rgs_event_ids srv) occurred_at ''local.registration'' ''created'' None) (\<lambda>event.
       rgs_register srv \<lparr>rg_normalized_identifier = identifier, rg_display_name = shown\<rparr> hash invitation plan
         occurred_at event)))"

definition registration_body ::
  "('s, 'u) registration_service \<Rightarrow> string \<Rightarrow> string \<Rightarrow> string option \<Rightarrow> string option \<Rightarrow> time \<Rightarrow>
     ('s, registration_answer lifecycle) port" where
  "registration_body srv identifier password shown invitation_token occurred_at =
     sanitize_block (lift_result (check_password (rgs_policy srv) password (Some identifier))) (\<lambda>violations.
       if violations \<noteq> {} then pure (Policy_Violated violations)
       else call (lift_result (presented_invitation srv invitation_token)) (\<lambda>invitation.
         case invitation of
           Some None \<Rightarrow> pure (Answered Registration_Invalid_Invitation)
         | _ \<Rightarrow>
             sanitize_block (commit_registration srv identifier shown password (Option.bind invitation (\<lambda>d. d))
               occurred_at) (\<lambda>outcome.
                 pure (Answered (if ro_status outcome = Invalid_Invitation then Registration_Invalid_Invitation
                   else Registration_Accepted)))))"

text \<open>Only text and value errors of the clock and the normaliser are a rejection; others escape.\<close>

definition register_account ::
  "('s, 'u) registration_service \<Rightarrow> string \<Rightarrow> string \<Rightarrow> string option \<Rightarrow> string option \<Rightarrow> py_datetime option \<Rightarrow>
     string option \<Rightarrow> ('s, registration_answer lifecycle) port" where
  "register_account srv identifier password shown invitation_token now client_key s =
     (case call (port_time (rgs_clock srv) now) (\<lambda>t.
             call (lift_result (rgs_normalizer srv identifier)) (\<lambda>n. pure (t, n))) s of
        (Inl e, s1) \<Rightarrow> (if e = TypeError \<or> e = ValueError then Inr Lifecycle_Rejected else Inl e, s1)
      | (Inr (occurred_at, normalized), s1) \<Rightarrow>
          if \<not> strict_text normalized then (Inr Lifecycle_Rejected, s1)
          else when_admitted (limited (rgs_limit srv) ''local.registration'' client_key (Some normalized) s1)
            (registration_body srv normalized password shown invitation_token occurred_at))"

section \<open>Verification tokens\<close>

record ('s, 'u) token_service =
  ts_find :: "string \<Rightarrow> ('s, 'u account option) port"
  ts_issue :: "time token_issue \<Rightarrow> time notification \<Rightarrow> security_event \<Rightarrow> ('s, unit) port"
  ts_issue_absent :: "('s, unit) port"
  ts_tokens :: "'s purpose_codec"
  ts_lifetime :: time
  ts_attempts :: int
  ts_return_url :: "string option"
  ts_clock :: "('s, py_datetime) port"
  ts_normalizer :: "string \<Rightarrow> string result"
  ts_event_ids :: "('s, string) port"
  ts_limit :: "'s limit_check option"

definition token_service_post_init :: "('s, 'u) token_service \<Rightarrow> ('s, 'u) token_service result" where
  "token_service_post_init srv =
     bind (validate_lifecycle_configuration (pt_split (ts_tokens srv)) (ts_lifetime srv) (ts_attempts srv)
       (ts_return_url srv)) (\<lambda>_. Inr srv)"

definition request_limit ::
  "('s, 'u) token_service \<Rightarrow> string \<Rightarrow> string \<Rightarrow> string option \<Rightarrow> 's \<Rightarrow> limit_outcome \<times> 's" where
  "request_limit srv operation identifier client_key =
     limited (ts_limit srv) operation client_key
       (case ts_normalizer srv identifier of Inl e \<Rightarrow> None | Inr n \<Rightarrow> (if n = [] then None else Some n))"

text \<open>
  The body of a resend or recovery request. \<open>eligible\<close> says which accounts get a token and at which
  epoch it is bound; every other identifier pays the probing round trip.
\<close>

definition request_token ::
  "('s, 'u) token_service \<Rightarrow> token_purpose \<Rightarrow> string \<Rightarrow> string \<Rightarrow> ('u account \<Rightarrow> int option option) \<Rightarrow> string \<Rightarrow>
     py_datetime option \<Rightarrow> ('s, unit) port" where
  "request_token srv purpose template operation eligible identifier now =
     call (port_time (ts_clock srv) now) (\<lambda>occurred_at.
     call (lift_result (ts_normalizer srv identifier)) (\<lambda>normalized.
     call (issue_purpose_token (ts_tokens srv) purpose (Aware occurred_at) (ts_lifetime srv) template normalized
       (ts_return_url srv) (ts_attempts srv)) (\<lambda>delivery.
     call (if normalized = [] then pure None else ts_find srv normalized) (\<lambda>found.
       case Option.bind found (\<lambda>account. map_option (\<lambda>epoch. (account, epoch)) (eligible account)) of
         None \<Rightarrow> ts_issue_absent srv
       | Some (account, epoch) \<Rightarrow>
           call (lift_result (bind_delivery delivery (acc_id account) epoch)) (\<lambda>(issue, notification).
           call (lifecycle_event (ts_event_ids srv) occurred_at operation ''issued'' (Some (acc_id account))) (\<lambda>event.
             ts_issue srv issue notification event))))))"

definition request_body ::
  "('s, unit) port \<Rightarrow> ('s, unit lifecycle) port" where
  "request_body m s = (Inr (Answered ()), snd (m s))"

definition resend_verification ::
  "('s, 'u) token_service \<Rightarrow> string \<Rightarrow> py_datetime option \<Rightarrow> string option \<Rightarrow> ('s, unit lifecycle) port" where
  "resend_verification srv identifier now client_key s =
     when_admitted (request_limit srv ''local.verification.resend'' identifier client_key s)
       (request_body (request_token srv Verification ''local.verify'' ''local.verification.issue''
         (\<lambda>account. if acc_active account \<and> \<not> acc_verified account then Some None else None) identifier now))"

definition consume_verification ::
  "('s, 'u) token_service \<Rightarrow> (string \<Rightarrow> bytes \<Rightarrow> time \<Rightarrow> security_event \<Rightarrow> ('s, verification_outcome) port) \<Rightarrow>
     string option \<Rightarrow> py_datetime option \<Rightarrow> string option \<Rightarrow> ('s, verification_outcome lifecycle) port" where
  "consume_verification srv consume token now client_key s =
     when_admitted (limited (ts_limit srv) ''local.verification.consume'' client_key None s)
       (call (lift_result (purpose_proof_of (ts_tokens srv) Verification token)) (\<lambda>found.
          case found of
            None \<Rightarrow> call (lift_result (verification Verification_Invalid None None)) (\<lambda>v. pure (Answered v))
          | Some p \<Rightarrow>
              sanitize_block (call (port_time (ts_clock srv) now) (\<lambda>occurred_at.
                call (lifecycle_event (ts_event_ids srv) occurred_at ''local.verification.consume'' ''verified'' None) (\<lambda>event.
                  consume (pp_token_id p) (pp_digest p) occurred_at event)))
                (\<lambda>v. pure (Answered v))))"

section \<open>Credential cleanup\<close>

record 's credential_cleanup =
  cc_revoke_all :: "(string \<Rightarrow> security_event \<Rightarrow> ('s, nat) port) option"
  cc_revoke_others :: "string \<Rightarrow> string \<Rightarrow> security_event \<Rightarrow> ('s, nat) port"
  cc_rebind :: "string \<Rightarrow> time session_command \<Rightarrow> security_event \<Rightarrow> ('s, time user_session option) port"
  cc_revoke_refresh :: "(string \<Rightarrow> security_event \<Rightarrow> ('s, nat) port) option"
  cc_event_ids :: "('s, string) port"

text \<open>A step whose exception is logged and dropped.\<close>

definition attempt :: "('s, 'a) port \<Rightarrow> 's \<Rightarrow> 's" where
  "attempt m s = snd (m s)"

definition revoke_all_sessions :: "'s credential_cleanup \<Rightarrow> string \<Rightarrow> time \<Rightarrow> string \<Rightarrow> 's \<Rightarrow> 's" where
  "revoke_all_sessions cc account_id occurred_at operation s =
     (case cc_revoke_all cc of
        None \<Rightarrow> s
      | Some revoke \<Rightarrow>
          attempt (call (lifecycle_event (cc_event_ids cc) occurred_at operation ''revoked'' (Some account_id))
            (revoke account_id)) s)"

definition revoke_all_refresh :: "'s credential_cleanup \<Rightarrow> string \<Rightarrow> time \<Rightarrow> string \<Rightarrow> 's \<Rightarrow> 's" where
  "revoke_all_refresh cc account_id occurred_at operation s =
     (case cc_revoke_refresh cc of
        None \<Rightarrow> s
      | Some revoke \<Rightarrow>
          attempt (call (lifecycle_event (cc_event_ids cc) occurred_at operation ''revoked'' (Some account_id))
            (revoke account_id)) s)"

definition revoke_all_credentials :: "'s credential_cleanup \<Rightarrow> string \<Rightarrow> time \<Rightarrow> string \<Rightarrow> 's \<Rightarrow> 's" where
  "revoke_all_credentials cc account_id occurred_at operation s =
     revoke_all_refresh cc account_id occurred_at (operation @ ''.refresh_revoke'')
       (revoke_all_sessions cc account_id occurred_at (operation @ ''.session_revoke_all'') s)"

section \<open>Recovery tokens\<close>

record ('s, 'u) recovery_service = "('s, 'u) token_service" +
  rcs_reset :: "string \<Rightarrow> bytes \<Rightarrow> string \<Rightarrow> time \<Rightarrow> security_event \<Rightarrow> ('s, password_reset_outcome) port"
  rcs_hasher :: "'s password_hasher"
  rcs_policy :: password_policy
  rcs_cleanup :: "'s credential_cleanup"

definition request_recovery ::
  "('s, 'u, 'm) token_service_scheme \<Rightarrow> string \<Rightarrow> py_datetime option \<Rightarrow> string option \<Rightarrow> ('s, unit lifecycle) port" where
  "request_recovery srv identifier now client_key s =
     when_admitted (request_limit (token_service.truncate srv) ''local.recovery'' identifier client_key s)
       (request_body (request_token (token_service.truncate srv) Recovery ''local.recovery'' ''local.recovery.issue''
         (\<lambda>account. if acc_active account then Some (Some (acc_epoch account)) else None) identifier now))"

definition finish_reset ::
  "('s, 'u) recovery_service \<Rightarrow> time \<times> password_reset_outcome \<Rightarrow> ('s, password_reset_outcome lifecycle) port" where
  "finish_reset srv = (\<lambda>(occurred_at, outcome) s.
     (Inr (Answered outcome),
      case (pr_status outcome, pr_account_id outcome) of
        (Reset, Some account_id) \<Rightarrow>
          revoke_all_credentials (rcs_cleanup srv) account_id occurred_at ''local.recovery'' s
      | _ \<Rightarrow> s))"

definition reset_password ::
  "('s, 'u) recovery_service \<Rightarrow> string option \<Rightarrow> string \<Rightarrow> py_datetime option \<Rightarrow> string option \<Rightarrow>
     ('s, password_reset_outcome lifecycle) port" where
  "reset_password srv token password now client_key s =
     when_admitted (limited (ts_limit srv) ''local.password.reset'' client_key None s)
       (call (lift_result (purpose_proof_of (ts_tokens srv) Recovery token)) (\<lambda>found.
          case found of
            None \<Rightarrow> call (lift_result (password_reset Reset_Invalid None None)) (\<lambda>v. pure (Answered v))
          | Some p \<Rightarrow>
              sanitize_block (lift_result (check_password (rcs_policy srv) password None)) (\<lambda>violations.
                if violations \<noteq> {} then pure (Policy_Violated violations)
                else sanitize_block
                  (call (port_time (ts_clock srv) now) (\<lambda>occurred_at.
                   call (ph_hash (rcs_hasher srv) password) (\<lambda>hash.
                   call (lifecycle_event (ts_event_ids srv) occurred_at ''local.recovery.consume'' ''reset'' None) (\<lambda>event.
                   call (rcs_reset srv (pp_token_id p) (pp_digest p) hash occurred_at event) (\<lambda>outcome.
                     pure (occurred_at, outcome))))))
                  (finish_reset srv))))"

section \<open>Password changes\<close>

record 's change_service =
  cgs_replace :: "string \<Rightarrow> string \<Rightarrow> int \<Rightarrow> security_event \<Rightarrow> ('s, password_change_outcome) port"
  cgs_hasher :: "'s password_hasher"
  cgs_policy :: password_policy
  cgs_cleanup :: "'s credential_cleanup"
  cgs_ttl :: time
  cgs_clock :: "('s, py_datetime) port"
  cgs_event_ids :: "('s, string) port"

definition change_service_post_init :: "'s change_service \<Rightarrow> 's change_service result" where
  "change_service_post_init srv =
     (if cgs_ttl srv \<le> 0 \<or> cgs_ttl srv > reauthentication_ttl then Inl ImproperlyConfigured else Inr srv)"

datatype change_answer = Change_Outcome password_change_outcome | Change_Invalid_Credentials

definition valid_rebind ::
  "'s change_service \<Rightarrow> string \<Rightarrow> time \<Rightarrow> string option \<Rightarrow> time session_command option \<Rightarrow> bool \<Rightarrow> bool" where
  "valid_rebind srv account_id occurred_at current replacement compromise =
     (if compromise \<and> (current \<noteq> None \<or> replacement \<noteq> None) then False
      else case (current, replacement) of
        (None, None) \<Rightarrow> True
      | (Some session_id, Some c) \<Rightarrow>
          cc_revoke_all (cgs_cleanup srv) \<noteq> None \<and> strict_text session_id \<and> sc_account_id c = account_id \<and>
          strict_text (sc_session_id c) \<and> sc_session_id c \<noteq> session_id \<and> sc_expires_at c > occurred_at
      | _ \<Rightarrow> False)"

definition recent_password_proof ::
  "'s change_service \<Rightarrow> string \<Rightarrow> time reauthentication_proof \<Rightarrow> time \<Rightarrow> bool" where
  "recent_password_proof srv account_id p occurred_at \<longleftrightarrow>
     strict_text account_id \<and> rp_account_id p = account_id \<and> rp_authenticated_at p \<le> occurred_at \<and>
     occurred_at - rp_authenticated_at p \<le> cgs_ttl srv \<and> occurred_at \<le> rp_expires_at p"

definition rebound_command :: "time session_command \<Rightarrow> string \<Rightarrow> int \<Rightarrow> time session_command result" where
  "rebound_command c account_id epoch =
     session_command_post_init
       \<lparr>sc_session_id = sc_session_id c, sc_binding_id = sc_binding_id c, sc_binding_digest = sc_binding_digest c,
        sc_account_id = account_id, sc_security_epoch = epoch, sc_created_at = Aware (sc_created_at c),
        sc_authenticated_at = Aware (sc_authenticated_at c), sc_expires_at = Aware (sc_expires_at c),
        sc_display_metadata = sc_display_metadata c\<rparr>"

text \<open>In the rebind call the command is built before the event.\<close>

definition cleanup_after_change ::
  "'s change_service \<Rightarrow> string \<Rightarrow> int \<Rightarrow> time \<Rightarrow> string option \<Rightarrow> time session_command option \<Rightarrow> bool \<Rightarrow> 's \<Rightarrow> 's" where
  "cleanup_after_change srv account_id epoch occurred_at current replacement compromise s =
     (let cc = cgs_cleanup srv;
          s1 = revoke_all_refresh cc account_id occurred_at ''local.password.refresh_revoke'' s
      in case (current, replacement) of
           (Some session_id, Some c) \<Rightarrow>
             if cc_revoke_all cc = None then s1
             else if compromise then revoke_all_sessions cc account_id occurred_at ''local.password.session_revoke_all'' s1
             else
               let s2 = attempt (call (lifecycle_event (cc_event_ids cc) occurred_at
                     ''local.password.session_revoke_others'' ''revoked'' (Some account_id))
                     (cc_revoke_others cc account_id session_id)) s1
               in attempt (call (lift_result (rebound_command c account_id epoch)) (\<lambda>command.
                    call (lifecycle_event (cc_event_ids cc) occurred_at ''local.password.session_rebind'' ''rebound''
                      (Some account_id)) (cc_rebind cc session_id command))) s2
         | _ \<Rightarrow> revoke_all_sessions cc account_id occurred_at ''local.password.session_revoke_all'' s1)"

definition finish_change ::
  "'s change_service \<Rightarrow> string \<Rightarrow> int \<Rightarrow> time \<Rightarrow> string option \<Rightarrow> time session_command option \<Rightarrow> bool \<Rightarrow>
     password_change_outcome \<Rightarrow> ('s, change_answer lifecycle) port" where
  "finish_change srv account_id expected occurred_at current replacement compromise outcome s =
     (if pc_status outcome \<noteq> Changed then (Inr (Answered (Change_Outcome outcome)), s)
      else if pc_security_epoch outcome \<noteq> Some (expected + 1) then (Inr Lifecycle_Unavailable, s)
      else (Inr (Answered (Change_Outcome outcome)),
        cleanup_after_change srv account_id (expected + 1) occurred_at current replacement compromise s))"

definition replace_password ::
  "'s change_service \<Rightarrow> string \<Rightarrow> string \<Rightarrow> int \<Rightarrow> string option \<Rightarrow> string option \<Rightarrow> time session_command option \<Rightarrow>
     bool \<Rightarrow> time \<Rightarrow> string \<Rightarrow> ('s, change_answer lifecycle) port" where
  "replace_password srv account_id password expected identifier current replacement compromise occurred_at operation =
     (if \<not> strict_text account_id \<or> \<not> valid_security_epoch expected \<or>
         \<not> valid_rebind srv account_id occurred_at current replacement compromise
      then pure Lifecycle_Rejected
      else if expected = maximum_security_epoch
      then call (lift_result (password_change Epoch_Exhausted None)) (\<lambda>v. pure (Answered (Change_Outcome v)))
      else sanitize_block (lift_result (check_password (cgs_policy srv) password identifier)) (\<lambda>violations.
        if violations \<noteq> {} then pure (Policy_Violated violations)
        else sanitize_block
          (call (ph_hash (cgs_hasher srv) password) (\<lambda>hash.
           call (lifecycle_event (cgs_event_ids srv) occurred_at operation ''changed'' (Some account_id))
             (cgs_replace srv account_id hash expected)))
          (finish_change srv account_id expected occurred_at current replacement compromise)))"

definition at_time ::
  "'s change_service \<Rightarrow> py_datetime option \<Rightarrow> (time \<Rightarrow> ('s, 'a lifecycle) port) \<Rightarrow> ('s, 'a lifecycle) port" where
  "at_time srv now k s =
     (case port_time (cgs_clock srv) now s of
        (Inl e, s') \<Rightarrow>
          (if e = AttributeError \<or> e = TypeError \<or> e = ValueError then Inr Lifecycle_Rejected else Inl e, s')
      | (Inr t, s') \<Rightarrow> k t s')"

definition change_password ::
  "'s change_service \<Rightarrow> string \<Rightarrow> string \<Rightarrow> time reauthentication_proof \<Rightarrow> string option \<Rightarrow> string option \<Rightarrow>
     time session_command option \<Rightarrow> bool \<Rightarrow> py_datetime option \<Rightarrow> ('s, change_answer lifecycle) port" where
  "change_password srv account_id password p identifier current replacement compromise now =
     at_time srv now (\<lambda>occurred_at.
       if \<not> recent_password_proof srv account_id p occurred_at then pure (Answered Change_Invalid_Credentials)
       else replace_password srv account_id password (rp_security_epoch p) identifier current replacement compromise
         occurred_at ''local.password.change'')"

definition force_reset_password ::
  "'s change_service \<Rightarrow> string \<Rightarrow> string \<Rightarrow> int \<Rightarrow> string option \<Rightarrow> py_datetime option \<Rightarrow>
     ('s, change_answer lifecycle) port" where
  "force_reset_password srv account_id password expected identifier now =
     at_time srv now (\<lambda>occurred_at.
       replace_password srv account_id password expected identifier None None True occurred_at
         ''local.password.force_reset'')"

end
