(* ===== verification/Lifecycle_Properties.thy ===== *)
theory Lifecycle_Properties
  imports Account_Lifecycle Session_Lifecycle Refresh_Liveness Store_Properties
begin

text \<open>
  What the account lifecycle guarantees on the in-memory store: the token a notification carries
  verifies the account it was issued for, a recovery token replaces the password and cuts every
  credential off, a password change leaves the rebound session or, when the rebind is refused, the one it was
  made from, and a login returns to it.
\<close>

section \<open>Ports of the in-memory store with an outbox\<close>

type_synonym 'u mail_world = "'u world \<times> time notification list"

definition mail_issue ::
  "time token_issue \<Rightarrow> time notification \<Rightarrow> security_event \<Rightarrow> ('u mail_world, unit) port" where
  "mail_issue issue notif event s =
     (case issue_token issue (fst s) of
        (Inl e, w) \<Rightarrow> (Inl e, (w, snd s))
      | (Inr _, w) \<Rightarrow> (Inr (), (w, snd s @ [notif])))"

definition memory_cleanup :: "('u world \<times> 'e, string) port \<Rightarrow> ('u world \<times> 'e) credential_cleanup" where
  "memory_cleanup ids =
     \<lparr>cc_revoke_all = Some (\<lambda>k e. on_first (revoke_sessions_for_account k)),
      cc_revoke_others = \<lambda>k i e. on_first (revoke_other_sessions k i),
      cc_rebind = \<lambda>i c e. on_first (rebind_session i c),
      cc_revoke_refresh = Some (\<lambda>k e. on_first (revoke_for_account k)), cc_event_ids = ids\<rparr>"

definition mail_view :: "'u mail_world \<Rightarrow> ((string, py_error) dict \<times> 'u local_store) \<times> time notification list" where
  "mail_view s = (memory_view s, snd s)"

definition memory_mail :: "('u mail_world, 'u, 'm) token_service_scheme \<Rightarrow> bool" where
  "memory_mail srv \<longleftrightarrow>
     ts_find srv = memory_find \<and> ts_issue srv = mail_issue \<and> ts_issue_absent srv = on_first issue_absent \<and>
     keeps mail_view (ts_clock srv) \<and> keeps mail_view (ts_event_ids srv) \<and>
     (\<forall>n. keeps mail_view (pt_entropy (ts_tokens srv) n)) \<and>
     (\<forall>check op c i s. ts_limit srv = Some check \<longrightarrow> mail_view (snd (check op c i s)) = mail_view s) \<and>
     (\<forall>m. length (pt_hmac (ts_tokens srv) (pt_pepper (ts_tokens srv)) m) = digest_bytes)"

section \<open>Chains that leave the store alone\<close>

lemma mail_view_eq:
  "mail_view s = mail_view t \<longleftrightarrow>
     failpoints (fst (fst s)) = failpoints (fst (fst t)) \<and> memory_store s = memory_store t \<and> snd s = snd t"
  by (auto simp: mail_view_def memory_view_def memory_store_def)

lemma port_time_keeps: "keeps view clock \<Longrightarrow> keeps view (port_time clock now)"
  unfolding port_time_def by (intro keeps_call) (auto split: option.splits)

lemma lifecycle_event_keeps: "keeps view ids \<Longrightarrow> keeps view (lifecycle_event ids t op oc k)"
  unfolding lifecycle_event_def by (intro keeps_call) auto

lemma purpose_entropy_keeps: "keeps view (pt_entropy c n) \<Longrightarrow> keeps view (purpose_entropy c n)"
  by (auto simp: keeps_def purpose_entropy_def split: prod.splits sum.splits) (metis snd_conv)+

lemma issue_purpose_token_keeps:
  assumes "\<And>n. keeps view (pt_entropy c n)"
  shows "keeps view (issue_purpose_token c p now l template d url n)"
proof -
  have "keeps view (purpose_entropy c m)" for m
    by (rule purpose_entropy_keeps) (rule assms)
  then show ?thesis
    unfolding issue_purpose_token_def by (intro keeps_call keeps_basic) (auto intro!: keeps_call)
qed

lemma memory_find_keeps: "keeps mail_view (memory_find k)"
  by (simp add: keeps_def memory_find_def on_first_def mail_view_def memory_view_def)

definition silent :: "('u mail_world, 'a) port \<Rightarrow> bool" where
  "silent p \<longleftrightarrow> (\<forall>s e s'. p s = (Inl e, s') \<longrightarrow> snd s' = snd s)"

lemma keeps_outbox: "keeps mail_view p \<Longrightarrow> p s = (r, s') \<Longrightarrow> snd s' = snd s"
  using keepsD [of mail_view p s r s'] by (simp add: mail_view_def)

lemma silentD: "silent p \<Longrightarrow> p s = (Inl e, s') \<Longrightarrow> snd s' = snd s"
  unfolding silent_def by blast

lemma silent_keeps: "keeps mail_view p \<Longrightarrow> silent p"
  by (auto simp: silent_def dest: keeps_outbox)

lemma silent_call:
  assumes "keeps mail_view m" "\<And>a. silent (f a)"
  shows "silent (call m f)"
  unfolding silent_def
proof (intro allI impI)
  fix s e s'
  assume run: "call m f s = (Inl e, s')"
  obtain r s1 where m: "m s = (r, s1)"
    by (cases "m s")
  moreover have "snd s1 = snd s"
    by (rule keeps_outbox [OF assms(1) m])
  ultimately show "snd s' = snd s"
    using run silentD [OF assms(2)] by (auto simp: call_def simp del: split_paired_All split: sum.splits)
qed

lemma silent_mail_issue: "silent (mail_issue i n e)"
  by (auto simp: silent_def mail_issue_def split: prod.splits sum.splits)

lemma issue_absent_keeps: "keeps mail_view (on_first issue_absent)"
  by (auto simp: keeps_def on_first_def issue_absent_def observed_def observe_def Let_def on_store_def reading_def
      mail_view_def memory_view_def split: prod.splits option.splits)

lemma memory_mail_simps:
  assumes "memory_mail srv"
  shows "ts_find srv = memory_find" "ts_issue srv = mail_issue" "ts_issue_absent srv = on_first issue_absent"
    "keeps mail_view (port_time (ts_clock srv) now)"
    "keeps mail_view (lifecycle_event (ts_event_ids srv) t op oc k)"
    "keeps mail_view (issue_purpose_token (ts_tokens srv) p (Aware t) l template d url n)"
proof -
  note m = assms [unfolded memory_mail_def]
  show "ts_find srv = memory_find" "ts_issue srv = mail_issue" "ts_issue_absent srv = on_first issue_absent"
    using m by blast+
  show "keeps mail_view (port_time (ts_clock srv) now)"
    by (rule port_time_keeps) (use m in blast)
  show "keeps mail_view (lifecycle_event (ts_event_ids srv) t op oc k)"
    by (rule lifecycle_event_keeps) (use m in blast)
  show "keeps mail_view (issue_purpose_token (ts_tokens srv) p (Aware t) l template d url n)"
    by (rule issue_purpose_token_keeps) (use m in blast)
qed

section \<open>A request that sends mail\<close>

lemma mail_issue_Inr:
  assumes "mail_issue i n e s = (Inr (), s')"
  shows "do_issue i (memory_store s) = (Inr (), memory_store s')" "snd s' = snd s @ [n]"
  using assms
  by (auto simp: mail_issue_def issue_token_def memory_store_def dest!: observed_store_Inr split: prod.splits sum.splits)

lemma request_token_mail:
  assumes mail: "memory_mail srv"
    and run: "request_token srv purpose template op eligible identifier now s = (r, s')" and sent: "snd s' \<noteq> snd s"
  obtains t n d s1 s2 account epoch issue where
    "ts_normalizer srv identifier = Inr n" "find_for_login n (memory_store s) = Some account"
    "eligible account = Some epoch" "bind_delivery d (acc_id account) epoch = Inr (issue, td_notification d)"
    "issue_purpose_token (ts_tokens srv) purpose (Aware t) (ts_lifetime srv) template n (ts_return_url srv)
      (ts_attempts srv) s1 = (Inr d, s2)"
    "do_issue issue (memory_store s) = (Inr (), memory_store s')" "snd s' = snd s @ [td_notification d]"
proof -
  note k = memory_mail_simps [OF mail]
  have finish: "silent (case e of None \<Rightarrow> ts_issue_absent srv
       | Some (account, epoch) \<Rightarrow>
           call (lift_result (bind_delivery d (acc_id account) epoch)) (\<lambda>(issue, notification).
           call (lifecycle_event (ts_event_ids srv) t op ''issued'' (Some (acc_id account))) (\<lambda>event.
             ts_issue srv issue notification event)))" for e :: "('a account \<times> int option) option" and d t
  proof (cases e)
    case None
    then show ?thesis
      by (simp add: k(3) silent_keeps [OF issue_absent_keeps])
  next
    case (Some pair)
    have "silent (call (lift_result (bind_delivery d (acc_id (fst pair)) (snd pair))) (\<lambda>(issue, notification).
           call (lifecycle_event (ts_event_ids srv) t op ''issued'' (Some (acc_id (fst pair)))) (\<lambda>event.
             mail_issue issue notification event)))"
    proof (rule silent_call [OF keeps_basic(3)])
      fix i :: "time token_issue \<times> time notification"
      show "silent (case i of (issue, notification) \<Rightarrow>
          call (lifecycle_event (ts_event_ids srv) t op ''issued'' (Some (acc_id (fst pair)))) (\<lambda>event.
             mail_issue issue notification event))"
        by (cases i) (auto intro: silent_call k(5) silent_mail_issue)
    qed
    then show ?thesis
      by (simp add: Some k(2) case_prod_beta)
  qed
  have "silent (request_token srv purpose template op eligible identifier now)"
    unfolding request_token_def
    by (intro silent_call k(4) keeps_basic k(6) finish) (auto simp: k(1) memory_find_keeps)
  then obtain u where "r = Inr u"
    using run sent silentD by (cases r) blast+
  then obtain t s1 n d s2 found s3 where
    t: "port_time (ts_clock srv) now s = (Inr t, s1)" and n: "ts_normalizer srv identifier = Inr n"
    and d: "issue_purpose_token (ts_tokens srv) purpose (Aware t) (ts_lifetime srv) template n (ts_return_url srv)
      (ts_attempts srv) s1 = (Inr d, s2)"
    and found: "(if n = [] then pure None else ts_find srv n) s2 = (Inr found, s3)"
    and last: "(case Option.bind found (\<lambda>account. map_option (\<lambda>epoch. (account, epoch)) (eligible account)) of
         None \<Rightarrow> ts_issue_absent srv
       | Some (account, epoch) \<Rightarrow>
           call (lift_result (bind_delivery d (acc_id account) epoch)) (\<lambda>(issue, notification).
           call (lifecycle_event (ts_event_ids srv) t op ''issued'' (Some (acc_id account))) (\<lambda>event.
             ts_issue srv issue notification event))) s3 = (Inr (), s')"
    using run unfolding request_token_def by (auto simp: run_ok simp del: call_lift)
  have view: "mail_view s1 = mail_view s" "mail_view s2 = mail_view s1"
    using keepsD [OF k(4) t] keepsD [OF k(6) d] by simp_all
  have "keeps mail_view (if n = [] then pure None else ts_find srv n)"
    by (simp add: k(1) memory_find_keeps)
  then have view3: "mail_view s3 = mail_view s2"
    using found by (rule keepsD)
  obtain account epoch where account: "found = Some account" "eligible account = Some epoch"
    using last keeps_outbox [OF issue_absent_keeps, of s3 "Inr ()" s'] sent view view3
    by (cases found; cases "eligible (the found)") (auto simp: k(3) mail_view_eq)
  then obtain issue notif event s4 where bound: "bind_delivery d (acc_id account) epoch = Inr (issue, notif)"
    and event: "lifecycle_event (ts_event_ids srv) t op ''issued'' (Some (acc_id account)) s3 = (Inr event, s4)"
    and sent': "mail_issue issue notif event s4 = (Inr (), s')"
    using last by (auto simp: run_ok k(2) simp del: call_lift)
  have "mail_view s4 = mail_view s3"
    by (rule keepsD [OF k(5) event])
  then have same: "memory_store s4 = memory_store s" "snd s4 = snd s"
    using view view3 by (simp_all add: mail_view_eq)
  have "find_for_login n (memory_store s) = Some account"
    using found account(1) view by (auto simp: k(1) memory_find_def on_first_def mail_view_eq memory_store_def split: if_splits)
  moreover have "notif = td_notification d"
    using bound by (auto simp: bind_delivery_def bind_eq_Inr)
  ultimately show thesis
    using that [OF n _ account(2) _ d] bound mail_issue_Inr [OF sent'] same by simp
qed


lemma issue_purpose_token_expiry:
  assumes "issue_purpose_token c p now lifetime template destination return_url n s = (Inr d, s')"
  shows "no_expires_at (td_notification d) = pi_expires_at (td_issue d)"
  using assms
  by (auto simp: issue_purpose_token_def run_ok notification_post_init_def bind_eq_Inr simp del: call_lift
      split: if_splits)

lemma bind_issue_expiry: "bind_issue p a e = Inr i \<Longrightarrow> ti_expires_at i = pi_expires_at p"
  by (auto simp: bind_issue_def token_issue_post_init_def validate_pending_token_issue_def result_simps Let_def
      split: if_splits option.splits)

text \<open>The stored issue and the notification of one request carry the two halves of one token.\<close>

definition mailed ::
  "'s purpose_codec \<Rightarrow> token_purpose \<Rightarrow> time token_issue \<Rightarrow> time notification \<Rightarrow> bool" where
  "mailed c p issue n \<longleftrightarrow>
     ti_purpose issue = p \<and> ti_expires_at issue = no_expires_at n \<and>
     purpose_proof_of c p (Some (no_token n)) = Inr (Some
       \<lparr>pp_token_id = ti_token_id issue, pp_digest = ti_digest issue, pp_purpose = p\<rparr>)"

lemma request_token_stored:
  assumes mail: "memory_mail srv" and ok: "accounts_ok (memory_store s)"
    and run: "request_token srv purpose template op eligible identifier now s = (r, s')" and sent: "snd s' \<noteq> snd s"
  obtains n account epoch issue where
    "ts_normalizer srv identifier = Inr (no_destination n)" "snd s' = snd s @ [n]"
    "get_by_id (acc_id account) (memory_store s) = Some account" "acc_identifier account = no_destination n"
    "eligible account = Some epoch" "ti_account_id issue = acc_id account" "ti_issued_epoch issue = epoch"
    "mailed (ts_tokens srv) purpose issue n" "do_issue issue (memory_store s) = (Inr (), memory_store s')" "valid_issue issue"
proof -
  obtain t m d s1 s2 account epoch issue where r: "ts_normalizer srv identifier = Inr m"
    "find_for_login m (memory_store s) = Some account" "eligible account = Some epoch"
    "bind_delivery d (acc_id account) epoch = Inr (issue, td_notification d)"
    "issue_purpose_token (ts_tokens srv) purpose (Aware t) (ts_lifetime srv) template m (ts_return_url srv)
      (ts_attempts srv) s1 = (Inr d, s2)"
    "do_issue issue (memory_store s) = (Inr (), memory_store s')" "snd s' = snd s @ [td_notification d]"
    by (rule request_token_mail [OF mail run sent])
  obtain lookup secret where token: "length lookup = 16" "length secret = 32"
    "td_issue d = \<lparr>pi_token_id = purpose_prefix purpose @ encode_random lookup,
       pi_digest = purpose_token_digest (ts_tokens srv) purpose lookup secret, pi_purpose = purpose,
       pi_expires_at = t + ts_lifetime srv, pi_maximum_attempts = ts_attempts srv\<rparr>"
    "no_token (td_notification d) = purpose_token purpose lookup secret" "no_destination (td_notification d) = m"
    using issue_purpose_token_Inr [OF r(5)] by (metis aware_utc_time.simps(1) sum.inject(2))
  have bound: "bind_issue (td_issue d) (acc_id account) epoch = Inr issue"
    using r(4) by (auto simp: bind_delivery_def bind_eq_Inr)
  have "purpose_proof_of (ts_tokens srv) purpose (Some (no_token (td_notification d))) = Inr (Some
      \<lparr>pp_token_id = ti_token_id issue, pp_digest = ti_digest issue, pp_purpose = purpose\<rparr>)"
    using purpose_proof_of_token [OF token(1,2), of "ts_tokens srv" purpose] mail bind_issue_Inr [OF bound] token(3,4)
    by (simp add: memory_mail_def)
  then have "mailed (ts_tokens srv) purpose issue (td_notification d)"
    using bind_issue_Inr(3) [OF bound] bind_issue_expiry [OF bound] issue_purpose_token_expiry [OF r(5)] token(3)
    by (simp add: mailed_def)
  moreover have "get_by_id (acc_id account) (memory_store s) = Some account" "acc_identifier account = m"
  proof -
    have "dict_ok (st_accounts (memory_store s))"
      using ok by (simp add: accounts_ok_def)
    then obtain k where k: "dget (st_accounts (memory_store s)) k = Some account"
      using find_value_Some [OF r(2) [unfolded find_for_login_def]]
        mem_dvalues_iff [of "st_accounts (memory_store s)" account] by blast
    show "get_by_id (acc_id account) (memory_store s) = Some account"
      using k accounts_okD(1) [OF ok k] by (simp add: get_by_id_def)
    show "acc_identifier account = m"
      using find_value_Some [OF r(2) [unfolded find_for_login_def]] by simp
  qed
  ultimately show thesis
    by (intro that [OF _ r(7) _ _ r(3) _ _ _ r(6)]) (simp_all add: r(1) token(5) bind_issue_Inr(1,5,6) [OF bound])
qed

section \<open>A verification link\<close>

definition memory_verify ::
  "string \<Rightarrow> bytes \<Rightarrow> time \<Rightarrow> security_event \<Rightarrow> ('u world \<times> 'e, verification_outcome) port" where
  "memory_verify i d t e = on_first (consume_and_verify i d t)"

text \<open>Nothing but the store decides: the limiter, the identifiers and the backend all answer.\<close>

definition all_answer :: "('u mail_world, 'u, 'm) token_service_scheme \<Rightarrow> string \<Rightarrow> 'u mail_world \<Rightarrow> bool" where
  "all_answer srv op s \<longleftrightarrow>
     ts_limit srv = None \<and> answers memory_view strict_text (ts_event_ids srv) \<and>
     dget (failpoints (fst (fst s))) op = None"

lemma lifecycle_event_runs:
  assumes "answers view strict_text ids"
  obtains event s' where "lifecycle_event ids t op oc k s = (Inr event, s')" "view s' = view s"
proof -
  obtain i s1 where "ids s = (Inr i, s1)" "strict_text i" "view s1 = view s"
    by (rule answersE [OF assms])
  then show thesis
    by (intro that [of "plain_event (strip i) t op oc k" s1]) (simp_all add: lifecycle_event_def call_def)
qed

lemma consume_verification_runs:
  assumes "all_answer srv ''accounts.consume_and_verify'' s"
    "purpose_proof_of (ts_tokens srv) Verification token = Inr (Some p)"
    "do_consume_and_verify (pp_token_id p) (pp_digest p) t (memory_store s) = (Inr v, st')"
  shows "\<exists>s'. consume_verification srv memory_verify token (Some (Aware t)) ck s = (Inr (lifecycle.Answered v), s') \<and>
    memory_store s' = st'"
proof -
  have a: "ts_limit srv = None" "answers memory_view strict_text (ts_event_ids srv)"
      "memory_view s = (failpoints (fst (fst s)), memory_store s)"
      "dget (failpoints (fst (fst s))) ''accounts.consume_and_verify'' = None"
    using assms(1) by (simp_all add: all_answer_def memory_view_def memory_store_def)
  obtain event s1 where event: "lifecycle_event (ts_event_ids srv) t ''local.verification.consume'' ''verified'' None s =
      (Inr event, s1)" "memory_view s1 = memory_view s"
    by (rule lifecycle_event_runs [OF a(2)])
  obtain s2 where s2: "memory_verify (pp_token_id p) (pp_digest p) t event s1 = (Inr v, s2)" "memory_store s2 = st'"
    using on_first_observed [where f = "do_consume_and_verify (pp_token_id p) (pp_digest p) t",
        OF event(2) [unfolded a(3)] a(4) assms(3), of "[(''token_id'', pp_token_id p)]"]
    by (auto simp: memory_verify_def consume_and_verify_def memory_view_def memory_store_def)
  show ?thesis
    using a(1) s2
    by (simp add: consume_verification_def when_admitted_def limited_def assms(2) sanitize_block_def port_time_def
        call_def event(1))
qed

lemma verify_issued:
  assumes "do_issue issue st = (Inr (), st')" "ti_purpose issue = Verification" "t < ti_expires_at issue"
    "dget (st_accounts st) (acc_id account) = Some account" "ti_account_id issue = acc_id account"
    "valid_account (account\<lparr>acc_verified := True\<rparr>)"
  shows "\<exists>st''. do_consume_and_verify (ti_token_id issue) (ti_digest issue) t st' =
      (Inr \<lparr>vo_status = Consumed, vo_account_id = Some (acc_id account), vo_security_epoch = Some (acc_epoch account)\<rparr>, st'') \<and>
    dget (st_accounts st'') (acc_id account) = Some (account\<lparr>acc_verified := True\<rparr>)"
proof -
  have "st' = st\<lparr>st_tokens := dset (ti_token_id issue) issue (st_tokens st)\<rparr>"
    using assms(1) by (auto simp: do_issue_def split: if_splits)
  then show ?thesis
    using assms(2-6)
    by (simp add: do_consume_and_verify_def dict_simps Let_def retire_token_def account_post_init_valid outcome_defs)
qed

lemma verification_link_lemma:
  assumes mail: "memory_mail srv" and ok: "accounts_ok (memory_store s)"
    and run: "resend_verification srv identifier now ck s = (r, s')" and sent: "snd s' \<noteq> snd s"
    and limit: "ts_limit srv = None"
  shows "\<exists>n account. ts_normalizer srv identifier = Inr (no_destination n) \<and> snd s' = snd s @ [n] \<and>
    get_by_id (acc_id account) (memory_store s) = Some account \<and> acc_identifier account = no_destination n \<and>
    acc_active account \<and> \<not> acc_verified account \<and>
    (\<forall>t u ck'. memory_store u = memory_store s' \<and> all_answer srv ''accounts.consume_and_verify'' u \<and> t < no_expires_at n \<longrightarrow>
      (\<exists>v u'. consume_verification srv memory_verify (Some (no_token n)) (Some (Aware t)) ck' u = (Inr (lifecycle.Answered v), u') \<and>
         vo_status v = Consumed \<and> vo_account_id v = Some (acc_id account) \<and>
         get_by_id (acc_id account) (memory_store u') = Some (account\<lparr>acc_verified := True\<rparr>)))"
proof -
  let ?request = "request_token srv Verification ''local.verify'' ''local.verification.issue''
    (\<lambda>account. if acc_active account \<and> \<not> acc_verified account then Some None else None) identifier now s"
  have "s' = snd ?request"
    using run limit
    by (simp add: resend_verification_def request_limit_def limited_def when_admitted_def request_body_def)
  then have "?request = (fst ?request, s')"
    by simp
  then obtain n account issue where i: "ts_normalizer srv identifier = Inr (no_destination n)" "snd s' = snd s @ [n]"
    "get_by_id (acc_id account) (memory_store s) = Some account" "acc_identifier account = no_destination n"
    "acc_active account" "\<not> acc_verified account" "ti_account_id issue = acc_id account"
    "mailed (ts_tokens srv) Verification issue n" "do_issue issue (memory_store s) = (Inr (), memory_store s')"
    by (rule request_token_stored [OF mail ok _ sent]) (auto split: if_splits)
  let ?v = "\<lparr>vo_status = Consumed, vo_account_id = Some (acc_id account), vo_security_epoch = Some (acc_epoch account)\<rparr>"
  have "\<exists>v u'. consume_verification srv memory_verify (Some (no_token n)) (Some (Aware t)) ck' u = (Inr (lifecycle.Answered v), u') \<and>
      vo_status v = Consumed \<and> vo_account_id v = Some (acc_id account) \<and>
      get_by_id (acc_id account) (memory_store u') = Some (account\<lparr>acc_verified := True\<rparr>)"
    if u: "memory_store u = memory_store s'" "all_answer srv ''accounts.consume_and_verify'' u" "t < no_expires_at n"
    for t u ck'
  proof -
    have "valid_account (account\<lparr>acc_verified := True\<rparr>)"
      using accounts_okD(2) [OF ok] i(3) by (auto simp: get_by_id_def valid_account_def)
    then have "\<exists>st'. do_consume_and_verify (ti_token_id issue) (ti_digest issue) t (memory_store u) = (Inr ?v, st') \<and>
        get_by_id (acc_id account) st' = Some (account\<lparr>acc_verified := True\<rparr>)"
      using verify_issued [OF i(9), of t account] i(3,7,8) u(1,3) by (simp add: mailed_def get_by_id_def)
    then obtain st' where st': "do_consume_and_verify (ti_token_id issue) (ti_digest issue) t (memory_store u) = (Inr ?v, st')"
      "get_by_id (acc_id account) st' = Some (account\<lparr>acc_verified := True\<rparr>)"
      by blast
    show ?thesis
      using consume_verification_runs [OF u(2) i(8) [unfolded mailed_def, THEN conjunct2, THEN conjunct2]] st' by fastforce
  qed
  then show ?thesis
    using i(1-6) by blast
qed


section \<open>Cutting credentials off\<close>

text \<open>No session of the account is registered and every refresh token of it is revoked.\<close>

definition no_family :: "string \<Rightarrow> 'u local_store \<Rightarrow> bool" where
  "no_family k s \<longleftrightarrow> (\<forall>i t. token_state s i = Some t \<longrightarrow> rs_account_id t = k \<longrightarrow> rs_revoked t)"

definition cut_off :: "string \<Rightarrow> 'u local_store \<Rightarrow> bool" where
  "cut_off k s \<longleftrightarrow> no_family k s \<and> (\<forall>i r. registry s i = Some r \<longrightarrow> us_account_id r \<noteq> k)"

lemma no_family_cong: "st_refresh s = st_refresh t \<Longrightarrow> no_family k s = no_family k t"
  by (simp add: no_family_def token_state_def)

lemma sessions_dict_ok: "sessions_ok s \<Longrightarrow> dict_ok (st_sessions s)"
  by (simp add: sessions_ok_def)

lemma do_revoke_for_account_no_family:
  assumes "refresh_ok s"
  shows "no_family k (snd (do_revoke_for_account k s))"
  unfolding no_family_def
proof (intro allI impI)
  fix i r
  assume live: "token_state (snd (do_revoke_for_account k s)) i = Some r" "rs_account_id r = k"
  obtain t0 where t0: "token_state s i = Some t0"
    "r = (if rs_family_id t0 \<in> rs_family_id ` {u \<in> set (dvalues (st_refresh s)). rs_account_id u = k}
          then t0\<lparr>rs_revoked := True\<rparr> else t0)"
    using live(1) unfolding snd_do_revoke_for_account token_state_revoke_families [OF assms]
    by (cases "token_state s i") simp_all
  moreover have "t0 \<in> set (dvalues (st_refresh s))"
    using t0(1) assms mem_dvalues_iff [of "st_refresh s" t0] unfolding token_state_def refresh_ok_def by blast
  ultimately show "rs_revoked r"
    using live(2) by (auto split: if_splits)
qed

definition revoke_everything :: "string \<Rightarrow> 'u local_store \<Rightarrow> 'u local_store" where
  "revoke_everything k s = snd (do_revoke_for_account k (snd (do_revoke_sessions k s)))"

lemma session_frame [simp]:
  "st_accounts (snd (do_revoke_sessions k s)) = st_accounts s" "st_passwords (snd (do_revoke_sessions k s)) = st_passwords s"
  "st_refresh (snd (do_revoke_sessions k s)) = st_refresh s"
  "st_accounts (snd (do_revoke_others k i s)) = st_accounts s" "st_passwords (snd (do_revoke_others k i s)) = st_passwords s"
  "st_refresh (snd (do_revoke_others k i s)) = st_refresh s"
  by (simp_all add: do_revoke_sessions_def do_revoke_others_def Let_def)

lemma refresh_frame [simp]:
  "st_accounts (snd (do_revoke_for_account k s)) = st_accounts s"
  "st_passwords (snd (do_revoke_for_account k s)) = st_passwords s"
  "st_sessions (snd (do_revoke_for_account k s)) = st_sessions s"
  by (simp_all add: snd_do_revoke_for_account)

lemma revoke_everything_frame [simp]:
  "st_accounts (revoke_everything k s) = st_accounts s" "st_passwords (revoke_everything k s) = st_passwords s"
  by (simp_all add: revoke_everything_def)

lemma revoke_everything_cuts_off:
  assumes "store_ok s"
  shows "cut_off k (revoke_everything k s)"
proof -
  let ?t = "snd (do_revoke_sessions k s)"
  have "no_family k (revoke_everything k s)"
    unfolding revoke_everything_def
    using store_okD(5) [OF assms] refresh_ok_cong [of ?t s] by (intro do_revoke_for_account_no_family) simp
  moreover have "registry (revoke_everything k s) = registry ?t"
    by (simp add: revoke_everything_def registry_def fun_eq_iff)
  ultimately show ?thesis
    using registry_revoke_sessions [OF sessions_dict_ok [OF store_okD(4) [OF assms]], of k]
    by (auto simp: cut_off_def split: option.splits if_splits)
qed

definition cleanup_answers :: "('u world \<times> 'e, string) port \<Rightarrow> 'u world \<times> 'e \<Rightarrow> bool" where
  "cleanup_answers ids s \<longleftrightarrow>
     answers memory_view strict_text ids \<and>
     dget (failpoints (fst (fst s))) ''accounts.revoke_sessions'' = None \<and>
     dget (failpoints (fst (fst s))) ''accounts.revoke_refresh_for_account'' = None"

lemma attempt_event:
  assumes "answers memory_view strict_text ids" "memory_view s = (fp, st)"
    "dget fp op = None" "f st = (r, st')"
  shows "memory_view (attempt (call (lifecycle_event ids t name oc k)
    (\<lambda>e. on_first (observed op details (on_store f)))) s) = (fp, st')"
proof -
  obtain event s1 where e: "lifecycle_event ids t name oc k s = (Inr event, s1)" "memory_view s1 = memory_view s"
    by (rule lifecycle_event_runs [OF assms(1)])
  show ?thesis
    using on_first_observed [where f = f, OF e(2) [unfolded assms(2)] assms(3,4), of details]
    by (auto simp: attempt_def call_def e(1))
qed

lemma revoke_all_memory:
  assumes "answers memory_view strict_text ids" "memory_view s = (fp, st)"
  shows "dget fp ''accounts.revoke_sessions'' = None \<Longrightarrow>
      memory_view (revoke_all_sessions (memory_cleanup ids) k t op s) = (fp, snd (do_revoke_sessions k st))"
    "dget fp ''accounts.revoke_refresh_for_account'' = None \<Longrightarrow>
      memory_view (revoke_all_refresh (memory_cleanup ids) k t op s) = (fp, snd (do_revoke_for_account k st))"
  using attempt_event [where f = "do_revoke_sessions k", OF assms, of _ "fst (do_revoke_sessions k st)"]
    attempt_event [where f = "do_revoke_for_account k", OF assms, of _ "fst (do_revoke_for_account k st)"]
  by (simp_all add: revoke_all_sessions_def revoke_all_refresh_def memory_cleanup_def revoke_sessions_for_account_def
      revoke_for_account_def)

lemma revoke_all_credentials_memory:
  assumes "cleanup_answers ids s"
  shows "memory_store (revoke_all_credentials (memory_cleanup ids) k t op s) = revoke_everything k (memory_store s)"
proof -
  have a: "answers memory_view strict_text ids" "memory_view s = (failpoints (fst (fst s)), memory_store s)"
    "dget (failpoints (fst (fst s))) ''accounts.revoke_sessions'' = None"
    "dget (failpoints (fst (fst s))) ''accounts.revoke_refresh_for_account'' = None"
    using assms by (simp_all add: cleanup_answers_def memory_view_def memory_store_def)
  from revoke_all_memory(2) [OF a(1) revoke_all_memory(1) [OF a(1,2,3)] a(4)]
  show ?thesis
    by (simp add: revoke_all_credentials_def revoke_everything_def memory_view_def memory_store_def)
qed


section \<open>A recovery link\<close>

definition memory_reset ::
  "string \<Rightarrow> bytes \<Rightarrow> string \<Rightarrow> time \<Rightarrow> security_event \<Rightarrow> ('u world \<times> 'e, password_reset_outcome) port" where
  "memory_reset i d h t e = on_first (consume_and_reset i d h t)"

lemma reset_issued:
  assumes "do_issue issue st = (Inr (), st')" "ti_purpose issue = Recovery" "t < ti_expires_at issue"
    "dget (st_accounts st) (acc_id account) = Some account" "ti_account_id issue = acc_id account"
    "ti_issued_epoch issue = Some (acc_epoch account)" "valid_account (account\<lparr>acc_epoch := acc_epoch account + 1\<rparr>)"
  shows "\<exists>st''. do_consume_and_reset (ti_token_id issue) (ti_digest issue) h t st' =
      (Inr \<lparr>pr_status = Reset, pr_account_id = Some (acc_id account), pr_security_epoch = Some (acc_epoch account + 1)\<rparr>, st'') \<and>
    dget (st_accounts st'') (acc_id account) = Some (account\<lparr>acc_epoch := acc_epoch account + 1\<rparr>) \<and>
    dget (st_passwords st'') (acc_id account) = Some h"
proof -
  have "st' = st\<lparr>st_tokens := dset (ti_token_id issue) issue (st_tokens st)\<rparr>"
    using assms(1) by (auto simp: do_issue_def split: if_splits)
  then show ?thesis
    using assms(2-7)
    by (simp add: do_consume_and_reset_def dict_simps Let_def retire_token_def account_post_init_valid outcome_defs
        valid_account_def)
qed

text \<open>The policy accepts the new password, the hasher answers \<open>h\<close>, and every other dependency answers.\<close>

definition reset_answers :: "('u mail_world, 'u) recovery_service \<Rightarrow> string \<Rightarrow> string \<Rightarrow> 'u mail_world \<Rightarrow> bool" where
  "reset_answers srv password h s \<longleftrightarrow>
     rcs_reset srv = memory_reset \<and> check_password (rcs_policy srv) password None = Inr {} \<and>
     answers memory_view (\<lambda>x. x = h) (ph_hash (rcs_hasher srv) password) \<and>
     rcs_cleanup srv = memory_cleanup (cc_event_ids (rcs_cleanup srv)) \<and>
     all_answer srv ''accounts.consume_and_reset'' s \<and> cleanup_answers (cc_event_ids (rcs_cleanup srv)) s"

lemma reset_password_runs:
  assumes "reset_answers srv password h s"
    "purpose_proof_of (ts_tokens srv) Recovery token = Inr (Some p)"
    "do_consume_and_reset (pp_token_id p) (pp_digest p) h t (memory_store s) = (Inr v, st')"
    "pr_status v = Reset" "pr_account_id v = Some k"
  shows "\<exists>s'. reset_password srv token password (Some (Aware t)) ck s = (Inr (lifecycle.Answered v), s') \<and>
    memory_store s' = revoke_everything k st'"
proof -
  have a: "ts_limit srv = None" "answers memory_view strict_text (ts_event_ids srv)"
      "memory_view s = (failpoints (fst (fst s)), memory_store s)"
      "dget (failpoints (fst (fst s))) ''accounts.consume_and_reset'' = None"
      "answers memory_view (\<lambda>x. x = h) (ph_hash (rcs_hasher srv) password)"
      "check_password (rcs_policy srv) password None = Inr {}" "rcs_reset srv = memory_reset"
    using assms(1) by (simp_all add: reset_answers_def all_answer_def memory_view_def memory_store_def)
  obtain s1 where hash: "ph_hash (rcs_hasher srv) password s = (Inr h, s1)" "memory_view s1 = memory_view s"
    using answersE [OF a(5)] by metis
  obtain event s2 where event: "lifecycle_event (ts_event_ids srv) t ''local.recovery.consume'' ''reset'' None s1 =
      (Inr event, s2)" "memory_view s2 = memory_view s1"
    by (rule lifecycle_event_runs [OF a(2)])
  have view: "memory_view s2 = (failpoints (fst (fst s)), memory_store s)"
    using a(3) hash(2) event(2) by simp
  obtain s3 where s3: "memory_reset (pp_token_id p) (pp_digest p) h t event s2 = (Inr v, s3)"
      "memory_view s3 = (failpoints (fst (fst s)), st')"
    using on_first_observed [where f = "do_consume_and_reset (pp_token_id p) (pp_digest p) h t",
        OF view a(4) assms(3), of "[(''token_id'', pp_token_id p)]"]
    by (auto simp: memory_reset_def consume_and_reset_def)
  have "cleanup_answers (cc_event_ids (rcs_cleanup srv)) s3" "memory_store s3 = st'"
    using assms(1) s3(2) by (simp_all add: reset_answers_def cleanup_answers_def memory_view_def memory_store_def)
  then have "memory_store (revoke_all_credentials (rcs_cleanup srv) k t ''local.recovery'' s3) = revoke_everything k st'"
    using revoke_all_credentials_memory assms(1) unfolding reset_answers_def by metis
  moreover have "reset_password srv token password (Some (Aware t)) ck s =
      (Inr (lifecycle.Answered v), revoke_all_credentials (rcs_cleanup srv) k t ''local.recovery'' s3)"
    using s3(1) assms(4,5)
    by (simp add: reset_password_def when_admitted_def limited_def assms(2) a(1,6,7) sanitize_block_def port_time_def
        call_def hash(1) event(1) finish_reset_def)
  ultimately show ?thesis
    by simp
qed

lemma recovery_link_lemma:
  assumes mail: "memory_mail srv" and ok: "store_ok (memory_store s)"
    and run: "request_recovery srv identifier now ck s = (r, s')" and sent: "snd s' \<noteq> snd s"
    and limit: "ts_limit srv = None"
  shows "\<exists>n account. ts_normalizer srv identifier = Inr (no_destination n) \<and> snd s' = snd s @ [n] \<and>
    get_by_id (acc_id account) (memory_store s) = Some account \<and> acc_identifier account = no_destination n \<and>
    acc_active account \<and>
    (\<forall>t u ck' password h. memory_store u = memory_store s' \<and> reset_answers srv password h u \<and> t < no_expires_at n \<and>
        acc_epoch account < maximum_security_epoch \<longrightarrow>
      (\<exists>v u'. reset_password srv (Some (no_token n)) password (Some (Aware t)) ck' u = (Inr (lifecycle.Answered v), u') \<and>
         pr_status v = Reset \<and> dget (st_passwords (memory_store u')) (acc_id account) = Some h \<and>
         get_by_id (acc_id account) (memory_store u') = Some (account\<lparr>acc_epoch := acc_epoch account + 1\<rparr>) \<and>
         cut_off (acc_id account) (memory_store u')))"
proof -
  have aok: "accounts_ok (memory_store s)"
    by (rule store_okD(2) [OF ok])
  let ?srv = "token_service.truncate srv"
  have srv: "memory_mail ?srv" "ts_normalizer ?srv = ts_normalizer srv" "ts_tokens ?srv = ts_tokens srv"
    "ts_limit ?srv = None"
    using mail limit by (simp_all add: memory_mail_def token_service.truncate_def)
  let ?request = "request_token ?srv Recovery ''local.recovery'' ''local.recovery.issue''
    (\<lambda>account. if acc_active account then Some (Some (acc_epoch account)) else None) identifier now s"
  have "s' = snd ?request"
    using run srv(4) by (simp add: request_recovery_def request_limit_def limited_def when_admitted_def request_body_def)
  then have "?request = (fst ?request, s')"
    by simp
  then obtain n account issue where i: "ts_normalizer ?srv identifier = Inr (no_destination n)" "snd s' = snd s @ [n]"
    "get_by_id (acc_id account) (memory_store s) = Some account" "acc_identifier account = no_destination n"
    "acc_active account" "ti_issued_epoch issue = Some (acc_epoch account)" "ti_account_id issue = acc_id account"
    "mailed (ts_tokens ?srv) Recovery issue n" "do_issue issue (memory_store s) = (Inr (), memory_store s')"
    "valid_issue issue"
    by (rule request_token_stored [OF srv(1) aok _ sent]) (auto split: if_splits)
  have stored: "store_ok (memory_store s')"
    using good_issue [OF i(10), of "memory_store s"] ok i(9) by (simp add: good_step_def)
  have "\<exists>v u'. reset_password srv (Some (no_token n)) password (Some (Aware t)) ck' u = (Inr (lifecycle.Answered v), u') \<and>
         pr_status v = Reset \<and> dget (st_passwords (memory_store u')) (acc_id account) = Some h \<and>
         get_by_id (acc_id account) (memory_store u') = Some (account\<lparr>acc_epoch := acc_epoch account + 1\<rparr>) \<and>
         cut_off (acc_id account) (memory_store u')"
    if u: "memory_store u = memory_store s'" "reset_answers srv password h u" "t < no_expires_at n"
      "acc_epoch account < maximum_security_epoch"
    for t u ck' password h
  proof -
    have "valid_account (account\<lparr>acc_epoch := acc_epoch account + 1\<rparr>)"
      using accounts_okD(2) [OF aok] i(3) u(4) by (auto simp: get_by_id_def valid_account_def valid_security_epoch_def)
    then obtain st' where st': "do_consume_and_reset (ti_token_id issue) (ti_digest issue) h t (memory_store u) =
        (Inr \<lparr>pr_status = Reset, pr_account_id = Some (acc_id account), pr_security_epoch = Some (acc_epoch account + 1)\<rparr>, st')"
      "dget (st_accounts st') (acc_id account) = Some (account\<lparr>acc_epoch := acc_epoch account + 1\<rparr>)"
      "dget (st_passwords st') (acc_id account) = Some h"
      using reset_issued [OF i(9), of t account h] i(3,6-8) u(1,3) by (auto simp: mailed_def get_by_id_def)
    have "store_ok st'"
      using good_reset [of "memory_store u" "ti_token_id issue" "ti_digest issue" h t] stored u(1) st'(1)
      by (simp add: good_step_def)
    then show ?thesis
      using reset_password_runs [OF u(2) i(8) [unfolded mailed_def srv(3), THEN conjunct2, THEN conjunct2]] st'
        revoke_everything_cuts_off by (fastforce simp: get_by_id_def)
  qed
  then show ?thesis
    using i(1-5) srv(2) by (intro exI [of _ n] exI [of _ account]) simp
qed


section \<open>A password change\<close>

definition memory_replace ::
  "string \<Rightarrow> string \<Rightarrow> int \<Rightarrow> security_event \<Rightarrow> ('u world \<times> 'e, password_change_outcome) port" where
  "memory_replace k h epoch e = on_first (replace_password_and_bump_epoch k h epoch)"

definition memory_change :: "('u world \<times> 'e) change_service \<Rightarrow> bool" where
  "memory_change srv \<longleftrightarrow>
     cgs_replace srv = memory_replace \<and> cgs_cleanup srv = memory_cleanup (cc_event_ids (cgs_cleanup srv)) \<and>
     keeps memory_view (cgs_clock srv) \<and> keeps memory_view (cgs_event_ids srv) \<and>
     (\<forall>p. keeps memory_view (ph_hash (cgs_hasher srv) p))"

lemma observed_failpoints:
  "failpoints (fst (snd (observed op details (on_store f) w))) = failpoints (fst w)"
  by (simp add: observed_def observe_def Let_def on_store_def split: option.splits prod.splits)

lemma do_bump_epoch_Changed:
  assumes "do_bump_epoch k h e st = (Inr v, st')" "pc_status v = Changed"
  shows "\<exists>account. dget (st_accounts st) k = Some account \<and> acc_epoch account = e \<and> pc_security_epoch v = Some (e + 1) \<and>
    st' = st\<lparr>st_passwords := dset k h (st_passwords st),
      st_accounts := dset k (account\<lparr>acc_epoch := e + 1\<rparr>) (st_accounts st)\<rparr>"
  using assms
  by (auto simp: do_bump_epoch_def Let_def outcome_defs account_post_init_Inr_valid
      split: option.splits if_splits sum.splits)

lemma change_password_Changed:
  assumes srv: "memory_change srv"
    and run: "change_password srv k password p identifier current replacement compromise now s =
      (Inr (lifecycle.Answered (Change_Outcome v)), s')" and changed: "pc_status v = Changed"
  shows "\<exists>t h s1. recent_password_proof srv k p t \<and> valid_rebind srv k t current replacement compromise \<and>
    check_password (cgs_policy srv) password identifier = Inr {} \<and>
    do_bump_epoch k h (rp_security_epoch p) (memory_store s) = (Inr v, memory_store s1) \<and>
    failpoints (fst (fst s1)) = failpoints (fst (fst s)) \<and>
    (\<exists>s2 s3. ph_hash (cgs_hasher srv) password s2 = (Inr h, s3)) \<and>
    s' = cleanup_after_change srv k (rp_security_epoch p + 1) t current replacement compromise s1"
proof -
  note m = srv [unfolded memory_change_def]
  obtain t s1 where t: "port_time (cgs_clock srv) now s = (Inr t, s1)"
    "recent_password_proof srv k p t"
    "replace_password srv k password (rp_security_epoch p) identifier current replacement compromise t
      ''local.password.change'' s1 = (Inr (lifecycle.Answered (Change_Outcome v)), s')"
    using run by (auto simp: change_password_def at_time_def split: prod.splits sum.splits if_splits)
  let ?e = "rp_security_epoch p"
  have guards: "valid_rebind srv k t current replacement compromise" "?e \<noteq> maximum_security_epoch"
    "check_password (cgs_policy srv) password identifier = Inr {}"
    using t(3) changed
    by (auto simp: replace_password_def sanitize_block_def outcome_defs split: if_splits sum.splits)
  obtain h s2 event s3 s4 w where
    h: "ph_hash (cgs_hasher srv) password s1 = (Inr h, s2)"
      "lifecycle_event (cgs_event_ids srv) t ''local.password.change'' ''changed'' (Some k) s2 = (Inr event, s3)"
      "memory_replace k h ?e event s3 = (Inr w, s4)"
    and fin: "finish_change srv k ?e t current replacement compromise w s4 = (Inr (lifecycle.Answered (Change_Outcome v)), s')"
    using t(3) guards m
    by (auto simp: replace_password_def sanitize_block_def run_ok simp del: call_lift split: prod.splits sum.splits if_splits)
  have "keeps memory_view (port_time (cgs_clock srv) now)"
    "keeps memory_view (lifecycle_event (cgs_event_ids srv) t ''local.password.change'' ''changed'' (Some k))"
    "keeps memory_view (ph_hash (cgs_hasher srv) password)"
    using m by (blast intro: port_time_keeps lifecycle_event_keeps)+
  then have "memory_view s1 = memory_view s" "memory_view s2 = memory_view s1" "memory_view s3 = memory_view s2"
    using t(1) h(1,2) by (blast dest: keepsD)+
  then have same: "memory_store s3 = memory_store s" "failpoints (fst (fst s3)) = failpoints (fst (fst s))"
    by (simp_all add: memory_view_def memory_store_def)
  have "failpoints (fst (fst s4)) = failpoints (fst (fst s3))"
    using observed_failpoints [of "''accounts.replace_password_and_bump_epoch''" "[(''account_id'', k)]"
      "do_bump_epoch k h ?e" "fst s3"] h(3)
    by (simp add: memory_replace_def replace_password_and_bump_epoch_def on_first_eq)
  moreover have "do_bump_epoch k h ?e (memory_store s3) = (Inr w, memory_store s4)"
    using h(3) by (auto simp: memory_replace_def replace_password_and_bump_epoch_def on_first_eq memory_store_def
        dest: observed_store_Inr)
  moreover have "w = v" "s' = cleanup_after_change srv k (?e + 1) t current replacement compromise s4"
    using fin changed by (auto simp: finish_change_def split: if_splits)
  ultimately show ?thesis
    using t(2) guards(1,3) h(1) unfolding same by blast
qed


text \<open>
  What a change leaves of the account's sessions. A rebind is refused when its command is no valid command at the
  new epoch, when the store is made to fail, or when another account's session has the new id.
\<close>

definition account_sessions :: "string \<Rightarrow> 'u local_store \<Rightarrow> string \<Rightarrow> time user_session option" where
  "account_sessions k s i = (case registry s i of None \<Rightarrow> None | Some r \<Rightarrow> if us_account_id r = k then Some r else None)"

abbreviation at_epoch :: "string \<Rightarrow> int \<Rightarrow> time session_command \<Rightarrow> time session_command" where
  "at_epoch k epoch c \<equiv> c\<lparr>sc_account_id := k, sc_security_epoch := epoch\<rparr>"

definition rebind_refused :: "string \<Rightarrow> int \<Rightarrow> time session_command \<Rightarrow> 'u world \<times> 'e \<Rightarrow> bool" where
  "rebind_refused k epoch c s \<longleftrightarrow>
     \<not> valid_command (at_epoch k epoch c) \<or> dget (failpoints (fst (fst s))) ''accounts.rebind_session'' \<noteq> None \<or>
     (\<exists>r. registry (memory_store s) (sc_session_id c) = Some r \<and> us_account_id r \<noteq> k)"

text \<open>
  Without a session to keep, none is left. Otherwise at most one is: the new one in place of the one the change was
  made from, or that one when the rebind is refused.
\<close>

definition sessions_left ::
  "string \<Rightarrow> int \<Rightarrow> string option \<Rightarrow> time session_command option \<Rightarrow> 'u world \<times> 'e \<Rightarrow> 'u local_store \<Rightarrow> bool" where
  "sessions_left k epoch current replacement s s' \<longleftrightarrow>
     (case (current, replacement) of
        (Some i, Some c) \<Rightarrow>
          if registry (memory_store s) i = None then account_sessions k s' = Map.empty
          else if rebind_refused k epoch c s then account_sessions k s' = account_sessions k (memory_store s) |` {i}
          else registry s' i = None \<and> account_sessions k s' = [sc_session_id c \<mapsto> new_session (at_epoch k epoch c)]
      | _ \<Rightarrow> account_sessions k s' = Map.empty)"

definition change_cleanup_answers :: "('u world \<times> 'e, string) port \<Rightarrow> 'u world \<times> 'e \<Rightarrow> bool" where
  "change_cleanup_answers ids s \<longleftrightarrow> cleanup_answers ids s \<and>
     dget (failpoints (fst (fst s))) ''accounts.revoke_other_sessions'' = None"

lemma rebound_command_eq:
  "rebound_command c k e = (if valid_command (at_epoch k e c) then Inr (at_epoch k e c) else Inl ValueError)"
proof (cases "freeze_display_metadata (sc_display_metadata c)")
  case (Inl x)
  then have "x = ValueError" by (auto simp: freeze_display_metadata_def split: if_splits)
  with Inl show ?thesis by (simp add: rebound_command_def session_command_post_init_def valid_command_def)
next
  case (Inr d)
  then have "d = sc_display_metadata c" using freeze_display_metadata_Inr by blast
  with Inr show ?thesis by (auto simp: rebound_command_def session_command_post_init_def valid_command_def)
qed

lemma rebind_attempt:
  fixes s :: "'u world \<times> 'e"
  assumes "answers memory_view strict_text ids"
  shows "memory_store (attempt (call (lift_result (rebound_command c k e)) (\<lambda>command.
      call (lifecycle_event ids t op ''rebound'' (Some k)) (\<lambda>event. on_first (rebind_session i command)))) s) =
    (if valid_command (at_epoch k e c) \<and> dget (failpoints (fst (fst s))) ''accounts.rebind_session'' = None
     then snd (do_rebind i (at_epoch k e c) (memory_store s)) else memory_store s)"
proof (cases "valid_command (at_epoch k e c)")
  case True
  let ?c = "at_epoch k e c"
  obtain event s1 where event: "lifecycle_event ids t op ''rebound'' (Some k) s = (Inr event, s1)" "memory_view s1 = memory_view s"
    by (rule lifecycle_event_runs [OF assms])
  have "memory_store (snd (on_first (rebind_session i ?c) s1)) =
      (if dget (failpoints (fst (fst s1))) ''accounts.rebind_session'' = None
       then snd (do_rebind i ?c (memory_store s1)) else memory_store s1)"
    by (auto simp: rebind_session_def on_first_def observed_def observe_def on_store_def memory_store_def Let_def
        split: option.splits prod.splits)
  moreover have "memory_store s1 = memory_store s" "failpoints (fst (fst s1)) = failpoints (fst (fst s))"
    using event(2) by (simp_all add: memory_view_def memory_store_def)
  ultimately show ?thesis
    using True by (simp add: rebound_command_eq attempt_def call_def event(1))
qed (simp add: rebound_command_eq attempt_def)

lemma account_sessions_revoked:
  assumes "dict_ok (st_sessions s)"
  shows "account_sessions k (snd (do_revoke_sessions k s)) = Map.empty"
    and "account_sessions k (snd (do_revoke_others k i s)) = account_sessions k s |` {i}"
  by (auto simp: fun_eq_iff account_sessions_def registry_revoke_sessions [OF assms] registry_revoke_others [OF assms]
      restrict_map_def split: option.splits)

lemma rebind_leaves:
  assumes sessions: "dict_ok (st_sessions (memory_store s))" and other: "sc_session_id c \<noteq> i"
    and st: "st = snd (do_revoke_others k i (memory_store s))"
  shows "sessions_left k e (Some i) (Some c) s
    (if valid_command (at_epoch k e c) \<and> dget (failpoints (fst (fst s))) ''accounts.rebind_session'' = None
     then snd (do_rebind i (at_epoch k e c) st) else st)"
proof -
  note others = registry_revoke_others [OF sessions, of k i] account_sessions_revoked(2) [OF sessions, of k i]
  have kept: "registry st i = registry (memory_store s) i" "account_sessions k st = account_sessions k (memory_store s) |` {i}"
    by (simp_all add: st others split: option.splits)
  have new: "registry st (sc_session_id c) \<noteq> None \<longleftrightarrow>
      (\<exists>r. registry (memory_store s) (sc_session_id c) = Some r \<and> us_account_id r \<noteq> k)"
    using other by (auto simp: st others split: option.splits)
  have gone: "account_sessions k (memory_store s) |` {i} = Map.empty" if "registry (memory_store s) i = None"
    using that by (auto simp: account_sessions_def restrict_map_def fun_eq_iff)
  show ?thesis
  proof (cases "valid_command (at_epoch k e c) \<and> dget (failpoints (fst (fst s))) ''accounts.rebind_session'' = None")
    case False
    then have "rebind_refused k e c s" by (auto simp: rebind_refused_def)
    with gone kept(2) show ?thesis by (simp add: sessions_left_def if_not_P [OF False])
  next
    case True
    note rebind = registry_rebind [of "at_epoch k e c" i st]
    have registry_after: "registry (snd (do_rebind i (at_epoch k e c) st)) = (registry st)(i := None, sc_session_id c \<mapsto> new_session (at_epoch k e c))"
      if "registry st i \<noteq> None" "registry st (sc_session_id c) = None"
      using rebind True that by (auto simp: registry_def fun_eq_iff dict_simps)
    show ?thesis
    proof (cases "registry st i = None \<or> registry st (sc_session_id c) \<noteq> None")
      case stays: True
      then have "snd (do_rebind i (at_epoch k e c) st) = st"
        using rebind True by auto
      with True stays new kept gone show ?thesis
        by (auto simp: sessions_left_def rebind_refused_def)
    next
      case moves: False
      have "account_sessions k (snd (do_rebind i (at_epoch k e c) st)) = [sc_session_id c \<mapsto> new_session (at_epoch k e c)]"
        using registry_after moves kept(2) other
        by (auto simp: account_sessions_def fun_eq_iff restrict_map_def split: option.splits if_splits)
      then show ?thesis
        using True moves registry_after new kept(1) other by (auto simp: sessions_left_def rebind_refused_def)
    qed
  qed
qed

lemma sessions_left_cong:
  assumes "st_sessions (memory_store s1) = st_sessions (memory_store s)"
    "failpoints (fst (fst s1)) = failpoints (fst (fst s))"
  shows "sessions_left k e current replacement s1 = sessions_left k e current replacement s"
proof -
  have "registry (memory_store s1) = registry (memory_store s)" using assms(1) by (simp add: registry_def fun_eq_iff)
  then show ?thesis
    by (simp add: fun_eq_iff sessions_left_def rebind_refused_def account_sessions_def restrict_map_def assms(2)
        split: option.splits)
qed

lemma cleanup_after_change_memory:
  fixes s :: "'u world \<times> 'e"
  assumes srv: "cgs_cleanup srv = memory_cleanup (cc_event_ids (cgs_cleanup srv))"
    and answers: "change_cleanup_answers (cc_event_ids (cgs_cleanup srv)) s" and ok: "store_ok (memory_store s)"
    and rebind: "valid_rebind srv k t current replacement compromise"
  shows "let s' = cleanup_after_change srv k e t current replacement compromise s in
    st_accounts (memory_store s') = st_accounts (memory_store s) \<and>
    st_passwords (memory_store s') = st_passwords (memory_store s) \<and>
    no_family k (memory_store s') \<and> sessions_left k e current replacement s (memory_store s')"
proof -
  let ?ids = "cc_event_ids (cgs_cleanup srv)" and ?fp = "failpoints (fst (fst s))" and ?st = "memory_store s"
  let ?st1 = "snd (do_revoke_for_account k ?st)" and ?s1 = "revoke_all_refresh (cgs_cleanup srv) k t ''local.password.refresh_revoke'' s"
  have a: "answers memory_view strict_text ?ids" "memory_view s = (?fp, ?st)"
    "dget ?fp ''accounts.revoke_sessions'' = None" "dget ?fp ''accounts.revoke_refresh_for_account'' = None"
    "dget ?fp ''accounts.revoke_other_sessions'' = None"
    using answers by (simp_all add: change_cleanup_answers_def cleanup_answers_def memory_view_def memory_store_def)
  have s1: "memory_view ?s1 = (?fp, ?st1)"
    by (subst srv) (rule revoke_all_memory(2) [OF a(1,2,4)])
  have none: "no_family k ?st1"
    by (rule do_revoke_for_account_no_family [OF store_okD(5) [OF ok]])
  have sessions: "dict_ok (st_sessions ?st1)"
    using sessions_dict_ok [OF store_okD(4) [OF ok]] by simp
  show ?thesis
  proof (cases "\<exists>i c. current = Some i \<and> replacement = Some c")
    case False
    let ?s2 = "revoke_all_sessions (cgs_cleanup srv) k t ''local.password.session_revoke_all'' ?s1"
    have "memory_view ?s2 = (?fp, snd (do_revoke_sessions k ?st1))"
      by (subst (1) srv) (rule revoke_all_memory(1) [OF a(1) s1 a(3)])
    then have "memory_store ?s2 = snd (do_revoke_sessions k ?st1)"
      by (simp add: memory_view_def memory_store_def)
    moreover have "cleanup_after_change srv k e t current replacement compromise s = ?s2"
      using False by (cases current; cases replacement) (simp_all add: cleanup_after_change_def Let_def)
    ultimately show ?thesis
      using none no_family_cong [of "snd (do_revoke_sessions k ?st1)" ?st1]
        False account_sessions_revoked(1) [OF sessions, of k]
      by (cases current; cases replacement) (simp_all add: sessions_left_def)
  next
    case True
    then obtain i c where ic: "current = Some i" "replacement = Some c"
      by blast
    then have flags: "\<not> compromise" "cc_revoke_all (cgs_cleanup srv) \<noteq> None" "sc_session_id c \<noteq> i"
      using rebind by (auto simp: valid_rebind_def split: if_splits)
    let ?others = "\<lambda>ids. call (lifecycle_event ids t ''local.password.session_revoke_others'' ''revoked'' (Some k))
      (\<lambda>event. on_first (revoke_other_sessions k i))"
    let ?rebind = "\<lambda>ids. call (lift_result (rebound_command c k e)) (\<lambda>command.
      call (lifecycle_event ids t ''local.password.session_rebind'' ''rebound'' (Some k)) (\<lambda>event.
        on_first (rebind_session i command)))"
    have ports: "cc_revoke_others (cgs_cleanup srv) k i = (\<lambda>event. on_first (revoke_other_sessions k i))"
      "cc_rebind (cgs_cleanup srv) i = (\<lambda>command event. on_first (rebind_session i command))"
      by (subst srv, simp add: memory_cleanup_def)+
    let ?s2 = "attempt (?others ?ids) ?s1" and ?st2 = "snd (do_revoke_others k i ?st1)"
    have "memory_view ?s2 = (?fp, ?st2)"
      unfolding revoke_other_sessions_def
      by (rule attempt_event [where f = "do_revoke_others k i", OF a(1) s1 a(5)]) (rule prod.collapse [symmetric])
    then have st2: "memory_store ?s2 = ?st2" "failpoints (fst (fst ?s2)) = ?fp"
      by (simp_all add: memory_view_def memory_store_def)
    have fp1: "memory_store ?s1 = ?st1" "failpoints (fst (fst ?s1)) = ?fp"
      using s1 by (simp_all add: memory_view_def memory_store_def)
    let ?s3 = "attempt (?rebind ?ids) ?s2"
    let ?st3 = "if valid_command (at_epoch k e c) \<and> dget ?fp ''accounts.rebind_session'' = None
      then snd (do_rebind i (at_epoch k e c) ?st2) else ?st2"
    have s3: "cleanup_after_change srv k e t current replacement compromise s = ?s3"
      using flags by (auto simp: cleanup_after_change_def Let_def ic ports)
    have st3: "memory_store ?s3 = ?st3"
      using rebind_attempt [OF a(1), of c k e t _ i ?s2] unfolding st2 .
    have "sessions_left k e (Some i) (Some c) ?s1 ?st3"
      using rebind_leaves [of ?s1 c i ?st2 k e] sessions flags(3) unfolding fp1 by blast
    then have "sessions_left k e current replacement s ?st3"
      using sessions_left_cong [of ?s1 s] fp1 ic by simp
    moreover have "st_accounts ?st3 = st_accounts ?st \<and> st_passwords ?st3 = st_passwords ?st \<and> st_refresh ?st3 = st_refresh ?st1"
      by (simp add: do_rebind_def Let_def split: option.splits sum.splits)
    moreover from this have "no_family k ?st3"
      using none no_family_cong [of ?st3 ?st1] by blast
    ultimately show ?thesis
      unfolding s3 Let_def st3 by blast
  qed
qed


lemma password_change_lemma:
  fixes s :: "'u world \<times> 'e"
  assumes srv: "memory_change srv" and ok: "store_ok (memory_store s)"
    and answers: "change_cleanup_answers (cc_event_ids (cgs_cleanup srv)) s"
    and run: "change_password srv k password p identifier current replacement compromise now s =
      (Inr (lifecycle.Answered (Change_Outcome v)), s')" and changed: "pc_status v = Changed"
  shows "\<exists>account h s1 s2. get_by_id k (memory_store s) = Some account \<and> acc_epoch account = rp_security_epoch p \<and>
    ph_hash (cgs_hasher srv) password s1 = (Inr h, s2) \<and> dget (st_passwords (memory_store s')) k = Some h \<and>
    get_by_id k (memory_store s') = Some (account\<lparr>acc_epoch := rp_security_epoch p + 1\<rparr>) \<and>
    no_family k (memory_store s') \<and> sessions_left k (rp_security_epoch p + 1) current replacement s (memory_store s')"
proof -
  let ?e = "rp_security_epoch p"
  obtain t h s1 s2 s3 where c: "valid_rebind srv k t current replacement compromise"
    "do_bump_epoch k h ?e (memory_store s) = (Inr v, memory_store s1)" "failpoints (fst (fst s1)) = failpoints (fst (fst s))"
    "ph_hash (cgs_hasher srv) password s2 = (Inr h, s3)"
    "s' = cleanup_after_change srv k (?e + 1) t current replacement compromise s1"
    using change_password_Changed [OF srv run changed] by blast
  obtain account where account: "dget (st_accounts (memory_store s)) k = Some account" "acc_epoch account = ?e"
    "memory_store s1 = (memory_store s)\<lparr>st_passwords := dset k h (st_passwords (memory_store s)),
      st_accounts := dset k (account\<lparr>acc_epoch := ?e + 1\<rparr>) (st_accounts (memory_store s))\<rparr>"
    using do_bump_epoch_Changed [OF c(2) changed] by blast
  have "store_ok (memory_store s1)"
    using good_bump [of "memory_store s" k h ?e] ok c(2) by (simp add: good_step_def)
  moreover have "change_cleanup_answers (cc_event_ids (cgs_cleanup srv)) s1"
    using answers c(3) by (simp add: change_cleanup_answers_def cleanup_answers_def)
  ultimately have "st_accounts (memory_store s') = st_accounts (memory_store s1)"
    "st_passwords (memory_store s') = st_passwords (memory_store s1)" "no_family k (memory_store s')"
    "sessions_left k (?e + 1) current replacement s (memory_store s')"
    using cleanup_after_change_memory [of srv s1 k t current replacement compromise "?e + 1"] srv c(1,5)
      sessions_left_cong [of s1 s] account(3) c(3)
    by (simp_all add: memory_change_def Let_def)
  then show ?thesis
    using account c(4) unfolding get_by_id_def by (fastforce simp: dict_simps simp del: split_paired_Ex)
qed


section \<open>The lifecycle on one store\<close>

definition example_codec :: "'s purpose_codec" where
  "example_codec = \<lparr>pt_pepper = replicate 32 9, pt_hmac = \<lambda>_ _. replicate 32 7, pt_split = \<lambda>_. None,
     pt_entropy = \<lambda>n. pure (replicate n 1)\<rparr>"

definition example_recovery :: "(unit mail_world, unit) recovery_service" where
  "example_recovery = \<lparr>ts_find = memory_find, ts_issue = mail_issue, ts_issue_absent = on_first issue_absent,
     ts_tokens = example_codec, ts_lifetime = 60, ts_attempts = 3, ts_return_url = None, ts_clock = pure (Aware 5),
     ts_normalizer = Inr, ts_event_ids = pure ''event'', ts_limit = None, rcs_reset = memory_reset,
     rcs_hasher = \<lparr>ph_hash = \<lambda>p. pure (''hashed:'' @ p), ph_verify = \<lambda>_ _. raise RuntimeError\<rparr>,
     rcs_policy = \<lparr>pw_minimum_length = 1, pw_maximum_length = 64, pw_maximum_bytes = 64, pw_normalizer = Inr,
       pw_compromised = None\<rparr>,
     rcs_cleanup = memory_cleanup (pure ''event'')\<rparr>"

definition example_changes :: "(unit mail_world) change_service" where
  "example_changes = \<lparr>cgs_replace = memory_replace, cgs_hasher = rcs_hasher example_recovery,
     cgs_policy = rcs_policy example_recovery, cgs_cleanup = memory_cleanup (pure ''event''), cgs_ttl = 60,
     cgs_clock = pure (Aware 5), cgs_event_ids = pure ''event''\<rparr>"

definition example_mail_world :: "unit mail_world" where
  "example_mail_world = ((empty_backend, empty_store\<lparr>st_accounts := [(''u1'', example_account)],
     st_passwords := [(''u1'', ''hash'')]\<rparr>), [])"

lemma example_mail: "memory_mail example_recovery" "memory_mail (token_service.truncate example_recovery)"
  by (simp_all add: memory_mail_def example_recovery_def example_codec_def digest_bytes_def token_service.truncate_def)

lemma example_mail_ok: "store_ok (memory_store example_mail_world)"
proof -
  have "accounts_ok (memory_store example_mail_world)"
    by (simp add: accounts_ok_def memory_store_def example_mail_world_def empty_store_def dict_ok_def example_account_def
        valid_account_def)
  then show ?thesis
    by (simp add: store_ok_def account_side_def tokens_ok_def sessions_ok_def refresh_ok_def memory_store_def
        example_mail_world_def empty_store_def dict_ok_def registry_def token_state_def)
qed

lemma lifecycle_names:
  "strict_text ''local.verify''" "strict_text ''local.recovery''" "strict_text ''event''"
  by code_simp+

definition example_notification :: "token_purpose \<Rightarrow> string \<Rightarrow> time notification" where
  "example_notification p template = \<lparr>no_template = template, no_destination = ''ada'',
     no_token = purpose_token p (replicate 16 1) (replicate 32 1), no_expires_at = 65, no_return_url = None\<rparr>"

definition lifecycle_pending :: "token_purpose \<Rightarrow> time pending_issue" where
  "lifecycle_pending p = \<lparr>pi_token_id = purpose_prefix p @ encode_random (replicate 16 1), pi_digest = replicate 32 7,
     pi_purpose = p, pi_expires_at = 65, pi_maximum_attempts = 3\<rparr>"

lemma example_delivery:
  assumes "strict_text template"
  shows "issue_purpose_token example_codec p (Aware 5) 60 template ''ada'' None 3 s =
    (Inr \<lparr>td_issue = lifecycle_pending p, td_notification = example_notification p template\<rparr>, s)"
proof -
  have "valid_token_id (purpose_prefix p @ encode_random (replicate 16 1)) p"
    unfolding valid_token_id_iff by (rule exI [of _ "replicate 16 1"]) simp
  moreover have "strict_text (purpose_token p (replicate 16 1) (replicate 32 1))"
    using strict_text_append_encoded [of "replicate 32 1" "(purpose_prefix p @ encode_random (replicate 16 1)) @ ''.''"]
    by (simp add: purpose_token_def)
  moreover have "strict_context_text ''ada''"
    by code_simp
  ultimately show ?thesis
    using assms
    by (simp add: issue_purpose_token_def purpose_entropy_def call_def example_codec_def pending_issue_post_init_def
        validate_pending_token_issue_def notification_post_init_def digest_bytes_def purpose_token_digest_def
        lifecycle_pending_def example_notification_def)
qed


lemma example_account_id: "acc_id example_account = ''u1''" "dget [] k = None"
  by (simp_all add: example_account_def)

lemma example_request:
  assumes "strict_text template" "eligible example_account = Some e" "purpose = Recovery \<longleftrightarrow> e \<noteq> None"
    "e = None \<or> e = Some 1" "srv = token_service.truncate example_recovery"
  shows "snd (snd (request_token srv purpose template op eligible ''ada'' None example_mail_world)) =
    [example_notification purpose template]"
proof -
  have "valid_token_id (purpose_prefix purpose @ encode_random (replicate 16 1)) purpose"
    unfolding valid_token_id_iff by (rule exI [of _ "replicate 16 1"]) simp
  then have bound: "\<exists>i. bind_issue (lifecycle_pending purpose) ''u1'' e = Inr i"
    using assms(3,4) example_text
    by (auto simp: bind_issue_def token_issue_post_init_def validate_pending_token_issue_def lifecycle_pending_def
        digest_bytes_def Let_def)
  then obtain i where i: "bind_delivery \<lparr>td_issue = lifecycle_pending purpose,
      td_notification = example_notification purpose template\<rparr> ''u1'' e = Inr (i, example_notification purpose template)"
    by (auto simp: bind_delivery_def)
  have "memory_find ''ada'' example_mail_world = (Inr (Some example_account), example_mail_world)"
    by (simp add: memory_find_def on_first_def example_mail_world_def find_for_login_def find_value_def example_account_def)
  moreover have "lifecycle_event (pure ''event'') 5 op ''issued'' (Some ''u1'') example_mail_world =
      (Inr (plain_event (strip ''event'') 5 op ''issued'' (Some ''u1'')), example_mail_world)"
    by (simp add: lifecycle_event_def lifecycle_names)
  moreover have "snd (snd (mail_issue i n event example_mail_world)) = [n]" for n event
    by (simp add: mail_issue_def issue_token_def observed_def observe_def Let_def on_store_def do_issue_def
        token_id_exists_def example_mail_world_def empty_store_def empty_backend_def)
  ultimately show ?thesis
    using i assms(2)
    by (simp add: request_token_def assms(5) token_service.truncate_def example_recovery_def port_time_def call_def
        example_delivery [OF assms(1)] example_account_id)
qed

text \<open>What the two requests mail.\<close>

lemma example_requests:
  "snd (snd (resend_verification (token_service.truncate example_recovery) ''ada'' None None example_mail_world)) =
     [example_notification Verification ''local.verify'']"
  "snd (snd (request_recovery example_recovery ''ada'' None None example_mail_world)) =
     [example_notification Recovery ''local.recovery'']"
proof -
  have "ts_limit (token_service.truncate example_recovery) = None"
    by (simp add: token_service.truncate_def example_recovery_def)
  then have admitted: "request_limit (token_service.truncate example_recovery) op ''ada'' None s = (Proceed, s)" for op s
    by (simp add: request_limit_def limited_def)
  show "snd (snd (resend_verification (token_service.truncate example_recovery) ''ada'' None None example_mail_world)) =
     [example_notification Verification ''local.verify'']"
    unfolding resend_verification_def admitted
    by (simp add: when_admitted_def request_body_def) (rule example_request [OF lifecycle_names(1) _ _ _ refl, where e = None];
        simp add: example_account_def)
  show "snd (snd (request_recovery example_recovery ''ada'' None None example_mail_world)) =
     [example_notification Recovery ''local.recovery'']"
    unfolding request_recovery_def admitted
    by (simp add: when_admitted_def request_body_def) (rule example_request [OF lifecycle_names(2) _ _ _ refl, where e = "Some 1"];
        simp add: example_account_def)
qed

text \<open>C23: The link a resend mails works: when a resend sends a notification, it goes to the identifier of
  an active, unverified account, and the token it carries, presented before its expiry to the store as
  the resend left it, is answered with that account as verified, and the store's account is.\<close>

theorem verification_link_verifies:
  assumes "memory_mail srv" "accounts_ok (memory_store s)"
    "resend_verification srv identifier now ck s = (r, s')" "snd s' \<noteq> snd s" "ts_limit srv = None"
  shows "\<exists>n account. ts_normalizer srv identifier = Inr (no_destination n) \<and> snd s' = snd s @ [n] \<and>
    get_by_id (acc_id account) (memory_store s) = Some account \<and> acc_identifier account = no_destination n \<and>
    acc_active account \<and> \<not> acc_verified account \<and>
    (\<forall>t u ck'. memory_store u = memory_store s' \<and> all_answer srv ''accounts.consume_and_verify'' u \<and> t < no_expires_at n \<longrightarrow>
      (\<exists>v u'. consume_verification srv memory_verify (Some (no_token n)) (Some (Aware t)) ck' u = (Inr (lifecycle.Answered v), u') \<and>
         vo_status v = Consumed \<and> vo_account_id v = Some (acc_id account) \<and>
         get_by_id (acc_id account) (memory_store u') = Some (account\<lparr>acc_verified := True\<rparr>)))"
  by (rule verification_link_lemma [OF assms])

text \<open>C24: The link a recovery request mails resets the password and cuts the account off: presented
  before its expiry with an acceptable password, the token is answered with a reset, the account has
  the new hash and the next epoch, none of its sessions is registered and all its refresh tokens are
  revoked.\<close>

theorem recovery_link_resets:
  assumes "memory_mail srv" "store_ok (memory_store s)"
    "request_recovery srv identifier now ck s = (r, s')" "snd s' \<noteq> snd s" "ts_limit srv = None"
  shows "\<exists>n account. ts_normalizer srv identifier = Inr (no_destination n) \<and> snd s' = snd s @ [n] \<and>
    get_by_id (acc_id account) (memory_store s) = Some account \<and> acc_identifier account = no_destination n \<and>
    acc_active account \<and>
    (\<forall>t u ck' password h. memory_store u = memory_store s' \<and> reset_answers srv password h u \<and> t < no_expires_at n \<and>
        acc_epoch account < maximum_security_epoch \<longrightarrow>
      (\<exists>v u'. reset_password srv (Some (no_token n)) password (Some (Aware t)) ck' u = (Inr (lifecycle.Answered v), u') \<and>
         pr_status v = Reset \<and> dget (st_passwords (memory_store u')) (acc_id account) = Some h \<and>
         get_by_id (acc_id account) (memory_store u') = Some (account\<lparr>acc_epoch := acc_epoch account + 1\<rparr>) \<and>
         cut_off (acc_id account) (memory_store u')))"
  by (rule recovery_link_lemma [OF assms])

text \<open>C25: A password change cuts every other credential off: after one is answered as changed, the
  account has the hash of the new password and the next epoch and all its refresh tokens are revoked. It has no
  session left when the change names no session to keep or names one that is not registered; otherwise its
  only session is the replacement at the new epoch, and the one the change was made from is gone, except
  when the rebind is refused (the replacement is no valid command, the store fails, or its id is another
  account's session): then the session the change was made from is the only one left, as it was.\<close>

theorem password_change_cuts_off:
  fixes s :: "'u world \<times> 'e"
  assumes "memory_change srv" "store_ok (memory_store s)" "change_cleanup_answers (cc_event_ids (cgs_cleanup srv)) s"
    "change_password srv k password p identifier current replacement compromise now s =
      (Inr (lifecycle.Answered (Change_Outcome v)), s')" "pc_status v = Changed"
  shows "\<exists>account h s1 s2. get_by_id k (memory_store s) = Some account \<and> acc_epoch account = rp_security_epoch p \<and>
    ph_hash (cgs_hasher srv) password s1 = (Inr h, s2) \<and> dget (st_passwords (memory_store s')) k = Some h \<and>
    get_by_id k (memory_store s') = Some (account\<lparr>acc_epoch := rp_security_epoch p + 1\<rparr>) \<and>
    no_family k (memory_store s') \<and> sessions_left k (rp_security_epoch p + 1) current replacement s (memory_store s')"
  by (rule password_change_lemma [OF assms])

definition later :: "unit mail_world \<Rightarrow> unit mail_world" where
  "later s = ((empty_backend, memory_store s), [])"

lemma later_simps [simp]:
  "memory_store (later s) = memory_store s" "dget (failpoints (fst (fst (later s)))) op = None"
  by (simp_all add: later_def memory_store_def empty_backend_def)

lemma lifecycle_answers:
  "all_answer (token_service.truncate example_recovery) op (later s)" "all_answer example_recovery op (later s)"
  "change_cleanup_answers (pure ''event'') (later s)" "ts_limit (token_service.truncate example_recovery) = None"
  "ts_limit example_recovery = None"
  by (simp_all add: all_answer_def change_cleanup_answers_def cleanup_answers_def token_service.truncate_def
      example_recovery_def answers_pure lifecycle_names)

lemma example_policy: "check_password (rcs_policy example_recovery) ''swordfish'' i = Inr {}" if "i = None \<or> i = Some ''ada''"
  using that by (auto simp: check_password_def identifier_violations_def password_matches_identifier_def
      password_shape_violations_def example_recovery_def utf8_length_def)

theorem verification_link_verifies_witness:
  "let s' = snd (resend_verification (token_service.truncate example_recovery) ''ada'' None None example_mail_world)
   in \<exists>n v u'. snd s' = [n] \<and> consume_verification (token_service.truncate example_recovery) memory_verify
        (Some (no_token n)) (Some (Aware 6)) None (later s') = (Inr (lifecycle.Answered v), u') \<and> vo_status v = Consumed"
proof -
  let ?srv = "token_service.truncate example_recovery" and ?n = "example_notification Verification ''local.verify''"
  obtain r s' where run: "resend_verification ?srv ''ada'' None None example_mail_world = (r, s')"
    by (cases "resend_verification ?srv ''ada'' None None example_mail_world")
  then have sent: "snd s' = [?n]" "snd example_mail_world = []" "6 < no_expires_at ?n"
    using example_requests(1) by (simp_all add: example_mail_world_def example_notification_def)
  then show ?thesis
    using verification_link_verifies [OF example_mail(2) store_okD(2) [OF example_mail_ok] run _ lifecycle_answers(4)]
      lifecycle_answers(1) later_simps(1)
    unfolding run Let_def snd_conv by (metis append_Nil last_snoc list.discI last.simps)
qed

lemma example_only:
  "get_by_id k (memory_store example_mail_world) = Some account \<longleftrightarrow> k = ''u1'' \<and> account = example_account"
  by (auto simp: get_by_id_def memory_store_def example_mail_world_def)

lemma example_epoch: "acc_epoch example_account < maximum_security_epoch"
  by (simp add: example_account_def maximum_security_epoch_def)

definition example_reauthentication :: "time reauthentication_proof" where
  "example_reauthentication = \<lparr>rp_account_id = ''u1'', rp_security_epoch = 1, rp_authenticated_at = 4, rp_expires_at = 9\<rparr>"

theorem recovery_link_resets_witness:
  "let s' = snd (request_recovery example_recovery ''ada'' None None example_mail_world)
   in \<exists>n v u'. snd s' = [n] \<and> reset_password example_recovery (Some (no_token n)) ''swordfish'' (Some (Aware 6)) None
        (later s') = (Inr (lifecycle.Answered v), u') \<and> pr_status v = Reset"
proof -
  let ?n = "example_notification Recovery ''local.recovery''"
  obtain r s' where run: "request_recovery example_recovery ''ada'' None None example_mail_world = (r, s')"
    by (cases "request_recovery example_recovery ''ada'' None None example_mail_world")
  then have sent: "snd s' = [?n]" "snd example_mail_world = []" "6 < no_expires_at ?n"
    using example_requests(2) by (simp_all add: example_mail_world_def example_notification_def)
  have "reset_answers example_recovery ''swordfish'' (''hashed:'' @ ''swordfish'') (later s')"
    using lifecycle_answers(2,3) example_policy [of None]
    by (simp add: reset_answers_def example_recovery_def answers_pure change_cleanup_answers_def memory_cleanup_def)
  note good = this
  have "snd s' \<noteq> snd example_mail_world"
    using sent(1,2) by simp
  from recovery_link_resets [OF example_mail(1) example_mail_ok run this lifecycle_answers(5)]
  obtain n account where n: "snd s' = snd example_mail_world @ [n]" "get_by_id (acc_id account) (memory_store example_mail_world) = Some account"
    and works: "\<And>t u ck' password h. memory_store u = memory_store s' \<Longrightarrow> reset_answers example_recovery password h u \<Longrightarrow>
      t < no_expires_at n \<Longrightarrow> acc_epoch account < maximum_security_epoch \<Longrightarrow>
      \<exists>v u'. reset_password example_recovery (Some (no_token n)) password (Some (Aware t)) ck' u =
        (Inr (lifecycle.Answered v), u') \<and> pr_status v = Reset"
    by blast
  have "n = ?n" "account = example_account"
    using n sent(1,2) by (simp_all add: example_only)
  then show ?thesis
    using works [OF later_simps(1) good] sent(1,3) example_epoch run by simp
qed

text \<open>A change from one of two sessions, with a replacement for it.\<close>

definition example_session :: "8 word \<Rightarrow> time session_command" where
  "example_session n = example_create_command\<lparr>sc_session_id := encode_random (replicate 32 n)\<rparr>"

definition example_rebind_world :: "unit mail_world" where
  "example_rebind_world = ((empty_backend, empty_store\<lparr>st_accounts := [(''u1'', example_account)],
     st_passwords := [(''u1'', ''hash'')],
     st_sessions := map (\<lambda>n. (sc_session_id (example_session n), new_session (example_session n))) [1, 2]\<rparr>), [])"

lemma example_session_valid: "valid_command (at_epoch ''u1'' e (example_session n))" if "e = 1 \<or> e = 2"
  using example_create_command_valid example_identifiers [of n] example_strip that
  by (auto simp: valid_command_def example_session_def example_create_command_def valid_security_epoch_def
      maximum_security_epoch_def)

lemma example_session_same: "at_epoch ''u1'' 1 (example_session n) = example_session n"
  by (simp add: example_session_def example_create_command_def)

lemma example_session_ids [simp]: "sc_session_id (example_session m) = sc_session_id (example_session n) \<longleftrightarrow> m = n"
  by (simp add: example_session_def encode_random_inject)

lemma example_rebind_ok: "store_ok (memory_store example_rebind_world)"
proof -
  have "valid_session (new_session (example_session n))" for n
    using new_session_valid [OF example_session_valid [of 1 n]] by (simp add: example_session_same)
  then have "sessions_ok (memory_store example_rebind_world)"
    by (auto simp: sessions_ok_def registry_def memory_store_def example_rebind_world_def dict_ok_def)
  moreover have "accounts_ok (memory_store example_rebind_world)"
    by (simp add: accounts_ok_def memory_store_def example_rebind_world_def empty_store_def dict_ok_def example_account_def
        valid_account_def)
  ultimately show ?thesis
    by (simp add: store_ok_def account_side_def tokens_ok_def refresh_ok_def memory_store_def
        example_rebind_world_def empty_store_def dict_ok_def token_state_def)
qed

lemma example_change:
  "\<exists>v s'. change_password example_changes ''u1'' ''swordfish'' example_reauthentication None
      (Some (sc_session_id (example_session 1))) (Some (example_session 3)) False None
      example_rebind_world = (Inr (lifecycle.Answered (Change_Outcome v)), s') \<and> pc_status v = Changed"
proof -
  have "port_time (cgs_clock example_changes) None example_rebind_world = (Inr 5, example_rebind_world)"
    by (simp add: port_time_def example_changes_def)
  moreover have "recent_password_proof example_changes ''u1'' example_reauthentication 5"
    by (simp add: recent_password_proof_def example_reauthentication_def example_changes_def)
  moreover have "strict_text (sc_session_id (example_session n))" for n
    using strict_text_append_encoded [of "replicate 32 n" "[]"] by (simp add: example_session_def)
  then have "valid_rebind example_changes ''u1'' 5 (Some (sc_session_id (example_session 1))) (Some (example_session 3)) False"
    by (simp add: valid_rebind_def example_changes_def memory_cleanup_def)
      (simp add: example_session_def example_create_command_def seconds_def)
  moreover obtain s1 where "memory_replace ''u1'' ''hashed:swordfish'' 1
      (plain_event (strip ''event'') 5 ''local.password.change'' ''changed'' (Some ''u1'')) example_rebind_world =
      (Inr \<lparr>pc_status = Changed, pc_security_epoch = Some 2\<rparr>, s1)"
    by (simp add: memory_replace_def replace_password_and_bump_epoch_def on_first_def observed_def observe_def Let_def
        on_store_def do_bump_epoch_def example_rebind_world_def empty_store_def empty_backend_def example_account_def
        account_post_init_def outcome_defs)
  moreover have "ph_hash (cgs_hasher example_changes) ''swordfish'' = pure (''hashed:'' @ ''swordfish'')"
    "cgs_policy example_changes = rcs_policy example_recovery" "cgs_event_ids example_changes = pure ''event''"
    "cgs_replace example_changes = memory_replace"
    by (simp_all add: example_changes_def example_recovery_def)
  ultimately show ?thesis
    using example_policy [of None]
    by (auto simp: change_password_def at_time_def replace_password_def sanitize_block_def
        lifecycle_event_def lifecycle_names finish_change_def example_reauthentication_def
        maximum_security_epoch_def call_def)
qed


theorem password_change_cuts_off_witness:
  "\<exists>v s'. change_password example_changes ''u1'' ''swordfish'' example_reauthentication None
      (Some (sc_session_id (example_session 1))) (Some (example_session 3)) False None
      example_rebind_world = (Inr (lifecycle.Answered (Change_Outcome v)), s') \<and> pc_status v = Changed \<and>
    dget (st_passwords (memory_store s')) ''u1'' = Some ''hashed:swordfish'' \<and>
    registry (memory_store s') (sc_session_id (example_session 1)) = None \<and>
    account_sessions ''u1'' (memory_store s') =
      [sc_session_id (example_session 3) \<mapsto> new_session (at_epoch ''u1'' 2 (example_session 3))]"
proof -
  obtain v s' where run: "change_password example_changes ''u1'' ''swordfish'' example_reauthentication None
      (Some (sc_session_id (example_session 1))) (Some (example_session 3)) False None
      example_rebind_world = (Inr (lifecycle.Answered (Change_Outcome v)), s')" "pc_status v = Changed"
    using example_change by blast
  have change: "memory_change example_changes"
    by (simp add: memory_change_def example_changes_def memory_cleanup_def example_recovery_def)
  have answers: "change_cleanup_answers (cc_event_ids (cgs_cleanup example_changes)) example_rebind_world"
    by (simp add: change_cleanup_answers_def cleanup_answers_def example_changes_def memory_cleanup_def answers_pure
        lifecycle_names example_rebind_world_def empty_backend_def)
  have hash: "ph_hash (cgs_hasher example_changes) ''swordfish'' s1 = (Inr ''hashed:swordfish'', s1)" for s1
    by (simp add: example_changes_def example_recovery_def)
  have registered: "registry (memory_store example_rebind_world) (sc_session_id (example_session 1)) \<noteq> None"
    "registry (memory_store example_rebind_world) (sc_session_id (example_session 3)) = None"
    "rp_security_epoch example_reauthentication = 1"
    by (simp_all add: registry_def memory_store_def example_rebind_world_def example_reauthentication_def)
  then have "\<not> rebind_refused ''u1'' 2 (example_session 3) example_rebind_world"
    using example_session_valid [of 2 3]
    by (simp add: rebind_refused_def) (simp add: example_rebind_world_def empty_backend_def)
  then show ?thesis
    using password_change_cuts_off [OF change example_rebind_ok answers run] run registered hash
    by (fastforce simp: sessions_left_def simp del: split_paired_Ex)
qed

end
