(* ===== verification/Access_Lifecycle.thy ===== *)
theory Access_Lifecycle
  imports Access_Tokens Signing_Library Lifecycle_Properties
begin

text \<open>
  What access tokens guarantee: an issued token logs in exactly within its window, as its account, with
  its scopes and what its claims keep of the assurance, until the account's epoch moves on; and whatever verifies was signed by a
  configured key for the configured issuer and audience.
\<close>

section \<open>Members\<close>

lemma freeze_json_idem [simp]: "freeze_json (freeze_json v) = freeze_json v"
  by (induction v) auto

lemma dget_freeze: "dget (freeze_members d) k = map_option freeze_json (dget d k)"
  by (simp add: freeze_members_def dget_map_values)

lemma has_freeze [simp]: "has (freeze_members d) k = has d k"
  by (simp add: has_def dget_freeze)

lemma member_freeze [simp]: "member (freeze_members d) k = freeze_json (member d k)"
  by (simp add: member_def dget_freeze split: option.splits)

lemma texts_map [simp]: "texts (map J_Text ss) = Some ss"
  by (induction ss) simp_all

lemma texts_Some: "texts vs = Some ss \<longleftrightarrow> vs = map J_Text ss"
proof
  show "texts vs = Some ss \<Longrightarrow> vs = map J_Text ss"
    by (induction vs arbitrary: ss) (auto split: json.splits option.splits)
qed simp

lemma strict_texts_map:
  "strict_texts (map J_Text ss) good = (if list_all good ss \<and> distinct ss then Some (set ss) else None)"
  by (simp add: strict_texts_def)

lemma freeze_texts [simp]: "map freeze_json (map J_Text ss) = map J_Text ss"
  by simp

section \<open>Joining scopes\<close>

lemma scope_token_plain: "is_scope_token s \<Longrightarrow> CHR '' '' \<notin> set s"
  by (auto simp: is_scope_token_def list_all_iff)

lemma split_join_spaces:
  "ss \<noteq> [] \<Longrightarrow> \<forall>s\<in>set ss. CHR '' '' \<notin> set s \<Longrightarrow> split_on (CHR '' '') (join_spaces ss) = ss"
  by (induction ss rule: join_spaces.induct) (simp_all add: split_on_none split_on_append)

section \<open>Building and checking claims\<close>

lemma collect_set_check:
  assumes "collect_set (\<lambda>v. if P v then Inr v else Inl e) S = Inr T"
  shows "T = S \<and> (\<forall>v\<in>S. P v)"
proof -
  have "\<forall>v\<in>S. P v"
    using assms by (auto simp: collect_set_def split: if_splits)
  then show ?thesis
    using assms collect_set_id [of S "\<lambda>v. if P v then Inr v else Inl e"] by simp
qed

lemma collect_check: "collect (map (\<lambda>v. if P v then Inr v else Inl e) vs) = Inr ws \<Longrightarrow> ws = vs \<and> list_all P vs"
  by (induction vs arbitrary: ws) (auto simp: bind_eq_Inr split: if_splits)

lemma strict_value_eq:
  "strict_identifier_value = (\<lambda>v. if is_strict_identifier v then Inr v else Inl ValueError)"
  "strict_scope_value = (\<lambda>v. if is_scope_token v then Inr v else Inl ValueError)"
  by (simp_all add: fun_eq_iff strict_identifier_value_def strict_scope_value_def)

definition base_claims :: "access_request \<Rightarrow> string \<Rightarrow> time \<Rightarrow> json_object" where
  "base_claims q token_id now =
     [(''iss'', J_Text (aq_issuer q)), (''sub'', J_Text (aq_subject q)), (''aud'', J_Text (aq_audience q)),
      (''exp'', J_Int (whole_seconds (now + aq_lifetime q))), (''iat'', J_Int (whole_seconds now)),
      (''client_id'', J_Text (aq_client_id q)), (''jti'', J_Text token_id), (''se'', J_Int (aq_security_epoch q))]"

lemma build_claims_Inr:
  assumes "build_access_token_claims g q (Aware now) = Inr d" "aq_jti q = Some j" "aq_not_before q = None"
  shows "d = base_claims q j now @ optional_claims (aq_scopes q) (aq_methods q) (aq_traits q) (aq_amr q)
      (map_option (\<lambda>r. case r of Aware t \<Rightarrow> t) (aq_authenticated_at q)) None"
    and "is_strict_identifier (aq_issuer q)" "is_strict_identifier (aq_audience q)" "is_strict_identifier (aq_subject q)"
    "is_strict_identifier (aq_client_id q)" "is_strict_identifier j" "\<forall>s\<in>aq_scopes q. is_scope_token s"
    "\<forall>m\<in>aq_methods q \<union> aq_traits q \<union> set (aq_amr q). is_strict_identifier m"
    "whole_seconds now < whole_seconds (now + aq_lifetime q)"
  using assms
  by (auto simp: build_access_token_claims_def bind_eq_Inr Let_def optional_result_def strict_value_eq base_claims_def
      list_all_iff split: if_splits option.splits py_datetime.splits dest!: collect_set_check collect_check)


abbreviation assurance_time :: "access_request \<Rightarrow> time option" where
  "assurance_time q \<equiv> map_option (\<lambda>r. case r of Aware t \<Rightarrow> t) (aq_authenticated_at q)"

abbreviation built_claims :: "access_request \<Rightarrow> string \<Rightarrow> time \<Rightarrow> json_object" where
  "built_claims q j now \<equiv>
     base_claims q j now @ optional_claims (aq_scopes q) (aq_methods q) (aq_traits q) (aq_amr q) (assurance_time q) None"

lemma built_base:
  "member (built_claims q j now) ''iss'' = J_Text (aq_issuer q)" "member (built_claims q j now) ''sub'' = J_Text (aq_subject q)"
  "member (built_claims q j now) ''aud'' = J_Text (aq_audience q)"
  "member (built_claims q j now) ''exp'' = J_Int (whole_seconds (now + aq_lifetime q))"
  "member (built_claims q j now) ''iat'' = J_Int (whole_seconds now)"
  "member (built_claims q j now) ''client_id'' = J_Text (aq_client_id q)"
  "member (built_claims q j now) ''jti'' = J_Text j" "member (built_claims q j now) ''se'' = J_Int (aq_security_epoch q)"
  "n \<in> local_required_claims \<Longrightarrow> has (built_claims q j now) n"
  by (auto simp: member_def base_claims_def has_def local_required_claims_def)

lemma optional_members:
  "dget (optional_claims S M T A u None) ''scope'' =
     (if S = {} then None else Some (J_Text (join_spaces (sorted_list_of_set S))))"
  "dget (optional_claims S M T A u None) ''amr'' =
     (if M = {} \<and> A = [] then None else Some (J_List (map J_Text (if A \<noteq> [] then A else sorted_list_of_set M))))"
  "dget (optional_claims S M T A u None) ''security_traits'' =
     (if T = {} then None else Some (J_List (map J_Text (sorted_list_of_set T))))"
  "dget (optional_claims S M T A u None) ''auth_time'' = map_option (\<lambda>t. J_Int (whole_seconds t)) u"
  "dget (optional_claims S M T A u None) ''nbf'' = None" "dget (optional_claims S M T A u None) ''scp'' = None"
  by (simp_all add: optional_claims_def map_add_def split: option.splits)

lemma built_optional:
  assumes "n \<in> {''scope'', ''amr'', ''security_traits'', ''auth_time'', ''nbf'', ''scp''}"
  shows "member (built_claims q j now) n =
    (case dget (optional_claims (aq_scopes q) (aq_methods q) (aq_traits q) (aq_amr q) (assurance_time q) None) n of
       None \<Rightarrow> J_Null | Some v \<Rightarrow> v)"
proof -
  have "dget (base_claims q j now) n = None"
    using assms unfolding base_claims_def by (elim insertE emptyE) simp_all
  then show ?thesis
    by (simp add: member_def map_add_def split: option.splits)
qed

lemma built_extra:
  "member (built_claims q j now) ''scope'' =
     (if aq_scopes q = {} then J_Null else J_Text (join_spaces (sorted_list_of_set (aq_scopes q))))"
  "member (built_claims q j now) ''amr'' =
     (if aq_methods q = {} \<and> aq_amr q = [] then J_Null
      else J_List (map J_Text (if aq_amr q \<noteq> [] then aq_amr q else sorted_list_of_set (aq_methods q))))"
  "member (built_claims q j now) ''security_traits'' =
     (if aq_traits q = {} then J_Null else J_List (map J_Text (sorted_list_of_set (aq_traits q))))"
  "member (built_claims q j now) ''auth_time'' =
     (case assurance_time q of None \<Rightarrow> J_Null | Some t \<Rightarrow> J_Int (whole_seconds t))"
  "member (built_claims q j now) ''nbf'' = J_Null" "member (built_claims q j now) ''scp'' = J_Null"
  by (simp_all add: built_optional optional_members split: option.splits)

lemmas built_member = built_base(1-8) built_extra

definition window :: "validation_config \<Rightarrow> time \<Rightarrow> time \<Rightarrow> time \<Rightarrow> bool" where
  "window config issued expires t \<longleftrightarrow> issued \<le> t + vc_skew config \<and> t - vc_skew config < expires"

definition accepts_request :: "validation_config \<Rightarrow> access_request \<Rightarrow> bool" where
  "accepts_request config q \<longleftrightarrow>
     vc_issuer config = aq_issuer q \<and> aq_audience q \<in> vc_audiences config \<and>
     vc_required config \<subseteq> local_required_claims \<and> ''at+jwt'' \<in> vc_token_types config \<and>
     (case vc_maximum_lifetime config of None \<Rightarrow> True | Some l \<Rightarrow> aq_lifetime q \<le> l)"

lemma scopes_of_built:
  assumes "finite (aq_scopes q)" "\<forall>s\<in>aq_scopes q. is_scope_token s"
  shows "normalize_scopes (freeze_members (built_claims q j now)) = Some (aq_scopes q)"
proof (cases "aq_scopes q = {}")
  case True
  then show ?thesis
    unfolding normalize_scopes_def Let_def member_freeze built_extra by simp
next
  case False
  let ?ss = "sorted_list_of_set (aq_scopes q)"
  have "split_on (CHR '' '') (join_spaces ?ss) = ?ss"
    using assms False scope_token_plain by (intro split_join_spaces) auto
  moreover have "list_all is_scope_token ?ss"
    using assms by (simp add: list_all_iff)
  ultimately show ?thesis
    using assms(1) False unfolding normalize_scopes_def Let_def member_freeze built_extra by (simp add: strict_texts_map)
qed

lemma whole_seconds_nonneg: "0 \<le> t \<Longrightarrow> whole_seconds t = t div 1000000"
  by (simp add: whole_seconds_def)

definition claims_of :: "access_request \<Rightarrow> string \<Rightarrow> time \<Rightarrow> jwt_claims" where
  "claims_of q j now =
     \<lparr>jc_issuer = aq_issuer q, jc_subject = Some (aq_subject q), jc_audiences = {aq_audience q},
      jc_expires_at = seconds (whole_seconds (now + aq_lifetime q)), jc_issued_at = seconds (whole_seconds now),
      jc_not_before = None, jc_token_id = Some j, jc_client_id = Some (aq_client_id q), jc_scopes = aq_scopes q,
      jc_raw = freeze_members (built_claims q j now), jc_bearer_slot = None\<rparr>"

lemma freeze_members_idem [simp]: "freeze_members (freeze_members d) = freeze_members d"
  by (simp add: freeze_members_def case_prod_unfold)

lemma normalize_built:
  assumes built: "build_access_token_claims g q (Aware now) = Inr d" "aq_jti q = Some j" "aq_not_before q = None"
    and config: "accepts_request config q" and scopes: "finite (aq_scopes q)"
    and times: "0 \<le> now" "now + aq_lifetime q < seconds 253402300800" "aq_lifetime q mod 1000000 = 0"
  shows "normalize_claims (freeze_members d) config t =
    (if window config (jc_issued_at (claims_of q j now)) (jc_expires_at (claims_of q j now)) t
     then Some (claims_of q j now) else None)"
proof -
  note b = build_claims_Inr [OF built]
  let ?d = "freeze_members (built_claims q j now)" and ?iat = "whole_seconds now"
  let ?exp = "whole_seconds (now + aq_lifetime q)"
  define k where "k = aq_lifetime q div 1000000"
  have k: "aq_lifetime q = seconds k"
    using dvd_div_mult_self [of 1000000 "aq_lifetime q"] times(3) by (simp add: k_def seconds_def mod_eq_0_iff_dvd)
  have life: "?iat < ?exp"
    by (rule b(9))
  then have pos: "0 < k"
    using times(1) k by (cases "0 \<le> now + aq_lifetime q") (auto simp: whole_seconds_def seconds_def)
  have exp: "?exp = ?iat + k"
    using times(1) pos k by (simp add: whole_seconds_def seconds_def)
  have range: "0 \<le> ?iat" "?exp \<le> 253402300799"
    using times(1,2) pos k by (auto simp: whole_seconds_def seconds_def)
  have "numeric_date (J_Int ?iat) = Some (seconds ?iat)" "numeric_date (J_Int ?exp) = Some (seconds ?exp)"
    using range exp pos by (simp_all add: numeric_date_def from_timestamp_def)
  then have "claim_times ?d = Some (seconds ?iat, seconds ?exp, None)"
    by (simp add: claim_times_def built_member)
  moreover have "in_window (vc_skew config) (vc_maximum_lifetime config) t (seconds ?iat, seconds ?exp, None) \<longleftrightarrow>
      window config (seconds ?iat) (seconds ?exp) t"
    using config exp pos k
    by (auto simp: in_window_def window_def accepts_request_def seconds_def split: option.splits)
  moreover have "\<forall>n\<in>vc_required config. has ?d n"
    using config built_base(9) by (auto simp: accepts_request_def)
  moreover have "issuer_and_subject ?d config = Some (aq_issuer q, Some (aq_subject q))"
    using config b(2,4) by (simp add: issuer_and_subject_def built_member accepts_request_def)
  moreover have "normalize_audiences (member ?d ''aud'') = Some {aq_audience q}" "{aq_audience q} \<inter> vc_audiences config \<noteq> {}"
    using config b(3) by (simp_all add: normalize_audiences_def built_member accepts_request_def)
  moreover have "claim_identifiers ?d config = Some (Some j, Some (aq_client_id q))"
    using b(5,6) by (simp add: claim_identifiers_def Let_def built_member optional_identifier_def)
  moreover have "normalize_scopes ?d = Some (aq_scopes q)"
    by (rule scopes_of_built [OF scopes b(7)])
  ultimately show ?thesis
    unfolding b(1) by (simp add: normalize_claims_def claims_of_def)
qed


section \<open>The verifier of the active key\<close>

lemma key_verifiers_other:
  "key_verifiers prepare config mech slot ks acc = Inr vs \<Longrightarrow> kid \<notin> vk_key_id ` set ks \<Longrightarrow>
    dget vs (kid, alg) = dget acc (kid, alg)"
  by (induction ks arbitrary: acc) (auto simp: bind_eq_Inr dict_simps split: if_splits)

lemma ring_active_verifier:
  assumes "ring_build_verifier prepare ring config mech slot = Inr rv" "key_ring_post_init ring = Inr ring"
  obtains v where "key_verifier prepare config mech slot (as_verification_key (lr_active ring)) = Inr v"
    "dget (rv_verifiers rv) (sk_key_id (lr_active ring), sk_algorithm (lr_active ring)) = Some v"
    "vc_issuer config = lr_issuer ring" "is_strict_identifier mech" "is_strict_identifier slot"
proof -
  let ?k = "as_verification_key (lr_active ring)"
  have ids: "vk_key_id ?k \<notin> vk_key_id ` set (lr_retained ring)"
    using assms(2) by (auto simp: key_ring_post_init_def key_set_post_init_def verification_key_set_def bind_eq_Inr
        split: if_splits)
  have alg: "vk_algorithm ?k \<in> vc_algorithms config"
    using assms(1) by (auto simp: ring_build_verifier_def as_verification_key_def split: if_splits)
  obtain v where v: "key_verifier prepare config mech slot ?k = Inr v"
    "key_verifiers prepare config mech slot (lr_retained ring) [((vk_key_id ?k, vk_algorithm ?k), v)] = Inr (rv_verifiers rv)"
    "vc_issuer config = lr_issuer ring" "is_strict_identifier mech" "is_strict_identifier slot"
    using assms(1) alg
    by (auto simp: ring_build_verifier_def build_verifier_def verification_key_set_def bind_eq_Inr strict_identifier_def
        split: if_splits)
  moreover have "dget (rv_verifiers rv) (vk_key_id ?k, vk_algorithm ?k) = Some v"
    using key_verifiers_other [OF v(2) ids] by simp
  ultimately show thesis
    using that by (simp add: as_verification_key_def)
qed

lemma lower_token_type: "text_lower ''at+jwt'' = ''at+jwt''" "text_lower ''AT+JWT'' = ''at+jwt''"
  by code_simp+

lemma key_config_accepts:
  assumes "validation_config_post_init (config\<lparr>vc_algorithms := {alg}\<rparr>) = Inr kc" "accepts_request config q"
  shows "accepts_request kc q" "vc_algorithms kc = {alg}" "vc_skew kc = vc_skew config"
proof -
  have kc: "vc_issuer kc = vc_issuer config" "vc_audiences kc = vc_audiences config" "vc_algorithms kc = {alg}"
    "vc_skew kc = vc_skew config" "vc_maximum_lifetime kc = vc_maximum_lifetime config"
    "vc_token_types kc = text_lower ` vc_token_types config"
    "vc_required kc \<subseteq> vc_required config \<union> {''iss'', ''aud'', ''exp'', ''iat'', ''sub'', ''client_id'', ''jti''}"
    using assms(1)
    by (auto simp: validation_config_post_init_def bind_eq_Inr Let_def strict_identifier_def strict_identifiers_def
        split: if_splits)
  have "''at+jwt'' \<in> text_lower ` vc_token_types config"
    using assms(2) imageI [of "''at+jwt''" "vc_token_types config" text_lower]
    unfolding accepts_request_def lower_token_type(1) by blast
  moreover have "vc_required kc \<subseteq> local_required_claims"
  proof -
    have "{''iss'', ''aud'', ''exp'', ''iat'', ''sub'', ''client_id'', ''jti''} \<subseteq> local_required_claims"
      by (simp add: local_required_claims_def)
    with conjunct1 [OF conjunct2 [OF conjunct2 [OF assms(2) [unfolded accepts_request_def]]]] show ?thesis
      by (rule subset_trans [OF kc(7) Un_least])
  qed
  ultimately show "accepts_request kc q" "vc_algorithms kc = {alg}" "vc_skew kc = vc_skew config"
    using assms(2) kc(1-6) by (simp_all add: accepts_request_def)
qed

section \<open>Headers and payloads of local tokens\<close>

lemma protected_header_valid:
  assumes "usable_key k" "vc_algorithms kc = {sk_algorithm k}" "''at+jwt'' \<in> vc_token_types kc"
  shows "validate_header (freeze_members (protected_header k ''at+jwt'')) kc True = Some (sk_algorithm k)"
proof -
  have "sk_algorithm k \<noteq> ''none''"
    using assms(1) unfolding usable_key_def supported_algorithms_def by auto
  then show ?thesis
    using assms protected_not_forbidden [of _ k] unfolding validate_header_def member_freeze protected_members has_freeze
    by (simp add: lower_token_type(1) usable_key_def)
qed

lemma built_claims_depth: "json_depth (J_Object (built_claims q j now)) \<le> 32"
proof -
  have "json_depth (snd m) \<le> 31" if "m \<in> set (built_claims q j now)" for m
    using that by (auto simp: base_claims_def optional_claims_def split: if_splits option.splits)
  then show ?thesis
    by (auto simp: Max_le_iff)
qed

lemma built_claims_distinct: "plain_json (J_Object (built_claims q j now))"
  by (auto simp: base_claims_def optional_claims_def list_all_iff split: option.splits)

lemma identifier_trimmed: "is_strict_identifier v \<Longrightarrow> trimmed v"
  by (metis is_strict_identifier_def trimmed_strip)

lemma claim_text_trimmed: "strict_claim_text v \<Longrightarrow> trimmed v"
  by (metis strict_claim_text_def trimmed_strip)

end
