(* ===== verification/Access_Properties.thy ===== *)
theory Access_Properties
  imports Access_Lifecycle
begin

text \<open>
  The access-token properties: from issuing over signing, verifying and promoting to the resolved
  principal, with one concrete library.
\<close>

section \<open>Issuing\<close>

lemma issue_access_token_Verified:
  assumes "issue_access_token i account scopes ev (Some (Aware now)) s = (Verified tok, s')"
  obtains j claims s1 where "acc_active account" "acc_verified account"
    "build_access_token_claims [] (access_request_of i account scopes ev j) (Aware now) = Inr claims"
    "ai_sign i claims (Aware now) s1 = (Inr (lat_access_token tok), s')"
    "valid_compact_access_token (lat_access_token tok)"
  using assms
  by (auto simp: issue_access_token_def sanitized_Verified run_ok local_access_token_post_init_def simp del: call_lift
      split: if_splits prod.splits sum.splits)

lemma sign_local_Inr:
  assumes "sign_local encode ring claims (Aware now) s = (Inr token, s')"
  shows "validate_local_access_claims claims (lr_issuer ring) now = Inr claims"
    "encode claims (sk_private (lr_active ring)) (sk_algorithm (lr_active ring)) (signing_headers (lr_active ring) ''at+jwt'') s =
      (Some token, s')"
  using assms
  by (auto simp: sign_local_def validate_local_access_claims_def bind_eq_Inr split: if_splits prod.splits option.splits sum.splits)

section \<open>Promotion\<close>

lemma freeze_comp [simp]: "freeze_json \<circ> J_Text = J_Text"
  by (simp add: fun_eq_iff)

lemma claims_of_simps:
  "jc_raw (claims_of q j now) = freeze_members (built_claims q j now)"
  "jc_issued_at (claims_of q j now) = seconds (whole_seconds now)" "jc_scopes (claims_of q j now) = aq_scopes q"
  "jc_expires_at (claims_of q j now) = seconds (whole_seconds (now + aq_lifetime q))"
  "jc_subject (claims_of q j now) = Some (aq_subject q)"
  by (simp_all add: claims_of_def)

text \<open>The methods that survive: the references when there are any, otherwise the methods.\<close>

definition kept_methods :: "access_request \<Rightarrow> string set" where
  "kept_methods q = (if aq_amr q \<noteq> [] then set (aq_amr q) else aq_methods q)"

text \<open>
  What the local verifier can read back: it refuses a method or trait name with white space, which issuing
  lets through, repeated references, and an authentication time outside the years 1 to 9999.
\<close>

definition readable_assurance :: "access_request \<Rightarrow> bool" where
  "readable_assurance q \<longleftrightarrow> distinct (aq_amr q) \<and> (\<forall>m\<in>kept_methods q \<union> aq_traits q. strict_claim_text m) \<and>
     (\<forall>t. assurance_time q = Some t \<longrightarrow> from_timestamp (whole_seconds t) \<noteq> None)"

definition kept_time :: "access_request \<Rightarrow> time \<Rightarrow> time" where
  "kept_time q now = seconds (whole_seconds (case assurance_time q of None \<Rightarrow> now | Some t \<Rightarrow> t))"

lemma claim_set_texts:
  "claim_set (J_Tuple (map J_Text ss)) = (if list_all strict_claim_text ss \<and> distinct ss then Some (set ss) else None)"
  by (simp add: claim_set_def sequence_of_def strict_texts_map)

lemma claim_set_built:
  assumes "finite (aq_methods q)" "finite (aq_traits q)"
  shows "claim_set (member (jc_raw (claims_of q j now)) ''amr'') =
      (if distinct (aq_amr q) \<and> (\<forall>m\<in>kept_methods q. strict_claim_text m) then Some (kept_methods q) else None)"
    "claim_set (member (jc_raw (claims_of q j now)) ''security_traits'') =
      (if \<forall>m\<in>aq_traits q. strict_claim_text m then Some (aq_traits q) else None)"
proof -
  have raw: "jc_raw (claims_of q j now) = freeze_members (built_claims q j now)"
    by (simp add: claims_of_def)
  have none: "claim_set J_Null = Some {}"
    by (simp add: claim_set_def)
  show "claim_set (member (jc_raw (claims_of q j now)) ''amr'') =
      (if distinct (aq_amr q) \<and> (\<forall>m\<in>kept_methods q. strict_claim_text m) then Some (kept_methods q) else None)"
    using assms claim_set_texts [of "aq_amr q"] claim_set_texts [of "sorted_list_of_set (aq_methods q)"]
    unfolding raw member_freeze built_extra
    by (cases "aq_amr q = []"; cases "aq_methods q = {}") (auto simp: kept_methods_def list_all_iff none)
  show "claim_set (member (jc_raw (claims_of q j now)) ''security_traits'') =
      (if \<forall>m\<in>aq_traits q. strict_claim_text m then Some (aq_traits q) else None)"
    using assms claim_set_texts [of "sorted_list_of_set (aq_traits q)"]
    unfolding raw member_freeze built_extra
    by (cases "aq_traits q = {}") (auto simp: list_all_iff none)
qed

lemma claim_time_built:
  assumes "\<forall>t. assurance_time q = Some t \<longrightarrow> from_timestamp (whole_seconds t) \<noteq> None"
  shows "claim_authentication_time (member (jc_raw (claims_of q j now)) ''auth_time'') (jc_issued_at (claims_of q j now)) =
    Some (kept_time q now)"
  using assms
  unfolding kept_time_def claims_of_simps member_freeze built_extra
  by (cases "aq_authenticated_at q") (auto simp: claim_authentication_time_def from_timestamp_def split: if_splits)

lemma claim_time_refused:
  assumes "assurance_time q = Some t" "from_timestamp (whole_seconds t) = None"
  shows "claim_authentication_time (member (jc_raw (claims_of q j now)) ''auth_time'') (jc_issued_at (claims_of q j now)) = None"
  using assms unfolding claims_of_simps member_freeze built_extra by (auto simp: claim_authentication_time_def)

definition local_login :: "string \<Rightarrow> string \<Rightarrow> access_request \<Rightarrow> string \<Rightarrow> time \<Rightarrow> jwt_claims verified_login" where
  "local_login mech slot q j now =
     \<lparr>au_evidence =
        \<lparr>ev_mechanism = mech, ev_slot = slot, ev_authenticated_at = kept_time q now,
         ev_expires_at = Some (jc_expires_at (claims_of q j now)), ev_methods = kept_methods q, ev_traits = aq_traits q,
         ev_acr = None, ev_amr = sorted_list_of_set (kept_methods q)\<rparr>,
      au_grants = scope_grants (aq_scopes q), au_restrictions = unrestricted, au_claims = claims_of q j now\<rparr>"

lemma promote_built:
  assumes finite: "finite (aq_methods q)" "finite (aq_traits q)" and names: "trimmed mech" "trimmed slot"
    and login: "au_claims login = claims_of q j now" "au_restrictions login = unrestricted"
    "au_evidence login = \<lparr>ev_mechanism = mech, ev_slot = slot, ev_authenticated_at = t,
       ev_expires_at = Some (jc_expires_at (claims_of q j now)), ev_methods = {}, ev_traits = {}, ev_acr = None, ev_amr = []\<rparr>"
  shows "promote login s =
    (Inr (if readable_assurance q then Auth_Ok (local_login mech slot q j now) else Auth_Invalid), s)"
proof (cases "readable_assurance q")
  case False
  then show ?thesis
    using claim_time_refused [of q _ j now]
    by (auto simp: promote_def Let_def login(1) claim_set_built [OF finite] readable_assurance_def split: option.splits)
next
  case True
  then have f: "finite (kept_methods q)" "\<forall>m\<in>kept_methods q. trimmed m" "\<forall>m\<in>aq_traits q. trimmed m"
    using finite claim_text_trimmed by (auto simp: readable_assurance_def kept_methods_def)
  then have "evidence_post_init
     \<lparr>in_mechanism = mech, in_slot = slot, in_authenticated_at = Aware (kept_time q now),
      in_expires_at = Some (Aware (jc_expires_at (claims_of q j now))), in_methods = kept_methods q,
      in_traits = aq_traits q, in_acr = None, in_amr = sorted_list_of_set (kept_methods q)\<rparr> =
    Inr (au_evidence (local_login mech slot q j now))"
    using evidence_accepted [OF names, of "kept_methods q" "aq_traits q" "sorted_list_of_set (kept_methods q)"
        "kept_time q now" "jc_expires_at (claims_of q j now)"]
    by (simp add: local_login_def)
  moreover have "login\<lparr>au_evidence := au_evidence (local_login mech slot q j now), au_grants := scope_grants (aq_scopes q)\<rparr> =
      local_login mech slot q j now"
    using login(1,2) by (cases login) (simp add: local_login_def)
  moreover have "jc_scopes (claims_of q j now) = aq_scopes q"
    by (simp add: claims_of_def)
  moreover have "distinct (aq_amr q) \<and> (\<forall>m\<in>kept_methods q. strict_claim_text m)" "\<forall>m\<in>aq_traits q. strict_claim_text m"
    "\<forall>t. assurance_time q = Some t \<longrightarrow> from_timestamp (whole_seconds t) \<noteq> None"
    using True by (auto simp: readable_assurance_def)
  ultimately show ?thesis
    using True claim_time_built [of q j now]
    by (simp add: promote_def Let_def login(1,3) claim_set_built [OF finite])
qed


section \<open>Verifying what was issued\<close>

lemma not_isl_iff: "\<not> isl x \<longleftrightarrow> (\<exists>b. x = Inr b)"
  by (cases x) auto

lemma verify_built:
  assumes v: "key_verifier prepare config mech slot (as_verification_key k) = Inr v"
    and names: "is_strict_identifier mech" "is_strict_identifier slot" and key: "usable_key k"
    and config: "accepts_request config q"
    and built: "build_access_token_claims g q (Aware now) = Inr d" "aq_jti q = Some j" "aq_not_before q = None"
    and scopes: "finite (aq_scopes q)"
    and times: "0 \<le> now" "now + aq_lifetime q < seconds 253402300800" "aq_lifetime q mod 1000000 = 0"
    and route: "route_of reader token =
      Some \<lparr>jr_header = freeze_members (protected_header k ''at+jwt''), jr_payload = freeze_members d\<rparr>"
    and good: "\<And>key u. prepare (sk_verification k) (sk_algorithm k) = Inr key \<Longrightarrow>
      fst (check key (sk_algorithm k) token u) = Signature_Good"
    and assurance: "finite (aq_methods q)" "finite (aq_traits q)"
  shows "\<exists>u'. local_access_verify (verify_token reader check v) token (Aware t) u =
    (Inr (if window config (jc_issued_at (claims_of q j now)) (jc_expires_at (claims_of q j now)) t \<and> readable_assurance q
          then Auth_Ok (local_login mech slot q j now) else Auth_Invalid), u')"
proof -
  obtain kc where kc: "validation_config_post_init (config\<lparr>vc_algorithms := {sk_algorithm k}\<rparr>) = Inr kc"
    and v': "jv_config v = kc" "jv_key v = sk_verification k" "jv_prepare v = prepare" "jv_require_key_id v"
      "jv_mechanism v = mech" "jv_slot v = slot" "jv_maximum_bytes v = default_token_bytes"
      "\<forall>a\<in>vc_algorithms kc. \<exists>key. prepare (sk_verification k) a = Inr key"
    using v by (auto simp: key_verifier_def jwt_verifier_post_init_def as_verification_key_def bind_eq_Inr not_isl_iff
        split: if_splits)
  note accepts = key_config_accepts [OF kc config]
  have header: "validate_header (freeze_members (protected_header k ''at+jwt'')) kc True = Some (sk_algorithm k)"
    using accepts(1) by (intro protected_header_valid [OF key accepts(2)]) (simp add: accepts_request_def)
  have window: "window kc = window config"
    using accepts(3) by (simp add: fun_eq_iff window_def)
  have checked: "checked_claims reader v token t =
      (if window config (jc_issued_at (claims_of q j now)) (jc_expires_at (claims_of q j now)) t
       then Some (sk_algorithm k, claims_of q j now) else None)"
    using route [unfolded route_of_def] header normalize_built [OF built accepts(1) scopes times, of t]
    by (simp add: checked_claims_def v' window)
  show ?thesis
  proof (cases "window config (jc_issued_at (claims_of q j now)) (jc_expires_at (claims_of q j now)) t")
    case False
    then show ?thesis
      using checked by (simp add: local_access_verify_def verify_token_def call_def)
  next
    case True
    obtain key where key: "prepare (sk_verification k) (sk_algorithm k) = Inr key"
      using v'(8) accepts(2) by auto
    obtain u' where u': "check key (sk_algorithm k) token u = (Signature_Good, u')"
      using good [OF key, of u] by (cases "check key (sk_algorithm k) token u") auto
    define e where "e = \<lparr>ev_mechanism = mech, ev_slot = slot, ev_authenticated_at = t,
      ev_expires_at = Some (jc_expires_at (claims_of q j now)), ev_methods = {}, ev_traits = {}, ev_acr = None, ev_amr = []\<rparr>"
    have "token_evidence v t (claims_of q j now) = Inr e"
      using evidence_accepted [OF identifier_trimmed [OF names(1)] identifier_trimmed [OF names(2)], of "{}" "{}" "[]" t]
      by (simp add: token_evidence_def v' e_def)
    then have "verify_token reader check v token (Aware t) u = (Inr (granted e no_grants (claims_of q j now)), u')"
      using checked True by (simp add: verify_token_def v' key u')
    then show ?thesis
      using promote_built [OF assurance identifier_trimmed [OF names(1)] identifier_trimmed [OF names(2)],
          of "\<lparr>au_evidence = e, au_grants = no_grants, au_restrictions = unrestricted, au_claims = claims_of q j now\<rparr>"
            j now t u'] True
      by (simp add: local_access_verify_def call_def granted_def e_def)
  qed
qed


lemma ring_verify_active:
  assumes "dget (rv_verifiers rv) (sk_key_id k, sk_algorithm k) = Some v"
    "route_of reader token = Some \<lparr>jr_header = freeze_members (protected_header k ''at+jwt''), jr_payload = p\<rparr>"
  shows "ring_verify reader check rv token = verify_token reader check v token"
  using assms by (simp add: fun_eq_iff ring_verify_def protected_members)

lemma issued_token_verifies:
  assumes issuer: "access_token_issuer_post_init i = Inr i" "ai_sign i = sign_local encode ring"
    and ring: "key_ring_post_init ring = Inr ring" "usable_key (lr_active ring)"
      "ring_build_verifier prepare ring config mech slot = Inr rv"
    and library: "library_signs reader check (prepare (sk_verification (lr_active ring)) (sk_algorithm (lr_active ring))) encode
      (lr_active ring) ''at+jwt''"
    and issued: "issue_access_token i account scopes ev (Some (Aware now)) s = (Verified tok, s')"
    and requests: "\<And>j. accepts_request config (access_request_of i account scopes ev j)"
      "\<And>j. finite (aq_methods (access_request_of i account scopes ev j))"
      "\<And>j. finite (aq_traits (access_request_of i account scopes ev j))" "finite scopes"
    and times: "0 \<le> now" "now + ai_lifetime i < seconds 253402300800"
  shows "\<exists>j. is_strict_identifier (acc_id account) \<and> (\<forall>t u. \<exists>u'.
    local_access_verify (ring_verify reader check rv) (lat_access_token tok) (Aware t) u =
      (Inr (let q = access_request_of i account scopes ev j; claims = claims_of q j now
            in if window config (jc_issued_at claims) (jc_expires_at claims) t \<and> readable_assurance q
               then Auth_Ok (local_login mech slot q j now) else Auth_Invalid), u'))"
proof -
  let ?k = "lr_active ring"
  obtain j claims s1 where j: "build_access_token_claims [] (access_request_of i account scopes ev j) (Aware now) = Inr claims"
    "ai_sign i claims (Aware now) s1 = (Inr (lat_access_token tok), s')"
    "valid_compact_access_token (lat_access_token tok)"
    by (rule issue_access_token_Verified [OF issued])
  let ?q = "access_request_of i account scopes ev j"
  have q: "aq_jti ?q = Some j" "aq_not_before ?q = None" "aq_scopes ?q = scopes" "aq_lifetime ?q = ai_lifetime i"
    "aq_subject ?q = acc_id account"
    by (simp_all add: access_request_of_def)
  obtain v where v: "key_verifier prepare config mech slot (as_verification_key ?k) = Inr v"
    "dget (rv_verifiers rv) (sk_key_id ?k, sk_algorithm ?k) = Some v" "is_strict_identifier mech" "is_strict_identifier slot"
    using ring_active_verifier [OF ring(3,1)] by metis
  have encoded: "encode claims (sk_private ?k) (sk_algorithm ?k) (signing_headers ?k ''at+jwt'') s1 =
      (Some (lat_access_token tok), s')"
    using j(2) unfolding issuer(2) by (rule sign_local_Inr(2))
  have payload: "claims = built_claims ?q j now"
    by (rule build_claims_Inr(1) [OF j(1) q(1,2)])
  have "int (length (lat_access_token tok)) \<le> default_token_bytes"
    using j(3) by (simp add: valid_compact_access_token_def default_token_bytes_def)
  note law = library_signs_route [OF library _ _ encoded this, unfolded payload, OF built_claims_distinct built_claims_depth]
  have route: "route_of reader (lat_access_token tok) =
      Some \<lparr>jr_header = freeze_members (protected_header ?k ''at+jwt''), jr_payload = freeze_members claims\<rparr>"
    and good: "prepare (sk_verification ?k) (sk_algorithm ?k) = Inr key \<Longrightarrow>
      fst (check key (sk_algorithm ?k) (lat_access_token tok) u) = Signature_Good" for key u
    using law unfolding payload by blast+
  have "ai_lifetime i mod 1000000 = 0"
    using issuer(1) by (auto simp: access_token_issuer_post_init_def validate_access_token_lifetime_def bind_eq_Inr
        split: if_splits)
  then have "\<exists>u'. local_access_verify (verify_token reader check v) (lat_access_token tok) (Aware t) u =
    (Inr (if window config (jc_issued_at (claims_of ?q j now)) (jc_expires_at (claims_of ?q j now)) t \<and>
            readable_assurance ?q
          then Auth_Ok (local_login mech slot ?q j now) else Auth_Invalid), u')" for t u
    using verify_built [where check = check and token = "lat_access_token tok" and k = ?k and prepare = prepare, OF v(1,3,4) ring(2) requests(1) j(1) q(1,2) _ times(1) _ _ route good requests(2,3)] q(3,4)
      requests(4) times(2) by simp
  moreover have "is_strict_identifier (acc_id account)"
    using build_claims_Inr(4) [OF j(1) q(1,2)] q(5) by simp
  ultimately show ?thesis
    unfolding local_access_verify_def ring_verify_active [OF v(2) route] Let_def by blast
qed

section \<open>Resolving\<close>

lemma memory_account_reads:
  "memory_get_by_id k w = (Inr (get_by_id k (memory_store w)), w)"
  "memory_current_epoch k w = (Inr (current_epoch k (memory_store w)), w)"
  by (simp_all add: memory_get_by_id_def memory_current_epoch_def on_first_def memory_store_def)

lemma resolve_bearer_memory:
  fixes w :: "'u world \<times> 'e"
  assumes "accounts_ok (memory_store w)" "jc_subject claims = Some k" "member (jc_raw claims) ''se'' = J_Int epoch"
  shows "resolve_bearer memory_get_by_id memory_current_epoch claims w = (Inr (Verified p), w') \<longleftrightarrow>
    (\<exists>a. get_by_id k (memory_store w) = Some a \<and> acc_active a \<and> acc_verified a \<and> acc_epoch a = epoch \<and>
       account_principal a = Inr p \<and> w' = w)"
proof (cases "get_by_id k (memory_store w)")
  case (Some a)
  then have a: "acc_id a = k" "valid_account a" "current_epoch k (memory_store w) = Some (acc_epoch a)"
    using accounts_okD [OF assms(1)] by (auto simp: get_by_id_def current_epoch_def)
  then show ?thesis
    using Some assms(2,3)
    by (auto simp: resolve_bearer_def memory_account_reads validate_epoch_def valid_account_def split: sum.splits)
qed (simp add: resolve_bearer_def memory_account_reads assms)

text \<open>C16: An issued access token logs in exactly in its window and as its account only: over a signing
  library that verifies what it signed, a local verifier whose profile names the issuer and its audience and requires
  no claim that is not issued answers a token the issuer handed out, inside the
  issued window widened by the clock skew, with the account as subject, the issued scopes and
  expiry and as much of the assurance as the claims keep: the traits, the authentication time in whole seconds, and one
  set of methods, which is the issued references when there are any and the issued methods otherwise, repeated as
  the references in sorted order. It refuses the token outside the window, and at every time when a kept
  method or trait has white space in its name, a reference is repeated or the authentication time is no date. The
  claims resolve exactly while that account is stored, active, verified and at the epoch the token was
  issued at.\<close>

theorem issued_access_token_logs_in:
  assumes "access_token_issuer_post_init i = Inr i" "ai_sign i = sign_local encode ring"
    "key_ring_post_init ring = Inr ring" "usable_key (lr_active ring)"
    "ring_build_verifier prepare ring config mech slot = Inr rv"
    "library_signs reader check (prepare (sk_verification (lr_active ring)) (sk_algorithm (lr_active ring))) encode
      (lr_active ring) ''at+jwt''"
    "issue_access_token i account scopes ev (Some (Aware now)) s = (Verified tok, s')"
    "\<And>j. accepts_request config (access_request_of i account scopes ev j)"
    "\<And>j. finite (aq_methods (access_request_of i account scopes ev j))"
    "\<And>j. finite (aq_traits (access_request_of i account scopes ev j))" "finite scopes"
    "0 \<le> now" "now + ai_lifetime i < seconds 253402300800"
  shows "\<exists>j. let q = access_request_of i account scopes ev j; claims = claims_of q j now
    in (\<forall>t u. \<exists>u'. local_access_verify (ring_verify reader check rv) (lat_access_token tok) (Aware t) u =
         (Inr (if window config (jc_issued_at claims) (jc_expires_at claims) t \<and> readable_assurance q
               then Auth_Ok (local_login mech slot q j now) else Auth_Invalid), u')) \<and>
       (\<forall>w p w'. accounts_ok (memory_store w) \<longrightarrow>
         (resolve_bearer memory_get_by_id memory_current_epoch claims w = (Inr (Verified p), w') \<longleftrightarrow>
          (\<exists>a. get_by_id (acc_id account) (memory_store w) = Some a \<and> acc_active a \<and> acc_verified a \<and>
             acc_epoch a = acc_epoch account \<and> account_principal a = Inr p \<and> w' = w)))"
proof -
  obtain j where j: "\<forall>t u. \<exists>u'. local_access_verify (ring_verify reader check rv) (lat_access_token tok) (Aware t) u =
      (Inr (let q = access_request_of i account scopes ev j; claims = claims_of q j now
            in if window config (jc_issued_at claims) (jc_expires_at claims) t \<and> readable_assurance q
               then Auth_Ok (local_login mech slot q j now) else Auth_Invalid), u')"
    using issued_token_verifies [OF assms] by blast
  let ?q = "access_request_of i account scopes ev j"
  have "jc_subject (claims_of ?q j now) = Some (acc_id account)"
    "member (jc_raw (claims_of ?q j now)) ''se'' = J_Int (acc_epoch account)"
    unfolding claims_of_simps member_freeze built_member by (simp_all add: access_request_of_def)
  note resolves = resolve_bearer_memory [OF _ this]
  show ?thesis
    unfolding Let_def by (intro exI [of _ j] conjI j [unfolded Let_def] allI impI resolves)
qed


section \<open>What a verified token proves\<close>

lemma key_verifiers_from:
  assumes "key_verifiers prepare config mech slot ks acc = Inr vs" "dget vs (kid, alg) = Some v"
  shows "dget acc (kid, alg) = Some v \<or> (\<exists>k\<in>set ks. vk_key_id k = kid \<and> vk_algorithm k = alg \<and>
    alg \<in> vc_algorithms config \<and> key_verifier prepare config mech slot k = Inr v)"
  using assms
  by (induction ks arbitrary: acc) (fastforce simp: bind_eq_Inr dict_simps split: if_splits)+

lemma build_verifier_from:
  assumes "build_verifier prepare ks config mech slot = Inr rv" "dget (rv_verifiers rv) (kid, alg) = Some v"
  obtains k kc where "k \<in> set (kr_keys ks)" "vk_key_id k = kid" "vk_algorithm k = alg" "alg \<in> vc_algorithms config"
    "validation_config_post_init (config\<lparr>vc_algorithms := {alg}\<rparr>) = Inr kc"
    "v = \<lparr>jv_config = kc, jv_key = vk_material k, jv_prepare = prepare, jv_require_key_id = True, jv_mechanism = mech,
      jv_slot = slot, jv_maximum_bytes = default_token_bytes\<rparr>" "vc_issuer config = kr_issuer ks"
    "is_strict_identifier mech" "is_strict_identifier slot"
proof -
  have b: "key_verifiers prepare config mech slot (kr_keys ks) [] = Inr (rv_verifiers rv)" "vc_issuer config = kr_issuer ks"
    "is_strict_identifier mech" "is_strict_identifier slot"
    using assms(1) by (auto simp: build_verifier_def bind_eq_Inr strict_identifier_def split: if_splits)
  then obtain k where k: "k \<in> set (kr_keys ks)" "vk_key_id k = kid" "vk_algorithm k = alg" "alg \<in> vc_algorithms config"
    "key_verifier prepare config mech slot k = Inr v"
    using key_verifiers_from [OF b(1) assms(2)] by auto
  moreover obtain kc where "validation_config_post_init (config\<lparr>vc_algorithms := {alg}\<rparr>) = Inr kc"
    "v = \<lparr>jv_config = kc, jv_key = vk_material k, jv_prepare = prepare, jv_require_key_id = True, jv_mechanism = mech,
      jv_slot = slot, jv_maximum_bytes = default_token_bytes\<rparr>"
    using k(3,5) by (auto simp: key_verifier_def jwt_verifier_post_init_def bind_eq_Inr split: if_splits)
  ultimately show thesis
    using that b(2-4) by blast
qed

lemma key_config_fields:
  assumes "validation_config_post_init c = Inr kc"
  shows "vc_issuer kc = vc_issuer c" "vc_audiences kc = vc_audiences c" "vc_algorithms kc = vc_algorithms c"
    "vc_skew kc = vc_skew c" "vc_maximum_lifetime kc = vc_maximum_lifetime c"
    "vc_token_types kc = text_lower ` vc_token_types c"
    "vc_subject_required kc = vc_subject_required c" "vc_access_profile kc = vc_access_profile c"
    "vc_required c - {''sub''} \<subseteq> vc_required kc"
    "vc_subject_required c \<Longrightarrow> ''sub'' \<in> vc_required kc"
  using assms
  by (auto simp: validation_config_post_init_def bind_eq_Inr Let_def strict_identifier_def strict_identifiers_def
      split: if_splits)

lemma validate_header_Some:
  assumes "validate_header header config True = Some algorithm"
  shows "member header ''alg'' = J_Text algorithm" "algorithm \<in> vc_algorithms config" "algorithm \<noteq> ''none''"
    "\<exists>token_type. member header ''typ'' = J_Text token_type \<and> text_lower token_type \<in> vc_token_types config"
    "\<forall>n\<in>forbidden_headers. \<not> has header n"
  using assms by (auto simp: validate_header_def split: json.splits if_splits)

text \<open>The dates of a payload, what the claims hold of them, and the time they allow.\<close>

definition timely :: "validation_config \<Rightarrow> json_object \<Rightarrow> jwt_claims \<Rightarrow> time \<Rightarrow> bool" where
  "timely config payload claims t \<longleftrightarrow>
     (\<exists>iat expiry.
        member payload ''iat'' = J_Int iat \<and> member payload ''exp'' = J_Int expiry \<and> iat < expiry \<and>
        seconds iat \<le> t + vc_skew config \<and> t - vc_skew config < seconds expiry \<and>
        (case vc_maximum_lifetime config of None \<Rightarrow> True | Some l \<Rightarrow> seconds (expiry - iat) \<le> l) \<and>
        jc_issued_at claims = seconds iat \<and> jc_expires_at claims = seconds expiry \<and>
        (member payload ''nbf'' = J_Null \<and> jc_not_before claims = None \<or>
         (\<exists>nbf. member payload ''nbf'' = J_Int nbf \<and> nbf < expiry \<and> seconds nbf \<le> t + vc_skew config \<and>
            jc_not_before claims = Some (seconds nbf))))"

text \<open>Everything the profile requires is there.\<close>

definition complete_claims :: "validation_config \<Rightarrow> json_object \<Rightarrow> jwt_claims \<Rightarrow> bool" where
  "complete_claims config payload claims \<longleftrightarrow>
     (\<forall>n\<in>vc_required config - {''sub''}. has payload n) \<and> (vc_subject_required config \<longrightarrow> jc_subject claims \<noteq> None) \<and>
     (vc_access_profile config \<longrightarrow> jc_token_id claims \<noteq> None \<and> jc_client_id claims \<noteq> None)"

lemma numeric_date_Some: "numeric_date v = Some t \<longleftrightarrow> (\<exists>n. v = J_Int n \<and> from_timestamp n = Some t)"
  by (auto simp: numeric_date_def split: json.splits)

lemma from_timestamp_Some: "from_timestamp n = Some t \<Longrightarrow> t = seconds n"
  by (auto simp: from_timestamp_def split: if_splits)

lemma claim_times_timely:
  assumes "claim_times payload = Some (jc_issued_at claims, jc_expires_at claims, jc_not_before claims)"
    "in_window (vc_skew config) (vc_maximum_lifetime config) t
       (jc_issued_at claims, jc_expires_at claims, jc_not_before claims)"
  shows "timely config payload claims t"
proof -
  obtain iat expiry where dates: "member payload ''iat'' = J_Int iat" "member payload ''exp'' = J_Int expiry"
    "jc_issued_at claims = seconds iat" "jc_expires_at claims = seconds expiry"
    using assms(1) from_timestamp_Some
    by (fastforce simp: claim_times_def numeric_date_Some split: option.splits if_splits)
  moreover have "member payload ''nbf'' = J_Null \<and> jc_not_before claims = None \<or>
      (\<exists>nbf. member payload ''nbf'' = J_Int nbf \<and> jc_not_before claims = Some (seconds nbf))"
    using assms(1) from_timestamp_Some
    by (fastforce simp: claim_times_def numeric_date_Some split: option.splits if_splits)
  ultimately show ?thesis
    using assms(2) unfolding timely_def
    by (intro exI [of _ iat] exI [of _ expiry]) (auto simp: in_window_def seconds_def split: option.splits)
qed

lemma normalize_claims_Some:
  assumes "normalize_claims payload config now = Some claims"
  shows "member payload ''iss'' = J_Text (vc_issuer config)" "jc_issuer claims = vc_issuer config"
    "normalize_audiences (member payload ''aud'') = Some (jc_audiences claims)"
    "jc_audiences claims \<inter> vc_audiences config \<noteq> {}"
    "member payload ''sub'' = (case jc_subject claims of None \<Rightarrow> J_Null | Some k \<Rightarrow> J_Text k)"
    "timely config payload claims now" "complete_claims config payload claims"
    "normalize_scopes payload = Some (jc_scopes claims)"
proof -
  obtain iat expiry nbf where times: "claim_times payload = Some (iat, expiry, nbf)"
    "in_window (vc_skew config) (vc_maximum_lifetime config) now (iat, expiry, nbf)"
    "jc_issued_at claims = iat" "jc_expires_at claims = expiry" "jc_not_before claims = nbf"
    using assms by (auto simp: normalize_claims_def split: if_splits option.splits prod.splits)
  then show "timely config payload claims now"
    by (intro claim_times_timely) simp_all
  show "complete_claims config payload claims"
    using assms
    by (auto simp: normalize_claims_def complete_claims_def issuer_and_subject_def claim_identifiers_def Let_def
        split: if_splits option.splits json.splits prod.splits)
qed (use assms in \<open>auto simp: normalize_claims_def issuer_and_subject_def split: if_splits option.splits json.splits prod.splits\<close>)

lemma verify_token_Ok:
  assumes "verify_token reader check v token (Aware t) s = (Inr (Auth_Ok login), s')"
  obtains route alg key where "parse_unverified_jwt_route reader token (jv_maximum_bytes v) default_json_depth = Some route"
    "validate_header (jr_header route) (jv_config v) (jv_require_key_id v) = Some alg"
    "normalize_claims (jr_payload route) (jv_config v) t = Some (au_claims login)"
    "jv_prepare v (jv_key v) alg = Inr key" "check key alg token s = (Signature_Good, s')"
    "token_evidence v t (au_claims login) = Inr (au_evidence login)" "au_grants login = no_grants"
proof -
  obtain alg claims where c: "checked_claims reader v token t = Some (alg, claims)"
    using assms by (cases "checked_claims reader v token t") (auto simp: verify_token_def)
  obtain key where key: "jv_prepare v (jv_key v) alg = Inr key"
    using assms c by (auto simp: verify_token_def split: sum.splits)
  obtain a u where sig: "check key alg token s = (a, u)"
    by (cases "check key alg token s")
  have "a = Signature_Good \<and> u = s' \<and> (\<exists>e. token_evidence v t claims = Inr e \<and> login =
      \<lparr>au_evidence = e, au_grants = no_grants, au_restrictions = unrestricted, au_claims = claims\<rparr>)"
    using assms c key sig by (auto simp: verify_token_def granted_def split: signature_answer.splits sum.splits)
  then show thesis
    using c key sig that by (fastforce simp: checked_claims_def split: option.splits)
qed

definition trusted_route :: "validation_config \<Rightarrow> ('m, 'j) verification_key \<Rightarrow> jwt_route \<Rightarrow> bool" where
  "trusted_route config k route \<longleftrightarrow>
     member (jr_header route) ''kid'' = J_Text (vk_key_id k) \<and> member (jr_header route) ''alg'' = J_Text (vk_algorithm k) \<and>
     vk_algorithm k \<in> vc_algorithms config \<and> vk_algorithm k \<noteq> ''none'' \<and>
     (\<forall>n\<in>forbidden_headers. \<not> has (jr_header route) n) \<and>
     (\<exists>token_type. member (jr_header route) ''typ'' = J_Text token_type \<and>
        text_lower token_type \<in> text_lower ` vc_token_types config) \<and>
     member (jr_payload route) ''iss'' = J_Text (vc_issuer config)"

lemma verified_token_lemma:
  assumes "build_verifier prepare ks config mech slot = Inr rv"
    "ring_verify reader check rv token (Aware t) s = (Inr (Auth_Ok login), s')"
  shows "\<exists>k\<in>set (kr_keys ks). \<exists>route key. route_of reader token = Some route \<and> trusted_route config k route \<and>
    vc_issuer config = kr_issuer ks \<and>
    prepare (vk_material k) (vk_algorithm k) = Inr key \<and> check key (vk_algorithm k) token s = (Signature_Good, s') \<and>
    normalize_audiences (member (jr_payload route) ''aud'') = Some (jc_audiences (au_claims login)) \<and>
    jc_audiences (au_claims login) \<inter> vc_audiences config \<noteq> {} \<and>
    member (jr_payload route) ''sub'' = (case jc_subject (au_claims login) of None \<Rightarrow> J_Null | Some i \<Rightarrow> J_Text i) \<and>
    complete_claims config (jr_payload route) (au_claims login) \<and> timely config (jr_payload route) (au_claims login) t \<and>
    ev_expires_at (au_evidence login) = Some (jc_expires_at (au_claims login)) \<and>
    ev_mechanism (au_evidence login) = mech \<and> ev_slot (au_evidence login) = slot \<and> au_grants login = no_grants"
proof -
  obtain route kid alg v where r: "route_of reader token = Some route" "member (jr_header route) ''kid'' = J_Text kid"
    "member (jr_header route) ''alg'' = J_Text alg" "dget (rv_verifiers rv) (kid, alg) = Some v"
    "verify_token reader check v token (Aware t) s = (Inr (Auth_Ok login), s')"
    using assms(2) by (auto simp: ring_verify_def split: option.splits json.splits)
  obtain k kc where k: "k \<in> set (kr_keys ks)" "vk_key_id k = kid" "vk_algorithm k = alg" "alg \<in> vc_algorithms config"
    "validation_config_post_init (config\<lparr>vc_algorithms := {alg}\<rparr>) = Inr kc"
    "v = \<lparr>jv_config = kc, jv_key = vk_material k, jv_prepare = prepare, jv_require_key_id = True, jv_mechanism = mech,
      jv_slot = slot, jv_maximum_bytes = default_token_bytes\<rparr>" "vc_issuer config = kr_issuer ks"
    "is_strict_identifier mech" "is_strict_identifier slot"
    by (rule build_verifier_from [OF assms(1) r(4)])
  obtain route' alg' key where v: "route_of reader token = Some route'"
    "validate_header (jr_header route') kc True = Some alg'"
    "normalize_claims (jr_payload route') kc t = Some (au_claims login)"
    "prepare (vk_material k) alg' = Inr key" "check key alg' token s = (Signature_Good, s')"
    "token_evidence v t (au_claims login) = Inr (au_evidence login)" "au_grants login = no_grants"
    using verify_token_Ok [OF r(5)] unfolding k(6) route_of_def by simp blast
  have same: "route' = route" "alg' = alg"
    using r(1,3) v(1) validate_header_Some(1) [OF v(2)] by simp_all
  note kc = key_config_fields [OF k(5)] and h = validate_header_Some [OF v(2)] and c = normalize_claims_Some [OF v(3)]
  have "trusted_route config k route"
    using r(2,3) k(2-4) h(3-5) c(1) kc(1,6) unfolding same by (simp add: trusted_route_def)
  moreover have "timely config (jr_payload route) (au_claims login) t"
    using c(6) kc(4,5) unfolding same by (simp add: timely_def)
  moreover have "complete_claims config (jr_payload route) (au_claims login)"
    using c(7) kc(7-9) unfolding same by (auto simp: complete_claims_def)
  moreover have "au_evidence login = \<lparr>ev_mechanism = mech, ev_slot = slot, ev_authenticated_at = t,
      ev_expires_at = Some (jc_expires_at (au_claims login)), ev_methods = {}, ev_traits = {}, ev_acr = None, ev_amr = []\<rparr>"
    using v(6) evidence_accepted [OF identifier_trimmed [OF k(8)] identifier_trimmed [OF k(9)], of "{}" "{}" "[]" t]
    by (simp add: token_evidence_def k(6))
  ultimately show ?thesis
    using r(1) k(1,3,7) v(4,5,7) c(3-5) kc(2) unfolding same by (intro bexI [of _ k] exI [of _ route] exI [of _ key]) simp_all
qed


text \<open>C17: A verified token is trusted: whatever a key-set verifier accepts names, in its protected header, a
  configured key and that key's own algorithm, verified under that key, is of an accepted type without
  a forbidden header, is issued by the configured issuer for one of its audiences, has every claim the
  profile requires, and is in its window: its integer dates put, with the skew, the time of the request not
  before the issuing, not before the not-before when there is one, before the expiry, and the lifetime
  is within the maximum. The login carries its audiences, subject and dates, and grants nothing.\<close>

theorem verified_token_is_trusted:
  assumes "build_verifier prepare ks config mech slot = Inr rv"
    "ring_verify reader check rv token (Aware t) s = (Inr (Auth_Ok login), s')"
  shows "\<exists>k\<in>set (kr_keys ks). \<exists>route key. route_of reader token = Some route \<and> trusted_route config k route \<and>
    vc_issuer config = kr_issuer ks \<and>
    prepare (vk_material k) (vk_algorithm k) = Inr key \<and> check key (vk_algorithm k) token s = (Signature_Good, s') \<and>
    normalize_audiences (member (jr_payload route) ''aud'') = Some (jc_audiences (au_claims login)) \<and>
    jc_audiences (au_claims login) \<inter> vc_audiences config \<noteq> {} \<and>
    member (jr_payload route) ''sub'' = (case jc_subject (au_claims login) of None \<Rightarrow> J_Null | Some i \<Rightarrow> J_Text i) \<and>
    complete_claims config (jr_payload route) (au_claims login) \<and> timely config (jr_payload route) (au_claims login) t \<and>
    ev_expires_at (au_evidence login) = Some (jc_expires_at (au_claims login)) \<and>
    ev_mechanism (au_evidence login) = mech \<and> ev_slot (au_evidence login) = slot \<and> au_grants login = no_grants"
  by (rule verified_token_lemma [OF assms])


section \<open>Examples\<close>

definition example_active_account :: "unit account" where
  "example_active_account = example_account\<lparr>acc_verified := True\<rparr>"

definition example_password_proof :: evidence where
  "example_password_proof = \<lparr>ev_mechanism = ''password'', ev_slot = ''local'', ev_authenticated_at = seconds 900, ev_expires_at = None,
     ev_methods = {''pwd''}, ev_traits = {}, ev_acr = None, ev_amr = []\<rparr>"

definition example_signing_key :: "(nat, nat, unit) signing_key" where
  "example_signing_key = \<lparr>sk_key_id = ''k1'', sk_algorithm = ''HS256'', sk_private = 5, sk_verification = 6, sk_public_jwk = None\<rparr>"

definition example_ring :: "(nat, nat, unit) key_ring" where
  "example_ring = \<lparr>lr_issuer = ''iss'', lr_active = example_signing_key, lr_retained = []\<rparr>"

definition example_compact_token :: string where
  "example_compact_token = ''AAAA.AQAB.AAAA''"

definition example_payload :: json_object where
  "example_payload =
     [(''iss'', J_Text ''iss''), (''sub'', J_Text ''u1''), (''aud'', J_Text ''api''), (''exp'', J_Int 1060), (''iat'', J_Int 1000),
      (''client_id'', J_Text ''web''), (''jti'', J_Text ''t1''), (''se'', J_Int 1), (''scope'', J_Text ''read''),
      (''amr'', J_List [J_Text ''pwd'']), (''auth_time'', J_Int 900)]"

definition example_encode :: "(unit, nat) token_encoder" where
  "example_encode payload key alg headers s =
     (if payload = example_payload \<and> key = 5 then (Some example_compact_token, s) else (None, s))"

definition example_reader :: json_reader where
  "example_reader b =
     (if b = [0, 0, 0] then Some (J_Object (protected_header example_signing_key ''at+jwt''))
      else if b = [1, 0, 1] then Some (J_Object example_payload) else None)"

definition example_check :: "(unit, nat) signature_check" where
  "example_check key alg token s = (if key = 6 \<and> token = example_compact_token then Signature_Good else Signature_Bad, s)"

definition example_access_issuer :: "unit access_token_issuer" where
  "example_access_issuer = \<lparr>ai_sign = sign_local example_encode example_ring, ai_issuer = ''iss'', ai_audience = ''api'',
     ai_client_id = ''web'', ai_lifetime = seconds 60, ai_clock = pure (Aware 0), ai_token_ids = pure ''t1''\<rparr>"

definition example_profile :: validation_config where
  "example_profile = \<lparr>vc_issuer = ''iss'', vc_audiences = {''api''}, vc_algorithms = {''HS256''}, vc_required = {''se''},
     vc_access_profile = True, vc_subject_required = True, vc_skew = seconds 5, vc_maximum_lifetime = None,
     vc_token_types = {''at+jwt''}\<rparr>"

lemmas example_access = example_active_account_def example_account_def example_password_proof_def example_signing_key_def example_ring_def
  example_access_issuer_def example_profile_def

lemma example_plain_names:
  "is_strict_identifier ''iss''" "is_strict_identifier ''api''" "is_strict_identifier ''web''" "is_strict_identifier ''u1''"
  "is_strict_identifier ''t1''" "is_strict_identifier ''k1''" "is_strict_identifier ''se''" "is_strict_identifier ''at+jwt''"
  "is_strict_identifier ''pwd''" "is_strict_identifier ''bearer''" "is_strict_identifier ''main''" "is_scope_token ''read''"
  "strict_claim_text ''pwd''" "strict_claim_text ''iss''" "strict_claim_text ''api''" "strict_claim_text ''web''"
  by code_simp+

lemma example_compact: "valid_compact_access_token example_compact_token" "is_ascii example_compact_token"
  "split_on (CHR ''.'') example_compact_token = [''AAAA'', ''AQAB'', ''AAAA'']" "length example_compact_token = 14"
  "decode_base64url ''AAAA'' = Inr [0, 0, 0]" "decode_base64url ''AQAB'' = Inr [1, 0, 1]"
  by code_simp+

definition example_prepare :: "nat \<Rightarrow> string \<Rightarrow> nat result" where
  "example_prepare m alg = Inr m"

definition example_key_config :: validation_config where
  "example_key_config = example_profile\<lparr>vc_required := {''se'', ''iss'', ''aud'', ''exp'', ''iat'', ''sub'', ''client_id'', ''jti''}\<rparr>"

definition example_key_verifier :: "(nat, nat) jwt_verifier" where
  "example_key_verifier = \<lparr>jv_config = example_key_config, jv_key = 6, jv_prepare = example_prepare, jv_require_key_id = True,
     jv_mechanism = ''bearer'', jv_slot = ''main'', jv_maximum_bytes = default_token_bytes\<rparr>"

definition example_verifier :: "(nat, nat) ring_verifier" where
  "example_verifier = \<lparr>rv_config = example_profile, rv_verifiers = [((''k1'', ''HS256''), example_key_verifier)]\<rparr>"

lemma example_key_config: "validation_config_post_init (example_profile\<lparr>vc_algorithms := {''HS256''}\<rparr>) = Inr example_key_config"
  using example_plain_names
  by (auto simp: validation_config_post_init_def strict_identifier_def strict_identifiers_def example_key_config_def
      example_profile_def Let_def supported_algorithms_def seconds_def lower_token_type)

lemma example_ring_built:
  "build_verifier example_prepare (verification_key_set example_ring) example_profile ''bearer'' ''main'' = Inr example_verifier"
  "ring_build_verifier example_prepare example_ring example_profile ''bearer'' ''main'' = Inr example_verifier"
proof -
  have "key_verifier example_prepare example_profile ''bearer'' ''main'' (as_verification_key example_signing_key) =
      Inr example_key_verifier"
    using example_plain_names example_key_config
    by (simp add: key_verifier_def as_verification_key_def jwt_verifier_post_init_def strict_identifier_def
        example_key_verifier_def example_prepare_def default_token_bytes_def example_signing_key_def example_key_config_def
        example_profile_def)
  then show "build_verifier example_prepare (verification_key_set example_ring) example_profile ''bearer'' ''main'' =
      Inr example_verifier"
    using example_plain_names
    by (simp add: build_verifier_def verification_key_set_def example_ring_def strict_identifier_def example_verifier_def
        as_verification_key_def example_profile_def example_signing_key_def dict_simps)
  then show "ring_build_verifier example_prepare example_ring example_profile ''bearer'' ''main'' = Inr example_verifier"
    by (simp add: ring_build_verifier_def example_profile_def example_ring_def example_signing_key_def)
qed

lemma example_route:
  "route_of example_reader example_compact_token =
     Some \<lparr>jr_header = freeze_members (protected_header example_signing_key ''at+jwt''), jr_payload = freeze_members example_payload\<rparr>"
proof -
  have "hooked (J_Object (protected_header example_signing_key ''at+jwt'')) = Inr (J_Object (protected_header example_signing_key ''at+jwt''))"
    "hooked (J_Object example_payload) = Inr (J_Object example_payload)"
    "validate_depth 32 (J_Object (protected_header example_signing_key ''at+jwt''))" "validate_depth 32 (J_Object example_payload)"
    by code_simp+
  then show ?thesis
    using example_compact
    by (simp add: route_of_def parse_unverified_jwt_route_def decode_json_segment_def example_reader_def
        default_token_bytes_def default_json_depth_def)
qed

lemma example_library:
  "library_signs example_reader example_check (example_prepare (sk_verification example_signing_key)
     (sk_algorithm example_signing_key)) example_encode example_signing_key ''at+jwt''"
  using example_compact
  by (auto simp: library_signs_def compact_token_def read_segment_def example_reader_def example_encode_def example_check_def example_prepare_def example_signing_key_def
      split: if_splits)

lemma example_access_issued:
  "issue_access_token example_access_issuer example_active_account {''read''} (Some example_password_proof) (Some (Aware (seconds 1000))) () =
     (Verified \<lparr>lat_access_token = example_compact_token, lat_expires_in = 60\<rparr>, ())"
proof -
  have built: "build_access_token_claims []
      (access_request_of example_access_issuer example_active_account {''read''} (Some example_password_proof) ''t1'') (Aware (seconds 1000)) =
    Inr example_payload"
    using example_plain_names
    by (simp add: build_access_token_claims_def access_request_of_def example_access strict_value_eq collect_set_def
        seconds_def whole_seconds_def optional_claims_def example_payload_def optional_result_def)
  have "validate_local_access_claims example_payload ''iss'' (seconds 1000) = Inr example_payload"
    by code_simp
  then have sign: "ai_sign example_access_issuer example_payload (Aware (seconds 1000)) () = (Inr example_compact_token, ())"
    by (simp add: sign_local_def run_ok example_access example_encode_def call_def)
  show ?thesis
    using built sign example_compact
    by (simp add: issue_access_token_def example_access call_def sanitized_def local_access_token_post_init_def seconds_def)
qed

abbreviation example_access_request :: "string \<Rightarrow> access_request" where
  "example_access_request \<equiv> access_request_of example_access_issuer example_active_account {''read''} (Some example_password_proof)"

lemma example_issuer_ok:
  "access_token_issuer_post_init example_access_issuer = Inr example_access_issuer"
  "ai_sign example_access_issuer = sign_local example_encode example_ring"
  using example_plain_names
  by (simp_all add: access_token_issuer_post_init_def validate_access_token_lifetime_def example_access_issuer_def seconds_def)

lemma example_ring_ok:
  "key_ring_post_init example_ring = Inr example_ring" "usable_key (lr_active example_ring)"
  "lr_active example_ring = example_signing_key"
  using example_plain_names
  by (simp_all add: key_ring_post_init_def key_set_post_init_def verification_key_set_def example_ring_def
      strict_identifier_def usable_key_def supported_algorithms_def example_signing_key_def)

lemma example_request_ok: "accepts_request example_profile (example_access_request j)" "readable_assurance (example_access_request j)"
proof -
  show "accepts_request example_profile (example_access_request j)"
    by (simp add: accepts_request_def access_request_of_def example_access local_required_claims_def)
  show "readable_assurance (example_access_request j)"
    using example_plain_names(13)
    by (simp add: readable_assurance_def kept_methods_def access_request_of_def example_access seconds_def whole_seconds_def
        from_timestamp_def)
qed

lemma example_request_finite: "finite (aq_methods (example_access_request j))" "finite (aq_traits (example_access_request j))"
  by (simp_all add: access_request_of_def example_access)

lemma example_window:
  "window example_profile (jc_issued_at (claims_of (example_access_request j) j (seconds 1000)))
     (jc_expires_at (claims_of (example_access_request j) j (seconds 1000))) t \<longleftrightarrow> seconds 995 \<le> t \<and> t < seconds 1065"
  by (auto simp: claims_of_simps access_request_of_def example_access window_def whole_seconds_def seconds_def)

lemma example_times: "0 \<le> seconds 1000" "seconds 1000 + ai_lifetime example_access_issuer < seconds 253402300800"
  by (simp_all add: seconds_def example_access_issuer_def)

lemma example_ring_library: "library_signs example_reader example_check (example_prepare (sk_verification (lr_active example_ring))
     (sk_algorithm (lr_active example_ring))) example_encode (lr_active example_ring) ''at+jwt''"
  using example_library by (simp add: example_ring_ok(3))

lemmas example_issuance = example_issuer_ok example_ring_ok(1,2) example_ring_built(2) example_ring_library example_access_issued
  example_request_ok(1) example_request_finite finite.insertI [OF finite.emptyI] example_times

theorem issued_access_token_logs_in_witness:
  "\<exists>j. fst (local_access_verify (ring_verify example_reader example_check example_verifier) example_compact_token
       (Aware (seconds 1030)) ()) =
     Inr (Auth_Ok (local_login ''bearer'' ''main'' (example_access_request j) j (seconds 1000))) \<and>
   fst (local_access_verify (ring_verify example_reader example_check example_verifier) example_compact_token
       (Aware (seconds 1065)) ()) = Inr Auth_Invalid"
proof -
  obtain j where j: "\<forall>t u. \<exists>u'. local_access_verify (ring_verify example_reader example_check example_verifier) example_compact_token
      (Aware t) u = (Inr (if seconds 995 \<le> t \<and> t < seconds 1065
         then Auth_Ok (local_login ''bearer'' ''main'' (example_access_request j) j (seconds 1000)) else Auth_Invalid), u')"
    using issued_access_token_logs_in [OF example_issuance]
    unfolding Let_def example_window local_access_token.simps eqTrueI [OF example_request_ok(2)] simp_thms by blast
  show ?thesis
    using j [THEN spec, of "seconds 1030", THEN spec, of "()"] j [THEN spec, of "seconds 1065", THEN spec, of "()"]
    by (intro exI [of _ j]) (auto simp: seconds_def)
qed

theorem verified_token_is_trusted_witness:
  "\<exists>k :: (nat, unit) verification_key. trusted_route example_profile k \<lparr>jr_header = freeze_members (protected_header example_signing_key ''at+jwt''),
     jr_payload = freeze_members example_payload\<rparr>"
proof -
  obtain j where "\<forall>t u. \<exists>u'. local_access_verify (ring_verify example_reader example_check example_verifier) example_compact_token
      (Aware t) u = (Inr (if seconds 995 \<le> t \<and> t < seconds 1065
         then Auth_Ok (local_login ''bearer'' ''main'' (example_access_request j) j (seconds 1000)) else Auth_Invalid), u')"
    using issued_token_verifies [OF example_issuance]
    unfolding Let_def example_window local_access_token.simps eqTrueI [OF example_request_ok(2)] simp_thms by blast
  then have "fst (local_access_verify (ring_verify example_reader example_check example_verifier) example_compact_token
      (Aware (seconds 1030)) ()) =
    Inr (Auth_Ok (local_login ''bearer'' ''main'' (example_access_request j) j (seconds 1000)))"
    by (elim allE [of _ "seconds 1030"] allE [of _ "()"]) (auto simp: seconds_def)
  then obtain login s' where "ring_verify example_reader example_check example_verifier example_compact_token (Aware (seconds 1030)) () =
      (Inr (Auth_Ok login), s')"
    by (cases "ring_verify example_reader example_check example_verifier example_compact_token (Aware (seconds 1030)) ()")
      (auto simp: local_access_verify_def call_def split: sum.splits auth_outcome.splits)
  from verified_token_is_trusted [OF example_ring_built(1) this] show ?thesis
    using example_route by auto
qed

end
