(* ===== verification/JWT_Capabilities.thy ===== *)
theory JWT_Capabilities
  imports Access_Properties
begin

text \<open>
  Capability tokens (\<^verbatim>\<open>providers/jwt/_capabilities.py\<close> and the two methods of \<^verbatim>\<open>LocalKeyRing\<close>): copying the
  application's claims, the claim set, minting, verifying, and what a minted capability is good for.
\<close>

section \<open>Claims\<close>

text \<open>
  A dict never repeats a key and its keys are texts here; \<open>J_Tuple\<close> and \<open>J_Constant\<close> are a tuple and a
  float that is no number or infinite.
\<close>

fun copy_json :: "nat \<Rightarrow> json \<Rightarrow> json result"
  and copy_items :: "nat \<Rightarrow> json list \<Rightarrow> json list result"
  and copy_members :: "nat \<Rightarrow> json_object \<Rightarrow> json_object result" where
  "copy_json depth (J_Tuple vs) = Inl ValueError"
| "copy_json depth (J_Constant c) = Inl ValueError"
| "copy_json depth (J_Float x) = (if depth > 32 then Inl ValueError else if x = None then Inl ValueError else Inr (J_Float x))"
| "copy_json depth (J_List vs) =
     (if depth > 32 then Inl ValueError else bind (copy_items (depth + 1) vs) (\<lambda>ws. Inr (J_List ws)))"
| "copy_json depth (J_Object ms) =
     (if depth > 32 then Inl ValueError else bind (copy_members (depth + 1) ms) (\<lambda>ns. Inr (J_Object ns)))"
| "copy_json depth v = (if depth > 32 then Inl ValueError else Inr v)"
| "copy_items depth [] = Inr []"
| "copy_items depth (v # vs) = bind (copy_json depth v) (\<lambda>w. bind (copy_items depth vs) (\<lambda>ws. Inr (w # ws)))"
| "copy_members depth [] = Inr []"
| "copy_members depth ((k, v) # ms) =
     bind (copy_json depth v) (\<lambda>w. bind (copy_members depth ms) (\<lambda>ns. Inr ((k, w) # ns)))"

definition reserved_capability_claims :: "string set" where
  "reserved_capability_claims = {''iss'', ''sub'', ''aud'', ''exp'', ''iat'', ''nbf'', ''purpose'', ''jti''}"

definition required_capability_claims :: "string set" where
  "required_capability_claims = reserved_capability_claims - {''nbf''}"

definition capability_token_type :: string where
  "capability_token_type = ''capability+jwt''"

definition capability_maximum_lifetime :: time where
  "capability_maximum_lifetime = seconds 86400"

definition capability_clock_skew :: time where
  "capability_clock_skew = seconds 30"

definition build_capability_claims ::
  "string \<Rightarrow> string \<Rightarrow> string \<Rightarrow> string \<Rightarrow> string \<Rightarrow> time \<Rightarrow> json_object \<Rightarrow> py_datetime \<Rightarrow> json_object result" where
  "build_capability_claims generated issuer purpose subject audience lifetime claims clock_reading =
     bind (strict_identifier_value issuer) (\<lambda>issuer.
     bind (strict_identifier_value purpose) (\<lambda>purpose.
     bind (strict_identifier_value subject) (\<lambda>subject.
     bind (strict_identifier_value audience) (\<lambda>audience.
     bind (aware_utc_time clock_reading) (\<lambda>now.
       if lifetime \<le> 0 \<or> lifetime > capability_maximum_lifetime then Inl ValueError
       else if \<exists>n\<in>reserved_capability_claims. has claims n then Inl ValueError
       else
         let expires_at = now + lifetime
         in if whole_seconds expires_at \<le> whole_seconds now then Inl ValueError
            else
              bind (copy_members 1 claims) (\<lambda>copied.
              bind (strict_identifier_value generated) (\<lambda>token_id.
                Inr (copied @
                  [(''iss'', J_Text issuer), (''sub'', J_Text subject), (''aud'', J_Text audience),
                   (''exp'', J_Int (whole_seconds expires_at)), (''iat'', J_Int (whole_seconds now)),
                   (''purpose'', J_Text purpose), (''jti'', J_Text token_id)]))))))))"

section \<open>Verified capabilities\<close>

record verified_capability =
  vp_purpose :: string
  vp_subject :: string
  vp_audience :: string
  vp_issued_at :: time
  vp_expires_at :: time
  vp_token_id :: string
  vp_claims :: json_object

definition verified_capability_post_init :: "verified_capability \<Rightarrow> verified_capability" where
  "verified_capability_post_init c = c\<lparr>vp_claims := freeze_members (vp_claims c)\<rparr>"

definition validate_capability_header :: "json_object \<Rightarrow> (string \<times> string) option" where
  "validate_capability_header header =
     (case (member header ''alg'', member header ''typ'', member header ''kid'') of
        (J_Text algorithm, J_Text token_type, J_Text key_id) \<Rightarrow>
          if algorithm \<notin> supported_algorithms \<or> algorithm = ''none'' \<or> token_type \<noteq> capability_token_type \<or>
             \<not> is_strict_identifier key_id \<or> (\<exists>n\<in>forbidden_headers. has header n)
          then None else Some (algorithm, key_id)
      | _ \<Rightarrow> None)"

text \<open>
  \<^verbatim>\<open>datetime.fromtimestamp(x, tz=utc)\<close> rounds a float to the nearest microsecond, halves to even (the
  scaling of the fraction is exact for every instant after the first five hours of 1970).
\<close>

definition round_half_even :: "rat \<Rightarrow> int" where
  "round_half_even x =
     (let n = floor x; d = x - of_int n
      in if d < 1 / 2 then n else if d > 1 / 2 then n + 1 else if even n then n else n + 1)"

definition float_timestamp :: "rat \<Rightarrow> time option" where
  "float_timestamp x =
     (let t = round_half_even (x * 1000000)
      in if seconds (-62135596800) \<le> t \<and> t < seconds 253402300800 then Some t else None)"

definition capability_date :: "json \<Rightarrow> time option" where
  "capability_date v = (case v of J_Int n \<Rightarrow> from_timestamp n | J_Float (Some x) \<Rightarrow> float_timestamp x | _ \<Rightarrow> None)"

definition capability_times :: "json_object \<Rightarrow> (time \<times> time \<times> time option) option" where
  "capability_times payload =
     (case (capability_date (member payload ''iat''), capability_date (member payload ''exp'')) of
        (Some issued_at, Some expires_at) \<Rightarrow>
          if member payload ''nbf'' = J_Null then Some (issued_at, expires_at, None)
          else map_option (\<lambda>t. (issued_at, expires_at, Some t)) (capability_date (member payload ''nbf''))
      | _ \<Rightarrow> None)"

definition capability_identity :: "json_object \<Rightarrow> string \<Rightarrow> string \<Rightarrow> string \<Rightarrow> (string \<times> string) option" where
  "capability_identity payload purpose audience issuer =
     (case (member payload ''iss'', member payload ''sub'', member payload ''aud'', member payload ''purpose'',
            member payload ''jti'') of
        (J_Text claim_issuer, J_Text subject, J_Text claim_audience, J_Text claim_purpose, J_Text token_id) \<Rightarrow>
          if is_strict_identifier claim_issuer \<and> is_strict_identifier subject \<and> is_strict_identifier claim_audience \<and>
             is_strict_identifier claim_purpose \<and> is_strict_identifier token_id \<and>
             claim_issuer = issuer \<and> claim_audience = audience \<and> claim_purpose = purpose
          then Some (subject, token_id) else None
      | _ \<Rightarrow> None)"

definition normalize_capability_claims ::
  "json_object \<Rightarrow> string \<Rightarrow> string \<Rightarrow> string \<Rightarrow> py_datetime \<Rightarrow> verified_capability option" where
  "normalize_capability_claims payload purpose audience issuer clock_reading =
     (case aware_utc_time clock_reading of
        Inl e \<Rightarrow> None
      | Inr now \<Rightarrow>
          if \<not> (\<forall>n\<in>required_capability_claims. has payload n) then None
          else (case (capability_identity payload purpose audience issuer, capability_times payload) of
              (Some (subject, token_id), Some (issued_at, expires_at, not_before)) \<Rightarrow>
                if \<not> in_window capability_clock_skew (Some capability_maximum_lifetime) now (issued_at, expires_at, not_before)
                then None
                else Some (verified_capability_post_init
                  \<lparr>vp_purpose = purpose, vp_subject = subject, vp_audience = audience, vp_issued_at = issued_at,
                   vp_expires_at = expires_at, vp_token_id = token_id,
                   vp_claims = filter (\<lambda>(n, v). n \<notin> reserved_capability_claims) payload\<rparr>)
            | _ \<Rightarrow> None))"

section \<open>The key ring's operations\<close>

definition mint_capability ::
  "('s, 'sk) token_encoder \<Rightarrow> ('sk, 'm, 'j) key_ring \<Rightarrow> string \<Rightarrow> time \<Rightarrow> string \<Rightarrow> string \<Rightarrow> string \<Rightarrow> time \<Rightarrow>
     json_object \<Rightarrow> ('s, string) port" where
  "mint_capability encode r generated now purpose subject audience lifetime claims =
     call (lift_result (build_capability_claims generated (lr_issuer r) purpose subject audience lifetime claims (Aware now)))
       (\<lambda>payload s.
          case encode payload (sk_private (lr_active r)) (sk_algorithm (lr_active r))
                 (signing_headers (lr_active r) capability_token_type) s of
            (None, s') \<Rightarrow> (Inl RuntimeError, s')
          | (Some token, s') \<Rightarrow> (Inr token, s'))"

text \<open>\<open>prepared\<close> is \<^verbatim>\<open>prepared_verification_key\<close>: what a key was prepared to when it was built.\<close>

definition verify_capability ::
  "json_reader \<Rightarrow> ('s, 'k) signature_check \<Rightarrow> (('m, 'j) verification_key \<Rightarrow> 'k) \<Rightarrow> ('sk, 'm, 'j) key_ring \<Rightarrow> string \<Rightarrow>
     string \<Rightarrow> string \<Rightarrow> py_datetime \<Rightarrow> 's \<Rightarrow> verified_capability verdict \<times> 's" where
  "verify_capability reader check prepared r raw purpose audience now s =
     (case now of
        Naive _ \<Rightarrow> (Invalid_Credentials, s)
      | Aware t \<Rightarrow>
          (case route_of reader raw of
             None \<Rightarrow> (Invalid_Credentials, s)
           | Some route \<Rightarrow>
               (case validate_capability_header (jr_header route) of
                  None \<Rightarrow> (Invalid_Credentials, s)
                | Some (algorithm, key_id) \<Rightarrow>
                    (case filter (\<lambda>k. vk_key_id k = key_id \<and> vk_algorithm k = algorithm) (kr_keys (verification_key_set r)) of
                       [] \<Rightarrow> (Invalid_Credentials, s)
                     | k # _ \<Rightarrow>
                         (case check (prepared k) algorithm raw s of
                            (Signature_Bad, s') \<Rightarrow> (Invalid_Credentials, s')
                          | (Signature_Failed, s') \<Rightarrow> (Verification_Unavailable, s')
                          | (Signature_Good, s') \<Rightarrow>
                              (case normalize_capability_claims (jr_payload route) purpose audience (lr_issuer r) (Aware t) of
                                 None \<Rightarrow> (Invalid_Credentials, s')
                               | Some capability \<Rightarrow> (Verified capability, s')))))))"

section \<open>What is copied\<close>

text \<open>Dicts at every level: no key is repeated.\<close>

fun python_json :: "json \<Rightarrow> bool" where
  "python_json (J_Tuple vs) = list_all python_json vs"
| "python_json (J_List vs) = list_all python_json vs"
| "python_json (J_Object ms) = (distinct (map fst ms) \<and> list_all (\<lambda>m. python_json (snd m)) ms)"
| "python_json v = True"

lemma copy_json_Inr:
  "copy_json d v = Inr w \<Longrightarrow> w = v \<and> d + json_depth v \<le> 33 \<and> (python_json v \<longrightarrow> plain_json v)"
  "copy_items d vs = Inr ws \<Longrightarrow> ws = vs \<and> (\<forall>v\<in>set vs. d + json_depth v \<le> 33) \<and>
     (list_all python_json vs \<longrightarrow> list_all plain_json vs)"
  "copy_members d ms = Inr ns \<Longrightarrow> ns = ms \<and> (\<forall>m\<in>set ms. d + json_depth (snd m) \<le> 33) \<and>
     (list_all (\<lambda>m. python_json (snd m)) ms \<longrightarrow> list_all (\<lambda>m. plain_json (snd m)) ms)"
proof (induction d v and d vs and d ms arbitrary: w and ws and ns rule: copy_json_copy_items_copy_members.induct)
  case (4 depth vs)
  then show ?case
    using json_depth_le [of depth "J_List vs" 32] by (auto simp: bind_eq_Inr split: if_splits)
next
  case (5 depth ms)
  then show ?case
    using json_depth_le [of depth "J_Object ms" 32] by (auto simp: bind_eq_Inr split: if_splits)
qed (auto simp: bind_eq_Inr split: if_splits)

lemma copy_json_accepts:
  "plain_json v \<Longrightarrow> d + json_depth v \<le> 33 \<Longrightarrow> copy_json d v = Inr v"
  "list_all plain_json vs \<Longrightarrow> \<forall>v\<in>set vs. d + json_depth v \<le> 33 \<Longrightarrow> copy_items d vs = Inr vs"
  "list_all (\<lambda>m. plain_json (snd m)) ms \<Longrightarrow> \<forall>m\<in>set ms. d + json_depth (snd m) \<le> 33 \<Longrightarrow> copy_members d ms = Inr ms"
proof (induction d v and d vs and d ms rule: copy_json_copy_items_copy_members.induct)
  case (4 depth vs)
  then show ?case
    using json_depth_le [of depth "J_List vs" 32] by simp
next
  case (5 depth ms)
  then show ?case
    using json_depth_le [of depth "J_Object ms" 32] by simp
qed simp_all

section \<open>What a minted capability is good for\<close>

abbreviation capability_base :: "string \<Rightarrow> string \<Rightarrow> string \<Rightarrow> string \<Rightarrow> string \<Rightarrow> time \<Rightarrow> time \<Rightarrow> json_object" where
  "capability_base token_id issuer purpose subject audience lifetime now \<equiv>
     [(''iss'', J_Text issuer), (''sub'', J_Text subject), (''aud'', J_Text audience),
      (''exp'', J_Int (whole_seconds (now + lifetime))), (''iat'', J_Int (whole_seconds now)),
      (''purpose'', J_Text purpose), (''jti'', J_Text token_id)]"

lemma build_capability_Inr:
  assumes "build_capability_claims generated issuer purpose subject audience lifetime claims (Aware now) = Inr d"
  shows "d = claims @ capability_base generated issuer purpose subject audience lifetime now"
    and "\<forall>v\<in>{issuer, purpose, subject, audience, generated}. is_strict_identifier v"
    and "\<forall>n\<in>reserved_capability_claims. \<not> has claims n"
    and "lifetime \<le> seconds 86400" "0 < lifetime" "whole_seconds now < whole_seconds (now + lifetime)"
    and "list_all (\<lambda>m. python_json (snd m)) claims \<longrightarrow> list_all (\<lambda>m. plain_json (snd m)) claims"
  using assms copy_json_Inr(3) [of 1 claims]
  by (auto simp: build_capability_claims_def bind_eq_Inr Let_def strict_value_eq capability_maximum_lifetime_def
      split: if_splits)

lemma reserved_member:
  assumes "\<forall>n\<in>reserved_capability_claims. \<not> has claims n" "n \<in> reserved_capability_claims"
  shows "member (claims @ base) n = member base n" "has (claims @ base) n = has base n"
  using assms by (auto simp: member_def has_def map_add_def split: option.splits)

definition capability_of :: "string \<Rightarrow> string \<Rightarrow> string \<Rightarrow> string \<Rightarrow> time \<Rightarrow> json_object \<Rightarrow> time \<Rightarrow> verified_capability" where
  "capability_of token_id purpose subject audience lifetime claims now =
     \<lparr>vp_purpose = purpose, vp_subject = subject, vp_audience = audience, vp_issued_at = seconds (whole_seconds now),
      vp_expires_at = seconds (whole_seconds (now + lifetime)), vp_token_id = token_id, vp_claims = freeze_members claims\<rparr>"

lemma application_claims:
  assumes "\<forall>n\<in>reserved_capability_claims. \<not> has claims n"
  shows "filter (\<lambda>(n, v). n \<notin> reserved_capability_claims)
    (freeze_members (claims @ capability_base i iss p s a l now)) = freeze_members claims"
proof -
  have "n \<notin> reserved_capability_claims" if "(n, v) \<in> set claims" for n v
    using that assms by (force simp: has_def map_of_eq_None_iff)
  then have "filter (\<lambda>(n, v). n \<notin> reserved_capability_claims) (freeze_members claims) = freeze_members claims"
    by (intro filter_True) (fastforce simp: freeze_members_def)
  then show ?thesis
    by (simp add: freeze_members_def reserved_capability_claims_def)
qed

lemma normalize_capability:
  assumes build: "build_capability_claims generated issuer purpose subject audience lifetime claims (Aware now) = Inr d"
    and times: "0 \<le> now" "now + lifetime < seconds 253402300800"
  shows "normalize_capability_claims (freeze_members d) purpose' audience' issuer (Aware t) =
    (if purpose' = purpose \<and> audience' = audience \<and> seconds (whole_seconds now) \<le> t + seconds 30 \<and>
        t - seconds 30 < seconds (whole_seconds (now + lifetime))
     then Some (capability_of generated purpose subject audience lifetime claims now) else None)"
proof -
  note b = build_capability_Inr [OF build]
  let ?base = "capability_base generated issuer purpose subject audience lifetime now"
  let ?iat = "whole_seconds now" and ?exp = "whole_seconds (now + lifetime)"
  have reserved: "n \<in> reserved_capability_claims" if "n \<in> {''iss'', ''sub'', ''aud'', ''exp'', ''iat'', ''nbf'', ''purpose'', ''jti''}" for n
    using that by (simp add: reserved_capability_claims_def)
  have members: "member (freeze_members d) n = freeze_json (member ?base n)" "has (freeze_members d) n = has ?base n"
    if "n \<in> reserved_capability_claims" for n
    unfolding b(1) member_freeze has_freeze by (simp_all only: reserved_member [OF b(3) that])
  have "freeze_json (member ?base ''iss'') = J_Text issuer" "freeze_json (member ?base ''sub'') = J_Text subject"
    "freeze_json (member ?base ''aud'') = J_Text audience" "freeze_json (member ?base ''purpose'') = J_Text purpose"
    "freeze_json (member ?base ''jti'') = J_Text generated" "freeze_json (member ?base ''iat'') = J_Int ?iat"
    "freeze_json (member ?base ''exp'') = J_Int ?exp" "freeze_json (member ?base ''nbf'') = J_Null"
    by (simp_all add: member_def)
  then have named: "member (freeze_members d) ''iss'' = J_Text issuer" "member (freeze_members d) ''sub'' = J_Text subject"
    "member (freeze_members d) ''aud'' = J_Text audience" "member (freeze_members d) ''purpose'' = J_Text purpose"
    "member (freeze_members d) ''jti'' = J_Text generated" "member (freeze_members d) ''iat'' = J_Int ?iat"
    "member (freeze_members d) ''exp'' = J_Int ?exp" "member (freeze_members d) ''nbf'' = J_Null"
    by (simp_all add: members(1) [OF reserved] del: member_freeze)
  have required: "\<forall>n\<in>required_capability_claims. has (freeze_members d) n"
  proof
    fix n
    assume n: "n \<in> required_capability_claims"
    then have "has (freeze_members d) n = has ?base n"
      by (intro members(2)) (simp add: required_capability_claims_def)
    also have "has ?base n"
      using n unfolding required_capability_claims_def reserved_capability_claims_def has_def by auto
    finally show "has (freeze_members d) n" .
  qed
  have identity: "capability_identity (freeze_members d) purpose' audience' issuer =
      (if purpose' = purpose \<and> audience' = audience then Some (subject, generated) else None)"
    using b(2) unfolding capability_identity_def named by auto
  have range: "0 \<le> ?iat" "?iat < ?exp" "?exp \<le> 253402300799" "?exp \<le> ?iat + 86400"
    using times b(4-6) by (auto simp: whole_seconds_def seconds_def)
  then have "from_timestamp ?iat = Some (seconds ?iat)" "from_timestamp ?exp = Some (seconds ?exp)"
    by (simp_all add: from_timestamp_def)
  then have dates: "capability_times (freeze_members d) = Some (seconds ?iat, seconds ?exp, None)"
    unfolding capability_times_def named by (simp add: capability_date_def)
  have window: "in_window capability_clock_skew (Some capability_maximum_lifetime) t (seconds ?iat, seconds ?exp, None) \<longleftrightarrow>
      seconds ?iat \<le> t + seconds 30 \<and> t - seconds 30 < seconds ?exp"
    using range by (auto simp: in_window_def capability_clock_skew_def capability_maximum_lifetime_def seconds_def)
  have "filter (\<lambda>(n, v). n \<notin> reserved_capability_claims) (freeze_members d) = freeze_members claims"
    unfolding b(1) by (rule application_claims [OF b(3)])
  then have capability: "verified_capability_post_init
      \<lparr>vp_purpose = purpose, vp_subject = subject, vp_audience = audience, vp_issued_at = seconds ?iat,
       vp_expires_at = seconds ?exp, vp_token_id = generated,
       vp_claims = filter (\<lambda>(n, v). n \<notin> reserved_capability_claims) (freeze_members d)\<rparr> =
      capability_of generated purpose subject audience lifetime claims now"
    by (simp add: verified_capability_post_init_def capability_of_def)
  show ?thesis
    using required capability by (auto simp: normalize_capability_claims_def identity dates window)
qed

lemma capability_header_valid:
  assumes "usable_key k"
  shows "validate_capability_header (freeze_members (protected_header k capability_token_type)) = Some (sk_algorithm k, sk_key_id k)"
proof -
  have "sk_algorithm k \<noteq> ''none''"
    using assms unfolding usable_key_def supported_algorithms_def by auto
  then show ?thesis
    using assms protected_not_forbidden [of _ k] unfolding validate_capability_header_def member_freeze protected_members has_freeze
    by (simp add: usable_key_def)
qed

lemma minted_capability_lemma:
  assumes minted: "mint_capability encode ring generated now purpose subject audience lifetime claims s = (Inr token, s')"
    and key: "usable_key (lr_active ring)"
    and library: "library_signs reader check (Inr (prepared (as_verification_key (lr_active ring)))) encode (lr_active ring)
      capability_token_type"
    and claims: "python_json (J_Object claims)" "json_depth (J_Object claims) \<le> 32"
    and token: "int (length token) \<le> default_token_bytes"
    and times: "0 \<le> now" "now + lifetime < seconds 253402300800"
  shows "\<exists>u'. verify_capability reader check prepared ring token purpose' audience' (Aware t) u =
    (if purpose' = purpose \<and> audience' = audience \<and> seconds (whole_seconds now) \<le> t + seconds 30 \<and>
        t - seconds 30 < seconds (whole_seconds (now + lifetime))
     then Verified (capability_of generated purpose subject audience lifetime claims now) else Invalid_Credentials, u')"
proof -
  let ?k = "lr_active ring"
  obtain d where d: "build_capability_claims generated (lr_issuer ring) purpose subject audience lifetime claims (Aware now) = Inr d"
    "encode d (sk_private ?k) (sk_algorithm ?k) (signing_headers ?k capability_token_type) s = (Some token, s')"
    using minted by (cases "build_capability_claims generated (lr_issuer ring) purpose subject audience lifetime claims (Aware now)")
      (auto simp: mint_capability_def call_def split: prod.splits option.splits)
  note b = build_capability_Inr [OF d(1)]
  have "fst ` set claims \<inter> reserved_capability_claims = {}"
    using b(3) by (auto simp: has_def map_of_eq_None_iff)
  then have plain: "plain_json (J_Object d)"
    using claims(1) b(7) unfolding b(1) by (auto simp: reserved_capability_claims_def)
  have depth: "json_depth (J_Object d) \<le> 32"
    using claims(2) unfolding b(1) by (auto simp: Max_le_iff)
  note law = library_signs_route [OF library plain depth d(2) token]
  obtain u' where u': "check (prepared (as_verification_key ?k)) (sk_algorithm ?k) token u = (Signature_Good, u')"
    using law(2) [OF refl, of u] by (cases "check (prepared (as_verification_key ?k)) (sk_algorithm ?k) token u") auto
  have "filter (\<lambda>k. vk_key_id k = sk_key_id ?k \<and> vk_algorithm k = sk_algorithm ?k) (kr_keys (verification_key_set ring)) =
      as_verification_key ?k # filter (\<lambda>k. vk_key_id k = sk_key_id ?k \<and> vk_algorithm k = sk_algorithm ?k) (lr_retained ring)"
    by (simp add: verification_key_set_def as_verification_key_def)
  then show ?thesis
    using normalize_capability [OF d(1) times] u'
    by (simp add: verify_capability_def law(1) capability_header_valid [OF key])
qed

section \<open>One level too deep\<close>

text \<open>
  Minting bounds the depth of each application claim by 32, verifying bounds the depth of the whole
  payload by 32: a claim of depth exactly 32 is accepted, signed, and never verifies.
\<close>

lemma deep_token_unreadable:
  assumes "compact_token reader token header payload" "plain_json (J_Object payload)" "32 < json_depth (J_Object payload)"
  shows "route_of reader token = None"
proof -
  obtain h p s where segments: "split_on (CHR ''.'') token = [h, p, s]" "read_segment reader p = Some (J_Object payload)"
    using assms(1) by (auto simp: compact_token_def split: list.splits)
  obtain raw where raw: "decode_base64url p = Inr raw" "reader raw = Some (J_Object payload)"
    using segments(2) by (auto simp: read_segment_def split: sum.splits)
  have "\<not> validate_depth 32 (J_Object payload)"
    using assms(3) unfolding validate_depth_def depth_scan_iff by (simp del: json_depth.simps)
  moreover have "hooked (J_Object payload) = Inr (J_Object payload)"
    by (rule hooked_plain(1) [OF assms(2)])
  ultimately have "decode_json_segment reader 32 p = Inl ValueError"
    unfolding decode_json_segment_def raw(1) bind_simps option.simps raw(2) by simp
  then show ?thesis
    using segments(1)
    by (auto simp: route_of_def parse_unverified_jwt_route_def default_json_depth_def split: sum.splits)
      (auto simp: bind_eq_Inr)
qed

lemma deep_capability_never_verifies:
  assumes "mint_capability encode ring generated now purpose subject audience lifetime claims s = (Inr token, s')"
    "library_signs reader check key encode (lr_active ring) capability_token_type"
    "python_json (J_Object claims)" "32 < json_depth (J_Object claims)"
  shows "verify_capability reader check prepared ring token purpose' audience' t u = (Invalid_Credentials, u)"
proof -
  let ?k = "lr_active ring"
  obtain d where d: "build_capability_claims generated (lr_issuer ring) purpose subject audience lifetime claims (Aware now) = Inr d"
    "encode d (sk_private ?k) (sk_algorithm ?k) (signing_headers ?k capability_token_type) s = (Some token, s')"
    using assms(1) by (cases "build_capability_claims generated (lr_issuer ring) purpose subject audience lifetime claims (Aware now)")
      (auto simp: mint_capability_def call_def split: prod.splits option.splits)
  note b = build_capability_Inr [OF d(1)]
  have "fst ` set claims \<inter> reserved_capability_claims = {}"
    using b(3) by (auto simp: has_def map_of_eq_None_iff)
  then have plain: "plain_json (J_Object d)"
    using assms(3) b(7) unfolding b(1) by (auto simp: reserved_capability_claims_def)
  have "json_depth (J_Object claims) \<le> json_depth (J_Object d)"
    unfolding b(1) by (auto intro!: Max_mono)
  then have "32 < json_depth (J_Object d)"
    using assms(4) by linarith
  moreover have "compact_token reader token (protected_header ?k capability_token_type) d"
    using assms(2) plain d(2) unfolding library_signs_def by blast
  ultimately have "route_of reader token = None"
    by (intro deep_token_unreadable [OF _ plain])
  then show ?thesis
    by (cases t) (simp_all add: verify_capability_def)
qed

lemma deep_claims_build:
  assumes "list_all (\<lambda>m. plain_json (snd m)) claims" "\<forall>m\<in>set claims. json_depth (snd m) \<le> 32"
    "\<forall>n\<in>reserved_capability_claims. \<not> has claims n"
    "\<forall>v\<in>{issuer, purpose, subject, audience, generated}. is_strict_identifier v"
    "0 < lifetime" "lifetime \<le> seconds 86400" "whole_seconds now < whole_seconds (now + lifetime)"
  shows "\<exists>d. build_capability_claims generated issuer purpose subject audience lifetime claims (Aware now) = Inr d"
  using assms copy_json_accepts(3) [of claims 1]
  by (auto simp: build_capability_claims_def strict_value_eq capability_maximum_lifetime_def)

section \<open>When a minted capability verifies\<close>

lemma long_token_unreadable: "default_token_bytes < int (length token) \<Longrightarrow> route_of reader token = None"
  by (simp add: route_of_def parse_unverified_jwt_route_def)

text \<open>C20: A minted capability verifies for its purpose and audience, in its window, and for nothing else: over
  a signing library that verifies what it signed, the key ring answers a capability it minted with
  exactly the application's claims, subject and window when both names match, the time is inside the
  window, widened by the thirty seconds of skew, and the capability is within the two limits of the parser
  that minting does not check, 32 levels of JSON for the application claims taken as one object and 16384 characters of
  token; it refuses it in every other case. The issuing time is between 1970 and the year 9999.\<close>

theorem minted_capability_verifies_exactly:
  assumes "mint_capability encode ring generated now purpose subject audience lifetime claims s = (Inr token, s')"
    "usable_key (lr_active ring)"
    "library_signs reader check (Inr (prepared (as_verification_key (lr_active ring)))) encode (lr_active ring)
       capability_token_type"
    "python_json (J_Object claims)" "0 \<le> now" "now + lifetime < seconds 253402300800"
  shows "\<exists>u'. verify_capability reader check prepared ring token purpose' audience' (Aware t) u =
    (if json_depth (J_Object claims) \<le> 32 \<and> int (length token) \<le> default_token_bytes \<and>
        purpose' = purpose \<and> audience' = audience \<and> seconds (whole_seconds now) \<le> t + seconds 30 \<and>
        t - seconds 30 < seconds (whole_seconds (now + lifetime))
     then Verified (capability_of generated purpose subject audience lifetime claims now) else Invalid_Credentials, u')"
proof (cases "json_depth (J_Object claims) \<le> 32 \<and> int (length token) \<le> default_token_bytes")
  case True
  then show ?thesis
    using minted_capability_lemma [where prepared = prepared, OF assms(1-4) _ _ assms(5,6)] by auto
next
  case False
  then consider "32 < json_depth (J_Object claims)" | "default_token_bytes < int (length token)"
    by (metis not_le)
  then have "verify_capability reader check prepared ring token purpose' audience' (Aware t) u = (Invalid_Credentials, u)"
  proof cases
    case 1
    show ?thesis by (rule deep_capability_never_verifies [OF assms(1,3,4) 1])
  next
    case 2
    then show ?thesis using long_token_unreadable [of token reader] by (simp add: verify_capability_def)
  qed
  then show ?thesis unfolding conj_assoc [symmetric] if_not_P [OF False] by (simp add: False del: json_depth.simps)
qed

section \<open>Example\<close>

definition example_capability_payload :: json_object where
  "example_capability_payload = [(''file'', J_List [J_Int 7])] @ capability_base ''t1'' ''iss'' ''web'' ''u1'' ''api'' (seconds 60) (seconds 1000)"

definition example_capability_encode :: "(unit, nat) token_encoder" where
  "example_capability_encode payload key alg headers s =
     (if payload = example_capability_payload \<and> key = 5 then Some example_compact_token else None, s)"

definition example_capability_reader :: json_reader where
  "example_capability_reader b =
     (if b = [0, 0, 0] then Some (J_Object (protected_header example_signing_key capability_token_type))
      else if b = [1, 0, 1] then Some (J_Object example_capability_payload) else None)"

theorem minted_capability_verifies_exactly_witness:
  "fst (verify_capability example_capability_reader example_check vk_material example_ring example_compact_token ''web'' ''api''
     (Aware (seconds 1030)) ()) =
   Verified (capability_of ''t1'' ''web'' ''u1'' ''api'' (seconds 60) [(''file'', J_List [J_Int 7])] (seconds 1000)) \<and>
   fst (verify_capability example_capability_reader example_check vk_material example_ring example_compact_token ''pwd'' ''api''
     (Aware (seconds 1030)) ()) = Invalid_Credentials"
proof -
  have build: "build_capability_claims ''t1'' ''iss'' ''web'' ''u1'' ''api'' (seconds 60) [(''file'', J_List [J_Int 7])]
      (Aware (seconds 1000)) = Inr example_capability_payload"
    using example_plain_names
    by (simp add: build_capability_claims_def strict_value_eq capability_maximum_lifetime_def seconds_def whole_seconds_def
        reserved_capability_claims_def has_def example_capability_payload_def)
  have mint: "mint_capability example_capability_encode example_ring ''t1'' (seconds 1000) ''web'' ''u1'' ''api'' (seconds 60)
      [(''file'', J_List [J_Int 7])] () = (Inr example_compact_token, ())"
    using build by (simp add: mint_capability_def example_access example_capability_encode_def call_def)
  have library: "library_signs example_capability_reader example_check
      (Inr (vk_material (as_verification_key (lr_active example_ring)))) example_capability_encode (lr_active example_ring)
      capability_token_type"
    using example_compact
    by (auto simp: library_signs_def compact_token_def read_segment_def example_capability_reader_def example_ring_ok(3)
        example_capability_encode_def example_check_def as_verification_key_def example_signing_key_def split: if_splits)
  have "python_json (J_Object [(''file'', J_List [J_Int 7])])" "0 \<le> seconds 1000"
    "seconds 1000 + seconds 60 < seconds 253402300800"
    by (simp_all add: seconds_def)
  note law = minted_capability_verifies_exactly [where prepared = vk_material, OF mint example_ring_ok(2) library this]
  show ?thesis
    using law [of "''web''" "''api''" "seconds 1030" "()"] law [of "''pwd''" "''api''" "seconds 1030" "()"] example_compact
    by (auto simp: seconds_def whole_seconds_def default_token_bytes_def)
qed

end
