(* ===== verification/JWK_Keys.thy ===== *)
theory JWK_Keys
  imports JWT_Capabilities "HOL-Library.Multiset"
begin

text \<open>
  Key material and its public form (\<^verbatim>\<open>providers/jwt/_keys.py\<close>), and the publication of a local key set
  (\<^verbatim>\<open>LocalJWKSConfig\<close> of \<^verbatim>\<open>providers/jwt/_keyring.py\<close>). Loading, converting and comparing keys is the
  cryptography and PyJWT libraries' and a parameter, \<open>key_library\<close>, with their checks of type and size.
\<close>

section \<open>Key material\<close>

text \<open>An HMAC secret stays the bytes it is; \<open>'k\<close> is a public key object, \<open>'p\<close> a private one.\<close>

datatype 'k prepared_key = Shared_Secret bytes | Public_Key 'k

datatype 'p prepared_signing_key = Signing_Secret bytes | Private_Key 'p

record ('k, 'p) key_library =
  kl_load_public :: "bytes \<Rightarrow> string \<Rightarrow> 'k option"
  kl_load_private :: "bytes \<Rightarrow> string \<Rightarrow> 'p option"
  kl_public_half :: "'p \<Rightarrow> 'k"
  kl_public_pem :: "'k \<Rightarrow> bytes"
  kl_public_der :: "'k \<Rightarrow> bytes"
  kl_to_jwk :: "'k \<Rightarrow> string \<Rightarrow> json_object"
  kl_from_jwk :: "json_object \<Rightarrow> string \<Rightarrow> 'k option"

definition minimum_hmac_bytes :: nat where
  "minimum_hmac_bytes = 32"

definition private_jwk_members :: "string set" where
  "private_jwk_members = {''d'', ''dp'', ''dq'', ''k'', ''oth'', ''p'', ''q'', ''qi''}"

definition prepare_signing_material ::
  "('k, 'p) key_library \<Rightarrow> bytes \<Rightarrow> string \<Rightarrow> ('p prepared_signing_key \<times> bytes) result" where
  "prepare_signing_material lib material algorithm =
     (if algorithm \<notin> supported_algorithms then Inl ImproperlyConfigured
      else if algorithm = ''HS256''
      then (if length material < minimum_hmac_bytes then Inl ImproperlyConfigured
            else Inr (Signing_Secret material, material))
      else case kl_load_private lib material algorithm of
        None \<Rightarrow> Inl ImproperlyConfigured
      | Some key \<Rightarrow> Inr (Private_Key key, kl_public_pem lib (kl_public_half lib key)))"

definition prepare_retained_verification_key ::
  "('k, 'p) key_library \<Rightarrow> bytes \<Rightarrow> string \<Rightarrow> 'k prepared_key result" where
  "prepare_retained_verification_key lib material algorithm =
     (if algorithm \<notin> supported_algorithms then Inl ImproperlyConfigured
      else if algorithm = ''HS256''
      then (if length material < minimum_hmac_bytes then Inl ImproperlyConfigured else Inr (Shared_Secret material))
      else case kl_load_public lib material algorithm of
        None \<Rightarrow> Inl ImproperlyConfigured
      | Some key \<Rightarrow> Inr (Public_Key key))"

section \<open>Public JWKs\<close>

definition key_types :: "string \<Rightarrow> string \<times> string option" where
  "key_types algorithm =
     (if algorithm = ''EdDSA'' then (''OKP'', Some ''Ed25519'')
      else if algorithm = ''ES256'' then (''EC'', Some ''P-256'')
      else if algorithm = ''RS256'' then (''RSA'', None) else (''oct'', None))"

definition absent_or :: "json \<Rightarrow> string \<Rightarrow> bool" where
  "absent_or v expected \<longleftrightarrow> v = J_Null \<or> v = J_Text expected"

definition validate_public_jwk :: "json_object \<Rightarrow> string \<Rightarrow> bool" where
  "validate_public_jwk d algorithm \<longleftrightarrow>
     \<not> (\<exists>n\<in>private_jwk_members. has d n) \<and>
     absent_or (member d ''alg'') algorithm \<and> absent_or (member d ''use'') ''sig'' \<and>
     (member d ''key_ops'' = J_Null \<or> sequence_of (member d ''key_ops'') = Some [J_Text ''verify'']) \<and>
     member d ''kty'' = J_Text (fst (key_types algorithm)) \<and>
     (case snd (key_types algorithm) of None \<Rightarrow> True | Some curve \<Rightarrow> member d ''crv'' = J_Text curve) \<and>
     algorithm \<noteq> ''HS256''"

text \<open>\<open>public\<close> is the public key of the material; only an HMAC secret has none.\<close>

definition prepare_public_jwk ::
  "('k, 'p) key_library \<Rightarrow> json_object option \<Rightarrow> 'k option \<Rightarrow> string \<Rightarrow> string \<Rightarrow> json_object option result" where
  "prepare_public_jwk lib supplied public algorithm key_id =
     (case public of
        None \<Rightarrow> if supplied \<noteq> None then Inl ImproperlyConfigured else Inr None
      | Some key \<Rightarrow>
          (case supplied of
             None \<Rightarrow>
               Inr (Some (freeze_members
                 (dset ''use'' (J_Text ''sig'') (dset ''key_ops'' (J_List [J_Text ''verify''])
                   (dset ''kid'' (J_Text key_id) (dset ''alg'' (J_Text algorithm) (kl_to_jwk lib key algorithm)))))))
           | Some d \<Rightarrow>
               if \<not> validate_public_jwk d algorithm \<or> \<not> absent_or (member d ''kid'') key_id
               then Inl ImproperlyConfigured
               else (case kl_from_jwk lib d algorithm of
                   None \<Rightarrow> Inl ImproperlyConfigured
                 | Some jwk_key \<Rightarrow>
                     if kl_public_der lib jwk_key \<noteq> kl_public_der lib key then Inl ImproperlyConfigured
                     else Inr (Some (freeze_members
                       (dset ''key_ops'' (J_List [J_Text ''verify'']) (dset ''use'' (J_Text ''sig'')
                         (dset ''alg'' (J_Text algorithm) (dset ''kid'' (J_Text key_id) d)))))))))"

section \<open>Keys\<close>

definition signing_key_post_init ::
  "('k, 'p) key_library \<Rightarrow> string \<Rightarrow> string \<Rightarrow> bytes \<Rightarrow> json_object option \<Rightarrow>
     ('p prepared_signing_key, bytes, json_object) signing_key result" where
  "signing_key_post_init lib key_id algorithm private_key public_jwk =
     bind (strict_identifier key_id) (\<lambda>key_id.
     bind (prepare_signing_material lib private_key algorithm) (\<lambda>(prepared, verification).
     bind (prepare_public_jwk lib public_jwk
         (case prepared of Signing_Secret _ \<Rightarrow> None | Private_Key key \<Rightarrow> Some (kl_public_half lib key)) algorithm key_id)
       (\<lambda>jwk. Inr \<lparr>sk_key_id = key_id, sk_algorithm = algorithm, sk_private = prepared, sk_verification = verification,
          sk_public_jwk = jwk\<rparr>)))"

text \<open>With the key the material was prepared to, which \<^verbatim>\<open>prepared_verification_key\<close> reads back.\<close>

definition verification_key_post_init ::
  "('k, 'p) key_library \<Rightarrow> string \<Rightarrow> string \<Rightarrow> bytes \<Rightarrow> json_object option \<Rightarrow>
     ((bytes, json_object) verification_key \<times> 'k prepared_key) result" where
  "verification_key_post_init lib key_id algorithm material public_jwk =
     bind (strict_identifier key_id) (\<lambda>key_id.
     bind (prepare_retained_verification_key lib material algorithm) (\<lambda>prepared.
     bind (prepare_public_jwk lib public_jwk
         (case prepared of Shared_Secret _ \<Rightarrow> None | Public_Key key \<Rightarrow> Some key) algorithm key_id) (\<lambda>jwk.
       Inr (\<lparr>vk_key_id = key_id, vk_algorithm = algorithm, vk_material = material, vk_public_jwk = jwk\<rparr>, prepared))))"

section \<open>Publishing the local keys\<close>

definition public_jwk_fields :: "string \<Rightarrow> string set" where
  "public_jwk_fields algorithm =
     (if algorithm = ''EdDSA'' then {''alg'', ''crv'', ''key_ops'', ''kid'', ''kty'', ''use'', ''x''}
      else if algorithm = ''ES256'' then {''alg'', ''crv'', ''key_ops'', ''kid'', ''kty'', ''use'', ''x'', ''y''}
      else if algorithm = ''RS256'' then {''alg'', ''e'', ''key_ops'', ''kid'', ''kty'', ''n'', ''use''} else {})"

text \<open>
  The comprehension runs over a frozenset, so the order of its members is the interpreter's; here it is
  theirs in the JWK. The canonical form sorts them.
\<close>

definition published_jwk :: "(bytes, json_object) verification_key \<Rightarrow> json_object option" where
  "published_jwk k =
     (if vk_algorithm k = ''HS256'' then None
      else map_option (filter (\<lambda>(n, v). n \<in> public_jwk_fields (vk_algorithm k))) (vk_public_jwk k))"

definition jwk_key_id :: "json_object \<Rightarrow> string" where
  "jwk_key_id d = (case member d ''kid'' of J_Text s \<Rightarrow> s | _ \<Rightarrow> [])"

definition published_keys :: "(bytes, json_object) verification_key list \<Rightarrow> json_object list" where
  "published_keys ks = sort_key jwk_key_id (List.map_filter published_jwk ks)"

text \<open>
  \<^verbatim>\<open>json.dumps(ensure_ascii=True, separators=(",", ":"), sort_keys=True)\<close>. \<open>float_text\<close> is the shortest
  decimal of a float; a frozen mapping inside a value is not serializable.
\<close>

fun join_with :: "char \<Rightarrow> string list \<Rightarrow> string" where
  "join_with sep [] = []"
| "join_with sep [s] = s"
| "join_with sep (s # ss) = s @ sep # join_with sep ss"

fun dump_json :: "(rat option \<Rightarrow> string) \<Rightarrow> json \<Rightarrow> string option"
  and dump_items :: "(rat option \<Rightarrow> string) \<Rightarrow> json list \<Rightarrow> string list option" where
  "dump_json float_text J_Null = Some ''null''"
| "dump_json float_text (J_Bool b) = Some (if b then ''true'' else ''false'')"
| "dump_json float_text (J_Int n) = Some (show_int n)"
| "dump_json float_text (J_Float x) = Some (float_text x)"
| "dump_json float_text (J_Constant c) = Some c"
| "dump_json float_text (J_Text s) = Some (json_string s)"
| "dump_json float_text (J_List vs) =
     map_option (\<lambda>ss. CHR ''['' # join_with (CHR '','') ss @ '']'') (dump_items float_text vs)"
| "dump_json float_text (J_Tuple vs) =
     map_option (\<lambda>ss. CHR ''['' # join_with (CHR '','') ss @ '']'') (dump_items float_text vs)"
| "dump_json float_text (J_Object ms) = None"
| "dump_items float_text [] = Some []"
| "dump_items float_text (v # vs) =
     (case (dump_json float_text v, dump_items float_text vs) of (Some s, Some ss) \<Rightarrow> Some (s # ss) | _ \<Rightarrow> None)"

definition dump_jwk :: "(rat option \<Rightarrow> string) \<Rightarrow> json_object \<Rightarrow> string option" where
  "dump_jwk float_text d =
     (let sorted = sort_key fst d
      in map_option (\<lambda>ss. Encodings.json_object (zip (map fst sorted) ss)) (dump_items float_text (map snd sorted)))"

definition canonical_jwks :: "(rat option \<Rightarrow> string) \<Rightarrow> json_object list \<Rightarrow> string option" where
  "canonical_jwks float_text ds =
     (if None \<in> set (map (dump_jwk float_text) ds) then None
      else Some (Encodings.json_object
        [(''keys'', CHR ''['' # join_with (CHR '','') (map (\<lambda>d. the (dump_jwk float_text d)) ds) @ '']'')]))"

record local_jwks =
  lj_prefix :: string
  lj_max_age :: int
  lj_document :: "json_object list"
  lj_canonical :: bytes
  lj_etag :: string
  lj_path :: string
  lj_cache_control :: string

definition strip_slashes :: "string \<Rightarrow> string" where
  "strip_slashes s = rev (dropWhile (\<lambda>c. c = CHR ''/'') (rev s))"

fun double_slash :: "string \<Rightarrow> bool" where
  "double_slash (a # b # cs) = ((a = CHR ''/'' \<and> b = CHR ''/'') \<or> double_slash (b # cs))"
| "double_slash cs = False"

definition valid_route_prefix :: "string \<Rightarrow> bool" where
  "valid_route_prefix s \<longleftrightarrow>
     take 1 s = ''/'' \<and> s \<noteq> [] \<and> \<not> double_slash s \<and>
     \<not> (\<exists>c\<in>{CHR 0x5C, CHR ''{'', CHR ''}'', CHR ''?'', CHR ''#''}. c \<in> set s) \<and>
     \<not> (\<exists>w\<in>set (split_on (CHR ''/'') s). w = ''.'' \<or> w = ''..'') \<and>
     \<not> (\<exists>c\<in>set s. is_space c \<or> (of_char c :: nat) < 32)"

definition local_jwks_post_init ::
  "(bytes \<Rightarrow> bytes) \<Rightarrow> (rat option \<Rightarrow> string) \<Rightarrow> (bytes, json_object) key_set \<Rightarrow> string \<Rightarrow> int \<Rightarrow> local_jwks result" where
  "local_jwks_post_init sha float_text ks route_prefix cache_max_age =
     (let prefix = strip_slashes route_prefix; keys = published_keys (kr_keys ks)
      in if \<not> valid_route_prefix prefix then Inl ImproperlyConfigured
         else if \<not> (0 \<le> cache_max_age \<and> cache_max_age \<le> 86400) then Inl ImproperlyConfigured
         else if keys = [] then Inl ImproperlyConfigured
         else (case canonical_jwks float_text keys of
             None \<Rightarrow> Inl TypeError
           | Some encoded \<Rightarrow>
               let canonical = ascii_bytes encoded
               in Inr \<lparr>lj_prefix = prefix, lj_max_age = cache_max_age, lj_document = keys, lj_canonical = canonical,
                    lj_etag = CHR 0x22 # hex_text (sha canonical) @ [CHR 0x22],
                    lj_path = prefix @ ''/.well-known/jwks.json'',
                    lj_cache_control = ''public, max-age='' @ show_int cache_max_age\<rparr>))"

definition remove_prefix :: "string \<Rightarrow> string \<Rightarrow> string" where
  "remove_prefix p s = (if take (length p) s = p then drop (length p) s else s)"

definition if_none_match :: "string option \<Rightarrow> string \<Rightarrow> bool" where
  "if_none_match header etag =
     (case header of
        None \<Rightarrow> False
      | Some v \<Rightarrow> \<exists>w\<in>set (map strip (split_on (CHR '','') v)). w = ''*'' \<or> remove_prefix ''W/'' w = etag)"

text \<open>Status, body and the two headers of the route.\<close>

definition local_jwks_response :: "local_jwks \<Rightarrow> string option \<Rightarrow> int \<times> bytes \<times> (string \<times> string) list" where
  "local_jwks_response c header =
     (let headers = [(''Cache-Control'', lj_cache_control c), (''ETag'', lj_etag c)]
      in if if_none_match header (lj_etag c) then (304, [], headers) else (200, lj_canonical c, headers))"

section \<open>What is published\<close>

lemma public_fields_not_private: "public_jwk_fields a \<inter> private_jwk_members = {}"
  by (simp add: public_jwk_fields_def private_jwk_members_def)

lemma published_jwk_Some:
  assumes "published_jwk k = Some d"
  shows "vk_algorithm k \<noteq> ''HS256''" "fst ` set d \<subseteq> public_jwk_fields (vk_algorithm k)"
    "\<exists>jwk. vk_public_jwk k = Some jwk \<and> set d \<subseteq> set jwk"
  using assms by (auto simp: published_jwk_def split: if_splits)

lemma set_published_keys: "set (published_keys ks) = {d. \<exists>k\<in>set ks. published_jwk k = Some d}"
  by (force simp: published_keys_def map_filter_def)

lemma published_keys_order:
  assumes "mset ks' = mset ks" "distinct (map jwk_key_id (List.map_filter published_jwk ks))"
  shows "published_keys ks' = published_keys ks"
proof -
  have "mset (List.map_filter published_jwk ks') = mset (List.map_filter published_jwk ks)"
    using assms(1) by (simp add: map_filter_def)
  then show ?thesis
    unfolding published_keys_def
    by (intro sort_key_inj_key_eq) (use assms(2) in \<open>auto simp: distinct_map dest: mset_eq_setD\<close>)
qed

lemma built_public_jwk:
  assumes "verification_key_post_init lib kid alg material jwk = Inr (k, prepared)"
  shows "vk_key_id k = kid" "vk_algorithm k = alg" "alg = ''HS256'' \<longleftrightarrow> vk_public_jwk k = None"
    "vk_public_jwk k = Some d \<Longrightarrow> member d ''kid'' = J_Text kid \<and> member d ''alg'' = J_Text alg"
  using assms
  by (auto simp: verification_key_post_init_def bind_eq_Inr strict_identifier_def prepare_public_jwk_def
      prepare_retained_verification_key_def member_def dget_freeze dict_simps split: if_splits option.splits prepared_key.splits)

lemma published_key_id:
  assumes "verification_key_post_init lib kid alg material jwk = Inr (k, prepared)" "published_jwk k = Some d"
    "alg \<in> supported_algorithms"
  shows "jwk_key_id d = kid"
proof -
  obtain full where full: "vk_public_jwk k = Some full" "d = filter (\<lambda>(n, v). n \<in> public_jwk_fields alg) full"
    using assms(2) built_public_jwk(2) [OF assms(1)] by (auto simp: published_jwk_def split: if_splits)
  have "''kid'' \<in> public_jwk_fields alg"
    using assms(3) published_jwk_Some(1) [OF assms(2)] built_public_jwk(2) [OF assms(1)]
    unfolding supported_algorithms_def public_jwk_fields_def by auto
  then have "dget d ''kid'' = dget full ''kid''"
    unfolding full(2) by (induction full) auto
  then have "member d ''kid'' = member full ''kid''"
    by (simp add: member_def)
  then show ?thesis
    using built_public_jwk(4) [OF assms(1) full(1)] by (simp add: jwk_key_id_def)
qed

lemma local_jwks_Inr:
  assumes "local_jwks_post_init sha float_text ks route age = Inr c"
  shows "lj_document c = published_keys (kr_keys ks)" "lj_document c \<noteq> []"
    "canonical_jwks float_text (lj_document c) = Some encoded \<Longrightarrow> lj_canonical c = ascii_bytes encoded"
    "lj_etag c = CHR 0x22 # hex_text (sha (lj_canonical c)) @ [CHR 0x22]"
  using assms by (auto simp: local_jwks_post_init_def Let_def split: if_splits option.splits)

lemma local_jwks_depends_on_keys:
  assumes "published_keys (kr_keys ks') = published_keys (kr_keys ks)"
  shows "local_jwks_post_init sha float_text ks' route age = local_jwks_post_init sha float_text ks route age"
  using assms by (simp add: local_jwks_post_init_def)

lemma jwks_publication_lemma:
  assumes "local_jwks_post_init sha float_text ks route age = Inr c"
    "distinct (map jwk_key_id (List.map_filter published_jwk (kr_keys ks)))" "mset (kr_keys ks') = mset (kr_keys ks)"
  shows "set (lj_document c) = {d. \<exists>k\<in>set (kr_keys ks). published_jwk k = Some d} \<and>
    (\<forall>d\<in>set (lj_document c). \<exists>k\<in>set (kr_keys ks). vk_algorithm k \<noteq> ''HS256'' \<and>
       fst ` set d \<subseteq> public_jwk_fields (vk_algorithm k) - private_jwk_members) \<and>
    local_jwks_post_init sha float_text ks' route age = Inr c"
proof -
  have "\<exists>k\<in>set (kr_keys ks). vk_algorithm k \<noteq> ''HS256'' \<and>
       fst ` set d \<subseteq> public_jwk_fields (vk_algorithm k) - private_jwk_members" if "d \<in> set (lj_document c)" for d
    using that published_jwk_Some(1,2) public_fields_not_private
    unfolding local_jwks_Inr(1) [OF assms(1)] set_published_keys by blast
  moreover have "local_jwks_post_init sha float_text ks' route age = Inr c"
    using local_jwks_depends_on_keys [OF published_keys_order [OF assms(3,2)]] assms(1) by metis
  ultimately show ?thesis
    unfolding local_jwks_Inr(1) [OF assms(1)] set_published_keys by blast
qed

end
