(* ===== verification/JWKS_Documents.thy ===== *)
theory JWKS_Documents
  imports JWK_Keys
begin

text \<open>
  The key sets of other issuers: configured sources, cache policy, freshness and the store of snapshots
  (\<^verbatim>\<open>providers/jwks/_cache.py\<close>), the primitives of \<^verbatim>\<open>_internal.py\<close>, fetch outcomes (\<^verbatim>\<open>_fetching.py\<close>) and the
  parsing of a document (\<^verbatim>\<open>_documents.py\<close>). \<^verbatim>\<open>json.loads\<close> of bytes is a \<open>json_reader\<close>.
\<close>

section \<open>Sources and policy\<close>

definition valid_selection_value :: "string \<Rightarrow> bool" where
  "valid_selection_value v \<longleftrightarrow> v \<noteq> [] \<and> v = strip v \<and>
     \<not> (\<exists>c\<in>set v. (of_char c :: nat) < 32 \<or> (of_char c :: nat) = 127)"

definition strict_value :: "string \<Rightarrow> string result" where
  "strict_value v = (if valid_selection_value v then Inr v else Inl ImproperlyConfigured)"

definition remote_algorithms :: "string set" where
  "remote_algorithms = {''EdDSA'', ''ES256'', ''RS256''}"

record jwks_source =
  js_issuer :: string
  js_uri :: string
  js_algorithms :: "string set"

definition jwks_source_post_init :: "jwks_source \<Rightarrow> jwks_source result" where
  "jwks_source_post_init s =
     bind (strict_value (js_issuer s)) (\<lambda>_.
     bind (strict_value (js_uri s)) (\<lambda>_.
       if js_algorithms s = {} \<or> \<not> js_algorithms s \<subseteq> remote_algorithms then Inl ImproperlyConfigured else Inr s))"

record jwks_policy =
  jp_default_ttl :: time
  jp_minimum_ttl :: time
  jp_maximum_ttl :: time
  jp_cooldown :: time
  jp_stale_if_error :: time
  jp_warm_on_startup :: bool
  jp_maximum_document_bytes :: int
  jp_maximum_keys :: int
  jp_maximum_unknown_keys :: int

definition jwks_policy_post_init :: "jwks_policy \<Rightarrow> jwks_policy result" where
  "jwks_policy_post_init p =
     (if jp_minimum_ttl p \<le> 0 \<or> jp_maximum_ttl p < jp_minimum_ttl p \<or>
         \<not> (jp_minimum_ttl p \<le> jp_default_ttl p \<and> jp_default_ttl p \<le> jp_maximum_ttl p) \<or>
         jp_cooldown p \<le> 0 \<or> jp_stale_if_error p < 0
      then Inl ImproperlyConfigured
      else if \<not> (1 \<le> jp_maximum_document_bytes p \<and> jp_maximum_document_bytes p \<le> 1048576) \<or>
              \<not> (1 \<le> jp_maximum_keys p \<and> jp_maximum_keys p \<le> 128) \<or>
              \<not> (1 \<le> jp_maximum_unknown_keys p \<and> jp_maximum_unknown_keys p \<le> 1024)
      then Inl ImproperlyConfigured
      else Inr p)"

section \<open>Responses\<close>

record fetch_outcome =
  fo_status :: int
  fo_body :: bytes
  fo_headers :: "(string, string) dict"

definition fetch_outcome_post_init :: "fetch_outcome \<Rightarrow> fetch_outcome result" where
  "fetch_outcome_post_init r =
     (if \<not> (100 \<le> fo_status r \<and> fo_status r \<le> 599) then Inl ImproperlyConfigured
      else if [] \<in> fst ` set (fo_headers r) then Inl ImproperlyConfigured
      else Inr (r\<lparr>fo_headers := fold (\<lambda>(n, v). dset (text_lower n) v) (fo_headers r) []\<rparr>))"

definition strip_quotes :: "string \<Rightarrow> string" where
  "strip_quotes s = rev (dropWhile (\<lambda>c. c = CHR 0x22) (rev (dropWhile (\<lambda>c. c = CHR 0x22) s)))"

text \<open>
  \<^verbatim>\<open>timedelta(seconds=int(s))\<close> of decimal digits; \<open>None\<close> is the ValueError of a number beyond 4300 digits or
  the OverflowError of a duration beyond 999999999 days.
\<close>

definition is_decimal_text :: "string \<Rightarrow> bool" where
  "is_decimal_text s \<longleftrightarrow> s \<noteq> [] \<and> list_all (\<lambda>c. digit_value c \<noteq> None) s"

definition duration_of :: "string \<Rightarrow> time option" where
  "duration_of s =
     (case read_nat s of
        None \<Rightarrow> None
      | Some n \<Rightarrow> if length s > 4300 \<or> 86400000000000 \<le> n then None else Some (seconds (int n)))"

definition cache_directives :: "(string, string) dict \<Rightarrow> string list" where
  "cache_directives headers =
     map (\<lambda>part. text_lower (strip part))
       (filter (\<lambda>part. strip part \<noteq> [])
         (split_on (CHR '','') (case dget headers ''cache-control'' of None \<Rightarrow> [] | Some v \<Rightarrow> v)))"

definition max_ages :: "string list \<Rightarrow> string list" where
  "max_ages directives =
     map (\<lambda>part. strip_quotes (snd (snd (partition_at (CHR ''='') part))))
       (filter (\<lambda>part. fst (partition_at (CHR ''='') part) = ''max-age'') directives)"

text \<open>\<open>None\<close> is an exception; otherwise the ends of the fresh and of the stale period.\<close>

definition freshness :: "(string, string) dict \<Rightarrow> jwks_policy \<Rightarrow> time \<Rightarrow> (time \<times> time) option" where
  "freshness headers p now =
     (let directives = cache_directives headers;
          no_store = ''no-store'' \<in> set directives;
          no_cache = ''no-cache'' \<in> set directives
      in map_option (\<lambda>requested.
           let ttl = (if no_store \<or> no_cache then 0 else requested);
               fresh_until = now + ttl
           in (fresh_until, if no_store then fresh_until else fresh_until + jp_stale_if_error p))
           (case max_ages directives of
              [age] \<Rightarrow>
                if is_decimal_text age
                then map_option (\<lambda>ttl. max (jp_minimum_ttl p) (min ttl (jp_maximum_ttl p))) (duration_of age)
                else Some (jp_default_ttl p)
            | _ \<Rightarrow> Some (jp_default_ttl p)))"

text \<open>
  The bounds of the policy apply only after the number was turned into a duration: an announced age of a
  few million years, instead of being cut to the maximum, is an exception, and the refresh fails.
\<close>

lemma overlong_max_age_fails: "freshness [(''cache-control'', ''max-age=99999999999999'')] p now = None"
proof -
  have "max_ages (cache_directives [(''cache-control'', ''max-age=99999999999999'')]) = [''99999999999999'']"
    "is_decimal_text ''99999999999999''"
    by code_simp+
  moreover have "duration_of ''99999999999999'' = None"
    by (simp add: duration_of_def read_nat_def digit_value_def)
  ultimately show ?thesis
    by (simp add: freshness_def)
qed

definition normal_etag :: "string option \<Rightarrow> string option" where
  "normal_etag v =
     (case v of
        None \<Rightarrow> None
      | Some s \<Rightarrow>
          (let t = strip s
           in if t \<noteq> [] \<and> length t \<le> 1024 \<and> \<not> (\<exists>c\<in>set t. (of_char c :: nat) < 32) then Some t else None))"

section \<open>Documents\<close>

type_synonym selection = "string \<times> string"

type_synonym ('k) remote_keys = "(selection, (bytes, json_object) verification_key \<times> 'k prepared_key) dict"

text \<open>
  \<open>from_dict\<close> is \<^verbatim>\<open>PyJWK.from_dict(...).key\<close> with the check that it is a public key. Every exception is the
  one outcome the caller sees, \<open>None\<close>.
\<close>

definition parse_key ::
  "('k, 'p) key_library \<Rightarrow> (json_object \<Rightarrow> string \<Rightarrow> 'k option) \<Rightarrow> json_object \<Rightarrow> jwks_source \<Rightarrow>
     ((bytes, json_object) verification_key \<times> 'k prepared_key) option" where
  "parse_key lib from_dict d source =
     (if \<exists>n\<in>private_jwk_members. has d n then None
      else case (member d ''alg'', member d ''kid'') of
        (J_Text algorithm, J_Text key_id) \<Rightarrow>
          if algorithm \<notin> js_algorithms source \<or> algorithm \<notin> remote_algorithms \<or> \<not> valid_selection_value key_id \<or>
             \<not> absent_or (member d ''use'') ''sig''
          then None
          else if \<not> (case member d ''key_ops'' of
                 J_Null \<Rightarrow> True
               | J_List ops \<Rightarrow> (case texts ops of None \<Rightarrow> False | Some names \<Rightarrow> ''verify'' \<in> set names)
               | _ \<Rightarrow> False)
          then None
          else
            (let canonical = dset ''key_ops'' (J_List [J_Text ''verify'']) (dset ''use'' (J_Text ''sig'')
                   (dset ''kid'' (J_Text key_id) (dset ''alg'' (J_Text algorithm) d)))
             in case from_dict canonical algorithm of
                  None \<Rightarrow> None
                | Some key \<Rightarrow>
                    (case verification_key_post_init lib key_id algorithm (kl_public_pem lib key) (Some canonical) of
                       Inl e \<Rightarrow> None
                     | Inr k \<Rightarrow> Some k))
      | _ \<Rightarrow> None)"

fun parse_keys ::
  "('k, 'p) key_library \<Rightarrow> (json_object \<Rightarrow> string \<Rightarrow> 'k option) \<Rightarrow> jwks_source \<Rightarrow> json list \<Rightarrow> 'k remote_keys \<Rightarrow>
     'k remote_keys option" where
  "parse_keys lib from_dict source [] acc = Some acc"
| "parse_keys lib from_dict source (v # vs) acc =
     (case v of
        J_Object d \<Rightarrow>
          (case parse_key lib from_dict d source of
             None \<Rightarrow> None
           | Some k \<Rightarrow>
               let sel = (vk_key_id (fst k), vk_algorithm (fst k))
               in if dget acc sel \<noteq> None then None else parse_keys lib from_dict source vs (dset sel k acc))
      | _ \<Rightarrow> None)"

definition parse_document ::
  "json_reader \<Rightarrow> ('k, 'p) key_library \<Rightarrow> (json_object \<Rightarrow> string \<Rightarrow> 'k option) \<Rightarrow> bytes \<Rightarrow> jwks_source \<Rightarrow> jwks_policy \<Rightarrow>
     'k remote_keys option" where
  "parse_document reader lib from_dict body source p =
     (if int (length body) > jp_maximum_document_bytes p then None
      else case reader body of
        None \<Rightarrow> None
      | Some raw \<Rightarrow>
          (case hooked raw of
             Inr (J_Object document) \<Rightarrow>
               if \<not> validate_depth 64 (J_Object document) then None
               else (case member document ''keys'' of
                   J_List vs \<Rightarrow>
                     if vs = [] \<or> int (length vs) > jp_maximum_keys p then None
                     else parse_keys lib from_dict source vs []
                 | _ \<Rightarrow> None)
           | _ \<Rightarrow> None))"

section \<open>Snapshots and their store\<close>

record 'k snapshot_entry =
  se_keys :: "'k remote_keys"
  se_etag :: "string option"
  se_fresh_until :: time
  se_stale_until :: time
  se_generation :: int
  se_source_uri :: string

definition snapshot_get :: "string \<Rightarrow> string \<Rightarrow> (string \<times> string, 'k snapshot_entry) dict \<Rightarrow> 'k snapshot_entry option" where
  "snapshot_get issuer uri entries = dget entries (issuer, uri)"

definition snapshot_set ::
  "string \<Rightarrow> string \<Rightarrow> 'k snapshot_entry \<Rightarrow> (string \<times> string, 'k snapshot_entry) dict \<Rightarrow>
     (string \<times> string, 'k snapshot_entry) dict" where
  "snapshot_set issuer uri s entries = dset (issuer, uri) s entries"

definition snapshot_invalidate ::
  "string \<Rightarrow> string \<Rightarrow> (string \<times> string, 'k snapshot_entry) dict \<Rightarrow> (string \<times> string, 'k snapshot_entry) dict" where
  "snapshot_invalidate issuer uri entries = ddel (issuer, uri) entries"

end
