(* ===== verification/JWKS_Provider.thy ===== *)
theory JWKS_Provider
  imports JWKS_Documents
begin

text \<open>
  \<^verbatim>\<open>CachedJWKSProvider\<close> (\<^verbatim>\<open>providers/jwks/_provider.py\<close>): one configured source with its cached snapshot and
  its coordinator, the single-flight refresh, and any number of concurrent calls of \<^verbatim>\<open>select_key\<close>. The event
  loop switches between tasks at awaits only, so each definition below is one block between two awaits, and
  \<open>entry_step\<close> interleaves the blocks. One provider owns the coordinator.
\<close>

section \<open>Refreshing\<close>

text \<open>\<open>rt_seen\<close> is the snapshot the task read when it ran first, absent before that.\<close>

record 'k refresh_task =
  rt_id :: nat
  rt_forced :: "int option"
  rt_now :: time
  rt_seen :: "'k snapshot_entry option option"

text \<open>\<open>je_results\<close> keeps what finished tasks returned, as their \<^verbatim>\<open>asyncio.Task\<close> objects do.\<close>

record 'k jwks_entry =
  je_snapshot :: "'k snapshot_entry option"
  je_refresh :: "nat option"
  je_forced :: "int option"
  je_negative :: "(int \<times> selection, time) dict"
  je_closed :: bool
  je_tasks :: "'k refresh_task list"
  je_results :: "(nat, 'k snapshot_entry option) dict"
  je_next :: nat

definition empty_entry :: "'k jwks_entry" where
  "empty_entry = \<lparr>je_snapshot = None, je_refresh = None, je_forced = None, je_negative = [], je_closed = False,
     je_tasks = [], je_results = [], je_next = 0\<rparr>"

record ('k, 'p) jwks_config =
  jg_source :: jwks_source
  jg_policy :: jwks_policy
  jg_reader :: json_reader
  jg_library :: "('k, 'p) key_library"
  jg_from_dict :: "json_object \<Rightarrow> string \<Rightarrow> 'k option"

definition move_to_end :: "'a \<Rightarrow> ('a, 'b) dict \<Rightarrow> ('a, 'b) dict" where
  "move_to_end k d = (case dget d k of None \<Rightarrow> d | Some v \<Rightarrow> ddel k d @ [(k, v)])"

definition prune_negative :: "int \<Rightarrow> time \<Rightarrow> (int \<times> selection, time) dict \<Rightarrow> (int \<times> selection, time) dict" where
  "prune_negative generation now d = filter (\<lambda>(k, expires_at). \<not> (fst k \<noteq> generation \<or> expires_at \<le> now)) d"

definition negative_hit :: "int \<Rightarrow> selection \<Rightarrow> time \<Rightarrow> 'k jwks_entry \<Rightarrow> bool \<times> 'k jwks_entry" where
  "negative_hit generation sel now e =
     (let pruned = prune_negative generation now (je_negative e)
      in case dget pruned (generation, sel) of
           None \<Rightarrow> (False, e\<lparr>je_negative := pruned\<rparr>)
         | Some _ \<Rightarrow> (True, e\<lparr>je_negative := move_to_end (generation, sel) pruned\<rparr>))"

definition remember_negative :: "jwks_policy \<Rightarrow> int \<Rightarrow> selection \<Rightarrow> time \<Rightarrow> 'k jwks_entry \<Rightarrow> 'k jwks_entry" where
  "remember_negative p generation sel now e =
     (let pruned = prune_negative generation now (je_negative e);
          added = move_to_end (generation, sel) (dset (generation, sel) (now + jp_cooldown p) pruned)
      in e\<lparr>je_negative := drop (length added - nat (jp_maximum_unknown_keys p)) added\<rparr>)"

datatype 'k coordination = Await_Refresh nat | Immediate "'k snapshot_entry option"

definition start_refresh :: "time \<Rightarrow> int option \<Rightarrow> 'k jwks_entry \<Rightarrow> 'k jwks_entry" where
  "start_refresh now forced e =
     e\<lparr>je_forced := (if forced \<noteq> None then forced else je_forced e), je_refresh := Some (je_next e),
       je_tasks := \<lparr>rt_id = je_next e, rt_forced = forced, rt_now = now, rt_seen = None\<rparr> # je_tasks e,
       je_next := je_next e + 1\<rparr>"

definition coordinate_refresh :: "time \<Rightarrow> int option \<Rightarrow> 'k jwks_entry \<Rightarrow> 'k coordination \<times> 'k jwks_entry" where
  "coordinate_refresh now forced e =
     (let current = je_snapshot e;
          fresh = (case current of None \<Rightarrow> False | Some s \<Rightarrow> now < se_fresh_until s);
          changed = (forced \<noteq> None \<and> map_option se_generation current \<noteq> forced);
          used = (forced \<noteq> None \<and> je_forced e = forced)
      in if je_closed e then (Immediate None, e)
         else if (forced = None \<and> fresh) \<or> changed then (Immediate current, e)
         else case je_refresh e of
           Some i \<Rightarrow> (Await_Refresh i, e)
         | None \<Rightarrow>
             if used then (Immediate current, e)
             else (Await_Refresh (je_next e), start_refresh now forced e))"

definition fetch_target_etag :: "'k jwks_entry \<Rightarrow> string option" where
  "fetch_target_etag e = (case je_snapshot e of None \<Rightarrow> None | Some s \<Rightarrow> se_etag s)"

text \<open>\<open>response = None\<close>: the fetcher raised, or returned something else.\<close>

definition fetch_snapshot ::
  "('k, 'p) jwks_config \<Rightarrow> time \<Rightarrow> 'k snapshot_entry option \<Rightarrow> fetch_outcome option \<Rightarrow> 'k snapshot_entry option" where
  "fetch_snapshot g now current response =
     (case response of
        None \<Rightarrow> None
      | Some r \<Rightarrow>
          if fo_status r = 304
          then (case current of
              None \<Rightarrow> None
            | Some s \<Rightarrow>
                map_option (\<lambda>(fresh_until, stale_until).
                  \<lparr>se_keys = se_keys s,
                   se_etag = (case normal_etag (dget (fo_headers r) ''etag'') of None \<Rightarrow> se_etag s | Some t \<Rightarrow> Some t),
                   se_fresh_until = fresh_until, se_stale_until = stale_until, se_generation = se_generation s,
                   se_source_uri = se_source_uri s\<rparr>) (freshness (fo_headers r) (jg_policy g) now))
          else if fo_status r = 200
          then (case parse_document (jg_reader g) (jg_library g) (jg_from_dict g) (fo_body r) (jg_source g) (jg_policy g) of
              None \<Rightarrow> None
            | Some ks \<Rightarrow>
                map_option (\<lambda>(fresh_until, stale_until).
                  \<lparr>se_keys = ks, se_etag = normal_etag (dget (fo_headers r) ''etag''), se_fresh_until = fresh_until,
                   se_stale_until = stale_until,
                   se_generation = (case current of None \<Rightarrow> 1 | Some s \<Rightarrow> se_generation s + 1),
                   se_source_uri = js_uri (jg_source g)\<rparr>) (freshness (fo_headers r) (jg_policy g) now))
          else None)"

definition publish_refresh :: "'k refresh_task \<Rightarrow> 'k snapshot_entry option \<Rightarrow> 'k jwks_entry \<Rightarrow> 'k jwks_entry" where
  "publish_refresh t outcome e =
     (let published =
        (case outcome of
           None \<Rightarrow> e
         | Some s \<Rightarrow>
             e\<lparr>je_snapshot := Some s,
               je_forced := (if rt_forced t \<noteq> None then Some (se_generation s) else je_forced e),
               je_negative := (case je_snapshot e of
                   None \<Rightarrow> []
                 | Some c \<Rightarrow> if se_generation s \<noteq> se_generation c then [] else je_negative e)\<rparr>)
      in if je_refresh e = Some (rt_id t) then published\<lparr>je_refresh := None\<rparr> else published)"

section \<open>Selecting a key\<close>

datatype 'k selection_answer =
    Key_Selected "(bytes, json_object) verification_key \<times> 'k prepared_key"
  | Selection_Invalid
  | Selection_Unavailable

text \<open>Where a call of \<^verbatim>\<open>select_key\<close> stands: what it has read so far, and the block it runs next.\<close>

datatype 'k selecting =
    Called selection time
  | Unknown_Key selection time int
  | Coordinating selection time "'k snapshot_entry option" "int option"
  | Awaiting selection time "'k snapshot_entry option" "int option" nat
  | Remembering selection time int "'k selection_answer"
  | Replied selection "'k selection_answer"

definition select_after_refresh ::
  "selection \<Rightarrow> time \<Rightarrow> 'k snapshot_entry option \<Rightarrow> int option \<Rightarrow> 'k snapshot_entry option \<Rightarrow> 'k selecting" where
  "select_after_refresh sel now seen forced refreshed =
     (case refreshed of
        Some s \<Rightarrow>
          (case dget (se_keys s) sel of
             Some k \<Rightarrow> Replied sel (Key_Selected k)
           | None \<Rightarrow> Remembering sel now (se_generation s) Selection_Invalid)
      | None \<Rightarrow>
          (case forced of
             Some generation \<Rightarrow> Remembering sel now generation Selection_Unavailable
           | None \<Rightarrow>
               (case seen of
                  None \<Rightarrow> Replied sel Selection_Unavailable
                | Some s \<Rightarrow>
                    if now < se_stale_until s
                    then Replied sel (case dget (se_keys s) sel of Some k \<Rightarrow> Key_Selected k | None \<Rightarrow> Selection_Unavailable)
                    else Replied sel Selection_Unavailable)))"

definition select_unknown :: "selection \<Rightarrow> time \<Rightarrow> int \<Rightarrow> 'k jwks_entry \<Rightarrow> 'k selecting \<times> 'k jwks_entry" where
  "select_unknown sel now generation e =
     (case negative_hit generation sel now e of
        (hit, e') \<Rightarrow> (if hit then Replied sel Selection_Invalid else Coordinating sel now None (Some generation), e'))"

text \<open>\<open>None\<close>: the shielded task has not finished; a provider closed meanwhile has no result.\<close>

definition refresh_result :: "'k jwks_entry \<Rightarrow> nat \<Rightarrow> 'k snapshot_entry option option" where
  "refresh_result e i = map_option (\<lambda>refreshed. if je_closed e then None else refreshed) (dget (je_results e) i)"

datatype entry_event = Quiet | Starts "int option" | Invalidated

definition select_block ::
  "jwks_source \<Rightarrow> jwks_policy \<Rightarrow> 'k jwks_entry \<Rightarrow> 'k selecting \<Rightarrow> (entry_event \<times> 'k jwks_entry \<times> 'k selecting) option" where
  "select_block source p e c =
     (case c of
        Called sel now \<Rightarrow>
          Some (Quiet, e,
            if je_closed e then Replied sel Selection_Unavailable
            else if \<not> valid_selection_value (fst sel) \<or> \<not> valid_selection_value (snd sel) \<or> snd sel \<notin> js_algorithms source
            then Replied sel Selection_Invalid
            else case je_snapshot e of
              None \<Rightarrow> Coordinating sel now None None
            | Some s \<Rightarrow>
                if now < se_fresh_until s
                then (case dget (se_keys s) sel of
                    Some k \<Rightarrow> Replied sel (Key_Selected k)
                  | None \<Rightarrow> Unknown_Key sel now (se_generation s))
                else Coordinating sel now (Some s) None)
      | Unknown_Key sel now generation \<Rightarrow>
          (case select_unknown sel now generation e of (c', e') \<Rightarrow> Some (Quiet, e', c'))
      | Coordinating sel now seen forced \<Rightarrow>
          (case coordinate_refresh now forced e of
             (Immediate s, e') \<Rightarrow> Some (Quiet, e', select_after_refresh sel now seen forced s)
           | (Await_Refresh i, e') \<Rightarrow>
               Some (if je_next e' = je_next e then Quiet else Starts forced, e', Awaiting sel now seen forced i))
      | Awaiting sel now seen forced i \<Rightarrow>
          map_option (\<lambda>refreshed. (Quiet, e, select_after_refresh sel now seen forced refreshed)) (refresh_result e i)
      | Remembering sel now generation reply \<Rightarrow>
          Some (Quiet, remember_negative p generation sel now e, Replied sel reply)
      | Replied sel reply \<Rightarrow> None)"

section \<open>Interleaving\<close>

type_synonym 'k jwks_state = "'k jwks_entry \<times> 'k selecting list"

definition finish_task :: "'k refresh_task \<Rightarrow> 'k snapshot_entry option \<Rightarrow> 'k jwks_entry \<Rightarrow> 'k jwks_entry" where
  "finish_task t outcome e =
     (let published = publish_refresh t outcome e
      in published\<lparr>je_tasks := filter (\<lambda>u. rt_id u \<noteq> rt_id t) (je_tasks published),
           je_results := dset (rt_id t) outcome (je_results published)\<rparr>)"

definition begin_task :: "nat \<Rightarrow> 'k jwks_entry \<Rightarrow> 'k jwks_entry" where
  "begin_task i e =
     e\<lparr>je_tasks := map (\<lambda>t. if rt_id t = i then t\<lparr>rt_seen := Some (je_snapshot e)\<rparr> else t) (je_tasks e)\<rparr>"

text \<open>
  A task is cancelled by \<^verbatim>\<open>aclose\<close> only; one that had not run yet publishes nothing, and \<^verbatim>\<open>aclose\<close> itself
  clears the coordinator, which a closed provider no longer reads in between.
\<close>

inductive entry_step :: "('k, 'p) jwks_config \<Rightarrow> 'k jwks_state \<Rightarrow> entry_event \<Rightarrow> 'k jwks_state \<Rightarrow> bool"
  for g :: "('k, 'p) jwks_config" where
  call_enters: "entry_step g (e, cs) Quiet (e, cs @ [Called sel now])"
| call_moves: "i < length cs \<Longrightarrow> select_block (jg_source g) (jg_policy g) e (cs ! i) = Some (ev, e', c) \<Longrightarrow>
    entry_step g (e, cs) ev (e', cs[i := c])"
| warm_up: "jp_warm_on_startup (jg_policy g) \<Longrightarrow> \<not> je_closed e \<Longrightarrow> coordinate_refresh now None e = (r, e') \<Longrightarrow>
    entry_step g (e, cs) (if je_next e' = je_next e then Quiet else Starts None) (e', cs)"
| task_begins: "t \<in> set (je_tasks e) \<Longrightarrow> rt_seen t = None \<Longrightarrow> entry_step g (e, cs) Quiet (begin_task (rt_id t) e, cs)"
| task_ends: "t \<in> set (je_tasks e) \<Longrightarrow> rt_seen t = Some current \<Longrightarrow>
    entry_step g (e, cs) Quiet (finish_task t (fetch_snapshot g (rt_now t) current response) e, cs)"
| task_cancelled: "je_closed e \<Longrightarrow> t \<in> set (je_tasks e) \<Longrightarrow> entry_step g (e, cs) Quiet (finish_task t None e, cs)"
| closes: "entry_step g (e, cs) Quiet (e\<lparr>je_closed := True\<rparr>, cs)"
| invalidates: "entry_step g (e, cs) Invalidated (e\<lparr>je_snapshot := None\<rparr>, cs)"

inductive entry_run :: "('k, 'p) jwks_config \<Rightarrow> entry_event list \<Rightarrow> 'k jwks_state \<Rightarrow> bool"
  for g :: "('k, 'p) jwks_config" where
  run_starts: "entry_run g [] (empty_entry, [])"
| run_steps: "entry_run g evs s \<Longrightarrow> entry_step g s ev s' \<Longrightarrow> entry_run g (evs @ [ev]) s'"

section \<open>Blocks\<close>

lemma length_ddel: "dget d k \<noteq> None \<Longrightarrow> length (ddel k d) < length d"
  by (auto simp: AList.delete_eq dest!: map_of_SomeD intro!: length_filter_less)

lemma length_move_to_end: "length (move_to_end k d) \<le> length d"
  using length_ddel [of d k] by (auto simp: move_to_end_def split: option.splits)

lemma length_prune: "length (prune_negative generation now d) \<le> length d"
  by (simp add: prune_negative_def)

lemma negative_hit_entry:
  "\<exists>n. snd (negative_hit generation sel now e) = e\<lparr>je_negative := n\<rparr> \<and> length n \<le> length (je_negative e)"
proof -
  let ?d = "prune_negative generation now (je_negative e)"
  have "length (move_to_end (generation, sel) ?d) \<le> length (je_negative e)"
    using length_move_to_end [of "(generation, sel)" ?d] length_prune [of generation now "je_negative e"] by linarith
  then show ?thesis
    using length_prune [of generation now "je_negative e"]
    by (cases "dget ?d (generation, sel)") (auto simp: negative_hit_def Let_def)
qed

lemma remember_negative_entry:
  "\<exists>n. remember_negative p generation sel now e = e\<lparr>je_negative := n\<rparr> \<and> length n \<le> nat (jp_maximum_unknown_keys p)"
  by (auto simp: remember_negative_def Let_def)

lemma coordinate_cases:
  assumes "coordinate_refresh now forced e = (r, e')"
  obtains (same) "e' = e" "r = Immediate None \<or> r = Immediate (je_snapshot e) \<or> (\<exists>i. je_refresh e = Some i \<and> r = Await_Refresh i)"
  | (started) "\<not> je_closed e" "je_refresh e = None" "r = Await_Refresh (je_next e)" "e' = start_refresh now forced e"
      "forced \<noteq> None \<longrightarrow> map_option se_generation (je_snapshot e) = forced \<and> je_forced e \<noteq> forced"
proof (cases "je_closed e")
  case True
  then show thesis
    using assms by (intro same) (simp_all add: coordinate_refresh_def)
next
  case open_provider: False
  define fresh where "fresh = (case je_snapshot e of None \<Rightarrow> False | Some s \<Rightarrow> now < se_fresh_until s)"
  define changed where "changed \<longleftrightarrow> forced \<noteq> None \<and> map_option se_generation (je_snapshot e) \<noteq> forced"
  have c: "coordinate_refresh now forced e =
      (if (forced = None \<and> fresh) \<or> changed then (Immediate (je_snapshot e), e)
       else case je_refresh e of
         Some i \<Rightarrow> (Await_Refresh i, e)
       | None \<Rightarrow> if forced \<noteq> None \<and> je_forced e = forced then (Immediate (je_snapshot e), e)
                 else (Await_Refresh (je_next e), start_refresh now forced e))"
    using open_provider unfolding coordinate_refresh_def Let_def fresh_def changed_def by simp
  show thesis
  proof (cases "(forced = None \<and> fresh) \<or> changed \<or> je_refresh e \<noteq> None \<or> (forced \<noteq> None \<and> je_forced e = forced)")
    case True
    then show thesis
      using assms unfolding c by (intro same) (auto split: if_splits option.splits)
  next
    case False
    then have "r = Await_Refresh (je_next e)" "e' = start_refresh now forced e"
      using assms unfolding c by auto
    then show thesis
      using False open_provider by (intro started) (auto simp: changed_def)
  qed
qed

lemma start_refresh_next [simp]: "je_next (start_refresh now forced e) = Suc (je_next e)"
  by (simp add: start_refresh_def)

definition waiting_for :: "'k selecting \<Rightarrow> nat option" where
  "waiting_for c = (case c of Awaiting sel now seen forced i \<Rightarrow> Some i | _ \<Rightarrow> None)"

lemma waiting_after_refresh [simp]: "waiting_for (select_after_refresh sel now seen forced refreshed) = None"
  by (simp add: waiting_for_def select_after_refresh_def split: option.splits)

lemma block_cases:
  assumes "select_block source p e c = Some (ev, e', c')"
  obtains (negative) n where "ev = Quiet" "e' = e\<lparr>je_negative := n\<rparr>"
      "length n \<le> max (length (je_negative e)) (nat (jp_maximum_unknown_keys p))"
      "waiting_for c' = None \<or> waiting_for c' = je_refresh e"
  | (started) now forced where "ev = Starts forced" "e' = start_refresh now forced e"
      "waiting_for c' = Some (je_next e)" "je_refresh e = None" "\<not> je_closed e"
      "forced \<noteq> None \<longrightarrow> map_option se_generation (je_snapshot e) = forced \<and> je_forced e \<noteq> forced"
proof -
  have unchanged: thesis if "ev = Quiet" "e' = e" "waiting_for c' = None \<or> waiting_for c' = je_refresh e"
    using negative [of "je_negative e"] that by simp
  show thesis
  proof (cases c)
    case (Called sel now)
    then show thesis
      using assms by (intro unchanged) (auto simp: select_block_def waiting_for_def split: option.splits)
  next
    case (Unknown_Key sel now generation)
    obtain hit where hit: "negative_hit generation sel now e = (hit, e')" "ev = Quiet" "waiting_for c' = None"
      using assms Unknown_Key by (auto simp: select_block_def select_unknown_def waiting_for_def split: prod.splits)
    obtain n where "e' = e\<lparr>je_negative := n\<rparr>" "length n \<le> length (je_negative e)"
      using negative_hit_entry [of generation sel now e] hit(1) by auto
    then show thesis
      using hit(2,3) by (intro negative) auto
  next
    case (Coordinating sel now seen forced)
    obtain r where r: "coordinate_refresh now forced e = (r, e')"
      using assms Coordinating by (auto simp: select_block_def split: prod.splits coordination.splits)
    show thesis
      using r
    proof (cases rule: coordinate_cases)
      case same
      then show thesis
        using assms Coordinating r by (intro unchanged) (auto simp: select_block_def waiting_for_def [of "Awaiting _ _ _ _ _"])
    next
      case started
      then show thesis
        using assms Coordinating r by (intro that(2)) (auto simp: select_block_def waiting_for_def)
    qed
  next
    case (Awaiting sel now seen forced i)
    then show thesis
      using assms by (intro unchanged) (auto simp: select_block_def split: option.splits)
  next
    case (Remembering sel now generation reply)
    obtain n where "remember_negative p generation sel now e = e\<lparr>je_negative := n\<rparr>" "length n \<le> nat (jp_maximum_unknown_keys p)"
      using remember_negative_entry by blast
    then show thesis
      using assms Remembering by (intro negative [of n]) (auto simp: select_block_def waiting_for_def)
  next
    case (Replied sel reply)
    then show thesis
      using assms by (simp add: select_block_def)
  qed
qed

section \<open>One refresh at a time\<close>

definition one_flight :: "'k jwks_entry \<Rightarrow> bool" where
  "one_flight e \<longleftrightarrow> (je_tasks e = [] \<and> je_refresh e = None) \<or> (\<exists>t. je_tasks e = [t] \<and> je_refresh e = Some (rt_id t))"

definition known_refresh :: "'k jwks_entry \<Rightarrow> nat \<Rightarrow> bool" where
  "known_refresh e i \<longleftrightarrow> dget (je_results e) i \<noteq> None \<or> je_refresh e = Some i"

definition flights_ok :: "jwks_policy \<Rightarrow> 'k jwks_state \<Rightarrow> bool" where
  "flights_ok p = (\<lambda>(e, cs). one_flight e \<and> length (je_negative e) \<le> nat (jp_maximum_unknown_keys p) \<and>
     (\<forall>c\<in>set cs. \<forall>i. waiting_for c = Some i \<longrightarrow> known_refresh e i))"

lemma published_fields [simp]:
  "je_tasks (publish_refresh t r e) = je_tasks e" "je_results (publish_refresh t r e) = je_results e"
  "je_closed (publish_refresh t r e) = je_closed e" "je_next (publish_refresh t r e) = je_next e"
  "je_refresh (publish_refresh t r e) = (if je_refresh e = Some (rt_id t) then None else je_refresh e)"
  "je_snapshot (publish_refresh t r e) = (case r of None \<Rightarrow> je_snapshot e | Some s \<Rightarrow> Some s)"
  "je_forced (publish_refresh t r e) =
     (case r of Some s \<Rightarrow> if rt_forced t \<noteq> None then Some (se_generation s) else je_forced e | None \<Rightarrow> je_forced e)"
  by (simp_all add: publish_refresh_def Let_def split: option.splits)

lemma length_published_negative: "length (je_negative (publish_refresh t r e)) \<le> length (je_negative e)"
  by (simp add: publish_refresh_def Let_def split: option.splits)

lemma finish_task_ok:
  assumes "one_flight e" "t \<in> set (je_tasks e)"
  shows "one_flight (finish_task t r e)" "je_tasks (finish_task t r e) = []"
    "known_refresh e i \<Longrightarrow> known_refresh (finish_task t r e) i"
proof -
  have t: "je_tasks e = [t]" "je_refresh e = Some (rt_id t)"
    using assms by (auto simp: one_flight_def)
  then show "one_flight (finish_task t r e)" "je_tasks (finish_task t r e) = []"
    by (simp_all add: finish_task_def one_flight_def Let_def)
  show "known_refresh (finish_task t r e) i" if "known_refresh e i"
    using that t by (auto simp: known_refresh_def finish_task_def Let_def dict_simps)
qed

lemma begin_task_fields [simp]:
  "je_refresh (begin_task i e) = je_refresh e" "je_results (begin_task i e) = je_results e"
  "je_negative (begin_task i e) = je_negative e" "je_snapshot (begin_task i e) = je_snapshot e"
  "je_forced (begin_task i e) = je_forced e" "je_closed (begin_task i e) = je_closed e"
  by (simp_all add: begin_task_def)

lemma begin_task_flight: "one_flight e \<Longrightarrow> one_flight (begin_task i e)"
  by (auto simp: one_flight_def begin_task_def)

lemma start_refresh_flight:
  assumes "one_flight e" "je_refresh e = None"
  shows "one_flight (start_refresh now forced e)" "known_refresh (start_refresh now forced e) (je_next e)"
    "known_refresh e i \<Longrightarrow> known_refresh (start_refresh now forced e) i"
  using assms by (auto simp: one_flight_def known_refresh_def start_refresh_def)

lemma flights_okD:
  assumes "flights_ok p (e, cs)"
  shows "one_flight e" "length (je_negative e) \<le> nat (jp_maximum_unknown_keys p)"
    "c \<in> set cs \<Longrightarrow> waiting_for c = Some i \<Longrightarrow> known_refresh e i"
  using assms by (auto simp: flights_ok_def)

lemma flights_ok_step:
  assumes "flights_ok p (e, cs)" "one_flight e'" "length (je_negative e') \<le> max (length (je_negative e)) (nat (jp_maximum_unknown_keys p))"
    "\<And>i. known_refresh e i \<Longrightarrow> known_refresh e' i"
    "\<And>c i. c \<in> set cs' \<Longrightarrow> c \<notin> set cs \<Longrightarrow> waiting_for c = Some i \<Longrightarrow> known_refresh e' i"
  shows "flights_ok p (e', cs')"
proof -
  have "length (je_negative e') \<le> nat (jp_maximum_unknown_keys p)"
    using assms(3) flights_okD(2) [OF assms(1)] by simp
  then show ?thesis
    using assms(2,4,5) flights_okD(3) [OF assms(1)] unfolding flights_ok_def split_conv by blast
qed

lemma known_refresh_same: "je_results e' = je_results e \<Longrightarrow> je_refresh e' = je_refresh e \<Longrightarrow> known_refresh e i \<Longrightarrow> known_refresh e' i"
  by (simp add: known_refresh_def)

lemma finish_task_step:
  assumes "flights_ok p (e, cs)" "t \<in> set (je_tasks e)"
  shows "flights_ok p (finish_task t r e, cs)"
proof (rule flights_ok_step [OF assms(1)])
  show "length (je_negative (finish_task t r e)) \<le> max (length (je_negative e)) (nat (jp_maximum_unknown_keys p))"
    using length_published_negative [of t r e] by (simp add: finish_task_def Let_def)
qed (use finish_task_ok [OF flights_okD(1) [OF assms(1)] assms(2)] in auto)

lemma start_refresh_step:
  assumes "flights_ok p (e, cs)" "je_refresh e = None"
    "\<And>c i. c \<in> set cs' \<Longrightarrow> c \<notin> set cs \<Longrightarrow> waiting_for c = Some i \<Longrightarrow> i = je_next e"
  shows "flights_ok p (start_refresh now forced e, cs')"
proof (rule flights_ok_step [OF assms(1)])
  note start = start_refresh_flight [OF flights_okD(1) [OF assms(1)] assms(2)]
  show "one_flight (start_refresh now forced e)"
    by (rule start(1))
  show "known_refresh (start_refresh now forced e) i" if "known_refresh e i" for i
    using that by (rule start(3))
  show "known_refresh (start_refresh now forced e) i" if "c \<in> set cs'" "c \<notin> set cs" "waiting_for c = Some i" for c i
    unfolding assms(3) [OF that] by (rule start(2))
qed (simp add: start_refresh_def)

lemma entry_step_flights:
  assumes "entry_step g s ev s'" "flights_ok (jg_policy g) s"
  shows "flights_ok (jg_policy g) s'"
  using assms(1)
proof cases
  case (call_enters e cs sel now)
  show ?thesis
    using assms(2) unfolding call_enters by (auto simp: flights_ok_def waiting_for_def)
next
  case (call_moves i cs e e' c)
  have ok: "flights_ok (jg_policy g) (e, cs)"
    using assms(2) call_moves(1) by simp
  have new: "d = c" if "d \<in> set (cs[i := c])" "d \<notin> set cs" for d
    using that set_update_subset_insert [of cs i c] by blast
  show ?thesis
    using call_moves(4)
  proof (cases rule: block_cases)
    case (negative n)
    have "flights_ok (jg_policy g) (e', cs[i := c])"
    proof (rule flights_ok_step [OF ok])
      show "one_flight e'"
        using flights_okD(1) [OF ok] unfolding negative(2) by (simp add: one_flight_def)
      show "known_refresh e' j" if "d \<in> set (cs[i := c])" "d \<notin> set cs" "waiting_for d = Some j" for d j
        using negative(4) that(3) new [OF that(1,2)] unfolding negative(2) by (auto simp: known_refresh_def)
    qed (use negative(3) in \<open>simp_all add: negative(2) known_refresh_def\<close>)
    then show ?thesis
      unfolding call_moves(2) .
  next
    case (started now forced)
    have "flights_ok (jg_policy g) (start_refresh now forced e, cs[i := c])"
      by (rule start_refresh_step [OF ok started(4)]) (metis new started(3) option.inject)
    then show ?thesis
      unfolding call_moves(2) started(2) .
  qed
next
  case (warm_up e now r e' cs)
  have ok: "flights_ok (jg_policy g) (e, cs)"
    using assms(2) warm_up(1) by simp
  show ?thesis
    using warm_up(6)
  proof (cases rule: coordinate_cases)
    case same
    then show ?thesis
      using ok warm_up(3) by simp
  next
    case started
    then show ?thesis
      unfolding warm_up(3) by (auto intro: start_refresh_step [OF ok started(2)])
  qed
next
  case (task_begins t e cs)
  have ok: "flights_ok (jg_policy g) (e, cs)"
    using assms(2) task_begins(1) by simp
  show ?thesis
    unfolding task_begins(3)
    by (rule flights_ok_step [OF ok]) (simp_all add: begin_task_flight [OF flights_okD(1) [OF ok]] known_refresh_def)
next
  case (task_ends t e current cs response)
  then show ?thesis
    using finish_task_step assms(2) by blast
next
  case (task_cancelled e t cs)
  then show ?thesis
    using finish_task_step assms(2) by blast
next
  case (closes e cs)
  then show ?thesis
    using assms(2) by (simp add: flights_ok_def one_flight_def known_refresh_def)
next
  case (invalidates e cs)
  then show ?thesis
    using assms(2) by (simp add: flights_ok_def one_flight_def known_refresh_def)
qed

lemma entry_run_flights: "entry_run g evs s \<Longrightarrow> flights_ok (jg_policy g) s"
  by (induction rule: entry_run.induct)
    (auto simp: flights_ok_def one_flight_def empty_entry_def dest!: entry_step_flights)

section \<open>An unknown key forces one refresh\<close>

definition forced_ok :: "entry_event list \<Rightarrow> 'k jwks_entry \<Rightarrow> bool" where
  "forced_ok evs e \<longleftrightarrow>
     (\<forall>f. je_forced e = Some f \<longrightarrow> (\<exists>s. je_snapshot e = Some s \<and> f \<le> se_generation s)) \<and>
     (\<forall>f. Starts (Some f) \<in> set evs \<longrightarrow> (\<exists>h. je_forced e = Some h \<and> f \<le> h)) \<and>
     (\<forall>t\<in>set (je_tasks e). \<forall>current. rt_seen t = Some current \<longrightarrow> current = je_snapshot e) \<and>
     (\<forall>f. count_list evs (Starts (Some f)) \<le> 1)"

lemma fetched_generation:
  assumes "fetch_snapshot g now current response = Some s"
  shows "case current of None \<Rightarrow> se_generation s = 1 | Some c \<Rightarrow> se_generation s \<in> {se_generation c, se_generation c + 1}"
  using assms by (auto simp: fetch_snapshot_def split: option.splits if_splits)

lemma forced_okD:
  assumes "forced_ok evs e"
  shows "je_forced e = Some f \<Longrightarrow> \<exists>s. je_snapshot e = Some s \<and> f \<le> se_generation s"
    "Starts (Some f) \<in> set evs \<Longrightarrow> \<exists>h. je_forced e = Some h \<and> f \<le> h"
    "t \<in> set (je_tasks e) \<Longrightarrow> rt_seen t = Some current \<Longrightarrow> current = je_snapshot e"
    "count_list evs (Starts (Some f)) \<le> 1"
  using assms unfolding forced_ok_def by blast+

lemma forced_ok_quiet:
  assumes "forced_ok evs e" "je_snapshot e' = je_snapshot e" "je_forced e' = je_forced e"
    "\<And>t current. t \<in> set (je_tasks e') \<Longrightarrow> rt_seen t = Some current \<Longrightarrow> current = je_snapshot e"
  shows "forced_ok (evs @ [Quiet]) e'"
  using assms unfolding forced_ok_def by auto

lemma forced_ok_start:
  assumes ok: "forced_ok evs e"
    and forced: "forced \<noteq> None \<longrightarrow> map_option se_generation (je_snapshot e) = forced \<and> je_forced e \<noteq> forced"
  shows "forced_ok (evs @ [Starts forced]) (start_refresh now forced e)"
proof (cases forced)
  case None
  then show ?thesis
    using ok unfolding forced_ok_def start_refresh_def by auto
next
  case (Some f)
  obtain s where s: "je_snapshot e = Some s" "se_generation s = f" "je_forced e \<noteq> Some f"
    using forced Some by auto
  have less: "h < f" if "je_forced e = Some h" for h
    using forced_okD(1) [OF ok that] s that by auto
  have old: "f' < f" if "Starts (Some f') \<in> set evs" for f'
    using forced_okD(2) [OF ok that] less by fastforce
  then have "Starts (Some f) \<notin> set evs"
    by blast
  then have count: "count_list evs (Starts (Some f)) = 0"
    by simp
  show ?thesis
    unfolding forced_ok_def Some
  proof (intro conjI allI ballI impI)
    fix f'
    assume "Starts (Some f') \<in> set (evs @ [Starts (Some f)])"
    then have "f' \<le> f"
      using old by (cases "f' = f") (auto dest: order.strict_implies_order)
    then show "\<exists>h. je_forced (start_refresh now (Some f) e) = Some h \<and> f' \<le> h"
      by (simp add: start_refresh_def)
  next
    fix f'
    show "count_list (evs @ [Starts (Some f)]) (Starts (Some f')) \<le> 1"
      using count forced_okD(4) [OF ok, of f'] by (cases "f' = f") simp_all
  qed (use s forced_okD(3) [OF ok] in \<open>auto simp: start_refresh_def\<close>)
qed

lemma forced_ok_finish:
  assumes ok: "forced_ok evs e" and flight: "one_flight e" "t \<in> set (je_tasks e)"
    and outcome: "r = None \<or> (rt_seen t = Some current \<and> r = fetch_snapshot g now current response)"
  shows "forced_ok (evs @ [Quiet]) (finish_task t r e)"
proof (cases r)
  case None
  then show ?thesis
    using finish_task_ok(2) [OF flight] by (intro forced_ok_quiet [OF ok]) (auto simp: finish_task_def Let_def)
next
  case (Some s)
  then have current: "je_snapshot e = current" "fetch_snapshot g now current response = Some s"
    using outcome forced_okD(3) [OF ok flight(2)] by auto
  have later: "f \<le> se_generation s" if "je_forced e = Some f" for f
    using forced_okD(1) [OF ok that] fetched_generation [OF current(2)] current(1) by auto
  have fields: "je_tasks (finish_task t (Some s) e) = []" "je_snapshot (finish_task t (Some s) e) = Some s"
    "je_forced (finish_task t (Some s) e) = (if rt_forced t \<noteq> None then Some (se_generation s) else je_forced e)"
    using finish_task_ok(2) [OF flight] by (simp_all add: finish_task_def Let_def)
  show ?thesis
    unfolding forced_ok_def Some fields
  proof (intro conjI allI ballI impI)
    fix f
    assume "Starts (Some f) \<in> set (evs @ [Quiet])"
    then obtain h where "je_forced e = Some h" "f \<le> h"
      using forced_okD(2) [OF ok, of f] by auto
    then show "\<exists>h. (if rt_forced t \<noteq> None then Some (se_generation s) else je_forced e) = Some h \<and> f \<le> h"
      using later by fastforce
  qed (use later forced_okD(4) [OF ok] in \<open>auto split: if_splits\<close>)
qed

lemma entry_step_forced:
  assumes "entry_step g (e, cs) ev (e', cs')" "forced_ok evs e" "one_flight e" "ev \<noteq> Invalidated"
  shows "forced_ok (evs @ [ev]) e'"
  using assms(1)
proof cases
  case (call_moves i c)
  then show ?thesis
  proof (cases rule: block_cases [OF call_moves(3)])
    case (1 n)
    then show ?thesis
      using forced_ok_quiet [OF assms(2), of e'] forced_okD(3) [OF assms(2)] by simp
  next
    case (2 now forced)
    then show ?thesis
      using forced_ok_start [OF assms(2), of forced now] by simp
  qed
next
  case (warm_up now r)
  show ?thesis
    using warm_up(5)
  proof (cases rule: coordinate_cases)
    case same
    then show ?thesis
      using warm_up(1) forced_ok_quiet [OF assms(2), of e'] forced_okD(3) [OF assms(2)] by simp
  next
    case started
    then show ?thesis
      using warm_up(1) forced_ok_start [OF assms(2), of None now] by simp
  qed
next
  case (task_begins t)
  have "current = je_snapshot e" if "u \<in> set (je_tasks e')" "rt_seen u = Some current" for u current
    using that forced_okD(3) [OF assms(2)] unfolding task_begins(2) by (auto simp: begin_task_def split: if_splits)
  then show ?thesis
    unfolding task_begins(1) by (intro forced_ok_quiet [OF assms(2)]) (simp_all add: task_begins(2))
next
  case (task_ends t current response)
  then show ?thesis
    using forced_ok_finish [OF assms(2,3) task_ends(4)] by blast
next
  case (task_cancelled t)
  then show ?thesis
    using forced_ok_finish [OF assms(2,3) task_cancelled(5)] by blast
qed (use assms(2,4) forced_okD(3) [OF assms(2)] in \<open>auto intro!: forced_ok_quiet [OF assms(2)]\<close>)

lemma entry_run_forced: "entry_run g evs s \<Longrightarrow> Invalidated \<notin> set evs \<Longrightarrow> forced_ok evs (fst s)"
proof (induction rule: entry_run.induct)
  case run_starts
  then show ?case
    by (simp add: forced_ok_def empty_entry_def)
next
  case (run_steps evs s ev s')
  then show ?case
    using entry_step_forced [of g "fst s" "snd s" ev "fst s'" "snd s'" evs] entry_run_flights [OF run_steps(1)]
    by (cases s) (auto simp: flights_ok_def)
qed

section \<open>Only keys of a parsed document are served\<close>

definition parsed_keys :: "('k, 'p) jwks_config \<Rightarrow> 'k remote_keys \<Rightarrow> bool" where
  "parsed_keys g ks \<longleftrightarrow>
     (\<exists>body. parse_document (jg_reader g) (jg_library g) (jg_from_dict g) body (jg_source g) (jg_policy g) = Some ks)"

definition parsed_snapshot :: "('k, 'p) jwks_config \<Rightarrow> 'k snapshot_entry option \<Rightarrow> bool" where
  "parsed_snapshot g s \<longleftrightarrow> (case s of None \<Rightarrow> True | Some s \<Rightarrow> parsed_keys g (se_keys s))"

definition reply_ok :: "('k, 'p) jwks_config \<Rightarrow> selection \<Rightarrow> 'k selection_answer \<Rightarrow> bool" where
  "reply_ok g sel r \<longleftrightarrow> (\<forall>k. r = Key_Selected k \<longrightarrow> (\<exists>ks. parsed_keys g ks \<and> dget ks sel = Some k))"

definition call_ok :: "('k, 'p) jwks_config \<Rightarrow> 'k selecting \<Rightarrow> bool" where
  "call_ok g c =
     (case c of
        Coordinating sel now seen forced \<Rightarrow> parsed_snapshot g seen
      | Awaiting sel now seen forced i \<Rightarrow> parsed_snapshot g seen
      | Remembering sel now generation r \<Rightarrow> reply_ok g sel r
      | Replied sel r \<Rightarrow> reply_ok g sel r
      | _ \<Rightarrow> True)"

definition entry_parsed :: "('k, 'p) jwks_config \<Rightarrow> 'k jwks_entry \<Rightarrow> bool" where
  "entry_parsed g e \<longleftrightarrow> parsed_snapshot g (je_snapshot e) \<and>
     (\<forall>t\<in>set (je_tasks e). \<forall>current. rt_seen t = Some current \<longrightarrow> parsed_snapshot g current) \<and>
     (\<forall>i s. dget (je_results e) i = Some s \<longrightarrow> parsed_snapshot g s)"

lemma parsed_snapshot_simps [simp]:
  "parsed_snapshot g None" "parsed_snapshot g (Some s) = parsed_keys g (se_keys s)"
  by (simp_all add: parsed_snapshot_def)

lemma reply_ok_simps [simp]:
  "reply_ok g sel Selection_Invalid" "reply_ok g sel Selection_Unavailable"
  by (simp_all add: reply_ok_def)

lemma reply_ok_key: "parsed_keys g ks \<Longrightarrow> dget ks sel = Some k \<Longrightarrow> reply_ok g sel (Key_Selected k)"
  by (auto simp: reply_ok_def)

lemma fetched_parsed:
  assumes "parsed_snapshot g current"
  shows "parsed_snapshot g (fetch_snapshot g now current response)"
  using assms by (fastforce simp: fetch_snapshot_def parsed_keys_def parsed_snapshot_def split: option.splits)

lemma after_refresh_ok:
  assumes "parsed_snapshot g seen" "parsed_snapshot g refreshed"
  shows "call_ok g (select_after_refresh sel now seen forced refreshed)"
  using assms by (auto simp: select_after_refresh_def call_ok_def reply_ok_key split: option.splits)

lemma entry_parsedD:
  assumes "entry_parsed g e"
  shows "parsed_snapshot g (je_snapshot e)" "t \<in> set (je_tasks e) \<Longrightarrow> rt_seen t = Some current \<Longrightarrow> parsed_snapshot g current"
    "dget (je_results e) i = Some s \<Longrightarrow> parsed_snapshot g s"
  using assms unfolding entry_parsed_def by blast+

lemma start_refresh_parsed: "entry_parsed g e \<Longrightarrow> entry_parsed g (start_refresh now forced e)"
  by (simp add: entry_parsed_def start_refresh_def)

lemma coordinate_parsed:
  assumes "coordinate_refresh now forced e = (r, e')" "entry_parsed g e"
  shows "entry_parsed g e'" "r = Immediate s \<Longrightarrow> parsed_snapshot g s"
  using assms(1)
  by (cases rule: coordinate_cases; use assms(2) entry_parsedD(1) [OF assms(2)] start_refresh_parsed in auto)+

lemma block_parsed:
  assumes "select_block source p e c = Some (ev, e', c')" "entry_parsed g e" "call_ok g c"
  shows "entry_parsed g e'" "call_ok g c'"
proof -
  have negative: "entry_parsed g (e\<lparr>je_negative := n\<rparr>)" for n
    using assms(2) by (simp add: entry_parsed_def)
  show "entry_parsed g e'"
    using assms(1) by (cases rule: block_cases) (simp_all add: negative start_refresh_parsed [OF assms(2)])
  show "call_ok g c'"
  proof (cases c)
    case (Called sel now)
    then show ?thesis
      using assms(1) entry_parsedD(1) [OF assms(2)]
      by (auto simp: select_block_def call_ok_def reply_ok_key split: option.splits if_splits)
  next
    case (Unknown_Key sel now generation)
    then show ?thesis
      using assms(1) by (auto simp: select_block_def select_unknown_def call_ok_def split: prod.splits if_splits)
  next
    case (Coordinating sel now seen forced)
    obtain r where r: "coordinate_refresh now forced e = (r, e')"
      using assms(1) Coordinating by (auto simp: select_block_def split: prod.splits coordination.splits)
    have seen: "parsed_snapshot g seen"
      using assms(3) Coordinating by (simp add: call_ok_def)
    show ?thesis
    proof (cases r)
      case (Await_Refresh i)
      then show ?thesis
        using assms(1) r Coordinating seen by (auto simp: select_block_def call_ok_def)
    next
      case (Immediate s)
      then have "c' = select_after_refresh sel now seen forced s"
        using assms(1) r Coordinating by (simp add: select_block_def)
      then show ?thesis
        using after_refresh_ok [OF seen coordinate_parsed(2) [OF r assms(2) Immediate]] by simp
    qed
  next
    case (Awaiting sel now seen forced i)
    then obtain s where "dget (je_results e) i = Some s"
      "c' = select_after_refresh sel now seen forced (if je_closed e then None else s)"
      using assms(1) by (auto simp: select_block_def refresh_result_def split: option.splits)
    then show ?thesis
      using after_refresh_ok [of g seen] assms(3) Awaiting entry_parsedD(3) [OF assms(2)]
      by (cases "je_closed e") (auto simp: call_ok_def [of _ "Awaiting _ _ _ _ _"])
  next
    case (Remembering sel now generation r)
    then show ?thesis
      using assms by (auto simp: select_block_def call_ok_def)
  next
    case (Replied sel r)
    then show ?thesis
      using assms(1) by (simp add: select_block_def)
  qed
qed

lemma finish_task_parsed: "entry_parsed g e \<Longrightarrow> parsed_snapshot g r \<Longrightarrow> entry_parsed g (finish_task t r e)"
  by (auto simp: entry_parsed_def finish_task_def Let_def dict_simps split: option.splits if_splits)

lemma entry_step_parsed:
  assumes "entry_step g (e, cs) ev (e', cs')" "entry_parsed g e" "\<forall>c\<in>set cs. call_ok g c"
  shows "entry_parsed g e' \<and> (\<forall>c\<in>set cs'. call_ok g c)"
  using assms(1)
proof cases
  case (call_enters sel now)
  then show ?thesis
    using assms(2,3) by (simp add: call_ok_def)
next
  case (call_moves i c)
  then show ?thesis
    using block_parsed [OF call_moves(3) assms(2)] assms(3) set_update_subset_insert [of cs i c] by fastforce
next
  case (warm_up now r)
  then show ?thesis
    using coordinate_parsed(1) [OF _ assms(2)] assms(3) by blast
next
  case (task_begins t)
  have "entry_parsed g (begin_task (rt_id t) e)"
    using assms(2) by (auto simp: entry_parsed_def begin_task_def split: if_splits)
  then show ?thesis
    using task_begins assms(3) by simp
next
  case (task_ends t current response)
  then show ?thesis
    using finish_task_parsed [OF assms(2)] fetched_parsed [OF entry_parsedD(2) [OF assms(2)]] assms(3) by blast
next
  case (task_cancelled t)
  then show ?thesis
    using finish_task_parsed [OF assms(2), of None t] assms(3) by simp
next
  case closes
  then show ?thesis
    using assms(2,3) by (simp add: entry_parsed_def)
next
  case invalidates
  then show ?thesis
    using assms(2,3) by (simp add: entry_parsed_def)
qed

lemma entry_run_parsed: "entry_run g evs s \<Longrightarrow> entry_parsed g (fst s) \<and> (\<forall>c\<in>set (snd s). call_ok g c)"
proof (induction rule: entry_run.induct)
  case run_starts
  then show ?case
    by (simp add: entry_parsed_def empty_entry_def)
next
  case (run_steps evs s ev s')
  then show ?case
    using entry_step_parsed [of g "fst s" "snd s" ev "fst s'" "snd s'"] by simp
qed

section \<open>What a document yields\<close>

lemma parse_key_Some:
  assumes "parse_key lib from_dict d source = Some k"
  shows "vk_algorithm (fst k) \<in> js_algorithms source \<inter> remote_algorithms" "valid_selection_value (vk_key_id (fst k))"
    "member d ''kid'' = J_Text (vk_key_id (fst k))" "member d ''alg'' = J_Text (vk_algorithm (fst k))"
    "\<forall>n\<in>private_jwk_members. \<not> has d n"
proof -
  obtain alg kid key where k: "member d ''alg'' = J_Text alg" "member d ''kid'' = J_Text kid" "alg \<in> js_algorithms source"
    "alg \<in> remote_algorithms" "valid_selection_value kid" "\<forall>n\<in>private_jwk_members. \<not> has d n"
    "\<exists>jwk. verification_key_post_init lib kid alg (kl_public_pem lib key) jwk = Inr k"
    using assms by (auto simp: parse_key_def Let_def split: if_splits json.splits option.splits sum.splits)
  moreover have "vk_key_id (fst k) = kid" "vk_algorithm (fst k) = alg"
    using k(7) built_public_jwk(1,2) [of lib kid alg _ _ "fst k" "snd k"] by auto
  ultimately show "vk_algorithm (fst k) \<in> js_algorithms source \<inter> remote_algorithms" "valid_selection_value (vk_key_id (fst k))"
    "member d ''kid'' = J_Text (vk_key_id (fst k))" "member d ''alg'' = J_Text (vk_algorithm (fst k))"
    "\<forall>n\<in>private_jwk_members. \<not> has d n"
    by auto
qed

lemma parse_keys_keeps:
  "parse_keys lib from_dict source vs acc = Some ks \<Longrightarrow> dget acc sel = Some k \<Longrightarrow> dget ks sel = Some k"
proof (induction vs arbitrary: acc)
  case (Cons v vs)
  obtain d j where v: "v = J_Object d" "dget acc (vk_key_id (fst j), vk_algorithm (fst j)) = None"
    "parse_keys lib from_dict source vs (dset (vk_key_id (fst j), vk_algorithm (fst j)) j acc) = Some ks"
    using Cons.prems(1) by (auto simp: Let_def simp del: not_None_eq split: json.splits option.splits if_splits)
  have "dget (dset (vk_key_id (fst j), vk_algorithm (fst j)) j acc) sel = Some k"
    using v(2) Cons.prems(2) by (auto simp: dict_simps)
  then show ?case
    by (rule Cons.IH [OF v(3)])
qed simp

lemma parse_keys_Some:
  assumes "parse_keys lib from_dict source vs acc = Some ks" "dget ks sel = Some k" "dget acc sel = None"
  shows "\<exists>d. J_Object d \<in> set vs \<and> parse_key lib from_dict d source = Some k \<and> sel = (vk_key_id (fst k), vk_algorithm (fst k))"
  using assms
proof (induction vs arbitrary: acc)
  case (Cons v vs)
  obtain d j where v: "v = J_Object d" "parse_key lib from_dict d source = Some j"
    "parse_keys lib from_dict source vs (dset (vk_key_id (fst j), vk_algorithm (fst j)) j acc) = Some ks"
    using Cons.prems(1) by (auto simp: Let_def split: json.splits option.splits if_splits)
  show ?case
  proof (cases "sel = (vk_key_id (fst j), vk_algorithm (fst j))")
    case True
    have "dget ks sel = Some j"
      by (rule parse_keys_keeps [OF v(3)]) (simp add: True dict_simps)
    then show ?thesis
      using Cons.prems(2) True v by auto
  next
    case False
    then have "dget (dset (vk_key_id (fst j), vk_algorithm (fst j)) j acc) sel = None"
      using Cons.prems(3) by (simp add: dict_simps)
    then show ?thesis
      using Cons.IH [OF v(3) Cons.prems(2)] by auto
  qed
qed simp

lemma parsed_keys_configured:
  assumes "parsed_keys g ks" "dget ks (kid, alg) = Some k"
  obtains body document where "jg_reader g body = Some document"
    "int (length body) \<le> jp_maximum_document_bytes (jg_policy g)"
    "vk_key_id (fst k) = kid" "vk_algorithm (fst k) = alg" "alg \<in> js_algorithms (jg_source g) \<inter> remote_algorithms"
proof -
  obtain body where "parse_document (jg_reader g) (jg_library g) (jg_from_dict g) body (jg_source g) (jg_policy g) = Some ks"
    using assms(1) by (auto simp: parsed_keys_def)
  then obtain document vs where b: "jg_reader g body = Some document" "int (length body) \<le> jp_maximum_document_bytes (jg_policy g)"
    "parse_keys (jg_library g) (jg_from_dict g) (jg_source g) vs [] = Some ks"
    by (auto simp: parse_document_def split: if_splits option.splits sum.splits json.splits)
  obtain d where d: "parse_key (jg_library g) (jg_from_dict g) d (jg_source g) = Some k"
    "(kid, alg) = (vk_key_id (fst k), vk_algorithm (fst k))"
    using parse_keys_Some [OF b(3) assms(2)] by auto
  show thesis
    using that [OF b(1,2)] parse_key_Some(1) [OF d(1)] d(2) by simp
qed

section \<open>Properties\<close>

text \<open>C19: Refreshing a key set is bounded: in every interleaving of key selections, at most one refresh of the
  source is under way, every waiting selection waits for that one or for a finished one, the cache of
  unknown keys keeps its size limit, and, as long as nobody drops the cached snapshot, unknown keys force
  at most one refresh per generation, however many are presented.\<close>

theorem key_set_refreshes_bounded:
  assumes "entry_run g evs (e, cs)"
  shows "length (je_tasks e) \<le> 1 \<and> length (je_negative e) \<le> nat (jp_maximum_unknown_keys (jg_policy g)) \<and>
    (\<forall>c\<in>set cs. \<forall>i. waiting_for c = Some i \<longrightarrow> known_refresh e i) \<and>
    (Invalidated \<notin> set evs \<longrightarrow> (\<forall>generation. count_list evs (Starts (Some generation)) \<le> 1))"
proof -
  have "forced_ok evs e" if "Invalidated \<notin> set evs"
    using entry_run_forced [OF assms that] by simp
  then show ?thesis
    using entry_run_flights [OF assms] forced_okD(4) by (fastforce simp: flights_ok_def one_flight_def)
qed

text \<open>C18: Only published keys are selected: in every interleaving, a key a selection answers was parsed from a
  document of the configured source within the size limit, carries exactly the key id and algorithm that
  were asked for, and its algorithm is one the source is configured for.\<close>

theorem selected_key_was_published:
  assumes "entry_run g evs (e, cs)" "Replied (kid, alg) (Key_Selected k) \<in> set cs"
  shows "\<exists>body ks. parse_document (jg_reader g) (jg_library g) (jg_from_dict g) body (jg_source g) (jg_policy g) = Some ks \<and>
    dget ks (kid, alg) = Some k \<and> vk_key_id (fst k) = kid \<and> vk_algorithm (fst k) = alg \<and>
    alg \<in> js_algorithms (jg_source g) \<inter> remote_algorithms"
proof -
  have "call_ok g (Replied (kid, alg) (Key_Selected k))"
    using entry_run_parsed [OF assms(1)] assms(2) by auto
  then obtain ks where ks: "parsed_keys g ks" "dget ks (kid, alg) = Some k"
    by (auto simp: call_ok_def reply_ok_def)
  then show ?thesis
    using parsed_keys_configured [OF ks] unfolding parsed_keys_def by metis
qed

section \<open>Example\<close>

text \<open>A source with one Ed25519 key, asked for it twice, and a library whose key objects are numbers.\<close>

definition example_jwk :: json_object where
  "example_jwk = [(''kty'', J_Text ''OKP''), (''crv'', J_Text ''Ed25519''), (''alg'', J_Text ''EdDSA''), (''kid'', J_Text ''k1''),
     (''x'', J_Text ''AAAA'')]"

definition example_key_library :: "(nat, unit) key_library" where
  "example_key_library = \<lparr>kl_load_public = \<lambda>b a. if b = [7] then Some 7 else None, kl_load_private = \<lambda>b a. None,
     kl_public_half = \<lambda>p. 7, kl_public_pem = \<lambda>k. [7], kl_public_der = \<lambda>k. [7], kl_to_jwk = \<lambda>k a. example_jwk,
     kl_from_jwk = \<lambda>d a. Some 7\<rparr>"

definition example_jwks_config :: "(nat, unit) jwks_config" where
  "example_jwks_config = \<lparr>jg_source = \<lparr>js_issuer = ''iss'', js_uri = ''u'', js_algorithms = {''EdDSA''}\<rparr>,
     jg_policy = \<lparr>jp_default_ttl = seconds 900, jp_minimum_ttl = seconds 30, jp_maximum_ttl = seconds 86400,
       jp_cooldown = seconds 30, jp_stale_if_error = 0, jp_warm_on_startup = False, jp_maximum_document_bytes = 1000,
       jp_maximum_keys = 8, jp_maximum_unknown_keys = 8\<rparr>,
     jg_reader = \<lambda>b. if b = [1] then Some (J_Object [(''keys'', J_List [J_Object example_jwk])]) else None,
     jg_library = example_key_library, jg_from_dict = \<lambda>d a. Some 7\<rparr>"

definition example_selection :: selection where
  "example_selection = (''k1'', ''EdDSA'')"

definition example_response :: fetch_outcome where
  "example_response = \<lparr>fo_status = 200, fo_body = [1], fo_headers = []\<rparr>"

definition example_remote_key :: "(bytes, json_object) verification_key \<times> nat prepared_key" where
  "example_remote_key =
     (\<lparr>vk_key_id = ''k1'', vk_algorithm = ''EdDSA'', vk_material = [7],
       vk_public_jwk = Some (freeze_members (example_jwk @
         [(''use'', J_Text ''sig''), (''key_ops'', J_List [J_Text ''verify''])]))\<rparr>, Public_Key 7)"

definition example_fetched :: "nat snapshot_entry" where
  "example_fetched = \<lparr>se_keys = [(example_selection, example_remote_key)], se_etag = None, se_fresh_until = seconds 1000,
     se_stale_until = seconds 1000, se_generation = 1, se_source_uri = ''u''\<rparr>"

lemma example_fetch:
  "fetch_snapshot example_jwks_config (seconds 100) None (Some example_response) = Some example_fetched"
proof -
  have "parse_key example_key_library (\<lambda>d a. Some 7) example_jwk (jg_source example_jwks_config) = Some example_remote_key"
    by code_simp
  moreover have "hooked (J_Object [(''keys'', J_List [J_Object example_jwk])]) =
      Inr (J_Object [(''keys'', J_List [J_Object example_jwk])])"
    "validate_depth 64 (J_Object [(''keys'', J_List [J_Object example_jwk])])"
    by code_simp+
  ultimately have "parse_document (jg_reader example_jwks_config) (jg_library example_jwks_config)
      (jg_from_dict example_jwks_config) [1] (jg_source example_jwks_config) (jg_policy example_jwks_config) =
      Some [(example_selection, example_remote_key)]"
    by (simp add: parse_document_def example_jwks_config_def member_def example_selection_def example_remote_key_def dict_simps)
  moreover have "freshness [] (jg_policy example_jwks_config) (seconds 100) = Some (seconds 1000, seconds 1000)"
    by code_simp
  ultimately show ?thesis
    by (simp add: fetch_snapshot_def example_response_def example_fetched_def normal_etag_def example_jwks_config_def)
qed

definition example_started :: "nat jwks_entry" where
  "example_started = start_refresh (seconds 100) None empty_entry"

lemma example_waiting:
  "entry_run example_jwks_config [Quiet, Quiet, Starts None]
     (example_started, [Awaiting example_selection (seconds 100) None None 0])"
proof -
  let ?g = example_jwks_config and ?sel = example_selection and ?now = "seconds 100"
  have ok: "valid_selection_value ''k1''" "valid_selection_value ''EdDSA''" "js_algorithms (jg_source ?g) = {''EdDSA''}"
    by code_simp+
  have a: "entry_run ?g [Quiet] (empty_entry, [Called ?sel ?now])"
    using run_steps [OF run_starts call_enters] by simp
  have "entry_step ?g (empty_entry, [Called ?sel ?now]) Quiet (empty_entry, [Called ?sel ?now][0 := Coordinating ?sel ?now None None])"
    using ok by (intro call_moves) (simp_all add: select_block_def empty_entry_def example_selection_def)
  from run_steps [OF a this] have b: "entry_run ?g [Quiet, Quiet] (empty_entry, [Coordinating ?sel ?now None None])"
    by simp
  have "entry_step ?g (empty_entry, [Coordinating ?sel ?now None None]) (Starts None)
      (example_started, [Coordinating ?sel ?now None None][0 := Awaiting ?sel ?now None None 0])"
    by (intro call_moves) (simp_all add: select_block_def coordinate_refresh_def example_started_def start_refresh_def empty_entry_def)
  from run_steps [OF b this] show ?thesis
    by simp
qed

theorem key_set_refreshes_bounded_witness: "length (je_tasks example_started) \<le> 1"
  using key_set_refreshes_bounded [OF example_waiting] by simp

lemma example_selected:
  "\<exists>e. entry_run example_jwks_config [Quiet, Quiet, Starts None, Quiet, Quiet, Quiet]
     (e, [Replied example_selection (Key_Selected example_remote_key)])"
proof -
  let ?g = example_jwks_config and ?sel = example_selection and ?now = "seconds 100"
  let ?wait = "[Awaiting ?sel ?now None None 0]"
  let ?one = "begin_task 0 example_started"
  let ?fresh_task = "\<lparr>rt_id = 0, rt_forced = None, rt_now = ?now, rt_seen = None\<rparr> :: nat refresh_task"
  let ?begun = "?fresh_task\<lparr>rt_seen := Some None\<rparr>"
  let ?two = "finish_task ?begun (Some example_fetched) ?one"
  have "entry_step ?g (example_started, ?wait) Quiet (begin_task (rt_id ?fresh_task) example_started, ?wait)"
    by (rule task_begins) (simp_all add: example_started_def start_refresh_def empty_entry_def)
  then have a: "entry_run ?g [Quiet, Quiet, Starts None, Quiet] (?one, ?wait)"
    using run_steps [OF example_waiting] by simp
  have "entry_step ?g (?one, ?wait) Quiet (finish_task ?begun (fetch_snapshot ?g (rt_now ?begun) None (Some example_response)) ?one, ?wait)"
    by (rule task_ends) (simp_all add: example_started_def start_refresh_def empty_entry_def begin_task_def)
  then have b: "entry_run ?g [Quiet, Quiet, Starts None, Quiet, Quiet] (?two, ?wait)"
    using run_steps [OF a] by (simp add: example_fetch)
  have "entry_step ?g (?two, ?wait) Quiet (?two, ?wait[0 := Replied ?sel (Key_Selected example_remote_key)])"
    by (intro call_moves) (simp_all add: select_block_def refresh_result_def finish_task_def Let_def example_started_def start_refresh_def
        empty_entry_def begin_task_def select_after_refresh_def example_fetched_def dict_simps)
  from run_steps [OF b this] show ?thesis
    by auto
qed

theorem selected_key_was_published_witness:
  "\<exists>body ks. parse_document (jg_reader example_jwks_config) (jg_library example_jwks_config) (jg_from_dict example_jwks_config)
     body (jg_source example_jwks_config) (jg_policy example_jwks_config) = Some ks \<and>
   dget ks (''k1'', ''EdDSA'') = Some example_remote_key"
proof -
  obtain e where "entry_run example_jwks_config [Quiet, Quiet, Starts None, Quiet, Quiet, Quiet]
      (e, [Replied (''k1'', ''EdDSA'') (Key_Selected example_remote_key)])"
    using example_selected by (auto simp: example_selection_def)
  from selected_key_was_published [OF this] show ?thesis
    by auto
qed

end
