(* ===== verification/OAuth_Transactions.thy ===== *)
theory OAuth_Transactions
  imports WebSocket_Tokens JSON_Documents
begin

text \<open>
  OAuth transactions (\<^verbatim>\<open>providers/oauth/_transactions.py\<close>): the state between sending a browser to a provider
  and its callback, kept on the server under digests of the state parameter and of a browser cookie, with
  the PKCE verifier and the nonce encrypted at rest. AES-256-GCM is an \<open>aead\<close>, HMAC-SHA-256 and SHA-256 are
  functions, \<^verbatim>\<open>urlsplit\<close> a parameter.
\<close>

section \<open>Protected secrets\<close>

datatype oauth_operation = OAuth_Login | OAuth_Link | OAuth_Scope_Upgrade | OAuth_Revalidate | OAuth_Reauthenticate

definition filled_text :: "string \<Rightarrow> bool" where
  "filled_text v \<longleftrightarrow> strip v \<noteq> []"

text \<open>A secret string is the string; only its printed forms differ.\<close>

definition secret_string :: "string \<Rightarrow> string result" where
  "secret_string v = (if v = [] then Inl ValueError else Inr v)"

record oauth_secret =
  ps_ciphertext :: bytes
  ps_key_version :: string

definition oauth_secret_post_init :: "oauth_secret \<Rightarrow> oauth_secret result" where
  "oauth_secret_post_init p =
     (if ps_ciphertext p = [] \<or> \<not> filled_text (ps_key_version p) then Inl ValueError else Inr p)"

record protector_key =
  pk_version :: string
  pk_key :: bytes

definition protector_key_post_init :: "protector_key \<Rightarrow> protector_key result" where
  "protector_key_post_init k =
     (if \<not> filled_text (pk_version k) \<or> length (pk_key k) \<noteq> 32 then Inl ImproperlyConfigured else Inr k)"

record 'e oauth_protector =
  op_active :: protector_key
  op_retained :: "protector_key list"
  op_entropy :: "nat \<Rightarrow> ('e, bytes) port"

definition protector_keys :: "'e oauth_protector \<Rightarrow> (string, protector_key) dict" where
  "protector_keys p = map (\<lambda>k. (pk_version k, k)) (op_active p # op_retained p)"

definition oauth_protector_post_init :: "'e oauth_protector \<Rightarrow> 'e oauth_protector result" where
  "oauth_protector_post_init p = (if dict_ok (protector_keys p) then Inr p else Inl ImproperlyConfigured)"

definition protect_secret :: "aead \<Rightarrow> 'e oauth_protector \<Rightarrow> bytes \<Rightarrow> bytes \<Rightarrow> ('e, oauth_secret) port" where
  "protect_secret gcm p secret associated_data =
     call (op_entropy p 12) (\<lambda>nonce.
       if length nonce \<noteq> 12 then raise ValueError
       else lift_result (oauth_secret_post_init
         \<lparr>ps_ciphertext = nonce @ aead_encrypt gcm (pk_key (op_active p)) nonce secret associated_data,
          ps_key_version = pk_version (op_active p)\<rparr>))"

text \<open>\<^verbatim>\<open>InvalidTag\<close> and, below, \<^verbatim>\<open>OverflowError\<close> are named by \<open>Injected\<close>.\<close>

definition unprotect_secret :: "aead \<Rightarrow> 'e oauth_protector \<Rightarrow> oauth_secret \<Rightarrow> bytes \<Rightarrow> bytes result" where
  "unprotect_secret gcm p protected associated_data =
     (case dget (protector_keys p) (ps_key_version protected) of
        None \<Rightarrow> Inl ValueError
      | Some k \<Rightarrow>
          if length (ps_ciphertext protected) \<le> 12 then Inl ValueError
          else (case aead_decrypt gcm (pk_key k) (take 12 (ps_ciphertext protected)) (drop 12 (ps_ciphertext protected))
                 associated_data of
              None \<Rightarrow> Inl (Injected ''InvalidTag'')
            | Some plain \<Rightarrow> Inr plain))"

section \<open>Transactions\<close>

record 't oauth_transaction =
  ot_state_digest :: bytes
  ot_binding_digest :: bytes
  ot_operation :: oauth_operation
  ot_provider :: string
  ot_expected_issuer :: "string option"
  ot_redirect_uri :: string
  ot_return_to :: string
  ot_scopes :: "string set"
  ot_verifier :: string
  ot_nonce :: "string option"
  ot_account_id :: "string option"
  ot_session_binding :: "string option"
  ot_security_epoch :: "int option"
  ot_provider_account_id :: "string option"
  ot_step_up_purpose :: "string option"
  ot_maximum_age :: "int option"
  ot_expires_at :: 't

definition absent_or_filled :: "string option \<Rightarrow> bool" where
  "absent_or_filled v \<longleftrightarrow> (case v of None \<Rightarrow> True | Some s \<Rightarrow> filled_text s)"

definition valid_transaction :: "'t oauth_transaction \<Rightarrow> bool" where
  "valid_transaction t \<longleftrightarrow>
     length (ot_state_digest t) = 32 \<and> length (ot_binding_digest t) = 32 \<and> filled_text (ot_provider t) \<and>
     (\<forall>s\<in>ot_scopes t. filled_text s) \<and> absent_or_filled (ot_expected_issuer t) \<and> absent_or_filled (ot_account_id t) \<and>
     absent_or_filled (ot_session_binding t) \<and>
     (case ot_security_epoch t of None \<Rightarrow> True | Some n \<Rightarrow> 0 \<le> n) \<and>
     absent_or_filled (ot_provider_account_id t) \<and> absent_or_filled (ot_step_up_purpose t) \<and>
     (case ot_maximum_age t of None \<Rightarrow> True | Some n \<Rightarrow> 0 \<le> n \<and> n \<le> 600)"

text \<open>An aware expiry is kept as it is; only its instant matters.\<close>

definition oauth_transaction_post_init :: "time oauth_transaction \<Rightarrow> time oauth_transaction result" where
  "oauth_transaction_post_init t = (if valid_transaction t then Inr t else Inl ValueError)"

definition associated_data :: "'t oauth_transaction \<Rightarrow> bytes" where
  "associated_data t =
     ascii_bytes ''litestar-security:oauth:transaction:v1'' @ [0] @ ot_state_digest t @ ot_binding_digest t @
     utf8_bytes (ot_provider t) @ [0]"

definition replace_secrets :: "time oauth_transaction \<Rightarrow> string \<Rightarrow> string option \<Rightarrow> time oauth_transaction result" where
  "replace_secrets t verifier nonce = oauth_transaction_post_init (t\<lparr>ot_verifier := verifier, ot_nonce := nonce\<rparr>)"

definition ascii_encoded :: "string \<Rightarrow> bytes result" where
  "ascii_encoded s = (if is_ascii s then Inr (ascii_bytes s) else Inl ValueError)"

definition ascii_decoded :: "bytes \<Rightarrow> string result" where
  "ascii_decoded bs = (if list_all (\<lambda>b. unat b < 128) bs then Inr (map (\<lambda>b. char_of (unat b)) bs) else Inl ValueError)"

section \<open>The store in memory\<close>

record stored_transaction =
  st_transaction :: "time oauth_transaction"
  st_verifier :: oauth_secret
  st_nonce :: "oauth_secret option"

type_synonym transaction_index = "bytes \<times> bytes \<times> string"

type_synonym transaction_records = "(transaction_index, stored_transaction) dict"

record 'e memory_transactions =
  mt_protector :: "'e oauth_protector"
  mt_capacity :: int
  mt_clock :: "('e, py_datetime) port option"

definition memory_transactions_post_init :: "'e memory_transactions \<Rightarrow> 'e memory_transactions result" where
  "memory_transactions_post_init m = (if mt_capacity m < 1 then Inl ImproperlyConfigured else Inr m)"

definition on_second :: "('e, 'a) port \<Rightarrow> ('d \<times> 'e, 'a) port" where
  "on_second p s = (case p (snd s) of (r, e) \<Rightarrow> (r, (fst s, e)))"

definition drop_expired :: "time \<Rightarrow> transaction_records \<Rightarrow> transaction_records" where
  "drop_expired now d = filter (\<lambda>(k, s). \<not> now \<ge> ot_expires_at (st_transaction s)) d"

definition transaction_key :: "'t oauth_transaction \<Rightarrow> transaction_index" where
  "transaction_key t = (ot_state_digest t, ot_binding_digest t, ot_provider t)"

definition insert_transaction ::
  "'e memory_transactions \<Rightarrow> transaction_index \<Rightarrow> stored_transaction \<Rightarrow> (transaction_records \<times> 'e, unit) port" where
  "insert_transaction m key stored =
     call (case mt_clock m of
         None \<Rightarrow> pure ()
       | Some clock \<Rightarrow>
           call (on_second clock) (\<lambda>reading.
           call (lift_result (aware_utc_time reading)) (\<lambda>now (d, e). (Inr (), (drop_expired now d, e)))))
     (\<lambda>_ (d, e).
        if dget d key \<noteq> None then (Inl ValueError, (d, e))
        else if int (length d) \<ge> mt_capacity m then (Inl (Injected ''OverflowError''), (d, e))
        else (Inr (), (dset key stored d, e)))"

definition create_transaction ::
  "aead \<Rightarrow> 'e memory_transactions \<Rightarrow> time oauth_transaction \<Rightarrow> (transaction_records \<times> 'e, unit) port" where
  "create_transaction gcm m t =
     (let data = associated_data t
      in call (lift_result (ascii_encoded (ot_verifier t))) (\<lambda>verifier.
         call (on_second (protect_secret gcm (mt_protector m) verifier (data @ ascii_bytes ''pkce''))) (\<lambda>sealed_verifier.
         call (case ot_nonce t of
             None \<Rightarrow> pure None
           | Some nonce \<Rightarrow>
               call (lift_result (ascii_encoded nonce)) (\<lambda>plain.
               call (on_second (protect_secret gcm (mt_protector m) plain (data @ ascii_bytes ''nonce''))) (\<lambda>sealed.
                 pure (Some sealed)))) (\<lambda>sealed_nonce.
         call (lift_result (replace_secrets t ''*'' None)) (\<lambda>redacted.
           insert_transaction m (transaction_key t)
             \<lparr>st_transaction = redacted, st_verifier = sealed_verifier, st_nonce = sealed_nonce\<rparr>)))))"

definition recover_transaction ::
  "aead \<Rightarrow> 'e oauth_protector \<Rightarrow> stored_transaction \<Rightarrow> time oauth_transaction result" where
  "recover_transaction gcm p stored =
     (let data = associated_data (st_transaction stored)
      in bind (unprotect_secret gcm p (st_verifier stored) (data @ ascii_bytes ''pkce'')) (\<lambda>verifier.
         bind (case st_nonce stored of
             None \<Rightarrow> Inr None
           | Some sealed \<Rightarrow>
               bind (unprotect_secret gcm p sealed (data @ ascii_bytes ''nonce'')) (\<lambda>nonce. Inr (Some nonce))) (\<lambda>nonce.
         bind (bind (ascii_decoded verifier) secret_string) (\<lambda>verifier.
         bind (case nonce of
             None \<Rightarrow> Inr None
           | Some raw \<Rightarrow> bind (bind (ascii_decoded raw) secret_string) (\<lambda>s. Inr (Some s))) (\<lambda>nonce.
           replace_secrets (st_transaction stored) verifier nonce)))))"

definition consume_transaction ::
  "aead \<Rightarrow> 'e memory_transactions \<Rightarrow> bytes \<Rightarrow> bytes \<Rightarrow> string \<Rightarrow> time \<Rightarrow>
     (transaction_records \<times> 'e, time oauth_transaction option) port" where
  "consume_transaction gcm m state_digest binding_digest provider now = (\<lambda>(d, e).
     (let key = (state_digest, binding_digest, provider);
          kept = drop_expired now d;
          rest = ddel key kept
      in case dget kept key of
           None \<Rightarrow> (Inr None, (rest, e))
         | Some stored \<Rightarrow>
             if now \<ge> ot_expires_at (st_transaction stored) then (Inr None, (rest, e))
             else (case recover_transaction gcm (mt_protector m) stored of
                 Inl x \<Rightarrow> (Inl x, (rest, e))
               | Inr t \<Rightarrow> (Inr (Some t), (rest, e)))))"

section \<open>Redirect policy\<close>

text \<open>
  \<open>ruri_port\<close> is reading \<^verbatim>\<open>split.port\<close>, which may raise; a \<open>redirect_split\<close> is \<^verbatim>\<open>urlsplit\<close>, \<open>None\<close> where it
  raises ValueError.
\<close>

record redirect_uri =
  ruri_scheme :: string
  ruri_netloc :: string
  ruri_hostname :: "string option"
  ruri_port :: "int option result"
  ruri_username :: "string option"
  ruri_password :: "string option"
  ruri_fragment :: string

type_synonym redirect_split = "string \<Rightarrow> redirect_uri option"

definition loopback_hosts :: "string list" where
  "loopback_hosts = [''localhost'', ''127.0.0.1'', ''::1'']"

definition plain_destination :: "string \<Rightarrow> bool" where
  "plain_destination v \<longleftrightarrow> v \<noteq> [] \<and> v = strip v \<and> CHR ''*'' \<notin> set v \<and> char_of (92::nat) \<notin> set v"

definition configured_absolute_uri :: "redirect_split \<Rightarrow> bool \<Rightarrow> string \<Rightarrow> string result" where
  "configured_absolute_uri split allow_localhost v =
     (if \<not> plain_destination v then Inl ImproperlyConfigured
      else case split v of
        None \<Rightarrow> Inl ImproperlyConfigured
      | Some u \<Rightarrow>
          (case ruri_port u of
             Inl ValueError \<Rightarrow> Inl ImproperlyConfigured
           | Inl e \<Rightarrow> Inl e
           | Inr port \<Rightarrow>
               if ruri_scheme u = [] \<or> ruri_netloc u = [] \<or> ruri_username u \<noteq> None \<or> ruri_password u \<noteq> None \<or>
                  ruri_fragment u \<noteq> []
               then Inl ImproperlyConfigured
               else (case ruri_hostname u of
                   None \<Rightarrow> Inl ImproperlyConfigured
                 | Some hostname \<Rightarrow>
                     if ruri_scheme u \<noteq> ''https'' \<and>
                        \<not> (allow_localhost \<and> hostname \<in> set loopback_hosts \<and> ruri_scheme u = ''http'')
                     then Inl ImproperlyConfigured
                     else
                       let lowered = text_lower hostname;
                           host = (if CHR '':'' \<in> set hostname then ''['' @ lowered @ '']'' else lowered);
                           authority =
                             (case port of
                                None \<Rightarrow> host
                              | Some n \<Rightarrow> if n = (if ruri_scheme u = ''https'' then 443 else 80) then host
                                         else host @ '':'' @ show_int n)
                       in Inr (ruri_scheme u @ ''://'' @ authority))))"

definition configured_return_to :: "redirect_split \<Rightarrow> string set \<Rightarrow> string \<Rightarrow> unit result" where
  "configured_return_to split callback_origins v =
     (if \<not> plain_destination v then Inl ImproperlyConfigured
      else case split v of
        None \<Rightarrow> Inl ValueError
      | Some u \<Rightarrow>
          if ruri_fragment u \<noteq> [] \<or> ruri_username u \<noteq> None \<or> ruri_password u \<noteq> None then Inl ImproperlyConfigured
          else if ruri_scheme u = [] \<and> ruri_netloc u = []
          then (if take 1 v \<noteq> ''/'' \<or> take 2 v = ''//'' then Inl ImproperlyConfigured else Inr ())
          else bind (configured_absolute_uri split False v) (\<lambda>origin.
            if origin \<in> callback_origins then Inr () else Inl ImproperlyConfigured))"

text \<open>A \<^verbatim>\<open>frozenset\<close> is the list of its members in the order it is walked in.\<close>

record redirect_policy =
  rdp_callback_uris :: "(string, string list) dict"
  rdp_return_to :: "string list"
  rdp_allow_insecure_localhost :: bool

definition callback_origins :: "redirect_split \<Rightarrow> redirect_policy \<Rightarrow> string list list result" where
  "callback_origins split p =
     collect (map (\<lambda>(provider, uris).
       if \<not> filled_text provider \<or> provider \<noteq> strip provider \<or> uris = [] then Inl ImproperlyConfigured
       else collect (map (configured_absolute_uri split (rdp_allow_insecure_localhost p)) uris)) (rdp_callback_uris p))"

definition redirect_policy_post_init :: "redirect_split \<Rightarrow> redirect_policy \<Rightarrow> redirect_policy result" where
  "redirect_policy_post_init split p =
     (if rdp_callback_uris p = [] then Inl ImproperlyConfigured
      else bind (callback_origins split p) (\<lambda>origins.
        if rdp_return_to p = [] then Inl ImproperlyConfigured
        else bind (collect (map (configured_return_to split (set (concat origins))) (rdp_return_to p))) (\<lambda>_. Inr p)))"

text \<open>\<open>OAuthRedirectPolicy.validate\<close>; false is InvalidOAuthCallback.\<close>

definition redirect_allowed :: "redirect_policy \<Rightarrow> string \<Rightarrow> string \<Rightarrow> string \<Rightarrow> bool" where
  "redirect_allowed p provider redirect return_to =
     (case dget (rdp_callback_uris p) provider of
        None \<Rightarrow> False
      | Some uris \<Rightarrow> redirect \<in> set uris \<and> return_to \<in> set (rdp_return_to p))"

section \<open>The service\<close>

datatype oauth_refusal = Invalid_OAuth_Callback | OAuth_Transaction_Unavailable

record 's oauth_service =
  os_create :: "time oauth_transaction \<Rightarrow> ('s, unit) port"
  os_consume :: "bytes \<Rightarrow> bytes \<Rightarrow> string \<Rightarrow> time \<Rightarrow> ('s, time oauth_transaction option) port"
  os_pepper :: bytes
  os_redirects :: redirect_policy
  os_lifetime :: time
  os_entropy :: "nat \<Rightarrow> ('s, bytes) port"

definition transaction_lifetime :: time where "transaction_lifetime = seconds 600"

definition oauth_service_post_init :: "'s oauth_service \<Rightarrow> 's oauth_service result" where
  "oauth_service_post_init svc =
     (if length (os_pepper svc) < 32 then Inl ImproperlyConfigured
      else if \<not> (0 < os_lifetime svc \<and> os_lifetime svc \<le> transaction_lifetime) then Inl ImproperlyConfigured
      else Inr svc)"

definition state_domain :: bytes where "state_domain = ascii_bytes ''litestar-security:oauth:state:v1'' @ [0]"
definition binding_domain :: bytes where "binding_domain = ascii_bytes ''litestar-security:oauth:binding:v1'' @ [0]"

text \<open>\<open>hmac\<close> is HMAC-SHA-256 and \<open>sha\<close> SHA-256; the secrets digested are ASCII by construction.\<close>

definition secret_digest :: "(bytes \<Rightarrow> bytes \<Rightarrow> bytes) \<Rightarrow> 's oauth_service \<Rightarrow> bytes \<Rightarrow> string \<Rightarrow> bytes" where
  "secret_digest hmac svc domain secret = hmac (os_pepper svc) (domain @ ascii_bytes secret)"

definition pkce_char :: "char \<Rightarrow> bool" where
  "pkce_char c \<longleftrightarrow> is_alnum c \<or> c \<in> set ''-._~''"

definition pkce_s256 :: "(bytes \<Rightarrow> bytes) \<Rightarrow> string \<Rightarrow> string result" where
  "pkce_s256 sha verifier =
     (if \<not> (43 \<le> length verifier \<and> length verifier \<le> 128) \<or> \<not> list_all pkce_char verifier then Inl ValueError
      else Inr (encode_random (sha (ascii_bytes verifier))))"

definition callback_secret :: "string \<Rightarrow> string option" where
  "callback_secret v = (if length v \<noteq> 43 \<or> \<not> list_all pkce_char v then None else Some v)"

definition checked_entropy :: "(nat \<Rightarrow> ('s, bytes) port) \<Rightarrow> nat \<Rightarrow> ('s, bytes) port" where
  "checked_entropy source n = call (source n) (\<lambda>v. if length v \<noteq> n then raise ValueError else pure v)"

definition random_secret :: "'s oauth_service \<Rightarrow> nat \<Rightarrow> ('s, string) port" where
  "random_secret svc n = call (checked_entropy (os_entropy svc) n) (\<lambda>v. lift_result (secret_string (encode_random v)))"

record oauth_request =
  orq_operation :: oauth_operation
  orq_provider :: string
  orq_redirect_uri :: string
  orq_return_to :: string
  orq_scopes :: "string set"
  orq_include_nonce :: bool
  orq_expected_issuer :: "string option"
  orq_account_id :: "string option"
  orq_session_binding :: "string option"
  orq_browser_binding :: "string option"
  orq_security_epoch :: "int option"
  orq_provider_account_id :: "string option"
  orq_step_up_purpose :: "string option"
  orq_maximum_age :: "int option"

record transaction_start =
  ost_state :: string
  ost_binding :: string
  ost_challenge :: string
  ost_nonce :: "string option"
  ost_transaction :: "time oauth_transaction"

definition new_transaction ::
  "(bytes \<Rightarrow> bytes \<Rightarrow> bytes) \<Rightarrow> 's oauth_service \<Rightarrow> oauth_request \<Rightarrow> time \<Rightarrow> string \<Rightarrow> string \<Rightarrow> string \<Rightarrow>
     string option \<Rightarrow> time oauth_transaction result" where
  "new_transaction hmac svc q now state binding verifier nonce =
     oauth_transaction_post_init
       \<lparr>ot_state_digest = secret_digest hmac svc state_domain state,
        ot_binding_digest = secret_digest hmac svc binding_domain binding,
        ot_operation = orq_operation q, ot_provider = orq_provider q, ot_expected_issuer = orq_expected_issuer q,
        ot_redirect_uri = orq_redirect_uri q, ot_return_to = orq_return_to q, ot_scopes = orq_scopes q,
        ot_verifier = verifier, ot_nonce = nonce, ot_account_id = orq_account_id q,
        ot_session_binding = orq_session_binding q, ot_security_epoch = orq_security_epoch q,
        ot_provider_account_id = orq_provider_account_id q, ot_step_up_purpose = orq_step_up_purpose q,
        ot_maximum_age = orq_maximum_age q, ot_expires_at = now + os_lifetime svc\<rparr>"

text \<open>The block under \<^verbatim>\<open>try\<close>.\<close>

definition begin_transaction ::
  "(bytes \<Rightarrow> bytes \<Rightarrow> bytes) \<Rightarrow> 's oauth_service \<Rightarrow> oauth_request \<Rightarrow> time \<Rightarrow>
     ('s, string \<times> string \<times> time oauth_transaction) port" where
  "begin_transaction hmac svc q now =
     call (random_secret svc 32) (\<lambda>state.
     call (case orq_browser_binding q of
         None \<Rightarrow> random_secret svc 32
       | Some b \<Rightarrow> if callback_secret b = None then raise ValueError else pure b) (\<lambda>binding.
     call (random_secret svc 32) (\<lambda>verifier.
     call (if orq_include_nonce q then call (random_secret svc 32) (\<lambda>n. pure (Some n)) else pure None) (\<lambda>nonce.
     call (lift_result (new_transaction hmac svc q now state binding verifier nonce)) (\<lambda>t.
     call (os_create svc t) (\<lambda>_. pure (state, binding, t)))))))"

definition start_transaction ::
  "(bytes \<Rightarrow> bytes \<Rightarrow> bytes) \<Rightarrow> (bytes \<Rightarrow> bytes) \<Rightarrow> 's oauth_service \<Rightarrow> oauth_request \<Rightarrow> py_datetime \<Rightarrow>
     ('s, oauth_refusal + transaction_start) port" where
  "start_transaction hmac sha svc q instant s =
     (if \<not> redirect_allowed (os_redirects svc) (orq_provider q) (orq_redirect_uri q) (orq_return_to q) \<or>
         (\<exists>scope\<in>orq_scopes q. \<not> filled_text scope)
      then (Inr (Inl Invalid_OAuth_Callback), s)
      else case aware_utc_time instant of
        Inl _ \<Rightarrow> (Inr (Inl Invalid_OAuth_Callback), s)
      | Inr now \<Rightarrow>
          (case begin_transaction hmac svc q now s of
             (Inl _, s') \<Rightarrow> (Inr (Inl OAuth_Transaction_Unavailable), s')
           | (Inr (state, binding, t), s') \<Rightarrow>
               call (lift_result (pkce_s256 sha (ot_verifier t))) (\<lambda>challenge.
                 pure (Inr \<lparr>ost_state = state, ost_binding = binding, ost_challenge = challenge,
                            ost_nonce = ot_nonce t, ost_transaction = t\<rparr>)) s'))"

definition consume_callback ::
  "(bytes \<Rightarrow> bytes \<Rightarrow> bytes) \<Rightarrow> 's oauth_service \<Rightarrow> string \<Rightarrow> string \<Rightarrow> string \<Rightarrow> oauth_operation option \<Rightarrow>
     string option \<Rightarrow> py_datetime \<Rightarrow> 's \<Rightarrow> (oauth_refusal + time oauth_transaction) \<times> 's" where
  "consume_callback hmac svc state binding provider operation session_binding instant s =
     (case (callback_secret state, callback_secret binding, aware_utc_time instant) of
        (Some state_value, Some binding_value, Inr now) \<Rightarrow>
          if \<not> filled_text provider then (Inl Invalid_OAuth_Callback, s)
          else (case os_consume svc (secret_digest hmac svc state_domain state_value)
                   (secret_digest hmac svc binding_domain binding_value) provider now s of
              (Inl _, s') \<Rightarrow> (Inl OAuth_Transaction_Unavailable, s')
            | (Inr None, s') \<Rightarrow> (Inl Invalid_OAuth_Callback, s')
            | (Inr (Some t), s') \<Rightarrow>
                if operation \<noteq> None \<and> operation \<noteq> Some (ot_operation t) \<or> ot_session_binding t \<noteq> session_binding
                then (Inl Invalid_OAuth_Callback, s')
                else (Inr t, s'))
      | _ \<Rightarrow> (Inl Invalid_OAuth_Callback, s))"

section \<open>The binding cookie\<close>

record oauth_cookie =
  oc_key :: string
  oc_value :: string
  oc_max_age :: int
  oc_secure :: bool
  oc_httponly :: bool
  oc_samesite :: string
  oc_path :: string
  oc_domain :: "string option"

definition oauth_binding_cookie :: "string \<Rightarrow> int \<Rightarrow> oauth_cookie result" where
  "oauth_binding_cookie v max_age =
     (if v = [] \<or> \<not> (0 < max_age \<and> max_age \<le> 600) then Inl ValueError
      else Inr \<lparr>oc_key = ''__Host-litestar-security-oauth'', oc_value = v, oc_max_age = max_age, oc_secure = True,
                oc_httponly = True, oc_samesite = ''lax'', oc_path = ''/'', oc_domain = None\<rparr>)"

section \<open>What the store keeps\<close>

text \<open>The record a lookup at this instant finds.\<close>

definition live_record :: "transaction_records \<Rightarrow> time \<Rightarrow> transaction_index \<Rightarrow> stored_transaction option" where
  "live_record d now k =
     (case dget d k of
        None \<Rightarrow> None
      | Some st \<Rightarrow> if now < ot_expires_at (st_transaction st) then Some st else None)"

definition transactions_wf :: "transaction_records \<Rightarrow> bool" where
  "transactions_wf d \<longleftrightarrow> dict_ok d \<and> (\<forall>k st. dget d k = Some st \<longrightarrow> transaction_key (st_transaction st) = k)"

lemma dget_drop_expired: "dict_ok d \<Longrightarrow> dget (drop_expired now d) k = live_record d now k"
  using dget_filter [where P = "\<lambda>k s. \<not> now \<ge> ot_expires_at (st_transaction s)", of d k]
  by (auto simp: drop_expired_def live_record_def split: option.splits)

lemma live_after_drop:
  assumes "dict_ok d"
  shows "live_record (drop_expired now d) later k = (if live_record d now k = None then None else live_record d later k)"
  using dget_drop_expired [OF assms, of now k] by (auto simp: live_record_def split: option.splits if_splits)

lemma drop_expired_wf: "transactions_wf d \<Longrightarrow> transactions_wf (drop_expired now d)"
  using dget_drop_expired [of d now]
  by (auto simp: transactions_wf_def live_record_def drop_expired_def simp del: split_paired_All split: option.splits if_splits)

lemma ddel_wf: "transactions_wf d \<Longrightarrow> transactions_wf (ddel k d)"
  by (simp add: transactions_wf_def dget_ddel del: split_paired_All)

lemma dset_wf: "transactions_wf d \<Longrightarrow> transaction_key (st_transaction st) = k \<Longrightarrow> transactions_wf (dset k st d)"
  by (simp add: transactions_wf_def dget_dset del: split_paired_All)

lemma live_key: "transactions_wf d \<Longrightarrow> live_record d now k = Some st \<Longrightarrow> transaction_key (st_transaction st) = k"
  by (auto simp: transactions_wf_def live_record_def simp del: split_paired_All split: option.splits if_splits)

lemma live_mono: "live_record d later k = Some st \<Longrightarrow> now \<le> later \<Longrightarrow> live_record d now k = Some st"
  by (auto simp: live_record_def split: option.splits if_splits)

lemma consume_transaction_spec:
  assumes "dict_ok d"
  shows "consume_transaction gcm m sd bd p now (d, e) =
     (case live_record d now (sd, bd, p) of
        None \<Rightarrow> Inr None
      | Some st \<Rightarrow> (case recover_transaction gcm (mt_protector m) st of Inl x \<Rightarrow> Inl x | Inr t \<Rightarrow> Inr (Some t)),
      (ddel (sd, bd, p) (drop_expired now d), e))"
  using assms
  by (simp add: consume_transaction_def dget_drop_expired Let_def)
     (auto simp: live_record_def split: option.splits sum.splits)

lemma live_after_consume:
  assumes "dict_ok d" "consume_transaction gcm m sd bd p now (d, e) = (r, (d', e'))"
  shows "live_record d' later k = (if k = (sd, bd, p) \<or> live_record d now k = None then None else live_record d later k)"
    and "e' = e"
  using assms live_after_drop [OF assms(1), of now later k]
  by (auto simp: consume_transaction_spec live_record_def dget_ddel split: option.splits if_splits)

lemma consume_keeps_wf:
  "transactions_wf d \<Longrightarrow> consume_transaction gcm m sd bd p now (d, e) = (r, (d', e')) \<Longrightarrow> transactions_wf d'"
  using ddel_wf drop_expired_wf
  by (auto simp: consume_transaction_def Let_def split: option.splits sum.splits if_splits)

section \<open>Secrets come back\<close>

lemma unprotect_protected:
  assumes inverts: "aead_inverts gcm" and keys: "dict_ok (protector_keys p)"
    and sealed: "protect_secret gcm p plain data e = (Inr sealed, e')"
  shows "unprotect_secret gcm p sealed data = Inr plain"
proof -
  obtain nonce where "length nonce = 12"
    and "sealed = \<lparr>ps_ciphertext = nonce @ aead_encrypt gcm (pk_key (op_active p)) nonce plain data,
        ps_key_version = pk_version (op_active p)\<rparr>"
    using sealed
    by (auto simp: protect_secret_def oauth_secret_post_init_def run_ok simp del: call_lift split: if_splits)
  moreover have "dget (protector_keys p) (pk_version (op_active p)) = Some (op_active p)"
    by (simp add: protector_keys_def)
  moreover have "length (aead_encrypt gcm (pk_key (op_active p)) nonce plain data) > 0"
    using inverts by (simp add: aead_inverts_def)
  ultimately show ?thesis
    using inverts by (simp add: unprotect_secret_def aead_inverts_def)
qed

lemma ascii_decoded_encoded: "ascii_encoded s = Inr b \<Longrightarrow> ascii_decoded b = Inr s"
  using ascii_bytes_inverse [of s]
  by (auto simp: ascii_encoded_def ascii_decoded_def is_ascii_def list_all_iff ascii_bytes_def unat_of_nat
      split: if_splits)

end
