(* ===== verification/OAuth_Callbacks.thy ===== *)
theory OAuth_Callbacks
  imports OAuth_Transactions
begin

text \<open>
  What a browser brings back: over the store in memory, a started transaction goes to the first callback that
  names its state, its browser binding and its provider, and to no other.
\<close>

section \<open>Creating\<close>

lemma oauth_transaction_post_init_same: "oauth_transaction_post_init t = Inr t' \<Longrightarrow> t' = t \<and> valid_transaction t"
  by (auto simp: oauth_transaction_post_init_def split: if_splits)

lemma replaced_secrets:
  assumes "replace_secrets t v n = Inr redacted"
  shows "redacted = t\<lparr>ot_verifier := v, ot_nonce := n\<rparr>" and "valid_transaction t"
  using oauth_transaction_post_init_same [of "t\<lparr>ot_verifier := v, ot_nonce := n\<rparr>" redacted] assms
  by (auto simp: replace_secrets_def valid_transaction_def)

lemma replace_secrets_back:
  "valid_transaction t \<Longrightarrow>
     replace_secrets (t\<lparr>ot_verifier := a, ot_nonce := b\<rparr>) (ot_verifier t) (ot_nonce t) = Inr t"
  by (simp add: replace_secrets_def oauth_transaction_post_init_def valid_transaction_def)

definition opens_to :: "aead \<Rightarrow> 'e oauth_protector \<Rightarrow> bytes \<Rightarrow> string \<Rightarrow> oauth_secret \<Rightarrow> bool" where
  "opens_to gcm p data secret sealed \<longleftrightarrow>
     (\<exists>plain. unprotect_secret gcm p sealed data = Inr plain \<and> ascii_decoded plain = Inr secret)"

lemma recover_sealed:
  assumes "valid_transaction t" "ot_verifier t \<noteq> []" "ot_nonce t \<noteq> Some []"
    and "opens_to gcm p (associated_data t @ ascii_bytes ''pkce'') (ot_verifier t) sealed"
    and "rel_option (opens_to gcm p (associated_data t @ ascii_bytes ''nonce'')) (ot_nonce t) nonce"
  shows "recover_transaction gcm p \<lparr>st_transaction = t\<lparr>ot_verifier := ''*'', ot_nonce := None\<rparr>, st_verifier = sealed,
     st_nonce = nonce\<rparr> = Inr t"
proof -
  have data: "associated_data (t\<lparr>ot_verifier := ''*'', ot_nonce := None\<rparr>) = associated_data t"
    by (simp add: associated_data_def)
  show ?thesis
    using assms replace_secrets_back [where t = t and a = "''*''" and b = None]
    by (cases "ot_nonce t")
      (auto simp: recover_transaction_def data Let_def opens_to_def secret_string_def option_rel_Some1)
qed

lemma sealed_opens:
  assumes "aead_inverts gcm" "dict_ok (protector_keys p)" "ascii_encoded s = Inr plain"
    and "on_second (protect_secret gcm p plain data) (d, e) = (Inr sealed, s')"
  shows "opens_to gcm p data s sealed"
  using assms unprotect_protected [OF assms(1,2), of plain data e sealed] ascii_decoded_encoded [OF assms(3)]
  by (auto simp: opens_to_def on_second_def split: prod.splits)

lemma on_second_fst: "on_second p s = (r, s') \<Longrightarrow> fst s' = fst s"
  by (auto simp: on_second_def split: prod.splits)

lemma insert_transaction_spec:
  assumes "insert_transaction m k st (d, e) = (Inr (), (d', e'))"
  obtains base where "d' = dset k st base" "base = d \<or> (\<exists>now. base = drop_expired now d)" "dget base k = None"
  using assms
  by (auto simp: insert_transaction_def on_second_def call_eq_Inr lift_result_eq_Inr simp del: call_lift
      split: option.splits if_splits prod.splits)

lemma create_transaction_spec:
  assumes inverts: "aead_inverts gcm" and keys: "dict_ok (protector_keys (mt_protector m))"
    and t: "ot_verifier t \<noteq> []" "ot_nonce t \<noteq> Some []"
    and created: "create_transaction gcm m t (d, e) = (Inr (), (d', e'))"
  obtains st base where "d' = dset (transaction_key t) st base" "base = d \<or> (\<exists>now. base = drop_expired now d)"
    "recover_transaction gcm (mt_protector m) st = Inr t"
    "transaction_key (st_transaction st) = transaction_key t" "ot_expires_at (st_transaction st) = ot_expires_at t"
proof -
  let ?pkce = "associated_data t @ ascii_bytes ''pkce''" and ?nonce = "associated_data t @ ascii_bytes ''nonce''"
  obtain plain sealed sealed_nonce redacted s1 s2 where plain: "ascii_encoded (ot_verifier t) = Inr plain"
    and v: "on_second (protect_secret gcm (mt_protector m) plain ?pkce) (d, e) = (Inr sealed, s1)"
    and n: "(case ot_nonce t of None \<Rightarrow> pure None
           | Some nonce \<Rightarrow>
               call (lift_result (ascii_encoded nonce)) (\<lambda>plain.
               call (on_second (protect_secret gcm (mt_protector m) plain ?nonce)) (\<lambda>sealed. pure (Some sealed)))) s1 =
        (Inr sealed_nonce, s2)"
    and redacted: "replace_secrets t ''*'' None = Inr redacted"
    and ins: "insert_transaction m (transaction_key t)
       \<lparr>st_transaction = redacted, st_verifier = sealed, st_nonce = sealed_nonce\<rparr> s2 = (Inr (), (d', e'))"
    using created unfolding create_transaction_def Let_def call_eq_Inr lift_result_eq_Inr by blast
  have opens: "opens_to gcm (mt_protector m) ?pkce (ot_verifier t) sealed"
    using sealed_opens [OF inverts keys plain v] .
  have "rel_option (opens_to gcm (mt_protector m) ?nonce) (ot_nonce t) sealed_nonce \<and> fst s2 = fst s1"
  proof (cases "ot_nonce t")
    case None
    with n show ?thesis by simp
  next
    case (Some nonce)
    then obtain plain' sealed' where "ascii_encoded nonce = Inr plain'"
      and "on_second (protect_secret gcm (mt_protector m) plain' ?nonce) s1 = (Inr sealed', s2)"
      and "sealed_nonce = Some sealed'"
      using n unfolding Some option.case call_eq_Inr lift_result_eq_Inr pure_eq_Inr by blast
    then show ?thesis
      using Some sealed_opens [OF inverts keys, of nonce plain' ?nonce "fst s1" "snd s1" sealed' s2] on_second_fst
      by fastforce
  qed
  moreover have "fst s1 = d" using on_second_fst [OF v] by simp
  moreover obtain base where "d' = dset (transaction_key t)
      \<lparr>st_transaction = redacted, st_verifier = sealed, st_nonce = sealed_nonce\<rparr> base"
    and "base = fst s2 \<or> (\<exists>now. base = drop_expired now (fst s2))"
    using insert_transaction_spec ins by (metis prod.collapse)
  ultimately show ?thesis
    using that recover_sealed [OF replaced_secrets(2) [OF redacted] t opens] replaced_secrets [OF redacted]
    by (auto simp: transaction_key_def)
qed

section \<open>Starting\<close>

text \<open>The service over the store in memory; its entropy source does not touch the records.\<close>

definition memory_service ::
  "aead \<Rightarrow> 'e memory_transactions \<Rightarrow> bytes \<Rightarrow> redirect_policy \<Rightarrow> time \<Rightarrow> (nat \<Rightarrow> ('e, bytes) port) \<Rightarrow>
     (transaction_records \<times> 'e) oauth_service" where
  "memory_service gcm m pepper redirects lifetime source =
     \<lparr>os_create = create_transaction gcm m, os_consume = consume_transaction gcm m, os_pepper = pepper,
      os_redirects = redirects, os_lifetime = lifetime, os_entropy = \<lambda>n. on_second (source n)\<rparr>"

lemma memory_service_simps [simp]:
  "os_create (memory_service gcm m pepper redirects lifetime source) = create_transaction gcm m"
  "os_consume (memory_service gcm m pepper redirects lifetime source) = consume_transaction gcm m"
  "os_lifetime (memory_service gcm m pepper redirects lifetime source) = lifetime"
  "os_entropy (memory_service gcm m pepper redirects lifetime source) = (\<lambda>n. on_second (source n))"
  by (simp_all add: memory_service_def)

lemma b64_char_pkce:
  assumes "n < 64" shows "pkce_char (b64_char n)"
proof (cases "n < 62")
  case True
  with assms show ?thesis by (auto simp: pkce_char_def is_alnum_def b64_char_code Let_def)
next
  case False
  with assms show ?thesis by (simp add: pkce_char_def b64_char_def)
qed

lemma encoded_pkce: "list_all pkce_char (encode_random bs)"
  unfolding encode_random_core by (induction bs rule: b64_core.induct) (auto simp: b64_char_pkce)

lemma encoded_callback_secret: "length bs = 32 \<Longrightarrow> callback_secret (encode_random bs) = Some (encode_random bs)"
  by (simp add: callback_secret_def length_encode_random encoded_pkce)

lemma callback_secret_same: "callback_secret v = Some w \<Longrightarrow> w = v \<and> v \<noteq> []"
  by (auto simp: callback_secret_def split: if_splits)

lemma random_secret_spec:
  assumes "random_secret (memory_service gcm m pepper redirects lifetime source) 32 s = (Inr v, s')"
  shows "callback_secret v = Some v" and "fst s' = fst s"
  using assms encoded_callback_secret
  by (auto simp: random_secret_def checked_entropy_def call_eq_Inr lift_result_eq_Inr pure_eq_Inr secret_string_def
      simp del: call_lift dest!: on_second_fst split: if_splits)

lemma new_transaction_fields:
  assumes "new_transaction hmac svc q now state binding verifier nonce = Inr t"
  shows "transaction_key t = (secret_digest hmac svc state_domain state, secret_digest hmac svc binding_domain binding,
       orq_provider q)"
    and "ot_operation t = orq_operation q" "ot_session_binding t = orq_session_binding q"
    and "ot_verifier t = verifier" "ot_nonce t = nonce" "ot_expires_at t = now + os_lifetime svc" "filled_text (orq_provider q)"
  using assms
  by (auto simp: new_transaction_def transaction_key_def valid_transaction_def
      dest!: oauth_transaction_post_init_same)

lemma begin_transaction_spec:
  assumes svc: "svc = memory_service gcm m pepper redirects lifetime source"
    and started: "begin_transaction hmac svc q now (d, e) = (Inr (state, binding, t), (d', e'))"
  obtains e'' where "create_transaction gcm m t (d, e'') = (Inr (), (d', e'))"
    and "callback_secret state = Some state" "callback_secret binding = Some binding"
    and "new_transaction hmac svc q now state binding (ot_verifier t) (ot_nonce t) = Inr t"
    and "ot_verifier t \<noteq> []" "ot_nonce t \<noteq> Some []"
proof -
  obtain verifier nonce s1 s2 s3 s4 where
    r1: "random_secret svc 32 (d, e) = (Inr state, s1)"
    and r2: "(case orq_browser_binding q of None \<Rightarrow> random_secret svc 32
         | Some b \<Rightarrow> if callback_secret b = None then raise ValueError else pure b) s1 = (Inr binding, s2)"
    and r3: "random_secret svc 32 s2 = (Inr verifier, s3)"
    and r4: "(if orq_include_nonce q then call (random_secret svc 32) (\<lambda>n. pure (Some n)) else pure None) s3 =
        (Inr nonce, s4)"
    and new: "new_transaction hmac svc q now state binding verifier nonce = Inr t"
    and created: "create_transaction gcm m t s4 = (Inr (), (d', e'))"
    using started unfolding begin_transaction_def call_eq_Inr lift_result_eq_Inr pure_eq_Inr
    by (auto simp: svc)
  note secret = random_secret_spec [where gcm = gcm and m = m and pepper = pepper and redirects = redirects and
      lifetime = lifetime and source = source, folded svc]
  have binding: "callback_secret binding = Some binding \<and> fst s2 = fst s1"
    using r2 secret [of s1 binding s2] callback_secret_same by (auto split: option.splits if_splits)
  have nonce: "nonce \<noteq> Some [] \<and> fst s4 = fst s3"
    using r4 secret [of s3 _ s4] callback_secret_same
    by (auto simp: call_eq_Inr split: if_splits)
  note t = new_transaction_fields(4,5) [OF new]
  have "fst s4 = d"
    using nonce binding secret(2) [OF r1] secret(2) [OF r3] by simp
  then show ?thesis
    using that [of "snd s4"] created binding secret(1) [OF r1] new t nonce
      callback_secret_same [OF secret(1) [OF r3]] by (metis prod.collapse)
qed

lemma start_transaction_spec:
  assumes "start_transaction hmac sha svc q (Aware now) s = (Inr (Inr st), s')"
  shows "begin_transaction hmac svc q now s = (Inr (ost_state st, ost_binding st, ost_transaction st), s')"
  using assms
  by (auto simp: start_transaction_def call_def split: if_splits prod.splits sum.splits)

section \<open>Coming back\<close>

record callback =
  cb_state :: string
  cb_binding :: string
  cb_provider :: string
  cb_operation :: "oauth_operation option"
  cb_session :: "string option"
  cb_at :: time

definition handle_callback ::
  "(bytes \<Rightarrow> bytes \<Rightarrow> bytes) \<Rightarrow> 's oauth_service \<Rightarrow> callback \<Rightarrow> 's \<Rightarrow> (oauth_refusal + time oauth_transaction) \<times> 's"
where
  "handle_callback hmac svc c =
     consume_callback hmac svc (cb_state c) (cb_binding c) (cb_provider c) (cb_operation c) (cb_session c) (Aware (cb_at c))"

fun callbacks ::
  "(bytes \<Rightarrow> bytes \<Rightarrow> bytes) \<Rightarrow> 's oauth_service \<Rightarrow> callback list \<Rightarrow> 's \<Rightarrow>
     (oauth_refusal + time oauth_transaction) list \<times> 's" where
  "callbacks hmac svc [] s = ([], s)"
| "callbacks hmac svc (c # cs) s =
     (case handle_callback hmac svc c s of (r, s') \<Rightarrow>
        (case callbacks hmac svc cs s' of (rs, s'') \<Rightarrow> (r # rs, s'')))"

definition callback_key :: "(bytes \<Rightarrow> bytes \<Rightarrow> bytes) \<Rightarrow> 's oauth_service \<Rightarrow> callback \<Rightarrow> transaction_index" where
  "callback_key hmac svc c =
     (secret_digest hmac svc state_domain (cb_state c), secret_digest hmac svc binding_domain (cb_binding c), cb_provider c)"

text \<open>A callback that gets past the checks on its own text.\<close>

definition well_shaped :: "callback \<Rightarrow> bool" where
  "well_shaped c \<longleftrightarrow> callback_secret (cb_state c) \<noteq> None \<and> callback_secret (cb_binding c) \<noteq> None \<and> filled_text (cb_provider c)"

definition accepts :: "callback \<Rightarrow> time oauth_transaction \<Rightarrow> bool" where
  "accepts c t \<longleftrightarrow> (cb_operation c = None \<or> cb_operation c = Some (ot_operation t)) \<and> ot_session_binding t = cb_session c"

lemma handle_misshaped: "\<not> well_shaped c \<Longrightarrow> handle_callback hmac svc c s = (Inl Invalid_OAuth_Callback, s)"
  by (auto simp: handle_callback_def consume_callback_def well_shaped_def split: option.splits)


lemma handle_shaped:
  assumes "well_shaped c" "os_consume svc = consume_transaction gcm m" "dict_ok d"
  shows "handle_callback hmac svc c (d, e) =
     (case live_record d (cb_at c) (callback_key hmac svc c) of
        None \<Rightarrow> Inl Invalid_OAuth_Callback
      | Some st \<Rightarrow> (case recover_transaction gcm (mt_protector m) st of
            Inl _ \<Rightarrow> Inl OAuth_Transaction_Unavailable
          | Inr t \<Rightarrow> if accepts c t then Inr t else Inl Invalid_OAuth_Callback),
      (ddel (callback_key hmac svc c) (drop_expired (cb_at c) d), e))"
proof -
  obtain v b where "callback_secret (cb_state c) = Some v" "callback_secret (cb_binding c) = Some b"
    using assms(1) by (auto simp: well_shaped_def)
  moreover from this have "v = cb_state c" "b = cb_binding c" by (auto dest: callback_secret_same)
  ultimately show ?thesis
    using assms
    by (auto simp: handle_callback_def consume_callback_def callback_key_def well_shaped_def accepts_def
        consume_transaction_spec split: option.splits sum.splits)
qed

lemma recover_key: "recover_transaction gcm p st = Inr t \<Longrightarrow> transaction_key t = transaction_key (st_transaction st)"
  using replaced_secrets(1)
  by (fastforce simp: recover_transaction_def Let_def bind_eq_Inr transaction_key_def)

lemma handle_effect:
  assumes consume: "os_consume svc = consume_transaction gcm m" and wf: "transactions_wf d"
    and handled: "handle_callback hmac svc c (d, e) = (r, (d', e'))"
  shows "transactions_wf d'"
    and "dget d' k = (if well_shaped c then if k = callback_key hmac svc c then None else live_record d (cb_at c) k else dget d k)"
    and "r = Inr t \<longleftrightarrow> well_shaped c \<and> accepts c t \<and>
       (\<exists>st. live_record d (cb_at c) (callback_key hmac svc c) = Some st \<and> recover_transaction gcm (mt_protector m) st = Inr t)"
proof -
  have ok: "dict_ok d" using wf by (simp add: transactions_wf_def)
  consider "\<not> well_shaped c" "d' = d" "r = Inl Invalid_OAuth_Callback"
    | "well_shaped c" using handled handle_misshaped [of c hmac svc "(d, e)"] by auto
  then show "transactions_wf d'"
    and "dget d' k = (if well_shaped c then if k = callback_key hmac svc c then None else live_record d (cb_at c) k else dget d k)"
    and "r = Inr t \<longleftrightarrow> well_shaped c \<and> accepts c t \<and>
       (\<exists>st. live_record d (cb_at c) (callback_key hmac svc c) = Some st \<and> recover_transaction gcm (mt_protector m) st = Inr t)"
    using handled wf ok
    by (cases; auto simp: handle_shaped [OF _ consume ok] ddel_wf drop_expired_wf dget_ddel dget_drop_expired
        split: option.splits sum.splits if_splits)+
qed

lemma result_key:
  assumes "os_consume svc = consume_transaction gcm m" "transactions_wf d"
    and "handle_callback hmac svc c (d, e) = (Inr t, (d', e'))"
  shows "transaction_key t = callback_key hmac svc c" and "dget d (transaction_key t) \<noteq> None"
proof -
  obtain st where st: "live_record d (cb_at c) (callback_key hmac svc c) = Some st"
    and "recover_transaction gcm (mt_protector m) st = Inr t"
    using handle_effect(3) [OF assms] by blast
  then show key: "transaction_key t = callback_key hmac svc c"
    using recover_key live_key [OF assms(2) st] by metis
  show "dget d (transaction_key t) \<noteq> None"
    using st unfolding key by (auto simp: live_record_def split: option.splits)
qed

lemma callbacks_gone:
  assumes "os_consume svc = consume_transaction gcm m" "transactions_wf d" "dget d (transaction_key t) = None"
  shows "Inr t \<notin> set (fst (callbacks hmac svc cs (d, e)))"
  using assms(2,3)
proof (induction cs arbitrary: d e)
  case (Cons c cs)
  obtain r d' e' where h: "handle_callback hmac svc c (d, e) = (r, (d', e'))" by (metis prod.exhaust)
  have "r \<noteq> Inr t"
    using result_key(2) [OF assms(1) Cons.prems(1), of hmac c e t d' e'] h Cons.prems(2) by auto
  moreover have "transactions_wf d'" "dget d' (transaction_key t) = None"
    using handle_effect(1,2) [OF assms(1) Cons.prems(1) h] Cons.prems(2) by (auto simp: live_record_def)
  ultimately show ?case
    using Cons.IH [of d' e'] h by (auto split: prod.splits)
qed simp

lemma callbacks_pass:
  assumes "os_consume svc = consume_transaction gcm m" "transactions_wf d" "dget d k = Some st"
    and "\<And>c. c \<in> set cs \<Longrightarrow> callback_key hmac svc c \<noteq> k \<and> cb_at c < ot_expires_at (st_transaction st)"
    and "callbacks hmac svc cs (d, e) = (rs, (d', e'))"
  shows "transactions_wf d' \<and> dget d' k = Some st"
  using assms(2-5)
proof (induction cs arbitrary: d e rs)
  case (Cons c cs)
  obtain r d1 e1 where h: "handle_callback hmac svc c (d, e) = (r, (d1, e1))" by (metis prod.exhaust)
  have "callback_key hmac svc c \<noteq> k" "cb_at c < ot_expires_at (st_transaction st)"
    using Cons.prems(3) by auto
  then have "transactions_wf d1" "dget d1 k = Some st"
    using handle_effect(1,2) [OF assms(1) Cons.prems(1) h] Cons.prems(2) by (auto simp: live_record_def)
  then show ?case
    using Cons.IH [of d1 e1] Cons.prems(3,4) h by (auto split: prod.splits)
qed simp

lemma started_is_stored:
  assumes svc: "svc = memory_service gcm m pepper redirects lifetime source"
    and inverts: "aead_inverts gcm" and keys: "dict_ok (protector_keys (mt_protector m))" and wf: "transactions_wf d"
    and started: "start_transaction hmac sha svc q (Aware now) (d, e) = (Inr (Inr st), (d', e'))"
  shows "transactions_wf d'"
    and "\<exists>stored. dget d' (transaction_key (ost_transaction st)) = Some stored \<and>
       recover_transaction gcm (mt_protector m) stored = Inr (ost_transaction st) \<and>
       ot_expires_at (st_transaction stored) = now + lifetime"
    and "transaction_key (ost_transaction st) = (secret_digest hmac svc state_domain (ost_state st),
       secret_digest hmac svc binding_domain (ost_binding st), orq_provider q)"
    and "callback_secret (ost_state st) = Some (ost_state st)" "callback_secret (ost_binding st) = Some (ost_binding st)"
    and "filled_text (orq_provider q)"
proof -
  obtain e'' where created: "create_transaction gcm m (ost_transaction st) (d, e'') = (Inr (), (d', e'))"
    and secrets: "callback_secret (ost_state st) = Some (ost_state st)" "callback_secret (ost_binding st) = Some (ost_binding st)"
    and new: "new_transaction hmac svc q now (ost_state st) (ost_binding st) (ot_verifier (ost_transaction st))
        (ot_nonce (ost_transaction st)) = Inr (ost_transaction st)"
    and nonempty: "ot_verifier (ost_transaction st) \<noteq> []" "ot_nonce (ost_transaction st) \<noteq> Some []"
    using begin_transaction_spec [OF svc start_transaction_spec [OF started]] by blast
  obtain stored base where d': "d' = dset (transaction_key (ost_transaction st)) stored base"
    and base: "base = d \<or> (\<exists>now. base = drop_expired now d)"
    and recovers: "recover_transaction gcm (mt_protector m) stored = Inr (ost_transaction st)"
    and key: "transaction_key (st_transaction stored) = transaction_key (ost_transaction st)"
    and expires: "ot_expires_at (st_transaction stored) = ot_expires_at (ost_transaction st)"
    using create_transaction_spec [OF inverts keys nonempty created] by blast
  show "transactions_wf d'"
    unfolding d' using base wf by (auto intro: dset_wf [OF _ key] drop_expired_wf)
  show "\<exists>stored. dget d' (transaction_key (ost_transaction st)) = Some stored \<and>
       recover_transaction gcm (mt_protector m) stored = Inr (ost_transaction st) \<and>
       ot_expires_at (st_transaction stored) = now + lifetime"
    using recovers expires new_transaction_fields(6) [OF new] by (simp add: d' dget_dset svc)
qed (use begin_transaction_spec [OF svc start_transaction_spec [OF started]] new_transaction_fields in metis)+

definition names_start :: "callback \<Rightarrow> transaction_start \<Rightarrow> string \<Rightarrow> bool" where
  "names_start c st provider \<longleftrightarrow>
     cb_state c = ost_state st \<and> cb_binding c = ost_binding st \<and> cb_provider c = provider"

text \<open>HMAC does not confuse what this callback presents with what was issued.\<close>

definition told_apart :: "(bytes \<Rightarrow> bytes \<Rightarrow> bytes) \<Rightarrow> 's oauth_service \<Rightarrow> transaction_start \<Rightarrow> callback \<Rightarrow> bool" where
  "told_apart hmac svc st c \<longleftrightarrow>
     (secret_digest hmac svc state_domain (cb_state c) = secret_digest hmac svc state_domain (ost_state st) \<longrightarrow>
        cb_state c = ost_state st) \<and>
     (secret_digest hmac svc binding_domain (cb_binding c) = secret_digest hmac svc binding_domain (ost_binding st) \<longrightarrow>
        cb_binding c = ost_binding st)"

lemma callback_redeems:
  assumes svc: "svc = memory_service gcm m pepper redirects lifetime source"
    and inverts: "aead_inverts gcm" and keys: "dict_ok (protector_keys (mt_protector m))" and wf: "transactions_wf d"
    and started: "start_transaction hmac sha svc q (Aware now) (d, e) = (Inr (Inr st), (d', e'))"
    and apart: "list_all (told_apart hmac svc st) (c # before)"
    and other: "list_all (\<lambda>b. \<not> names_start b st (orq_provider q) \<and> cb_at b < now + lifetime) before"
    and handled: "handle_callback hmac svc c (snd (callbacks hmac svc before (d', e'))) = (r, s2)"
  shows "r = Inr (ost_transaction st) \<longleftrightarrow>
       names_start c st (orq_provider q) \<and> cb_at c < now + lifetime \<and> accepts c (ost_transaction st)"
    and "names_start c st (orq_provider q) \<Longrightarrow> Inr (ost_transaction st) \<notin> set (fst (callbacks hmac svc after s2))"
proof -
  note stored = started_is_stored [OF svc inverts keys wf started]
  have consume: "os_consume svc = consume_transaction gcm m" by (simp add: svc)
  obtain s where s: "dget d' (transaction_key (ost_transaction st)) = Some s"
    and recovers: "recover_transaction gcm (mt_protector m) s = Inr (ost_transaction st)"
    and expires: "ot_expires_at (st_transaction s) = now + lifetime"
    using stored(2) by blast
  have named: "callback_key hmac svc b = transaction_key (ost_transaction st) \<longleftrightarrow> names_start b st (orq_provider q)"
    if "told_apart hmac svc st b" for b
    using that by (auto simp: stored(3) callback_key_def names_start_def told_apart_def)
  obtain rs d1 e1 where cs: "callbacks hmac svc before (d', e') = (rs, (d1, e1))" by (metis prod.exhaust)
  have d1: "transactions_wf d1 \<and> dget d1 (transaction_key (ost_transaction st)) = Some s"
    by (rule callbacks_pass [OF consume stored(1) s _ cs]) (use apart other named expires in \<open>auto simp: list_all_iff\<close>)
  obtain d2 e2 where s2: "s2 = (d2, e2)" by (cases s2)
  have c: "handle_callback hmac svc c (d1, e1) = (r, (d2, e2))" using handled cs s2 by simp
  have apart_c: "told_apart hmac svc st c" using apart by simp
  have shaped: "well_shaped c" if "names_start c st (orq_provider q)"
    using that stored(4-6) by (auto simp: names_start_def well_shaped_def)
  show "r = Inr (ost_transaction st) \<longleftrightarrow>
       names_start c st (orq_provider q) \<and> cb_at c < now + lifetime \<and> accepts c (ost_transaction st)"
  proof
    assume r: "r = Inr (ost_transaction st)"
    then have key: "callback_key hmac svc c = transaction_key (ost_transaction st)"
      using result_key(1) [OF consume] d1 c by metis
    moreover have "accepts c (ost_transaction st)" "live_record d1 (cb_at c) (callback_key hmac svc c) \<noteq> None"
      using handle_effect(3) [OF consume _ c] d1 r by auto
    ultimately show "names_start c st (orq_provider q) \<and> cb_at c < now + lifetime \<and> accepts c (ost_transaction st)"
      using named [OF apart_c] d1 expires by (auto simp: live_record_def split: if_splits)
  next
    assume n: "names_start c st (orq_provider q) \<and> cb_at c < now + lifetime \<and> accepts c (ost_transaction st)"
    then have "live_record d1 (cb_at c) (callback_key hmac svc c) = Some s"
      using named [OF apart_c] d1 expires by (auto simp: live_record_def)
    then show "r = Inr (ost_transaction st)"
      using handle_effect(3) [OF consume _ c] d1 n shaped recovers by auto
  qed
  show "Inr (ost_transaction st) \<notin> set (fst (callbacks hmac svc after s2))" if n: "names_start c st (orq_provider q)"
    using handle_effect(1,2) [OF consume _ c] d1 shaped n named [OF apart_c] unfolding s2
    by (intro callbacks_gone [OF consume]) auto
qed

text \<open>
  Over the store in memory, a started transaction is returned to a callback exactly when the callback names
  its state, its browser binding and its provider before it expires, expects its operation and presents its
  session; whatever other callbacks came first. A callback that names it uses it up, whether or not it gets it.\<close>

lemma callback_redeems_exactly:
  assumes "svc = memory_service gcm m pepper redirects lifetime source"
    and "aead_inverts gcm" and "dict_ok (protector_keys (mt_protector m))" and "transactions_wf d"
    and "start_transaction hmac sha svc q (Aware now) (d, e) = (Inr (Inr st), (d', e'))"
    and "list_all (told_apart hmac svc st) (c # before)"
    and "list_all (\<lambda>b. \<not> names_start b st (orq_provider q) \<and> cb_at b < now + lifetime) before"
    and "handle_callback hmac svc c (snd (callbacks hmac svc before (d', e'))) = (r, s2)"
  shows "(r = Inr (ost_transaction st) \<longleftrightarrow>
       names_start c st (orq_provider q) \<and> cb_at c < now + lifetime \<and> accepts c (ost_transaction st)) \<and>
     (names_start c st (orq_provider q) \<longrightarrow> Inr (ost_transaction st) \<notin> set (fst (callbacks hmac svc after s2)))"
  using callback_redeems [OF assms] by blast

definition example_callback_mac :: "bytes \<Rightarrow> bytes \<Rightarrow> bytes" where
  "example_callback_mac k msg = take 32 (rev msg)"

definition example_transactions :: "unit memory_transactions" where
  "example_transactions = \<lparr>mt_protector = \<lparr>op_active = \<lparr>pk_version = ''v1'', pk_key = replicate 32 7\<rparr>, op_retained = [],
     op_entropy = \<lambda>n. pure (replicate n 1)\<rparr>, mt_capacity = 8, mt_clock = None\<rparr>"

definition example_callback_service :: "(transaction_records \<times> unit) oauth_service" where
  "example_callback_service = memory_service tagging_aead example_transactions (replicate 32 9)
     \<lparr>rdp_callback_uris = [(''idp'', [''https://app.example/cb''])], rdp_return_to = [''/''],
      rdp_allow_insecure_localhost = False\<rparr> (seconds 600) (\<lambda>n. pure (replicate n 0))"

definition example_oauth_request :: oauth_request where
  "example_oauth_request = \<lparr>orq_operation = OAuth_Login, orq_provider = ''idp'',
     orq_redirect_uri = ''https://app.example/cb'', orq_return_to = ''/'', orq_scopes = {''openid''},
     orq_include_nonce = True, orq_expected_issuer = None, orq_account_id = None, orq_session_binding = None,
     orq_browser_binding = None, orq_security_epoch = None, orq_provider_account_id = None,
     orq_step_up_purpose = None, orq_maximum_age = None\<rparr>"

definition example_oauth_start :: "(oauth_refusal + transaction_start) result \<times> transaction_records \<times> unit" where
  "example_oauth_start = start_transaction example_callback_mac id example_callback_service example_oauth_request (Aware 0) ([], ())"

definition example_callback :: "char \<Rightarrow> callback" where
  "example_callback ch = \<lparr>cb_state = replicate 43 (CHR ''A''), cb_binding = replicate 43 ch,
     cb_provider = ''idp'', cb_operation = Some OAuth_Login, cb_session = None, cb_at = 5\<rparr>"

lemma example_oauth_start_run:
  "case example_oauth_start of
     (Inr (Inr st), s) \<Rightarrow> ost_state st = replicate 43 (CHR ''A'') \<and> ost_binding st = replicate 43 (CHR ''A'') \<and>
       accepts (example_callback (CHR ''A'')) (ost_transaction st)
   | _ \<Rightarrow> False"
  by code_simp

lemma example_callback_apart:
  assumes "ost_state st = replicate 43 (CHR ''A'')" "ost_binding st = replicate 43 (CHR ''A'')"
  shows "list_all (told_apart example_callback_mac example_callback_service st)
      [example_callback (CHR ''A''), example_callback (CHR ''B'')]"
proof -
  have "secret_digest example_callback_mac example_callback_service binding_domain (replicate 43 (CHR ''B'')) \<noteq>
      secret_digest example_callback_mac example_callback_service binding_domain (replicate 43 (CHR ''A''))"
    by code_simp
  then show ?thesis
    by (simp add: told_apart_def assms example_callback_def)
qed

text \<open>A started login: a callback with a foreign browser binding first, then the browser's own.\<close>

lemma example_callback_redeemed:
  "case example_oauth_start of
     (Inr (Inr st), s) \<Rightarrow>
       (case handle_callback example_callback_mac example_callback_service (example_callback (CHR ''A''))
           (snd (callbacks example_callback_mac example_callback_service [example_callback (CHR ''B'')] s)) of
          (r, s2) \<Rightarrow> r = Inr (ost_transaction st) \<and>
            Inr (ost_transaction st) \<notin> set (fst (callbacks example_callback_mac example_callback_service
               [example_callback (CHR ''A'')] s2)))
   | _ \<Rightarrow> False"
proof -
  let ?c = "example_callback (CHR ''A'')" and ?b = "example_callback (CHR ''B'')"
  obtain st d' e' where run: "example_oauth_start = (Inr (Inr st), (d', e'))"
    and st: "ost_state st = replicate 43 (CHR ''A'')" "ost_binding st = replicate 43 (CHR ''A'')"
      "accepts ?c (ost_transaction st)"
    using example_oauth_start_run by (auto split: prod.splits sum.splits)
  obtain r s2 where handled: "handle_callback example_callback_mac example_callback_service ?c
      (snd (callbacks example_callback_mac example_callback_service [?b] (d', e'))) = (r, s2)" by (metis prod.exhaust)
  have "(r = Inr (ost_transaction st) \<longleftrightarrow>
       names_start ?c st (orq_provider example_oauth_request) \<and> cb_at ?c < 0 + seconds 600 \<and> accepts ?c (ost_transaction st)) \<and>
     (names_start ?c st (orq_provider example_oauth_request) \<longrightarrow> Inr (ost_transaction st) \<notin>
        set (fst (callbacks example_callback_mac example_callback_service [?c] s2)))"
  proof (rule callback_redeems_exactly [OF example_callback_service_def tagging_inverts _ _ _ _ _ handled])
    show "dict_ok (protector_keys (mt_protector example_transactions))"
      by (simp add: protector_keys_def example_transactions_def dict_ok_def)
    show "transactions_wf []" by (simp add: transactions_wf_def)
    show "start_transaction example_callback_mac id example_callback_service example_oauth_request (Aware 0) ([], ()) =
        (Inr (Inr st), (d', e'))"
      using run by (simp add: example_oauth_start_def)
    show "list_all (told_apart example_callback_mac example_callback_service st) [?c, ?b]"
      using example_callback_apart [OF st(1,2)] .
    show "list_all (\<lambda>b. \<not> names_start b st (orq_provider example_oauth_request) \<and> cb_at b < 0 + seconds 600) [?b]"
      by (simp add: names_start_def st example_callback_def seconds_def)
  qed
  moreover have "names_start ?c st (orq_provider example_oauth_request)" "cb_at ?c < 0 + seconds 600"
    by (simp_all add: names_start_def st example_callback_def example_oauth_request_def seconds_def)
  ultimately have "r = Inr (ost_transaction st) \<and> Inr (ost_transaction st) \<notin>
        set (fst (callbacks example_callback_mac example_callback_service [?c] s2))"
    using st(3) by blast
  then show ?thesis
    unfolding run prod.case sum.case handled .
qed

end
