(* ===== verification/Spec2Isabelle.thy ===== *)
theory Spec2Isabelle
  imports Authorization Guards Store_Properties Second_Factor MFA_Enrollment Authentication
    Rate_Limit_Ledger Refresh_Liveness Key_Lifecycle WebSocket_Admission
    Session_Lifecycle JWKS_Provider OAuth_Callbacks
begin

text \<open>
  A verification library for litestar-security, the authentication and account package of
  \<^verbatim>\<open>src/src/litestar_security\<close>. Paths below are relative to that directory.

  \<^bold>\<open>The program.\<close> A request carries credentials in slots (a session, an API key, a bearer token). Each
  slot belongs to a mechanism that verifies the credential and resolves it to a principal; the evaluator
  (\<^verbatim>\<open>authentication.py\<close>) runs every presented credential against the policy of the route, and leaves a
  security context (\<^verbatim>\<open>context.py\<close>) that the guards (\<^verbatim>\<open>guards.py\<close>) read. Behind the mechanisms stand the
  account services (\<^verbatim>\<open>accounts/\<close>: passwords, registration, verification, recovery, native sessions, refresh
  tokens, access tokens, MFA) and the providers (\<^verbatim>\<open>providers/\<close>: API keys, JWT). All of them reach their state
  through store protocols, and \<^verbatim>\<open>testing.py\<close> holds the reference stores in memory. \<^verbatim>\<open>websocket/\<close> brings the
  evaluator to WebSocket handshakes, with one-time connect tokens and supervision of open sockets.

  \<^bold>\<open>How code becomes definitions.\<close> A dataclass is a record of the same name in snake case, its
  \<^verbatim>\<open>__post_init__\<close> a function \<open>..._post_init\<close> into \<open>error + 'a\<close>, an enumeration or tagged union a datatype,
  an insertion-ordered dict an association list (\<open>Prelude\<close>: \<open>dget\<close>, \<open>dset\<close>, \<open>ddel\<close>). Exceptions are the
  constructors of \<open>error\<close> and travel in the left summand; sanitized outcomes such as
  \<^verbatim>\<open>InvalidCredentials | VerificationUnavailable\<close> are the datatypes \<open>verdict\<close> and \<open>auth_outcome\<close>. A method of a
  store in memory is a function on the state record \<open>local_store\<close> of \<open>Local_Store\<close> (accounts, password hashes, purpose
  tokens, sessions, refresh tokens) beside the shared \<open>backend\<close> of \<open>Backend\<close> (event log, grants); such a method
  holds one lock for its whole body, so a concurrent execution is a sequence of whole operations
  (\<open>store_step\<close>, \<open>history\<close>). A service calls its stores, clocks, token sources and signers through \<open>port\<close>s, state
  transformers that may raise (\<open>Ports\<close>); services are proved against all ports, or against the store in
  memory (\<open>Local_Store.world\<close>). Digests and tokens are lists of \<open>8 word\<close>; JWT numbers and epochs are Python's
  unbounded integers.

  \<^bold>\<open>Theories.\<close>
  \<^item> Context and authorization: \<open>Context\<close>, \<open>Authorization\<close> (\<^verbatim>\<open>context.py\<close>), \<open>Guards\<close> (\<^verbatim>\<open>guards.py\<close>).
  \<^item> Policies and evaluation: \<open>Policies\<close> (factories, compilation), \<open>Authentication\<close> (slots, mechanisms, registry,
    evaluator; \<^verbatim>\<open>authentication.py\<close>).
  \<^item> Primitives: \<open>Prelude\<close>, \<open>Ports\<close>, \<open>Python_Values\<close>, \<open>Encodings\<close>, \<open>Internal\<close> (\<^verbatim>\<open>accounts/_internal.py\<close>),
    \<open>Records\<close> (\<^verbatim>\<open>accounts/_records.py\<close>), \<open>Refresh_Tokens\<close> (\<^verbatim>\<open>accounts/_refresh_tokens.py\<close>).
  \<^item> The store in memory (\<^verbatim>\<open>testing.py\<close>): \<open>Backend\<close>, \<open>Local_Store\<close>, \<open>Account_Store\<close>, \<open>Session_Store\<close>,
    \<open>Refresh_Store\<close>, with \<open>Refresh_Invariant\<close>, \<open>Store_Steps\<close> and \<open>Store_Properties\<close> on its histories.
  \<^item> Refresh tokens: \<open>Refresh_Commands\<close>, \<open>Receipts\<close> (\<^verbatim>\<open>accounts/_receipts.py\<close>), \<open>Refresh_Service\<close>
    (\<^verbatim>\<open>accounts/_refresh.py\<close>), with \<open>Refresh_Rotation\<close> and \<open>Refresh_Liveness\<close>.
  \<^item> Native sessions: \<open>Session_Records\<close>, \<open>Native_Sessions\<close> (\<^verbatim>\<open>accounts/_sessions.py\<close>), \<open>Session_Lifecycle\<close>.
  \<^item> Passwords and account lifecycle: \<open>Passwords\<close>, \<open>Password_Login\<close>, \<open>Purpose_Tokens\<close>, \<open>Account_Lifecycle\<close>
    (\<^verbatim>\<open>accounts/_passwords.py\<close>, \<^verbatim>\<open>_login.py\<close>, \<^verbatim>\<open>_purpose_tokens.py\<close>, \<^verbatim>\<open>_registration.py\<close>, \<^verbatim>\<open>_recovery.py\<close>),
    \<open>Lifecycle_Properties\<close>; \<open>Rate_Limits\<close> and \<open>Rate_Limit_Ledger\<close> (\<^verbatim>\<open>accounts/_rate_limits.py\<close>).
  \<^item> Second factors: \<open>One_Shot\<close> (the contract of one-time stores), \<open>Challenge_Stores\<close>, \<open>MFA_Store\<close>, \<open>MFA\<close>,
    \<open>MFA_Enrollment\<close>, \<open>Second_Factor\<close> (\<^verbatim>\<open>accounts/_mfa.py\<close>, \<^verbatim>\<open>_mfa_login.py\<close>, \<^verbatim>\<open>_step_up.py\<close>).
  \<^item> API keys: \<open>API_Keys\<close>, \<open>Key_Lifecycle\<close> (\<^verbatim>\<open>providers/api_key/\<close>).
  \<^item> JSON web tokens: \<open>JSON_Documents\<close>, \<open>JWT_Claims\<close>, \<open>JWT_Verification\<close> (\<^verbatim>\<open>providers/jwt/\<close>), \<open>Access_Tokens\<close>
    (\<^verbatim>\<open>accounts/_access_tokens.py\<close>), \<open>Signing_Library\<close> (what is assumed of PyJWT when it signs), \<open>Access_Lifecycle\<close>,
    \<open>Access_Properties\<close>; \<open>JWT_Capabilities\<close> (\<^verbatim>\<open>providers/jwt/_capabilities.py\<close>).
  \<^item> Keys: \<open>JWK_Keys\<close> (\<^verbatim>\<open>providers/jwt/_keys.py\<close>, the published local key set), \<open>JWKS_Documents\<close> and \<open>JWKS_Provider\<close>
    (\<^verbatim>\<open>providers/jwks/\<close>: the key sets of other issuers, whose concurrent calls are the interleavings of \<open>entry_step\<close>).
  \<^item> OAuth: \<open>OAuth_Transactions\<close> (\<^verbatim>\<open>providers/oauth/_transactions.py\<close>) and \<open>OAuth_Callbacks\<close>, which shows that a
    started transaction goes to the first callback that names it and to no other.
  \<^item> WebSockets: \<open>WebSocket_Tokens\<close>, \<open>WebSocket_Lifecycle\<close>, \<open>WebSocket_Admission\<close> (\<^verbatim>\<open>websocket/\<close>, and the
    handshake branch of the middleware in \<^verbatim>\<open>authentication.py\<close>).

  \<^bold>\<open>Interfaces.\<close> Seven locales state what one part relies on in another, and each is interpreted on the model:
  \<open>session_handle\<close> (the context's session object), \<open>one_shot\<close> (three stores of one-time records),
  \<open>totp_store\<close> and \<open>enrollment_store\<close> (what the MFA service needs of its store), \<open>rate_limiter\<close>,
  \<open>refresh_family_store\<close> (rotation, over the tokens and accounts a store holds) and \<open>session_ports\<close> (the native session mechanism).

  \<^bold>\<open>What the lemmas show.\<close> Per operation: the outcome on every branch, errors included, and preservation of
  the component's invariant (\<open>store_ok\<close>, \<open>refresh_ok\<close>, \<open>mfa_ok\<close>, \<open>sessions_ok\<close>, \<open>registry_ok\<close>). Over histories:
  single use of purpose, refresh, recovery and connect tokens, growth of epochs, that revocation is for
  good. Across components: a session, a key or a token that was issued is accepted exactly in its window and for
  its owner, with what its encoding keeps, and is refused after the epoch change, the logout or the revocation that should end it; the
  rate limiter refines a counting ledger; policies compile to what their operators say. The registered
  properties carry a claim number in the text before them.

  \<^bold>\<open>Bounds and fuel.\<close> Instants are microseconds since the epoch, as unbounded integers; where the code
  builds a datetime from a number the years 1 to 9999 are written out (\<open>from_timestamp\<close>), and
  \<^verbatim>\<open>int(t.timestamp())\<close> is exact before the year 2514. The loop that draws distinct recovery codes stops after four draws per code, as
  the code does. The only non-structural loop, the depth scan, has a termination proof. Texts are
  lists of characters below U+0100, so normal form C and encodings are written out for those.

  \<^bold>\<open>Parameters.\<close> Code outside the repository is an argument: the AEAD of receipts, HMAC, SHA-256, Argon2 and TOTP
  functions, entropy, \<^verbatim>\<open>urlsplit\<close> and \<^verbatim>\<open>ipaddress\<close>, \<^verbatim>\<open>json.loads\<close> (\<open>json_reader\<close>), PyJWT (\<open>signature_check\<close>,
  \<open>token_encoder\<close>, key preparation). Hypotheses on them are named: \<open>aead_inverts\<close>, \<open>aead_authentic\<close>,
  \<open>digests_differ\<close>, \<open>connect_digests_differ\<close>, \<open>told_apart\<close>, \<open>library_signs\<close>; loading and converting keys is a \<open>key_library\<close>. Injectivity of a digest is the usual idealisation
  of collision resistance. Awaiting, capacity limiters and metrics leave no trace in the model; a worker
  that exceeds its time is one of the failures of the port it runs. The anyio task group of a socket
  is the list of the events its tasks produce.

  \<^bold>\<open>Not modelled.\<close> The HTTP exchanges of the OAuth, OIDC and IAP providers and the linking of their accounts, the
  transports that fetch remote key sets, the passkey ceremony, AES-GCM protection of MFA secrets, the profiles and
  the facade that assemble the services, the plugin, controllers and transfer schemas, OpenAPI, CLI and
  typing helpers, and the scripted conformance suites of \<^verbatim>\<open>testing.py\<close>.
\<close>

end
